(* ===== verification/Ants_Prelude.thy ===== *)
theory Ants_Prelude
  imports Main "HOL-Library.AList" "HOL-Library.Multiset" "HOL-Library.List_Lexorder"
    "HOL-Library.Char_ord" "HOL-Library.Product_Lexorder"
begin

section \<open>Prelude: the pieces of Go the components share\<close>

text \<open>
  This theory holds what every component of the model uses: the types that stand for Go's
  time, durations and byte strings; Go maps as association lists with distinct keys (the list
  order is the order in which a \<^verbatim>\<open>range\<close> loop happens to visit the map);
  store operations as functions that return the new store together with an error or a value,
  so that an operation that fails after it has written keeps what it wrote; the contract of
  \<^verbatim>\<open>sort.Slice\<close>; and the named collections the component proofs draw on.

  Strings are byte strings (\<^typ>\<open>string\<close>), as in Go. Instants are integers counting
  nanoseconds from Go's zero time, so \<^verbatim>\<open>IsZero\<close> is equality with 0 and
  \<^verbatim>\<open>Before\<close>, \<^verbatim>\<open>After\<close>, \<^verbatim>\<open>Equal\<close> and
  \<^verbatim>\<open>Add\<close> are the integer operations; \<^verbatim>\<open>UTC()\<close> changes only the
  rendering of an instant and is the identity here. Counters of type \<^verbatim>\<open>int\<close> and
  \<^verbatim>\<open>int64\<close> are integers, except where the code shifts durations, which is done at
  width 64.
\<close>

named_theorems go_simps \<open>unfolding rules for the guards and small helpers of the Go code\<close>
named_theorems frame_simps \<open>which fields of the store an operation leaves alone\<close>

subsection \<open>Time, durations, bytes\<close>

type_synonym Time = int
type_synonym Duration = int
type_synonym bytes = string

abbreviation (input) zero_time :: Time where "zero_time \<equiv> 0"
abbreviation (input) Second :: Duration where "Second \<equiv> 1000000000"
abbreviation (input) Millisecond :: Duration where "Millisecond \<equiv> 1000000"
abbreviation (input) Hour :: Duration where "Hour \<equiv> 3600 * Second"

subsection \<open>Characters and strings\<close>

definition is_lower :: "char \<Rightarrow> bool" where
  "is_lower c \<longleftrightarrow> CHR ''a'' \<le> c \<and> c \<le> CHR ''z''"

definition is_upper :: "char \<Rightarrow> bool" where
  "is_upper c \<longleftrightarrow> CHR ''A'' \<le> c \<and> c \<le> CHR ''Z''"

definition is_digit :: "char \<Rightarrow> bool" where
  "is_digit c \<longleftrightarrow> CHR ''0'' \<le> c \<and> c \<le> CHR ''9''"

text \<open>\<open>strings.Cut\<close> for a one-byte separator.\<close>

fun strings_Cut :: "char \<Rightarrow> string \<Rightarrow> string \<times> string \<times> bool" where
  "strings_Cut sep [] = ([], [], False)"
| "strings_Cut sep (c # cs) =
     (if c = sep then ([], cs, True)
      else (case strings_Cut sep cs of (before, after, ok) \<Rightarrow> (c # before, after, ok)))"

lemma strings_Cut_append [simp]:
  "sep \<notin> set p \<Longrightarrow> strings_Cut sep (p @ sep # s) = (p, s, True)"
  by (induction p) auto

lemma strings_Cut_found:
  "strings_Cut sep v = (b, a, True) \<Longrightarrow> v = b @ sep # a \<and> sep \<notin> set b"
proof (induction v arbitrary: b)
  case (Cons c cs)
  then show ?case by (cases "strings_Cut sep cs") (auto split: if_splits)
qed simp

subsection \<open>Go maps as association lists\<close>

type_synonym ('k, 'v) gomap = "('k \<times> 'v) list"

definition map_ok :: "('k, 'v) gomap \<Rightarrow> bool" where
  "map_ok m \<longleftrightarrow> distinct (map fst m)"

abbreviation lookup :: "('k, 'v) gomap \<Rightarrow> 'k \<Rightarrow> 'v option" where
  "lookup m k \<equiv> map_of m k"

abbreviation insert_map :: "'k \<Rightarrow> 'v \<Rightarrow> ('k, 'v) gomap \<Rightarrow> ('k, 'v) gomap" where
  "insert_map k v m \<equiv> AList.update k v m"

abbreviation delete_map :: "'k \<Rightarrow> ('k, 'v) gomap \<Rightarrow> ('k, 'v) gomap" where
  "delete_map k m \<equiv> AList.delete k m"

lemma map_ok_Nil [simp]: "map_ok []"
  by (simp add: map_ok_def)

lemma map_ok_insert [simp]: "map_ok m \<Longrightarrow> map_ok (insert_map k v m)"
  by (simp add: map_ok_def distinct_update)

lemma map_ok_delete [simp]: "map_ok m \<Longrightarrow> map_ok (delete_map k m)"
  by (simp add: map_ok_def distinct_delete)

lemma lookup_insert [simp]:
  "lookup (insert_map k v m) k' = (if k' = k then Some v else lookup m k')"
  by (simp add: update_conv')

lemma lookup_delete [simp]:
  "lookup (delete_map k m) k' = (if k' = k then None else lookup m k')"
  by (simp add: delete_conv')

lemma lookup_in_set: "lookup m k = Some v \<Longrightarrow> (k, v) \<in> set m"
  by (rule map_of_SomeD)

lemma set_in_lookup: "map_ok m \<Longrightarrow> (k, v) \<in> set m \<Longrightarrow> lookup m k = Some v"
  by (simp add: map_ok_def)

lemma values_lookup:
  "map_ok m \<Longrightarrow> v \<in> snd ` set m \<longleftrightarrow> (\<exists>k. lookup m k = Some v)"
  by (auto simp: map_ok_def intro: rev_image_eqI dest: map_of_SomeD)

subsection \<open>Store operations\<close>

text \<open>
  A store operation takes the store and returns the store it leaves behind with an error
  (\<open>Inl\<close>) or a value (\<open>Inr\<close>). \<open>seq_op\<close> is the Go pattern \<^verbatim>\<open>x, err := f(); if err != nil { return err }\<close>.
\<close>

type_synonym ('s, 'e, 'a) op = "'s \<Rightarrow> 's \<times> ('e + 'a)"

definition seq_op :: "('s, 'e, 'a) op \<Rightarrow> ('a \<Rightarrow> ('s, 'e, 'b) op) \<Rightarrow> ('s, 'e, 'b) op" where
  "seq_op m f st = (case m st of (st', Inl e) \<Rightarrow> (st', Inl e) | (st', Inr x) \<Rightarrow> f x st')"

definition return_op :: "'a \<Rightarrow> ('s, 'e, 'a) op" where
  "return_op x st = (st, Inr x)"

definition throw_op :: "'e \<Rightarrow> ('s, 'e, 'a) op" where
  "throw_op e st = (st, Inl e)"

lemma seq_op_return [simp]: "seq_op (return_op x) f = f x"
  by (simp add: fun_eq_iff seq_op_def return_op_def)

lemma seq_op_Inr:
  assumes "seq_op m f st = (st', Inr y)"
  obtains x st1 where "m st = (st1, Inr x)" and "f x st1 = (st', Inr y)"
  using assms by (auto simp: seq_op_def split: prod.splits sum.splits)

lemma seq_op_run [simp]: "m st = (st', Inr x) \<Longrightarrow> seq_op m f st = f x st'"
  by (simp add: seq_op_def)

lemma seq_op_fail [simp]: "m st = (st', Inl e) \<Longrightarrow> seq_op m f st = (st', Inl e)"
  by (simp add: seq_op_def)

text \<open>
  A relation between the store before and after that is transitive is kept by a sequence when
  both parts keep it: the shape of every frame argument below.
\<close>

definition op_rel :: "('s \<Rightarrow> 's \<Rightarrow> bool) \<Rightarrow> ('s, 'e, 'a) op \<Rightarrow> bool" where
  "op_rel R m \<longleftrightarrow> (\<forall>st. R st (fst (m st)))"

lemma op_relI [intro?]: "(\<And>st. R st (fst (m st))) \<Longrightarrow> op_rel R m"
  by (simp add: op_rel_def)

lemma op_rel_seq:
  assumes "transp R" and "op_rel R m" and "\<And>x. op_rel R (f x)"
  shows "op_rel R (seq_op m f)"
proof
  fix st
  show "R st (fst (seq_op m f st))"
  proof (cases "m st")
    case (Pair st1 r)
    have 1: "R st st1"
      using assms(2) Pair unfolding op_rel_def by (metis fst_conv)
    have "R st1 (fst (f x st1))" for x
      using assms(3) unfolding op_rel_def by blast
    then have "R st (fst (f x st1))" for x
      using 1 assms(1) by (meson transpD)
    then show ?thesis
      using 1 Pair by (auto simp: seq_op_def split: sum.splits)
  qed
qed

subsection \<open>\<open>sort.Slice\<close>\<close>

text \<open>
  \<^verbatim>\<open>sort.Slice\<close> rearranges a slice so that no element is less than one before it,
  for a comparison that is a strict weak order. It is not stable: elements that compare equal
  may come out in any order. The model takes the sorting function as an argument and relies on
  this contract only; \<open>insertion_sort\<close> is a concrete function that meets it.
\<close>

definition strict_weak :: "('a \<Rightarrow> 'a \<Rightarrow> bool) \<Rightarrow> bool" where
  "strict_weak lt \<longleftrightarrow> (\<forall>x. \<not> lt x x) \<and> (\<forall>x y z. lt x y \<longrightarrow> lt y z \<longrightarrow> lt x z)
     \<and> (\<forall>x y z. \<not> lt x y \<longrightarrow> \<not> lt y z \<longrightarrow> \<not> lt x z)"

locale sort_slice =
  fixes srt :: "('a \<Rightarrow> 'a \<Rightarrow> bool) \<Rightarrow> 'a list \<Rightarrow> 'a list"
  assumes perm: "strict_weak lt \<Longrightarrow> mset (srt lt xs) = mset xs"
    and ordered: "strict_weak lt \<Longrightarrow> sorted_wrt (\<lambda>a b. \<not> lt b a) (srt lt xs)"
begin

lemma set_srt: "strict_weak lt \<Longrightarrow> set (srt lt xs) = set xs"
  by (metis perm set_mset_mset)

lemma length_srt: "strict_weak lt \<Longrightarrow> length (srt lt xs) = length xs"
  by (metis perm size_mset)

lemma distinct_srt: "strict_weak lt \<Longrightarrow> distinct (srt lt xs) = distinct xs"
  by (rule mset_eq_imp_distinct_iff) (rule perm)

lemma mset_filter_srt:
  "strict_weak lt \<Longrightarrow> mset (filter P (srt lt xs)) = mset (filter P xs)"
  by (simp add: perm)

lemma hd_least:
  assumes "strict_weak lt" and "srt lt xs = y # ys" and "z \<in> set xs"
  shows "\<not> lt z y"
proof -
  have "sorted_wrt (\<lambda>a b. \<not> lt b a) (y # ys)"
    using ordered [OF assms(1), of xs] assms(2) by simp
  moreover have "z = y \<or> z \<in> set ys"
    using assms(3) set_srt [OF assms(1), of xs] by (auto simp: assms(2))
  moreover have "\<not> lt y y"
    using assms(1) by (simp add: strict_weak_def)
  ultimately show ?thesis by auto
qed

text \<open>What is dropped by a cut-off never precedes what is kept.\<close>

lemma take_drop_order:
  assumes "strict_weak lt" and "a \<in> set (take n (srt lt xs))"
    and "b \<in> set (drop n (srt lt xs))"
  shows "\<not> lt b a"
proof -
  have "sorted_wrt (\<lambda>a b. \<not> lt b a) (take n (srt lt xs) @ drop n (srt lt xs))"
    using ordered [OF assms(1)] by simp
  then show ?thesis
    using assms(2,3) unfolding sorted_wrt_append by blast
qed

end

lemma strict_weak_key: "strict_weak (\<lambda>a b. (f a :: 'k :: linorder) < f b)"
  by (auto simp: strict_weak_def)

lemma strict_weakI_key:
  "(\<And>a b. lt a b \<longleftrightarrow> (f a :: 'k :: linorder) < f b) \<Longrightarrow> strict_weak lt"
  by (auto simp: strict_weak_def)

text \<open>When the key decides the comparison and is injective, the sorted list is unique.\<close>

lemma sorted_wrt_unique:
  fixes f :: "'a \<Rightarrow> 'k :: linorder"
  assumes "mset xs = mset ys" and "inj_on f (set xs)"
    and "sorted_wrt (\<lambda>a b. f a \<le> f b) xs" and "sorted_wrt (\<lambda>a b. f a \<le> f b) ys"
  shows "xs = ys"
proof -
  have "sorted (map f xs)" and "sorted (map f ys)"
    using assms(3,4) by (simp_all add: sorted_map)
  moreover have "mset (map f xs) = mset (map f ys)"
    using assms(1) by simp
  ultimately have "map f xs = map f ys"
    by (metis properties_for_sort)
  moreover have "set xs = set ys"
    using assms(1) by (metis set_mset_mset)
  ultimately show ?thesis
    using assms(2) by (metis inj_on_map_eq_map sup.idem)
qed

fun insert_by :: "('a \<Rightarrow> 'a \<Rightarrow> bool) \<Rightarrow> 'a \<Rightarrow> 'a list \<Rightarrow> 'a list" where
  "insert_by lt x [] = [x]"
| "insert_by lt x (y # ys) = (if lt y x then y # insert_by lt x ys else x # y # ys)"

definition insertion_sort :: "('a \<Rightarrow> 'a \<Rightarrow> bool) \<Rightarrow> 'a list \<Rightarrow> 'a list" where
  "insertion_sort lt xs = foldr (insert_by lt) xs []"

lemma insertion_sort_simps [simp]:
  "insertion_sort lt [] = []"
  "insertion_sort lt (x # xs) = insert_by lt x (insertion_sort lt xs)"
  by (simp_all add: insertion_sort_def)

lemma mset_insert_by: "mset (insert_by lt x xs) = add_mset x (mset xs)"
  by (induction xs) auto

lemma set_insert_by: "set (insert_by lt x xs) = insert x (set xs)"
  by (metis mset_insert_by set_mset_add_mset_insert set_mset_mset)

lemma sorted_insert_by:
  assumes "strict_weak lt" and "sorted_wrt (\<lambda>a b. \<not> lt b a) xs"
  shows "sorted_wrt (\<lambda>a b. \<not> lt b a) (insert_by lt x xs)"
  using assms(2)
proof (induction xs)
  case (Cons y ys)
  have asym: "\<not> lt x y" if "lt y x"
    using assms(1) that unfolding strict_weak_def by blast
  have trans: "\<not> lt z x" if "\<not> lt y x" and "\<not> lt z y" for z
    using assms(1) that unfolding strict_weak_def by blast
  from Cons asym trans show ?case
    by (auto simp: set_insert_by)
qed simp

interpretation isort: sort_slice insertion_sort
proof
  fix lt :: "'a \<Rightarrow> 'a \<Rightarrow> bool" and xs
  show "mset (insertion_sort lt xs) = mset xs"
    by (induction xs) (auto simp: mset_insert_by)
  assume "strict_weak lt"
  then show "sorted_wrt (\<lambda>a b. \<not> lt b a) (insertion_sort lt xs)"
    by (induction xs) (auto intro: sorted_insert_by)
qed

end
