(* ===== verification/Domain_Errors.thy ===== *)
theory Domain_Errors
  imports Ants_Prelude
begin

section \<open>The error taxonomy (internal/domain/errors.go)\<close>

text \<open>
  Every failure of the backend is a value of the Go interface \<^verbatim>\<open>error\<close>. The model
  keeps what control flow may look at: the taxonomy kind and the stable code of a
  \<^verbatim>\<open>*domain.Error\<close>, the chain of causes, and the wrappers made by
  \<^verbatim>\<open>fmt.Errorf("...: %w", err)\<close>. Messages and detail maps are prose for people
  (the code forbids matching on them) and are not part of the model.
\<close>

datatype ErrorKind =
    ErrKindInvalid | ErrKindUnauthorized | ErrKindForbidden | ErrKindNotFound
  | ErrKindConflict | ErrKindInvalidTransition | ErrKindPolicyDenied | ErrKindBudgetExhausted
  | ErrKindCancelled | ErrKindTimeout | ErrKindTransient | ErrKindInternal

datatype go_error =
    Error (Kind: ErrorKind) (Code: string) (Cause: "go_error option")
  | Wrapped (Unwrap: go_error)
  | ContextCanceled
  | ContextDeadlineExceeded
  | Foreign
  | Panic

type_synonym 'a result = "go_error + 'a"

text \<open>
  \<open>and_then r f\<close> is the Go idiom \<^verbatim>\<open>x, err := r; if err != nil { return err }; f(x)\<close>.
\<close>

fun and_then :: "'a result \<Rightarrow> ('a \<Rightarrow> 'b result) \<Rightarrow> 'b result" where
  "and_then (Inl e) f = Inl e"
| "and_then (Inr x) f = f x"

lemma and_then_eq_Inr [simp]: "and_then r f = Inr y \<longleftrightarrow> (\<exists>x. r = Inr x \<and> f x = Inr y)"
  by (cases r) auto

lemma and_then_eq_Inl: "and_then r f = Inl e \<longleftrightarrow> r = Inl e \<or> (\<exists>x. r = Inr x \<and> f x = Inl e)"
  by (cases r) auto

definition problemTypeBase :: string where
  "problemTypeBase = ''https://ants.dev/problems/''"

fun ProblemType :: "ErrorKind \<Rightarrow> string" where
  "ProblemType ErrKindInvalid = problemTypeBase @ ''invalid''"
| "ProblemType ErrKindUnauthorized = problemTypeBase @ ''unauthorized''"
| "ProblemType ErrKindForbidden = problemTypeBase @ ''forbidden''"
| "ProblemType ErrKindNotFound = problemTypeBase @ ''not-found''"
| "ProblemType ErrKindConflict = problemTypeBase @ ''conflict''"
| "ProblemType ErrKindInvalidTransition = problemTypeBase @ ''invalid-transition''"
| "ProblemType ErrKindPolicyDenied = problemTypeBase @ ''policy-denied''"
| "ProblemType ErrKindBudgetExhausted = problemTypeBase @ ''budget-exhausted''"
| "ProblemType ErrKindCancelled = problemTypeBase @ ''cancelled''"
| "ProblemType ErrKindTimeout = problemTypeBase @ ''timeout''"
| "ProblemType ErrKindTransient = problemTypeBase @ ''transient''"
| "ProblemType ErrKindInternal = problemTypeBase @ ''internal''"

fun HTTPStatus :: "ErrorKind \<Rightarrow> int" where
  "HTTPStatus ErrKindInvalid = 400"
| "HTTPStatus ErrKindUnauthorized = 401"
| "HTTPStatus ErrKindForbidden = 403"
| "HTTPStatus ErrKindNotFound = 404"
| "HTTPStatus ErrKindConflict = 409"
| "HTTPStatus ErrKindInvalidTransition = 422"
| "HTTPStatus ErrKindPolicyDenied = 403"
| "HTTPStatus ErrKindBudgetExhausted = 403"
| "HTTPStatus ErrKindCancelled = 408"
| "HTTPStatus ErrKindTimeout = 504"
| "HTTPStatus ErrKindTransient = 503"
| "HTTPStatus ErrKindInternal = 500"

text \<open>Constructors. A constructor's formatted message is dropped, its kind and code are kept.\<close>

definition NewError :: "ErrorKind \<Rightarrow> string \<Rightarrow> go_error" where
  "NewError kind code = Error kind code None"

definition Wrap :: "ErrorKind \<Rightarrow> string \<Rightarrow> go_error \<Rightarrow> go_error" where
  "Wrap kind code cause = Error kind code (Some cause)"

definition Invalidf :: "string \<Rightarrow> go_error" where
  "Invalidf code = Error ErrKindInvalid code None"

definition NotFoundf :: "string \<Rightarrow> go_error" where
  "NotFoundf entity = Error ErrKindNotFound (entity @ ''_not_found'') None"

definition Conflictf :: "string \<Rightarrow> go_error" where
  "Conflictf code = Error ErrKindConflict code None"

definition Transientf :: "string \<Rightarrow> go_error" where
  "Transientf code = Error ErrKindTransient code None"

definition Internalf :: "go_error \<Rightarrow> string \<Rightarrow> go_error" where
  "Internalf cause code = Error ErrKindInternal code (Some cause)"

definition NewStaleVersionError :: go_error where
  "NewStaleVersionError = Error ErrKindConflict ''stale_version'' None"

definition NewInvalidTransitionError :: go_error where
  "NewInvalidTransitionError = Error ErrKindInvalidTransition ''invalid_state_transition'' None"

lemmas error_defs [go_simps] =
  NewError_def Wrap_def Invalidf_def NotFoundf_def Conflictf_def Transientf_def Internalf_def
  NewStaleVersionError_def NewInvalidTransitionError_def

text \<open>
  \<open>errors_As\<close> is \<^verbatim>\<open>errors.As(err, &dom)\<close>: the outermost
  \<^verbatim>\<open>*domain.Error\<close> of the chain. \<open>errors_Is_Canceled\<close> is
  \<^verbatim>\<open>errors.Is(err, context.Canceled)\<close>, which also follows the cause of a domain error.
\<close>

fun errors_As :: "go_error \<Rightarrow> (ErrorKind \<times> string) option" where
  "errors_As (Error k c _) = Some (k, c)"
| "errors_As (Wrapped e) = errors_As e"
| "errors_As _ = None"

fun errors_Is_Canceled :: "go_error \<Rightarrow> bool" where
  "errors_Is_Canceled (Error _ _ (Some e)) = errors_Is_Canceled e"
| "errors_Is_Canceled (Wrapped e) = errors_Is_Canceled e"
| "errors_Is_Canceled ContextCanceled = True"
| "errors_Is_Canceled _ = False"

definition ErrKindOf :: "go_error \<Rightarrow> ErrorKind" where
  "ErrKindOf err = (case errors_As err of Some (k, _) \<Rightarrow> k | None \<Rightarrow> ErrKindInternal)"

definition IsRetryable :: "go_error \<Rightarrow> bool" where
  "IsRetryable err =
     (case ErrKindOf err of ErrKindTransient \<Rightarrow> True | ErrKindTimeout \<Rightarrow> True | _ \<Rightarrow> False)"

lemma ErrKindOf_simps [simp]:
  "ErrKindOf (Error k c cause) = k"
  "ErrKindOf (Wrapped e) = ErrKindOf e"
  "ErrKindOf ContextCanceled = ErrKindInternal"
  "ErrKindOf ContextDeadlineExceeded = ErrKindInternal"
  "ErrKindOf Foreign = ErrKindInternal"
  "ErrKindOf Panic = ErrKindInternal"
  by (simp_all add: ErrKindOf_def)

subsection \<open>Properties\<close>

lemma ProblemType_inj: "inj ProblemType"
proof (rule injI)
  fix a b :: ErrorKind
  show "ProblemType a = ProblemType b \<Longrightarrow> a = b"
    by (cases a; cases b) simp_all
qed

text \<open>
  Retry classification and the HTTP mapping agree through any wrapping: an error is
  retryable exactly when the status its kind maps to is 503 or 504, whatever wrappers
  surround it, and an error that carries no domain classification is answered with 500 and is
  never retried.
\<close>

lemma retryable_iff_unavailable_status:
  "(IsRetryable err \<longleftrightarrow> HTTPStatus (ErrKindOf err) \<in> {503, 504})
   \<and> HTTPStatus (ErrKindOf ((Wrapped ^^ n) err)) = HTTPStatus (ErrKindOf err)
   \<and> (if errors_As err = None then HTTPStatus (ErrKindOf err) = 500 else True)
   \<and> 400 \<le> HTTPStatus (ErrKindOf err) \<and> HTTPStatus (ErrKindOf err) < 600"
proof -
  have "ErrKindOf ((Wrapped ^^ n) err) = ErrKindOf err"
    by (induction n) simp_all
  moreover have "if errors_As err = None then HTTPStatus (ErrKindOf err) = 500 else True"
    by (simp add: ErrKindOf_def)
  moreover have "IsRetryable err \<longleftrightarrow> HTTPStatus (ErrKindOf err) \<in> {503, 504}"
    by (cases "ErrKindOf err") (simp_all add: IsRetryable_def)
  moreover have "400 \<le> HTTPStatus (ErrKindOf err) \<and> HTTPStatus (ErrKindOf err) < 600"
    by (cases "ErrKindOf err") simp_all
  ultimately show ?thesis by simp
qed

end
