(* ===== verification/Domain_Ids.thy ===== *)
theory Domain_Ids
  imports Domain_Errors "HOL-Library.Word"
begin

section \<open>Identifiers and bearer tokens (internal/domain/ids.go, runclaim.go)\<close>

text \<open>
  Identifiers are \<^verbatim>\<open><prefix>_<suffix>\<close> strings; \<open>validatePrefixed\<close> is the one
  grammar every parse function applies. Randomness is an argument: an entropy value is what
  \<^verbatim>\<open>rand.Read\<close> put in the buffer (byte \<open>i\<close> of it), or \<open>None\<close> when the read
  failed. The grammar's loop ranges over runes: a byte above 127 belongs to a rune that no
  branch accepts, so the byte-wise test gives the same verdict.
\<close>

type_synonym entropy = "(nat \<Rightarrow> 8 word) option"

definition PrefixTenant :: string where "PrefixTenant = ''ten''"
definition PrefixProject :: string where "PrefixProject = ''prj''"
definition PrefixThread :: string where "PrefixThread = ''thr''"
definition PrefixMessage :: string where "PrefixMessage = ''msg''"
definition PrefixSpec :: string where "PrefixSpec = ''spc''"
definition PrefixTask :: string where "PrefixTask = ''tsk''"
definition PrefixRun :: string where "PrefixRun = ''run''"
definition PrefixWorkspace :: string where "PrefixWorkspace = ''wsp''"
definition PrefixArtifact :: string where "PrefixArtifact = ''art''"
definition PrefixPolicyDecision :: string where "PrefixPolicyDecision = ''pol''"
definition PrefixBudget :: string where "PrefixBudget = ''bgt''"
definition PrefixIntegration :: string where "PrefixIntegration = ''icn''"
definition PrefixAuditEvent :: string where "PrefixAuditEvent = ''aud''"
definition PrefixPrincipal :: string where "PrefixPrincipal = ''prn''"
definition PrefixSandbox :: string where "PrefixSandbox = ''sbx''"
definition PrefixEvent :: string where "PrefixEvent = ''evt''"
definition PrefixRequest :: string where "PrefixRequest = ''req''"

lemmas prefix_defs =
  PrefixTenant_def PrefixProject_def PrefixThread_def PrefixMessage_def PrefixSpec_def
  PrefixTask_def PrefixRun_def PrefixWorkspace_def PrefixArtifact_def PrefixPolicyDecision_def
  PrefixBudget_def PrefixIntegration_def PrefixAuditEvent_def PrefixPrincipal_def
  PrefixSandbox_def PrefixEvent_def PrefixRequest_def

definition all_prefixes :: "string list" where
  "all_prefixes = [PrefixTenant, PrefixProject, PrefixThread, PrefixMessage, PrefixSpec,
     PrefixTask, PrefixRun, PrefixWorkspace, PrefixArtifact, PrefixPolicyDecision, PrefixBudget,
     PrefixIntegration, PrefixAuditEvent, PrefixPrincipal, PrefixSandbox, PrefixEvent,
     PrefixRequest]"

definition idSeparator :: char where "idSeparator = CHR ''_''"
definition minIDRandomChars :: nat where "minIDRandomChars = 20"
definition maxIDSuffixLen :: nat where "maxIDSuffixLen = 64"

definition newPrefixed :: "string \<Rightarrow> string \<Rightarrow> string" where
  "newPrefixed prefix suffix = prefix @ [idSeparator] @ suffix"

definition CodeInvalidID :: string where "CodeInvalidID = ''invalid_id''"

definition id_char :: "char \<Rightarrow> bool" where
  "id_char r \<longleftrightarrow> is_lower r \<or> is_upper r \<or> is_digit r"

definition validatePrefixed :: "string \<Rightarrow> string \<Rightarrow> string result" where
  "validatePrefixed prefix value =
     (if value = [] then Inl (Invalidf CodeInvalidID)
      else case strings_Cut idSeparator value of (gotPrefix, suffix, ok) \<Rightarrow>
        if \<not> ok \<or> gotPrefix \<noteq> prefix then Inl (Invalidf CodeInvalidID)
        else if length suffix < minIDRandomChars \<or> length suffix > maxIDSuffixLen
          then Inl (Invalidf CodeInvalidID)
        else if list_all id_char suffix then Inr value
        else Inl (Invalidf CodeInvalidID))"

definition alphabet :: string where
  "alphabet = ''abcdefghijklmnopqrstuvwxyzABCDEFGHIJKLMNOPQRSTUVWXYZ0123456789''"

definition NewID :: "string \<Rightarrow> entropy \<Rightarrow> string result" where
  "NewID prefix rnd =
     (case rnd of
        None \<Rightarrow> Inl (Wrapped Foreign)
      | Some buf \<Rightarrow> Inr (newPrefixed prefix
          (map (\<lambda>i. alphabet ! (unat (buf i) mod length alphabet)) [0..<26])))"

definition ParseTenantID :: "string \<Rightarrow> string result" where
  "ParseTenantID v = validatePrefixed PrefixTenant v"
definition ParseProjectID :: "string \<Rightarrow> string result" where
  "ParseProjectID v = validatePrefixed PrefixProject v"
definition ParseThreadID :: "string \<Rightarrow> string result" where
  "ParseThreadID v = validatePrefixed PrefixThread v"
definition ParseMessageID :: "string \<Rightarrow> string result" where
  "ParseMessageID v = validatePrefixed PrefixMessage v"
definition ParseSpecID :: "string \<Rightarrow> string result" where
  "ParseSpecID v = validatePrefixed PrefixSpec v"
definition ParseTaskID :: "string \<Rightarrow> string result" where
  "ParseTaskID v = validatePrefixed PrefixTask v"
definition ParseRunID :: "string \<Rightarrow> string result" where
  "ParseRunID v = validatePrefixed PrefixRun v"
definition ParseWorkspaceID :: "string \<Rightarrow> string result" where
  "ParseWorkspaceID v = validatePrefixed PrefixWorkspace v"
definition ParseArtifactID :: "string \<Rightarrow> string result" where
  "ParseArtifactID v = validatePrefixed PrefixArtifact v"
definition ParsePolicyDecisionID :: "string \<Rightarrow> string result" where
  "ParsePolicyDecisionID v = validatePrefixed PrefixPolicyDecision v"
definition ParseBudgetID :: "string \<Rightarrow> string result" where
  "ParseBudgetID v = validatePrefixed PrefixBudget v"
definition ParseIntegrationID :: "string \<Rightarrow> string result" where
  "ParseIntegrationID v = validatePrefixed PrefixIntegration v"
definition ParseAuditEventID :: "string \<Rightarrow> string result" where
  "ParseAuditEventID v = validatePrefixed PrefixAuditEvent v"
definition ParsePrincipalID :: "string \<Rightarrow> string result" where
  "ParsePrincipalID v = validatePrefixed PrefixPrincipal v"
definition ParseSandboxID :: "string \<Rightarrow> string result" where
  "ParseSandboxID v = validatePrefixed PrefixSandbox v"
definition ParseEventID :: "string \<Rightarrow> string result" where
  "ParseEventID v = validatePrefixed PrefixEvent v"

subsection \<open>Run claim tokens\<close>

definition claimTokenEntropyBytes :: nat where "claimTokenEntropyBytes = 32"
definition ClaimTokenLength :: nat where "ClaimTokenLength = 43"

definition base64_url_alphabet :: string where
  "base64_url_alphabet =
     ''ABCDEFGHIJKLMNOPQRSTUVWXYZabcdefghijklmnopqrstuvwxyz0123456789-_''"

definition b64 :: "nat \<Rightarrow> char" where
  "b64 n = base64_url_alphabet ! n"

text \<open>\<^verbatim>\<open>base64.RawURLEncoding.EncodeToString\<close>: no padding.\<close>

fun RawURLEncoding :: "8 word list \<Rightarrow> string" where
  "RawURLEncoding [] = []"
| "RawURLEncoding [x] = [b64 (unat x div 4), b64 (unat x mod 4 * 16)]"
| "RawURLEncoding [x, y] =
     [b64 (unat x div 4), b64 (unat x mod 4 * 16 + unat y div 16), b64 (unat y mod 16 * 4)]"
| "RawURLEncoding (x # y # z # rest) =
     b64 (unat x div 4) # b64 (unat x mod 4 * 16 + unat y div 16)
     # b64 (unat y mod 16 * 4 + unat z div 64) # b64 (unat z mod 64) # RawURLEncoding rest"

definition NewRunClaimToken :: "entropy \<Rightarrow> string result" where
  "NewRunClaimToken rnd =
     (case rnd of
        None \<Rightarrow> Inl (Internalf Foreign ''run_claim_token'')
      | Some buf \<Rightarrow> Inr (RawURLEncoding (map buf [0..<claimTokenEntropyBytes])))"

subsection \<open>Lemmas\<close>

lemma validatePrefixed_iff:
  "validatePrefixed prefix v = Inr w \<longleftrightarrow>
     w = v \<and> (\<exists>suffix. v = newPrefixed prefix suffix \<and> idSeparator \<notin> set prefix
       \<and> 20 \<le> length suffix \<and> length suffix \<le> 64 \<and> list_all id_char suffix)"
proof -
  have "validatePrefixed prefix v = Inr w \<Longrightarrow>
     w = v \<and> (\<exists>suffix. v = newPrefixed prefix suffix \<and> idSeparator \<notin> set prefix
       \<and> 20 \<le> length suffix \<and> length suffix \<le> 64 \<and> list_all id_char suffix)"
    by (auto simp: validatePrefixed_def newPrefixed_def minIDRandomChars_def maxIDSuffixLen_def
        split: if_splits prod.splits dest!: strings_Cut_found)
  moreover have "validatePrefixed prefix (newPrefixed prefix s) = Inr (newPrefixed prefix s)"
    if "idSeparator \<notin> set prefix" "20 \<le> length s" "length s \<le> 64" "list_all id_char s" for s
    using that
    by (simp add: validatePrefixed_def newPrefixed_def minIDRandomChars_def maxIDSuffixLen_def)
  ultimately show ?thesis by auto
qed

lemma validatePrefixed_cases:
  "validatePrefixed prefix v = Inr v \<or> validatePrefixed prefix v = Inl (Invalidf CodeInvalidID)"
  by (auto simp: validatePrefixed_def split: prod.splits)

lemma length_alphabet [simp]: "length alphabet = 62"
  by (simp add: alphabet_def)

lemma alphabet_chars: "list_all id_char alphabet"
  by (simp add: alphabet_def id_char_def is_lower_def is_upper_def is_digit_def less_eq_char_def)

lemma alphabet_nth: "n < 62 \<Longrightarrow> id_char (alphabet ! n)"
  using alphabet_chars by (simp add: list_all_length)

lemma newPrefixed_inj:
  assumes "newPrefixed p s = newPrefixed q t" and "idSeparator \<notin> set p" and "idSeparator \<notin> set q"
  shows "p = q \<and> s = t"
  using assms strings_Cut_append unfolding newPrefixed_def
  by (metis append_Cons append_Nil prod.inject)

lemma no_separator_in_prefixes: "p \<in> set all_prefixes \<Longrightarrow> idSeparator \<notin> set p"
  by (auto simp: all_prefixes_def prefix_defs idSeparator_def)

lemma length_RawURLEncoding: "length (RawURLEncoding bs) = (4 * length bs + 2) div 3"
  by (induction bs rule: RawURLEncoding.induct) auto

lemma b64_inj: "m < 64 \<Longrightarrow> n < 64 \<Longrightarrow> b64 m = b64 n \<longleftrightarrow> m = n"
proof -
  have "distinct base64_url_alphabet" and "length base64_url_alphabet = 64"
    by (simp_all add: base64_url_alphabet_def)
  then show "m < 64 \<Longrightarrow> n < 64 \<Longrightarrow> b64 m = b64 n \<longleftrightarrow> m = n"
    by (simp add: b64_def nth_eq_iff_index_eq)
qed

lemma unat_byte: "unat (x :: 8 word) < 256"
  using unsigned_less [of x, where 'a = nat] by simp

lemma sextet_bounds:
  fixes x y :: nat
  assumes "x < 256" and "y < 256"
  shows "x div 4 < 64" and "x mod 4 * 16 < 64" and "x mod 16 * 4 < 64" and "x mod 64 < 64"
    and "x mod 4 * 16 + y div 16 < 64" and "x mod 16 * 4 + y div 64 < 64"
proof -
  have "y div 16 < 16" and "y div 64 < 4"
    using assms(2) by (simp_all add: less_mult_imp_div_less)
  moreover have "x mod 4 < 4" and "x mod 16 < 16"
    by simp_all
  ultimately show "x mod 4 * 16 + y div 16 < 64" and "x mod 16 * 4 + y div 64 < 64"
    and "x mod 4 * 16 < 64" and "x mod 16 * 4 < 64"
    by linarith+
qed (use assms in \<open>simp_all add: less_mult_imp_div_less\<close>)

lemmas byte_split = sextet_bounds [OF unat_byte unat_byte]

lemma two_digits:
  fixes a b c d k :: nat
  assumes "a * k + b = c * k + d" and "b < k" and "d < k"
  shows "a = c \<and> b = d"
proof -
  have "(a * k + b) div k = (c * k + d) div k" and "(a * k + b) mod k = (c * k + d) mod k"
    using assms(1) by simp_all
  then show ?thesis using assms(2,3) by simp
qed

lemma div_mod_cancel: "(x :: nat) div k = y div k \<Longrightarrow> x mod k = y mod k \<Longrightarrow> x = y"
  by (metis div_mult_mod_eq)

lemma byte_first:
  fixes x x' y y' :: "8 word"
  assumes "b64 (unat x div 4) = b64 (unat x' div 4)"
    and "b64 (unat x mod 4 * 16 + unat y div 16) = b64 (unat x' mod 4 * 16 + unat y' div 16)"
  shows "x = x' \<and> unat y div 16 = unat y' div 16"
proof -
  have "unat x mod 4 = unat x' mod 4 \<and> unat y div 16 = unat y' div 16"
    using assms(2) two_digits [of "unat x mod 4" 16 "unat y div 16" "unat x' mod 4" "unat y' div 16"]
    by (simp add: b64_inj byte_split less_mult_imp_div_less unat_byte)
  moreover have "unat x div 4 = unat x' div 4"
    using assms(1) by (simp add: b64_inj byte_split)
  ultimately show ?thesis
    using div_mod_cancel [of "unat x" 4 "unat x'"] by (simp add: word_unat_eq_iff)
qed

lemma byte_second:
  fixes y y' z z' :: "8 word"
  assumes "unat y div 16 = unat y' div 16"
    and "b64 (unat y mod 16 * 4 + unat z div 64) = b64 (unat y' mod 16 * 4 + unat z' div 64)"
  shows "y = y' \<and> unat z div 64 = unat z' div 64"
proof -
  have "unat y mod 16 = unat y' mod 16 \<and> unat z div 64 = unat z' div 64"
    using assms(2) two_digits [of "unat y mod 16" 4 "unat z div 64" "unat y' mod 16" "unat z' div 64"]
    by (simp add: b64_inj byte_split less_mult_imp_div_less unat_byte)
  then show ?thesis
    using assms(1) div_mod_cancel [of "unat y" 16 "unat y'"] by (simp add: word_unat_eq_iff)
qed

lemma byte_first_alone:
  "b64 (unat (x :: 8 word) div 4) = b64 (unat x' div 4) \<Longrightarrow>
   b64 (unat x mod 4 * 16) = b64 (unat x' mod 4 * 16) \<Longrightarrow> x = x'"
  using byte_first [of x x' 0 0] by simp

lemma byte_second_alone:
  "unat (y :: 8 word) div 16 = unat y' div 16 \<Longrightarrow>
   b64 (unat y mod 16 * 4) = b64 (unat y' mod 16 * 4) \<Longrightarrow> y = y'"
  using byte_second [of y y' 0 0] by simp

lemma byte_third:
  "unat (z :: 8 word) div 64 = unat z' div 64 \<Longrightarrow> b64 (unat z mod 64) = b64 (unat z' mod 64) \<Longrightarrow> z = z'"
  using div_mod_cancel [of "unat z" 64 "unat z'"]
  by (simp add: b64_inj byte_split word_unat_eq_iff)

lemma RawURLEncoding_inj: "RawURLEncoding xs = RawURLEncoding ys \<Longrightarrow> xs = ys"
proof (induction xs arbitrary: ys rule: RawURLEncoding.induct)
  case 1
  then show ?case by (cases ys rule: RawURLEncoding.cases) auto
next
  case (2 x)
  then show ?case by (cases ys rule: RawURLEncoding.cases) (auto dest: byte_first_alone)
next
  case (3 x y)
  then show ?case
  proof (cases ys rule: RawURLEncoding.cases)
    case (3 x' y')
    with "3.prems" have "x = x' \<and> unat y div 16 = unat y' div 16"
      using byte_first [of x x' y y'] by simp
    moreover from this "3.prems" 3 have "y = y'"
      using byte_second_alone [of y y'] by simp
    ultimately show ?thesis using 3 by simp
  qed simp_all
next
  case (4 x y z rest)
  then show ?case
  proof (cases ys rule: RawURLEncoding.cases)
    case (4 x' y' z' rest')
    have eq: "b64 (unat x div 4) = b64 (unat x' div 4)"
      "b64 (unat x mod 4 * 16 + unat y div 16) = b64 (unat x' mod 4 * 16 + unat y' div 16)"
      "b64 (unat y mod 16 * 4 + unat z div 64) = b64 (unat y' mod 16 * 4 + unat z' div 64)"
      "b64 (unat z mod 64) = b64 (unat z' mod 64)" "RawURLEncoding rest = RawURLEncoding rest'"
      using "4.prems" 4 by simp_all
    have 1: "x = x' \<and> unat y div 16 = unat y' div 16" using eq(1,2) by (rule byte_first)
    have 2: "y = y' \<and> unat z div 64 = unat z' div 64" using 1 eq(3) byte_second by blast
    have "z = z'" using 2 eq(4) byte_third by blast
    with 1 2 4 "4.IH" [OF eq(5)] show ?thesis by simp
  qed simp_all
qed

subsection \<open>Properties\<close>

text \<open>
  C35: round trip of generated identifiers, and disjointness of the typed identifier spaces:
  whatever bytes the random source delivers, the identifier generated for an entity prefix
  parses back under that prefix, and no other entity's parser accepts it.
\<close>

theorem NewID_round_trip:
  assumes "p \<in> set all_prefixes"
  shows "\<exists>v. NewID p (Some buf) = Inr v \<and> validatePrefixed p v = Inr v
    \<and> list_all (\<lambda>q. q = p \<or> validatePrefixed q v = Inl (Invalidf CodeInvalidID)) all_prefixes"
proof -
  define s where "s = map (\<lambda>i. alphabet ! (unat (buf i) mod length alphabet)) [0..<26]"
  have s: "length s = 26" "list_all id_char s"
    by (simp_all add: s_def list_all_length alphabet_nth)
  have p: "idSeparator \<notin> set p"
    using assms by (rule no_separator_in_prefixes)
  have own: "validatePrefixed p (newPrefixed p s) = Inr (newPrefixed p s)"
    using s p by (auto simp: validatePrefixed_iff)
  have "validatePrefixed q (newPrefixed p s) = Inl (Invalidf CodeInvalidID)"
    if "q \<in> set all_prefixes" "q \<noteq> p" for q
  proof -
    have "newPrefixed p s \<noteq> newPrefixed q t" for t
      using newPrefixed_inj [of p s q t] p that no_separator_in_prefixes [OF that(1)] by blast
    then have "validatePrefixed q (newPrefixed p s) \<noteq> Inr (newPrefixed p s)"
      by (simp add: validatePrefixed_iff)
    then show ?thesis using validatePrefixed_cases [of q "newPrefixed p s"] by blast
  qed
  then have "list_all (\<lambda>q. q = p \<or> validatePrefixed q (newPrefixed p s) = Inl (Invalidf CodeInvalidID))
      all_prefixes"
    by (auto simp: list_all_iff)
  with own show ?thesis
    by (auto simp: NewID_def s_def)
qed

theorem NewID_round_trip_witness:
  "\<exists>v. NewID PrefixRun (Some (\<lambda>i. of_nat (7 * i))) = Inr v \<and> validatePrefixed PrefixRun v = Inr v
    \<and> list_all (\<lambda>q. q = PrefixRun \<or> validatePrefixed q v = Inl (Invalidf CodeInvalidID)) all_prefixes"
  by (rule NewID_round_trip) (simp add: all_prefixes_def)

text \<open>
  Bearer tokens. Every successful mint is exactly \<open>ClaimTokenLength\<close> characters, and
  two mints agree only when all 32 bytes of their entropy agree: the encoding loses none of it.
\<close>

theorem NewRunClaimToken_faithful:
  "\<exists>t. NewRunClaimToken (Some f) = Inr t \<and> length t = ClaimTokenLength
    \<and> (NewRunClaimToken (Some g) = Inr t \<longleftrightarrow> map f [0..<32] = map g [0..<32])"
proof -
  have "RawURLEncoding (map g [0..<32]) = RawURLEncoding (map f [0..<32])
      \<longleftrightarrow> map f [0..<32] = map g [0..<32]"
    using RawURLEncoding_inj by metis
  then show ?thesis
    by (simp add: NewRunClaimToken_def claimTokenEntropyBytes_def ClaimTokenLength_def
        length_RawURLEncoding del: upt_conv_Cons upt_rec_numeral map_eq_conv)
qed

end
