(* ===== verification/Domain_States.thy ===== *)
theory Domain_States
  imports Domain_Errors
begin

section \<open>State machines (internal/domain/states.go and the status types)\<close>

text \<open>
  Every lifecycle is a transition table: a map from a status to the statuses it may move to.
  A status type is a datatype with the constants the code declares; the table is an association
  list in the order the code writes it. \<open>checkTransitionTable\<close> is the consistency check
  the package runs from its \<^verbatim>\<open>init\<close> functions, where a failure is a panic at
  start-up.
\<close>

type_synonym 's transitionTable = "('s, 's list) gomap"

definition edgesFrom :: "'s transitionTable \<Rightarrow> 's \<Rightarrow> 's list" where
  "edgesFrom t from = (case lookup t from of None \<Rightarrow> [] | Some targets \<Rightarrow> targets)"

definition allows :: "'s transitionTable \<Rightarrow> 's \<Rightarrow> 's \<Rightarrow> bool" where
  "allows t from to \<longleftrightarrow> list_ex (\<lambda>next. next = to) (edgesFrom t from)"

definition checkTransitionTable :: "'s list \<Rightarrow> 's transitionTable \<Rightarrow> unit result" where
  "checkTransitionTable states table =
     (if \<not> list_all (\<lambda>(from, targets). List.member states from
            \<and> list_all (List.member states) targets) table
        then Inl (Invalidf ''state_machine'')
      else if \<not> list_all (\<lambda>s. list_ex (\<lambda>(from, _). from = s) table) states
        then Inl (Invalidf ''state_machine'')
      else Inr ())"

subsection \<open>Threads\<close>

datatype ThreadStatus =
    ThreadIdle | ThreadPlanning | ThreadAwaitingInput | ThreadReadyToExecute | ThreadExecuting
  | ThreadWaitingExternal | ThreadNeedsAttention | ThreadReviewing | ThreadFixing
  | ThreadReadyForReview | ThreadMerged | ThreadFailed | ThreadArchived

definition AllThreadStatuses :: "ThreadStatus list" where
  "AllThreadStatuses = [ThreadIdle, ThreadPlanning, ThreadAwaitingInput, ThreadReadyToExecute,
     ThreadExecuting, ThreadWaitingExternal, ThreadNeedsAttention, ThreadReviewing, ThreadFixing,
     ThreadReadyForReview, ThreadMerged, ThreadFailed, ThreadArchived]"

definition threadTransitions :: "ThreadStatus transitionTable" where
  "threadTransitions =
    [(ThreadIdle, [ThreadPlanning, ThreadArchived]),
     (ThreadPlanning, [ThreadAwaitingInput, ThreadReadyToExecute, ThreadFailed, ThreadArchived]),
     (ThreadAwaitingInput, [ThreadPlanning, ThreadReadyToExecute, ThreadArchived]),
     (ThreadReadyToExecute, [ThreadExecuting, ThreadNeedsAttention, ThreadArchived]),
     (ThreadExecuting, [ThreadWaitingExternal, ThreadNeedsAttention, ThreadReviewing,
                        ThreadFailed, ThreadArchived]),
     (ThreadWaitingExternal, [ThreadExecuting, ThreadFailed, ThreadArchived]),
     (ThreadNeedsAttention, [ThreadExecuting, ThreadArchived]),
     (ThreadReviewing, [ThreadFixing, ThreadReadyForReview, ThreadFailed, ThreadArchived]),
     (ThreadFixing, [ThreadReviewing, ThreadArchived]),
     (ThreadReadyForReview, [ThreadMerged, ThreadIdle, ThreadArchived]),
     (ThreadMerged, [ThreadArchived]),
     (ThreadFailed, [ThreadIdle, ThreadArchived]),
     (ThreadArchived, [])]"

definition CanTransitionThread :: "ThreadStatus \<Rightarrow> ThreadStatus \<Rightarrow> bool" where
  "CanTransitionThread from to = allows threadTransitions from to"

subsection \<open>Runs\<close>

datatype RunStatus =
    RunPending | RunPlanning | RunExecuting | RunIntegrating | RunVerifying | RunReporting
  | RunCompleted | RunFailed | RunCancelled

definition AllRunStatuses :: "RunStatus list" where
  "AllRunStatuses = [RunPending, RunPlanning, RunExecuting, RunIntegrating, RunVerifying,
     RunReporting, RunCompleted, RunFailed, RunCancelled]"

definition runTransitions :: "RunStatus transitionTable" where
  "runTransitions =
    [(RunPending, [RunPlanning, RunCancelled]),
     (RunPlanning, [RunExecuting, RunFailed, RunCancelled]),
     (RunExecuting, [RunIntegrating, RunVerifying, RunFailed, RunCancelled]),
     (RunIntegrating, [RunVerifying, RunFailed, RunCancelled]),
     (RunVerifying, [RunReporting, RunFailed, RunCancelled]),
     (RunReporting, [RunCompleted, RunFailed, RunCancelled]),
     (RunCompleted, []),
     (RunFailed, []),
     (RunCancelled, [])]"

definition CanTransitionRun :: "RunStatus \<Rightarrow> RunStatus \<Rightarrow> bool" where
  "CanTransitionRun from to = allows runTransitions from to"

definition Terminal :: "RunStatus \<Rightarrow> bool" where
  "Terminal s \<longleftrightarrow> s = RunCompleted \<or> s = RunFailed \<or> s = RunCancelled"

subsection \<open>Tasks\<close>

datatype TaskStatus =
    TaskDraft | TaskQueued | TaskProvisioning | TaskWorking | TaskVerifying | TaskIntegrating
  | TaskDone | TaskWaitingExternal | TaskBlocked | TaskCancelled | TaskFailed

definition AllTaskStatuses :: "TaskStatus list" where
  "AllTaskStatuses = [TaskDraft, TaskQueued, TaskProvisioning, TaskWorking, TaskVerifying,
     TaskIntegrating, TaskDone, TaskWaitingExternal, TaskBlocked, TaskCancelled, TaskFailed]"

definition taskTransitions :: "TaskStatus transitionTable" where
  "taskTransitions =
    [(TaskDraft, [TaskQueued, TaskCancelled]),
     (TaskQueued, [TaskProvisioning, TaskBlocked, TaskCancelled]),
     (TaskProvisioning, [TaskWorking, TaskWaitingExternal, TaskBlocked, TaskFailed, TaskCancelled]),
     (TaskWorking, [TaskVerifying, TaskWaitingExternal, TaskBlocked, TaskFailed, TaskCancelled]),
     (TaskVerifying, [TaskIntegrating, TaskWorking, TaskFailed, TaskCancelled]),
     (TaskIntegrating, [TaskDone, TaskFailed, TaskCancelled]),
     (TaskDone, []),
     (TaskWaitingExternal, [TaskWorking, TaskCancelled]),
     (TaskBlocked, [TaskQueued, TaskCancelled]),
     (TaskCancelled, []),
     (TaskFailed, [TaskQueued, TaskCancelled])]"

definition CanTransitionTask :: "TaskStatus \<Rightarrow> TaskStatus \<Rightarrow> bool" where
  "CanTransitionTask from to = allows taskTransitions from to"

subsection \<open>Specifications, workspaces, integration connections\<close>

datatype SpecStatus = SpecDraft | SpecApproved | SpecRejected | SpecSuperseded

definition AllSpecStatuses :: "SpecStatus list" where
  "AllSpecStatuses = [SpecDraft, SpecApproved, SpecRejected, SpecSuperseded]"

definition specTransitions :: "SpecStatus transitionTable" where
  "specTransitions =
    [(SpecDraft, [SpecApproved, SpecRejected, SpecSuperseded]),
     (SpecApproved, [SpecSuperseded]),
     (SpecRejected, [SpecDraft]),
     (SpecSuperseded, [])]"

definition CanTransitionSpec :: "SpecStatus \<Rightarrow> SpecStatus \<Rightarrow> bool" where
  "CanTransitionSpec from to = allows specTransitions from to"

datatype WorkspaceStatus =
    WorkspaceCreating | WorkspaceReady | WorkspaceCommitted | WorkspaceFailed | WorkspaceReleased

definition AllWorkspaceStatuses :: "WorkspaceStatus list" where
  "AllWorkspaceStatuses =
     [WorkspaceCreating, WorkspaceReady, WorkspaceCommitted, WorkspaceFailed, WorkspaceReleased]"

definition workspaceTransitions :: "WorkspaceStatus transitionTable" where
  "workspaceTransitions =
    [(WorkspaceCreating, [WorkspaceReady, WorkspaceFailed, WorkspaceReleased]),
     (WorkspaceReady, [WorkspaceCommitted, WorkspaceFailed, WorkspaceReleased]),
     (WorkspaceCommitted, [WorkspaceReleased]),
     (WorkspaceFailed, [WorkspaceReleased]),
     (WorkspaceReleased, [])]"

definition CanTransitionWorkspace :: "WorkspaceStatus \<Rightarrow> WorkspaceStatus \<Rightarrow> bool" where
  "CanTransitionWorkspace from to = allows workspaceTransitions from to"

datatype ConnectionStatus =
  ConnectionPending | ConnectionConnected | ConnectionErrored | ConnectionRevoked

definition AllConnectionStatuses :: "ConnectionStatus list" where
  "AllConnectionStatuses =
     [ConnectionPending, ConnectionConnected, ConnectionErrored, ConnectionRevoked]"

definition connectionTransitions :: "ConnectionStatus transitionTable" where
  "connectionTransitions =
    [(ConnectionPending, [ConnectionConnected, ConnectionErrored]),
     (ConnectionConnected, [ConnectionErrored, ConnectionRevoked]),
     (ConnectionErrored, [ConnectionConnected, ConnectionRevoked]),
     (ConnectionRevoked, [])]"

definition CanTransitionConnection :: "ConnectionStatus \<Rightarrow> ConnectionStatus \<Rightarrow> bool" where
  "CanTransitionConnection from to = allows connectionTransitions from to"

subsection \<open>Run claims and outbox deliveries\<close>

datatype RunClaimStatus = ClaimRunnable | ClaimClaimed

definition AllRunClaimStatuses :: "RunClaimStatus list" where
  "AllRunClaimStatuses = [ClaimRunnable, ClaimClaimed]"

definition runClaimTransitions :: "RunClaimStatus transitionTable" where
  "runClaimTransitions = [(ClaimRunnable, [ClaimClaimed]), (ClaimClaimed, [ClaimRunnable])]"

definition CanTransitionRunClaim :: "RunClaimStatus \<Rightarrow> RunClaimStatus \<Rightarrow> bool" where
  "CanTransitionRunClaim from to = allows runClaimTransitions from to"

datatype OutboxDeliveryStatus =
  OutboxPending | OutboxLeased | OutboxDelivered | OutboxDead | OutboxDiscarded

definition AllOutboxDeliveryStatuses :: "OutboxDeliveryStatus list" where
  "AllOutboxDeliveryStatuses =
     [OutboxPending, OutboxLeased, OutboxDelivered, OutboxDead, OutboxDiscarded]"

definition outboxDeliveryTransitions :: "OutboxDeliveryStatus transitionTable" where
  "outboxDeliveryTransitions =
    [(OutboxPending, [OutboxLeased]),
     (OutboxLeased, [OutboxDelivered, OutboxPending, OutboxDead]),
     (OutboxDelivered, []),
     (OutboxDead, [OutboxPending, OutboxDiscarded]),
     (OutboxDiscarded, [])]"

definition CanTransitionOutboxDelivery ::
  "OutboxDeliveryStatus \<Rightarrow> OutboxDeliveryStatus \<Rightarrow> bool" where
  "CanTransitionOutboxDelivery from to = allows outboxDeliveryTransitions from to"

subsection \<open>A machine over a table\<close>

text \<open>
  The interface of a lifecycle: a table that passes its consistency check over its declared
  states. Paths of legal transitions, absorbing states and reachability are defined and
  reasoned about once, and each machine interprets the locale.
\<close>

fun legal_path :: "'s transitionTable \<Rightarrow> 's \<Rightarrow> 's list \<Rightarrow> bool" where
  "legal_path t s [] = True"
| "legal_path t s (s' # ss) = (allows t s s' \<and> legal_path t s' ss)"

locale lifecycle =
  fixes states :: "'s list" and table :: "'s transitionTable"
  assumes checked: "checkTransitionTable states table = Inr ()"
    and declared: "s \<in> set states"
begin

lemma row_exists: "\<exists>targets. (s, targets) \<in> set table"
  using checked declared [of s]
  by (fastforce simp: checkTransitionTable_def list_all_iff list_ex_iff split: if_splits)

lemma absorbing_path:
  assumes "edgesFrom table s = []" and "legal_path table s ss"
  shows "ss = []"
  using assms by (cases ss) (auto simp: allows_def)

text \<open>A measure that every edge lowers bounds the length of every path.\<close>

lemma path_length:
  fixes rank :: "'s \<Rightarrow> nat"
  assumes "\<And>a b. allows table a b \<Longrightarrow> rank b < rank a" and "legal_path table s ss"
  shows "length ss \<le> rank s"
  using assms(2)
proof (induction ss arbitrary: s)
  case (Cons s' ss)
  then have "rank s' < rank s" and "length ss \<le> rank s'"
    using assms(1) by auto
  then show ?case by simp
qed simp

end

lemmas table_defs =
  checkTransitionTable_def AllThreadStatuses_def threadTransitions_def AllRunStatuses_def
  runTransitions_def AllTaskStatuses_def taskTransitions_def AllSpecStatuses_def
  specTransitions_def AllWorkspaceStatuses_def workspaceTransitions_def
  AllConnectionStatuses_def connectionTransitions_def AllRunClaimStatuses_def
  runClaimTransitions_def AllOutboxDeliveryStatuses_def outboxDeliveryTransitions_def

lemmas can_transition_defs =
  CanTransitionThread_def CanTransitionRun_def CanTransitionTask_def CanTransitionSpec_def
  CanTransitionWorkspace_def CanTransitionConnection_def CanTransitionRunClaim_def
  CanTransitionOutboxDelivery_def

interpretation thread_machine: lifecycle AllThreadStatuses threadTransitions
proof
  fix s show "s \<in> set AllThreadStatuses" by (cases s) (simp_all add: AllThreadStatuses_def)
qed (simp add: table_defs)

interpretation run_machine: lifecycle AllRunStatuses runTransitions
proof
  fix s show "s \<in> set AllRunStatuses" by (cases s) (simp_all add: AllRunStatuses_def)
qed (simp add: table_defs)

interpretation task_machine: lifecycle AllTaskStatuses taskTransitions
proof
  fix s show "s \<in> set AllTaskStatuses" by (cases s) (simp_all add: AllTaskStatuses_def)
qed (simp add: table_defs)

interpretation spec_machine: lifecycle AllSpecStatuses specTransitions
proof
  fix s show "s \<in> set AllSpecStatuses" by (cases s) (simp_all add: AllSpecStatuses_def)
qed (simp add: table_defs)

interpretation workspace_machine: lifecycle AllWorkspaceStatuses workspaceTransitions
proof
  fix s show "s \<in> set AllWorkspaceStatuses" by (cases s) (simp_all add: AllWorkspaceStatuses_def)
qed (simp add: table_defs)

interpretation connection_machine: lifecycle AllConnectionStatuses connectionTransitions
proof
  fix s show "s \<in> set AllConnectionStatuses" by (cases s) (simp_all add: AllConnectionStatuses_def)
qed (simp add: table_defs)

interpretation claim_machine: lifecycle AllRunClaimStatuses runClaimTransitions
proof
  fix s show "s \<in> set AllRunClaimStatuses" by (cases s) (simp_all add: AllRunClaimStatuses_def)
qed (simp add: table_defs)

interpretation outbox_machine: lifecycle AllOutboxDeliveryStatuses outboxDeliveryTransitions
proof
  fix s show "s \<in> set AllOutboxDeliveryStatuses"
    by (cases s) (simp_all add: AllOutboxDeliveryStatuses_def)
qed (simp add: table_defs)

lemma allows_run:
  "allows runTransitions a b \<longleftrightarrow> b \<in> set (edgesFrom runTransitions a)"
  by (auto simp: allows_def list_ex_iff)

lemma Terminal_absorbing: "Terminal s \<longleftrightarrow> edgesFrom runTransitions s = []"
  by (cases s) (simp_all add: Terminal_def edgesFrom_def runTransitions_def)

text \<open>How far a run status is from the end of its pipeline, over its longest path.\<close>

fun run_rank :: "RunStatus \<Rightarrow> nat" where
  "run_rank RunPending = 6"
| "run_rank RunPlanning = 5"
| "run_rank RunExecuting = 4"
| "run_rank RunIntegrating = 3"
| "run_rank RunVerifying = 2"
| "run_rank RunReporting = 1"
| "run_rank _ = 0"

lemma run_rank_decreases: "allows runTransitions a b \<Longrightarrow> run_rank b < run_rank a"
  by (cases a; cases b) (simp_all add: allows_def edgesFrom_def runTransitions_def)

lemma CanTransitionRun_not_terminal: "CanTransitionRun a b \<Longrightarrow> \<not> Terminal a"
  by (auto simp: CanTransitionRun_def allows_run Terminal_absorbing)

subsection \<open>Properties\<close>

text \<open>
  C34: the run lifecycle ends. The run table passes its start-up check; a run takes at most
  six transitions from any status before it can take no more, the statuses with no way out are
  exactly the terminal ones, and every status that is not terminal may be cancelled.
\<close>

theorem run_lifecycle_ends:
  "checkTransitionTable AllRunStatuses runTransitions = Inr ()
   \<and> (legal_path runTransitions s ss \<longrightarrow> length ss \<le> 6)
   \<and> (Terminal s \<longleftrightarrow> (\<forall>s'. \<not> CanTransitionRun s s'))
   \<and> (Terminal s \<or> CanTransitionRun s RunCancelled)"
proof -
  have "length ss \<le> 6" if "legal_path runTransitions s ss"
  proof -
    have "length ss \<le> run_rank s"
      using run_rank_decreases that by (rule run_machine.path_length [where rank = run_rank])
    also have "run_rank s \<le> 6" by (cases s) simp_all
    finally show ?thesis .
  qed
  moreover have "Terminal s \<longleftrightarrow> (\<forall>s'. \<not> CanTransitionRun s s')"
    by (auto simp: CanTransitionRun_def allows_run Terminal_absorbing)
  moreover have "Terminal s \<or> CanTransitionRun s RunCancelled"
    by (cases s) (simp_all add: Terminal_def CanTransitionRun_def allows_def edgesFrom_def
        runTransitions_def)
  ultimately show ?thesis
    using run_machine.checked by blast
qed

theorem run_lifecycle_ends_witness:
  "legal_path runTransitions RunPending [RunPlanning, RunExecuting, RunIntegrating, RunVerifying,
     RunReporting, RunCompleted]
   \<and> length [RunPlanning, RunExecuting, RunIntegrating, RunVerifying, RunReporting, RunCompleted] \<le> 6"
proof -
  have "legal_path runTransitions RunPending [RunPlanning, RunExecuting, RunIntegrating,
      RunVerifying, RunReporting, RunCompleted]"
    by (simp add: allows_def edgesFrom_def runTransitions_def)
  with run_lifecycle_ends [of RunPending "[RunPlanning, RunExecuting, RunIntegrating,
      RunVerifying, RunReporting, RunCompleted]"]
  show ?thesis by blast
qed

end
