(* ===== verification/Domain_Entities.thy ===== *)
theory Domain_Entities
  imports Domain_Ids Domain_States
begin

section \<open>Entities (internal/domain)\<close>

text \<open>
  One record per entity, with the fields of the Go struct in order, and one definition per
  constructor, validator and mutator. Identifiers are strings, as in Go. An enumeration that
  the code validates has a constructor \<open>\<dots>Other\<close> for a string outside the declared set;
  one the code never validates has only the declared values. A method that mutates its receiver
  returns the new value; on an error the receiver is unchanged.
\<close>

subsection \<open>Tenants and projects (tenant.go)\<close>

datatype TenantStatus = TenantActive | TenantSuspended | TenantDeleted

datatype PlanTier = PlanFree | PlanTeam | PlanEnterprise | PlanOther string

fun PlanTier_Valid :: "PlanTier \<Rightarrow> bool" where
  "PlanTier_Valid PlanFree = True"
| "PlanTier_Valid PlanTeam = True"
| "PlanTier_Valid PlanEnterprise = True"
| "PlanTier_Valid (PlanOther _) = False"

definition MaxSlugLen :: nat where "MaxSlugLen = 64"

definition slug_char :: "char \<Rightarrow> bool" where
  "slug_char r \<longleftrightarrow> is_lower r \<or> is_digit r \<or> r = CHR ''-''"

definition ValidateSlug :: "string \<Rightarrow> unit result" where
  "ValidateSlug slug =
     (if slug = [] then Inl (Invalidf ''slug'')
      else if length slug > MaxSlugLen then Inl (Invalidf ''slug'')
      else if \<not> list_all slug_char slug then Inl (Invalidf ''slug'')
      else if hd slug = CHR ''-'' \<or> last slug = CHR ''-'' then Inl (Invalidf ''slug'')
      else Inr ())"

record Tenant =
  tenant_ID :: string
  tenant_Slug :: string
  tenant_Name :: string
  tenant_Plan :: PlanTier
  tenant_Region :: string
  tenant_Status :: TenantStatus
  tenant_Version :: int
  tenant_CreatedAt :: Time
  tenant_UpdatedAt :: Time

definition NewTenant ::
  "string \<Rightarrow> string \<Rightarrow> string \<Rightarrow> PlanTier \<Rightarrow> string \<Rightarrow> Time \<Rightarrow> Tenant result" where
  "NewTenant ident slug name plan region now =
     and_then (ParseTenantID ident) (\<lambda>_.
     and_then (ValidateSlug slug) (\<lambda>_.
      if name = [] then Inl (Invalidf ''tenant_name'')
      else if \<not> PlanTier_Valid plan then Inl (Invalidf ''tenant_plan'')
      else Inr \<lparr>tenant_ID = ident, tenant_Slug = slug, tenant_Name = name, tenant_Plan = plan,
        tenant_Region = region, tenant_Status = TenantActive, tenant_Version = 1,
        tenant_CreatedAt = now, tenant_UpdatedAt = now\<rparr>))"

record Project =
  project_ID :: string
  project_TenantID :: string
  project_Slug :: string
  project_Name :: string
  project_DefaultBranch :: string
  project_SeedName :: string
  project_Version :: int
  project_CreatedAt :: Time

definition NewProject ::
  "string \<Rightarrow> string \<Rightarrow> string \<Rightarrow> string \<Rightarrow> string \<Rightarrow> string \<Rightarrow> Time \<Rightarrow> Project result" where
  "NewProject ident tenantID slug name defaultBranch seedName now =
     and_then (ParseProjectID ident) (\<lambda>_.
     and_then (ValidateSlug slug) (\<lambda>_.
      if name = [] then Inl (Invalidf ''project_name'')
      else if defaultBranch = [] then Inl (Invalidf ''project_default_branch'')
      else Inr \<lparr>project_ID = ident, project_TenantID = tenantID, project_Slug = slug,
        project_Name = name, project_DefaultBranch = defaultBranch, project_SeedName = seedName,
        project_Version = 1, project_CreatedAt = now\<rparr>))"

subsection \<open>Actors and audit events (audit.go)\<close>

datatype PrincipalKind = PrincipalHuman | PrincipalService | PrincipalSystem | PrincipalOther string

fun PrincipalKind_Valid :: "PrincipalKind \<Rightarrow> bool" where
  "PrincipalKind_Valid (PrincipalOther _) = False"
| "PrincipalKind_Valid _ = True"

record Actor =
  actor_Type :: PrincipalKind
  actor_ID :: string

definition Actor_Validate :: "Actor \<Rightarrow> unit result" where
  "Actor_Validate a =
     (if \<not> PrincipalKind_Valid (actor_Type a) then Inl (Invalidf ''actor_type'')
      else if actor_ID a = [] then Inl (Invalidf ''actor_id'')
      else Inr ())"

text \<open>The zero \<^verbatim>\<open>Actor\<close>, which events of the engine carry: an empty type and id.\<close>

definition zero_Actor :: Actor where
  "zero_Actor = \<lparr>actor_Type = PrincipalOther [], actor_ID = []\<rparr>"

text \<open>Values of the free-form data maps (\<^verbatim>\<open>map[string]any\<close>) the code writes.\<close>

datatype dval = DStr string | DInt int | DBool bool

datatype PolicyAction =
    ActionSandboxCreate | ActionSandboxExec | ActionSCMLocalCommit | ActionSCMPush
  | ActionSCMMergeToProtected | ActionNetworkAccess | ActionSecretRead | ActionHostMutation
  | ActionGlobalInstall | ActionOutboxRequeue | ActionOutboxDiscard | ActionOther string

definition AllPolicyActions :: "PolicyAction list" where
  "AllPolicyActions = [ActionSandboxCreate, ActionSandboxExec, ActionSCMLocalCommit,
     ActionSCMPush, ActionSCMMergeToProtected, ActionNetworkAccess, ActionSecretRead,
     ActionHostMutation, ActionGlobalInstall, ActionOutboxRequeue, ActionOutboxDiscard]"

datatype AuditResult = AuditResultAllowed | AuditResultDenied | AuditResultError

record AuditEvent =
  audit_ID :: string
  audit_TenantID :: string
  audit_Actor :: Actor
  audit_Action :: PolicyAction
  audit_ResourceType :: string
  audit_ResourceID :: string
  audit_Result :: AuditResult
  audit_TraceID :: string
  audit_Metadata :: "(string, dval) gomap"
  audit_At :: Time

subsection \<open>Events (event.go)\<close>

datatype EventType =
    EventTenantCreated | EventProjectCreated | EventThreadCreated | EventThreadStatusChanged
  | EventSpecRecorded | EventRunStarted | EventRunStatusChanged | EventTaskCreated
  | EventTaskStatusChanged | EventWorkspaceCommitted | EventArtifactStored
  | EventPolicyEvaluated | EventBudgetExhausted | EventOutboxDeadLetterRequeued
  | EventOutboxDeadLetterDiscarded

record Event =
  event_ID :: string
  event_Type :: EventType
  event_OccurredAt :: Time
  event_TenantID :: string
  event_AggregateType :: string
  event_AggregateID :: string
  event_AggregateVersion :: int
  event_Actor :: Actor
  event_TraceID :: string
  event_Seq :: int
  event_RunID :: string
  event_Data :: "(string, dval) gomap"

subsection \<open>Policy records (policy.go)\<close>

datatype PolicyOutcome = PolicyAllow | PolicyDeny | PolicyRequireApproval | PolicyOutcomeOther string

fun PolicyOutcome_Valid :: "PolicyOutcome \<Rightarrow> bool" where
  "PolicyOutcome_Valid (PolicyOutcomeOther _) = False"
| "PolicyOutcome_Valid _ = True"

record PolicyRequest =
  preq_TenantID :: string
  preq_RunID :: string
  preq_TaskID :: string
  preq_Principal :: string
  preq_Action :: PolicyAction
  preq_Resource :: string

record PolicyDecision =
  pdec_ID :: string
  pdec_TenantID :: string
  pdec_Request :: PolicyRequest
  pdec_Outcome :: PolicyOutcome
  pdec_Reason :: string
  pdec_PolicyVersion :: string
  pdec_CreatedAt :: Time

subsection \<open>Threads and messages (thread.go)\<close>

datatype ThreadRole = RoleUser | RoleAgent | RoleSystem | RoleOther string
datatype DeliveryMode = DeliveryImmediate | DeliveryQueue | DeliverySteer | DeliveryOther string

record Message =
  message_ID :: string
  message_TenantID :: string
  message_ThreadID :: string
  message_Seq :: int
  message_Role :: ThreadRole
  message_DeliveryMode :: DeliveryMode
  message_Content :: string
  message_CreatedAt :: Time

definition Message_Validate :: "Message \<Rightarrow> unit result" where
  "Message_Validate m =
     and_then (case message_Role m of RoleOther _ \<Rightarrow> Inl (Invalidf ''message_role'') | _ \<Rightarrow> Inr ()) (\<lambda>_.
     and_then (case message_DeliveryMode m of
                 DeliveryOther _ \<Rightarrow> Inl (Invalidf ''message_delivery_mode'') | _ \<Rightarrow> Inr ()) (\<lambda>_.
      if message_Content m = [] then Inl (Invalidf ''message_content'') else Inr ()))"

record Thread =
  thread_ID :: string
  thread_TenantID :: string
  thread_ProjectID :: string
  thread_Title :: string
  thread_Status :: ThreadStatus
  thread_CreatorID :: string
  thread_Version :: int
  thread_CreatedAt :: Time
  thread_UpdatedAt :: Time

definition NewThread ::
  "string \<Rightarrow> string \<Rightarrow> string \<Rightarrow> string \<Rightarrow> string \<Rightarrow> Time \<Rightarrow> Thread result" where
  "NewThread ident tenantID projectID title creator now =
     and_then (ParseThreadID ident) (\<lambda>_.
      if title = [] then Inl (Invalidf ''thread_title'')
      else Inr \<lparr>thread_ID = ident, thread_TenantID = tenantID, thread_ProjectID = projectID,
        thread_Title = title, thread_Status = ThreadIdle, thread_CreatorID = creator,
        thread_Version = 1, thread_CreatedAt = now, thread_UpdatedAt = now\<rparr>)"

definition Thread_TransitionTo :: "Thread \<Rightarrow> ThreadStatus \<Rightarrow> Thread result" where
  "Thread_TransitionTo t nxt =
     (if thread_Status t = nxt then Inl NewInvalidTransitionError
      else if \<not> CanTransitionThread (thread_Status t) nxt then Inl NewInvalidTransitionError
      else Inr (t\<lparr>thread_Status := nxt, thread_Version := thread_Version t + 1\<rparr>))"

subsection \<open>Specifications (spec.go)\<close>

record SpecContent =
  sc_Outcome :: string
  sc_Assumptions :: "string list"
  sc_Requirements :: "string list"
  sc_NonGoals :: "string list"
  sc_SuccessCriteria :: "string list"
  sc_Blockers :: "string list"

definition SpecContent_Validate :: "SpecContent \<Rightarrow> unit result" where
  "SpecContent_Validate c =
     (if sc_Outcome c = [] then Inl (Invalidf ''spec_outcome'')
      else if sc_Requirements c = [] then Inl (Invalidf ''spec_requirements'')
      else Inr ())"

record Spec =
  spec_ID :: string
  spec_TenantID :: string
  spec_ThreadID :: string
  spec_Version :: int
  spec_Status :: SpecStatus
  spec_Content :: SpecContent
  spec_CreatedAt :: Time

definition NewSpec ::
  "string \<Rightarrow> string \<Rightarrow> string \<Rightarrow> int \<Rightarrow> SpecContent \<Rightarrow> Time \<Rightarrow> Spec result" where
  "NewSpec ident tenantID threadID version content now =
     and_then (ParseSpecID ident) (\<lambda>_.
      if version < 1 then Inl (Invalidf ''spec_version'')
      else and_then (SpecContent_Validate content) (\<lambda>_. Inr \<lparr>spec_ID = ident, spec_TenantID = tenantID, spec_ThreadID = threadID,
          spec_Version = version, spec_Status = SpecDraft, spec_Content = content,
          spec_CreatedAt = now\<rparr>))"

definition Spec_transition :: "Spec \<Rightarrow> SpecStatus \<Rightarrow> Spec result" where
  "Spec_transition s nxt =
     (if spec_Status s = nxt then Inl NewInvalidTransitionError
      else if \<not> CanTransitionSpec (spec_Status s) nxt then Inl NewInvalidTransitionError
      else Inr (s\<lparr>spec_Status := nxt\<rparr>))"

definition Spec_Approve :: "Spec \<Rightarrow> Spec result" where
  "Spec_Approve s = Spec_transition s SpecApproved"

definition Spec_Reject :: "Spec \<Rightarrow> Spec result" where
  "Spec_Reject s = Spec_transition s SpecRejected"

definition Spec_Supersede :: "Spec \<Rightarrow> Spec result" where
  "Spec_Supersede s = Spec_transition s SpecSuperseded"

subsection \<open>Tasks (task.go)\<close>

record FailureInfo =
  fi_Code :: string
  fi_Message :: string
  fi_Transient :: bool

datatype TaskKind = TaskKindCodeChange | TaskKindIntegration | TaskKindVerification | TaskKindOther string

fun TaskKind_Valid :: "TaskKind \<Rightarrow> bool" where
  "TaskKind_Valid (TaskKindOther _) = False"
| "TaskKind_Valid _ = True"

record Task =
  task_ID :: string
  task_TenantID :: string
  task_RunID :: string
  task_ThreadID :: string
  task_Name :: string
  task_Kind :: TaskKind
  task_Status :: TaskStatus
  task_Depth :: int
  task_DependsOn :: "string list"
  task_Attempts :: int
  task_MaxAttempts :: int
  task_Failure :: "FailureInfo option"
  task_Version :: int
  task_CreatedAt :: Time
  task_UpdatedAt :: Time

definition NewTask ::
  "string \<Rightarrow> string \<Rightarrow> string \<Rightarrow> string \<Rightarrow> string \<Rightarrow> TaskKind \<Rightarrow> int \<Rightarrow> string list \<Rightarrow> int \<Rightarrow> Time
   \<Rightarrow> Task result" where
  "NewTask ident tenantID runID threadID name kind depth dependsOn maxAttempts now =
     and_then (ParseTaskID ident) (\<lambda>_.
      if name = [] then Inl (Invalidf ''task_name'')
      else if \<not> TaskKind_Valid kind then Inl (Invalidf ''task_kind'')
      else if depth < 0 then Inl (Invalidf ''task_depth'')
      else if maxAttempts < 1 \<or> maxAttempts > 10 then Inl (Invalidf ''task_max_attempts'')
      else Inr \<lparr>task_ID = ident, task_TenantID = tenantID, task_RunID = runID,
        task_ThreadID = threadID, task_Name = name, task_Kind = kind, task_Status = TaskDraft,
        task_Depth = depth, task_DependsOn = dependsOn, task_Attempts = 0,
        task_MaxAttempts = maxAttempts, task_Failure = None, task_Version = 1,
        task_CreatedAt = now, task_UpdatedAt = now\<rparr>)"

definition Task_TransitionTo :: "Task \<Rightarrow> TaskStatus \<Rightarrow> Task result" where
  "Task_TransitionTo t nxt =
     (if task_Status t = nxt then Inl NewInvalidTransitionError
      else if \<not> CanTransitionTask (task_Status t) nxt then Inl NewInvalidTransitionError
      else Inr (t\<lparr>task_Status := nxt, task_Version := task_Version t + 1\<rparr>))"

definition BeginAttempt :: "Task \<Rightarrow> Task result" where
  "BeginAttempt t =
     (if task_Attempts t \<ge> task_MaxAttempts t
      then Inl (Error ErrKindBudgetExhausted ''task_attempts_exhausted'' None)
      else Inr (t\<lparr>task_Attempts := task_Attempts t + 1\<rparr>))"

end
