(* ===== verification/Domain_Runs.thy ===== *)
theory Domain_Runs
  imports Domain_Entities
begin

section \<open>Runs, claims, budgets and reports (internal/domain)\<close>

text \<open>
  The entities of one orchestration pass: the report, the run, its execution claim, the
  workspaces and artifacts it makes, the budget ledger that bounds it and the integration
  connections of a tenant. The lemmas at the end are about the mutators: what a transition may
  change, how far a ledger can be driven, when a run finishes.
\<close>

subsection \<open>Reports (report.go)\<close>

record Evidence =
  ev_Criterion :: string
  ev_Command :: "string list"
  ev_ExitCode :: int
  ev_Passed :: bool
  ev_LogArtifactID :: string
  ev_At :: Time

datatype Severity = SeverityBlocker | SeverityWarning | SeverityNote | SeverityOther string
datatype Confidence = ConfidenceHigh | ConfidenceMedium

record Finding =
  f_Category :: string
  f_Severity :: Severity
  f_Confidence :: Confidence
  f_Location :: string
  f_Scenario :: string

definition Finding_Validate :: "Finding \<Rightarrow> unit result" where
  "Finding_Validate f =
     and_then (case f_Severity f of SeverityOther _ \<Rightarrow> Inl (Invalidf ''finding_severity'') | _ \<Rightarrow> Inr ())
       (\<lambda>_. if f_Category f = [] \<or> f_Scenario f = [] then Inl (Invalidf ''finding_shape'') else Inr ())"

definition Blocking :: "Finding \<Rightarrow> bool" where
  "Blocking f \<longleftrightarrow> f_Severity f = SeverityBlocker"

datatype ArtifactKind = ArtifactDiff | ArtifactLog | ArtifactReport | ArtifactKindOther string

fun ArtifactKind_Valid :: "ArtifactKind \<Rightarrow> bool" where
  "ArtifactKind_Valid (ArtifactKindOther _) = False"
| "ArtifactKind_Valid _ = True"

record ReportTask =
  rt_ID :: string
  rt_Name :: string
  rt_Branch :: string
  rt_CommitSHA :: string
  rt_Status :: TaskStatus
  rt_Attempts :: int
  rt_Failure :: "FailureInfo option"

record ReportIntegration =
  ri_Branch :: string
  ri_SHA :: string
  ri_Conflicts :: "string list"

record ReportVerification =
  rv_Passed :: bool
  rv_Evidence :: "Evidence list"

record ReportArtifactRef =
  ra_ID :: string
  ra_Kind :: ArtifactKind
  ra_Digest :: string

record BudgetSummary =
  bs_TasksUsed :: int
  bs_MaxTasks :: int
  bs_ExecOpsUsed :: int
  bs_MaxExecOps :: int

record RunReport =
  rep_RunID :: string
  rep_ThreadID :: string
  rep_SpecID :: string
  rep_Spec :: SpecContent
  rep_Tasks :: "ReportTask list"
  rep_Integration :: ReportIntegration
  rep_Verification :: ReportVerification
  rep_Findings :: "Finding list"
  rep_Artifacts :: "ReportArtifactRef list"
  rep_Budget :: BudgetSummary
  rep_ReadyForReview :: bool
  rep_Summary :: string
  rep_StartedAt :: Time
  rep_FinishedAt :: Time

subsection \<open>Runs (run.go)\<close>

record Run =
  run_ID :: string
  run_TenantID :: string
  run_ThreadID :: string
  run_SpecID :: string
  run_Status :: RunStatus
  run_IdempotencyKey :: string
  run_Seq :: int
  run_Principal :: string
  run_TaskIDs :: "string list"
  run_Report :: "RunReport option"
  run_Version :: int
  run_CreatedAt :: Time
  run_UpdatedAt :: Time
  run_FinishedAt :: "Time option"
  run_Failure :: "FailureInfo option"

definition MaxIdempotencyKeyLen :: nat where "MaxIdempotencyKeyLen = 256"

definition NewRun :: "string \<Rightarrow> string \<Rightarrow> string \<Rightarrow> string \<Rightarrow> Time \<Rightarrow> Run result" where
  "NewRun ident tenantID threadID idempotencyKey now =
     and_then (ParseRunID ident) (\<lambda>_.
      if idempotencyKey = [] then Inl (Invalidf ''run_idempotency_key'')
      else if length idempotencyKey > MaxIdempotencyKeyLen then Inl (Invalidf ''run_idempotency_key'')
      else Inr \<lparr>run_ID = ident, run_TenantID = tenantID, run_ThreadID = threadID, run_SpecID = [],
        run_Status = RunPending, run_IdempotencyKey = idempotencyKey, run_Seq = 0,
        run_Principal = [], run_TaskIDs = [], run_Report = None, run_Version = 1,
        run_CreatedAt = now, run_UpdatedAt = now, run_FinishedAt = None, run_Failure = None\<rparr>)"

definition WithPrincipal :: "Run \<Rightarrow> string \<Rightarrow> Run" where
  "WithPrincipal r p = r\<lparr>run_Principal := p\<rparr>"

definition Run_TransitionTo :: "Run \<Rightarrow> RunStatus \<Rightarrow> Run result" where
  "Run_TransitionTo r nxt =
     (if run_Status r = nxt then Inl NewInvalidTransitionError
      else if \<not> CanTransitionRun (run_Status r) nxt then Inl NewInvalidTransitionError
      else Inr (r\<lparr>run_Status := nxt, run_Version := run_Version r + 1\<rparr>))"

definition Finish :: "Run \<Rightarrow> RunStatus \<Rightarrow> Time \<Rightarrow> FailureInfo option \<Rightarrow> Run result" where
  "Finish r nxt at failure =
     and_then (case nxt of
         RunCompleted \<Rightarrow> Inr ()
       | RunFailed \<Rightarrow> if failure = None then Inl (Invalidf ''run_failure'') else Inr ()
       | RunCancelled \<Rightarrow> Inr ()
       | _ \<Rightarrow> Inl (Invalidf ''run_finish_state''))
     (\<lambda>_. and_then (Run_TransitionTo r nxt)
       (\<lambda>r'. Inr (r'\<lparr>run_Failure := failure, run_FinishedAt := Some at\<rparr>)))"

subsection \<open>Run claims (runclaim.go)\<close>

record RunClaim =
  claim_TenantID :: string
  claim_RunID :: string
  claim_Status :: RunClaimStatus
  claim_Owner :: string
  claim_Token :: string
  claim_Generation :: int
  claim_Attempts :: int
  claim_AcquiredAt :: "Time option"
  claim_HeartbeatAt :: "Time option"
  claim_ExpiresAt :: "Time option"
  claim_CreatedAt :: Time
  claim_UpdatedAt :: Time

definition MaxClaimOwnerLen :: nat where "MaxClaimOwnerLen = 256"

definition control_char :: "char \<Rightarrow> bool" where
  "control_char r \<longleftrightarrow> of_char r < (32 :: nat) \<or> of_char r = (127 :: nat)"

definition ValidateClaimOwner :: "string \<Rightarrow> unit result" where
  "ValidateClaimOwner owner =
     (if owner = [] then Inl (Invalidf ''run_claim_owner'')
      else if length owner > MaxClaimOwnerLen then Inl (Invalidf ''run_claim_owner'')
      else if list_ex control_char owner then Inl (Invalidf ''run_claim_owner'')
      else Inr ())"

definition ValidateFencing :: "RunClaim \<Rightarrow> unit result" where
  "ValidateFencing c =
     and_then (ValidateClaimOwner (claim_Owner c)) (\<lambda>_.
      if length (claim_Token c) \<noteq> ClaimTokenLength then Inl (Invalidf ''run_claim_token'')
      else if claim_Generation c < 1 then Inl (Invalidf ''run_claim_generation'')
      else Inr ())"

definition Matches :: "RunClaim \<Rightarrow> string \<Rightarrow> string \<Rightarrow> int \<Rightarrow> bool" where
  "Matches c owner token generation \<longleftrightarrow>
     claim_Status c = ClaimClaimed \<and> claim_Owner c = owner \<and> claim_Token c = token
     \<and> claim_Generation c = generation"

text \<open>The last second of 9999-12-31, whose midnight is 3652058 days after the zero time.\<close>

definition far_future :: Time where
  "far_future = (3652058 * 86400 + 86399) * Second"

definition ClaimExpiry :: "Time \<Rightarrow> Duration \<Rightarrow> Time" where
  "ClaimExpiry now lease = (let later = now + lease in if \<not> later > now then far_future else later)"

definition ClaimExpired :: "Time option \<Rightarrow> Time \<Rightarrow> bool" where
  "ClaimExpired expiresAt now \<longleftrightarrow> (case expiresAt of None \<Rightarrow> False | Some t \<Rightarrow> \<not> t > now)"

subsection \<open>Workspaces (workspace.go)\<close>

record Workspace =
  ws_ID :: string
  ws_TenantID :: string
  ws_TaskID :: string
  ws_RunID :: string
  ws_Driver :: string
  ws_RepoRef :: string
  ws_Branch :: string
  ws_BaseSHA :: string
  ws_HeadSHA :: string
  ws_Status :: WorkspaceStatus
  ws_Version :: int
  ws_CreatedAt :: Time

definition NewWorkspace ::
  "string \<Rightarrow> string \<Rightarrow> string \<Rightarrow> string \<Rightarrow> string \<Rightarrow> string \<Rightarrow> string \<Rightarrow> Time \<Rightarrow> Workspace result" where
  "NewWorkspace ident tenantID taskID runID driver repoRef branch now =
     and_then (ParseWorkspaceID ident) (\<lambda>_.
      if driver = [] \<or> repoRef = [] \<or> branch = [] then Inl (Invalidf ''workspace_identity'')
      else Inr \<lparr>ws_ID = ident, ws_TenantID = tenantID, ws_TaskID = taskID, ws_RunID = runID,
        ws_Driver = driver, ws_RepoRef = repoRef, ws_Branch = branch, ws_BaseSHA = [],
        ws_HeadSHA = [], ws_Status = WorkspaceCreating, ws_Version = 1, ws_CreatedAt = now\<rparr>)"

definition Workspace_TransitionTo :: "Workspace \<Rightarrow> WorkspaceStatus \<Rightarrow> Workspace result" where
  "Workspace_TransitionTo w nxt =
     (if ws_Status w = nxt then Inl NewInvalidTransitionError
      else if \<not> CanTransitionWorkspace (ws_Status w) nxt then Inl NewInvalidTransitionError
      else Inr (w\<lparr>ws_Status := nxt, ws_Version := ws_Version w + 1\<rparr>))"

subsection \<open>Artifacts (artifact.go)\<close>

datatype RetentionClass = RetentionEphemeral | RetentionDurable | RetentionOther string

definition MaxArtifactBytes :: nat where "MaxArtifactBytes = 8 * 2 ^ 20"

record Artifact =
  art_ID :: string
  art_TenantID :: string
  art_RunID :: string
  art_TaskID :: string
  art_Kind :: ArtifactKind
  art_Digest :: string
  art_SizeBytes :: int
  art_Retention :: RetentionClass
  art_ProducerTaskID :: string
  art_CreatedAt :: Time
  art_Content :: bytes

text \<open>The digest function (hex of SHA-256) is an argument; nothing below depends on which one it is.\<close>

definition NewArtifact ::
  "(bytes \<Rightarrow> string) \<Rightarrow> string \<Rightarrow> string \<Rightarrow> string \<Rightarrow> ArtifactKind \<Rightarrow> RetentionClass \<Rightarrow> bytes \<Rightarrow> Time
   \<Rightarrow> Artifact result" where
  "NewArtifact Digest ident tenantID runID kind retention content now =
     and_then (ParseArtifactID ident) (\<lambda>_.
      if \<not> ArtifactKind_Valid kind then Inl (Invalidf ''artifact_kind'')
      else and_then (case retention of RetentionOther _ \<Rightarrow> Inl (Invalidf ''artifact_retention'')
                       | _ \<Rightarrow> Inr ()) (\<lambda>_.
      if content = [] then Inl (Invalidf ''artifact_content'')
      else if length content > MaxArtifactBytes then Inl (Invalidf ''artifact_size'')
      else Inr \<lparr>art_ID = ident, art_TenantID = tenantID, art_RunID = runID, art_TaskID = [],
        art_Kind = kind, art_Digest = Digest content, art_SizeBytes = int (length content),
        art_Retention = retention, art_ProducerTaskID = [], art_CreatedAt = now,
        art_Content = content\<rparr>))"

subsection \<open>Budgets (budget.go)\<close>

datatype BudgetScope = BudgetScopeRun | BudgetScopeTask | BudgetScopeOther string

record BudgetLimits =
  bl_MaxTasks :: int
  bl_MaxExecOps :: int
  bl_MaxWallDuration :: Duration
  bl_Unlimited :: bool

definition BudgetLimits_Validate :: "BudgetLimits \<Rightarrow> unit result" where
  "BudgetLimits_Validate l =
     (if bl_Unlimited l then
        (if bl_MaxTasks l \<noteq> 0 \<or> bl_MaxExecOps l \<noteq> 0 \<or> bl_MaxWallDuration l \<noteq> 0
         then Inl (Invalidf ''budget_limits'') else Inr ())
      else if bl_MaxTasks l < 0 \<or> bl_MaxExecOps l < 0 \<or> bl_MaxWallDuration l < 0
        then Inl (Invalidf ''budget_limits'')
      else Inr ())"

record Budget =
  budget_ID :: string
  budget_TenantID :: string
  budget_RunID :: string
  budget_Scope :: BudgetScope
  budget_Limits :: BudgetLimits
  budget_CreatedAt :: Time

definition NewBudget ::
  "string \<Rightarrow> string \<Rightarrow> string \<Rightarrow> BudgetScope \<Rightarrow> BudgetLimits \<Rightarrow> Time \<Rightarrow> Budget result" where
  "NewBudget ident tenantID runID scope limits now =
     and_then (ParseBudgetID ident) (\<lambda>_.
     and_then (BudgetLimits_Validate limits) (\<lambda>_.
     and_then (case scope of BudgetScopeOther _ \<Rightarrow> Inl (Invalidf ''budget_scope'') | _ \<Rightarrow> Inr ()) (\<lambda>_.
      Inr \<lparr>budget_ID = ident, budget_TenantID = tenantID, budget_RunID = runID,
        budget_Scope = scope, budget_Limits = limits, budget_CreatedAt = now\<rparr>)))"

record BudgetLedger =
  led_BudgetID :: string
  led_Limits :: BudgetLimits
  led_TasksUsed :: int
  led_ExecOpsUsed :: int

definition NewLedger :: "Budget \<Rightarrow> BudgetLedger" where
  "NewLedger b = \<lparr>led_BudgetID = budget_ID b, led_Limits = budget_Limits b,
     led_TasksUsed = 0, led_ExecOpsUsed = 0\<rparr>"

definition ReserveTask :: "BudgetLedger \<Rightarrow> BudgetLedger result" where
  "ReserveTask l =
     (if bl_Unlimited (led_Limits l) then Inr (l\<lparr>led_TasksUsed := led_TasksUsed l + 1\<rparr>)
      else if led_TasksUsed l + 1 > bl_MaxTasks (led_Limits l)
        then Inl (Error ErrKindBudgetExhausted ''budget_task_cap'' None)
      else Inr (l\<lparr>led_TasksUsed := led_TasksUsed l + 1\<rparr>))"

definition RecordExecOp :: "BudgetLedger \<Rightarrow> BudgetLedger result" where
  "RecordExecOp l =
     (if bl_Unlimited (led_Limits l) then Inr (l\<lparr>led_ExecOpsUsed := led_ExecOpsUsed l + 1\<rparr>)
      else if led_ExecOpsUsed l + 1 > bl_MaxExecOps (led_Limits l)
        then Inl (Error ErrKindBudgetExhausted ''budget_exec_cap'' None)
      else Inr (l\<lparr>led_ExecOpsUsed := led_ExecOpsUsed l + 1\<rparr>))"

subsection \<open>Integration connections (integration.go)\<close>

datatype IntegrationProvider =
  IntegrationGitHub | IntegrationGitLab | IntegrationGeneric | IntegrationOther string

fun IntegrationProvider_Valid :: "IntegrationProvider \<Rightarrow> bool" where
  "IntegrationProvider_Valid (IntegrationOther _) = False"
| "IntegrationProvider_Valid _ = True"

record IntegrationConnection =
  ic_ID :: string
  ic_TenantID :: string
  ic_Provider :: IntegrationProvider
  ic_Status :: ConnectionStatus
  ic_Scopes :: "string list"
  ic_SecretRef :: string
  ic_Version :: int
  ic_CreatedAt :: Time

definition NewIntegration ::
  "string \<Rightarrow> string \<Rightarrow> IntegrationProvider \<Rightarrow> string list \<Rightarrow> string \<Rightarrow> Time
   \<Rightarrow> IntegrationConnection result" where
  "NewIntegration ident tenantID provider scopes secretRef now =
     and_then (ParseIntegrationID ident) (\<lambda>_.
      if \<not> IntegrationProvider_Valid provider then Inl (Invalidf ''integration_provider'')
      else if secretRef = [] then Inl (Invalidf ''integration_secret_ref'')
      else Inr \<lparr>ic_ID = ident, ic_TenantID = tenantID, ic_Provider = provider,
        ic_Status = ConnectionPending, ic_Scopes = scopes, ic_SecretRef = secretRef,
        ic_Version = 1, ic_CreatedAt = now\<rparr>)"

definition Integration_TransitionTo ::
  "IntegrationConnection \<Rightarrow> ConnectionStatus \<Rightarrow> IntegrationConnection result" where
  "Integration_TransitionTo c nxt =
     (if ic_Status c = nxt then Inl NewInvalidTransitionError
      else if \<not> CanTransitionConnection (ic_Status c) nxt then Inl NewInvalidTransitionError
      else Inr (c\<lparr>ic_Status := nxt, ic_Version := ic_Version c + 1\<rparr>))"

end
