(* ===== verification/Domain_Laws.thy ===== *)
theory Domain_Laws
  imports Domain_Runs
begin

section \<open>Laws of the domain mutators\<close>

text \<open>
  Two interfaces recur in the domain package. A \<open>transitioning\<close> entity changes its status
  only along its table and counts its changes in a version; threads, runs, tasks, workspaces
  and integration connections are the instances. A \<open>capped\<close> counter is charged until a hard
  cap; task reservations and exec operations of the budget ledger are the instances.
\<close>

subsection \<open>Transitioning entities\<close>

fun run_through :: "('e \<Rightarrow> 's \<Rightarrow> 'e result) \<Rightarrow> 'e \<Rightarrow> 's list \<Rightarrow> 'e result" where
  "run_through tr e [] = Inr e"
| "run_through tr e (s # ss) = and_then (tr e s) (\<lambda>e'. run_through tr e' ss)"

locale transitioning =
  fixes status :: "'e \<Rightarrow> 's" and version :: "'e \<Rightarrow> int"
    and table :: "'s transitionTable" and tr :: "'e \<Rightarrow> 's \<Rightarrow> 'e result"
  assumes trans_ok: "tr e s = Inr e' \<Longrightarrow>
      allows table (status e) s \<and> status e' = s \<and> version e' = version e + 1"
    and trans_err: "tr e s = Inl err \<Longrightarrow>
      err = NewInvalidTransitionError \<and> \<not> allows table (status e) s"
begin

lemma trans_succeeds: "allows table (status e) s \<longleftrightarrow> (\<exists>e'. tr e s = Inr e')"
  by (cases "tr e s") (auto dest: trans_ok trans_err)

lemma run_through_ok:
  assumes "run_through tr e ss = Inr e'"
  shows "legal_path table (status e) ss \<and> version e' = version e + int (length ss)
    \<and> status e' = last (status e # ss)"
  using assms
proof (induction ss arbitrary: e)
  case (Cons s ss)
  then obtain e1 where e1: "tr e s = Inr e1" and rest: "run_through tr e1 ss = Inr e'"
    by auto
  from Cons.IH [OF rest] trans_ok [OF e1] show ?case by auto
qed simp

lemma run_through_iff:
  "(\<exists>e'. run_through tr e ss = Inr e') \<longleftrightarrow> legal_path table (status e) ss"
proof (induction ss arbitrary: e)
  case (Cons s ss)
  show ?case
  proof (cases "tr e s")
    case (Inl err)
    then show ?thesis using trans_err by auto
  next
    case (Inr e1)
    then show ?thesis using Cons [of e1] trans_ok by auto
  qed
qed simp

end

lemma no_self_loop:
  "\<not> CanTransitionThread s s" "\<not> CanTransitionRun r r" "\<not> CanTransitionTask t t"
  "\<not> CanTransitionWorkspace w w" "\<not> CanTransitionConnection c c"
proof -
  note defs = can_transition_defs allows_def edgesFrom_def table_defs
  show "\<not> CanTransitionThread s s" by (cases s) (simp_all add: defs)
  show "\<not> CanTransitionRun r r" by (cases r) (simp_all add: defs)
  show "\<not> CanTransitionTask t t" by (cases t) (simp_all add: defs)
  show "\<not> CanTransitionWorkspace w w" by (cases w) (simp_all add: defs)
  show "\<not> CanTransitionConnection c c" by (cases c) (simp_all add: defs)
qed

interpretation thread_tr: transitioning thread_Status thread_Version threadTransitions Thread_TransitionTo
  using no_self_loop(1)
  by unfold_locales (auto simp: Thread_TransitionTo_def CanTransitionThread_def split: if_splits)

interpretation run_tr: transitioning run_Status run_Version runTransitions Run_TransitionTo
  using no_self_loop(2)
  by unfold_locales (auto simp: Run_TransitionTo_def CanTransitionRun_def split: if_splits)

interpretation task_tr: transitioning task_Status task_Version taskTransitions Task_TransitionTo
  using no_self_loop(3)
  by unfold_locales (auto simp: Task_TransitionTo_def CanTransitionTask_def split: if_splits)

interpretation ws_tr: transitioning ws_Status ws_Version workspaceTransitions Workspace_TransitionTo
  using no_self_loop(4)
  by unfold_locales (auto simp: Workspace_TransitionTo_def CanTransitionWorkspace_def split: if_splits)

interpretation ic_tr: transitioning ic_Status ic_Version connectionTransitions Integration_TransitionTo
  using no_self_loop(5)
  by unfold_locales (auto simp: Integration_TransitionTo_def CanTransitionConnection_def split: if_splits)

subsection \<open>Capped counters\<close>

text \<open>\<open>charge_many k l\<close> charges \<open>k\<close> times, going on after a refusal, and counts successes.\<close>

fun charge_many :: "('l \<Rightarrow> 'l result) \<Rightarrow> nat \<Rightarrow> 'l \<Rightarrow> 'l \<times> nat" where
  "charge_many charge 0 l = (l, 0)"
| "charge_many charge (Suc k) l =
     (case charge l of
        Inl _ \<Rightarrow> charge_many charge k l
      | Inr l' \<Rightarrow> (case charge_many charge k l' of (l'', n) \<Rightarrow> (l'', Suc n)))"

locale capped =
  fixes charge :: "'l \<Rightarrow> 'l result" and used :: "'l \<Rightarrow> int" and cap :: "'l \<Rightarrow> int"
    and unlimited :: "'l \<Rightarrow> bool"
  assumes charge_ok: "\<not> unlimited l \<Longrightarrow> used l < cap l \<Longrightarrow>
      \<exists>l'. charge l = Inr l' \<and> used l' = used l + 1 \<and> cap l' = cap l \<and> \<not> unlimited l'"
    and charge_full: "\<not> unlimited l \<Longrightarrow> cap l \<le> used l \<Longrightarrow>
      \<exists>code. charge l = Inl (Error ErrKindBudgetExhausted code None)"
begin

lemma charge_many_full:
  "\<not> unlimited l \<Longrightarrow> cap l \<le> used l \<Longrightarrow> charge_many charge k l = (l, 0)"
  using charge_full by (induction k) force+

lemma charge_many_exact:
  assumes "\<not> unlimited l" and "used l \<le> cap l"
  shows "\<exists>l'. charge_many charge k l = (l', min k (nat (cap l - used l)))
    \<and> used l' = used l + int (min k (nat (cap l - used l))) \<and> used l' \<le> cap l"
  using assms
proof (induction k arbitrary: l)
  case (Suc k)
  show ?case
  proof (cases "used l < cap l")
    case True
    then obtain l1 where l1: "charge l = Inr l1" "used l1 = used l + 1" "cap l1 = cap l"
      "\<not> unlimited l1"
      using charge_ok Suc.prems(1) by blast
    moreover have "used l1 \<le> cap l1" using l1 True by simp
    ultimately obtain l2 where
      "charge_many charge k l1 = (l2, min k (nat (cap l1 - used l1)))"
      "used l2 = used l1 + int (min k (nat (cap l1 - used l1)))" "used l2 \<le> cap l1"
      using Suc.IH by blast
    moreover have "Suc (min k (nat (cap l1 - used l1))) = min (Suc k) (nat (cap l - used l))"
      using l1 True by auto
    ultimately show ?thesis using l1 True by (auto simp: min_def)
  next
    case False
    then show ?thesis using Suc.prems charge_many_full [of l "Suc k"] by auto
  qed
qed auto

end

interpretation task_cap: capped ReserveTask led_TasksUsed
  "\<lambda>l. bl_MaxTasks (led_Limits l)" "\<lambda>l. bl_Unlimited (led_Limits l)"
  by unfold_locales (auto simp: ReserveTask_def)

interpretation exec_cap: capped RecordExecOp led_ExecOpsUsed
  "\<lambda>l. bl_MaxExecOps (led_Limits l)" "\<lambda>l. bl_Unlimited (led_Limits l)"
  by unfold_locales (auto simp: RecordExecOp_def)

lemma Finish_ok:
  assumes "Finish r nxt at failure = Inr r'"
  shows "Terminal nxt \<and> CanTransitionRun (run_Status r) nxt \<and> (nxt = RunFailed \<longrightarrow> failure \<noteq> None)
    \<and> r' = r\<lparr>run_Status := nxt, run_Version := run_Version r + 1, run_Failure := failure,
          run_FinishedAt := Some at\<rparr>"
  using assms
  by (auto simp: Finish_def Terminal_def Run_TransitionTo_def split: RunStatus.splits if_splits)

lemma Finish_terminal:
  "Terminal (run_Status r) \<Longrightarrow> \<exists>e. Finish r nxt at failure = Inl e"
  using CanTransitionRun_not_terminal Finish_ok by (metis obj_sumE)

lemma Finish_cancel:
  "\<not> Terminal (run_Status r) \<Longrightarrow>
   Finish r RunCancelled at failure = Inr (r\<lparr>run_Status := RunCancelled,
     run_Version := run_Version r + 1, run_Failure := failure, run_FinishedAt := Some at\<rparr>)"
  by (cases "run_Status r")
    (simp_all add: Terminal_def Finish_def Run_TransitionTo_def CanTransitionRun_def allows_def
      edgesFrom_def runTransitions_def)

lemma Finish_failed:
  "\<not> Terminal (run_Status r) \<Longrightarrow> run_Status r \<noteq> RunPending \<Longrightarrow>
   Finish r RunFailed at (Some f) = Inr (r\<lparr>run_Status := RunFailed,
     run_Version := run_Version r + 1, run_Failure := Some f, run_FinishedAt := Some at\<rparr>)"
  by (cases "run_Status r")
    (simp_all add: Terminal_def Finish_def Run_TransitionTo_def CanTransitionRun_def allows_def
      edgesFrom_def runTransitions_def)

subsection \<open>Properties\<close>

text \<open>
  Run transitions and versions. A sequence of \<open>TransitionTo\<close> calls on a run
  succeeds exactly when it is a legal path of the table, and then the version has grown by
  exactly the number of calls, of which there are at most six.
\<close>

theorem run_transitions_counted:
  assumes "legal_path runTransitions (run_Status r) ss"
  shows "\<exists>r'. run_through Run_TransitionTo r ss = Inr r'
    \<and> run_Version r' = run_Version r + int (length ss)
    \<and> run_Status r' = last (run_Status r # ss) \<and> length ss \<le> run_rank (run_Status r)"
proof -
  obtain r' where "run_through Run_TransitionTo r ss = Inr r'"
    using assms run_tr.run_through_iff by blast
  moreover note run_tr.run_through_ok [OF this]
  moreover have "length ss \<le> run_rank (run_Status r)"
    using run_rank_decreases assms by (rule run_machine.path_length [where rank = run_rank])
  ultimately show ?thesis by blast
qed

theorem run_transitions_counted_witness:
  "\<exists>r r'. NewRun (''run_'' @ replicate 26 (CHR ''a'')) ''t'' ''h'' ''k'' 5 = Inr r
    \<and> run_through Run_TransitionTo r [RunPlanning, RunExecuting, RunFailed] = Inr r'
    \<and> run_Version r' = run_Version r + int (length [RunPlanning, RunExecuting, RunFailed])"
proof -
  have "\<exists>r. NewRun (''run_'' @ replicate 26 (CHR ''a'')) ''t'' ''h'' ''k'' 5 = Inr r
      \<and> run_Status r = RunPending"
    by (simp add: NewRun_def ParseRunID_def validatePrefixed_def PrefixRun_def idSeparator_def
        minIDRandomChars_def maxIDSuffixLen_def id_char_def is_lower_def list_all_length
        MaxIdempotencyKeyLen_def)
  then obtain r where r: "NewRun (''run_'' @ replicate 26 (CHR ''a'')) ''t'' ''h'' ''k'' 5 = Inr r"
    "run_Status r = RunPending" by blast
  have "legal_path runTransitions (run_Status r) [RunPlanning, RunExecuting, RunFailed]"
    by (simp add: r allows_def edgesFrom_def runTransitions_def)
  from run_transitions_counted [OF this] r show ?thesis by blast
qed

text \<open>
  A run finishes exactly once. \<open>Finish\<close> succeeds only from a status that is not
  terminal and leaves a terminal status stamped with the finish time, with failure information
  whenever it failed; any later \<open>Finish\<close> of the result is refused.
\<close>

theorem run_finishes_once:
  assumes "Finish r nxt at failure = Inr r'"
  shows "\<not> Terminal (run_Status r) \<and> Terminal (run_Status r') \<and> run_FinishedAt r' = Some at
    \<and> run_Version r' = run_Version r + 1
    \<and> (run_Status r' = RunFailed \<longrightarrow> run_Failure r' \<noteq> None)
    \<and> (\<forall>nxt2 at2 failure2. \<exists>e. Finish r' nxt2 at2 failure2 = Inl e)"
  using Finish_ok [OF assms] Finish_terminal CanTransitionRun_not_terminal by auto

theorem run_finishes_once_witness:
  "\<exists>r r'. NewRun (''run_'' @ replicate 26 (CHR ''a'')) ''t'' ''h'' ''k'' 5 = Inr r
    \<and> Finish r RunCancelled 9 None = Inr r' \<and> run_FinishedAt r' = Some 9
    \<and> (\<exists>e. Finish r' RunCompleted 10 None = Inl e)"
proof -
  have "\<exists>r. NewRun (''run_'' @ replicate 26 (CHR ''a'')) ''t'' ''h'' ''k'' 5 = Inr r
      \<and> run_Status r = RunPending"
    by (simp add: NewRun_def ParseRunID_def validatePrefixed_def PrefixRun_def idSeparator_def
        minIDRandomChars_def maxIDSuffixLen_def id_char_def is_lower_def list_all_length
        MaxIdempotencyKeyLen_def)
  then obtain r where r: "NewRun (''run_'' @ replicate 26 (CHR ''a'')) ''t'' ''h'' ''k'' 5 = Inr r"
    "run_Status r = RunPending" by blast
  then obtain r' where r': "Finish r RunCancelled 9 None = Inr r'"
    using Finish_cancel [of r 9 None] by (simp add: Terminal_def)
  from run_finishes_once [OF this] r r' show ?thesis by blast
qed

text \<open>
  The budget ledger is exact. Of any number of task reservations against a budget
  with a cap, exactly as many succeed as the cap allows, and the use recorded is that number;
  a cap of zero (an unset limit) allows none. The same holds for exec operations.
\<close>

theorem ledger_exact:
  assumes "BudgetLimits_Validate (budget_Limits b) = Inr ()" and "\<not> bl_Unlimited (budget_Limits b)"
  shows "(\<exists>l. charge_many ReserveTask k (NewLedger b) = (l, min k (nat (bl_MaxTasks (budget_Limits b))))
      \<and> led_TasksUsed l = int (min k (nat (bl_MaxTasks (budget_Limits b)))))
    \<and> (\<exists>l. charge_many RecordExecOp k (NewLedger b) = (l, min k (nat (bl_MaxExecOps (budget_Limits b))))
      \<and> led_ExecOpsUsed l = int (min k (nat (bl_MaxExecOps (budget_Limits b)))))"
proof
  have caps: "0 \<le> bl_MaxTasks (budget_Limits b)" "0 \<le> bl_MaxExecOps (budget_Limits b)"
    using assms by (auto simp: BudgetLimits_Validate_def split: if_splits)
  show "\<exists>l. charge_many ReserveTask k (NewLedger b) = (l, min k (nat (bl_MaxTasks (budget_Limits b))))
      \<and> led_TasksUsed l = int (min k (nat (bl_MaxTasks (budget_Limits b))))"
    using task_cap.charge_many_exact [of "NewLedger b" k] assms(2) caps
    by (auto simp: NewLedger_def)
  show "\<exists>l. charge_many RecordExecOp k (NewLedger b) = (l, min k (nat (bl_MaxExecOps (budget_Limits b))))
      \<and> led_ExecOpsUsed l = int (min k (nat (bl_MaxExecOps (budget_Limits b))))"
    using exec_cap.charge_many_exact [of "NewLedger b" k] assms(2) caps
    by (auto simp: NewLedger_def)
qed

theorem ledger_exact_witness:
  "\<exists>b l. BudgetLimits_Validate (budget_Limits b) = Inr () \<and> \<not> bl_Unlimited (budget_Limits b)
    \<and> charge_many ReserveTask 5 (NewLedger b) = (l, 3) \<and> led_TasksUsed l = 3"
proof -
  define b where "b = \<lparr>budget_ID = '''', budget_TenantID = ''t'', budget_RunID = ''r'',
    budget_Scope = BudgetScopeRun, budget_Limits = \<lparr>bl_MaxTasks = 3, bl_MaxExecOps = 7,
    bl_MaxWallDuration = 0, bl_Unlimited = False\<rparr>, budget_CreatedAt = 0\<rparr>"
  have b: "BudgetLimits_Validate (budget_Limits b) = Inr ()" "\<not> bl_Unlimited (budget_Limits b)"
    "bl_MaxTasks (budget_Limits b) = 3"
    by (simp_all add: b_def BudgetLimits_Validate_def)
  then obtain l where "charge_many ReserveTask 5 (NewLedger b) = (l, 3)" "led_TasksUsed l = 3"
    using ledger_exact [OF b(1,2), of 5] by auto
  with b show ?thesis by blast
qed

end
