(* ===== verification/Mem_State.thy ===== *)
theory Mem_State
  imports Domain_Laws
begin

section \<open>The shared state of the deterministic store (internal/store/memory/store.go)\<close>

text \<open>
  \<open>storeState\<close> has the collections of the Go struct. Maps are association lists, so a
  \<^verbatim>\<open>range\<close> over a map visits the list in its order; nothing below fixes that order,
  and what is proved holds for every order of the same entries. Stored entities other than
  outbox rows are replaced, never mutated through a shared pointer (the repositories clone on
  every read and write, and a claim is reachable through its map only), so they are values.
  Outbox rows are mutated in place through three views, so they live in an explicit heap:
  \<open>st_heap\<close> maps addresses to rows, \<open>st_next\<close> is the next fresh address, and the slice
  and the two indexes hold addresses.

  The store's mutex makes each repository method one atomic step, so a method is a function
  from the state before to the state after. A method reads the store's clock at most once; the
  instant it read is the argument \<open>now\<close>.
\<close>

record outboxMessage =
  obx_ID :: string
  obx_DedupKey :: string
  obx_TenantID :: string
  obx_Envelope :: bytes
  obx_Status :: OutboxDeliveryStatus
  obx_Attempts :: int
  obx_MaxAttempts :: int
  obx_AvailableAt :: Time
  obx_LeasedBy :: string
  obx_LeaseUntil :: "Time option"
  obx_LastError :: string
  obx_CreatedAt :: Time
  obx_DeliveredAt :: "Time option"
  obx_Generation :: int
  obx_DeadAt :: "Time option"
  obx_DiscardedAt :: "Time option"

type_synonym idemKey = "string \<times> string \<times> string"
type_synonym addr = nat

record storeState =
  st_outboxMaxAttempts :: int
  st_tenants :: "(string, Tenant) gomap"
  st_tenantSlugs :: "(string, string) gomap"
  st_projects :: "(string, Project) gomap"
  st_threads :: "(string, Thread) gomap"
  st_messages :: "(string, Message list) gomap"
  st_specs :: "(string, Spec) gomap"
  st_tasks :: "(string, Task) gomap"
  st_runs :: "(string, Run) gomap"
  st_runIdemKeys :: "(idemKey, string) gomap"
  st_runSeqs :: "(string, int) gomap"
  st_workspaces :: "(string, Workspace) gomap"
  st_artifacts :: "(string, Artifact) gomap"
  st_auditLog :: "AuditEvent list"
  st_policyByRun :: "(string, PolicyDecision list) gomap"
  st_integrations :: "(string, IntegrationConnection) gomap"
  st_events :: "Event list"
  st_heap :: "addr \<Rightarrow> outboxMessage"
  st_next :: addr
  st_outbox :: "addr list"
  st_outboxByID :: "(string, addr) gomap"
  st_outboxByDedup :: "(string, addr) gomap"
  st_runClaims :: "(string, RunClaim) gomap"
  st_eventSeq :: int

type_synonym 'a store_op = "storeState \<Rightarrow> storeState \<times> 'a result"

definition read_op :: "(storeState \<Rightarrow> 'a result) \<Rightarrow> 'a store_op" where
  "read_op f st = (st, f st)"

lemma read_op_simp [simp]: "read_op f st = (st, f st)"
  by (simp add: read_op_def)

definition defaultOutboxMaxAttempts :: int where "defaultOutboxMaxAttempts = 5"

definition no_row :: outboxMessage where
  "no_row = \<lparr>obx_ID = [], obx_DedupKey = [], obx_TenantID = [], obx_Envelope = [],
     obx_Status = OutboxPending, obx_Attempts = 0, obx_MaxAttempts = 0, obx_AvailableAt = 0,
     obx_LeasedBy = [], obx_LeaseUntil = None, obx_LastError = [], obx_CreatedAt = 0,
     obx_DeliveredAt = None, obx_Generation = 0, obx_DeadAt = None, obx_DiscardedAt = None\<rparr>"

definition empty_store :: "int \<Rightarrow> storeState" where
  "empty_store maxAttempts =
     \<lparr>st_outboxMaxAttempts = maxAttempts, st_tenants = [], st_tenantSlugs = [], st_projects = [],
      st_threads = [], st_messages = [], st_specs = [], st_tasks = [], st_runs = [],
      st_runIdemKeys = [], st_runSeqs = [], st_workspaces = [], st_artifacts = [],
      st_auditLog = [], st_policyByRun = [], st_integrations = [], st_events = [],
      st_heap = (\<lambda>_. no_row), st_next = 0, st_outbox = [], st_outboxByID = [],
      st_outboxByDedup = [], st_runClaims = [], st_eventSeq = 0\<rparr>"

definition NewReposWithOptions :: "int \<Rightarrow> storeState result" where
  "NewReposWithOptions optMaxAttempts =
     (let maxAttempts = (if optMaxAttempts = 0 then defaultOutboxMaxAttempts else optMaxAttempts)
      in if maxAttempts < 1 \<or> maxAttempts > 100 then Inl Foreign
         else Inr (empty_store maxAttempts))"

definition get_or :: "'v \<Rightarrow> ('k, 'v) gomap \<Rightarrow> 'k \<Rightarrow> 'v" where
  "get_or d m k = (case lookup m k of None \<Rightarrow> d | Some v \<Rightarrow> v)"

definition notFound :: "string \<Rightarrow> go_error" where
  "notFound entity = NotFoundf entity"

subsection \<open>Tenant-scoped lookup\<close>

text \<open>
  The guard \<^verbatim>\<open>x, ok := m[id]; if !ok || x.TenantID != tenantID { return notFound }\<close>
  occurs in every tenant-scoped repository.
\<close>

definition scoped :: "('v \<Rightarrow> string) \<Rightarrow> ('k, 'v) gomap \<Rightarrow> string \<Rightarrow> 'k \<Rightarrow> 'v option" where
  "scoped tenant m tenantID k =
     (case lookup m k of None \<Rightarrow> None | Some v \<Rightarrow> if tenant v \<noteq> tenantID then None else Some v)"

lemma scoped_Some [simp]:
  "scoped tenant m t k = Some v \<longleftrightarrow> lookup m k = Some v \<and> tenant v = t"
  by (auto simp: scoped_def split: option.splits)

lemma scoped_None:
  "scoped tenant m t k = None \<longleftrightarrow> (\<forall>v. lookup m k = Some v \<longrightarrow> tenant v \<noteq> t)"
  by (auto simp: scoped_def split: option.splits)

text \<open>
  The version-guarded replacement every \<^verbatim>\<open>Update\<close> performs: not-found for a missing
  or foreign row, a stale-version conflict when the expected version is not the stored one,
  otherwise the new value with the stored version plus one.
\<close>

definition guarded_update ::
  "('e \<Rightarrow> string) \<Rightarrow> ('e \<Rightarrow> int) \<Rightarrow> (int \<Rightarrow> 'e \<Rightarrow> 'e) \<Rightarrow> string \<Rightarrow> string \<Rightarrow> 'e \<Rightarrow> int \<Rightarrow>
   (string, 'e) gomap \<Rightarrow> (string, 'e) gomap \<times> 'e result" where
  "guarded_update tenant version set_version entity k e expected m =
     (case scoped tenant m (tenant e) k of
        None \<Rightarrow> (m, Inl (notFound entity))
      | Some cur \<Rightarrow>
          if version cur \<noteq> expected then (m, Inl NewStaleVersionError)
          else (let stored = set_version (version cur + 1) e in (insert_map k stored m, Inr stored)))"

subsection \<open>Page loops\<close>

text \<open>
  The bounded listing loop: rows that fail the test are skipped, a kept row is appended, and a
  positive limit ends the loop once the page is full. A limit of zero or less means no limit.
\<close>

fun page_loop :: "('a \<Rightarrow> bool) \<Rightarrow> int \<Rightarrow> 'a list \<Rightarrow> 'a list \<Rightarrow> 'a list" where
  "page_loop keep limit out [] = out"
| "page_loop keep limit out (x # xs) =
     (if \<not> keep x then page_loop keep limit out xs
      else if limit > 0 \<and> int (length (out @ [x])) \<ge> limit then out @ [x]
      else page_loop keep limit (out @ [x]) xs)"

definition page :: "int \<Rightarrow> 'a list \<Rightarrow> 'a list" where
  "page limit xs = (if limit > 0 then take (nat limit) xs else xs)"

lemma page_loop_acc:
  "(limit > 0 \<Longrightarrow> int (length out) < limit) \<Longrightarrow>
   page_loop keep limit out xs =
     out @ (if limit > 0 then take (nat limit - length out) (filter keep xs) else filter keep xs)"
proof (induction xs arbitrary: out)
  case (Cons x xs)
  show ?case
  proof (cases "keep x \<and> limit > 0 \<and> int (length (out @ [x])) \<ge> limit")
    case True
    then have "nat limit - length out = 1" using Cons.prems by auto
    then show ?thesis using True by simp
  next
    case False
    show ?thesis
    proof (cases "keep x")
      case True
      have "limit > 0 \<Longrightarrow> nat limit - length out = Suc (nat limit - length (out @ [x]))"
        using False True Cons.prems by auto
      then show ?thesis
        using False True Cons.IH [of "out @ [x]"] by auto
    qed (use Cons in auto)
  qed
qed simp

lemma page_loop_page: "page_loop keep limit [] xs = page limit (filter keep xs)"
  using page_loop_acc [of limit "[]" keep xs] by (auto simp: page_def)

text \<open>A non-empty page of a strictly increasing list is continued by what lies beyond its last key.\<close>

lemma take_resume:
  fixes f :: "'a \<Rightarrow> 'b :: linorder"
  assumes "sorted_wrt (\<lambda>a b. f a < f b) ys" and "take n ys \<noteq> []"
  shows "filter (\<lambda>x. f (last (take n ys)) < f x) ys = drop n ys"
proof -
  define z where "z = last (take n ys)"
  have split: "sorted_wrt (\<lambda>a b. f a < f b) (take n ys @ drop n ys)" using assms(1) by simp
  have z: "z \<in> set (take n ys)" using assms(2) by (simp add: z_def)
  have eq: "take n ys = butlast (take n ys) @ [z]" using assms(2) by (simp add: z_def)
  have "sorted_wrt (\<lambda>a b. f a < f b) (butlast (take n ys) @ [z])"
    using split by (simp add: sorted_wrt_append eq [symmetric])
  then have "\<forall>y \<in> set (butlast (take n ys)). f y < f z" by (simp add: sorted_wrt_append)
  then have le: "f x \<le> f z" if "x \<in> set (take n ys)" for x
    using that by (subst (asm) eq) auto
  have gt: "f z < f x" if "x \<in> set (drop n ys)" for x
    using split z that unfolding sorted_wrt_append by blast
  have "filter (\<lambda>x. f z < f x) (take n ys @ drop n ys) = drop n ys"
    using le gt by (simp only: filter_append) (auto simp: filter_empty_conv filter_id_conv not_less)
  then show ?thesis by (simp add: z_def)
qed

lemma page_resume:
  fixes f :: "'a \<Rightarrow> 'b :: linorder"
  assumes "sorted_wrt (\<lambda>a b. f a < f b) xs" and "page limit (filter (\<lambda>x. f x > c) xs) \<noteq> []"
  shows "page limit (filter (\<lambda>x. f x > c) xs)
      @ filter (\<lambda>x. f x > f (last (page limit (filter (\<lambda>x. f x > c) xs)))) xs
    = filter (\<lambda>x. f x > c) xs"
proof -
  define ys where "ys = filter (\<lambda>x. f x > c) xs"
  define n where "n = (if limit > 0 then nat limit else length ys)"
  have pg: "page limit ys = take n ys" by (simp add: page_def n_def)
  have ne: "take n ys \<noteq> []" using assms(2) pg ys_def by simp
  have "sorted_wrt (\<lambda>a b. f a < f b) ys" using assms(1) by (simp add: ys_def sorted_wrt_filter)
  note resume = take_resume [OF this ne]
  have "last (take n ys) \<in> set ys" using last_in_set [OF ne] by (meson in_set_takeD)
  then have "c < f (last (take n ys))" by (simp add: ys_def)
  then have "filter (\<lambda>x. f x > f (last (take n ys))) xs = filter (\<lambda>x. f x > f (last (take n ys))) ys"
    unfolding ys_def filter_filter by (intro filter_cong) auto
  then show ?thesis unfolding ys_def [symmetric] pg using resume by simp
qed

subsection \<open>Interleavings\<close>

text \<open>
  Concurrent callers of the store are a sequence of calls with the clock reading each saw, in
  the order the mutex let them in. \<open>slot_system\<close> is the contract of a part of the store made
  of independent slots (one per claim, one per outbox row): every call moves every slot by a
  move of that slot alone. What every move keeps, every interleaving keeps.
\<close>

fun run_calls :: "('c \<Rightarrow> Time \<Rightarrow> 's \<Rightarrow> 's) \<Rightarrow> 's \<Rightarrow> (Time \<times> 'c) list \<Rightarrow> 's" where
  "run_calls exec st [] = st"
| "run_calls exec st ((now, c) # cs) = run_calls exec (exec c now st) cs"

lemma run_calls_append [simp]:
  "run_calls exec st (cs @ ds) = run_calls exec (run_calls exec st cs) ds"
  by (induction exec st cs rule: run_calls.induct) simp_all

lemma list_all_pairD: "list_all (\<lambda>(a, b). P a b) xs \<Longrightarrow> (a, b) \<in> set xs \<Longrightarrow> P a b"
  by (auto simp: list_all_iff)

locale slot_system =
  fixes ok :: "'s \<Rightarrow> bool" and slot :: "'s \<Rightarrow> 'k \<Rightarrow> 'v"
    and exec :: "'c \<Rightarrow> Time \<Rightarrow> 's \<Rightarrow> 's"
    and move :: "'c \<Rightarrow> Time \<Rightarrow> 'k \<Rightarrow> 'v \<Rightarrow> 'v \<Rightarrow> bool"
  assumes exec_ok: "ok st \<Longrightarrow> ok (exec c now st)"
    and exec_move: "ok st \<Longrightarrow> move c now k (slot st k) (slot (exec c now st) k)"
begin

lemma calls_ok: "ok st \<Longrightarrow> ok (run_calls exec st cs)"
  by (induction cs arbitrary: st) (auto simp: exec_ok)

lemma calls_keep:
  assumes "ok st" and "I (slot st k)"
    and "\<And>now c old new. (now, c) \<in> set cs \<Longrightarrow> move c now k old new \<Longrightarrow> I old \<Longrightarrow> I new"
  shows "I (slot (run_calls exec st cs) k)"
  using assms
proof (induction cs arbitrary: st)
  case (Cons x cs)
  obtain now c where x: "x = (now, c)" by (cases x)
  have "I (slot (exec c now st) k)"
    using Cons.prems(3) [of now c] x exec_move [OF Cons.prems(1), of c now k] Cons.prems(2) by auto
  moreover have "ok (exec c now st)" using Cons.prems(1) by (rule exec_ok)
  moreover have "I new" if "(t, d) \<in> set cs" "move d t k old new" "I old" for t d old new
    using Cons.prems(3) that by (meson list.set_intros(2))
  ultimately show ?case
    using Cons.IH [of "exec c now st"] by (simp add: x)
qed simp

end

end
