(* ===== verification/Mem_Repos.thy ===== *)
theory Mem_Repos
  imports Mem_State
begin

section \<open>The entity repositories (internal/store/memory)\<close>

text \<open>
  Tenants, projects, threads with their messages, specifications, tasks, runs, workspaces,
  artifacts, audit, policy decisions and integrations. A \<^verbatim>\<open>Create\<close> or
  \<^verbatim>\<open>Update\<close> that writes a sequence number or version back through the caller's
  pointer returns the entity as the caller then sees it. Listing functions take the sorting
  function first.
\<close>

subsection \<open>Tenants and projects (tenants.go)\<close>

definition TenantRepository_Create :: "Tenant \<Rightarrow> unit store_op" where
  "TenantRepository_Create tenant st =
     (if lookup (st_tenants st) (tenant_ID tenant) \<noteq> None then (st, Inl (Conflictf ''tenant_exists''))
      else if lookup (st_tenantSlugs st) (tenant_Slug tenant) \<noteq> None
        then (st, Inl (Conflictf ''tenant_slug_taken''))
      else (st\<lparr>st_tenants := insert_map (tenant_ID tenant) tenant (st_tenants st),
              st_tenantSlugs := insert_map (tenant_Slug tenant) (tenant_ID tenant) (st_tenantSlugs st)\<rparr>,
            Inr ()))"

definition TenantRepository_Get :: "string \<Rightarrow> storeState \<Rightarrow> Tenant result" where
  "TenantRepository_Get ident st =
     (case lookup (st_tenants st) ident of None \<Rightarrow> Inl (notFound ''tenant'') | Some t \<Rightarrow> Inr t)"

text \<open>The slug index resolving to no tenant would be a nil dereference, hence a panic.\<close>

definition TenantRepository_GetBySlug :: "string \<Rightarrow> storeState \<Rightarrow> Tenant result" where
  "TenantRepository_GetBySlug slug st =
     (case lookup (st_tenantSlugs st) slug of
        None \<Rightarrow> Inl (notFound ''tenant'')
      | Some ident \<Rightarrow> (case lookup (st_tenants st) ident of None \<Rightarrow> Inl Panic | Some t \<Rightarrow> Inr t))"

definition ProjectRepository_Create :: "Project \<Rightarrow> unit store_op" where
  "ProjectRepository_Create project st =
     (if lookup (st_projects st) (project_ID project) \<noteq> None
      then (st, Inl (Conflictf ''project_exists''))
      else (st\<lparr>st_projects := insert_map (project_ID project) project (st_projects st)\<rparr>, Inr ()))"

definition ProjectRepository_Get :: "string \<Rightarrow> string \<Rightarrow> storeState \<Rightarrow> Project result" where
  "ProjectRepository_Get tenantID ident st =
     (case scoped project_TenantID (st_projects st) tenantID ident of
        None \<Rightarrow> Inl (notFound ''project'') | Some p \<Rightarrow> Inr p)"

definition ProjectRepository_ListByTenant ::
  "((Project \<Rightarrow> Project \<Rightarrow> bool) \<Rightarrow> Project list \<Rightarrow> Project list) \<Rightarrow> string \<Rightarrow> storeState \<Rightarrow> Project list" where
  "ProjectRepository_ListByTenant srt tenantID st =
     srt (\<lambda>a b. project_CreatedAt a < project_CreatedAt b)
       (filter (\<lambda>p. project_TenantID p = tenantID) (map snd (st_projects st)))"

subsection \<open>Threads, messages and specifications (threads.go)\<close>

definition ThreadRepository_Create :: "Thread \<Rightarrow> unit store_op" where
  "ThreadRepository_Create thread st =
     (case scoped project_TenantID (st_projects st) (thread_TenantID thread) (thread_ProjectID thread) of
        None \<Rightarrow> (st, Inl (Invalidf ''thread_project_unknown''))
      | Some _ \<Rightarrow>
          if lookup (st_threads st) (thread_ID thread) \<noteq> None
          then (st, Inl (Conflictf ''thread_exists''))
          else (st\<lparr>st_threads := insert_map (thread_ID thread) thread (st_threads st)\<rparr>, Inr ()))"

definition ThreadRepository_Get :: "string \<Rightarrow> string \<Rightarrow> storeState \<Rightarrow> Thread result" where
  "ThreadRepository_Get tenantID ident st =
     (case scoped thread_TenantID (st_threads st) tenantID ident of
        None \<Rightarrow> Inl (notFound ''thread'') | Some t \<Rightarrow> Inr t)"

definition ThreadRepository_Update :: "Thread \<Rightarrow> int \<Rightarrow> Thread store_op" where
  "ThreadRepository_Update thread expectedVersion st =
     (case guarded_update thread_TenantID thread_Version (\<lambda>v t. t\<lparr>thread_Version := v\<rparr>) ''thread''
        (thread_ID thread) thread expectedVersion (st_threads st) of
        (m, r) \<Rightarrow> (st\<lparr>st_threads := m\<rparr>, r))"

definition ThreadRepository_AppendMessage :: "Message \<Rightarrow> Message store_op" where
  "ThreadRepository_AppendMessage message st =
     (case scoped thread_TenantID (st_threads st) (message_TenantID message) (message_ThreadID message) of
        None \<Rightarrow> (st, Inl (notFound ''thread''))
      | Some _ \<Rightarrow>
          (let old = get_or [] (st_messages st) (message_ThreadID message);
               stored = message\<lparr>message_Seq := int (length old + 1)\<rparr>
           in (st\<lparr>st_messages := insert_map (message_ThreadID message) (old @ [stored]) (st_messages st)\<rparr>,
               Inr stored)))"

definition ThreadRepository_Messages ::
  "string \<Rightarrow> string \<Rightarrow> int \<Rightarrow> int \<Rightarrow> storeState \<Rightarrow> (Message list \<times> int) result" where
  "ThreadRepository_Messages tenantID threadID afterSeq limit st =
     (case scoped thread_TenantID (st_threads st) tenantID threadID of
        None \<Rightarrow> Inl (notFound ''thread'')
      | Some _ \<Rightarrow>
          (let msgs = get_or [] (st_messages st) threadID
           in Inr (page_loop (\<lambda>m. \<not> message_Seq m \<le> afterSeq) limit [] msgs, int (length msgs))))"

definition thread_recent_less :: "Thread \<Rightarrow> Thread \<Rightarrow> bool" where
  "thread_recent_less a b =
     (if thread_UpdatedAt a \<noteq> thread_UpdatedAt b then thread_UpdatedAt a > thread_UpdatedAt b
      else thread_ID a < thread_ID b)"

definition ThreadRepository_ListByTenant ::
  "((Thread \<Rightarrow> Thread \<Rightarrow> bool) \<Rightarrow> Thread list \<Rightarrow> Thread list) \<Rightarrow> string \<Rightarrow> int \<Rightarrow> storeState \<Rightarrow> Thread list" where
  "ThreadRepository_ListByTenant srt tenantID limit st =
     (let out = srt thread_recent_less
            (filter (\<lambda>t. \<not> thread_TenantID t \<noteq> tenantID) (map snd (st_threads st)))
      in if limit > 0 \<and> int (length out) > limit then take (nat limit) out else out)"

definition SpecRepository_Create :: "Spec \<Rightarrow> unit store_op" where
  "SpecRepository_Create spec st =
     (case scoped thread_TenantID (st_threads st) (spec_TenantID spec) (spec_ThreadID spec) of
        None \<Rightarrow> (st, Inl (Invalidf ''spec_thread_unknown''))
      | Some _ \<Rightarrow>
          if lookup (st_specs st) (spec_ID spec) \<noteq> None then (st, Inl (Conflictf ''spec_exists''))
          else (st\<lparr>st_specs := insert_map (spec_ID spec) spec (st_specs st)\<rparr>, Inr ()))"

definition SpecRepository_Get :: "string \<Rightarrow> string \<Rightarrow> storeState \<Rightarrow> Spec result" where
  "SpecRepository_Get tenantID ident st =
     (case scoped spec_TenantID (st_specs st) tenantID ident of
        None \<Rightarrow> Inl (notFound ''spec'') | Some s \<Rightarrow> Inr s)"

fun latest_spec :: "string \<Rightarrow> string \<Rightarrow> Spec option \<Rightarrow> Spec list \<Rightarrow> Spec option" where
  "latest_spec tenantID threadID latest [] = latest"
| "latest_spec tenantID threadID latest (s # ss) =
     (if spec_ThreadID s \<noteq> threadID \<or> spec_TenantID s \<noteq> tenantID
      then latest_spec tenantID threadID latest ss
      else if latest = None \<or> spec_Version s > spec_Version (the latest)
      then latest_spec tenantID threadID (Some s) ss
      else latest_spec tenantID threadID latest ss)"

definition SpecRepository_LatestForThread :: "string \<Rightarrow> string \<Rightarrow> storeState \<Rightarrow> Spec result" where
  "SpecRepository_LatestForThread tenantID threadID st =
     (case latest_spec tenantID threadID None (map snd (st_specs st)) of
        None \<Rightarrow> Inl (notFound ''spec'') | Some s \<Rightarrow> Inr s)"

subsection \<open>Runs and tasks (runs.go)\<close>

definition RunRepository_Create :: "Run \<Rightarrow> Run store_op" where
  "RunRepository_Create run st =
     (case scoped thread_TenantID (st_threads st) (run_TenantID run) (run_ThreadID run) of
        None \<Rightarrow> (st, Inl (Invalidf ''run_thread_unknown''))
      | Some _ \<Rightarrow>
          (let key = (run_TenantID run, run_ThreadID run, run_IdempotencyKey run)
           in if lookup (st_runIdemKeys st) key \<noteq> None
              then (st, Inl (Conflictf ''run_idempotency_key_taken''))
              else if lookup (st_runs st) (run_ID run) \<noteq> None
              then (st, Inl (Conflictf ''run_exists''))
              else (let seq = get_or 0 (st_runSeqs st) (run_ThreadID run) + 1;
                        stored = run\<lparr>run_Seq := seq\<rparr>
                    in (st\<lparr>st_runSeqs := insert_map (run_ThreadID run) seq (st_runSeqs st),
                          st_runIdemKeys := insert_map key (run_ID run) (st_runIdemKeys st),
                          st_runs := insert_map (run_ID run) stored (st_runs st)\<rparr>,
                        Inr stored))))"

definition RunRepository_Get :: "string \<Rightarrow> string \<Rightarrow> storeState \<Rightarrow> Run result" where
  "RunRepository_Get tenantID ident st =
     (case scoped run_TenantID (st_runs st) tenantID ident of
        None \<Rightarrow> Inl (notFound ''run'') | Some r \<Rightarrow> Inr r)"

definition RunRepository_Update :: "Run \<Rightarrow> int \<Rightarrow> Run store_op" where
  "RunRepository_Update run expectedVersion st =
     (case guarded_update run_TenantID run_Version (\<lambda>v r. r\<lparr>run_Version := v\<rparr>) ''run''
        (run_ID run) run expectedVersion (st_runs st) of
        (m, r) \<Rightarrow> (st\<lparr>st_runs := m\<rparr>, r))"

definition RunRepository_GetByIdempotencyKey ::
  "string \<Rightarrow> string \<Rightarrow> string \<Rightarrow> storeState \<Rightarrow> Run result" where
  "RunRepository_GetByIdempotencyKey tenantID threadID key st =
     (case lookup (st_runIdemKeys st) (tenantID, threadID, key) of
        None \<Rightarrow> Inl (notFound ''run'')
      | Some ident \<Rightarrow>
          (case lookup (st_runs st) ident of
             None \<Rightarrow> Inl (notFound ''run'')
           | Some run \<Rightarrow>
               if run_TenantID run \<noteq> tenantID \<or> run_ThreadID run \<noteq> threadID
               then Inl (notFound ''run'') else Inr run))"

fun runs_page :: "int \<Rightarrow> int \<Rightarrow> Run list \<Rightarrow> Run list \<Rightarrow> Run list" where
  "runs_page after limit out [] = out"
| "runs_page after limit out (run # rest) =
     (if limit > 0 \<and> int (length out) \<ge> limit then out
      else if run_Seq run > after then runs_page after limit (out @ [run]) rest
      else runs_page after limit out rest)"

definition RunRepository_ListByThread ::
  "((Run \<Rightarrow> Run \<Rightarrow> bool) \<Rightarrow> Run list \<Rightarrow> Run list) \<Rightarrow> string \<Rightarrow> string \<Rightarrow> int \<Rightarrow> int \<Rightarrow> storeState
   \<Rightarrow> (Run list \<times> int) result" where
  "RunRepository_ListByThread srt tenantID threadID after limit st =
     (case scoped thread_TenantID (st_threads st) tenantID threadID of
        None \<Rightarrow> Inl (notFound ''thread'')
      | Some _ \<Rightarrow>
          (let owned = filter (\<lambda>run. run_ThreadID run = threadID \<and> run_TenantID run = tenantID)
                 (map snd (st_runs st));
               ordered = srt (\<lambda>a b. run_Seq a < run_Seq b) owned
           in Inr (runs_page after limit [] ordered, int (length owned))))"

definition TaskRepository_Create :: "Task \<Rightarrow> unit store_op" where
  "TaskRepository_Create task st =
     (if lookup (st_tasks st) (task_ID task) \<noteq> None then (st, Inl (Conflictf ''task_exists''))
      else (st\<lparr>st_tasks := insert_map (task_ID task) task (st_tasks st)\<rparr>, Inr ()))"

definition TaskRepository_Get :: "string \<Rightarrow> string \<Rightarrow> storeState \<Rightarrow> Task result" where
  "TaskRepository_Get tenantID ident st =
     (case scoped task_TenantID (st_tasks st) tenantID ident of
        None \<Rightarrow> Inl (notFound ''task'') | Some t \<Rightarrow> Inr t)"

definition TaskRepository_Update :: "Task \<Rightarrow> int \<Rightarrow> Task store_op" where
  "TaskRepository_Update task expectedVersion st =
     (case guarded_update task_TenantID task_Version (\<lambda>v t. t\<lparr>task_Version := v\<rparr>) ''task''
        (task_ID task) task expectedVersion (st_tasks st) of
        (m, r) \<Rightarrow> (st\<lparr>st_tasks := m\<rparr>, r))"

definition TaskRepository_ListByRun ::
  "((Task \<Rightarrow> Task \<Rightarrow> bool) \<Rightarrow> Task list \<Rightarrow> Task list) \<Rightarrow> string \<Rightarrow> string \<Rightarrow> storeState \<Rightarrow> Task list" where
  "TaskRepository_ListByRun srt tenantID runID st =
     srt (\<lambda>a b. task_CreatedAt a < task_CreatedAt b)
       (filter (\<lambda>t. task_RunID t = runID \<and> task_TenantID t = tenantID) (map snd (st_tasks st)))"

subsection \<open>Workspaces and artifacts (workspaces.go)\<close>

definition WorkspaceRepository_Create :: "Workspace \<Rightarrow> unit store_op" where
  "WorkspaceRepository_Create ws st =
     (if lookup (st_workspaces st) (ws_ID ws) \<noteq> None then (st, Inl (Conflictf ''workspace_exists''))
      else (st\<lparr>st_workspaces := insert_map (ws_ID ws) ws (st_workspaces st)\<rparr>, Inr ()))"

definition WorkspaceRepository_Get :: "string \<Rightarrow> string \<Rightarrow> storeState \<Rightarrow> Workspace result" where
  "WorkspaceRepository_Get tenantID ident st =
     (case scoped ws_TenantID (st_workspaces st) tenantID ident of
        None \<Rightarrow> Inl (notFound ''workspace'') | Some w \<Rightarrow> Inr w)"

definition WorkspaceRepository_Update :: "Workspace \<Rightarrow> int \<Rightarrow> Workspace store_op" where
  "WorkspaceRepository_Update ws expectedVersion st =
     (case guarded_update ws_TenantID ws_Version (\<lambda>v w. w\<lparr>ws_Version := v\<rparr>) ''workspace''
        (ws_ID ws) ws expectedVersion (st_workspaces st) of
        (m, r) \<Rightarrow> (st\<lparr>st_workspaces := m\<rparr>, r))"

definition WorkspaceRepository_ListByRun ::
  "((Workspace \<Rightarrow> Workspace \<Rightarrow> bool) \<Rightarrow> Workspace list \<Rightarrow> Workspace list) \<Rightarrow> string \<Rightarrow> string
   \<Rightarrow> storeState \<Rightarrow> Workspace list" where
  "WorkspaceRepository_ListByRun srt tenantID runID st =
     srt (\<lambda>a b. ws_CreatedAt a < ws_CreatedAt b)
       (filter (\<lambda>w. ws_RunID w = runID \<and> ws_TenantID w = tenantID) (map snd (st_workspaces st)))"

definition ArtifactRepository_Create :: "Artifact \<Rightarrow> unit store_op" where
  "ArtifactRepository_Create artifact st =
     (if lookup (st_artifacts st) (art_ID artifact) \<noteq> None
      then (st, Inl (Conflictf ''artifact_exists''))
      else (st\<lparr>st_artifacts := insert_map (art_ID artifact) artifact (st_artifacts st)\<rparr>, Inr ()))"

definition ArtifactRepository_Get :: "string \<Rightarrow> string \<Rightarrow> storeState \<Rightarrow> Artifact result" where
  "ArtifactRepository_Get tenantID ident st =
     (case scoped art_TenantID (st_artifacts st) tenantID ident of
        None \<Rightarrow> Inl (notFound ''artifact'') | Some a \<Rightarrow> Inr a)"

definition ArtifactRepository_ListByRun ::
  "((Artifact \<Rightarrow> Artifact \<Rightarrow> bool) \<Rightarrow> Artifact list \<Rightarrow> Artifact list) \<Rightarrow> string \<Rightarrow> string
   \<Rightarrow> storeState \<Rightarrow> Artifact list" where
  "ArtifactRepository_ListByRun srt tenantID runID st =
     srt (\<lambda>a b. art_CreatedAt a < art_CreatedAt b)
       (filter (\<lambda>a. art_RunID a = runID \<and> art_TenantID a = tenantID) (map snd (st_artifacts st)))"

subsection \<open>Audit, policy decisions, integrations (audit.go)\<close>

definition AuditRepository_Append :: "AuditEvent \<Rightarrow> unit store_op" where
  "AuditRepository_Append event st = (st\<lparr>st_auditLog := st_auditLog st @ [event]\<rparr>, Inr ())"

fun index_after :: "string \<Rightarrow> nat \<Rightarrow> AuditEvent list \<Rightarrow> nat" where
  "index_after after i [] = 0"
| "index_after after i (e # es) = (if audit_ID e = after then i + 1 else index_after after (i + 1) es)"

definition AuditRepository_ListByTenant ::
  "string \<Rightarrow> string \<Rightarrow> int \<Rightarrow> storeState \<Rightarrow> AuditEvent list" where
  "AuditRepository_ListByTenant tenantID after limit st =
     (let start = (if after \<noteq> [] then index_after after 0 (st_auditLog st) else 0)
      in page_loop (\<lambda>e. \<not> audit_TenantID e \<noteq> tenantID) limit [] (drop start (st_auditLog st)))"

definition PolicyDecisionRepository_Record :: "PolicyDecision \<Rightarrow> unit store_op" where
  "PolicyDecisionRepository_Record decision st =
     (let runID = preq_RunID (pdec_Request decision)
      in (st\<lparr>st_policyByRun := insert_map runID
             (get_or [] (st_policyByRun st) runID @ [decision]) (st_policyByRun st)\<rparr>, Inr ()))"

definition PolicyDecisionRepository_ListByRun ::
  "string \<Rightarrow> string \<Rightarrow> storeState \<Rightarrow> PolicyDecision list" where
  "PolicyDecisionRepository_ListByRun tenantID runID st =
     filter (\<lambda>d. pdec_TenantID d = tenantID) (get_or [] (st_policyByRun st) runID)"

definition IntegrationRepository_Create :: "IntegrationConnection \<Rightarrow> unit store_op" where
  "IntegrationRepository_Create conn st =
     (if lookup (st_integrations st) (ic_ID conn) \<noteq> None
      then (st, Inl (Conflictf ''integration_exists''))
      else (st\<lparr>st_integrations := insert_map (ic_ID conn) conn (st_integrations st)\<rparr>, Inr ()))"

definition IntegrationRepository_Get ::
  "string \<Rightarrow> string \<Rightarrow> storeState \<Rightarrow> IntegrationConnection result" where
  "IntegrationRepository_Get tenantID ident st =
     (case scoped ic_TenantID (st_integrations st) tenantID ident of
        None \<Rightarrow> Inl (notFound ''integration connection'') | Some c \<Rightarrow> Inr c)"

definition IntegrationRepository_Update ::
  "IntegrationConnection \<Rightarrow> int \<Rightarrow> IntegrationConnection store_op" where
  "IntegrationRepository_Update conn expectedVersion st =
     (case guarded_update ic_TenantID ic_Version (\<lambda>v c. c\<lparr>ic_Version := v\<rparr>) ''integration connection''
        (ic_ID conn) conn expectedVersion (st_integrations st) of
        (m, r) \<Rightarrow> (st\<lparr>st_integrations := m\<rparr>, r))"

definition IntegrationRepository_ListByTenant ::
  "((IntegrationConnection \<Rightarrow> IntegrationConnection \<Rightarrow> bool) \<Rightarrow> IntegrationConnection list
    \<Rightarrow> IntegrationConnection list) \<Rightarrow> string \<Rightarrow> storeState \<Rightarrow> IntegrationConnection list" where
  "IntegrationRepository_ListByTenant srt tenantID st =
     srt (\<lambda>a b. ic_CreatedAt a < ic_CreatedAt b)
       (filter (\<lambda>c. ic_TenantID c = tenantID) (map snd (st_integrations st)))"

end
