(* ===== verification/Mem_Repo_Laws.thy ===== *)
theory Mem_Repo_Laws
  imports Mem_Repos
begin

section \<open>Laws of the entity repositories\<close>

text \<open>
  The contract of a version-guarded repository (\<open>versioned_repo\<close>) is stated once and
  interpreted on the five repositories with an \<^verbatim>\<open>Update\<close>: threads, runs, tasks,
  workspaces, integrations. From it follow that an update is never lost, that a race of updates
  from the same version has one winner, and that a reader of another tenant sees a foreign row
  as a missing one. The second part is about run history: sequence numbers, idempotency keys
  and the pages a reader walks.
\<close>

subsection \<open>Version-guarded repositories\<close>

text \<open>Writers that all read version \<open>v\<close> and then update, one after the other; winners counted.\<close>

fun race :: "('e \<Rightarrow> int \<Rightarrow> 'e store_op) \<Rightarrow> 'e list \<Rightarrow> int \<Rightarrow> storeState \<Rightarrow> storeState \<times> nat" where
  "race upd [] v st = (st, 0)"
| "race upd (e # es) v st =
     (case upd e v st of (st', r) \<Rightarrow>
      case race upd es v st' of (st'', n) \<Rightarrow> (st'', (case r of Inl _ \<Rightarrow> n | Inr _ \<Rightarrow> Suc n)))"

locale versioned_repo =
  fixes rows :: "storeState \<Rightarrow> (string, 'e) gomap" and key :: "'e \<Rightarrow> string"
    and tenant :: "'e \<Rightarrow> string" and version :: "'e \<Rightarrow> int"
    and get :: "string \<Rightarrow> string \<Rightarrow> storeState \<Rightarrow> 'e result"
    and update :: "'e \<Rightarrow> int \<Rightarrow> 'e store_op"
  assumes update_ok: "update e v st = (st', Inr e') \<Longrightarrow>
      (\<exists>cur. lookup (rows st) (key e) = Some cur \<and> tenant cur = tenant e \<and> version cur = v)
      \<and> version e' = v + 1 \<and> key e' = key e \<and> tenant e' = tenant e
      \<and> rows st' = insert_map (key e) e' (rows st)"
    and update_stale: "lookup (rows st) (key e) = Some cur \<Longrightarrow> tenant cur = tenant e \<Longrightarrow>
      version cur \<noteq> v \<Longrightarrow> update e v st = (st, Inl NewStaleVersionError)"
    and update_fresh: "lookup (rows st) (key e) = Some cur \<Longrightarrow> tenant cur = tenant e \<Longrightarrow>
      \<exists>st' e'. update e (version cur) st = (st', Inr e')"
    and get_iff: "get t k st = Inr e \<longleftrightarrow> lookup (rows st) k = Some e \<and> tenant e = t"
begin

lemma get_after_update:
  "update e v st = (st', Inr e') \<Longrightarrow> get (tenant e) (key e) st' = Inr e'"
  using update_ok by (force simp: get_iff)

lemma get_other_after_update:
  "update e v st = (st', Inr e') \<Longrightarrow> k \<noteq> key e \<Longrightarrow> get t k st' = Inr x \<longleftrightarrow> get t k st = Inr x"
  using update_ok by (force simp: get_iff)

lemma no_lost_update:
  assumes "update e1 v st = (st1, Inr e1')" and "key e2 = key e1" and "tenant e2 = tenant e1"
  shows "update e2 v st1 = (st1, Inl NewStaleVersionError)"
  using update_ok [OF assms(1)] assms(2,3)
  by (intro update_stale [where cur = e1']) auto

lemma race_stale:
  assumes "lookup (rows st) k = Some cur" and "version cur \<noteq> v"
    and "\<And>e. e \<in> set es \<Longrightarrow> key e = k \<and> tenant e = tenant cur"
  shows "race update es v st = (st, 0)"
  using assms(3)
proof (induction es)
  case (Cons e es)
  then have "update e v st = (st, Inl NewStaleVersionError)"
    using assms(1,2) by (intro update_stale [where cur = cur]) auto
  with Cons show ?case by simp
qed simp

lemma race_one_winner:
  assumes cur: "lookup (rows st) k = Some cur" and es: "es \<noteq> []"
    and own: "\<And>e. e \<in> set es \<Longrightarrow> key e = k \<and> tenant e = tenant cur"
  shows "\<exists>st' e'. race update es (version cur) st = (st', 1)
    \<and> update (hd es) (version cur) st = (st', Inr e')
    \<and> get (tenant cur) k st' = Inr e' \<and> version e' = version cur + 1"
proof -
  obtain e rest where es': "es = e # rest" using es by (cases es) auto
  have e: "key e = k" "tenant e = tenant cur" using own es' by auto
  obtain st1 e1 where u: "update e (version cur) st = (st1, Inr e1)"
    using update_fresh [of st e cur] cur e by auto
  note ok = update_ok [OF u]
  have "race update rest (version cur) st1 = (st1, 0)"
    using ok e own es' by (intro race_stale [where k = k and cur = e1]) auto
  then show ?thesis
    using u ok e get_after_update [OF u] es' by auto
qed

end

lemmas guarded_defs = guarded_update_def Let_def

interpretation thread_repo: versioned_repo st_threads thread_ID thread_TenantID thread_Version
  ThreadRepository_Get ThreadRepository_Update
  by unfold_locales
    (auto simp: ThreadRepository_Get_def ThreadRepository_Update_def guarded_defs scoped_def
      split: option.splits if_splits)

interpretation run_repo: versioned_repo st_runs run_ID run_TenantID run_Version
  RunRepository_Get RunRepository_Update
  by unfold_locales
    (auto simp: RunRepository_Get_def RunRepository_Update_def guarded_defs scoped_def
      split: option.splits if_splits)

interpretation task_repo: versioned_repo st_tasks task_ID task_TenantID task_Version
  TaskRepository_Get TaskRepository_Update
  by unfold_locales
    (auto simp: TaskRepository_Get_def TaskRepository_Update_def guarded_defs scoped_def
      split: option.splits if_splits)

interpretation ws_repo: versioned_repo st_workspaces ws_ID ws_TenantID ws_Version
  WorkspaceRepository_Get WorkspaceRepository_Update
  by unfold_locales
    (auto simp: WorkspaceRepository_Get_def WorkspaceRepository_Update_def guarded_defs scoped_def
      split: option.splits if_splits)

interpretation ic_repo: versioned_repo st_integrations ic_ID ic_TenantID ic_Version
  IntegrationRepository_Get IntegrationRepository_Update
  by unfold_locales
    (auto simp: IntegrationRepository_Get_def IntegrationRepository_Update_def guarded_defs scoped_def
      split: option.splits if_splits)

subsection \<open>Foreign rows look missing\<close>

lemma scoped_foreign:
  "lookup m k = Some v \<Longrightarrow> tenant v \<noteq> t \<Longrightarrow> scoped tenant m t k = scoped tenant (delete_map k m) t k"
  by (simp add: scoped_def)

subsection \<open>Run history\<close>

definition run_key :: "Run \<Rightarrow> idemKey" where
  "run_key r = (run_TenantID r, run_ThreadID r, run_IdempotencyKey r)"

definition runs_ok :: "storeState \<Rightarrow> bool" where
  "runs_ok st \<longleftrightarrow> map_ok (st_runs st) \<and> (\<forall>th. 0 \<le> get_or 0 (st_runSeqs st) th)
     \<and> (\<forall>k r. lookup (st_runs st) k = Some r \<longrightarrow> run_ID r = k \<and> 1 \<le> run_Seq r
          \<and> run_Seq r \<le> get_or 0 (st_runSeqs st) (run_ThreadID r)
          \<and> lookup (st_runIdemKeys st) (run_key r) = Some k)
     \<and> (\<forall>k r k' r'. lookup (st_runs st) k = Some r \<longrightarrow> lookup (st_runs st) k' = Some r' \<longrightarrow>
          run_ThreadID r = run_ThreadID r' \<longrightarrow> run_Seq r = run_Seq r' \<longrightarrow> k = k')
     \<and> (\<forall>key k. lookup (st_runIdemKeys st) key = Some k \<longrightarrow>
          (\<exists>r. lookup (st_runs st) k = Some r \<and> run_key r = key))"

lemma runs_okD:
  assumes "runs_ok st" and "lookup (st_runs st) k = Some r"
  shows "run_ID r = k" and "1 \<le> run_Seq r" and "run_Seq r \<le> get_or 0 (st_runSeqs st) (run_ThreadID r)"
    and "lookup (st_runIdemKeys st) (run_key r) = Some k"
  using assms unfolding runs_ok_def by blast+

lemma runs_ok_seq_inj:
  "runs_ok st \<Longrightarrow> lookup (st_runs st) k = Some r \<Longrightarrow> lookup (st_runs st) k' = Some r' \<Longrightarrow>
   run_ThreadID r = run_ThreadID r' \<Longrightarrow> run_Seq r = run_Seq r' \<Longrightarrow> k = k'"
  unfolding runs_ok_def by blast

lemma runs_ok_seqs: "runs_ok st \<Longrightarrow> 0 \<le> get_or 0 (st_runSeqs st) th"
  unfolding runs_ok_def by blast

lemma runs_ok_idem:
  "runs_ok st \<Longrightarrow> lookup (st_runIdemKeys st) key = Some k \<Longrightarrow>
   \<exists>r. lookup (st_runs st) k = Some r \<and> run_key r = key"
  unfolding runs_ok_def by blast

lemma runs_ok_empty: "runs_ok (empty_store n)"
  by (simp add: runs_ok_def empty_store_def get_or_def)

lemma Create_run_ok:
  assumes "RunRepository_Create run st = (st', Inr run')"
  shows "lookup (st_runIdemKeys st) (run_key run) = None" and "lookup (st_runs st) (run_ID run) = None"
    and "\<exists>t. lookup (st_threads st) (run_ThreadID run) = Some t \<and> thread_TenantID t = run_TenantID run"
    and "run' = run\<lparr>run_Seq := get_or 0 (st_runSeqs st) (run_ThreadID run) + 1\<rparr>"
    and "st' = st\<lparr>st_runSeqs := insert_map (run_ThreadID run) (run_Seq run') (st_runSeqs st),
           st_runIdemKeys := insert_map (run_key run) (run_ID run) (st_runIdemKeys st),
           st_runs := insert_map (run_ID run) run' (st_runs st)\<rparr>"
  using assms by (auto simp: RunRepository_Create_def run_key_def Let_def
      split: option.splits if_splits)

lemma Create_run_keeps_ok:
  assumes ok: "runs_ok st" and c: "RunRepository_Create run st = (st', Inr run')"
  shows "runs_ok st'"
proof -
  note C = Create_run_ok [OF c]
  have run'_key: "run_key run' = run_key run"
    by (simp add: C(4) run_key_def)
  have seqs: "get_or 0 (st_runSeqs st') th =
      (if th = run_ThreadID run then run_Seq run' else get_or 0 (st_runSeqs st) th)" for th
    by (simp add: C(5) get_or_def)
  have old: "run_Seq r \<noteq> run_Seq run'"
    if "lookup (st_runs st) k = Some r" "run_ThreadID r = run_ThreadID run" for k r
    using runs_okD(3) [OF ok that(1)] that(2) by (simp add: C(4))
  have rows: "lookup (st_runs st') k = (if k = run_ID run then Some run' else lookup (st_runs st) k)" for k
    by (simp add: C(5))
  have idem: "lookup (st_runIdemKeys st') key =
      (if key = run_key run then Some (run_ID run) else lookup (st_runIdemKeys st) key)" for key
    by (simp add: C(5))
  show ?thesis
    unfolding runs_ok_def
  proof (intro conjI allI impI)
    show "map_ok (st_runs st')" using ok by (simp add: C(5) runs_ok_def)
    show "0 \<le> get_or 0 (st_runSeqs st') th" for th
      using runs_ok_seqs [OF ok] by (simp add: seqs C(4) add_nonneg_nonneg)
  next
    fix k r assume r: "lookup (st_runs st') k = Some r"
    show "run_ID r = k" using r ok C(4) by (auto simp: rows dest: runs_okD split: if_splits)
    show "1 \<le> run_Seq r"
      using r ok C(4) runs_ok_seqs [OF ok, of "run_ThreadID run"]
      by (auto simp: rows dest: runs_okD split: if_splits)
    show "run_Seq r \<le> get_or 0 (st_runSeqs st') (run_ThreadID r)"
      using r ok C(4) by (fastforce simp: rows seqs dest: runs_okD split: if_splits)
    show "lookup (st_runIdemKeys st') (run_key r) = Some k"
      using r runs_okD(4) [OF ok, of k r] C(1) run'_key by (auto simp: rows idem split: if_splits)
  next
    fix k r k' r'
    assume "lookup (st_runs st') k = Some r" "lookup (st_runs st') k' = Some r'"
      "run_ThreadID r = run_ThreadID r'" "run_Seq r = run_Seq r'"
    then show "k = k'"
      using old runs_ok_seq_inj [OF ok] C(4) by (auto simp: rows split: if_splits) metis+
  next
    fix key k assume "lookup (st_runIdemKeys st') key = Some k"
    then show "\<exists>r. lookup (st_runs st') k = Some r \<and> run_key r = key"
      using runs_ok_idem [OF ok, of key k] C(2) run'_key by (auto simp: rows idem split: if_splits)
  qed
qed

subsection \<open>Pages of run history\<close>

definition owned_runs :: "string \<Rightarrow> string \<Rightarrow> storeState \<Rightarrow> Run list" where
  "owned_runs tenantID threadID st =
     filter (\<lambda>run. run_ThreadID run = threadID \<and> run_TenantID run = tenantID) (map snd (st_runs st))"

lemma runs_page_acc:
  "runs_page after limit out xs =
     (if limit > 0 then out @ take (nat limit - length out) (filter (\<lambda>r. run_Seq r > after) xs)
      else out @ filter (\<lambda>r. run_Seq r > after) xs)"
proof (induction xs arbitrary: out)
  case (Cons x xs)
  show ?case
  proof (cases "limit > 0 \<and> int (length out) \<ge> limit")
    case True
    then have "nat limit - length out = 0" by auto
    with True show ?thesis by simp
  next
    case False
    then have "limit > 0 \<Longrightarrow> nat limit - length out = Suc (nat limit - Suc (length out))" by auto
    with False Cons show ?thesis by auto
  qed
qed simp

lemma runs_page_eq: "runs_page after limit [] xs = page limit (filter (\<lambda>r. run_Seq r > after) xs)"
  by (simp add: runs_page_acc page_def)

lemma ListByThread_eq:
  assumes "lookup (st_threads st) threadID = Some t" and "thread_TenantID t = tenantID"
  shows "RunRepository_ListByThread srt tenantID threadID after limit st =
    Inr (page limit (filter (\<lambda>r. run_Seq r > after)
           (srt (\<lambda>a b. run_Seq a < run_Seq b) (owned_runs tenantID threadID st))),
         int (length (owned_runs tenantID threadID st)))"
  using assms
  by (simp add: RunRepository_ListByThread_def scoped_def owned_runs_def Let_def runs_page_eq)

lemma owned_runs_lookup:
  "map_ok (st_runs st) \<Longrightarrow> r \<in> set (owned_runs tn th st) \<longleftrightarrow>
     run_ThreadID r = th \<and> run_TenantID r = tn \<and> (\<exists>k. lookup (st_runs st) k = Some r)"
  by (auto simp: owned_runs_def values_lookup)

lemma map_snd_insert_new:
  "lookup m k = None \<Longrightarrow> map snd (insert_map k v m) = map snd m @ [v]"
  by (induction m) (auto split: if_splits)

lemma owned_runs_create:
  assumes "RunRepository_Create run st = (st', Inr run')"
  shows "owned_runs (run_TenantID run) (run_ThreadID run) st' =
    owned_runs (run_TenantID run) (run_ThreadID run) st @ [run']"
  using Create_run_ok [OF assms] by (simp add: owned_runs_def map_snd_insert_new)

lemma owned_distinct:
  assumes "runs_ok st"
  shows "inj_on run_Seq (set (owned_runs tn th st))" and "distinct (owned_runs tn th st)"
proof -
  have m: "map_ok (st_runs st)" using assms by (simp add: runs_ok_def)
  show "inj_on run_Seq (set (owned_runs tn th st))"
  proof (rule inj_onI)
    fix a b assume a: "a \<in> set (owned_runs tn th st)" and b: "b \<in> set (owned_runs tn th st)"
      and seq: "run_Seq a = run_Seq b"
    obtain k k' where "lookup (st_runs st) k = Some a" "lookup (st_runs st) k' = Some b"
      using a b by (auto simp: owned_runs_lookup [OF m])
    moreover have "run_ThreadID a = run_ThreadID b"
      using a b by (simp add: owned_runs_lookup [OF m])
    ultimately show "a = b" using runs_ok_seq_inj [OF assms] seq by fastforce
  qed
  have "distinct (map run_ID (map snd (st_runs st)))"
  proof -
    have "map run_ID (map snd (st_runs st)) = map fst (st_runs st)"
      using runs_okD(1) [OF assms] set_in_lookup [OF m] by (auto simp: map_eq_conv)
    then show ?thesis using m by (simp only: map_ok_def)
  qed
  then have "distinct (map snd (st_runs st))"
    unfolding distinct_map [of run_ID] by blast
  then show "distinct (owned_runs tn th st)"
    unfolding owned_runs_def by (rule distinct_filter)
qed

text \<open>History in sequence order is extended at its end by a new run, and nowhere else.\<close>

abbreviation by_seq :: "Run \<Rightarrow> Run \<Rightarrow> bool" where
  "by_seq a b \<equiv> run_Seq a < run_Seq b"

lemma strict_weak_by_seq: "strict_weak by_seq"
  by (rule strict_weak_key)

lemma sorted_history_unique:
  assumes "sort_slice srt" and "mset xs = mset ys" and "inj_on run_Seq (set xs)"
    and "sorted_wrt (\<lambda>a b. run_Seq a \<le> run_Seq b) ys"
  shows "srt by_seq xs = ys"
proof (rule sorted_wrt_unique [where f = run_Seq])
  note perm = sort_slice.perm [OF assms(1) strict_weak_by_seq]
  show "mset (srt by_seq xs) = mset ys" by (simp add: perm assms(2))
  have "set (srt by_seq xs) = set xs" by (metis perm set_mset_mset)
  then show "inj_on run_Seq (set (srt by_seq xs))" using assms(3) by simp
  show "sorted_wrt (\<lambda>a b. run_Seq a \<le> run_Seq b) (srt by_seq xs)"
    using sort_slice.ordered [OF assms(1) strict_weak_by_seq, of xs] by (simp add: not_less)
qed (fact assms(4))

lemma history_extends:
  assumes srt: "sort_slice srt" and ok: "runs_ok st" and c: "RunRepository_Create run st = (st', Inr run')"
  defines "tn \<equiv> run_TenantID run" and "th \<equiv> run_ThreadID run"
  shows "srt by_seq (owned_runs tn th st') = srt by_seq (owned_runs tn th st) @ [run']"
    and "r \<in> set (owned_runs tn th st) \<Longrightarrow> run_Seq r < run_Seq run'"
proof -
  note C = Create_run_ok [OF c]
  have m: "map_ok (st_runs st)" using ok by (simp add: runs_ok_def)
  have small: "run_Seq r < run_Seq run'" if "r \<in> set (owned_runs tn th st)" for r
    using that runs_okD(3) [OF ok] by (fastforce simp: owned_runs_lookup [OF m] C(4) th_def)
  then show "r \<in> set (owned_runs tn th st) \<Longrightarrow> run_Seq r < run_Seq run'" .
  note perm = sort_slice.perm [OF srt strict_weak_by_seq]
  have set_eq: "set (srt by_seq (owned_runs tn th st)) = set (owned_runs tn th st)"
    by (metis perm set_mset_mset)
  have "sorted_wrt (\<lambda>a b. run_Seq a \<le> run_Seq b) (srt by_seq (owned_runs tn th st) @ [run'])"
    using sort_slice.ordered [OF srt strict_weak_by_seq, of "owned_runs tn th st"] small
    by (auto simp: sorted_wrt_append set_eq not_less less_imp_le)
  moreover have "mset (owned_runs tn th st') = mset (srt by_seq (owned_runs tn th st) @ [run'])"
    using owned_runs_create [OF c] by (simp add: perm tn_def th_def)
  ultimately show "srt by_seq (owned_runs tn th st') = srt by_seq (owned_runs tn th st) @ [run']"
    using sorted_history_unique [OF srt] owned_distinct(1) [OF Create_run_keeps_ok [OF ok c]] by blast
qed

lemma history_strictly_sorted:
  assumes "sort_slice srt" and "runs_ok st"
  shows "sorted_wrt by_seq (srt by_seq (owned_runs tn th st))"
proof -
  have mono: "sorted (map run_Seq (srt by_seq (owned_runs tn th st)))"
    using sort_slice.ordered [OF assms(1) strict_weak_by_seq, of "owned_runs tn th st"]
    by (simp add: sorted_map not_less)
  have "distinct (map run_Seq (srt by_seq (owned_runs tn th st)))"
    using owned_distinct [OF assms(2), of tn th] sort_slice.set_srt [OF assms(1) strict_weak_by_seq]
      sort_slice.distinct_srt [OF assms(1) strict_weak_by_seq]
    by (simp add: distinct_map)
  with mono have "sorted_wrt (<) (map run_Seq (srt by_seq (owned_runs tn th st)))"
    by (simp add: strict_sorted_iff)
  then show ?thesis by (simp add: sorted_wrt_map)
qed

subsection \<open>Example data\<close>

text \<open>A small store with one tenant, project, thread and run, used to exercise the theorems.\<close>

definition ex_thread :: Thread where
  "ex_thread = \<lparr>thread_ID = ''h'', thread_TenantID = ''t'', thread_ProjectID = ''p'',
     thread_Title = ''T'', thread_Status = ThreadIdle, thread_CreatorID = ''u'',
     thread_Version = 1, thread_CreatedAt = 0, thread_UpdatedAt = 0\<rparr>"

definition ex_run :: "string \<Rightarrow> string \<Rightarrow> Run" where
  "ex_run ident key = \<lparr>run_ID = ident, run_TenantID = ''t'', run_ThreadID = ''h'', run_SpecID = [],
     run_Status = RunPending, run_IdempotencyKey = key, run_Seq = 0, run_Principal = [],
     run_TaskIDs = [], run_Report = None, run_Version = 1, run_CreatedAt = 0, run_UpdatedAt = 0,
     run_FinishedAt = None, run_Failure = None\<rparr>"

definition ex_store :: storeState where
  "ex_store = (empty_store 5)\<lparr>st_threads := [(''h'', ex_thread)]\<rparr>"

definition ex_store1 :: storeState where
  "ex_store1 = fst (RunRepository_Create (ex_run ''r1'' ''k1'') ex_store)"

lemma ex_store1_eq:
  "ex_store1 = ex_store\<lparr>st_runSeqs := [(''h'', 1)], st_runIdemKeys := [((''t'', ''h'', ''k1''), ''r1'')],
     st_runs := [(''r1'', (ex_run ''r1'' ''k1'')\<lparr>run_Seq := 1\<rparr>)]\<rparr>"
  by (simp add: ex_store1_def RunRepository_Create_def ex_store_def ex_run_def ex_thread_def
      empty_store_def scoped_def get_or_def Let_def)

lemma runs_ok_ex_store1: "runs_ok ex_store1"
proof -
  have "runs_ok ex_store"
    using runs_ok_empty [of 5] by (simp add: runs_ok_def ex_store_def)
  moreover have "RunRepository_Create (ex_run ''r1'' ''k1'') ex_store
      = (ex_store1, Inr ((ex_run ''r1'' ''k1'')\<lparr>run_Seq := 1\<rparr>))"
    by (simp add: ex_store1_def RunRepository_Create_def ex_store_def ex_run_def ex_thread_def
        empty_store_def scoped_def get_or_def Let_def)
  ultimately show ?thesis by (rule Create_run_keeps_ok)
qed

subsection \<open>Properties\<close>

text \<open>
  Optimistic concurrency has one winner. Of any number of writers that update the same
  run from the version that is stored, exactly the first succeeds; it stores its value
  with the next version, and every other writer gets a conflict and changes nothing.
\<close>

theorem run_update_one_winner:
  assumes "lookup (st_runs st) k = Some cur" and "es \<noteq> []"
    and "list_all (\<lambda>e. run_ID e = k \<and> run_TenantID e = run_TenantID cur) es"
  shows "\<exists>st' e'. race RunRepository_Update es (run_Version cur) st = (st', 1)
    \<and> RunRepository_Update (hd es) (run_Version cur) st = (st', Inr e')
    \<and> RunRepository_Get (run_TenantID cur) k st' = Inr e'
    \<and> run_Version e' = run_Version cur + 1"
  using assms by (intro run_repo.race_one_winner) (auto simp: list_all_iff)

theorem run_update_one_winner_witness:
  "\<exists>st' e'. race RunRepository_Update [(ex_run ''r1'' ''k1'')\<lparr>run_Status := RunPlanning\<rparr>,
        (ex_run ''r1'' ''k1'')\<lparr>run_Status := RunCancelled\<rparr>] 1 ex_store1 = (st', 1)
    \<and> RunRepository_Get ''t'' ''r1'' st' = Inr e' \<and> run_Version e' = 2"
  using run_update_one_winner [of ex_store1 "''r1''" "(ex_run ''r1'' ''k1'')\<lparr>run_Seq := 1\<rparr>"
      "[(ex_run ''r1'' ''k1'')\<lparr>run_Status := RunPlanning\<rparr>,
        (ex_run ''r1'' ''k1'')\<lparr>run_Status := RunCancelled\<rparr>]"]
  by (auto simp: ex_store1_eq ex_run_def)

text \<open>
  Tenant isolation of reads. For every tenant-scoped repository, asking for a row
  that belongs to another tenant gives exactly the answer the store would give if the row did
  not exist, and that answer is a not-found error.
\<close>

theorem foreign_rows_look_missing:
  assumes "lookup (st_runs st) k = Some r" and "run_TenantID r \<noteq> tn"
    and "lookup (st_threads st) k2 = Some th" and "thread_TenantID th \<noteq> tn"
    and "lookup (st_tasks st) k3 = Some tk" and "task_TenantID tk \<noteq> tn"
    and "lookup (st_artifacts st) k4 = Some a" and "art_TenantID a \<noteq> tn"
  shows "RunRepository_Get tn k st = RunRepository_Get tn k (st\<lparr>st_runs := delete_map k (st_runs st)\<rparr>)
      \<and> RunRepository_Get tn k st = Inl (NotFoundf ''run'')
    \<and> ThreadRepository_Get tn k2 st
        = ThreadRepository_Get tn k2 (st\<lparr>st_threads := delete_map k2 (st_threads st)\<rparr>)
      \<and> ThreadRepository_Get tn k2 st = Inl (NotFoundf ''thread'')
    \<and> TaskRepository_Get tn k3 st
        = TaskRepository_Get tn k3 (st\<lparr>st_tasks := delete_map k3 (st_tasks st)\<rparr>)
      \<and> TaskRepository_Get tn k3 st = Inl (NotFoundf ''task'')
    \<and> ArtifactRepository_Get tn k4 st
        = ArtifactRepository_Get tn k4 (st\<lparr>st_artifacts := delete_map k4 (st_artifacts st)\<rparr>)
      \<and> ArtifactRepository_Get tn k4 st = Inl (NotFoundf ''artifact'')"
  using assms
  by (simp add: RunRepository_Get_def ThreadRepository_Get_def TaskRepository_Get_def
      ArtifactRepository_Get_def scoped_def notFound_def)

theorem foreign_rows_look_missing_witness:
  "\<exists>st. lookup (st_runs st) ''r1'' \<noteq> None \<and> RunRepository_Get ''x'' ''r1'' st = Inl (NotFoundf ''run'')
    \<and> ThreadRepository_Get ''x'' ''h'' st = Inl (NotFoundf ''thread'')"
proof -
  obtain tk where tk: "NewTask (''tsk_'' @ replicate 26 (CHR ''a'')) ''t'' ''r1'' ''h'' ''n''
      TaskKindCodeChange 0 [] 3 0 = Inr tk" "task_TenantID tk = ''t''"
    by (simp add: NewTask_def ParseTaskID_def validatePrefixed_def PrefixTask_def idSeparator_def
        minIDRandomChars_def maxIDSuffixLen_def id_char_def is_lower_def list_all_length)
  obtain a where a: "NewArtifact (\<lambda>_. ''d'') (''art_'' @ replicate 26 (CHR ''a'')) ''t'' ''r1''
      ArtifactLog RetentionDurable ''log'' 0 = Inr a" "art_TenantID a = ''t''"
    by (simp add: NewArtifact_def ParseArtifactID_def validatePrefixed_def PrefixArtifact_def
        idSeparator_def minIDRandomChars_def maxIDSuffixLen_def id_char_def is_lower_def
        list_all_length MaxArtifactBytes_def)
  define st where "st = ex_store1\<lparr>st_tasks := [(''k'', tk)], st_artifacts := [(''a'', a)]\<rparr>"
  have "lookup (st_runs st) ''r1'' = Some ((ex_run ''r1'' ''k1'')\<lparr>run_Seq := 1\<rparr>)"
    "lookup (st_threads st) ''h'' = Some ex_thread" "lookup (st_tasks st) ''k'' = Some tk"
    "lookup (st_artifacts st) ''a'' = Some a"
    by (simp_all add: st_def ex_store1_eq ex_store_def)
  with foreign_rows_look_missing [of st "''r1''" "(ex_run ''r1'' ''k1'')\<lparr>run_Seq := 1\<rparr>" "''x''"
      "''h''" ex_thread "''k''" tk "''a''" a] tk a
  show ?thesis by (auto simp: ex_run_def ex_thread_def)
qed

text \<open>
  Run history pages are append-stable. A reader holds a page of a thread's history;
  a run is then created on that thread. Reading on from the last sequence number of the page
  gives, after the page, exactly the rest of the old history and the new run at the end: no
  run is skipped or seen twice, whatever the creation times are.
\<close>

theorem run_history_append_stable:
  assumes "sort_slice srt" and "runs_ok st"
    and "RunRepository_ListByThread srt (run_TenantID run) (run_ThreadID run) after limit st = Inr (p1, n)"
    and "p1 \<noteq> []" and "RunRepository_Create run st = (st', Inr run')"
  shows "\<exists>p2 all. RunRepository_ListByThread srt (run_TenantID run) (run_ThreadID run) after 0 st = Inr (all, n)
    \<and> RunRepository_ListByThread srt (run_TenantID run) (run_ThreadID run) (run_Seq (last p1)) 0 st'
        = Inr (p2, n + 1)
    \<and> p1 @ p2 = all @ [run'] \<and> distinct (p1 @ p2)"
proof -
  define tn th where "tn = run_TenantID run" and "th = run_ThreadID run"
  note C = Create_run_ok [OF assms(5)]
  obtain t where t: "lookup (st_threads st) th = Some t" "thread_TenantID t = tn"
    using C(3) by (auto simp: tn_def th_def)
  have t': "lookup (st_threads st') th = Some t" using t by (simp add: C(5))
  define L where "L = srt by_seq (owned_runs tn th st)"
  define all where "all = filter (\<lambda>r. run_Seq r > after) L"
  have p1: "p1 = page limit all" and n: "n = int (length (owned_runs tn th st))"
    using assms(3) ListByThread_eq [OF t, of srt after limit] by (simp_all add: tn_def th_def L_def all_def)
  have L': "srt by_seq (owned_runs tn th st') = L @ [run']"
    using history_extends(1) [OF assms(1,2,5)] by (simp add: L_def tn_def th_def)
  have sub: "set L = set (owned_runs tn th st)"
    using sort_slice.set_srt [OF assms(1) strict_weak_by_seq] by (simp add: L_def)
  have "set p1 \<subseteq> set L"
    by (auto simp: p1 page_def all_def dest: in_set_takeD split: if_splits)
  then have "last p1 \<in> set L" using last_in_set [OF assms(4)] by blast
  then have last: "run_Seq (last p1) < run_Seq run'"
    using history_extends(2) [OF assms(1,2,5)] by (simp add: sub tn_def th_def)
  have resume: "p1 @ filter (\<lambda>r. run_Seq r > run_Seq (last p1)) L = all"
    using page_resume [of run_Seq L limit after] history_strictly_sorted [OF assms(1,2), of tn th] assms(4)
    by (simp add: p1 all_def L_def)
  define p2 where "p2 = filter (\<lambda>r. run_Seq r > run_Seq (last p1)) L @ [run']"
  have "RunRepository_ListByThread srt tn th (run_Seq (last p1)) 0 st' = Inr (p2, n + 1)"
    using ListByThread_eq [OF t' t(2), of srt "run_Seq (last p1)" 0] L' last
      owned_runs_create [OF assms(5)] by (simp add: page_def p2_def n tn_def th_def)
  moreover have "RunRepository_ListByThread srt tn th after 0 st = Inr (all, n)"
    using ListByThread_eq [OF t, of srt after 0] by (simp add: page_def all_def L_def n)
  moreover have eq: "p1 @ p2 = all @ [run']"
    using resume by (simp add: p2_def flip: append_assoc)
  moreover have "distinct (p1 @ p2)"
    unfolding eq using owned_distinct(2) [OF assms(2), of tn th] history_extends(2) [OF assms(1,2,5)]
      sort_slice.distinct_srt [OF assms(1) strict_weak_by_seq] sub
    by (fastforce simp: all_def L_def tn_def th_def)
  ultimately show ?thesis unfolding tn_def th_def by blast
qed

theorem run_history_append_stable_witness:
  "\<exists>st' run' p2 all. RunRepository_Create (ex_run ''r2'' ''k2'') ex_store1 = (st', Inr run')
    \<and> RunRepository_ListByThread insertion_sort ''t'' ''h'' 1 0 st' = Inr (p2, 2)
    \<and> [(ex_run ''r1'' ''k1'')\<lparr>run_Seq := 1\<rparr>] @ p2 = all @ [run']"
proof -
  define r1 where "r1 = (ex_run ''r1'' ''k1'')\<lparr>run_Seq := 1\<rparr>"
  obtain st' run' where c: "RunRepository_Create (ex_run ''r2'' ''k2'') ex_store1 = (st', Inr run')"
    by (simp add: RunRepository_Create_def ex_store1_eq ex_store_def ex_run_def ex_thread_def
        empty_store_def scoped_def Let_def)
  have p: "RunRepository_ListByThread insertion_sort (run_TenantID (ex_run ''r2'' ''k2''))
      (run_ThreadID (ex_run ''r2'' ''k2'')) 0 1 ex_store1 = Inr ([r1], 1)"
    by (simp add: RunRepository_ListByThread_def ex_store1_eq ex_store_def ex_run_def ex_thread_def
        empty_store_def scoped_def Let_def r1_def)
  from run_history_append_stable [OF isort.sort_slice_axioms runs_ok_ex_store1 p _ c] c
  show ?thesis by (auto simp: r1_def ex_run_def)
qed

end
