(* ===== verification/Ports_Requests.thy ===== *)
theory Ports_Requests
  imports Domain_Laws
begin

section \<open>Requests at the store seam (internal/ports, internal/correlation)\<close>

text \<open>
  The request and result types of the claim, outbox, dead-letter and retention ports with the
  structural validation each adapter performs first, and the correlation grammar operator
  input has to satisfy. A context carries at most one correlation identifier, so for
  \<open>TraceID\<close> the context is that optional identifier.
\<close>

subsection \<open>Correlation identifiers (correlation.go)\<close>

definition MaxLength :: nat where "MaxLength = 128"

definition correlation_char :: "char \<Rightarrow> bool" where
  "correlation_char r \<longleftrightarrow> is_lower r \<or> is_upper r \<or> is_digit r
     \<or> r = CHR ''.'' \<or> r = CHR ''_'' \<or> r = CHR ''~'' \<or> r = CHR '':'' \<or> r = CHR ''@'' \<or> r = CHR ''-''"

definition correlation_Valid :: "string \<Rightarrow> bool" where
  "correlation_Valid v \<longleftrightarrow> \<not> (v = [] \<or> length v > MaxLength) \<and> list_all correlation_char v"

type_synonym carrier = "string option"

definition correlation_With :: "carrier \<Rightarrow> string \<Rightarrow> carrier" where
  "correlation_With ctx ident = Some ident"

definition correlation_From :: "carrier \<Rightarrow> string option" where
  "correlation_From ctx = (case ctx of None \<Rightarrow> None | Some ident \<Rightarrow> if ident \<noteq> [] then Some ident else None)"

definition TraceID :: "carrier \<Rightarrow> string \<Rightarrow> string" where
  "TraceID ctx explicit =
     (if explicit \<noteq> [] then explicit
      else case correlation_From ctx of Some ident \<Rightarrow> ident | None \<Rightarrow> [])"

subsection \<open>Run claim requests (runclaims.go)\<close>

record RunClaimRef =
  ref_TenantID :: string
  ref_RunID :: string
  ref_Owner :: string
  ref_Token :: string
  ref_Generation :: int

definition RunClaimRef_Validate :: "RunClaimRef \<Rightarrow> unit result" where
  "RunClaimRef_Validate r =
     and_then (ValidateClaimOwner (ref_Owner r)) (\<lambda>_.
      if length (ref_Token r) \<noteq> ClaimTokenLength then Inl (Invalidf ''run_claim_token'')
      else if ref_Generation r < 1 then Inl (Invalidf ''run_claim_generation'')
      else Inr ())"

definition positiveDuration :: "Duration \<Rightarrow> unit result" where
  "positiveDuration d = (if d \<le> 0 then Inl (Invalidf ''run_claim_lease_duration'') else Inr ())"

record RunClaimLeaseRequest =
  lr_TenantID :: string
  lr_RunID :: string
  lr_Owner :: string
  lr_LeaseFor :: Duration

definition RunClaimLeaseRequest_Validate :: "RunClaimLeaseRequest \<Rightarrow> unit result" where
  "RunClaimLeaseRequest_Validate r =
     and_then (ValidateClaimOwner (lr_Owner r)) (\<lambda>_. positiveDuration (lr_LeaseFor r))"

record RunClaimBatchRequest =
  br_Owner :: string
  br_Limit :: int
  br_LeaseFor :: Duration

definition RunClaimBatchRequest_Validate :: "RunClaimBatchRequest \<Rightarrow> unit result" where
  "RunClaimBatchRequest_Validate r =
     and_then (ValidateClaimOwner (br_Owner r)) (\<lambda>_.
      if br_Limit r \<le> 0 then Inl (Invalidf ''run_claim_limit'')
      else positiveDuration (br_LeaseFor r))"

subsection \<open>Outbox requests (ports.go, outboxops.go, outboxretention.go)\<close>

record OutboxMessage =
  om_ID :: string
  om_DedupKey :: string
  om_TenantID :: string
  om_Envelope :: bytes
  om_Attempts :: int
  om_MaxAttempts :: int

record OutboxLeaseRequest =
  ol_WorkerID :: string
  ol_LeaseFor :: Duration
  ol_Limit :: int

record OutboxStats =
  os_Pending :: int
  os_Leased :: int
  os_Delivered :: int
  os_Dead :: int
  os_Discarded :: int

definition MaxDeadLetterPageSize :: int where "MaxDeadLetterPageSize = 200"
definition maxOperatorFreeText :: nat where "maxOperatorFreeText = 512"
definition maxMessageIDLen :: nat where "maxMessageIDLen = 128"

record DeadLetterSummary =
  dl_ID :: string
  dl_DedupKey :: string
  dl_TenantID :: string
  dl_Status :: OutboxDeliveryStatus
  dl_Attempts :: int
  dl_MaxAttempts :: int
  dl_Generation :: int
  dl_Cause :: string
  dl_CreatedAt :: Time
  dl_DeadAt :: "Time option"
  dl_DiscardedAt :: "Time option"

record ListDeadLettersRequest =
  ldl_TenantID :: string
  ldl_AfterCreatedAt :: Time
  ldl_AfterID :: string
  ldl_Limit :: int

definition validateTenantID :: "string \<Rightarrow> unit result" where
  "validateTenantID ident =
     (case ParseTenantID ident of Inl _ \<Rightarrow> Inl (Invalidf ''tenant_id'') | Inr _ \<Rightarrow> Inr ())"

definition message_char :: "char \<Rightarrow> bool" where
  "message_char r \<longleftrightarrow> is_lower r \<or> is_upper r \<or> is_digit r \<or> r = CHR ''_''"

definition validateMessageID :: "string \<Rightarrow> unit result" where
  "validateMessageID ident =
     (if ident = [] then Inl (Invalidf ''outbox_message_id'')
      else if length ident > maxMessageIDLen then Inl (Invalidf ''outbox_message_id'')
      else if list_all message_char ident then Inr ()
      else Inl (Invalidf ''outbox_message_id''))"

definition ListDeadLettersRequest_Validate :: "ListDeadLettersRequest \<Rightarrow> unit result" where
  "ListDeadLettersRequest_Validate r =
     and_then (validateTenantID (ldl_TenantID r)) (\<lambda>_.
      if ldl_Limit r < 1 \<or> ldl_Limit r > MaxDeadLetterPageSize
      then Inl (Invalidf ''outbox_page_limit'') else Inr ())"

record OutboxMutationRequest =
  mr_TenantID :: string
  mr_MessageID :: string
  mr_ExpectedGeneration :: int
  mr_Actor :: Actor
  mr_Reason :: string
  mr_TraceID :: string

definition OutboxMutationRequest_Validate :: "OutboxMutationRequest \<Rightarrow> unit result" where
  "OutboxMutationRequest_Validate r =
     and_then (validateTenantID (mr_TenantID r)) (\<lambda>_.
     and_then (validateMessageID (mr_MessageID r)) (\<lambda>_.
      if mr_ExpectedGeneration r < 1 then Inl (Invalidf ''outbox_generation'')
      else and_then (Actor_Validate (mr_Actor r)) (\<lambda>_.
        if length (mr_Reason r) > maxOperatorFreeText then Inl (Invalidf ''outbox_reason'')
        else if mr_TraceID r \<noteq> [] \<and> \<not> correlation_Valid (mr_TraceID r)
        then Inl (Invalidf ''outbox_trace_id'')
        else Inr ())))"

record OutboxMutationResult =
  mres_MessageID :: string
  mres_Action :: string
  mres_AttemptsBefore :: int
  mres_Generation :: int

definition MaxRetentionSweepBatch :: int where "MaxRetentionSweepBatch = 1000"

record RetentionSweepRequest =
  rs_DeliveredOlderThan :: Duration
  rs_DiscardedOlderThan :: Duration
  rs_Limit :: int
  rs_DryRun :: bool

definition RetentionSweepRequest_Validate :: "RetentionSweepRequest \<Rightarrow> unit result" where
  "RetentionSweepRequest_Validate r =
     (if rs_DeliveredOlderThan r < 0 \<or> rs_DiscardedOlderThan r < 0
      then Inl (Invalidf ''outbox_retention_horizon'')
      else if rs_Limit r < 1 \<or> rs_Limit r > MaxRetentionSweepBatch
      then Inl (Invalidf ''outbox_retention_batch'')
      else Inr ())"

record RetentionSweepResult =
  rr_Cutoff :: Time
  rr_DeletedDelivered :: int
  rr_DeletedDiscarded :: int

subsection \<open>Properties of the validators\<close>

lemma validated_mutation:
  "OutboxMutationRequest_Validate r = Inr () \<Longrightarrow> 1 \<le> mr_ExpectedGeneration r
     \<and> (mr_TraceID r = [] \<or> correlation_Valid (mr_TraceID r))"
  by (auto simp: OutboxMutationRequest_Validate_def split: if_splits)

lemma validated_ref:
  "RunClaimRef_Validate r = Inr () \<longleftrightarrow> ValidateClaimOwner (ref_Owner r) = Inr ()
     \<and> length (ref_Token r) = ClaimTokenLength \<and> 1 \<le> ref_Generation r"
  by (auto simp: RunClaimRef_Validate_def)

lemma validated_batch:
  "RunClaimBatchRequest_Validate r = Inr () \<longleftrightarrow> ValidateClaimOwner (br_Owner r) = Inr ()
     \<and> 0 < br_Limit r \<and> 0 < br_LeaseFor r"
  by (auto simp: RunClaimBatchRequest_Validate_def positiveDuration_def)

lemma validated_lease:
  "RunClaimLeaseRequest_Validate r = Inr () \<longleftrightarrow> ValidateClaimOwner (lr_Owner r) = Inr ()
     \<and> 0 < lr_LeaseFor r"
  by (auto simp: RunClaimLeaseRequest_Validate_def positiveDuration_def)

text \<open>
  A trace id on a durable record is empty, what the operator declared, or what the carrier
  holds; a declared one is never overwritten, and valid inputs give a valid or empty result.
\<close>

lemma TraceID_cases:
  "TraceID ctx explicit = (if explicit \<noteq> [] then explicit else case ctx of None \<Rightarrow> [] | Some i \<Rightarrow> i)"
  by (auto simp: TraceID_def correlation_From_def split: option.splits)

end
