(* ===== verification/Mem_Claims.thy ===== *)
theory Mem_Claims
  imports Mem_Repo_Laws Ports_Requests
begin

section \<open>Run claims: fenced execution leases (internal/store/memory/runclaims.go)\<close>

text \<open>
  A claim is the lease that lets one worker execute one run. \<^verbatim>\<open>AcquireNext\<close> keeps
  pointers into the claim map; the model keeps the map key beside the claim it read. Minted
  tokens come from an entropy argument, one per call of \<open>NewRunClaimToken\<close>.
\<close>

subsection \<open>The operations\<close>

definition put_claim :: "string \<Rightarrow> RunClaim \<Rightarrow> storeState \<Rightarrow> storeState" where
  "put_claim k c st = st\<lparr>st_runClaims := insert_map k c (st_runClaims st)\<rparr>"

definition drop_claim :: "string \<Rightarrow> storeState \<Rightarrow> storeState" where
  "drop_claim k st = st\<lparr>st_runClaims := delete_map k (st_runClaims st)\<rparr>"

definition fresh_claim :: "string \<Rightarrow> string \<Rightarrow> Time \<Rightarrow> RunClaim" where
  "fresh_claim tenantID runID now =
     \<lparr>claim_TenantID = tenantID, claim_RunID = runID, claim_Status = ClaimRunnable,
      claim_Owner = [], claim_Token = [], claim_Generation = 0, claim_Attempts = 0,
      claim_AcquiredAt = None, claim_HeartbeatAt = None, claim_ExpiresAt = None,
      claim_CreatedAt = now, claim_UpdatedAt = now\<rparr>"

definition claimEligible :: "RunClaim \<Rightarrow> Time \<Rightarrow> bool" where
  "claimEligible c now =
     (case claim_Status c of ClaimRunnable \<Rightarrow> True
      | ClaimClaimed \<Rightarrow> ClaimExpired (claim_ExpiresAt c) now)"

definition acquireClaim :: "RunClaim \<Rightarrow> string \<Rightarrow> string \<Rightarrow> Time \<Rightarrow> Duration \<Rightarrow> RunClaim" where
  "acquireClaim c owner token now leaseFor =
     c\<lparr>claim_Status := ClaimClaimed, claim_Owner := owner, claim_Token := token,
       claim_Generation := claim_Generation c + 1, claim_Attempts := claim_Attempts c + 1,
       claim_AcquiredAt := Some now, claim_HeartbeatAt := Some now,
       claim_ExpiresAt := Some (ClaimExpiry now leaseFor), claim_UpdatedAt := now\<rparr>"

definition releaseClaim :: "RunClaim \<Rightarrow> Time \<Rightarrow> RunClaim" where
  "releaseClaim c now =
     c\<lparr>claim_Status := ClaimRunnable, claim_Owner := [], claim_Token := [],
       claim_ExpiresAt := None, claim_UpdatedAt := now\<rparr>"

definition extendClaim :: "RunClaim \<Rightarrow> Time \<Rightarrow> Duration \<Rightarrow> RunClaim" where
  "extendClaim c now extendFor =
     c\<lparr>claim_HeartbeatAt := Some now, claim_ExpiresAt := Some (ClaimExpiry now extendFor),
       claim_UpdatedAt := now\<rparr>"

definition fenced :: "RunClaimRef \<Rightarrow> storeState \<Rightarrow> RunClaim result" where
  "fenced ref st =
     (case scoped claim_TenantID (st_runClaims st) (ref_TenantID ref) (ref_RunID ref) of
        None \<Rightarrow> Inl (notFound ''run_claim'')
      | Some c \<Rightarrow>
          if \<not> Matches c (ref_Owner ref) (ref_Token ref) (ref_Generation ref)
          then Inl (Conflictf ''run_claim_stale_fencing'') else Inr c)"

definition RunClaimRepository_Create :: "string \<Rightarrow> string \<Rightarrow> Time \<Rightarrow> unit store_op" where
  "RunClaimRepository_Create tenantID runID now st =
     (case scoped run_TenantID (st_runs st) tenantID runID of
        None \<Rightarrow> (st, Inl (Invalidf ''run_claim_run_unknown''))
      | Some _ \<Rightarrow>
          if lookup (st_runClaims st) runID \<noteq> None
          then (st, Inl (Conflictf ''run_claim_exists''))
          else (put_claim runID (fresh_claim tenantID runID now) st, Inr ()))"

definition RunClaimRepository_Get :: "string \<Rightarrow> string \<Rightarrow> storeState \<Rightarrow> RunClaim result" where
  "RunClaimRepository_Get tenantID runID st =
     (case scoped claim_TenantID (st_runClaims st) tenantID runID of
        None \<Rightarrow> Inl (notFound ''run_claim'')
      | Some c \<Rightarrow> Inr (c\<lparr>claim_Token := []\<rparr>))"

definition RunClaimRepository_Acquire ::
  "RunClaimLeaseRequest \<Rightarrow> entropy \<Rightarrow> Time \<Rightarrow> RunClaim store_op" where
  "RunClaimRepository_Acquire req rnd now st =
     (case RunClaimLeaseRequest_Validate req of Inl e \<Rightarrow> (st, Inl e) | Inr _ \<Rightarrow>
      (case scoped claim_TenantID (st_runClaims st) (lr_TenantID req) (lr_RunID req) of
         None \<Rightarrow> (st, Inl (notFound ''run_claim''))
       | Some c \<Rightarrow>
          if \<not> claimEligible c now then (st, Inl (Conflictf ''run_claim_held''))
          else (case NewRunClaimToken rnd of Inl e \<Rightarrow> (st, Inl e) | Inr token \<Rightarrow>
            (let c' = acquireClaim c (lr_Owner req) token now (lr_LeaseFor req)
             in (put_claim (lr_RunID req) c' st, Inr c')))))"

definition claim_before :: "string \<times> RunClaim \<Rightarrow> string \<times> RunClaim \<Rightarrow> bool" where
  "claim_before a b =
     (if claim_CreatedAt (snd a) \<noteq> claim_CreatedAt (snd b)
      then claim_CreatedAt (snd a) < claim_CreatedAt (snd b)
      else claim_RunID (snd a) < claim_RunID (snd b))"

fun acquire_loop ::
  "string \<Rightarrow> Duration \<Rightarrow> Time \<Rightarrow> (nat \<Rightarrow> entropy) \<Rightarrow> RunClaim list \<Rightarrow> (string \<times> RunClaim) list \<Rightarrow>
   RunClaim list store_op" where
  "acquire_loop owner leaseFor now rnd out [] st = (st, Inr out)"
| "acquire_loop owner leaseFor now rnd out ((k, c) # cs) st =
     (case NewRunClaimToken (rnd 0) of Inl e \<Rightarrow> (st, Inl e) | Inr token \<Rightarrow>
       (let c' = acquireClaim c owner token now leaseFor
        in acquire_loop owner leaseFor now (\<lambda>i. rnd (Suc i)) (out @ [c']) cs (put_claim k c' st)))"

type_synonym claim_sort =
  "(string \<times> RunClaim \<Rightarrow> string \<times> RunClaim \<Rightarrow> bool) \<Rightarrow> (string \<times> RunClaim) list \<Rightarrow> (string \<times> RunClaim) list"

definition RunClaimRepository_AcquireNext ::
  "claim_sort \<Rightarrow> RunClaimBatchRequest \<Rightarrow> (nat \<Rightarrow> entropy) \<Rightarrow> Time \<Rightarrow> RunClaim list store_op" where
  "RunClaimRepository_AcquireNext srt req rnd now st =
     (case RunClaimBatchRequest_Validate req of Inl e \<Rightarrow> (st, Inl e) | Inr _ \<Rightarrow>
      (let eligible = filter (\<lambda>kc. claimEligible (snd kc) now) (st_runClaims st);
           eligible = srt claim_before eligible;
           eligible = (if int (length eligible) > br_Limit req then take (nat (br_Limit req)) eligible
                       else eligible)
       in acquire_loop (br_Owner req) (br_LeaseFor req) now rnd [] eligible st))"

definition RunClaimRepository_Heartbeat :: "RunClaimRef \<Rightarrow> Duration \<Rightarrow> Time \<Rightarrow> RunClaim store_op" where
  "RunClaimRepository_Heartbeat ref extendFor now st =
     (case RunClaimRef_Validate ref of Inl e \<Rightarrow> (st, Inl e) | Inr _ \<Rightarrow>
      if extendFor \<le> 0 then (st, Inl (Invalidf ''run_claim_lease_duration''))
      else (case fenced ref st of Inl e \<Rightarrow> (st, Inl e) | Inr c \<Rightarrow>
        if ClaimExpired (claim_ExpiresAt c) now then (st, Inl (Conflictf ''run_claim_lease_expired''))
        else (let c' = extendClaim c now extendFor in (put_claim (ref_RunID ref) c' st, Inr c'))))"

definition RunClaimRepository_Release :: "RunClaimRef \<Rightarrow> Time \<Rightarrow> RunClaim store_op" where
  "RunClaimRepository_Release ref now st =
     (case RunClaimRef_Validate ref of Inl e \<Rightarrow> (st, Inl e) | Inr _ \<Rightarrow>
      (case fenced ref st of Inl e \<Rightarrow> (st, Inl e) | Inr c \<Rightarrow>
        (let c' = releaseClaim c now in (put_claim (ref_RunID ref) c' st, Inr c'))))"

definition RunClaimRepository_Complete :: "RunClaimRef \<Rightarrow> unit store_op" where
  "RunClaimRepository_Complete ref st =
     (case RunClaimRef_Validate ref of Inl e \<Rightarrow> (st, Inl e) | Inr _ \<Rightarrow>
      (case fenced ref st of Inl e \<Rightarrow> (st, Inl e) | Inr _ \<Rightarrow> (drop_claim (ref_RunID ref) st, Inr ())))"

definition RunClaimRepository_CleanupTerminal :: "string \<Rightarrow> string \<Rightarrow> unit store_op" where
  "RunClaimRepository_CleanupTerminal tenantID runID st =
     (case scoped run_TenantID (st_runs st) tenantID runID of
        None \<Rightarrow> (st, Inl (notFound ''run''))
      | Some run \<Rightarrow>
          if \<not> Terminal (run_Status run) then (st, Inl (Invalidf ''run_claim_not_terminal''))
          else (drop_claim runID st, Inr ()))"

subsection \<open>Calls\<close>

text \<open>The calls concurrent workers make, and what one call does to the store.\<close>

datatype claim_call =
    CallCreate string string
  | CallAcquire RunClaimLeaseRequest entropy
  | CallAcquireNext RunClaimBatchRequest "nat \<Rightarrow> entropy"
  | CallHeartbeat RunClaimRef Duration
  | CallRelease RunClaimRef
  | CallComplete RunClaimRef
  | CallCleanupTerminal string string

fun claim_exec :: "claim_sort \<Rightarrow> claim_call \<Rightarrow> Time \<Rightarrow> storeState \<Rightarrow> storeState" where
  "claim_exec srt (CallCreate tenantID runID) now st = fst (RunClaimRepository_Create tenantID runID now st)"
| "claim_exec srt (CallAcquire req rnd) now st = fst (RunClaimRepository_Acquire req rnd now st)"
| "claim_exec srt (CallAcquireNext req rnd) now st = fst (RunClaimRepository_AcquireNext srt req rnd now st)"
| "claim_exec srt (CallHeartbeat ref ext) now st = fst (RunClaimRepository_Heartbeat ref ext now st)"
| "claim_exec srt (CallRelease ref) now st = fst (RunClaimRepository_Release ref now st)"
| "claim_exec srt (CallComplete ref) now st = fst (RunClaimRepository_Complete ref st)"
| "claim_exec srt (CallCleanupTerminal tenantID runID) now st =
     fst (RunClaimRepository_CleanupTerminal tenantID runID st)"

definition presents :: "RunClaimRef \<Rightarrow> string \<Rightarrow> RunClaim \<Rightarrow> bool" where
  "presents ref k c \<longleftrightarrow> ref_RunID ref = k \<and> ref_TenantID ref = claim_TenantID c
     \<and> Matches c (ref_Owner ref) (ref_Token ref) (ref_Generation ref)"

fun acquires :: "claim_call \<Rightarrow> string \<Rightarrow> bool" where
  "acquires (CallAcquire req _) k = (lr_RunID req = k)"
| "acquires (CallAcquireNext _ _) k = True"
| "acquires _ k = False"

fun creates :: "claim_call \<Rightarrow> string \<Rightarrow> bool" where
  "creates (CallCreate _ r) k = (r = k)"
| "creates _ k = False"

fun call_ref :: "claim_call \<Rightarrow> RunClaimRef option" where
  "call_ref (CallHeartbeat ref _) = Some ref"
| "call_ref (CallRelease ref) = Some ref"
| "call_ref (CallComplete ref) = Some ref"
| "call_ref _ = None"

definition ref_of :: "RunClaim \<Rightarrow> RunClaimRef" where
  "ref_of c = \<lparr>ref_TenantID = claim_TenantID c, ref_RunID = claim_RunID c, ref_Owner = claim_Owner c,
     ref_Token = claim_Token c, ref_Generation = claim_Generation c\<rparr>"

text \<open>One claim's slot: the claim, if there is one, and the status of its run.\<close>

definition claim_slot :: "storeState \<Rightarrow> string \<Rightarrow> RunClaim option \<times> RunStatus option" where
  "claim_slot st k = (lookup (st_runClaims st) k, map_option run_Status (lookup (st_runs st) k))"

text \<open>
  The abstract machine of one claim. \<open>claim_move call now k\<close> relates the slot of run \<open>k\<close>
  before and after a call.
\<close>

inductive claim_move ::
  "claim_call \<Rightarrow> Time \<Rightarrow> string \<Rightarrow> RunClaim option \<times> RunStatus option \<Rightarrow>
   RunClaim option \<times> RunStatus option \<Rightarrow> bool" for call now k where
  stay: "claim_move call now k s s"
| create: "call = CallCreate tn k \<Longrightarrow> claim_move call now k (None, Some rs) (Some (fresh_claim tn k now), Some rs)"
| acquire: "acquires call k \<Longrightarrow> claimEligible c now \<Longrightarrow> ValidateClaimOwner owner = Inr () \<Longrightarrow>
    length token = ClaimTokenLength \<Longrightarrow> 0 < leaseFor \<Longrightarrow>
    claim_move call now k (Some c, rs) (Some (acquireClaim c owner token now leaseFor), rs)"
| heartbeat: "call = CallHeartbeat ref ext \<Longrightarrow> presents ref k c \<Longrightarrow>
    \<not> ClaimExpired (claim_ExpiresAt c) now \<Longrightarrow> 0 < ext \<Longrightarrow>
    claim_move call now k (Some c, rs) (Some (extendClaim c now ext), rs)"
| release: "call = CallRelease ref \<Longrightarrow> presents ref k c \<Longrightarrow>
    claim_move call now k (Some c, rs) (Some (releaseClaim c now), rs)"
| complete: "call = CallComplete ref \<Longrightarrow> presents ref k c \<Longrightarrow>
    claim_move call now k (Some c, rs) (None, rs)"
| cleanup: "call = CallCleanupTerminal tn k \<Longrightarrow> Terminal rstat \<Longrightarrow>
    claim_move call now k (oc, Some rstat) (None, Some rstat)"

inductive_cases claim_moveE: "claim_move call now k s s'"

text \<open>What every stored claim satisfies.\<close>

definition claim_ok :: "string \<Rightarrow> RunClaim \<Rightarrow> bool" where
  "claim_ok k c \<longleftrightarrow> claim_RunID c = k \<and> claim_Attempts c = claim_Generation c \<and> 0 \<le> claim_Generation c
     \<and> (claim_AcquiredAt c = None \<longleftrightarrow> claim_Generation c = 0)
     \<and> (case claim_Status c of
          ClaimRunnable \<Rightarrow> claim_Owner c = [] \<and> claim_Token c = [] \<and> claim_ExpiresAt c = None
        | ClaimClaimed \<Rightarrow> ValidateFencing c = Inr () \<and> claim_ExpiresAt c \<noteq> None)"

definition slot_ok :: "string \<Rightarrow> RunClaim option \<times> RunStatus option \<Rightarrow> bool" where
  "slot_ok k s \<longleftrightarrow> (case fst s of None \<Rightarrow> True | Some c \<Rightarrow> claim_ok k c \<and> snd s \<noteq> None)"

definition claims_ok :: "storeState \<Rightarrow> bool" where
  "claims_ok st \<longleftrightarrow> map_ok (st_runClaims st) \<and> (\<forall>k. slot_ok k (claim_slot st k))"

end
