(* ===== verification/Mem_Claim_Laws.thy ===== *)
theory Mem_Claim_Laws
  imports Mem_Claims
begin

section \<open>Laws of run claims\<close>

text \<open>
  The store's claim operations refine the one-claim machine \<open>claim_move\<close>: each call moves
  the slot of each run by one move (the interpretation \<open>claim_sys\<close>). Exclusion, fencing and
  the claim invariant are then facts about moves, carried to every interleaving of calls by
  the lemmas of \<open>slot_system\<close>.
\<close>

subsection \<open>Facts about the operations\<close>

lemma lookup_put_claim [simp]:
  "lookup (st_runClaims (put_claim k c st)) k' = (if k' = k then Some c else lookup (st_runClaims st) k')"
  "st_runs (put_claim k c st) = st_runs st"
  by (simp_all add: put_claim_def)

lemma lookup_drop_claim [simp]:
  "lookup (st_runClaims (drop_claim k st)) k' = (if k' = k then None else lookup (st_runClaims st) k')"
  "st_runs (drop_claim k st) = st_runs st"
  by (simp_all add: drop_claim_def)

lemma map_ok_claims [simp]:
  "map_ok (st_runClaims st) \<Longrightarrow> map_ok (st_runClaims (put_claim k c st))"
  "map_ok (st_runClaims st) \<Longrightarrow> map_ok (st_runClaims (drop_claim k st))"
  by (simp_all add: put_claim_def drop_claim_def)

lemma token_length: "NewRunClaimToken rnd = Inr token \<Longrightarrow> length token = ClaimTokenLength"
  by (auto simp: NewRunClaimToken_def length_RawURLEncoding claimTokenEntropyBytes_def
      ClaimTokenLength_def split: option.splits)

lemma fenced_iff:
  "fenced ref st = Inr c \<longleftrightarrow> lookup (st_runClaims st) (ref_RunID ref) = Some c \<and> presents ref (ref_RunID ref) c"
  by (auto simp: fenced_def presents_def scoped_def split: option.splits if_splits)

lemma fenced_cases:
  obtains (holder) c where "fenced ref st = Inr c" "lookup (st_runClaims st) (ref_RunID ref) = Some c"
    "presents ref (ref_RunID ref) c"
  | (unknown) "fenced ref st = Inl (notFound ''run_claim'')"
  | (stale) "fenced ref st = Inl (Conflictf ''run_claim_stale_fencing'')"
proof (cases "fenced ref st")
  case (Inr c)
  then show ?thesis using holder by (simp add: fenced_iff)
next
  case (Inl e)
  then have "e = notFound ''run_claim'' \<or> e = Conflictf ''run_claim_stale_fencing''"
    by (auto simp: fenced_def split: option.splits if_splits)
  then show ?thesis using unknown stale Inl by blast
qed

lemma Acquire_ok:
  assumes "RunClaimRepository_Acquire req rnd now st = (st', Inr c')"
  obtains c token where "lookup (st_runClaims st) (lr_RunID req) = Some c"
    "claim_TenantID c = lr_TenantID req" "claimEligible c now" "ValidateClaimOwner (lr_Owner req) = Inr ()"
    "0 < lr_LeaseFor req" "length token = ClaimTokenLength"
    "c' = acquireClaim c (lr_Owner req) token now (lr_LeaseFor req)"
    "st' = put_claim (lr_RunID req) c' st"
  using assms token_length validated_lease [of req]
  by (fastforce simp: RunClaimRepository_Acquire_def Let_def split: sum.splits option.splits if_splits)

lemma acquire_loop_runs [simp]:
  "st_runs (fst (acquire_loop owner leaseFor now rnd out cs st)) = st_runs st"
  "map_ok (st_runClaims st) \<Longrightarrow> map_ok (st_runClaims (fst (acquire_loop owner leaseFor now rnd out cs st)))"
  by (induction owner leaseFor now rnd out cs st rule: acquire_loop.induct)
    (auto simp: Let_def split: sum.splits)

lemma acquire_loop_slot:
  assumes "distinct (map fst cs)"
  shows "lookup (st_runClaims (fst (acquire_loop owner leaseFor now rnd out cs st))) k
      = lookup (st_runClaims st) k
    \<or> (\<exists>c token. (k, c) \<in> set cs \<and> length token = ClaimTokenLength
        \<and> lookup (st_runClaims (fst (acquire_loop owner leaseFor now rnd out cs st))) k
          = Some (acquireClaim c owner token now leaseFor))"
  using assms
proof (induction owner leaseFor now rnd out cs st rule: acquire_loop.induct)
  case (2 owner leaseFor now rnd out k' c cs st)
  show ?case
  proof (cases "NewRunClaimToken (rnd 0)")
    case (Inr token)
    note IH = "2.IH" [OF Inr refl]
    show ?thesis
    proof (cases "k = k'")
      case True
      then have "(k, d) \<notin> set cs" for d using "2.prems" by force
      then have "lookup (st_runClaims (fst (acquire_loop owner leaseFor now (\<lambda>i. rnd (Suc i))
          (out @ [acquireClaim c owner token now leaseFor]) cs
          (put_claim k' (acquireClaim c owner token now leaseFor) st)))) k
          = Some (acquireClaim c owner token now leaseFor)"
        using IH True "2.prems" by auto
      then show ?thesis
        using Inr True token_length [OF Inr] by (auto simp: Let_def)
    qed (use IH Inr "2.prems" in \<open>auto simp: Let_def\<close>)
  qed simp
qed simp

lemma acquire_loop_ok:
  assumes "acquire_loop owner leaseFor now rnd out cs st = (st', Inr out')" and "distinct (map fst cs)"
  shows "\<exists>res. out' = out @ res
    \<and> list_all2 (\<lambda>(k, c) c'. (\<exists>token. length token = ClaimTokenLength \<and> c' = acquireClaim c owner token now leaseFor)
        \<and> lookup (st_runClaims st') k = Some c') cs res"
  using assms
proof (induction owner leaseFor now rnd out cs st rule: acquire_loop.induct)
  case (2 owner leaseFor now rnd out k' c cs st)
  obtain token where token: "NewRunClaimToken (rnd 0) = Inr token"
    using "2.prems"(1) by (auto split: sum.splits)
  let ?c' = "acquireClaim c owner token now leaseFor"
  have run: "acquire_loop owner leaseFor now (\<lambda>i. rnd (Suc i)) (out @ [?c']) cs (put_claim k' ?c' st) = (st', Inr out')"
    using "2.prems"(1) token by (simp add: Let_def)
  obtain res where res: "out' = (out @ [?c']) @ res"
      "list_all2 (\<lambda>(k, c) c'. (\<exists>token. length token = ClaimTokenLength \<and> c' = acquireClaim c owner token now leaseFor)
        \<and> lookup (st_runClaims st') k = Some c') cs res"
    using "2.IH" [OF token refl run] "2.prems"(2) by auto
  have "(k', d) \<notin> set cs" for d using "2.prems"(2) by force
  then have "lookup (st_runClaims st') k' = Some ?c'"
    using acquire_loop_slot [of cs owner leaseFor now "\<lambda>i. rnd (Suc i)" "out @ [?c']" "put_claim k' ?c' st" k']
      "2.prems"(2) run by auto
  then show ?case
    using res token_length [OF token] by (intro exI [of _ "?c' # res"]) auto
qed simp

lemma acquire_loop_result_indep:
  "snd (acquire_loop owner leaseFor now rnd out cs st) = snd (acquire_loop owner leaseFor now rnd out cs st2)"
proof (induction cs arbitrary: rnd out st st2)
  case (Cons kc cs)
  obtain k c where "kc = (k, c)" by (cases kc)
  then show ?case
    by (cases "NewRunClaimToken (rnd 0)") (simp_all add: Let_def, rule Cons.IH)
qed simp

subsection \<open>The order of a batch\<close>

definition claim_rank :: "string \<times> RunClaim \<Rightarrow> Time \<times> string" where
  "claim_rank kc = (claim_CreatedAt (snd kc), claim_RunID (snd kc))"

lemma claim_before_rank: "claim_before a b \<longleftrightarrow> claim_rank a < claim_rank b"
  by (auto simp: claim_before_def claim_rank_def)

lemma strict_weak_claim_before: "strict_weak claim_before"
  by (rule strict_weakI_key) (rule claim_before_rank)

definition eligible_claims :: "claim_sort \<Rightarrow> RunClaimBatchRequest \<Rightarrow> Time \<Rightarrow> storeState \<Rightarrow> (string \<times> RunClaim) list" where
  "eligible_claims srt req now st =
     take (nat (br_Limit req)) (srt claim_before (filter (\<lambda>kc. claimEligible (snd kc) now) (st_runClaims st)))"

lemma AcquireNext_eq:
  "RunClaimBatchRequest_Validate req = Inr () \<Longrightarrow>
   RunClaimRepository_AcquireNext srt req rnd now st =
     acquire_loop (br_Owner req) (br_LeaseFor req) now rnd [] (eligible_claims srt req now st) st"
  by (auto simp: RunClaimRepository_AcquireNext_def eligible_claims_def Let_def not_less)

lemma eligible_claims_props:
  assumes "sort_slice srt" and "map_ok (st_runClaims st)"
  shows "distinct (map fst (eligible_claims srt req now st))"
    and "(k, c) \<in> set (eligible_claims srt req now st) \<Longrightarrow>
      lookup (st_runClaims st) k = Some c \<and> claimEligible c now"
proof -
  let ?E = "filter (\<lambda>kc. claimEligible (snd kc) now) (st_runClaims st)"
  note perm = sort_slice.perm [OF assms(1) strict_weak_claim_before, of ?E]
  have "distinct (map fst ?E)" using assms(2) by (simp add: map_ok_def distinct_map_filter)
  moreover have "mset (map fst (srt claim_before ?E)) = mset (map fst ?E)" using perm by simp
  ultimately have "distinct (map fst (srt claim_before ?E))" by (metis mset_eq_imp_distinct_iff)
  then show "distinct (map fst (eligible_claims srt req now st))"
    by (simp add: eligible_claims_def take_map [symmetric] distinct_take)
  assume "(k, c) \<in> set (eligible_claims srt req now st)"
  then have "(k, c) \<in> set (srt claim_before ?E)" unfolding eligible_claims_def by (rule in_set_takeD)
  then have "(k, c) \<in> set ?E" by (metis perm set_mset_mset)
  then show "lookup (st_runClaims st) k = Some c \<and> claimEligible c now"
    using set_in_lookup [OF assms(2)] by auto
qed

subsection \<open>Refinement of the one-claim machine\<close>

lemma ValidateFencing_iff:
  "ValidateFencing c = Inr () \<longleftrightarrow> ValidateClaimOwner (claim_Owner c) = Inr ()
     \<and> length (claim_Token c) = ClaimTokenLength \<and> 1 \<le> claim_Generation c"
  by (auto simp: ValidateFencing_def)

lemma claim_move_ok:
  "claim_move call now k s s' \<Longrightarrow> slot_ok k s \<Longrightarrow> slot_ok k s'"
  by (erule claim_moveE)
    (auto simp: slot_ok_def claim_ok_def fresh_claim_def acquireClaim_def extendClaim_def releaseClaim_def
      ValidateFencing_iff presents_def Matches_def split: RunClaimStatus.splits)

lemma AcquireNext_moves:
  assumes "sort_slice srt" and "map_ok (st_runClaims st)" and "RunClaimBatchRequest_Validate req = Inr ()"
  shows "claim_move (CallAcquireNext req rnd) now k (claim_slot st k)
    (claim_slot (fst (RunClaimRepository_AcquireNext srt req rnd now st)) k)"
  using acquire_loop_slot [OF eligible_claims_props(1) [OF assms(1,2), of req now], of "br_Owner req"
      "br_LeaseFor req" now rnd "[]" st k] assms(3)
    eligible_claims_props(2) [OF assms(1,2)] validated_batch [of req]
  by (fastforce simp: AcquireNext_eq claim_slot_def intro: claim_move.intros)

lemma claim_exec_moves:
  assumes "sort_slice srt" and "map_ok (st_runClaims st)"
  shows "claim_move call now k (claim_slot st k) (claim_slot (claim_exec srt call now st) k)"
proof (cases call)
  case (CallCreate tn r)
  then show ?thesis
    by (auto simp: RunClaimRepository_Create_def claim_slot_def scoped_def
        intro: claim_move.intros split: option.splits)
next
  case (CallAcquire req rnd)
  then show ?thesis
  proof (cases "RunClaimRepository_Acquire req rnd now st")
    case (Pair st' r)
    then show ?thesis
    proof (cases r)
      case (Inr c')
      with Pair obtain c token where "lookup (st_runClaims st) (lr_RunID req) = Some c"
        "claimEligible c now" "ValidateClaimOwner (lr_Owner req) = Inr ()" "0 < lr_LeaseFor req"
        "length token = ClaimTokenLength" "c' = acquireClaim c (lr_Owner req) token now (lr_LeaseFor req)"
        "st' = put_claim (lr_RunID req) c' st" by (auto elim: Acquire_ok)
      then show ?thesis using CallAcquire Pair
        by (auto simp: claim_slot_def intro: claim_move.intros)
    next
      case (Inl e)
      then have "st' = st" using Pair
        by (auto simp: RunClaimRepository_Acquire_def Let_def split: sum.splits option.splits if_splits)
      then show ?thesis using CallAcquire Pair by (simp add: claim_move.stay)
    qed
  qed
next
  case (CallAcquireNext req rnd)
  then show ?thesis
  proof (cases "RunClaimBatchRequest_Validate req")
    case (Inl e)
    then show ?thesis using CallAcquireNext
      by (simp add: RunClaimRepository_AcquireNext_def claim_move.stay)
  next
    case (Inr u)
    then show ?thesis using CallAcquireNext AcquireNext_moves [OF assms] by simp
  qed
next
  case (CallHeartbeat ref ext)
  then show ?thesis
    by (cases rule: fenced_cases [where ref = ref and st = st])
      (auto simp: RunClaimRepository_Heartbeat_def Let_def claim_slot_def
        intro: claim_move.intros split: sum.splits)
next
  case (CallRelease ref)
  then show ?thesis
    by (cases rule: fenced_cases [where ref = ref and st = st])
      (auto simp: RunClaimRepository_Release_def Let_def claim_slot_def
        intro: claim_move.intros split: sum.splits)
next
  case (CallComplete ref)
  then show ?thesis
    by (cases rule: fenced_cases [where ref = ref and st = st])
      (auto simp: RunClaimRepository_Complete_def claim_slot_def
        intro: claim_move.intros split: sum.splits)
next
  case (CallCleanupTerminal tn r)
  then show ?thesis
    by (auto simp: RunClaimRepository_CleanupTerminal_def claim_slot_def scoped_def
        intro: claim_move.intros split: option.splits)
qed

lemma claim_exec_map_ok:
  assumes "map_ok (st_runClaims st)"
  shows "map_ok (st_runClaims (claim_exec srt call now st))"
proof (cases call)
  case (CallAcquireNext req rnd)
  then show ?thesis using assms
    by (auto simp: RunClaimRepository_AcquireNext_def Let_def split: sum.splits)
qed (use assms in \<open>auto simp: RunClaimRepository_Create_def RunClaimRepository_Acquire_def
    RunClaimRepository_Heartbeat_def RunClaimRepository_Release_def RunClaimRepository_Complete_def
    RunClaimRepository_CleanupTerminal_def Let_def split: sum.splits option.splits\<close>)

lemma claims_okD:
  assumes "claims_ok st" and "lookup (st_runClaims st) k = Some c"
  shows "claim_ok k c" and "lookup (st_runs st) k \<noteq> None"
proof -
  have "slot_ok k (claim_slot st k)" using assms(1) by (simp add: claims_ok_def)
  then show "claim_ok k c" and "lookup (st_runs st) k \<noteq> None"
    using assms(2) by (simp_all add: slot_ok_def claim_slot_def)
qed

lemma claims_ok_exec:
  assumes "sort_slice srt" and "claims_ok st"
  shows "claims_ok (claim_exec srt call now st)"
  using assms claim_exec_map_ok claim_move_ok [OF claim_exec_moves [OF assms(1)]]
  unfolding claims_ok_def by blast

text \<open>
  \<open>claim_machine\<close> is a system of slots that moves by \<open>claim_move\<close>, whatever its state and its calls are;
  \<open>call_of\<close> names the move a call makes. What holders are promised is proved here, once for every adapter.
\<close>

locale claim_machine = slot_system ok slot exec "\<lambda>c. claim_move (call_of c)"
  for ok :: "'s \<Rightarrow> bool" and slot :: "'s \<Rightarrow> string \<Rightarrow> RunClaim option \<times> RunStatus option"
    and exec :: "'c \<Rightarrow> Time \<Rightarrow> 's \<Rightarrow> 's" and call_of :: "'c \<Rightarrow> claim_call"
begin

lemma lease_kept:
  assumes "ok st" and "slot st k = (Some c, Some rs)" and "\<not> Terminal rs"
    and "claim_RunID c = k" and "claim_Status c = ClaimClaimed" and "claim_ExpiresAt c = Some e"
    and "\<And>t call. (t, call) \<in> set calls \<Longrightarrow> t < e \<and> call_ref (call_of call) \<noteq> Some (ref_of c)"
  shows "slot (run_calls exec st calls) k = (Some c, Some rs)"
proof (rule calls_keep [where I = "\<lambda>s. s = (Some c, Some rs)", OF assms(1,2)])
  fix t call old new
  assume "(t, call) \<in> set calls" and move: "claim_move (call_of call) t k old new" and old: "old = (Some c, Some rs)"
  then have t: "t < e" "call_ref (call_of call) \<noteq> Some (ref_of c)" using assms(7) by blast+
  have "ref = ref_of c" if "presents ref k c" for ref
    using that assms(4) by (auto simp: presents_def Matches_def ref_of_def)
  then show "new = (Some c, Some rs)"
    using move old t assms(3,5,6)
    by (auto elim!: claim_moveE simp: claimEligible_def ClaimExpired_def)
qed

lemma generation_kept:
  assumes "ok st" and "case fst (slot st k) of None \<Rightarrow> True | Some c \<Rightarrow> g \<le> claim_Generation c"
    and "\<And>t call tn. (t, call) \<in> set calls \<Longrightarrow> call_of call \<noteq> CallCreate tn k"
  shows "case fst (slot (run_calls exec st calls) k) of None \<Rightarrow> True | Some c \<Rightarrow> g \<le> claim_Generation c"
proof (rule calls_keep [where I = "\<lambda>s. case fst s of None \<Rightarrow> True | Some c \<Rightarrow> g \<le> claim_Generation c", OF assms(1,2)])
  fix t call old new
  assume "(t, call) \<in> set calls" and "claim_move (call_of call) t k old new"
    and "case fst old of None \<Rightarrow> True | Some c \<Rightarrow> g \<le> claim_Generation c"
  then show "case fst new of None \<Rightarrow> True | Some c \<Rightarrow> g \<le> claim_Generation c"
    using assms(3) by (auto elim!: claim_moveE simp: acquireClaim_def extendClaim_def releaseClaim_def)
qed

end

text \<open>\<open>claim_server\<close> is the memory store's claim port for an arbitrary \<^verbatim>\<open>sort.Slice\<close>.\<close>

locale claim_server = sort_slice srt for srt :: claim_sort

sublocale claim_server \<subseteq> slots: claim_machine claims_ok claim_slot "claim_exec srt" "\<lambda>c. c"
proof
  fix st c now k assume ok: "claims_ok st"
  show "claims_ok (claim_exec srt c now st)" using sort_slice_axioms ok by (rule claims_ok_exec)
  show "claim_move c now k (claim_slot st k) (claim_slot (claim_exec srt c now st) k)"
    using claim_exec_moves [OF sort_slice_axioms] ok by (simp add: claims_ok_def)
qed

context claim_server
begin

lemma slots_calls_ok: "claims_ok st \<Longrightarrow> claims_ok (run_calls (claim_exec srt) st calls)"
  by (rule slots.calls_ok)

lemmas holder_kept = slots.lease_kept

lemma row_generation_kept:
  assumes "claims_ok st" and "case lookup (st_runClaims st) k of None \<Rightarrow> True | Some c \<Rightarrow> g \<le> claim_Generation c"
    and "\<And>t tn. (t, CallCreate tn k) \<notin> set calls"
  shows "case lookup (st_runClaims (run_calls (claim_exec srt) st calls)) k of
    None \<Rightarrow> True | Some c \<Rightarrow> g \<le> claim_Generation c"
  using slots.generation_kept [OF assms(1), where k = k and g = g and calls = calls] assms(2,3) by (auto simp: claim_slot_def)

end

interpretation claim_isort: claim_server insertion_sort
  by unfold_locales

lemma claim_serverI: "sort_slice srt \<Longrightarrow> claim_server srt"
  by (simp add: claim_server_def)

lemma fenced_off:
  assumes "case lookup (st_runClaims st) (ref_RunID ref) of None \<Rightarrow> True | Some c \<Rightarrow> ref_Generation ref < claim_Generation c"
  shows "\<exists>e. RunClaimRepository_Heartbeat ref ext t st = (st, Inl e)"
    and "\<exists>e. RunClaimRepository_Release ref t st = (st, Inl e)"
    and "\<exists>e. RunClaimRepository_Complete ref st = (st, Inl e)"
proof -
  have "\<exists>e. fenced ref st = Inl e"
    using assms by (auto simp: fenced_def scoped_def Matches_def split: option.splits)
  then show "\<exists>e. RunClaimRepository_Heartbeat ref ext t st = (st, Inl e)"
    and "\<exists>e. RunClaimRepository_Release ref t st = (st, Inl e)"
    and "\<exists>e. RunClaimRepository_Complete ref st = (st, Inl e)"
    by (auto simp: RunClaimRepository_Heartbeat_def RunClaimRepository_Release_def
        RunClaimRepository_Complete_def split: sum.splits)
qed

subsection \<open>Batches\<close>

lemma acquireClaim_fields [simp]:
  "claim_RunID (acquireClaim c owner token now leaseFor) = claim_RunID c"
  "claim_CreatedAt (acquireClaim c owner token now leaseFor) = claim_CreatedAt c"
  "claim_Status (acquireClaim c owner token now leaseFor) = ClaimClaimed"
  "claim_ExpiresAt (acquireClaim c owner token now leaseFor) = Some (ClaimExpiry now leaseFor)"
  by (simp_all add: acquireClaim_def)

lemma AcquireNext_ok:
  assumes "sort_slice srt" and "claims_ok st"
    and "RunClaimRepository_AcquireNext srt req rnd now st = (st', Inr cs)"
  defines "xs \<equiv> eligible_claims srt req now st"
  shows "RunClaimBatchRequest_Validate req = Inr ()" and "map claim_RunID cs = map fst xs"
    and "distinct (map fst xs)"
    and "c' \<in> set cs \<Longrightarrow> \<exists>c token. (claim_RunID c', c) \<in> set xs \<and> lookup (st_runClaims st') (claim_RunID c') = Some c'
      \<and> c' = acquireClaim c (br_Owner req) token now (br_LeaseFor req)"
proof -
  have m: "map_ok (st_runClaims st)" using assms(2) by (simp add: claims_ok_def)
  note E = eligible_claims_props(1) [OF assms(1) m, where req = req and now = now, folded xs_def]
    eligible_claims_props(2) [OF assms(1) m, where req = req and now = now, folded xs_def]
  show v: "RunClaimBatchRequest_Validate req = Inr ()"
    using assms(3) by (auto simp: RunClaimRepository_AcquireNext_def split: sum.splits)
  show d: "distinct (map fst xs)" by (rule E(1))
  have "acquire_loop (br_Owner req) (br_LeaseFor req) now rnd [] xs st = (st', Inr cs)"
    using assms(3) by (simp add: AcquireNext_eq [OF v] xs_def)
  from acquire_loop_ok [OF this d]
  have all2: "list_all2 (\<lambda>(k, c) c'. (\<exists>token. length token = ClaimTokenLength
      \<and> c' = acquireClaim c (br_Owner req) token now (br_LeaseFor req))
      \<and> lookup (st_runClaims st') k = Some c') xs cs" by auto
  have rid: "claim_RunID c = k" if "(k, c) \<in> set xs" for k c
    using claims_okD(1) [OF assms(2)] E(2) [OF that] by (simp add: claim_ok_def)
  have len: "length xs = length cs" using all2 by (rule list_all2_lengthD)
  show "map claim_RunID cs = map fst xs"
  proof (rule nth_equalityI)
    fix i assume "i < length (map claim_RunID cs)"
    then have i: "i < length cs" by simp
    obtain k c where kc: "xs ! i = (k, c)" by (cases "xs ! i")
    then have "(k, c) \<in> set xs" using i len by (metis nth_mem)
    moreover have "\<exists>token. cs ! i = acquireClaim c (br_Owner req) token now (br_LeaseFor req)"
      using list_all2_nthD2 [OF all2 i] kc by auto
    ultimately have "claim_RunID (cs ! i) = k" using rid by auto
    then show "map claim_RunID cs ! i = map fst xs ! i" using i len kc by simp
  qed (simp add: len)
  assume "c' \<in> set cs"
  then obtain i where i: "i < length cs" "c' = cs ! i" by (auto simp: in_set_conv_nth)
  obtain k c where kc: "xs ! i = (k, c)" by (cases "xs ! i")
  have "(k, c) \<in> set xs" using i(1) kc len by (metis nth_mem)
  moreover obtain token where "c' = acquireClaim c (br_Owner req) token now (br_LeaseFor req)"
      "lookup (st_runClaims st') k = Some c'"
    using list_all2_nthD2 [OF all2 i(1)] kc i(2) by auto
  ultimately show "\<exists>c token. (claim_RunID c', c) \<in> set xs \<and> lookup (st_runClaims st') (claim_RunID c') = Some c'
      \<and> c' = acquireClaim c (br_Owner req) token now (br_LeaseFor req)"
    using rid by auto
qed

lemma eligible_claims_unique:
  assumes "sort_slice srt" and "claims_ok st1" and "claims_ok st2"
    and "mset (st_runClaims st1) = mset (st_runClaims st2)"
  shows "eligible_claims srt req now st1 = eligible_claims srt req now st2"
proof -
  let ?E = "\<lambda>st. filter (\<lambda>kc. claimEligible (snd kc) now) (st_runClaims st)"
  have m: "map_ok (st_runClaims st1)" using assms(2) by (simp add: claims_ok_def)
  have "srt claim_before (?E st1) = srt claim_before (?E st2)"
  proof (rule sorted_wrt_unique [where f = claim_rank])
    show "mset (srt claim_before (?E st1)) = mset (srt claim_before (?E st2))"
      using assms(4) by (simp add: sort_slice.perm [OF assms(1) strict_weak_claim_before])
    have key: "claim_RunID (snd kc) = fst kc" if "kc \<in> set (st_runClaims st1)" for kc
      using claims_okD(1) [OF assms(2), of "fst kc" "snd kc"] set_in_lookup [OF m, of "fst kc" "snd kc"] that
      by (simp add: claim_ok_def)
    have "inj_on fst (set (st_runClaims st1))" using m by (simp add: map_ok_def distinct_map)
    then show "inj_on claim_rank (set (srt claim_before (?E st1)))"
      using key by (auto simp: sort_slice.set_srt [OF assms(1) strict_weak_claim_before] claim_rank_def inj_on_def)
    show "sorted_wrt (\<lambda>a b. claim_rank a \<le> claim_rank b) (srt claim_before (?E st1))"
      and "sorted_wrt (\<lambda>a b. claim_rank a \<le> claim_rank b) (srt claim_before (?E st2))"
      using sort_slice.ordered [OF assms(1) strict_weak_claim_before]
      by (simp_all add: claim_before_rank not_less)
  qed
  then show ?thesis by (simp add: eligible_claims_def)
qed

lemma eligible_left_out:
  assumes "sort_slice srt" and "lookup (st_runClaims st) k = Some c" and "claimEligible c now"
    and "(k, c) \<notin> set (eligible_claims srt req now st)"
  shows "length (eligible_claims srt req now st) = nat (br_Limit req)"
    and "kc \<in> set (eligible_claims srt req now st) \<Longrightarrow> claim_rank kc \<le> claim_rank (k, c)"
proof -
  let ?E = "filter (\<lambda>kc. claimEligible (snd kc) now) (st_runClaims st)"
  let ?n = "nat (br_Limit req)"
  have "(k, c) \<in> set ?E" using assms(2,3) by (simp add: lookup_in_set)
  then have "(k, c) \<in> set (take ?n (srt claim_before ?E) @ drop ?n (srt claim_before ?E))"
    using sort_slice.set_srt [OF assms(1) strict_weak_claim_before] by simp
  then have out: "(k, c) \<in> set (drop ?n (srt claim_before ?E))"
    using assms(4) by (simp only: eligible_claims_def set_append Un_iff) blast
  then have "?n < length (srt claim_before ?E)" by (metis drop_all empty_iff empty_set not_less)
  then show "length (eligible_claims srt req now st) = ?n" by (simp add: eligible_claims_def)
  show "claim_rank kc \<le> claim_rank (k, c)" if "kc \<in> set (eligible_claims srt req now st)"
    using sort_slice.take_drop_order [OF assms(1) strict_weak_claim_before
        that [unfolded eligible_claims_def] out] claim_before_rank [of "(k, c)" kc]
    by (simp add: not_less)
qed

subsection \<open>Example data\<close>

definition ex_claimed :: storeState where
  "ex_claimed = fst (RunClaimRepository_Create ''t'' ''r1'' 0 ex_store1)"

definition ex_lease :: "string \<Rightarrow> RunClaimLeaseRequest" where
  "ex_lease owner = \<lparr>lr_TenantID = ''t'', lr_RunID = ''r1'', lr_Owner = owner, lr_LeaseFor = 10\<rparr>"

definition ex_batch :: "string \<Rightarrow> RunClaimBatchRequest" where
  "ex_batch owner = \<lparr>br_Owner = owner, br_Limit = 4, br_LeaseFor = 10\<rparr>"

definition zeros :: entropy where "zeros = Some (\<lambda>_. 0)"

definition zero_token :: string where
  "zero_token = RawURLEncoding (map (\<lambda>_. 0) [0..<claimTokenEntropyBytes])"

lemma NewRunClaimToken_zeros [simp]: "NewRunClaimToken zeros = Inr zero_token"
  by (simp add: NewRunClaimToken_def zeros_def zero_token_def)

lemma acquire_loop_zeros:
  "\<exists>st' cs. acquire_loop owner lease now (\<lambda>_. zeros) out xs st = (st', Inr cs)"
proof (induction xs arbitrary: out st)
  case (Cons kc xs)
  then show ?case by (cases kc) (simp add: Let_def)
qed simp

lemma ex_claimed_claims [simp]:
  "st_runClaims ex_claimed = [(''r1'', fresh_claim ''t'' ''r1'' 0)]" "st_runs ex_claimed = st_runs ex_store1"
  by (simp_all add: ex_claimed_def RunClaimRepository_Create_def ex_store1_eq ex_store_def scoped_def
      ex_run_def put_claim_def empty_store_def)

lemma ex_run_row: "lookup (st_runs ex_claimed) ''r1'' = Some ((ex_run ''r1'' ''k1'')\<lparr>run_Seq := 1\<rparr>)"
  by (simp add: ex_store1_eq)

lemma claims_ok_ex_claimed: "claims_ok ex_claimed"
  by (auto simp: claims_ok_def map_ok_def slot_ok_def claim_slot_def claim_ok_def fresh_claim_def ex_store1_eq)

definition ex_two_claims :: "bool \<Rightarrow> storeState" where
  "ex_two_claims flip =
     (let cs = [(''r1'', fresh_claim ''t'' ''r1'' 0), (''r2'', fresh_claim ''t'' ''r2'' 0)]
      in ex_claimed\<lparr>st_runs := [(''r1'', ex_run ''r1'' ''k1''), (''r2'', ex_run ''r2'' ''k2'')],
           st_runClaims := if flip then rev cs else cs\<rparr>)"

lemma claims_ok_ex_two: "claims_ok (ex_two_claims flip)"
  by (auto simp: ex_two_claims_def Let_def claims_ok_def map_ok_def slot_ok_def claim_slot_def claim_ok_def fresh_claim_def)

lemma owner_A [simp]: "ValidateClaimOwner ''A'' = Inr ()" "ValidateClaimOwner ''B'' = Inr ()"
  by (simp_all add: ValidateClaimOwner_def MaxClaimOwnerLen_def control_char_def)

lemma ex_batch_valid: "RunClaimBatchRequest_Validate (ex_batch ''A'') = Inr ()" "RunClaimBatchRequest_Validate (ex_batch ''B'') = Inr ()"
  by (simp_all add: validated_batch ex_batch_def)

lemmas ex_claim_simps = RunClaimRepository_Acquire_def RunClaimLeaseRequest_Validate_def positiveDuration_def
  ex_lease_def scoped_def claimEligible_def fresh_claim_def Let_def acquireClaim_def ClaimExpiry_def

lemma ex_acquired:
  "RunClaimRepository_Acquire (ex_lease ''A'') zeros 5 ex_claimed
     = (put_claim ''r1'' (acquireClaim (fresh_claim ''t'' ''r1'' 0) ''A'' zero_token 5 10) ex_claimed,
        Inr (acquireClaim (fresh_claim ''t'' ''r1'' 0) ''A'' zero_token 5 10))"
  by (simp add: ex_claim_simps)

subsection \<open>Properties\<close>

text \<open>
  C1: a live lease excludes everyone else. After an acquisition, whatever calls any workers
  interleave before the lease's deadline, as long as nobody presents the holder's own
  credentials and the run is not terminal, the stored claim stays exactly the holder's, and
  every further attempt to acquire the run before the deadline is refused without effect.
\<close>

theorem live_lease_exclusive:
  assumes "sort_slice srt" and "claims_ok st"
    and acq: "RunClaimRepository_Acquire req rnd now st = (st1, Inr c)"
    and "lookup (st_runs st) (lr_RunID req) = Some run" and "\<not> Terminal (run_Status run)"
    and "list_all (\<lambda>(t, call). t < now + lr_LeaseFor req \<and> call_ref call \<noteq> Some (ref_of c)) calls"
    and "t < now + lr_LeaseFor req" and "lr_RunID req' = lr_RunID req"
  shows "let st2 = run_calls (claim_exec srt) st1 calls in
    lookup (st_runClaims st2) (lr_RunID req) = Some c
    \<and> (\<exists>e. RunClaimRepository_Acquire req' rnd' t st2 = (st2, Inl e))"
proof -
  obtain c0 token where acq': "0 < lr_LeaseFor req" "lookup (st_runClaims st) (lr_RunID req) = Some c0"
      "c = acquireClaim c0 (lr_Owner req) token now (lr_LeaseFor req)" "st1 = put_claim (lr_RunID req) c st"
    using acq by (auto elim: Acquire_ok)
  have ok1: "claims_ok st1"
    using claims_ok_exec [OF assms(1,2), of "CallAcquire req rnd" now] acq by simp
  have c: "claim_Status c = ClaimClaimed" "claim_ExpiresAt c = Some (now + lr_LeaseFor req)"
    using acq' by (simp_all add: acquireClaim_def ClaimExpiry_def Let_def)
  have slot: "claim_slot st1 (lr_RunID req) = (Some c, Some (run_Status run))"
    using acq' assms(4) by (simp add: claim_slot_def)
  then have "claim_RunID c = lr_RunID req"
    using claims_okD(1) [OF ok1, of "lr_RunID req" c] acq' by (simp add: claim_ok_def)
  then have "claim_slot (run_calls (claim_exec srt) st1 calls) (lr_RunID req) = (Some c, Some (run_Status run))"
    using claim_server.holder_kept [OF claim_serverI [OF assms(1)] ok1 slot assms(5) _ c, of calls] assms(6)
    by (auto simp: list_all_iff)
  then have kept: "lookup (st_runClaims (run_calls (claim_exec srt) st1 calls)) (lr_RunID req) = Some c"
    by (simp add: claim_slot_def)
  then have "\<exists>e. RunClaimRepository_Acquire req' rnd' t (run_calls (claim_exec srt) st1 calls)
      = (run_calls (claim_exec srt) st1 calls, Inl e)"
    using c assms(7,8)
    by (auto simp: RunClaimRepository_Acquire_def scoped_def claimEligible_def ClaimExpired_def split: sum.splits)
  with kept show ?thesis by (simp add: Let_def)
qed

theorem live_lease_exclusive_witness:
  "let c = acquireClaim (fresh_claim ''t'' ''r1'' 0) ''A'' zero_token 5 10;
       st2 = run_calls (claim_exec insertion_sort) (put_claim ''r1'' c ex_claimed)
         [(9, CallAcquireNext (ex_batch ''B'') (\<lambda>_. zeros))]
   in lookup (st_runClaims st2) ''r1'' = Some c
     \<and> (\<exists>e. RunClaimRepository_Acquire (ex_lease ''B'') zeros 14 st2 = (st2, Inl e))"
  using live_lease_exclusive [OF isort.sort_slice_axioms claims_ok_ex_claimed ex_acquired,
      of "(ex_run ''r1'' ''k1'')\<lparr>run_Seq := 1\<rparr>" "[(9, CallAcquireNext (ex_batch ''B'') (\<lambda>_. zeros))]" 14
        "ex_lease ''B''" zeros] ex_run_row
  by (auto simp: ex_lease_def ex_run_def Terminal_def Let_def)

text \<open>
  C2: fencing. A worker acquires a run; later, after any calls, the run is acquired again.
  The second epoch has the larger generation, and from then on, whatever calls follow (short
  of creating the claim anew), the first worker's credentials are refused by heartbeat,
  release and completion at any time, and the refusal changes nothing.
\<close>

theorem superseded_worker_fenced_off:
  assumes "sort_slice srt" and "claims_ok st"
    and acq1: "RunClaimRepository_Acquire req1 rnd1 t1 st = (st1, Inr c1)"
    and acq2: "RunClaimRepository_Acquire req2 rnd2 t2 (run_calls (claim_exec srt) st1 calls1) = (st2, Inr c2)"
    and "lr_RunID req2 = lr_RunID req1"
    and "list_all (\<lambda>(_, call). \<not> creates call (lr_RunID req1)) (calls1 @ calls2)"
  shows "let st3 = run_calls (claim_exec srt) st2 calls2 in
    claim_Generation c1 < claim_Generation c2
    \<and> (\<exists>e. RunClaimRepository_Heartbeat (ref_of c1) ext t st3 = (st3, Inl e))
    \<and> (\<exists>e. RunClaimRepository_Release (ref_of c1) t st3 = (st3, Inl e))
    \<and> (\<exists>e. RunClaimRepository_Complete (ref_of c1) st3 = (st3, Inl e))"
proof -
  let ?k = "lr_RunID req1"
  note server = claim_serverI [OF assms(1)]
  obtain c0 token where a1: "lookup (st_runClaims st) ?k = Some c0"
      "c1 = acquireClaim c0 (lr_Owner req1) token t1 (lr_LeaseFor req1)" "st1 = put_claim ?k c1 st"
    using acq1 by (auto elim: Acquire_ok)
  obtain d token2 where a2: "lookup (st_runClaims (run_calls (claim_exec srt) st1 calls1)) ?k = Some d"
      "c2 = acquireClaim d (lr_Owner req2) token2 t2 (lr_LeaseFor req2)"
      "st2 = put_claim ?k c2 (run_calls (claim_exec srt) st1 calls1)"
    using acq2 assms(5) by (auto elim: Acquire_ok)
  have ok1: "claims_ok st1" using claims_ok_exec [OF assms(1,2), of "CallAcquire req1 rnd1" t1] acq1 by simp
  have okm: "claims_ok (run_calls (claim_exec srt) st1 calls1)"
    using claim_server.slots_calls_ok [OF server ok1] .
  have ok2: "claims_ok st2" using claims_ok_exec [OF assms(1) okm, of "CallAcquire req2 rnd2" t2] acq2 by simp
  have nocreate: "(t, CallCreate tn ?k) \<notin> set calls1" "(t, CallCreate tn ?k) \<notin> set calls2" for t tn
    using list_all_pairD [OF assms(6), of t "CallCreate tn ?k"] by auto
  have "claim_Generation c1 \<le> claim_Generation d"
    using claim_server.row_generation_kept [OF server ok1 _ nocreate(1), of "claim_Generation c1"]
    by (simp add: a1(3) a2(1) [unfolded a1(3)])
  then have lt: "claim_Generation c1 < claim_Generation c2" using a2 by (simp add: acquireClaim_def)
  have "claim_RunID c1 = ?k"
    using claims_okD(1) [OF ok1, of ?k c1] a1(3) by (simp add: claim_ok_def)
  have "case lookup (st_runClaims (run_calls (claim_exec srt) st2 calls2)) ?k of
      None \<Rightarrow> True | Some c \<Rightarrow> claim_Generation c2 \<le> claim_Generation c"
    using claim_server.row_generation_kept [OF server ok2 _ nocreate(2), of "claim_Generation c2"]
    by (simp add: a2(3))
  then have "case lookup (st_runClaims (run_calls (claim_exec srt) st2 calls2)) (ref_RunID (ref_of c1)) of
      None \<Rightarrow> True | Some c \<Rightarrow> ref_Generation (ref_of c1) < claim_Generation c"
    using lt \<open>claim_RunID c1 = ?k\<close> by (auto simp: ref_of_def split: option.splits)
  then show ?thesis using lt fenced_off by (simp add: Let_def)
qed

theorem superseded_worker_fenced_off_witness:
  "let c1 = acquireClaim (fresh_claim ''t'' ''r1'' 0) ''A'' zero_token 5 10;
       c2 = acquireClaim c1 ''B'' zero_token 20 10;
       st3 = run_calls (claim_exec insertion_sort) (put_claim ''r1'' c2 (put_claim ''r1'' c1 ex_claimed)) [(21, CallRelease (ref_of c2))]
   in \<exists>e. RunClaimRepository_Complete (ref_of c1) st3 = (st3, Inl e)"
proof -
  define c1 where "c1 = acquireClaim (fresh_claim ''t'' ''r1'' 0) ''A'' zero_token 5 10"
  have acq2: "RunClaimRepository_Acquire (ex_lease ''B'') zeros 20
      (run_calls (claim_exec insertion_sort) (put_claim ''r1'' c1 ex_claimed) [])
      = (put_claim ''r1'' (acquireClaim c1 ''B'' zero_token 20 10) (put_claim ''r1'' c1 ex_claimed),
         Inr (acquireClaim c1 ''B'' zero_token 20 10))"
    by (simp add: ex_claim_simps c1_def ClaimExpired_def)
  show ?thesis
    using superseded_worker_fenced_off [OF isort.sort_slice_axioms claims_ok_ex_claimed
        ex_acquired [folded c1_def] acq2, of "[(21, CallRelease (ref_of (acquireClaim c1 ''B'' zero_token 20 10)))]"]
    by (simp add: ex_lease_def Let_def c1_def [symmetric])
qed

text \<open>
  C3: the claim invariant. Whatever calls are interleaved, every claim a reader sees has as
  many attempts as generations, belongs to a run that exists, carries a valid fencing owner
  and a deadline when it is claimed and neither when it is runnable, and its bearer token is
  never shown.
\<close>

theorem claims_invariant:
  assumes "sort_slice srt" and "claims_ok st"
    and "RunClaimRepository_Get tn k (run_calls (claim_exec srt) st calls) = Inr c"
  shows "claims_ok (run_calls (claim_exec srt) st calls)
    \<and> claim_Token c = [] \<and> claim_TenantID c = tn \<and> claim_RunID c = k
    \<and> claim_Attempts c = claim_Generation c \<and> 0 \<le> claim_Generation c
    \<and> lookup (st_runs (run_calls (claim_exec srt) st calls)) k \<noteq> None
    \<and> (if claim_Status c = ClaimClaimed
       then ValidateClaimOwner (claim_Owner c) = Inr () \<and> 1 \<le> claim_Generation c \<and> claim_ExpiresAt c \<noteq> None
       else claim_Owner c = [] \<and> claim_ExpiresAt c = None)"
proof -
  have ok: "claims_ok (run_calls (claim_exec srt) st calls)"
    using claim_server.slots_calls_ok [OF claim_serverI [OF assms(1)] assms(2)] .
  obtain c0 where c0: "lookup (st_runClaims (run_calls (claim_exec srt) st calls)) k = Some c0" "claim_TenantID c0 = tn"
      "Inr (c0\<lparr>claim_Token := []\<rparr>) = (Inr c :: RunClaim result)"
    using assms(3) unfolding RunClaimRepository_Get_def
    by (cases "scoped claim_TenantID (st_runClaims (run_calls (claim_exec srt) st calls)) tn k") simp_all
  then have "c = c0\<lparr>claim_Token := []\<rparr>" by simp
  with ok c0(1,2) claims_okD [OF ok c0(1)] show ?thesis
    by (auto simp: claim_ok_def ValidateFencing_iff split: RunClaimStatus.splits)
qed

theorem claims_invariant_witness:
  "\<exists>c. RunClaimRepository_Get ''t'' ''r1''
      (run_calls (claim_exec insertion_sort) ex_claimed [(5, CallAcquire (ex_lease ''A'') zeros)]) = Inr c
    \<and> claim_Token c = [] \<and> claim_Attempts c = claim_Generation c"
proof -
  obtain c where c: "RunClaimRepository_Get ''t'' ''r1''
      (run_calls (claim_exec insertion_sort) ex_claimed [(5, CallAcquire (ex_lease ''A'') zeros)]) = Inr c"
    by (simp add: ex_acquired RunClaimRepository_Get_def scoped_def acquireClaim_def fresh_claim_def)
  with claims_invariant [OF isort.sort_slice_axioms claims_ok_ex_claimed c] show ?thesis by blast
qed

text \<open>
  What a scheduler batch returns. A successful \<^verbatim>\<open>AcquireNext\<close> returns at most
  \<^verbatim>\<open>Limit\<close> claims of pairwise distinct runs; each was claimable, is now stored as
  returned with the caller as owner and the next generation; and if a claimable run was left
  out then the batch is full and the run does not come before any returned one in the
  (creation time, run id) order.
\<close>

theorem AcquireNext_batch:
  assumes "sort_slice srt" and "claims_ok st"
    and acq: "RunClaimRepository_AcquireNext srt req rnd now st = (st', Inr cs)"
  shows "int (length cs) \<le> br_Limit req \<and> distinct (map claim_RunID cs)
    \<and> list_all (\<lambda>c'. lookup (st_runClaims st') (claim_RunID c') = Some c'
        \<and> (\<exists>c token. lookup (st_runClaims st) (claim_RunID c') = Some c \<and> claimEligible c now
            \<and> c' = acquireClaim c (br_Owner req) token now (br_LeaseFor req))) cs
    \<and> (\<forall>k c. lookup (st_runClaims st) k = Some c \<longrightarrow> claimEligible c now \<longrightarrow> k \<notin> claim_RunID ` set cs \<longrightarrow>
        int (length cs) = br_Limit req
        \<and> list_all (\<lambda>c'. (claim_CreatedAt c', claim_RunID c') \<le> (claim_CreatedAt c, claim_RunID c)) cs)"
proof -
  note N = AcquireNext_ok [OF assms(1,2) acq]
  have m: "map_ok (st_runClaims st)" using assms(2) by (simp add: claims_ok_def)
  note E = eligible_claims_props(2) [OF assms(1) m]
  let ?xs = "eligible_claims srt req now st"
  have pos: "0 < br_Limit req" using N(1) by (simp add: validated_batch)
  have len: "length cs = length ?xs" using N(2) by (metis length_map)
  have "length ?xs \<le> nat (br_Limit req)" by (simp add: eligible_claims_def)
  then have "int (length cs) \<le> br_Limit req" using len pos by simp
  moreover have "distinct (map claim_RunID cs)" using N(2,3) by simp
  moreover have "list_all (\<lambda>c'. lookup (st_runClaims st') (claim_RunID c') = Some c'
        \<and> (\<exists>c token. lookup (st_runClaims st) (claim_RunID c') = Some c \<and> claimEligible c now
            \<and> c' = acquireClaim c (br_Owner req) token now (br_LeaseFor req))) cs"
    using N(4) E by (fastforce simp: list_all_iff)
  moreover have "int (length cs) = br_Limit req
        \<and> list_all (\<lambda>c'. (claim_CreatedAt c', claim_RunID c') \<le> (claim_CreatedAt c, claim_RunID c)) cs"
    if k: "lookup (st_runClaims st) k = Some c" "claimEligible c now" "k \<notin> claim_RunID ` set cs" for k c
  proof -
    have "k \<notin> fst ` set ?xs" using k(3) N(2) by (metis image_set)
    then have "(k, c) \<notin> set ?xs" by force
    note out = eligible_left_out [OF assms(1) k(1,2) this]
    have "claim_rank (claim_RunID c', c') \<le> claim_rank (k, c)" if c': "c' \<in> set cs" for c'
    proof -
      obtain c0 token where "(claim_RunID c', c0) \<in> set ?xs" "c' = acquireClaim c0 (br_Owner req) token now (br_LeaseFor req)"
        using N(4) [OF c'] by blast
      then show ?thesis using out(2) [of "(claim_RunID c', c0)"] by (simp add: claim_rank_def)
    qed
    then show ?thesis using out(1) len pos by (simp add: list_all_iff claim_rank_def)
  qed
  ultimately show ?thesis by blast
qed

theorem AcquireNext_batch_witness:
  "\<exists>st' cs. RunClaimRepository_AcquireNext insertion_sort (ex_batch ''A'') (\<lambda>_. zeros) 5 ex_claimed = (st', Inr cs)
    \<and> int (length cs) \<le> 4 \<and> distinct (map claim_RunID cs)"
proof -
  obtain st' cs where c: "RunClaimRepository_AcquireNext insertion_sort (ex_batch ''A'') (\<lambda>_. zeros) 5 ex_claimed = (st', Inr cs)"
    by (simp add: RunClaimRepository_AcquireNext_def RunClaimBatchRequest_Validate_def positiveDuration_def
        ex_batch_def claimEligible_def fresh_claim_def Let_def)
  from AcquireNext_batch [OF isort.sort_slice_axioms claims_ok_ex_claimed c] c show ?thesis
    by (auto simp: ex_batch_def)
qed

text \<open>
  A batch does not depend on the map's iteration order. Two stores with the same claims,
  whose maps iterate in different orders, hand out the same claims in the same order.
\<close>

theorem AcquireNext_order_independent:
  assumes "sort_slice srt" and "claims_ok st1" and "claims_ok st2"
    and "mset (st_runClaims st1) = mset (st_runClaims st2)"
  shows "snd (RunClaimRepository_AcquireNext srt req rnd now st1)
    = snd (RunClaimRepository_AcquireNext srt req rnd now st2)"
proof (cases "RunClaimBatchRequest_Validate req")
  case (Inl e)
  then show ?thesis by (simp add: RunClaimRepository_AcquireNext_def)
next
  case (Inr u)
  have "eligible_claims srt req now st1 = eligible_claims srt req now st2"
    using eligible_claims_unique [OF assms] by simp
  then show ?thesis
    using Inr by (simp add: AcquireNext_eq acquire_loop_result_indep [of _ _ _ _ _ _ st1 st2])
qed

theorem AcquireNext_order_independent_witness:
  "snd (RunClaimRepository_AcquireNext insertion_sort (ex_batch ''A'') (\<lambda>_. zeros) 5 (ex_two_claims False))
   = snd (RunClaimRepository_AcquireNext insertion_sort (ex_batch ''A'') (\<lambda>_. zeros) 5 (ex_two_claims True))"
  by (rule AcquireNext_order_independent [OF isort.sort_slice_axioms claims_ok_ex_two claims_ok_ex_two])
    (simp add: ex_two_claims_def)

text \<open>
  Batches of different workers do not overlap. A worker's batch is leased until the
  deadline; any worker's batch taken from the resulting store before that deadline contains no
  run of the first.
\<close>

theorem AcquireNext_disjoint:
  assumes "sort_slice srt" and "claims_ok st"
    and acq1: "RunClaimRepository_AcquireNext srt req1 rnd1 t1 st = (st1, Inr cs1)"
    and acq2: "RunClaimRepository_AcquireNext srt req2 rnd2 t2 st1 = (st2, Inr cs2)"
    and "t2 < t1 + br_LeaseFor req1"
  shows "claim_RunID ` set cs1 \<inter> claim_RunID ` set cs2 = {}"
proof -
  have ok1: "claims_ok st1"
    using claims_ok_exec [OF assms(1,2), of "CallAcquireNext req1 rnd1" t1] acq1 by simp
  note N1 = AcquireNext_ok [OF assms(1,2) acq1] and N2 = AcquireNext_ok [OF assms(1) ok1 acq2]
  have m1: "map_ok (st_runClaims st1)" using ok1 by (simp add: claims_ok_def)
  have "claim_RunID a \<noteq> claim_RunID b" if a: "a \<in> set cs1" and b: "b \<in> set cs2" for a b
  proof
    assume eq: "claim_RunID a = claim_RunID b"
    obtain c token where "lookup (st_runClaims st1) (claim_RunID a) = Some a"
        "a = acquireClaim c (br_Owner req1) token t1 (br_LeaseFor req1)"
      using N1(4) [OF a] by blast
    moreover obtain d where "(claim_RunID b, d) \<in> set (eligible_claims srt req2 t2 st1)"
      using N2(4) [OF b] by blast
    then have "lookup (st_runClaims st1) (claim_RunID b) = Some d" "claimEligible d t2"
      using eligible_claims_props(2) [OF assms(1) m1] by blast+
    ultimately have "claimEligible a t2" using eq by simp
    moreover have "claim_Status a = ClaimClaimed" "claim_ExpiresAt a = Some (t1 + br_LeaseFor req1)"
      using \<open>a = acquireClaim c (br_Owner req1) token t1 (br_LeaseFor req1)\<close> N1(1)
      by (simp_all add: ClaimExpiry_def validated_batch)
    ultimately show False using assms(5) by (simp add: claimEligible_def ClaimExpired_def)
  qed
  then show ?thesis by blast
qed

theorem AcquireNext_disjoint_witness:
  "\<exists>st1 cs1 st2 cs2. RunClaimRepository_AcquireNext insertion_sort (ex_batch ''A'') (\<lambda>_. zeros) 5 (ex_two_claims False) = (st1, Inr cs1)
    \<and> RunClaimRepository_AcquireNext insertion_sort (ex_batch ''B'') (\<lambda>_. zeros) 9 st1 = (st2, Inr cs2)
    \<and> length cs1 = 2 \<and> claim_RunID ` set cs1 \<inter> claim_RunID ` set cs2 = {}"
proof -
  obtain st1 cs1 where 1: "RunClaimRepository_AcquireNext insertion_sort (ex_batch ''A'') (\<lambda>_. zeros) 5 (ex_two_claims False) = (st1, Inr cs1)"
      and len: "length cs1 = 2"
    by (simp add: RunClaimRepository_AcquireNext_def RunClaimBatchRequest_Validate_def positiveDuration_def
        ex_batch_def claimEligible_def fresh_claim_def Let_def ex_two_claims_def claim_before_def)
  obtain st2 cs2 where 2: "RunClaimRepository_AcquireNext insertion_sort (ex_batch ''B'') (\<lambda>_. zeros) 9 st1 = (st2, Inr cs2)"
    using acquire_loop_zeros by (metis AcquireNext_eq ex_batch_valid)
  from 1 2 len AcquireNext_disjoint [OF isort.sort_slice_axioms claims_ok_ex_two 1 2] show ?thesis
    by (auto simp: ex_batch_def)
qed

text \<open>
  C6: a dead worker's run is recovered, and the dead worker cannot come back. Once the
  deadline of a claim has passed, its holder's heartbeat is refused with a conflict, and any
  valid worker that asks acquires the run in the next epoch, provided the random source works.
\<close>

theorem expired_lease_reclaimed:
  assumes "claims_ok st" and "lookup (st_runClaims st) (lr_RunID req) = Some c"
    and "claim_TenantID c = lr_TenantID req" and "claim_ExpiresAt c = Some e" and "e \<le> now"
    and "RunClaimLeaseRequest_Validate req = Inr ()"
  shows "(0 < ext \<longrightarrow> RunClaimRepository_Heartbeat (ref_of c) ext now st
        = (st, Inl (Conflictf ''run_claim_lease_expired'')))
    \<and> (\<exists>c'. RunClaimRepository_Acquire req (Some buf) now st = (put_claim (lr_RunID req) c' st, Inr c')
        \<and> claim_Owner c' = lr_Owner req \<and> claim_Generation c' = claim_Generation c + 1
        \<and> claim_ExpiresAt c' = Some (now + lr_LeaseFor req))"
proof -
  have c: "claim_ok (lr_RunID req) c" using claims_okD(1) [OF assms(1,2)] .
  then have st: "claim_Status c = ClaimClaimed" "ValidateFencing c = Inr ()" "claim_RunID c = lr_RunID req"
    using assms(4) by (auto simp: claim_ok_def split: RunClaimStatus.splits)
  have exp: "ClaimExpired (claim_ExpiresAt c) now" using assms(4,5) by (simp add: ClaimExpired_def)
  have "RunClaimRef_Validate (ref_of c) = Inr ()"
    using st(2) by (simp add: validated_ref ValidateFencing_iff ref_of_def)
  moreover have "fenced (ref_of c) st = Inr c"
    using assms(2) st by (simp add: fenced_iff presents_def ref_of_def Matches_def)
  ultimately have hb: "0 < ext \<longrightarrow> RunClaimRepository_Heartbeat (ref_of c) ext now st
      = (st, Inl (Conflictf ''run_claim_lease_expired''))"
    using exp by (simp add: RunClaimRepository_Heartbeat_def)
  have "0 < lr_LeaseFor req" using assms(6) by (simp add: validated_lease)
  then have "\<exists>c'. RunClaimRepository_Acquire req (Some buf) now st = (put_claim (lr_RunID req) c' st, Inr c')
        \<and> claim_Owner c' = lr_Owner req \<and> claim_Generation c' = claim_Generation c + 1
        \<and> claim_ExpiresAt c' = Some (now + lr_LeaseFor req)"
    using assms(2,3,6) st(1) exp
    by (simp add: RunClaimRepository_Acquire_def scoped_def claimEligible_def NewRunClaimToken_def Let_def
        ClaimExpiry_def acquireClaim_def)
  with hb show ?thesis by blast
qed

theorem expired_lease_reclaimed_witness:
  "\<exists>c'. RunClaimRepository_Acquire (ex_lease ''B'') zeros 15
      (put_claim ''r1'' (acquireClaim (fresh_claim ''t'' ''r1'' 0) ''A'' zero_token 5 10) ex_claimed)
    = (put_claim ''r1'' c' (put_claim ''r1'' (acquireClaim (fresh_claim ''t'' ''r1'' 0) ''A'' zero_token 5 10) ex_claimed), Inr c')
    \<and> claim_Generation c' = 2"
proof -
  let ?st = "put_claim ''r1'' (acquireClaim (fresh_claim ''t'' ''r1'' 0) ''A'' zero_token 5 10) ex_claimed"
  have ok: "claims_ok ?st"
    using claims_ok_exec [OF isort.sort_slice_axioms claims_ok_ex_claimed, of "CallAcquire (ex_lease ''A'') zeros" 5]
    by (simp add: ex_acquired)
  from expired_lease_reclaimed [OF ok, of "ex_lease ''B''" _ 15 15 1 "\<lambda>_. 0"]
  show ?thesis
    by (auto simp: ex_lease_def RunClaimLeaseRequest_Validate_def positiveDuration_def acquireClaim_def
        fresh_claim_def ClaimExpiry_def zeros_def)
qed

text \<open>
  Terminal cleanup. Cleanup succeeds exactly for a run of the tenant that is terminal; it
  then removes that run's claim and no other, repeating it succeeds and changes nothing more,
  and a refused cleanup changes nothing, so a live run never loses its claim this way.
\<close>

theorem CleanupTerminal_correct:
  "case RunClaimRepository_CleanupTerminal tn k st of (st', r) \<Rightarrow>
     (r = Inr () \<longleftrightarrow> (\<exists>run. lookup (st_runs st) k = Some run \<and> run_TenantID run = tn \<and> Terminal (run_Status run)))
     \<and> (if r = Inr ()
        then (\<forall>j. lookup (st_runClaims st') j = (if j = k then None else lookup (st_runClaims st) j))
          \<and> RunClaimRepository_CleanupTerminal tn k st' = (st', Inr ())
        else st' = st)"
  by (cases "lookup (st_runs st) k")
    (simp_all add: RunClaimRepository_CleanupTerminal_def scoped_def drop_claim_def delete_idem)

end
