(* ===== verification/Mem_Outbox.thy ===== *)
theory Mem_Outbox
  imports Mem_Repo_Laws Ports_Requests
begin

section \<open>The outbox and the event log (internal/store/memory/outbox.go, events.go)\<close>

text \<open>
  Outbox rows are shared by a slice and two indexes and are changed in place, so they live in
  the heap of the store and the operations below read and write through addresses. A Go
  \<^verbatim>\<open>int\<close> or \<^verbatim>\<open>int64\<close> counter is an integer; string comparison is the
  lexicographic order on bytes. \<^verbatim>\<open>json.Marshal\<close> of an event is the argument
  \<open>marshal\<close>: it gives the bytes of the envelope or an error.
\<close>

subsection \<open>Heap access\<close>

definition row :: "storeState \<Rightarrow> addr \<Rightarrow> outboxMessage" where
  "row st a = st_heap st a"

definition set_row :: "addr \<Rightarrow> outboxMessage \<Rightarrow> storeState \<Rightarrow> storeState" where
  "set_row a m st = st\<lparr>st_heap := (st_heap st)(a := m)\<rparr>"

text \<open>A fresh row, appended to the slice and entered in both indexes.\<close>

definition alloc_row :: "outboxMessage \<Rightarrow> storeState \<Rightarrow> storeState" where
  "alloc_row m st =
     (let a = st_next st in
      st\<lparr>st_heap := (st_heap st)(a := m), st_next := a + 1, st_outbox := st_outbox st @ [a],
         st_outboxByID := insert_map (obx_ID m) a (st_outboxByID st),
         st_outboxByDedup := insert_map (obx_DedupKey m) a (st_outboxByDedup st)\<rparr>)"

definition new_row :: "string \<Rightarrow> string \<Rightarrow> string \<Rightarrow> bytes \<Rightarrow> int \<Rightarrow> Time \<Rightarrow> outboxMessage" where
  "new_row ident dedup tenant envelope maxAttempts now =
     \<lparr>obx_ID = ident, obx_DedupKey = dedup, obx_TenantID = tenant, obx_Envelope = envelope,
      obx_Status = OutboxPending, obx_Attempts = 0, obx_MaxAttempts = maxAttempts,
      obx_AvailableAt = now, obx_LeasedBy = [], obx_LeaseUntil = None, obx_LastError = [],
      obx_CreatedAt = now, obx_DeliveredAt = None, obx_Generation = 0, obx_DeadAt = None,
      obx_DiscardedAt = None\<rparr>"

subsection \<open>Delivery operations\<close>

definition OutboxRepository_Publish :: "OutboxMessage \<Rightarrow> Time \<Rightarrow> unit store_op" where
  "OutboxRepository_Publish msg now st =
     (if om_MaxAttempts msg < 1 \<or> om_MaxAttempts msg > 100
      then (st, Inl (Invalidf ''outbox_max_attempts''))
      else if lookup (st_outboxByDedup st) (om_DedupKey msg) \<noteq> None then (st, Inr ())
      else (alloc_row (new_row (om_ID msg) (om_DedupKey msg) (om_TenantID msg) (om_Envelope msg)
              (om_MaxAttempts msg) now) st, Inr ()))"

definition due :: "Time \<Rightarrow> outboxMessage \<Rightarrow> bool" where
  "due now m \<longleftrightarrow>
     (obx_Status m = OutboxPending \<and> \<not> obx_AvailableAt m > now)
     \<or> (obx_Status m = OutboxLeased \<and> (case obx_LeaseUntil m of None \<Rightarrow> False | Some t \<Rightarrow> \<not> t > now))"

definition leaseRow :: "outboxMessage \<Rightarrow> string \<Rightarrow> Time \<Rightarrow> outboxMessage" where
  "leaseRow m worker leaseUntil =
     m\<lparr>obx_Status := OutboxLeased, obx_LeasedBy := worker, obx_LeaseUntil := Some leaseUntil,
       obx_Attempts := obx_Attempts m + 1\<rparr>"

definition outMessage :: "outboxMessage \<Rightarrow> OutboxMessage" where
  "outMessage m = \<lparr>om_ID = obx_ID m, om_DedupKey = obx_DedupKey m, om_TenantID = obx_TenantID m,
     om_Envelope = obx_Envelope m, om_Attempts = obx_Attempts m, om_MaxAttempts = obx_MaxAttempts m\<rparr>"

fun lease_loop :: "string \<Rightarrow> Time \<Rightarrow> OutboxMessage list \<Rightarrow> addr list \<Rightarrow> storeState \<Rightarrow>
  storeState \<times> OutboxMessage list" where
  "lease_loop worker leaseUntil out [] st = (st, out)"
| "lease_loop worker leaseUntil out (a # as) st =
     (let m = leaseRow (row st a) worker leaseUntil
      in lease_loop worker leaseUntil (out @ [outMessage m]) as (set_row a m st))"

type_synonym addr_sort = "(addr \<Rightarrow> addr \<Rightarrow> bool) \<Rightarrow> addr list \<Rightarrow> addr list"

definition OutboxRepository_Lease ::
  "addr_sort \<Rightarrow> OutboxLeaseRequest \<Rightarrow> Time \<Rightarrow> OutboxMessage list store_op" where
  "OutboxRepository_Lease srt req now st =
     (let dues = filter (\<lambda>a. due now (row st a)) (st_outbox st);
          dues = srt (\<lambda>a b. obx_CreatedAt (row st a) < obx_CreatedAt (row st b)) dues
      in if int (length dues) > ol_Limit req \<and> ol_Limit req < 0 then (st, Inl Panic)
         else (let dues = (if int (length dues) > ol_Limit req then take (nat (ol_Limit req)) dues else dues)
           in case lease_loop (ol_WorkerID req) (now + ol_LeaseFor req) [] dues st of
                (st', out) \<Rightarrow> (st', Inr out)))"

text \<open>The row a lessee may act on: known, leased, and leased by the caller.\<close>

definition leased_row :: "string \<Rightarrow> string \<Rightarrow> storeState \<Rightarrow> addr option" where
  "leased_row ident leasedBy st =
     (case lookup (st_outboxByID st) ident of
        None \<Rightarrow> None
      | Some a \<Rightarrow> if obx_Status (row st a) \<noteq> OutboxLeased \<or> obx_LeasedBy (row st a) \<noteq> leasedBy
                  then None else Some a)"

definition deliverRow :: "outboxMessage \<Rightarrow> Time \<Rightarrow> outboxMessage" where
  "deliverRow m now = m\<lparr>obx_Status := OutboxDelivered, obx_DeliveredAt := Some now, obx_LeaseUntil := None\<rparr>"

definition OutboxRepository_MarkDelivered :: "string \<Rightarrow> string \<Rightarrow> Time \<Rightarrow> unit store_op" where
  "OutboxRepository_MarkDelivered ident leasedBy now st =
     (case leased_row ident leasedBy st of
        None \<Rightarrow> (st, Inl (NotFoundf ''outbox_message''))
      | Some a \<Rightarrow> (set_row a (deliverRow (row st a) now) st, Inr ()))"

definition maxCauseLen :: nat where "maxCauseLen = 512"

definition failRow :: "outboxMessage \<Rightarrow> Duration \<Rightarrow> string \<Rightarrow> Time \<Rightarrow> outboxMessage" where
  "failRow m retryIn cause now =
     (let m = (if obx_Attempts m \<ge> obx_MaxAttempts m
               then m\<lparr>obx_Status := OutboxDead, obx_Generation := obx_Generation m + 1, obx_DeadAt := Some now\<rparr>
               else m\<lparr>obx_Status := OutboxPending, obx_AvailableAt := now + retryIn\<rparr>);
          cause = (if length cause > maxCauseLen then take maxCauseLen cause else cause)
      in m\<lparr>obx_LeaseUntil := None, obx_LeasedBy := [], obx_LastError := cause\<rparr>)"

definition OutboxRepository_FailWithBackoff ::
  "string \<Rightarrow> string \<Rightarrow> Duration \<Rightarrow> string \<Rightarrow> Time \<Rightarrow> unit store_op" where
  "OutboxRepository_FailWithBackoff ident leasedBy retryIn cause now st =
     (case leased_row ident leasedBy st of
        None \<Rightarrow> (st, Inl (NotFoundf ''outbox_message''))
      | Some a \<Rightarrow> (set_row a (failRow (row st a) retryIn cause now) st, Inr ()))"

fun count_status :: "OutboxStats \<Rightarrow> outboxMessage list \<Rightarrow> OutboxStats" where
  "count_status stats [] = stats"
| "count_status stats (m # ms) =
     count_status (case obx_Status m of
         OutboxPending \<Rightarrow> stats\<lparr>os_Pending := os_Pending stats + 1\<rparr>
       | OutboxLeased \<Rightarrow> stats\<lparr>os_Leased := os_Leased stats + 1\<rparr>
       | OutboxDelivered \<Rightarrow> stats\<lparr>os_Delivered := os_Delivered stats + 1\<rparr>
       | OutboxDead \<Rightarrow> stats\<lparr>os_Dead := os_Dead stats + 1\<rparr>
       | OutboxDiscarded \<Rightarrow> stats\<lparr>os_Discarded := os_Discarded stats + 1\<rparr>) ms"

definition OutboxRepository_Stats :: "storeState \<Rightarrow> OutboxStats result" where
  "OutboxRepository_Stats st =
     Inr (count_status \<lparr>os_Pending = 0, os_Leased = 0, os_Delivered = 0, os_Dead = 0, os_Discarded = 0\<rparr>
            (map (row st) (st_outbox st)))"

subsection \<open>Dead letters\<close>

definition deadLetterSummary :: "outboxMessage \<Rightarrow> DeadLetterSummary" where
  "deadLetterSummary m =
     \<lparr>dl_ID = obx_ID m, dl_DedupKey = obx_DedupKey m, dl_TenantID = obx_TenantID m,
      dl_Status = obx_Status m, dl_Attempts = obx_Attempts m, dl_MaxAttempts = obx_MaxAttempts m,
      dl_Generation = obx_Generation m, dl_Cause = obx_LastError m, dl_CreatedAt = obx_CreatedAt m,
      dl_DeadAt = obx_DeadAt m, dl_DiscardedAt = obx_DiscardedAt m\<rparr>"

definition afterKeyset :: "Time \<Rightarrow> string \<Rightarrow> Time \<Rightarrow> string \<Rightarrow> bool" where
  "afterKeyset createdAt ident afterAt afterID =
     (if afterID = [] \<and> afterAt = 0 then False
      else if createdAt = afterAt then ident \<le> afterID
      else createdAt < afterAt)"

definition dead_before :: "storeState \<Rightarrow> addr \<Rightarrow> addr \<Rightarrow> bool" where
  "dead_before st a b =
     (if obx_CreatedAt (row st a) \<noteq> obx_CreatedAt (row st b)
      then obx_CreatedAt (row st a) < obx_CreatedAt (row st b)
      else obx_ID (row st a) < obx_ID (row st b))"

fun dead_loop :: "ListDeadLettersRequest \<Rightarrow> DeadLetterSummary list \<Rightarrow> outboxMessage list \<Rightarrow>
  DeadLetterSummary list" where
  "dead_loop req out [] = out"
| "dead_loop req out (m # ms) =
     (if afterKeyset (obx_CreatedAt m) (obx_ID m) (ldl_AfterCreatedAt req) (ldl_AfterID req)
      then dead_loop req out ms
      else if int (length (out @ [deadLetterSummary m])) \<ge> ldl_Limit req
      then out @ [deadLetterSummary m]
      else dead_loop req (out @ [deadLetterSummary m]) ms)"

definition OutboxRepository_ListDeadLetters ::
  "addr_sort \<Rightarrow> ListDeadLettersRequest \<Rightarrow> storeState \<Rightarrow> DeadLetterSummary list result" where
  "OutboxRepository_ListDeadLetters srt req st =
     and_then (ListDeadLettersRequest_Validate req) (\<lambda>_.
      let dead = filter (\<lambda>a. obx_Status (row st a) = OutboxDead \<and> obx_TenantID (row st a) = ldl_TenantID req)
            (st_outbox st)
      in Inr (dead_loop req [] (map (row st) (srt (dead_before st) dead))))"

definition OutboxRepository_GetDeadLetter ::
  "string \<Rightarrow> string \<Rightarrow> storeState \<Rightarrow> DeadLetterSummary result" where
  "OutboxRepository_GetDeadLetter tenantID messageID st =
     (case lookup (st_outboxByID st) messageID of
        None \<Rightarrow> Inl (NotFoundf ''outbox_message'')
      | Some a \<Rightarrow>
          if obx_TenantID (row st a) \<noteq> tenantID
             \<or> (obx_Status (row st a) \<noteq> OutboxDead \<and> obx_Status (row st a) \<noteq> OutboxDiscarded)
          then Inl (NotFoundf ''outbox_message'')
          else Inr (deadLetterSummary (row st a)))"

definition classifyOperatorMutation :: "outboxMessage \<Rightarrow> OutboxMutationRequest \<Rightarrow> unit result" where
  "classifyOperatorMutation m req =
     (if obx_Generation m = 0 then Inl NewInvalidTransitionError
      else if obx_Generation m \<noteq> mr_ExpectedGeneration req then Inl NewStaleVersionError
      else if obx_Status m \<noteq> OutboxDead then Inl NewInvalidTransitionError
      else Inr ())"

definition applyRequeue :: "outboxMessage \<Rightarrow> Time \<Rightarrow> outboxMessage" where
  "applyRequeue m now =
     m\<lparr>obx_Status := OutboxPending, obx_Attempts := 0, obx_AvailableAt := now, obx_LeaseUntil := None,
       obx_LeasedBy := [], obx_Generation := obx_Generation m + 1, obx_DeadAt := None\<rparr>"

definition applyDiscard :: "outboxMessage \<Rightarrow> Time \<Rightarrow> outboxMessage" where
  "applyDiscard m now =
     m\<lparr>obx_Status := OutboxDiscarded, obx_LeaseUntil := None, obx_LeasedBy := [],
       obx_Generation := obx_Generation m + 1, obx_DiscardedAt := Some now\<rparr>"

definition owned_row :: "string \<Rightarrow> string \<Rightarrow> storeState \<Rightarrow> addr option" where
  "owned_row tenantID messageID st =
     (case lookup (st_outboxByID st) messageID of
        None \<Rightarrow> None
      | Some a \<Rightarrow> if obx_TenantID (row st a) \<noteq> tenantID then None else Some a)"

definition OutboxRepository_RequeueDeadLetter ::
  "OutboxMutationRequest \<Rightarrow> Time \<Rightarrow> OutboxMutationResult store_op" where
  "OutboxRepository_RequeueDeadLetter req now st =
     (case OutboxMutationRequest_Validate req of Inl e \<Rightarrow> (st, Inl e) | Inr _ \<Rightarrow>
      (case owned_row (mr_TenantID req) (mr_MessageID req) st of
         None \<Rightarrow> (st, Inl (NotFoundf ''outbox_message''))
       | Some a \<Rightarrow>
          (case classifyOperatorMutation (row st a) req of Inl e \<Rightarrow> (st, Inl e) | Inr _ \<Rightarrow>
            (let m = applyRequeue (row st a) now in
             (set_row a m st,
              Inr \<lparr>mres_MessageID = obx_ID m, mres_Action = ''requeue'',
                   mres_AttemptsBefore = obx_Attempts (row st a), mres_Generation = obx_Generation m\<rparr>)))))"

definition OutboxRepository_DiscardDeadLetter ::
  "OutboxMutationRequest \<Rightarrow> Time \<Rightarrow> OutboxMutationResult store_op" where
  "OutboxRepository_DiscardDeadLetter req now st =
     (case OutboxMutationRequest_Validate req of Inl e \<Rightarrow> (st, Inl e) | Inr _ \<Rightarrow>
      (case owned_row (mr_TenantID req) (mr_MessageID req) st of
         None \<Rightarrow> (st, Inl (NotFoundf ''outbox_message''))
       | Some a \<Rightarrow>
          (case classifyOperatorMutation (row st a) req of Inl e \<Rightarrow> (st, Inl e) | Inr _ \<Rightarrow>
            (let m = applyDiscard (row st a) now in
             (set_row a m st,
              Inr \<lparr>mres_MessageID = obx_ID m, mres_Action = ''discard'',
                   mres_AttemptsBefore = obx_Attempts (row st a), mres_Generation = obx_Generation m\<rparr>)))))"

subsection \<open>Retention\<close>

definition victim_before :: "storeState \<Rightarrow> (outboxMessage \<Rightarrow> Time option) \<Rightarrow> addr \<Rightarrow> addr \<Rightarrow> bool" where
  "victim_before st terminalAt x y =
     (let a = the (terminalAt (row st x)); b = the (terminalAt (row st y))
      in if a \<noteq> b then a < b else obx_ID (row st x) < obx_ID (row st y))"

definition selectRetentionVictims ::
  "addr_sort \<Rightarrow> OutboxDeliveryStatus \<Rightarrow> (outboxMessage \<Rightarrow> Time option) \<Rightarrow> Time \<Rightarrow> Duration \<Rightarrow>
   storeState \<Rightarrow> addr list" where
  "selectRetentionVictims srt status terminalAt cutoff horizon st =
     (let eligibleAt = cutoff - horizon;
          victims = filter (\<lambda>a. \<not> obx_Status (row st a) \<noteq> status
            \<and> \<not> (case terminalAt (row st a) of None \<Rightarrow> True | Some t \<Rightarrow> t > eligibleAt)) (st_outbox st)
      in srt (victim_before st terminalAt) victims)"

fun forget :: "storeState \<Rightarrow> addr list \<Rightarrow> storeState" where
  "forget st [] = st"
| "forget st (a # as) =
     forget (st\<lparr>st_outboxByID := delete_map (obx_ID (row st a)) (st_outboxByID st),
                st_outboxByDedup := delete_map (obx_DedupKey (row st a)) (st_outboxByDedup st)\<rparr>) as"

definition delivered_victims :: "addr_sort \<Rightarrow> RetentionSweepRequest \<Rightarrow> Time \<Rightarrow> storeState \<Rightarrow> addr list" where
  "delivered_victims srt req cutoff st =
     (if rs_DeliveredOlderThan req > 0
      then (let eligible = selectRetentionVictims srt OutboxDelivered obx_DeliveredAt cutoff
                  (rs_DeliveredOlderThan req) st
            in take (nat (min (rs_Limit req) (int (length eligible)))) eligible)
      else [])"

definition discarded_victims ::
  "addr_sort \<Rightarrow> RetentionSweepRequest \<Rightarrow> int \<Rightarrow> Time \<Rightarrow> storeState \<Rightarrow> addr list" where
  "discarded_victims srt req budget cutoff st =
     (if rs_DiscardedOlderThan req > 0 \<and> budget > 0
      then (let eligible = selectRetentionVictims srt OutboxDiscarded obx_DiscardedAt cutoff
                  (rs_DiscardedOlderThan req) st
            in if int (length eligible) > budget then take (nat budget) eligible else eligible)
      else [])"

definition sweep_victims :: "addr_sort \<Rightarrow> RetentionSweepRequest \<Rightarrow> Time \<Rightarrow> storeState \<Rightarrow> addr list \<times> addr list" where
  "sweep_victims srt req cutoff st =
     (let delivered = delivered_victims srt req cutoff st;
          budget = rs_Limit req - int (length delivered)
      in (delivered, discarded_victims srt req budget cutoff st))"

definition OutboxRepository_SweepRetention ::
  "addr_sort \<Rightarrow> RetentionSweepRequest \<Rightarrow> Time \<Rightarrow> RetentionSweepResult store_op" where
  "OutboxRepository_SweepRetention srt req now st =
     (case RetentionSweepRequest_Validate req of Inl e \<Rightarrow> (st, Inl e) | Inr _ \<Rightarrow>
      (case sweep_victims srt req now st of (delivered, discarded) \<Rightarrow>
       (let victims = delivered @ discarded;
            result = \<lparr>rr_Cutoff = now, rr_DeletedDelivered = int (length delivered),
              rr_DeletedDiscarded = int (length victims) - int (length delivered)\<rparr>
        in if rs_DryRun req then (st, Inr result)
           else (let st' = forget st victims
                 in (st'\<lparr>st_outbox := filter (\<lambda>a. a \<notin> set victims) (st_outbox st')\<rparr>, Inr result)))))"

subsection \<open>The event log\<close>

definition EventRepository_Append ::
  "(Event \<Rightarrow> bytes result) \<Rightarrow> Event \<Rightarrow> Time \<Rightarrow> Event store_op" where
  "EventRepository_Append marshal evt now st =
     (let st = st\<lparr>st_eventSeq := st_eventSeq st + 1\<rparr>;
          evt = evt\<lparr>event_Seq := st_eventSeq st\<rparr>
      in case marshal evt of
           Inl e \<Rightarrow> (st, Inl (Internalf e ''outbox_envelope''))
         | Inr envelope \<Rightarrow>
            (let dedupKey = ''event:'' @ event_ID evt;
                 st = (if lookup (st_outboxByDedup st) dedupKey = None
                       then alloc_row (new_row (''obx_'' @ event_ID evt) dedupKey (event_TenantID evt) envelope
                              (st_outboxMaxAttempts st) now) st
                       else st)
             in (st\<lparr>st_events := st_events st @ [evt]\<rparr>, Inr evt)))"

definition EventRepository_ListByTenant ::
  "string \<Rightarrow> int \<Rightarrow> int \<Rightarrow> storeState \<Rightarrow> Event list result" where
  "EventRepository_ListByTenant tenantID afterSeq limit st =
     Inr (page_loop (\<lambda>e. \<not> (event_Seq e \<le> afterSeq \<or> event_TenantID e \<noteq> tenantID)) limit [] (st_events st))"

definition EventRepository_ListByRun ::
  "string \<Rightarrow> string \<Rightarrow> int \<Rightarrow> int \<Rightarrow> storeState \<Rightarrow> Event list result" where
  "EventRepository_ListByRun tenantID runID afterSeq limit st =
     Inr (page_loop (\<lambda>e. \<not> (event_Seq e \<le> afterSeq \<or> event_TenantID e \<noteq> tenantID \<or> event_RunID e \<noteq> runID))
            limit [] (st_events st))"

subsection \<open>Calls\<close>

datatype outbox_call =
    CallPublish OutboxMessage
  | CallAppend Event
  | CallLease OutboxLeaseRequest
  | CallMarkDelivered string string
  | CallFail string string Duration string
  | CallRequeue OutboxMutationRequest
  | CallDiscard OutboxMutationRequest
  | CallSweep RetentionSweepRequest

fun outbox_exec :: "addr_sort \<Rightarrow> (Event \<Rightarrow> bytes result) \<Rightarrow> outbox_call \<Rightarrow> Time \<Rightarrow> storeState \<Rightarrow> storeState" where
  "outbox_exec srt marshal (CallPublish msg) now st = fst (OutboxRepository_Publish msg now st)"
| "outbox_exec srt marshal (CallAppend evt) now st = fst (EventRepository_Append marshal evt now st)"
| "outbox_exec srt marshal (CallLease req) now st = fst (OutboxRepository_Lease srt req now st)"
| "outbox_exec srt marshal (CallMarkDelivered ident by) now st = fst (OutboxRepository_MarkDelivered ident by now st)"
| "outbox_exec srt marshal (CallFail ident by retryIn cause) now st =
     fst (OutboxRepository_FailWithBackoff ident by retryIn cause now st)"
| "outbox_exec srt marshal (CallRequeue req) now st = fst (OutboxRepository_RequeueDeadLetter req now st)"
| "outbox_exec srt marshal (CallDiscard req) now st = fst (OutboxRepository_DiscardDeadLetter req now st)"
| "outbox_exec srt marshal (CallSweep req) now st = fst (OutboxRepository_SweepRetention srt req now st)"

end
