(* ===== verification/Mem_Outbox_Laws.thy ===== *)
theory Mem_Outbox_Laws
  imports Mem_Outbox
begin

section \<open>Laws of the outbox\<close>

text \<open>
  The outbox operations refine the machine of one row (\<open>row_move\<close>): each call moves each row
  by at most one move. (What a dead row says about its next delivery is left open: nothing reads it.) The structural invariant \<open>struct_ok\<close> says that the slice and the two
  indexes agree about the heap; \<open>row_ok\<close> is what every row satisfies.
\<close>

subsection \<open>The machine of one row\<close>

definition row_slot :: "storeState \<Rightarrow> addr \<Rightarrow> outboxMessage option" where
  "row_slot st a = (if a \<in> set (st_outbox st) then Some (row st a) else None)"

fun enqueues :: "outbox_call \<Rightarrow> bool" where
  "enqueues (CallPublish _) = True"
| "enqueues (CallAppend _) = True"
| "enqueues _ = False"

definition terminal_old :: "RetentionSweepRequest \<Rightarrow> Time \<Rightarrow> outboxMessage \<Rightarrow> bool" where
  "terminal_old req now m \<longleftrightarrow>
     (obx_Status m = OutboxDelivered \<and> 0 < rs_DeliveredOlderThan req
       \<and> (\<exists>t. obx_DeliveredAt m = Some t \<and> t \<le> now - rs_DeliveredOlderThan req))
     \<or> (obx_Status m = OutboxDiscarded \<and> 0 < rs_DiscardedOlderThan req
       \<and> (\<exists>t. obx_DiscardedAt m = Some t \<and> t \<le> now - rs_DiscardedOlderThan req))"

inductive row_move :: "outbox_call \<Rightarrow> Time \<Rightarrow> 'k \<Rightarrow> outboxMessage option \<Rightarrow> outboxMessage option \<Rightarrow> bool"
  for call now a where
  stay: "row_move call now a s s"
| enqueue: "enqueues call \<Longrightarrow> 1 \<le> mx \<Longrightarrow> mx \<le> 100 \<Longrightarrow>
    row_move call now a None (Some (new_row ident dedup tn env mx now))"
| lease: "call = CallLease req \<Longrightarrow> due now m \<Longrightarrow>
    row_move call now a (Some m) (Some (leaseRow m (ol_WorkerID req) (now + ol_LeaseFor req)))"
| deliver: "call = CallMarkDelivered (obx_ID m) (obx_LeasedBy m) \<Longrightarrow> obx_Status m = OutboxLeased \<Longrightarrow>
    row_move call now a (Some m) (Some (deliverRow m now))"
| fail: "call = CallFail (obx_ID m) (obx_LeasedBy m) retryIn cause \<Longrightarrow> obx_Status m = OutboxLeased \<Longrightarrow>
    row_move call now a (Some m) (Some (failRow (m\<lparr>obx_AvailableAt := t\<rparr>) retryIn cause now))"
| requeue: "call = CallRequeue req \<Longrightarrow> mr_MessageID req = obx_ID m \<Longrightarrow> mr_TenantID req = obx_TenantID m \<Longrightarrow>
    classifyOperatorMutation m req = Inr () \<Longrightarrow> row_move call now a (Some m) (Some (applyRequeue m now))"
| discard: "call = CallDiscard req \<Longrightarrow> mr_MessageID req = obx_ID m \<Longrightarrow> mr_TenantID req = obx_TenantID m \<Longrightarrow>
    classifyOperatorMutation m req = Inr () \<Longrightarrow> row_move call now a (Some m) (Some (applyDiscard m now))"
| sweep: "call = CallSweep req \<Longrightarrow> \<not> rs_DryRun req \<Longrightarrow> terminal_old req now m \<Longrightarrow>
    row_move call now a (Some m) None"

inductive_cases row_moveE: "row_move call now a s s'"

definition row_ok :: "outboxMessage \<Rightarrow> bool" where
  "row_ok m \<longleftrightarrow> 1 \<le> obx_MaxAttempts m \<and> obx_MaxAttempts m \<le> 100 \<and> 0 \<le> obx_Attempts m \<and> 0 \<le> obx_Generation m
     \<and> length (obx_LastError m) \<le> maxCauseLen
     \<and> (obx_LeaseUntil m \<noteq> None \<longleftrightarrow> obx_Status m = OutboxLeased)
     \<and> (case obx_Status m of
          OutboxPending \<Rightarrow> obx_Attempts m < obx_MaxAttempts m \<and> obx_LeasedBy m = [] \<and> obx_DeadAt m = None
        | OutboxLeased \<Rightarrow> 1 \<le> obx_Attempts m \<and> obx_DeadAt m = None
        | OutboxDelivered \<Rightarrow> 1 \<le> obx_Attempts m \<and> obx_DeliveredAt m \<noteq> None \<and> obx_DeadAt m = None
        | OutboxDead \<Rightarrow> obx_MaxAttempts m \<le> obx_Attempts m \<and> 1 \<le> obx_Generation m \<and> obx_DeadAt m \<noteq> None
        | OutboxDiscarded \<Rightarrow> obx_MaxAttempts m \<le> obx_Attempts m \<and> 2 \<le> obx_Generation m
            \<and> obx_DeadAt m \<noteq> None \<and> obx_DiscardedAt m \<noteq> None)"

definition struct_ok :: "storeState \<Rightarrow> bool" where
  "struct_ok st \<longleftrightarrow> 1 \<le> st_outboxMaxAttempts st \<and> st_outboxMaxAttempts st \<le> 100
     \<and> distinct (st_outbox st) \<and> (\<forall>a \<in> set (st_outbox st). a < st_next st)
     \<and> map_ok (st_outboxByID st) \<and> map_ok (st_outboxByDedup st)
     \<and> (\<forall>i a. lookup (st_outboxByID st) i = Some a \<longrightarrow> a \<in> set (st_outbox st) \<and> obx_ID (row st a) = i)
     \<and> (\<forall>d a. lookup (st_outboxByDedup st) d = Some a \<longleftrightarrow> a \<in> set (st_outbox st) \<and> obx_DedupKey (row st a) = d)"

definition outbox_ok :: "storeState \<Rightarrow> bool" where
  "outbox_ok st \<longleftrightarrow> struct_ok st \<and> (\<forall>a \<in> set (st_outbox st). row_ok (row st a))"

lemmas row_updates = new_row_def leaseRow_def deliverRow_def failRow_def applyRequeue_def applyDiscard_def

lemma row_ok_new: "1 \<le> mx \<Longrightarrow> mx \<le> 100 \<Longrightarrow> row_ok (new_row ident dedup tn env mx now)"
  by (simp add: row_ok_def new_row_def)

lemma row_ok_lease: "row_ok m \<Longrightarrow> due now m \<Longrightarrow> row_ok (leaseRow m w u)"
  by (cases "obx_Status m") (simp_all add: row_ok_def leaseRow_def due_def)

lemma row_ok_deliver: "row_ok m \<Longrightarrow> obx_Status m = OutboxLeased \<Longrightarrow> row_ok (deliverRow m now)"
  by (simp add: row_ok_def deliverRow_def)

lemma row_ok_fail: "row_ok m \<Longrightarrow> obx_Status m = OutboxLeased \<Longrightarrow> row_ok (failRow m retryIn cause now)"
  by (simp add: row_ok_def failRow_def Let_def)

lemma row_ok_available [simp]: "row_ok (m\<lparr>obx_AvailableAt := t\<rparr>) \<longleftrightarrow> row_ok m"
  by (cases "obx_Status m") (simp_all add: row_ok_def)

lemma available_self [simp]: "m\<lparr>obx_AvailableAt := obx_AvailableAt m\<rparr> = (m :: outboxMessage)"
  by (cases m) simp

lemma classify_ok:
  "classifyOperatorMutation m req = Inr () \<longleftrightarrow>
     obx_Generation m \<noteq> 0 \<and> obx_Generation m = mr_ExpectedGeneration req \<and> obx_Status m = OutboxDead"
  by (simp add: classifyOperatorMutation_def)

lemma row_ok_requeue: "row_ok m \<Longrightarrow> obx_Status m = OutboxDead \<Longrightarrow> row_ok (applyRequeue m now)"
  by (simp add: row_ok_def applyRequeue_def)

lemma row_ok_discard: "row_ok m \<Longrightarrow> obx_Status m = OutboxDead \<Longrightarrow> row_ok (applyDiscard m now)"
  by (simp add: row_ok_def applyDiscard_def)

lemma row_move_ok:
  assumes "row_move call now a s s'" and "\<And>m. s = Some m \<Longrightarrow> row_ok m" and "s' = Some m'"
  shows "row_ok m'"
  using assms
  by (cases rule: row_moveE)
    (auto intro: row_ok_new row_ok_lease row_ok_deliver row_ok_fail row_ok_requeue row_ok_discard
      simp: classify_ok)

subsection \<open>Structure\<close>

lemma row_simps [simp]:
  "row (set_row a m st) b = (if b = a then m else row st b)"
  "row (alloc_row m st) b = (if b = st_next st then m else row st b)"
  "st_outbox (set_row a m st) = st_outbox st"
  "st_outbox (alloc_row m st) = st_outbox st @ [st_next st]"
  by (simp_all add: row_def set_row_def alloc_row_def Let_def)

lemma struct_set_row:
  assumes "struct_ok st" and "obx_ID m = obx_ID (row st a)" and "obx_DedupKey m = obx_DedupKey (row st a)"
  shows "struct_ok (set_row a m st)"
  using assms by (auto simp: struct_ok_def) (auto simp: set_row_def row_def)

lemma struct_alloc_row:
  assumes "struct_ok st" and "lookup (st_outboxByDedup st) (obx_DedupKey m) = None"
  shows "struct_ok (alloc_row m st)"
proof -
  have new: "st_next st \<notin> set (st_outbox st)" using assms(1) by (auto simp: struct_ok_def)
  have fresh: "obx_DedupKey (row st a) \<noteq> obx_DedupKey m" if "a \<in> set (st_outbox st)" for a
    using assms that unfolding struct_ok_def by (metis option.distinct(1))
  have f: "st_outboxByID (alloc_row m st) = insert_map (obx_ID m) (st_next st) (st_outboxByID st)"
    "st_outboxByDedup (alloc_row m st) = insert_map (obx_DedupKey m) (st_next st) (st_outboxByDedup st)"
    "st_next (alloc_row m st) = st_next st + 1" "st_outboxMaxAttempts (alloc_row m st) = st_outboxMaxAttempts st"
    by (simp_all add: alloc_row_def Let_def)
  show ?thesis
    unfolding struct_ok_def f row_simps
  proof (intro conjI allI impI)
    show "1 \<le> st_outboxMaxAttempts st" "st_outboxMaxAttempts st \<le> 100" "distinct (st_outbox st @ [st_next st])"
      "\<forall>a\<in>set (st_outbox st @ [st_next st]). a < st_next st + 1"
      "map_ok (insert_map (obx_ID m) (st_next st) (st_outboxByID st))"
      "map_ok (insert_map (obx_DedupKey m) (st_next st) (st_outboxByDedup st))"
      using assms(1) new by (auto simp: struct_ok_def less_Suc_eq)
  next
    fix i a assume "lookup (insert_map (obx_ID m) (st_next st) (st_outboxByID st)) i = Some a"
    then show "a \<in> set (st_outbox st @ [st_next st])" "obx_ID (if a = st_next st then m else row st a) = i"
      using assms(1) new by (auto simp: struct_ok_def split: if_splits)
  next
    fix d a
    show "(lookup (insert_map (obx_DedupKey m) (st_next st) (st_outboxByDedup st)) d = Some a)
        = (a \<in> set (st_outbox st @ [st_next st]) \<and> obx_DedupKey (if a = st_next st then m else row st a) = d)"
      using assms(1) new fresh by (auto simp: struct_ok_def)
  qed
qed

lemma lease_loop_eq:
  "distinct as \<Longrightarrow> lease_loop worker leaseUntil out as st =
     (st\<lparr>st_heap := \<lambda>b. if b \<in> set as then leaseRow (st_heap st b) worker leaseUntil else st_heap st b\<rparr>,
      out @ map (\<lambda>a. outMessage (leaseRow (row st a) worker leaseUntil)) as)"
proof (induction as arbitrary: out st)
  case (Cons a as)
  have "map (\<lambda>b. outMessage (leaseRow (row (set_row a m st) b) worker leaseUntil)) as
      = map (\<lambda>b. outMessage (leaseRow (row st b) worker leaseUntil)) as" for m
    using Cons.prems by (intro map_cong) auto
  with Cons show ?case
    by (auto simp: Let_def set_row_def row_def fun_eq_iff intro!: arg_cong [where f = "\<lambda>h. st\<lparr>st_heap := h\<rparr>"])
qed simp

lemma leased_row_Some:
  "leased_row ident by st = Some a \<longleftrightarrow>
     lookup (st_outboxByID st) ident = Some a \<and> obx_Status (row st a) = OutboxLeased \<and> obx_LeasedBy (row st a) = by"
  by (auto simp: leased_row_def split: option.splits if_splits)

lemma owned_row_Some:
  "owned_row tn ident st = Some a \<longleftrightarrow>
     lookup (st_outboxByID st) ident = Some a \<and> obx_TenantID (row st a) = tn"
  by (auto simp: owned_row_def split: option.splits if_splits)

lemma byID_row:
  "struct_ok st \<Longrightarrow> lookup (st_outboxByID st) i = Some a \<Longrightarrow> a \<in> set (st_outbox st) \<and> obx_ID (row st a) = i"
  unfolding struct_ok_def by blast

lemma byDedup_row:
  "struct_ok st \<Longrightarrow> lookup (st_outboxByDedup st) d = Some a \<longleftrightarrow> a \<in> set (st_outbox st) \<and> obx_DedupKey (row st a) = d"
  unfolding struct_ok_def by blast

subsection \<open>Each call is one move of each row\<close>

lemma set_row_moves:
  assumes "struct_ok st" and "b \<in> set (st_outbox st)" and "row_move call now b (Some (row st b)) (Some m)"
  shows "row_move call now a (row_slot st a) (row_slot (set_row b m st) a)"
  using assms by (auto simp: row_slot_def intro: row_move.stay)

lemma alloc_row_moves:
  assumes "struct_ok st" and "enqueues call" and "1 \<le> mx" and "mx \<le> 100"
  shows "row_move call now a (row_slot st a) (row_slot (alloc_row (new_row i d tn env mx now) st) a)"
proof -
  have "st_next st \<notin> set (st_outbox st)" using assms(1) by (auto simp: struct_ok_def)
  then show ?thesis using assms by (auto simp: row_slot_def intro: row_move.intros)
qed

lemma row_updates_ident [simp]:
  "obx_ID (leaseRow m w u) = obx_ID m" "obx_DedupKey (leaseRow m w u) = obx_DedupKey m"
  "obx_ID (deliverRow m now) = obx_ID m" "obx_DedupKey (deliverRow m now) = obx_DedupKey m"
  "obx_ID (failRow m r c now) = obx_ID m" "obx_DedupKey (failRow m r c now) = obx_DedupKey m"
  "obx_ID (applyRequeue m now) = obx_ID m" "obx_DedupKey (applyRequeue m now) = obx_DedupKey m"
  "obx_ID (applyDiscard m now) = obx_ID m" "obx_DedupKey (applyDiscard m now) = obx_DedupKey m"
  by (simp_all add: row_updates Let_def)

lemma Publish_step:
  assumes "struct_ok st"
  shows "struct_ok (fst (OutboxRepository_Publish msg now st))"
    and "row_move (CallPublish msg) now a (row_slot st a) (row_slot (fst (OutboxRepository_Publish msg now st)) a)"
  using struct_alloc_row [OF assms] alloc_row_moves [OF assms, of "CallPublish msg"] assms
  by (auto simp: OutboxRepository_Publish_def new_row_def intro: row_move.stay)

lemma struct_cong:
  "st_outboxMaxAttempts st' = st_outboxMaxAttempts st \<Longrightarrow> st_outbox st' = st_outbox st \<Longrightarrow>
   st_next st' = st_next st \<Longrightarrow> st_heap st' = st_heap st \<Longrightarrow> st_outboxByID st' = st_outboxByID st \<Longrightarrow>
   st_outboxByDedup st' = st_outboxByDedup st \<Longrightarrow> struct_ok st' = struct_ok st \<and> row_slot st' = row_slot st"
  by (simp add: struct_ok_def row_slot_def row_def fun_eq_iff)

lemma Append_step:
  assumes "struct_ok st"
  shows "struct_ok (fst (EventRepository_Append marshal evt now st))"
    and "row_move (CallAppend evt) now a (row_slot st a) (row_slot (fst (EventRepository_Append marshal evt now st)) a)"
proof -
  define st1 where "st1 = st\<lparr>st_eventSeq := st_eventSeq st + 1\<rparr>"
  define evt1 where "evt1 = evt\<lparr>event_Seq := st_eventSeq st1\<rparr>"
  have s1: "struct_ok st1" "row_slot st1 = row_slot st" and m1: "1 \<le> st_outboxMaxAttempts st1" "st_outboxMaxAttempts st1 \<le> 100"
    using assms struct_cong [of st1 st] by (simp_all add: st1_def struct_ok_def)
  define st2 where "st2 = (\<lambda>envelope. if lookup (st_outboxByDedup st1) (''event:'' @ event_ID evt1) = None
      then alloc_row (new_row (''obx_'' @ event_ID evt1) (''event:'' @ event_ID evt1) (event_TenantID evt1) envelope
             (st_outboxMaxAttempts st1) now) st1 else st1)"
  have eq: "fst (EventRepository_Append marshal evt now st) = (case marshal evt1 of Inl _ \<Rightarrow> st1
      | Inr envelope \<Rightarrow> (st2 envelope)\<lparr>st_events := st_events (st2 envelope) @ [evt1]\<rparr>)"
    by (simp add: EventRepository_Append_def Let_def st1_def evt1_def st2_def split: sum.splits)
  have "struct_ok (st2 envelope)" for envelope
    using struct_alloc_row [OF s1(1)] s1(1) by (simp add: st2_def new_row_def)
  moreover have "row_move (CallAppend evt) now a (row_slot st1 a) (row_slot (st2 envelope) a)" for envelope
    using alloc_row_moves [OF s1(1), of "CallAppend evt"] m1 by (simp add: st2_def row_move.stay)
  ultimately have "struct_ok (st2 envelope) \<and> row_move (CallAppend evt) now a (row_slot st a) (row_slot (st2 envelope) a)" for envelope
    using s1(2) by simp
  then show "struct_ok (fst (EventRepository_Append marshal evt now st))"
    and "row_move (CallAppend evt) now a (row_slot st a) (row_slot (fst (EventRepository_Append marshal evt now st)) a)"
    using s1 struct_cong [of "(st2 envelope)\<lparr>st_events := st_events (st2 envelope) @ [evt1]\<rparr>" "st2 envelope" for envelope]
    by (auto simp: eq intro: row_move.stay split: sum.splits)
qed

definition due_rows :: "addr_sort \<Rightarrow> OutboxLeaseRequest \<Rightarrow> Time \<Rightarrow> storeState \<Rightarrow> addr list" where
  "due_rows srt req now st = take (nat (ol_Limit req))
     (srt (\<lambda>a b. obx_CreatedAt (row st a) < obx_CreatedAt (row st b))
       (filter (\<lambda>a. due now (row st a)) (st_outbox st)))"

lemma due_rows_props:
  assumes "sort_slice srt" and "struct_ok st"
  shows "distinct (due_rows srt req now st)"
    and "a \<in> set (due_rows srt req now st) \<Longrightarrow> a \<in> set (st_outbox st) \<and> due now (row st a)"
proof -
  let ?lt = "\<lambda>a b. obx_CreatedAt (row st a) < obx_CreatedAt (row st b)"
  let ?E = "filter (\<lambda>a. due now (row st a)) (st_outbox st)"
  have sw: "strict_weak ?lt" by (rule strict_weak_key)
  have "distinct ?E" using assms(2) by (simp add: struct_ok_def)
  then show "distinct (due_rows srt req now st)"
    by (simp add: due_rows_def sort_slice.distinct_srt [OF assms(1) sw])
  assume "a \<in> set (due_rows srt req now st)"
  then have "a \<in> set ?E"
    unfolding due_rows_def by (metis in_set_takeD sort_slice.set_srt [OF assms(1) sw])
  then show "a \<in> set (st_outbox st) \<and> due now (row st a)" by simp
qed

lemma Lease_eq:
  assumes "sort_slice srt" and "struct_ok st"
  shows "OutboxRepository_Lease srt req now st =
    (if ol_Limit req < 0 then (st, Inl Panic)
     else (st\<lparr>st_heap := \<lambda>b. if b \<in> set (due_rows srt req now st)
              then leaseRow (st_heap st b) (ol_WorkerID req) (now + ol_LeaseFor req) else st_heap st b\<rparr>,
           Inr (map (\<lambda>a. outMessage (leaseRow (row st a) (ol_WorkerID req) (now + ol_LeaseFor req)))
             (due_rows srt req now st))))"
proof (cases "ol_Limit req < 0")
  case True
  then have "ol_Limit req < int n" for n by simp
  with True show ?thesis by (simp add: OutboxRepository_Lease_def Let_def)
next
  case False
  let ?E = "srt (\<lambda>a b. obx_CreatedAt (row st a) < obx_CreatedAt (row st b))
       (filter (\<lambda>a. due now (row st a)) (st_outbox st))"
  have "(if int (length ?E) > ol_Limit req then take (nat (ol_Limit req)) ?E else ?E) = due_rows srt req now st"
    by (auto simp: due_rows_def not_less)
  then show ?thesis
    using False lease_loop_eq [OF due_rows_props(1) [OF assms]]
    by (simp add: OutboxRepository_Lease_def Let_def)
qed

lemma Lease_step:
  assumes "sort_slice srt" and "struct_ok st"
  shows "struct_ok (fst (OutboxRepository_Lease srt req now st))"
    and "row_move (CallLease req) now a (row_slot st a) (row_slot (fst (OutboxRepository_Lease srt req now st)) a)"
proof -
  let ?as = "due_rows srt req now st"
  define st' where "st' = st\<lparr>st_heap := \<lambda>b. if b \<in> set ?as
      then leaseRow (st_heap st b) (ol_WorkerID req) (now + ol_LeaseFor req) else st_heap st b\<rparr>"
  have row': "row st' b = (if b \<in> set ?as then leaseRow (row st b) (ol_WorkerID req) (now + ol_LeaseFor req) else row st b)" for b
    by (simp add: st'_def row_def)
  have ident: "obx_ID (row st' b) = obx_ID (row st b)" "obx_DedupKey (row st' b) = obx_DedupKey (row st b)" for b
    by (simp_all add: row')
  have "struct_ok st'"
    using assms(2) unfolding struct_ok_def ident by (simp add: st'_def)
  moreover have "row_move (CallLease req) now a (row_slot st a) (row_slot st' a)"
    using due_rows_props(2) [OF assms, of a req now]
    by (auto simp: row_slot_def row' intro: row_move.intros) (auto simp: st'_def)
  ultimately show "struct_ok (fst (OutboxRepository_Lease srt req now st))"
    and "row_move (CallLease req) now a (row_slot st a) (row_slot (fst (OutboxRepository_Lease srt req now st)) a)"
    using assms(2) by (auto simp: Lease_eq [OF assms] st'_def intro: row_move.stay)
qed

lemma addressed_step:
  assumes "struct_ok st" and "lookup (st_outboxByID st) ident = Some b"
    and "row_move call now b (Some (row st b)) (Some m)"
    and "obx_ID m = obx_ID (row st b)" and "obx_DedupKey m = obx_DedupKey (row st b)"
  shows "struct_ok (set_row b m st)" and "row_move call now a (row_slot st a) (row_slot (set_row b m st) a)"
  using struct_set_row [OF assms(1,4,5)] set_row_moves [OF assms(1) _ assms(3)] byID_row [OF assms(1,2)] by blast+

lemma MarkDelivered_step:
  assumes "struct_ok st"
  shows "struct_ok (fst (OutboxRepository_MarkDelivered ident by now st))"
    and "row_move (CallMarkDelivered ident by) now a (row_slot st a) (row_slot (fst (OutboxRepository_MarkDelivered ident by now st)) a)"
proof -
  have "struct_ok (set_row b (deliverRow (row st b) now) st)
      \<and> row_move (CallMarkDelivered ident by) now a (row_slot st a) (row_slot (set_row b (deliverRow (row st b) now) st) a)"
    if "leased_row ident by st = Some b" for b
  proof -
    have lk: "lookup (st_outboxByID st) ident = Some b" using that by (simp add: leased_row_Some)
    then have "row_move (CallMarkDelivered ident by) now b (Some (row st b)) (Some (deliverRow (row st b) now))"
      using that byID_row [OF assms lk] by (auto simp: leased_row_Some intro!: row_move.deliver)
    then show ?thesis using addressed_step [OF assms lk] by simp
  qed
  then show "struct_ok (fst (OutboxRepository_MarkDelivered ident by now st))"
    and "row_move (CallMarkDelivered ident by) now a (row_slot st a) (row_slot (fst (OutboxRepository_MarkDelivered ident by now st)) a)"
    using assms by (auto simp: OutboxRepository_MarkDelivered_def intro: row_move.stay split: option.splits)
qed

lemma Fail_step:
  assumes "struct_ok st"
  shows "struct_ok (fst (OutboxRepository_FailWithBackoff ident by r c now st))"
    and "row_move (CallFail ident by r c) now a (row_slot st a) (row_slot (fst (OutboxRepository_FailWithBackoff ident by r c now st)) a)"
proof -
  have "struct_ok (set_row b (failRow (row st b) r c now) st)
      \<and> row_move (CallFail ident by r c) now a (row_slot st a) (row_slot (set_row b (failRow (row st b) r c now) st) a)"
    if "leased_row ident by st = Some b" for b
  proof -
    have lk: "lookup (st_outboxByID st) ident = Some b" using that by (simp add: leased_row_Some)
    then have "row_move (CallFail ident by r c) now b (Some (row st b)) (Some (failRow (row st b) r c now))"
      using that byID_row [OF assms lk] row_move.fail [where a = b and call = "CallFail ident by r c" and m = "row st b" and t = "obx_AvailableAt (row st b)"]
      by (auto simp: leased_row_Some)
    then show ?thesis using addressed_step [OF assms lk] by simp
  qed
  then show "struct_ok (fst (OutboxRepository_FailWithBackoff ident by r c now st))"
    and "row_move (CallFail ident by r c) now a (row_slot st a) (row_slot (fst (OutboxRepository_FailWithBackoff ident by r c now st)) a)"
    using assms by (auto simp: OutboxRepository_FailWithBackoff_def intro: row_move.stay split: option.splits)
qed

lemma Requeue_step:
  assumes "struct_ok st"
  shows "struct_ok (fst (OutboxRepository_RequeueDeadLetter req now st))"
    and "row_move (CallRequeue req) now a (row_slot st a) (row_slot (fst (OutboxRepository_RequeueDeadLetter req now st)) a)"
proof -
  have "struct_ok (set_row b (applyRequeue (row st b) now) st)
      \<and> row_move (CallRequeue req) now a (row_slot st a) (row_slot (set_row b (applyRequeue (row st b) now) st) a)"
    if "owned_row (mr_TenantID req) (mr_MessageID req) st = Some b" "classifyOperatorMutation (row st b) req = Inr ()" for b
  proof -
    have lk: "lookup (st_outboxByID st) (mr_MessageID req) = Some b" using that by (simp add: owned_row_Some)
    then have "row_move (CallRequeue req) now b (Some (row st b)) (Some (applyRequeue (row st b) now))"
      using that byID_row [OF assms lk] by (auto simp: owned_row_Some intro!: row_move.requeue)
    then show ?thesis using addressed_step [OF assms lk] by simp
  qed
  then show "struct_ok (fst (OutboxRepository_RequeueDeadLetter req now st))"
    and "row_move (CallRequeue req) now a (row_slot st a) (row_slot (fst (OutboxRepository_RequeueDeadLetter req now st)) a)"
    using assms
    by (auto simp: OutboxRepository_RequeueDeadLetter_def Let_def intro: row_move.stay split: option.splits sum.splits)
qed

lemma Discard_step:
  assumes "struct_ok st"
  shows "struct_ok (fst (OutboxRepository_DiscardDeadLetter req now st))"
    and "row_move (CallDiscard req) now a (row_slot st a) (row_slot (fst (OutboxRepository_DiscardDeadLetter req now st)) a)"
proof -
  have "struct_ok (set_row b (applyDiscard (row st b) now) st)
      \<and> row_move (CallDiscard req) now a (row_slot st a) (row_slot (set_row b (applyDiscard (row st b) now) st) a)"
    if "owned_row (mr_TenantID req) (mr_MessageID req) st = Some b" "classifyOperatorMutation (row st b) req = Inr ()" for b
  proof -
    have lk: "lookup (st_outboxByID st) (mr_MessageID req) = Some b" using that by (simp add: owned_row_Some)
    then have "row_move (CallDiscard req) now b (Some (row st b)) (Some (applyDiscard (row st b) now))"
      using that byID_row [OF assms lk] by (auto simp: owned_row_Some intro!: row_move.discard)
    then show ?thesis using addressed_step [OF assms lk] by simp
  qed
  then show "struct_ok (fst (OutboxRepository_DiscardDeadLetter req now st))"
    and "row_move (CallDiscard req) now a (row_slot st a) (row_slot (fst (OutboxRepository_DiscardDeadLetter req now st)) a)"
    using assms
    by (auto simp: OutboxRepository_DiscardDeadLetter_def Let_def intro: row_move.stay split: option.splits sum.splits)
qed

subsection \<open>Retention\<close>

lemma forget_frame [simp]:
  "st_outbox (forget st as) = st_outbox st" "row (forget st as) = row st" "st_next (forget st as) = st_next st"
  "st_outboxMaxAttempts (forget st as) = st_outboxMaxAttempts st"
  "st_events (forget st as) = st_events st" "st_auditLog (forget st as) = st_auditLog st"
  by (induction st as rule: forget.induct) (simp_all add: row_def fun_eq_iff)

lemma forget_lookup:
  "lookup (st_outboxByID (forget st as)) i = (if i \<in> (\<lambda>a. obx_ID (row st a)) ` set as then None else lookup (st_outboxByID st) i)"
  "lookup (st_outboxByDedup (forget st as)) d =
     (if d \<in> (\<lambda>a. obx_DedupKey (row st a)) ` set as then None else lookup (st_outboxByDedup st) d)"
  by (induction st as rule: forget.induct) (auto simp: row_def)

lemma forget_map_ok:
  "map_ok (st_outboxByID st) \<Longrightarrow> map_ok (st_outboxByID (forget st as))"
  "map_ok (st_outboxByDedup st) \<Longrightarrow> map_ok (st_outboxByDedup (forget st as))"
  by (induction st as rule: forget.induct) simp_all

lemma strict_weak_victim_before: "strict_weak (victim_before st at)"
  by (rule strict_weakI_key [where f = "\<lambda>x. (the (at (row st x)), obx_ID (row st x))"])
    (auto simp: victim_before_def Let_def)

lemma victims_sub:
  assumes "sort_slice srt" and "a \<in> set (selectRetentionVictims srt status at cutoff horizon st)"
  shows "a \<in> set (st_outbox st)" and "obx_Status (row st a) = status"
    and "\<exists>t. at (row st a) = Some t \<and> t \<le> cutoff - horizon"
  using assms(2)
  by (auto simp: selectRetentionVictims_def sort_slice.set_srt [OF assms(1) strict_weak_victim_before] Let_def
      split: option.splits)

lemma victims_distinct:
  "sort_slice srt \<Longrightarrow> struct_ok st \<Longrightarrow> distinct (selectRetentionVictims srt status at cutoff horizon st)"
  by (simp add: selectRetentionVictims_def sort_slice.distinct_srt [OF _ strict_weak_victim_before] struct_ok_def Let_def)

lemma sweep_victims_props:
  assumes "sort_slice srt" and "struct_ok st" and "sweep_victims srt req now st = (dv, dc)"
  shows "distinct (dv @ dc)" and "a \<in> set (dv @ dc) \<Longrightarrow> a \<in> set (st_outbox st) \<and> terminal_old req now (row st a)"
    and "RetentionSweepRequest_Validate req = Inr () \<Longrightarrow> int (length (dv @ dc)) \<le> rs_Limit req"
    and "a \<in> set dv \<Longrightarrow> obx_Status (row st a) = OutboxDelivered"
    and "a \<in> set dc \<Longrightarrow> obx_Status (row st a) = OutboxDiscarded"
proof -
  let ?D = "selectRetentionVictims srt OutboxDelivered obx_DeliveredAt now (rs_DeliveredOlderThan req) st"
  let ?C = "selectRetentionVictims srt OutboxDiscarded obx_DiscardedAt now (rs_DiscardedOlderThan req) st"
  have "dv = delivered_victims srt req now st"
    and "dc = discarded_victims srt req (rs_Limit req - int (length dv)) now st"
    using assms(3) by (auto simp: sweep_victims_def Let_def)
  then have dv: "dv = (if rs_DeliveredOlderThan req > 0 then take (nat (min (rs_Limit req) (int (length ?D)))) ?D else [])"
    and dc: "dc = (if rs_DiscardedOlderThan req > 0 \<and> rs_Limit req - int (length dv) > 0
      then take (nat (rs_Limit req - int (length dv))) ?C else [])"
    by (auto simp: delivered_victims_def discarded_victims_def Let_def not_less)
  have D: "obx_Status (row st a) = OutboxDelivered \<and> a \<in> set (st_outbox st) \<and> terminal_old req now (row st a)"
    if "a \<in> set dv" for a
    using that victims_sub [OF assms(1), of a OutboxDelivered obx_DeliveredAt]
    by (auto simp: dv terminal_old_def dest!: in_set_takeD split: if_splits)
  have C: "obx_Status (row st a) = OutboxDiscarded \<and> a \<in> set (st_outbox st) \<and> terminal_old req now (row st a)"
    if "a \<in> set dc" for a
    using that victims_sub [OF assms(1), of a OutboxDiscarded obx_DiscardedAt]
    by (auto simp: dc terminal_old_def dest!: in_set_takeD split: if_splits)
  show "a \<in> set (dv @ dc) \<Longrightarrow> a \<in> set (st_outbox st) \<and> terminal_old req now (row st a)"
    "a \<in> set dv \<Longrightarrow> obx_Status (row st a) = OutboxDelivered" "a \<in> set dc \<Longrightarrow> obx_Status (row st a) = OutboxDiscarded"
    using C D by auto
  have "set dv \<inter> set dc = {}" using C D by fastforce
  moreover have "distinct dv" and "distinct dc"
    using victims_distinct [OF assms(1,2)] by (simp_all add: dv dc)
  ultimately show "distinct (dv @ dc)" by simp
  have "int (length dv) \<le> rs_Limit req" if "1 \<le> rs_Limit req"
    using that by (simp add: dv min_def) linarith
  moreover have "int (length dc) \<le> rs_Limit req - int (length dv)" if "int (length dv) \<le> rs_Limit req"
    using that by (simp add: dc) linarith
  ultimately show "int (length (dv @ dc)) \<le> rs_Limit req" if "RetentionSweepRequest_Validate req = Inr ()"
    using that by (simp add: RetentionSweepRequest_Validate_def split: if_splits)
qed

lemma struct_remove:
  assumes "struct_ok st" and vs: "set vs \<subseteq> set (st_outbox st)"
  shows "struct_ok ((forget st vs)\<lparr>st_outbox := filter (\<lambda>a. a \<notin> set vs) (st_outbox (forget st vs))\<rparr>)"
proof -
  let ?st' = "(forget st vs)\<lparr>st_outbox := filter (\<lambda>a. a \<notin> set vs) (st_outbox (forget st vs))\<rparr>"
  have r: "row ?st' = row st" by (simp add: row_def fun_eq_iff) (metis forget_frame(2) row_def)
  show ?thesis
    unfolding struct_ok_def r
  proof (intro conjI allI impI)
    show "1 \<le> st_outboxMaxAttempts ?st'" "st_outboxMaxAttempts ?st' \<le> 100" "distinct (st_outbox ?st')"
      "\<forall>a\<in>set (st_outbox ?st'). a < st_next ?st'" "map_ok (st_outboxByID ?st')" "map_ok (st_outboxByDedup ?st')"
      using assms by (simp_all add: struct_ok_def forget_map_ok)
  next
    fix i a assume "lookup (st_outboxByID ?st') i = Some a"
    then have i: "i \<notin> (\<lambda>a. obx_ID (row st a)) ` set vs" "lookup (st_outboxByID st) i = Some a"
      by (simp_all add: forget_lookup split: if_splits)
    then show "a \<in> set (st_outbox ?st')" "obx_ID (row st a) = i"
      using byID_row [OF assms(1) i(2)] by auto
  next
    fix d a
    have "lookup (st_outboxByDedup st) (obx_DedupKey (row st v)) = Some v" if "v \<in> set vs" for v
      using byDedup_row [OF assms(1)] that vs by auto
    then have "obx_DedupKey (row st a) \<noteq> obx_DedupKey (row st v)" if "v \<in> set vs" "a \<in> set (st_outbox st)" "a \<notin> set vs" for v
      using byDedup_row [OF assms(1)] that by (metis option.inject)
    then have "d \<notin> (\<lambda>a. obx_DedupKey (row st a)) ` set vs"
      if "a \<in> set (st_outbox st)" "a \<notin> set vs" "obx_DedupKey (row st a) = d"
      using that by blast
    moreover have "d \<in> (\<lambda>a. obx_DedupKey (row st a)) ` set vs" if "a \<in> set vs" "obx_DedupKey (row st a) = d"
      using that by blast
    ultimately show "(lookup (st_outboxByDedup ?st') d = Some a) = (a \<in> set (st_outbox ?st') \<and> obx_DedupKey (row st a) = d)"
      using byDedup_row [OF assms(1), of d a] by (simp add: forget_lookup) blast
  qed
qed

lemma Sweep_cases:
  assumes "sort_slice srt" and "struct_ok st"
  obtains (keep) "fst (OutboxRepository_SweepRetention srt req now st) = st"
  | (remove) vs where "\<not> rs_DryRun req" "set vs \<subseteq> set (st_outbox st)" "\<And>a. a \<in> set vs \<Longrightarrow> terminal_old req now (row st a)"
      "fst (OutboxRepository_SweepRetention srt req now st)
        = (forget st vs)\<lparr>st_outbox := filter (\<lambda>a. a \<notin> set vs) (st_outbox (forget st vs))\<rparr>"
proof (cases "RetentionSweepRequest_Validate req")
  case (Inl e)
  then show ?thesis using keep by (simp add: OutboxRepository_SweepRetention_def)
next
  case (Inr u)
  obtain dv dc where v: "sweep_victims srt req now st = (dv, dc)" by (cases "sweep_victims srt req now st")
  note P = sweep_victims_props(2) [OF assms v]
  show ?thesis
  proof (cases "rs_DryRun req")
    case True
    then show ?thesis using keep Inr v by (simp add: OutboxRepository_SweepRetention_def Let_def)
  next
    case False
    then show ?thesis
      using remove [of "dv @ dc"] Inr v P by (auto simp: OutboxRepository_SweepRetention_def Let_def)
  qed
qed

lemma Sweep_step:
  assumes "sort_slice srt" and "struct_ok st"
  shows "struct_ok (fst (OutboxRepository_SweepRetention srt req now st))"
    and "row_move (CallSweep req) now a (row_slot st a) (row_slot (fst (OutboxRepository_SweepRetention srt req now st)) a)"
proof -
  have "struct_ok (fst (OutboxRepository_SweepRetention srt req now st))
    \<and> row_move (CallSweep req) now a (row_slot st a) (row_slot (fst (OutboxRepository_SweepRetention srt req now st)) a)"
  proof (cases rule: Sweep_cases [OF assms, of req now, case_names keep remove])
    case keep
    then show ?thesis using assms(2) by (simp add: row_move.stay)
  next
    case (remove vs)
    have r: "row (st\<lparr>st_outbox := xs\<rparr>) = row st" for st xs by (simp add: row_def fun_eq_iff)
    have "row_move (CallSweep req) now a (row_slot st a)
        (row_slot ((forget st vs)\<lparr>st_outbox := filter (\<lambda>a. a \<notin> set vs) (st_outbox (forget st vs))\<rparr>) a)"
      using remove(1-3) by (auto simp: row_slot_def r intro: row_move.intros)
    then show ?thesis
      using struct_remove [OF assms(2) remove(2)] by (simp add: remove(4))
  qed
  then show "struct_ok (fst (OutboxRepository_SweepRetention srt req now st))"
    and "row_move (CallSweep req) now a (row_slot st a) (row_slot (fst (OutboxRepository_SweepRetention srt req now st)) a)"
    by blast+
qed

subsection \<open>Every interleaving\<close>

lemma outbox_exec_step:
  assumes "sort_slice srt" and "struct_ok st"
  shows "struct_ok (outbox_exec srt marshal call now st)"
    and "row_move call now a (row_slot st a) (row_slot (outbox_exec srt marshal call now st) a)"
  using assms
  by (cases call; simp add: Publish_step Append_step Lease_step MarkDelivered_step Fail_step Requeue_step
      Discard_step Sweep_step)+

lemma outbox_ok_exec:
  assumes "sort_slice srt" and "outbox_ok st"
  shows "outbox_ok (outbox_exec srt marshal call now st)"
proof -
  have s: "struct_ok st" using assms(2) by (simp add: outbox_ok_def)
  have "row_ok (row (outbox_exec srt marshal call now st) a)" if "a \<in> set (st_outbox (outbox_exec srt marshal call now st))" for a
  proof (rule row_move_ok [OF outbox_exec_step(2) [OF assms(1) s]])
    show "row_slot (outbox_exec srt marshal call now st) a = Some (row (outbox_exec srt marshal call now st) a)"
      using that by (simp add: row_slot_def)
    show "row_ok m" if "row_slot st a = Some m" for m
      using assms(2) that by (auto simp: row_slot_def outbox_ok_def split: if_splits)
  qed
  then show ?thesis using outbox_exec_step(1) [OF assms(1) s] by (simp add: outbox_ok_def)
qed

fun acts_as :: "outbox_call \<Rightarrow> string \<Rightarrow> string \<Rightarrow> bool" where
  "acts_as (CallMarkDelivered i by) ident worker = (i = ident \<and> by = worker)"
| "acts_as (CallFail i by _ _) ident worker = (i = ident \<and> by = worker)"
| "acts_as _ ident worker = False"

fun deletes :: "outbox_call \<Rightarrow> bool" where
  "deletes (CallSweep req) = (\<not> rs_DryRun req)"
| "deletes _ = False"

text \<open>\<open>outbox_machine\<close> is a system of rows that moves by \<open>row_move\<close>, whatever its state and calls are. A worker is promised
  its lease and everyone the message, once for every adapter.\<close>

locale outbox_machine = slot_system ok slot exec "\<lambda>c. row_move (call_of c)"
  for ok :: "'s \<Rightarrow> bool" and slot :: "'s \<Rightarrow> 'k \<Rightarrow> outboxMessage option"
    and exec :: "'c \<Rightarrow> Time \<Rightarrow> 's \<Rightarrow> 's" and call_of :: "'c \<Rightarrow> outbox_call"
begin

lemma lease_kept:
  assumes "ok st" and "slot st a = Some m" and "obx_Status m = OutboxLeased" and "obx_LeaseUntil m = Some e"
    and "\<And>t call. (t, call) \<in> set calls \<Longrightarrow> t < e \<and> \<not> acts_as (call_of call) (obx_ID m) (obx_LeasedBy m)"
  shows "slot (run_calls exec st calls) a = Some m"
proof (rule calls_keep [where I = "\<lambda>s. s = Some m", OF assms(1,2)])
  fix t call old new
  assume "(t, call) \<in> set calls" and "row_move (call_of call) t a old new" and "old = Some m"
  moreover from this have "t < e" "\<not> acts_as (call_of call) (obx_ID m) (obx_LeasedBy m)" using assms(5) by blast+
  ultimately show "new = Some m"
    using assms(3,4)
    by (auto elim!: row_moveE simp: due_def classify_ok terminal_old_def)
qed

lemma identity_kept:
  assumes "ok st" and "slot st a = Some m" and "\<And>t call. (t, call) \<in> set calls \<Longrightarrow> \<not> deletes (call_of call)"
  shows "\<exists>m'. slot (run_calls exec st calls) a = Some m' \<and> obx_DedupKey m' = obx_DedupKey m
    \<and> obx_Envelope m' = obx_Envelope m \<and> obx_ID m' = obx_ID m \<and> obx_Generation m \<le> obx_Generation m'"
proof (rule calls_keep [where I = "\<lambda>s. \<exists>m'. s = Some m' \<and> obx_DedupKey m' = obx_DedupKey m
    \<and> obx_Envelope m' = obx_Envelope m \<and> obx_ID m' = obx_ID m \<and> obx_Generation m \<le> obx_Generation m'", OF assms(1)])
  fix t call old new
  assume "(t, call) \<in> set calls" and mv: "row_move (call_of call) t a old new"
    and I: "\<exists>m'. old = Some m' \<and> obx_DedupKey m' = obx_DedupKey m \<and> obx_Envelope m' = obx_Envelope m
      \<and> obx_ID m' = obx_ID m \<and> obx_Generation m \<le> obx_Generation m'"
  then have "\<not> deletes (call_of call)" using assms(3) by blast
  with mv I show "\<exists>m'. new = Some m' \<and> obx_DedupKey m' = obx_DedupKey m \<and> obx_Envelope m' = obx_Envelope m
      \<and> obx_ID m' = obx_ID m \<and> obx_Generation m \<le> obx_Generation m'"
    by (auto elim!: row_moveE simp: row_updates Let_def)
qed (use assms(2) in simp)

end

locale outbox_server = sort_slice srt for srt :: addr_sort +
  fixes marshal :: "Event \<Rightarrow> bytes result"

sublocale outbox_server \<subseteq> slots: outbox_machine outbox_ok row_slot "outbox_exec srt marshal" "\<lambda>c. c"
proof
  fix st c now k assume ok: "outbox_ok st"
  show "outbox_ok (outbox_exec srt marshal c now st)" using sort_slice_axioms ok by (rule outbox_ok_exec)
  show "row_move c now k (row_slot st k) (row_slot (outbox_exec srt marshal c now st) k)"
    using outbox_exec_step(2) [OF sort_slice_axioms] ok by (simp add: outbox_ok_def)
qed

interpretation outbox_isort: outbox_server insertion_sort "\<lambda>_. Inr []"
  by unfold_locales

lemma outbox_serverI: "sort_slice srt \<Longrightarrow> outbox_server srt"
  by (simp add: outbox_server_def)

end
