(* ===== verification/Mem_Outbox_Props.thy ===== *)
theory Mem_Outbox_Props
  imports Mem_Outbox_Laws
begin

section \<open>Properties of the outbox and the event log\<close>

text \<open>
  Exclusive deliveries, the delivery lifecycle, the dead-letter credentials, retention and the
  event log, each for every interleaving of calls where that is what the code promises.
\<close>

context outbox_server
begin

lemma calls_ok: "outbox_ok st \<Longrightarrow> outbox_ok (run_calls (outbox_exec srt marshal) st calls)"
  by (rule slots.calls_ok)

lemmas leased_row_kept = slots.lease_kept
  and identity_kept = slots.identity_kept

end

subsection \<open>Example data\<close>

definition ex_tenant :: string where
  "ex_tenant = PrefixTenant @ idSeparator # replicate 26 (CHR ''a'')"

definition ex_msg :: OutboxMessage where
  "ex_msg = \<lparr>om_ID = ''m1'', om_DedupKey = ''d1'', om_TenantID = ex_tenant, om_Envelope = ''{}'',
     om_Attempts = 0, om_MaxAttempts = 1\<rparr>"

definition ex_outbox :: storeState where
  "ex_outbox = fst (OutboxRepository_Publish ex_msg 0 (empty_store 5))"

definition ex_take :: "string \<Rightarrow> OutboxLeaseRequest" where
  "ex_take worker = \<lparr>ol_WorkerID = worker, ol_LeaseFor = 10, ol_Limit = 8\<rparr>"

lemma outbox_ok_empty: "NewReposWithOptions n = Inr st \<Longrightarrow> outbox_ok st"
  by (auto simp: NewReposWithOptions_def Let_def empty_store_def outbox_ok_def struct_ok_def
      defaultOutboxMaxAttempts_def split: if_splits)

lemma outbox_ok_ex_empty: "outbox_ok (empty_store 5)"
  by (rule outbox_ok_empty [of 5]) (simp add: NewReposWithOptions_def Let_def)

lemma outbox_ok_ex_outbox: "outbox_ok ex_outbox"
  using outbox_ok_exec [OF isort.sort_slice_axioms outbox_ok_ex_empty, of "\<lambda>_. Inr []" "CallPublish ex_msg" 0]
  by (simp add: ex_outbox_def)

lemma ex_outbox_simps:
  "st_outbox ex_outbox = [0]" "row ex_outbox 0 = new_row ''m1'' ''d1'' ex_tenant ''{}'' 1 0"
  "st_outboxByID ex_outbox = [(''m1'', 0)]" "st_outboxByDedup ex_outbox = [(''d1'', 0)]"
  by (simp_all add: ex_outbox_def OutboxRepository_Publish_def ex_msg_def empty_store_def alloc_row_def row_def new_row_def Let_def)

lemma ex_outbox_due: "due_rows insertion_sort (ex_take w) 3 ex_outbox = [0]"
  by (simp add: due_rows_def ex_outbox_simps ex_take_def due_def new_row_def)

lemma ex_outbox_lease:
  "\<exists>st1. OutboxRepository_Lease insertion_sort (ex_take w) 3 ex_outbox =
    (st1, Inr [outMessage (leaseRow (row ex_outbox 0) w 13)])"
  using Lease_eq [OF isort.sort_slice_axioms, of ex_outbox "ex_take w" 3] outbox_ok_ex_outbox ex_outbox_due [of w]
  by (simp add: outbox_ok_def ex_take_def)

text \<open>The same message after its only attempt failed, and an operator's request on it.\<close>

definition ex_dead :: storeState where
  "ex_dead = set_row 0 (failRow (leaseRow (row ex_outbox 0) ''A'' 13) 0 ''boom'' 4) ex_outbox"

definition ex_mutation :: OutboxMutationRequest where
  "ex_mutation = \<lparr>mr_TenantID = ex_tenant, mr_MessageID = ''m1'', mr_ExpectedGeneration = 1,
     mr_Actor = \<lparr>actor_Type = PrincipalHuman, actor_ID = ''op''\<rparr>, mr_Reason = [], mr_TraceID = []\<rparr>"

lemma ex_dead_simps [simp]:
  "st_outbox ex_dead = [0]" "st_outboxByID ex_dead = [(''m1'', 0)]" "st_outboxByDedup ex_dead = [(''d1'', 0)]"
  by (simp_all add: ex_dead_def ex_outbox_simps) (simp_all add: set_row_def ex_outbox_simps)

lemma ex_dead_row: "row ex_dead 0 = failRow (leaseRow (new_row ''m1'' ''d1'' ex_tenant ''{}'' 1 0) ''A'' 13) 0 ''boom'' 4"
  by (simp add: ex_dead_def ex_outbox_simps)

lemma outbox_ok_ex_dead: "outbox_ok ex_dead"
proof -
  have "struct_ok ex_dead"
    using outbox_ok_ex_outbox unfolding ex_dead_def outbox_ok_def by (intro struct_set_row) (simp_all add: row_updates Let_def)
  moreover have "row_ok (row ex_dead 0)"
    by (simp add: ex_dead_row row_ok_def row_updates maxCauseLen_def Let_def)
  ultimately show ?thesis by (simp add: outbox_ok_def)
qed

lemma ex_message_id: "validateMessageID ''m1'' = Inr ()"
  by (simp add: validateMessageID_def maxMessageIDLen_def message_char_def is_lower_def is_digit_def)

lemma ex_mutation_valid: "OutboxMutationRequest_Validate ex_mutation = Inr ()"
  by (simp add: OutboxMutationRequest_Validate_def ex_mutation_def validateTenantID_def ex_tenant_def ParseTenantID_def
      validatePrefixed_def PrefixTenant_def idSeparator_def minIDRandomChars_def maxIDSuffixLen_def id_char_def
      is_lower_def list_all_length ex_message_id
      Actor_Validate_def maxOperatorFreeText_def)

lemma ex_mutation_fields:
  "mr_TenantID ex_mutation = ex_tenant" "mr_MessageID ex_mutation = ''m1''" "mr_ExpectedGeneration ex_mutation = 1"
  by (simp_all add: ex_mutation_def)

lemma ex_mutation_target:
  "owned_row ex_tenant ''m1'' ex_dead = Some 0" "classifyOperatorMutation (row ex_dead 0) ex_mutation = Inr ()"
  by (simp_all add: owned_row_def classify_ok ex_dead_row ex_mutation_fields failRow_def leaseRow_def new_row_def Let_def)

subsection \<open>Properties\<close>

text \<open>
  C16: a leased delivery is exclusive. A message returned by a lease stays with its worker:
  whatever calls are interleaved before the lease's deadline, unless that worker itself
  acknowledges or fails it, the message is still leased by it, and no lease taken before the
  deadline returns a message with the same deduplication key.
\<close>

theorem delivery_lease_exclusive:
  assumes "sort_slice srt" and "outbox_ok st"
    and lease: "OutboxRepository_Lease srt req now st = (st1, Inr msgs)" and "msg \<in> set msgs"
    and "list_all (\<lambda>(t, call). t < now + ol_LeaseFor req \<and> \<not> acts_as call (om_ID msg) (ol_WorkerID req)) calls"
    and lease2: "OutboxRepository_Lease srt req2 t (run_calls (outbox_exec srt marshal) st1 calls) = (st3, Inr msgs2)"
    and "t < now + ol_LeaseFor req"
  shows "om_DedupKey msg \<notin> om_DedupKey ` set msgs2
    \<and> (\<exists>a. lookup (st_outboxByDedup st3) (om_DedupKey msg) = Some a \<and> obx_Status (row st3 a) = OutboxLeased
        \<and> obx_LeasedBy (row st3 a) = ol_WorkerID req \<and> obx_LeaseUntil (row st3 a) = Some (now + ol_LeaseFor req))"
proof -
  let ?u = "now + ol_LeaseFor req"
  let ?st2 = "run_calls (outbox_exec srt marshal) st1 calls"
  have s: "struct_ok st" using assms(2) by (simp add: outbox_ok_def)
  obtain a where a: "a \<in> set (due_rows srt req now st)"
      "msg = outMessage (leaseRow (row st a) (ol_WorkerID req) ?u)"
    using lease assms(4) by (auto simp: Lease_eq [OF assms(1) s] split: if_splits)
  define m where "m = leaseRow (row st a) (ol_WorkerID req) ?u"
  have m: "obx_Status m = OutboxLeased" "obx_LeaseUntil m = Some ?u" "obx_LeasedBy m = ol_WorkerID req"
      "om_ID msg = obx_ID m" "om_DedupKey msg = obx_DedupKey m"
    by (simp_all add: m_def a(2) leaseRow_def outMessage_def)
  have slot1: "row_slot st1 a = Some m"
    using lease a(1) due_rows_props(2) [OF assms(1) s a(1)]
    by (auto simp: Lease_eq [OF assms(1) s] row_slot_def row_def m_def split: if_splits)
  have ok1: "outbox_ok st1"
    using outbox_ok_exec [OF assms(1,2), of marshal "CallLease req" now] lease by simp
  have "outbox_ok ?st2" using outbox_server.calls_ok [OF outbox_serverI [OF assms(1)] ok1] .
  then have s2: "struct_ok ?st2" by (simp add: outbox_ok_def)
  have "row_slot ?st2 a = Some m"
    using outbox_server.leased_row_kept [OF outbox_serverI [OF assms(1)] ok1 slot1 m(1,2), of calls]
      list_all_pairD [OF assms(5)] by (simp add: m)
  then have a2: "a \<in> set (st_outbox ?st2)" "row ?st2 a = m" by (auto simp: row_slot_def split: if_splits)
  have not_due: "a \<notin> set (due_rows srt req2 t ?st2)"
    using due_rows_props(2) [OF assms(1) s2, of a] a2 m assms(7) by (auto simp: due_def)
  have other: "obx_DedupKey (row ?st2 b) \<noteq> obx_DedupKey m" if "b \<in> set (due_rows srt req2 t ?st2)" for b
    using byDedup_row [OF s2] due_rows_props(2) [OF assms(1) s2 that] a2 not_due that by (metis option.inject)
  have "om_DedupKey ` set msgs2 = (\<lambda>b. obx_DedupKey (row ?st2 b)) ` set (due_rows srt req2 t ?st2)"
    using lease2 by (auto simp: Lease_eq [OF assms(1) s2] outMessage_def image_image split: if_splits)
  then have "om_DedupKey msg \<notin> om_DedupKey ` set msgs2"
    using other unfolding m(5) by (metis (no_types, lifting) imageE)
  moreover have "row st3 a = m" "a \<in> set (st_outbox st3)"
    using lease2 not_due a2 by (auto simp: Lease_eq [OF assms(1) s2] row_def split: if_splits)
  moreover have "struct_ok st3"
    using Lease_step(1) [OF assms(1) s2, of req2 t] lease2 by simp
  ultimately show ?thesis using m byDedup_row [of st3 "om_DedupKey msg" a] by auto
qed

theorem delivery_lease_exclusive_witness:
  "\<exists>st1 st3 msgs2. OutboxRepository_Lease insertion_sort (ex_take ''B'') 12 st1 = (st3, Inr msgs2)
    \<and> ''d1'' \<notin> om_DedupKey ` set msgs2 \<and> lookup (st_outboxByDedup st3) ''d1'' \<noteq> None"
proof -
  obtain st1 where l: "OutboxRepository_Lease insertion_sort (ex_take ''A'') 3 ex_outbox =
      (st1, Inr [outMessage (leaseRow (row ex_outbox 0) ''A'' 13)])"
    using ex_outbox_lease by blast
  have "outbox_ok st1"
    using outbox_ok_exec [OF isort.sort_slice_axioms outbox_ok_ex_outbox, of "\<lambda>_. Inr []" "CallLease (ex_take ''A'')" 3] l
    by simp
  then obtain st3 msgs2 where l2: "OutboxRepository_Lease insertion_sort (ex_take ''B'') 12
      (run_calls (outbox_exec insertion_sort (\<lambda>_. Inr [])) st1 []) = (st3, Inr msgs2)"
    using Lease_eq [OF isort.sort_slice_axioms, of st1 "ex_take ''B''" 12] by (simp add: outbox_ok_def ex_take_def)
  from delivery_lease_exclusive [OF isort.sort_slice_axioms outbox_ok_ex_outbox l _ _ l2] l2
  show ?thesis
    by (auto simp: ex_take_def outMessage_def leaseRow_def ex_outbox_simps new_row_def)
qed

text \<open>
  C18: the outbox invariant. From a new store, whatever calls are interleaved: every row is
  reachable by its deduplication key and only one row has that key; a pending row has attempts
  left and no lessee; a leased row has a deadline; a dead row spent its whole budget and has
  generation at least 1; a discarded row has generation at least 2.
\<close>

theorem outbox_invariant:
  assumes "sort_slice srt" and "NewReposWithOptions n = Inr st0"
    and "st = run_calls (outbox_exec srt marshal) st0 calls" and "a \<in> set (st_outbox st)"
  shows "row_ok (row st a) \<and> lookup (st_outboxByDedup st) (obx_DedupKey (row st a)) = Some a
    \<and> (case obx_Status (row st a) of
         OutboxPending \<Rightarrow> obx_Attempts (row st a) < obx_MaxAttempts (row st a) \<and> obx_LeasedBy (row st a) = []
       | OutboxLeased \<Rightarrow> obx_LeaseUntil (row st a) \<noteq> None
       | OutboxDelivered \<Rightarrow> obx_DeliveredAt (row st a) \<noteq> None
       | OutboxDead \<Rightarrow> obx_MaxAttempts (row st a) \<le> obx_Attempts (row st a) \<and> 1 \<le> obx_Generation (row st a)
       | OutboxDiscarded \<Rightarrow> 2 \<le> obx_Generation (row st a))"
proof -
  have ok: "outbox_ok st"
    unfolding assms(3)
    by (rule outbox_server.calls_ok [OF outbox_serverI [OF assms(1)] outbox_ok_empty [OF assms(2)]])
  then have "row_ok (row st a)" and "lookup (st_outboxByDedup st) (obx_DedupKey (row st a)) = Some a"
    using assms(4) byDedup_row [of st] by (auto simp: outbox_ok_def)
  then show ?thesis by (auto simp: row_ok_def split: OutboxDeliveryStatus.splits)
qed

theorem outbox_invariant_witness:
  "let st = run_calls (outbox_exec insertion_sort (\<lambda>_. Inr [])) (empty_store 5) [(0, CallPublish ex_msg)]
   in row_ok (row st 0) \<and> lookup (st_outboxByDedup st) (obx_DedupKey (row st 0)) = Some 0"
proof -
  have eq: "run_calls (outbox_exec insertion_sort (\<lambda>_. Inr [])) (empty_store 5) [(0, CallPublish ex_msg)] = ex_outbox"
    by (simp add: ex_outbox_def)
  have "NewReposWithOptions 5 = Inr (empty_store 5)" by (simp add: NewReposWithOptions_def Let_def)
  from outbox_invariant [OF isort.sort_slice_axioms this eq [symmetric], of 0] show ?thesis
    unfolding eq Let_def by (simp add: ex_outbox_simps(1))
qed

text \<open>
  The delivery lifecycle. One call changes a row's status only along an edge of the
  delivery table, never its identity, envelope or budget; the generation grows by one exactly
  when the row enters or leaves the dead state; and a row disappears only in a sweep that is
  not a dry run, after it was delivered or discarded and has outlived its horizon.
\<close>

theorem delivery_follows_table:
  assumes "sort_slice srt" and "outbox_ok st" and "row_slot st a = Some m"
  shows "case row_slot (outbox_exec srt marshal call now st) a of
      None \<Rightarrow> (\<exists>req. call = CallSweep req \<and> \<not> rs_DryRun req \<and> terminal_old req now m)
    | Some m' \<Rightarrow>
        (obx_Status m' = obx_Status m \<or> CanTransitionOutboxDelivery (obx_Status m) (obx_Status m'))
        \<and> obx_ID m' = obx_ID m \<and> obx_DedupKey m' = obx_DedupKey m \<and> obx_TenantID m' = obx_TenantID m
        \<and> obx_Envelope m' = obx_Envelope m \<and> obx_MaxAttempts m' = obx_MaxAttempts m
        \<and> obx_CreatedAt m' = obx_CreatedAt m
        \<and> obx_Generation m' = (if obx_Status m' \<noteq> obx_Status m \<and> (obx_Status m = OutboxDead \<or> obx_Status m' = OutboxDead)
            then obx_Generation m + 1 else obx_Generation m)"
proof -
  have "struct_ok st" using assms(2) by (simp add: outbox_ok_def)
  from outbox_exec_step(2) [OF assms(1) this, of call now a marshal] show ?thesis
    unfolding assms(3)
    by (cases rule: row_moveE)
      (auto simp: row_updates Let_def CanTransitionOutboxDelivery_def allows_def edgesFrom_def
        outboxDeliveryTransitions_def classify_ok due_def)
qed

theorem delivery_follows_table_witness:
  "\<exists>m'. row_slot (outbox_exec insertion_sort (\<lambda>_. Inr []) (CallLease (ex_take ''A'')) 3 ex_outbox) 0 = Some m'
    \<and> obx_Status m' = OutboxLeased \<and> obx_Envelope m' = ''{}''"
proof -
  have "row_slot ex_outbox 0 = Some (new_row ''m1'' ''d1'' ex_tenant ''{}'' 1 0)" by (simp add: row_slot_def ex_outbox_simps)
  from delivery_follows_table [OF isort.sort_slice_axioms outbox_ok_ex_outbox this,
      where marshal = "\<lambda>_. Inr []" and call = "CallLease (ex_take ''A'')" and now = 3]
  show ?thesis
    using Lease_eq [OF isort.sort_slice_axioms, of ex_outbox "ex_take ''A''" 3] outbox_ok_ex_outbox
    by (auto simp: row_slot_def row_def outbox_ok_def ex_take_def ex_outbox_due [unfolded ex_take_def] ex_outbox_simps
        leaseRow_def ex_outbox_simps(2) [unfolded row_def] new_row_def)
qed

text \<open>
  C19: publication is exactly-once per key and durable. After a successful publication,
  whatever calls follow short of a deleting sweep, there is one row with the key, it carries
  the envelope stored first, and publishing the key again succeeds and changes nothing.
\<close>

theorem publish_exactly_once:
  assumes "sort_slice srt" and "outbox_ok st" and "OutboxRepository_Publish msg now st = (st1, Inr ())"
    and "lookup (st_outboxByDedup st) (om_DedupKey msg) = None"
    and "list_all (\<lambda>(_, call). \<not> deletes call) calls"
    and "st2 = run_calls (outbox_exec srt marshal) st1 calls" and "om_DedupKey msg2 = om_DedupKey msg"
    and "1 \<le> om_MaxAttempts msg2" and "om_MaxAttempts msg2 \<le> 100"
  shows "length (filter (\<lambda>a. obx_DedupKey (row st2 a) = om_DedupKey msg) (st_outbox st2)) = 1
    \<and> (\<exists>a. lookup (st_outboxByDedup st2) (om_DedupKey msg) = Some a \<and> obx_Envelope (row st2 a) = om_Envelope msg)
    \<and> OutboxRepository_Publish msg2 t st2 = (st2, Inr ())"
proof -
  let ?m = "new_row (om_ID msg) (om_DedupKey msg) (om_TenantID msg) (om_Envelope msg) (om_MaxAttempts msg) now"
  have st1: "st1 = alloc_row ?m st"
    using assms(3,4) by (auto simp: OutboxRepository_Publish_def split: if_splits)
  have ok1: "outbox_ok st1"
    using outbox_ok_exec [OF assms(1,2), of marshal "CallPublish msg" now] assms(3) by simp
  have "row_slot st1 (st_next st) = Some ?m" by (simp add: st1 row_slot_def)
  from outbox_server.identity_kept [OF outbox_serverI [OF assms(1)] ok1 this, of calls marshal]
  obtain m' where m': "row_slot st2 (st_next st) = Some m'" "obx_DedupKey m' = om_DedupKey msg" "obx_Envelope m' = om_Envelope msg"
    using list_all_pairD [OF assms(5)] by (auto simp: assms(6) new_row_def)
  have "outbox_ok st2" unfolding assms(6) by (rule outbox_server.calls_ok [OF outbox_serverI [OF assms(1)] ok1])
  then have s2: "struct_ok st2" by (simp add: outbox_ok_def)
  have r: "st_next st \<in> set (st_outbox st2)" "row st2 (st_next st) = m'"
    using m'(1) by (auto simp: row_slot_def split: if_splits)
  have lk: "lookup (st_outboxByDedup st2) (om_DedupKey msg) = Some (st_next st)"
    using byDedup_row [OF s2] r m'(2) by simp
  have uniq: "b = st_next st" if "b \<in> set (st_outbox st2)" "obx_DedupKey (row st2 b) = om_DedupKey msg" for b
    using byDedup_row [OF s2, of "om_DedupKey msg" b] that lk by simp
  have "st_next st \<in> {a \<in> set (st_outbox st2). obx_DedupKey (row st2 a) = om_DedupKey msg}"
    using r m'(2) by simp
  then have one: "set (filter (\<lambda>a. obx_DedupKey (row st2 a) = om_DedupKey msg) (st_outbox st2)) = {st_next st}"
    unfolding set_filter using uniq by blast
  have "distinct (filter (\<lambda>a. obx_DedupKey (row st2 a) = om_DedupKey msg) (st_outbox st2))"
    using s2 by (simp add: struct_ok_def)
  then have "length (filter (\<lambda>a. obx_DedupKey (row st2 a) = om_DedupKey msg) (st_outbox st2)) = card {st_next st}"
    using one distinct_card by metis
  then have "length (filter (\<lambda>a. obx_DedupKey (row st2 a) = om_DedupKey msg) (st_outbox st2)) = 1"
    by (simp only: card.empty card.insert empty_iff finite.emptyI not_False_eq_True One_nat_def)
  moreover have "OutboxRepository_Publish msg2 t st2 = (st2, Inr ())"
    using lk assms(7-9) by (simp add: OutboxRepository_Publish_def)
  moreover have "obx_Envelope (row st2 (st_next st)) = om_Envelope msg" using r(2) m'(3) by simp
  ultimately show ?thesis using lk by blast
qed

theorem publish_exactly_once_witness:
  "OutboxRepository_Publish (ex_msg\<lparr>om_ID := ''m2'', om_Envelope := ''other''\<rparr>) 7 ex_outbox = (ex_outbox, Inr ())"
proof -
  have p: "OutboxRepository_Publish ex_msg 0 (empty_store 5) = (ex_outbox, Inr ())"
    by (simp add: ex_outbox_def OutboxRepository_Publish_def ex_msg_def empty_store_def)
  from publish_exactly_once [OF isort.sort_slice_axioms outbox_ok_ex_empty p, of "[]" ex_outbox "\<lambda>_. Inr []"
      "ex_msg\<lparr>om_ID := ''m2'', om_Envelope := ''other''\<rparr>" 7]
  show ?thesis by (simp add: ex_msg_def empty_store_def)
qed

text \<open>
  Bounded retries. A fresh delivery with budget \<open>n\<close> that is leased and failed again and
  again is pending with attempts left before the \<open>n\<close>-th failure and dead, in a new fencing
  epoch, exactly at the \<open>n\<close>-th.
\<close>

theorem retry_budget_exact:
  "let fails = (\<lambda>k. ((\<lambda>m. failRow (leaseRow m w u) r c t) ^^ k) (new_row i d tn env (int n) now))
   in (k < n \<longrightarrow> obx_Status (fails k) = OutboxPending \<and> obx_Attempts (fails k) = int k \<and> obx_Generation (fails k) = 0)
     \<and> (n \<noteq> 0 \<longrightarrow> obx_Status (fails n) = OutboxDead \<and> obx_Attempts (fails n) = int n
          \<and> obx_Generation (fails n) = 1 \<and> obx_DeadAt (fails n) = Some t)"
proof -
  define fails where "fails = (\<lambda>k. ((\<lambda>m. failRow (leaseRow m w u) r c t) ^^ k) (new_row i d tn env (int n) now))"
  have before: "j < n \<Longrightarrow> obx_Status (fails j) = OutboxPending \<and> obx_Attempts (fails j) = int j \<and> obx_Generation (fails j) = 0
      \<and> obx_MaxAttempts (fails j) = int n" for j
    by (induction j) (auto simp: fails_def new_row_def failRow_def leaseRow_def Let_def)
  have "obx_Status (fails n) = OutboxDead \<and> obx_Attempts (fails n) = int n \<and> obx_Generation (fails n) = 1
      \<and> obx_DeadAt (fails n) = Some t" if "n \<noteq> 0"
  proof -
    obtain j where j: "n = Suc j" using \<open>n \<noteq> 0\<close> by (cases n) auto
    have "fails n = failRow (leaseRow (fails j) w u) r c t" unfolding j by (simp add: fails_def j)
    then show ?thesis using before [of j] j by (simp add: failRow_def leaseRow_def Let_def)
  qed
  with before show ?thesis unfolding fails_def Let_def by blast
qed

theorem retry_budget_exact_witness:
  "obx_Status (failRow (leaseRow (new_row ''m'' ''d'' ''t'' [] 1 0) ''w'' 9) 3 ''boom'' 5) = OutboxDead"
  using retry_budget_exact [where k = 0 and n = 1 and w = "''w''" and u = 9 and r = 3 and c = "''boom''" and t = 5
      and i = "''m''" and d = "''d''" and tn = "''t''" and env = "[]" and now = 0]
  by (simp add: Let_def)

subsection \<open>Operator credentials\<close>

fun reuses :: "outbox_call \<Rightarrow> string \<Rightarrow> bool" where
  "reuses (CallPublish msg) ident = (om_ID msg = ident)"
| "reuses (CallAppend evt) ident = (''obx_'' @ event_ID evt = ident)"
| "reuses _ ident = False"

lemma byID_alloc [simp]: "st_outboxByID (alloc_row m st) = insert_map (obx_ID m) (st_next st) (st_outboxByID st)"
  "st_outboxByID (set_row a m st) = st_outboxByID st"
  by (simp_all add: alloc_row_def set_row_def Let_def)

lemma byID_kept:
  assumes "sort_slice srt" and "struct_ok st" and "\<not> deletes call" and "\<not> reuses call ident"
  shows "lookup (st_outboxByID (outbox_exec srt marshal call now st)) ident = lookup (st_outboxByID st) ident"
proof (cases call)
  case (CallPublish msg)
  then show ?thesis using assms(4) by (auto simp: OutboxRepository_Publish_def new_row_def)
next
  case (CallAppend evt)
  then show ?thesis using assms(4)
    by (auto simp: EventRepository_Append_def new_row_def Let_def split: sum.splits)
next
  case (CallLease req)
  then show ?thesis by (simp add: Lease_eq [OF assms(1,2)])
next
  case (CallSweep req)
  then show ?thesis using assms(3)
    by (auto simp: OutboxRepository_SweepRetention_def Let_def split: sum.splits prod.splits)
qed (auto simp: OutboxRepository_MarkDelivered_def OutboxRepository_FailWithBackoff_def
    OutboxRepository_RequeueDeadLetter_def OutboxRepository_DiscardDeadLetter_def Let_def
    split: option.splits sum.splits)

context outbox_server
begin

lemma calls_byID_kept:
  assumes "outbox_ok st" and "\<And>t call. (t, call) \<in> set calls \<Longrightarrow> \<not> deletes call \<and> \<not> reuses call ident"
  shows "lookup (st_outboxByID (run_calls (outbox_exec srt marshal) st calls)) ident = lookup (st_outboxByID st) ident"
  using assms
proof (induction calls arbitrary: st)
  case (Cons x calls)
  obtain t call where x: "x = (t, call)" by (cases x)
  have "struct_ok st" using Cons.prems(1) by (simp add: outbox_ok_def)
  then have "lookup (st_outboxByID (outbox_exec srt marshal call t st)) ident = lookup (st_outboxByID st) ident"
    using byID_kept [OF sort_slice_axioms] Cons.prems(2) [of t call] x by simp
  moreover have "\<not> deletes d \<and> \<not> reuses d ident" if "(t', d) \<in> set calls" for t' d
    using Cons.prems(2) [of t' d] that by simp
  ultimately show ?case
    using Cons.IH [of "outbox_exec srt marshal call t st"] slots.exec_ok [OF Cons.prems(1)] by (simp add: x)
qed simp

end

lemma mutation_result:
  assumes "OutboxRepository_RequeueDeadLetter req now st = (st', Inr res) \<or> OutboxRepository_DiscardDeadLetter req now st = (st', Inr res)"
  obtains a m where "lookup (st_outboxByID st) (mr_MessageID req) = Some a" "st' = set_row a m st"
    "obx_Generation (row st a) = mr_ExpectedGeneration req" "obx_Generation m = mr_ExpectedGeneration req + 1"
    "mres_Generation res = obx_Generation m" "obx_ID m = obx_ID (row st a)"
  using assms
  by (auto simp: OutboxRepository_RequeueDeadLetter_def OutboxRepository_DiscardDeadLetter_def Let_def owned_row_Some
      classify_ok applyRequeue_def applyDiscard_def split: sum.splits option.splits)

lemma mutation_refused:
  assumes "lookup (st_outboxByID st) (mr_MessageID req) = Some a" and "mr_ExpectedGeneration req < obx_Generation (row st a)"
  shows "\<exists>e. OutboxRepository_RequeueDeadLetter req now st = (st, Inl e)"
    and "\<exists>e. OutboxRepository_DiscardDeadLetter req now st = (st, Inl e)"
proof -
  have "\<exists>e. classifyOperatorMutation (row st a) req = Inl e"
    using assms(2) by (simp add: classifyOperatorMutation_def)
  then show "\<exists>e. OutboxRepository_RequeueDeadLetter req now st = (st, Inl e)"
    and "\<exists>e. OutboxRepository_DiscardDeadLetter req now st = (st, Inl e)"
    using assms(1)
    by (auto simp: OutboxRepository_RequeueDeadLetter_def OutboxRepository_DiscardDeadLetter_def owned_row_def
        split: sum.splits)
qed

text \<open>
  An operator credential works once. After a requeue or a discard with an expected
  generation succeeded, no later requeue or discard of that message with that generation (or an
  older one) succeeds or changes anything, whatever happened in between, as long as the row is
  not swept away and its id not published anew.
\<close>

theorem operator_credential_single_use:
  assumes "sort_slice srt" and "outbox_ok st"
    and act: "OutboxRepository_RequeueDeadLetter req now st = (st1, Inr res)
      \<or> OutboxRepository_DiscardDeadLetter req now st = (st1, Inr res)"
    and "list_all (\<lambda>(_, call). \<not> deletes call \<and> \<not> reuses call (mr_MessageID req)) calls"
    and "st2 = run_calls (outbox_exec srt marshal) st1 calls"
    and "mr_MessageID req2 = mr_MessageID req" and "mr_ExpectedGeneration req2 \<le> mr_ExpectedGeneration req"
  shows "mres_Generation res = mr_ExpectedGeneration req + 1
    \<and> (\<exists>e. OutboxRepository_RequeueDeadLetter req2 t st2 = (st2, Inl e))
    \<and> (\<exists>e. OutboxRepository_DiscardDeadLetter req2 t st2 = (st2, Inl e))"
proof -
  note server = outbox_serverI [OF assms(1)]
  have s: "struct_ok st" using assms(2) by (simp add: outbox_ok_def)
  obtain a m where m: "lookup (st_outboxByID st) (mr_MessageID req) = Some a" "st1 = set_row a m st"
      "obx_Generation m = mr_ExpectedGeneration req + 1" "mres_Generation res = obx_Generation m"
    using act by (rule mutation_result) blast
  have ok1: "outbox_ok st1"
    using act outbox_ok_exec [OF assms(1,2), of marshal "CallRequeue req" now]
      outbox_ok_exec [OF assms(1,2), of marshal "CallDiscard req" now] by auto
  have calls: "\<not> deletes call \<and> \<not> reuses call (mr_MessageID req)" if "(t, call) \<in> set calls" for t call
    using list_all_pairD [OF assms(4) that] .
  have slot1: "row_slot st1 a = Some m" using byID_row [OF s m(1)] by (simp add: m(2) row_slot_def)
  obtain m' where "row_slot st2 a = Some m'" "obx_Generation m \<le> obx_Generation m'"
    using outbox_server.identity_kept [OF server ok1 slot1, of calls marshal] calls by (auto simp: assms(5))
  then have gen: "mr_ExpectedGeneration req2 < obx_Generation (row st2 a)"
    using m(3) assms(7) by (auto simp: row_slot_def split: if_splits)
  have "lookup (st_outboxByID st2) (mr_MessageID req2) = Some a"
    using outbox_server.calls_byID_kept [OF server ok1, of calls "mr_MessageID req" marshal] calls m(1,2) by (simp add: assms(5,6))
  from mutation_refused [OF this gen] m(3,4) show ?thesis by simp
qed

theorem operator_credential_single_use_witness:
  "\<exists>st1 res e. OutboxRepository_RequeueDeadLetter ex_mutation 20 ex_dead = (st1, Inr res)
    \<and> mres_Generation res = 2 \<and> OutboxRepository_DiscardDeadLetter ex_mutation 21 st1 = (st1, Inl e)"
proof -
  obtain st1 res where r: "OutboxRepository_RequeueDeadLetter ex_mutation 20 ex_dead = (st1, Inr res)"
    by (simp add: OutboxRepository_RequeueDeadLetter_def ex_mutation_valid ex_mutation_fields ex_mutation_target Let_def)
  from operator_credential_single_use [OF isort.sort_slice_axioms outbox_ok_ex_dead disjI1 [OF r],
      where calls = "[]" and ?req2.0 = ex_mutation and ?st2.0 = st1 and t = 21] r
  show ?thesis by (auto simp: ex_mutation_def)
qed

end
