(* ===== verification/Mem_Retention_Events.thy ===== *)
theory Mem_Retention_Events
  imports Mem_Outbox_Props
begin

section \<open>Retention rounds, dead-letter pages and the event log\<close>

text \<open>
  What a retention round deletes and what it may not touch; that an operator walking the
  dead-letter pages sees every dead letter once, in order; that appending an event writes the
  event and its delivery together; and that a reader of the event log resumes without a gap.
\<close>

subsection \<open>Retention\<close>

lemma terminal_old_DryRun [simp]: "terminal_old (req\<lparr>rs_DryRun := b\<rparr>) now m = terminal_old req now m"
  by (simp add: terminal_old_def)

lemma victims_DryRun [simp]:
  "delivered_victims srt (req\<lparr>rs_DryRun := b\<rparr>) now st = delivered_victims srt req now st"
  "discarded_victims srt (req\<lparr>rs_DryRun := b\<rparr>) budget now st = discarded_victims srt req budget now st"
  "RetentionSweepRequest_Validate (req\<lparr>rs_DryRun := b\<rparr>) = RetentionSweepRequest_Validate req"
  by (simp_all add: delivered_victims_def discarded_victims_def RetentionSweepRequest_Validate_def)

lemma sweep_DryRun [simp]:
  "sweep_victims srt (req\<lparr>rs_DryRun := b\<rparr>) now st = sweep_victims srt req now st"
  by (simp add: sweep_victims_def)

lemma victims_complete:
  assumes "sort_slice srt" and "a \<in> set (st_outbox st)" and "obx_Status (row st a) = status"
    and "at (row st a) = Some t" and "t \<le> cutoff - horizon"
  shows "a \<in> set (selectRetentionVictims srt status at cutoff horizon st)"
  using assms(2-5)
  by (simp add: selectRetentionVictims_def sort_slice.set_srt [OF assms(1) strict_weak_victim_before] Let_def)

lemma sweep_victims_complete:
  assumes "sort_slice srt" and "sweep_victims srt req now st = (dv, dc)"
    and "int (length (dv @ dc)) < rs_Limit req" and "a \<in> set (st_outbox st)" and "terminal_old req now (row st a)"
  shows "a \<in> set (dv @ dc)"
proof -
  let ?D = "selectRetentionVictims srt OutboxDelivered obx_DeliveredAt now (rs_DeliveredOlderThan req) st"
  let ?C = "selectRetentionVictims srt OutboxDiscarded obx_DiscardedAt now (rs_DiscardedOlderThan req) st"
  have v: "dv = delivered_victims srt req now st" "dc = discarded_victims srt req (rs_Limit req - int (length dv)) now st"
    using assms(2) by (auto simp: sweep_victims_def Let_def)
  have small: "int (length dv) < rs_Limit req" using assms(3) by simp
  have "dv = ?D" if "rs_DeliveredOlderThan req > 0"
  proof -
    have eq: "dv = take (nat (min (rs_Limit req) (int (length ?D)))) ?D"
      using v(1) that by (simp add: delivered_victims_def Let_def)
    then have "length dv = min (nat (min (rs_Limit req) (int (length ?D)))) (length ?D)" by simp
    then have "int (length ?D) < rs_Limit req" using small by linarith
    then show ?thesis using eq by simp
  qed
  moreover have "dc = ?C" if "rs_DiscardedOlderThan req > 0"
  proof -
    have eq: "dc = (if int (length ?C) > rs_Limit req - int (length dv) then take (nat (rs_Limit req - int (length dv))) ?C else ?C)"
      using v(2) that small by (simp add: discarded_victims_def Let_def)
    have "int (length dc) < rs_Limit req - int (length dv)" using assms(3) by simp
    then show ?thesis using eq by (auto split: if_splits)
  qed
  ultimately show ?thesis
    using assms(5) victims_complete [OF assms(1,4)] by (auto simp: terminal_old_def)
qed

text \<open>
  C22: a retention round is bounded, safe and complete, and its preview is exact. The dry run
  reports what the real round does and changes nothing; the round deletes at most the limit,
  exactly the reported number of rows, and only delivered or discarded rows past their
  horizon; the rows it keeps, the events and the audit log are untouched; and when it stays
  under its limit no eligible row is left.
\<close>

theorem sweep_safe_bounded_complete:
  assumes "sort_slice srt" and "outbox_ok st"
    and sweep: "OutboxRepository_SweepRetention srt (req\<lparr>rs_DryRun := False\<rparr>) now st = (st', Inr res)"
  shows "OutboxRepository_SweepRetention srt (req\<lparr>rs_DryRun := True\<rparr>) now st = (st, Inr res)
    \<and> rr_DeletedDelivered res + rr_DeletedDiscarded res \<le> rs_Limit req
    \<and> int (length (st_outbox st)) = int (length (st_outbox st')) + rr_DeletedDelivered res + rr_DeletedDiscarded res
    \<and> (\<forall>a \<in> set (st_outbox st) - set (st_outbox st'). terminal_old req now (row st a))
    \<and> (\<forall>a. row st' a = row st a) \<and> st_events st' = st_events st \<and> st_auditLog st' = st_auditLog st
    \<and> (rr_DeletedDelivered res + rr_DeletedDiscarded res < rs_Limit req \<longrightarrow>
         (\<forall>a \<in> set (st_outbox st'). \<not> terminal_old req now (row st a)))"
proof -
  have s: "struct_ok st" using assms(2) by (simp add: outbox_ok_def)
  obtain dv dc where v: "sweep_victims srt req now st = (dv, dc)" by (cases "sweep_victims srt req now st")
  have valid: "RetentionSweepRequest_Validate req = Inr ()"
    using sweep by (auto simp: OutboxRepository_SweepRetention_def split: sum.splits)
  have res: "res = \<lparr>rr_Cutoff = now, rr_DeletedDelivered = int (length dv), rr_DeletedDiscarded = int (length dc)\<rparr>"
    and st': "st' = (forget st (dv @ dc))\<lparr>st_outbox := filter (\<lambda>a. a \<notin> set (dv @ dc)) (st_outbox st)\<rparr>"
    using sweep by (simp_all add: OutboxRepository_SweepRetention_def valid v Let_def)
  note P = sweep_victims_props [OF assms(1) s v]
  have r: "row (x\<lparr>st_outbox := xs\<rparr>) = row x" for x xs by (simp add: row_def fun_eq_iff)
  have kept: "st_outbox st' = filter (\<lambda>a. a \<notin> set (dv @ dc)) (st_outbox st)" by (simp add: st')
  have "OutboxRepository_SweepRetention srt (req\<lparr>rs_DryRun := True\<rparr>) now st = (st, Inr res)"
    by (simp add: OutboxRepository_SweepRetention_def valid v res Let_def)
  moreover have "rr_DeletedDelivered res + rr_DeletedDiscarded res \<le> rs_Limit req"
    using P(3) [OF valid] by (simp add: res)
  moreover have "length (st_outbox st) = length (st_outbox st') + length (dv @ dc)"
  proof -
    have "set (filter (\<lambda>a. a \<in> set (dv @ dc)) (st_outbox st)) = set (dv @ dc)" using P(2) by auto
    moreover have "distinct (filter (\<lambda>a. a \<in> set (dv @ dc)) (st_outbox st))" using s by (simp add: struct_ok_def)
    ultimately have "length (filter (\<lambda>a. a \<in> set (dv @ dc)) (st_outbox st)) = length (dv @ dc)"
      using P(1) by (metis distinct_card)
    then show ?thesis using sum_length_filter_compl [of "\<lambda>a. a \<in> set (dv @ dc)" "st_outbox st"] by (simp add: kept)
  qed
  then have "int (length (st_outbox st)) = int (length (st_outbox st')) + rr_DeletedDelivered res + rr_DeletedDiscarded res"
    by (simp add: res)
  moreover have "\<forall>a \<in> set (st_outbox st) - set (st_outbox st'). terminal_old req now (row st a)"
    using P(2) unfolding kept by auto
  moreover have "(\<forall>a. row st' a = row st a) \<and> st_events st' = st_events st \<and> st_auditLog st' = st_auditLog st"
    by (simp add: st' r)
  moreover have "\<forall>a \<in> set (st_outbox st'). \<not> terminal_old req now (row st a)"
    if "rr_DeletedDelivered res + rr_DeletedDiscarded res < rs_Limit req"
    using sweep_victims_complete [OF assms(1) v] that unfolding kept by (auto simp: res)
  ultimately show ?thesis by blast
qed

definition ex_sweep :: RetentionSweepRequest where
  "ex_sweep = \<lparr>rs_DeliveredOlderThan = 5, rs_DiscardedOlderThan = 5, rs_Limit = 10, rs_DryRun = False\<rparr>"

theorem sweep_safe_bounded_complete_witness:
  "\<exists>st' res. OutboxRepository_SweepRetention insertion_sort (ex_sweep\<lparr>rs_DryRun := False\<rparr>) 100 ex_outbox = (st', Inr res)
    \<and> rr_DeletedDelivered res + rr_DeletedDiscarded res \<le> 10"
proof -
  obtain st' res where w: "OutboxRepository_SweepRetention insertion_sort (ex_sweep\<lparr>rs_DryRun := False\<rparr>) 100 ex_outbox = (st', Inr res)"
    by (cases "sweep_victims insertion_sort ex_sweep 100 ex_outbox")
      (simp add: OutboxRepository_SweepRetention_def RetentionSweepRequest_Validate_def MaxRetentionSweepBatch_def ex_sweep_def Let_def)
  from sweep_safe_bounded_complete [OF isort.sort_slice_axioms outbox_ok_ex_outbox w] w show ?thesis
    by (auto simp: ex_sweep_def)
qed

subsection \<open>Dead-letter pages\<close>

definition dl_rank :: "DeadLetterSummary \<Rightarrow> Time \<times> string" where
  "dl_rank d = (dl_CreatedAt d, dl_ID d)"

text \<open>The tenant's dead letters in page order, and what a cursor leaves to read.\<close>

definition dead_letters :: "addr_sort \<Rightarrow> string \<Rightarrow> storeState \<Rightarrow> DeadLetterSummary list" where
  "dead_letters srt tn st = map (\<lambda>a. deadLetterSummary (row st a)) (srt (dead_before st)
     (filter (\<lambda>a. obx_Status (row st a) = OutboxDead \<and> obx_TenantID (row st a) = tn) (st_outbox st)))"

definition dead_after :: "addr_sort \<Rightarrow> ListDeadLettersRequest \<Rightarrow> storeState \<Rightarrow> DeadLetterSummary list" where
  "dead_after srt req st =
     filter (\<lambda>d. \<not> afterKeyset (dl_CreatedAt d) (dl_ID d) (ldl_AfterCreatedAt req) (ldl_AfterID req))
       (dead_letters srt (ldl_TenantID req) st)"

definition ids_distinct :: "storeState \<Rightarrow> bool" where
  "ids_distinct st \<longleftrightarrow> inj_on (\<lambda>a. obx_ID (row st a)) (set (st_outbox st))"

lemma dead_before_rank:
  "dead_before st a b \<longleftrightarrow> (obx_CreatedAt (row st a), obx_ID (row st a)) < (obx_CreatedAt (row st b), obx_ID (row st b))"
  by (auto simp: dead_before_def)

lemma strict_weak_dead_before: "strict_weak (dead_before st)"
  by (rule strict_weakI_key) (rule dead_before_rank)

lemma afterKeyset_rank:
  "(afterID, afterAt) \<noteq> ([], 0) \<Longrightarrow> afterKeyset createdAt ident afterAt afterID \<longleftrightarrow> (createdAt, ident) \<le> (afterAt, afterID)"
  by (auto simp: afterKeyset_def)

lemma dead_loop_eq:
  "int (length out) < ldl_Limit req \<Longrightarrow> dead_loop req out ms =
     out @ take (nat (ldl_Limit req) - length out)
       (filter (\<lambda>d. \<not> afterKeyset (dl_CreatedAt d) (dl_ID d) (ldl_AfterCreatedAt req) (ldl_AfterID req))
         (map deadLetterSummary ms))"
proof (induction req out ms rule: dead_loop.induct)
  case (2 req out m ms)
  have f: "dl_CreatedAt (deadLetterSummary m) = obx_CreatedAt m" "dl_ID (deadLetterSummary m) = obx_ID m"
    by (simp_all add: deadLetterSummary_def)
  show ?case
  proof (cases "afterKeyset (obx_CreatedAt m) (obx_ID m) (ldl_AfterCreatedAt req) (ldl_AfterID req)")
    case True
    then show ?thesis using 2 f by simp
  next
    case False
    have n: "nat (ldl_Limit req) - length out = Suc (nat (ldl_Limit req) - Suc (length out))"
      using "2.prems" by simp
    show ?thesis
    proof (cases "int (length (out @ [deadLetterSummary m])) \<ge> ldl_Limit req")
      case True
      then have "nat (ldl_Limit req) - Suc (length out) = 0" by simp
      then show ?thesis using True False f n by simp
    next
      case limit: False
      then show ?thesis using "2.IH"(2) False f n by simp
    qed
  qed
qed simp

lemma ListDeadLetters_eq:
  assumes "ListDeadLettersRequest_Validate req = Inr ()"
  shows "OutboxRepository_ListDeadLetters srt req st = Inr (take (nat (ldl_Limit req)) (dead_after srt req st))"
proof -
  have "0 < ldl_Limit req"
    using assms by (auto simp: ListDeadLettersRequest_Validate_def split: if_splits)
  then show ?thesis
    using assms dead_loop_eq [of "[]" req]
    by (simp add: OutboxRepository_ListDeadLetters_def dead_after_def dead_letters_def Let_def comp_def)
qed

lemma dead_letters_sorted:
  assumes "sort_slice srt" and "struct_ok st" and "ids_distinct st"
  shows "sorted_wrt (\<lambda>a b. dl_rank a < dl_rank b) (dead_letters srt tn st)"
proof -
  let ?E = "filter (\<lambda>a. obx_Status (row st a) = OutboxDead \<and> obx_TenantID (row st a) = tn) (st_outbox st)"
  let ?f = "\<lambda>a. (obx_CreatedAt (row st a), obx_ID (row st a))"
  have "sorted (map ?f (srt (dead_before st) ?E))"
    using sort_slice.ordered [OF assms(1) strict_weak_dead_before, of st ?E]
    by (simp only: sorted_map dead_before_rank not_less)
  moreover have "distinct (map ?f (srt (dead_before st) ?E))"
  proof -
    have "distinct (srt (dead_before st) ?E)"
      using assms(2) by (simp add: sort_slice.distinct_srt [OF assms(1) strict_weak_dead_before] struct_ok_def)
    moreover have "inj_on ?f (set (srt (dead_before st) ?E))"
      using assms(3) by (auto simp: sort_slice.set_srt [OF assms(1) strict_weak_dead_before] ids_distinct_def inj_on_def)
    ultimately show ?thesis by (simp add: distinct_map)
  qed
  ultimately have "sorted_wrt (<) (map ?f (srt (dead_before st) ?E))" by (simp add: strict_sorted_iff)
  then show ?thesis
    by (simp add: sorted_wrt_map dead_letters_def dl_rank_def deadLetterSummary_def)
qed

text \<open>
  Dead-letter pages. A page holds the first letters after its cursor in (creation time,
  id) order; the request that carries the page's last letter as its cursor returns exactly the
  letters that follow it: walking the pages shows every dead letter of the tenant once.
\<close>

theorem dead_letter_pages_resume:
  assumes "sort_slice srt" and "outbox_ok st" and "ids_distinct st"
    and "OutboxRepository_ListDeadLetters srt req st = Inr p1" and "p1 \<noteq> []" and "dl_ID (last p1) \<noteq> []"
    and "ListDeadLettersRequest_Validate req2 = Inr ()"
    and "ldl_TenantID req2 = ldl_TenantID req" and "ldl_AfterCreatedAt req2 = dl_CreatedAt (last p1)"
    and "ldl_AfterID req2 = dl_ID (last p1)"
  shows "p1 = take (nat (ldl_Limit req)) (dead_after srt req st)
    \<and> OutboxRepository_ListDeadLetters srt req2 st = Inr (take (nat (ldl_Limit req2)) (drop (length p1) (dead_after srt req st)))"
proof -
  have s: "struct_ok st" using assms(2) by (simp add: outbox_ok_def)
  have v: "ListDeadLettersRequest_Validate req = Inr ()"
    using assms(4) by (auto simp: OutboxRepository_ListDeadLetters_def)
  have p1: "p1 = take (nat (ldl_Limit req)) (dead_after srt req st)"
    using assms(4) by (simp add: ListDeadLetters_eq [OF v])
  let ?L = "dead_letters srt (ldl_TenantID req) st"
  have "sorted_wrt (\<lambda>a b. dl_rank a < dl_rank b) (dead_after srt req st)"
    unfolding dead_after_def by (rule sorted_wrt_filter) (rule dead_letters_sorted [OF assms(1) s assms(3)])
  from take_resume [OF this, of "nat (ldl_Limit req)"] assms(5)
  have rest: "filter (\<lambda>d. dl_rank (last p1) < dl_rank d) (dead_after srt req st) = drop (nat (ldl_Limit req)) (dead_after srt req st)"
    by (simp add: p1)
  have "last p1 \<in> set (dead_after srt req st)"
    using last_in_set [OF assms(5)] p1 by (metis in_set_takeD)
  then have cursor: "\<not> afterKeyset (dl_CreatedAt (last p1)) (dl_ID (last p1)) (ldl_AfterCreatedAt req) (ldl_AfterID req)"
    by (simp add: dead_after_def)
  have "\<not> afterKeyset (dl_CreatedAt d) (dl_ID d) (ldl_AfterCreatedAt req) (ldl_AfterID req)"
    if "dl_rank (last p1) < dl_rank d" for d
    using cursor that by (auto simp: afterKeyset_def dl_rank_def split: if_splits)
  then have "dead_after srt req2 st = filter (\<lambda>d. dl_rank (last p1) < dl_rank d) (dead_after srt req st)"
    using assms(6) unfolding dead_after_def assms(8-10) filter_filter
    by (intro filter_cong) (auto simp: afterKeyset_rank dl_rank_def not_le)
  also have "\<dots> = drop (length p1) (dead_after srt req st)"
    unfolding rest by (auto simp: p1 min_def)
  finally show ?thesis using p1 by (simp add: ListDeadLetters_eq [OF assms(7)])
qed

definition ex_page :: "Time \<Rightarrow> string \<Rightarrow> ListDeadLettersRequest" where
  "ex_page at i = \<lparr>ldl_TenantID = ex_tenant, ldl_AfterCreatedAt = at, ldl_AfterID = i, ldl_Limit = 5\<rparr>"

lemma ex_page_fields:
  "ldl_TenantID (ex_page at i) = ex_tenant" "ldl_AfterCreatedAt (ex_page at i) = at" "ldl_AfterID (ex_page at i) = i"
  by (simp_all add: ex_page_def)

lemma ex_page_valid: "ListDeadLettersRequest_Validate (ex_page at i) = Inr ()"
  using ex_mutation_valid
  by (auto simp: ListDeadLettersRequest_Validate_def ex_page_def MaxDeadLetterPageSize_def
      OutboxMutationRequest_Validate_def ex_mutation_fields)

lemma ex_dead_after: "dead_after insertion_sort (ex_page 0 []) ex_dead = [deadLetterSummary (row ex_dead 0)]"
  by (simp add: dead_after_def dead_letters_def ex_page_def afterKeyset_def ex_dead_row failRow_def leaseRow_def
      new_row_def Let_def)

theorem dead_letter_pages_resume_witness:
  "OutboxRepository_ListDeadLetters insertion_sort (ex_page 0 ''m1'') ex_dead = Inr []"
proof -
  have p: "OutboxRepository_ListDeadLetters insertion_sort (ex_page 0 []) ex_dead = Inr [deadLetterSummary (row ex_dead 0)]"
    unfolding ListDeadLetters_eq [OF ex_page_valid] ex_dead_after by (simp add: ex_page_def)
  have f: "dl_ID (deadLetterSummary (row ex_dead 0)) = ''m1''" "dl_CreatedAt (deadLetterSummary (row ex_dead 0)) = 0"
    by (simp_all add: deadLetterSummary_def ex_dead_row failRow_def leaseRow_def new_row_def Let_def)
  from dead_letter_pages_resume [OF isort.sort_slice_axioms outbox_ok_ex_dead _ p _ _ ex_page_valid, of 0 "''m1''"] f
  show ?thesis by (simp add: ids_distinct_def ex_dead_after ex_page_fields)
qed

subsection \<open>The event log\<close>

definition events_ok :: "storeState \<Rightarrow> bool" where
  "events_ok st \<longleftrightarrow> sorted_wrt (\<lambda>a b. event_Seq a < event_Seq b) (st_events st)
     \<and> (\<forall>e \<in> set (st_events st). event_Seq e \<le> st_eventSeq st)"

lemma alloc_row_events [simp]:
  "st_events (alloc_row m st) = st_events st" "st_eventSeq (alloc_row m st) = st_eventSeq st"
  by (simp_all add: alloc_row_def Let_def)

lemma Append_ok:
  assumes "EventRepository_Append marshal evt now st = (st', Inr evt')"
  shows "evt' = evt\<lparr>event_Seq := st_eventSeq st + 1\<rparr>" and "st_events st' = st_events st @ [evt']"
    and "st_eventSeq st' = st_eventSeq st + 1"
  using assms by (auto simp: EventRepository_Append_def Let_def split: sum.splits)

lemma Append_keeps_events_ok:
  assumes "events_ok st"
  shows "events_ok (fst (EventRepository_Append marshal evt now st))"
  using assms
  by (auto simp: events_ok_def EventRepository_Append_def Let_def sorted_wrt_append split: sum.splits)

text \<open>
  The dual write. A successful append adds the event at the end of the log with the next
  sequence number and leaves exactly one outbox row for it, reachable under the event's
  deduplication key; a new one is pending, unattempted, available at once and carries the
  serialised event. If serialisation fails, neither the log nor the outbox changes.
\<close>

theorem Append_dual_write:
  assumes "outbox_ok st" and "EventRepository_Append marshal evt now st = (st', r)"
  shows "case r of
      Inl e \<Rightarrow> st_events st' = st_events st \<and> row_slot st' = row_slot st
    | Inr evt' \<Rightarrow> event_Seq evt' = st_eventSeq st + 1 \<and> st_events st' = st_events st @ [evt']
        \<and> (\<exists>a envelope. lookup (st_outboxByDedup st') (''event:'' @ event_ID evt) = Some a \<and> marshal evt' = Inr envelope
            \<and> (lookup (st_outboxByDedup st) (''event:'' @ event_ID evt) = None \<longrightarrow>
                row st' a = new_row (''obx_'' @ event_ID evt) (''event:'' @ event_ID evt) (event_TenantID evt) envelope
                  (st_outboxMaxAttempts st) now))"
proof (cases r)
  case (Inl e)
  have "st' = st\<lparr>st_eventSeq := st_eventSeq st + 1\<rparr>"
    using assms(2) Inl by (auto simp: EventRepository_Append_def Let_def split: sum.splits)
  then show ?thesis using Inl by (simp add: row_slot_def row_def fun_eq_iff)
next
  case (Inr evt')
  define st1 where "st1 = st\<lparr>st_eventSeq := st_eventSeq st + 1\<rparr>"
  obtain envelope where m: "marshal evt' = Inr envelope"
    using assms(2) Inr by (auto simp: EventRepository_Append_def Let_def split: sum.splits)
  note A = Append_ok [OF assms(2) [unfolded Inr]]
  have "\<exists>a. lookup (st_outboxByDedup st') (''event:'' @ event_ID evt) = Some a
      \<and> (lookup (st_outboxByDedup st) (''event:'' @ event_ID evt) = None \<longrightarrow>
          row st' a = new_row (''obx_'' @ event_ID evt) (''event:'' @ event_ID evt) (event_TenantID evt) envelope
            (st_outboxMaxAttempts st) now)"
    using assms(2) Inr m A(1)
    by (auto simp: EventRepository_Append_def Let_def alloc_row_def row_def new_row_def split: if_splits)
  then show ?thesis using Inr A m by auto
qed

definition ex_event :: "string \<Rightarrow> Event" where
  "ex_event i = \<lparr>event_ID = i, event_Type = EventRunStarted, event_OccurredAt = 0, event_TenantID = ''t'',
     event_AggregateType = [], event_AggregateID = [], event_AggregateVersion = 0,
     event_Actor = zero_Actor, event_TraceID = [], event_Seq = 0, event_RunID = [], event_Data = []\<rparr>"

theorem Append_dual_write_witness:
  "\<exists>st' evt'. EventRepository_Append (\<lambda>e. Inr (event_ID e)) (ex_event ''e1'') 3 (empty_store 5) = (st', Inr evt')
    \<and> event_Seq evt' = 1 \<and> st_events st' = [evt'] \<and> lookup (st_outboxByDedup st') ''event:e1'' \<noteq> None"
proof -
  obtain st' evt' where e: "EventRepository_Append (\<lambda>e. Inr (event_ID e)) (ex_event ''e1'') 3 (empty_store 5) = (st', Inr evt')"
    by (simp add: EventRepository_Append_def Let_def)
  from Append_dual_write [OF outbox_ok_ex_empty e] e show ?thesis
    by (auto simp: empty_store_def ex_event_def)
qed

lemma ListByTenant_eq:
  "EventRepository_ListByTenant tn after limit st =
     Inr (page limit (filter (\<lambda>e. event_Seq e > after) (filter (\<lambda>e. event_TenantID e = tn) (st_events st))))"
  by (simp add: EventRepository_ListByTenant_def page_loop_page not_le conj_commute)

text \<open>
  The event log resumes without gaps. A reader holds a page of a tenant's events; other
  events are appended. Reading on from the last sequence number of the page gives, after the
  page, the rest of the old events of the tenant and then the new event: nothing is skipped or
  repeated.
\<close>

theorem event_log_resumes:
  assumes "events_ok st" and "EventRepository_ListByTenant tn after limit st = Inr p1" and "p1 \<noteq> []"
    and "EventRepository_Append marshal evt now st = (st', Inr evt')" and "event_TenantID evt = tn"
  shows "\<exists>p2 all. EventRepository_ListByTenant tn after 0 st = Inr all
    \<and> EventRepository_ListByTenant tn (event_Seq (last p1)) 0 st' = Inr p2
    \<and> p1 @ p2 = all @ [evt'] \<and> events_ok st'"
proof -
  note A = Append_ok [OF assms(4)]
  let ?T = "filter (\<lambda>e. event_TenantID e = tn) (st_events st)"
  let ?all = "filter (\<lambda>e. event_Seq e > after) ?T"
  have p1: "p1 = page limit ?all" using assms(2) by (simp add: ListByTenant_eq)
  have "sorted_wrt (\<lambda>a b. event_Seq a < event_Seq b) ?T"
    using assms(1) by (simp add: events_ok_def sorted_wrt_filter)
  from page_resume [OF this, of limit after] assms(3)
  have resume: "p1 @ filter (\<lambda>e. event_Seq e > event_Seq (last p1)) ?T = ?all" by (simp add: p1)
  have "set p1 \<subseteq> set (st_events st)"
    by (auto simp: p1 page_def dest: in_set_takeD split: if_splits)
  then have "event_Seq (last p1) \<le> st_eventSeq st"
    using last_in_set [OF assms(3)] assms(1) by (auto simp: events_ok_def)
  then have "EventRepository_ListByTenant tn (event_Seq (last p1)) 0 st'
      = Inr (filter (\<lambda>e. event_Seq e > event_Seq (last p1)) ?T @ [evt'])"
    using assms(5) by (simp add: ListByTenant_eq page_def A)
  moreover have "EventRepository_ListByTenant tn after 0 st = Inr ?all" by (simp add: ListByTenant_eq page_def)
  moreover have "events_ok st'" using Append_keeps_events_ok [OF assms(1), of marshal evt now] assms(4) by simp
  moreover have "p1 @ filter (\<lambda>e. event_Seq e > event_Seq (last p1)) ?T @ [evt'] = ?all @ [evt']"
    using resume by (metis append_assoc)
  ultimately show ?thesis by blast
qed

theorem event_log_resumes_witness:
  "\<exists>st1 e1 st2 e2. EventRepository_Append (\<lambda>_. Inr []) (ex_event ''e1'') 3 (empty_store 5) = (st1, Inr e1)
    \<and> EventRepository_Append (\<lambda>_. Inr []) (ex_event ''e2'') 3 st1 = (st2, Inr e2)
    \<and> EventRepository_ListByTenant ''t'' 1 0 st2 = Inr [e2]"
proof -
  obtain st1 e1 where 1: "EventRepository_Append (\<lambda>_. Inr []) (ex_event ''e1'') 3 (empty_store 5) = (st1, Inr e1)"
    by (simp add: EventRepository_Append_def Let_def)
  obtain st2 e2 where 2: "EventRepository_Append (\<lambda>_. Inr []) (ex_event ''e2'') 3 st1 = (st2, Inr e2)"
    by (simp add: EventRepository_Append_def Let_def)
  have ok: "events_ok st1"
    using Append_keeps_events_ok [of "empty_store 5" "\<lambda>_. Inr []" "ex_event ''e1''" 3] 1
    by (simp add: events_ok_def empty_store_def)
  have e1: "st_events st1 = [e1]" "event_Seq e1 = 1" "event_TenantID e1 = ''t''"
    using Append_ok [OF 1] by (simp_all add: empty_store_def ex_event_def)
  then have p: "EventRepository_ListByTenant ''t'' 0 1 st1 = Inr [e1]" by (simp add: ListByTenant_eq page_def)
  from event_log_resumes [OF ok p _ 2] e1 1 2 show ?thesis
    by (auto simp: ex_event_def ListByTenant_eq page_def)
qed

end
