(* ===== verification/Mem_Transactor.thy ===== *)
theory Mem_Transactor
  imports Mem_Retention_Events Mem_Claim_Laws
begin

section \<open>Units of work (internal/store/memory/transactor.go, snapshot.go, clones.go)\<close>

text \<open>
  \<^verbatim>\<open>Do\<close> (theory World) copies every collection, runs the function on the live state and
  puts the copy back when the function fails or panics; this theory has the copy and its laws. Entities are values here, so cloning one is the
  identity; an outbox row is cloned to a fresh heap address, once per row, and the two indexes of
  the copy point to those clones.
\<close>

subsection \<open>Backup and restore\<close>

record stateBackup =
  bk_tenants :: "(string, Tenant) gomap"
  bk_tenantSlugs :: "(string, string) gomap"
  bk_projects :: "(string, Project) gomap"
  bk_threads :: "(string, Thread) gomap"
  bk_messages :: "(string, Message list) gomap"
  bk_specs :: "(string, Spec) gomap"
  bk_tasks :: "(string, Task) gomap"
  bk_runs :: "(string, Run) gomap"
  bk_runIdemKeys :: "(idemKey, string) gomap"
  bk_runSeqs :: "(string, int) gomap"
  bk_workspaces :: "(string, Workspace) gomap"
  bk_artifacts :: "(string, Artifact) gomap"
  bk_auditLog :: "AuditEvent list"
  bk_policyByRun :: "(string, PolicyDecision list) gomap"
  bk_integrations :: "(string, IntegrationConnection) gomap"
  bk_events :: "Event list"
  bk_outbox :: "addr list"
  bk_outboxByID :: "(string, addr) gomap"
  bk_outboxByDedup :: "(string, addr) gomap"
  bk_runClaims :: "(string, RunClaim) gomap"
  bk_eventSeq :: int

definition clone_addrs :: "storeState \<Rightarrow> addr list" where
  "clone_addrs st = [st_next st ..< st_next st + length (st_outbox st)]"

definition cloneOf :: "storeState \<Rightarrow> addr \<Rightarrow> addr option" where
  "cloneOf st = map_of (rev (zip (st_outbox st) (clone_addrs st)))"

definition clone_rows :: "storeState \<Rightarrow> storeState" where
  "clone_rows st =
     st\<lparr>st_heap := (\<lambda>a. if a \<in> set (clone_addrs st) then st_heap st (st_outbox st ! (a - st_next st)) else st_heap st a),
        st_next := st_next st + length (st_outbox st)\<rparr>"

definition clone_index :: "storeState \<Rightarrow> (string, addr) gomap \<Rightarrow> (string, addr) gomap option" where
  "clone_index st m =
     (if list_ex (\<lambda>(k, v). cloneOf st v = None) m then None
      else Some (map (\<lambda>(k, v). (k, the (cloneOf st v))) m))"

definition backup :: "stateBackup store_op" where
  "backup st =
     (case clone_index st (st_outboxByID st) of None \<Rightarrow> (clone_rows st, Inl Panic) | Some byID \<Rightarrow>
      (case clone_index st (st_outboxByDedup st) of None \<Rightarrow> (clone_rows st, Inl Panic) | Some byDedup \<Rightarrow>
       (clone_rows st, Inr
         \<lparr>bk_tenants = st_tenants st, bk_tenantSlugs = st_tenantSlugs st, bk_projects = st_projects st,
          bk_threads = st_threads st, bk_messages = st_messages st, bk_specs = st_specs st,
          bk_tasks = st_tasks st, bk_runs = st_runs st, bk_runIdemKeys = st_runIdemKeys st,
          bk_runSeqs = st_runSeqs st, bk_workspaces = st_workspaces st, bk_artifacts = st_artifacts st,
          bk_auditLog = st_auditLog st, bk_policyByRun = st_policyByRun st,
          bk_integrations = st_integrations st, bk_events = st_events st, bk_outbox = clone_addrs st,
          bk_outboxByID = byID, bk_outboxByDedup = byDedup, bk_runClaims = st_runClaims st,
          bk_eventSeq = st_eventSeq st\<rparr>)))"

definition restore :: "stateBackup \<Rightarrow> storeState \<Rightarrow> storeState" where
  "restore b st =
     st\<lparr>st_tenants := bk_tenants b, st_tenantSlugs := bk_tenantSlugs b, st_projects := bk_projects b,
        st_threads := bk_threads b, st_messages := bk_messages b, st_specs := bk_specs b,
        st_tasks := bk_tasks b, st_runs := bk_runs b, st_runIdemKeys := bk_runIdemKeys b,
        st_runSeqs := bk_runSeqs b, st_workspaces := bk_workspaces b, st_artifacts := bk_artifacts b,
        st_auditLog := bk_auditLog b, st_policyByRun := bk_policyByRun b,
        st_integrations := bk_integrations b, st_events := bk_events b, st_outbox := bk_outbox b,
        st_outboxByID := bk_outboxByID b, st_outboxByDedup := bk_outboxByDedup b,
        st_runClaims := bk_runClaims b, st_eventSeq := bk_eventSeq b\<rparr>"

subsection \<open>What a caller can observe\<close>

text \<open>
  Addresses are not observable, only the sharing they express. \<open>view\<close> replaces each address by
  the position of its row in the slice and reads the rows off.
\<close>

definition idx :: "addr list \<Rightarrow> addr \<Rightarrow> nat" where
  "idx as a = length (takeWhile (\<lambda>b. b \<noteq> a) as)"

definition view :: "storeState \<Rightarrow> storeState \<times> outboxMessage list" where
  "view st =
     (st\<lparr>st_heap := (\<lambda>_. no_row), st_next := 0, st_outbox := map (idx (st_outbox st)) (st_outbox st),
         st_outboxByID := map (\<lambda>(k, a). (k, idx (st_outbox st) a)) (st_outboxByID st),
         st_outboxByDedup := map (\<lambda>(k, a). (k, idx (st_outbox st) a)) (st_outboxByDedup st)\<rparr>,
      map (row st) (st_outbox st))"

text \<open>
  What every operation of the store respects: it keeps the structural invariant, writes only
  rows that are in the slice or new, and puts only such rows in the slice. Rows a backup holds
  are neither.
\<close>

definition unit_frame :: "storeState \<Rightarrow> storeState \<Rightarrow> bool" where
  "unit_frame st st' \<longleftrightarrow> (struct_ok st \<longrightarrow> struct_ok st' \<and> st_next st \<le> st_next st'
     \<and> (\<forall>a. a < st_next st \<longrightarrow> a \<notin> set (st_outbox st) \<longrightarrow> st_heap st' a = st_heap st a)
     \<and> (\<forall>a \<in> set (st_outbox st'). a \<in> set (st_outbox st) \<or> st_next st \<le> a)
     \<and> st_outboxMaxAttempts st' = st_outboxMaxAttempts st)"

lemma transp_unit_frame: "transp unit_frame"
proof (rule transpI)
  fix x y z assume 1: "unit_frame x y" and 2: "unit_frame y z"
  show "unit_frame x z"
    unfolding unit_frame_def
  proof (intro impI)
    assume x: "struct_ok x"
    note F1 = 1 [unfolded unit_frame_def, rule_format, OF x]
    then have y: "struct_ok y" by blast
    note F2 = 2 [unfolded unit_frame_def, rule_format, OF y]
    have "st_heap z a = st_heap x a" if "a < st_next x" "a \<notin> set (st_outbox x)" for a
      using F1 F2 that by (metis leD order_less_le_trans)
    moreover have "a \<in> set (st_outbox x) \<or> st_next x \<le> a" if "a \<in> set (st_outbox z)" for a
      using F1 F2 that by (meson order_trans)
    ultimately show "struct_ok z \<and> st_next x \<le> st_next z
        \<and> (\<forall>a. a < st_next x \<longrightarrow> a \<notin> set (st_outbox x) \<longrightarrow> st_heap z a = st_heap x a)
        \<and> (\<forall>a \<in> set (st_outbox z). a \<in> set (st_outbox x) \<or> st_next x \<le> a)
        \<and> st_outboxMaxAttempts z = st_outboxMaxAttempts x"
      using F1 F2 order_trans [of "st_next x" "st_next y" "st_next z"] by simp
  qed
qed

subsection \<open>The frame of every repository operation\<close>

lemma frame_pure:
  "st_heap st' = st_heap st \<Longrightarrow> st_next st' = st_next st \<Longrightarrow> st_outbox st' = st_outbox st \<Longrightarrow>
   st_outboxByID st' = st_outboxByID st \<Longrightarrow> st_outboxByDedup st' = st_outboxByDedup st \<Longrightarrow>
   st_outboxMaxAttempts st' = st_outboxMaxAttempts st \<Longrightarrow> unit_frame st st'"
  by (simp add: unit_frame_def struct_cong [of st' st])

lemma frame_refl: "unit_frame st st"
  by (rule frame_pure) simp_all

lemma frame_set_row:
  assumes "lookup (st_outboxByID st) i = Some a" and "obx_ID m = obx_ID (row st a)" and "obx_DedupKey m = obx_DedupKey (row st a)"
  shows "unit_frame st (set_row a m st)"
  unfolding unit_frame_def
proof (intro impI)
  assume s: "struct_ok st"
  show "struct_ok (set_row a m st) \<and> st_next st \<le> st_next (set_row a m st)
      \<and> (\<forall>b. b < st_next st \<longrightarrow> b \<notin> set (st_outbox st) \<longrightarrow> st_heap (set_row a m st) b = st_heap st b)
      \<and> (\<forall>b \<in> set (st_outbox (set_row a m st)). b \<in> set (st_outbox st) \<or> st_next st \<le> b)
      \<and> st_outboxMaxAttempts (set_row a m st) = st_outboxMaxAttempts st"
    using struct_set_row [OF s assms(2,3)] byID_row [OF s assms(1)] by (auto simp: set_row_def)
qed

lemma frame_alloc_row:
  "lookup (st_outboxByDedup st) (obx_DedupKey m) = None \<Longrightarrow> unit_frame st (alloc_row m st)"
  using struct_alloc_row [of st m] by (auto simp: unit_frame_def alloc_row_def Let_def)

lemma op_relD: "op_rel R m \<Longrightarrow> R st (fst (m st))"
  by (simp add: op_rel_def)

lemmas entity_write_defs =
  TenantRepository_Create_def ProjectRepository_Create_def ThreadRepository_Create_def ThreadRepository_Update_def
  ThreadRepository_AppendMessage_def SpecRepository_Create_def RunRepository_Create_def RunRepository_Update_def
  TaskRepository_Create_def TaskRepository_Update_def WorkspaceRepository_Create_def WorkspaceRepository_Update_def
  ArtifactRepository_Create_def AuditRepository_Append_def PolicyDecisionRepository_Record_def
  IntegrationRepository_Create_def IntegrationRepository_Update_def

lemma entity_frames:
  "op_rel unit_frame (TenantRepository_Create t)" "op_rel unit_frame (ProjectRepository_Create p)"
  "op_rel unit_frame (ThreadRepository_Create th)" "op_rel unit_frame (ThreadRepository_Update th v)"
  "op_rel unit_frame (ThreadRepository_AppendMessage m)" "op_rel unit_frame (SpecRepository_Create sp)"
  "op_rel unit_frame (RunRepository_Create r)" "op_rel unit_frame (RunRepository_Update r v)"
  "op_rel unit_frame (TaskRepository_Create tk)" "op_rel unit_frame (TaskRepository_Update tk v)"
  "op_rel unit_frame (WorkspaceRepository_Create w)" "op_rel unit_frame (WorkspaceRepository_Update w v)"
  "op_rel unit_frame (ArtifactRepository_Create a)" "op_rel unit_frame (AuditRepository_Append ae)"
  "op_rel unit_frame (PolicyDecisionRepository_Record pd)" "op_rel unit_frame (IntegrationRepository_Create ic)"
  "op_rel unit_frame (IntegrationRepository_Update ic v)"
  by (rule op_relI; rule frame_pure;
      simp add: entity_write_defs guarded_update_def Let_def split: option.split sum.split)+

lemma claim_frames:
  "op_rel unit_frame (RunClaimRepository_Create tn k now)" "op_rel unit_frame (RunClaimRepository_Acquire lreq rnd now)"
  "op_rel unit_frame (RunClaimRepository_Heartbeat ref ext now)" "op_rel unit_frame (RunClaimRepository_Release ref now)"
  "op_rel unit_frame (RunClaimRepository_Complete ref)" "op_rel unit_frame (RunClaimRepository_CleanupTerminal tn k)"
  by (rule op_relI; rule frame_pure;
      simp add: RunClaimRepository_Create_def RunClaimRepository_Acquire_def RunClaimRepository_Heartbeat_def
        RunClaimRepository_Release_def RunClaimRepository_Complete_def RunClaimRepository_CleanupTerminal_def
        put_claim_def drop_claim_def Let_def split: option.split sum.split)+

lemma acquire_loop_frame: "unit_frame st (fst (acquire_loop owner lease now rnd out cs st))"
proof (induction cs arbitrary: rnd out st)
  case (Cons kc cs)
  have "unit_frame st (put_claim k c st)" for k c by (rule frame_pure) (simp_all add: put_claim_def)
  then have "unit_frame st (fst (acquire_loop owner lease now r o' cs (put_claim k c st)))" for k c r o'
    using Cons.IH transpD [OF transp_unit_frame] by blast
  then show ?case by (cases kc) (simp add: Let_def frame_refl split: sum.split)
qed (simp add: frame_refl)

lemma AcquireNext_frame: "op_rel unit_frame (RunClaimRepository_AcquireNext srt req rnd now)"
  by (rule op_relI) (simp add: RunClaimRepository_AcquireNext_def Let_def frame_refl acquire_loop_frame split: sum.split)

lemma outbox_frames:
  "op_rel unit_frame (OutboxRepository_Publish msg now)" "op_rel unit_frame (OutboxRepository_MarkDelivered i by now)"
  "op_rel unit_frame (OutboxRepository_FailWithBackoff i by r c now)"
  "op_rel unit_frame (OutboxRepository_RequeueDeadLetter mreq now)"
  "op_rel unit_frame (OutboxRepository_DiscardDeadLetter mreq now)"
proof -
  show "op_rel unit_frame (OutboxRepository_Publish msg now)"
    by (rule op_relI) (simp add: OutboxRepository_Publish_def frame_refl frame_alloc_row new_row_def)
  show "op_rel unit_frame (OutboxRepository_MarkDelivered i by now)"
    by (rule op_relI) (auto simp: OutboxRepository_MarkDelivered_def frame_refl leased_row_Some intro: frame_set_row split: option.split)
  show "op_rel unit_frame (OutboxRepository_FailWithBackoff i by r c now)"
    by (rule op_relI) (auto simp: OutboxRepository_FailWithBackoff_def frame_refl leased_row_Some intro: frame_set_row split: option.split)
  show "op_rel unit_frame (OutboxRepository_RequeueDeadLetter mreq now)"
    by (rule op_relI)
      (auto simp: OutboxRepository_RequeueDeadLetter_def frame_refl owned_row_Some Let_def intro: frame_set_row split: option.split sum.split)
  show "op_rel unit_frame (OutboxRepository_DiscardDeadLetter mreq now)"
    by (rule op_relI)
      (auto simp: OutboxRepository_DiscardDeadLetter_def frame_refl owned_row_Some Let_def intro: frame_set_row split: option.split sum.split)
qed

lemma event_frame: "op_rel unit_frame (EventRepository_Append marshal evt now)"
proof (rule op_relI)
  fix st :: storeState
  define st1 where "st1 = st\<lparr>st_eventSeq := st_eventSeq st + 1\<rparr>"
  have 1: "unit_frame st st1" by (rule frame_pure) (simp_all add: st1_def)
  have 2: "unit_frame st1 (alloc_row (new_row i (''event:'' @ event_ID evt) tn env mx now) st1)"
    if "lookup (st_outboxByDedup st1) (''event:'' @ event_ID evt) = None" for i tn env mx
    using that by (intro frame_alloc_row) (simp add: new_row_def)
  have 3: "unit_frame x (x\<lparr>st_events := es\<rparr>)" for x es by (rule frame_pure) simp_all
  note tr = transpD [OF transp_unit_frame]
  show "unit_frame st (fst (EventRepository_Append marshal evt now st))"
    using 1 tr [OF 1 3] tr [OF 1 tr [OF 2 3]]
    by (simp add: EventRepository_Append_def Let_def st1_def split: sum.split)
qed

lemma batch_frames:
  assumes "sort_slice srt"
  shows "op_rel unit_frame (OutboxRepository_Lease srt req now)" "op_rel unit_frame (OutboxRepository_SweepRetention srt sreq now)"
proof -
  show "op_rel unit_frame (OutboxRepository_Lease srt req now)"
  proof (rule op_relI)
    fix st :: storeState
    show "unit_frame st (fst (OutboxRepository_Lease srt req now st))"
      unfolding unit_frame_def
    proof (intro impI)
      assume s: "struct_ok st"
      note L = Lease_step(1) [OF assms s, of req now] due_rows_props(2) [OF assms s, of _ req now]
      have "st_next (fst (OutboxRepository_Lease srt req now st)) = st_next st"
        "st_outbox (fst (OutboxRepository_Lease srt req now st)) = st_outbox st"
        "st_outboxMaxAttempts (fst (OutboxRepository_Lease srt req now st)) = st_outboxMaxAttempts st"
        by (simp_all add: Lease_eq [OF assms s])
      moreover have "st_heap (fst (OutboxRepository_Lease srt req now st)) a = st_heap st a" if "a \<notin> set (st_outbox st)" for a
        using that L(2) [of a] by (auto simp: Lease_eq [OF assms s])
      ultimately show "struct_ok (fst (OutboxRepository_Lease srt req now st))
          \<and> st_next st \<le> st_next (fst (OutboxRepository_Lease srt req now st))
          \<and> (\<forall>a. a < st_next st \<longrightarrow> a \<notin> set (st_outbox st) \<longrightarrow> st_heap (fst (OutboxRepository_Lease srt req now st)) a = st_heap st a)
          \<and> (\<forall>a \<in> set (st_outbox (fst (OutboxRepository_Lease srt req now st))). a \<in> set (st_outbox st) \<or> st_next st \<le> a)
          \<and> st_outboxMaxAttempts (fst (OutboxRepository_Lease srt req now st)) = st_outboxMaxAttempts st"
        using L(1) by simp
    qed
  qed
  show "op_rel unit_frame (OutboxRepository_SweepRetention srt sreq now)"
  proof (rule op_relI)
    fix st :: storeState
    have heap: "st_heap (forget x vs) = st_heap x" for x vs by (induction x vs rule: forget.induct) simp_all
    show "unit_frame st (fst (OutboxRepository_SweepRetention srt sreq now st))"
      unfolding unit_frame_def
    proof (intro impI)
      assume s: "struct_ok st"
      show "struct_ok (fst (OutboxRepository_SweepRetention srt sreq now st))
          \<and> st_next st \<le> st_next (fst (OutboxRepository_SweepRetention srt sreq now st))
          \<and> (\<forall>a. a < st_next st \<longrightarrow> a \<notin> set (st_outbox st) \<longrightarrow> st_heap (fst (OutboxRepository_SweepRetention srt sreq now st)) a = st_heap st a)
          \<and> (\<forall>a \<in> set (st_outbox (fst (OutboxRepository_SweepRetention srt sreq now st))). a \<in> set (st_outbox st) \<or> st_next st \<le> a)
          \<and> st_outboxMaxAttempts (fst (OutboxRepository_SweepRetention srt sreq now st)) = st_outboxMaxAttempts st"
        using Sweep_step(1) [OF assms s, of sreq now]
        by (cases rule: Sweep_cases [OF assms s, of sreq now, case_names keep remove]) (simp_all add: heap)
    qed
  qed
qed

subsection \<open>Rolling back\<close>

lemma idx_nth: "distinct as \<Longrightarrow> i < length as \<Longrightarrow> idx as (as ! i) = i"
proof (induction as arbitrary: i)
  case (Cons a as)
  then show ?case by (cases i) (auto simp: idx_def nth_eq_iff_index_eq)
qed simp

lemma idx_map: "distinct as \<Longrightarrow> map (idx as) as = [0..<length as]"
  by (rule nth_equalityI) (simp_all add: idx_nth)

lemma cloneOf_nth:
  assumes "distinct (st_outbox st)" and "i < length (st_outbox st)"
  shows "cloneOf st (st_outbox st ! i) = Some (st_next st + i)"
proof -
  have "map fst (zip (st_outbox st) (clone_addrs st)) = st_outbox st" by (simp add: clone_addrs_def)
  then have d: "distinct (map fst (zip (st_outbox st) (clone_addrs st)))" using assms(1) by simp
  have "(st_outbox st ! i, st_next st + i) \<in> set (zip (st_outbox st) (clone_addrs st))"
    using assms(2) by (auto simp: set_zip clone_addrs_def)
  then show ?thesis using d by (simp add: cloneOf_def rev_map [symmetric])
qed

lemma clone_addrs_simps:
  "length (clone_addrs st) = length (st_outbox st)" "distinct (clone_addrs st)"
  "i < length (st_outbox st) \<Longrightarrow> clone_addrs st ! i = st_next st + i"
  "set (clone_addrs st) = {st_next st ..< st_next st + length (st_outbox st)}"
  by (simp_all add: clone_addrs_def)

lemma cloneOf_idx:
  assumes "distinct (st_outbox st)" and "a \<in> set (st_outbox st)"
  obtains c where "cloneOf st a = Some c" "idx (clone_addrs st) c = idx (st_outbox st) a"
proof -
  obtain i where i: "i < length (st_outbox st)" "a = st_outbox st ! i" using assms(2) by (auto simp: in_set_conv_nth)
  have "idx (clone_addrs st) (st_next st + i) = i"
    using idx_nth [OF clone_addrs_simps(2), of i st] i(1) by (simp add: clone_addrs_simps)
  then show ?thesis using that cloneOf_nth [OF assms(1) i(1)] idx_nth [OF assms(1) i(1)] i(2) by simp
qed

lemma clone_index_ok:
  assumes "distinct (st_outbox st)" and "\<And>k a. (k, a) \<in> set m \<Longrightarrow> a \<in> set (st_outbox st)"
  obtains m' where "clone_index st m = Some m'" "m' = map (\<lambda>(k, v). (k, the (cloneOf st v))) m"
    "map (\<lambda>(k, a). (k, idx (clone_addrs st) a)) m' = map (\<lambda>(k, a). (k, idx (st_outbox st) a)) m"
proof
  have c: "\<exists>c. cloneOf st a = Some c \<and> idx (clone_addrs st) c = idx (st_outbox st) a" if "(k, a) \<in> set m" for k a
    using cloneOf_idx [OF assms(1) assms(2) [OF that]] by blast
  show "clone_index st m = Some (map (\<lambda>(k, v). (k, the (cloneOf st v))) m)"
    using c by (fastforce simp: clone_index_def list_ex_iff)
  show "map (\<lambda>(k, a). (k, idx (clone_addrs st) a)) (map (\<lambda>(k, v). (k, the (cloneOf st v))) m)
      = map (\<lambda>(k, a). (k, idx (st_outbox st) a)) m"
    using c by (fastforce simp: comp_def split_beta)
qed simp

lemma backup_ok:
  assumes "struct_ok st"
  obtains b where "backup st = (clone_rows st, Inr b)" "bk_outbox b = clone_addrs st"
    "bk_outboxByID b = map (\<lambda>(k, v). (k, the (cloneOf st v))) (st_outboxByID st)"
    "bk_outboxByDedup b = map (\<lambda>(k, v). (k, the (cloneOf st v))) (st_outboxByDedup st)"
    "map (\<lambda>(k, a). (k, idx (clone_addrs st) a)) (bk_outboxByID b) = map (\<lambda>(k, a). (k, idx (st_outbox st) a)) (st_outboxByID st)"
    "map (\<lambda>(k, a). (k, idx (clone_addrs st) a)) (bk_outboxByDedup b) = map (\<lambda>(k, a). (k, idx (st_outbox st) a)) (st_outboxByDedup st)"
    "(restore b st)\<lparr>st_outbox := st_outbox st, st_outboxByID := st_outboxByID st, st_outboxByDedup := st_outboxByDedup st\<rparr> = st"
proof -
  have d: "distinct (st_outbox st)" using assms by (simp add: struct_ok_def)
  have 1: "a \<in> set (st_outbox st)" if "(k, a) \<in> set (st_outboxByID st)" for k a
    using assms set_in_lookup [OF _ that] by (simp add: struct_ok_def)
  have 2: "a \<in> set (st_outbox st)" if "(k, a) \<in> set (st_outboxByDedup st)" for k a
    using assms set_in_lookup [OF _ that] by (simp add: struct_ok_def)
  obtain m1 where m1: "clone_index st (st_outboxByID st) = Some m1"
      "m1 = map (\<lambda>(k, v). (k, the (cloneOf st v))) (st_outboxByID st)"
      "map (\<lambda>(k, a). (k, idx (clone_addrs st) a)) m1 = map (\<lambda>(k, a). (k, idx (st_outbox st) a)) (st_outboxByID st)"
    using clone_index_ok [OF d, of "st_outboxByID st"] 1 by blast
  obtain m2 where m2: "clone_index st (st_outboxByDedup st) = Some m2"
      "m2 = map (\<lambda>(k, v). (k, the (cloneOf st v))) (st_outboxByDedup st)"
      "map (\<lambda>(k, a). (k, idx (clone_addrs st) a)) m2 = map (\<lambda>(k, a). (k, idx (st_outbox st) a)) (st_outboxByDedup st)"
    using clone_index_ok [OF d, of "st_outboxByDedup st"] 2 by blast
  obtain b where bk: "backup st = (clone_rows st, Inr b)" by (simp add: backup_def m1(1) m2(1))
  then have b: "bk_outbox b = clone_addrs st" "bk_outboxByID b = m1" "bk_outboxByDedup b = m2"
    by (auto simp: backup_def m1(1) m2(1))
  have "(restore b st)\<lparr>st_outbox := st_outbox st, st_outboxByID := st_outboxByID st, st_outboxByDedup := st_outboxByDedup st\<rparr> = st"
    using bk by (auto simp: backup_def m1(1) m2(1) restore_def)
  then show ?thesis using bk b m1(2,3) m2(2,3) by (intro that [of b]) simp_all
qed

lemma restore_fields: "restore b st' = (restore b st)\<lparr>st_heap := st_heap st', st_next := st_next st',
    st_outboxMaxAttempts := st_outboxMaxAttempts st'\<rparr>"
  by (simp add: restore_def)

lemma view_backup:
  assumes "struct_ok st"
  shows "view (clone_rows st) = view st" and "struct_ok (clone_rows st)"
proof -
  have "a \<notin> set (clone_addrs st)" if "a \<in> set (st_outbox st)" for a
    using assms that by (auto simp: struct_ok_def clone_addrs_simps)
  then have r: "row (clone_rows st) a = row st a" if "a \<in> set (st_outbox st)" for a
    using that by (simp add: row_def clone_rows_def)
  then show "view (clone_rows st) = view st" by (simp add: view_def clone_rows_def row_def)
  have f: "st_outbox (clone_rows st) = st_outbox st" "st_outboxByID (clone_rows st) = st_outboxByID st"
    "st_outboxByDedup (clone_rows st) = st_outboxByDedup st" "st_next (clone_rows st) = st_next st + length (st_outbox st)"
    "st_outboxMaxAttempts (clone_rows st) = st_outboxMaxAttempts st" by (simp_all add: clone_rows_def)
  show "struct_ok (clone_rows st)"
    using assms by (auto simp: struct_ok_def f r trans_less_add1)
qed

lemma restored_row:
  assumes "struct_ok st" and "unit_frame (clone_rows st) st2" and "i < length (st_outbox st)"
  shows "row (restore b st2) (st_next st + i) = row st (st_outbox st ! i)"
proof -
  have "st_next st + i < st_next (clone_rows st)" "st_next st + i \<notin> set (st_outbox (clone_rows st))"
    using assms(1,3) by (auto simp: clone_rows_def struct_ok_def)
  then have "st_heap st2 (st_next st + i) = st_heap (clone_rows st) (st_next st + i)"
    using assms(2) view_backup(2) [OF assms(1)] unfolding unit_frame_def by blast
  then show ?thesis using assms(3) by (simp add: clone_rows_def clone_addrs_simps row_def restore_def)
qed

lemma view_restore:
  assumes "struct_ok st" and b: "backup st = (clone_rows st, Inr b)" "bk_outbox b = clone_addrs st"
    "map (\<lambda>(k, a). (k, idx (clone_addrs st) a)) (bk_outboxByID b) = map (\<lambda>(k, a). (k, idx (st_outbox st) a)) (st_outboxByID st)"
    "map (\<lambda>(k, a). (k, idx (clone_addrs st) a)) (bk_outboxByDedup b) = map (\<lambda>(k, a). (k, idx (st_outbox st) a)) (st_outboxByDedup st)"
    "(restore b st)\<lparr>st_outbox := st_outbox st, st_outboxByID := st_outboxByID st, st_outboxByDedup := st_outboxByDedup st\<rparr> = st"
    and "unit_frame (clone_rows st) st2"
  shows "view (restore b st2) = view st"
proof -
  have d: "distinct (st_outbox st)" using assms(1) by (simp add: struct_ok_def)
  note F = assms(7) [unfolded unit_frame_def, rule_format, OF view_backup(2) [OF assms(1)]]
  have rows: "map (row (restore b st2)) (clone_addrs st) = map (row st) (st_outbox st)"
  proof (rule nth_equalityI)
    fix i assume "i < length (map (row (restore b st2)) (clone_addrs st))"
    then have i: "i < length (st_outbox st)" by (simp add: clone_addrs_simps)
    then show "map (row (restore b st2)) (clone_addrs st) ! i = map (row st) (st_outbox st) ! i"
      using restored_row [OF assms(1,7)] by (simp add: clone_addrs_simps)
  qed (simp add: clone_addrs_simps)
  have eqs: "st_outbox (restore b st2) = clone_addrs st" "st_outboxByID (restore b st2) = bk_outboxByID b"
    "st_outboxByDedup (restore b st2) = bk_outboxByDedup b" using b(2) by (simp_all add: restore_def)
  have same: "(restore b st2)\<lparr>st_heap := h, st_next := n, st_outbox := o1, st_outboxByID := o2, st_outboxByDedup := o3\<rparr>
      = st\<lparr>st_heap := h, st_next := n, st_outbox := o1, st_outboxByID := o2, st_outboxByDedup := o3\<rparr>" for h n o1 o2 o3
  proof -
    have "st_outboxMaxAttempts st2 = st_outboxMaxAttempts st" using F by (simp add: clone_rows_def)
    then have "(restore b st2)\<lparr>st_heap := h, st_next := n, st_outbox := o1, st_outboxByID := o2, st_outboxByDedup := o3\<rparr>
        = ((restore b st)\<lparr>st_outbox := st_outbox st, st_outboxByID := st_outboxByID st, st_outboxByDedup := st_outboxByDedup st\<rparr>)
          \<lparr>st_heap := h, st_next := n, st_outbox := o1, st_outboxByID := o2, st_outboxByDedup := o3\<rparr>"
      by (simp add: restore_def)
    then show ?thesis unfolding b(5) .
  qed
  show ?thesis
    unfolding view_def eqs rows b(3,4) same
    by (simp add: idx_map [OF d] idx_map [OF clone_addrs_simps(2)] clone_addrs_simps(1))
qed

lemma lookup_cloned:
  assumes "struct_ok st" and "\<And>a. lookup m k = Some a \<Longrightarrow> a \<in> set (st_outbox st)"
  shows "lookup (map (\<lambda>(k, v). (k, the (cloneOf st v))) m) k = Some c \<longleftrightarrow>
    (\<exists>i < length (st_outbox st). lookup m k = Some (st_outbox st ! i) \<and> c = st_next st + i)"
proof -
  have d: "distinct (st_outbox st)" using assms(1) by (simp add: struct_ok_def)
  have "lookup (map (\<lambda>(k, v). (k, the (cloneOf st v))) m) k = map_option (\<lambda>v. the (cloneOf st v)) (lookup m k)"
    by (induction m) auto
  moreover have "(\<exists>i < length (st_outbox st). a = st_outbox st ! i \<and> c = st_next st + i) \<longleftrightarrow> c = the (cloneOf st a)"
    if a: "lookup m k = Some a" for a
  proof -
    obtain j where "j < length (st_outbox st)" "a = st_outbox st ! j"
      using assms(2) [OF a] by (auto simp: in_set_conv_nth)
    then show ?thesis using cloneOf_nth [OF d] d by (auto simp: nth_eq_iff_index_eq)
  qed
  ultimately show ?thesis by (cases "lookup m k") auto
qed

lemma struct_restore:
  assumes "struct_ok st" and b: "bk_outbox b = clone_addrs st"
    "bk_outboxByID b = map (\<lambda>(k, v). (k, the (cloneOf st v))) (st_outboxByID st)"
    "bk_outboxByDedup b = map (\<lambda>(k, v). (k, the (cloneOf st v))) (st_outboxByDedup st)"
    and "unit_frame (clone_rows st) st2"
  shows "struct_ok (restore b st2)"
proof -
  note F = assms(5) [unfolded unit_frame_def, rule_format, OF view_backup(2) [OF assms(1)]]
  have f: "st_outbox (restore b st2) = clone_addrs st" "st_next (restore b st2) = st_next st2"
    "st_outboxByID (restore b st2) = map (\<lambda>(k, v). (k, the (cloneOf st v))) (st_outboxByID st)"
    "st_outboxByDedup (restore b st2) = map (\<lambda>(k, v). (k, the (cloneOf st v))) (st_outboxByDedup st)"
    "st_outboxMaxAttempts (restore b st2) = st_outboxMaxAttempts st"
    using F by (simp_all add: restore_def b clone_rows_def)
  note byID = lookup_cloned [OF assms(1), of "st_outboxByID st"] and byDedup = lookup_cloned [OF assms(1), of "st_outboxByDedup st"]
  note R = restored_row [OF assms(1,5), where b = b]
  have keys: "map fst (map (\<lambda>(k, v). (k, the (cloneOf st v))) m) = map fst m" for m :: "(string, addr) gomap"
    by (simp add: comp_def split_beta)
  show ?thesis
    unfolding struct_ok_def f
  proof (intro conjI allI impI)
    show "1 \<le> st_outboxMaxAttempts st" "st_outboxMaxAttempts st \<le> 100" "distinct (clone_addrs st)"
      using assms(1) by (simp_all add: struct_ok_def clone_addrs_simps)
    show "\<forall>a\<in>set (clone_addrs st). a < st_next st2" using F by (auto simp: clone_addrs_simps clone_rows_def)
    show "map_ok (map (\<lambda>(k, v). (k, the (cloneOf st v))) (st_outboxByID st))"
      "map_ok (map (\<lambda>(k, v). (k, the (cloneOf st v))) (st_outboxByDedup st))"
      using assms(1) by (simp_all add: map_ok_def keys struct_ok_def del: map_map)
  next
    fix i c assume "lookup (map (\<lambda>(k, v). (k, the (cloneOf st v))) (st_outboxByID st)) i = Some c"
    then obtain j where "j < length (st_outbox st)" "lookup (st_outboxByID st) i = Some (st_outbox st ! j)" "c = st_next st + j"
      using byID byID_row [OF assms(1)] by blast
    then show "c \<in> set (clone_addrs st)" "obx_ID (row (restore b st2) c) = i"
      using R byID_row [OF assms(1)] by (auto simp: clone_addrs_simps)
  next
    fix d c
    have "lookup (map (\<lambda>(k, v). (k, the (cloneOf st v))) (st_outboxByDedup st)) d = Some c \<longleftrightarrow>
        (\<exists>j < length (st_outbox st). obx_DedupKey (row st (st_outbox st ! j)) = d \<and> c = st_next st + j)"
      using byDedup byDedup_row [OF assms(1)] by (auto simp: in_set_conv_nth)
    also have "\<dots> \<longleftrightarrow> c \<in> set (clone_addrs st) \<and> obx_DedupKey (row (restore b st2) c) = d"
      using R by (auto simp: clone_addrs_simps le_iff_add)
    finally show "(lookup (map (\<lambda>(k, v). (k, the (cloneOf st v))) (st_outboxByDedup st)) d = Some c)
        = (c \<in> set (clone_addrs st) \<and> obx_DedupKey (row (restore b st2) c) = d)" .
  qed
qed

lemma clone_frame: "struct_ok st \<Longrightarrow> unit_frame st (clone_rows st)"
  using view_backup(2) [of st]
  by (auto simp: unit_frame_def clone_rows_def clone_addrs_simps)

lemma restore_frame:
  assumes "struct_ok st" and "bk_outbox b = clone_addrs st"
    "bk_outboxByID b = map (\<lambda>(k, v). (k, the (cloneOf st v))) (st_outboxByID st)"
    "bk_outboxByDedup b = map (\<lambda>(k, v). (k, the (cloneOf st v))) (st_outboxByDedup st)"
    and "unit_frame (clone_rows st) st2"
  shows "unit_frame st (restore b st2)"
proof -
  note F = transpD [OF transp_unit_frame clone_frame [OF assms(1)] assms(5), unfolded unit_frame_def, rule_format, OF assms(1)]
  have "st_heap (restore b st2) = st_heap st2" "st_next (restore b st2) = st_next st2"
    "st_outbox (restore b st2) = clone_addrs st" "st_outboxMaxAttempts (restore b st2) = st_outboxMaxAttempts st2"
    using assms(2) by (simp_all add: restore_def)
  then show ?thesis
    using F struct_restore [OF assms] unfolding unit_frame_def by (simp add: clone_addrs_simps)
qed

lemma return_frame: "op_rel unit_frame (return_op x)"
  by (rule op_relI) (simp add: return_op_def frame_refl)

lemma throw_frame: "op_rel unit_frame (throw_op e)"
  by (rule op_relI) (simp add: throw_op_def frame_refl)

lemma read_frame: "op_rel unit_frame (read_op f)"
  by (rule op_relI) (simp add: frame_refl)

lemmas seq_frame = op_rel_seq [OF transp_unit_frame]

text \<open>
  The rollback installs the copy made when the unit began. A write that another caller made
  in between, outside any unit, and that was reported to it as a success, is gone afterwards.
\<close>

theorem rollback_loses_concurrent_write:
  "\<exists>st1 b st2. backup ex_store1 = (st1, Inr b)
    \<and> RunRepository_Create (ex_run ''r2'' ''k2'') st1 = (st2, Inr ((ex_run ''r2'' ''k2'')\<lparr>run_Seq := 2\<rparr>))
    \<and> RunRepository_Get ''t'' ''r2'' st2 = Inr ((ex_run ''r2'' ''k2'')\<lparr>run_Seq := 2\<rparr>)
    \<and> RunRepository_Get ''t'' ''r2'' (restore b st2) = Inl (notFound ''run'')"
  by (simp add: backup_def clone_index_def restore_def clone_rows_def RunRepository_Create_def RunRepository_Get_def
      ex_store1_eq ex_store_def ex_run_def ex_thread_def empty_store_def scoped_def get_or_def Let_def)

end
