(* ===== verification/World.thy ===== *)
theory World
  imports Mem_Transactor
begin

section \<open>Services over the store: clock, identifiers, units of work\<close>

text \<open>
  The services of the control plane run over the store, the injected clock and the identifier
  generator (\<^verbatim>\<open>ports.Clock\<close>, \<^verbatim>\<open>ports.RandomIDs\<close>). A world holds the
  store, the sequence of clock readings still to come and the random buffers still to be drawn;
  every reading of the clock and every draw takes the next one. A store method that may read the
  clock gets one reading, used or not. A service operation is a function from world to world
  with an error or a value. The clock readings are arbitrary: nothing assumes they increase.

  A context carries whether it is inside a unit of work and the correlation identifier.
\<close>

record world =
  w_store :: storeState
  w_clock :: "nat \<Rightarrow> Time"
  w_ticks :: nat
  w_rand :: "nat \<Rightarrow> entropy"
  w_draws :: nat

record ctx =
  ctx_inUnit :: bool
  ctx_corr :: carrier

definition Background :: ctx where
  "Background = \<lparr>ctx_inUnit = False, ctx_corr = None\<rparr>"

type_synonym 'a eng_op = "world \<Rightarrow> world \<times> 'a result"

definition Now :: "Time eng_op" where
  "Now w = (w\<lparr>w_ticks := w_ticks w + 1\<rparr>, Inr (w_clock w (w_ticks w)))"

definition RandomIDs_NewID :: "string \<Rightarrow> string eng_op" where
  "RandomIDs_NewID prefix w = (w\<lparr>w_draws := w_draws w + 1\<rparr>, NewID prefix (w_rand w (w_draws w)))"

definition on_store :: "'a store_op \<Rightarrow> 'a eng_op" where
  "on_store f w = (case f (w_store w) of (st', r) \<Rightarrow> (w\<lparr>w_store := st'\<rparr>, r))"

definition from_store :: "(storeState \<Rightarrow> 'a result) \<Rightarrow> 'a eng_op" where
  "from_store f w = (w, f (w_store w))"

definition store_at :: "(Time \<Rightarrow> 'a store_op) \<Rightarrow> 'a eng_op" where
  "store_at f = seq_op Now (\<lambda>now. on_store (f now))"

text \<open>A pure step that may fail, and \<^verbatim>\<open>fmt.Errorf("...: %w", err)\<close> around a step.\<close>

definition pure_op :: "'a result \<Rightarrow> 'a eng_op" where
  "pure_op r w = (w, r)"

definition wrap_op :: "'a eng_op \<Rightarrow> 'a eng_op" where
  "wrap_op f w = (case f w of (w', Inl e) \<Rightarrow> (w', Inl (Wrapped e)) | (w', Inr x) \<Rightarrow> (w', Inr x))"

text \<open>\<open>attempt f\<close> runs a step and hands its error to the caller as a value.\<close>

definition attempt :: "'a eng_op \<Rightarrow> 'a result eng_op" where
  "attempt f w = (case f w of (w', r) \<Rightarrow> (w', Inr r))"

subsection \<open>Units of work (transactor.go)\<close>

definition Do :: "ctx \<Rightarrow> (ctx \<Rightarrow> 'a eng_op) \<Rightarrow> 'a eng_op" where
  "Do ctx fn w =
     (if ctx_inUnit ctx then fn ctx w
      else (case backup (w_store w) of
              (st1, Inl e) \<Rightarrow> (w\<lparr>w_store := st1\<rparr>, Inl e)
            | (st1, Inr b) \<Rightarrow>
                (case fn (ctx\<lparr>ctx_inUnit := True\<rparr>) (w\<lparr>w_store := st1\<rparr>) of
                   (w2, Inl e) \<Rightarrow> (w2\<lparr>w_store := restore b (w_store w2)\<rparr>, Inl e)
                 | (w2, Inr x) \<Rightarrow> (w2, Inr x))))"

text \<open>A nested unit joins the outer one: it is the function itself.\<close>

lemma Do_nested: "ctx_inUnit ctx \<Longrightarrow> Do ctx fn = fn ctx"
  by (simp add: Do_def fun_eq_iff)

subsection \<open>The frame, lifted to worlds\<close>

definition wframe :: "world \<Rightarrow> world \<Rightarrow> bool" where
  "wframe w w' \<longleftrightarrow> unit_frame (w_store w) (w_store w')"

lemma transp_wframe: "transp wframe"
  using transp_unit_frame unfolding wframe_def transp_def by blast

named_theorems wframes \<open>operations that respect the frame\<close>

lemma wframe_seq [wframes]: "op_rel wframe m \<Longrightarrow> (\<And>x. op_rel wframe (f x)) \<Longrightarrow> op_rel wframe (seq_op m f)"
  by (rule op_rel_seq [OF transp_wframe])

lemma wframe_refl: "wframe w w"
  by (simp add: wframe_def frame_refl)

lemma wframe_simple [wframes]:
  "op_rel wframe Now" "op_rel wframe (RandomIDs_NewID p)" "op_rel wframe (from_store g)" "op_rel wframe (pure_op r)"
  "op_rel wframe (return_op x)" "op_rel wframe (throw_op e)"
  by (simp_all add: op_rel_def wframe_def frame_refl Now_def RandomIDs_NewID_def from_store_def pure_op_def
      return_op_def throw_op_def)

lemma wframe_on_store [wframes]: "op_rel unit_frame f \<Longrightarrow> op_rel wframe (on_store f)"
  by (simp add: op_rel_def wframe_def on_store_def split_beta)

lemma wframe_store_at [wframes]: "(\<And>t. op_rel unit_frame (f t)) \<Longrightarrow> op_rel wframe (store_at f)"
  unfolding store_at_def by (intro wframe_seq wframe_on_store wframe_simple)

lemma wframe_wrap [wframes]: "op_rel wframe f \<Longrightarrow> op_rel wframe (wrap_op f)"
  by (simp add: op_rel_def wrap_op_def split: prod.splits sum.splits) (metis fst_conv)

lemma wframe_attempt [wframes]: "op_rel wframe f \<Longrightarrow> op_rel wframe (attempt f)"
  by (simp add: op_rel_def attempt_def split_beta)

lemmas repo_frames [wframes] = entity_frames claim_frames AcquireNext_frame outbox_frames event_frame

subsection \<open>Atomicity\<close>

definition wview :: "world \<Rightarrow> storeState \<times> outboxMessage list" where
  "wview w = view (w_store w)"

text \<open>The contract of the function a service passes to \<^verbatim>\<open>Do\<close>.\<close>

locale unit_of_work =
  fixes fn :: "ctx \<Rightarrow> 'a eng_op"
  assumes framed: "op_rel wframe (fn c)"
begin

lemma unit_frames: "op_rel wframe (Do c fn)"
proof
  fix w
  show "wframe w (fst (Do c fn w))"
  proof (cases "ctx_inUnit c")
    case True
    then show ?thesis using op_relD [OF framed] by (simp add: Do_nested)
  next
    case outer: False
    show ?thesis
      unfolding wframe_def
    proof (cases "struct_ok (w_store w)")
      case False
      then show "unit_frame (w_store w) (w_store (fst (Do c fn w)))" by (simp add: unit_frame_def)
    next
      case True
      show "unit_frame (w_store w) (w_store (fst (Do c fn w)))"
      proof (rule backup_ok [OF True])
        fix b assume b: "backup (w_store w) = (clone_rows (w_store w), Inr b)" "bk_outbox b = clone_addrs (w_store w)"
          "bk_outboxByID b = map (\<lambda>(k, v). (k, the (cloneOf (w_store w) v))) (st_outboxByID (w_store w))"
          "bk_outboxByDedup b = map (\<lambda>(k, v). (k, the (cloneOf (w_store w) v))) (st_outboxByDedup (w_store w))"
        obtain w2 r where run: "fn (c\<lparr>ctx_inUnit := True\<rparr>) (w\<lparr>w_store := clone_rows (w_store w)\<rparr>) = (w2, r)"
          by (cases "fn (c\<lparr>ctx_inUnit := True\<rparr>) (w\<lparr>w_store := clone_rows (w_store w)\<rparr>)")
        have f2: "unit_frame (clone_rows (w_store w)) (w_store w2)"
          using op_relD [OF framed [of "c\<lparr>ctx_inUnit := True\<rparr>"], of "w\<lparr>w_store := clone_rows (w_store w)\<rparr>"] run
          by (simp add: wframe_def)
        note f1 = clone_frame [OF True]
        have "fst (Do c fn w) = w2 \<or> fst (Do c fn w) = w2\<lparr>w_store := restore b (w_store w2)\<rparr>"
          using outer b(1) run by (auto simp: Do_def split: sum.splits)
        then show ?thesis
          using restore_frame [OF True b(2-4) f2] transpD [OF transp_unit_frame f1 f2] by auto
      qed
    qed
  qed
qed

lemma outer_run:
  assumes "struct_ok (w_store w)" and "\<not> ctx_inUnit c" and "Do c fn w = (w', Inr x)"
  shows "fn (c\<lparr>ctx_inUnit := True\<rparr>) (w\<lparr>w_store := clone_rows (w_store w)\<rparr>) = (w', Inr x)"
proof -
  obtain b where "backup (w_store w) = (clone_rows (w_store w), Inr b)" by (rule backup_ok [OF assms(1)])
  then show ?thesis using assms(2,3) by (auto simp: Do_def split: prod.splits sum.splits)
qed

lemma outer_success:
  assumes "struct_ok (w_store w)" and "\<not> ctx_inUnit c" and "Do c fn w = (w', Inr x)"
  shows "\<exists>w1. wview w1 = wview w \<and> fn (c\<lparr>ctx_inUnit := True\<rparr>) w1 = (w', Inr x)"
  using outer_run [OF assms] view_backup [OF assms(1)]
  by (intro exI [of _ "w\<lparr>w_store := clone_rows (w_store w)\<rparr>"]) (simp add: wview_def)

lemma outer_failure:
  assumes "struct_ok (w_store w)" and "\<not> ctx_inUnit c" and "Do c fn w = (w', Inl e)"
  shows "wview w' = wview w"
proof (rule backup_ok [OF assms(1)])
  let ?st = "w_store w"
  fix b assume b: "backup ?st = (clone_rows ?st, Inr b)" "bk_outbox b = clone_addrs ?st"
    "map (\<lambda>(k, a). (k, idx (clone_addrs ?st) a)) (bk_outboxByID b) = map (\<lambda>(k, a). (k, idx (st_outbox ?st) a)) (st_outboxByID ?st)"
    "map (\<lambda>(k, a). (k, idx (clone_addrs ?st) a)) (bk_outboxByDedup b) = map (\<lambda>(k, a). (k, idx (st_outbox ?st) a)) (st_outboxByDedup ?st)"
    "(restore b ?st)\<lparr>st_outbox := st_outbox ?st, st_outboxByID := st_outboxByID ?st, st_outboxByDedup := st_outboxByDedup ?st\<rparr> = ?st"
  obtain w2 where run: "fn (c\<lparr>ctx_inUnit := True\<rparr>) (w\<lparr>w_store := clone_rows ?st\<rparr>) = (w2, Inl e)"
      "w' = w2\<lparr>w_store := restore b (w_store w2)\<rparr>"
    using assms(2,3) b(1) by (auto simp: Do_def split: prod.splits sum.splits)
  have "unit_frame (clone_rows ?st) (w_store w2)"
    using op_relD [OF framed [of "c\<lparr>ctx_inUnit := True\<rparr>"], of "w\<lparr>w_store := clone_rows ?st\<rparr>"] run by (simp add: wframe_def)
  then show ?thesis
    using view_restore [OF assms(1) b] run(2) by (simp add: wview_def)
qed

end

lemma wframe_Do [wframes]: "(\<And>c. op_rel wframe (fn c)) \<Longrightarrow> op_rel wframe (Do ctx fn)"
  by (rule unit_of_work.unit_frames [OF unit_of_work.intro])

text \<open>
  C26: units of work are atomic. If the function of an outermost unit respects the frame (as
  every sequence of repository operations does), then a unit that fails or panics leaves the
  store exactly as a caller could observe it before, outbox rows and their sharing included; a
  unit that succeeds has exactly the function's effects; and either way the store is consistent.
\<close>

theorem unit_of_work_atomic:
  assumes "struct_ok (w_store w)" and "\<not> ctx_inUnit c" and "\<forall>c. op_rel wframe (fn c)" and "Do c fn w = (w', r)"
  shows "struct_ok (w_store w') \<and> (case r of
      Inl e \<Rightarrow> wview w' = wview w
    | Inr x \<Rightarrow> (\<exists>w1. wview w1 = wview w \<and> fn (c\<lparr>ctx_inUnit := True\<rparr>) w1 = (w', Inr x)))"
proof -
  have u: "unit_of_work fn" using assms(3) by (simp add: unit_of_work_def)
  have "wframe w w'" using op_relD [OF unit_of_work.unit_frames [OF u], of w c] assms(4) by simp
  then have "struct_ok (w_store w')" using assms(1) by (simp add: wframe_def unit_frame_def)
  then show ?thesis
    using unit_of_work.outer_success [OF u assms(1,2)] unit_of_work.outer_failure [OF u assms(1,2)] assms(4)
    by (cases r) auto
qed

text \<open>The smallest unit of the engine: a run and its claim are created together.\<close>

definition create_pair :: "Run \<Rightarrow> ctx \<Rightarrow> unit eng_op" where
  "create_pair run c =
     seq_op (on_store (RunRepository_Create run)) (\<lambda>created.
       store_at (RunClaimRepository_Create (run_TenantID created) (run_ID created)))"

interpretation pair_unit: unit_of_work "create_pair run" for run
  by unfold_locales (auto simp: create_pair_def intro!: wframes)

definition ex_world :: "storeState \<Rightarrow> world" where
  "ex_world st = \<lparr>w_store = st, w_clock = (\<lambda>n. int n), w_ticks = 0, w_rand = (\<lambda>_. zeros), w_draws = 0\<rparr>"

theorem unit_of_work_atomic_witness:
  "let st = ex_store1\<lparr>st_runClaims := [(''r2'', fresh_claim ''t'' ''r2'' 0)]\<rparr> in
   \<exists>w'. Do Background (create_pair (ex_run ''r2'' ''k2'')) (ex_world st) = (w', Inl (Conflictf ''run_claim_exists''))
    \<and> wview w' = view st"
proof -
  define st where "st = ex_store1\<lparr>st_runClaims := [(''r2'', fresh_claim ''t'' ''r2'' 0)]\<rparr>"
  have ok: "struct_ok (w_store (ex_world st))"
    by (simp add: st_def ex_world_def struct_ok_def ex_store1_eq ex_store_def empty_store_def)
  obtain w' where d: "Do Background (create_pair (ex_run ''r2'' ''k2'')) (ex_world st) = (w', Inl (Conflictf ''run_claim_exists''))"
    by (simp add: Do_def Background_def backup_def clone_index_def create_pair_def seq_op_def clone_rows_def on_store_def
        store_at_def Now_def RunRepository_Create_def RunClaimRepository_Create_def st_def ex_world_def
        ex_store1_eq ex_store_def ex_run_def ex_thread_def empty_store_def scoped_def get_or_def Let_def)
  have "wview w' = wview (ex_world st)"
    using unit_of_work_atomic [OF ok _ _ d] pair_unit.framed by (simp add: Background_def)
  with d show ?thesis by (auto simp: st_def Let_def wview_def ex_world_def)
qed

end
