(* ===== verification/Policy_Engine.thy ===== *)
theory Policy_Engine
  imports World
begin

section \<open>The policy engine (internal/policy/engine.go)\<close>

text \<open>
  Every crossing of the capability boundary is evaluated against the compiled-in rule table,
  recorded as a decision and audited. The engine's only setting is whether local commits are
  allowed. \<open>quote\<close> is Go's \<^verbatim>\<open>%q\<close> rendering of an unknown action's name, which only
  appears in the recorded reason.
\<close>

definition Version :: string where "Version = ''policy.v1''"

fun PolicyAction_name :: "PolicyAction \<Rightarrow> string" where
  "PolicyAction_name ActionSandboxCreate = ''sandbox.create''"
| "PolicyAction_name ActionSandboxExec = ''sandbox.exec''"
| "PolicyAction_name ActionSCMLocalCommit = ''scm.local_commit''"
| "PolicyAction_name ActionSCMPush = ''scm.push''"
| "PolicyAction_name ActionSCMMergeToProtected = ''scm.merge_to_protected_branch''"
| "PolicyAction_name ActionNetworkAccess = ''network.access''"
| "PolicyAction_name ActionSecretRead = ''secret.read''"
| "PolicyAction_name ActionHostMutation = ''host.mutate_outside_workspace''"
| "PolicyAction_name ActionGlobalInstall = ''package.install_global''"
| "PolicyAction_name ActionOutboxRequeue = ''operator.outbox.requeue_dead_letter''"
| "PolicyAction_name ActionOutboxDiscard = ''operator.outbox.discard_dead_letter''"
| "PolicyAction_name (ActionOther s) = s"

fun PolicyOutcome_name :: "PolicyOutcome \<Rightarrow> string" where
  "PolicyOutcome_name PolicyAllow = ''allow''"
| "PolicyOutcome_name PolicyDeny = ''deny''"
| "PolicyOutcome_name PolicyRequireApproval = ''require_approval''"
| "PolicyOutcome_name (PolicyOutcomeOther s) = s"

definition decide :: "(string \<Rightarrow> string) \<Rightarrow> bool \<Rightarrow> PolicyRequest \<Rightarrow> PolicyOutcome \<times> string" where
  "decide quote allowLocalCommits req =
     (case ParsePrincipalID (preq_Principal req) of
        Inl _ \<Rightarrow> (PolicyDeny, ''actor identity is missing or invalid'')
      | Inr _ \<Rightarrow>
     (case ParseTenantID (preq_TenantID req) of
        Inl _ \<Rightarrow> (PolicyDeny, ''tenant identity is missing or invalid'')
      | Inr _ \<Rightarrow>
     (case preq_Action req of
        ActionSCMLocalCommit \<Rightarrow>
          if allowLocalCommits
          then (PolicyAllow, ''local commits inside isolated task workspaces are allowed by configuration'')
          else (PolicyDeny, ''local commits are disabled by configuration'')
      | ActionSandboxCreate \<Rightarrow> (PolicyAllow, ''sandbox lifecycle inside the rooted workspace driver is allowed'')
      | ActionSandboxExec \<Rightarrow> (PolicyAllow, ''sandbox lifecycle inside the rooted workspace driver is allowed'')
      | ActionSCMPush \<Rightarrow> (PolicyDeny,
          ''task execution must never push to remotes; integration produces PRs through the control plane'')
      | ActionSCMMergeToProtected \<Rightarrow> (PolicyDeny, ''merge stays a human decision by default'')
      | ActionNetworkAccess \<Rightarrow> (PolicyDeny, ''task execution has no network capability in this release'')
      | ActionSecretRead \<Rightarrow> (PolicyDeny,
          ''task execution cannot read secrets; delivery is just-in-time via the control plane only'')
      | ActionHostMutation \<Rightarrow> (PolicyDeny, ''writes outside the task workspace root are forbidden'')
      | ActionGlobalInstall \<Rightarrow> (PolicyDeny,
          ''global package installation is forbidden inside tasks; dependencies come from environment snapshots'')
      | other \<Rightarrow> (PolicyDeny,
          ''unknown action '' @ quote (PolicyAction_name other) @ '' is denied by default''))))"

definition appendAudit :: "ctx \<Rightarrow> PolicyDecision \<Rightarrow> unit eng_op" where
  "appendAudit ctx d =
     (let result = (if pdec_Outcome d = PolicyDeny \<or> pdec_Outcome d = PolicyRequireApproval
                    then AuditResultDenied else AuditResultAllowed)
      in seq_op (RandomIDs_NewID PrefixAuditEvent) (\<lambda>idStr.
         on_store (AuditRepository_Append
           \<lparr>audit_ID = idStr, audit_TenantID = pdec_TenantID d, audit_Actor = zero_Actor,
            audit_Action = preq_Action (pdec_Request d), audit_ResourceType = ''policy_decision'',
            audit_ResourceID = pdec_ID d, audit_Result = result, audit_TraceID = TraceID (ctx_corr ctx) [],
            audit_Metadata = [(''outcome'', DStr (PolicyOutcome_name (pdec_Outcome d))),
              (''policy_version'', DStr (pdec_PolicyVersion d)),
              (''principal'', DStr (preq_Principal (pdec_Request d)))],
            audit_At = pdec_CreatedAt d\<rparr>)))"

definition Evaluate :: "(string \<Rightarrow> string) \<Rightarrow> bool \<Rightarrow> ctx \<Rightarrow> PolicyRequest \<Rightarrow> PolicyDecision eng_op" where
  "Evaluate quote allowLocalCommits ctx req =
     (case decide quote allowLocalCommits req of (outcome, reason) \<Rightarrow>
      seq_op (wrap_op (RandomIDs_NewID PrefixPolicyDecision)) (\<lambda>idStr.
      seq_op Now (\<lambda>now.
       let decision = \<lparr>pdec_ID = idStr, pdec_TenantID = preq_TenantID req, pdec_Request = req,
             pdec_Outcome = outcome, pdec_Reason = reason, pdec_PolicyVersion = Version,
             pdec_CreatedAt = now\<rparr>
       in seq_op (wrap_op (on_store (PolicyDecisionRepository_Record decision))) (\<lambda>_.
          seq_op (wrap_op (appendAudit ctx decision)) (\<lambda>_. return_op decision)))))"

definition Authorize :: "(string \<Rightarrow> string) \<Rightarrow> bool \<Rightarrow> ctx \<Rightarrow> PolicyRequest \<Rightarrow> PolicyDecision eng_op" where
  "Authorize quote allowLocalCommits ctx req =
     seq_op (Evaluate quote allowLocalCommits ctx req) (\<lambda>decision.
       case pdec_Outcome decision of
         PolicyAllow \<Rightarrow> return_op decision
       | PolicyDeny \<Rightarrow> throw_op (NewError ErrKindPolicyDenied ''policy_deny'')
       | _ \<Rightarrow> throw_op (NewError ErrKindPolicyDenied ''policy_approval_required''))"

subsection \<open>Laws\<close>

lemma wframe_Evaluate [wframes]: "op_rel wframe (Evaluate quote allow ctx req)"
  unfolding Evaluate_def appendAudit_def Let_def by (auto split: prod.splits intro!: wframes)

lemma wframe_Authorize [wframes]: "op_rel wframe (Authorize quote allow ctx req)"
  unfolding Authorize_def by (auto split: PolicyOutcome.splits intro!: wframes)

lemma decide_allow:
  "fst (decide quote allow req) = PolicyAllow \<longleftrightarrow>
     ParsePrincipalID (preq_Principal req) = Inr (preq_Principal req) \<and> ParseTenantID (preq_TenantID req) = Inr (preq_TenantID req)
     \<and> (preq_Action req = ActionSandboxCreate \<or> preq_Action req = ActionSandboxExec
        \<or> preq_Action req = ActionSCMLocalCommit \<and> allow)"
proof -
  have "ParsePrincipalID p = Inr q \<Longrightarrow> q = p" "ParseTenantID p = Inr q \<Longrightarrow> q = p" for p q
    by (auto simp: ParsePrincipalID_def ParseTenantID_def validatePrefixed_def split: if_splits prod.splits)
  then show ?thesis
    by (auto simp: decide_def split: sum.splits PolicyAction.splits)
qed

lemma decide_closed: "fst (decide quote allow req) = PolicyAllow \<or> fst (decide quote allow req) = PolicyDeny"
  by (auto simp: decide_def split: sum.splits PolicyAction.splits)

text \<open>What a completed evaluation leaves in the store: one decision and one audit record.\<close>

lemma Evaluate_ok:
  assumes "Evaluate quote allow ctx req w = (w', Inr d)"
  shows "pdec_Request d = req" and "pdec_TenantID d = preq_TenantID req"
    and "pdec_Outcome d = fst (decide quote allow req)"
    and "get_or [] (st_policyByRun (w_store w')) (preq_RunID req) = get_or [] (st_policyByRun (w_store w)) (preq_RunID req) @ [d]"
    and "\<exists>a. st_auditLog (w_store w') = st_auditLog (w_store w) @ [a] \<and> audit_ResourceID a = pdec_ID d
      \<and> audit_Action a = preq_Action req \<and> audit_TenantID a = preq_TenantID req
      \<and> audit_Result a = (if pdec_Outcome d = PolicyAllow then AuditResultAllowed else AuditResultDenied)"
  using assms decide_closed [of quote allow req]
  by (auto simp: Evaluate_def appendAudit_def seq_op_def wrap_op_def on_store_def RandomIDs_NewID_def Now_def return_op_def
      PolicyDecisionRepository_Record_def AuditRepository_Append_def get_or_def Let_def
      split: prod.splits sum.splits if_splits)

text \<open>When the two identifiers can be drawn, an evaluation always completes.\<close>

lemma Evaluate_total:
  "(\<exists>w' d. Evaluate quote allow ctx req w = (w', Inr d)) \<longleftrightarrow> w_rand w (w_draws w) \<noteq> None \<and> w_rand w (w_draws w + 1) \<noteq> None"
  by (auto simp: Evaluate_def appendAudit_def seq_op_def wrap_op_def on_store_def RandomIDs_NewID_def Now_def return_op_def
      PolicyDecisionRepository_Record_def AuditRepository_Append_def NewID_def Let_def split: prod.splits sum.splits option.splits)

lemma Evaluate_error:
  "Evaluate quote allow ctx req w = (w', Inl e) \<Longrightarrow> ErrKindOf e \<noteq> ErrKindPolicyDenied"
  by (auto simp: Evaluate_def appendAudit_def seq_op_def wrap_op_def on_store_def RandomIDs_NewID_def Now_def
      return_op_def PolicyDecisionRepository_Record_def AuditRepository_Append_def NewID_def Let_def error_defs
      split: prod.splits sum.splits if_splits option.splits)

lemma Authorize_by_outcome:
  assumes "Evaluate quote allow ctx req w = (w', Inr d)"
  shows "Authorize quote allow ctx req w =
    (w', if pdec_Outcome d = PolicyAllow then Inr d else Inl (NewError ErrKindPolicyDenied ''policy_deny''))"
  using assms decide_closed [of quote allow req] Evaluate_ok(3) [OF assms] by (auto simp: Authorize_def return_op_def throw_op_def)

text \<open>
  C28: no unrecorded and no unlisted boundary crossing. The rule table allows exactly sandbox
  creation, sandbox execution and (when enabled) local commits, asked by a valid principal of a valid
  tenant. Unless the source of identifiers fails, an authorisation has one of two ends. A request the
  table allows succeeds with a decision to allow it; every other request is refused with a policy-denied
  error, and its decision is to deny it. In both cases the decision, with the request it is about, is
  appended to the decisions of the run, and exactly one audit record is appended that names the decision,
  the action and the tenant and says allowed or denied accordingly. If an identifier cannot be drawn the
  authorisation fails, with an error that is not policy-denied, so nothing is authorised.
\<close>

theorem authorize_recorded_and_closed:
  assumes "Authorize quote allow ctx req w = (w', r)"
  defines "listed \<equiv> (preq_Action req = ActionSandboxCreate \<or> preq_Action req = ActionSandboxExec
        \<or> preq_Action req = ActionSCMLocalCommit \<and> allow)
      \<and> ParsePrincipalID (preq_Principal req) = Inr (preq_Principal req)
      \<and> ParseTenantID (preq_TenantID req) = Inr (preq_TenantID req)"
  shows "if w_rand w (w_draws w) = None \<or> w_rand w (w_draws w + 1) = None
    then \<exists>e. r = Inl e \<and> ErrKindOf e \<noteq> ErrKindPolicyDenied
    else \<exists>d a. r = (if listed then Inr d else Inl (NewError ErrKindPolicyDenied ''policy_deny''))
        \<and> pdec_Request d = req \<and> pdec_TenantID d = preq_TenantID req
        \<and> pdec_Outcome d = (if listed then PolicyAllow else PolicyDeny)
        \<and> get_or [] (st_policyByRun (w_store w')) (preq_RunID req) = get_or [] (st_policyByRun (w_store w)) (preq_RunID req) @ [d]
        \<and> st_auditLog (w_store w') = st_auditLog (w_store w) @ [a]
        \<and> audit_ResourceID a = pdec_ID d \<and> audit_Action a = preq_Action req \<and> audit_TenantID a = preq_TenantID req
        \<and> audit_Result a = (if listed then AuditResultAllowed else AuditResultDenied)"
proof (cases "Evaluate quote allow ctx req w")
  case (Pair w1 r1)
  show ?thesis
  proof (cases r1)
    case (Inl e)
    then have "w_rand w (w_draws w) = None \<or> w_rand w (w_draws w + 1) = None"
      using Pair Evaluate_total [of quote allow ctx req w] by auto
    moreover have "r = Inl e" using assms(1) Pair Inl by (simp add: Authorize_def)
    ultimately show ?thesis using Evaluate_error [OF Pair [unfolded Inl]] by auto
  next
    case (Inr d)
    note E = Evaluate_ok [OF Pair [unfolded Inr]]
    have drawn: "\<not> (w_rand w (w_draws w) = None \<or> w_rand w (w_draws w + 1) = None)"
      using Pair Inr Evaluate_total [of quote allow ctx req w] by auto
    have out: "pdec_Outcome d = (if listed then PolicyAllow else PolicyDeny)"
      using E(3) decide_allow [of quote allow req] decide_closed [of quote allow req] unfolding listed_def by auto
    have r: "w' = w1" "r = (if listed then Inr d else Inl (NewError ErrKindPolicyDenied ''policy_deny''))"
      using assms(1) Authorize_by_outcome [OF Pair [unfolded Inr]] out by auto
    obtain a where a: "st_auditLog (w_store w1) = st_auditLog (w_store w) @ [a]" "audit_ResourceID a = pdec_ID d"
        "audit_Action a = preq_Action req" "audit_TenantID a = preq_TenantID req"
        "audit_Result a = (if listed then AuditResultAllowed else AuditResultDenied)"
      using E(5) out by auto
    show ?thesis
      unfolding if_not_P [OF drawn] using r out E(1,2,4) a by blast
  qed
qed

definition ex_preq :: "PolicyAction \<Rightarrow> PolicyRequest" where
  "ex_preq action = \<lparr>preq_TenantID = ex_tenant, preq_RunID = ''r1'', preq_TaskID = [],
     preq_Principal = PrefixPrincipal @ idSeparator # replicate 26 (CHR ''a''), preq_Action = action, preq_Resource = []\<rparr>"

theorem authorize_recorded_and_closed_witness:
  "\<exists>w' d a. Authorize (\<lambda>s. s) True Background (ex_preq ActionSCMPush) (ex_world ex_store1)
      = (w', Inl (NewError ErrKindPolicyDenied ''policy_deny''))
    \<and> get_or [] (st_policyByRun (w_store w')) ''r1'' = [d] \<and> pdec_Outcome d = PolicyDeny
    \<and> st_auditLog (w_store w') = [a] \<and> audit_Result a = AuditResultDenied \<and> audit_ResourceID a = pdec_ID d"
proof -
  obtain w' r where d: "Authorize (\<lambda>s. s) True Background (ex_preq ActionSCMPush) (ex_world ex_store1) = (w', r)"
    by (cases "Authorize (\<lambda>s. s) True Background (ex_preq ActionSCMPush) (ex_world ex_store1)")
  have e: "get_or [] (st_policyByRun ex_store1) ''r1'' = []" "st_auditLog ex_store1 = []"
    by (simp_all add: ex_store1_eq ex_store_def empty_store_def get_or_def)
  from authorize_recorded_and_closed [OF d] d e show ?thesis
    by (simp add: ex_world_def zeros_def ex_preq_def) blast
qed

end
