(* ===== verification/Outbox_Services.thy ===== *)
theory Outbox_Services
  imports World Mem_Retention_Events
begin

section \<open>Operator actions and retention (internal/outboxops, internal/outboxgc)\<close>

text \<open>
  The operator service composes a compare-and-swap mutation of a dead letter with its event, the
  event's delivery and its audit record in one unit of work. The retention service runs bounded
  sweeps. Observers only receive labels; the label of an operator action is \<open>outcomeOf\<close>.
\<close>

subsection \<open>Operator actions (outboxops/service.go)\<close>

datatype Outcome =
    OutcomeSucceeded | OutcomeStaleCredential | OutcomeInvalidState | OutcomeNotFound
  | OutcomeInvalidRequest | OutcomeFailed

definition outcomeOf :: "'a result \<Rightarrow> Outcome" where
  "outcomeOf r =
     (case r of Inr _ \<Rightarrow> OutcomeSucceeded
      | Inl err \<Rightarrow>
         (case ErrKindOf err of
            ErrKindConflict \<Rightarrow> OutcomeStaleCredential
          | ErrKindInvalidTransition \<Rightarrow> OutcomeInvalidState
          | ErrKindNotFound \<Rightarrow> OutcomeNotFound
          | ErrKindInvalid \<Rightarrow> OutcomeInvalidRequest
          | _ \<Rightarrow> OutcomeFailed))"

definition auditAction :: "OutboxDeliveryStatus \<Rightarrow> PolicyAction" where
  "auditAction target = (if target = OutboxDiscarded then ActionOutboxDiscard else ActionOutboxRequeue)"

definition aggregateOutboxMessage :: string where
  "aggregateOutboxMessage = ''outbox_message''"

definition operator_event ::
  "OutboxMutationRequest \<Rightarrow> EventType \<Rightarrow> string \<Rightarrow> OutboxMutationResult \<Rightarrow> string \<Rightarrow> Event" where
  "operator_event req eventType action res evtID =
     \<lparr>event_ID = evtID, event_Type = eventType, event_OccurredAt = 0, event_TenantID = mr_TenantID req,
      event_AggregateType = aggregateOutboxMessage, event_AggregateID = mr_MessageID req,
      event_AggregateVersion = mres_Generation res, event_Actor = mr_Actor req,
      event_TraceID = mr_TraceID req, event_Seq = 0, event_RunID = [],
      event_Data = [(''message_id'', DStr (mr_MessageID req)), (''action'', DStr action),
        (''attempts_before'', DInt (mres_AttemptsBefore res)), (''generation'', DInt (mres_Generation res))]
        @ (if mr_Reason req \<noteq> [] then [(''reason'', DStr (mr_Reason req))] else [])\<rparr>"

definition operator_audit ::
  "OutboxMutationRequest \<Rightarrow> OutboxDeliveryStatus \<Rightarrow> string \<Rightarrow> OutboxMutationResult \<Rightarrow> string \<Rightarrow> Time \<Rightarrow> AuditEvent" where
  "operator_audit req target action res auditID now =
     \<lparr>audit_ID = auditID, audit_TenantID = mr_TenantID req, audit_Actor = mr_Actor req,
      audit_Action = auditAction target, audit_ResourceType = aggregateOutboxMessage,
      audit_ResourceID = mr_MessageID req, audit_Result = AuditResultAllowed, audit_TraceID = mr_TraceID req,
      audit_Metadata = [(''action'', DStr action), (''attempts_before'', DInt (mres_AttemptsBefore res)),
        (''generation'', DInt (mres_Generation res))]
        @ (if mr_Reason req \<noteq> [] then [(''reason'', DStr (mr_Reason req))] else []),
      audit_At = now\<rparr>"

definition mutate_unit ::
  "(Event \<Rightarrow> bytes result) \<Rightarrow> OutboxMutationRequest \<Rightarrow> OutboxDeliveryStatus \<Rightarrow> ctx \<Rightarrow> OutboxMutationResult eng_op" where
  "mutate_unit marshal req target ctx =
     (let action = (if target = OutboxDiscarded then ''discard'' else ''requeue'');
          mutateFn = (if target = OutboxDiscarded then OutboxRepository_DiscardDeadLetter
                      else OutboxRepository_RequeueDeadLetter);
          eventType = (if target = OutboxDiscarded then EventOutboxDeadLetterDiscarded
                       else EventOutboxDeadLetterRequeued)
      in seq_op (store_at (mutateFn req)) (\<lambda>res.
         seq_op (wrap_op (RandomIDs_NewID PrefixEvent)) (\<lambda>evtID.
         seq_op (wrap_op (store_at (EventRepository_Append marshal (operator_event req eventType action res evtID)))) (\<lambda>_.
         seq_op (wrap_op (RandomIDs_NewID PrefixAuditEvent)) (\<lambda>auditID.
         seq_op Now (\<lambda>now.
         seq_op (wrap_op (on_store (AuditRepository_Append (operator_audit req target action res auditID now)))) (\<lambda>_.
         return_op res)))))))"

definition mutate ::
  "(Event \<Rightarrow> bytes result) \<Rightarrow> ctx \<Rightarrow> OutboxMutationRequest \<Rightarrow> OutboxDeliveryStatus \<Rightarrow> OutboxMutationResult eng_op" where
  "mutate marshal ctx req target = Do ctx (mutate_unit marshal req target)"

definition Requeue :: "(Event \<Rightarrow> bytes result) \<Rightarrow> ctx \<Rightarrow> OutboxMutationRequest \<Rightarrow> OutboxMutationResult eng_op" where
  "Requeue marshal ctx req = mutate marshal ctx req OutboxPending"

definition Discard :: "(Event \<Rightarrow> bytes result) \<Rightarrow> ctx \<Rightarrow> OutboxMutationRequest \<Rightarrow> OutboxMutationResult eng_op" where
  "Discard marshal ctx req = mutate marshal ctx req OutboxDiscarded"

definition Service_ListDeadLetters ::
  "addr_sort \<Rightarrow> ListDeadLettersRequest \<Rightarrow> DeadLetterSummary list eng_op" where
  "Service_ListDeadLetters srt req = from_store (OutboxRepository_ListDeadLetters srt req)"

definition Service_GetDeadLetter :: "string \<Rightarrow> string \<Rightarrow> DeadLetterSummary eng_op" where
  "Service_GetDeadLetter tenantID messageID = from_store (OutboxRepository_GetDeadLetter tenantID messageID)"

subsection \<open>Retention (outboxgc/service.go)\<close>

record GCConfig =
  gc_DeliveredAfter :: Duration
  gc_DiscardedAfter :: Duration
  gc_BatchSize :: int
  gc_Interval :: Duration

definition GCConfig_Validate :: "GCConfig \<Rightarrow> unit result" where
  "GCConfig_Validate c =
     (if gc_DeliveredAfter c < 0 \<or> gc_DiscardedAfter c < 0 then Inl Foreign
      else if gc_BatchSize c < 1 \<or> gc_BatchSize c > MaxRetentionSweepBatch then Inl Foreign
      else if gc_Interval c < Second then Inl Foreign
      else Inr ())"

definition GCConfig_Active :: "GCConfig \<Rightarrow> bool" where
  "GCConfig_Active c \<longleftrightarrow> gc_DeliveredAfter c > 0 \<or> gc_DiscardedAfter c > 0"

definition GC_New :: "GCConfig \<Rightarrow> GCConfig result" where
  "GC_New cfg = (case GCConfig_Validate cfg of Inl e \<Rightarrow> Inl (Wrapped e) | Inr _ \<Rightarrow> Inr cfg)"

definition GC_request :: "GCConfig \<Rightarrow> bool \<Rightarrow> RetentionSweepRequest" where
  "GC_request cfg dryRun =
     \<lparr>rs_DeliveredOlderThan = gc_DeliveredAfter cfg, rs_DiscardedOlderThan = gc_DiscardedAfter cfg,
      rs_Limit = gc_BatchSize cfg, rs_DryRun = dryRun\<rparr>"

definition Preview :: "addr_sort \<Rightarrow> GCConfig \<Rightarrow> RetentionSweepResult eng_op" where
  "Preview srt cfg = store_at (OutboxRepository_SweepRetention srt (GC_request cfg True))"

datatype gc_obs = Deleted string int | RoundsCompleted

definition Round :: "addr_sort \<Rightarrow> GCConfig \<Rightarrow> (RetentionSweepResult \<times> gc_obs list) eng_op" where
  "Round srt cfg =
     seq_op (store_at (OutboxRepository_SweepRetention srt (GC_request cfg False))) (\<lambda>res.
       return_op (res,
         (if rr_DeletedDelivered res > 0 then [Deleted ''delivered'' (rr_DeletedDelivered res)] else [])
         @ (if rr_DeletedDiscarded res > 0 then [Deleted ''discarded'' (rr_DeletedDiscarded res)] else [])
         @ [RoundsCompleted]))"

subsection \<open>Laws\<close>

lemma wframe_mutate_unit [wframes]: "op_rel wframe (mutate_unit marshal req target ctx)"
  unfolding mutate_unit_def Let_def by (auto intro!: wframes)

interpretation operator_unit: unit_of_work "mutate_unit marshal req target" for marshal req target
  by unfold_locales (rule wframes)

lemma mutation_exact:
  assumes "(if target = OutboxDiscarded then OutboxRepository_DiscardDeadLetter else OutboxRepository_RequeueDeadLetter)
      req now st = (st1, Inr res)"
  obtains a where "lookup (st_outboxByID st) (mr_MessageID req) = Some a" "obx_TenantID (row st a) = mr_TenantID req"
    "obx_Status (row st a) = OutboxDead" "obx_Generation (row st a) = mr_ExpectedGeneration req"
    "st1 = set_row a (if target = OutboxDiscarded then applyDiscard (row st a) now else applyRequeue (row st a) now) st"
    "mres_Generation res = mr_ExpectedGeneration req + 1"
  using assms
  by (auto simp: OutboxRepository_RequeueDeadLetter_def OutboxRepository_DiscardDeadLetter_def Let_def owned_row_Some
      classify_ok applyRequeue_def applyDiscard_def split: sum.splits option.splits if_splits)

lemma Append_rest:
  assumes "EventRepository_Append marshal evt now st = (st', Inr evt')"
  shows "st_auditLog st' = st_auditLog st" and "a < st_next st \<Longrightarrow> row st' a = row st a"
    and "lookup (st_outboxByDedup st') (''event:'' @ event_ID evt') \<noteq> None"
  using assms
  by (auto simp: EventRepository_Append_def Let_def alloc_row_def row_def new_row_def split: sum.splits if_splits)

lemma store_at_run: "store_at f w = on_store (f (w_clock w (w_ticks w))) (w\<lparr>w_ticks := w_ticks w + 1\<rparr>)"
  by (simp add: store_at_def seq_op_def Now_def)

text \<open>The store of a completed operator unit, step by step.\<close>

lemma mutate_unit_ok:
  assumes "mutate_unit marshal req target c w = (w', Inr res)"
  obtains t st1 et action evtID t2 st2 evt auditID t3 where
    "(if target = OutboxDiscarded then OutboxRepository_DiscardDeadLetter else OutboxRepository_RequeueDeadLetter)
       req t (w_store w) = (st1, Inr res)"
    "EventRepository_Append marshal (operator_event req et action res evtID) t2 st1 = (st2, Inr evt)"
    "et = (if target = OutboxDiscarded then EventOutboxDeadLetterDiscarded else EventOutboxDeadLetterRequeued)"
    "w_store w' = st2\<lparr>st_auditLog := st_auditLog st2 @ [operator_audit req target action res auditID t3]\<rparr>"
  using assms unfolding mutate_unit_def Let_def
  by (elim seq_op_Inr)
    (auto simp: wrap_op_def store_at_run on_store_def RandomIDs_NewID_def Now_def return_op_def
      AuditRepository_Append_def split: prod.splits sum.splits)

text \<open>
  C29: an operator action lands with its whole trail or not at all. If a requeue or discard
  succeeds, the tenant's message was dead at the expected generation and is now pending (or
  discarded) one generation later; exactly one event naming the operator, the message and the new
  generation was appended, and it has an outbox delivery; and exactly one audit record names the
  operator and the message. If any step fails, the store is observably what it was.
\<close>

theorem operator_action_with_trail:
  assumes "struct_ok (w_store w)" and "\<not> ctx_inUnit c" and "mutate marshal c req target w = (w', r)"
  shows "case r of
      Inl e \<Rightarrow> wview w' = wview w
    | Inr res \<Rightarrow>
       (\<exists>a evt au. lookup (st_outboxByID (w_store w)) (mr_MessageID req) = Some a
        \<and> obx_TenantID (row (w_store w) a) = mr_TenantID req
        \<and> obx_Status (row (w_store w) a) = OutboxDead
        \<and> obx_Generation (row (w_store w) a) = mr_ExpectedGeneration req
        \<and> obx_Status (row (w_store w') a) = (if target = OutboxDiscarded then OutboxDiscarded else OutboxPending)
        \<and> obx_Generation (row (w_store w') a) = mr_ExpectedGeneration req + 1
        \<and> st_events (w_store w') = st_events (w_store w) @ [evt]
        \<and> event_Actor evt = mr_Actor req \<and> event_AggregateID evt = mr_MessageID req
        \<and> event_AggregateVersion evt = mr_ExpectedGeneration req + 1
        \<and> event_Type evt = (if target = OutboxDiscarded then EventOutboxDeadLetterDiscarded else EventOutboxDeadLetterRequeued)
        \<and> lookup (st_outboxByDedup (w_store w')) (''event:'' @ event_ID evt) \<noteq> None
        \<and> st_auditLog (w_store w') = st_auditLog (w_store w) @ [au]
        \<and> audit_Actor au = mr_Actor req \<and> audit_ResourceID au = mr_MessageID req
        \<and> audit_Action au = auditAction target)"
proof (cases r)
  case (Inl e)
  then show ?thesis
    using operator_unit.outer_failure [OF assms(1,2)] assms(3) by (simp add: mutate_def)
next
  case (Inr res)
  let ?st = "w_store w" and ?cl = "clone_rows (w_store w)"
  have "mutate_unit marshal req target (c\<lparr>ctx_inUnit := True\<rparr>) (w\<lparr>w_store := ?cl\<rparr>) = (w', Inr res)"
    using operator_unit.outer_run [OF assms(1,2)] assms(3) Inr by (simp add: mutate_def)
  then obtain t st1 et action evtID t2 st2 evt auditID t3 where
      mut: "(if target = OutboxDiscarded then OutboxRepository_DiscardDeadLetter else OutboxRepository_RequeueDeadLetter)
         req t ?cl = (st1, Inr res)"
      and app: "EventRepository_Append marshal (operator_event req et action res evtID) t2 st1 = (st2, Inr evt)"
      and et: "et = (if target = OutboxDiscarded then EventOutboxDeadLetterDiscarded else EventOutboxDeadLetterRequeued)"
      and w': "w_store w' = st2\<lparr>st_auditLog := st_auditLog st2 @ [operator_audit req target action res auditID t3]\<rparr>"
    by (rule mutate_unit_ok) simp
  obtain a where a: "lookup (st_outboxByID ?cl) (mr_MessageID req) = Some a" "obx_TenantID (row ?cl a) = mr_TenantID req"
      "obx_Status (row ?cl a) = OutboxDead" "obx_Generation (row ?cl a) = mr_ExpectedGeneration req"
      "st1 = set_row a (if target = OutboxDiscarded then applyDiscard (row ?cl a) t else applyRequeue (row ?cl a) t) ?cl"
      "mres_Generation res = mr_ExpectedGeneration req + 1"
    using mut by (rule mutation_exact)
  have live: "a \<in> set (st_outbox ?st)"
    using byID_row [OF assms(1), of "mr_MessageID req" a] a(1) by (simp add: clone_rows_def)
  have same: "row ?cl a = row ?st a" "a < st_next st1"
    using assms(1) live by (auto simp: a(5) row_def clone_rows_def clone_addrs_simps struct_ok_def set_row_def)
  have row': "row (w_store w') a = row st1 a" using Append_rest(2) [OF app same(2)] by (simp add: w' row_def)
  have logs: "st_events st1 = st_events ?st" "st_auditLog st1 = st_auditLog ?st" "st_outboxByID ?cl = st_outboxByID ?st"
    by (simp_all add: a(5) set_row_def clone_rows_def)
  have evt: "st_events (w_store w') = st_events ?st @ [evt]" "event_Actor evt = mr_Actor req"
      "event_AggregateID evt = mr_MessageID req" "event_AggregateVersion evt = mr_ExpectedGeneration req + 1" "event_Type evt = et"
    using Append_ok [OF app] by (simp_all add: w' logs operator_event_def a(6))
  have log: "st_auditLog (w_store w') = st_auditLog ?st @ [operator_audit req target action res auditID t3]"
      "st_outboxByDedup (w_store w') = st_outboxByDedup st2"
    using Append_rest(1) [OF app] by (simp_all add: w' logs)
  show ?thesis
    unfolding Inr sum.case
  proof (intro exI [of _ a] exI [of _ evt] exI [of _ "operator_audit req target action res auditID t3"] conjI)
    show "lookup (st_outboxByDedup (w_store w')) (''event:'' @ event_ID evt) \<noteq> None"
      using Append_rest(3) [OF app] by (simp add: log)
    show "obx_Status (row (w_store w') a) = (if target = OutboxDiscarded then OutboxDiscarded else OutboxPending)"
      "obx_Generation (row (w_store w') a) = mr_ExpectedGeneration req + 1"
      using a(4) by (simp_all add: row' a(5) same applyDiscard_def applyRequeue_def)
  qed (use a evt et log same logs in \<open>simp_all add: operator_audit_def\<close>)
qed

theorem operator_action_with_trail_witness:
  "\<exists>w' res. mutate (\<lambda>e. Inr (event_ID e)) Background ex_mutation OutboxPending (ex_world ex_dead) = (w', Inr res)
    \<and> obx_Status (row (w_store w') 0) = OutboxPending \<and> length (st_auditLog (w_store w')) = length (st_auditLog ex_dead) + 1"
proof -
  have ok: "struct_ok (w_store (ex_world ex_dead))" using outbox_ok_ex_dead by (simp add: ex_world_def outbox_ok_def)
  have dead: "row (clone_rows ex_dead) 0 = row ex_dead 0" "owned_row ex_tenant ''m1'' (clone_rows ex_dead) = Some 0"
    using ex_mutation_target(1) view_backup(1) [of ex_dead] outbox_ok_ex_dead
    by (auto simp: owned_row_Some view_def clone_rows_def outbox_ok_def row_def clone_addrs_simps)
  obtain b where b: "backup (w_store (ex_world ex_dead)) = (clone_rows ex_dead, Inr b)"
    using backup_ok [OF ok] by (metis ex_world_def world.select_convs(1))
  have "\<exists>w1 res. mutate_unit (\<lambda>e. Inr (event_ID e)) ex_mutation OutboxPending (Background\<lparr>ctx_inUnit := True\<rparr>)
      ((ex_world ex_dead)\<lparr>w_store := clone_rows ex_dead\<rparr>) = (w1, Inr res)"
    by (simp add: mutate_unit_def store_at_run on_store_def OutboxRepository_RequeueDeadLetter_def ex_mutation_valid
        ex_mutation_fields dead ex_mutation_target(2) seq_op_def wrap_op_def RandomIDs_NewID_def NewID_def ex_world_def
        zeros_def EventRepository_Append_def AuditRepository_Append_def Now_def return_op_def Let_def)
  then obtain w' res where m: "mutate (\<lambda>e. Inr (event_ID e)) Background ex_mutation OutboxPending (ex_world ex_dead) = (w', Inr res)"
    by (auto simp: mutate_def Do_def Background_def b)
  from operator_action_with_trail [OF ok _ m] m show ?thesis
    by (auto simp: Background_def ex_world_def ex_mutation_fields)
qed

end
