(* ===== verification/Dispatcher.thy ===== *)
theory Dispatcher
  imports World Mem_Retention_Events "HOL-Library.Word"
begin

section \<open>The outbox dispatcher (internal/outbox/dispatcher.go)\<close>

text \<open>
  One round of the dispatcher leases a batch, hands each message to the sink and settles it:
  acknowledged, rescheduled with backoff, or dead-lettered by the store. The sink is code outside
  the store: \<open>sink i msg\<close> is its answer to the \<open>i\<close>-th delivery of the round (\<open>None\<close> is
  success), and \<open>stopped i\<close> is \<^verbatim>\<open>ctx.Err()\<close> read after a failed one. \<open>err_text\<close> is the
  \<^verbatim>\<open>Error()\<close> text of an error. Durations the backoff computes with are 64-bit words, because the
  source shifts them.
\<close>

subsection \<open>Configuration\<close>

record DispatcherConfig =
  dc_BatchSize :: int
  dc_Interval :: Duration
  dc_Lease :: Duration
  dc_MaxAttempts :: int
  dc_RetryBackoffBase :: "64 word"

definition DispatcherConfig_Validate :: "DispatcherConfig \<Rightarrow> unit result" where
  "DispatcherConfig_Validate c =
     (if dc_BatchSize c < 1 \<or> dc_BatchSize c > 1000 then Inl Foreign
      else if dc_Interval c < 10 * Millisecond then Inl Foreign
      else if dc_Lease c < Second then Inl Foreign
      else if dc_MaxAttempts c < 1 \<or> dc_MaxAttempts c > 100 then Inl Foreign
      else if sint (dc_RetryBackoffBase c) < 0 then Inl Foreign
      else Inr ())"

definition Dispatcher_New :: "DispatcherConfig \<Rightarrow> DispatcherConfig result" where
  "Dispatcher_New cfg = (case DispatcherConfig_Validate cfg of Inl e \<Rightarrow> Inl (Wrapped e) | Inr _ \<Rightarrow> Inr cfg)"

subsection \<open>Backoff\<close>

definition minInt :: "int \<Rightarrow> int \<Rightarrow> int" where
  "minInt a b = (if a < b then a else b)"

text \<open>24 hours in nanoseconds.\<close>

definition maxBackoff :: "64 word" where
  "maxBackoff = 86400000000000"

fun backoff_loop :: "nat \<Rightarrow> 64 word \<Rightarrow> 64 word" where
  "backoff_loop 0 base = (if maxBackoff <s base then maxBackoff else base)"
| "backoff_loop (Suc n) base = (if maxBackoff \<le>s base then maxBackoff else backoff_loop n (push_bit 1 base))"

definition backoffFor :: "64 word \<Rightarrow> int \<Rightarrow> 64 word" where
  "backoffFor base attempts = (if base \<le>s 0 then 0 else backoff_loop (nat (minInt (attempts - 1) 16)) base)"

definition safeErr :: "(go_error \<Rightarrow> string) \<Rightarrow> go_error \<Rightarrow> string" where
  "safeErr err_text err = (let msg = err_text err in if length msg > 512 then take 512 msg else msg)"

subsection \<open>A round\<close>

datatype dispatch_obs = RoundLeased int | OutboxStates OutboxStats | Delivered | RetryScheduled | DeadLettered

fun dispatch_loop ::
  "DispatcherConfig \<Rightarrow> string \<Rightarrow> (go_error \<Rightarrow> string) \<Rightarrow> (nat \<Rightarrow> OutboxMessage \<Rightarrow> go_error option) \<Rightarrow> (nat \<Rightarrow> go_error option) \<Rightarrow> nat
   \<Rightarrow> OutboxMessage list \<Rightarrow> world \<Rightarrow> world \<times> go_error option \<times> dispatch_obs list" where
  "dispatch_loop cfg workerID err_text sink stopped i [] w = (w, None, [])"
| "dispatch_loop cfg workerID err_text sink stopped i (msg # msgs) w =
     (case sink i msg of
        None \<Rightarrow>
          (case store_at (OutboxRepository_MarkDelivered (om_ID msg) workerID) w of
             (w1, Inl _) \<Rightarrow> dispatch_loop cfg workerID err_text sink stopped (Suc i) msgs w1
           | (w1, Inr _) \<Rightarrow>
              (case dispatch_loop cfg workerID err_text sink stopped (Suc i) msgs w1 of
                 (w2, e, obs) \<Rightarrow> (w2, e, Delivered # obs)))
      | Some deliverErr \<Rightarrow>
          if stopped i \<noteq> None then (w, stopped i, [])
          else
           (let retryIn = sint (backoffFor (dc_RetryBackoffBase cfg) (om_Attempts msg)) in
            case store_at (OutboxRepository_FailWithBackoff (om_ID msg) workerID retryIn (safeErr err_text deliverErr)) w of
              (w1, Inl _) \<Rightarrow> dispatch_loop cfg workerID err_text sink stopped (Suc i) msgs w1
            | (w1, Inr _) \<Rightarrow>
               (case dispatch_loop cfg workerID err_text sink stopped (Suc i) msgs w1 of
                  (w2, e, obs) \<Rightarrow>
                    (w2, e, (if om_Attempts msg \<ge> om_MaxAttempts msg then DeadLettered else RetryScheduled) # obs))))"

definition DispatchOnce ::
  "addr_sort \<Rightarrow> DispatcherConfig \<Rightarrow> string \<Rightarrow> (go_error \<Rightarrow> string) \<Rightarrow> (nat \<Rightarrow> OutboxMessage \<Rightarrow> go_error option) \<Rightarrow> (nat \<Rightarrow> go_error option)
   \<Rightarrow> world \<Rightarrow> world \<times> (int \<times> go_error option) \<times> dispatch_obs list" where
  "DispatchOnce srt cfg workerID err_text sink stopped w =
     (case store_at (OutboxRepository_Lease srt
             \<lparr>ol_WorkerID = workerID, ol_LeaseFor = dc_Lease cfg, ol_Limit = dc_BatchSize cfg\<rparr>) w of
        (w1, Inl err) \<Rightarrow> (w1, (0, Some err), [])
      | (w1, Inr leased) \<Rightarrow>
         (let pre = RoundLeased (int (length leased))
                # (case OutboxRepository_Stats (w_store w1) of Inl _ \<Rightarrow> [] | Inr states \<Rightarrow> [OutboxStates states])
          in case dispatch_loop cfg workerID err_text sink stopped 0 leased w1 of
               (w2, err, obs) \<Rightarrow> (w2, (int (length leased), err), pre @ obs)))"

subsection \<open>Laws\<close>

text \<open>Every row can be reached by its id (no id was published twice).\<close>

definition ids_indexed :: "storeState \<Rightarrow> bool" where
  "ids_indexed st \<longleftrightarrow> (\<forall>a \<in> set (st_outbox st). lookup (st_outboxByID st) (obx_ID (row st a)) = Some a)"


lemma sint_maxBackoff: "sint maxBackoff = 86400000000000"
  by (simp add: maxBackoff_def)

lemma sint_double:
  fixes b :: "64 word"
  assumes "0 < sint b" and "sint b < 86400000000000"
  shows "sint (push_bit 1 b) = 2 * sint b"
proof -
  have "push_bit 1 b = 2 * b" by (simp add: push_bit_eq_mult)
  moreover have "sint (2 * b) = 2 * sint b"
    using assms signed_take_bit_int_eq_self [of 63 "2 * sint b"] sint_word_ariths(3) [of 2 b] by simp
  ultimately show ?thesis by (simp add: mult.commute)
qed

lemma backoff_loop_exact:
  assumes "0 < sint base"
  shows "sint (backoff_loop n base) = min 86400000000000 (sint base * 2 ^ n)"
  using assms
proof (induction n arbitrary: base)
  case 0
  then show ?case by (simp add: word_sless_alt sint_maxBackoff)
next
  case (Suc n)
  show ?case
  proof (cases "maxBackoff \<le>s base")
    case True
    then have "86400000000000 \<le> sint base" by (simp add: word_sle_eq sint_maxBackoff)
    moreover have "sint base \<le> sint base * 2 ^ Suc n" using Suc.prems by (simp add: mult_le_cancel_left1 del: power_Suc)
    ultimately have "min 86400000000000 (sint base * 2 ^ Suc n) = 86400000000000" by linarith
    then show ?thesis using True by (simp add: sint_maxBackoff del: power_Suc)
  next
    case False
    then have "sint (push_bit 1 base) = 2 * sint base"
      using sint_double [OF Suc.prems] by (simp add: word_sle_eq sint_maxBackoff)
    then show ?thesis using Suc False by (simp add: mult.left_commute mult.commute)
  qed
qed

text \<open>
  C36: backoff saturates and never wraps. For every 64-bit base and every attempt number the
  computed delay is the base doubled once per prior attempt (at most 16 times), capped at 24
  hours, and zero for a base that is not positive.
\<close>

theorem backoff_saturates:
  "sint (backoffFor base attempts) =
     (if sint base \<le> 0 then 0 else min (24 * Hour) (sint base * 2 ^ nat (min (attempts - 1) 16)))
   \<and> 0 \<le> sint (backoffFor base attempts) \<and> sint (backoffFor base attempts) \<le> 24 * Hour"
proof -
  have "minInt (attempts - 1) 16 = min (attempts - 1) 16" by (simp add: minInt_def)
  then have "sint (backoffFor base attempts) =
      (if sint base \<le> 0 then 0 else min (24 * Hour) (sint base * 2 ^ nat (min (attempts - 1) 16)))"
    using backoff_loop_exact [of base] by (simp add: backoffFor_def word_sle_eq)
  then show ?thesis by (auto simp: min_def)
qed

text \<open>What settling a leased row does, and the loop over the batch.\<close>

definition settled ::
  "DispatcherConfig \<Rightarrow> (go_error \<Rightarrow> string) \<Rightarrow> go_error option \<Rightarrow> outboxMessage \<Rightarrow> outboxMessage \<Rightarrow> bool" where
  "settled cfg err_text answer m m' \<longleftrightarrow>
     (\<exists>t. m' = (case answer of
        None \<Rightarrow> deliverRow m t
      | Some e \<Rightarrow> failRow m (sint (backoffFor (dc_RetryBackoffBase cfg) (obx_Attempts m))) (safeErr err_text e) t))"

lemma settle_step:
  assumes "lookup (st_outboxByID (w_store w)) (obx_ID (row (w_store w) a)) = Some a"
    and "obx_Status (row (w_store w) a) = OutboxLeased" "obx_LeasedBy (row (w_store w) a) = workerID"
  shows "\<exists>w1. store_at (OutboxRepository_MarkDelivered (obx_ID (row (w_store w) a)) workerID) w = (w1, Inr ())
      \<and> w_store w1 = set_row a (deliverRow (row (w_store w) a) (w_clock w (w_ticks w))) (w_store w)"
    and "\<exists>w1. store_at (OutboxRepository_FailWithBackoff (obx_ID (row (w_store w) a)) workerID retryIn cause) w = (w1, Inr ())
      \<and> w_store w1 = set_row a (failRow (row (w_store w) a) retryIn cause (w_clock w (w_ticks w))) (w_store w)"
proof -
  have "leased_row (obx_ID (row (w_store w) a)) workerID (w_store w) = Some a"
    using assms by (simp add: leased_row_Some)
  then show "\<exists>w1. store_at (OutboxRepository_MarkDelivered (obx_ID (row (w_store w) a)) workerID) w = (w1, Inr ())
      \<and> w_store w1 = set_row a (deliverRow (row (w_store w) a) (w_clock w (w_ticks w))) (w_store w)"
    and "\<exists>w1. store_at (OutboxRepository_FailWithBackoff (obx_ID (row (w_store w) a)) workerID retryIn cause) w = (w1, Inr ())
      \<and> w_store w1 = set_row a (failRow (row (w_store w) a) retryIn cause (w_clock w (w_ticks w))) (w_store w)"
    by (simp_all add: store_at_def seq_op_def Now_def on_store_def OutboxRepository_MarkDelivered_def
        OutboxRepository_FailWithBackoff_def)
qed

lemma dispatch_loop_settles:
  assumes "dispatch_loop cfg workerID err_text sink stopped i (map (\<lambda>a. outMessage (row (w_store w) a)) as) w = (w', e, obs)"
    and "distinct as"
    and "\<forall>a \<in> set as. lookup (st_outboxByID (w_store w)) (obx_ID (row (w_store w) a)) = Some a
      \<and> obx_Status (row (w_store w) a) = OutboxLeased \<and> obx_LeasedBy (row (w_store w) a) = workerID"
  shows "\<exists>s \<le> length as. (\<forall>a. a \<notin> set (take s as) \<longrightarrow> row (w_store w') a = row (w_store w) a)
    \<and> (\<forall>j < s. settled cfg err_text (sink (i + j) (outMessage (row (w_store w) (as ! j))))
          (row (w_store w) (as ! j)) (row (w_store w') (as ! j)))
    \<and> (e = None \<longrightarrow> s = length as) \<and> (e \<noteq> None \<longrightarrow> s < length as \<and> e = stopped (i + s))"
  using assms
proof (induction as arbitrary: i w w' e obs)
  case Nil
  then show ?case by simp
next
  case (Cons a as)
  let ?st = "w_store w" and ?m = "row (w_store w) a"
  let ?answer = "sink i (outMessage ?m)"
  have here: "lookup (st_outboxByID ?st) (obx_ID ?m) = Some a" "obx_Status ?m = OutboxLeased" "obx_LeasedBy ?m = workerID"
    using Cons.prems(3) by auto
  have om: "om_ID (outMessage ?m) = obx_ID ?m" "om_Attempts (outMessage ?m) = obx_Attempts ?m" by (simp_all add: outMessage_def)
  show ?case
  proof (cases "?answer \<noteq> None \<and> stopped i \<noteq> None")
    case True
    then have "w' = w \<and> e = stopped i" using Cons.prems(1) by auto
    then show ?thesis using True by (intro exI [of _ 0]) auto
  next
    case go: False
    obtain w1 m1 obs1 where w1: "w_store w1 = set_row a m1 ?st" "settled cfg err_text ?answer ?m m1"
        "dispatch_loop cfg workerID err_text sink stopped (Suc i) (map (\<lambda>a. outMessage (row ?st a)) as) w1 = (w', e, obs1)"
    proof (cases ?answer)
      case None
      then show thesis
        using settle_step(1) [OF here] Cons.prems(1) that
        by (auto simp: om settled_def split: prod.splits)
    next
      case (Some err)
      let ?r = "sint (backoffFor (dc_RetryBackoffBase cfg) (obx_Attempts ?m))"
      from Some show thesis
        using settle_step(2) [OF here, of ?r "safeErr err_text err"] Cons.prems(1) that go
        by (auto simp: om settled_def Let_def split: prod.splits)
    qed
    have rows: "row (w_store w1) b = row ?st b" if "b \<noteq> a" for b using that by (simp add: w1(1))
    have other: "b \<noteq> a" if "b \<in> set as" for b using that Cons.prems(2) by auto
    have "map (\<lambda>b. outMessage (row ?st b)) as = map (\<lambda>b. outMessage (row (w_store w1) b)) as"
      using rows other by (intro map_cong) auto
    note IH = Cons.IH [OF w1(3) [unfolded this]]
    have "st_outboxByID (w_store w1) = st_outboxByID ?st" by (simp add: w1(1) set_row_def)
    then have "\<forall>b \<in> set as. lookup (st_outboxByID (w_store w1)) (obx_ID (row (w_store w1) b)) = Some b
      \<and> obx_Status (row (w_store w1) b) = OutboxLeased \<and> obx_LeasedBy (row (w_store w1) b) = workerID"
      using Cons.prems(3) rows other by simp
    then obtain s where s: "s \<le> length as" "\<forall>b. b \<notin> set (take s as) \<longrightarrow> row (w_store w') b = row (w_store w1) b"
        "\<forall>j < s. settled cfg err_text (sink (Suc i + j) (outMessage (row (w_store w1) (as ! j))))
          (row (w_store w1) (as ! j)) (row (w_store w') (as ! j))"
        "e = None \<longrightarrow> s = length as" "e \<noteq> None \<longrightarrow> s < length as \<and> e = stopped (Suc i + s)"
      using IH Cons.prems(2) by auto
    have "a \<notin> set (take s as)" using Cons.prems(2) by (auto dest: in_set_takeD)
    then have a': "row (w_store w') a = m1" using s(2) by (simp add: w1(1))
    have nth: "row (w_store w1) (as ! j) = row ?st (as ! j)" if "j < s" for j
      using that s(1) other rows by simp
    show ?thesis
    proof (intro exI [of _ "Suc s"] conjI allI impI)
      fix j assume j: "j < Suc s"
      show "settled cfg err_text (sink (i + j) (outMessage (row ?st ((a # as) ! j)))) (row ?st ((a # as) ! j))
          (row (w_store w') ((a # as) ! j))"
        using j a' w1(2) s(3) nth by (cases j) auto
    next
      fix b assume "b \<notin> set (take (Suc s) (a # as))"
      then show "row (w_store w') b = row ?st b" using s(2) rows by auto
    qed (use s in auto)
  qed
qed

lemma settled_outcome:
  assumes "settled cfg err_text answer (leaseRow m workerID u) m'"
  shows "obx_Attempts m' = obx_Attempts m + 1"
    and "case answer of
      None \<Rightarrow> obx_Status m' = OutboxDelivered
    | Some err \<Rightarrow> obx_LastError m' = take 512 (err_text err)
        \<and> (if obx_Attempts m + 1 \<ge> obx_MaxAttempts m then obx_Status m' = OutboxDead
           else obx_Status m' = OutboxPending
             \<and> (\<exists>t. obx_AvailableAt m' = t + sint (backoffFor (dc_RetryBackoffBase cfg) (obx_Attempts m + 1))))"
  using assms
  by (auto simp: settled_def leaseRow_def deliverRow_def failRow_def safeErr_def maxCauseLen_def Let_def split: option.splits)

text \<open>
  A dispatch round accounts for every message it leased. The batch is at most the configured
  size; a settled message whose delivery succeeded is delivered, one whose delivery failed is dead
  exactly when the attempt was its last and is otherwise pending behind the computed backoff, with
  its cause recorded. Every message is settled unless the round was stopped, and then the rest
  stay leased until their lease runs out. No other row changes.
\<close>

theorem dispatch_round_settles:
  assumes "sort_slice srt" and "outbox_ok (w_store w)" and "ids_indexed (w_store w)"
    and "DispatcherConfig_Validate cfg = Inr ()"
    and "DispatchOnce srt cfg workerID err_text sink stopped w = (w', (n, e), obs)"
  shows "\<exists>as s now. n = int (length as) \<and> n \<le> dc_BatchSize cfg \<and> distinct as \<and> set as \<subseteq> set (st_outbox (w_store w))
    \<and> s \<le> length as \<and> (e = None \<longrightarrow> s = length as) \<and> (e \<noteq> None \<longrightarrow> s < length as \<and> e = stopped s)
    \<and> (\<forall>a. a \<notin> set as \<longrightarrow> row (w_store w') a = row (w_store w) a)
    \<and> (\<forall>j < length as. let m = row (w_store w) (as ! j); m' = row (w_store w') (as ! j);
          leased = leaseRow m workerID (now + dc_Lease cfg) in
        due now m \<and> obx_Attempts m' = obx_Attempts m + 1
        \<and> (if s \<le> j then m' = leased
           else case sink j (outMessage leased) of
             None \<Rightarrow> obx_Status m' = OutboxDelivered
           | Some err \<Rightarrow> obx_LastError m' = take 512 (err_text err)
               \<and> (if obx_Attempts m + 1 \<ge> obx_MaxAttempts m then obx_Status m' = OutboxDead
                  else obx_Status m' = OutboxPending
                    \<and> (\<exists>t. obx_AvailableAt m' = t + sint (backoffFor (dc_RetryBackoffBase cfg) (obx_Attempts m + 1))))))"
proof -
  let ?st = "w_store w"
  define now where "now = w_clock w (w_ticks w)"
  define req where "req = \<lparr>ol_WorkerID = workerID, ol_LeaseFor = dc_Lease cfg, ol_Limit = dc_BatchSize cfg\<rparr>"
  define as where "as = due_rows srt req now ?st"
  have rq: "ol_WorkerID req = workerID" "ol_LeaseFor req = dc_Lease cfg" "ol_Limit req = dc_BatchSize cfg"
    by (simp_all add: req_def)
  have s: "struct_ok ?st" using assms(2) by (simp add: outbox_ok_def)
  have size: "0 \<le> dc_BatchSize cfg" using assms(4) by (auto simp: DispatcherConfig_Validate_def split: if_splits)
  define st1 where "st1 = ?st\<lparr>st_heap := \<lambda>b. if b \<in> set as then leaseRow (st_heap ?st b) workerID (now + dc_Lease cfg)
      else st_heap ?st b\<rparr>"
  have row1: "row st1 b = (if b \<in> set as then leaseRow (row ?st b) workerID (now + dc_Lease cfg) else row ?st b)" for b
    by (simp add: st1_def row_def)
  have msgs: "map (\<lambda>a. outMessage (leaseRow (row ?st a) workerID (now + dc_Lease cfg))) as
      = map (\<lambda>a. outMessage (row st1 a)) as" by (simp add: row1)
  have lease: "OutboxRepository_Lease srt req now ?st = (st1, Inr (map (\<lambda>a. outMessage (row st1 a)) as))"
    using Lease_eq [OF assms(1) s, of req now] size unfolding msgs [symmetric] as_def [symmetric] rq st1_def
    by (simp add: row_def)
  define w1 where "w1 = w\<lparr>w_ticks := w_ticks w + 1, w_store := st1\<rparr>"
  have "store_at (OutboxRepository_Lease srt req) w = (w1, Inr (map (\<lambda>a. outMessage (row st1 a)) as))"
    using lease by (simp add: store_at_def seq_op_def Now_def on_store_def now_def w1_def)
  then obtain obs1 where loop: "dispatch_loop cfg workerID err_text sink stopped 0 (map (\<lambda>a. outMessage (row st1 a)) as) w1
      = (w', e, obs1)" and n: "n = int (length as)"
    using assms(5) by (auto simp: DispatchOnce_def req_def Let_def split: prod.splits)
  note props = due_rows_props [OF assms(1) s, where req = req and now = now, folded as_def]
  have "\<forall>a \<in> set as. lookup (st_outboxByID st1) (obx_ID (row st1 a)) = Some a
      \<and> obx_Status (row st1 a) = OutboxLeased \<and> obx_LeasedBy (row st1 a) = workerID"
    using assms(3) props(2) by (auto simp: row1 ids_indexed_def) (auto simp: st1_def leaseRow_def)
  then have ready: "\<forall>a \<in> set as. lookup (st_outboxByID (w_store w1)) (obx_ID (row (w_store w1) a)) = Some a
      \<and> obx_Status (row (w_store w1) a) = OutboxLeased \<and> obx_LeasedBy (row (w_store w1) a) = workerID"
    by (simp add: w1_def)
  have st1: "w_store w1 = st1" by (simp add: w1_def)
  obtain k where k: "k \<le> length as" "\<forall>a. a \<notin> set (take k as) \<longrightarrow> row (w_store w') a = row st1 a"
      "\<forall>j < k. settled cfg err_text (sink j (outMessage (row st1 (as ! j)))) (row st1 (as ! j)) (row (w_store w') (as ! j))"
      "e = None \<longrightarrow> k = length as" "e \<noteq> None \<longrightarrow> k < length as \<and> e = stopped k"
    using dispatch_loop_settles [OF _ props(1) ready] loop unfolding st1 by (metis add_0)
  have size': "int (length as) \<le> dc_BatchSize cfg"
    using size by (simp add: as_def due_rows_def req_def)
  have out: "row (w_store w') a = row ?st a" if "a \<notin> set as" for a
    using that k(2) row1 by (metis in_set_takeD)
  have each: "let m = row ?st (as ! j); m' = row (w_store w') (as ! j); leased = leaseRow m workerID (now + dc_Lease cfg) in
        due now m \<and> obx_Attempts m' = obx_Attempts m + 1
        \<and> (if k \<le> j then m' = leased
           else case sink j (outMessage leased) of
             None \<Rightarrow> obx_Status m' = OutboxDelivered
           | Some err \<Rightarrow> obx_LastError m' = take 512 (err_text err)
               \<and> (if obx_Attempts m + 1 \<ge> obx_MaxAttempts m then obx_Status m' = OutboxDead
                  else obx_Status m' = OutboxPending
                    \<and> (\<exists>t. obx_AvailableAt m' = t + sint (backoffFor (dc_RetryBackoffBase cfg) (obx_Attempts m + 1)))))"
    if j: "j < length as" for j
  proof -
    have m1: "row st1 (as ! j) = leaseRow (row ?st (as ! j)) workerID (now + dc_Lease cfg)" using j by (simp add: row1)
    have d: "due now (row ?st (as ! j))" using j props(2) nth_mem by blast
    show ?thesis
    proof (cases "k \<le> j")
      case True
      have "as ! j \<notin> set (take k as)"
        using True j props(1) by (auto simp: in_set_conv_nth nth_eq_iff_index_eq)
      then show ?thesis using True k(2) m1 d by (simp add: Let_def leaseRow_def)
    next
      case False
      then have "settled cfg err_text (sink j (outMessage (leaseRow (row ?st (as ! j)) workerID (now + dc_Lease cfg))))
          (leaseRow (row ?st (as ! j)) workerID (now + dc_Lease cfg)) (row (w_store w') (as ! j))"
        using k(3) unfolding m1 [symmetric] by simp
      from settled_outcome [OF this] False d show ?thesis by (simp add: Let_def)
    qed
  qed
  show ?thesis
    by (rule exI [of _ as], rule exI [of _ k], rule exI [of _ now])
      (use n size' props k(1,4,5) out each in auto)
qed

text \<open>A round over one due message whose only delivery attempt fails.\<close>

definition ex_dispatch :: DispatcherConfig where
  "ex_dispatch = \<lparr>dc_BatchSize = 8, dc_Interval = Second, dc_Lease = Second, dc_MaxAttempts = 5, dc_RetryBackoffBase = 1000\<rparr>"

lemma ex_dispatch_valid: "DispatcherConfig_Validate ex_dispatch = Inr ()"
  by (simp add: DispatcherConfig_Validate_def ex_dispatch_def)

theorem dispatch_round_settles_witness:
  "\<exists>w' e obs. DispatchOnce insertion_sort ex_dispatch ''A'' (\<lambda>_. ''down'') (\<lambda>_ _. Some Foreign) (\<lambda>_. None) (ex_world ex_outbox)
      = (w', (1, None), obs) \<and> obx_Status (row (w_store w') 0) = OutboxDead \<and> obx_LastError (row (w_store w') 0) = ''down''"
proof -
  let ?D = "DispatchOnce insertion_sort ex_dispatch ''A'' (\<lambda>_. ''down'') (\<lambda>_ _. Some Foreign) (\<lambda>_. None) (ex_world ex_outbox)"
  have due: "filter (\<lambda>a. due 0 (row ex_outbox a)) (st_outbox ex_outbox) = [0]"
    by (simp add: ex_outbox_simps due_def new_row_def)
  have st: "w_store (ex_world ex_outbox) = ex_outbox" by (simp add: ex_world_def)
  have "\<exists>w' obs. ?D = (w', (1, None), obs)"
    using due
    by (simp add: DispatchOnce_def store_at_def seq_op_def Now_def on_store_def OutboxRepository_Lease_def ex_world_def
        ex_dispatch_def OutboxRepository_Stats_def OutboxRepository_FailWithBackoff_def leased_row_def set_row_def
        ex_outbox_simps leaseRow_def outMessage_def row_def new_row_def Let_def split: prod.splits)
  then obtain w' obs where d: "?D = (w', (1, None), obs)" by blast
  have ix: "ids_indexed ex_outbox" by (simp add: ids_indexed_def ex_outbox_simps new_row_def)
  obtain as now where as: "(1::int) = int (length as)" "set as \<subseteq> set (st_outbox ex_outbox)"
      "\<forall>j < length as. obx_LastError (row (w_store w') (as ! j)) = take 512 ''down''
        \<and> (if obx_Attempts (row ex_outbox (as ! j)) + 1 \<ge> obx_MaxAttempts (row ex_outbox (as ! j))
           then obx_Status (row (w_store w') (as ! j)) = OutboxDead else True)"
    using dispatch_round_settles [OF isort.sort_slice_axioms _ _ ex_dispatch_valid d] outbox_ok_ex_outbox ix unfolding st
    by (fastforce simp: Let_def split: if_splits)
  then have "as = [0]" by (cases as) (auto simp: ex_outbox_simps)
  with as(3) d show ?thesis by (simp add: ex_outbox_simps new_row_def)
qed

end
