(* ===== verification/Run_Engine.thy ===== *)
theory Run_Engine
  imports Policy_Engine
begin

section \<open>The run engine: starting, transitions, recovery (internal/orchestration)\<close>

text \<open>
  The engine over the store: starting a run (engine.go), the version-guarded transitions with
  their events, and the two convergences of abandoned runs (recovery.go, exhausted.go). Code the
  engine only calls is collected in \<open>Deps\<close>: the JSON encoding of an event (\<open>dep_marshal\<close>) and
  the text of an error (\<open>dep_text\<close>). An operation that mutates the caller's entity returns the
  entity as the caller then sees it.
\<close>

record Deps =
  dep_marshal :: "Event \<Rightarrow> bytes result"
  dep_text :: "go_error \<Rightarrow> string"

fun RunStatus_name :: "RunStatus \<Rightarrow> string" where
  "RunStatus_name RunPending = ''pending''"
| "RunStatus_name RunPlanning = ''planning''"
| "RunStatus_name RunExecuting = ''executing_tasks''"
| "RunStatus_name RunIntegrating = ''integrating''"
| "RunStatus_name RunVerifying = ''verifying''"
| "RunStatus_name RunReporting = ''reporting''"
| "RunStatus_name RunCompleted = ''completed''"
| "RunStatus_name RunFailed = ''failed''"
| "RunStatus_name RunCancelled = ''cancelled''"

fun ThreadStatus_name :: "ThreadStatus \<Rightarrow> string" where
  "ThreadStatus_name ThreadIdle = ''idle''"
| "ThreadStatus_name ThreadPlanning = ''planning''"
| "ThreadStatus_name ThreadAwaitingInput = ''awaiting_input''"
| "ThreadStatus_name ThreadReadyToExecute = ''ready_to_execute''"
| "ThreadStatus_name ThreadExecuting = ''executing''"
| "ThreadStatus_name ThreadWaitingExternal = ''waiting_external''"
| "ThreadStatus_name ThreadNeedsAttention = ''needs_attention''"
| "ThreadStatus_name ThreadReviewing = ''reviewing''"
| "ThreadStatus_name ThreadFixing = ''fixing''"
| "ThreadStatus_name ThreadReadyForReview = ''ready_for_review''"
| "ThreadStatus_name ThreadMerged = ''merged''"
| "ThreadStatus_name ThreadFailed = ''failed''"
| "ThreadStatus_name ThreadArchived = ''archived''"

fun TaskStatus_name :: "TaskStatus \<Rightarrow> string" where
  "TaskStatus_name TaskDraft = ''draft''"
| "TaskStatus_name TaskQueued = ''queued''"
| "TaskStatus_name TaskProvisioning = ''provisioning''"
| "TaskStatus_name TaskWorking = ''working''"
| "TaskStatus_name TaskVerifying = ''verifying''"
| "TaskStatus_name TaskIntegrating = ''integrating''"
| "TaskStatus_name TaskDone = ''done''"
| "TaskStatus_name TaskWaitingExternal = ''waiting_external''"
| "TaskStatus_name TaskBlocked = ''blocked''"
| "TaskStatus_name TaskCancelled = ''cancelled''"
| "TaskStatus_name TaskFailed = ''failed''"

subsection \<open>Events\<close>

definition newID :: "string \<Rightarrow> string eng_op" where
  "newID prefix = wrap_op (RandomIDs_NewID prefix)"

definition emitEvent :: "Deps \<Rightarrow> ctx \<Rightarrow> Event \<Rightarrow> Event eng_op" where
  "emitEvent deps ctx event =
     seq_op (newID PrefixEvent) (\<lambda>ident.
     seq_op Now (\<lambda>now.
       store_at (EventRepository_Append (dep_marshal deps)
         (event\<lparr>event_ID := ident, event_OccurredAt := now,
            event_TraceID := TraceID (ctx_corr ctx) (event_TraceID event)\<rparr>))))"

definition new_event ::
  "EventType \<Rightarrow> string \<Rightarrow> string \<Rightarrow> string \<Rightarrow> int \<Rightarrow> string \<Rightarrow> (string, dval) gomap \<Rightarrow> Event" where
  "new_event eventType tenant aggType aggID aggVersion runID data =
     \<lparr>event_ID = [], event_Type = eventType, event_OccurredAt = 0, event_TenantID = tenant,
      event_AggregateType = aggType, event_AggregateID = aggID, event_AggregateVersion = aggVersion,
      event_Actor = zero_Actor, event_TraceID = [], event_Seq = 0, event_RunID = runID, event_Data = data\<rparr>"

definition evtFromThread :: "Thread \<Rightarrow> EventType \<Rightarrow> (string, dval) gomap \<Rightarrow> Event" where
  "evtFromThread thread eventType data =
     new_event eventType (thread_TenantID thread) ''thread'' (thread_ID thread) (thread_Version thread) [] data"

definition evtFromRun :: "Run \<Rightarrow> EventType \<Rightarrow> (string, dval) gomap \<Rightarrow> Event" where
  "evtFromRun run eventType data =
     new_event eventType (run_TenantID run) ''run'' (run_ID run) (run_Version run) (run_ID run) data"

definition evtFromTask :: "Task \<Rightarrow> EventType \<Rightarrow> (string, dval) gomap \<Rightarrow> Event" where
  "evtFromTask task eventType data =
     new_event eventType (task_TenantID task) ''task'' (task_ID task) (task_Version task) (task_RunID task) data"

text \<open>\<^verbatim>\<open>for k, v := range extra { data[k] = v }\<close>\<close>

fun merge_data :: "(string, dval) gomap \<Rightarrow> (string, dval) gomap \<Rightarrow> (string, dval) gomap" where
  "merge_data data [] = data"
| "merge_data data ((k, v) # extra) = merge_data (insert_map k v data) extra"

subsection \<open>Transitions\<close>

definition transitionRun :: "Deps \<Rightarrow> ctx \<Rightarrow> Run \<Rightarrow> RunStatus \<Rightarrow> Run eng_op" where
  "transitionRun deps ctx run nxt = Do ctx (\<lambda>ctx.
     let expected = run_Version run in
     seq_op (pure_op (Run_TransitionTo run nxt)) (\<lambda>run.
     seq_op (on_store (RunRepository_Update run expected)) (\<lambda>run.
     seq_op (emitEvent deps ctx (evtFromRun run EventRunStatusChanged [(''to'', DStr (RunStatus_name nxt))])) (\<lambda>_.
       return_op run))))"

definition transitionThreadWithData ::
  "Deps \<Rightarrow> ctx \<Rightarrow> Thread \<Rightarrow> ThreadStatus \<Rightarrow> (string, dval) gomap \<Rightarrow> Thread eng_op" where
  "transitionThreadWithData deps ctx thread nxt extra = Do ctx (\<lambda>ctx.
     let expected = thread_Version thread in
     seq_op (pure_op (Thread_TransitionTo thread nxt)) (\<lambda>thread.
     seq_op (on_store (ThreadRepository_Update thread expected)) (\<lambda>thread.
     seq_op (emitEvent deps ctx (evtFromThread thread EventThreadStatusChanged
         (merge_data [(''to'', DStr (ThreadStatus_name nxt))] extra))) (\<lambda>_.
       return_op thread))))"

definition transitionThread :: "Deps \<Rightarrow> ctx \<Rightarrow> Thread \<Rightarrow> ThreadStatus \<Rightarrow> Thread eng_op" where
  "transitionThread deps ctx thread nxt = transitionThreadWithData deps ctx thread nxt []"

definition transitionTask :: "Deps \<Rightarrow> ctx \<Rightarrow> Task \<Rightarrow> TaskStatus \<Rightarrow> Task eng_op" where
  "transitionTask deps ctx task nxt = Do ctx (\<lambda>ctx.
     let expected = task_Version task in
     seq_op (pure_op (Task_TransitionTo task nxt)) (\<lambda>task.
     seq_op (on_store (TaskRepository_Update task expected)) (\<lambda>task.
     seq_op (emitEvent deps ctx (evtFromTask task EventTaskStatusChanged
         [(''to'', DStr (TaskStatus_name nxt)), (''attempts'', DInt (task_Attempts task))])) (\<lambda>_.
       return_op task))))"

subsection \<open>Starting a run\<close>

record StartInput =
  si_TenantID :: string
  si_ThreadID :: string
  si_Principal :: string
  si_Actor :: Actor
  si_IdempotencyKey :: string

record StartResult =
  sr_Run :: Run
  sr_Replayed :: bool

definition start_unit :: "Deps \<Rightarrow> StartInput \<Rightarrow> Thread \<Rightarrow> string \<Rightarrow> ctx \<Rightarrow> Run eng_op" where
  "start_unit deps inp thread runID ctx =
     seq_op Now (\<lambda>now.
     seq_op (pure_op (NewRun runID (si_TenantID inp) (si_ThreadID inp) (si_IdempotencyKey inp) now)) (\<lambda>created.
     let created = created\<lparr>run_Principal := si_Principal inp\<rparr> in
     seq_op (on_store (RunRepository_Create created)) (\<lambda>created.
     seq_op (store_at (RunClaimRepository_Create (run_TenantID created) (run_ID created))) (\<lambda>_.
     seq_op (transitionThreadWithData deps ctx thread ThreadPlanning []) (\<lambda>_.
       return_op created)))))"

definition StartRun :: "Deps \<Rightarrow> ctx \<Rightarrow> StartInput \<Rightarrow> StartResult eng_op" where
  "StartRun deps ctx inp =
     (let byKey = from_store (RunRepository_GetByIdempotencyKey (si_TenantID inp) (si_ThreadID inp) (si_IdempotencyKey inp)) in
     seq_op (pure_op (Actor_Validate (si_Actor inp))) (\<lambda>_.
     seq_op (from_store (ThreadRepository_Get (si_TenantID inp) (si_ThreadID inp))) (\<lambda>thread.
     seq_op (attempt byKey) (\<lambda>existing.
     case existing of
       Inr run \<Rightarrow> return_op \<lparr>sr_Run = run, sr_Replayed = True\<rparr>
     | Inl err \<Rightarrow>
       if ErrKindOf err \<noteq> ErrKindNotFound then throw_op err
       else
       seq_op (attempt (from_store (ProjectRepository_Get (si_TenantID inp) (thread_ProjectID thread)))) (\<lambda>project.
       if isl project then throw_op (Invalidf ''run_project_unknown'')
       else
       seq_op (attempt (from_store (ThreadRepository_Messages (si_TenantID inp) (si_ThreadID inp) 0 1))) (\<lambda>messages.
       if isl messages then throw_op (Invalidf ''run_no_request'')
       else
       seq_op (newID PrefixRun) (\<lambda>runID.
       seq_op (attempt (Do ctx (start_unit deps inp thread runID))) (\<lambda>r.
       case r of
         Inr run \<Rightarrow> return_op \<lparr>sr_Run = run, sr_Replayed = False\<rparr>
       | Inl err \<Rightarrow>
           if ErrKindOf err = ErrKindConflict
           then seq_op (attempt byKey) (\<lambda>replayed.
                  case replayed of
                    Inr run \<Rightarrow> return_op \<lparr>sr_Run = run, sr_Replayed = True\<rparr>
                  | Inl _ \<Rightarrow> throw_op err)
           else throw_op err))))))))"

text \<open>
  \<^verbatim>\<open>Cancel\<close> signals the execution registered for the run in this process; \<open>registered\<close> is
  the set of registered runs and the result is the run whose cancel function was called.
\<close>

definition Cancel :: "string set \<Rightarrow> string \<Rightarrow> string \<Rightarrow> string eng_op" where
  "Cancel registered tenantID runID =
     seq_op (from_store (RunRepository_Get tenantID runID)) (\<lambda>run.
       if Terminal (run_Status run) then throw_op (Conflictf ''run_already_finished'')
       else if runID \<notin> registered then throw_op (Conflictf ''run_not_running'')
       else return_op runID)"

definition registerCancel :: "string set \<Rightarrow> string \<Rightarrow> string set result" where
  "registerCancel registered runID =
     (if runID \<in> registered then Inl (Conflictf ''run_already_running'') else Inr (insert runID registered))"

definition clearCancel :: "string set \<Rightarrow> string \<Rightarrow> string set" where
  "clearCancel registered runID = registered - {runID}"

subsection \<open>Converging abandoned runs (recovery.go, exhausted.go)\<close>

definition InterruptedFailureCode :: string where "InterruptedFailureCode = ''run_interrupted''"
definition ExhaustedFailureCode :: string where "ExhaustedFailureCode = ''run_attempts_exhausted''"

definition safeDetail :: "Deps \<Rightarrow> go_error \<Rightarrow> string" where
  "safeDetail deps err = (let msg = dep_text deps err in if length msg > 512 then take 512 msg else msg)"

text \<open>A thread step whose invalid transition is tolerated.\<close>

definition route_thread :: "Deps \<Rightarrow> ctx \<Rightarrow> Thread \<Rightarrow> ThreadStatus \<Rightarrow> string \<Rightarrow> unit eng_op" where
  "route_thread deps ctx thread nxt reason =
     seq_op (attempt (transitionThreadWithData deps ctx thread nxt [(''reason'', DStr reason)])) (\<lambda>r.
       case r of Inr _ \<Rightarrow> return_op ()
       | Inl terr \<Rightarrow> if ErrKindOf terr = ErrKindInvalidTransition then return_op () else throw_op terr)"

definition routeFailedThread :: "Deps \<Rightarrow> ctx \<Rightarrow> Thread \<Rightarrow> string \<Rightarrow> unit eng_op" where
  "routeFailedThread deps ctx thread reason =
     (if thread_Status thread = ThreadPlanning \<or> thread_Status thread = ThreadExecuting \<or> thread_Status thread = ThreadReviewing
      then route_thread deps ctx thread ThreadFailed reason
      else if thread_Status thread = ThreadReadyToExecute then route_thread deps ctx thread ThreadNeedsAttention reason
      else return_op ())"

text \<open>The unit both convergences commit: the finished run and its status event.\<close>

definition finish_unit :: "Deps \<Rightarrow> Run \<Rightarrow> int \<Rightarrow> (string, dval) gomap \<Rightarrow> ctx \<Rightarrow> Run eng_op" where
  "finish_unit deps run expected data ctx =
     seq_op (on_store (RunRepository_Update run expected)) (\<lambda>run.
     seq_op (emitEvent deps ctx (evtFromRun run EventRunStatusChanged data)) (\<lambda>_. return_op run))"

definition convergeRunToFailed ::
  "Deps \<Rightarrow> ctx \<Rightarrow> Run \<Rightarrow> string \<Rightarrow> string \<Rightarrow> (string, dval) gomap \<Rightarrow> unit eng_op" where
  "convergeRunToFailed deps ctx run code detail eventExtra =
     (if Terminal (run_Status run) then return_op ()
      else
      seq_op (from_store (ThreadRepository_Get (run_TenantID run) (run_ThreadID run))) (\<lambda>thread.
      let failure = \<lparr>fi_Code = code, fi_Message = detail, fi_Transient = False\<rparr>;
          expected = run_Version run in
      seq_op Now (\<lambda>now.
      seq_op (pure_op (Finish run RunFailed now (Some failure))) (\<lambda>run.
      let data = merge_data [(''to'', DStr (RunStatus_name RunFailed)), (''code'', DStr code), (''detail'', DStr detail)] eventExtra in
      seq_op (Do ctx (finish_unit deps run expected data)) (\<lambda>_.
        routeFailedThread deps ctx thread code)))))"

definition RecoverInterrupted :: "Deps \<Rightarrow> ctx \<Rightarrow> string \<Rightarrow> string \<Rightarrow> go_error option \<Rightarrow> unit eng_op" where
  "RecoverInterrupted deps ctx tenantID runID cause =
     seq_op (from_store (RunRepository_Get tenantID runID)) (\<lambda>run.
      if run_Status run = RunPending then throw_op (Conflictf ''run_not_interrupted'')
      else (let detail = (case cause of None \<Rightarrow> ''execution lease lost before completion'' | Some c \<Rightarrow> safeDetail deps c)
            in convergeRunToFailed deps ctx run InterruptedFailureCode detail []))"

definition convergePendingExhausted :: "Deps \<Rightarrow> ctx \<Rightarrow> Run \<Rightarrow> string \<Rightarrow> int \<Rightarrow> unit eng_op" where
  "convergePendingExhausted deps ctx run detail attempts =
     (if Terminal (run_Status run) then return_op ()
      else
      seq_op (from_store (ThreadRepository_Get (run_TenantID run) (run_ThreadID run))) (\<lambda>thread.
      let expected = run_Version run in
      seq_op Now (\<lambda>now.
      seq_op (pure_op (Finish run RunCancelled now None)) (\<lambda>run.
      seq_op (Do ctx (finish_unit deps run expected
          [(''to'', DStr (RunStatus_name RunCancelled)), (''code'', DStr ExhaustedFailureCode),
           (''detail'', DStr detail), (''attempts'', DInt attempts)])) (\<lambda>_.
        if thread_Status thread = ThreadPlanning then route_thread deps ctx thread ThreadAwaitingInput ExhaustedFailureCode
        else if thread_Status thread = ThreadExecuting \<or> thread_Status thread = ThreadReadyToExecute
        then route_thread deps ctx thread ThreadNeedsAttention ExhaustedFailureCode
        else return_op ())))))"

definition ConvergeExhausted :: "Deps \<Rightarrow> ctx \<Rightarrow> string \<Rightarrow> string \<Rightarrow> int \<Rightarrow> go_error option \<Rightarrow> unit eng_op" where
  "ConvergeExhausted deps ctx tenantID runID attempts cause =
     (let detail = (case cause of None \<Rightarrow> ''dispatch attempts exhausted without reaching a terminal state''
                    | Some c \<Rightarrow> safeDetail deps c) in
      seq_op (from_store (RunRepository_Get tenantID runID)) (\<lambda>run.
       if run_Status run = RunPending then convergePendingExhausted deps ctx run detail attempts
       else convergeRunToFailed deps ctx run ExhaustedFailureCode detail [(''attempts'', DInt attempts)]))"

subsection \<open>Frames\<close>

lemma wframe_emitEvent [wframes]: "op_rel wframe (emitEvent deps ctx evt)"
  unfolding emitEvent_def newID_def by (auto intro!: wframes)

lemma wframe_newID [wframes]: "op_rel wframe (newID p)"
  unfolding newID_def by (auto intro!: wframes)

lemma wframe_transitions [wframes]:
  "op_rel wframe (transitionRun deps ctx run nxt)"
  "op_rel wframe (transitionThreadWithData deps ctx thread tnxt extra)"
  "op_rel wframe (transitionTask deps ctx task knxt)"
  unfolding transitionRun_def transitionThreadWithData_def transitionTask_def Let_def by (auto intro!: wframes)

lemma wframe_start_unit [wframes]: "op_rel wframe (start_unit deps inp thread runID ctx)"
  unfolding start_unit_def Let_def by (auto intro!: wframes)

lemma wframe_finish_unit [wframes]: "op_rel wframe (finish_unit deps run expected data ctx)"
  unfolding finish_unit_def by (auto intro!: wframes)

interpretation start: unit_of_work "start_unit deps inp thread runID" for deps inp thread runID
  by unfold_locales (rule wframes)

interpretation finish: unit_of_work "finish_unit deps run expected data" for deps run expected data
  by unfold_locales (rule wframes)

subsection \<open>What the steps leave in the store\<close>

text \<open>The entity tables, which appending an event never touches.\<close>

definition entities :: "storeState \<Rightarrow> storeState" where
  "entities st = st\<lparr>st_events := [], st_eventSeq := 0, st_heap := (\<lambda>_. no_row), st_next := 0, st_outbox := [],
     st_outboxByID := [], st_outboxByDedup := []\<rparr>"

lemma entities_fields:
  assumes "entities st' = entities st"
  shows "st_runs st' = st_runs st" and "st_threads st' = st_threads st" and "st_runIdemKeys st' = st_runIdemKeys st"
    and "st_runClaims st' = st_runClaims st" and "st_projects st' = st_projects st" and "st_messages st' = st_messages st"
    and "st_tasks st' = st_tasks st" and "st_auditLog st' = st_auditLog st"
  using assms [unfolded entities_def] by (auto dest: arg_cong [where f = st_runs] arg_cong [where f = st_threads]
      arg_cong [where f = st_runIdemKeys] arg_cong [where f = st_runClaims] arg_cong [where f = st_projects]
      arg_cong [where f = st_messages] arg_cong [where f = st_tasks] arg_cong [where f = st_auditLog])

lemma view_entities: "view st' = view st \<Longrightarrow> entities st' = entities st"
proof -
  assume "view st' = view st"
  then have "entities (fst (view st')) = entities (fst (view st))" by simp
  then show ?thesis by (simp add: view_def entities_def)
qed

lemma wview_entities: "wview w' = wview w \<Longrightarrow> entities (w_store w') = entities (w_store w)"
  unfolding wview_def by (rule view_entities)

lemma wview_events: "wview w' = wview w \<Longrightarrow> st_events (w_store w') = st_events (w_store w)"
  unfolding wview_def view_def by (auto dest: arg_cong [where f = st_events])

lemma Append_entities: "entities (fst (EventRepository_Append marshal evt now st)) = entities st"
  by (simp add: EventRepository_Append_def entities_def alloc_row_def Let_def split: sum.splits)

lemma store_at_eq: "store_at f w = on_store (f (w_clock w (w_ticks w))) (w\<lparr>w_ticks := w_ticks w + 1\<rparr>)"
  by (simp add: store_at_def seq_op_def Now_def)

lemma emitEvent_ok:
  assumes "emitEvent deps ctx evt w = (w', Inr evt')"
  shows "entities (w_store w') = entities (w_store w)" and "st_events (w_store w') = st_events (w_store w) @ [evt']"
    and "event_Type evt' = event_Type evt" and "event_AggregateID evt' = event_AggregateID evt"
    and "event_Data evt' = event_Data evt" and "event_AggregateVersion evt' = event_AggregateVersion evt"
proof -
  obtain ident now t where a: "EventRepository_Append (dep_marshal deps)
        (evt\<lparr>event_ID := ident, event_OccurredAt := now, event_TraceID := TraceID (ctx_corr ctx) (event_TraceID evt)\<rparr>)
        t (w_store w) = (w_store w', Inr evt')"
    using assms unfolding emitEvent_def newID_def
    by (elim seq_op_Inr) (auto simp: store_at_eq on_store_def wrap_op_def RandomIDs_NewID_def Now_def
        split: prod.splits sum.splits)
  show "entities (w_store w') = entities (w_store w)"
    using Append_entities [of "dep_marshal deps" _ _ "w_store w"] a by (metis fst_conv)
  show "st_events (w_store w') = st_events (w_store w) @ [evt']" "event_Type evt' = event_Type evt"
      "event_AggregateID evt' = event_AggregateID evt" "event_Data evt' = event_Data evt"
      "event_AggregateVersion evt' = event_AggregateVersion evt"
    using Append_ok [OF a] by simp_all
qed

lemma guarded_update_ok:
  "guarded_update tenant version set_version entity k e expected m = (m', Inr stored) \<longleftrightarrow>
     (\<exists>cur. lookup m k = Some cur \<and> tenant cur = tenant e \<and> version cur = expected
        \<and> stored = set_version (version cur + 1) e \<and> m' = insert_map k stored m)"
  by (auto simp: guarded_update_def Let_def scoped_def split: option.splits if_splits)

text \<open>A committed thread transition, inside a unit of work.\<close>

lemma transitionThread_ok:
  assumes "transitionThreadWithData deps ctx thread nxt extra w = (w', Inr thread')" and "ctx_inUnit ctx"
  shows "CanTransitionThread (thread_Status thread) nxt"
    and "thread' = thread\<lparr>thread_Status := nxt, thread_Version := thread_Version thread + 1\<rparr>"
    and "entities (w_store w') = entities ((w_store w)\<lparr>st_threads := insert_map (thread_ID thread) thread' (st_threads (w_store w))\<rparr>)"
    and "\<exists>evt. st_events (w_store w') = st_events (w_store w) @ [evt] \<and> event_Type evt = EventThreadStatusChanged
      \<and> event_AggregateID evt = thread_ID thread \<and> event_AggregateVersion evt = thread_Version thread + 1"
proof -
  have nested: "transitionThreadWithData deps ctx thread nxt extra =
     (let expected = thread_Version thread in
     seq_op (pure_op (Thread_TransitionTo thread nxt)) (\<lambda>thread.
     seq_op (on_store (ThreadRepository_Update thread expected)) (\<lambda>thread.
     seq_op (emitEvent deps ctx (evtFromThread thread EventThreadStatusChanged
         (merge_data [(''to'', DStr (ThreadStatus_name nxt))] extra))) (\<lambda>_.
       return_op thread))))"
    unfolding transitionThreadWithData_def using assms(2) by (rule Do_nested)
  from assms(1) [unfolded nested Let_def] obtain t w0 where 1: "pure_op (Thread_TransitionTo thread nxt) w = (w0, Inr t)"
      "seq_op (on_store (ThreadRepository_Update t (thread_Version thread))) (\<lambda>thread.
         seq_op (emitEvent deps ctx (evtFromThread thread EventThreadStatusChanged
           (merge_data [(''to'', DStr (ThreadStatus_name nxt))] extra))) (\<lambda>_. return_op thread)) w0 = (w', Inr thread')"
    by (rule seq_op_Inr)
  from 1(2) obtain t1 w1 where 2: "on_store (ThreadRepository_Update t (thread_Version thread)) w0 = (w1, Inr t1)"
      "seq_op (emitEvent deps ctx (evtFromThread t1 EventThreadStatusChanged
           (merge_data [(''to'', DStr (ThreadStatus_name nxt))] extra))) (\<lambda>_. return_op t1) w1 = (w', Inr thread')"
    by (rule seq_op_Inr)
  have t: "w0 = w" "CanTransitionThread (thread_Status thread) nxt"
      "t = thread\<lparr>thread_Status := nxt, thread_Version := thread_Version thread + 1\<rparr>"
    using 1(1) by (auto simp: pure_op_def Thread_TransitionTo_def split: if_splits)
  have t1: "t1 = t" "w_store w1 = (w_store w)\<lparr>st_threads := insert_map (thread_ID thread) t (st_threads (w_store w))\<rparr>"
    using 2(1) by (auto simp: on_store_def ThreadRepository_Update_def guarded_update_ok t split: prod.splits)
  obtain evt where ev: "emitEvent deps ctx (evtFromThread t1 EventThreadStatusChanged
      (merge_data [(''to'', DStr (ThreadStatus_name nxt))] extra)) w1 = (w', Inr evt)" "thread' = t1"
    using 2(2) by (elim seq_op_Inr) (auto simp: return_op_def)
  note steps = t(2) t(3) [folded t1(1), folded ev(2)] t1(2) [folded t1(1), folded ev(2)] ev(1) [folded ev(2)]
  note E = emitEvent_ok [OF steps(4)]
  show "CanTransitionThread (thread_Status thread) nxt"
    and "thread' = thread\<lparr>thread_Status := nxt, thread_Version := thread_Version thread + 1\<rparr>" using steps by auto
  show "entities (w_store w') = entities ((w_store w)\<lparr>st_threads := insert_map (thread_ID thread) thread' (st_threads (w_store w))\<rparr>)"
    using E(1) steps(3) by simp
  show "\<exists>evt. st_events (w_store w') = st_events (w_store w) @ [evt] \<and> event_Type evt = EventThreadStatusChanged
      \<and> event_AggregateID evt = thread_ID thread \<and> event_AggregateVersion evt = thread_Version thread + 1"
    using E(2-6) steps(2,3) by (auto simp: evtFromThread_def new_event_def)
qed

end
