(* ===== verification/Run_Start.thy ===== *)
theory Run_Start
  imports Run_Engine
begin

section \<open>Starting a run is atomic and idempotent\<close>

text \<open>
  The engine's \<^verbatim>\<open>StartRun\<close> creates a run, its claim and the thread's planning state in one
  unit of work, keyed by the caller's idempotency key.
\<close>

lemma start_unit_ok:
  assumes "start_unit deps inp thread runID ctx w = (w', Inr run)" and "ctx_inUnit ctx"
  defines "key \<equiv> (si_TenantID inp, si_ThreadID inp, si_IdempotencyKey inp)"
  shows "lookup (st_runs (w_store w)) runID = None" and "lookup (st_runIdemKeys (w_store w)) key = None"
    and "lookup (st_runClaims (w_store w)) runID = None"
    and "run_ID run = runID" and "run_TenantID run = si_TenantID inp" and "run_ThreadID run = si_ThreadID inp"
    and "run_Status run = RunPending" and "run_Version run = 1" and "run_Principal run = si_Principal inp"
    and "lookup (st_runs (w_store w')) runID = Some run" and "lookup (st_runIdemKeys (w_store w')) key = Some runID"
    and "\<exists>t. lookup (st_runClaims (w_store w')) runID = Some (fresh_claim (si_TenantID inp) runID t)"
    and "st_threads (w_store w')
      = insert_map (thread_ID thread) (thread\<lparr>thread_Status := ThreadPlanning, thread_Version := thread_Version thread + 1\<rparr>)
          (st_threads (w_store w))"
    and "\<exists>evt. st_events (w_store w') = st_events (w_store w) @ [evt] \<and> event_Type evt = EventThreadStatusChanged
      \<and> event_AggregateID evt = thread_ID thread"
proof -
  from assms(1) [unfolded start_unit_def] obtain now w0 where 0: "Now w = (w0, Inr now)"
      "seq_op (pure_op (NewRun runID (si_TenantID inp) (si_ThreadID inp) (si_IdempotencyKey inp) now)) (\<lambda>created.
       let created = created\<lparr>run_Principal := si_Principal inp\<rparr> in
       seq_op (on_store (RunRepository_Create created)) (\<lambda>created.
       seq_op (store_at (RunClaimRepository_Create (run_TenantID created) (run_ID created))) (\<lambda>_.
       seq_op (transitionThreadWithData deps ctx thread ThreadPlanning []) (\<lambda>_. return_op created)))) w0 = (w', Inr run)"
    by (rule seq_op_Inr)
  from 0(2) obtain r1 w1 where 1: "pure_op (NewRun runID (si_TenantID inp) (si_ThreadID inp) (si_IdempotencyKey inp) now) w0
        = (w1, Inr r1)"
      "seq_op (on_store (RunRepository_Create (r1\<lparr>run_Principal := si_Principal inp\<rparr>))) (\<lambda>created.
       seq_op (store_at (RunClaimRepository_Create (run_TenantID created) (run_ID created))) (\<lambda>_.
       seq_op (transitionThreadWithData deps ctx thread ThreadPlanning []) (\<lambda>_. return_op created))) w1 = (w', Inr run)"
    unfolding Let_def by (rule seq_op_Inr)
  from 1(2) obtain r2 w2 where 2: "on_store (RunRepository_Create (r1\<lparr>run_Principal := si_Principal inp\<rparr>)) w1 = (w2, Inr r2)"
      "seq_op (store_at (RunClaimRepository_Create (run_TenantID r2) (run_ID r2))) (\<lambda>_.
       seq_op (transitionThreadWithData deps ctx thread ThreadPlanning []) (\<lambda>_. return_op r2)) w2 = (w', Inr run)"
    by (rule seq_op_Inr)
  from 2(2) obtain u w3 where 3: "store_at (RunClaimRepository_Create (run_TenantID r2) (run_ID r2)) w2 = (w3, Inr u)"
      "seq_op (transitionThreadWithData deps ctx thread ThreadPlanning []) (\<lambda>_. return_op r2) w3 = (w', Inr run)"
    by (rule seq_op_Inr)
  from 3(2) obtain th w4 where 4: "transitionThreadWithData deps ctx thread ThreadPlanning [] w3 = (w4, Inr th)"
      "run = r2" "w' = w4"
    by (elim seq_op_Inr) (auto simp: return_op_def)
  have w01: "w_store w0 = w_store w" "w1 = w0" using 0(1) 1(1) by (auto simp: Now_def pure_op_def)
  note run = 4(2,3)
  have r1: "run_ID r1 = runID" "run_TenantID r1 = si_TenantID inp" "run_ThreadID r1 = si_ThreadID inp"
      "run_IdempotencyKey r1 = si_IdempotencyKey inp" "run_Status r1 = RunPending" "run_Version r1 = 1"
    using 1(1) by (auto simp: pure_op_def NewRun_def split: if_splits)
  have c: "lookup (st_runs (w_store w)) runID = None" "lookup (st_runIdemKeys (w_store w)) key = None"
      "\<exists>n. r2 = r1\<lparr>run_Principal := si_Principal inp, run_Seq := n\<rparr>"
      "st_runs (w_store w2) = insert_map runID r2 (st_runs (w_store w))"
      "st_runIdemKeys (w_store w2) = insert_map key runID (st_runIdemKeys (w_store w))"
      "st_runClaims (w_store w2) = st_runClaims (w_store w)" "st_events (w_store w2) = st_events (w_store w)"
      "st_threads (w_store w2) = st_threads (w_store w)"
    using 2(1) by (auto simp: on_store_def RunRepository_Create_def Let_def w01 r1 key_def split: prod.splits option.splits if_splits)
  have r2: "run_ID r2 = runID" "run_TenantID r2 = si_TenantID inp" "run_ThreadID r2 = si_ThreadID inp"
      "run_Status r2 = RunPending" "run_Version r2 = 1" "run_Principal r2 = si_Principal inp"
    using c(3) r1 by auto
  obtain t where cl: "lookup (st_runClaims (w_store w)) runID = None"
      "w_store w3 = put_claim runID (fresh_claim (si_TenantID inp) runID t) (w_store w2)"
    using 3(1) by (auto simp: store_at_eq on_store_def RunClaimRepository_Create_def r2 c(6) split: prod.splits option.splits if_splits)
  have w3: "st_runs (w_store w3) = st_runs (w_store w2)" "st_runIdemKeys (w_store w3) = st_runIdemKeys (w_store w2)"
      "st_events (w_store w3) = st_events (w_store w)" "st_threads (w_store w3) = st_threads (w_store w)"
      "st_runClaims (w_store w3) = insert_map runID (fresh_claim (si_TenantID inp) runID t) (st_runClaims (w_store w))"
    by (simp_all add: cl put_claim_def c)
  note T = transitionThread_ok [OF 4(1) assms(2)]
  note F = entities_fields [OF T(3)]
  show "lookup (st_runs (w_store w)) runID = None" "lookup (st_runIdemKeys (w_store w)) key = None"
      "lookup (st_runClaims (w_store w)) runID = None" by fact+
  show "run_ID run = runID" "run_TenantID run = si_TenantID inp" "run_ThreadID run = si_ThreadID inp"
      "run_Status run = RunPending" "run_Version run = 1" "run_Principal run = si_Principal inp"
    by (simp_all add: run r2)
  show "lookup (st_runs (w_store w')) runID = Some run" "lookup (st_runIdemKeys (w_store w')) key = Some runID"
      "\<exists>t. lookup (st_runClaims (w_store w')) runID = Some (fresh_claim (si_TenantID inp) runID t)"
      "st_threads (w_store w')
      = insert_map (thread_ID thread) (thread\<lparr>thread_Status := ThreadPlanning, thread_Version := thread_Version thread + 1\<rparr>)
          (st_threads (w_store w))"
    using F T(2) by (auto simp: run w3 c)
  show "\<exists>evt. st_events (w_store w') = st_events (w_store w) @ [evt] \<and> event_Type evt = EventThreadStatusChanged
      \<and> event_AggregateID evt = thread_ID thread"
    using T(4) by (auto simp: run w3)
qed

text \<open>A start whose key is taken replays, and changes nothing.\<close>

lemma StartRun_replay:
  assumes "Actor_Validate (si_Actor inp) = Inr ()" and "ThreadRepository_Get (si_TenantID inp) (si_ThreadID inp) (w_store w) = Inr thread"
    and "RunRepository_GetByIdempotencyKey (si_TenantID inp) (si_ThreadID inp) (si_IdempotencyKey inp) (w_store w) = Inr run"
  shows "StartRun deps ctx inp w = (w, Inr \<lparr>sr_Run = run, sr_Replayed = True\<rparr>)"
  using assms by (simp add: StartRun_def Let_def seq_op_def pure_op_def from_store_def attempt_def return_op_def)

text \<open>
  What may happen to the runs, the threads and the idempotency keys after a start. Only four repository
  methods write those tables: a run or a thread is created, or replaced at its expected version, with any
  status; a replacement leaves a run in its thread, as every caller of \<^verbatim>\<open>Runs().Update\<close> does, since it
  starts from the stored row. All the other methods leave the three tables as they are.
\<close>

inductive later_store :: "storeState \<Rightarrow> storeState \<Rightarrow> bool" for st where
  now: "later_store st st"
| other_tables: "later_store st st1 \<Longrightarrow> st_runs st2 = st_runs st1 \<Longrightarrow> st_runIdemKeys st2 = st_runIdemKeys st1
    \<Longrightarrow> st_threads st2 = st_threads st1 \<Longrightarrow> later_store st st2"
| run_created: "later_store st st1 \<Longrightarrow> later_store st (fst (RunRepository_Create run st1))"
| run_updated: "later_store st st1 \<Longrightarrow> (\<And>cur. lookup (st_runs st1) (run_ID run) = Some cur \<Longrightarrow> run_ThreadID run = run_ThreadID cur)
    \<Longrightarrow> later_store st (fst (RunRepository_Update run v st1))"
| thread_created: "later_store st st1 \<Longrightarrow> later_store st (fst (ThreadRepository_Create th st1))"
| thread_updated: "later_store st st1 \<Longrightarrow> later_store st (fst (ThreadRepository_Update th v st1))"

text \<open>A key is filed when it leads to a run of its tenant and thread, and the thread is the tenant's.\<close>

definition key_filed :: "string \<times> string \<times> string \<Rightarrow> string \<Rightarrow> storeState \<Rightarrow> bool" where
  "key_filed key runID st \<longleftrightarrow> lookup (st_runIdemKeys st) key = Some runID
     \<and> (\<exists>run. lookup (st_runs st) runID = Some run \<and> run_ID run = runID \<and> run_TenantID run = fst key \<and> run_ThreadID run = fst (snd key))
     \<and> (\<exists>th. lookup (st_threads st) (fst (snd key)) = Some th \<and> thread_TenantID th = fst key)"

lemma key_filed_later: "later_store st st' \<Longrightarrow> key_filed key runID st \<Longrightarrow> key_filed key runID st'"
proof (induction rule: later_store.induct)
  case (run_updated st1 run v)
  then show ?case
    by (cases "run_ID run = runID")
      (auto simp: key_filed_def RunRepository_Update_def guarded_update_def Let_def split: option.splits)
qed (auto simp: key_filed_def RunRepository_Create_def ThreadRepository_Create_def ThreadRepository_Update_def
    guarded_update_def Let_def split: option.splits)

lemma key_filed_replays:
  assumes "key_filed (si_TenantID inp, si_ThreadID inp, si_IdempotencyKey inp) runID (w_store w)" and "Actor_Validate (si_Actor inp) = Inr ()"
  shows "\<exists>run. lookup (st_runs (w_store w)) runID = Some run \<and> run_ID run = runID
    \<and> StartRun deps ctx inp w = (w, Inr \<lparr>sr_Run = run, sr_Replayed = True\<rparr>)"
proof -
  from assms(1) obtain run th where r: "lookup (st_runIdemKeys (w_store w)) (si_TenantID inp, si_ThreadID inp, si_IdempotencyKey inp) = Some runID"
      "lookup (st_runs (w_store w)) runID = Some run" "run_ID run = runID" "run_TenantID run = si_TenantID inp" "run_ThreadID run = si_ThreadID inp"
      and th: "lookup (st_threads (w_store w)) (si_ThreadID inp) = Some th" "thread_TenantID th = si_TenantID inp"
    unfolding key_filed_def by auto
  have "ThreadRepository_Get (si_TenantID inp) (si_ThreadID inp) (w_store w) = Inr th"
    using th by (simp add: ThreadRepository_Get_def scoped_def)
  moreover have "RunRepository_GetByIdempotencyKey (si_TenantID inp) (si_ThreadID inp) (si_IdempotencyKey inp) (w_store w) = Inr run"
    using r by (simp add: RunRepository_GetByIdempotencyKey_def)
  ultimately show ?thesis using StartRun_replay [OF assms(2)] r(2,3) by blast
qed

lemma StartRun_cases:
  assumes "StartRun deps ctx inp w = (w', r)"
  obtains (refused) e where "r = Inl e" "w_store w' = w_store w"
  | (replayed) run where "r = Inr \<lparr>sr_Run = run, sr_Replayed = True\<rparr>" "w' = w"
      "RunRepository_GetByIdempotencyKey (si_TenantID inp) (si_ThreadID inp) (si_IdempotencyKey inp) (w_store w) = Inr run"
  | (failed) w1 e runID thread w2 where "w_store w1 = w_store w" "Do ctx (start_unit deps inp thread runID) w1 = (w2, Inl e)"
      "w' = w2" "r = Inl e \<or> (\<exists>run. r = Inr \<lparr>sr_Run = run, sr_Replayed = True\<rparr> \<and>
        RunRepository_GetByIdempotencyKey (si_TenantID inp) (si_ThreadID inp) (si_IdempotencyKey inp) (w_store w2) = Inr run)"
  | (started) w1 run runID thread where "w_store w1 = w_store w" "Do ctx (start_unit deps inp thread runID) w1 = (w', Inr run)"
      "r = Inr \<lparr>sr_Run = run, sr_Replayed = False\<rparr>"
      "ThreadRepository_Get (si_TenantID inp) (si_ThreadID inp) (w_store w) = Inr thread"
      "Actor_Validate (si_Actor inp) = Inr ()"
proof -
  let ?key = "RunRepository_GetByIdempotencyKey (si_TenantID inp) (si_ThreadID inp) (si_IdempotencyKey inp)"
  show thesis
  proof (cases "Actor_Validate (si_Actor inp)")
    case (Inl e)
    then show thesis using assms refused by (auto simp: StartRun_def Let_def seq_op_def pure_op_def)
  next
    case a: (Inr u)
    show thesis
    proof (cases "ThreadRepository_Get (si_TenantID inp) (si_ThreadID inp) (w_store w)")
      case (Inl e)
      then show thesis using assms a refused by (auto simp: StartRun_def Let_def seq_op_def pure_op_def from_store_def)
    next
      case t: (Inr thread)
      show thesis
      proof (cases "?key (w_store w)")
        case (Inr run)
        then show thesis using assms a t replayed [of run] StartRun_replay [of inp w thread run] by auto
      next
        case k: (Inl err)
        show thesis
        proof (cases "ErrKindOf err \<noteq> ErrKindNotFound \<or> isl (ProjectRepository_Get (si_TenantID inp) (thread_ProjectID thread) (w_store w))
            \<or> isl (ThreadRepository_Messages (si_TenantID inp) (si_ThreadID inp) 0 1 (w_store w)) \<or> isl (snd (newID PrefixRun w))")
          case True
          then have "isl r \<and> w_store w' = w_store w"
            using assms a t k
            by (auto simp: StartRun_def Let_def seq_op_def pure_op_def from_store_def attempt_def throw_op_def newID_def
                wrap_op_def RandomIDs_NewID_def split: sum.splits if_splits prod.splits)
          then show thesis using refused by (cases r) auto
        next
          case False
          define w1 where "w1 = fst (newID PrefixRun w)"
          obtain runID where n: "newID PrefixRun w = (w1, Inr runID)"
            using False unfolding w1_def by (metis prod.collapse isl_def sum.exhaust)
          have w1: "w_store w1 = w_store w"
            using n by (auto simp: newID_def wrap_op_def RandomIDs_NewID_def split: sum.splits)
          have rest: "StartRun deps ctx inp w = seq_op (attempt (Do ctx (start_unit deps inp thread runID))) (\<lambda>r.
              case r of Inr run \<Rightarrow> return_op \<lparr>sr_Run = run, sr_Replayed = False\<rparr>
              | Inl err \<Rightarrow> if ErrKindOf err = ErrKindConflict
                  then seq_op (attempt (from_store ?key)) (\<lambda>replayed.
                     case replayed of Inr run \<Rightarrow> return_op \<lparr>sr_Run = run, sr_Replayed = True\<rparr> | Inl _ \<Rightarrow> throw_op err)
                  else throw_op err) w1"
            using False a t k n by (simp add: StartRun_def Let_def seq_op_def pure_op_def from_store_def attempt_def)
          show thesis
          proof (cases "Do ctx (start_unit deps inp thread runID) w1")
            case (Pair w2 r2)
            show thesis
            proof (cases r2)
              case (Inr run)
              then show thesis using started [OF w1, of thread runID run] Pair rest assms a t
                by (auto simp: seq_op_def attempt_def return_op_def)
            next
              case (Inl e)
              then show thesis using failed [OF w1, of thread runID w2 e] Pair rest assms
                by (auto simp: seq_op_def attempt_def return_op_def throw_op_def from_store_def split: if_splits sum.splits)
            qed
          qed
        qed
      qed
    qed
  qed
qed

text \<open>
  C27: starting a run is atomic and idempotent. A start that fails leaves the store observably
  unchanged. A start that replays returns the run the key resolves to and changes nothing. A
  start that creates finds the key free and leaves, together: the pending run under its key, a
  fresh runnable claim, the thread in planning one version on, and one status event. From then on the
  key is spent: whatever has since been written, including any change of status of the run or of its thread,
  every later start for the same tenant and thread with the same key, by any valid actor and in any
  context, returns that run as it is now stored and has no effect. (Later means by any number of calls
  of the store's methods; the run's row is never moved to another thread.)
\<close>

theorem start_run_atomic_idempotent:
  assumes "struct_ok (w_store w)" and "\<not> ctx_inUnit ctx" and "StartRun deps ctx inp w = (w', r)"
  shows "case r of
      Inl e \<Rightarrow> wview w' = wview w
    | Inr res \<Rightarrow>
        RunRepository_GetByIdempotencyKey (si_TenantID inp) (si_ThreadID inp) (si_IdempotencyKey inp) (w_store w') = Inr (sr_Run res)
        \<and> (if sr_Replayed res then wview w' = wview w
           else (\<exists>thread evt t. ThreadRepository_Get (si_TenantID inp) (si_ThreadID inp) (w_store w) = Inr thread
             \<and> lookup (st_runIdemKeys (w_store w)) (si_TenantID inp, si_ThreadID inp, si_IdempotencyKey inp) = None
             \<and> lookup (st_runs (w_store w')) (run_ID (sr_Run res)) = Some (sr_Run res)
             \<and> run_Status (sr_Run res) = RunPending \<and> run_Principal (sr_Run res) = si_Principal inp
             \<and> lookup (st_runClaims (w_store w')) (run_ID (sr_Run res)) = Some (fresh_claim (si_TenantID inp) (run_ID (sr_Run res)) t)
             \<and> lookup (st_threads (w_store w')) (thread_ID thread)
                 = Some (thread\<lparr>thread_Status := ThreadPlanning, thread_Version := thread_Version thread + 1\<rparr>)
             \<and> st_events (w_store w') = st_events (w_store w) @ [evt] \<and> event_Type evt = EventThreadStatusChanged)
             \<and> (\<forall>v inp' deps' ctx'. later_store (w_store w') (w_store v) \<and> si_TenantID inp' = si_TenantID inp
                  \<and> si_ThreadID inp' = si_ThreadID inp \<and> si_IdempotencyKey inp' = si_IdempotencyKey inp
                  \<and> Actor_Validate (si_Actor inp') = Inr () \<longrightarrow>
                  (\<exists>run. lookup (st_runs (w_store v)) (run_ID (sr_Run res)) = Some run \<and> run_ID run = run_ID (sr_Run res)
                     \<and> StartRun deps' ctx' inp' v = (v, Inr \<lparr>sr_Run = run, sr_Replayed = True\<rparr>))))"
  using assms(3)
proof (cases rule: StartRun_cases)
  case (refused e)
  then show ?thesis by (simp add: wview_def)
next
  case (replayed run)
  then show ?thesis by simp
next
  case (failed w1 e runID thread w2)
  have "wview w' = wview w"
    using start.outer_failure [of w1 ctx deps inp thread runID w2 e] assms(1,2) failed by (simp add: wview_def)
  then show ?thesis using failed(3,4) by auto
next
  case (started w1 run runID thread)
  let ?ctx = "ctx\<lparr>ctx_inUnit := True\<rparr>" and ?key = "(si_TenantID inp, si_ThreadID inp, si_IdempotencyKey inp)"
  have u: "start_unit deps inp thread runID ?ctx (w1\<lparr>w_store := clone_rows (w_store w1)\<rparr>) = (w', Inr run)"
    using start.outer_run [of w1 ctx deps inp thread runID w' run] assms(1,2) started by simp
  note U = start_unit_ok [OF u, simplified]
  have same: "st_runIdemKeys (clone_rows (w_store w1)) = st_runIdemKeys (w_store w)"
      "st_events (clone_rows (w_store w1)) = st_events (w_store w)" "st_threads (clone_rows (w_store w1)) = st_threads (w_store w)"
    by (simp_all add: clone_rows_def started)
  have key: "RunRepository_GetByIdempotencyKey (si_TenantID inp) (si_ThreadID inp) (si_IdempotencyKey inp) (w_store w') = Inr run"
    using U by (simp add: RunRepository_GetByIdempotencyKey_def)
  have "key_filed ?key (run_ID run) (w_store w')"
    using U same started(4) by (auto simp: key_filed_def ThreadRepository_Get_def scoped_def split: option.splits if_splits)
  then have again: "\<exists>run'. lookup (st_runs (w_store v)) (run_ID run) = Some run' \<and> run_ID run' = run_ID run
      \<and> StartRun deps' ctx' inp' v = (v, Inr \<lparr>sr_Run = run', sr_Replayed = True\<rparr>)"
    if "later_store (w_store w') (w_store v)" "si_TenantID inp' = si_TenantID inp" "si_ThreadID inp' = si_ThreadID inp"
      "si_IdempotencyKey inp' = si_IdempotencyKey inp" "Actor_Validate (si_Actor inp') = Inr ()" for v inp' deps' ctx'
    using key_filed_later [OF that(1)] key_filed_replays [of inp' "run_ID run" v] that(2-5) by simp
  obtain evt where evt: "st_events (w_store w') = st_events (w_store w) @ [evt]" "event_Type evt = EventThreadStatusChanged"
    using U same by auto
  obtain t where t: "lookup (st_runClaims (w_store w')) (run_ID run) = Some (fresh_claim (si_TenantID inp) (run_ID run) t)"
    using U by auto
  show ?thesis
    unfolding started(3) sum.case StartResult.simps if_False simp_thms
  proof (intro conjI)
    show "\<exists>thread evt t. ThreadRepository_Get (si_TenantID inp) (si_ThreadID inp) (w_store w) = Inr thread
       \<and> lookup (st_runIdemKeys (w_store w)) ?key = None
       \<and> lookup (st_runs (w_store w')) (run_ID run) = Some run
       \<and> run_Status run = RunPending \<and> run_Principal run = si_Principal inp
       \<and> lookup (st_runClaims (w_store w')) (run_ID run) = Some (fresh_claim (si_TenantID inp) (run_ID run) t)
       \<and> lookup (st_threads (w_store w')) (thread_ID thread)
           = Some (thread\<lparr>thread_Status := ThreadPlanning, thread_Version := thread_Version thread + 1\<rparr>)
       \<and> st_events (w_store w') = st_events (w_store w) @ [evt] \<and> event_Type evt = EventThreadStatusChanged"
      using U same evt t started(4) by auto
  qed (use key again in blast)+
qed

definition ex_deps :: Deps where
  "ex_deps = \<lparr>dep_marshal = (\<lambda>e. Inr (event_ID e)), dep_text = (\<lambda>_. ''err'')\<rparr>"

definition ex_start :: StartInput where
  "ex_start = \<lparr>si_TenantID = ''t'', si_ThreadID = ''h'', si_Principal = ''u'',
     si_Actor = \<lparr>actor_Type = PrincipalHuman, actor_ID = ''u''\<rparr>, si_IdempotencyKey = ''k2''\<rparr>"

definition ex_project :: Project where
  "ex_project = \<lparr>project_ID = ''p'', project_TenantID = ''t'', project_Slug = ''p'', project_Name = ''P'',
     project_DefaultBranch = ''main'', project_SeedName = ''s'', project_Version = 1, project_CreatedAt = 0\<rparr>"

definition ex_id :: "string \<Rightarrow> string" where
  "ex_id p = newPrefixed p (replicate 26 (CHR ''a''))"

lemma NewID_zeros [simp]: "NewID p zeros = Inr (ex_id p)"
proof -
  have "alphabet ! 0 = CHR ''a''" by (simp add: alphabet_def)
  then show ?thesis by (simp add: NewID_def zeros_def ex_id_def map_replicate_const del: upt_rec_numeral)
qed

lemma ParseRunID_ex [simp]: "ParseRunID (ex_id PrefixRun) = Inr (ex_id PrefixRun)"
  by (simp add: ParseRunID_def ex_id_def newPrefixed_def validatePrefixed_def PrefixRun_def idSeparator_def
      minIDRandomChars_def maxIDSuffixLen_def id_char_def is_lower_def list_all_length)

lemma ex_id_fresh: "ex_id p \<noteq> ''r1''"
  by (auto simp: ex_id_def newPrefixed_def dest: arg_cong [where f = length])

definition ex_ready :: storeState where
  "ex_ready = ex_store1\<lparr>st_projects := [(''p'', ex_project)]\<rparr>"

theorem start_run_atomic_idempotent_witness:
  "\<exists>w' res v. StartRun ex_deps Background ex_start (ex_world ex_ready) = (w', Inr res) \<and> \<not> sr_Replayed res
     \<and> v = w'\<lparr>w_store := fst (RunRepository_Update ((sr_Run res)\<lparr>run_Status := RunCancelled\<rparr>) (run_Version (sr_Run res)) (w_store w'))\<rparr>
     \<and> (\<exists>run. StartRun ex_deps Background (ex_start\<lparr>si_Principal := ''x''\<rparr>) v = (v, Inr \<lparr>sr_Run = run, sr_Replayed = True\<rparr>)
          \<and> run_ID run = run_ID (sr_Run res) \<and> run_Status run = RunCancelled)"
proof -
  have ok: "struct_ok (w_store (ex_world ex_ready))"
    by (simp add: ex_ready_def ex_world_def struct_ok_def ex_store1_eq ex_store_def empty_store_def)
  have "\<exists>w' res. StartRun ex_deps Background ex_start (ex_world ex_ready) = (w', Inr res) \<and> \<not> sr_Replayed res"
    by (simp add: StartRun_def Background_def ex_start_def Actor_Validate_def Let_def seq_op_def pure_op_def from_store_def
        attempt_def ThreadRepository_Get_def ThreadRepository_Messages_def ProjectRepository_Get_def
        RunRepository_GetByIdempotencyKey_def notFound_def error_defs ErrKindOf_def ex_ready_def ex_world_def ex_store1_eq
        ex_store_def ex_thread_def ex_project_def empty_store_def scoped_def get_or_def newID_def wrap_op_def
        RandomIDs_NewID_def Do_def backup_def clone_index_def clone_rows_def start_unit_def Now_def NewRun_def
        MaxIdempotencyKeyLen_def on_store_def RunRepository_Create_def store_at_eq RunClaimRepository_Create_def put_claim_def
        ex_id_fresh transitionThreadWithData_def Thread_TransitionTo_def CanTransitionThread_def allows_def edgesFrom_def threadTransitions_def
        ThreadRepository_Update_def guarded_update_def emitEvent_def EventRepository_Append_def ex_deps_def return_op_def)
  then obtain w' res where s: "StartRun ex_deps Background ex_start (ex_world ex_ready) = (w', Inr res)" "\<not> sr_Replayed res"
    by blast
  have act: "Actor_Validate (si_Actor ex_start) = Inr ()" by (simp add: ex_start_def Actor_Validate_def)
  have replays: "\<exists>run. lookup (st_runs (w_store v)) (run_ID (sr_Run res)) = Some run \<and> run_ID run = run_ID (sr_Run res)
      \<and> StartRun deps ctx (ex_start\<lparr>si_Principal := who\<rparr>) v = (v, Inr \<lparr>sr_Run = run, sr_Replayed = True\<rparr>)"
    if "later_store (w_store w') (w_store v)" for v deps ctx who
    using start_run_atomic_idempotent [OF ok _ s(1)] s(2) that act by (simp add: Background_def)
  let ?run = "(sr_Run res)\<lparr>run_Status := RunCancelled\<rparr>"
  let ?v = "w'\<lparr>w_store := fst (RunRepository_Update ?run (run_Version (sr_Run res)) (w_store w'))\<rparr>"
  have stored: "lookup (st_runs (w_store w')) (run_ID (sr_Run res)) = Some (sr_Run res)"
    using start_run_atomic_idempotent [OF ok _ s(1)] s(2) by (auto simp: Background_def)
  then have "later_store (w_store w') (w_store ?v)"
    by (auto intro: later_store.run_updated later_store.now)
  from replays [OF this, of ex_deps Background "''x''"] obtain run where
      r: "lookup (st_runs (w_store ?v)) (run_ID (sr_Run res)) = Some run" "run_ID run = run_ID (sr_Run res)"
        "StartRun ex_deps Background (ex_start\<lparr>si_Principal := ''x''\<rparr>) ?v = (?v, Inr \<lparr>sr_Run = run, sr_Replayed = True\<rparr>)"
    by blast
  have "run_Status run = RunCancelled"
    using r(1) stored by (auto simp: RunRepository_Update_def guarded_update_def scoped_def Let_def)
  with r s show ?thesis by blast
qed

end
