(* ===== verification/Run_Recovery.thy ===== *)
theory Run_Recovery
  imports Run_Start
begin

section \<open>Abandoned runs always converge\<close>

text \<open>
  A run abandoned by its worker, or dispatched too often, is brought to a terminal state by the
  engine. The lemmas show that each step succeeds whenever identifiers can be drawn and events
  can be encoded, so the convergence as a whole returns; the properties state what it leaves.
\<close>

definition env_ok :: "Deps \<Rightarrow> world \<Rightarrow> bool" where
  "env_ok deps w \<longleftrightarrow> (\<forall>e. \<exists>b. dep_marshal deps e = Inr b) \<and> (\<forall>n. w_rand w n \<noteq> None)"

lemma emitEvent_runs:
  assumes "env_ok deps w"
  obtains w' evt' where "emitEvent deps ctx evt w = (w', Inr evt')" "w_rand w' = w_rand w"
proof -
  obtain b where b: "w_rand w (w_draws w) = Some b" using assms by (auto simp: env_ok_def)
  let ?evt = "evt\<lparr>event_ID := newPrefixed PrefixEvent (map (\<lambda>i. alphabet ! (unat (b i) mod length alphabet)) [0..<26]),
     event_OccurredAt := w_clock w (w_ticks w), event_TraceID := TraceID (ctx_corr ctx) (event_TraceID evt),
     event_Seq := st_eventSeq (w_store w) + 1\<rparr>"
  obtain env where env: "dep_marshal deps ?evt = Inr env" using assms unfolding env_ok_def by blast
  have "\<exists>w'. emitEvent deps ctx evt w = (w', Inr ?evt) \<and> w_rand w' = w_rand w"
    using env by (simp add: emitEvent_def newID_def wrap_op_def RandomIDs_NewID_def NewID_def b seq_op_def Now_def store_at_eq
        on_store_def EventRepository_Append_def Let_def del: upt_rec_numeral)
  then show thesis using that by blast
qed

lemma Do_runs:
  assumes "struct_ok (w_store w)" and "\<not> ctx_inUnit ctx"
    and "fn (ctx\<lparr>ctx_inUnit := True\<rparr>) (w\<lparr>w_store := clone_rows (w_store w)\<rparr>) = (w', Inr x)"
  shows "Do ctx fn w = (w', Inr x)"
proof -
  obtain b where "backup (w_store w) = (clone_rows (w_store w), Inr b)" by (rule backup_ok [OF assms(1)])
  then show ?thesis using assms(2,3) by (simp add: Do_def)
qed

lemma entities_clone: "entities (clone_rows st) = entities st" "st_events (clone_rows st) = st_events st"
  by (simp_all add: entities_def clone_rows_def)

text \<open>The events that report a status change of one run.\<close>

definition run_events :: "string \<Rightarrow> Event list \<Rightarrow> Event list" where
  "run_events rid = filter (\<lambda>e. event_Type e = EventRunStatusChanged \<and> event_AggregateID e = rid)"

lemma finish_unit_runs:
  assumes "struct_ok (w_store w)" "\<not> ctx_inUnit ctx" "env_ok deps w"
    and "lookup (st_runs (w_store w)) (run_ID run) = Some cur" "run_TenantID cur = run_TenantID run"
    and "run_Version cur = expected" "run_Version run = expected + 1"
  obtains w' evt where "Do ctx (finish_unit deps run expected data) w = (w', Inr run)" "env_ok deps w'" "struct_ok (w_store w')"
    "entities (w_store w') = entities ((w_store w)\<lparr>st_runs := insert_map (run_ID run) run (st_runs (w_store w))\<rparr>)"
    "st_events (w_store w') = st_events (w_store w) @ [evt]" "event_Type evt = EventRunStatusChanged"
    "event_AggregateID evt = run_ID run" "event_AggregateVersion evt = run_Version run" "event_Data evt = data"
proof -
  let ?c = "ctx\<lparr>ctx_inUnit := True\<rparr>" and ?w0 = "w\<lparr>w_store := clone_rows (w_store w)\<rparr>"
  let ?w1 = "w\<lparr>w_store := (clone_rows (w_store w))\<lparr>st_runs := insert_map (run_ID run) run (st_runs (w_store w))\<rparr>\<rparr>"
  have "run\<lparr>run_Version := run_Version cur + 1\<rparr> = run" using assms(6,7) by simp
  then have upd: "on_store (RunRepository_Update run expected) ?w0 = (?w1, Inr run)"
    using assms(4-6) by (simp add: on_store_def RunRepository_Update_def guarded_update_def scoped_def Let_def clone_rows_def)
  have "env_ok deps ?w1" using assms(3) by (simp add: env_ok_def)
  then obtain w' evt where e: "emitEvent deps ?c (evtFromRun run EventRunStatusChanged data) ?w1 = (w', Inr evt)" "w_rand w' = w_rand ?w1"
    by (rule emitEvent_runs)
  have u: "finish_unit deps run expected data ?c ?w0 = (w', Inr run)"
    using upd e(1) by (simp add: finish_unit_def return_op_def)
  have d: "Do ctx (finish_unit deps run expected data) w = (w', Inr run)" by (rule Do_runs [OF assms(1,2)]) (rule u)
  note E = emitEvent_ok [OF e(1)]
  show thesis
  proof (rule that [OF d])
    show "env_ok deps w'" using assms(3) e(2) by (simp add: env_ok_def)
    show "struct_ok (w_store w')"
      using op_relD [OF finish.unit_frames [of ctx deps run expected data], of w] d assms(1)
      by (simp add: wframe_def unit_frame_def)
    show "entities (w_store w') = entities ((w_store w)\<lparr>st_runs := insert_map (run_ID run) run (st_runs (w_store w))\<rparr>)"
      using E(1) by (simp add: entities_def clone_rows_def)
  qed (use E in \<open>simp_all add: evtFromRun_def new_event_def clone_rows_def\<close>)
qed

lemma transitionThread_runs:
  assumes "struct_ok (w_store w)" "\<not> ctx_inUnit ctx" "env_ok deps w"
    and "lookup (st_threads (w_store w)) (thread_ID thread) = Some cur"
    and "thread_TenantID cur = thread_TenantID thread" "thread_Version cur = thread_Version thread"
    and "CanTransitionThread (thread_Status thread) nxt" "thread_Status thread \<noteq> nxt"
  obtains w' evt thread' where "thread' = thread\<lparr>thread_Status := nxt, thread_Version := thread_Version thread + 1\<rparr>"
    "transitionThreadWithData deps ctx thread nxt extra w = (w', Inr thread')"
    "struct_ok (w_store w')" "w_rand w' = w_rand w"
    "entities (w_store w') = entities ((w_store w)\<lparr>st_threads := insert_map (thread_ID thread) thread' (st_threads (w_store w))\<rparr>)"
    "st_events (w_store w') = st_events (w_store w) @ [evt]" "event_Type evt = EventThreadStatusChanged"
proof -
  let ?c = "ctx\<lparr>ctx_inUnit := True\<rparr>" and ?w0 = "w\<lparr>w_store := clone_rows (w_store w)\<rparr>"
  let ?th = "thread\<lparr>thread_Status := nxt, thread_Version := thread_Version thread + 1\<rparr>"
  let ?data = "merge_data [(''to'', DStr (ThreadStatus_name nxt))] extra"
  let ?w1 = "w\<lparr>w_store := (clone_rows (w_store w))\<lparr>st_threads := insert_map (thread_ID thread) ?th (st_threads (w_store w))\<rparr>\<rparr>"
  have upd: "on_store (ThreadRepository_Update ?th (thread_Version thread)) ?w0 = (?w1, Inr ?th)"
    using assms(4-6) by (simp add: on_store_def ThreadRepository_Update_def guarded_update_def scoped_def Let_def clone_rows_def)
  have "env_ok deps ?w1" using assms(3) by (simp add: env_ok_def)
  then obtain w' evt where e: "emitEvent deps ?c (evtFromThread ?th EventThreadStatusChanged ?data) ?w1 = (w', Inr evt)"
      "w_rand w' = w_rand ?w1"
    by (rule emitEvent_runs)
  have tr: "pure_op (Thread_TransitionTo thread nxt) ?w0 = (?w0, Inr ?th)"
    using assms(7,8) by (simp add: pure_op_def Thread_TransitionTo_def)
  have d: "transitionThreadWithData deps ctx thread nxt extra w = (w', Inr ?th)"
    unfolding transitionThreadWithData_def
    by (rule Do_runs [OF assms(1,2)]) (use tr upd e in \<open>simp add: Let_def return_op_def del: merge_data.simps\<close>)
  note E = emitEvent_ok [OF e(1)]
  show thesis
  proof (rule that [OF refl d])
    show "struct_ok (w_store w')"
      using op_relD [OF wframe_transitions(2) [of deps ctx thread nxt extra], of w] d assms(1)
      by (simp add: wframe_def unit_frame_def)
    show "w_rand w' = w_rand w" using e(2) by simp
    show "entities (w_store w') = entities ((w_store w)\<lparr>st_threads := insert_map (thread_ID thread) ?th (st_threads (w_store w))\<rparr>)"
      using E(1) by (simp add: entities_def clone_rows_def)
  qed (use E in \<open>simp_all add: evtFromThread_def new_event_def clone_rows_def\<close>)
qed

lemma route_thread_runs:
  assumes "struct_ok (w_store w)" "\<not> ctx_inUnit ctx" "env_ok deps w"
    and "lookup (st_threads (w_store w)) (thread_ID thread) = Some thread"
    and "CanTransitionThread (thread_Status thread) nxt" "thread_Status thread \<noteq> nxt"
  obtains w' evt where "route_thread deps ctx thread nxt reason w = (w', Inr ())" "struct_ok (w_store w')"
    "entities (w_store w') = entities ((w_store w)\<lparr>st_threads := insert_map (thread_ID thread)
       (thread\<lparr>thread_Status := nxt, thread_Version := thread_Version thread + 1\<rparr>) (st_threads (w_store w))\<rparr>)"
    "st_events (w_store w') = st_events (w_store w) @ [evt]" "event_Type evt = EventThreadStatusChanged"
proof -
  obtain w' evt thread' where t: "thread' = thread\<lparr>thread_Status := nxt, thread_Version := thread_Version thread + 1\<rparr>"
      "transitionThreadWithData deps ctx thread nxt [(''reason'', DStr reason)] w = (w', Inr thread')" "struct_ok (w_store w')"
      "entities (w_store w') = entities ((w_store w)\<lparr>st_threads := insert_map (thread_ID thread) thread' (st_threads (w_store w))\<rparr>)"
      "st_events (w_store w') = st_events (w_store w) @ [evt]" "event_Type evt = EventThreadStatusChanged"
    by (rule transitionThread_runs [OF assms(1-4) refl refl assms(5,6)])
  then show thesis using that [of w' evt] by (simp add: route_thread_def seq_op_def attempt_def return_op_def)
qed

text \<open>The tail of a convergence: commit the finished run, then route the thread.\<close>

lemma converge_tail:
  assumes "struct_ok (w_store w)" "\<not> ctx_inUnit ctx" "env_ok deps w"
    and run: "lookup (st_runs (w_store w)) (run_ID run) = Some run"
    and fin: "Finish run nxt now failure = Inr run'"
    and thread: "lookup (st_threads (w_store w)) (thread_ID thread) = Some thread"
    and route: "route = return_op () \<or> (\<exists>tn reason. route = route_thread deps ctx thread tn reason
      \<and> CanTransitionThread (thread_Status thread) tn \<and> thread_Status thread \<noteq> tn)"
  obtains w' evt where "seq_op (Do ctx (finish_unit deps run' (run_Version run) data)) (\<lambda>_. route) w = (w', Inr ())"
    "struct_ok (w_store w')" "lookup (st_runs (w_store w')) (run_ID run) = Some run'"
    "run_events (run_ID run) (st_events (w_store w')) = run_events (run_ID run) (st_events (w_store w)) @ [evt]"
    "event_Data evt = data" "st_runClaims (w_store w') = st_runClaims (w_store w)"
proof -
  have r': "run_ID run' = run_ID run" "run_TenantID run' = run_TenantID run" "run_Version run' = run_Version run + 1"
    using fin by (auto simp: Finish_def Run_TransitionTo_def split: if_splits)
  obtain w1 evt where 1: "Do ctx (finish_unit deps run' (run_Version run) data) w = (w1, Inr run')" "env_ok deps w1" "struct_ok (w_store w1)"
      "entities (w_store w1) = entities ((w_store w)\<lparr>st_runs := insert_map (run_ID run') run' (st_runs (w_store w))\<rparr>)"
      "st_events (w_store w1) = st_events (w_store w) @ [evt]" "event_Type evt = EventRunStatusChanged"
      "event_AggregateID evt = run_ID run'" "event_Data evt = data"
    by (rule finish_unit_runs [OF assms(1-3), of run' run "run_Version run" data]) (use run r' in auto)
  note F = entities_fields [OF 1(4)]
  have ev: "run_events (run_ID run) (st_events (w_store w1)) = run_events (run_ID run) (st_events (w_store w)) @ [evt]"
    using 1(5-7) r' by (simp add: run_events_def)
  have lk: "lookup (st_runs (w_store w1)) (run_ID run) = Some run'" using F(1) r' by simp
  have th: "lookup (st_threads (w_store w1)) (thread_ID thread) = Some thread" using F(2) thread by simp
  from route show thesis
  proof
    assume "route = return_op ()"
    then show thesis using that [of w1 evt] 1(1,3,8) ev lk F(4) by (simp add: return_op_def)
  next
    assume "\<exists>tn reason. route = route_thread deps ctx thread tn reason
      \<and> CanTransitionThread (thread_Status thread) tn \<and> thread_Status thread \<noteq> tn"
    then obtain tn reason where rt: "route = route_thread deps ctx thread tn reason"
        "CanTransitionThread (thread_Status thread) tn" "thread_Status thread \<noteq> tn" by blast
    obtain w2 evt2 where 2: "route_thread deps ctx thread tn reason w1 = (w2, Inr ())" "struct_ok (w_store w2)"
        "entities (w_store w2) = entities ((w_store w1)\<lparr>st_threads := insert_map (thread_ID thread)
          (thread\<lparr>thread_Status := tn, thread_Version := thread_Version thread + 1\<rparr>) (st_threads (w_store w1))\<rparr>)"
        "st_events (w_store w2) = st_events (w_store w1) @ [evt2]" "event_Type evt2 = EventThreadStatusChanged"
      by (rule route_thread_runs [OF 1(3) assms(2) 1(2) th rt(2,3)])
    show thesis
    proof (rule that [of w2 evt])
      show "seq_op (Do ctx (finish_unit deps run' (run_Version run) data)) (\<lambda>_. route) w = (w2, Inr ())"
        using 1(1) 2(1) by (simp add: rt)
      show "lookup (st_runs (w_store w2)) (run_ID run) = Some run'" using entities_fields(1) [OF 2(3)] lk by simp
      show "run_events (run_ID run) (st_events (w_store w2)) = run_events (run_ID run) (st_events (w_store w)) @ [evt]"
        using 2(4,5) ev by (simp add: run_events_def)
      show "st_runClaims (w_store w2) = st_runClaims (w_store w)" using entities_fields(4) [OF 2(3)] F(4) by simp
    qed (use 1 2 in auto)
  qed
qed

lemma can_transition_thread:
  "CanTransitionThread ThreadPlanning ThreadFailed" "CanTransitionThread ThreadExecuting ThreadFailed"
  "CanTransitionThread ThreadReviewing ThreadFailed" "CanTransitionThread ThreadReadyToExecute ThreadNeedsAttention"
  "CanTransitionThread ThreadPlanning ThreadAwaitingInput" "CanTransitionThread ThreadExecuting ThreadNeedsAttention"
  by (simp_all add: CanTransitionThread_def allows_def edgesFrom_def threadTransitions_def)

lemma can_finish_run:
  assumes "\<not> Terminal (run_Status run)"
  shows "\<exists>run'. Finish run RunCancelled now None = Inr run' \<and> run_Status run' = RunCancelled \<and> run_TenantID run' = run_TenantID run"
    and "run_Status run \<noteq> RunPending \<Longrightarrow> \<exists>run'. Finish run RunFailed now (Some f) = Inr run' \<and> run_Status run' = RunFailed
      \<and> run_Failure run' = Some f \<and> run_TenantID run' = run_TenantID run"
  using assms by (cases "run_Status run"; auto simp: Terminal_def Finish_def Run_TransitionTo_def CanTransitionRun_def
      allows_def edgesFrom_def runTransitions_def)+

lemma convergeRunToFailed_runs:
  assumes "struct_ok (w_store w)" "\<not> ctx_inUnit ctx" "env_ok deps w"
    and run: "lookup (st_runs (w_store w)) (run_ID run) = Some run" "\<not> Terminal (run_Status run)" "run_Status run \<noteq> RunPending"
    and thread: "ThreadRepository_Get (run_TenantID run) (run_ThreadID run) (w_store w) = Inr thread" "thread_ID thread = run_ThreadID run"
  obtains w' run' evt where "convergeRunToFailed deps ctx run code detail extra w = (w', Inr ())" "struct_ok (w_store w')"
    "lookup (st_runs (w_store w')) (run_ID run) = Some run'" "run_TenantID run' = run_TenantID run"
    "run_Status run' = RunFailed" "run_Failure run' = Some \<lparr>fi_Code = code, fi_Message = detail, fi_Transient = False\<rparr>"
    "run_events (run_ID run) (st_events (w_store w')) = run_events (run_ID run) (st_events (w_store w)) @ [evt]"
    "st_runClaims (w_store w') = st_runClaims (w_store w)"
proof -
  let ?w1 = "w\<lparr>w_ticks := w_ticks w + 1\<rparr>" and ?f = "\<lparr>fi_Code = code, fi_Message = detail, fi_Transient = False\<rparr>"
  let ?data = "merge_data [(''to'', DStr (RunStatus_name RunFailed)), (''code'', DStr code), (''detail'', DStr detail)] extra"
  obtain run' where fin: "Finish run RunFailed (w_clock w (w_ticks w)) (Some ?f) = Inr run'" "run_Status run' = RunFailed"
      "run_Failure run' = Some ?f" "run_TenantID run' = run_TenantID run"
    using can_finish_run(2) [OF run(2,3)] by blast
  have th: "lookup (st_threads (w_store ?w1)) (thread_ID thread) = Some thread"
    using thread by (auto simp: ThreadRepository_Get_def split: option.splits)
  have env: "env_ok deps ?w1" "struct_ok (w_store ?w1)" "lookup (st_runs (w_store ?w1)) (run_ID run) = Some run"
    using assms(1,3) run(1) by (simp_all add: env_ok_def)
  have route: "routeFailedThread deps ctx thread code = return_op () \<or> (\<exists>tn reason. routeFailedThread deps ctx thread code
      = route_thread deps ctx thread tn reason \<and> CanTransitionThread (thread_Status thread) tn \<and> thread_Status thread \<noteq> tn)"
    by (cases "thread_Status thread") (auto simp: routeFailedThread_def can_transition_thread)
  obtain w' evt where t: "seq_op (Do ctx (finish_unit deps run' (run_Version run) ?data)) (\<lambda>_. routeFailedThread deps ctx thread code) ?w1
        = (w', Inr ())" "struct_ok (w_store w')" "lookup (st_runs (w_store w')) (run_ID run) = Some run'"
      "run_events (run_ID run) (st_events (w_store w')) = run_events (run_ID run) (st_events (w_store ?w1)) @ [evt]" "st_runClaims (w_store w') = st_runClaims (w_store ?w1)"
    by (rule converge_tail [OF env(2) assms(2) env(1,3) fin(1) th route]) blast
  have "convergeRunToFailed deps ctx run code detail extra w = (w', Inr ())"
    using run(2) thread(1) fin(1) t(1)
    by (simp add: convergeRunToFailed_def seq_op_def [of "from_store _"] seq_op_def [of Now] seq_op_def [of "pure_op _"]
        from_store_def Now_def pure_op_def Let_def del: merge_data.simps)
  then show thesis using that t fin by simp
qed

lemma convergePendingExhausted_runs:
  assumes "struct_ok (w_store w)" "\<not> ctx_inUnit ctx" "env_ok deps w"
    and run: "lookup (st_runs (w_store w)) (run_ID run) = Some run" "\<not> Terminal (run_Status run)"
    and thread: "ThreadRepository_Get (run_TenantID run) (run_ThreadID run) (w_store w) = Inr thread" "thread_ID thread = run_ThreadID run"
  obtains w' run' evt where "convergePendingExhausted deps ctx run detail attempts w = (w', Inr ())" "struct_ok (w_store w')"
    "lookup (st_runs (w_store w')) (run_ID run) = Some run'" "run_TenantID run' = run_TenantID run"
    "run_Status run' = RunCancelled"
    "run_events (run_ID run) (st_events (w_store w')) = run_events (run_ID run) (st_events (w_store w)) @ [evt]"
    "st_runClaims (w_store w') = st_runClaims (w_store w)"
proof -
  let ?w1 = "w\<lparr>w_ticks := w_ticks w + 1\<rparr>"
  let ?data = "[(''to'', DStr (RunStatus_name RunCancelled)), (''code'', DStr ExhaustedFailureCode),
           (''detail'', DStr detail), (''attempts'', DInt attempts)]"
  let ?route = "if thread_Status thread = ThreadPlanning then route_thread deps ctx thread ThreadAwaitingInput ExhaustedFailureCode
        else if thread_Status thread = ThreadExecuting \<or> thread_Status thread = ThreadReadyToExecute
        then route_thread deps ctx thread ThreadNeedsAttention ExhaustedFailureCode
        else return_op ()"
  obtain run' where fin: "Finish run RunCancelled (w_clock w (w_ticks w)) None = Inr run'" "run_Status run' = RunCancelled"
      "run_TenantID run' = run_TenantID run"
    using can_finish_run(1) [OF run(2)] by blast
  have th: "lookup (st_threads (w_store ?w1)) (thread_ID thread) = Some thread"
    using thread by (auto simp: ThreadRepository_Get_def split: option.splits)
  have env: "env_ok deps ?w1" "struct_ok (w_store ?w1)" "lookup (st_runs (w_store ?w1)) (run_ID run) = Some run"
    using assms(1,3) run(1) by (simp_all add: env_ok_def)
  have route: "?route = return_op () \<or> (\<exists>tn reason. ?route = route_thread deps ctx thread tn reason
      \<and> CanTransitionThread (thread_Status thread) tn \<and> thread_Status thread \<noteq> tn)"
    by (cases "thread_Status thread") (auto simp: can_transition_thread)
  obtain w' evt where t: "seq_op (Do ctx (finish_unit deps run' (run_Version run) ?data)) (\<lambda>_. ?route) ?w1 = (w', Inr ())"
      "struct_ok (w_store w')" "lookup (st_runs (w_store w')) (run_ID run) = Some run'"
      "run_events (run_ID run) (st_events (w_store w')) = run_events (run_ID run) (st_events (w_store ?w1)) @ [evt]" "st_runClaims (w_store w') = st_runClaims (w_store ?w1)"
    by (rule converge_tail [OF env(2) assms(2) env(1,3) fin(1) th route]) blast
  have "convergePendingExhausted deps ctx run detail attempts w = (w', Inr ())"
    using run(2) thread(1) fin(1) t(1)
    by (simp add: convergePendingExhausted_def seq_op_def [of "from_store _"] seq_op_def [of Now] seq_op_def [of "pure_op _"]
        from_store_def Now_def pure_op_def Let_def del: RunStatus_name.simps)
  then show thesis using that t fin by simp
qed

text \<open>On a terminal run both convergences do nothing at all.\<close>

lemma converge_terminal:
  assumes "RunRepository_Get tn rid (w_store w) = Inr run" "Terminal (run_Status run)"
  shows "ConvergeExhausted deps ctx tn rid attempts cause w = (w, Inr ())"
    and "RecoverInterrupted deps ctx tn rid cause w = (w, Inr ())"
  using assms by (auto simp: ConvergeExhausted_def RecoverInterrupted_def convergeRunToFailed_def seq_op_def from_store_def
      return_op_def Terminal_def Let_def)

lemma RunRepository_Get_ok:
  "RunRepository_Get tn rid st = Inr run \<longleftrightarrow> lookup (st_runs st) rid = Some run \<and> run_TenantID run = tn"
  by (auto simp: RunRepository_Get_def scoped_def split: option.splits)

lemma ConvergeExhausted_runs:
  assumes "struct_ok (w_store w)" and "\<not> ctx_inUnit ctx" and "env_ok deps w"
    and "RunRepository_Get tn rid (w_store w) = Inr run" and "run_ID run = rid"
    and "ThreadRepository_Get tn (run_ThreadID run) (w_store w) = Inr thread" and "thread_ID thread = run_ThreadID run"
  obtains w' run' where "ConvergeExhausted deps ctx tn rid attempts cause w = (w', Inr ())"
    "RunRepository_Get tn rid (w_store w') = Inr run'" "Terminal (run_Status run')"
    "st_runClaims (w_store w') = st_runClaims (w_store w)"
    "if Terminal (run_Status run) then w' = w
     else (\<exists>evt. run_events rid (st_events (w_store w')) = run_events rid (st_events (w_store w)) @ [evt])
       \<and> (if run_Status run = RunPending then run_Status run' = RunCancelled
          else run_Status run' = RunFailed \<and> (\<exists>f. run_Failure run' = Some f \<and> fi_Code f = ExhaustedFailureCode))"
proof (cases "Terminal (run_Status run)")
  case True
  show thesis
    by (rule that [OF converge_terminal(1) [OF assms(4) True] assms(4) True]) (simp_all add: True)
next
  case False
  have lk: "lookup (st_runs (w_store w)) (run_ID run) = Some run" "run_TenantID run = tn"
    using assms(4,5) by (auto simp: RunRepository_Get_ok)
  let ?detail = "case cause of None \<Rightarrow> ''dispatch attempts exhausted without reaching a terminal state'' | Some c \<Rightarrow> safeDetail deps c"
  have start: "ConvergeExhausted deps ctx tn rid attempts cause w =
      (if run_Status run = RunPending then convergePendingExhausted deps ctx run ?detail attempts w
       else convergeRunToFailed deps ctx run ExhaustedFailureCode ?detail [(''attempts'', DInt attempts)] w)"
    using assms(4) by (simp add: ConvergeExhausted_def seq_op_def from_store_def Let_def)
  note th = assms(6) [folded lk(2)] assms(7)
  show thesis
  proof (cases "run_Status run = RunPending")
    case True
    obtain w' run' evt where c: "convergePendingExhausted deps ctx run ?detail attempts w = (w', Inr ())"
        "lookup (st_runs (w_store w')) (run_ID run) = Some run'" "run_TenantID run' = run_TenantID run" "run_Status run' = RunCancelled"
        "run_events (run_ID run) (st_events (w_store w')) = run_events (run_ID run) (st_events (w_store w)) @ [evt]"
        "st_runClaims (w_store w') = st_runClaims (w_store w)"
      by (rule convergePendingExhausted_runs [OF assms(1-3) lk(1) False th, of ?detail attempts])
    show thesis
      by (rule that [of w' run']) (use c True False assms(5) lk(2) in \<open>simp_all add: start RunRepository_Get_ok Terminal_def\<close>)
  next
    case mid: False
    obtain w' run' evt where c: "convergeRunToFailed deps ctx run ExhaustedFailureCode ?detail [(''attempts'', DInt attempts)] w = (w', Inr ())"
        "lookup (st_runs (w_store w')) (run_ID run) = Some run'" "run_TenantID run' = run_TenantID run" "run_Status run' = RunFailed"
        "run_Failure run' = Some \<lparr>fi_Code = ExhaustedFailureCode, fi_Message = ?detail, fi_Transient = False\<rparr>"
        "run_events (run_ID run) (st_events (w_store w')) = run_events (run_ID run) (st_events (w_store w)) @ [evt]"
        "st_runClaims (w_store w') = st_runClaims (w_store w)"
      by (rule convergeRunToFailed_runs [OF assms(1-3) lk(1) False mid th, of ExhaustedFailureCode ?detail "[(''attempts'', DInt attempts)]"])
    show thesis
      by (rule that [of w' run']) (use c mid False assms(5) lk(2) in \<open>simp_all add: start RunRepository_Get_ok Terminal_def\<close>)
  qed
qed

lemma RecoverInterrupted_runs:
  assumes "struct_ok (w_store w)" and "\<not> ctx_inUnit ctx" and "env_ok deps w"
    and "RunRepository_Get tn rid (w_store w) = Inr run" and "run_ID run = rid" and "run_Status run \<noteq> RunPending"
    and "ThreadRepository_Get tn (run_ThreadID run) (w_store w) = Inr thread" and "thread_ID thread = run_ThreadID run"
  obtains w' run' where "RecoverInterrupted deps ctx tn rid cause w = (w', Inr ())"
    "RunRepository_Get tn rid (w_store w') = Inr run'" "Terminal (run_Status run')"
    "st_runClaims (w_store w') = st_runClaims (w_store w)"
    "if Terminal (run_Status run) then w' = w
     else run_Status run' = RunFailed \<and> (\<exists>f. run_Failure run' = Some f \<and> fi_Code f = InterruptedFailureCode)
       \<and> (\<exists>evt. run_events rid (st_events (w_store w')) = run_events rid (st_events (w_store w)) @ [evt])"
proof (cases "Terminal (run_Status run)")
  case True
  show thesis
    by (rule that [OF converge_terminal(2) [OF assms(4) True] assms(4) True]) (simp_all add: True)
next
  case False
  have lk: "lookup (st_runs (w_store w)) (run_ID run) = Some run" "run_TenantID run = tn"
    using assms(4,5) by (auto simp: RunRepository_Get_ok)
  let ?detail = "case cause of None \<Rightarrow> ''execution lease lost before completion'' | Some c \<Rightarrow> safeDetail deps c"
  have start: "RecoverInterrupted deps ctx tn rid cause w = convergeRunToFailed deps ctx run InterruptedFailureCode ?detail [] w"
    using assms(4,6) by (simp add: RecoverInterrupted_def seq_op_def from_store_def)
  obtain w' run' evt where c: "convergeRunToFailed deps ctx run InterruptedFailureCode ?detail [] w = (w', Inr ())"
      "lookup (st_runs (w_store w')) (run_ID run) = Some run'" "run_TenantID run' = run_TenantID run" "run_Status run' = RunFailed"
      "run_Failure run' = Some \<lparr>fi_Code = InterruptedFailureCode, fi_Message = ?detail, fi_Transient = False\<rparr>"
      "run_events (run_ID run) (st_events (w_store w')) = run_events (run_ID run) (st_events (w_store w)) @ [evt]"
      "st_runClaims (w_store w') = st_runClaims (w_store w)"
    by (rule convergeRunToFailed_runs [OF assms(1-3) lk(1) False assms(6) assms(7) [folded lk(2)] assms(8),
          of InterruptedFailureCode ?detail "[]"])
  show thesis
    by (rule that [of w' run']) (use c False assms(5) lk(2) in \<open>simp_all add: start RunRepository_Get_ok Terminal_def\<close>)
qed

text \<open>
  C37: a run whose dispatch budget is spent always reaches a terminal state. Whatever state the
  run and its thread are in, \<^verbatim>\<open>ConvergeExhausted\<close> returns without error (identifiers and the
  event encoding permitting); a pending run is then cancelled, one abandoned mid-flight has failed
  with the exhausted code, and a finished one is left alone. A convergence that acts reports
  exactly one status event of the run, and calling it again, with any arguments, does nothing.
\<close>

theorem exhausted_run_converges:
  assumes "struct_ok (w_store w)" and "\<not> ctx_inUnit ctx" and "env_ok deps w"
    and "RunRepository_Get tn rid (w_store w) = Inr run" and "run_ID run = rid"
    and "ThreadRepository_Get tn (run_ThreadID run) (w_store w) = Inr thread" and "thread_ID thread = run_ThreadID run"
  shows "\<exists>w' run'. ConvergeExhausted deps ctx tn rid attempts cause w = (w', Inr ())
    \<and> RunRepository_Get tn rid (w_store w') = Inr run'
    \<and> (if Terminal (run_Status run) then w' = w
       else (\<exists>evt. run_events rid (st_events (w_store w')) = run_events rid (st_events (w_store w)) @ [evt])
         \<and> (if run_Status run = RunPending then run_Status run' = RunCancelled
            else run_Status run' = RunFailed \<and> (\<exists>f. run_Failure run' = Some f \<and> fi_Code f = ExhaustedFailureCode)))
    \<and> Terminal (run_Status run')
    \<and> (\<forall>deps2 ctx2 attempts2 cause2. ConvergeExhausted deps2 ctx2 tn rid attempts2 cause2 w' = (w', Inr ()))"
proof -
  obtain w' run' where w': "ConvergeExhausted deps ctx tn rid attempts cause w = (w', Inr ())"
    "RunRepository_Get tn rid (w_store w') = Inr run'" "Terminal (run_Status run')"
    "if Terminal (run_Status run) then w' = w
     else (\<exists>evt. run_events rid (st_events (w_store w')) = run_events rid (st_events (w_store w)) @ [evt])
       \<and> (if run_Status run = RunPending then run_Status run' = RunCancelled
          else run_Status run' = RunFailed \<and> (\<exists>f. run_Failure run' = Some f \<and> fi_Code f = ExhaustedFailureCode))"
    by (rule ConvergeExhausted_runs [OF assms])
  with converge_terminal(1) [OF w'(2,3)] show ?thesis by blast
qed

text \<open>
  A run abandoned mid-flight always ends as a visible failure. \<^verbatim>\<open>RecoverInterrupted\<close>
  refuses a pending run without touching the store; any other run is afterwards terminal, failed
  with the interrupted code if it was not terminal already, with exactly one status event, and a
  second recovery does nothing.
\<close>

theorem interrupted_run_recovers:
  assumes "struct_ok (w_store w)" and "\<not> ctx_inUnit ctx" and "env_ok deps w"
    and "RunRepository_Get tn rid (w_store w) = Inr run" and "run_ID run = rid"
    and "ThreadRepository_Get tn (run_ThreadID run) (w_store w) = Inr thread" and "thread_ID thread = run_ThreadID run"
  shows "if run_Status run = RunPending
    then RecoverInterrupted deps ctx tn rid cause w = (w, Inl (Conflictf ''run_not_interrupted''))
    else (\<exists>w' run'. RecoverInterrupted deps ctx tn rid cause w = (w', Inr ())
      \<and> RunRepository_Get tn rid (w_store w') = Inr run' \<and> Terminal (run_Status run')
      \<and> (if Terminal (run_Status run) then w' = w
         else run_Status run' = RunFailed \<and> (\<exists>f. run_Failure run' = Some f \<and> fi_Code f = InterruptedFailureCode)
           \<and> (\<exists>evt. run_events rid (st_events (w_store w')) = run_events rid (st_events (w_store w)) @ [evt]))
      \<and> (\<forall>deps2 ctx2 cause2. RecoverInterrupted deps2 ctx2 tn rid cause2 w' = (w', Inr ())))"
proof (cases "run_Status run = RunPending")
  case True
  then show ?thesis using assms(4) by (simp add: RecoverInterrupted_def seq_op_def from_store_def throw_op_def)
next
  case False
  obtain w' run' where w': "RecoverInterrupted deps ctx tn rid cause w = (w', Inr ())"
    "RunRepository_Get tn rid (w_store w') = Inr run'" "Terminal (run_Status run')"
    "if Terminal (run_Status run) then w' = w
     else run_Status run' = RunFailed \<and> (\<exists>f. run_Failure run' = Some f \<and> fi_Code f = InterruptedFailureCode)
       \<and> (\<exists>evt. run_events rid (st_events (w_store w')) = run_events rid (st_events (w_store w)) @ [evt])"
    by (rule RecoverInterrupted_runs [OF assms(1-5) False assms(6,7)])
  with False converge_terminal(2) [OF w'(2,3)] show ?thesis by auto
qed

text \<open>A pending run of an idle thread, and the same run mid-flight.\<close>

lemma ex_converge_hyps:
  assumes "st = ex_store1\<lparr>st_runs := [(''r1'', (ex_run ''r1'' ''k1'')\<lparr>run_Status := s\<rparr>)]\<rparr>"
  shows "struct_ok (w_store (ex_world st))" "env_ok ex_deps (ex_world st)"
    "RunRepository_Get ''t'' ''r1'' (w_store (ex_world st)) = Inr ((ex_run ''r1'' ''k1'')\<lparr>run_Status := s\<rparr>)"
    "ThreadRepository_Get ''t'' (run_ThreadID ((ex_run ''r1'' ''k1'')\<lparr>run_Status := s\<rparr>)) (w_store (ex_world st)) = Inr ex_thread"
    "run_ID ((ex_run ''r1'' ''k1'')\<lparr>run_Status := s\<rparr>) = ''r1''" "run_Status ((ex_run ''r1'' ''k1'')\<lparr>run_Status := s\<rparr>) = s"
    "thread_ID ex_thread = run_ThreadID ((ex_run ''r1'' ''k1'')\<lparr>run_Status := s\<rparr>)"
  by (simp_all add: assms ex_world_def struct_ok_def env_ok_def ex_deps_def zeros_def ex_store1_eq ex_store_def ex_run_def
      ex_thread_def empty_store_def RunRepository_Get_def ThreadRepository_Get_def scoped_def)

theorem exhausted_run_converges_witness:
  "\<exists>w' run'. ConvergeExhausted ex_deps Background ''t'' ''r1'' 4 None
      (ex_world (ex_store1\<lparr>st_runs := [(''r1'', (ex_run ''r1'' ''k1'')\<lparr>run_Status := RunPending\<rparr>)]\<rparr>)) = (w', Inr ())
    \<and> RunRepository_Get ''t'' ''r1'' (w_store w') = Inr run' \<and> run_Status run' = RunCancelled"
proof -
  define st where "st = ex_store1\<lparr>st_runs := [(''r1'', (ex_run ''r1'' ''k1'')\<lparr>run_Status := RunPending\<rparr>)]\<rparr>"
  note H = ex_converge_hyps [OF st_def]
  have bg: "\<not> ctx_inUnit Background" by (simp add: Background_def)
  from exhausted_run_converges [OF H(1) bg H(2,3,5,4,7), of 4 None] H(6) show ?thesis
    unfolding st_def by (auto simp: Terminal_def)
qed

theorem interrupted_run_recovers_witness:
  "\<exists>w' run'. RecoverInterrupted ex_deps Background ''t'' ''r1'' None
      (ex_world (ex_store1\<lparr>st_runs := [(''r1'', (ex_run ''r1'' ''k1'')\<lparr>run_Status := RunExecuting\<rparr>)]\<rparr>)) = (w', Inr ())
    \<and> RunRepository_Get ''t'' ''r1'' (w_store w') = Inr run' \<and> run_Status run' = RunFailed"
proof -
  define st where "st = ex_store1\<lparr>st_runs := [(''r1'', (ex_run ''r1'' ''k1'')\<lparr>run_Status := RunExecuting\<rparr>)]\<rparr>"
  note H = ex_converge_hyps [OF st_def]
  have bg: "\<not> ctx_inUnit Background" by (simp add: Background_def)
  from interrupted_run_recovers [OF H(1) bg H(2,3,5,4,7), of None] H(6) show ?thesis
    unfolding st_def by (auto simp: Terminal_def)
qed

end
