(* ===== verification/Run_Worker.thy ===== *)
theory Run_Worker
  imports Run_Recovery
begin

section \<open>The run worker (internal/worker/worker.go)\<close>

text \<open>
  A worker acquires a batch of claims and settles each: leftover claims of finished runs are
  removed, spent ones converge, pending runs execute under a heartbeat, runs abandoned mid-flight
  are recovered. Errors are only logged, so an operation is a function of the world that also
  returns what its observer saw.

  The engine's execution runs beside the heartbeat loop. \<open>exec_event\<close> is one thing that happens
  while it runs: a step of the engine (any function of the world), a heartbeat tick, or the
  cancellation of the context from outside; a list of them is one interleaving.
\<close>

record WorkerConfig =
  wc_BatchSize :: int
  wc_Interval :: Duration
  wc_Lease :: Duration
  wc_HeartbeatEvery :: Duration
  wc_CleanupTimeout :: Duration
  wc_Concurrency :: int
  wc_MaxAttempts :: int

definition WorkerConfig_Validate :: "WorkerConfig \<Rightarrow> unit result" where
  "WorkerConfig_Validate c =
     (if wc_BatchSize c < 1 \<or> wc_BatchSize c > 1000 then Inl Foreign
      else if wc_Interval c < 10 * Millisecond then Inl Foreign
      else if wc_Lease c < Second then Inl Foreign
      else if wc_HeartbeatEvery c < 10 * Millisecond then Inl Foreign
      else if wc_Lease c < 3 * wc_HeartbeatEvery c then Inl Foreign
      else if wc_CleanupTimeout c < 100 * Millisecond then Inl Foreign
      else if wc_Concurrency c < 1 \<or> wc_Concurrency c > 64 then Inl Foreign
      else if wc_MaxAttempts c < 1 \<or> wc_MaxAttempts c > 10 then Inl Foreign
      else Inr ())"

definition Worker_New :: "WorkerConfig \<Rightarrow> string \<Rightarrow> (WorkerConfig \<times> string) result" where
  "Worker_New cfg owner =
     (case WorkerConfig_Validate cfg of Inl e \<Rightarrow> Inl (Wrapped e)
      | Inr _ \<Rightarrow> (case ValidateClaimOwner owner of Inl e \<Rightarrow> Inl (Wrapped e) | Inr _ \<Rightarrow> Inr (cfg, owner)))"

definition ProcessOnce_request :: "WorkerConfig \<Rightarrow> string \<Rightarrow> RunClaimBatchRequest" where
  "ProcessOnce_request cfg owner =
     \<lparr>br_Owner = owner, br_Limit = min (wc_BatchSize cfg) (wc_Concurrency cfg), br_LeaseFor = wc_Lease cfg\<rparr>"

datatype worker_obs = ClaimsAcquired int | RunFinished string | RunConverged string

type_synonym 'a worker_op = "world \<Rightarrow> world \<times> 'a"

definition isCancellation :: "go_error option \<Rightarrow> bool" where
  "isCancellation err = (case err of None \<Rightarrow> False
     | Some e \<Rightarrow> ErrKindOf e = ErrKindCancelled \<or> errors_Is_Canceled e)"

definition cleanupTerminal :: "RunClaimRef \<Rightarrow> unit worker_op" where
  "cleanupTerminal ref w =
     (fst (on_store (RunClaimRepository_CleanupTerminal (ref_TenantID ref) (ref_RunID ref)) w), ())"

subsection \<open>Executing under a lease\<close>

datatype exec_event = EngineStep "world \<Rightarrow> world" | Tick | Shutdown

text \<open>
  \<open>alive\<close>: the heartbeat loop still runs; \<open>shut\<close>: the execution context is cancelled. The second
  component of the result tells whether the epoch was fenced off.
\<close>

fun keepLease :: "WorkerConfig \<Rightarrow> RunClaimRef \<Rightarrow> bool \<Rightarrow> bool \<Rightarrow> exec_event list \<Rightarrow> bool worker_op" where
  "keepLease cfg ref alive shut [] w = (w, False)"
| "keepLease cfg ref alive shut (EngineStep f # es) w = keepLease cfg ref alive shut es (f w)"
| "keepLease cfg ref alive shut (Shutdown # es) w = keepLease cfg ref alive True es w"
| "keepLease cfg ref alive shut (Tick # es) w =
     (if \<not> alive then keepLease cfg ref alive shut es w
      else (case store_at (RunClaimRepository_Heartbeat ref (wc_Lease cfg)) w of
              (w1, Inr _) \<Rightarrow> keepLease cfg ref alive shut es w1
            | (w1, Inl _) \<Rightarrow>
                if shut then keepLease cfg ref False shut es w1
                else (fst (keepLease cfg ref False True es w1), True)))"

definition disposeAfterExecution :: "bool \<Rightarrow> RunClaimRef \<Rightarrow> go_error option \<Rightarrow> worker_obs list worker_op" where
  "disposeAfterExecution ctxDone ref execErr w =
     (case RunRepository_Get (ref_TenantID ref) (ref_RunID ref) (w_store w) of
        Inl _ \<Rightarrow> (w, [])
      | Inr run \<Rightarrow>
          if Terminal (run_Status run)
          then (case on_store (RunClaimRepository_Complete ref) w of
                  (w1, Inr _) \<Rightarrow> (w1, [RunFinished (RunStatus_name (run_Status run))])
                | (w1, Inl _) \<Rightarrow> (fst (cleanupTerminal ref w1), [RunFinished (RunStatus_name (run_Status run))]))
          else if ctxDone \<or> isCancellation execErr then (fst (store_at (RunClaimRepository_Release ref) w), [])
          else (fst (store_at (RunClaimRepository_Release ref) w), []))"

definition executeClaim ::
  "WorkerConfig \<Rightarrow> RunClaimRef \<Rightarrow> exec_event list \<Rightarrow> bool \<Rightarrow> go_error option \<Rightarrow> worker_obs list worker_op" where
  "executeClaim cfg ref events ctxDone execErr w =
     (case keepLease cfg ref True False events w of
        (w1, True) \<Rightarrow> (w1, [])
      | (w1, False) \<Rightarrow> disposeAfterExecution ctxDone ref execErr w1)"

subsection \<open>Settling one claim\<close>

definition recoverInterrupted :: "Deps \<Rightarrow> ctx \<Rightarrow> go_error \<Rightarrow> RunClaimRef \<Rightarrow> worker_obs list worker_op" where
  "recoverInterrupted deps ctx cause ref w =
     (case RecoverInterrupted deps ctx (ref_TenantID ref) (ref_RunID ref) (Some cause) w of
        (w1, Inl _) \<Rightarrow> (w1, [])
      | (w1, Inr _) \<Rightarrow> (fst (cleanupTerminal ref w1), [RunConverged ''interrupted'']))"

definition convergeExhausted :: "Deps \<Rightarrow> ctx \<Rightarrow> go_error \<Rightarrow> RunClaimRef \<Rightarrow> int \<Rightarrow> worker_obs list worker_op" where
  "convergeExhausted deps ctx cause ref attempts w =
     (case ConvergeExhausted deps ctx (ref_TenantID ref) (ref_RunID ref) attempts (Some cause) w of
        (w1, Inl _) \<Rightarrow> (w1, [])
      | (w1, Inr _) \<Rightarrow> (fst (cleanupTerminal ref w1), [RunConverged ''exhausted'']))"

definition claim_ref :: "string \<Rightarrow> RunClaim \<Rightarrow> RunClaimRef" where
  "claim_ref owner c = \<lparr>ref_TenantID = claim_TenantID c, ref_RunID = claim_RunID c, ref_Owner = owner,
     ref_Token = claim_Token c, ref_Generation = claim_Generation c\<rparr>"

definition runClaim ::
  "Deps \<Rightarrow> WorkerConfig \<Rightarrow> string \<Rightarrow> ctx \<Rightarrow> go_error \<Rightarrow> exec_event list \<Rightarrow> bool \<Rightarrow> go_error option \<Rightarrow> RunClaim
   \<Rightarrow> worker_obs list worker_op" where
  "runClaim deps cfg owner ctx cause events ctxDone execErr c w =
     (let ref = claim_ref owner c in
      case RunRepository_Get (ref_TenantID ref) (ref_RunID ref) (w_store w) of
        Inl _ \<Rightarrow> (w, [])
      | Inr run \<Rightarrow>
          if Terminal (run_Status run) then (fst (cleanupTerminal ref w), [])
          else if claim_Attempts c > wc_MaxAttempts cfg then convergeExhausted deps ctx cause ref (claim_Attempts c) w
          else if run_Status run = RunPending then executeClaim cfg ref events ctxDone execErr w
          else recoverInterrupted deps ctx cause ref w)"

subsection \<open>Laws\<close>

lemma cleanupTerminal_runs:
  assumes "RunRepository_Get (ref_TenantID ref) (ref_RunID ref) (w_store w) = Inr run" and "Terminal (run_Status run)"
  shows "w_store (fst (cleanupTerminal ref w)) = drop_claim (ref_RunID ref) (w_store w)"
  using assms by (simp add: cleanupTerminal_def on_store_def RunClaimRepository_CleanupTerminal_def RunRepository_Get_ok scoped_def)

lemma drop_claim_simps [simp]:
  "st_runs (drop_claim k st) = st_runs st"
  "lookup (st_runClaims (drop_claim k st)) j = (if j = k then None else lookup (st_runClaims st) j)"
  by (simp_all add: drop_claim_def)

lemma Get_drop_claim [simp]: "RunRepository_Get tn rid (drop_claim k st) = RunRepository_Get tn rid st"
  by (simp add: RunRepository_Get_def)

text \<open>
  No claim is dispatched forever. When a worker picks up a claim whose run is finished,
  abandoned mid-flight, or acquired more often than the budget allows, then after settling it the
  run is terminal and the claim is gone, while every other claim is what it was; and the engine
  does not execute the run again.
\<close>

theorem spent_claim_settles:
  assumes "struct_ok (w_store w)" and "\<not> ctx_inUnit ctx" and "env_ok deps w"
    and "RunRepository_Get (claim_TenantID c) (claim_RunID c) (w_store w) = Inr run" and "run_ID run = claim_RunID c"
    and "ThreadRepository_Get (claim_TenantID c) (run_ThreadID run) (w_store w) = Inr thread" and "thread_ID thread = run_ThreadID run"
    and "run_Status run \<noteq> RunPending \<or> claim_Attempts c > wc_MaxAttempts cfg"
  shows "\<exists>w' obs run'. runClaim deps cfg owner ctx cause events ctxDone execErr c w = (w', obs)
    \<and> RunRepository_Get (claim_TenantID c) (claim_RunID c) (w_store w') = Inr run' \<and> Terminal (run_Status run')
    \<and> (\<forall>k. lookup (st_runClaims (w_store w')) k = (if k = claim_RunID c then None else lookup (st_runClaims (w_store w)) k))"
proof -
  let ?ref = "claim_ref owner c"
  have ref: "ref_TenantID ?ref = claim_TenantID c" "ref_RunID ?ref = claim_RunID c" by (simp_all add: claim_ref_def)
  have settle: "RunRepository_Get (claim_TenantID c) (claim_RunID c) (w_store (fst (cleanupTerminal ?ref w1))) = Inr run'
      \<and> (\<forall>k. lookup (st_runClaims (w_store (fst (cleanupTerminal ?ref w1)))) k
          = (if k = claim_RunID c then None else lookup (st_runClaims (w_store w)) k))"
    if "RunRepository_Get (claim_TenantID c) (claim_RunID c) (w_store w1) = Inr run'" "Terminal (run_Status run')"
      "st_runClaims (w_store w1) = st_runClaims (w_store w)" for w1 run'
    using cleanupTerminal_runs [of ?ref w1 run'] that by (simp add: ref)
  consider "Terminal (run_Status run)" | "\<not> Terminal (run_Status run)" "claim_Attempts c > wc_MaxAttempts cfg"
    | "\<not> Terminal (run_Status run)" "\<not> claim_Attempts c > wc_MaxAttempts cfg" "run_Status run \<noteq> RunPending"
    using assms(8) by blast
  then show ?thesis
  proof cases
    case 1
    then have "runClaim deps cfg owner ctx cause events ctxDone execErr c w = (fst (cleanupTerminal ?ref w), [])"
      using assms(4) by (simp add: runClaim_def Let_def ref)
    then show ?thesis using settle [OF assms(4) 1] 1 by blast
  next
    case 2
    obtain w1 run' where c: "ConvergeExhausted deps ctx (claim_TenantID c) (claim_RunID c) (claim_Attempts c) (Some cause) w = (w1, Inr ())"
        "RunRepository_Get (claim_TenantID c) (claim_RunID c) (w_store w1) = Inr run'" "Terminal (run_Status run')"
        "st_runClaims (w_store w1) = st_runClaims (w_store w)"
      by (rule ConvergeExhausted_runs [OF assms(1-7)])
    then have "runClaim deps cfg owner ctx cause events ctxDone execErr c w = (fst (cleanupTerminal ?ref w1), [RunConverged ''exhausted''])"
      using assms(4) 2 by (simp add: runClaim_def convergeExhausted_def Let_def ref)
    then show ?thesis using settle [OF c(2-4)] c(3) by blast
  next
    case 3
    obtain w1 run' where c: "RecoverInterrupted deps ctx (claim_TenantID c) (claim_RunID c) (Some cause) w = (w1, Inr ())"
        "RunRepository_Get (claim_TenantID c) (claim_RunID c) (w_store w1) = Inr run'" "Terminal (run_Status run')"
        "st_runClaims (w_store w1) = st_runClaims (w_store w)"
      by (rule RecoverInterrupted_runs [OF assms(1-5) 3(3) assms(6,7)])
    then have "runClaim deps cfg owner ctx cause events ctxDone execErr c w = (fst (cleanupTerminal ?ref w1), [RunConverged ''interrupted''])"
      using assms(4) 3 by (simp add: runClaim_def recoverInterrupted_def Let_def ref)
    then show ?thesis using settle [OF c(2-4)] c(3) by blast
  qed
qed

text \<open>
  An execution leaves its claim settled. However engine steps, heartbeats and a shutdown
  interleave: if the epoch was fenced off, the worker writes nothing after the execution. If it
  was not, and the run can be read, then a finished run's claim is gone; an unfinished run's claim
  is handed back runnable with its attempt count when the worker still holds it, and is left
  untouched when another epoch holds it.
\<close>

theorem executed_claim_settled:
  assumes "keepLease cfg ref True False events w = (w1, lost)" and "RunClaimRef_Validate ref = Inr ()"
    and "executeClaim cfg ref events ctxDone execErr w = (w', obs)"
  shows "if lost then w' = w1
    else (case RunRepository_Get (ref_TenantID ref) (ref_RunID ref) (w_store w1) of
      Inl _ \<Rightarrow> w' = w1
    | Inr run \<Rightarrow>
        if Terminal (run_Status run) then w_store w' = drop_claim (ref_RunID ref) (w_store w1)
        else (case fenced ref (w_store w1) of
            Inl _ \<Rightarrow> w_store w' = w_store w1
          | Inr c \<Rightarrow> \<exists>c'. w_store w' = put_claim (ref_RunID ref) c' (w_store w1) \<and> claim_Status c' = ClaimRunnable
              \<and> claim_Attempts c' = claim_Attempts c \<and> claim_Generation c' = claim_Generation c))"
proof (cases lost)
  case True
  then show ?thesis using assms by (simp add: executeClaim_def)
next
  case False
  then have d: "disposeAfterExecution ctxDone ref execErr w1 = (w', obs)" using assms(1,3) by (simp add: executeClaim_def)
  show ?thesis
  proof (cases "RunRepository_Get (ref_TenantID ref) (ref_RunID ref) (w_store w1)")
    case (Inl e)
    then show ?thesis using d False by (simp add: disposeAfterExecution_def)
  next
    case (Inr run)
    show ?thesis
    proof (cases "Terminal (run_Status run)")
      case True
      have "w_store w' = drop_claim (ref_RunID ref) (w_store w1)"
      proof (cases "fenced ref (w_store w1)")
        case (Inl e)
        have "on_store (RunClaimRepository_Complete ref) w1 = (w1, Inl e)"
          using Inl assms(2) by (simp add: on_store_def RunClaimRepository_Complete_def)
        then show ?thesis using d Inr True cleanupTerminal_runs [OF Inr True] by (simp add: disposeAfterExecution_def)
      next
        case fc: (Inr c)
        then show ?thesis using d Inr True assms(2)
          by (auto simp: disposeAfterExecution_def on_store_def RunClaimRepository_Complete_def)
      qed
      then show ?thesis using False Inr True by simp
    next
      case live: False
      have "w' = fst (store_at (RunClaimRepository_Release ref) w1)"
        using d Inr live by (simp add: disposeAfterExecution_def split: if_splits)
      then show ?thesis using False Inr live assms(2)
        by (auto simp: store_at_eq on_store_def RunClaimRepository_Release_def releaseClaim_def Let_def split: sum.splits)
    qed
  qed
qed

text \<open>A claim acquired once too often, and a live claim whose execution stops short.\<close>

definition ex_worker :: WorkerConfig where
  "ex_worker = \<lparr>wc_BatchSize = 4, wc_Interval = Second, wc_Lease = 60 * Second, wc_HeartbeatEvery = Second,
     wc_CleanupTimeout = Second, wc_Concurrency = 4, wc_MaxAttempts = 3\<rparr>"

definition ex_claim :: RunClaim where
  "ex_claim = acquireClaim (fresh_claim ''t'' ''r1'' 0) ''A'' zero_token 0 Second"

lemma ex_claim_fields:
  "claim_TenantID ex_claim = ''t''" "claim_RunID ex_claim = ''r1''" "claim_Token ex_claim = zero_token"
  "claim_Generation ex_claim = 1" "claim_Attempts ex_claim = 1" "claim_Status ex_claim = ClaimClaimed"
  "claim_Owner ex_claim = ''A''" "claim_ExpiresAt ex_claim = Some Second"
  by (simp_all add: ex_claim_def acquireClaim_def fresh_claim_def ClaimExpiry_def Let_def)

theorem spent_claim_settles_witness:
  "\<exists>w' obs run'. runClaim ex_deps ex_worker ''A'' Background Foreign [] False None (ex_claim\<lparr>claim_Attempts := 4\<rparr>)
      (ex_world (ex_store1\<lparr>st_runs := [(''r1'', (ex_run ''r1'' ''k1'')\<lparr>run_Status := RunPending\<rparr>)]\<rparr>)) = (w', obs)
    \<and> RunRepository_Get ''t'' ''r1'' (w_store w') = Inr run' \<and> Terminal (run_Status run')
    \<and> lookup (st_runClaims (w_store w')) ''r1'' = None"
proof -
  define st where "st = ex_store1\<lparr>st_runs := [(''r1'', (ex_run ''r1'' ''k1'')\<lparr>run_Status := RunPending\<rparr>)]\<rparr>"
  note H = ex_converge_hyps [OF st_def]
  have bg: "\<not> ctx_inUnit Background" by (simp add: Background_def)
  have c: "claim_TenantID (ex_claim\<lparr>claim_Attempts := 4\<rparr>) = ''t''" "claim_RunID (ex_claim\<lparr>claim_Attempts := 4\<rparr>) = ''r1''"
      "wc_MaxAttempts ex_worker < claim_Attempts (ex_claim\<lparr>claim_Attempts := 4\<rparr>)"
    by (simp_all add: ex_claim_fields ex_worker_def)
  from spent_claim_settles [of "ex_world st" Background ex_deps "ex_claim\<lparr>claim_Attempts := 4\<rparr>" "(ex_run ''r1'' ''k1'')\<lparr>run_Status := RunPending\<rparr>"
      ex_thread ex_worker "''A''" Foreign "[]" False None, OF H(1) bg H(2)]
  show ?thesis using H(3-7) c unfolding st_def [symmetric] by auto
qed

theorem executed_claim_settled_witness:
  "\<exists>w' obs c'. executeClaim ex_worker (claim_ref ''A'' ex_claim) [EngineStep (\<lambda>w. w), Tick] False None
      (ex_world (put_claim ''r1'' ex_claim ex_claimed)) = (w', obs)
    \<and> lookup (st_runClaims (w_store w')) ''r1'' = Some c' \<and> claim_Status c' = ClaimRunnable \<and> claim_Attempts c' = 1"
proof -
  let ?ref = "claim_ref ''A'' ex_claim" and ?st = "put_claim ''r1'' ex_claim ex_claimed"
  have ref: "ref_TenantID ?ref = ''t''" "ref_RunID ?ref = ''r1''" "ref_Owner ?ref = ''A''" "ref_Token ?ref = zero_token"
      "ref_Generation ?ref = 1"
    by (simp_all add: claim_ref_def ex_claim_fields)
  have valid: "RunClaimRef_Validate ?ref = Inr ()"
    by (simp add: validated_ref ref zero_token_def ClaimTokenLength_def claimTokenEntropyBytes_def length_RawURLEncoding)
  have lk: "lookup (st_runClaims ?st) ''r1'' = Some ex_claim" by (simp add: put_claim_def)
  define c1 where "c1 = extendClaim ex_claim 0 (60 * Second)"
  define w1 where "w1 = (ex_world ?st)\<lparr>w_ticks := 1, w_store := put_claim ''r1'' c1 ?st\<rparr>"
  have "fenced ?ref ?st = Inr ex_claim"
    by (simp add: fenced_def ref scoped_def lk ex_claim_fields Matches_def)
  then have beat: "keepLease ex_worker ?ref True False [EngineStep (\<lambda>w. w), Tick] (ex_world ?st) = (w1, False)"
    using valid by (simp add: store_at_eq on_store_def RunClaimRepository_Heartbeat_def ref ex_world_def ex_worker_def
        ex_claim_fields ClaimExpired_def Let_def c1_def w1_def)
  have c1: "claim_TenantID c1 = ''t''" "claim_Attempts c1 = 1" "Matches c1 ''A'' zero_token 1"
    by (simp_all add: c1_def extendClaim_def ex_claim_fields Matches_def)
  have st1: "w_store w1 = put_claim ''r1'' c1 ?st" by (simp add: w1_def)
  have f1: "fenced ?ref (w_store w1) = Inr c1"
    by (simp add: fenced_def ref scoped_def st1 c1 put_claim_def)
  have run: "RunRepository_Get ''t'' ''r1'' (w_store w1) = Inr ((ex_run ''r1'' ''k1'')\<lparr>run_Seq := 1\<rparr>)"
    by (simp add: RunRepository_Get_ok st1 put_claim_def ex_store1_eq) (simp add: ex_run_def)
  have live: "\<not> Terminal (run_Status ((ex_run ''r1'' ''k1'')\<lparr>run_Seq := 1\<rparr>))" by (simp add: ex_run_def Terminal_def)
  obtain w' obs where e: "executeClaim ex_worker ?ref [EngineStep (\<lambda>w. w), Tick] False None (ex_world ?st) = (w', obs)"
    by (cases "executeClaim ex_worker ?ref [EngineStep (\<lambda>w. w), Tick] False None (ex_world ?st)")
  from executed_claim_settled [OF beat valid e] obtain c' where "w_store w' = put_claim ''r1'' c' (w_store w1)"
      "claim_Status c' = ClaimRunnable" "claim_Attempts c' = 1"
    using run live f1 c1(2) by (auto simp: ref)
  then show ?thesis using e by (auto simp: put_claim_def)
qed

end
