(* ===== verification/Go_Strings.thy ===== *)
theory Go_Strings
  imports Ants_Prelude
begin

section \<open>Go's string functions\<close>

text \<open>
  The functions of the packages \<^verbatim>\<open>strings\<close> and \<^verbatim>\<open>strconv\<close> that the source uses, on byte strings:
  prefixes, substrings, splitting and joining, trimming, and decimal numbers.
\<close>

fun has_prefix :: "string \<Rightarrow> string \<Rightarrow> bool" where
  "has_prefix [] s = True"
| "has_prefix (c # cs) [] = False"
| "has_prefix (c # cs) (d # ds) = (c = d \<and> has_prefix cs ds)"

fun contains_str :: "string \<Rightarrow> string \<Rightarrow> bool" where
  "contains_str sub [] = (sub = [])"
| "contains_str sub (c # cs) = (has_prefix sub (c # cs) \<or> contains_str sub cs)"

definition trim_prefix :: "string \<Rightarrow> string \<Rightarrow> string" where
  "trim_prefix p s = (if has_prefix p s then drop (length p) s else s)"

definition trim_suffix :: "string \<Rightarrow> string \<Rightarrow> string" where
  "trim_suffix p s = (if has_prefix (rev p) (rev s) then take (length s - length p) s else s)"

text \<open>\<^verbatim>\<open>strings.Trim\<close> with a one-character cutset.\<close>

definition trim_char :: "char \<Rightarrow> string \<Rightarrow> string" where
  "trim_char c s = rev (dropWhile ((=) c) (rev (dropWhile ((=) c) s)))"

fun split_on :: "char \<Rightarrow> string \<Rightarrow> string list" where
  "split_on sep [] = [[]]"
| "split_on sep (c # cs) =
     (if c = sep then [] # split_on sep cs
      else (case split_on sep cs of [] \<Rightarrow> [[c]] | l # ls \<Rightarrow> (c # l) # ls))"

fun join_with :: "string \<Rightarrow> string list \<Rightarrow> string" where
  "join_with sep [] = []"
| "join_with sep [s] = s"
| "join_with sep (s # t # ss) = s @ sep @ join_with sep (t # ss)"

text \<open>\<^verbatim>\<open>strconv.Itoa\<close> and \<^verbatim>\<open>%d\<close> of a count.\<close>

fun itoa :: "nat \<Rightarrow> string" where
  "itoa n = (if n < 10 then [char_of (48 + n)] else itoa (n div 10) @ [char_of (48 + n mod 10)])"

declare itoa.simps [simp del]

subsection \<open>Laws\<close>

lemma has_prefix_iff: "has_prefix p s \<longleftrightarrow> (\<exists>t. s = p @ t)"
  by (induction p s rule: has_prefix.induct) auto

lemma has_prefix_append [simp]: "has_prefix p (p @ t)"
  by (auto simp: has_prefix_iff)

lemma contains_str_iff: "contains_str sub s \<longleftrightarrow> (\<exists>a b. s = a @ sub @ b)"
proof (induction s)
  case (Cons c s)
  have "(\<exists>a b. c # s = a @ sub @ b) \<longleftrightarrow> has_prefix sub (c # s) \<or> (\<exists>a b. s = a @ sub @ b)"
    by (auto simp: has_prefix_iff) (metis append_eq_Cons_conv append_Nil append_Cons)+
  then show ?case using Cons by simp
qed simp

lemma contains_str_trans: "contains_str a b \<Longrightarrow> contains_str b c \<Longrightarrow> contains_str a c"
  by (auto simp: contains_str_iff) (metis append.assoc)

lemma split_on_nonempty [simp]: "split_on sep s \<noteq> []"
  by (induction s) (auto split: list.splits)

lemma join_split [simp]: "join_with [sep] (split_on sep s) = s"
proof (induction s)
  case (Cons c s)
  show ?case
  proof (cases "split_on sep s")
    case (Cons l ls)
    then show ?thesis using Cons.IH by (cases ls) auto
  qed simp
qed simp

lemma split_on_no_sep: "l \<in> set (split_on sep s) \<Longrightarrow> sep \<notin> set l"
  by (induction s arbitrary: l) (auto split: if_splits list.splits)

lemma itoa_nonempty [simp]: "itoa n \<noteq> []"
  by (subst itoa.simps) simp

end
