(* ===== verification/SCM_Memory.thy ===== *)
theory SCM_Memory
  imports Domain_Errors Go_Strings
begin

section \<open>The in-process source-control driver (internal/scm/memory.go)\<close>

text \<open>
  A repository is a commit graph with named branches. A file is a byte slice that may be nil: the
  code copies slices with \<^verbatim>\<open>append([]byte(nil), v...)\<close>, which turns an empty slice into nil, and
  reads a missing file as nil. \<open>filedata\<close> is therefore an option, and \<open>copyBytes\<close> is that copy. The
  commit hash is an argument: a function of the sequence number, the parents, the message and the
  files in path order. A nil commit dereferenced is a panic.
\<close>

type_synonym filedata = "bytes option"
type_synonym tree = "(string, filedata) gomap"

record Seed =
  seed_DefaultBranch :: string
  seed_Files :: tree

record Handle =
  h_Driver :: string
  h_SandboxID :: string
  h_Root :: string
  h_DefaultBranch :: string

record CommitResult =
  cr_SHA :: string
  cr_Head :: string

record MergeResult =
  mg_SHA :: string
  mg_Conflicts :: "string list"

record memCommit =
  mc_sha :: string
  mc_parents :: "string list"
  mc_seq :: int
  mc_files :: tree

record memoryRepo =
  rp_defaultBranch :: string
  rp_branches :: "(string, string) gomap"
  rp_commits :: "(string, memCommit) gomap"

record Memory =
  mem_repos :: "(string, memoryRepo) gomap"
  mem_seq :: int

type_synonym hash = "int \<Rightarrow> string list \<Rightarrow> string \<Rightarrow> (string \<times> bytes) list \<Rightarrow> string"
type_synonym 'a scm_op = "Memory \<Rightarrow> Memory \<times> 'a result"

definition NewMemory :: Memory where
  "NewMemory = \<lparr>mem_repos = [], mem_seq = 0\<rparr>"

definition repoKey :: "Handle \<Rightarrow> string" where
  "repoKey h = h_Root h @ [CHR 0x00] @ h_SandboxID h"

subsection \<open>Files and trees\<close>

definition copyBytes :: "filedata \<Rightarrow> filedata" where
  "copyBytes v = (case v of Some (x # xs) \<Rightarrow> Some (x # xs) | _ \<Rightarrow> None)"

definition copyFiles :: "tree \<Rightarrow> tree" where
  "copyFiles f = map (\<lambda>(p, v). (p, copyBytes v)) f"

text \<open>\<^verbatim>\<open>files[p]\<close>: nil for a missing path.\<close>

definition content :: "tree \<Rightarrow> string \<Rightarrow> filedata" where
  "content f p = (case lookup f p of None \<Rightarrow> None | Some v \<Rightarrow> v)"

fun bytesEqual :: "filedata \<Rightarrow> filedata \<Rightarrow> bool" where
  "bytesEqual None None = True"
| "bytesEqual (Some a) (Some b) = (a = b)"
| "bytesEqual _ _ = False"

definition safePath :: "string \<Rightarrow> bool" where
  "safePath path =
     (if has_prefix ''/'' path \<or> contains_str ''..'' path \<or> contains_str [CHR 0x5C] path then False
      else trim_prefix ''./'' path \<noteq> [])"

definition sortedKeys :: "string list \<Rightarrow> string list" where
  "sortedKeys ks = sort (remdups ks)"

subsection \<open>Commits\<close>

definition newCommit :: "hash \<Rightarrow> string \<Rightarrow> string list \<Rightarrow> tree \<Rightarrow> Memory \<Rightarrow> Memory \<times> memCommit" where
  "newCommit sha message parents files m =
     (let seq = mem_seq m + 1;
          normalized = map (\<lambda>p. (p, case content files p of None \<Rightarrow> [] | Some b \<Rightarrow> b)) (sort (map fst files))
      in (m\<lparr>mem_seq := seq\<rparr>,
          \<lparr>mc_sha = sha seq parents message normalized, mc_parents = parents, mc_seq = seq, mc_files = copyFiles files\<rparr>))"

definition repo :: "Handle \<Rightarrow> Memory \<Rightarrow> memoryRepo result" where
  "repo h m = (case lookup (mem_repos m) (repoKey h) of None \<Rightarrow> Inl (NotFoundf ''repository'') | Some r \<Rightarrow> Inr r)"

definition put_repo :: "Handle \<Rightarrow> memoryRepo \<Rightarrow> Memory \<Rightarrow> Memory" where
  "put_repo h r m = m\<lparr>mem_repos := insert_map (repoKey h) r (mem_repos m)\<rparr>"

definition record_commit :: "string \<Rightarrow> memCommit \<Rightarrow> memoryRepo \<Rightarrow> memoryRepo" where
  "record_commit branch c r =
     r\<lparr>rp_commits := insert_map (mc_sha c) c (rp_commits r), rp_branches := insert_map branch (mc_sha c) (rp_branches r)\<rparr>"

definition Init :: "hash \<Rightarrow> Handle \<Rightarrow> Seed \<Rightarrow> unit scm_op" where
  "Init sha h seed m =
     (if seed_DefaultBranch seed = [] then (m, Inl (Invalidf ''scm_seed_branch''))
      else if lookup (mem_repos m) (repoKey h) \<noteq> None then (m, Inl (Conflictf ''scm_repo_exists''))
      else (case newCommit sha (''seed '' @ repoKey h) [] (seed_Files seed) m of
        (m, rootCommit) \<Rightarrow>
          (let r = record_commit (seed_DefaultBranch seed) rootCommit
                 \<lparr>rp_defaultBranch = seed_DefaultBranch seed, rp_branches = [], rp_commits = []\<rparr>
           in (put_repo h r m, Inr ()))))"

definition Head :: "Handle \<Rightarrow> string \<Rightarrow> Memory \<Rightarrow> string result" where
  "Head h branch m =
     and_then (repo h m) (\<lambda>r.
      case lookup (rp_branches r) branch of None \<Rightarrow> Inl (NotFoundf ''branch'') | Some sha \<Rightarrow> Inr sha)"

definition CreateBranch :: "Handle \<Rightarrow> string \<Rightarrow> string \<Rightarrow> unit scm_op" where
  "CreateBranch h name fromBranch m =
     (case repo h m of Inl e \<Rightarrow> (m, Inl e) | Inr r \<Rightarrow>
      (case lookup (rp_branches r) fromBranch of
         None \<Rightarrow> (m, Inl (NotFoundf ''branch''))
       | Some from \<Rightarrow>
           if lookup (rp_branches r) name \<noteq> None then (m, Inl (Conflictf ''scm_branch_exists''))
           else (put_repo h (r\<lparr>rp_branches := insert_map name from (rp_branches r)\<rparr>) m, Inr ())))"

fun commit_tree :: "tree \<Rightarrow> tree \<Rightarrow> tree result" where
  "commit_tree tree [] = Inr tree"
| "commit_tree tree ((path, cont) # files) =
     (if \<not> safePath path then Inl (Invalidf ''scm_path'')
      else if cont = None then commit_tree (delete_map path tree) files
      else commit_tree (insert_map path (copyBytes cont) tree) files)"

definition CommitFiles :: "hash \<Rightarrow> Handle \<Rightarrow> string \<Rightarrow> string \<Rightarrow> tree \<Rightarrow> CommitResult scm_op" where
  "CommitFiles sha h branch message files m =
     (case repo h m of Inl e \<Rightarrow> (m, Inl e) | Inr r \<Rightarrow>
      (case lookup (rp_branches r) branch of None \<Rightarrow> (m, Inl (NotFoundf ''branch'')) | Some tip \<Rightarrow>
      (case lookup (rp_commits r) tip of None \<Rightarrow> (m, Inl Panic) | Some tc \<Rightarrow>
      (case commit_tree (copyFiles (mc_files tc)) files of Inl e \<Rightarrow> (m, Inl e) | Inr tree \<Rightarrow>
      (case newCommit sha message [tip] tree m of
        (m, commit) \<Rightarrow> (put_repo h (record_commit branch commit r) m, Inr \<lparr>cr_SHA = mc_sha commit, cr_Head = mc_sha commit\<rparr>))))))"

subsection \<open>The merge base\<close>

text \<open>
  Both loops walk the graph with a stack; a commit that is not in the graph is a nil dereference,
  here \<open>None\<close>. They end because every new visit uses up a commit of the graph.
\<close>

function ancestors_loop :: "(string, memCommit) gomap \<Rightarrow> string list \<Rightarrow> string list \<Rightarrow> string list option" where
  "ancestors_loop commits visited queue =
     (if queue = [] then Some visited
      else if last queue \<in> set visited then ancestors_loop commits visited (butlast queue)
      else (case lookup commits (last queue) of
              None \<Rightarrow> None
            | Some c \<Rightarrow> ancestors_loop commits (last queue # visited) (butlast queue @ mc_parents c)))"
  by pat_completeness auto

lemma unvisited_decreases:
  assumes "lookup commits x = Some c" and "x \<notin> set visited"
  shows "card (fst ` set commits - set (x # visited)) < card (fst ` set commits - set visited)"
proof (rule psubset_card_mono)
  have "x \<in> fst ` set commits" using lookup_in_set [OF assms(1)] by force
  then show "fst ` set commits - set (x # visited) \<subset> fst ` set commits - set visited" using assms(2) by auto
qed simp

termination ancestors_loop
  by (relation "measures [\<lambda>(commits, visited, queue). card (fst ` set commits - set visited), \<lambda>(_, _, queue). length queue]")
    (auto simp del: set_simps simp: unvisited_decreases)

declare ancestors_loop.simps [simp del]

function best_loop ::
  "(string, memCommit) gomap \<Rightarrow> string list \<Rightarrow> string list \<Rightarrow> string list \<Rightarrow> string \<Rightarrow> int \<Rightarrow> string option" where
  "best_loop commits ancestorsOfB visited queue best bestSeq =
     (if queue = [] then Some best
      else if last queue \<in> set visited then best_loop commits ancestorsOfB visited (butlast queue) best bestSeq
      else (case lookup commits (last queue) of
              None \<Rightarrow> None
            | Some c \<Rightarrow>
                if last queue \<in> set ancestorsOfB \<and> mc_seq c > bestSeq
                then best_loop commits ancestorsOfB (last queue # visited) (butlast queue @ mc_parents c) (last queue) (mc_seq c)
                else best_loop commits ancestorsOfB (last queue # visited) (butlast queue @ mc_parents c) best bestSeq))"
  by pat_completeness auto

termination best_loop
  by (relation "measures [\<lambda>(commits, _, visited, _, _, _). card (fst ` set commits - set visited), \<lambda>(_, _, _, queue, _, _). length queue]")
    (auto simp del: set_simps simp: unvisited_decreases)

declare best_loop.simps [simp del]

definition mergeBase :: "memoryRepo \<Rightarrow> string \<Rightarrow> string \<Rightarrow> string option" where
  "mergeBase r a b =
     (case ancestors_loop (rp_commits r) [] [b] of None \<Rightarrow> None
      | Some ancestorsOfB \<Rightarrow> best_loop (rp_commits r) ancestorsOfB [] [a] [] (- 1))"

subsection \<open>Merging\<close>

fun merge_loop :: "tree \<Rightarrow> tree \<Rightarrow> tree \<Rightarrow> tree \<Rightarrow> string list \<Rightarrow> string list \<Rightarrow> tree \<times> string list" where
  "merge_loop baseFiles ours theirs merged conflicts [] = (merged, conflicts)"
| "merge_loop baseFiles ours theirs merged conflicts (p # ps) =
     (let b = content baseFiles p; ob = content ours p; t = content theirs p in
      if bytesEqual t b then merge_loop baseFiles ours theirs merged conflicts ps
      else if bytesEqual ob b then
        merge_loop baseFiles ours theirs
          (if t = None then delete_map p merged else insert_map p (copyBytes t) merged) conflicts ps
      else if bytesEqual ob t then merge_loop baseFiles ours theirs merged conflicts ps
      else merge_loop baseFiles ours theirs merged (conflicts @ [p]) ps)"

definition Merge :: "hash \<Rightarrow> Handle \<Rightarrow> string \<Rightarrow> string \<Rightarrow> string \<Rightarrow> MergeResult scm_op" where
  "Merge sha h targetBranch sourceBranch message m =
     (case repo h m of Inl e \<Rightarrow> (m, Inl e) | Inr r \<Rightarrow>
      (case lookup (rp_branches r) targetBranch of None \<Rightarrow> (m, Inl (NotFoundf ''branch'')) | Some oursTip \<Rightarrow>
      (case lookup (rp_branches r) sourceBranch of None \<Rightarrow> (m, Inl (NotFoundf ''branch'')) | Some theirsTip \<Rightarrow>
       if oursTip = theirsTip then (m, Inr \<lparr>mg_SHA = oursTip, mg_Conflicts = []\<rparr>)
       else
      (case mergeBase r oursTip theirsTip of None \<Rightarrow> (m, Inl Panic) | Some baseSHA \<Rightarrow>
      (case (if baseSHA \<noteq> [] then map_option mc_files (lookup (rp_commits r) baseSHA) else Some []) of
         None \<Rightarrow> (m, Inl Panic) | Some baseFiles \<Rightarrow>
      (case (lookup (rp_commits r) oursTip, lookup (rp_commits r) theirsTip) of
         (Some oc, Some tc) \<Rightarrow>
           (case merge_loop baseFiles (mc_files oc) (mc_files tc) (copyFiles (mc_files oc)) []
                   (sortedKeys (map fst (mc_files tc) @ map fst baseFiles)) of
              (merged, conflicts) \<Rightarrow>
                if conflicts \<noteq> [] then (m, Inr \<lparr>mg_SHA = [], mg_Conflicts = sort conflicts\<rparr>)
                else (case newCommit sha message [oursTip, theirsTip] merged m of
                  (m, commit) \<Rightarrow> (put_repo h (record_commit targetBranch commit r) m,
                    Inr \<lparr>mg_SHA = mc_sha commit, mg_Conflicts = []\<rparr>)))
       | _ \<Rightarrow> (m, Inl Panic)))))))"

subsection \<open>Diffs (diff.go)\<close>

definition text_of :: "filedata \<Rightarrow> string" where
  "text_of v = (case v of None \<Rightarrow> [] | Some b \<Rightarrow> b)"

definition newline :: char where "newline = CHR 0x0A"

definition splitLines :: "string \<Rightarrow> string list" where
  "splitLines s = (let s = trim_suffix [newline] s in if s = [] then [] else split_on newline s)"

definition countLines :: "filedata \<Rightarrow> nat" where
  "countLines b = length (splitLines (text_of b))"

definition line_at :: "string list \<Rightarrow> nat \<Rightarrow> string" where
  "line_at ls i = (if i < length ls then ls ! i else [])"

definition hunk_line :: "string \<Rightarrow> string \<Rightarrow> string" where
  "hunk_line b h =
     (if b = h then ''  '' @ b @ [newline]
      else if b = [] then ''+'' @ h @ [newline]
      else if h = [] then ''-'' @ b @ [newline]
      else ''-'' @ b @ [newline] @ ''+'' @ h @ [newline])"

definition writeHunks :: "filedata \<Rightarrow> filedata \<Rightarrow> string" where
  "writeHunks base head =
     (let baseLines = splitLines (text_of base); headLines = splitLines (text_of head);
          max = (if length headLines > length baseLines then length headLines else length baseLines)
      in concat (map (\<lambda>i. hunk_line (line_at baseLines i) (line_at headLines i)) [0..<max]))"

definition file_entry :: "tree \<Rightarrow> tree \<Rightarrow> string \<Rightarrow> string" where
  "file_entry base head p =
     (case (lookup base p, lookup head p) of
        (None, h) \<Rightarrow> (let h = (case h of None \<Rightarrow> None | Some v \<Rightarrow> v) in
          ''added file '' @ p @ '' ('' @ itoa (countLines h) @ '' lines)'' @ [newline] @ writeHunks None h)
      | (Some b, None) \<Rightarrow> ''removed file '' @ p @ [newline]
      | (Some b, Some h) \<Rightarrow>
          if text_of b \<noteq> text_of h then ''modified file '' @ p @ [newline] @ writeHunks b h
          else ''unchanged file '' @ p @ [newline])"

definition renderUnifiedDiff :: "tree \<Rightarrow> tree \<Rightarrow> bytes" where
  "renderUnifiedDiff base head =
     ''diff --summary base..head'' @ [newline]
     @ concat (map (file_entry base head) (sortedKeys (map fst base @ map fst head)))"

definition Diff :: "Handle \<Rightarrow> string \<Rightarrow> string \<Rightarrow> Memory \<Rightarrow> bytes result" where
  "Diff h baseSHA headSHA m =
     and_then (repo h m) (\<lambda>r.
      case lookup (rp_commits r) baseSHA of None \<Rightarrow> Inl (NotFoundf ''commit'') | Some baseCommit \<Rightarrow>
      (case lookup (rp_commits r) headSHA of None \<Rightarrow> Inl (NotFoundf ''commit'') | Some headCommit \<Rightarrow>
        Inr (renderUnifiedDiff (mc_files baseCommit) (mc_files headCommit))))"

definition Files :: "Handle \<Rightarrow> string \<Rightarrow> Memory \<Rightarrow> tree result" where
  "Files h branch m =
     and_then (repo h m) (\<lambda>r.
      case lookup (rp_branches r) branch of None \<Rightarrow> Inl (NotFoundf ''branch'')
      | Some tip \<Rightarrow> (case lookup (rp_commits r) tip of None \<Rightarrow> Inl Panic | Some c \<Rightarrow> Inr (copyFiles (mc_files c))))"

end
