(* ===== verification/SCM_Laws.thy ===== *)
theory SCM_Laws
  imports SCM_Memory
begin

section \<open>Laws of the in-process source-control driver\<close>

text \<open>
  The commit graph is read as a relation from a commit to its parents. This theory shows that the
  two walks of \<open>mergeBase\<close> visit exactly the ancestors, that every repository the driver builds is
  a closed graph with one root and distinct sequence numbers, that the merge base is therefore
  always found and is the latest common ancestor, and that \<open>Merge\<close> is a three-way merge at file
  level which never moves a branch on a conflict.
\<close>

subsection \<open>The commit graph\<close>

definition parent_rel :: "(string, memCommit) gomap \<Rightarrow> (string \<times> string) set" where
  "parent_rel commits = {(x, p). \<exists>c. lookup commits x = Some c \<and> p \<in> set (mc_parents c)}"

definition ancestors :: "(string, memCommit) gomap \<Rightarrow> string \<Rightarrow> string set" where
  "ancestors commits x = (parent_rel commits)\<^sup>* `` {x}"

definition closed_graph :: "(string, memCommit) gomap \<Rightarrow> bool" where
  "closed_graph commits \<longleftrightarrow> (\<forall>x c p. lookup commits x = Some c \<longrightarrow> p \<in> set (mc_parents c) \<longrightarrow> p \<in> dom (lookup commits))"

definition seq_of :: "(string, memCommit) gomap \<Rightarrow> string \<Rightarrow> int" where
  "seq_of commits x = (case lookup commits x of None \<Rightarrow> 0 | Some c \<Rightarrow> mc_seq c)"

lemma ancestors_refl [simp]: "x \<in> ancestors commits x"
  by (simp add: ancestors_def)

lemma ancestors_known:
  assumes "closed_graph commits" and "x \<in> dom (lookup commits)" and "y \<in> ancestors commits x"
  shows "y \<in> dom (lookup commits)"
proof -
  from assms(3) have "(x, y) \<in> (parent_rel commits)\<^sup>*" by (simp add: ancestors_def)
  then show ?thesis
    by (induction) (use assms(1,2) in \<open>auto simp: parent_rel_def closed_graph_def\<close>)
qed

lemma ancestors_trans: "y \<in> ancestors commits x \<Longrightarrow> z \<in> ancestors commits y \<Longrightarrow> z \<in> ancestors commits x"
  by (auto simp: ancestors_def)

text \<open>What one complete walk has visited: all it started from, closed under parents, nothing else.\<close>

lemma ancestors_loop_visits:
  assumes "closed_graph commits" and "set queue \<subseteq> dom (lookup commits)"
    and "parent_rel commits `` set visited \<subseteq> set visited \<union> set queue"
  shows "\<exists>v. ancestors_loop commits visited queue = Some v \<and> set visited \<union> set queue \<subseteq> set v
           \<and> parent_rel commits `` set v \<subseteq> set v
           \<and> set v \<subseteq> set visited \<union> (parent_rel commits)\<^sup>* `` set queue"
  using assms
proof (induction commits visited queue rule: ancestors_loop.induct)
  case (1 commits visited queue)
  show ?case
  proof (cases "queue = []")
    case True
    then show ?thesis using "1.prems" by (simp add: ancestors_loop.simps)
  next
    case False
    define q where "q = butlast queue"
    define x where "x = last queue"
    have queue: "queue = q @ [x]" using False by (simp add: q_def x_def)
    show ?thesis
    proof (cases "x \<in> set visited")
      case True
      have "\<exists>v. ancestors_loop commits visited q = Some v \<and> set visited \<union> set q \<subseteq> set v
           \<and> parent_rel commits `` set v \<subseteq> set v \<and> set v \<subseteq> set visited \<union> (parent_rel commits)\<^sup>* `` set q"
        using "1.IH"(1) "1.prems" False True by (auto simp: queue)
      then show ?thesis using True by (subst ancestors_loop.simps) (fastforce simp: queue)
    next
      case fresh: False
      obtain c where c: "lookup commits x = Some c" using "1.prems"(2) by (auto simp: queue)
      have parents: "parent_rel commits `` {x} = set (mc_parents c)" using c by (auto simp: parent_rel_def)
      have step: "ancestors_loop commits visited queue = ancestors_loop commits (x # visited) (q @ mc_parents c)"
        using fresh c by (subst ancestors_loop.simps) (simp add: queue)
      have "set (q @ mc_parents c) \<subseteq> dom (lookup commits)"
        using "1.prems"(1,2) c by (auto simp: queue closed_graph_def)
      moreover have "parent_rel commits `` set (x # visited) \<subseteq> set (x # visited) \<union> set (q @ mc_parents c)"
        using "1.prems"(3) parents by (auto simp: queue)
      ultimately obtain v where v: "ancestors_loop commits (x # visited) (q @ mc_parents c) = Some v"
        "set (x # visited) \<union> set (q @ mc_parents c) \<subseteq> set v" "parent_rel commits `` set v \<subseteq> set v"
        "set v \<subseteq> set (x # visited) \<union> (parent_rel commits)\<^sup>* `` set (q @ mc_parents c)"
        using "1.IH"(2) [OF False] "1.prems"(1) fresh c by (auto simp: queue)
      have "(parent_rel commits)\<^sup>* `` set (mc_parents c) \<subseteq> (parent_rel commits)\<^sup>* `` {x}"
        unfolding parents [symmetric] by (auto intro: converse_rtrancl_into_rtrancl)
      then have "set v \<subseteq> set visited \<union> (parent_rel commits)\<^sup>* `` set queue"
        using v(4) unfolding queue set_append Image_Un by force
      then show ?thesis using v step by (simp add: queue)
    qed
  qed
qed

lemma ancestors_loop_complete:
  assumes "closed_graph commits" and "b \<in> dom (lookup commits)"
  obtains v where "ancestors_loop commits [] [b] = Some v" and "set v = ancestors commits b"
proof -
  obtain v where v: "ancestors_loop commits [] [b] = Some v" "b \<in> set v"
    "parent_rel commits `` set v \<subseteq> set v" "set v \<subseteq> ancestors commits b"
    using ancestors_loop_visits [of commits "[b]" "[]"] assms by (auto simp: ancestors_def)
  have "(parent_rel commits)\<^sup>* `` {b} \<subseteq> (parent_rel commits)\<^sup>* `` set v" using v(2) by auto
  also have "\<dots> = set v" using v(3) by (rule Image_closed_trancl)
  finally show ?thesis using that v by (auto simp: ancestors_def)
qed

text \<open>The second walk is the first one with a running maximum over the shared commits it has visited.\<close>

definition best_of :: "(string, memCommit) gomap \<Rightarrow> string set \<Rightarrow> string \<Rightarrow> int \<Rightarrow> bool" where
  "best_of commits shared best bestSeq \<longleftrightarrow>
     (if shared = {} then best = [] \<and> bestSeq = - 1
      else best \<in> shared \<and> bestSeq = seq_of commits best \<and> (\<forall>y\<in>shared. seq_of commits y \<le> bestSeq))"

lemma best_of_insert:
  assumes "best_of commits S best s" and "0 \<le> seq_of commits x"
  shows "best_of commits (insert x S) (if s < seq_of commits x then x else best) (max s (seq_of commits x))"
proof (cases "S = {}")
  case True
  then show ?thesis using assms by (auto simp: best_of_def)
next
  case False
  then have best: "best \<in> S" "s = seq_of commits best" and top: "seq_of commits y \<le> s" if "y \<in> S" for y
    using assms(1) that by (auto simp: best_of_def)
  then show ?thesis using False by (auto simp: best_of_def max_def dest: top)
qed

lemma best_loop_follows:
  assumes "ancestors_loop commits visited queue = Some v"
    and "best_of commits (set visited \<inter> set ofB) best bestSeq"
    and "\<forall>x c. lookup commits x = Some c \<longrightarrow> 0 \<le> mc_seq c"
  shows "\<exists>best' bestSeq'. best_loop commits ofB visited queue best bestSeq = Some best'
           \<and> best_of commits (set v \<inter> set ofB) best' bestSeq'"
  using assms
proof (induction commits visited queue arbitrary: best bestSeq rule: ancestors_loop.induct)
  case (1 commits visited queue)
  show ?case
  proof (cases "queue = []")
    case True
    then show ?thesis using "1.prems"(1,2) by (auto simp: ancestors_loop.simps best_loop.simps)
  next
    case nonempty: False
    show ?thesis
    proof (cases "last queue \<in> set visited")
      case True
      have "ancestors_loop commits visited (butlast queue) = Some v"
        using "1.prems"(1) nonempty True by (subst (asm) ancestors_loop.simps) simp
      from "1.IH"(1) [OF nonempty True this "1.prems"(2,3)] show ?thesis
        using nonempty True by (subst best_loop.simps) simp
    next
      case fresh: False
      obtain c where c: "lookup commits (last queue) = Some c"
        and run: "ancestors_loop commits (last queue # visited) (butlast queue @ mc_parents c) = Some v"
        using "1.prems"(1) nonempty fresh by (subst (asm) ancestors_loop.simps) (auto split: option.splits)
      note IH = "1.IH"(2) [OF nonempty fresh c run _ "1.prems"(3)]
      let ?take = "last queue \<in> set ofB \<and> mc_seq c > bestSeq"
      have seq: "seq_of commits (last queue) = mc_seq c" "0 \<le> mc_seq c" using c "1.prems"(3) by (auto simp: seq_of_def)
      have "best_of commits (set (last queue # visited) \<inter> set ofB)
              (if ?take then last queue else best) (if ?take then mc_seq c else bestSeq)"
        using best_of_insert [OF "1.prems"(2), of "last queue"] "1.prems"(2) seq by (auto simp: Int_insert_left max_def)
      from IH [OF this] show ?thesis
        using nonempty fresh c by (subst best_loop.simps) auto
    qed
  qed
qed

lemma mergeBase_best:
  assumes "closed_graph (rp_commits r)" and "a \<in> dom (lookup (rp_commits r))" and "b \<in> dom (lookup (rp_commits r))"
    and "\<forall>x c. lookup (rp_commits r) x = Some c \<longrightarrow> 0 \<le> mc_seq c"
  shows "\<exists>best s. mergeBase r a b = Some best
     \<and> best_of (rp_commits r) (ancestors (rp_commits r) a \<inter> ancestors (rp_commits r) b) best s"
proof -
  let ?g = "rp_commits r"
  obtain vb where vb: "ancestors_loop ?g [] [b] = Some vb" "set vb = ancestors ?g b"
    using ancestors_loop_complete [OF assms(1,3)] by blast
  obtain va where va: "ancestors_loop ?g [] [a] = Some va" "set va = ancestors ?g a"
    using ancestors_loop_complete [OF assms(1,2)] by blast
  have "best_of ?g (set [] \<inter> set vb) [] (- 1)" by (simp add: best_of_def)
  from best_loop_follows [OF va(1) this assms(4)] show ?thesis
    by (auto simp: mergeBase_def vb va)
qed

subsection \<open>Trees\<close>

definition tree_ok :: "tree \<Rightarrow> bool" where
  "tree_ok f \<longleftrightarrow> map_ok f \<and> (\<forall>p. content f p \<noteq> Some [])"

lemma bytesEqual_iff [simp]: "bytesEqual a b \<longleftrightarrow> a = b"
  by (cases a; cases b) auto

lemma copyBytes_stored [simp]: "v \<noteq> Some [] \<Longrightarrow> copyBytes v = v"
  by (auto simp: copyBytes_def split: option.splits list.splits)

lemma copyBytes_not_empty [simp]: "copyBytes v \<noteq> Some []"
  by (auto simp: copyBytes_def split: option.splits list.splits)

lemma content_copyFiles [simp]: "content (copyFiles f) p = copyBytes (content f p)"
  by (induction f) (auto simp: copyFiles_def content_def copyBytes_def)

lemma content_insert [simp]: "content (insert_map q v f) p = (if p = q then v else content f p)"
  by (simp add: content_def)

lemma content_delete [simp]: "content (delete_map q f) p = (if p = q then None else content f p)"
  by (simp add: content_def)

lemma content_missing: "p \<notin> set (map fst f) \<Longrightarrow> content f p = None"
  by (simp add: content_def map_of_eq_None_iff [THEN iffD2] image_image)

lemma copyFiles_keys [simp]: "map fst (copyFiles f) = map fst f"
  by (simp add: copyFiles_def case_prod_beta o_def)

lemma tree_ok_copyFiles: "map_ok f \<Longrightarrow> tree_ok (copyFiles f)"
  by (auto simp: tree_ok_def map_ok_def)

lemma commit_tree_map_ok: "commit_tree f fs = Inr f' \<Longrightarrow> map_ok f \<Longrightarrow> map_ok f'"
  by (induction f fs rule: commit_tree.induct) (auto split: if_splits)

lemma commit_tree_content:
  assumes "commit_tree f fs = Inr f'" and "map_ok fs"
  shows "content f' p = (case lookup fs p of None \<Rightarrow> content f p | Some v \<Rightarrow> copyBytes v)"
  using assms
proof (induction f fs rule: commit_tree.induct)
  case (2 f q c fs)
  have "lookup fs p = None" if "p = q"
    using "2.prems"(2) that by (auto simp: map_ok_def map_of_eq_None_iff)
  then show ?case using "2.IH" "2.prems" by (auto simp: map_ok_def split: if_splits option.splits)
qed simp

subsection \<open>The three-way loop\<close>

definition conflicting :: "tree \<Rightarrow> tree \<Rightarrow> tree \<Rightarrow> string \<Rightarrow> bool" where
  "conflicting base ours theirs p \<longleftrightarrow>
     content theirs p \<noteq> content base p \<and> content ours p \<noteq> content base p \<and> content ours p \<noteq> content theirs p"

definition three_way :: "tree \<Rightarrow> tree \<Rightarrow> tree \<Rightarrow> string \<Rightarrow> filedata" where
  "three_way base ours theirs p = (if content theirs p = content base p then content ours p else content theirs p)"

lemma merge_loop_conflicts:
  "snd (merge_loop base ours theirs merged conflicts ps) = conflicts @ filter (conflicting base ours theirs) ps"
  by (induction ps arbitrary: merged conflicts) (auto simp: Let_def conflicting_def)

lemma merge_loop_map_ok:
  "map_ok merged \<Longrightarrow> map_ok (fst (merge_loop base ours theirs merged conflicts ps))"
  by (induction ps arbitrary: merged conflicts) (auto simp: Let_def)

lemma merge_loop_untouched:
  "p \<notin> set ps \<Longrightarrow> content (fst (merge_loop base ours theirs merged conflicts ps)) p = content merged p"
  by (induction ps arbitrary: merged conflicts) (auto simp: Let_def)

lemma merge_loop_content:
  assumes "tree_ok theirs" and "distinct ps" and "content merged p = content ours p" and "p \<in> set ps"
    and "\<not> conflicting base ours theirs p"
  shows "content (fst (merge_loop base ours theirs merged conflicts ps)) p = three_way base ours theirs p"
  using assms(2-)
proof (induction ps arbitrary: merged conflicts)
  case (Cons q ps)
  show ?case
  proof (cases "p = q")
    case True
    then have "p \<notin> set ps" using Cons.prems(1) by simp
    then show ?thesis using True Cons.prems(2,4) assms(1)
      by (auto simp: Let_def merge_loop_untouched three_way_def conflicting_def tree_ok_def)
  next
    case False
    then show ?thesis using Cons by (auto simp: Let_def)
  qed
qed simp

subsection \<open>The repositories the driver builds\<close>

text \<open>
  The digest stands for the first forty hexadecimal digits of a SHA-256. What the driver relies on
  is that two commits with different sequence numbers do not share a digest and that a digest is not
  the empty string, which \<open>mergeBase\<close> returns for no ancestor.
\<close>

definition collision_free :: "hash \<Rightarrow> bool" where
  "collision_free sha \<longleftrightarrow> (\<forall>s p msg f s' p' msg' f'. 1 \<le> s \<longrightarrow> 1 \<le> s' \<longrightarrow>
     sha s p msg f \<noteq> [] \<and> (sha s p msg f = sha s' p' msg' f' \<longrightarrow> s = s'))"

definition commit_ok :: "hash \<Rightarrow> int \<Rightarrow> string \<Rightarrow> memCommit \<Rightarrow> bool" where
  "commit_ok sha n x c \<longleftrightarrow> mc_sha c = x \<and> 1 \<le> mc_seq c \<and> mc_seq c \<le> n \<and> tree_ok (mc_files c)
     \<and> (\<exists>p msg f. x = sha (mc_seq c) p msg f)"

definition repo_ok :: "hash \<Rightarrow> int \<Rightarrow> memoryRepo \<Rightarrow> bool" where
  "repo_ok sha n r \<longleftrightarrow> closed_graph (rp_commits r)
     \<and> (\<forall>x c. lookup (rp_commits r) x = Some c \<longrightarrow> commit_ok sha n x c)
     \<and> (\<forall>x y c d. lookup (rp_commits r) x = Some c \<longrightarrow> lookup (rp_commits r) y = Some d \<longrightarrow> mc_seq c = mc_seq d \<longrightarrow> x = y)
     \<and> (\<forall>br x. lookup (rp_branches r) br = Some x \<longrightarrow> x \<in> dom (lookup (rp_commits r)))
     \<and> rp_defaultBranch r \<in> dom (lookup (rp_branches r))
     \<and> (\<exists>root. \<forall>x \<in> dom (lookup (rp_commits r)). root \<in> ancestors (rp_commits r) x)"

definition scm_ok :: "hash \<Rightarrow> Memory \<Rightarrow> bool" where
  "scm_ok sha m \<longleftrightarrow> 0 \<le> mem_seq m \<and> (\<forall>k r. lookup (mem_repos m) k = Some r \<longrightarrow> repo_ok sha (mem_seq m) r)"

lemma collision_freeD:
  "collision_free sha \<Longrightarrow> sha s p msg f = sha s' p' msg' f' \<Longrightarrow> 1 \<le> s \<Longrightarrow> 1 \<le> s' \<Longrightarrow> s = s'"
  unfolding collision_free_def by blast

lemma collision_free_nonempty: "collision_free sha \<Longrightarrow> 1 \<le> s \<Longrightarrow> sha s p msg f \<noteq> []"
  unfolding collision_free_def by blast

lemma repo_okD:
  assumes "repo_ok sha n r"
  shows "closed_graph (rp_commits r)"
    and "lookup (rp_commits r) x = Some c \<Longrightarrow> commit_ok sha n x c"
    and "lookup (rp_commits r) x = Some c \<Longrightarrow> lookup (rp_commits r) y = Some d \<Longrightarrow> mc_seq c = mc_seq d \<Longrightarrow> x = y"
    and "lookup (rp_branches r) br = Some z \<Longrightarrow> z \<in> dom (lookup (rp_commits r))"
    and "\<exists>root. \<forall>x \<in> dom (lookup (rp_commits r)). root \<in> ancestors (rp_commits r) x"
  using assms unfolding repo_ok_def by blast+

lemma repo_okI:
  assumes "closed_graph (rp_commits r)"
    and "\<And>x c. lookup (rp_commits r) x = Some c \<Longrightarrow> commit_ok sha n x c"
    and "\<And>x y c d. lookup (rp_commits r) x = Some c \<Longrightarrow> lookup (rp_commits r) y = Some d \<Longrightarrow> mc_seq c = mc_seq d \<Longrightarrow> x = y"
    and "\<And>br x. lookup (rp_branches r) br = Some x \<Longrightarrow> x \<in> dom (lookup (rp_commits r))"
    and "rp_defaultBranch r \<in> dom (lookup (rp_branches r))"
    and "\<forall>x \<in> dom (lookup (rp_commits r)). root \<in> ancestors (rp_commits r) x"
  shows "repo_ok sha n r"
  using assms unfolding repo_ok_def by blast

lemma repo_ok_mono: "repo_ok sha n r \<Longrightarrow> n \<le> n' \<Longrightarrow> repo_ok sha n' r"
  by (fastforce simp: repo_ok_def commit_ok_def)

lemma ancestors_mono:
  assumes "lookup g k = None"
  shows "ancestors g x \<subseteq> ancestors (insert_map k c g) x"
proof -
  have "parent_rel g \<subseteq> parent_rel (insert_map k c g)" using assms by (auto simp: parent_rel_def)
  then show ?thesis by (auto simp: ancestors_def dest: rtrancl_mono)
qed

lemma ancestors_parent:
  assumes "lookup g x = Some c" and "p \<in> set (mc_parents c)"
  shows "ancestors g p \<subseteq> ancestors g x"
proof -
  have "(x, p) \<in> parent_rel g" using assms by (auto simp: parent_rel_def)
  then show ?thesis by (auto simp: ancestors_def intro: converse_rtrancl_into_rtrancl)
qed

text \<open>A new commit on top of known parents keeps the repository well formed.\<close>

lemma fresh_commit_key:
  assumes "repo_ok sha n r" and "collision_free sha" and "0 \<le> n"
  shows "lookup (rp_commits r) (sha (n + 1) ps msg f) = None"
proof (rule ccontr)
  assume "lookup (rp_commits r) (sha (n + 1) ps msg f) \<noteq> None"
  then obtain c where "commit_ok sha n (sha (n + 1) ps msg f) c"
    using repo_okD(2) [OF assms(1)] by blast
  then obtain p' msg' f' where "1 \<le> mc_seq c" "mc_seq c \<le> n" "sha (n + 1) ps msg f = sha (mc_seq c) p' msg' f'"
    by (auto simp: commit_ok_def)
  moreover from collision_freeD [OF assms(2) this(3)] this(1) assms(3) have "n + 1 = mc_seq c" by simp
  ultimately show False by simp
qed

lemma repo_ok_record_commit:
  assumes ok: "repo_ok sha n r" and cf: "collision_free sha" and n: "0 \<le> n"
    and sha: "mc_sha c = sha (n + 1) ps msg f" and seq: "mc_seq c = n + 1" and tree: "tree_ok (mc_files c)"
    and parents: "set (mc_parents c) \<subseteq> dom (lookup (rp_commits r))" "mc_parents c \<noteq> []"
  shows "repo_ok sha (n + 1) (record_commit branch c r)"
proof -
  let ?g = "rp_commits r" and ?k = "mc_sha c"
  let ?g' = "insert_map ?k c ?g"
  have fresh: "lookup ?g ?k = None" using fresh_commit_key [OF ok cf n] sha by simp
  obtain root where root: "root \<in> ancestors ?g x" if "x \<in> dom (lookup ?g)" for x
    using repo_okD(5) [OF ok] by blast
  have "root \<in> ancestors ?g' ?k"
  proof -
    obtain p where p: "p \<in> set (mc_parents c)" using parents(2) by (cases "mc_parents c") auto
    then have "root \<in> ancestors ?g p" using root parents(1) by blast
    then show ?thesis using ancestors_mono [OF fresh, of p c] ancestors_parent [of ?g' ?k c p] p by auto
  qed
  then have rooted: "\<forall>x \<in> dom (lookup ?g'). root \<in> ancestors ?g' x"
    using root subsetD [OF ancestors_mono [OF fresh]] by (auto split: if_splits) blast
  have older: "mc_seq d \<le> n" if "lookup ?g x = Some d" for x d
    using ok that by (auto simp: repo_ok_def commit_ok_def)
  let ?r' = "record_commit branch c r"
  have fields: "rp_commits ?r' = ?g'" "rp_branches ?r' = insert_map branch ?k (rp_branches r)"
    "rp_defaultBranch ?r' = rp_defaultBranch r" by (simp_all add: record_commit_def)
  show ?thesis
  proof (rule repo_okI [where root = root], unfold fields)
    show "closed_graph ?g'"
      using repo_okD(1) [OF ok] parents(1) unfolding closed_graph_def by (auto split: if_splits) blast
    show "commit_ok sha (n + 1) x d" if "lookup ?g' x = Some d" for x d
      using that repo_okD(2) [OF ok, of x d] n sha seq tree by (auto simp: commit_ok_def split: if_splits)
    show "x = y" if "lookup ?g' x = Some d" "lookup ?g' y = Some e" "mc_seq d = mc_seq e" for x y d e
      using that repo_okD(3) [OF ok, of x d y e] seq older [of x d] older [of y e] by (auto split: if_splits)
    show "x \<in> dom (lookup ?g')" if "lookup (insert_map branch ?k (rp_branches r)) br = Some x" for br x
      using that repo_okD(4) [OF ok, of br x] by (auto split: if_splits)
    show "rp_defaultBranch r \<in> dom (lookup (insert_map branch ?k (rp_branches r)))"
      using ok by (auto simp: repo_ok_def)
  qed (rule rooted)
qed

lemma scm_ok_put_repo:
  assumes "scm_ok sha m" and "repo_ok sha n r" and "mem_seq m \<le> n"
  shows "scm_ok sha (put_repo h r (m\<lparr>mem_seq := n\<rparr>))"
  using assms repo_ok_mono [of sha "mem_seq m" _ n]
  by (auto simp: scm_ok_def put_repo_def split: if_splits)

lemma newCommit_fields:
  "newCommit sha msg ps f m = (m', c) \<Longrightarrow> m' = m\<lparr>mem_seq := mem_seq m + 1\<rparr> \<and> mc_seq c = mem_seq m + 1
     \<and> mc_parents c = ps \<and> mc_files c = copyFiles f \<and> (\<exists>fs. mc_sha c = sha (mem_seq m + 1) ps msg fs)"
  by (auto simp: newCommit_def Let_def)

lemma scm_ok_commit:
  assumes "scm_ok sha m" and "collision_free sha" and "lookup (mem_repos m) k = Some r"
    and "newCommit sha msg ps f m = (m', c)" and "map_ok f"
    and "set ps \<subseteq> dom (lookup (rp_commits r))" and "ps \<noteq> []"
  shows "scm_ok sha (put_repo h (record_commit br c r) m')"
proof -
  note c = newCommit_fields [OF assms(4)]
  obtain fs where fs: "mc_sha c = sha (mem_seq m + 1) ps msg fs" using c by blast
  have "repo_ok sha (mem_seq m + 1) (record_commit br c r)"
    by (rule repo_ok_record_commit [OF _ assms(2) _ fs])
      (use assms(1,3,5-) c in \<open>auto simp: scm_ok_def tree_ok_copyFiles\<close>)
  then show ?thesis using scm_ok_put_repo [OF assms(1)] c by simp
qed

lemma repo_found [simp]: "repo h m = Inr r \<longleftrightarrow> lookup (mem_repos m) (repoKey h) = Some r"
  by (auto simp: repo_def split: option.splits)

lemma scm_ok_repo: "scm_ok sha m \<Longrightarrow> repo h m = Inr r \<Longrightarrow> repo_ok sha (mem_seq m) r"
  by (simp add: scm_ok_def)

lemma Init_ok:
  assumes "scm_ok sha m" and "map_ok (seed_Files seed)"
  shows "scm_ok sha (fst (Init sha h seed m))"
proof -
  obtain m' c where nc: "newCommit sha (''seed '' @ repoKey h) [] (seed_Files seed) m = (m', c)" by fastforce
  note c = newCommit_fields [OF nc]
  have 0: "0 \<le> mem_seq m" using assms(1) by (simp add: scm_ok_def)
  let ?r = "record_commit (seed_DefaultBranch seed) c
              \<lparr>rp_defaultBranch = seed_DefaultBranch seed, rp_branches = [], rp_commits = []\<rparr>"
  have "repo_ok sha (mem_seq m + 1) ?r"
    unfolding repo_ok_def record_commit_def
    by (use c 0 tree_ok_copyFiles [OF assms(2)] in \<open>auto simp: closed_graph_def commit_ok_def intro: exI [of _ "mc_sha c"]\<close>)
  from scm_ok_put_repo [OF assms(1) this] show ?thesis using nc c assms(1) by (simp add: Init_def)
qed

lemma CreateBranch_ok:
  assumes "scm_ok sha m"
  shows "scm_ok sha (fst (CreateBranch h name from m))"
proof -
  have "scm_ok sha (put_repo h (r\<lparr>rp_branches := insert_map name x (rp_branches r)\<rparr>) m)"
    if r: "repo h m = Inr r" and x: "lookup (rp_branches r) from = Some x" for r x
  proof -
    note rok = scm_ok_repo [OF assms r]
    have "repo_ok sha (mem_seq m) (r\<lparr>rp_branches := insert_map name x (rp_branches r)\<rparr>)"
      using rok repo_okD(4) [OF rok x] unfolding repo_ok_def by auto
    from scm_ok_put_repo [OF assms this] show ?thesis by simp
  qed
  then show ?thesis using assms by (auto simp: CreateBranch_def split: sum.splits option.splits)
qed

lemma CommitFiles_ok:
  assumes "scm_ok sha m" and "collision_free sha"
  shows "scm_ok sha (fst (CommitFiles sha h branch msg files m))"
proof -
  have "scm_ok sha (put_repo h (record_commit branch c r) m')"
    if r: "repo h m = Inr r" and tip: "lookup (rp_commits r) tip = Some tc"
      and tree: "commit_tree (copyFiles (mc_files tc)) files = Inr tree"
      and nc: "newCommit sha msg [tip] tree m = (m', c)" for r tip tc tree m' c
  proof (rule scm_ok_commit [OF assms _ nc])
    have "commit_ok sha (mem_seq m) tip tc" using repo_okD(2) [OF scm_ok_repo [OF assms(1) r] tip] .
    then show "map_ok tree"
      using commit_tree_map_ok [OF tree] tree_ok_copyFiles by (auto simp: commit_ok_def tree_ok_def)
  qed (use r tip in auto)
  then show ?thesis using assms(1)
    by (auto simp: CommitFiles_def split: sum.splits option.splits prod.splits)
qed

subsection \<open>What a merge does\<close>

lemma merge_base_known:
  assumes "repo_ok sha n r" and "a \<in> dom (lookup (rp_commits r))" and "b \<in> dom (lookup (rp_commits r))"
  obtains x c where "mergeBase r a b = Some x" and "lookup (rp_commits r) x = Some c"
    and "x \<in> ancestors (rp_commits r) a \<inter> ancestors (rp_commits r) b"
    and "\<And>y. y \<in> ancestors (rp_commits r) a \<inter> ancestors (rp_commits r) b \<Longrightarrow> seq_of (rp_commits r) y \<le> mc_seq c"
proof -
  let ?g = "rp_commits r"
  let ?S = "ancestors ?g a \<inter> ancestors ?g b"
  have "0 \<le> mc_seq c" if "lookup ?g x = Some c" for x c
    using repo_okD(2) [OF assms(1) that] by (simp add: commit_ok_def)
  then obtain x s where x: "mergeBase r a b = Some x" "best_of ?g ?S x s"
    using mergeBase_best [OF repo_okD(1) [OF assms(1)] assms(2,3)] by blast
  have "?S \<noteq> {}" using repo_okD(5) [OF assms(1)] assms(2,3) by blast
  then have best: "x \<in> ?S" "\<And>y. y \<in> ?S \<Longrightarrow> seq_of ?g y \<le> seq_of ?g x" using x(2) by (auto simp: best_of_def)
  moreover obtain c where "lookup ?g x = Some c"
    using ancestors_known [OF repo_okD(1) [OF assms(1)] assms(2)] best(1) by blast
  ultimately show ?thesis using that [OF x(1)] by (simp add: seq_of_def)
qed

lemma merge_run:
  assumes ok: "scm_ok sha m" "collision_free sha" and r: "repo h m = Inr r"
    and tips: "lookup (rp_branches r) target = Some ot" "lookup (rp_branches r) source = Some tt" "ot \<noteq> tt"
    and commits: "lookup (rp_commits r) ot = Some oc" "lookup (rp_commits r) tt = Some tc"
    and base: "mergeBase r ot tt = Some x" "lookup (rp_commits r) x = Some bc"
  defines "cs \<equiv> {p. conflicting (mc_files bc) (mc_files oc) (mc_files tc) p}"
  shows "if cs \<noteq> {} then Merge sha h target source msg m = (m, Inr \<lparr>mg_SHA = [], mg_Conflicts = sorted_list_of_set cs\<rparr>)
         else (\<exists>m' c merged. newCommit sha msg [ot, tt] merged m = (m', c) \<and> map_ok merged
                 \<and> merged = fst (merge_loop (mc_files bc) (mc_files oc) (mc_files tc) (copyFiles (mc_files oc)) []
                                   (sortedKeys (map fst (mc_files tc) @ map fst (mc_files bc))))
                 \<and> Merge sha h target source msg m = (put_repo h (record_commit target c r) m', Inr \<lparr>mg_SHA = mc_sha c, mg_Conflicts = []\<rparr>)
                 \<and> (\<forall>p. content (mc_files c) p = three_way (mc_files bc) (mc_files oc) (mc_files tc) p))"
proof -
  let ?b = "mc_files bc" and ?o = "mc_files oc" and ?t = "mc_files tc"
  let ?ps = "sortedKeys (map fst ?t @ map fst ?b)"
  define ml where "ml = merge_loop ?b ?o ?t (copyFiles ?o) [] ?ps"
  note rok = scm_ok_repo [OF ok(1) r]
  note trees = repo_okD(2) [OF rok commits(1)] repo_okD(2) [OF rok commits(2)] repo_okD(2) [OF rok base(2)]
  have stored: "tree_ok ?o" "tree_ok ?t" using trees by (simp_all add: commit_ok_def)
  have xne: "x \<noteq> []" using trees(3) ok(2) by (metis commit_ok_def collision_free_nonempty)
  have dps: "distinct ?ps" "sorted ?ps" by (simp_all add: sortedKeys_def)
  have outside: "content ?t p = content ?b p" if "p \<notin> set ?ps" for p
    using that content_missing [of p ?t] content_missing [of p ?b] by (auto simp: sortedKeys_def)
  then have cs: "cs = set (filter (conflicting ?b ?o ?t) ?ps)" by (auto simp: cs_def conflicting_def)
  have snd_ml: "snd ml = filter (conflicting ?b ?o ?t) ?ps" by (simp add: ml_def merge_loop_conflicts)
  have sorted: "sort (snd ml) = sorted_list_of_set cs"
  proof -
    have "sorted (filter (conflicting ?b ?o ?t) ?ps)" "distinct (filter (conflicting ?b ?o ?t) ?ps)"
      using dps by (simp_all add: sorted_wrt_filter)
    then show ?thesis
      unfolding cs snd_ml by (simp only: sorted_sort_id sorted_list_of_set.idem_if_sorted_distinct)
  qed
  have run: "Merge sha h target source msg m =
      (if snd ml \<noteq> [] then (m, Inr \<lparr>mg_SHA = [], mg_Conflicts = sort (snd ml)\<rparr>)
       else case newCommit sha msg [ot, tt] (fst ml) m of (m, c) \<Rightarrow>
         (put_repo h (record_commit target c r) m, Inr \<lparr>mg_SHA = mc_sha c, mg_Conflicts = []\<rparr>))"
    using r tips commits base xne by (simp add: Merge_def repo_def ml_def case_prod_unfold)
  show ?thesis
  proof (cases "cs = {}")
    case False
    then have "snd ml \<noteq> []" using cs snd_ml by (metis list.set(1))
    then show ?thesis using False run sorted by simp
  next
    case True
    then have none: "\<not> conflicting ?b ?o ?t p" for p by (auto simp: cs_def)
    have ok_merged: "map_ok (fst ml)"
      unfolding ml_def using tree_ok_copyFiles stored(1) by (intro merge_loop_map_ok) (auto simp: tree_ok_def)
    have copied: "content (copyFiles ?o) p = content ?o p" for p using stored(1) by (simp add: tree_ok_def)
    have "content (fst ml) p = three_way ?b ?o ?t p" for p
      using merge_loop_content [OF stored(2) dps(1) copied _ none] merge_loop_untouched [of p ?ps] outside [of p] copied
      unfolding ml_def by (cases "p \<in> set ?ps") (auto simp: three_way_def)
    moreover have "three_way ?b ?o ?t p \<noteq> Some []" for p using stored by (auto simp: three_way_def tree_ok_def)
    moreover obtain m' c where nc: "newCommit sha msg [ot, tt] (fst ml) m = (m', c)" by fastforce
    ultimately have "content (mc_files c) p = three_way ?b ?o ?t p" for p using newCommit_fields [OF nc] by simp
    then show ?thesis using True run ok_merged nc none unfolding ml_def [symmetric] by (auto simp: snd_ml)
  qed
qed

lemma Merge_ok:
  assumes "scm_ok sha m" and "collision_free sha"
  shows "scm_ok sha (fst (Merge sha h target source msg m))"
proof -
  have moved: "scm_ok sha (fst (Merge sha h target source msg m))"
    if r: "repo h m = Inr r" and tips: "lookup (rp_branches r) target = Some ot"
      "lookup (rp_branches r) source = Some tt" "ot \<noteq> tt" for r ot tt
  proof -
    note rok = scm_ok_repo [OF assms(1) r]
    obtain oc tc where c: "lookup (rp_commits r) ot = Some oc" "lookup (rp_commits r) tt = Some tc"
      using repo_okD(4) [OF rok] tips by blast
    then obtain x bc where base: "mergeBase r ot tt = Some x" "lookup (rp_commits r) x = Some bc"
      using merge_base_known [OF rok, of ot tt] by blast
    have "scm_ok sha (put_repo h (record_commit target d r) m')"
      if "newCommit sha msg [ot, tt] merged m = (m', d)" "map_ok merged" for merged m' d
      by (rule scm_ok_commit [OF assms r [unfolded repo_found] that]) (use c in auto)
    with merge_run [OF assms r tips c base, of msg] show ?thesis
      using assms(1) by (auto split: if_splits)
  qed
  show ?thesis
  proof (cases "repo h m")
    case (Inl e)
    then show ?thesis using assms(1) by (simp add: Merge_def)
  next
    case (Inr r)
    show ?thesis
    proof (cases "\<exists>ot tt. lookup (rp_branches r) target = Some ot \<and> lookup (rp_branches r) source = Some tt \<and> ot \<noteq> tt")
      case True
      then show ?thesis using moved [OF Inr] by blast
    next
      case False
      then show ?thesis using assms(1) Inr [unfolded repo_found]
        by (cases "lookup (rp_branches r) target"; cases "lookup (rp_branches r) source")
          (simp_all add: Merge_def repo_def)
    qed
  qed
qed

datatype scm_call =
    Do_Init Handle Seed
  | Do_CreateBranch Handle string string
  | Do_CommitFiles Handle string string tree
  | Do_Merge Handle string string string

fun scm_exec :: "hash \<Rightarrow> scm_call \<Rightarrow> Memory \<Rightarrow> Memory" where
  "scm_exec sha (Do_Init h seed) m = fst (Init sha h (seed\<lparr>seed_Files := AList.clearjunk (seed_Files seed)\<rparr>) m)"
| "scm_exec sha (Do_CreateBranch h name from) m = fst (CreateBranch h name from m)"
| "scm_exec sha (Do_CommitFiles h branch msg files) m = fst (CommitFiles sha h branch msg files m)"
| "scm_exec sha (Do_Merge h target source msg) m = fst (Merge sha h target source msg m)"

text \<open>The repository maps after any sequence of calls on a new driver.\<close>

definition scm_after :: "hash \<Rightarrow> scm_call list \<Rightarrow> Memory" where
  "scm_after sha calls = fold (scm_exec sha) calls NewMemory"

lemma scm_exec_ok: "scm_ok sha m \<Longrightarrow> collision_free sha \<Longrightarrow> scm_ok sha (scm_exec sha call m)"
  by (cases call) (simp_all add: Init_ok CreateBranch_ok CommitFiles_ok Merge_ok map_ok_def distinct_clearjunk)

lemma scm_after_ok:
  assumes "collision_free sha"
  shows "scm_ok sha (scm_after sha calls)"
proof -
  have "scm_ok sha m \<Longrightarrow> scm_ok sha (fold (scm_exec sha) calls m)" for m
    by (induction calls arbitrary: m) (simp_all add: scm_exec_ok assms)
  then show ?thesis by (simp add: scm_after_def scm_ok_def NewMemory_def)
qed

subsection \<open>Properties\<close>

text \<open>A history with two branches that diverge from the seed commit, for the witnesses.\<close>

definition ex_sha :: hash where
  "ex_sha s ps msg f = replicate (nat s) (CHR ''a'')"

definition ex_handle :: Handle where
  "ex_handle = \<lparr>h_Driver = ''memory'', h_SandboxID = ''sbx_1'', h_Root = [], h_DefaultBranch = ''main''\<rparr>"

definition ex_calls :: "scm_call list" where
  "ex_calls =
    [Do_Init ex_handle \<lparr>seed_DefaultBranch = ''main'', seed_Files = [(''a'', Some ''1''), (''b'', Some ''2'')]\<rparr>,
     Do_CreateBranch ex_handle ''feat'' ''main'',
     Do_CommitFiles ex_handle ''feat'' ''work'' [(''b'', Some []), (''c'', Some ''3'')],
     Do_CommitFiles ex_handle ''main'' ''other'' [(''a'', Some ''4'')]]"

definition ex_repo :: memoryRepo where
  "ex_repo = the (lookup (mem_repos (scm_after ex_sha ex_calls)) (repoKey ex_handle))"

lemma ex_sha_collision_free: "collision_free ex_sha"
  by (auto simp: collision_free_def ex_sha_def dest: arg_cong [where f = length])

lemma ex_repo_found: "lookup (mem_repos (scm_after ex_sha ex_calls)) (repoKey ex_handle) = Some ex_repo"
proof -
  have "lookup (mem_repos (scm_after ex_sha ex_calls)) (repoKey ex_handle) \<noteq> None" by code_simp
  then show ?thesis by (auto simp: ex_repo_def)
qed

lemma ex_repo_main: "lookup (rp_branches ex_repo) ''main'' = Some ''aaa''" by code_simp
lemma ex_repo_feat: "lookup (rp_branches ex_repo) ''feat'' = Some ''aa''" by code_simp
lemma ex_repo_base: "mergeBase ex_repo ''aaa'' ''aa'' = Some ''a''" by code_simp

text \<open>
  In every repository the driver builds, the merge base of two branch tips is found: the two
  graph walks end without meeting an unknown commit, and the result is the common ancestor with the
  strictly highest creation sequence. In particular two branches of one repository always share one.
\<close>

theorem merge_base_is_latest_common_ancestor:
  assumes "collision_free sha"
    and "lookup (mem_repos (scm_after sha calls)) (repoKey h) = Some r"
    and "lookup (rp_branches r) left = Some a" and "lookup (rp_branches r) right = Some b"
  shows "\<exists>x \<in> ancestors (rp_commits r) a \<inter> ancestors (rp_commits r) b. mergeBase r a b = Some x
     \<and> (\<forall>y \<in> ancestors (rp_commits r) a \<inter> ancestors (rp_commits r) b.
          y \<noteq> x \<longrightarrow> seq_of (rp_commits r) y < seq_of (rp_commits r) x)"
proof -
  have rok: "repo_ok sha (mem_seq (scm_after sha calls)) r"
    using scm_after_ok [OF assms(1)] assms(2) by (simp add: scm_ok_def)
  note known = repo_okD(4) [OF rok assms(3)] repo_okD(4) [OF rok assms(4)]
  then obtain x c where x: "mergeBase r a b = Some x" "lookup (rp_commits r) x = Some c"
    "x \<in> ancestors (rp_commits r) a \<inter> ancestors (rp_commits r) b"
    and top: "\<And>y. y \<in> ancestors (rp_commits r) a \<inter> ancestors (rp_commits r) b \<Longrightarrow> seq_of (rp_commits r) y \<le> mc_seq c"
    using merge_base_known [OF rok] by blast
  have "seq_of (rp_commits r) y < seq_of (rp_commits r) x"
    if y: "y \<in> ancestors (rp_commits r) a \<inter> ancestors (rp_commits r) b" "y \<noteq> x" for y
  proof -
    obtain d where d: "lookup (rp_commits r) y = Some d"
      using ancestors_known [OF repo_okD(1) [OF rok] known(1)] y(1) by blast
    have "mc_seq d \<noteq> mc_seq c" using repo_okD(3) [OF rok d x(2)] y(2) by blast
    then show ?thesis using top [OF y(1)] d x(2) by (simp add: seq_of_def)
  qed
  then show ?thesis using x by blast
qed

theorem merge_base_is_latest_common_ancestor_witness:
  "\<exists>x \<in> ancestors (rp_commits ex_repo) ''aaa'' \<inter> ancestors (rp_commits ex_repo) ''aa''. x = ''a''"
  using merge_base_is_latest_common_ancestor [OF ex_sha_collision_free ex_repo_found ex_repo_main ex_repo_feat]
    ex_repo_base by auto

text \<open>
  C32: merging two branches with different tips is a three-way merge against the commit that
  \<open>mergeBase\<close> returns. When some path was changed on both sides to different contents, the result
  lists exactly those paths in order and nothing moves. Otherwise the target branch, and no other
  branch of the repository, moves to a new commit with both tips as parents whose content at every
  path is the source's where the source changed it and the target's elsewhere. The hash that names
  commits is taken to have no collisions (\<open>collision_free\<close>); this is an idealisation, since the code keeps
  the first forty digits of a SHA-256.
\<close>

theorem merge_is_three_way:
  assumes "collision_free sha" and "m = scm_after sha calls" and "repo h m = Inr r"
    and "lookup (rp_branches r) target = Some ot" and "lookup (rp_branches r) source = Some tt" and "ot \<noteq> tt"
    and "lookup (rp_commits r) ot = Some oc" and "lookup (rp_commits r) tt = Some tc"
    and "mergeBase r ot tt = Some x" and "lookup (rp_commits r) x = Some bc"
  shows "let cs = {p. content (mc_files tc) p \<noteq> content (mc_files bc) p \<and> content (mc_files oc) p \<noteq> content (mc_files bc) p
                      \<and> content (mc_files oc) p \<noteq> content (mc_files tc) p} in
    if cs \<noteq> {} then Merge sha h target source msg m = (m, Inr \<lparr>mg_SHA = [], mg_Conflicts = sorted_list_of_set cs\<rparr>)
    else (\<exists>m' r' c. Merge sha h target source msg m = (m', Inr \<lparr>mg_SHA = mc_sha c, mg_Conflicts = []\<rparr>)
            \<and> repo h m' = Inr r' \<and> lookup (rp_commits r') (mc_sha c) = Some c \<and> mc_parents c = [ot, tt]
            \<and> (\<forall>br. lookup (rp_branches r') br = (if br = target then Some (mc_sha c) else lookup (rp_branches r) br))
            \<and> (\<forall>p. content (mc_files c) p =
                 (if content (mc_files tc) p = content (mc_files bc) p then content (mc_files oc) p else content (mc_files tc) p)))"
proof -
  have ok: "scm_ok sha m" using scm_after_ok [OF assms(1)] assms(2) by simp
  note run = merge_run [OF ok assms(1) assms(3-10), of msg, unfolded conflicting_def three_way_def]
  have "repo h (put_repo h (record_commit target c r) m') = Inr (record_commit target c r)" for c m'
    by (simp add: put_repo_def)
  then show ?thesis using run unfolding Let_def
    by (auto simp: record_commit_def dest!: newCommit_fields split: if_splits)
qed

definition ex_commit :: "string \<Rightarrow> memCommit" where
  "ex_commit x = the (lookup (rp_commits ex_repo) x)"

lemma ex_commit_found:
  "lookup (rp_commits ex_repo) ''a'' = Some (ex_commit ''a'')"
  "lookup (rp_commits ex_repo) ''aa'' = Some (ex_commit ''aa'')"
  "lookup (rp_commits ex_repo) ''aaa'' = Some (ex_commit ''aaa'')"
proof -
  have "lookup (rp_commits ex_repo) ''a'' \<noteq> None" "lookup (rp_commits ex_repo) ''aa'' \<noteq> None"
    "lookup (rp_commits ex_repo) ''aaa'' \<noteq> None" by code_simp+
  then show "lookup (rp_commits ex_repo) ''a'' = Some (ex_commit ''a'')"
    "lookup (rp_commits ex_repo) ''aa'' = Some (ex_commit ''aa'')"
    "lookup (rp_commits ex_repo) ''aaa'' = Some (ex_commit ''aaa'')" by (auto simp: ex_commit_def)
qed

lemma ex_repo_is: "repo ex_handle (scm_after ex_sha ex_calls) = Inr ex_repo"
  by (simp add: ex_repo_found)

theorem merge_is_three_way_witness:
  "\<exists>m' res. Merge ex_sha ex_handle ''main'' ''feat'' ''merge'' (scm_after ex_sha ex_calls) = (m', Inr res)"
  using merge_is_three_way [OF ex_sha_collision_free refl ex_repo_is ex_repo_main ex_repo_feat _
      ex_commit_found(3,2) ex_repo_base ex_commit_found(1), of "''merge''"]
  unfolding Let_def by (auto split: if_splits)

subsection \<open>Commits are read back\<close>

lemma Files_put: 
  "lookup (rp_branches r) br = Some x \<Longrightarrow> lookup (rp_commits r) x = Some c \<Longrightarrow> Files h br (put_repo h r m) = Inr (copyFiles (mc_files c))"
  by (simp add: Files_def put_repo_def repo_def)

lemma commit_tree_unsafe: "(\<exists>p \<in> fst ` set fs. \<not> safePath p) \<Longrightarrow> commit_tree f fs = Inl (Invalidf ''scm_path'')"
  by (induction f fs rule: commit_tree.induct) auto

lemma commit_tree_safe: "(\<forall>p \<in> fst ` set fs. safePath p) \<Longrightarrow> \<exists>f'. commit_tree f fs = Inr f'"
  by (induction f fs rule: commit_tree.induct) auto

text \<open>
  A commit on an existing branch either refuses every file because one path is absolute,
  contains two consecutive dots or a backslash, or is empty, and then changes nothing; or it moves that branch
  alone, and reading the branch back gives the old tree with the given files put in: a nil content
  removes the file, and any other content is read back byte for byte (an empty one as nil).
\<close>

lemma commit_then_files:
  assumes "collision_free sha" and "m = scm_after sha calls" and "repo h m = Inr r"
    and "lookup (rp_branches r) branch = Some tip" and "map_ok files"
  shows "\<exists>old. Files h branch m = Inr old \<and>
    (if \<exists>p \<in> fst ` set files. \<not> safePath p
     then CommitFiles sha h branch msg files m = (m, Inl (Invalidf ''scm_path''))
     else \<exists>m' r' x new. CommitFiles sha h branch msg files m = (m', Inr \<lparr>cr_SHA = x, cr_Head = x\<rparr>)
       \<and> Head h branch m' = Inr x \<and> repo h m' = Inr r' \<and> Files h branch m' = Inr new
       \<and> (\<forall>br. br \<noteq> branch \<longrightarrow> lookup (rp_branches r') br = lookup (rp_branches r) br)
       \<and> (\<forall>k. k \<noteq> repoKey h \<longrightarrow> lookup (mem_repos m') k = lookup (mem_repos m) k)
       \<and> (\<forall>p. content new p = (case lookup files p of None \<Rightarrow> content old p | Some v \<Rightarrow> if v = Some [] then None else v)))"
proof -
  have ok: "scm_ok sha m" using scm_after_ok [OF assms(1)] assms(2) by simp
  note rok = scm_ok_repo [OF ok assms(3)]
  obtain tc where tc: "lookup (rp_commits r) tip = Some tc" using repo_okD(4) [OF rok assms(4)] by blast
  have found: "repo h m = Inr r" by (rule assms(3))
  let ?old = "copyFiles (mc_files tc)"
  have old: "Files h branch m = Inr ?old"
    unfolding Files_def found using assms(4) tc by simp
  show ?thesis
  proof (cases "\<exists>p \<in> fst ` set files. \<not> safePath p")
    case True
    then have "CommitFiles sha h branch msg files m = (m, Inl (Invalidf ''scm_path''))"
      unfolding CommitFiles_def found using assms(4) tc commit_tree_unsafe [OF True] by simp
    then show ?thesis using old True by simp
  next
    case False
    then obtain f where f: "commit_tree ?old files = Inr f" using commit_tree_safe by blast
    obtain m' c where nc: "newCommit sha msg [tip] f m = (m', c)" by fastforce
    note c = newCommit_fields [OF nc]
    let ?r' = "record_commit branch c r"
    have run: "CommitFiles sha h branch msg files m = (put_repo h ?r' m', Inr \<lparr>cr_SHA = mc_sha c, cr_Head = mc_sha c\<rparr>)"
      unfolding CommitFiles_def found using assms(4) tc f nc by simp
    have new: "Files h branch (put_repo h ?r' m') = Inr (copyFiles (copyFiles f))"
      using c Files_put [of ?r' branch "mc_sha c" c] by (simp add: record_commit_def)
    have stored: "content f p \<noteq> Some []" for p
      using commit_tree_content [OF f assms(5), of p] by (auto split: option.splits)
    have "content (copyFiles (copyFiles f)) p =
        (case lookup files p of None \<Rightarrow> content ?old p | Some v \<Rightarrow> if v = Some [] then None else v)" for p
      using commit_tree_content [OF f assms(5), of p] stored [of p]
      by (auto simp: copyBytes_def split: option.splits list.splits)
    then show ?thesis using old new run False c
      by (auto simp: Head_def repo_def put_repo_def record_commit_def simp del: content_copyFiles)
  qed
qed

lemma commit_then_files_example:
  "\<exists>m' x. CommitFiles ex_sha ex_handle ''feat'' ''more'' [(''c'', None), (''d/e'', Some ''5'')] (scm_after ex_sha ex_calls)
      = (m', Inr \<lparr>cr_SHA = x, cr_Head = x\<rparr>)"
  using commit_then_files [OF ex_sha_collision_free refl ex_repo_is ex_repo_feat,
      of "[(''c'', None), (''d/e'', Some ''5'')]" "''more''"]
  by (auto simp: map_ok_def safePath_def trim_prefix_def)

subsection \<open>Empty files\<close>

lemma merge_loop_untouched_key:
  "p \<notin> set ps \<Longrightarrow> lookup (fst (merge_loop base ours theirs merged conflicts ps)) p = lookup merged p"
  by (induction ps arbitrary: merged conflicts) (auto simp: Let_def)

lemma merge_loop_deletes:
  assumes "distinct ps" and "p \<in> set ps" and "content theirs p = None" and "content ours p = content base p"
    and "content base p \<noteq> None"
  shows "lookup (fst (merge_loop base ours theirs merged conflicts ps)) p = None"
  using assms(1,2)
proof (induction ps arbitrary: merged conflicts)
  case (Cons q ps)
  show ?case
  proof (cases "p = q")
    case True
    then show ?thesis using Cons.prems assms(3-) by (auto simp: Let_def merge_loop_untouched_key)
  next
    case False
    then show ?thesis using Cons by (simp add: Let_def)
  qed
qed simp

lemma lookup_copyFiles: "lookup (copyFiles f) p = map_option copyBytes (lookup f p)"
  by (induction f) (auto simp: copyFiles_def)

text \<open>
  The driver does not tell an empty file from a missing one when it merges. When the source
  branch has emptied a file that the target branch left alone, the file is there (and empty) on the
  source branch, and a clean merge removes it from the target branch.
\<close>

theorem merge_removes_emptied_file:
  assumes "collision_free sha" and "m = scm_after sha calls" and "repo h m = Inr r"
    and "lookup (rp_branches r) target = Some ot" and "lookup (rp_branches r) source = Some tt" and "ot \<noteq> tt"
    and "lookup (rp_commits r) ot = Some oc" and "lookup (rp_commits r) tt = Some tc"
    and "mergeBase r ot tt = Some x" and "lookup (rp_commits r) x = Some bc"
    and "\<forall>q. \<not> conflicting (mc_files bc) (mc_files oc) (mc_files tc) q"
    and "lookup (mc_files tc) p = Some None" and "content (mc_files oc) p = content (mc_files bc) p"
    and "content (mc_files bc) p \<noteq> None"
  shows "\<exists>m' res before after. Merge sha h target source msg m = (m', Inr res) \<and> mg_Conflicts res = []
    \<and> Files h source m = Inr before \<and> p \<in> fst ` set before
    \<and> Files h target m' = Inr after \<and> p \<notin> fst ` set after"
proof -
  have ok: "scm_ok sha m" using scm_after_ok [OF assms(1)] assms(2) by simp
  let ?ml = "merge_loop (mc_files bc) (mc_files oc) (mc_files tc) (copyFiles (mc_files oc)) []
               (sortedKeys (map fst (mc_files tc) @ map fst (mc_files bc)))"
  obtain m' c where nc: "newCommit sha msg [ot, tt] (fst ?ml) m = (m', c)"
    and run: "Merge sha h target source msg m =
      (put_repo h (record_commit target c r) m', Inr \<lparr>mg_SHA = mc_sha c, mg_Conflicts = []\<rparr>)"
    using merge_run [OF ok assms(1) assms(3-10), of msg] assms(11) by auto
  have present: "p \<in> fst ` set (mc_files tc)"
    using assms(12) by (metis lookup_in_set fst_conv image_eqI)
  have source: "Files h source m = Inr (copyFiles (mc_files tc))"
    unfolding Files_def assms(3) using assms(5,8) by simp
  have "content (mc_files tc) p = None" using assms(12) by (simp add: content_def)
  then have "lookup (fst ?ml) p = None"
    using present by (intro merge_loop_deletes) (auto simp: sortedKeys_def assms(13,14))
  then have "lookup (copyFiles (copyFiles (fst ?ml))) p = None" by (simp add: lookup_copyFiles)
  moreover have "Files h target (put_repo h (record_commit target c r) m') = Inr (copyFiles (copyFiles (fst ?ml)))"
    using newCommit_fields [OF nc] Files_put [of "record_commit target c r" target "mc_sha c" c]
    by (simp add: record_commit_def)
  moreover have "p \<in> fst ` set (copyFiles (mc_files tc))"
    using present by (metis copyFiles_keys set_map)
  ultimately show ?thesis using run source by (auto simp: map_of_eq_None_iff)
qed

lemma ex_commit_trees:
  "mc_files (ex_commit ''a'') = [(''a'', Some ''1''), (''b'', Some ''2'')]"
  "mc_files (ex_commit ''aa'') = [(''a'', Some ''1''), (''b'', None), (''c'', Some ''3'')]"
  "mc_files (ex_commit ''aaa'') = [(''a'', Some ''4''), (''b'', Some ''2'')]"
  by code_simp+

theorem merge_removes_emptied_file_witness:
  "\<exists>m' res after. Merge ex_sha ex_handle ''main'' ''feat'' ''merge'' (scm_after ex_sha ex_calls) = (m', Inr res)
     \<and> Files ex_handle ''main'' m' = Inr after \<and> ''b'' \<notin> fst ` set after"
proof -
  have "\<forall>q. \<not> conflicting (mc_files (ex_commit ''a'')) (mc_files (ex_commit ''aaa'')) (mc_files (ex_commit ''aa'')) q"
    by (simp add: ex_commit_trees conflicting_def content_def)
  from merge_removes_emptied_file [OF ex_sha_collision_free refl ex_repo_is ex_repo_main ex_repo_feat _
      ex_commit_found(3,2) ex_repo_base ex_commit_found(1) this, of "''b''" "''merge''"]
  show ?thesis by (auto simp: ex_commit_trees content_def)
qed

end
