(* ===== verification/Reviewer.thy ===== *)
theory Reviewer
  imports Domain_Runs Go_Strings
begin

section \<open>The deterministic reviewer (internal/review)\<close>

text \<open>
  The ready gate: it compares the recorded evidence with the success criteria, searches the diff for
  forbidden patterns and bounds its size. The three patterns are Go regular expressions; \<open>re\<close> is the
  fragment they use, matched on bytes from a position with the byte before it (for \<^verbatim>\<open>\b\<close>, which looks
  at ASCII word characters). Only where a match starts is observable, so a match is a non-empty
  list of possible ends. Under \<^verbatim>\<open>(?i)\<close> the letter K also matches the Kelvin sign.
\<close>

subsection \<open>Patterns\<close>

datatype re =
    REmpty
  | RChar "char list"
  | RStar "char list"
  | RBound
  | RSeq re re
  | RAlt re re

type_synonym cursor = "char option \<times> string"

definition word_char :: "char \<Rightarrow> bool" where
  "word_char c \<longleftrightarrow> is_lower c \<or> is_upper c \<or> is_digit c \<or> c = CHR ''_''"

definition word_opt :: "char option \<Rightarrow> bool" where
  "word_opt c = (case c of None \<Rightarrow> False | Some c \<Rightarrow> word_char c)"

definition next_char :: "string \<Rightarrow> char option" where
  "next_char s = (case s of [] \<Rightarrow> None | c # _ \<Rightarrow> Some c)"

fun star_ends :: "char list \<Rightarrow> char option \<Rightarrow> string \<Rightarrow> cursor list" where
  "star_ends cls prev [] = [(prev, [])]"
| "star_ends cls prev (c # cs) = (prev, c # cs) # (if c \<in> set cls then star_ends cls (Some c) cs else [])"

fun ends :: "re \<Rightarrow> cursor \<Rightarrow> cursor list" where
  "ends REmpty x = [x]"
| "ends (RChar cls) (prev, s) = (case s of [] \<Rightarrow> [] | c # cs \<Rightarrow> if c \<in> set cls then [(Some c, cs)] else [])"
| "ends (RStar cls) (prev, s) = star_ends cls prev s"
| "ends RBound (prev, s) = (if word_opt prev \<noteq> word_opt (next_char s) then [(prev, s)] else [])"
| "ends (RSeq a b) x = concat (map (ends b) (ends a x))"
| "ends (RAlt a b) x = ends a x @ ends b x"

definition lit :: "string \<Rightarrow> re" where
  "lit s = foldr (\<lambda>c r. RSeq (RChar [c]) r) s REmpty"

definition upper_range :: "char list" where
  "upper_range = ''ABCDEFGHIJKLMNOPQRSTUVWXYZ''"

definition digit_range :: "char list" where
  "digit_range = ''0123456789''"

text \<open>A letter under \<^verbatim>\<open>(?i)\<close>: the word is given in upper case.\<close>

definition fold_letter :: "char \<Rightarrow> re" where
  "fold_letter c =
     (let both = RChar [c, char_of (of_char c + 32 :: nat)]
      in if c = CHR ''K'' then RAlt both (lit [CHR 0xE2, CHR 0x84, CHR 0xAA]) else both)"

definition fold_word :: "string \<Rightarrow> re" where
  "fold_word w = RSeq RBound (foldr (\<lambda>c r. RSeq (fold_letter c) r) w RBound)"

record forbiddenPattern =
  fp_re :: re
  fp_category :: string
  fp_scenario :: string

definition forbiddenPatterns :: "forbiddenPattern list" where
  "forbiddenPatterns =
    [\<lparr>fp_re = RAlt (fold_word ''TODO'') (RAlt (fold_word ''FIXME'') (fold_word ''HACK'')),
      fp_category = ''unfinished-work'',
      fp_scenario = ''the diff contains TODO/FIXME/HACK markers, so the change may be incomplete and silently shipped''\<rparr>,
     \<lparr>fp_re = RSeq (lit ''-----BEGIN '') (RSeq (RStar (upper_range @ '' '')) (lit ''PRIVATE KEY-----'')),
      fp_category = ''secret-leak'',
      fp_scenario = ''a private key block appears in the diff; committing credentials exposes them to every reader of the repository''\<rparr>,
     \<lparr>fp_re = RSeq RBound (RSeq (lit ''AKIA'') (foldr RSeq (replicate 16 (RChar (digit_range @ upper_range))) RBound)),
      fp_category = ''secret-leak'',
      fp_scenario = ''the diff contains an AWS access key id pattern''\<rparr>]"

text \<open>\<^verbatim>\<open>FindStringIndex\<close>: the text before the leftmost match.\<close>

fun find_from :: "re \<Rightarrow> char option \<Rightarrow> string \<Rightarrow> string option" where
  "find_from r prev [] = (if ends r (prev, []) \<noteq> [] then Some [] else None)"
| "find_from r prev (c # cs) =
     (if ends r (prev, c # cs) \<noteq> [] then Some []
      else map_option ((#) c) (find_from r (Some c) cs))"

definition line_feed :: char where "line_feed = CHR 0x0A"

definition find_pat :: "forbiddenPattern \<Rightarrow> string \<Rightarrow> string" where
  "find_pat p diff =
     (case find_from (fp_re p) None diff of
        None \<Rightarrow> []
      | Some pre \<Rightarrow> ''diff:'' @ itoa (length (filter ((=) line_feed) pre) + 1))"

definition countAddedLines :: "string \<Rightarrow> int" where
  "countAddedLines diff =
     int (length (filter (\<lambda>l. has_prefix ''+'' l \<and> \<not> has_prefix ''+++'' l) (split_on line_feed diff)))"

subsection \<open>The verdict\<close>

record ReviewInput =
  rin_Spec :: SpecContent
  rin_Diff :: bytes
  rin_Evidence :: "Evidence list"

record Verdict =
  vd_Passed :: bool
  vd_Findings :: "Finding list"
  vd_UnmetCriteria :: "string list"

definition NewDeterministic :: "int \<Rightarrow> int" where
  "NewDeterministic maxDiffLines = (if maxDiffLines \<le> 0 then 2000 else maxDiffLines)"

definition blocker :: "string \<Rightarrow> string \<Rightarrow> string \<Rightarrow> Finding" where
  "blocker category location scenario =
     \<lparr>f_Category = category, f_Severity = SeverityBlocker, f_Confidence = ConfidenceHigh,
      f_Location = location, f_Scenario = scenario\<rparr>"

definition unmet :: "SpecContent \<Rightarrow> Evidence list \<Rightarrow> string list" where
  "unmet spec evidence =
     filter (\<lambda>criterion. criterion \<notin> set (map ev_Criterion (filter ev_Passed evidence))) (sc_SuccessCriteria spec)"

fun pattern_findings :: "string \<Rightarrow> forbiddenPattern list \<Rightarrow> Finding list" where
  "pattern_findings diff [] = []"
| "pattern_findings diff (p # ps) =
     (let loc = find_pat p diff in
      if loc = [] then pattern_findings diff ps
      else blocker (fp_category p) loc (fp_scenario p) # pattern_findings diff ps)"

text \<open>The final loop: the first invalid finding is an error, a blocking one fails the verdict.\<close>

fun settle_findings :: "bool \<Rightarrow> Finding list \<Rightarrow> bool result" where
  "settle_findings passed [] = Inr passed"
| "settle_findings passed (f # fs) =
     and_then (Finding_Validate f) (\<lambda>_. settle_findings (if Blocking f then False else passed) fs)"

definition coverage_findings :: "SpecContent \<Rightarrow> string list \<Rightarrow> Finding list" where
  "coverage_findings spec missing =
     (if sc_SuccessCriteria spec \<noteq> [] \<and> missing \<noteq> []
      then [blocker ''verification-gap'' ''evidence''
              ''success criteria lack passing evidence, so 'done' would rest on agent confidence instead of observed facts'']
      else []) @
     (if sc_SuccessCriteria spec = []
      then [blocker ''spec-quality'' ''spec''
              ''the spec declares no success criteria, so completion cannot be verified at all'']
      else [])"

definition size_findings :: "int \<Rightarrow> string \<Rightarrow> Finding list" where
  "size_findings maxDiffLines diff =
     (if countAddedLines diff > maxDiffLines
      then [\<lparr>f_Category = ''diff-size'', f_Severity = SeverityWarning, f_Confidence = ConfidenceMedium,
             f_Location = ''diff'',
             f_Scenario = ''the diff adds more lines than the review budget covers, increasing the chance unreviewed behavior reaches the integration branch''\<rparr>]
      else [])"

definition Review :: "int \<Rightarrow> ReviewInput \<Rightarrow> Verdict result" where
  "Review maxDiffLines inp =
     (let missing = unmet (rin_Spec inp) (rin_Evidence inp);
          findings = coverage_findings (rin_Spec inp) missing
            @ pattern_findings (rin_Diff inp) forbiddenPatterns
            @ size_findings maxDiffLines (rin_Diff inp)
      in and_then (settle_findings True findings) (\<lambda>passed.
           Inr \<lparr>vd_Passed = passed, vd_Findings = findings, vd_UnmetCriteria = missing\<rparr>))"

end
