(* ===== verification/Planner.thy ===== *)
theory Planner
  imports Domain_Entities Go_Strings
begin

section \<open>The deterministic planner (internal/planner)\<close>

text \<open>
  The planner matches a request against the capabilities a project declares and renders the one
  that matches. Decoding the YAML catalog is an argument (\<^verbatim>\<open>gopkg.in/yaml.v3\<close>, strict: unknown fields
  are an error), and so is \<^verbatim>\<open>strings.ToLower\<close>, whose Unicode tables are not part of the sources.
  Strings are bytes: the code walks runes, but every byte of a multi-byte rune takes the same branch
  as the rune, and runs of dashes collapse, so the byte walk builds the same names.
\<close>

record TaskTemplate =
  tt_Name :: string
  tt_Branch :: string
  tt_CommitMessage :: string
  tt_Writes :: "string list"
  tt_Files :: "(string, string) gomap"
  tt_VerifyCommands :: "string list list"

record Output =
  out_Spec :: SpecContent
  out_Tasks :: "TaskTemplate list"
  out_IntegratedVerification :: "string list list"

record PlanInput =
  pi_TenantID :: string
  pi_ThreadID :: string
  pi_Request :: string
  pi_RepoFiles :: "(string, bytes option) gomap"

record capabilityTask =
  ct_Name :: string
  ct_Writes :: "string list"
  ct_CommitMessage :: string
  ct_Files :: "(string, string) gomap"
  ct_VerifyCommands :: "string list list"

record capabilitySpec =
  cs_Outcome :: string
  cs_Requirements :: "string list"
  cs_Assumptions :: "string list"
  cs_NonGoals :: "string list"
  cs_SuccessCriteria :: "string list"
  cs_Blockers :: "string list"

record Capability =
  cap_ID :: string
  cap_RequestKeywords :: "string list"
  cap_Spec :: capabilitySpec
  cap_Tasks :: "capabilityTask list"
  cap_VerifyAll :: "string list list"

record Catalog =
  cat_Version :: int
  cat_Capabilities :: "Capability list"

definition catalogPath :: string where "catalogPath = ''.ants/capabilities.yaml''"

subsection \<open>The catalog\<close>

abbreviation (input) bad_catalog :: go_error where "bad_catalog \<equiv> Invalidf ''capabilities_catalog''"

fun validate_tasks :: "capabilityTask list \<Rightarrow> unit result" where
  "validate_tasks [] = Inr ()"
| "validate_tasks (t # ts) =
     (if ct_Name t = [] \<or> ct_CommitMessage t = [] then Inl bad_catalog
      else if ct_Files t = [] then Inl bad_catalog
      else validate_tasks ts)"

fun validate_caps :: "string list \<Rightarrow> Capability list \<Rightarrow> unit result" where
  "validate_caps seen [] = Inr ()"
| "validate_caps seen (c # cs) =
     (if cap_ID c = [] \<or> cap_ID c \<in> set seen then Inl bad_catalog
      else if cap_RequestKeywords c = [] then Inl bad_catalog
      else if cap_Tasks c = [] then Inl bad_catalog
      else and_then (validate_tasks (cap_Tasks c)) (\<lambda>_.
        if cap_VerifyAll c = [] then Inl bad_catalog
        else validate_caps (cap_ID c # seen) cs))"

definition Catalog_validate :: "Catalog \<Rightarrow> unit result" where
  "Catalog_validate c =
     (if cat_Version c \<noteq> 1 then Inl bad_catalog
      else if cat_Capabilities c = [] then Inl bad_catalog
      else validate_caps [] (cat_Capabilities c))"

definition ParseCatalog :: "(bytes \<Rightarrow> Catalog option) \<Rightarrow> (string, bytes option) gomap \<Rightarrow> Catalog result" where
  "ParseCatalog decode files =
     (case lookup files catalogPath of
        None \<Rightarrow> Inl (NotFoundf ''capabilities catalog'')
      | Some raw \<Rightarrow>
          (case decode (case raw of None \<Rightarrow> [] | Some b \<Rightarrow> b) of
             None \<Rightarrow> Inl bad_catalog
           | Some cat \<Rightarrow> and_then (Catalog_validate cat) (\<lambda>_. Inr cat)))"

subsection \<open>Branch names\<close>

definition slug_rune :: "char \<Rightarrow> char" where
  "slug_rune r = (if is_lower r \<or> is_digit r then r
     else if is_upper r then char_of (of_char r + (of_char (CHR ''a'') - of_char (CHR ''A'')) :: nat)
     else CHR ''-'')"

text \<open>\<^verbatim>\<open>strings.ReplaceAll(slug, "--", "-")\<close> and the loop around it.\<close>

fun replace_dashes :: "string \<Rightarrow> string" where
  "replace_dashes (c # d # s) =
     (if c = CHR ''-'' \<and> d = CHR ''-'' then CHR ''-'' # replace_dashes s else c # replace_dashes (d # s))"
| "replace_dashes s = s"

lemma replace_dashes_length [simp]: "length (replace_dashes s) \<le> length s"
  by (induction s rule: replace_dashes.induct) auto

lemma replace_dashes_shrinks: "contains_str ''--'' s \<Longrightarrow> length (replace_dashes s) < length s"
proof (induction s rule: replace_dashes.induct)
  case (1 c d s)
  then show ?case using replace_dashes_length [of s] by (auto simp: less_Suc_eq_le)
qed auto

function collapse_dashes :: "string \<Rightarrow> string" where
  "collapse_dashes slug = (if contains_str ''--'' slug then collapse_dashes (replace_dashes slug) else slug)"
  by pat_completeness auto
termination collapse_dashes
  by (relation "measure length") (simp_all add: replace_dashes_shrinks)

declare collapse_dashes.simps [simp del]

definition branchFor :: "string \<Rightarrow> string" where
  "branchFor taskName =
     (let slug = trim_char (CHR ''-'') (collapse_dashes (map slug_rune taskName))
      in if slug = [] then ''ants/task'' else ''ants/'' @ slug)"

subsection \<open>Planning\<close>

definition render_task :: "capabilityTask \<Rightarrow> TaskTemplate" where
  "render_task t =
     \<lparr>tt_Name = ct_Name t, tt_Branch = branchFor (ct_Name t), tt_CommitMessage = ct_CommitMessage t,
      tt_Writes = (if ct_Writes t = [] then map fst (ct_Files t) else ct_Writes t),
      tt_Files = ct_Files t, tt_VerifyCommands = ct_VerifyCommands t\<rparr>"

definition render :: "Capability \<Rightarrow> Output" where
  "render c =
     \<lparr>out_Spec = (let s = cap_Spec c in
        \<lparr>sc_Outcome = cs_Outcome s, sc_Assumptions = cs_Assumptions s, sc_Requirements = cs_Requirements s,
         sc_NonGoals = cs_NonGoals s, sc_SuccessCriteria = cs_SuccessCriteria s, sc_Blockers = cs_Blockers s\<rparr>),
      out_Tasks = map render_task (cap_Tasks c),
      out_IntegratedVerification = cap_VerifyAll c\<rparr>"

fun keywords_match :: "(string \<Rightarrow> string) \<Rightarrow> string \<Rightarrow> string list \<Rightarrow> bool" where
  "keywords_match lower request [] = True"
| "keywords_match lower request (kw # kws) =
     (if \<not> contains_str (lower kw) request then False else keywords_match lower request kws)"

definition Plan :: "(bytes \<Rightarrow> Catalog option) \<Rightarrow> (string \<Rightarrow> string) \<Rightarrow> PlanInput \<Rightarrow> Output result" where
  "Plan decode lower inp =
     and_then (ParseCatalog decode (pi_RepoFiles inp)) (\<lambda>cat.
       let request = lower (pi_Request inp);
           candidates = filter (\<lambda>c. keywords_match lower request (cap_RequestKeywords c)) (cat_Capabilities cat)
       in case candidates of
            [c] \<Rightarrow> Inr (render c)
          | [] \<Rightarrow> Inl (Error ErrKindInvalid ''plan_no_matching_capability'' None)
          | _ \<Rightarrow> Inl (Error ErrKindConflict ''plan_ambiguous_request'' None))"

end
