(* ===== verification/Pipeline_State.thy ===== *)
theory Pipeline_State
  imports Run_Engine SCM_Memory Planner Reviewer "HOL-Library.Word"
begin

section \<open>The state of one execution (internal/orchestration/execute.go)\<close>

text \<open>
  \<open>Execute\<close> drives one run. Its state is the \<open>runState\<close> of the code together with the world (store,
  clock, identifiers), the in-process source-control driver, and counters for the calls whose
  outcome the code does not determine. Those outcomes are functions of \<open>PDeps\<close>: the sandbox
  driver's answers, whether the context is cancelled at the n-th look, whether a sleep was
  interrupted, whether a file could be written. The planner, the reviewer and the seeder are the
  interfaces the engine is given. Rendering (JSON, error texts, durations, digests) is an argument.

  The engine mutates its entities through pointers, so the entities live in the state: a failed
  step keeps what it changed. Tasks are identified by their index. The task goroutines are run one
  after the other in the order \<open>pd_order\<close> gives, which is what a parallelism of one allows.
\<close>

record workspace =
  wk_id :: string
  wk_root :: string

record ExecResult =
  er_ExitCode :: int
  er_Stdout :: bytes
  er_Stderr :: bytes
  er_Duration :: Duration

record EngineConfig =
  ec_MaxParallelTasks :: int
  ec_TaskTimeout :: Duration
  ec_StageTimeout :: Duration
  ec_MaxAttempts :: int
  ec_RetryBackoff :: "64 word"
  ec_MaxTasksPerRun :: int
  ec_MaxExecOpsPerRun :: int

record PDeps =
  pd_base :: Deps
  pd_cfg :: EngineConfig
  pd_hash :: hash
  pd_quote :: "string \<Rightarrow> string"
  pd_allowLocalCommits :: bool
  pd_seed :: "string \<Rightarrow> Seed result"
  pd_plan :: "PlanInput \<Rightarrow> Output result"
  pd_review :: "ReviewInput \<Rightarrow> Verdict result"
  pd_create :: "nat \<Rightarrow> string result"
  pd_root :: "(string \<Rightarrow> string result) option"
  pd_exec :: "nat \<Rightarrow> string \<Rightarrow> string list \<Rightarrow> ExecResult result"
  pd_writeFails :: "string \<Rightarrow> string \<Rightarrow> filedata \<Rightarrow> bool"
  pd_sleepFails :: "nat \<Rightarrow> bool"
  pd_cancelled :: "nat \<Rightarrow> bool"
  pd_digest :: "bytes \<Rightarrow> string"
  pd_json :: "RunReport \<Rightarrow> bytes"
  pd_duration :: "Duration \<Rightarrow> string"
  pd_lower :: "string \<Rightarrow> string"
  pd_order :: "nat \<Rightarrow> nat list"
  pd_sort :: "(Task \<Rightarrow> Task \<Rightarrow> bool) \<Rightarrow> Task list \<Rightarrow> Task list"

record taskResult =
  tr_task :: nat
  tr_headSHA :: string
  tr_evidence :: "Evidence list"

record runState =
  rs_run :: Run
  rs_thread :: Thread
  rs_project :: Project
  rs_seed :: Seed
  rs_repo :: Handle
  rs_baseSHA :: string
  rs_ledger :: BudgetLedger
  rs_startedAt :: Time
  rs_spec :: "Output option"
  rs_tasks :: "Task list"
  rs_taskTemplates :: "(string, TaskTemplate) gomap"
  rs_results :: "taskResult list"
  rs_evidence :: "Evidence list"
  rs_artifactRefs :: "ReportArtifactRef list"
  rs_findings :: "Finding list"
  rs_integrated :: ReportIntegration
  rs_sandboxes :: "string list"

text \<open>
  \<open>pp_res\<close> is the result record of the task being executed, \<open>pp_execs\<close> the commands started so far,
  \<open>pp_slept\<close> the backoffs asked for, \<open>pp_done\<close> whether the context has been seen cancelled: a
  cancelled context stays cancelled.
\<close>

record pipe =
  pp_world :: world
  pp_scm :: Memory
  pp_st :: runState
  pp_res :: taskResult
  pp_creates :: nat
  pp_execs :: "(string \<times> string list) list"
  pp_slept :: "64 word list"
  pp_looks :: nat
  pp_done :: bool

type_synonym 'a pipe_op = "pipe \<Rightarrow> pipe \<times> 'a result"

subsection \<open>Steps\<close>

definition eng :: "'a eng_op \<Rightarrow> 'a pipe_op" where
  "eng f p = (case f (pp_world p) of (w, r) \<Rightarrow> (p\<lparr>pp_world := w\<rparr>, r))"

definition scm :: "'a scm_op \<Rightarrow> 'a pipe_op" where
  "scm f p = (case f (pp_scm p) of (m, r) \<Rightarrow> (p\<lparr>pp_scm := m\<rparr>, r))"

definition scm_read :: "(Memory \<Rightarrow> 'a result) \<Rightarrow> 'a pipe_op" where
  "scm_read f p = (p, f (pp_scm p))"

definition get_st :: "(runState \<Rightarrow> 'a) \<Rightarrow> 'a pipe_op" where
  "get_st f p = (p, Inr (f (pp_st p)))"

definition upd_st :: "(runState \<Rightarrow> runState) \<Rightarrow> unit pipe_op" where
  "upd_st f p = (p\<lparr>pp_st := f (pp_st p)\<rparr>, Inr ())"

definition upd_res :: "(taskResult \<Rightarrow> taskResult) \<Rightarrow> unit pipe_op" where
  "upd_res f p = (p\<lparr>pp_res := f (pp_res p)\<rparr>, Inr ())"

definition pure_step :: "'a result \<Rightarrow> 'a pipe_op" where
  "pure_step r p = (p, r)"

text \<open>\<open>try_op f\<close> hands the error of a step to the caller as a value.\<close>

definition try_op :: "'a pipe_op \<Rightarrow> 'a result pipe_op" where
  "try_op f p = (case f p of (p', r) \<Rightarrow> (p', Inr r))"

text \<open>\<^verbatim>\<open>if err := f(); err != nil { return h(err) }\<close>\<close>

definition or_else :: "'a pipe_op \<Rightarrow> (go_error \<Rightarrow> 'a pipe_op) \<Rightarrow> 'a pipe_op" where
  "or_else f h = seq_op (try_op f) (\<lambda>r. case r of Inl e \<Rightarrow> h e | Inr x \<Rightarrow> return_op x)"

text \<open>A step whose error is dropped, \<^verbatim>\<open>_ = f()\<close>.\<close>

definition ignore :: "'a pipe_op \<Rightarrow> unit pipe_op" where
  "ignore f = seq_op (try_op f) (\<lambda>_. return_op ())"

definition ctx_Err :: "PDeps \<Rightarrow> bool pipe_op" where
  "ctx_Err d p =
     (let c = pp_done p \<or> pd_cancelled d (pp_looks p)
      in (p\<lparr>pp_looks := pp_looks p + 1, pp_done := c\<rparr>, Inr c))"

definition Sandbox_Create :: "PDeps \<Rightarrow> string pipe_op" where
  "Sandbox_Create d p = (p\<lparr>pp_creates := pp_creates p + 1\<rparr>, pd_create d (pp_creates p))"

definition Sandbox_Exec :: "PDeps \<Rightarrow> string \<Rightarrow> string list \<Rightarrow> ExecResult pipe_op" where
  "Sandbox_Exec d sbx cmd p =
     (p\<lparr>pp_execs := pp_execs p @ [(sbx, cmd)]\<rparr>, pd_exec d (length (pp_execs p)) sbx cmd)"

definition Sleep :: "PDeps \<Rightarrow> 64 word \<Rightarrow> bool pipe_op" where
  "Sleep d dur p = (p\<lparr>pp_slept := pp_slept p @ [dur]\<rparr>, Inr (pd_sleepFails d (length (pp_slept p))))"

subsection \<open>The entities the engine holds\<close>

definition set_task :: "nat \<Rightarrow> Task \<Rightarrow> runState \<Rightarrow> runState" where
  "set_task i t st = st\<lparr>rs_tasks := (rs_tasks st)[i := t]\<rparr>"

text \<open>\<^verbatim>\<open>tasks[i]\<close>, a panic out of range.\<close>

definition task_at :: "nat \<Rightarrow> Task pipe_op" where
  "task_at i p = (p, if i < length (rs_tasks (pp_st p)) then Inr (rs_tasks (pp_st p) ! i) else Inl Panic)"

definition track :: "string \<Rightarrow> unit pipe_op" where
  "track ident = upd_st (\<lambda>st. st\<lparr>rs_sandboxes := rs_sandboxes st @ [ident]\<rparr>)"

definition addArtifactRef :: "ReportArtifactRef \<Rightarrow> unit pipe_op" where
  "addArtifactRef ref = upd_st (\<lambda>st. st\<lparr>rs_artifactRefs := rs_artifactRefs st @ [ref]\<rparr>)"

definition add_finding :: "Finding list \<Rightarrow> unit pipe_op" where
  "add_finding fs = upd_st (\<lambda>st. st\<lparr>rs_findings := rs_findings st @ fs\<rparr>)"

definition reserveTaskBudget :: "unit pipe_op" where
  "reserveTaskBudget =
     seq_op (get_st rs_ledger) (\<lambda>l.
     seq_op (pure_step (ReserveTask l)) (\<lambda>l. upd_st (\<lambda>st. st\<lparr>rs_ledger := l\<rparr>)))"

definition chargeExecOp :: "unit pipe_op" where
  "chargeExecOp =
     seq_op (get_st rs_ledger) (\<lambda>l.
     seq_op (pure_step (RecordExecOp l)) (\<lambda>l. upd_st (\<lambda>st. st\<lparr>rs_ledger := l\<rparr>)))"

definition anyTaskFailed :: "runState \<Rightarrow> bool" where
  "anyTaskFailed st \<longleftrightarrow> list_ex (\<lambda>t. task_Status t = TaskFailed \<or> task_Status t = TaskCancelled) (rs_tasks st)"

text \<open>
  The transitions of engine.go on the entity the state holds. \<open>TransitionTo\<close> changes the entity
  before anything is persisted, so a step that fails later leaves it changed.
\<close>

definition run_transition :: "PDeps \<Rightarrow> ctx \<Rightarrow> RunStatus \<Rightarrow> unit pipe_op" where
  "run_transition d ctx nxt =
     seq_op (get_st rs_run) (\<lambda>run.
     seq_op (upd_st (\<lambda>st. case Run_TransitionTo run nxt of Inl _ \<Rightarrow> st | Inr run' \<Rightarrow> st\<lparr>rs_run := run'\<rparr>)) (\<lambda>_.
     seq_op (eng (transitionRun (pd_base d) ctx run nxt)) (\<lambda>run'.
       upd_st (\<lambda>st. st\<lparr>rs_run := run'\<rparr>))))"

definition thread_transition :: "PDeps \<Rightarrow> ctx \<Rightarrow> ThreadStatus \<Rightarrow> (string, dval) gomap \<Rightarrow> unit pipe_op" where
  "thread_transition d ctx nxt extra =
     seq_op (get_st rs_thread) (\<lambda>thread.
     seq_op (upd_st (\<lambda>st. case Thread_TransitionTo thread nxt of Inl _ \<Rightarrow> st | Inr t \<Rightarrow> st\<lparr>rs_thread := t\<rparr>)) (\<lambda>_.
     seq_op (eng (transitionThreadWithData (pd_base d) ctx thread nxt extra)) (\<lambda>t.
       upd_st (\<lambda>st. st\<lparr>rs_thread := t\<rparr>))))"

definition task_transition :: "PDeps \<Rightarrow> ctx \<Rightarrow> nat \<Rightarrow> TaskStatus \<Rightarrow> unit pipe_op" where
  "task_transition d ctx i nxt =
     seq_op (task_at i) (\<lambda>task.
     seq_op (upd_st (\<lambda>st. case Task_TransitionTo task nxt of Inl _ \<Rightarrow> st | Inr t \<Rightarrow> set_task i t st)) (\<lambda>_.
     seq_op (eng (transitionTask (pd_base d) ctx task nxt)) (\<lambda>t.
       upd_st (set_task i t))))"

definition emit :: "PDeps \<Rightarrow> ctx \<Rightarrow> Event \<Rightarrow> unit pipe_op" where
  "emit d ctx evt = seq_op (eng (emitEvent (pd_base d) ctx evt)) (\<lambda>_. return_op ())"

end
