(* ===== verification/Run_Pipeline.thy ===== *)
theory Run_Pipeline
  imports Pipeline_State
begin

section \<open>The run pipeline (internal/orchestration: execute.go, integrate.go, helpers.go, artifacts.go)\<close>

text \<open>
  Every step of \<open>Execute\<close>: planning, tasks, integration, verification, review and report, and the
  failure machinery they share. Definitions follow the functions of the code one by one.
\<close>

definition systemPrincipalID :: string where "systemPrincipalID = ''prn_antssystemorchestrator0''"

subsection \<open>Names\<close>

text \<open>The loop of \<^verbatim>\<open>sanitizeBranch\<close>: \<open>b\<close> is the builder, \<open>lastDash\<close> the flag.\<close>

fun sanitize_loop :: "string \<Rightarrow> bool \<Rightarrow> string \<Rightarrow> string" where
  "sanitize_loop b lastDash [] = b"
| "sanitize_loop b lastDash (r # rs) =
     (if is_lower r \<or> is_digit r then sanitize_loop (b @ [r]) False rs
      else if \<not> lastDash \<and> length b > 0 then sanitize_loop (b @ ''-'') True rs
      else sanitize_loop b lastDash rs)"

definition sanitizeBranch :: "(string \<Rightarrow> string) \<Rightarrow> string \<Rightarrow> string" where
  "sanitizeBranch lower s =
     (let out = trim_char (CHR ''-'') (sanitize_loop [] False (lower s)) in if out = [] then ''run'' else out)"

definition branchForTask :: "(string \<Rightarrow> string) \<Rightarrow> Task \<Rightarrow> string" where
  "branchForTask lower task = ''ants/task-'' @ sanitizeBranch lower (task_Name task)"

definition integrationBranchName :: "(string \<Rightarrow> string) \<Rightarrow> string \<Rightarrow> string" where
  "integrationBranchName lower runID = ''ants/integration-'' @ sanitizeBranch lower (trim_prefix (PrefixRun @ ''_'') runID)"

definition sortedTasksByName :: "PDeps \<Rightarrow> Task list \<Rightarrow> Task list" where
  "sortedTasksByName d tasks = pd_sort d (\<lambda>a b. task_Name a < task_Name b) tasks"

subsection \<open>Errors\<close>

definition classifyFailure :: "go_error \<Rightarrow> string" where
  "classifyFailure err =
     (case errors_As err of
        Some (k, code) \<Rightarrow>
          if code \<noteq> [] then code
          else (case k of ErrKindPolicyDenied \<Rightarrow> ''policy_denied'' | ErrKindBudgetExhausted \<Rightarrow> ''budget_exhausted''
                | ErrKindConflict \<Rightarrow> ''conflict'' | _ \<Rightarrow> ''operation_failed'')
      | None \<Rightarrow> ''operation_failed'')"

definition isCancellation :: "go_error \<Rightarrow> bool" where
  "isCancellation err \<longleftrightarrow> ErrKindOf err = ErrKindCancelled \<or> errors_Is_Canceled err"

definition firstFailedTask :: "runState \<Rightarrow> Task option" where
  "firstFailedTask st =
     (case List.find (\<lambda>t. task_Status t = TaskFailed) (rs_tasks st) of
        Some t \<Rightarrow> Some t
      | None \<Rightarrow> List.find (\<lambda>t. task_Status t = TaskCancelled) (rs_tasks st))"

subsection \<open>The report\<close>

definition specContent :: "runState \<Rightarrow> SpecContent" where
  "specContent st =
     (case rs_spec st of
        None \<Rightarrow> \<lparr>sc_Outcome = [], sc_Assumptions = [], sc_Requirements = [], sc_NonGoals = [], sc_SuccessCriteria = [], sc_Blockers = []\<rparr>
      | Some out \<Rightarrow> out_Spec out)"

definition resultFor :: "runState \<Rightarrow> Task \<Rightarrow> taskResult option" where
  "resultFor st t =
     List.find (\<lambda>r. tr_task r < length (rs_tasks st) \<and> task_ID (rs_tasks st ! tr_task r) = task_ID t) (rs_results st)"

definition finishedAtOrNow :: "runState \<Rightarrow> Time" where
  "finishedAtOrNow st = (case run_FinishedAt (rs_run st) of Some t \<Rightarrow> t | None \<Rightarrow> rs_startedAt st)"

definition summarize :: "runState \<Rightarrow> bool \<Rightarrow> string" where
  "summarize st ready =
     (let done = length (filter (\<lambda>t. task_Status t = TaskDone) (rs_tasks st));
          base = itoa done @ ''/'' @ itoa (length (rs_tasks st)) @ '' tasks integrated; ''
            @ itoa (length (rs_evidence st)) @ '' evidence records; '' @ itoa (length (rs_findings st)) @ '' finding(s)''
      in if ready then base @ '': ready for human review'' else base @ '': not ready'')"

definition report_task :: "(string \<Rightarrow> string) \<Rightarrow> runState \<Rightarrow> Task \<Rightarrow> ReportTask" where
  "report_task lower st t =
     \<lparr>rt_ID = task_ID t, rt_Name = task_Name t, rt_Branch = branchForTask lower t,
      rt_CommitSHA = (case resultFor st t of None \<Rightarrow> [] | Some r \<Rightarrow> tr_headSHA r),
      rt_Status = task_Status t, rt_Attempts = task_Attempts t, rt_Failure = task_Failure t\<rparr>"

definition buildReport :: "(string \<Rightarrow> string) \<Rightarrow> runState \<Rightarrow> bool \<Rightarrow> RunReport" where
  "buildReport lower st ready =
     \<lparr>rep_RunID = run_ID (rs_run st), rep_ThreadID = run_ThreadID (rs_run st), rep_SpecID = run_SpecID (rs_run st),
      rep_Spec = specContent st, rep_Tasks = map (report_task lower st) (rs_tasks st),
      rep_Integration = rs_integrated st,
      rep_Verification = \<lparr>rv_Passed = (rs_evidence st \<noteq> [] \<and> list_all ev_Passed (rs_evidence st)), rv_Evidence = rs_evidence st\<rparr>,
      rep_Findings = rs_findings st, rep_Artifacts = rs_artifactRefs st,
      rep_Budget = \<lparr>bs_TasksUsed = led_TasksUsed (rs_ledger st), bs_MaxTasks = bl_MaxTasks (led_Limits (rs_ledger st)),
        bs_ExecOpsUsed = led_ExecOpsUsed (rs_ledger st), bs_MaxExecOps = bl_MaxExecOps (led_Limits (rs_ledger st))\<rparr>,
      rep_ReadyForReview = ready, rep_Summary = summarize st ready,
      rep_StartedAt = rs_startedAt st, rep_FinishedAt = finishedAtOrNow st\<rparr>"

definition countBlockers :: "Finding list \<Rightarrow> nat" where
  "countBlockers findings = length (filter Blocking findings)"

subsection \<open>Artifacts (artifacts.go)\<close>

fun ArtifactKind_name :: "ArtifactKind \<Rightarrow> string" where
  "ArtifactKind_name ArtifactDiff = ''diff''"
| "ArtifactKind_name ArtifactLog = ''log''"
| "ArtifactKind_name ArtifactReport = ''report''"
| "ArtifactKind_name (ArtifactKindOther s) = s"

definition storeArtifact ::
  "PDeps \<Rightarrow> ctx \<Rightarrow> ArtifactKind \<Rightarrow> RetentionClass \<Rightarrow> bytes \<Rightarrow> ReportArtifactRef pipe_op" where
  "storeArtifact d ctx kind retention body =
     seq_op (eng (newID PrefixArtifact)) (\<lambda>idStr.
     seq_op (get_st rs_run) (\<lambda>run.
     seq_op (eng Now) (\<lambda>now.
     seq_op (pure_step (NewArtifact (pd_digest d) idStr (run_TenantID run) (run_ID run) kind retention body now)) (\<lambda>artifact.
     seq_op (eng (on_store (ArtifactRepository_Create artifact))) (\<lambda>_.
     seq_op (emit d ctx (evtFromRun run EventArtifactStored
         [(''artifact_id'', DStr (art_ID artifact)), (''kind'', DStr (ArtifactKind_name kind)), (''digest'', DStr (art_Digest artifact))])) (\<lambda>_.
       return_op \<lparr>ra_ID = art_ID artifact, ra_Kind = art_Kind artifact, ra_Digest = art_Digest artifact\<rparr>))))))"

definition storeDiffArtifact :: "PDeps \<Rightarrow> ctx \<Rightarrow> bytes \<Rightarrow> ReportArtifactRef pipe_op" where
  "storeDiffArtifact d ctx diff =
     seq_op (get_st rs_baseSHA) (\<lambda>base.
     seq_op (get_st rs_integrated) (\<lambda>integrated.
       storeArtifact d ctx ArtifactDiff RetentionEphemeral
         (''diff base='' @ base @ '' head='' @ ri_SHA integrated @ [newline] @ diff)))"

definition itoa_int :: "int \<Rightarrow> string" where
  "itoa_int n = (if n < 0 then ''-'' @ itoa (nat (- n)) else itoa (nat n))"

definition storeLogArtifact :: "PDeps \<Rightarrow> ctx \<Rightarrow> string \<Rightarrow> ExecResult \<Rightarrow> ReportArtifactRef pipe_op" where
  "storeLogArtifact d ctx criterion res =
     storeArtifact d ctx ArtifactLog RetentionEphemeral
       (''command: '' @ criterion @ [newline] @ ''exit_code='' @ itoa_int (er_ExitCode res)
        @ '' duration='' @ pd_duration d (er_Duration res) @ [newline] @ er_Stdout res @ er_Stderr res)"

definition storeReportArtifact :: "PDeps \<Rightarrow> ctx \<Rightarrow> RunReport option \<Rightarrow> ReportArtifactRef pipe_op" where
  "storeReportArtifact d ctx report =
     seq_op (get_st (\<lambda>st. case report of Some r \<Rightarrow> r | None \<Rightarrow> buildReport (pd_lower d) st False)) (\<lambda>r.
       storeArtifact d ctx ArtifactReport RetentionDurable (pd_json d r))"

subsection \<open>Tasks that end early, cancellation\<close>

definition task_update :: "nat \<Rightarrow> Task \<Rightarrow> int \<Rightarrow> unit pipe_op" where
  "task_update i task expected =
     seq_op (eng (on_store (TaskRepository_Update task expected))) (\<lambda>t. upd_st (set_task i t))"

definition markTaskFailed :: "PDeps \<Rightarrow> ctx \<Rightarrow> nat \<Rightarrow> FailureInfo \<Rightarrow> unit pipe_op" where
  "markTaskFailed d ctx i failure =
     seq_op (task_at i) (\<lambda>task.
     let expected = task_Version task; task = task\<lparr>task_Failure := Some failure\<rparr> in
     seq_op (upd_st (set_task i task)) (\<lambda>_.
     seq_op (pure_step (Task_TransitionTo task TaskFailed)) (\<lambda>task.
     seq_op (upd_st (set_task i task)) (\<lambda>_.
     seq_op (task_update i task expected) (\<lambda>_.
     seq_op (task_at i) (\<lambda>task.
       emit d ctx (evtFromTask task EventTaskStatusChanged
         [(''to'', DStr (TaskStatus_name TaskFailed)), (''code'', DStr (fi_Code failure))])))))))"

definition failTaskTerminal :: "PDeps \<Rightarrow> ctx \<Rightarrow> nat \<Rightarrow> string \<Rightarrow> go_error \<Rightarrow> unit pipe_op" where
  "failTaskTerminal d ctx i code cause =
     markTaskFailed d ctx i \<lparr>fi_Code = code, fi_Message = dep_text (pd_base d) cause, fi_Transient = False\<rparr>"

definition cancelTask :: "PDeps \<Rightarrow> ctx \<Rightarrow> nat \<Rightarrow> unit pipe_op" where
  "cancelTask d ctx i =
     seq_op (task_at i) (\<lambda>task.
     case Task_TransitionTo task TaskCancelled of
       Inl e \<Rightarrow> if ErrKindOf e = ErrKindInvalidTransition then return_op () else throw_op e
     | Inr t \<Rightarrow>
         seq_op (upd_st (set_task i t)) (\<lambda>_.
         seq_op (task_update i t (task_Version task)) (\<lambda>_.
         seq_op (task_at i) (\<lambda>t.
           emit d ctx (evtFromTask t EventTaskStatusChanged [(''to'', DStr (TaskStatus_name TaskCancelled))])))))"

fun cancel_tasks :: "PDeps \<Rightarrow> ctx \<Rightarrow> nat list \<Rightarrow> unit pipe_op" where
  "cancel_tasks d ctx [] = return_op ()"
| "cancel_tasks d ctx (i # is) =
     seq_op (task_at i) (\<lambda>t.
     seq_op (if task_Status t = TaskDone \<or> task_Status t = TaskFailed \<or> task_Status t = TaskCancelled then return_op ()
             else ignore (cancelTask d ctx i)) (\<lambda>_.
       cancel_tasks d ctx is))"

definition run_update :: "Run \<Rightarrow> int \<Rightarrow> unit pipe_op" where
  "run_update run expected =
     seq_op (eng (on_store (RunRepository_Update run expected))) (\<lambda>run. upd_st (\<lambda>st. st\<lparr>rs_run := run\<rparr>))"

text \<open>The part of \<^verbatim>\<open>checkCancelled\<close> after it has seen the context cancelled.\<close>

definition settle_cancelled :: "PDeps \<Rightarrow> ctx \<Rightarrow> unit pipe_op" where
  "settle_cancelled d ctx =
     seq_op (get_st rs_run) (\<lambda>run.
     seq_op (eng Now) (\<lambda>now.
     seq_op (case Finish run RunCancelled now None of
               Inl _ \<Rightarrow> return_op ()
             | Inr run' \<Rightarrow>
                 seq_op (upd_st (\<lambda>st. st\<lparr>rs_run := run'\<rparr>)) (\<lambda>_.
                 seq_op (run_update run' (run_Version run)) (\<lambda>_.
                 seq_op (get_st rs_run) (\<lambda>run.
                   ignore (emit d ctx (evtFromRun run EventRunStatusChanged [(''to'', DStr (RunStatus_name RunCancelled))])))))) (\<lambda>_.
     seq_op (get_st (length \<circ> rs_tasks)) (\<lambda>n.
     seq_op (cancel_tasks d ctx [0..<n]) (\<lambda>_.
     seq_op (get_st rs_thread) (\<lambda>thread.
     seq_op (if thread_Status thread = ThreadExecuting \<or> thread_Status thread = ThreadReadyToExecute
             then ignore (thread_transition d ctx ThreadNeedsAttention [(''reason'', DStr ''run_cancelled'')])
             else if thread_Status thread = ThreadPlanning
             then ignore (thread_transition d ctx ThreadAwaitingInput [(''reason'', DStr ''run_cancelled'')])
             else return_op ()) (\<lambda>_.
       throw_op (Error ErrKindCancelled ''run_cancelled'' (Some ContextCanceled)))))))))"

definition checkCancelled :: "PDeps \<Rightarrow> ctx \<Rightarrow> unit pipe_op" where
  "checkCancelled d ctx =
     seq_op (ctx_Err d) (\<lambda>c. if \<not> c then return_op () else settle_cancelled d ctx)"

subsection \<open>Failing the run\<close>

text \<open>The part of \<^verbatim>\<open>failRun\<close> after it has seen the context alive.\<close>

definition fail_now :: "PDeps \<Rightarrow> ctx \<Rightarrow> string \<Rightarrow> go_error \<Rightarrow> unit pipe_op" where
  "fail_now d ctx code cause =
     (let failure = \<lparr>fi_Code = code, fi_Message = dep_text (pd_base d) cause, fi_Transient = False\<rparr> in
     seq_op (get_st rs_run) (\<lambda>run.
     seq_op (eng Now) (\<lambda>now.
     seq_op (pure_step (Finish run RunFailed now (Some failure))) (\<lambda>run'.
     seq_op (upd_st (\<lambda>st. st\<lparr>rs_run := run'\<rparr>)) (\<lambda>_.
     seq_op (get_st (\<lambda>st. buildReport (pd_lower d) st False)) (\<lambda>report.
     let run' = run'\<lparr>run_Report := Some report\<rparr> in
     seq_op (upd_st (\<lambda>st. st\<lparr>rs_run := run'\<rparr>)) (\<lambda>_.
     seq_op (run_update run' (run_Version run)) (\<lambda>_.
     seq_op (get_st rs_run) (\<lambda>run.
     seq_op (emit d ctx (evtFromRun run EventRunStatusChanged
         [(''to'', DStr (RunStatus_name RunFailed)), (''code'', DStr code), (''detail'', DStr (safeDetail (pd_base d) cause))])) (\<lambda>_.
     seq_op (get_st rs_thread) (\<lambda>thread.
     seq_op (if thread_Status thread = ThreadPlanning \<or> thread_Status thread = ThreadExecuting \<or> thread_Status thread = ThreadReviewing
             then or_else (thread_transition d ctx ThreadFailed [(''reason'', DStr code)])
                    (\<lambda>e. if ErrKindOf e = ErrKindInvalidTransition then return_op () else throw_op e)
             else return_op ()) (\<lambda>_.
     seq_op (get_st (run_Report \<circ> rs_run)) (\<lambda>rep.
     seq_op (try_op (storeReportArtifact d ctx rep)) (\<lambda>r.
     seq_op (case r of Inr ref \<Rightarrow> addArtifactRef ref | Inl _ \<Rightarrow> return_op ()) (\<lambda>_.
       throw_op (Error (ErrKindOf cause) (''run_'' @ code) (Some cause)))))))))))))))))"

definition failRun :: "PDeps \<Rightarrow> ctx \<Rightarrow> string \<Rightarrow> go_error \<Rightarrow> unit pipe_op" where
  "failRun d ctx code cause =
     seq_op (ctx_Err d) (\<lambda>c. if c then checkCancelled d ctx else fail_now d ctx code cause)"

definition failRunBudgetExhausted :: "PDeps \<Rightarrow> ctx \<Rightarrow> go_error \<Rightarrow> unit pipe_op" where
  "failRunBudgetExhausted d ctx cause =
     seq_op (add_finding [blocker ''budget'' ''run budget''
         ''the run hit its declared task cap; continuing would spend beyond the approved envelope'']) (\<lambda>_.
       failRun d ctx ''budget_exhausted'' cause)"

definition finishUnsuccessfully :: "PDeps \<Rightarrow> ctx \<Rightarrow> unit pipe_op" where
  "finishUnsuccessfully d ctx =
     seq_op (get_st firstFailedTask) (\<lambda>first.
     let code = (case first of Some t \<Rightarrow> (case task_Failure t of Some f \<Rightarrow> fi_Code f | None \<Rightarrow> ''task_failed'') | None \<Rightarrow> ''task_failed'')
     in failRun d ctx code (Invalidf code))"

definition failThreadAfterCompletion :: "PDeps \<Rightarrow> ctx \<Rightarrow> string \<Rightarrow> go_error \<Rightarrow> unit pipe_op" where
  "failThreadAfterCompletion d ctx code cause =
     seq_op (get_st rs_thread) (\<lambda>thread.
     seq_op (if thread_Status thread = ThreadReviewing
             then thread_transition d ctx ThreadFailed [(''reason'', DStr code)] else return_op ()) (\<lambda>_.
       throw_op (Error ErrKindInvalid (''run_'' @ code) (Some cause))))"

subsection \<open>Policy, workspaces, verification commands (helpers.go)\<close>

definition policy_event :: "Run \<Rightarrow> PolicyDecision \<Rightarrow> (string, dval) gomap \<Rightarrow> Event" where
  "policy_event run decision data =
     new_event EventPolicyEvaluated (run_TenantID run) ''policy_decision'' (pdec_ID decision) 0 (run_ID run) data"

definition authorize :: "PDeps \<Rightarrow> ctx \<Rightarrow> string \<Rightarrow> PolicyAction \<Rightarrow> string \<Rightarrow> unit pipe_op" where
  "authorize d ctx taskID action resource =
     seq_op (get_st rs_run) (\<lambda>run.
     seq_op (eng (Authorize (pd_quote d) (pd_allowLocalCommits d) ctx
         \<lparr>preq_TenantID = run_TenantID run, preq_RunID = run_ID run, preq_TaskID = taskID,
          preq_Principal = systemPrincipalID, preq_Action = action, preq_Resource = resource\<rparr>)) (\<lambda>decision.
       emit d ctx (policy_event run decision
         [(''action'', DStr (PolicyAction_name action)), (''outcome'', DStr (PolicyOutcome_name (pdec_Outcome decision))),
          (''reason'', DStr (pdec_Reason decision))])))"

definition authorizeCreate :: "PDeps \<Rightarrow> ctx \<Rightarrow> unit pipe_op" where
  "authorizeCreate d ctx =
     seq_op (get_st rs_run) (\<lambda>run.
     seq_op (eng (Authorize (pd_quote d) (pd_allowLocalCommits d) ctx
         \<lparr>preq_TenantID = run_TenantID run, preq_RunID = run_ID run, preq_TaskID = [],
          preq_Principal = systemPrincipalID, preq_Action = ActionSandboxCreate, preq_Resource = ''run-workspace''\<rparr>)) (\<lambda>decision.
       emit d ctx (policy_event run decision
         [(''action'', DStr (PolicyAction_name ActionSandboxCreate)), (''outcome'', DStr (PolicyOutcome_name (pdec_Outcome decision)))])))"

definition newWorkspace :: "PDeps \<Rightarrow> ctx \<Rightarrow> workspace pipe_op" where
  "newWorkspace d ctx =
     seq_op (authorizeCreate d ctx) (\<lambda>_.
     seq_op (Sandbox_Create d) (\<lambda>ident.
     seq_op (track ident) (\<lambda>_.
     case pd_root d of
       None \<Rightarrow> return_op \<lparr>wk_id = ident, wk_root = []\<rparr>
     | Some root \<Rightarrow> seq_op (pure_step (root ident)) (\<lambda>r. return_op \<lparr>wk_id = ident, wk_root = r\<rparr>))))"

text \<open>\<^verbatim>\<open>filepath.Clean\<close> of a relative path, on its elements.\<close>

fun clean_elems :: "string list \<Rightarrow> string list \<Rightarrow> string list" where
  "clean_elems out [] = rev out"
| "clean_elems out (e # es) =
     (if e = [] \<or> e = ''.'' then clean_elems out es
      else if e = ''..'' \<and> out \<noteq> [] \<and> hd out \<noteq> ''..'' then clean_elems (tl out) es
      else clean_elems (e # out) es)"

definition clean_rel :: "string \<Rightarrow> string" where
  "clean_rel p = (let es = clean_elems [] (split_on (CHR ''/'') p) in if es = [] then ''.'' else join_with ''/'' es)"

definition containedRelPath :: "string \<Rightarrow> bool" where
  "containedRelPath p =
     (if p = [] \<or> has_prefix ''/'' p \<or> contains_str ''..'' p \<or> contains_str [CHR 0x5C] p then False
      else (let cleaned = clean_rel p in cleaned = ''.'' \<or> (\<not> has_prefix ''../'' cleaned \<and> cleaned \<noteq> ''..'')))"

fun materialize_loop :: "PDeps \<Rightarrow> workspace \<Rightarrow> tree \<Rightarrow> string list \<Rightarrow> unit result" where
  "materialize_loop d ws files [] = Inr ()"
| "materialize_loop d ws files (p # ps) =
     (if \<not> containedRelPath p then Inl (Invalidf ''workspace_path'')
      else if pd_writeFails d (wk_root ws) p (content files p) then Inl (Wrapped Foreign)
      else materialize_loop d ws files ps)"

definition materialize :: "PDeps \<Rightarrow> workspace \<Rightarrow> tree \<Rightarrow> unit pipe_op" where
  "materialize d ws files =
     pure_step (if wk_root ws = [] then Inr () else materialize_loop d ws files (sort (map fst files)))"

definition base_evidence :: "string list \<Rightarrow> string \<Rightarrow> Evidence" where
  "base_evidence cmd criterion =
     \<lparr>ev_Criterion = (if criterion = [] then join_with '' '' cmd else criterion), ev_Command = cmd,
      ev_ExitCode = 0, ev_Passed = False, ev_LogArtifactID = [], ev_At = 0\<rparr>"

definition execVerified :: "PDeps \<Rightarrow> ctx \<Rightarrow> string \<Rightarrow> workspace \<Rightarrow> string list \<Rightarrow> string \<Rightarrow> Evidence pipe_op" where
  "execVerified d ctx taskID ws cmd criterion =
     (let ev = base_evidence cmd criterion in
     seq_op (authorize d ctx taskID ActionSandboxExec (ev_Criterion ev)) (\<lambda>_.
     seq_op chargeExecOp (\<lambda>_.
     seq_op (Sandbox_Exec d (wk_id ws) cmd) (\<lambda>res.
     let ev = ev\<lparr>ev_ExitCode := er_ExitCode res, ev_Passed := (er_ExitCode res = 0)\<rparr> in
     seq_op (try_op (storeLogArtifact d ctx (ev_Criterion ev) res)) (\<lambda>logRef.
     seq_op (case logRef of Inr ref \<Rightarrow> addArtifactRef ref | Inl _ \<Rightarrow> return_op ()) (\<lambda>_.
     let ev = (case logRef of Inr ref \<Rightarrow> ev\<lparr>ev_LogArtifactID := ra_ID ref\<rparr> | Inl _ \<Rightarrow> ev) in
     seq_op (eng Now) (\<lambda>now.
       return_op (ev\<lparr>ev_At := now\<rparr>))))))))"

text \<open>
  The retry loop of a verification command. \<open>left\<close> is how many attempts the configuration still
  allows after this one, so \<^verbatim>\<open>attempt < MaxAttempts\<close> is \<open>left \<noteq> 0\<close>.
\<close>

fun exec_retry :: "PDeps \<Rightarrow> ctx \<Rightarrow> workspace \<Rightarrow> string list \<Rightarrow> string \<Rightarrow> nat \<Rightarrow> nat \<Rightarrow> Evidence pipe_op" where
  "exec_retry d ctx ws cmd criterion n left =
     or_else (execVerified d ctx [] ws cmd criterion) (\<lambda>err.
       if isCancellation err then throw_op err
       else (case (IsRetryable err, left) of
         (True, Suc left) \<Rightarrow>
           seq_op (Sleep d (push_bit (n - 1) (ec_RetryBackoff (pd_cfg d)))) (\<lambda>sleepFailed.
           seq_op (ctx_Err d) (\<lambda>c.
             if sleepFailed \<or> c then throw_op (Error ErrKindCancelled ''run_cancelled'' (if c then Some ContextCanceled else None))
             else exec_retry d ctx ws cmd criterion (n + 1) left))
       | _ \<Rightarrow> if ErrKindOf err \<noteq> ErrKindCancelled then return_op (base_evidence cmd criterion) else throw_op err))"

declare exec_retry.simps [simp del]

definition execWithRetries :: "PDeps \<Rightarrow> ctx \<Rightarrow> workspace \<Rightarrow> string list \<Rightarrow> string \<Rightarrow> Evidence pipe_op" where
  "execWithRetries d ctx ws cmd criterion = exec_retry d ctx ws cmd criterion 1 (nat (ec_MaxAttempts (pd_cfg d) - 1))"

end
