(* ===== verification/Pipeline_Tasks.thy ===== *)
theory Pipeline_Tasks
  imports Run_Pipeline
begin

section \<open>Tasks (execute.go)\<close>

text \<open>
  One attempt of a task, the retry loop around it and the stage that runs every task. The loop is a
  terminating function: each time round it the task has one attempt less, because \<open>BeginAttempt\<close>
  refuses to pass \<open>MaxAttempts\<close> and nothing else touches the counter.
\<close>

definition zero_template :: TaskTemplate where
  "zero_template = \<lparr>tt_Name = [], tt_Branch = [], tt_CommitMessage = [], tt_Writes = [], tt_Files = [], tt_VerifyCommands = []\<rparr>"

fun verify_loop :: "PDeps \<Rightarrow> ctx \<Rightarrow> string \<Rightarrow> workspace \<Rightarrow> string list list \<Rightarrow> unit pipe_op" where
  "verify_loop d ctx taskID ws [] = return_op ()"
| "verify_loop d ctx taskID ws (cmd # cmds) =
     seq_op (execVerified d ctx taskID ws cmd []) (\<lambda>ev.
     seq_op (upd_res (\<lambda>r. r\<lparr>tr_evidence := tr_evidence r @ [ev]\<rparr>)) (\<lambda>_.
       if \<not> ev_Passed ev then throw_op (Invalidf ''task_verification_failed'')
       else verify_loop d ctx taskID ws cmds))"

text \<open>The work of an attempt once its branch exists.\<close>

definition attempt_work :: "PDeps \<Rightarrow> ctx \<Rightarrow> nat \<Rightarrow> TaskTemplate \<Rightarrow> workspace \<Rightarrow> Handle \<Rightarrow> string \<Rightarrow> string \<Rightarrow> unit pipe_op" where
  "attempt_work d ctx i tmpl sbx rp branch taskID =
     seq_op (authorize d ctx taskID ActionSCMLocalCommit branch) (\<lambda>_.
     seq_op (task_transition d ctx i TaskWorking) (\<lambda>_.
     seq_op (scm (CommitFiles (pd_hash d) rp branch (tt_CommitMessage tmpl)
         (map (\<lambda>(path, body). (path, Some body)) (tt_Files tmpl)))) (\<lambda>commit.
     seq_op (upd_res (\<lambda>r. r\<lparr>tr_headSHA := cr_SHA commit\<rparr>)) (\<lambda>_.
     seq_op (task_at i) (\<lambda>task.
     seq_op (emit d ctx (evtFromTask task EventWorkspaceCommitted
         [(''branch'', DStr branch), (''sha'', DStr (cr_SHA commit))])) (\<lambda>_.
     seq_op (task_transition d ctx i TaskVerifying) (\<lambda>_.
     seq_op (scm_read (Files rp branch)) (\<lambda>treeFiles.
     seq_op (materialize d sbx treeFiles) (\<lambda>_.
       verify_loop d ctx taskID sbx (tt_VerifyCommands tmpl))))))))))"

definition attemptTask :: "PDeps \<Rightarrow> ctx \<Rightarrow> nat \<Rightarrow> TaskTemplate \<Rightarrow> unit pipe_op" where
  "attemptTask d ctx i tmpl =
     seq_op (or_else (newWorkspace d ctx) (\<lambda>e. throw_op (Wrapped e))) (\<lambda>sbx.
     seq_op (task_transition d ctx i TaskProvisioning) (\<lambda>_.
     seq_op (task_at i) (\<lambda>task.
     seq_op (get_st id) (\<lambda>st.
     let branch = branchForTask (pd_lower d) task in
     seq_op (scm (CreateBranch (rs_repo st) branch (project_DefaultBranch (rs_project st)))) (\<lambda>_.
       attempt_work d ctx i tmpl sbx (rs_repo st) branch (task_ID task))))))"

text \<open>
  One turn of the loop of \<^verbatim>\<open>executeTask\<close>; the result says whether there is another. \<open>task_outcome\<close> is
  the part from the attempt on, \<open>cancelled\<close> the return through \<^verbatim>\<open>cancelTask\<close>.
\<close>

definition cancelled :: "PDeps \<Rightarrow> ctx \<Rightarrow> nat \<Rightarrow> bool pipe_op" where
  "cancelled d ctx i = seq_op (cancelTask d ctx i) (\<lambda>_. return_op False)"

definition task_outcome :: "PDeps \<Rightarrow> ctx \<Rightarrow> nat \<Rightarrow> TaskTemplate \<Rightarrow> bool pipe_op" where
  "task_outcome d ctx i tmpl =
     seq_op (try_op (attemptTask d ctx i tmpl)) (\<lambda>outcome.
     case outcome of
       Inr _ \<Rightarrow> return_op False
     | Inl err \<Rightarrow>
         if isCancellation err then cancelled d ctx i
         else if IsRetryable err then
           seq_op (markTaskFailed d ctx i
             \<lparr>fi_Code = ''transient_failure'', fi_Message = dep_text (pd_base d) err, fi_Transient = True\<rparr>) (\<lambda>_.
           seq_op (task_transition d ctx i TaskQueued) (\<lambda>_.
           seq_op (task_at i) (\<lambda>task.
           seq_op (Sleep d (push_bit (nat (task_Attempts task - 1)) (ec_RetryBackoff (pd_cfg d)))) (\<lambda>sleepFailed.
             if sleepFailed then cancelled d ctx i
             else seq_op (ctx_Err d) (\<lambda>c. if c then cancelled d ctx i else return_op True)))))
         else seq_op (failTaskTerminal d ctx i (classifyFailure err) err) (\<lambda>_. return_op False))"

definition task_turn :: "PDeps \<Rightarrow> ctx \<Rightarrow> nat \<Rightarrow> TaskTemplate \<Rightarrow> bool pipe_op" where
  "task_turn d ctx i tmpl =
     seq_op (ctx_Err d) (\<lambda>c.
     if c then cancelled d ctx i
     else
     seq_op (task_at i) (\<lambda>task.
     case BeginAttempt task of
       Inl err \<Rightarrow> seq_op (failTaskTerminal d ctx i ''attempts_exhausted'' err) (\<lambda>_. return_op False)
     | Inr task \<Rightarrow>
         seq_op (upd_st (set_task i task)) (\<lambda>_.
         seq_op (task_update i task (task_Version task)) (\<lambda>_.
           task_outcome d ctx i tmpl))))"

subsection \<open>Attempts are only counted by the loop\<close>

text \<open>
  The relation that every step of an execution keeps between the state before and after it: no task
  appears or disappears, and every task keeps its identity, its name and its attempt budget.
\<close>

definition task_key :: "Task \<Rightarrow> string \<times> string \<times> string \<times> int" where
  "task_key t = (task_ID t, task_TenantID t, task_Name t, task_MaxAttempts t)"

definition tasks_kept :: "pipe \<Rightarrow> pipe \<Rightarrow> bool" where
  "tasks_kept p p' \<longleftrightarrow>
     map (\<lambda>t. (task_key t, task_Attempts t)) (rs_tasks (pp_st p')) = map (\<lambda>t. (task_key t, task_Attempts t)) (rs_tasks (pp_st p))"

lemma transp_tasks_kept: "transp tasks_kept"
  by (auto simp: transp_def tasks_kept_def)

named_theorems kept \<open>steps that keep the tasks\<close>

lemma kept_seq [kept]: "op_rel tasks_kept m \<Longrightarrow> (\<And>x. op_rel tasks_kept (f x)) \<Longrightarrow> op_rel tasks_kept (seq_op m f)"
  by (rule op_rel_seq [OF transp_tasks_kept])

lemma kept_simple [kept]:
  "op_rel tasks_kept (eng g)" "op_rel tasks_kept (scm s)" "op_rel tasks_kept (scm_read sr)" "op_rel tasks_kept (get_st h)"
  "op_rel tasks_kept (pure_step r)" "op_rel tasks_kept (return_op x)" "op_rel tasks_kept (throw_op e)"
  "op_rel tasks_kept (task_at i)" "op_rel tasks_kept (upd_res u)" "op_rel tasks_kept (ctx_Err d)"
  "op_rel tasks_kept (Sandbox_Create d)" "op_rel tasks_kept (Sandbox_Exec d b c)" "op_rel tasks_kept (Sleep d n)"
  by (auto simp: op_rel_def tasks_kept_def eng_def scm_def scm_read_def get_st_def pure_step_def return_op_def throw_op_def
      task_at_def upd_res_def ctx_Err_def Sandbox_Create_def Sandbox_Exec_def Sleep_def Let_def split: prod.splits)

lemma kept_try [kept]: "op_rel tasks_kept f \<Longrightarrow> op_rel tasks_kept (try_op f)"
  by (simp add: op_rel_def try_op_def split_beta)

lemma kept_or_else [kept]: "op_rel tasks_kept f \<Longrightarrow> (\<And>e. op_rel tasks_kept (h e)) \<Longrightarrow> op_rel tasks_kept (or_else f h)"
  unfolding or_else_def by (auto split: sum.splits intro!: kept)

lemma kept_ignore [kept]: "op_rel tasks_kept f \<Longrightarrow> op_rel tasks_kept (ignore f)"
  unfolding ignore_def by (intro kept)

lemma kept_upd: "(\<And>st. rs_tasks (f st) = rs_tasks st) \<Longrightarrow> op_rel tasks_kept (upd_st f)"
  by (simp add: op_rel_def upd_st_def tasks_kept_def)

lemma kept_helpers [kept]:
  "op_rel tasks_kept (track ident)" "op_rel tasks_kept (addArtifactRef ref)" "op_rel tasks_kept (add_finding fs)"
  "op_rel tasks_kept reserveTaskBudget" "op_rel tasks_kept chargeExecOp"
  "op_rel tasks_kept (run_transition d ctx nxt)" "op_rel tasks_kept (thread_transition d ctx tnxt extra)"
  "op_rel tasks_kept (emit d ctx evt)"
  unfolding track_def addArtifactRef_def add_finding_def reserveTaskBudget_def chargeExecOp_def run_transition_def
    thread_transition_def emit_def
  by (auto intro!: kept kept_upd split: sum.splits)

text \<open>Steps that write back the task they read.\<close>

definition holds_task :: "nat \<Rightarrow> Task \<Rightarrow> pipe \<Rightarrow> bool" where
  "holds_task i t p \<longleftrightarrow> i < length (rs_tasks (pp_st p))
     \<and> task_key (rs_tasks (pp_st p) ! i) = task_key t \<and> task_Attempts (rs_tasks (pp_st p) ! i) = task_Attempts t"

definition kept_from :: "nat \<Rightarrow> Task \<Rightarrow> 'a pipe_op \<Rightarrow> bool" where
  "kept_from i t f \<longleftrightarrow> (\<forall>p. holds_task i t p \<longrightarrow> tasks_kept p (fst (f p)))"

lemma holds_task_kept: "holds_task i t p \<Longrightarrow> tasks_kept p p' \<Longrightarrow> holds_task i t p'"
  unfolding holds_task_def tasks_kept_def by (metis (no_types, lifting) length_map nth_map prod.inject)

lemma kept_task_at: "(\<And>t. kept_from i t (f t)) \<Longrightarrow> op_rel tasks_kept (seq_op (task_at i) f)"
  by (auto simp: op_rel_def seq_op_def task_at_def kept_from_def holds_task_def tasks_kept_def)

lemma kept_from_op: "op_rel tasks_kept f \<Longrightarrow> kept_from i t f"
  by (simp add: op_rel_def kept_from_def)

lemma kept_from_seq:
  assumes "kept_from i t m" and "\<And>p p' x. m p = (p', Inr x) \<Longrightarrow> kept_from i t (f x)"
  shows "kept_from i t (seq_op m f)"
  unfolding kept_from_def
proof (intro allI impI)
  fix p assume h: "holds_task i t p"
  obtain p' r where m: "m p = (p', r)" by fastforce
  have k: "tasks_kept p p'" using assms(1) h m unfolding kept_from_def by (metis fst_conv)
  show "tasks_kept p (fst (seq_op m f p))"
  proof (cases r)
    case (Inl e)
    then show ?thesis using k m by (simp add: seq_op_def)
  next
    case (Inr x)
    then have "tasks_kept p' (fst (f x p'))"
      using assms(2) [of p p' x] m holds_task_kept [OF h k] by (simp add: kept_from_def)
    then show ?thesis using transpD [OF transp_tasks_kept k] m Inr by (simp add: seq_op_def)
  qed
qed

lemma kept_set_task:
  "task_key t' = task_key t \<Longrightarrow> task_Attempts t' = task_Attempts t \<Longrightarrow> kept_from i t (upd_st (set_task i t'))"
  by (auto simp: kept_from_def upd_st_def set_task_def tasks_kept_def holds_task_def map_update list_update_same_conv)

lemma Task_TransitionTo_key:
  "Task_TransitionTo t nxt = Inr t' \<Longrightarrow> task_key t' = task_key t \<and> task_Attempts t' = task_Attempts t"
  by (auto simp: Task_TransitionTo_def task_key_def split: if_splits)

lemma TaskRepository_Update_key:
  "on_store (TaskRepository_Update t v) w = (w', Inr t') \<Longrightarrow> task_key t' = task_key t \<and> task_Attempts t' = task_Attempts t"
  by (auto simp: on_store_def TaskRepository_Update_def guarded_update_ok task_key_def split: prod.splits)

lemma transitionTask_key:
  assumes "transitionTask deps ctx t nxt w = (w', Inr t')"
  shows "task_key t' = task_key t \<and> task_Attempts t' = task_Attempts t"
proof -
  have inner: "task_key t' = task_key t \<and> task_Attempts t' = task_Attempts t"
    if "(let expected = task_Version t in
     seq_op (pure_op (Task_TransitionTo t nxt)) (\<lambda>task.
     seq_op (on_store (TaskRepository_Update task expected)) (\<lambda>task.
     seq_op (emitEvent deps c (evtFromTask task EventTaskStatusChanged
         [(''to'', DStr (TaskStatus_name nxt)), (''attempts'', DInt (task_Attempts task))])) (\<lambda>_.
       return_op task)))) w0 = (w1, Inr t')" for c w0 w1
    using that unfolding Let_def
    by (elim seq_op_Inr) (auto simp: pure_op_def return_op_def dest!: Task_TransitionTo_key TaskRepository_Update_key)
  show ?thesis
  proof (cases "ctx_inUnit ctx")
    case True
    then show ?thesis using assms inner by (simp add: transitionTask_def Do_nested)
  next
    case False
    then show ?thesis using assms inner
      by (auto simp: transitionTask_def Do_def simp del: seq_op_return split: prod.splits sum.splits)
  qed
qed

lemma eng_Inr: "eng f p = (p', Inr x) \<Longrightarrow> \<exists>w. f (pp_world p) = (w, Inr x)"
  by (auto simp: eng_def split: prod.splits)

lemma kept_task_transition [kept]: "op_rel tasks_kept (task_transition d ctx i nxt)"
  unfolding task_transition_def
proof (intro kept_task_at kept_from_seq kept_from_op [of "eng _"] kept)
  fix t
  show "kept_from i t (upd_st (\<lambda>st. case Task_TransitionTo t nxt of Inl _ \<Rightarrow> st | Inr t \<Rightarrow> set_task i t st))"
    using Task_TransitionTo_key [of t nxt] kept_set_task kept_from_op [OF kept_upd, of "\<lambda>st. st"]
    by (cases "Task_TransitionTo t nxt") simp_all
next
  fix t p p' t'
  assume "eng (transitionTask (pd_base d) ctx t nxt) p = (p', Inr t')"
  then show "kept_from i t (upd_st (set_task i t'))"
    by (auto dest!: eng_Inr transitionTask_key intro: kept_set_task)
qed

lemma kept_task_update: 
  assumes "task_key t' = task_key t" and "task_Attempts t' = task_Attempts t"
  shows "kept_from i t (task_update i t' v)"
  unfolding task_update_def
proof (intro kept_from_seq kept_from_op [of "eng _"] kept)
  fix p p' x assume "eng (on_store (TaskRepository_Update t' v)) p = (p', Inr x)"
  then show "kept_from i t (upd_st (set_task i x))"
    using assms by (auto dest!: eng_Inr TaskRepository_Update_key intro: kept_set_task)
qed

lemma kept_markTaskFailed [kept]: "op_rel tasks_kept (markTaskFailed d ctx i failure)"
  unfolding markTaskFailed_def Let_def
proof (rule kept_task_at)
  fix t :: Task
  let ?t = "t\<lparr>task_Failure := Some failure\<rparr>"
  have k: "task_key ?t = task_key t" "task_Attempts ?t = task_Attempts t" by (simp_all add: task_key_def)
  show "kept_from i t (seq_op (upd_st (set_task i ?t)) (\<lambda>_.
     seq_op (pure_step (Task_TransitionTo ?t TaskFailed)) (\<lambda>task.
     seq_op (upd_st (set_task i task)) (\<lambda>_.
     seq_op (task_update i task (task_Version t)) (\<lambda>_.
     seq_op (task_at i) (\<lambda>task.
       emit d ctx (evtFromTask task EventTaskStatusChanged
         [(''to'', DStr (TaskStatus_name TaskFailed)), (''code'', DStr (fi_Code failure))])))))))"
    by (intro kept_from_seq kept_set_task k kept_task_update)
      (auto simp: pure_step_def task_key_def intro!: kept_from_op kept dest!: Task_TransitionTo_key)
qed

lemma kept_cancelTask [kept]: "op_rel tasks_kept (cancelTask d ctx i)"
  unfolding cancelTask_def
proof (rule kept_task_at)
  fix t
  show "kept_from i t (case Task_TransitionTo t TaskCancelled of
       Inl e \<Rightarrow> if ErrKindOf e = ErrKindInvalidTransition then return_op () else throw_op e
     | Inr t' \<Rightarrow> seq_op (upd_st (set_task i t')) (\<lambda>_. seq_op (task_update i t' (task_Version t)) (\<lambda>_.
         seq_op (task_at i) (\<lambda>t. emit d ctx (evtFromTask t EventTaskStatusChanged [(''to'', DStr (TaskStatus_name TaskCancelled))])))))"
    using Task_TransitionTo_key [of t TaskCancelled]
    by (cases "Task_TransitionTo t TaskCancelled")
      (simp_all add: kept_from_op kept kept_from_seq kept_set_task kept_task_update)
qed

lemma kept_steps [kept]:
  "op_rel tasks_kept (storeArtifact d ctx kind retention body)" "op_rel tasks_kept (storeLogArtifact d ctx criterion res)"
  "op_rel tasks_kept (storeDiffArtifact d ctx diff)" "op_rel tasks_kept (storeReportArtifact d ctx rep)"
  "op_rel tasks_kept (authorize d ctx taskID action resource)" "op_rel tasks_kept (authorizeCreate d ctx)"
  "op_rel tasks_kept (materialize d ws files)" "op_rel tasks_kept (failTaskTerminal d ctx i code cause)"
  unfolding storeArtifact_def storeLogArtifact_def storeDiffArtifact_def storeReportArtifact_def authorize_def authorizeCreate_def
    materialize_def failTaskTerminal_def
  by (intro kept)+

lemma kept_newWorkspace [kept]: "op_rel tasks_kept (newWorkspace d ctx)"
  unfolding newWorkspace_def by (auto intro!: kept split: option.splits)

lemma kept_execVerified [kept]: "op_rel tasks_kept (execVerified d ctx taskID ws cmd criterion)"
  unfolding execVerified_def Let_def by (auto intro!: kept split: sum.splits)

lemma kept_verify_loop [kept]: "op_rel tasks_kept (verify_loop d ctx taskID ws cmds)"
  by (induction cmds) (auto intro!: kept)

lemma kept_attemptTask [kept]: "op_rel tasks_kept (attemptTask d ctx i tmpl)"
  unfolding attemptTask_def attempt_work_def Let_def by (intro kept)

lemma kept_task_outcome [kept]: "op_rel tasks_kept (task_outcome d ctx i tmpl)"
  unfolding task_outcome_def cancelled_def by (auto intro!: kept split: sum.splits)

lemma task_turn_again:
  assumes "task_turn d ctx i tmpl p = (p', Inr True)"
  shows "i < length (rs_tasks (pp_st p)) \<and> task_Attempts (rs_tasks (pp_st p) ! i) < task_MaxAttempts (rs_tasks (pp_st p) ! i)
    \<and> i < length (rs_tasks (pp_st p')) \<and> task_Attempts (rs_tasks (pp_st p') ! i) = task_Attempts (rs_tasks (pp_st p) ! i) + 1
    \<and> task_MaxAttempts (rs_tasks (pp_st p') ! i) = task_MaxAttempts (rs_tasks (pp_st p) ! i)"
proof -
  obtain c p0 where 0: "ctx_Err d p = (p0, Inr c)" and body: "(if c then cancelled d ctx i else
     seq_op (task_at i) (\<lambda>task. case BeginAttempt task of
       Inl err \<Rightarrow> seq_op (failTaskTerminal d ctx i ''attempts_exhausted'' err) (\<lambda>_. return_op False)
     | Inr task \<Rightarrow> seq_op (upd_st (set_task i task)) (\<lambda>_. seq_op (task_update i task (task_Version task)) (\<lambda>_. task_outcome d ctx i tmpl)))) p0
     = (p', Inr True)"
    using assms unfolding task_turn_def by (rule seq_op_Inr)
  have st0: "pp_st p0 = pp_st p" using 0 by (auto simp: ctx_Err_def Let_def)
  have "\<not> c" using body by (auto simp: cancelled_def return_op_def elim!: seq_op_Inr split: if_splits)
  with body obtain t where t: "i < length (rs_tasks (pp_st p))" "t = rs_tasks (pp_st p) ! i"
    and begin_t: "(case BeginAttempt t of
       Inl err \<Rightarrow> seq_op (failTaskTerminal d ctx i ''attempts_exhausted'' err) (\<lambda>_. return_op False)
     | Inr task \<Rightarrow> seq_op (upd_st (set_task i task)) (\<lambda>_. seq_op (task_update i task (task_Version task)) (\<lambda>_. task_outcome d ctx i tmpl))) p0
     = (p', Inr True)"
    by (auto simp: task_at_def st0 elim!: seq_op_Inr split: if_splits)
  obtain t' where t': "BeginAttempt t = Inr t'"
    using begin_t by (cases "BeginAttempt t") (auto simp: return_op_def elim!: seq_op_Inr)
  let ?p1 = "p0\<lparr>pp_st := set_task i t' (pp_st p0)\<rparr>"
  have run: "seq_op (task_update i t' (task_Version t')) (\<lambda>_. task_outcome d ctx i tmpl) ?p1 = (p', Inr True)"
    using begin_t t' by (simp add: seq_op_def [of "upd_st _"] upd_st_def)
  have "holds_task i t' ?p1" using t(1) by (simp add: holds_task_def set_task_def st0)
  moreover have "kept_from i t' (seq_op (task_update i t' (task_Version t')) (\<lambda>_. task_outcome d ctx i tmpl))"
    by (intro kept_from_seq kept_task_update kept_from_op kept refl)
  ultimately have "holds_task i t' p'"
    using run holds_task_kept unfolding kept_from_def by (metis fst_conv)
  then show ?thesis using t t' by (auto simp: holds_task_def BeginAttempt_def task_key_def split: if_splits)
qed

definition attempts_left :: "nat \<Rightarrow> pipe \<Rightarrow> nat" where
  "attempts_left i p = (if i < length (rs_tasks (pp_st p))
     then nat (task_MaxAttempts (rs_tasks (pp_st p) ! i) - task_Attempts (rs_tasks (pp_st p) ! i)) else 0)"

function task_loop :: "PDeps \<Rightarrow> ctx \<Rightarrow> nat \<Rightarrow> TaskTemplate \<Rightarrow> unit pipe_op" where
  "task_loop d ctx i tmpl p =
     (case task_turn d ctx i tmpl p of
        (p', Inl e) \<Rightarrow> (p', Inl e)
      | (p', Inr again) \<Rightarrow> if again then task_loop d ctx i tmpl p' else (p', Inr ()))"
  by pat_completeness auto

termination task_loop
proof (relation "measure (\<lambda>(d, ctx, i, tmpl, p). attempts_left i p)", simp)
  fix d ctx i tmpl p x1 x2 again
  assume "(x1, x2) = task_turn d ctx i tmpl p" "x2 = Inr again" again
  then show "((d, ctx, i, tmpl, x1), d, ctx, i, tmpl, p) \<in> measure (\<lambda>(d, ctx, i, tmpl, p). attempts_left i p)"
    using task_turn_again [of d ctx i tmpl p x1] by (simp add: attempts_left_def)
qed

declare task_loop.simps [simp del]

definition executeTask :: "PDeps \<Rightarrow> ctx \<Rightarrow> nat \<Rightarrow> TaskTemplate \<Rightarrow> unit pipe_op" where
  "executeTask d ctx i tmpl =
     seq_op (task_transition d ctx i TaskQueued) (\<lambda>_. task_loop d ctx i tmpl)"

end
