(* ===== verification/Pipeline_Stages.thy ===== *)
theory Pipeline_Stages
  imports Pipeline_Tasks
begin

section \<open>The stages of an execution (execute.go, integrate.go)\<close>

text \<open>The five stages between a pending run and its report, and \<open>Execute\<close>, which strings them together.\<close>

subsection \<open>Planning\<close>

fun last_user :: "string \<Rightarrow> Message list \<Rightarrow> string" where
  "last_user request [] = request"
| "last_user request (m # ms) = last_user (if message_Role m = RoleUser then message_Content m else request) ms"

definition lastUserRequest :: "string \<Rightarrow> string \<Rightarrow> string pipe_op" where
  "lastUserRequest tenantID threadID =
     seq_op (eng (from_store (ThreadRepository_Messages tenantID threadID 0 0))) (\<lambda>(messages, _).
     let request = last_user [] messages in
       if request = [] then throw_op (Invalidf ''thread_without_request'') else return_op request)"

fun create_tasks :: "PDeps \<Rightarrow> ctx \<Rightarrow> TaskTemplate list \<Rightarrow> unit pipe_op" where
  "create_tasks d ctx [] = return_op ()"
| "create_tasks d ctx (tmpl # tmpls) =
     seq_op (or_else reserveTaskBudget (failRunBudgetExhausted d ctx)) (\<lambda>_.
     seq_op (eng (newID PrefixTask)) (\<lambda>taskID.
     seq_op (get_st rs_run) (\<lambda>run.
     seq_op (eng Now) (\<lambda>now.
     case NewTask taskID (run_TenantID run) (run_ID run) (run_ThreadID run) (tt_Name tmpl) TaskKindCodeChange 0 []
            (ec_MaxAttempts (pd_cfg d)) now of
       Inl err \<Rightarrow> failRun d ctx ''task_invalid'' err
     | Inr task \<Rightarrow>
         seq_op (or_else (eng (on_store (TaskRepository_Create task))) (failRun d ctx ''task_persist'')) (\<lambda>_.
         seq_op (upd_st (\<lambda>st. st\<lparr>rs_taskTemplates := insert_map (task_ID task) tmpl (rs_taskTemplates st),
                                 rs_tasks := rs_tasks st @ [task]\<rparr>)) (\<lambda>_.
         seq_op (emit d ctx (evtFromTask task EventTaskCreated [(''name'', DStr (tt_Name tmpl))])) (\<lambda>_.
           create_tasks d ctx tmpls)))))))"

definition stagePlanning :: "PDeps \<Rightarrow> ctx \<Rightarrow> unit pipe_op" where
  "stagePlanning d ctx =
     seq_op (get_st id) (\<lambda>st.
     seq_op (try_op (lastUserRequest (thread_TenantID (rs_thread st)) (thread_ID (rs_thread st)))) (\<lambda>r.
     case r of Inl err \<Rightarrow> failRun d ctx ''no_request'' err | Inr request \<Rightarrow>
     case pd_plan d \<lparr>pi_TenantID = run_TenantID (rs_run st), pi_ThreadID = run_ThreadID (rs_run st),
                     pi_Request = request, pi_RepoFiles = seed_Files (rs_seed st)\<rparr> of
       Inl err \<Rightarrow> failRun d ctx ''plan_failed'' err
     | Inr planned \<Rightarrow>
     seq_op (upd_st (\<lambda>st. st\<lparr>rs_spec := Some planned\<rparr>)) (\<lambda>_.
     seq_op (eng (newID PrefixSpec)) (\<lambda>specID.
     seq_op (eng Now) (\<lambda>now.
     case NewSpec specID (run_TenantID (rs_run st)) (run_ThreadID (rs_run st)) 1 (out_Spec planned) now of
       Inl err \<Rightarrow> failRun d ctx ''spec_invalid'' err
     | Inr spec \<Rightarrow>
     if sc_SuccessCriteria (out_Spec planned) = [] \<or> sc_Blockers (out_Spec planned) \<noteq> []
     then failRun d ctx ''spec_not_executable'' (Invalidf ''spec_gate'')
     else case Spec_Approve spec of
       Inl err \<Rightarrow> failRun d ctx ''spec_gate'' err
     | Inr spec \<Rightarrow>
     seq_op (or_else (eng (on_store (SpecRepository_Create spec))) (failRun d ctx ''spec_persist'')) (\<lambda>_.
     seq_op (upd_st (\<lambda>st. st\<lparr>rs_run := (rs_run st)\<lparr>run_SpecID := spec_ID spec\<rparr>\<rparr>)) (\<lambda>_.
     seq_op (get_st rs_run) (\<lambda>run.
     seq_op (emit d ctx (evtFromRun run EventSpecRecorded [(''spec_id'', DStr (spec_ID spec)), (''version'', DInt (spec_Version spec))])) (\<lambda>_.
     seq_op (create_tasks d ctx (out_Tasks planned)) (\<lambda>_.
       thread_transition d ctx ThreadReadyToExecute []))))))))))"

subsection \<open>Running the tasks\<close>

fun run_tasks :: "PDeps \<Rightarrow> ctx \<Rightarrow> nat list \<Rightarrow> (nat, taskResult) gomap \<Rightarrow> (nat, taskResult) gomap pipe_op" where
  "run_tasks d ctx [] results = return_op results"
| "run_tasks d ctx (i # is) results =
     seq_op (upd_res (\<lambda>_. \<lparr>tr_task = i, tr_headSHA = [], tr_evidence = []\<rparr>)) (\<lambda>_.
     seq_op (task_at i) (\<lambda>t.
     seq_op (get_st rs_taskTemplates) (\<lambda>tmpls.
     seq_op (ignore (executeTask d ctx i (case lookup tmpls (task_ID t) of Some tmpl \<Rightarrow> tmpl | None \<Rightarrow> zero_template))) (\<lambda>_.
     seq_op (\<lambda>p. (p, Inr (pp_res p))) (\<lambda>res.
       run_tasks d ctx is (insert_map i res results))))))"

definition indexIn :: "Task list \<Rightarrow> string \<Rightarrow> nat" where
  "indexIn tasks ident = length (takeWhile (\<lambda>t. task_ID t \<noteq> ident) tasks)"

definition collect_results :: "(nat, taskResult) gomap \<Rightarrow> runState \<Rightarrow> runState" where
  "collect_results results st =
     (let rs = List.map_filter (lookup results) [0..<length (rs_tasks st)];
          all = rs_results st @ rs;
          key = (\<lambda>r. indexIn (rs_tasks st) (if tr_task r < length (rs_tasks st) then task_ID (rs_tasks st ! tr_task r) else []))
      in st\<lparr>rs_results := sort_key key all, rs_evidence := rs_evidence st @ concat (map tr_evidence rs)\<rparr>)"

definition settled_task :: "Task \<Rightarrow> bool" where
  "settled_task t \<longleftrightarrow> task_Status t = TaskVerifying \<or> task_Status t = TaskDone \<or> task_Status t = TaskFailed \<or> task_Status t = TaskCancelled"

definition stageTasks :: "PDeps \<Rightarrow> ctx \<Rightarrow> unit pipe_op" where
  "stageTasks d ctx =
     seq_op (get_st (length \<circ> rs_tasks)) (\<lambda>n.
     seq_op (run_tasks d ctx (pd_order d n) []) (\<lambda>results.
     seq_op (upd_st (collect_results results)) (\<lambda>_.
     seq_op (get_st rs_tasks) (\<lambda>tasks.
       if list_ex (\<lambda>t. \<not> settled_task t) tasks then throw_op Foreign else return_op ()))))"

subsection \<open>Integration\<close>

fun transition_tasks :: "PDeps \<Rightarrow> ctx \<Rightarrow> TaskStatus \<Rightarrow> nat list \<Rightarrow> unit pipe_op" where
  "transition_tasks d ctx nxt [] = return_op ()"
| "transition_tasks d ctx nxt (i # is) =
     seq_op (task_transition d ctx i nxt) (\<lambda>_. transition_tasks d ctx nxt is)"

fun merge_tasks :: "PDeps \<Rightarrow> ctx \<Rightarrow> Handle \<Rightarrow> string \<Rightarrow> string list \<Rightarrow> Task list \<Rightarrow> string list pipe_op" where
  "merge_tasks d ctx rp branch conflicts [] = return_op conflicts"
| "merge_tasks d ctx rp branch conflicts (t # ts) =
     seq_op (scm (Merge (pd_hash d) rp branch (branchForTask (pd_lower d) t)
         (''integrate '' @ task_Name t @ '' ('' @ task_ID t @ '')''))) (\<lambda>res.
       merge_tasks d ctx rp branch (conflicts @ mg_Conflicts res) ts)"

text \<open>The integration once its branch exists.\<close>

definition integrate_work :: "PDeps \<Rightarrow> ctx \<Rightarrow> nat \<Rightarrow> runState \<Rightarrow> string \<Rightarrow> unit pipe_op" where
  "integrate_work d ctx n st branch =
     seq_op (try_op (merge_tasks d ctx (rs_repo st) branch [] (sortedTasksByName d (rs_tasks st)))) (\<lambda>r.
     case r of Inl err \<Rightarrow> failRun d ctx ''integration_failed'' err
     | Inr conflicts \<Rightarrow>
     if conflicts \<noteq> [] then
       seq_op (add_finding [blocker ''integration-conflict'' (join_with '','' conflicts)
           ''tasks modified the same files differently; composing them would require a product decision no agent made'']) (\<lambda>_.
         failRun d ctx ''integration_conflict'' (Conflictf ''integration_conflicts''))
     else
     seq_op (try_op (scm_read (Head (rs_repo st) branch))) (\<lambda>r.
     case r of Inl err \<Rightarrow> failRun d ctx ''integration_head'' err
     | Inr head \<Rightarrow>
     seq_op (upd_st (\<lambda>st. st\<lparr>rs_integrated := \<lparr>ri_Branch = branch, ri_SHA = head, ri_Conflicts = []\<rparr>\<rparr>)) (\<lambda>_.
     seq_op (try_op (scm_read (Diff (rs_repo st) (rs_baseSHA st) head))) (\<lambda>r.
     case r of Inl err \<Rightarrow> failRun d ctx ''integration_diff'' err
     | Inr diff \<Rightarrow>
     seq_op (storeDiffArtifact d ctx diff) (\<lambda>ref.
     seq_op (addArtifactRef ref) (\<lambda>_.
       transition_tasks d ctx TaskDone [0..<n]))))))"

definition stageIntegrate :: "PDeps \<Rightarrow> ctx \<Rightarrow> unit pipe_op" where
  "stageIntegrate d ctx =
     seq_op (get_st (length \<circ> rs_tasks)) (\<lambda>n.
     seq_op (transition_tasks d ctx TaskIntegrating [0..<n]) (\<lambda>_.
     seq_op (get_st id) (\<lambda>st.
     let branch = integrationBranchName (pd_lower d) (run_ID (rs_run st)) in
     seq_op (or_else (scm (CreateBranch (rs_repo st) branch (project_DefaultBranch (rs_project st)))) (failRun d ctx ''integration_branch'')) (\<lambda>_.
       integrate_work d ctx n st branch))))"

subsection \<open>Integrated verification\<close>

fun verify_integrated ::
  "PDeps \<Rightarrow> ctx \<Rightarrow> workspace \<Rightarrow> string list option \<Rightarrow> string list \<Rightarrow> string list list \<Rightarrow> string list pipe_op" where
  "verify_integrated d ctx ws criteria failed [] = return_op failed"
| "verify_integrated d ctx ws criteria failed (cmd # cmds) =
     (let criterion = (case criteria of Some (c # _) \<Rightarrow> c | _ \<Rightarrow> join_with '' '' cmd) in
     seq_op (execWithRetries d ctx ws cmd criterion) (\<lambda>ev.
     seq_op (upd_st (\<lambda>st. st\<lparr>rs_evidence := rs_evidence st @ [ev]\<rparr>)) (\<lambda>_.
       verify_integrated d ctx ws (map_option tl criteria)
         (if \<not> ev_Passed ev then failed @ [criterion] else failed) cmds)))"

definition stageVerifyIntegrated :: "PDeps \<Rightarrow> ctx \<Rightarrow> unit pipe_op" where
  "stageVerifyIntegrated d ctx =
     seq_op (try_op (newWorkspace d ctx)) (\<lambda>r.
     case r of Inl err \<Rightarrow> failRun d ctx ''provision_verification_workspace'' err | Inr sbx \<Rightarrow>
     seq_op (get_st id) (\<lambda>st.
     seq_op (try_op (scm_read (Files (rs_repo st) (ri_Branch (rs_integrated st))))) (\<lambda>r.
     case r of Inl err \<Rightarrow> failRun d ctx ''read_integration_tree'' err | Inr treeFiles \<Rightarrow>
     seq_op (or_else (materialize d sbx treeFiles) (failRun d ctx ''materialize_integration_tree'')) (\<lambda>_.
     case rs_spec st of None \<Rightarrow> throw_op Panic | Some out \<Rightarrow>
     let criteria = sc_SuccessCriteria (out_Spec out); cmds = out_IntegratedVerification out;
         aligned = (length criteria = length cmds) in
     seq_op (try_op (verify_integrated d ctx sbx (if aligned then Some criteria else None) [] cmds)) (\<lambda>r.
     case r of Inl err \<Rightarrow> failRun d ctx ''verification_execution'' err
     | Inr failed \<Rightarrow>
       if failed \<noteq> [] then failRun d ctx ''verification_failed'' (Invalidf ''verification_failed'')
       else return_op ())))))"

subsection \<open>Review and report\<close>

text \<open>The stage once the reviewer has given its verdict.\<close>

definition complete_run :: "PDeps \<Rightarrow> ctx \<Rightarrow> Verdict \<Rightarrow> unit pipe_op" where
  "complete_run d ctx verdict =
     seq_op (add_finding (vd_Findings verdict)) (\<lambda>_.
     seq_op (get_st (\<lambda>st. buildReport (pd_lower d) st (vd_Passed verdict))) (\<lambda>report.
     seq_op (storeReportArtifact d ctx (Some report)) (\<lambda>reportRef.
     seq_op (addArtifactRef reportRef) (\<lambda>_.
     seq_op (get_st (run_Version \<circ> rs_run)) (\<lambda>expected.
     seq_op (upd_st (\<lambda>st. st\<lparr>rs_run := (rs_run st)\<lparr>run_Report := Some (buildReport (pd_lower d) st (vd_Passed verdict))\<rparr>\<rparr>)) (\<lambda>_.
     seq_op (get_st rs_run) (\<lambda>run.
     seq_op (eng Now) (\<lambda>now.
     seq_op (pure_step (Finish run RunCompleted now None)) (\<lambda>run.
     seq_op (upd_st (\<lambda>st. st\<lparr>rs_run := run\<rparr>)) (\<lambda>_.
     seq_op (run_update run expected) (\<lambda>_.
     seq_op (get_st rs_run) (\<lambda>run.
     seq_op (emit d ctx (evtFromRun run EventRunStatusChanged
         [(''to'', DStr (RunStatus_name RunCompleted)), (''ready_for_review'', DBool (vd_Passed verdict))])) (\<lambda>_.
       if vd_Passed verdict then thread_transition d ctx ThreadReadyForReview []
       else failThreadAfterCompletion d ctx ''review_blocked'' (Invalidf ''review_blocked''))))))))))))))"

definition stageReviewAndReport :: "PDeps \<Rightarrow> ctx \<Rightarrow> unit pipe_op" where
  "stageReviewAndReport d ctx =
     seq_op (thread_transition d ctx ThreadReviewing []) (\<lambda>_.
     seq_op (get_st id) (\<lambda>st.
     seq_op (try_op (scm_read (Diff (rs_repo st) (rs_baseSHA st) (ri_SHA (rs_integrated st))))) (\<lambda>r.
     case r of Inl err \<Rightarrow> failRun d ctx ''review_diff'' err | Inr diff \<Rightarrow>
     case rs_spec st of None \<Rightarrow> throw_op Panic | Some out \<Rightarrow>
     case pd_review d \<lparr>rin_Spec = out_Spec out, rin_Diff = diff, rin_Evidence = rs_evidence st\<rparr> of
       Inl err \<Rightarrow> failRun d ctx ''reviewer_error'' err
     | Inr verdict \<Rightarrow> complete_run d ctx verdict)))"

subsection \<open>Execute\<close>

definition zero_integration :: ReportIntegration where
  "zero_integration = \<lparr>ri_Branch = [], ri_SHA = [], ri_Conflicts = []\<rparr>"

definition new_runState :: "PDeps \<Rightarrow> string \<Rightarrow> string \<Rightarrow> Run \<Rightarrow> Thread \<Rightarrow> Project \<Rightarrow> Seed \<Rightarrow> Time \<Rightarrow> runState" where
  "new_runState d tenantID runID run thread project seed now =
     \<lparr>rs_run = run, rs_thread = thread, rs_project = project, rs_seed = seed,
      rs_repo = \<lparr>h_Driver = [], h_SandboxID = [], h_Root = [], h_DefaultBranch = []\<rparr>, rs_baseSHA = [],
      rs_ledger = NewLedger \<lparr>budget_ID = [], budget_TenantID = tenantID, budget_RunID = runID, budget_Scope = BudgetScopeRun,
        budget_Limits = \<lparr>bl_MaxTasks = ec_MaxTasksPerRun (pd_cfg d), bl_MaxExecOps = ec_MaxExecOpsPerRun (pd_cfg d),
          bl_MaxWallDuration = 0, bl_Unlimited = False\<rparr>, budget_CreatedAt = 0\<rparr>,
      rs_startedAt = now, rs_spec = None, rs_tasks = [], rs_taskTemplates = [], rs_results = [], rs_evidence = [],
      rs_artifactRefs = [], rs_findings = [], rs_integrated = zero_integration, rs_sandboxes = []\<rparr>"

text \<open>The part of \<^verbatim>\<open>Execute\<close> before the state exists: reading the run and its context.\<close>

definition load_run :: "PDeps \<Rightarrow> string \<Rightarrow> string \<Rightarrow> runState eng_op" where
  "load_run d tenantID runID =
     seq_op (from_store (RunRepository_Get tenantID runID)) (\<lambda>run.
     if run_Status run \<noteq> RunPending then throw_op (Conflictf ''run_not_pending'')
     else
     seq_op (from_store (ThreadRepository_Get tenantID (run_ThreadID run))) (\<lambda>thread.
     seq_op (from_store (ProjectRepository_Get tenantID (thread_ProjectID thread))) (\<lambda>project.
     seq_op (pure_op (pd_seed d (project_SeedName project))) (\<lambda>seed.
     seq_op Now (\<lambda>now.
       return_op (new_runState d tenantID runID run thread project seed now))))))"

text \<open>Opening the run's repository: the run enters planning first, so every failure has a legal end.\<close>

definition init_repository :: "PDeps \<Rightarrow> ctx \<Rightarrow> workspace \<Rightarrow> unit pipe_op" where
  "init_repository d ctx sbx =
     seq_op (get_st id) (\<lambda>st.
     let repo = \<lparr>h_Driver = ''memory'', h_SandboxID = wk_id sbx, h_Root = wk_root sbx,
                 h_DefaultBranch = project_DefaultBranch (rs_project st)\<rparr> in
     seq_op (upd_st (\<lambda>st. st\<lparr>rs_repo := repo\<rparr>)) (\<lambda>_.
     seq_op (or_else (scm (Init (pd_hash d) repo (rs_seed st))) (failRun d ctx ''init_repository'')) (\<lambda>_.
     seq_op (try_op (scm_read (Head repo (project_DefaultBranch (rs_project st))))) (\<lambda>r.
     case r of Inl err \<Rightarrow> failRun d ctx ''read_base_head'' err
     | Inr baseSHA \<Rightarrow> upd_st (\<lambda>st. st\<lparr>rs_baseSHA := baseSHA\<rparr>)))))"

definition open_repository :: "PDeps \<Rightarrow> ctx \<Rightarrow> unit pipe_op" where
  "open_repository d ctx =
     seq_op (run_transition d ctx RunPlanning) (\<lambda>_.
     seq_op (try_op (newWorkspace d ctx)) (\<lambda>r.
     case r of Inl err \<Rightarrow> failRun d ctx ''provision_run_workspace'' err | Inr sbx \<Rightarrow> init_repository d ctx sbx))"

definition stages :: "PDeps \<Rightarrow> ctx \<Rightarrow> unit pipe_op" where
  "stages d ctx =
     seq_op (stagePlanning d ctx) (\<lambda>_.
     seq_op (checkCancelled d ctx) (\<lambda>_.
     seq_op (thread_transition d ctx ThreadExecuting []) (\<lambda>_.
     seq_op (run_transition d ctx RunExecuting) (\<lambda>_.
     seq_op (or_else (stageTasks d ctx) (failRun d ctx ''task_infrastructure'')) (\<lambda>_.
     seq_op (checkCancelled d ctx) (\<lambda>_.
     seq_op (get_st anyTaskFailed) (\<lambda>failed.
     if failed then finishUnsuccessfully d ctx
     else
     seq_op (run_transition d ctx RunIntegrating) (\<lambda>_.
     seq_op (stageIntegrate d ctx) (\<lambda>_.
     seq_op (checkCancelled d ctx) (\<lambda>_.
     seq_op (run_transition d ctx RunVerifying) (\<lambda>_.
     seq_op (stageVerifyIntegrated d ctx) (\<lambda>_.
     seq_op (checkCancelled d ctx) (\<lambda>_.
     seq_op (run_transition d ctx RunReporting) (\<lambda>_.
       stageReviewAndReport d ctx))))))))))))))"

definition drive :: "PDeps \<Rightarrow> ctx \<Rightarrow> unit pipe_op" where
  "drive d ctx = seq_op (open_repository d ctx) (\<lambda>_. stages d ctx)"

definition start_pipe :: "world \<Rightarrow> Memory \<Rightarrow> runState \<Rightarrow> pipe" where
  "start_pipe w m st =
     \<lparr>pp_world = w, pp_scm = m, pp_st = st, pp_res = \<lparr>tr_task = 0, tr_headSHA = [], tr_evidence = []\<rparr>,
      pp_creates = 0, pp_execs = [], pp_slept = [], pp_looks = 0, pp_done = False\<rparr>"

text \<open>
  \<open>registered\<close> is the set of runs executing in this process; the run is taken out of it again when
  the execution returns. The result carries the final state when the run could be loaded.
\<close>

definition Execute :: "PDeps \<Rightarrow> ctx \<Rightarrow> string set \<Rightarrow> string \<Rightarrow> string \<Rightarrow> world \<Rightarrow> Memory \<Rightarrow> world \<times> Memory \<times> pipe option \<times> unit result" where
  "Execute d ctx registered tenantID runID w m =
     (case registerCancel registered runID of
        Inl e \<Rightarrow> (w, m, None, Inl e)
      | Inr _ \<Rightarrow>
        (case load_run d tenantID runID w of
           (w, Inl e) \<Rightarrow> (w, m, None, Inl e)
         | (w, Inr st) \<Rightarrow>
             (case drive d ctx (start_pipe w m st) of
                (p, r) \<Rightarrow> (pp_world p, pp_scm p, Some p, r))))"

end
