(* ===== verification/Pipeline_Laws.thy ===== *)
theory Pipeline_Laws
  imports Pipeline_Stages SCM_Laws Review_Laws
begin

section \<open>Laws of the run pipeline\<close>

text \<open>
  Two relations are carried through every step of an execution, whatever its outcome: branches that
  exist are never moved (\<open>branches_kept\<close>), and the commands started stay within the budget
  (\<open>budget_kept\<close>). Both are instances of one contract, the locale \<open>step_relation\<close>: a relation that is
  transitive and that the basic steps respect is respected by everything built from them.
\<close>

subsection \<open>Failing never succeeds\<close>

definition never_ok :: "'a pipe_op \<Rightarrow> bool" where
  "never_ok f \<longleftrightarrow> (\<forall>p. isl (snd (f p)))"

lemma never_ok_seq: "(\<And>x. never_ok (f x)) \<Longrightarrow> never_ok (seq_op m f)"
  by (auto simp: never_ok_def seq_op_def split: prod.splits sum.splits)

lemma never_ok_throw: "never_ok (throw_op e)"
  by (simp add: never_ok_def throw_op_def)

lemma never_ok_cancelled: "never_ok (settle_cancelled d ctx)"
  unfolding settle_cancelled_def by (intro never_ok_seq never_ok_throw)

text \<open>A run that is being failed is never reported as a success: not even when it turns out to be cancelled.\<close>

lemma never_ok_failRun: "never_ok (failRun d ctx code cause)"
  unfolding never_ok_def
proof
  fix p
  obtain p1 c where look: "ctx_Err d p = (p1, Inr c)" "pp_done p1 = c" by (auto simp: ctx_Err_def Let_def)
  show "isl (snd (failRun d ctx code cause p))"
  proof (cases c)
    case True
    then have "failRun d ctx code cause p = checkCancelled d ctx p1" using look(1) by (simp add: failRun_def)
    also have "\<dots> = settle_cancelled d ctx (fst (ctx_Err d p1))"
      using True look(2) by (simp add: checkCancelled_def seq_op_def [of "ctx_Err d"] ctx_Err_def Let_def)
    finally show ?thesis using never_ok_cancelled by (simp add: never_ok_def)
  next
    case False
    then have "failRun d ctx code cause p = fail_now d ctx code cause p1" using look(1) by (simp add: failRun_def)
    moreover have "never_ok (fail_now d ctx code cause)"
      unfolding fail_now_def Let_def by (intro never_ok_seq never_ok_throw)
    ultimately show ?thesis by (simp add: never_ok_def)
  qed
qed

lemma failRun_error: "failRun d ctx code cause p \<noteq> (p', Inr x)"
  using never_ok_failRun by (auto simp: never_ok_def) (metis isl_def snd_conv sum.disc(2))

subsection \<open>Relations kept by every step\<close>

text \<open>
  The part of the engine's state that a relation may read: the budget ledger, the repository and
  its base commit, and the project. Every other field is free to change.
\<close>

definition fixed_fields :: "runState \<Rightarrow> BudgetLedger \<times> Handle \<times> Project \<times> string" where
  "fixed_fields st = (rs_ledger st, rs_repo st, rs_project st, rs_baseSHA st)"

locale step_relation =
  fixes R :: "pipe \<Rightarrow> pipe \<Rightarrow> bool"
  assumes tr: "transp R"
    and world_free: "R p (p\<lparr>pp_world := w\<rparr>)"
    and res_free: "R p (p\<lparr>pp_res := r\<rparr>)"
    and looks_free: "R p (p\<lparr>pp_looks := n, pp_done := b\<rparr>)"
    and creates_free: "R p (p\<lparr>pp_creates := n\<rparr>)"
    and slept_free: "R p (p\<lparr>pp_slept := ds\<rparr>)"
    and state_free: "fixed_fields st = fixed_fields (pp_st p) \<Longrightarrow> R p (p\<lparr>pp_st := st\<rparr>)"
begin

lemma seq_kept: "op_rel R m \<Longrightarrow> (\<And>x. op_rel R (f x)) \<Longrightarrow> op_rel R (seq_op m f)"
  by (rule op_rel_seq [OF tr])

lemma refl_kept: "R p p"
  using world_free [of p "pp_world p"] by simp

lemma basic_kept:
  "op_rel R (eng g)" "op_rel R (scm_read sr)" "op_rel R (get_st h)" "op_rel R (pure_step r)" "op_rel R (return_op x)"
  "op_rel R (throw_op e)" "op_rel R (task_at i)" "op_rel R (upd_res u)" "op_rel R (ctx_Err d)"
  "op_rel R (Sandbox_Create d)" "op_rel R (Sleep d n)" "op_rel R (\<lambda>p. (p, y p))"
  by (auto simp: op_rel_def eng_def scm_read_def get_st_def pure_step_def return_op_def throw_op_def task_at_def upd_res_def
      ctx_Err_def Sandbox_Create_def Sleep_def Let_def refl_kept world_free res_free looks_free creates_free slept_free split: prod.splits)

lemma upd_kept: "(\<And>st. fixed_fields (f st) = fixed_fields st) \<Longrightarrow> op_rel R (upd_st f)"
  by (simp add: op_rel_def upd_st_def state_free)

lemma try_kept: "op_rel R f \<Longrightarrow> op_rel R (try_op f)"
  by (simp add: op_rel_def try_op_def split_beta)

lemma or_else_kept: "op_rel R f \<Longrightarrow> (\<And>e. op_rel R (h e)) \<Longrightarrow> op_rel R (or_else f h)"
  unfolding or_else_def by (auto split: sum.splits intro!: seq_kept try_kept basic_kept)

lemma ignore_kept: "op_rel R f \<Longrightarrow> op_rel R (ignore f)"
  unfolding ignore_def by (intro seq_kept try_kept basic_kept)

lemmas combine = seq_kept try_kept or_else_kept ignore_kept basic_kept

lemma entity_kept:
  "op_rel R (track ident)" "op_rel R (addArtifactRef ref)" "op_rel R (add_finding fs)" "op_rel R (run_transition d ctx nxt)"
  "op_rel R (thread_transition d ctx tnxt extra)" "op_rel R (task_transition d ctx i knxt)" "op_rel R (emit d ctx evt)"
  "op_rel R (upd_st (set_task i t))" "op_rel R (task_update i t v)" "op_rel R (run_update run v)"
  unfolding track_def addArtifactRef_def add_finding_def run_transition_def thread_transition_def task_transition_def emit_def
    task_update_def run_update_def
  by (intro combine upd_kept; simp add: fixed_fields_def set_task_def split: sum.splits)+

lemma task_end_kept:
  "op_rel R (markTaskFailed d ctx i failure)" "op_rel R (failTaskTerminal d ctx i code cause)" "op_rel R (cancelTask d ctx i)"
proof -
  show 1: "op_rel R (markTaskFailed d ctx i failure)" for failure
    unfolding markTaskFailed_def Let_def by (intro combine entity_kept)
  show "op_rel R (failTaskTerminal d ctx i code cause)" unfolding failTaskTerminal_def by (rule 1)
  show "op_rel R (cancelTask d ctx i)"
    unfolding cancelTask_def by (auto split: sum.splits intro!: combine entity_kept)
qed

lemma artifact_kept:
  "op_rel R (storeArtifact d ctx kind retention body)" "op_rel R (storeLogArtifact d ctx criterion res)"
  "op_rel R (storeDiffArtifact d ctx diff)" "op_rel R (storeReportArtifact d ctx rep)"
  unfolding storeArtifact_def storeLogArtifact_def storeDiffArtifact_def storeReportArtifact_def
  by (intro combine entity_kept)+

lemma policy_kept: "op_rel R (authorize d ctx taskID action resource)" "op_rel R (authorizeCreate d ctx)" "op_rel R (materialize d ws files)"
  unfolding authorize_def authorizeCreate_def materialize_def by (intro combine entity_kept)+

lemma newWorkspace_kept: "op_rel R (newWorkspace d ctx)"
  unfolding newWorkspace_def by (auto split: option.splits intro!: combine entity_kept policy_kept)

lemma cancel_tasks_kept: "op_rel R (cancel_tasks d ctx is)"
  by (induction "is") (auto intro!: combine task_end_kept)

lemma cancel_kept: "op_rel R (settle_cancelled d ctx)" "op_rel R (checkCancelled d ctx)"
proof -
  show 1: "op_rel R (settle_cancelled d ctx)"
    unfolding settle_cancelled_def
    by (auto simp: fixed_fields_def split: sum.splits intro!: combine entity_kept cancel_tasks_kept upd_kept)
  then show "op_rel R (checkCancelled d ctx)" unfolding checkCancelled_def by (auto intro!: combine)
qed

lemma failRun_kept: "op_rel R (failRun d ctx code cause)"
  unfolding failRun_def fail_now_def Let_def
  by (auto simp: fixed_fields_def split: sum.splits intro!: combine entity_kept cancel_kept artifact_kept upd_kept)

lemma fail_kept:
  "op_rel R (failRunBudgetExhausted d ctx cause)" "op_rel R (finishUnsuccessfully d ctx)"
  "op_rel R (failThreadAfterCompletion d ctx code cause)"
  unfolding failRunBudgetExhausted_def finishUnsuccessfully_def failThreadAfterCompletion_def Let_def
  by (auto intro!: combine entity_kept failRun_kept)

lemmas steps = combine entity_kept task_end_kept artifact_kept policy_kept newWorkspace_kept cancel_kept failRun_kept fail_kept

end

text \<open>A relation that also allows charging the budget and then starting the command.\<close>

locale exec_relation = step_relation +
  assumes charge_exec: "op_rel R (seq_op chargeExecOp (\<lambda>_. Sandbox_Exec d sbx cmd))"
begin

lemma seq_assoc: "seq_op (seq_op m f) g = seq_op m (\<lambda>x. seq_op (f x) g)"
  by (auto simp: seq_op_def fun_eq_iff split: prod.splits sum.splits)

lemma execVerified_kept: "op_rel R (execVerified d ctx taskID ws cmd criterion)"
  unfolding execVerified_def Let_def seq_assoc [symmetric, of chargeExecOp]
  by (auto split: sum.splits intro!: steps charge_exec)

lemma verify_loop_kept: "op_rel R (verify_loop d ctx taskID ws cmds)"
  by (induction cmds) (auto intro!: steps execVerified_kept)

lemma exec_retry_kept: "op_rel R (exec_retry d ctx ws cmd criterion n left)"
proof (induction left arbitrary: n)
  case 0
  show ?case by (subst exec_retry.simps) (auto split: bool.splits intro!: steps execVerified_kept)
next
  case (Suc left)
  show ?case by (subst exec_retry.simps) (auto split: bool.splits intro!: steps execVerified_kept Suc.IH)
qed

lemma verify_integrated_kept: "op_rel R (verify_integrated d ctx ws criteria failed cmds)"
  by (induction cmds arbitrary: criteria failed)
    (auto simp: fixed_fields_def Let_def execWithRetries_def intro!: steps upd_kept exec_retry_kept)

end

text \<open>
  The whole pipeline. \<open>E k b\<close> is the relation inside the part that owns the branch \<open>b\<close> of the
  repository \<open>k\<close>: creating a branch is what gives the right to commit to it.
\<close>

locale pipe_relation = exec_relation R for R +
  fixes E :: "string \<Rightarrow> string \<Rightarrow> pipe \<Rightarrow> pipe \<Rightarrow> bool"
  assumes inner: "exec_relation (E k b)"
    and private_branch: "(\<And>x. op_rel (E (repoKey h) b) (f x)) \<Longrightarrow> op_rel R (seq_op (scm (CreateBranch h b src)) (f :: unit \<Rightarrow> unit pipe_op))"
    and commit: "op_rel (E (repoKey h) b) (scm (CommitFiles sha h b msg files))"
    and merge: "op_rel (E (repoKey h) b) (scm (Merge sha h b source msg))"
    and init: "op_rel R (scm (Init sha h seed))"
    and reserve: "op_rel R reserveTaskBudget"
begin

lemmas inner_steps =
  step_relation.steps [OF exec_relation.axioms(1) [OF inner]]
  step_relation.upd_kept [OF exec_relation.axioms(1) [OF inner]]
  exec_relation.verify_loop_kept [OF inner]

lemma attemptTask_kept: "op_rel R (attemptTask d ctx i tmpl)"
proof -
  have "op_rel (E (repoKey h) b) (attempt_work d ctx i tmpl sbx h b taskID)" for h b sbx taskID
    unfolding attempt_work_def by (intro inner_steps commit)
  then have own: "op_rel R (seq_op (scm (CreateBranch h b src)) (\<lambda>_. attempt_work d ctx i tmpl sbx h b taskID))" for h b src sbx taskID
    by (rule private_branch)
  show ?thesis
    unfolding attemptTask_def Let_def by ((rule own | rule steps)+)
qed

lemma task_turn_kept: "op_rel R (task_turn d ctx i tmpl)"
  unfolding task_turn_def task_outcome_def cancelled_def
  by (auto split: sum.splits intro!: steps attemptTask_kept)

lemma task_loop_kept: "op_rel R (task_loop d ctx i tmpl)"
proof
  fix p show "R p (fst (task_loop d ctx i tmpl p))"
  proof (induction d ctx i tmpl p rule: task_loop.induct)
    case (1 d ctx i tmpl p)
    have turn: "R p (fst (task_turn d ctx i tmpl p))" by (rule op_relD [OF task_turn_kept])
    show ?case
    proof (cases "task_turn d ctx i tmpl p")
      case (Pair p' r)
      show ?thesis
      proof (cases "r = Inr True")
        case True
        then have "R p' (fst (task_loop d ctx i tmpl p'))" using 1 Pair by simp
        then show ?thesis using turn Pair True transpD [OF tr] by (subst task_loop.simps) auto
      next
        case False
        then show ?thesis using turn Pair by (subst task_loop.simps) (auto split: sum.splits)
      qed
    qed
  qed
qed

lemma run_tasks_kept: "op_rel R (run_tasks d ctx is results)"
  by (induction "is" arbitrary: results) (auto simp: executeTask_def intro!: steps task_loop_kept)

lemma stageTasks_kept: "op_rel R (stageTasks d ctx)"
  unfolding stageTasks_def
  by (auto simp: fixed_fields_def collect_results_def Let_def intro!: steps run_tasks_kept upd_kept)

lemma create_tasks_kept: "op_rel R (create_tasks d ctx tmpls)"
  by (induction tmpls) (auto simp: fixed_fields_def split: sum.splits intro!: steps reserve upd_kept)

lemma stagePlanning_kept: "op_rel R (stagePlanning d ctx)"
  unfolding stagePlanning_def lastUserRequest_def Let_def
  by (auto simp: fixed_fields_def split: sum.splits prod.splits intro!: steps create_tasks_kept upd_kept)

lemma own_or_fail:
  fixes g :: "unit \<Rightarrow> unit pipe_op"
  assumes "\<And>x. op_rel (E (repoKey h) b) (g x)"
  shows "op_rel R (seq_op (or_else (scm (CreateBranch h b src)) (failRun d ctx code)) g)"
proof
  fix p
  let ?C = "scm (CreateBranch h b src)"
  obtain p1 r where c: "?C p = (p1, r)" by fastforce
  show "R p (fst (seq_op (or_else ?C (failRun d ctx code)) g p))"
  proof (cases r)
    case (Inr x)
    then have "seq_op (or_else ?C (failRun d ctx code)) g p = seq_op ?C g p"
      using c by (simp add: or_else_def try_op_def seq_op_def return_op_def)
    then show ?thesis using op_relD [OF private_branch [OF assms], of p src] by simp
  next
    case (Inl e)
    obtain p2 e' where f: "failRun d ctx code e p1 = (p2, Inl e')"
      using failRun_error [of d ctx code e p1] by (cases "failRun d ctx code e p1") (metis sum.exhaust)
    have "R p p1" using op_relD [OF private_branch [OF assms], of p src] c Inl by (simp add: seq_op_def)
    moreover have "R p1 p2" using op_relD [OF failRun_kept, of p1 d ctx code e] f by simp
    ultimately show ?thesis
      using c Inl f transpD [OF tr] by (simp add: or_else_def try_op_def seq_op_def)
  qed
qed

lemma transition_tasks_kept: "op_rel R (transition_tasks d ctx nxt is)"
  by (induction "is") (auto intro!: steps)

lemma inner_transition_tasks: "op_rel (E k b) (transition_tasks d ctx nxt is)"
  by (induction "is") (auto intro!: inner_steps)

lemma merge_tasks_kept: "op_rel (E (repoKey h) b) (merge_tasks d ctx h b conflicts ts)"
  by (induction ts arbitrary: conflicts) (auto intro!: inner_steps merge)

lemma stageIntegrate_kept: "op_rel R (stageIntegrate d ctx)"
proof -
  have "op_rel (E (repoKey (rs_repo st)) b) (integrate_work d ctx n st b)" for n st b
    unfolding integrate_work_def
    by (auto simp: fixed_fields_def split: sum.splits intro!: inner_steps merge_tasks_kept inner_transition_tasks)
  then have own: "op_rel R (seq_op (or_else (scm (CreateBranch (rs_repo st) b src)) (failRun d ctx code)) (\<lambda>_. integrate_work d ctx n st b))"
    for n st b src code by (rule own_or_fail)
  show ?thesis
    unfolding stageIntegrate_def Let_def by ((rule own | rule transition_tasks_kept | rule steps)+)
qed

lemma stageVerifyIntegrated_kept: "op_rel R (stageVerifyIntegrated d ctx)"
  unfolding stageVerifyIntegrated_def Let_def
  by (auto split: sum.splits option.splits intro!: steps verify_integrated_kept)

lemma stageReviewAndReport_kept: "op_rel R (stageReviewAndReport d ctx)"
  unfolding stageReviewAndReport_def complete_run_def
  by (auto simp: fixed_fields_def split: sum.splits option.splits intro!: steps upd_kept)

lemma stages_kept: "op_rel R (stages d ctx)"
  unfolding stages_def
  by (auto intro!: steps stagePlanning_kept stageTasks_kept stageIntegrate_kept stageVerifyIntegrated_kept stageReviewAndReport_kept)

end

text \<open>A relation that does not read the repository handle is respected from the very start.\<close>

locale open_relation = pipe_relation +
  assumes repo_free: "op_rel R (upd_st (\<lambda>st. st\<lparr>rs_repo := h\<rparr>))"
    and base_free: "op_rel R (upd_st (\<lambda>st. st\<lparr>rs_baseSHA := x\<rparr>))"
begin

lemma open_repository_kept: "op_rel R (open_repository d ctx)"
  unfolding open_repository_def init_repository_def Let_def
  by (auto split: sum.splits intro!: steps init repo_free base_free)

lemma drive_kept: "op_rel R (drive d ctx)"
  unfolding drive_def by (intro steps open_repository_kept stages_kept)

end

subsection \<open>Branches\<close>

definition branch_at :: "Memory \<Rightarrow> string \<Rightarrow> string \<Rightarrow> string option" where
  "branch_at m k br = (case lookup (mem_repos m) k of None \<Rightarrow> None | Some r \<Rightarrow> lookup (rp_branches r) br)"

definition branches_except :: "(string \<times> string) set \<Rightarrow> Memory \<Rightarrow> Memory \<Rightarrow> bool" where
  "branches_except own m m' \<longleftrightarrow> (\<forall>k br x. (k, br) \<notin> own \<longrightarrow> branch_at m k br = Some x \<longrightarrow> branch_at m' k br = Some x)"

lemma branches_except_refl [simp]: "branches_except own m m"
  by (simp add: branches_except_def)

lemma transp_branches: "transp (\<lambda>p p'. branches_except own (pp_scm p) (pp_scm p'))"
  by (simp add: transp_def branches_except_def)

lemma branch_at_put:
  "branch_at (put_repo h r m) k br = (if k = repoKey h then lookup (rp_branches r) br else branch_at m k br)"
  by (simp add: branch_at_def put_repo_def)

lemma branch_at_seq [simp]: "branch_at (m\<lparr>mem_seq := n\<rparr>) k br = branch_at m k br"
  by (simp add: branch_at_def)

lemma branch_at_found: "lookup (mem_repos m) (repoKey h) = Some r \<Longrightarrow> branch_at m (repoKey h) br = lookup (rp_branches r) br"
  by (simp add: branch_at_def)

lemma newCommit_branches: "newCommit sha msg ps f m = (m', c) \<Longrightarrow> branch_at m' k br = branch_at m k br"
  by (auto simp: newCommit_def Let_def)

lemma record_commit_branches [simp]:
  "lookup (rp_branches (record_commit b c r)) br = (if br = b then Some (mc_sha c) else lookup (rp_branches r) br)"
  by (simp add: record_commit_def)

lemma branches_record:
  assumes "lookup (mem_repos m) (repoKey h) = Some r" and "newCommit sha msg ps f m = (m', c)"
  shows "branches_except {(repoKey h, b)} m (put_repo h (record_commit b c r) m')"
  using assms by (auto simp: branches_except_def branch_at_put branch_at_found newCommit_branches)

lemma CommitFiles_branches: "branches_except {(repoKey h, b)} m (fst (CommitFiles sha h b msg files m))"
  by (auto simp: CommitFiles_def repo_def branches_record split: option.splits sum.splits prod.splits)

lemma Merge_branches: "branches_except {(repoKey h, b)} m (fst (Merge sha h b source msg m))"
  by (auto simp: Merge_def repo_def branches_record split: option.splits prod.splits)

lemma Init_branches: "branches_except {} m (fst (Init sha h seed m))"
proof (cases "lookup (mem_repos m) (repoKey h)")
  case None
  then have "branch_at m (repoKey h) br = None" for br by (simp add: branch_at_def)
  then show ?thesis
    by (auto simp: Init_def Let_def branches_except_def branch_at_put newCommit_branches split: prod.splits)
qed (simp add: Init_def)

lemma CreateBranch_branches:
  assumes "CreateBranch h b src m = (m', r)"
  shows "branches_except {} m m'" and "r = Inr () \<Longrightarrow> branch_at m (repoKey h) b = None \<and> branch_at m' (repoKey h) b \<noteq> None"
  using assms
  by (auto simp: CreateBranch_def repo_def branches_except_def branch_at_put branch_at_found split: option.splits if_splits)

lemma private_branch_kept:
  assumes "\<And>x. op_rel (\<lambda>p p'. branches_except {(repoKey h, b)} (pp_scm p) (pp_scm p')) (f x)"
  shows "op_rel (\<lambda>p p'. branches_except {} (pp_scm p) (pp_scm p')) (seq_op (scm (CreateBranch h b src)) f)"
proof
  fix p :: pipe
  obtain m' r where c: "CreateBranch h b src (pp_scm p) = (m', r)" by fastforce
  note B = CreateBranch_branches [OF c]
  show "branches_except {} (pp_scm p) (pp_scm (fst (seq_op (scm (CreateBranch h b src)) f p)))"
  proof (cases r)
    case (Inl e)
    then show ?thesis using B(1) c by (simp add: seq_op_def scm_def)
  next
    case (Inr u)
    have "branches_except {(repoKey h, b)} m' (pp_scm (fst (f u (p\<lparr>pp_scm := m'\<rparr>))))"
      using op_relD [OF assms, of "p\<lparr>pp_scm := m'\<rparr>" u] by simp
    then have "branches_except {} (pp_scm p) (pp_scm (fst (f u (p\<lparr>pp_scm := m'\<rparr>))))"
      using B(1) B(2) [unfolded Inr] unfolding branches_except_def by simp (metis option.distinct(1))
    then show ?thesis using c Inr by (simp add: seq_op_def scm_def)
  qed
qed

lemma charge_exec_fields:
  "pp_scm (fst (seq_op chargeExecOp (\<lambda>_. Sandbox_Exec d sbx cmd) p)) = pp_scm p"
  "rs_repo (pp_st (fst (seq_op chargeExecOp (\<lambda>_. Sandbox_Exec d sbx cmd) p))) = rs_repo (pp_st p)"
  "rs_project (pp_st (fst (seq_op chargeExecOp (\<lambda>_. Sandbox_Exec d sbx cmd) p))) = rs_project (pp_st p)"
  "rs_baseSHA (pp_st (fst (seq_op chargeExecOp (\<lambda>_. Sandbox_Exec d sbx cmd) p))) = rs_baseSHA (pp_st p)"
  by (simp_all add: chargeExecOp_def seq_op_def get_st_def pure_step_def upd_st_def Sandbox_Exec_def split: sum.splits)

lemma reserve_fields:
  "pp_scm (fst (reserveTaskBudget p)) = pp_scm p" "rs_repo (pp_st (fst (reserveTaskBudget p))) = rs_repo (pp_st p)"
  "rs_project (pp_st (fst (reserveTaskBudget p))) = rs_project (pp_st p)" "rs_baseSHA (pp_st (fst (reserveTaskBudget p))) = rs_baseSHA (pp_st p)"
  by (simp_all add: reserveTaskBudget_def seq_op_def get_st_def pure_step_def upd_st_def split: sum.splits)

lemma scm_branches: "(\<And>m. branches_except own m (fst (f m))) \<Longrightarrow> op_rel (\<lambda>p p'. branches_except own (pp_scm p) (pp_scm p')) (scm f)"
  by (simp add: op_rel_def scm_def split_beta)

lemma branches_exec: "exec_relation (\<lambda>p p'. branches_except own (pp_scm p) (pp_scm p'))"
  by unfold_locales (simp_all add: transp_branches op_rel_def charge_exec_fields)

interpretation branches: open_relation "\<lambda>p p'. branches_except {} (pp_scm p) (pp_scm p')"
  "\<lambda>k b p p'. branches_except {(k, b)} (pp_scm p) (pp_scm p')"
proof (intro open_relation.intro pipe_relation.intro pipe_relation_axioms.intro open_relation_axioms.intro)
qed (auto intro: branches_exec private_branch_kept scm_branches CommitFiles_branches Merge_branches Init_branches
    simp: op_rel_def [of _ reserveTaskBudget] reserve_fields op_rel_def [of _ "upd_st _"] upd_st_def)

text \<open>The same relation together with the fields that are fixed once the repository is open.\<close>

definition opened :: "runState \<Rightarrow> Handle \<times> Project \<times> string" where
  "opened st = (rs_repo st, rs_project st, rs_baseSHA st)"

definition safe_step :: "(string \<times> string) set \<Rightarrow> pipe \<Rightarrow> pipe \<Rightarrow> bool" where
  "safe_step own p p' \<longleftrightarrow> branches_except own (pp_scm p) (pp_scm p') \<and> opened (pp_st p') = opened (pp_st p)"

lemma safe_step_exec: "exec_relation (safe_step own)"
  by unfold_locales
    (auto simp: safe_step_def transp_def branches_except_def opened_def fixed_fields_def op_rel_def charge_exec_fields)

lemma scm_safe: "(\<And>m. branches_except own m (fst (f m))) \<Longrightarrow> op_rel (safe_step own) (scm f)"
  by (simp add: op_rel_def scm_def safe_step_def split_beta)

lemma private_branch_safe:
  assumes "\<And>x. op_rel (safe_step {(repoKey h, b)}) (f x)"
  shows "op_rel (safe_step {}) (seq_op (scm (CreateBranch h b src)) f)"
proof
  fix p :: pipe
  have "op_rel (\<lambda>p p'. branches_except {(repoKey h, b)} (pp_scm p) (pp_scm p')) (f x)" for x
    using assms [of x] by (simp add: op_rel_def safe_step_def)
  then have 1: "branches_except {} (pp_scm p) (pp_scm (fst (seq_op (scm (CreateBranch h b src)) f p)))"
    using op_relD [OF private_branch_kept] by fastforce
  have "opened (pp_st (fst (f x p'))) = opened (pp_st p')" for x p'
    using op_relD [OF assms, of p' x] by (simp add: safe_step_def)
  then have "opened (pp_st (fst (seq_op (scm (CreateBranch h b src)) f p))) = opened (pp_st p)"
    by (simp add: seq_op_def scm_def split: prod.splits sum.splits)
  with 1 show "safe_step {} p (fst (seq_op (scm (CreateBranch h b src)) f p))" by (simp add: safe_step_def)
qed

interpretation safe: pipe_relation "safe_step {}" "\<lambda>k b. safe_step {(k, b)}"
proof (intro pipe_relation.intro pipe_relation_axioms.intro)
qed (auto intro: safe_step_exec private_branch_safe scm_safe CommitFiles_branches Merge_branches Init_branches
    simp: op_rel_def [of _ reserveTaskBudget] safe_step_def reserve_fields opened_def)

lemma open_repository_base:
  assumes "open_repository d ctx p = (p', Inr ())"
  shows "branch_at (pp_scm p') (repoKey (rs_repo (pp_st p'))) (project_DefaultBranch (rs_project (pp_st p'))) = Some (rs_baseSHA (pp_st p'))"
proof -
  obtain p2 sbx where "init_repository d ctx sbx p2 = (p', Inr ())"
    using assms unfolding open_repository_def
    by (elim seq_op_Inr) (auto simp: failRun_error split: sum.splits)
  then show ?thesis unfolding init_repository_def
    by (auto simp: Let_def get_st_def upd_st_def seq_op_def or_else_def try_op_def scm_def scm_read_def return_op_def failRun_error Head_def
        branch_at_def repo_def split: prod.splits sum.splits option.splits)
qed

lemma Execute_drive:
  assumes "Execute d ctx registered tenantID runID w m = (w', m', Some p, r)"
  obtains w1 st where "load_run d tenantID runID w = (w1, Inr st)" and "drive d ctx (start_pipe w1 m st) = (p, r)"
    and "w' = pp_world p" and "m' = pp_scm p"
  using assms by (auto simp: Execute_def split: sum.splits prod.splits)

text \<open>The base commit is recorded last: an opening that fails leaves it as it was.\<close>

interpretation base_same: step_relation "\<lambda>p p'. rs_baseSHA (pp_st p') = rs_baseSHA (pp_st p)"
  by unfold_locales (simp_all add: transp_def fixed_fields_def)

definition err_rel :: "(pipe \<Rightarrow> pipe \<Rightarrow> bool) \<Rightarrow> 'a pipe_op \<Rightarrow> bool" where
  "err_rel Q f \<longleftrightarrow> (\<forall>p p' e. f p = (p', Inl e) \<longrightarrow> Q p p')"

lemma err_rel_op: "op_rel Q f \<Longrightarrow> err_rel Q f"
  unfolding op_rel_def err_rel_def by (metis fst_conv)

lemma err_rel_upd: "err_rel Q (upd_st f)"
  by (simp add: err_rel_def upd_st_def)

lemma err_rel_seq:
  assumes "transp Q" and "op_rel Q m" and "\<And>x. err_rel Q (f x)"
  shows "err_rel Q (seq_op m f)"
  using assms(2,3) transpD [OF assms(1)] unfolding op_rel_def err_rel_def
  by (auto simp: seq_op_def split: prod.splits sum.splits) (metis fst_conv)+

lemma open_repository_error:
  "err_rel (\<lambda>p p'. rs_baseSHA (pp_st p') = rs_baseSHA (pp_st p)) (open_repository d ctx)"
proof -
  note seq = err_rel_seq [OF base_same.tr]
  have upd: "op_rel (\<lambda>p p'. rs_baseSHA (pp_st p') = rs_baseSHA (pp_st p)) (upd_st (\<lambda>st. st\<lparr>rs_repo := h\<rparr>))" for h
    by (simp add: op_rel_def upd_st_def)
  have ini: "op_rel (\<lambda>p p'. rs_baseSHA (pp_st p') = rs_baseSHA (pp_st p)) (scm f)" for f :: "unit scm_op"
    by (simp add: op_rel_def scm_def split_beta)
  have "err_rel (\<lambda>p p'. rs_baseSHA (pp_st p') = rs_baseSHA (pp_st p)) (init_repository d ctx sbx)" for sbx
    unfolding init_repository_def Let_def
    by (intro seq upd base_same.or_else_kept ini base_same.steps)
      (auto split: sum.splits intro!: err_rel_op base_same.steps err_rel_upd)
  then show ?thesis
    unfolding open_repository_def
    by (intro seq base_same.steps) (auto split: sum.splits intro!: err_rel_op base_same.steps)
qed

lemma drive_default:
  assumes "drive d ctx p0 = (p, r)" and "rs_baseSHA (pp_st p0) = []" and "rs_baseSHA (pp_st p) \<noteq> []"
  shows "branch_at (pp_scm p) (repoKey (rs_repo (pp_st p))) (project_DefaultBranch (rs_project (pp_st p))) = Some (rs_baseSHA (pp_st p))"
proof -
  obtain p1 r1 where o: "open_repository d ctx p0 = (p1, r1)" by fastforce
  show ?thesis
  proof (cases r1)
    case (Inr u)
    then have "stages d ctx p1 = (p, r)" using assms(1) o by (simp add: drive_def)
    then have "safe_step {} p1 p" using op_relD [OF safe.stages_kept, of p1 d ctx] by simp
    then show ?thesis using open_repository_base [of d ctx p0 p1] o Inr by (simp add: safe_step_def branches_except_def opened_def)
  next
    case (Inl e)
    then have "p = p1" using assms(1) o by (simp add: drive_def)
    then show ?thesis using open_repository_error [of d ctx] o Inl assms(2,3) unfolding err_rel_def by fastforce
  qed
qed

subsection \<open>The budget\<close>

text \<open>The commands started so far are within what the ledger has charged, and that within its cap.\<close>

definition within_budget :: "pipe \<Rightarrow> bool" where
  "within_budget p \<longleftrightarrow> (let l = rs_ledger (pp_st p) in
     \<not> bl_Unlimited (led_Limits l) \<and> int (length (pp_execs p)) \<le> led_ExecOpsUsed l \<and> led_ExecOpsUsed l \<le> bl_MaxExecOps (led_Limits l))"

definition budget_kept :: "pipe \<Rightarrow> pipe \<Rightarrow> bool" where
  "budget_kept p p' \<longleftrightarrow> led_Limits (rs_ledger (pp_st p')) = led_Limits (rs_ledger (pp_st p)) \<and> (within_budget p \<longrightarrow> within_budget p')"

lemma budget_exec: "exec_relation budget_kept"
proof (unfold_locales)
  show "op_rel budget_kept (seq_op chargeExecOp (\<lambda>_. Sandbox_Exec d sbx cmd))" for d sbx cmd
    by (auto simp: op_rel_def budget_kept_def within_budget_def Let_def chargeExecOp_def seq_op_def get_st_def pure_step_def upd_st_def
        Sandbox_Exec_def RecordExecOp_def split: sum.splits if_splits)
qed (auto simp: transp_def budget_kept_def within_budget_def Let_def fixed_fields_def)

interpretation budget: open_relation budget_kept "\<lambda>_ _. budget_kept"
proof (intro open_relation.intro pipe_relation.intro pipe_relation_axioms.intro open_relation_axioms.intro budget_exec)
  show "(\<And>x. op_rel budget_kept (f x)) \<Longrightarrow> op_rel budget_kept (seq_op (scm (CreateBranch h b src)) f)" for h b src and f :: "unit \<Rightarrow> unit pipe_op"
    by (intro step_relation.seq_kept [OF exec_relation.axioms(1) [OF budget_exec]])
      (simp_all add: op_rel_def scm_def budget_kept_def within_budget_def split_beta)
qed (auto simp: op_rel_def scm_def budget_kept_def within_budget_def Let_def upd_st_def reserveTaskBudget_def seq_op_def get_st_def pure_step_def
    ReserveTask_def split_beta split: sum.splits if_splits)

end
