(* ===== verification/Pipeline_Example.thy ===== *)
theory Pipeline_Example
  imports Pipeline_Laws Run_Start
begin

section \<open>A small execution\<close>

text \<open>
  A project whose catalog declares one capability with two tasks, a pending run that asks for it,
  and collaborators whose answers are fixed: every sandbox command exits with the code \<open>code\<close>.
\<close>

definition ex_tenant :: string where "ex_tenant = ''ten_aaaaaaaaaaaaaaaaaaaa''"

definition ex_sort :: "(Task \<Rightarrow> Task \<Rightarrow> bool) \<Rightarrow> Task list \<Rightarrow> Task list" where
  "ex_sort lt ts = sort_key task_Name ts"

definition ex_caps :: Catalog where
  "ex_caps = \<lparr>cat_Version = 1, cat_Capabilities =
     [\<lparr>cap_ID = ''arith'', cap_RequestKeywords = [''add''],
       cap_Spec = \<lparr>cs_Outcome = ''o'', cs_Requirements = [''r''], cs_Assumptions = [], cs_NonGoals = [],
         cs_SuccessCriteria = [''tests pass''], cs_Blockers = []\<rparr>,
       cap_Tasks =
        [\<lparr>ct_Name = ''add'', ct_Writes = [], ct_CommitMessage = ''a'', ct_Files = [(''a'', ''1'')], ct_VerifyCommands = [[''t1'']]\<rparr>,
         \<lparr>ct_Name = ''mul'', ct_Writes = [], ct_CommitMessage = ''m'', ct_Files = [(''m'', ''2'')], ct_VerifyCommands = []\<rparr>],
       cap_VerifyAll = [[''all'']]\<rparr>]\<rparr>"

definition ex_pdeps :: "(nat \<Rightarrow> int) \<Rightarrow> PDeps" where
  "ex_pdeps code =
    \<lparr>pd_base = ex_deps,
     pd_cfg = \<lparr>ec_MaxParallelTasks = 1, ec_TaskTimeout = 5, ec_StageTimeout = 5, ec_MaxAttempts = 3, ec_RetryBackoff = 1, ec_MaxTasksPerRun = 8, ec_MaxExecOpsPerRun = 64\<rparr>,
     pd_hash = ex_sha, pd_quote = (\<lambda>s. s), pd_allowLocalCommits = True,
     pd_seed = (\<lambda>_. Inr \<lparr>seed_DefaultBranch = ''main'', seed_Files = [(catalogPath, Some ''y'')]\<rparr>),
     pd_plan = Plan (\<lambda>_. Some ex_caps) (\<lambda>s. s),
     pd_review = Review 2000,
     pd_create = (\<lambda>n. Inr (''sbx_'' @ itoa n)), pd_root = None,
     pd_exec = (\<lambda>n _ _. Inr \<lparr>er_ExitCode = code n, er_Stdout = [], er_Stderr = [], er_Duration = 0\<rparr>),
     pd_writeFails = (\<lambda>_ _ _. False), pd_sleepFails = (\<lambda>_. False), pd_cancelled = (\<lambda>_. False),
     pd_digest = (\<lambda>b. b), pd_json = (\<lambda>_. ''{}''), pd_duration = (\<lambda>_. ''0s''), pd_lower = (\<lambda>s. s),
     pd_order = (\<lambda>n. [0..<n]), pd_sort = ex_sort\<rparr>"

definition ex_rand :: "nat \<Rightarrow> entropy" where
  "ex_rand n = Some (\<lambda>i. if i = 0 then word_of_nat n else if i = 1 then word_of_nat (n div 60) else 0)"

definition ex_pstore :: storeState where
  "ex_pstore = (empty_store 5)\<lparr>
     st_projects := [(''p'', \<lparr>project_ID = ''p'', project_TenantID = ex_tenant, project_Slug = ''p'', project_Name = ''P'',
        project_DefaultBranch = ''main'', project_SeedName = ''s'', project_Version = 1, project_CreatedAt = 0\<rparr>)],
     st_threads := [(''h'', ex_thread\<lparr>thread_TenantID := ex_tenant, thread_Status := ThreadPlanning\<rparr>)],
     st_messages := [(''h'', [\<lparr>message_ID = ''m'', message_TenantID = ex_tenant, message_ThreadID = ''h'', message_Seq = 1,
        message_Role = RoleUser, message_DeliveryMode = DeliveryImmediate, message_Content = ''please add'', message_CreatedAt = 0\<rparr>])],
     st_runs := [(''run_1'', (ex_run ''run_1'' ''k1'')\<lparr>run_TenantID := ex_tenant\<rparr>)]\<rparr>"

definition ex_pworld :: world where
  "ex_pworld = \<lparr>w_store = ex_pstore, w_clock = int, w_ticks = 1, w_rand = ex_rand, w_draws = 0\<rparr>"

lemma ex_load_run:
  "\<exists>w st. load_run (ex_pdeps code) ex_tenant ''run_1'' ex_pworld = (w, Inr st)"
  by (simp add: load_run_def seq_op_def from_store_def RunRepository_Get_def ThreadRepository_Get_def ProjectRepository_Get_def scoped_def empty_store_def
      ex_pworld_def ex_pstore_def ex_thread_def ex_run_def ex_tenant_def ex_pdeps_def Now_def return_op_def pure_op_def)

lemma ex_execute:
  obtains w m p r where "Execute (ex_pdeps code) ctx {} ex_tenant ''run_1'' ex_pworld scm0 = (w, m, Some p, r)"
proof -
  obtain w st where "load_run (ex_pdeps code) ex_tenant ''run_1'' ex_pworld = (w, Inr st)" using ex_load_run by blast
  then show ?thesis using that by (cases "drive (ex_pdeps code) ctx (start_pipe w scm0 st)") (simp add: Execute_def registerCancel_def)
qed

end
