(* ===== verification/Pipeline_Ends.thy ===== *)
theory Pipeline_Ends
  imports Pipeline_Laws Run_Recovery
begin

section \<open>A run that is being failed ends\<close>

text \<open>
  While nobody else wrote the run (\<open>run_current\<close>) the guarded write of the engine succeeds, so failing a run reaches
  a terminal state in the store, whatever happens after it: the later steps never touch the stored runs
  (\<open>runs_same\<close>). Otherwise the write is refused and the store is left as it was. With the thread in step too
  and entropy at hand (\<open>synced\<close>), the last stage runs to its end.
\<close>

definition synced :: "PDeps \<Rightarrow> pipe \<Rightarrow> bool" where
  "synced d p \<longleftrightarrow> struct_ok (w_store (pp_world p)) \<and> env_ok (pd_base d) (pp_world p)
     \<and> (\<exists>cur. lookup (st_runs (w_store (pp_world p))) (run_ID (rs_run (pp_st p))) = Some cur
          \<and> run_TenantID cur = run_TenantID (rs_run (pp_st p)) \<and> run_Version cur = run_Version (rs_run (pp_st p)))
     \<and> (\<exists>cur. lookup (st_threads (w_store (pp_world p))) (thread_ID (rs_thread (pp_st p))) = Some cur
          \<and> thread_TenantID cur = thread_TenantID (rs_thread (pp_st p)) \<and> thread_Version cur = thread_Version (rs_thread (pp_st p)))"

definition run_current :: "pipe \<Rightarrow> bool" where
  "run_current p \<longleftrightarrow> (\<exists>cur. lookup (st_runs (w_store (pp_world p))) (run_ID (rs_run (pp_st p))) = Some cur
     \<and> run_TenantID cur = run_TenantID (rs_run (pp_st p)) \<and> run_Version cur = run_Version (rs_run (pp_st p)))"

subsection \<open>Writes that succeed\<close>

lemma emit_runs:
  assumes "synced d p"
  obtains p' where "emit d ctx evt p = (p', Inr ())" and "synced d p'" and "pp_st p' = pp_st p" and "pp_scm p' = pp_scm p"
    and "entities (w_store (pp_world p')) = entities (w_store (pp_world p))"
proof -
  have env: "env_ok (pd_base d) (pp_world p)" and ok: "struct_ok (w_store (pp_world p))" using assms by (auto simp: synced_def)
  obtain w' evt' where e: "emitEvent (pd_base d) ctx evt (pp_world p) = (w', Inr evt')" "w_rand w' = w_rand (pp_world p)"
    using emitEvent_runs [OF env] by metis
  have "struct_ok (w_store w')"
    using op_relD [OF wframe_emitEvent [of "pd_base d" ctx evt], of "pp_world p"] e(1) ok by (simp add: wframe_def unit_frame_def)
  moreover have "env_ok (pd_base d) w'" using env e(2) by (simp add: env_ok_def)
  ultimately have "synced d (p\<lparr>pp_world := w'\<rparr>)"
    using assms entities_fields(1,2) [OF emitEvent_ok(1) [OF e(1)]] by (simp add: synced_def)
  then show thesis
    using that [of "p\<lparr>pp_world := w'\<rparr>"] e(1) emitEvent_ok(1) [OF e(1)] by (simp add: emit_def eng_def seq_op_def return_op_def)
qed

lemma thread_transition_runs:
  assumes "synced d p" and "\<not> ctx_inUnit ctx"
    and "CanTransitionThread (thread_Status (rs_thread (pp_st p))) nxt" and "thread_Status (rs_thread (pp_st p)) \<noteq> nxt"
  obtains p' where "thread_transition d ctx nxt extra p = (p', Inr ())" and "synced d p'"
    and "pp_st p' = (pp_st p)\<lparr>rs_thread := (rs_thread (pp_st p))\<lparr>thread_Status := nxt, thread_Version := thread_Version (rs_thread (pp_st p)) + 1\<rparr>\<rparr>"
    and "pp_scm p' = pp_scm p" and "w_rand (pp_world p') = w_rand (pp_world p)"
    and "st_artifacts (w_store (pp_world p')) = st_artifacts (w_store (pp_world p))"
proof -
  let ?t = "rs_thread (pp_st p)"
  obtain cur where s: "struct_ok (w_store (pp_world p))" "env_ok (pd_base d) (pp_world p)"
      "lookup (st_threads (w_store (pp_world p))) (thread_ID ?t) = Some cur" "thread_TenantID cur = thread_TenantID ?t"
      "thread_Version cur = thread_Version ?t"
    using assms(1) unfolding synced_def by blast
  obtain w' t' evt where t: "t' = ?t\<lparr>thread_Status := nxt, thread_Version := thread_Version ?t + 1\<rparr>"
      "transitionThreadWithData (pd_base d) ctx ?t nxt extra (pp_world p) = (w', Inr t')" "struct_ok (w_store w')" "w_rand w' = w_rand (pp_world p)"
      "entities (w_store w') = entities ((w_store (pp_world p))\<lparr>st_threads := insert_map (thread_ID ?t) t' (st_threads (w_store (pp_world p)))\<rparr>)"
    by (rule transitionThread_runs [OF s(1) assms(2) s(2-5) assms(3,4), where extra = extra])
  note F = entities_fields(1,2) [OF t(5)]
  have A: "st_artifacts (w_store w') = st_artifacts (w_store (pp_world p))"
    using arg_cong [OF t(5), of st_artifacts] by (simp add: entities_def)
  let ?p = "p\<lparr>pp_world := w', pp_st := (pp_st p)\<lparr>rs_thread := t'\<rparr>\<rparr>"
  have "Thread_TransitionTo ?t nxt = Inr t'" using assms(3,4) t(1) by (simp add: Thread_TransitionTo_def)
  then have "thread_transition d ctx nxt extra p = (?p, Inr ())"
    using t(2) by (simp add: thread_transition_def seq_op_def get_st_def upd_st_def eng_def)
  moreover have "synced d ?p" using assms(1) t(1,3,4) F by (simp add: synced_def env_ok_def)
  ultimately show thesis using that [of ?p] t(1,4) A by simp
qed

lemma run_update_runs:
  assumes "synced d p" and "run_ID run = run_ID (rs_run (pp_st p))" and "run_TenantID run = run_TenantID (rs_run (pp_st p))"
    and "q = p\<lparr>pp_st := st\<rparr>" and "rs_thread st = rs_thread (pp_st p)" and "expected = run_Version (rs_run (pp_st p))"
    and "run_Version run = expected + 1"
  obtains q' where "run_update run expected q = (q', Inr ())" and "synced d q'" and "pp_st q' = st\<lparr>rs_run := run\<rparr>" and "pp_scm q' = pp_scm q"
    and "lookup (st_runs (w_store (pp_world q'))) (run_ID run) = Some run"
proof -
  obtain cur where cur: "lookup (st_runs (w_store (pp_world p))) (run_ID run) = Some cur" "run_TenantID cur = run_TenantID run"
      "run_Version cur = expected"
    using assms unfolding synced_def by auto
  have same: "run\<lparr>run_Version := expected + 1\<rparr> = run" using assms(7) by simp
  let ?st = "(w_store (pp_world p))\<lparr>st_runs := insert_map (run_ID run) run (st_runs (w_store (pp_world p)))\<rparr>"
  let ?q = "q\<lparr>pp_world := (pp_world p)\<lparr>w_store := ?st\<rparr>, pp_st := st\<lparr>rs_run := run\<rparr>\<rparr>"
  have "run_update run expected q = (?q, Inr ())"
    using cur same assms(4) by (simp add: run_update_def eng_def seq_op_def upd_st_def on_store_def RunRepository_Update_def
        guarded_update_def scoped_def Let_def)
  moreover have "synced d ?q"
    using assms(1,4,5) by (simp add: synced_def env_ok_def struct_ok_def row_def)
  ultimately show thesis using that [of ?q] by simp
qed

text \<open>The guarded write of the run alone: it succeeds exactly when the stored row is the one the engine read.\<close>

lemma run_update_current:
  assumes "run_current p" and "run_ID run = run_ID (rs_run (pp_st p))" and "run_TenantID run = run_TenantID (rs_run (pp_st p))"
    and "run_Version run = run_Version (rs_run (pp_st p)) + 1" and "pp_world q = pp_world p"
  obtains q' where "run_update run (run_Version (rs_run (pp_st p))) q = (q', Inr ())" and "lookup (st_runs (w_store (pp_world q'))) (run_ID run) = Some run"
proof -
  let ?v = "run_Version (rs_run (pp_st p))"
  obtain cur where cur: "lookup (st_runs (w_store (pp_world q))) (run_ID run) = Some cur" "run_TenantID cur = run_TenantID run" "run_Version cur = ?v"
    using assms unfolding run_current_def by auto
  have same: "run\<lparr>run_Version := ?v + 1\<rparr> = run" using assms(4) by simp
  let ?st = "(w_store (pp_world q))\<lparr>st_runs := insert_map (run_ID run) run (st_runs (w_store (pp_world q)))\<rparr>"
  have "run_update run ?v q = (q\<lparr>pp_world := (pp_world q)\<lparr>w_store := ?st\<rparr>, pp_st := (pp_st q)\<lparr>rs_run := run\<rparr>\<rparr>, Inr ())"
    using cur same by (simp add: run_update_def eng_def seq_op_def upd_st_def on_store_def RunRepository_Update_def
        guarded_update_def scoped_def Let_def)
  then show thesis using that by simp
qed

lemma run_update_stale:
  assumes "\<not> run_current p" and "run_ID run = run_ID (rs_run (pp_st p))" and "run_TenantID run = run_TenantID (rs_run (pp_st p))"
    and "pp_world q = pp_world p"
  obtains e where "run_update run (run_Version (rs_run (pp_st p))) q = (q, Inl e)"
proof -
  have "\<exists>e. RunRepository_Update run (run_Version (rs_run (pp_st p))) (w_store (pp_world q)) = (w_store (pp_world q), Inl e)"
    using assms by (auto simp: run_current_def RunRepository_Update_def guarded_update_def scoped_def split: option.splits)
  then show thesis using that by (auto simp: run_update_def eng_def seq_op_def on_store_def)
qed

subsection \<open>Steps that leave the stored runs alone\<close>

definition wruns_same :: "world \<Rightarrow> world \<Rightarrow> bool" where
  "wruns_same w w' \<longleftrightarrow> st_runs (w_store w') = st_runs (w_store w)"

definition runs_same :: "pipe \<Rightarrow> pipe \<Rightarrow> bool" where
  "runs_same p p' \<longleftrightarrow> wruns_same (pp_world p) (pp_world p')"

lemma runs_same_transp: "transp wruns_same" "transp runs_same"
  by (auto simp: transp_def wruns_same_def runs_same_def)

named_theorems same_runs \<open>steps that leave the stored runs alone\<close>

lemma same_runs_seq [same_runs]:
  "op_rel wruns_same m \<Longrightarrow> (\<And>x. op_rel wruns_same (f x)) \<Longrightarrow> op_rel wruns_same (seq_op m f)"
  "op_rel runs_same mp \<Longrightarrow> (\<And>x. op_rel runs_same (fp x)) \<Longrightarrow> op_rel runs_same (seq_op mp fp)"
  by (rule op_rel_seq; simp add: runs_same_transp)+

lemma same_runs_eng [same_runs]: "op_rel wruns_same f \<Longrightarrow> op_rel runs_same (eng f)"
  by (auto simp: op_rel_def eng_def runs_same_def wruns_same_def split_beta)

lemma same_runs_world [same_runs]:
  "op_rel wruns_same Now" "op_rel wruns_same (newID prefix)" "op_rel wruns_same (pure_op r)" "op_rel wruns_same (return_op x)"
  "op_rel wruns_same (on_store (ArtifactRepository_Create a))" "op_rel wruns_same (on_store (TaskRepository_Update t v))"
  "op_rel wruns_same (on_store (ThreadRepository_Update h v))" "op_rel wruns_same (on_store (EventRepository_Append m e now))"
  using entities_fields(1) [OF Append_entities]
  by (auto simp: op_rel_def wruns_same_def Now_def newID_def wrap_op_def RandomIDs_NewID_def pure_op_def return_op_def on_store_def
      ArtifactRepository_Create_def TaskRepository_Update_def ThreadRepository_Update_def split: prod.splits sum.splits) (metis fst_conv)

lemma same_runs_emitEvent [same_runs]: "op_rel wruns_same (emitEvent deps ctx evt)"
  unfolding emitEvent_def store_at_def by (intro same_runs)

lemma same_runs_Do [same_runs]:
  assumes "\<And>c. op_rel wruns_same (fn c)"
  shows "op_rel wruns_same (Do ctx fn)"
proof
  fix w
  have clone: "st_runs (clone_rows st) = st_runs st" for st by (rule entities_fields(1) [OF entities_clone(1)])
  have "wruns_same (w\<lparr>w_store := clone_rows (w_store w)\<rparr>) (fst (fn c (w\<lparr>w_store := clone_rows (w_store w)\<rparr>)))" for c by (rule op_relD [OF assms])
  then show "wruns_same w (fst (Do ctx fn w))"
    using op_relD [OF assms, of w ctx]
    by (auto simp: Do_def backup_def restore_def wruns_same_def clone split: option.splits prod.splits sum.splits) (metis fst_conv)
qed

lemma same_runs_thread [same_runs]: "op_rel wruns_same (transitionThreadWithData deps ctx t nxt extra)"
  unfolding transitionThreadWithData_def Let_def by (intro same_runs)

lemma same_runs_simple [same_runs]:
  "op_rel runs_same (get_st h)" "op_rel runs_same (upd_st u)" "op_rel runs_same (pure_step r)" "op_rel runs_same (return_op x)"
  "op_rel runs_same (throw_op e)" "op_rel runs_same (task_at i)"
  by (auto simp: op_rel_def get_st_def upd_st_def pure_step_def return_op_def throw_op_def task_at_def runs_same_def wruns_same_def)

lemma same_runs_try [same_runs]: "op_rel runs_same f \<Longrightarrow> op_rel runs_same (try_op f)"
  by (simp add: op_rel_def try_op_def split_beta)

lemma same_runs_ignore [same_runs]: "op_rel runs_same f \<Longrightarrow> op_rel runs_same (ignore f)"
  unfolding ignore_def by (intro same_runs)

lemma same_runs_steps [same_runs]:
  "op_rel runs_same (emit d ctx evt)" "op_rel runs_same (thread_transition d ctx nxt extra)"
  "op_rel runs_same (task_update i t v)" "op_rel runs_same (addArtifactRef ref)" "op_rel runs_same (storeReportArtifact d ctx rep)"
  unfolding emit_def thread_transition_def task_update_def addArtifactRef_def storeReportArtifact_def storeArtifact_def
  by (intro same_runs)+

lemma same_runs_cancel [same_runs]: "op_rel runs_same (cancel_tasks d ctx is)"
proof (induction "is")
  case (Cons i "is")
  have "op_rel runs_same (cancelTask d ctx i)"
    unfolding cancelTask_def by (auto split: sum.splits intro!: same_runs)
  then show ?case using Cons by (auto intro!: same_runs)
qed (auto intro!: same_runs)

subsection \<open>The two ends\<close>

lemma synced_tick [simp]: "synced d (p\<lparr>pp_world := (pp_world p)\<lparr>w_ticks := n\<rparr>\<rparr>) = synced d p"
  by (simp add: synced_def env_ok_def)

lemma run_current_frame [simp]:
  "run_current (p\<lparr>pp_world := (pp_world p)\<lparr>w_ticks := n\<rparr>\<rparr>) = run_current p" "run_current (p\<lparr>pp_looks := m, pp_done := b\<rparr>) = run_current p"
  by (simp_all add: run_current_def)

lemma ignore_eq: "ignore f p = (fst (f p), Inr ())"
  by (simp add: ignore_def try_op_def seq_op_def return_op_def split_beta)

lemma seq_step: "m p = (p1, Inr x) \<Longrightarrow> Q (fst (f x p1)) \<Longrightarrow> Q (fst (seq_op m f p))"
  by simp

lemma seq_same:
  assumes "m p = (p1, Inr x)" and "runs_same q p1" and "\<And>x. op_rel runs_same (f x)"
  shows "runs_same q (fst (seq_op m f p))"
  using assms(1,2) op_relD [OF assms(3), of p1 x] transpD [OF runs_same_transp(2)] by simp

lemma get_step: "get_st h p = (p, Inr (h (pp_st p)))" "eng Now p = (p\<lparr>pp_world := (pp_world p)\<lparr>w_ticks := w_ticks (pp_world p) + 1\<rparr>\<rparr>,
    Inr (w_clock (pp_world p) (w_ticks (pp_world p))))" "upd_st u p = (p\<lparr>pp_st := u (pp_st p)\<rparr>, Inr ())"
  by (simp_all add: get_st_def eng_def Now_def upd_st_def)

lemma Finish_key: "Finish run nxt now f = Inr run' \<Longrightarrow> run_ID run' = run_ID run \<and> run_TenantID run' = run_TenantID run
    \<and> run_Version run' = run_Version run + 1 \<and> run_Status run' = nxt \<and> run_Failure run' = f"
  by (auto simp: Finish_def Run_TransitionTo_def split: if_splits)

lemma settle_cancelled_ends:
  assumes "run_current p" and "\<not> Terminal (run_Status (rs_run (pp_st p)))"
  shows "\<exists>run. lookup (st_runs (w_store (pp_world (fst (settle_cancelled d ctx p))))) (run_ID (rs_run (pp_st p))) = Some run
    \<and> run_Status run = RunCancelled"
proof -
  let ?run = "rs_run (pp_st p)" and ?now = "w_clock (pp_world p) (w_ticks (pp_world p))"
  let ?p = "p\<lparr>pp_world := (pp_world p)\<lparr>w_ticks := w_ticks (pp_world p) + 1\<rparr>\<rparr>"
  obtain run where fin: "Finish ?run RunCancelled ?now None = Inr run" using can_finish_run(1) [OF assms(2)] by blast
  note key = Finish_key [OF fin]
  obtain q where q: "run_update run (run_Version ?run) (?p\<lparr>pp_st := (pp_st p)\<lparr>rs_run := run\<rparr>\<rparr>) = (q, Inr ())"
      "lookup (st_runs (w_store (pp_world q))) (run_ID run) = Some run"
    by (rule run_update_current [of ?p run "?p\<lparr>pp_st := (pp_st p)\<lparr>rs_run := run\<rparr>\<rparr>"]) (use assms(1) key in simp_all)
  let ?evt = "evtFromRun (rs_run (pp_st q)) EventRunStatusChanged [(''to'', DStr (RunStatus_name RunCancelled))]"
  have M: "seq_op (upd_st (\<lambda>st. st\<lparr>rs_run := run\<rparr>)) (\<lambda>_. seq_op (run_update run (run_Version ?run)) (\<lambda>_.
      seq_op (get_st rs_run) (\<lambda>run. ignore (emit d ctx (evtFromRun run EventRunStatusChanged [(''to'', DStr (RunStatus_name RunCancelled))]))))) ?p
      = (fst (emit d ctx ?evt q), Inr ())"
    using q(1) by (simp add: get_step ignore_eq)
  have "runs_same q (fst (settle_cancelled d ctx p))"
    unfolding settle_cancelled_def
    by (rule seq_step [OF get_step(1)], rule seq_step [OF get_step(2)], unfold fin sum.case, rule seq_same, rule M)
      (auto intro!: same_runs op_relD [OF same_runs_steps(1)])
  then show ?thesis using q(2) key by (auto simp: runs_same_def wruns_same_def)
qed

lemma fail_now_ends:
  assumes "run_current p" and "\<not> Terminal (run_Status (rs_run (pp_st p)))" and "run_Status (rs_run (pp_st p)) \<noteq> RunPending"
  shows "\<exists>run rep f. lookup (st_runs (w_store (pp_world (fst (fail_now d ctx code cause p))))) (run_ID (rs_run (pp_st p))) = Some run
    \<and> run_Status run = RunFailed \<and> run_Failure run = Some f \<and> fi_Code f = code \<and> run_Report run = Some rep \<and> \<not> rep_ReadyForReview rep"
proof -
  let ?run = "rs_run (pp_st p)" and ?now = "w_clock (pp_world p) (w_ticks (pp_world p))"
  let ?f = "\<lparr>fi_Code = code, fi_Message = dep_text (pd_base d) cause, fi_Transient = False\<rparr>"
  let ?p = "p\<lparr>pp_world := (pp_world p)\<lparr>w_ticks := w_ticks (pp_world p) + 1\<rparr>\<rparr>"
  obtain run where fin: "Finish ?run RunFailed ?now (Some ?f) = Inr run" using can_finish_run(2) [OF assms(2,3)] by blast
  note key = Finish_key [OF fin]
  let ?rep = "buildReport (pd_lower d) ((pp_st p)\<lparr>rs_run := run\<rparr>) False"
  let ?run' = "run\<lparr>run_Report := Some ?rep\<rparr>"
  obtain q where q: "run_update ?run' (run_Version ?run) (?p\<lparr>pp_st := (pp_st p)\<lparr>rs_run := ?run'\<rparr>\<rparr>) = (q, Inr ())"
      "lookup (st_runs (w_store (pp_world q))) (run_ID ?run') = Some ?run'"
    by (rule run_update_current [of ?p ?run' "?p\<lparr>pp_st := (pp_st p)\<lparr>rs_run := ?run'\<rparr>\<rparr>"]) (use assms(1) key in simp_all)
  have "runs_same q (fst (fail_now d ctx code cause p))"
    unfolding fail_now_def Let_def
    by (rule seq_step [OF get_step(1)], rule seq_step [OF get_step(2)], rule seq_step [where ?p1.0 = ?p and x = run],
        simp add: pure_step_def fin, rule seq_step [OF get_step(3)], rule seq_step [OF get_step(1)], rule seq_step [OF get_step(3)],
        rule seq_step [where ?p1.0 = q and x = "()"], use q(1) in simp, rule op_relD)
      (auto intro!: same_runs simp: or_else_def split: sum.splits)
  then show ?thesis using q(2) key by (auto simp: runs_same_def wruns_same_def buildReport_def)
qed

text \<open>When the row is not the one the engine read, both ends stop at the refused write.\<close>

lemma stale_end:
  assumes "\<not> run_current p" and "\<not> Terminal (run_Status (rs_run (pp_st p)))" and "run_Status (rs_run (pp_st p)) \<noteq> RunPending"
  shows "w_store (pp_world (fst (settle_cancelled d ctx p))) = w_store (pp_world p)"
    and "w_store (pp_world (fst (fail_now d ctx code cause p))) = w_store (pp_world p)"
proof -
  let ?run = "rs_run (pp_st p)" and ?now = "w_clock (pp_world p) (w_ticks (pp_world p))"
  let ?f = "\<lparr>fi_Code = code, fi_Message = dep_text (pd_base d) cause, fi_Transient = False\<rparr>"
  let ?p = "p\<lparr>pp_world := (pp_world p)\<lparr>w_ticks := w_ticks (pp_world p) + 1\<rparr>\<rparr>"
  obtain run where fin: "Finish ?run RunCancelled ?now None = Inr run" using can_finish_run(1) [OF assms(2)] by blast
  obtain e where "run_update run (run_Version ?run) (?p\<lparr>pp_st := (pp_st p)\<lparr>rs_run := run\<rparr>\<rparr>) = (?p\<lparr>pp_st := (pp_st p)\<lparr>rs_run := run\<rparr>\<rparr>, Inl e)"
    by (rule run_update_stale [of ?p run "?p\<lparr>pp_st := (pp_st p)\<lparr>rs_run := run\<rparr>\<rparr>"]) (use assms(1) Finish_key [OF fin] in simp_all)
  then show "w_store (pp_world (fst (settle_cancelled d ctx p))) = w_store (pp_world p)"
    by (simp add: settle_cancelled_def seq_op_def get_step fin)
  obtain run2 where fin2: "Finish ?run RunFailed ?now (Some ?f) = Inr run2" using can_finish_run(2) [OF assms(2,3)] by blast
  let ?run2 = "run2\<lparr>run_Report := Some (buildReport (pd_lower d) ((pp_st p)\<lparr>rs_run := run2\<rparr>) False)\<rparr>"
  obtain e2 where "run_update ?run2 (run_Version ?run) (?p\<lparr>pp_st := (pp_st p)\<lparr>rs_run := ?run2\<rparr>\<rparr>) = (?p\<lparr>pp_st := (pp_st p)\<lparr>rs_run := ?run2\<rparr>\<rparr>, Inl e2)"
    by (rule run_update_stale [of ?p ?run2 "?p\<lparr>pp_st := (pp_st p)\<lparr>rs_run := ?run2\<rparr>\<rparr>"]) (use assms(1) Finish_key [OF fin2] in simp_all)
  then show "w_store (pp_world (fst (fail_now d ctx code cause p))) = w_store (pp_world p)"
    by (simp add: fail_now_def seq_op_def get_step pure_step_def fin2 Let_def)
qed

subsection \<open>The last stage succeeds\<close>

lemma storeReportArtifact_runs:
  assumes "synced d p" and "NewID PrefixArtifact (w_rand (pp_world p) (w_draws (pp_world p))) = Inr ident"
    and "ParseArtifactID ident = Inr ident" and "lookup (st_artifacts (w_store (pp_world p))) ident = None"
    and "pd_json d rep \<noteq> []" and "length (pd_json d rep) \<le> MaxArtifactBytes"
  obtains p' ref where "storeReportArtifact d ctx (Some rep) p = (p', Inr ref)" and "synced d p'" and "pp_st p' = pp_st p"
proof -
  let ?w = "(pp_world p)\<lparr>w_draws := w_draws (pp_world p) + 1, w_ticks := w_ticks (pp_world p) + 1\<rparr>"
  let ?run = "rs_run (pp_st p)" and ?now = "w_clock (pp_world p) (w_ticks (pp_world p))"
  obtain a where a: "NewArtifact (pd_digest d) ident (run_TenantID ?run) (run_ID ?run) ArtifactReport RetentionDurable (pd_json d rep) ?now = Inr a"
      "art_ID a = ident"
    using assms(3,5,6) by (auto simp: NewArtifact_def)
  let ?q = "p\<lparr>pp_world := ?w\<lparr>w_store := (w_store (pp_world p))\<lparr>st_artifacts := insert_map ident a (st_artifacts (w_store (pp_world p)))\<rparr>\<rparr>\<rparr>"
  have "synced d ?q" using assms(1) by (simp add: synced_def env_ok_def struct_ok_def row_def)
  then obtain q where q: "emit d ctx (evtFromRun ?run EventArtifactStored
      [(''artifact_id'', DStr (art_ID a)), (''kind'', DStr (ArtifactKind_name ArtifactReport)), (''digest'', DStr (art_Digest a))]) ?q = (q, Inr ())"
      "synced d q" "pp_st q = pp_st p"
    by (rule emit_runs) simp
  have "storeReportArtifact d ctx (Some rep) p = (q, Inr \<lparr>ra_ID = art_ID a, ra_Kind = art_Kind a, ra_Digest = art_Digest a\<rparr>)"
    using q(1) a assms(2,4)
    by (simp add: storeReportArtifact_def storeArtifact_def get_st_def eng_def newID_def wrap_op_def RandomIDs_NewID_def Now_def pure_step_def
        on_store_def ArtifactRepository_Create_def return_op_def)
  then show thesis using that q(2,3) by blast
qed

lemma complete_run_runs:
  assumes "synced d p" and "\<not> ctx_inUnit ctx" and "vd_Passed verdict"
    and "run_Status (rs_run (pp_st p)) = RunReporting" and "thread_Status (rs_thread (pp_st p)) = ThreadReviewing"
    and report: "\<And>rep q. pp_world q = pp_world p \<Longrightarrow> synced d q \<Longrightarrow>
      \<exists>q' ref. storeReportArtifact d ctx (Some rep) q = (q', Inr ref) \<and> synced d q' \<and> pp_st q' = pp_st q"
  shows "\<exists>p'. complete_run d ctx verdict p = (p', Inr ())"
proof -
  let ?st = "(pp_st p)\<lparr>rs_findings := rs_findings (pp_st p) @ vd_Findings verdict\<rparr>"
  let ?q = "p\<lparr>pp_st := ?st\<rparr>"
  have "synced d ?q" using assms(1) by (simp add: synced_def)
  then obtain q1 ref where q1: "storeReportArtifact d ctx (Some (buildReport (pd_lower d) ?st (vd_Passed verdict))) ?q = (q1, Inr ref)"
      "synced d q1" "pp_st q1 = ?st"
    using report [of ?q "buildReport (pd_lower d) ?st (vd_Passed verdict)"] by auto
  let ?st1 = "?st\<lparr>rs_artifactRefs := rs_artifactRefs (pp_st p) @ [ref]\<rparr>"
  let ?run = "(rs_run (pp_st p))\<lparr>run_Report := Some (buildReport (pd_lower d) ?st1 (vd_Passed verdict))\<rparr>"
  let ?q2 = "q1\<lparr>pp_world := (pp_world q1)\<lparr>w_ticks := w_ticks (pp_world q1) + 1\<rparr>\<rparr>"
  obtain run where fin: "Finish ?run RunCompleted (w_clock (pp_world q1) (w_ticks (pp_world q1))) None = Inr run"
    using assms(4) by (simp add: Finish_def Run_TransitionTo_def CanTransitionRun_def allows_def edgesFrom_def runTransitions_def)
  note key = Finish_key [OF fin]
  let ?st2 = "?st1\<lparr>rs_run := run\<rparr>"
  obtain q3 where q3: "run_update run (run_Version (rs_run (pp_st p))) (?q2\<lparr>pp_st := ?st2\<rparr>) = (q3, Inr ())" "synced d q3"
      "pp_st q3 = ?st2\<lparr>rs_run := run\<rparr>"
    by (rule run_update_runs [of d ?q2 run "?q2\<lparr>pp_st := ?st2\<rparr>" ?st2]) (use q1(2,3) key in simp_all)
  obtain q4 where q4: "emit d ctx (evtFromRun (rs_run (pp_st q3)) EventRunStatusChanged
      [(''to'', DStr (RunStatus_name RunCompleted)), (''ready_for_review'', DBool (vd_Passed verdict))]) q3 = (q4, Inr ())"
      "synced d q4" "pp_st q4 = pp_st q3"
    by (rule emit_runs [OF q3(2)])
  have "CanTransitionThread ThreadReviewing ThreadReadyForReview"
    by (simp add: CanTransitionThread_def allows_def edgesFrom_def threadTransitions_def)
  then obtain q5 where q5: "thread_transition d ctx ThreadReadyForReview [] q4 = (q5, Inr ())"
    using thread_transition_runs [OF q4(2) assms(2), of ThreadReadyForReview "[]"] q4(3) q3(3) assms(5) by fastforce
  have "complete_run d ctx verdict p = (q5, Inr ())"
    using q1(1,3) fin q3(1,3) q4(1) q5 assms(3)
    by (simp add: complete_run_def add_finding_def addArtifactRef_def get_step pure_step_def)
  then show ?thesis by blast
qed

lemma review_stage_runs:
  assumes "synced d p" and "\<not> ctx_inUnit ctx"
    and "run_Status (rs_run (pp_st p)) = RunReporting" and "thread_Status (rs_thread (pp_st p)) = ThreadExecuting"
    and "Diff (rs_repo (pp_st p)) (rs_baseSHA (pp_st p)) (ri_SHA (rs_integrated (pp_st p))) (pp_scm p) = Inr diff"
    and "rs_spec (pp_st p) = Some out"
    and "pd_review d \<lparr>rin_Spec = out_Spec out, rin_Diff = diff, rin_Evidence = rs_evidence (pp_st p)\<rparr> = Inr verdict" and "vd_Passed verdict"
    and report: "\<And>rep q. w_rand (pp_world q) = w_rand (pp_world p) \<Longrightarrow> st_artifacts (w_store (pp_world q)) = st_artifacts (w_store (pp_world p))
      \<Longrightarrow> synced d q \<Longrightarrow> \<exists>q' ref. storeReportArtifact d ctx (Some rep) q = (q', Inr ref) \<and> synced d q' \<and> pp_st q' = pp_st q"
  shows "\<exists>p'. stageReviewAndReport d ctx p = (p', Inr ())"
proof -
  have can: "CanTransitionThread (thread_Status (rs_thread (pp_st p))) ThreadReviewing" "thread_Status (rs_thread (pp_st p)) \<noteq> ThreadReviewing"
    using assms(4) by (simp_all add: CanTransitionThread_def allows_def edgesFrom_def threadTransitions_def)
  obtain q where q: "thread_transition d ctx ThreadReviewing [] p = (q, Inr ())" "synced d q"
      "pp_st q = (pp_st p)\<lparr>rs_thread := (rs_thread (pp_st p))\<lparr>thread_Status := ThreadReviewing, thread_Version := thread_Version (rs_thread (pp_st p)) + 1\<rparr>\<rparr>"
      "pp_scm q = pp_scm p" "w_rand (pp_world q) = w_rand (pp_world p)"
      "st_artifacts (w_store (pp_world q)) = st_artifacts (w_store (pp_world p))"
    by (rule thread_transition_runs [OF assms(1,2) can])
  have "\<exists>p'. complete_run d ctx verdict q = (p', Inr ())"
    by (rule complete_run_runs [OF q(2) assms(2,8)]) (use q(3,5,6) assms(3) report in auto)
  moreover have "stageReviewAndReport d ctx p = complete_run d ctx verdict q"
    using q(1,3,4) assms(5-7) by (simp add: stageReviewAndReport_def get_step try_op_def scm_read_def)
  ultimately show ?thesis by simp
qed

end
