(* ===== verification/Pipeline_Props.thy ===== *)
theory Pipeline_Props
  imports Pipeline_Example Pipeline_Ends
begin

section \<open>What an execution guarantees\<close>

text \<open>
  The properties of \<open>Execute\<close> as a whole, for every behaviour of the sandbox, the planner, the
  reviewer and the context, and on every path: success, failure, cancellation, a failed store.
\<close>

lemma load_run_state:
  assumes "load_run d tenantID runID w = (w1, Inr st)"
  shows "rs_baseSHA st = []" and "rs_ledger st = rs_ledger (new_runState d tenantID runID run thread project seed now)"
  using assms by (auto simp: load_run_def new_runState_def from_store_def pure_op_def Now_def return_op_def throw_op_def
      elim!: seq_op_Inr split: if_splits)

subsection \<open>What a step that succeeded has done\<close>

lemma Do_Inr:
  assumes "Do ctx fn w = (w', Inr x)"
  obtains ctx' w0 where "ctx_inUnit ctx'" and "Do ctx' fn w0 = (w', Inr x)" and "entities (w_store w0) = entities (w_store w)"
proof (cases "ctx_inUnit ctx")
  case True
  then show thesis using that [of ctx w] assms by simp
next
  case False
  then obtain st1 b where b: "backup (w_store w) = (st1, Inr b)" "fn (ctx\<lparr>ctx_inUnit := True\<rparr>) (w\<lparr>w_store := st1\<rparr>) = (w', Inr x)"
    using assms by (auto simp: Do_def split: prod.splits sum.splits)
  have "st1 = clone_rows (w_store w)" using b(1) by (auto simp: backup_def split: option.splits)
  then show thesis using that [of "ctx\<lparr>ctx_inUnit := True\<rparr>" "w\<lparr>w_store := st1\<rparr>"] b(2) by (simp add: Do_nested entities_clone)
qed

lemma thread_transition_Inr:
  assumes "thread_transition d ctx nxt extra p = (p', Inr x)"
  shows "thread_Status (rs_thread (pp_st p')) = nxt" and "pp_st p' = (pp_st p)\<lparr>rs_thread := rs_thread (pp_st p')\<rparr>"
    and "pp_scm p' = pp_scm p" and "st_runs (w_store (pp_world p')) = st_runs (w_store (pp_world p))"
proof -
  obtain w t where tr: "transitionThreadWithData (pd_base d) ctx (rs_thread (pp_st p)) nxt extra (pp_world p) = (w, Inr t)"
    and p': "p' = p\<lparr>pp_world := w, pp_st := (pp_st p)\<lparr>rs_thread := t\<rparr>\<rparr>"
    using assms unfolding thread_transition_def
    by (elim seq_op_Inr) (auto simp: get_st_def upd_st_def eng_def split: prod.splits sum.splits)
  obtain ctx' w0 where u: "ctx_inUnit ctx'" "transitionThreadWithData (pd_base d) ctx' (rs_thread (pp_st p)) nxt extra w0 = (w, Inr t)"
      "entities (w_store w0) = entities (w_store (pp_world p))"
    using Do_Inr [OF tr [unfolded transitionThreadWithData_def]] unfolding transitionThreadWithData_def by blast
  note ok = transitionThread_ok [OF u(2,1)]
  show "thread_Status (rs_thread (pp_st p')) = nxt" "pp_st p' = (pp_st p)\<lparr>rs_thread := rs_thread (pp_st p')\<rparr>" "pp_scm p' = pp_scm p"
    using ok(2) p' by simp_all
  show "st_runs (w_store (pp_world p')) = st_runs (w_store (pp_world p))"
    using entities_fields(1) [OF ok(3)] entities_fields(1) [OF u(3)] p' by simp
qed

lemma emit_Inr:
  assumes "emit d ctx evt p = (p', Inr x)"
  shows "pp_st p' = pp_st p" and "st_runs (w_store (pp_world p')) = st_runs (w_store (pp_world p))"
  using assms unfolding emit_def
  by (elim seq_op_Inr; auto simp: eng_def return_op_def split: prod.splits dest!: emitEvent_ok(1) entities_fields(1))+

lemma storeReportArtifact_Inr: "storeReportArtifact d ctx rep p = (p', Inr x) \<Longrightarrow> pp_st p' = pp_st p \<and> pp_scm p' = pp_scm p"
  unfolding storeReportArtifact_def storeArtifact_def emit_def
  by (elim seq_op_Inr) (auto simp: eng_def get_st_def pure_step_def return_op_def split: prod.splits)

lemma run_update_Inr:
  assumes "run_update run v p = (p', Inr x)"
  shows "\<exists>n. rs_run (pp_st p') = run\<lparr>run_Version := n\<rparr>" and "pp_st p' = (pp_st p)\<lparr>rs_run := rs_run (pp_st p')\<rparr>"
    and "lookup (st_runs (w_store (pp_world p'))) (run_ID run) = Some (rs_run (pp_st p'))"
  using assms unfolding run_update_def
  by (elim seq_op_Inr; auto simp: eng_def upd_st_def on_store_def RunRepository_Update_def guarded_update_ok split: prod.splits)+

subsection \<open>Properties\<close>

text \<open>
  C7: the default branch is never written. However an execution ends, every branch that existed
  before it is where it was, and the default branch of the repository the run opened is still at the
  base commit: work only lands on branches the execution itself created.
\<close>

theorem default_branch_untouched:
  assumes "Execute d ctx registered tenantID runID w m = (w', m', Some p, r)"
  shows "(branch_at m k br = Some sha \<longrightarrow> branch_at m' k br = Some sha)
    \<and> (rs_baseSHA (pp_st p) \<noteq> [] \<longrightarrow>
        branch_at m' (repoKey (rs_repo (pp_st p))) (project_DefaultBranch (rs_project (pp_st p))) = Some (rs_baseSHA (pp_st p)))"
proof -
  obtain w1 st where l: "load_run d tenantID runID w = (w1, Inr st)" and dr: "drive d ctx (start_pipe w1 m st) = (p, r)"
    and m': "m' = pp_scm p" using Execute_drive [OF assms] by metis
  have "branches_except {} m m'"
    using op_relD [OF branches.drive_kept, of "start_pipe w1 m st" d ctx] dr m' by (simp add: start_pipe_def)
  moreover have "rs_baseSHA (pp_st (start_pipe w1 m st)) = []" using load_run_state(1) [OF l] by (simp add: start_pipe_def)
  ultimately show ?thesis using drive_default [OF dr] m' by (simp add: branches_except_def)
qed

theorem default_branch_untouched_witness:
  "\<exists>w' m' p r. Execute (ex_pdeps (\<lambda>_. 0)) Background {} ex_tenant ''run_1'' ex_pworld NewMemory = (w', m', Some p, r)
    \<and> (rs_baseSHA (pp_st p) \<noteq> [] \<longrightarrow>
        branch_at m' (repoKey (rs_repo (pp_st p))) (project_DefaultBranch (rs_project (pp_st p))) = Some (rs_baseSHA (pp_st p)))"
  using default_branch_untouched ex_execute [of "\<lambda>_. 0" Background NewMemory] by metis

text \<open>
  C9: an execution never starts more sandbox commands than the run's budget allows, over all tasks,
  all retries and the integrated verification together, however the commands answer.
\<close>

theorem commands_within_budget:
  assumes "Execute d ctx registered tenantID runID w m = (w', m', Some p, r)" and "0 \<le> ec_MaxExecOpsPerRun (pd_cfg d)"
  shows "int (length (pp_execs p)) \<le> ec_MaxExecOpsPerRun (pd_cfg d)"
proof -
  obtain w1 st where l: "load_run d tenantID runID w = (w1, Inr st)" and dr: "drive d ctx (start_pipe w1 m st) = (p, r)"
    using Execute_drive [OF assms(1)] by metis
  have kept: "budget_kept (start_pipe w1 m st) p" using op_relD [OF budget.drive_kept, of "start_pipe w1 m st" d ctx] dr by simp
  have led: "rs_ledger st = rs_ledger (new_runState d tenantID runID undefined undefined undefined undefined 0)" by (rule load_run_state(2) [OF l])
  then have "within_budget (start_pipe w1 m st)"
    using assms(2) by (simp add: within_budget_def start_pipe_def new_runState_def NewLedger_def)
  moreover have "bl_MaxExecOps (led_Limits (rs_ledger st)) = ec_MaxExecOpsPerRun (pd_cfg d)"
    using led by (simp add: new_runState_def NewLedger_def)
  ultimately show ?thesis using kept by (auto simp: budget_kept_def within_budget_def Let_def start_pipe_def)
qed

theorem commands_within_budget_witness:
  "\<exists>w' m' p r. Execute (ex_pdeps (\<lambda>_. 1)) Background {} ex_tenant ''run_1'' ex_pworld NewMemory = (w', m', Some p, r)
    \<and> length (pp_execs p) \<le> 64"
proof -
  obtain w' m' p r where e: "Execute (ex_pdeps (\<lambda>_. 1)) Background {} ex_tenant ''run_1'' ex_pworld NewMemory = (w', m', Some p, r)"
    using ex_execute by blast
  have "int (length (pp_execs p)) \<le> 64" using commands_within_budget [OF e] by (simp add: ex_pdeps_def)
  then show ?thesis using e by auto
qed

text \<open>The last stage up to the verdict, and from the verdict on.\<close>

lemma complete_run_steps:
  assumes "complete_run d ctx verdict p = (p', Inr x)"
  obtains p1 p2 p3 evt run now rep y z where
    "Finish ((rs_run (pp_st p))\<lparr>run_Report := Some rep\<rparr>) RunCompleted now None = Inr run"
    and "rep_ReadyForReview rep = vd_Passed verdict" and "rv_Evidence (rep_Verification rep) = rs_evidence (pp_st p)"
    and "run_update run (run_Version (rs_run (pp_st p))) p1 = (p2, Inr y)" and "emit d ctx evt p2 = (p3, Inr z)"
    and "(if vd_Passed verdict then thread_transition d ctx ThreadReadyForReview []
       else failThreadAfterCompletion d ctx ''review_blocked'' (Invalidf ''review_blocked'')) p3 = (p', Inr x)"
  using assms unfolding complete_run_def
  by (elim seq_op_Inr, drule_tac storeReportArtifact_Inr)
    (auto simp: add_finding_def addArtifactRef_def upd_st_def get_st_def eng_def pure_step_def Now_def buildReport_def)

lemma failThread_error: "failThreadAfterCompletion d ctx code cause p \<noteq> (p', Inr x)"
  by (auto simp: failThreadAfterCompletion_def throw_op_def elim!: seq_op_Inr)

lemma complete_run_Inr:
  assumes "complete_run d ctx verdict p = (p', Inr x)"
  shows "vd_Passed verdict" and "thread_Status (rs_thread (pp_st p')) = ThreadReadyForReview"
    and "run_Status (rs_run (pp_st p')) = RunCompleted"
    and "\<exists>rep. run_Report (rs_run (pp_st p')) = Some rep \<and> rep_ReadyForReview rep \<and> rv_Evidence (rep_Verification rep) = rs_evidence (pp_st p)"
    and "lookup (st_runs (w_store (pp_world p'))) (run_ID (rs_run (pp_st p'))) = Some (rs_run (pp_st p'))"
proof -
  obtain p1 p2 p3 evt run now rep y z where fin: "Finish ((rs_run (pp_st p))\<lparr>run_Report := Some rep\<rparr>) RunCompleted now None = Inr run"
    and rep: "rep_ReadyForReview rep = vd_Passed verdict" "rv_Evidence (rep_Verification rep) = rs_evidence (pp_st p)"
    and up: "run_update run (run_Version (rs_run (pp_st p))) p1 = (p2, Inr y)" and em: "emit d ctx evt p2 = (p3, Inr z)"
    and last: "(if vd_Passed verdict then thread_transition d ctx ThreadReadyForReview []
       else failThreadAfterCompletion d ctx ''review_blocked'' (Invalidf ''review_blocked'')) p3 = (p', Inr x)"
    by (rule complete_run_steps [OF assms])
  show passed: "vd_Passed verdict" using last failThread_error by (auto split: if_splits)
  note T = thread_transition_Inr [OF last [unfolded if_P [OF passed]]] and E = emit_Inr [OF em] and U = run_update_Inr [OF up]
  have run: "rs_run (pp_st p') = rs_run (pp_st p2)" using arg_cong [OF T(2), of rs_run] E(1) by simp
  show "thread_Status (rs_thread (pp_st p')) = ThreadReadyForReview" by (rule T(1))
  show "run_Status (rs_run (pp_st p')) = RunCompleted"
    and "\<exists>rep. run_Report (rs_run (pp_st p')) = Some rep \<and> rep_ReadyForReview rep \<and> rv_Evidence (rep_Verification rep) = rs_evidence (pp_st p)"
    and "lookup (st_runs (w_store (pp_world p'))) (run_ID (rs_run (pp_st p'))) = Some (rs_run (pp_st p'))"
    using U fin rep passed T(4) E(2) unfolding run
    by (auto simp: Finish_def Run_TransitionTo_def split: sum.splits if_splits)
qed

text \<open>
  C8: what success means. When the last stage returns without an error and the reviewer is the
  deterministic one, the run is stored as completed with a report that says it is ready, the thread
  is ready for review, every success criterion of the specification has a passing evidence record in
  that report, and no forbidden pattern occurs in the diff between the base and the integrated commit.
\<close>

theorem success_means_ready:
  assumes "stageReviewAndReport d ctx p = (p', Inr ())" and "pd_review d = Review maxDiffLines"
  shows "\<exists>run rep out diff. lookup (st_runs (w_store (pp_world p'))) (run_ID run) = Some run \<and> run = rs_run (pp_st p')
    \<and> run_Status run = RunCompleted \<and> run_Report run = Some rep \<and> rep_ReadyForReview rep
    \<and> thread_Status (rs_thread (pp_st p')) = ThreadReadyForReview
    \<and> rs_spec (pp_st p) = Some out \<and> sc_SuccessCriteria (out_Spec out) \<noteq> []
    \<and> (\<forall>c \<in> set (sc_SuccessCriteria (out_Spec out)). \<exists>ev \<in> set (rv_Evidence (rep_Verification rep)). ev_Passed ev \<and> ev_Criterion ev = c)
    \<and> Diff (rs_repo (pp_st p)) (rs_baseSHA (pp_st p)) (ri_SHA (rs_integrated (pp_st p))) (pp_scm p) = Inr diff
    \<and> (\<forall>pat \<in> set forbiddenPatterns. find_pat pat diff = [])"
proof -
  obtain p1 diff out verdict where t: "thread_transition d ctx ThreadReviewing [] p = (p1, Inr ())"
    and diff: "Diff (rs_repo (pp_st p1)) (rs_baseSHA (pp_st p1)) (ri_SHA (rs_integrated (pp_st p1))) (pp_scm p1) = Inr diff"
    and out: "rs_spec (pp_st p1) = Some out"
    and rev: "pd_review d \<lparr>rin_Spec = out_Spec out, rin_Diff = diff, rin_Evidence = rs_evidence (pp_st p1)\<rparr> = Inr verdict"
    and run: "complete_run d ctx verdict p1 = (p', Inr ())"
    using assms(1) unfolding stageReviewAndReport_def
    by (elim seq_op_Inr) (auto simp: get_st_def try_op_def scm_read_def throw_op_def failRun_error split: sum.splits option.splits)
  note T = thread_transition_Inr [OF t] and C = complete_run_Inr [OF run]
  have same: "rs_repo (pp_st p1) = rs_repo (pp_st p)" "rs_baseSHA (pp_st p1) = rs_baseSHA (pp_st p)" "rs_spec (pp_st p1) = rs_spec (pp_st p)"
      "rs_integrated (pp_st p1) = rs_integrated (pp_st p)"
    using arg_cong [OF T(2), of rs_repo] arg_cong [OF T(2), of rs_baseSHA] arg_cong [OF T(2), of rs_spec] arg_cong [OF T(2), of rs_integrated]
    by simp_all
  have "vd_Passed verdict \<longleftrightarrow> sc_SuccessCriteria (out_Spec out) \<noteq> [] \<and> unmet (out_Spec out) (rs_evidence (pp_st p1)) = []
      \<and> (\<forall>pat \<in> set forbiddenPatterns. \<not> occurs (fp_re pat) diff)"
    using Review_run [of maxDiffLines "\<lparr>rin_Spec = out_Spec out, rin_Diff = diff, rin_Evidence = rs_evidence (pp_st p1)\<rparr>"] rev assms(2)
    by auto
  then show ?thesis
    using C diff out T(3) unfolding same by (auto simp: unmet_empty find_pat_iff [symmetric])
qed

text \<open>A run in its last stage, with the evidence its specification asks for.\<close>

definition ex_out :: Output where
  "ex_out = \<lparr>out_Spec = \<lparr>sc_Outcome = ''o'', sc_Assumptions = [], sc_Requirements = [], sc_NonGoals = [], sc_SuccessCriteria = [''tests pass''],
     sc_Blockers = []\<rparr>, out_Tasks = [], out_IntegratedVerification = [[''all'']]\<rparr>"

definition ex_scm :: Memory where
  "ex_scm = fst (Init ex_sha ex_handle \<lparr>seed_DefaultBranch = ''main'', seed_Files = [(''f'', Some ''y'')]\<rparr> NewMemory)"

definition ex_last_run :: Run where
  "ex_last_run = (ex_run ''run_1'' ''k1'')\<lparr>run_TenantID := ex_tenant, run_Status := RunReporting\<rparr>"

definition ex_last_thread :: Thread where
  "ex_last_thread = ex_thread\<lparr>thread_TenantID := ex_tenant, thread_Status := ThreadExecuting\<rparr>"

definition ex_reporting :: pipe where
  "ex_reporting = start_pipe
     \<lparr>w_store = ex_pstore\<lparr>st_threads := [(''h'', ex_last_thread)], st_runs := [(''run_1'', ex_last_run)]\<rparr>,
      w_clock = int, w_ticks = 1, w_rand = (\<lambda>_. zeros), w_draws = 0\<rparr> ex_scm
     ((new_runState (ex_pdeps (\<lambda>_. 0)) ex_tenant ''run_1'' ex_last_run ex_last_thread ex_project \<lparr>seed_DefaultBranch = ''main'', seed_Files = []\<rparr> 1)
       \<lparr>rs_repo := ex_handle, rs_baseSHA := ''a'', rs_spec := Some ex_out,
        rs_integrated := \<lparr>ri_Branch = ''i'', ri_SHA = ''a'', ri_Conflicts = []\<rparr>,
        rs_evidence := [\<lparr>ev_Criterion = ''tests pass'', ev_Command = [''all''], ev_ExitCode = 0, ev_Passed = True, ev_LogArtifactID = [], ev_At = 0\<rparr>]\<rparr>)"

lemma ex_synced: "synced (ex_pdeps code) ex_reporting"
  by (simp add: synced_def ex_reporting_def start_pipe_def new_runState_def ex_last_run_def ex_last_thread_def ex_run_def ex_thread_def
      ex_pstore_def empty_store_def struct_ok_def env_ok_def ex_pdeps_def ex_deps_def zeros_def map_ok_def)

lemma ex_reporting_fields:
  "run_Status (rs_run (pp_st ex_reporting)) = RunReporting" "thread_Status (rs_thread (pp_st ex_reporting)) = ThreadExecuting"
  "rs_spec (pp_st ex_reporting) = Some ex_out" "run_ID (rs_run (pp_st ex_reporting)) = ''run_1''"
  "w_rand (pp_world ex_reporting) = (\<lambda>_. zeros)" "st_artifacts (w_store (pp_world ex_reporting)) = []"
  "pp_done ex_reporting = False"
  by (simp_all add: ex_reporting_def start_pipe_def new_runState_def ex_last_run_def ex_last_thread_def ex_run_def ex_thread_def
      ex_pstore_def empty_store_def)

definition ex_diff :: string where
  "ex_diff = ''diff --summary base..head'' @ [newline] @ ''unchanged file f'' @ [newline]"

lemma ex_reporting_diff:
  "Diff ex_handle ''a'' ''a'' ex_scm = Inr (ex_diff)"
  by code_simp

lemma ex_reporting_review:
  "\<exists>v. Review 2000 \<lparr>rin_Spec = out_Spec ex_out, rin_Diff = ex_diff,
     rin_Evidence = rs_evidence (pp_st ex_reporting)\<rparr> = Inr v \<and> vd_Passed v"
proof -
  have "unmet (out_Spec ex_out) (rs_evidence (pp_st ex_reporting)) = []"
    by (simp add: unmet_def ex_out_def ex_reporting_def start_pipe_def)
  moreover have "\<forall>pat \<in> set forbiddenPatterns. find_pat pat (ex_diff) = []" by code_simp
  ultimately show ?thesis
    using Review_run [of 2000 "\<lparr>rin_Spec = out_Spec ex_out, rin_Diff = ex_diff,
      rin_Evidence = rs_evidence (pp_st ex_reporting)\<rparr>"]
    by (auto simp: find_pat_iff [symmetric] ex_out_def)
qed

lemma ex_report_stored:
  assumes "w_rand (pp_world q) = w_rand (pp_world ex_reporting)" and "st_artifacts (w_store (pp_world q)) = st_artifacts (w_store (pp_world ex_reporting))"
    and "synced (ex_pdeps code) q"
  shows "\<exists>q' ref. storeReportArtifact (ex_pdeps code) ctx (Some rep) q = (q', Inr ref) \<and> synced (ex_pdeps code) q' \<and> pp_st q' = pp_st q"
proof -
  have "ParseArtifactID (ex_id PrefixArtifact) = Inr (ex_id PrefixArtifact)"
    by (simp add: ParseArtifactID_def ex_id_def newPrefixed_def validatePrefixed_def PrefixArtifact_def idSeparator_def
        minIDRandomChars_def maxIDSuffixLen_def id_char_def is_lower_def list_all_length)
  then obtain q' ref where "storeReportArtifact (ex_pdeps code) ctx (Some rep) q = (q', Inr ref)" "synced (ex_pdeps code) q'" "pp_st q' = pp_st q"
    by (rule storeReportArtifact_runs [OF assms(3), of "ex_id PrefixArtifact", rotated])
      (simp_all add: assms(1,2) ex_reporting_fields ex_pdeps_def MaxArtifactBytes_def)
  then show ?thesis by blast
qed

lemma ex_review_stage: "\<exists>p'. stageReviewAndReport (ex_pdeps (\<lambda>_. 0)) Background ex_reporting = (p', Inr ())"
proof -
  have "pd_review (ex_pdeps (\<lambda>_. 0)) = Review 2000" "Diff (rs_repo (pp_st ex_reporting)) (rs_baseSHA (pp_st ex_reporting))
      (ri_SHA (rs_integrated (pp_st ex_reporting))) (pp_scm ex_reporting) = Inr (ex_diff)"
    using ex_reporting_diff by (simp_all add: ex_pdeps_def ex_reporting_def start_pipe_def)
  moreover obtain v where "Review 2000 \<lparr>rin_Spec = out_Spec ex_out, rin_Diff = ex_diff, rin_Evidence = rs_evidence (pp_st ex_reporting)\<rparr> = Inr v"
      "vd_Passed v" using ex_reporting_review by blast
  moreover have "\<not> ctx_inUnit Background" by (simp add: Background_def)
  ultimately show ?thesis
    by (intro review_stage_runs [OF ex_synced _ ex_reporting_fields(1,2) _ ex_reporting_fields(3) _ _ ex_report_stored]) simp_all
qed

theorem success_means_ready_witness:
  "\<exists>p' run. stageReviewAndReport (ex_pdeps (\<lambda>_. 0)) Background ex_reporting = (p', Inr ())
    \<and> lookup (st_runs (w_store (pp_world p'))) (run_ID run) = Some run \<and> run_Status run = RunCompleted"
proof -
  obtain p' where p': "stageReviewAndReport (ex_pdeps (\<lambda>_. 0)) Background ex_reporting = (p', Inr ())" using ex_review_stage by blast
  have "pd_review (ex_pdeps (\<lambda>_. 0)) = Review 2000" by (simp add: ex_pdeps_def)
  from success_means_ready [OF p' this] show ?thesis using p' by blast
qed

text \<open>
  C10: failing a run ends it. Whatever made the engine give up on a run it holds as planning, executing, integrating,
  verifying or reporting, the engine returns an error. If the stored row is still the one the engine read (same tenant and
  version), the run is stored as failed with that code and a report that is not ready, or as cancelled when the context
  was cancelled, even if entropy, the event or the thread's update fails after it. If not, because
  another epoch wrote or removed the run, the store is left exactly as it was.
\<close>

theorem failing_run_ends:
  assumes "\<not> Terminal (run_Status (rs_run (pp_st p)))" and "run_Status (rs_run (pp_st p)) \<noteq> RunPending"
  shows "\<exists>p' e. failRun d ctx code cause p = (p', Inl e)
    \<and> (if run_current p then
         \<exists>run. lookup (st_runs (w_store (pp_world p'))) (run_ID (rs_run (pp_st p))) = Some run
         \<and> (if pp_done p \<or> pd_cancelled d (pp_looks p) then run_Status run = RunCancelled
            else run_Status run = RunFailed \<and> (\<exists>f rep. run_Failure run = Some f \<and> fi_Code f = code
               \<and> run_Report run = Some rep \<and> \<not> rep_ReadyForReview rep))
       else w_store (pp_world p') = w_store (pp_world p))"
proof -
  let ?c = "pp_done p \<or> pd_cancelled d (pp_looks p)"
  let ?p = "\<lambda>n. p\<lparr>pp_looks := n, pp_done := ?c\<rparr>"
  have run: "failRun d ctx code cause p = (if ?c then settle_cancelled d ctx (?p (pp_looks p + 2)) else fail_now d ctx code cause (?p (pp_looks p + 1)))"
    by (simp add: failRun_def checkCancelled_def seq_op_def [of "ctx_Err d"] ctx_Err_def Let_def)
  obtain p' e where out: "failRun d ctx code cause p = (p', Inl e)"
    using failRun_error [of d ctx code cause p] by (cases "failRun d ctx code cause p") (metis sum.exhaust)
  show ?thesis
  proof (cases "run_current p")
    case cur: True
    show ?thesis
    proof (cases ?c)
      case True
      then show ?thesis using settle_cancelled_ends [of "?p (pp_looks p + 2)" d ctx] assms cur out run by auto
    next
      case False
      then show ?thesis using fail_now_ends [of "?p (pp_looks p + 1)" d ctx code cause] assms cur out run by auto
    qed
  next
    case False
    then show ?thesis
      using stale_end [of "?p (pp_looks p + 2)" d ctx] stale_end(2) [of "?p (pp_looks p + 1)" d ctx code cause] assms out run by (auto split: if_splits)
  qed
qed

theorem failing_run_ends_witness:
  "\<exists>p' e run. failRun (ex_pdeps (\<lambda>_. 0)) Background ''review_diff'' Foreign ex_reporting = (p', Inl e)
    \<and> lookup (st_runs (w_store (pp_world p'))) ''run_1'' = Some run \<and> run_Status run = RunFailed"
proof -
  have live: "\<not> pd_cancelled (ex_pdeps (\<lambda>_. 0)) n" for n by (simp add: ex_pdeps_def)
  have "run_current ex_reporting" using ex_synced by (simp add: synced_def run_current_def)
  then show ?thesis
    using failing_run_ends [of ex_reporting "ex_pdeps (\<lambda>_. 0)" Background "''review_diff''" Foreign] live
    by (auto simp: ex_reporting_fields Terminal_def)
qed

subsection \<open>A second attempt\<close>

definition opened_same :: "pipe \<Rightarrow> pipe \<Rightarrow> bool" where
  "opened_same p p' \<longleftrightarrow> pp_scm p' = pp_scm p \<and> rs_repo (pp_st p') = rs_repo (pp_st p) \<and> pp_execs p' = pp_execs p"

interpretation opened_same: step_relation opened_same
  by unfold_locales (auto simp: transp_def opened_same_def fixed_fields_def)

lemma attemptTask_until_branch:
  assumes "attemptTask d ctx i tmpl p = (p', r)" and "i < length (rs_tasks (pp_st p))"
    and "branch_at (pp_scm p) (repoKey (rs_repo (pp_st p))) (branchForTask (pd_lower d) (rs_tasks (pp_st p) ! i)) \<noteq> None"
  shows "isl r \<and> opened_same p p'"
proof -
  let ?prep = "seq_op (or_else (newWorkspace d ctx) (\<lambda>e. throw_op (Wrapped e))) (\<lambda>sbx.
     seq_op (task_transition d ctx i TaskProvisioning) (\<lambda>_. return_op sbx))"
  obtain q s where q: "?prep p = (q, s)" by fastforce
  have same: "opened_same p q" using op_relD [of opened_same ?prep p] q by (simp add: opened_same.steps)
  have "tasks_kept p q" using op_relD [of tasks_kept ?prep p] q by (simp add: kept)
  then have i: "i < length (rs_tasks (pp_st q))" and "task_Name (rs_tasks (pp_st q) ! i) = task_Name (rs_tasks (pp_st p) ! i)"
    using assms(2) by (auto simp: tasks_kept_def list_eq_iff_nth_eq task_key_def)
  then have name: "branchForTask (pd_lower d) (rs_tasks (pp_st q) ! i) = branchForTask (pd_lower d) (rs_tasks (pp_st p) ! i)"
    by (simp add: branchForTask_def)
  have "attemptTask d ctx i tmpl = seq_op ?prep (\<lambda>sbx. seq_op (task_at i) (\<lambda>task. seq_op (get_st id) (\<lambda>st.
     let branch = branchForTask (pd_lower d) task in
     seq_op (scm (CreateBranch (rs_repo st) branch (project_DefaultBranch (rs_project st)))) (\<lambda>_.
       attempt_work d ctx i tmpl sbx (rs_repo st) branch (task_ID task)))))"
    unfolding attemptTask_def budget.seq_assoc by simp
  note run = fun_cong [OF this, of p]
  show ?thesis
  proof (cases s)
    case (Inl e)
    then show ?thesis using run assms(1) q same by simp
  next
    case (Inr sbx)
    have "\<exists>e. CreateBranch (rs_repo (pp_st q)) (branchForTask (pd_lower d) (rs_tasks (pp_st q) ! i))
        (project_DefaultBranch (rs_project (pp_st q))) (pp_scm q) = (pp_scm q, Inl e)"
      using assms(3) same name by (auto simp: CreateBranch_def repo_def branch_at_def opened_same_def split: option.splits)
    then show ?thesis using run assms(1) q Inr i same
      by (auto simp: task_at_def get_st_def scm_def Let_def)
  qed
qed

text \<open>
  C38: a branch that exists stops the attempt. When the branch a task commits to is already there, as
  it is after an earlier attempt of the same task or when another task's name maps to the same branch,
  an attempt fails before anything is committed and before any command is run, so retrying a task
  whose first attempt got as far as its branch can never succeed.
\<close>

theorem existing_branch_stops_attempt:
  assumes "i < length (rs_tasks (pp_st p))"
    and "branch_at (pp_scm p) (repoKey (rs_repo (pp_st p))) (branchForTask (pd_lower d) (rs_tasks (pp_st p) ! i)) \<noteq> None"
  shows "\<exists>p' e. attemptTask d ctx i tmpl p = (p', Inl e) \<and> pp_scm p' = pp_scm p \<and> pp_execs p' = pp_execs p"
  using attemptTask_until_branch [OF _ assms] by (cases "attemptTask d ctx i tmpl p") (auto simp: isl_def opened_same_def)

definition ex_retried :: pipe where
  "ex_retried = ex_reporting\<lparr>pp_st := (pp_st ex_reporting)\<lparr>rs_tasks :=
      [\<lparr>task_ID = ''t1'', task_TenantID = ex_tenant, task_RunID = ''run_1'', task_ThreadID = ''h'', task_Name = ''add'', task_Kind = TaskKindCodeChange,
        task_Status = TaskQueued, task_Depth = 0, task_DependsOn = [], task_Attempts = 2, task_MaxAttempts = 3, task_Failure = None, task_Version = 4,
        task_CreatedAt = 0, task_UpdatedAt = 0\<rparr>]\<rparr>,
     pp_scm := fst (CreateBranch ex_handle ''ants/task-add'' ''main'' ex_scm)\<rparr>"

theorem existing_branch_stops_attempt_witness:
  "\<exists>p' e. attemptTask (ex_pdeps (\<lambda>_. 0)) Background 0 zero_template ex_retried = (p', Inl e) \<and> pp_execs p' = []"
proof -
  have "branch_at (fst (CreateBranch ex_handle ''ants/task-add'' ''main'' ex_scm)) (repoKey ex_handle) (''ants/task-'' @ sanitizeBranch (\<lambda>s. s) ''add'') \<noteq> None"
    by code_simp
  then have "branch_at (pp_scm ex_retried) (repoKey (rs_repo (pp_st ex_retried))) (branchForTask (pd_lower (ex_pdeps (\<lambda>_. 0))) (rs_tasks (pp_st ex_retried) ! 0)) \<noteq> None"
    by (simp add: ex_retried_def ex_reporting_def start_pipe_def branchForTask_def ex_pdeps_def)
  from existing_branch_stops_attempt [OF _ this, of Background zero_template] show ?thesis
    by (auto simp: ex_retried_def ex_reporting_def start_pipe_def)
qed

end
