(* ===== verification/Go_Parse.thy ===== *)
theory Go_Parse
  imports Go_Strings
begin

section \<open>Parsing numbers, booleans and white space\<close>

text \<open>
  \<^verbatim>\<open>strings.TrimSpace\<close> on the ASCII white space, \<^verbatim>\<open>strconv.Atoi\<close> and \<^verbatim>\<open>strconv.ParseInt\<close> (base 10, 64
  bits) and \<^verbatim>\<open>strconv.ParseBool\<close>. Decimal digits are read back to the number they print.
\<close>

definition is_space :: "char \<Rightarrow> bool" where
  "is_space c \<longleftrightarrow> c = CHR '' '' \<or> (9 \<le> (of_char c :: nat) \<and> (of_char c :: nat) \<le> 13)"

definition trim_space :: "string \<Rightarrow> string" where
  "trim_space s = rev (dropWhile is_space (rev (dropWhile is_space s)))"

definition decimal :: "string \<Rightarrow> nat" where
  "decimal = foldl (\<lambda>n c. 10 * n + (of_char c - 48)) 0"

definition isASCIIDigits :: "string \<Rightarrow> bool" where
  "isASCIIDigits s \<longleftrightarrow> list_all is_digit s \<and> length s > 0"

definition ParseInt64 :: "string \<Rightarrow> int option" where
  "ParseInt64 s =
     (let neg = (s \<noteq> [] \<and> hd s = CHR ''-''); ds = (if s \<noteq> [] \<and> (hd s = CHR ''-'' \<or> hd s = CHR ''+'') then tl s else s);
          n = int (decimal ds) in
      if \<not> isASCIIDigits ds then None
      else if neg then (if n \<le> 2 ^ 63 then Some (- n) else None)
      else (if n < 2 ^ 63 then Some n else None))"

definition ParseBool :: "string \<Rightarrow> bool option" where
  "ParseBool s =
     (if s \<in> {''1'', ''t'', ''T'', ''true'', ''TRUE'', ''True''} then Some True
      else if s \<in> {''0'', ''f'', ''F'', ''false'', ''FALSE'', ''False''} then Some False
      else None)"

subsection \<open>Laws\<close>

lemma decimal_snoc: "decimal (s @ [c]) = 10 * decimal s + (of_char c - 48)"
  by (simp add: decimal_def)

lemma digit_char: "n < 10 \<Longrightarrow> is_digit (char_of (48 + n))" "n < 10 \<Longrightarrow> of_char (char_of (48 + n) :: char) = 48 + (n :: nat)"
  by (auto simp: is_digit_def less_eq_char_def of_char_of)

lemma decimal_itoa [simp]: "decimal (itoa n) = n"
proof (induction n rule: itoa.induct)
  case (1 n)
  show ?case
  proof (cases "n < 10")
    case True
    then show ?thesis by (subst itoa.simps) (simp add: decimal_def digit_char)
  next
    case False
    then have "decimal (itoa n) = 10 * (n div 10) + n mod 10"
      using 1 by (subst itoa.simps) (simp add: decimal_snoc digit_char)
    then show ?thesis by simp
  qed
qed

lemma itoa_digits: "isASCIIDigits (itoa n)"
proof (induction n rule: itoa.induct)
  case (1 n)
  then show ?case by (subst itoa.simps) (simp add: isASCIIDigits_def digit_char)
qed

lemma digit_not_sign: "is_digit c \<Longrightarrow> c \<noteq> CHR ''-'' \<and> c \<noteq> CHR ''+''"
  by (auto simp: is_digit_def less_eq_char_def)

lemma ParseInt64_digits:
  assumes "isASCIIDigits s"
  shows "ParseInt64 s = (if decimal s < 2 ^ 63 then Some (int (decimal s)) else None)"
proof -
  have "hd s \<noteq> CHR ''-''" "hd s \<noteq> CHR ''+''" "s \<noteq> []"
    using assms digit_not_sign [of "hd s"] by (auto simp: isASCIIDigits_def list_all_iff)
  then show ?thesis using assms by (simp add: ParseInt64_def Let_def)
qed

lemma ParseInt64_itoa: "ParseInt64 (itoa n) = (if n < 2 ^ 63 then Some (int n) else None)"
  by (simp add: ParseInt64_digits [OF itoa_digits])

end
