(* ===== verification/App_Config.thy ===== *)
theory App_Config
  imports Domain_Runs Go_Parse
begin

section \<open>Configuration (internal/config)\<close>

text \<open>
  The layered configuration: defaults, then an optional file, then the environment, then validation.
  Parsing an address, a URL, an IP address or a duration and decoding the file are arguments
  (\<open>CParse\<close>, \<open>decode\<close>); integers and booleans are parsed as \<^verbatim>\<open>strconv\<close> does. The modes and drivers are
  strings, as in the source, so that an unsupported one can be written down. Errors of this package
  are untyped (\<open>Foreign\<close>).
\<close>

subsection \<open>The blocks\<close>

record ServerBlock =
  srv_HTTPAddr :: string
  srv_ReadTimeout :: Duration
  srv_WriteTimeout :: Duration
  srv_IdleTimeout :: Duration
  srv_ShutdownTimeout :: Duration
  srv_ReadinessTimeout :: Duration

record OIDC =
  oidc_IssuerURL :: string
  oidc_Audience :: string
  oidc_TenantClaim :: string
  oidc_JWKSRefreshInterval :: Duration
  oidc_ClockSkew :: Duration
  oidc_HTTPTimeout :: Duration

record PostgresPool =
  pool_MaxOpenConns :: int
  pool_MaxIdleConns :: int
  pool_ConnMaxLifetime :: Duration

record StoreBlock =
  stc_Mode :: string
  stc_PostgresPool :: PostgresPool
  stc_PostgresDSN :: string

record Orchestrator =
  orc_MaxParallelTasks :: int
  orc_MaxTasksPerRun :: int
  orc_MaxExecOpsPerRun :: int
  orc_TaskTimeout :: Duration
  orc_StageTimeout :: Duration
  orc_MaxAttempts :: int
  orc_RetryBackoffBase :: Duration

record SandboxBlock =
  sbc_Driver :: string
  sbc_WorkRoot :: string

record OutboxRetention =
  ret_DeliveredAfter :: Duration
  ret_DiscardedAfter :: Duration
  ret_BatchSize :: int
  ret_Interval :: Duration

record OutboxBlock =
  obc_BatchSize :: int
  obc_Interval :: Duration
  obc_Lease :: Duration
  obc_MaxAttempts :: int
  obc_RetryBackoffBase :: Duration
  obc_Retention :: OutboxRetention

record WorkerBlock =
  wkc_BatchSize :: int
  wkc_Interval :: Duration
  wkc_Lease :: Duration
  wkc_HeartbeatEvery :: Duration
  wkc_CleanupTimeout :: Duration
  wkc_Concurrency :: int
  wkc_MaxAttempts :: int

record LogBlock =
  log_Level :: string
  log_Format :: string

record Config =
  cfg_Server :: ServerBlock
  cfg_OIDC :: OIDC
  cfg_Store :: StoreBlock
  cfg_Orchestrator :: Orchestrator
  cfg_Sandbox :: SandboxBlock
  cfg_SCMDriver :: string
  cfg_AllowLocalCommits :: bool
  cfg_Outbox :: OutboxBlock
  cfg_Worker :: WorkerBlock
  cfg_MetricsEnabled :: bool
  cfg_Log :: LogBlock

definition StoreModeMemory :: string where "StoreModeMemory = ''memory''"
definition StoreModePostgres :: string where "StoreModePostgres = ''postgres''"
definition SandboxDriverProcess :: string where "SandboxDriverProcess = ''process''"
definition SandboxDriverFake :: string where "SandboxDriverFake = ''fake''"
definition SCMDriverMemory :: string where "SCMDriverMemory = ''memory''"
definition SCMDriverLocalGit :: string where "SCMDriverLocalGit = ''local_git''"
definition LogLevels :: "string list" where "LogLevels = [''debug'', ''info'', ''warn'', ''error'']"
definition LogFormats :: "string list" where "LogFormats = [''text'', ''json'']"
definition DefaultTenantClaim :: string where "DefaultTenantClaim = ''ants_tenant''"

subsection \<open>Secrets\<close>

text \<open>Every textual form of a secret is the placeholder; \<open>Redacted\<close> replaces the value itself.\<close>

definition RedactedPlaceholder :: string where "RedactedPlaceholder = ''[REDACTED]''"

definition Secret_String :: "string \<Rightarrow> string" where "Secret_String s = RedactedPlaceholder"

definition Redacted :: "Config \<Rightarrow> Config" where
  "Redacted c = c\<lparr>cfg_Store := (cfg_Store c)\<lparr>stc_PostgresDSN := RedactedPlaceholder\<rparr>\<rparr>"

subsection \<open>Defaults\<close>

abbreviation (input) Minute :: Duration where "Minute \<equiv> 60 * Second"

definition Defaults :: Config where
  "Defaults =
    \<lparr>cfg_Server = \<lparr>srv_HTTPAddr = ''127.0.0.1:8080'', srv_ReadTimeout = 10 * Second, srv_WriteTimeout = 30 * Second,
       srv_IdleTimeout = 120 * Second, srv_ShutdownTimeout = 10 * Second, srv_ReadinessTimeout = 2 * Second\<rparr>,
     cfg_OIDC = \<lparr>oidc_IssuerURL = [], oidc_Audience = [], oidc_TenantClaim = DefaultTenantClaim,
       oidc_JWKSRefreshInterval = 15 * Minute, oidc_ClockSkew = 30 * Second, oidc_HTTPTimeout = 5 * Second\<rparr>,
     cfg_Store = \<lparr>stc_Mode = StoreModeMemory,
       stc_PostgresPool = \<lparr>pool_MaxOpenConns = 10, pool_MaxIdleConns = 5, pool_ConnMaxLifetime = 30 * Minute\<rparr>,
       stc_PostgresDSN = []\<rparr>,
     cfg_Orchestrator = \<lparr>orc_MaxParallelTasks = 4, orc_MaxTasksPerRun = 8, orc_MaxExecOpsPerRun = 64,
       orc_TaskTimeout = 2 * Minute, orc_StageTimeout = 5 * Minute, orc_MaxAttempts = 3, orc_RetryBackoffBase = 100 * Millisecond\<rparr>,
     cfg_Sandbox = \<lparr>sbc_Driver = SandboxDriverProcess, sbc_WorkRoot = []\<rparr>,
     cfg_SCMDriver = SCMDriverLocalGit,
     cfg_AllowLocalCommits = True,
     cfg_Outbox = \<lparr>obc_BatchSize = 100, obc_Interval = 250 * Millisecond, obc_Lease = 30 * Second, obc_MaxAttempts = 5,
       obc_RetryBackoffBase = 500 * Millisecond,
       obc_Retention = \<lparr>ret_DeliveredAfter = 0, ret_DiscardedAfter = 0, ret_BatchSize = 500, ret_Interval = Hour\<rparr>\<rparr>,
     cfg_Worker = \<lparr>wkc_BatchSize = 8, wkc_Interval = 250 * Millisecond, wkc_Lease = 30 * Second, wkc_HeartbeatEvery = 5 * Second,
       wkc_CleanupTimeout = 10 * Second, wkc_Concurrency = 4, wkc_MaxAttempts = 3\<rparr>,
     cfg_MetricsEnabled = True,
     cfg_Log = \<lparr>log_Level = ''info'', log_Format = ''text''\<rparr>\<rparr>"

subsection \<open>Validation\<close>

record url_parts =
  u_Scheme :: string
  u_Host :: string
  u_Hostname :: string

text \<open>
  \<open>cp_ip host\<close> is \<open>None\<close> when the host is not an IP literal, and otherwise whether it is a loopback one.
\<close>

record CParse =
  cp_hostport :: "string \<Rightarrow> bool"
  cp_url :: "string \<Rightarrow> url_parts option"
  cp_ip :: "string \<Rightarrow> bool option"
  cp_duration :: "string \<Rightarrow> Duration option"

definition require :: "bool \<Rightarrow> unit result" where
  "require b = (if b then Inr () else Inl Foreign)"

fun checks :: "bool list \<Rightarrow> unit result" where
  "checks [] = Inr ()"
| "checks (b # bs) = and_then (require b) (\<lambda>_. checks bs)"

definition PostgresPool_Validate :: "PostgresPool \<Rightarrow> unit result" where
  "PostgresPool_Validate p = checks
     [1 \<le> pool_MaxOpenConns p \<and> pool_MaxOpenConns p \<le> 200,
      1 \<le> pool_MaxIdleConns p \<and> pool_MaxIdleConns p \<le> pool_MaxOpenConns p,
      pool_ConnMaxLifetime p \<ge> Second]"

definition OutboxRetention_Validate :: "OutboxRetention \<Rightarrow> unit result" where
  "OutboxRetention_Validate r = checks
     [ret_DeliveredAfter r \<ge> 0 \<and> ret_DiscardedAfter r \<ge> 0,
      1 \<le> ret_BatchSize r \<and> ret_BatchSize r \<le> 1000,
      ret_Interval r \<ge> Second]"

definition OutboxRetention_Active :: "OutboxRetention \<Rightarrow> bool" where
  "OutboxRetention_Active r \<longleftrightarrow> ret_DeliveredAfter r > 0 \<or> ret_DiscardedAfter r > 0"

definition Outbox_Validate :: "OutboxBlock \<Rightarrow> unit result" where
  "Outbox_Validate b = checks
     [1 \<le> obc_BatchSize b \<and> obc_BatchSize b \<le> 1000,
      obc_Interval b \<ge> 10 * Millisecond,
      obc_Lease b \<ge> Second,
      1 \<le> obc_MaxAttempts b \<and> obc_MaxAttempts b \<le> 100,
      obc_RetryBackoffBase b \<ge> 0]"

definition Worker_Validate :: "WorkerBlock \<Rightarrow> unit result" where
  "Worker_Validate b = checks
     [1 \<le> wkc_BatchSize b \<and> wkc_BatchSize b \<le> 1000,
      wkc_Interval b \<ge> 10 * Millisecond,
      wkc_Lease b \<ge> Second,
      wkc_HeartbeatEvery b \<ge> 10 * Millisecond,
      wkc_Lease b \<ge> 3 * wkc_HeartbeatEvery b,
      wkc_CleanupTimeout b \<ge> 100 * Millisecond,
      1 \<le> wkc_Concurrency b \<and> wkc_Concurrency b \<le> 64,
      1 \<le> wkc_MaxAttempts b \<and> wkc_MaxAttempts b \<le> 10]"

definition IsLoopbackHost :: "CParse \<Rightarrow> string \<Rightarrow> bool" where
  "IsLoopbackHost cp host =
     (if host = ''localhost'' then True
      else (case cp_ip cp host of Some loopback \<Rightarrow> loopback | None \<Rightarrow> False))"

definition OIDC_Configured :: "OIDC \<Rightarrow> bool" where
  "OIDC_Configured b \<longleftrightarrow> oidc_IssuerURL b \<noteq> []"

definition claim_char :: "char \<Rightarrow> bool" where
  "claim_char r \<longleftrightarrow> is_lower r \<or> is_upper r \<or> is_digit r \<or> r = CHR ''_'' \<or> r = CHR ''-''"

definition OIDC_Validate :: "CParse \<Rightarrow> OIDC \<Rightarrow> unit result" where
  "OIDC_Validate cp b =
     (case cp_url cp (oidc_IssuerURL b) of
        None \<Rightarrow> Inl Foreign
      | Some u \<Rightarrow> checks
          [u_Scheme u \<noteq> [] \<and> u_Host u \<noteq> [],
           u_Scheme u = ''https'' \<or> IsLoopbackHost cp (u_Hostname u),
           trim_space (oidc_Audience b) \<noteq> [],
           length (oidc_Audience b) \<le> 255 \<and> list_all (\<lambda>c. c \<notin> {CHR '' '', CHR 0x09, CHR 0x0D, CHR 0x0A}) (oidc_Audience b),
           oidc_TenantClaim b \<noteq> [],
           list_all claim_char (oidc_TenantClaim b),
           Second \<le> oidc_JWKSRefreshInterval b \<and> oidc_JWKSRefreshInterval b \<le> 24 * Hour,
           0 \<le> oidc_ClockSkew b \<and> oidc_ClockSkew b \<le> 5 * Minute,
           100 * Millisecond \<le> oidc_HTTPTimeout b \<and> oidc_HTTPTimeout b \<le> 30 * Second])"

definition auth_Validate :: "CParse \<Rightarrow> OIDC \<Rightarrow> unit result" where
  "auth_Validate cp b =
     (if OIDC_Configured b then (case OIDC_Validate cp b of Inl e \<Rightarrow> Inl (Wrapped e) | Inr _ \<Rightarrow> Inr ())
      else (let def = cfg_OIDC Defaults in require
        (oidc_Audience b = [] \<and> oidc_TenantClaim b = oidc_TenantClaim def
         \<and> oidc_JWKSRefreshInterval b = oidc_JWKSRefreshInterval def \<and> oidc_ClockSkew b = oidc_ClockSkew def
         \<and> oidc_HTTPTimeout b = oidc_HTTPTimeout def)))"

definition store_Validate :: "StoreBlock \<Rightarrow> unit result" where
  "store_Validate b =
     (if stc_Mode b = StoreModePostgres
      then and_then (require (stc_PostgresDSN b \<noteq> [])) (\<lambda>_. PostgresPool_Validate (stc_PostgresPool b))
      else require (stc_Mode b = StoreModeMemory))"

definition Config_Validate :: "CParse \<Rightarrow> Config \<Rightarrow> unit result" where
  "Config_Validate cp c =
     (let s = cfg_Server c; orch = cfg_Orchestrator c in
     and_then (checks
       [srv_HTTPAddr s \<noteq> [],
        cp_hostport cp (srv_HTTPAddr s),
        srv_ReadTimeout s > 0 \<and> srv_WriteTimeout s > 0 \<and> srv_IdleTimeout s > 0 \<and> srv_ShutdownTimeout s > 0 \<and> srv_ReadinessTimeout s > 0]) (\<lambda>_.
     and_then (auth_Validate cp (cfg_OIDC c)) (\<lambda>_.
     and_then (store_Validate (cfg_Store c)) (\<lambda>_.
     and_then (checks
       [1 \<le> orc_MaxParallelTasks orch \<and> orc_MaxParallelTasks orch \<le> 64,
        1 \<le> orc_MaxTasksPerRun orch \<and> orc_MaxTasksPerRun orch \<le> 64,
        1 \<le> orc_MaxExecOpsPerRun orch \<and> orc_MaxExecOpsPerRun orch \<le> 4096,
        orc_TaskTimeout orch > 0 \<and> orc_StageTimeout orch > 0,
        1 \<le> orc_MaxAttempts orch \<and> orc_MaxAttempts orch \<le> 10,
        orc_RetryBackoffBase orch \<ge> 0,
        sbc_Driver (cfg_Sandbox c) \<in> {SandboxDriverProcess, SandboxDriverFake},
        cfg_SCMDriver c \<in> {SCMDriverMemory, SCMDriverLocalGit}]) (\<lambda>_.
     and_then (Outbox_Validate (cfg_Outbox c)) (\<lambda>_.
     and_then (OutboxRetention_Validate (obc_Retention (cfg_Outbox c))) (\<lambda>_.
     and_then (Worker_Validate (cfg_Worker c)) (\<lambda>_.
     checks [log_Level (cfg_Log c) \<in> set LogLevels, log_Format (cfg_Log c) \<in> set LogFormats]))))))))"

subsection \<open>The environment\<close>

text \<open>
  An override is a variable with the function that applies its value; an empty or missing variable
  leaves the configuration alone, except for the DSN, which is taken as it is.
\<close>

type_synonym override = "string option \<Rightarrow> Config \<Rightarrow> Config result"

definition present :: "string option \<Rightarrow> string option" where
  "present v = (case v of Some s \<Rightarrow> if s = [] then None else Some s | None \<Rightarrow> None)"

definition str_var :: "(string \<Rightarrow> Config \<Rightarrow> Config) \<Rightarrow> override" where
  "str_var put v c = (case present v of None \<Rightarrow> Inr c | Some s \<Rightarrow> Inr (put s c))"

definition bool_var :: "(bool \<Rightarrow> Config \<Rightarrow> Config) \<Rightarrow> override" where
  "bool_var put v c = (case present v of None \<Rightarrow> Inr c
     | Some s \<Rightarrow> (case ParseBool s of None \<Rightarrow> Inl Foreign | Some b \<Rightarrow> Inr (put b c)))"

definition int_var :: "(int \<Rightarrow> Config \<Rightarrow> Config) \<Rightarrow> override" where
  "int_var put v c = (case present v of None \<Rightarrow> Inr c
     | Some s \<Rightarrow> (case ParseInt64 s of None \<Rightarrow> Inl Foreign | Some n \<Rightarrow> Inr (put n c)))"

definition dur_var :: "CParse \<Rightarrow> (Duration \<Rightarrow> Config \<Rightarrow> Config) \<Rightarrow> override" where
  "dur_var cp put v c = (case present v of None \<Rightarrow> Inr c
     | Some s \<Rightarrow> (case cp_duration cp (trim_space s) of None \<Rightarrow> Inl (Wrapped Foreign) | Some d \<Rightarrow> Inr (put d c)))"

definition dsn_var :: override where
  "dsn_var v c = (case v of None \<Rightarrow> Inr c | Some dsn \<Rightarrow> Inr (c\<lparr>cfg_Store := (cfg_Store c)\<lparr>stc_PostgresDSN := dsn\<rparr>\<rparr>))"

definition overrides :: "CParse \<Rightarrow> (string \<times> override) list" where
  "overrides cp =
    [(''ANTS_SERVER_HTTP_ADDR'', str_var (\<lambda>v. cfg_Server_update (srv_HTTPAddr_update (\<lambda>_. v)))),
     (''ANTS_SERVER_IDLE_TIMEOUT'', dur_var cp (\<lambda>v. cfg_Server_update (srv_IdleTimeout_update (\<lambda>_. v)))),
     (''ANTS_SERVER_READINESS_TIMEOUT'', dur_var cp (\<lambda>v. cfg_Server_update (srv_ReadinessTimeout_update (\<lambda>_. v)))),
     (''ANTS_AUTH_OIDC_ISSUER_URL'', str_var (\<lambda>v. cfg_OIDC_update (oidc_IssuerURL_update (\<lambda>_. v)))),
     (''ANTS_AUTH_OIDC_AUDIENCE'', str_var (\<lambda>v. cfg_OIDC_update (oidc_Audience_update (\<lambda>_. v)))),
     (''ANTS_AUTH_OIDC_TENANT_CLAIM'', str_var (\<lambda>v. cfg_OIDC_update (oidc_TenantClaim_update (\<lambda>_. v)))),
     (''ANTS_AUTH_OIDC_JWKS_REFRESH_INTERVAL'', dur_var cp (\<lambda>v. cfg_OIDC_update (oidc_JWKSRefreshInterval_update (\<lambda>_. v)))),
     (''ANTS_AUTH_OIDC_CLOCK_SKEW'', dur_var cp (\<lambda>v. cfg_OIDC_update (oidc_ClockSkew_update (\<lambda>_. v)))),
     (''ANTS_AUTH_OIDC_HTTP_TIMEOUT'', dur_var cp (\<lambda>v. cfg_OIDC_update (oidc_HTTPTimeout_update (\<lambda>_. v)))),
     (''ANTS_STORE_MODE'', str_var (\<lambda>v. cfg_Store_update (stc_Mode_update (\<lambda>_. v)))),
     (''ANTS_STORE_POSTGRES_DSN'', dsn_var),
     (''ANTS_STORE_POOL_MAX_OPEN_CONNS'', int_var (\<lambda>v. cfg_Store_update (stc_PostgresPool_update (pool_MaxOpenConns_update (\<lambda>_. v))))),
     (''ANTS_STORE_POOL_MAX_IDLE_CONNS'', int_var (\<lambda>v. cfg_Store_update (stc_PostgresPool_update (pool_MaxIdleConns_update (\<lambda>_. v))))),
     (''ANTS_ORCHESTRATOR_MAX_PARALLEL_TASKS'', int_var (\<lambda>v. cfg_Orchestrator_update (orc_MaxParallelTasks_update (\<lambda>_. v)))),
     (''ANTS_ORCHESTRATOR_MAX_TASKS_PER_RUN'', int_var (\<lambda>v. cfg_Orchestrator_update (orc_MaxTasksPerRun_update (\<lambda>_. v)))),
     (''ANTS_ORCHESTRATOR_MAX_EXEC_OPS_PER_RUN'', int_var (\<lambda>v. cfg_Orchestrator_update (orc_MaxExecOpsPerRun_update (\<lambda>_. v)))),
     (''ANTS_ORCHESTRATOR_TASK_TIMEOUT'', dur_var cp (\<lambda>v. cfg_Orchestrator_update (orc_TaskTimeout_update (\<lambda>_. v)))),
     (''ANTS_ORCHESTRATOR_STAGE_TIMEOUT'', dur_var cp (\<lambda>v. cfg_Orchestrator_update (orc_StageTimeout_update (\<lambda>_. v)))),
     (''ANTS_ORCHESTRATOR_MAX_ATTEMPTS'', int_var (\<lambda>v. cfg_Orchestrator_update (orc_MaxAttempts_update (\<lambda>_. v)))),
     (''ANTS_ORCHESTRATOR_RETRY_BACKOFF_BASE'', dur_var cp (\<lambda>v. cfg_Orchestrator_update (orc_RetryBackoffBase_update (\<lambda>_. v)))),
     (''ANTS_SANDBOX_DRIVER'', str_var (\<lambda>v. cfg_Sandbox_update (sbc_Driver_update (\<lambda>_. v)))),
     (''ANTS_SANDBOX_WORK_ROOT'', str_var (\<lambda>v. cfg_Sandbox_update (sbc_WorkRoot_update (\<lambda>_. v)))),
     (''ANTS_SCM_DRIVER'', str_var (\<lambda>v. cfg_SCMDriver_update (\<lambda>_. v))),
     (''ANTS_POLICY_ALLOW_LOCAL_COMMITS'', bool_var (\<lambda>v. cfg_AllowLocalCommits_update (\<lambda>_. v))),
     (''ANTS_OUTBOX_BATCH_SIZE'', int_var (\<lambda>v. cfg_Outbox_update (obc_BatchSize_update (\<lambda>_. v)))),
     (''ANTS_OUTBOX_INTERVAL'', dur_var cp (\<lambda>v. cfg_Outbox_update (obc_Interval_update (\<lambda>_. v)))),
     (''ANTS_OUTBOX_LEASE'', dur_var cp (\<lambda>v. cfg_Outbox_update (obc_Lease_update (\<lambda>_. v)))),
     (''ANTS_OUTBOX_MAX_ATTEMPTS'', int_var (\<lambda>v. cfg_Outbox_update (obc_MaxAttempts_update (\<lambda>_. v)))),
     (''ANTS_OUTBOX_RETRY_BACKOFF_BASE'', dur_var cp (\<lambda>v. cfg_Outbox_update (obc_RetryBackoffBase_update (\<lambda>_. v)))),
     (''ANTS_OUTBOX_RETENTION_DELIVERED_AFTER'', dur_var cp (\<lambda>v. cfg_Outbox_update (obc_Retention_update (ret_DeliveredAfter_update (\<lambda>_. v))))),
     (''ANTS_OUTBOX_RETENTION_DISCARDED_AFTER'', dur_var cp (\<lambda>v. cfg_Outbox_update (obc_Retention_update (ret_DiscardedAfter_update (\<lambda>_. v))))),
     (''ANTS_OUTBOX_RETENTION_BATCH_SIZE'', int_var (\<lambda>v. cfg_Outbox_update (obc_Retention_update (ret_BatchSize_update (\<lambda>_. v))))),
     (''ANTS_OUTBOX_RETENTION_INTERVAL'', dur_var cp (\<lambda>v. cfg_Outbox_update (obc_Retention_update (ret_Interval_update (\<lambda>_. v))))),
     (''ANTS_WORKER_BATCH_SIZE'', int_var (\<lambda>v. cfg_Worker_update (wkc_BatchSize_update (\<lambda>_. v)))),
     (''ANTS_WORKER_INTERVAL'', dur_var cp (\<lambda>v. cfg_Worker_update (wkc_Interval_update (\<lambda>_. v)))),
     (''ANTS_WORKER_LEASE'', dur_var cp (\<lambda>v. cfg_Worker_update (wkc_Lease_update (\<lambda>_. v)))),
     (''ANTS_WORKER_HEARTBEAT_EVERY'', dur_var cp (\<lambda>v. cfg_Worker_update (wkc_HeartbeatEvery_update (\<lambda>_. v)))),
     (''ANTS_WORKER_CLEANUP_TIMEOUT'', dur_var cp (\<lambda>v. cfg_Worker_update (wkc_CleanupTimeout_update (\<lambda>_. v)))),
     (''ANTS_WORKER_CONCURRENCY'', int_var (\<lambda>v. cfg_Worker_update (wkc_Concurrency_update (\<lambda>_. v)))),
     (''ANTS_WORKER_MAX_ATTEMPTS'', int_var (\<lambda>v. cfg_Worker_update (wkc_MaxAttempts_update (\<lambda>_. v)))),
     (''ANTS_METRICS_ENABLED'', bool_var (\<lambda>v. cfg_MetricsEnabled_update (\<lambda>_. v))),
     (''ANTS_LOG_LEVEL'', str_var (\<lambda>v. cfg_Log_update (log_Level_update (\<lambda>_. v)))),
     (''ANTS_LOG_FORMAT'', str_var (\<lambda>v. cfg_Log_update (log_Format_update (\<lambda>_. v))))]"

fun apply_overrides :: "(string \<Rightarrow> string option) \<Rightarrow> (string \<times> override) list \<Rightarrow> Config \<Rightarrow> Config result" where
  "apply_overrides look [] c = Inr c"
| "apply_overrides look ((key, f) # os) c = and_then (f (look key) c) (apply_overrides look os)"

definition knownEnvVars :: "string list" where
  "knownEnvVars =
    [''ANTS_SERVER_HTTP_ADDR'', ''ANTS_SERVER_IDLE_TIMEOUT'', ''ANTS_SERVER_READINESS_TIMEOUT'',
     ''ANTS_AUTH_OIDC_ISSUER_URL'', ''ANTS_AUTH_OIDC_AUDIENCE'', ''ANTS_AUTH_OIDC_TENANT_CLAIM'',
     ''ANTS_AUTH_OIDC_JWKS_REFRESH_INTERVAL'', ''ANTS_AUTH_OIDC_CLOCK_SKEW'', ''ANTS_AUTH_OIDC_HTTP_TIMEOUT'',
     ''ANTS_STORE_MODE'', ''ANTS_STORE_POSTGRES_DSN'', ''ANTS_STORE_POOL_MAX_OPEN_CONNS'',
     ''ANTS_STORE_POOL_MAX_IDLE_CONNS'', ''ANTS_ORCHESTRATOR_MAX_PARALLEL_TASKS'', ''ANTS_ORCHESTRATOR_MAX_TASKS_PER_RUN'',
     ''ANTS_ORCHESTRATOR_MAX_EXEC_OPS_PER_RUN'', ''ANTS_ORCHESTRATOR_TASK_TIMEOUT'', ''ANTS_ORCHESTRATOR_STAGE_TIMEOUT'',
     ''ANTS_ORCHESTRATOR_MAX_ATTEMPTS'', ''ANTS_ORCHESTRATOR_RETRY_BACKOFF_BASE'', ''ANTS_SANDBOX_DRIVER'',
     ''ANTS_SANDBOX_WORK_ROOT'', ''ANTS_SCM_DRIVER'', ''ANTS_POLICY_ALLOW_LOCAL_COMMITS'', ''ANTS_LOG_LEVEL'',
     ''ANTS_LOG_FORMAT'', ''ANTS_OUTBOX_BATCH_SIZE'', ''ANTS_OUTBOX_INTERVAL'', ''ANTS_OUTBOX_LEASE'',
     ''ANTS_OUTBOX_MAX_ATTEMPTS'', ''ANTS_OUTBOX_RETRY_BACKOFF_BASE'', ''ANTS_OUTBOX_RETENTION_DELIVERED_AFTER'',
     ''ANTS_OUTBOX_RETENTION_DISCARDED_AFTER'', ''ANTS_OUTBOX_RETENTION_BATCH_SIZE'', ''ANTS_OUTBOX_RETENTION_INTERVAL'',
     ''ANTS_WORKER_BATCH_SIZE'', ''ANTS_WORKER_INTERVAL'', ''ANTS_WORKER_LEASE'', ''ANTS_WORKER_HEARTBEAT_EVERY'',
     ''ANTS_WORKER_CLEANUP_TIMEOUT'', ''ANTS_WORKER_CONCURRENCY'', ''ANTS_WORKER_MAX_ATTEMPTS'', ''ANTS_METRICS_ENABLED'']"

text \<open>\<open>environ\<close> is the process environment, one \<open>name=value\<close> string per variable.\<close>

definition unknownAntsVars :: "string list \<Rightarrow> string list" where
  "unknownAntsVars environ =
     [name. kv \<leftarrow> environ, (name, _, ok) \<leftarrow> [strings_Cut (CHR ''='') kv],
      ok \<and> has_prefix ''ANTS_'' name \<and> name \<notin> set knownEnvVars]"

definition ApplyEnv :: "CParse \<Rightarrow> (string \<Rightarrow> string option) \<Rightarrow> string list \<Rightarrow> Config \<Rightarrow> Config result" where
  "ApplyEnv cp look environ c =
     and_then (apply_overrides look (overrides cp) c) (\<lambda>c.
       if unknownAntsVars environ \<noteq> [] then Inl Foreign else Inr c)"

text \<open>
  \<open>file\<close> is \<open>None\<close> when no path is given; otherwise it is the outcome of reading and decoding the file
  over the defaults.
\<close>

definition load :: "CParse \<Rightarrow> (Config \<Rightarrow> Config result) option \<Rightarrow> (string \<Rightarrow> string option) \<Rightarrow> string list \<Rightarrow> Config result" where
  "load cp decode look environ =
     and_then (case decode of None \<Rightarrow> Inr Defaults | Some f \<Rightarrow> (case f Defaults of Inl e \<Rightarrow> Inl (Wrapped e) | Inr c \<Rightarrow> Inr c)) (\<lambda>cfg.
     and_then (ApplyEnv cp look environ cfg) (\<lambda>cfg.
     and_then (Config_Validate cp cfg) (\<lambda>_. Inr cfg)))"

end
