(* ===== verification/Http_Server.thy ===== *)
theory Http_Server
  imports Run_Engine App_Config
begin

section \<open>The HTTP API (internal/server)\<close>

text \<open>
  A handler is an operation that gives a response or an error: an error branch stands for
  \<^verbatim>\<open>writeProblem(w, r, asDomainError(err)); return\<close>, which every handler writes out, and \<open>answered\<close>
  does it once. A response holds the status, the headers and the body as a value (its JSON text is
  the encoder's). Problems keep kind, code and status; their prose is dropped. The authenticator and the readiness check
  are arguments that may change a state of their own next to the world. JSON decoding, address
  parsing and sorting are arguments too.
\<close>

subsection \<open>Requests and responses\<close>

record request =
  rq_Method :: string
  rq_Path :: string
  rq_PathID :: string
  rq_Query :: "(string \<times> string) list"
  rq_Headers :: "(string \<times> string) list"
  rq_Body :: string
  rq_RemoteAddr :: string

text \<open>
  The names of received headers are canonical: a letter is upper case at the start and after a
  hyphen, lower case elsewhere. \<^verbatim>\<open>Header.Get\<close> canonicalizes the name it is asked for and answers the first
  value or the empty string.
\<close>

fun canonical_from :: "bool \<Rightarrow> string \<Rightarrow> string" where
  "canonical_from up [] = []"
| "canonical_from up (c # cs) =
     (if up \<and> is_lower c then char_of (of_char c - 32 :: nat)
      else if \<not> up \<and> is_upper c then char_of (of_char c + 32 :: nat) else c) # canonical_from (c = CHR ''-'') cs"

definition CanonicalHeaderKey :: "string \<Rightarrow> string" where
  "CanonicalHeaderKey = canonical_from True"

definition Header_Get :: "request \<Rightarrow> string \<Rightarrow> string" where
  "Header_Get r name = (case map_of (rq_Headers r) (CanonicalHeaderKey name) of None \<Rightarrow> [] | Some v \<Rightarrow> v)"

definition query_values :: "request \<Rightarrow> string \<Rightarrow> string list" where
  "query_values r name = map snd (filter (\<lambda>(k, _). k = name) (rq_Query r))"

record problem =
  pb_Type :: string
  pb_Code :: string
  pb_Title :: string
  pb_Status :: int
  pb_Instance :: string

datatype body =
    ProblemBody problem
  | StatusBody string
  | TenantBody Tenant
  | ProjectBody Project
  | ProjectsBody "Project list"
  | ThreadBody Thread
  | ThreadsBody "Thread list"
  | MessageBody Message
  | MessagesBody "Message list" int
  | RunBody Run
  | RunsBody "Run list" int
  | RunTasksBody Run "Task list"
  | EventsBody "Event list"
  | ReportBody RunReport
  | TaskBody Task
  | ContentBody bytes

text \<open>\<open>rp_Signals\<close> lists the executions the handler told to stop, an effect outside the store.\<close>

record response =
  rp_Status :: int
  rp_Headers :: "(string \<times> string) list"
  rp_Body :: body
  rp_Signals :: "string list"

definition StatusOK :: int where "StatusOK = 200"
definition StatusCreated :: int where "StatusCreated = 201"
definition StatusAccepted :: int where "StatusAccepted = 202"

text \<open>\<^verbatim>\<open>http.StatusText\<close> on the statuses a problem can have.\<close>

definition StatusText :: "int \<Rightarrow> string" where
  "StatusText s =
     (if s = 400 then ''Bad Request'' else if s = 401 then ''Unauthorized'' else if s = 403 then ''Forbidden''
      else if s = 404 then ''Not Found'' else if s = 408 then ''Request Timeout'' else if s = 409 then ''Conflict''
      else if s = 422 then ''Unprocessable Entity'' else if s = 500 then ''Internal Server Error''
      else if s = 503 then ''Service Unavailable'' else if s = 504 then ''Gateway Timeout'' else [])"

definition writeJSONStatus :: "int \<Rightarrow> body \<Rightarrow> response" where
  "writeJSONStatus status v =
     \<lparr>rp_Status = status,
      rp_Headers = [(''Content-Type'', case v of ProblemBody _ \<Rightarrow> ''application/problem+json; charset=utf-8''
        | _ \<Rightarrow> ''application/json; charset=utf-8'')],
      rp_Body = v, rp_Signals = []\<rparr>"

definition writeJSON :: "int \<Rightarrow> body \<Rightarrow> response" where
  "writeJSON status v = writeJSONStatus status v"

definition writeProblem :: "request \<Rightarrow> ErrorKind \<times> string \<Rightarrow> response" where
  "writeProblem r derr =
     (let status = HTTPStatus (fst derr) in
      writeJSONStatus status (ProblemBody
        \<lparr>pb_Type = ProblemType (fst derr), pb_Code = snd derr, pb_Title = StatusText status, pb_Status = status,
         pb_Instance = rq_Path r\<rparr>))"

definition asDomainError :: "go_error \<Rightarrow> ErrorKind \<times> string" where
  "asDomainError err = (case errors_As err of Some derr \<Rightarrow> derr | None \<Rightarrow> (ErrKindInternal, ''internal''))"

text \<open>\<^verbatim>\<open>writeInternal\<close>: an error of the identifier generator.\<close>

definition newID_or_internal :: "string \<Rightarrow> string eng_op" where
  "newID_or_internal prefix w =
     (case RandomIDs_NewID prefix w of (w', Inl e) \<Rightarrow> (w', Inl (Internalf e ''internal'')) | (w', Inr i) \<Rightarrow> (w', Inr i))"

text \<open>A panic unwinds through the wrappers of an error: nobody wrapped it.\<close>

fun is_panic :: "go_error \<Rightarrow> bool" where
  "is_panic Panic = True"
| "is_panic (Wrapped e) = is_panic e"
| "is_panic _ = False"

subsection \<open>The server\<close>

record Principal =
  pr_TenantID :: string
  pr_Tenant :: Tenant
  pr_ID :: string

record createTenantRequest =
  ctr_Slug :: string
  ctr_Name :: string
  ctr_Region :: string

record createProjectRequest =
  cpr_Slug :: string
  cpr_Name :: string
  cpr_DefaultBranch :: string
  cpr_SeedName :: string

record createThreadRequest =
  cth_ProjectID :: string
  cth_Title :: string

text \<open>
  What the server only calls: strict JSON decoders, the sorts of the listings, the parsing of a peer
  address and the exposition of the metrics library.
\<close>

record addr_class =
  ac_loopback :: bool
  ac_private :: bool
  ac_linkLocal :: bool

record Lib =
  lib_tenant :: "string \<Rightarrow> createTenantRequest option"
  lib_project :: "string \<Rightarrow> createProjectRequest option"
  lib_thread :: "string \<Rightarrow> createThreadRequest option"
  lib_message :: "string \<Rightarrow> string option"
  lib_sortProjects :: "(Project \<Rightarrow> Project \<Rightarrow> bool) \<Rightarrow> Project list \<Rightarrow> Project list"
  lib_sortThreads :: "(Thread \<Rightarrow> Thread \<Rightarrow> bool) \<Rightarrow> Thread list \<Rightarrow> Thread list"
  lib_sortRuns :: "(Run \<Rightarrow> Run \<Rightarrow> bool) \<Rightarrow> Run list \<Rightarrow> Run list"
  lib_sortTasks :: "(Task \<Rightarrow> Task \<Rightarrow> bool) \<Rightarrow> Task list \<Rightarrow> Task list"
  lib_addr :: "string \<Rightarrow> addr_class option"
  lib_exposition :: "request \<Rightarrow> response"

type_synonym ('s, 'a) hop = "'s \<times> world \<Rightarrow> ('s \<times> world) \<times> 'a result"

record 's Server =
  sv_cfg :: Config
  sv_lib :: Lib
  sv_deps :: Deps
  sv_registered :: "string set"
  sv_auth :: "request \<Rightarrow> ('s, Principal) hop"
  sv_ready :: "('s, unit) hop"
  sv_metrics :: bool

definition UnconfiguredAuthenticator :: "request \<Rightarrow> ('s, Principal) hop" where
  "UnconfiguredAuthenticator r sw = (sw, Inl (Error ErrKindUnauthorized ''authentication_not_configured'' None))"

text \<open>An operation on the world inside the larger state.\<close>

definition in_world :: "'a eng_op \<Rightarrow> ('s, 'a) hop" where
  "in_world f sw = (case f (snd sw) of (w', r) \<Rightarrow> ((fst sw, w'), r))"

text \<open>The context of a request: the correlation carrier and the principal, when there is one.\<close>

record rctx =
  rc_ctx :: ctx
  rc_principal :: "Principal option"

type_synonym handler = "rctx \<Rightarrow> request \<Rightarrow> response eng_op"

definition mustPrincipal :: "rctx \<Rightarrow> Principal eng_op" where
  "mustPrincipal c =
     (case rc_principal c of Some p \<Rightarrow> return_op p | None \<Rightarrow> throw_op (Error ErrKindUnauthorized ''no_principal'' None))"

definition decodeStrict :: "(string \<Rightarrow> 'a option) \<Rightarrow> request \<Rightarrow> 'a eng_op" where
  "decodeStrict dec r = (case dec (rq_Body r) of None \<Rightarrow> throw_op (Invalidf ''invalid_body'') | Some x \<Rightarrow> return_op x)"

subsection \<open>Cursors\<close>

definition defaultPageLimit :: int where "defaultPageLimit = 200"

definition parseAfterCursor :: "request \<Rightarrow> int result" where
  "parseAfterCursor r =
     (case query_values r ''after'' of
        [] \<Rightarrow> Inr 0
      | [raw] \<Rightarrow>
          if raw = [] \<or> \<not> isASCIIDigits raw then Inl (Invalidf ''invalid_cursor'')
          else (case ParseInt64 raw of None \<Rightarrow> Inl (Invalidf ''invalid_cursor'') | Some v \<Rightarrow> Inr v)
      | _ \<Rightarrow> Inl (Invalidf ''invalid_cursor''))"

subsection \<open>Health\<close>

definition handleHealth :: handler where
  "handleHealth c r = return_op (writeJSON StatusOK (StatusBody ''ok''))"

definition handleReady :: "('s, unit) hop \<Rightarrow> request \<Rightarrow> ('s, response) hop" where
  "handleReady ready r sw =
     (case ready sw of
        (sw', Inl e) \<Rightarrow> (sw', if is_panic e then Inl e
           else Inr (writeProblem r (case errors_As e of Some derr \<Rightarrow> derr | None \<Rightarrow> (ErrKindTransient, ''store_unavailable''))))
      | (sw', Inr _) \<Rightarrow> (sw', Inr (writeJSON StatusOK (StatusBody ''ready''))))"

subsection \<open>Tenants and projects\<close>

fun PlanTier_name :: "PlanTier \<Rightarrow> string" where
  "PlanTier_name PlanFree = ''free''"
| "PlanTier_name PlanTeam = ''team''"
| "PlanTier_name PlanEnterprise = ''enterprise''"
| "PlanTier_name (PlanOther s) = s"

definition emitTenantEvent :: "Deps \<Rightarrow> ctx \<Rightarrow> Tenant \<Rightarrow> Event eng_op" where
  "emitTenantEvent deps ctx tenant =
     seq_op (newID PrefixEvent) (\<lambda>ident.
     seq_op Now (\<lambda>now.
       store_at (EventRepository_Append (dep_marshal deps)
         ((new_event EventTenantCreated (tenant_ID tenant) ''tenant'' (tenant_ID tenant) 0 []
             [(''slug'', DStr (tenant_Slug tenant)), (''plan'', DStr (PlanTier_name (tenant_Plan tenant)))])
          \<lparr>event_ID := ident, event_OccurredAt := now, event_TraceID := TraceID (ctx_corr ctx) []\<rparr>))))"

definition tenant_unit :: "Deps \<Rightarrow> Tenant \<Rightarrow> ctx \<Rightarrow> Event eng_op" where
  "tenant_unit deps tenant ctx =
     seq_op (on_store (TenantRepository_Create tenant)) (\<lambda>_. emitTenantEvent deps ctx tenant)"

definition handleCreateTenant :: "Lib \<Rightarrow> Deps \<Rightarrow> handler" where
  "handleCreateTenant lib deps c r =
     seq_op (decodeStrict (lib_tenant lib) r) (\<lambda>req.
     seq_op (newID_or_internal PrefixTenant) (\<lambda>idStr.
     seq_op Now (\<lambda>now.
     seq_op (pure_op (NewTenant idStr (ctr_Slug req) (ctr_Name req) PlanFree (ctr_Region req) now)) (\<lambda>tenant.
     seq_op (Do (rc_ctx c) (tenant_unit deps tenant)) (\<lambda>_.
       return_op (writeJSON StatusCreated (TenantBody tenant)))))))"

definition handleCreateProject :: "Lib \<Rightarrow> handler" where
  "handleCreateProject lib c r =
     seq_op (mustPrincipal c) (\<lambda>p.
     seq_op (decodeStrict (lib_project lib) r) (\<lambda>req.
     seq_op (newID_or_internal PrefixProject) (\<lambda>idStr.
     seq_op Now (\<lambda>now.
     seq_op (pure_op (NewProject idStr (pr_TenantID p) (cpr_Slug req) (cpr_Name req) (cpr_DefaultBranch req) (cpr_SeedName req) now)) (\<lambda>project.
     seq_op (on_store (ProjectRepository_Create project)) (\<lambda>_.
       return_op (writeJSON StatusCreated (ProjectBody project))))))))"

definition handleListProjects :: "Lib \<Rightarrow> handler" where
  "handleListProjects lib c r =
     seq_op (mustPrincipal c) (\<lambda>p.
     seq_op (from_store (\<lambda>st. Inr (ProjectRepository_ListByTenant (lib_sortProjects lib) (pr_TenantID p) st))) (\<lambda>projects.
       return_op (writeJSON StatusOK (ProjectsBody projects))))"

subsection \<open>Threads and messages\<close>

definition handleCreateThread :: "Lib \<Rightarrow> handler" where
  "handleCreateThread lib c r =
     seq_op (mustPrincipal c) (\<lambda>p.
     seq_op (decodeStrict (lib_thread lib) r) (\<lambda>req.
     seq_op (pure_op (ParseProjectID (cth_ProjectID req))) (\<lambda>projectID.
     seq_op (from_store (ProjectRepository_Get (pr_TenantID p) projectID)) (\<lambda>_.
     seq_op (newID_or_internal PrefixThread) (\<lambda>idStr.
     seq_op Now (\<lambda>now.
     seq_op (pure_op (NewThread idStr (pr_TenantID p) projectID (cth_Title req) (pr_ID p) now)) (\<lambda>thread.
     seq_op (on_store (ThreadRepository_Create thread)) (\<lambda>_.
       return_op (writeJSON StatusCreated (ThreadBody thread))))))))))"

definition handleListThreads :: "Lib \<Rightarrow> handler" where
  "handleListThreads lib c r =
     seq_op (mustPrincipal c) (\<lambda>p.
     seq_op (from_store (\<lambda>st. Inr (ThreadRepository_ListByTenant (lib_sortThreads lib) (pr_TenantID p) defaultPageLimit st))) (\<lambda>threads.
       return_op (writeJSON StatusOK (ThreadsBody threads))))"

definition handleGetThread :: handler where
  "handleGetThread c r =
     seq_op (mustPrincipal c) (\<lambda>p.
     seq_op (pure_op (ParseThreadID (rq_PathID r))) (\<lambda>threadID.
     seq_op (from_store (ThreadRepository_Get (pr_TenantID p) threadID)) (\<lambda>thread.
       return_op (writeJSON StatusOK (ThreadBody thread)))))"

definition new_message :: "string \<Rightarrow> Principal \<Rightarrow> string \<Rightarrow> string \<Rightarrow> Message" where
  "new_message idStr p threadID text =
     \<lparr>message_ID = idStr, message_TenantID = pr_TenantID p, message_ThreadID = threadID, message_Seq = 0,
      message_Role = RoleUser, message_DeliveryMode = DeliveryImmediate, message_Content = text,
      message_CreatedAt = zero_time\<rparr>"

definition handleAppendMessage :: "Lib \<Rightarrow> handler" where
  "handleAppendMessage lib c r =
     seq_op (mustPrincipal c) (\<lambda>p.
     seq_op (pure_op (ParseThreadID (rq_PathID r))) (\<lambda>threadID.
     seq_op (from_store (ThreadRepository_Get (pr_TenantID p) threadID)) (\<lambda>_.
     seq_op (decodeStrict (lib_message lib) r) (\<lambda>text.
     seq_op (newID_or_internal PrefixMessage) (\<lambda>idStr.
     let msg = new_message idStr p threadID text in
     seq_op (pure_op (Message_Validate msg)) (\<lambda>_.
     seq_op (on_store (ThreadRepository_AppendMessage msg)) (\<lambda>msg.
       return_op (writeJSON StatusCreated (MessageBody msg)))))))))"

definition handleListMessages :: handler where
  "handleListMessages c r =
     seq_op (mustPrincipal c) (\<lambda>p.
     seq_op (pure_op (ParseThreadID (rq_PathID r))) (\<lambda>threadID.
     seq_op (pure_op (parseAfterCursor r)) (\<lambda>after.
     seq_op (from_store (ThreadRepository_Messages (pr_TenantID p) threadID after defaultPageLimit)) (\<lambda>(messages, total).
       return_op (writeJSON StatusOK (MessagesBody messages total))))))"

definition handleListThreadRuns :: "Lib \<Rightarrow> handler" where
  "handleListThreadRuns lib c r =
     seq_op (mustPrincipal c) (\<lambda>p.
     seq_op (pure_op (ParseThreadID (rq_PathID r))) (\<lambda>threadID.
     seq_op (pure_op (parseAfterCursor r)) (\<lambda>after.
     seq_op (from_store (RunRepository_ListByThread (lib_sortRuns lib) (pr_TenantID p) threadID after defaultPageLimit)) (\<lambda>(runs, total).
       return_op (writeJSON StatusOK (RunsBody runs total))))))"

subsection \<open>Runs\<close>

definition start_input :: "Principal \<Rightarrow> string \<Rightarrow> string \<Rightarrow> StartInput" where
  "start_input p threadID key =
     \<lparr>si_TenantID = pr_TenantID p, si_ThreadID = threadID, si_Principal = pr_ID p,
      si_Actor = \<lparr>actor_Type = PrincipalHuman, actor_ID = pr_ID p\<rparr>, si_IdempotencyKey = key\<rparr>"

definition handleStartRun :: "Deps \<Rightarrow> handler" where
  "handleStartRun deps c r =
     seq_op (mustPrincipal c) (\<lambda>p.
     seq_op (pure_op (ParseThreadID (rq_PathID r))) (\<lambda>threadID.
     let key = trim_space (Header_Get r ''Idempotency-Key'') in
     if key = [] then throw_op (Invalidf ''idempotency_key_required'')
     else if length key > MaxIdempotencyKeyLen then throw_op (Invalidf ''idempotency_key_too_long'')
     else seq_op (StartRun deps (rc_ctx c) (start_input p threadID key)) (\<lambda>result.
       return_op (writeJSONStatus StatusAccepted (RunBody (sr_Run result))))))"

definition handleGetRun :: "Lib \<Rightarrow> handler" where
  "handleGetRun lib c r =
     seq_op (mustPrincipal c) (\<lambda>p.
     seq_op (pure_op (ParseRunID (rq_PathID r))) (\<lambda>runID.
     seq_op (from_store (RunRepository_Get (pr_TenantID p) runID)) (\<lambda>run.
     seq_op (from_store (\<lambda>st. Inr (TaskRepository_ListByRun (lib_sortTasks lib) (pr_TenantID p) runID st))) (\<lambda>tasks.
       return_op (writeJSON StatusOK (RunTasksBody run tasks))))))"

definition handleRunEvents :: handler where
  "handleRunEvents c r =
     seq_op (mustPrincipal c) (\<lambda>p.
     seq_op (pure_op (ParseRunID (rq_PathID r))) (\<lambda>runID.
     seq_op (from_store (RunRepository_Get (pr_TenantID p) runID)) (\<lambda>_.
     seq_op (pure_op (parseAfterCursor r)) (\<lambda>after.
     seq_op (from_store (EventRepository_ListByRun (pr_TenantID p) runID after defaultPageLimit)) (\<lambda>events.
       return_op (writeJSON StatusOK (EventsBody events)))))))"

definition handleCancelRun :: "string set \<Rightarrow> handler" where
  "handleCancelRun registered c r =
     seq_op (mustPrincipal c) (\<lambda>p.
     seq_op (pure_op (ParseRunID (rq_PathID r))) (\<lambda>runID.
     seq_op (Cancel registered (pr_TenantID p) runID) (\<lambda>signalled.
       return_op ((writeJSON StatusAccepted (StatusBody ''cancelling''))\<lparr>rp_Signals := [signalled]\<rparr>))))"

definition handleRunReport :: handler where
  "handleRunReport c r =
     seq_op (mustPrincipal c) (\<lambda>p.
     seq_op (pure_op (ParseRunID (rq_PathID r))) (\<lambda>runID.
     seq_op (from_store (RunRepository_Get (pr_TenantID p) runID)) (\<lambda>run.
     case run_Report run of
       Some report \<Rightarrow> if \<not> Terminal (run_Status run) then throw_op (Conflictf ''report_not_ready'')
                      else return_op (writeJSON StatusOK (ReportBody report))
     | None \<Rightarrow> throw_op (Conflictf ''report_not_ready''))))"

subsection \<open>Tasks and artifacts\<close>

definition handleGetTask :: handler where
  "handleGetTask c r =
     seq_op (mustPrincipal c) (\<lambda>p.
     seq_op (pure_op (ParseTaskID (rq_PathID r))) (\<lambda>taskID.
     seq_op (from_store (TaskRepository_Get (pr_TenantID p) taskID)) (\<lambda>task.
       return_op (writeJSON StatusOK (TaskBody task)))))"

fun RetentionClass_name :: "RetentionClass \<Rightarrow> string" where
  "RetentionClass_name RetentionEphemeral = ''ephemeral''"
| "RetentionClass_name RetentionDurable = ''durable''"
| "RetentionClass_name (RetentionOther s) = s"

definition artifact_response :: "Artifact \<Rightarrow> response" where
  "artifact_response artifact =
     \<lparr>rp_Status = StatusOK,
      rp_Headers =
        [(''Content-Type'', case art_Kind artifact of
            ArtifactReport \<Rightarrow> ''application/json; charset=utf-8'' | ArtifactDiff \<Rightarrow> ''text/x-diff; charset=utf-8''
          | _ \<Rightarrow> ''text/plain; charset=utf-8''),
         (''X-Ants-Digest'', art_Digest artifact), (''X-Ants-Retention'', RetentionClass_name (art_Retention artifact))],
      rp_Body = ContentBody (art_Content artifact), rp_Signals = []\<rparr>"

definition handleGetArtifact :: handler where
  "handleGetArtifact c r =
     seq_op (mustPrincipal c) (\<lambda>p.
     seq_op (pure_op (ParseArtifactID (rq_PathID r))) (\<lambda>artifactID.
     seq_op (from_store (ArtifactRepository_Get (pr_TenantID p) artifactID)) (\<lambda>artifact.
       return_op (artifact_response artifact))))"

end
