(* ===== verification/Http_Routes.thy ===== *)
theory Http_Routes
  imports Http_Server
begin

section \<open>Routing and the request chain (server.go, middleware.go)\<close>

text \<open>
  The route table, the matching of \<^verbatim>\<open>net/http\<close>'s mux on it, and the chain around every route: the
  correlation identifier, the authentication gate, panic recovery, the metrics and the request log.
  The mux hands over requests whose path is clean (it redirects others itself); a pattern for GET also
  serves HEAD, a placeholder matches one non-empty segment, and the catch-all is the least specific
  pattern. What a request leaves behind next to the response is its log line and its metric calls.
\<close>

record Route =
  rt_Method :: string
  rt_Path :: string
  rt_Auth :: bool

definition APIRoutes :: "Route list" where
  "APIRoutes =
    [\<lparr>rt_Method = ''GET'', rt_Path = ''/healthz'', rt_Auth = False\<rparr>,
     \<lparr>rt_Method = ''GET'', rt_Path = ''/readyz'', rt_Auth = False\<rparr>,
     \<lparr>rt_Method = ''GET'', rt_Path = ''/metrics'', rt_Auth = False\<rparr>,
     \<lparr>rt_Method = ''POST'', rt_Path = ''/v1/tenants'', rt_Auth = False\<rparr>,
     \<lparr>rt_Method = ''GET'', rt_Path = ''/v1/projects'', rt_Auth = True\<rparr>,
     \<lparr>rt_Method = ''POST'', rt_Path = ''/v1/projects'', rt_Auth = True\<rparr>,
     \<lparr>rt_Method = ''POST'', rt_Path = ''/v1/threads'', rt_Auth = True\<rparr>,
     \<lparr>rt_Method = ''GET'', rt_Path = ''/v1/threads'', rt_Auth = True\<rparr>,
     \<lparr>rt_Method = ''GET'', rt_Path = ''/v1/threads/{id}'', rt_Auth = True\<rparr>,
     \<lparr>rt_Method = ''POST'', rt_Path = ''/v1/threads/{id}/messages'', rt_Auth = True\<rparr>,
     \<lparr>rt_Method = ''GET'', rt_Path = ''/v1/threads/{id}/messages'', rt_Auth = True\<rparr>,
     \<lparr>rt_Method = ''POST'', rt_Path = ''/v1/threads/{id}/runs'', rt_Auth = True\<rparr>,
     \<lparr>rt_Method = ''GET'', rt_Path = ''/v1/threads/{id}/runs'', rt_Auth = True\<rparr>,
     \<lparr>rt_Method = ''GET'', rt_Path = ''/v1/runs/{id}'', rt_Auth = True\<rparr>,
     \<lparr>rt_Method = ''GET'', rt_Path = ''/v1/runs/{id}/events'', rt_Auth = True\<rparr>,
     \<lparr>rt_Method = ''POST'', rt_Path = ''/v1/runs/{id}/cancel'', rt_Auth = True\<rparr>,
     \<lparr>rt_Method = ''GET'', rt_Path = ''/v1/runs/{id}/report'', rt_Auth = True\<rparr>,
     \<lparr>rt_Method = ''GET'', rt_Path = ''/v1/tasks/{id}'', rt_Auth = True\<rparr>,
     \<lparr>rt_Method = ''GET'', rt_Path = ''/v1/artifacts/{id}'', rt_Auth = True\<rparr>]"

subsection \<open>Handlers of routes\<close>

definition metricsHandler :: "Lib \<Rightarrow> handler" where
  "metricsHandler lib c r = return_op (lib_exposition lib r)"

text \<open>The handlers over the world. \<open>None\<close> is the panic for a route without a mapping.\<close>

definition api_handler :: "'s Server \<Rightarrow> Route \<Rightarrow> handler option" where
  "api_handler sv route =
     (let lib = sv_lib sv; deps = sv_deps sv; path = rt_Path route; get = (rt_Method route = ''GET'') in
      if path = ''/healthz'' then Some handleHealth
      else if path = ''/metrics'' then Some (metricsHandler lib)
      else if path = ''/v1/tenants'' then Some (handleCreateTenant lib deps)
      else if path = ''/v1/projects'' then Some (if get then handleListProjects lib else handleCreateProject lib)
      else if path = ''/v1/threads'' then Some (if get then handleListThreads lib else handleCreateThread lib)
      else if path = ''/v1/threads/{id}'' then Some handleGetThread
      else if path = ''/v1/threads/{id}/messages'' then Some (if get then handleListMessages else handleAppendMessage lib)
      else if path = ''/v1/threads/{id}/runs'' then Some (if get then handleListThreadRuns lib else handleStartRun deps)
      else if path = ''/v1/runs/{id}'' then Some (handleGetRun lib)
      else if path = ''/v1/runs/{id}/events'' then Some handleRunEvents
      else if path = ''/v1/runs/{id}/cancel'' then Some (handleCancelRun (sv_registered sv))
      else if path = ''/v1/runs/{id}/report'' then Some handleRunReport
      else if path = ''/v1/tasks/{id}'' then Some handleGetTask
      else if path = ''/v1/artifacts/{id}'' then Some handleGetArtifact
      else None)"

type_synonym 's hhandler = "rctx \<Rightarrow> request \<Rightarrow> ('s, response) hop"

definition route_handler :: "'s Server \<Rightarrow> Route \<Rightarrow> 's hhandler" where
  "route_handler sv route c r =
     (if rt_Path route = ''/readyz'' then handleReady (sv_ready sv) r
      else case api_handler sv route of Some h \<Rightarrow> in_world (h c r) | None \<Rightarrow> throw_op Panic)"

definition unmatched_handler :: "'s hhandler" where
  "unmatched_handler c r = throw_op (NotFoundf ''route'')"

subsection \<open>The mux\<close>

fun match_segments :: "string list \<Rightarrow> string list \<Rightarrow> string option" where
  "match_segments [] [] = Some []"
| "match_segments (p # ps) (s # ss) =
     (if p = ''{id}'' then (if s = [] then None else map_option (\<lambda>_. s) (match_segments ps ss))
      else if p = s then match_segments ps ss else None)"
| "match_segments _ _ = None"

definition match_method :: "string \<Rightarrow> string \<Rightarrow> bool" where
  "match_method pattern method \<longleftrightarrow> pattern = method \<or> pattern = ''GET'' \<and> method = ''HEAD''"

fun match_route :: "Route list \<Rightarrow> string \<Rightarrow> string \<Rightarrow> (Route \<times> string) option" where
  "match_route [] method path = None"
| "match_route (route # rs) method path =
     (case match_segments (split_on (CHR ''/'') (rt_Path route)) (split_on (CHR ''/'') path) of
        Some v \<Rightarrow> if match_method (rt_Method route) method then Some (route, v) else match_route rs method path
      | None \<Rightarrow> match_route rs method path)"

definition registered_routes :: "'s Server \<Rightarrow> Route list" where
  "registered_routes sv = filter (\<lambda>route. \<not> (rt_Path route = ''/metrics'' \<and> \<not> sv_metrics sv)) APIRoutes"

subsection \<open>The request chain\<close>

definition headerCorrelation :: string where "headerCorrelation = ''X-Request-ID''"
definition correlationSourceHeader :: string where "correlationSourceHeader = ''header''"
definition correlationSourceGenerated :: string where "correlationSourceGenerated = ''generated''"

definition resolveCorrelation :: "request \<Rightarrow> world \<Rightarrow> world \<times> (string \<times> string)" where
  "resolveCorrelation r w =
     (let v = Header_Get r headerCorrelation in
      if correlation_Valid v then (w, (v, correlationSourceHeader))
      else (case RandomIDs_NewID PrefixRequest w of
              (w', Inr i) \<Rightarrow> (w', (i, correlationSourceGenerated))
            | (w', Inl _) \<Rightarrow> (w', (PrefixRequest @ ''_generation_failed'', correlationSourceGenerated))))"

text \<open>\<open>lib_addr\<close> splits off the port and parses the address; a failure of either is \<open>None\<close>.\<close>

definition remoteClass :: "Lib \<Rightarrow> request \<Rightarrow> string" where
  "remoteClass lib r =
     (case lib_addr lib (rq_RemoteAddr r) of
        None \<Rightarrow> ''unknown''
      | Some a \<Rightarrow> if ac_loopback a then ''loopback'' else if ac_private a \<or> ac_linkLocal a then ''private'' else ''public'')"

datatype Level = LevelInfo | LevelWarn | LevelError

definition levelFor :: "int \<Rightarrow> Level" where
  "levelFor status = (if status \<ge> 500 then LevelError else if status \<ge> 400 then LevelWarn else LevelInfo)"

record log_line =
  lg_level :: Level
  lg_method :: string
  lg_route :: string
  lg_status :: int
  lg_requestID :: string
  lg_source :: string
  lg_remote :: string

datatype metric_call = HTTPInFlightInc | HTTPInFlightDec | HTTPObserveRequest string string int

record served =
  sd_Response :: response
  sd_Log :: log_line
  sd_Metrics :: "metric_call list"

text \<open>
  What the client gets for the result of a handler: the response, the problem of its error, or, when
  it panicked before writing, the internal problem of the recovery. No handler panics after writing.
\<close>

definition answered :: "request \<Rightarrow> response result \<Rightarrow> response" where
  "answered r res =
     (case res of
        Inr resp \<Rightarrow> resp
      | Inl e \<Rightarrow> if is_panic e then writeProblem r (ErrKindInternal, ''internal'') else writeProblem r (asDomainError e))"

definition add_header :: "string \<times> string \<Rightarrow> response \<Rightarrow> response" where
  "add_header h resp = resp\<lparr>rp_Headers := (CanonicalHeaderKey (fst h), snd h) # rp_Headers resp\<rparr>"

text \<open>The denial of the gate: RFC 6750 asks for the scheme on a 401 of a bearer-protected resource.\<close>

definition denied :: "'s Server \<Rightarrow> request \<Rightarrow> go_error \<Rightarrow> response" where
  "denied sv r e =
     (if is_panic e then writeProblem r (ErrKindInternal, ''internal'')
      else if fst (asDomainError e) = ErrKindUnauthorized \<and> OIDC_Configured (cfg_OIDC (sv_cfg sv))
      then add_header (''WWW-Authenticate'', ''Bearer'') (writeProblem r (asDomainError e))
      else writeProblem r (asDomainError e))"

definition gated :: "'s Server \<Rightarrow> bool \<Rightarrow> 's hhandler \<Rightarrow> ctx \<Rightarrow> request \<Rightarrow> 's \<times> world \<Rightarrow> ('s \<times> world) \<times> response" where
  "gated sv requiresAuth nxt ctx r sw =
     (if requiresAuth then
        (case sv_auth sv r sw of
           (sw', Inl e) \<Rightarrow> (sw', denied sv r e)
         | (sw', Inr p) \<Rightarrow> (case nxt \<lparr>rc_ctx = ctx, rc_principal = Some p\<rparr> r sw' of (sw'', res) \<Rightarrow> (sw'', answered r res)))
      else (case nxt \<lparr>rc_ctx = ctx, rc_principal = None\<rparr> r sw of (sw', res) \<Rightarrow> (sw', answered r res)))"

definition request_ctx :: "string \<Rightarrow> ctx" where
  "request_ctx corrID = Background\<lparr>ctx_corr := correlation_With (ctx_corr Background) corrID\<rparr>"

text \<open>The deferred functions of the chain, once the response is known.\<close>

definition account :: "'s Server \<Rightarrow> string \<Rightarrow> request \<Rightarrow> string \<times> string \<Rightarrow> response \<Rightarrow> served" where
  "account sv route r corr resp =
     \<lparr>sd_Response = add_header (headerCorrelation, fst corr) resp,
      sd_Log = \<lparr>lg_level = levelFor (rp_Status resp), lg_method = rq_Method r, lg_route = route, lg_status = rp_Status resp,
        lg_requestID = fst corr, lg_source = snd corr, lg_remote = remoteClass (sv_lib sv) r\<rparr>,
      sd_Metrics = (if sv_metrics sv
        then [HTTPInFlightInc, HTTPObserveRequest (rq_Method r) route (rp_Status resp), HTTPInFlightDec] else [])\<rparr>"

definition withRequestLog ::
  "'s Server \<Rightarrow> string \<Rightarrow> bool \<Rightarrow> 's hhandler \<Rightarrow> request \<Rightarrow> 's \<times> world \<Rightarrow> ('s \<times> world) \<times> served" where
  "withRequestLog sv route requiresAuth nxt r sw =
     (case resolveCorrelation r (snd sw) of (w1, corr) \<Rightarrow>
     (case gated sv requiresAuth nxt (request_ctx (fst corr)) r (fst sw, w1) of (sw', resp) \<Rightarrow>
       (sw', account sv route r corr resp)))"

definition RouteUnmatched :: string where "RouteUnmatched = ''unmatched''"

definition serve :: "'s Server \<Rightarrow> request \<Rightarrow> 's \<times> world \<Rightarrow> ('s \<times> world) \<times> served" where
  "serve sv r =
     (case match_route (registered_routes sv) (rq_Method r) (rq_Path r) of
        Some (route, v) \<Rightarrow> withRequestLog sv (rt_Path route) (rt_Auth route) (route_handler sv route) (r\<lparr>rq_PathID := v\<rparr>)
      | None \<Rightarrow> withRequestLog sv RouteUnmatched False unmatched_handler r)"

end
