(* ===== verification/App_Build.thy ===== *)
theory App_Build
  imports App_Config Run_Worker Pipeline_Stages Outbox_Services Dispatcher
begin

section \<open>The composition root (internal/app/app.go)\<close>

text \<open>
  \<open>Build\<close> turns a configuration into wired components. What the operating system answers is an
  argument (\<open>BEnv\<close>). A nil pointer stored in an interface is not a nil interface: \<open>iface\<close> keeps the
  two apart, because the guards of the observers compare the interface with nil.
\<close>

datatype iface = NilInterface | Pointer bool

text \<open>\<^verbatim>\<open>if obs != nil { obs.Method() }\<close>, where the method dereferences its receiver.\<close>

definition observe :: "iface \<Rightarrow> unit result" where
  "observe obs = (case obs of NilInterface \<Rightarrow> Inr () | Pointer alive \<Rightarrow> if alive then Inr () else Inl Panic)"

datatype app_store = MemoryStore storeState | PostgresStore

record BEnv =
  be_postgres :: "StoreBlock \<Rightarrow> int \<Rightarrow> unit result"
  be_mkdirTemp :: "unit result"
  be_git :: "unit result"
  be_hostname :: "string option"
  be_pid :: nat

record App =
  app_Config :: Config
  app_Store :: app_store
  app_AllowLocalCommits :: bool
  app_Engine :: EngineConfig
  app_SandboxName :: string
  app_SCMName :: string
  app_Outbox :: DispatcherConfig
  app_outboxObs :: iface
  app_Worker :: "WorkerConfig \<times> string"
  app_workerObs :: iface
  app_opsObs :: iface
  app_Retention :: GCConfig
  app_gcObs :: iface
  app_Metrics :: bool

definition open_store :: "BEnv \<Rightarrow> Config \<Rightarrow> app_store result" where
  "open_store env cfg =
     (if stc_Mode (cfg_Store cfg) = StoreModeMemory
      then (case NewReposWithOptions 0 of Inl e \<Rightarrow> Inl Panic | Inr st \<Rightarrow> Inr (MemoryStore st))
      else if stc_Mode (cfg_Store cfg) = StoreModePostgres
      then (case be_postgres env (cfg_Store cfg) (obc_MaxAttempts (cfg_Outbox cfg)) of
              Inl e \<Rightarrow> Inl (Wrapped e) | Inr _ \<Rightarrow> Inr PostgresStore)
      else Inl Foreign)"

definition NewProcessDriver :: "BEnv \<Rightarrow> string \<Rightarrow> unit result" where
  "NewProcessDriver env workRoot =
     (if workRoot = [] then (case be_mkdirTemp env of Inl e \<Rightarrow> Inl (Wrapped e) | Inr _ \<Rightarrow> Inr ())
      else if \<not> has_prefix ''/'' workRoot then Inl (Invalidf ''sandbox_work_root'')
      else Inr ())"

text \<open>The name of the driver, and whether it exposes the root of a workspace.\<close>

definition buildSandbox :: "BEnv \<Rightarrow> SandboxBlock \<Rightarrow> (string \<times> bool) result" where
  "buildSandbox env b =
     (if sbc_Driver b = SandboxDriverProcess then and_then (NewProcessDriver env (sbc_WorkRoot b)) (\<lambda>_. Inr (''process'', True))
      else if sbc_Driver b = SandboxDriverFake then Inr (''fake'', False)
      else Inl Foreign)"

definition buildSCM :: "BEnv \<Rightarrow> string \<Rightarrow> string result" where
  "buildSCM env driver =
     (if driver = SCMDriverMemory then Inr ''memory''
      else if driver = SCMDriverLocalGit
      then (case be_git env of Inl e \<Rightarrow> Inl (Error ErrKindInvalid ''scm_git_unavailable'' (Some e)) | Inr _ \<Rightarrow> Inr ''local_git'')
      else Inl Foreign)"

definition Engine_New :: "string \<times> bool \<Rightarrow> string \<Rightarrow> EngineConfig \<Rightarrow> EngineConfig result" where
  "Engine_New sandbox scmName cfg =
     (if ec_MaxParallelTasks cfg < 1 \<or> ec_TaskTimeout cfg \<le> 0 \<or> ec_StageTimeout cfg \<le> 0 \<or> ec_MaxAttempts cfg < 1
         \<or> sint (ec_RetryBackoff cfg) < 0 then Inl Foreign
      else if ec_MaxTasksPerRun cfg < 1 \<or> ec_MaxExecOpsPerRun cfg < 1 then Inl Foreign
      else if fst sandbox = ''fake'' \<and> scmName \<noteq> ''memory'' then Inl Foreign
      else if fst sandbox \<noteq> ''fake'' \<and> \<not> snd sandbox then Inl Foreign
      else Inr cfg)"

definition engine_config :: "Orchestrator \<Rightarrow> EngineConfig" where
  "engine_config orch =
     \<lparr>ec_MaxParallelTasks = orc_MaxParallelTasks orch, ec_TaskTimeout = orc_TaskTimeout orch, ec_StageTimeout = orc_StageTimeout orch,
      ec_MaxAttempts = orc_MaxAttempts orch, ec_RetryBackoff = word_of_int (orc_RetryBackoffBase orch),
      ec_MaxTasksPerRun = orc_MaxTasksPerRun orch, ec_MaxExecOpsPerRun = orc_MaxExecOpsPerRun orch\<rparr>"

definition dispatcher_config :: "OutboxBlock \<Rightarrow> DispatcherConfig" where
  "dispatcher_config b =
     \<lparr>dc_BatchSize = obc_BatchSize b, dc_Interval = obc_Interval b, dc_Lease = obc_Lease b, dc_MaxAttempts = obc_MaxAttempts b,
      dc_RetryBackoffBase = word_of_int (obc_RetryBackoffBase b)\<rparr>"

definition worker_config :: "WorkerBlock \<Rightarrow> WorkerConfig" where
  "worker_config b =
     \<lparr>wc_BatchSize = wkc_BatchSize b, wc_Interval = wkc_Interval b, wc_Lease = wkc_Lease b, wc_HeartbeatEvery = wkc_HeartbeatEvery b,
      wc_CleanupTimeout = wkc_CleanupTimeout b, wc_Concurrency = wkc_Concurrency b, wc_MaxAttempts = wkc_MaxAttempts b\<rparr>"

definition gc_config :: "OutboxRetention \<Rightarrow> GCConfig" where
  "gc_config r =
     \<lparr>gc_DeliveredAfter = ret_DeliveredAfter r, gc_DiscardedAfter = ret_DiscardedAfter r, gc_BatchSize = ret_BatchSize r,
      gc_Interval = ret_Interval r\<rparr>"

definition node_id :: "BEnv \<Rightarrow> string" where
  "node_id env = (case be_hostname env of Some h \<Rightarrow> h | None \<Rightarrow> ''unknown-host'') @ ''-'' @ itoa (be_pid env)"

definition wrapped :: "'a result \<Rightarrow> 'a result" where
  "wrapped r = (case r of Inl e \<Rightarrow> Inl (Wrapped e) | Inr x \<Rightarrow> Inr x)"

definition Build :: "CParse \<Rightarrow> BEnv \<Rightarrow> Config \<Rightarrow> App result" where
  "Build cp env cfg =
     and_then (open_store env cfg) (\<lambda>store.
     and_then (wrapped (Config_Validate cp cfg)) (\<lambda>_.
     let collector = cfg_MetricsEnabled cfg; shared = (if collector then Pointer collector else NilInterface) in
     and_then (buildSandbox env (cfg_Sandbox cfg)) (\<lambda>sandbox.
     and_then (buildSCM env (cfg_SCMDriver cfg)) (\<lambda>scmName.
     and_then (wrapped (Engine_New sandbox scmName (engine_config (cfg_Orchestrator cfg)))) (\<lambda>engine.
     and_then (wrapped (Dispatcher_New (dispatcher_config (cfg_Outbox cfg)))) (\<lambda>dispatcher.
     and_then (wrapped (Worker_New (worker_config (cfg_Worker cfg)) (node_id env))) (\<lambda>runWorker.
     and_then (wrapped (GC_New (gc_config (obc_Retention (cfg_Outbox cfg))))) (\<lambda>retention.
     Inr \<lparr>app_Config = cfg, app_Store = store, app_AllowLocalCommits = cfg_AllowLocalCommits cfg, app_Engine = engine,
          app_SandboxName = fst sandbox, app_SCMName = scmName,
          app_Outbox = dispatcher, app_outboxObs = Pointer collector, app_Worker = runWorker, app_workerObs = Pointer collector,
          app_opsObs = shared, app_Retention = retention, app_gcObs = shared, app_Metrics = collector\<rparr>))))))))"

end
