(* ===== verification/Authn_Bearer.thy ===== *)
theory Authn_Bearer
  imports Http_Routes App_Build
begin

section \<open>Bearer authentication (internal/authn)\<close>

text \<open>
  The OIDC resource-server authenticator: the header, the algorithm allowlist, discovery, the cached key
  set with its two refresh paths, and the claim contract. The identity provider's answers, JSON, the
  verification of a signature and the digest are arguments (\<open>Idp\<close>); \<open>idp_net n url\<close> is what the \<open>n\<close>-th
  exchange of the process gets. The state next to the world (\<open>authState\<close>) is the lazily established key
  store, the number of exchanges made and the outcomes reported to the observer.
\<close>

subsection \<open>The credential (bearer.go)\<close>

definition maxTokenBytes :: nat where "maxTokenBytes = 8 * 2 ^ 10"
definition allowedAlgorithm :: string where "allowedAlgorithm = ''RS256''"

definition lower_ascii :: "char \<Rightarrow> char" where
  "lower_ascii c = (if is_upper c then char_of (of_char c + 32 :: nat) else c)"

definition equalFold :: "string \<Rightarrow> string \<Rightarrow> bool" where
  "equalFold a b \<longleftrightarrow> length a = length b \<and> list_all2 (\<lambda>ca cb. lower_ascii ca = cb) a b"

text \<open>The code of the failure, or the token.\<close>

definition extractBearer :: "request \<Rightarrow> string + string" where
  "extractBearer r =
     (let header = Header_Get r ''Authorization''; scheme = ''bearer'' in
      if header = [] then Inl ''missing_bearer_token''
      else if length header < length scheme + 1 \<or> \<not> equalFold (take (length scheme) header) scheme
           \<or> header ! length scheme \<noteq> CHR '' '' then Inl ''invalid_authorization_header''
      else (let token = drop (length scheme + 1) header in
        if token = [] then Inl ''invalid_authorization_header''
        else if length token > maxTokenBytes then Inl ''invalid_authorization_header''
        else Inr token))"

subsection \<open>The compact serialization (discovery.go)\<close>

text \<open>\<^verbatim>\<open>base64.RawURLEncoding.DecodeString\<close>: line breaks are skipped, trailing bits are ignored.\<close>

fun index_of :: "nat \<Rightarrow> string \<Rightarrow> char \<Rightarrow> nat option" where
  "index_of n [] c = None"
| "index_of n (x # xs) c = (if x = c then Some n else index_of (Suc n) xs c)"

fun sextets :: "string \<Rightarrow> nat list option" where
  "sextets [] = Some []"
| "sextets (c # cs) =
     (if c = CHR 0x0A \<or> c = CHR 0x0D then sextets cs
      else (case index_of 0 base64_url_alphabet c of
              None \<Rightarrow> None
            | Some v \<Rightarrow> map_option (\<lambda>vs. v # vs) (sextets cs)))"

fun unpack :: "nat list \<Rightarrow> nat list option" where
  "unpack [] = Some []"
| "unpack [a] = None"
| "unpack [a, b] = Some [4 * a + b div 16]"
| "unpack [a, b, c] = Some [4 * a + b div 16, 16 * (b mod 16) + c div 4]"
| "unpack (a # b # c # d # r) =
     map_option (\<lambda>bs. (4 * a + b div 16) # (16 * (b mod 16) + c div 4) # (64 * (c mod 4) + d) # bs) (unpack r)"

definition RawURLDecode :: "string \<Rightarrow> bytes option" where
  "RawURLDecode s = Option.bind (sextets s) (\<lambda>vs. map_option (map char_of) (unpack vs))"

record compactHeader =
  ch_Alg :: string
  ch_Kid :: string

definition decodeCompactHeader :: "(bytes \<Rightarrow> compactHeader option) \<Rightarrow> string \<Rightarrow> compactHeader option" where
  "decodeCompactHeader json token =
     (let (first, _, ok) = strings_Cut (CHR ''.'') token in
      if \<not> ok \<or> first = [] then None
      else Option.bind (RawURLDecode first) json)"

definition requireCompleteCompact :: "string \<Rightarrow> bool" where
  "requireCompleteCompact token =
     (let parts = split_on (CHR ''.'') token in \<not> (length parts \<noteq> 3 \<or> parts ! 1 = [] \<or> parts ! 2 = []))"

subsection \<open>The identity provider\<close>

record jwk =
  jwk_KeyID :: string
  jwk_Key :: string

record discoveryDoc =
  dd_Issuer :: string
  dd_JWKSURI :: string

text \<open>\<open>tk_Get\<close> gives a claim that is a string; the instants are zero when the claim is absent.\<close>

record Token =
  tk_Issuer :: string
  tk_Audience :: "string list"
  tk_Expiration :: Time
  tk_NotBefore :: Time
  tk_Subject :: string
  tk_Get :: "string \<Rightarrow> string option"

text \<open>An exchange fails, or answers a status with a body; a body that cannot be read is \<open>None\<close>.\<close>

datatype reply = NetError | Reply int "bytes option"

record Idp =
  idp_net :: "nat \<Rightarrow> string \<Rightarrow> reply"
  idp_doc :: "bytes \<Rightarrow> discoveryDoc option"
  idp_jwks :: "bytes \<Rightarrow> jwk list option"
  idp_header :: "bytes \<Rightarrow> compactHeader option"
  idp_verify :: "string \<Rightarrow> jwk list \<Rightarrow> Token option"
  idp_digest :: "bytes \<Rightarrow> string"
  idp_parse :: CParse

definition maxDiscoveryBytes :: nat where "maxDiscoveryBytes = 256 * 2 ^ 10"
definition maxKeysetBytes :: nat where "maxKeysetBytes = 256 * 2 ^ 10"

text \<open>One GET of at most \<open>limit\<close> bytes, counted when the request could be built.\<close>

definition get_body :: "Idp \<Rightarrow> nat \<Rightarrow> string \<Rightarrow> nat \<Rightarrow> nat \<times> bytes result" where
  "get_body idp limit url n =
     (if cp_url (idp_parse idp) url = None then (n, Inl (Wrapped Foreign))
      else (n + 1, case idp_net idp n url of
          NetError \<Rightarrow> Inl (Wrapped Foreign)
        | Reply status body \<Rightarrow>
            if status \<noteq> 200 then Inl Foreign
            else (case body of
                None \<Rightarrow> Inl (Wrapped Foreign)
              | Some b \<Rightarrow> if length b > limit then Inl Foreign else Inr b)))"

definition transport_ok :: "CParse \<Rightarrow> url_parts \<Rightarrow> bool" where
  "transport_ok cp u \<longleftrightarrow> u_Scheme u = ''https'' \<or> (u_Scheme u = ''http'' \<and> IsLoopbackHost cp (u_Hostname u))"

definition discover :: "Idp \<Rightarrow> string \<Rightarrow> nat \<Rightarrow> nat \<times> discoveryDoc result" where
  "discover idp issuerURL n =
     (case get_body idp maxDiscoveryBytes (trim_suffix ''/'' issuerURL @ ''/.well-known/openid-configuration'') n of
        (n, Inl e) \<Rightarrow> (n, Inl e)
      | (n, Inr body) \<Rightarrow>
          (n, case idp_doc idp body of
                None \<Rightarrow> Inl (Wrapped Foreign)
              | Some doc \<Rightarrow>
                  if dd_Issuer doc \<noteq> issuerURL \<and> dd_Issuer doc \<noteq> trim_suffix ''/'' issuerURL then Inl Foreign
                  else (case cp_url (idp_parse idp) (dd_JWKSURI doc) of
                      None \<Rightarrow> Inl Foreign
                    | Some u \<Rightarrow>
                        if u_Scheme u = [] \<or> u_Host u = [] then Inl Foreign
                        else if \<not> transport_ok (idp_parse idp) u then Inl Foreign
                        else Inr doc)))"

text \<open>Redirects of metadata traffic: \<open>via\<close> counts the requests made so far.\<close>

definition idpRedirectPolicy :: "CParse \<Rightarrow> url_parts \<Rightarrow> nat \<Rightarrow> unit result" where
  "idpRedirectPolicy cp u via =
     (if via \<ge> 10 then Inl Foreign
      else if u_Scheme u = ''https'' then Inr ()
      else if u_Scheme u = ''http'' \<and> IsLoopbackHost cp (u_Hostname u) then Inr ()
      else Inl Foreign)"

subsection \<open>The key store (keystore.go)\<close>

definition forcedRefreshFloor :: Duration where "forcedRefreshFloor = Second"

record keyStore =
  ks_url :: string
  ks_ttl :: Duration
  ks_set :: "jwk list option"
  ks_fetchedAt :: Time
  ks_lastForcedAt :: Time

definition newKeyStore :: "string \<Rightarrow> Duration \<Rightarrow> keyStore" where
  "newKeyStore jwksURI ttl = \<lparr>ks_url = jwksURI, ks_ttl = ttl, ks_set = None, ks_fetchedAt = zero_time, ks_lastForcedAt = zero_time\<rparr>"

fun rejectDuplicateKids :: "string list \<Rightarrow> jwk list \<Rightarrow> unit result" where
  "rejectDuplicateKids seen [] = Inr ()"
| "rejectDuplicateKids seen (key # ks) =
     (if jwk_KeyID key = [] then rejectDuplicateKids seen ks
      else if jwk_KeyID key \<in> set seen then Inl Foreign
      else rejectDuplicateKids (jwk_KeyID key # seen) ks)"

type_synonym 'a key_op = "keyStore \<times> nat \<Rightarrow> (keyStore \<times> nat) \<times> 'a result"

definition fetch :: "Idp \<Rightarrow> Time \<Rightarrow> unit key_op" where
  "fetch idp now kn =
     (case get_body idp maxKeysetBytes (ks_url (fst kn)) (snd kn) of
        (n, Inl e) \<Rightarrow> ((fst kn, n), Inl e)
      | (n, Inr body) \<Rightarrow>
          (case idp_jwks idp body of
             None \<Rightarrow> ((fst kn, n), Inl (Wrapped Foreign))
           | Some parsed \<Rightarrow>
               if length parsed = 0 then ((fst kn, n), Inl Foreign)
               else (case rejectDuplicateKids [] parsed of
                   Inl e \<Rightarrow> ((fst kn, n), Inl e)
                 | Inr _ \<Rightarrow> (((fst kn)\<lparr>ks_set := Some parsed, ks_fetchedAt := now\<rparr>, n), Inr ()))))"

text \<open>Fetch, and fall back on a cached set when that fails.\<close>

definition fetch_or_cached :: "Idp \<Rightarrow> Time \<Rightarrow> jwk list key_op" where
  "fetch_or_cached idp now kn =
     (case fetch idp now kn of
        (kn', Inl e) \<Rightarrow> (kn', case ks_set (fst kn') of Some s \<Rightarrow> Inr s | None \<Rightarrow> Inl e)
      | (kn', Inr _) \<Rightarrow> (kn', case ks_set (fst kn') of Some s \<Rightarrow> Inr s | None \<Rightarrow> Inr []))"

definition current :: "Idp \<Rightarrow> Time \<Rightarrow> jwk list key_op" where
  "current idp now kn =
     (case ks_set (fst kn) of
        Some s \<Rightarrow> if now - ks_fetchedAt (fst kn) < ks_ttl (fst kn) then (kn, Inr s) else fetch_or_cached idp now kn
      | None \<Rightarrow> fetch_or_cached idp now kn)"

definition rate_limited :: "Time \<Rightarrow> keyStore \<Rightarrow> bool" where
  "rate_limited now k \<longleftrightarrow> ks_lastForcedAt k \<noteq> zero_time \<and> now - ks_lastForcedAt k < forcedRefreshFloor"

definition refreshForced :: "Idp \<Rightarrow> Time \<Rightarrow> jwk list key_op" where
  "refreshForced idp now kn =
     (if rate_limited now (fst kn) then (kn, case ks_set (fst kn) of Some s \<Rightarrow> Inr s | None \<Rightarrow> Inl Foreign)
      else fetch_or_cached idp now ((fst kn)\<lparr>ks_lastForcedAt := now\<rparr>, snd kn))"

subsection \<open>The authenticator (authenticator.go)\<close>

definition failures :: "(string \<times> ErrorKind \<times> string) list" where
  "failures =
    [(''missing_bearer_token'', ErrKindUnauthorized, ''rejected_missing''),
     (''invalid_authorization_header'', ErrKindUnauthorized, ''rejected_header''),
     (''unsupported_token_algorithm'', ErrKindUnauthorized, ''rejected_algorithm''),
     (''malformed_token'', ErrKindUnauthorized, ''rejected_malformed''),
     (''invalid_token_signature'', ErrKindUnauthorized, ''rejected_signature''),
     (''untrusted_issuer'', ErrKindUnauthorized, ''rejected_issuer''),
     (''audience_mismatch'', ErrKindUnauthorized, ''rejected_audience''),
     (''token_expired'', ErrKindUnauthorized, ''rejected_expired''),
     (''token_not_yet_valid'', ErrKindUnauthorized, ''rejected_not_yet_valid''),
     (''missing_subject'', ErrKindUnauthorized, ''rejected_claims''),
     (''missing_exp'', ErrKindUnauthorized, ''rejected_claims''),
     (''invalid_tenant_claim'', ErrKindUnauthorized, ''rejected_claims''),
     (''unknown_tenant'', ErrKindUnauthorized, ''rejected_tenant''),
     (''auth_provider_unavailable'', ErrKindTransient, ''provider_unavailable''),
     (''tenant_store_unavailable'', ErrKindTransient, ''store_unavailable'')]"

definition ResultAccepted :: string where "ResultAccepted = ''accepted''"

record OIDCBearer =
  ob_cfg :: OIDC
  ob_idp :: Idp
  ob_obs :: iface

record authState =
  as_keys :: "keyStore option"
  as_calls :: nat
  as_results :: "string list"

text \<open>\<^verbatim>\<open>if a.obs != nil { a.obs.AuthToken(result) }\<close>\<close>

definition AuthToken :: "OIDCBearer \<Rightarrow> string \<Rightarrow> (authState, unit) hop" where
  "AuthToken b result aw =
     (case observe (ob_obs b) of
        Inl e \<Rightarrow> (aw, Inl e)
      | Inr _ \<Rightarrow> (if ob_obs b = NilInterface then aw else ((fst aw)\<lparr>as_results := as_results (fst aw) @ [result]\<rparr>, snd aw), Inr ()))"

text \<open>A code that is not in the table would give the zero failure: an empty kind.\<close>

definition fail :: "OIDCBearer \<Rightarrow> string \<Rightarrow> (authState, 'a) hop" where
  "fail b code =
     (case map_of failures code of
        Some (kind, result) \<Rightarrow> seq_op (AuthToken b result) (\<lambda>_. throw_op (Error kind code None))
      | None \<Rightarrow> seq_op (AuthToken b []) (\<lambda>_. throw_op Foreign))"

definition principalIDFor :: "Idp \<Rightarrow> string \<Rightarrow> string \<Rightarrow> string" where
  "principalIDFor idp issuer subject =
     PrefixPrincipal @ ''_'' @ idp_digest idp (''oidc'' @ [CHR 0x00] @ issuer @ [CHR 0x00] @ subject)"

definition slicesContain :: "string list \<Rightarrow> string \<Rightarrow> bool" where
  "slicesContain values want \<longleftrightarrow> list_ex (\<lambda>v. v = want) values"

definition resolve_tenant :: "OIDCBearer \<Rightarrow> string \<Rightarrow> (authState, Tenant) hop" where
  "resolve_tenant b slug aw =
     (case TenantRepository_GetBySlug slug (w_store (snd aw)) of
        Inr tenant \<Rightarrow> (aw, Inr tenant)
      | Inl err \<Rightarrow>
          if is_panic err then (aw, Inl err)
          else (case errors_As err of
              Some (k, _) \<Rightarrow> if k = ErrKindNotFound then fail b ''unknown_tenant'' aw else fail b ''tenant_store_unavailable'' aw
            | None \<Rightarrow> fail b ''tenant_store_unavailable'' aw))"

definition principalFromClaims :: "OIDCBearer \<Rightarrow> Token \<Rightarrow> (authState, Principal) hop" where
  "principalFromClaims b tok =
     (let cfg = ob_cfg b; skew = oidc_ClockSkew cfg in
      if tk_Issuer tok \<noteq> oidc_IssuerURL cfg \<and> tk_Issuer tok \<noteq> trim_suffix ''/'' (oidc_IssuerURL cfg) then fail b ''untrusted_issuer''
      else if \<not> slicesContain (tk_Audience tok) (oidc_Audience cfg) then fail b ''audience_mismatch''
      else seq_op (in_world Now) (\<lambda>now.
        if tk_Expiration tok = zero_time then fail b ''missing_exp''
        else if \<not> tk_Expiration tok > now - skew then fail b ''token_expired''
        else if tk_NotBefore tok \<noteq> zero_time \<and> tk_NotBefore tok > now + skew then fail b ''token_not_yet_valid''
        else if tk_Subject tok = [] then fail b ''missing_subject''
        else (case tk_Get tok (oidc_TenantClaim cfg) of
            None \<Rightarrow> fail b ''invalid_tenant_claim''
          | Some slug \<Rightarrow>
              if ValidateSlug slug \<noteq> Inr () then fail b ''invalid_tenant_claim''
              else seq_op (resolve_tenant b slug) (\<lambda>tenant.
                seq_op (AuthToken b ResultAccepted) (\<lambda>_.
                  return_op \<lparr>pr_TenantID = tenant_ID tenant, pr_Tenant = tenant,
                    pr_ID = principalIDFor (ob_idp b) (oidc_IssuerURL cfg) (tk_Subject tok)\<rparr>)))))"

text \<open>An operation on the established key store.\<close>

definition with_keys :: "keyStore \<Rightarrow> 'a key_op \<Rightarrow> (authState, 'a) hop" where
  "with_keys k f aw =
     (case f (k, as_calls (fst aw)) of ((k', n), r) \<Rightarrow> (((fst aw)\<lparr>as_keys := Some k', as_calls := n\<rparr>, snd aw), r))"

definition establish :: "OIDCBearer \<Rightarrow> (authState, keyStore) hop" where
  "establish b aw =
     (case as_keys (fst aw) of
        Some k \<Rightarrow> (aw, Inr k)
      | None \<Rightarrow>
          (case discover (ob_idp b) (oidc_IssuerURL (ob_cfg b)) (as_calls (fst aw)) of
             (n, Inl e) \<Rightarrow> (((fst aw)\<lparr>as_calls := n\<rparr>, snd aw), Inl e)
           | (n, Inr doc) \<Rightarrow>
               (let k = newKeyStore (dd_JWKSURI doc) (oidc_JWKSRefreshInterval (ob_cfg b)) in
                (((fst aw)\<lparr>as_keys := Some k, as_calls := n\<rparr>, snd aw), Inr k))))"

definition keySet :: "OIDCBearer \<Rightarrow> (authState, jwk list) hop" where
  "keySet b = seq_op (establish b) (\<lambda>k. seq_op (in_world Now) (\<lambda>now. with_keys k (current (ob_idp b) now)))"

text \<open>The forced refresh of the rotation path; the key store is the one \<open>keySet\<close> returned.\<close>

definition refresh_keys :: "OIDCBearer \<Rightarrow> (authState, jwk list) hop" where
  "refresh_keys b aw =
     (case as_keys (fst aw) of
        None \<Rightarrow> (aw, Inl Panic)
      | Some k \<Rightarrow> seq_op (in_world Now) (\<lambda>now. with_keys k (refreshForced (ob_idp b) now)) aw)"

definition verify_or_rotate :: "OIDCBearer \<Rightarrow> string \<Rightarrow> jwk list \<Rightarrow> (authState, Token option) hop" where
  "verify_or_rotate b token keys aw =
     (case idp_verify (ob_idp b) token keys of
        Some tok \<Rightarrow> (aw, Inr (Some tok))
      | None \<Rightarrow>
          (case refresh_keys b aw of
             (aw', Inl e) \<Rightarrow> (aw', if is_panic e then Inl e else Inr None)
           | (aw', Inr refreshed) \<Rightarrow> (aw', Inr (idp_verify (ob_idp b) token refreshed))))"

definition Authenticate :: "OIDCBearer \<Rightarrow> request \<Rightarrow> (authState, Principal) hop" where
  "Authenticate b r =
     (case extractBearer r of
        Inl code \<Rightarrow> fail b code
      | Inr token \<Rightarrow>
          (case decodeCompactHeader (idp_header (ob_idp b)) token of
             None \<Rightarrow> fail b ''malformed_token''
           | Some hdr \<Rightarrow>
               if ch_Alg hdr \<noteq> allowedAlgorithm then fail b ''unsupported_token_algorithm''
               else if \<not> requireCompleteCompact token then fail b ''malformed_token''
               else (\<lambda>aw. case keySet b aw of
                   (aw', Inl e) \<Rightarrow> fail b ''auth_provider_unavailable'' aw'
                 | (aw', Inr keys) \<Rightarrow>
                     seq_op (verify_or_rotate b token keys) (\<lambda>verified.
                       case verified of None \<Rightarrow> fail b ''invalid_token_signature''
                       | Some tok \<Rightarrow> principalFromClaims b tok) aw')))"

definition Ready :: "OIDCBearer \<Rightarrow> (authState, unit) hop" where
  "Ready b aw =
     (case keySet b aw of
        (aw', Inl _) \<Rightarrow> (aw', Inl Foreign)
      | (aw', Inr keys) \<Rightarrow> (aw', if length keys = 0 then Inl Foreign else Inr ()))"

definition NewBearer :: "Idp \<Rightarrow> OIDC \<Rightarrow> iface \<Rightarrow> OIDCBearer result" where
  "NewBearer idp cfg obs =
     (if \<not> OIDC_Configured cfg then Inl Foreign
      else (case OIDC_Validate (idp_parse idp) cfg of
          Inl e \<Rightarrow> Inl (Wrapped e)
        | Inr _ \<Rightarrow> Inr \<lparr>ob_cfg = cfg, ob_idp = idp, ob_obs = obs\<rparr>))"

subsection \<open>The server of a node (cli/serve.go)\<close>

text \<open>\<^verbatim>\<open>server.New\<close> with everything present; only the metrics check can fail.\<close>

definition Server_New :: "'s Server \<Rightarrow> 's Server result" where
  "Server_New sv = (if cfg_MetricsEnabled (sv_cfg sv) \<and> \<not> sv_metrics sv then Inl Foreign else Inr sv)"

definition node_ready :: "(authState, unit) hop \<Rightarrow> OIDCBearer \<Rightarrow> (authState, unit) hop" where
  "node_ready appReady verifier aw =
     (case appReady aw of
        (aw', Inl e) \<Rightarrow> (aw', Inl e)
      | (aw', Inr _) \<Rightarrow>
          (case Ready verifier aw' of
             (aw'', Inl e) \<Rightarrow> (aw'', Inl (Error ErrKindTransient ''auth_provider_unavailable'' None))
           | (aw'', Inr _) \<Rightarrow> (aw'', Inr ())))"

definition newServer ::
  "Idp \<Rightarrow> Lib \<Rightarrow> Deps \<Rightarrow> string set \<Rightarrow> (authState, unit) hop \<Rightarrow> App \<Rightarrow> authState Server result" where
  "newServer idp lib deps registered appReady app =
     (let cfg = app_Config app;
          sv = \<lparr>sv_cfg = cfg, sv_lib = lib, sv_deps = deps, sv_registered = registered, sv_auth = UnconfiguredAuthenticator,
                sv_ready = appReady, sv_metrics = app_Metrics app\<rparr> in
      if OIDC_Configured (cfg_OIDC cfg) then
        (case NewBearer idp (cfg_OIDC cfg) (Pointer (app_Metrics app)) of
           Inl e \<Rightarrow> Inl (Wrapped e)
         | Inr verifier \<Rightarrow> Server_New (sv\<lparr>sv_auth := Authenticate verifier, sv_ready := node_ready appReady verifier\<rparr>))
      else Server_New sv)"

end
