(* ===== verification/Http_Gate.thy ===== *)
theory Http_Gate
  imports Http_Laws Run_Start
begin

section \<open>What a request may change\<close>

text \<open>
  The contract of an authenticator is that it reads the store and answers a principal or a typed error;
  the server relies on it through the locale \<open>gate\<close>. Under it a request changes the store only through a
  POST route, and through a protected one only after a principal was established.
\<close>

subsection \<open>Operations that only read\<close>

definition same_store :: "world \<Rightarrow> world \<Rightarrow> bool" where
  "same_store w w' \<longleftrightarrow> w_store w' = w_store w"

lemma transp_same_store: "transp same_store"
  by (simp add: transp_def same_store_def)

named_theorems reads \<open>operations that leave the store alone\<close>

lemmas reads_seq [reads] = op_rel_seq [OF transp_same_store]

lemma reads_simple [reads]:
  "op_rel same_store Now" "op_rel same_store (RandomIDs_NewID p)" "op_rel same_store (from_store g)"
  "op_rel same_store (pure_op x)" "op_rel same_store (return_op y)" "op_rel same_store (throw_op e)"
  "op_rel same_store (newID_or_internal p)" "op_rel same_store (mustPrincipal c)" "op_rel same_store (decodeStrict dec r)"
  by (auto simp: op_rel_def same_store_def Now_def RandomIDs_NewID_def from_store_def pure_op_def return_op_def throw_op_def
      newID_or_internal_def mustPrincipal_def decodeStrict_def split: sum.splits option.splits)

lemma reads_case_prod [reads]: "(\<And>a b. op_rel R (f a b)) \<Longrightarrow> op_rel R (case x of (a, b) \<Rightarrow> f a b)"
  by (cases x) simp

lemma reads_if [reads]: "op_rel R a \<Longrightarrow> op_rel R b \<Longrightarrow> op_rel R (if P then a else b)"
  by simp

lemma reads_case_option [reads]: "op_rel R a \<Longrightarrow> (\<And>y. op_rel R (b y)) \<Longrightarrow> op_rel R (case x of None \<Rightarrow> a | Some y \<Rightarrow> b y)"
  by (cases x) simp_all

lemmas read_handler_defs = handleHealth_def metricsHandler_def handleListProjects_def handleListThreads_def handleGetThread_def
  handleListMessages_def handleListThreadRuns_def handleGetRun_def handleRunEvents_def handleCancelRun_def handleRunReport_def
  handleGetTask_def handleGetArtifact_def Cancel_def

lemma read_handlers [reads]:
  "op_rel same_store (handleHealth c r)" "op_rel same_store (metricsHandler lib c r)" "op_rel same_store (handleListProjects lib c r)"
  "op_rel same_store (handleListThreads lib c r)" "op_rel same_store (handleGetThread c r)" "op_rel same_store (handleListMessages c r)"
  "op_rel same_store (handleListThreadRuns lib c r)" "op_rel same_store (handleGetRun lib c r)" "op_rel same_store (handleRunEvents c r)"
  "op_rel same_store (handleCancelRun registered c r)" "op_rel same_store (handleRunReport c r)" "op_rel same_store (handleGetTask c r)"
  "op_rel same_store (handleGetArtifact c r)"
  unfolding read_handler_defs by (intro reads)+

lemma get_handler_reads:
  assumes "api_handler sv route = Some h" and "rt_Method route = ''GET''" and "rt_Path route \<noteq> ''/v1/tenants''"
  shows "op_rel same_store (h c r)"
  using assms by (auto simp: api_handler_def Let_def split: if_splits intro: reads)

lemma get_routes: "route \<in> set APIRoutes \<Longrightarrow> rt_Method route = ''GET'' \<Longrightarrow> rt_Path route \<noteq> ''/v1/tenants''"
  by (auto simp: APIRoutes_def)

subsection \<open>The gate\<close>

lemma gated_cases:
  assumes "gated sv requiresAuth nxt ctx r sw = (sw', resp)"
  obtains (Refused) e where "requiresAuth" "sv_auth sv r sw = (sw', Inl e)" "resp = denied sv r e"
  | (Granted) sw1 p res where "requiresAuth" "sv_auth sv r sw = (sw1, Inr p)"
      "nxt \<lparr>rc_ctx = ctx, rc_principal = Some p\<rparr> r sw1 = (sw', res)" "resp = answered r res"
  | (Open) res where "\<not> requiresAuth" "nxt \<lparr>rc_ctx = ctx, rc_principal = None\<rparr> r sw = (sw', res)" "resp = answered r res"
  using assms by (auto simp: gated_def split: if_splits prod.splits sum.splits)

locale gate =
  fixes auth :: "request \<Rightarrow> ('s, Principal) hop" and ready :: "('s, unit) hop"
  assumes auth_reads: "w_store (snd (fst (auth r sw))) = w_store (snd sw)"
    and ready_reads: "w_store (snd (fst (ready sw))) = w_store (snd sw)"
begin

lemma get_unchanged:
  assumes "sv_auth sv = auth" "sv_ready sv = ready" and "route \<in> set APIRoutes" "rt_Method route = ''GET''"
    and "gated sv requiresAuth (route_handler sv route) ctx r sw = (sw', resp)"
  shows "w_store (snd sw') = w_store (snd sw)"
proof -
  have h: "w_store (snd (fst (route_handler sv route c r sw))) = w_store (snd sw)" for c sw
  proof (cases "rt_Path route = ''/readyz''")
    case True
    then show ?thesis using ready_reads [of sw] assms(2)
      by (auto simp: route_handler_def handleReady_def split: prod.splits sum.splits)
  next
    case False
    then show ?thesis
      using op_relD [OF get_handler_reads [OF _ assms(4) get_routes [OF assms(3,4)]], of sv _ "snd sw"]
      by (auto simp: route_handler_def in_world_def throw_op_def same_store_def split_beta split: option.splits)
  qed
  from assms(5) show ?thesis
  proof (cases rule: gated_cases)
    case (Refused e)
    then show ?thesis using auth_reads [of r sw] assms(1) by simp
  next
    case (Granted sw1 p res)
    then show ?thesis using auth_reads [of r sw] assms(1) h [of _ sw1] by (metis fst_conv)
  next
    case (Open res)
    then show ?thesis using h [of _ sw] by (metis fst_conv)
  qed
qed

lemma write_gate:
  assumes sv: "sv_auth sv = auth" "sv_ready sv = ready" and run: "serve sv r sw = (sw', sd)"
    and changed: "w_store (snd sw') \<noteq> w_store (snd sw)"
  shows "\<exists>route v w1. match_route (registered_routes sv) (rq_Method r) (rq_Path r) = Some (route, v) \<and> rt_Method route = ''POST''
    \<and> w_store w1 = w_store (snd sw) \<and> w_clock w1 = w_clock (snd sw) \<and> w_ticks w1 = w_ticks (snd sw)
    \<and> (if rt_Auth route then \<exists>w2 p. auth (routed sv r) (fst sw, w1) = ((fst sw', w2), Inr p)
       else \<exists>corrID res. correlation_Valid corrID
         \<and> route_handler sv route \<lparr>rc_ctx = request_ctx corrID, rc_principal = None\<rparr> (routed sv r) (fst sw, w1) = (sw', res))"
proof -
  obtain w1 corr resp where s: "resolveCorrelation (routed sv r) (snd sw) = (w1, corr)"
      "gated sv (fst (gate_of sv r)) (snd (gate_of sv r)) (request_ctx (fst corr)) (routed sv r) (fst sw, w1) = (sw', resp)"
    using serve_parts [of sv r sw] run by (metis prod.inject)
  have w1: "w_store w1 = w_store (snd sw)" "w_clock w1 = w_clock (snd sw)" using resolveCorrelation_valid(2,5) [OF s(1)] .
  have ticks: "w_ticks w1 = w_ticks (snd sw)"
    using s(1) by (auto simp: resolveCorrelation_def Let_def RandomIDs_NewID_def split: if_splits sum.splits)
  show ?thesis
  proof (cases "match_route (registered_routes sv) (rq_Method r) (rq_Path r)")
    case None
    then have "snd sw' = w1" using s(2) by (auto simp: gate_of_def gated_def unmatched_handler_def throw_op_def)
    then show ?thesis using changed w1 by simp
  next
    case (Some m)
    obtain route v where m: "m = (route, v)" by (cases m)
    have g: "gated sv (rt_Auth route) (route_handler sv route) (request_ctx (fst corr)) (routed sv r) (fst sw, w1) = (sw', resp)"
      using s(2) by (simp add: gate_of_def Some m)
    have route: "route \<in> set APIRoutes"
      using match_route_Some [of "registered_routes sv" "rq_Method r" "rq_Path r" route v] Some m by (simp add: registered_routes_def)
    have "rt_Method route \<noteq> ''GET''"
      using get_unchanged [OF sv route _ g] changed w1 by auto
    then have post: "rt_Method route = ''POST''" using route_methods [OF route] by auto
    then have "rt_Path route \<noteq> ''/readyz''" using route by (auto simp: APIRoutes_def)
    then have kept: "fst (fst (route_handler sv route c (routed sv r) x)) = fst x" for c x
      by (auto simp: route_handler_def in_world_def throw_op_def split: option.splits prod.splits)
    have "if rt_Auth route then \<exists>w2 p. auth (routed sv r) (fst sw, w1) = ((fst sw', w2), Inr p)
       else \<exists>corrID res. correlation_Valid corrID
         \<and> route_handler sv route \<lparr>rc_ctx = request_ctx corrID, rc_principal = None\<rparr> (routed sv r) (fst sw, w1) = (sw', res)"
      using g
    proof (cases rule: gated_cases)
      case (Refused e)
      then have "w_store (snd sw') = w_store w1" using auth_reads [of "routed sv r" "(fst sw, w1)"] sv(1) by simp
      then show ?thesis using changed w1 by simp
    next
      case (Granted sw1 p res)
      then have "fst sw' = fst sw1" using kept [of _ sw1] by (metis fst_conv)
      then show ?thesis using Granted(1,2) sv(1) by (cases sw1) auto
    next
      case (Open res)
      then show ?thesis using resolveCorrelation_valid(1) [OF s(1)] by auto
    qed
    then show ?thesis using Some m post w1 ticks by blast
  qed
qed

lemma write_needs_principal:
  assumes sv: "sv_auth sv = auth" "sv_ready sv = ready" and run: "serve sv r sw = (sw', sd)"
    and changed: "w_store (snd sw') \<noteq> w_store (snd sw)"
  shows "\<exists>route v. match_route (registered_routes sv) (rq_Method r) (rq_Path r) = Some (route, v) \<and> rt_Method route = ''POST''
    \<and> (rt_Auth route \<longrightarrow> (\<exists>w1 sw1 p. w_store w1 = w_store (snd sw) \<and> w_clock w1 = w_clock (snd sw) \<and> auth (routed sv r) (fst sw, w1) = (sw1, Inr p)))"
  using write_gate [OF assms] by (auto split: if_splits)

end

interpretation unconfigured: gate UnconfiguredAuthenticator "return_op ()"
  by unfold_locales (simp_all add: UnconfiguredAuthenticator_def return_op_def)

text \<open>
  Nothing is written before the gate: if serving a request changed the store, the
  request went to a POST route, and if that route is a protected one the authenticator had answered a principal for it.
  So no GET (or HEAD) request changes anything, and neither does a refused one.
\<close>

theorem writes_need_a_principal:
  assumes "\<forall>r sw. w_store (snd (fst (sv_auth sv r sw))) = w_store (snd sw)"
    and "\<forall>sw. w_store (snd (fst (sv_ready sv sw))) = w_store (snd sw)"
    and "serve sv r sw = (sw', sd)" and "w_store (snd sw') \<noteq> w_store (snd sw)"
  shows "\<exists>route v. match_route (registered_routes sv) (rq_Method r) (rq_Path r) = Some (route, v) \<and> rt_Method route = ''POST''
    \<and> (rt_Auth route \<longrightarrow> (\<exists>w1 sw1 p. w_store w1 = w_store (snd sw) \<and> w_clock w1 = w_clock (snd sw) \<and> sv_auth sv (routed sv r) (fst sw, w1) = (sw1, Inr p)))"
proof -
  have "gate (sv_auth sv) (sv_ready sv)" using assms(1,2) unfolding gate_def by blast
  then show ?thesis using assms(3,4) by (rule gate.write_needs_principal [OF _ refl refl])
qed

subsection \<open>Creating a tenant\<close>

lemma wframe_tenant_unit [wframes]: "op_rel wframe (tenant_unit deps tenant ctx)"
  unfolding tenant_unit_def emitTenantEvent_def by (intro wframes)

interpretation tenant_unit: unit_of_work "tenant_unit deps tenant" for deps tenant
  by unfold_locales (rule wframe_tenant_unit)

definition tenant_event :: "Tenant \<Rightarrow> Event" where
  "tenant_event tenant = new_event EventTenantCreated (tenant_ID tenant) ''tenant'' (tenant_ID tenant) 0 []
     [(''slug'', DStr (tenant_Slug tenant)), (''plan'', DStr (PlanTier_name (tenant_Plan tenant)))]"

lemma emitTenantEvent_eq: "emitTenantEvent deps ctx tenant = emitEvent deps ctx (tenant_event tenant)"
  by (simp add: emitTenantEvent_def emitEvent_def tenant_event_def new_event_def)

lemma emitTenantEvent_trace:
  assumes "emitTenantEvent deps ctx tenant w = (w', Inr evt)"
  shows "event_TraceID evt = TraceID (ctx_corr ctx) []" "event_TenantID evt = tenant_ID tenant"
  using assms unfolding emitTenantEvent_def newID_def
  by (elim seq_op_Inr; auto simp: store_at_eq on_store_def wrap_op_def RandomIDs_NewID_def Now_def new_event_def
      split: prod.splits sum.splits dest!: Append_ok(1))+

lemma entities_tenants:
  assumes "entities st' = entities st"
  shows "st_tenants st' = st_tenants st" and "st_tenantSlugs st' = st_tenantSlugs st"
  using assms [unfolded entities_def] by (auto dest: arg_cong [where f = st_tenants] arg_cong [where f = st_tenantSlugs])

lemma clone_rows_tables [simp]:
  "st_tenants (clone_rows st) = st_tenants st" "st_tenantSlugs (clone_rows st) = st_tenantSlugs st" "st_events (clone_rows st) = st_events st"
  by (simp_all add: clone_rows_def)

lemma tenant_unit_committed:
  assumes "struct_ok (w_store w)" "\<not> ctx_inUnit c" and "Do c (tenant_unit deps tenant) w = (w', Inr evt)"
  shows "lookup (st_tenants (w_store w)) (tenant_ID tenant) = None" "lookup (st_tenantSlugs (w_store w)) (tenant_Slug tenant) = None"
    "TenantRepository_Get (tenant_ID tenant) (w_store w') = Inr tenant" "TenantRepository_GetBySlug (tenant_Slug tenant) (w_store w') = Inr tenant"
    "st_events (w_store w') = st_events (w_store w) @ [evt]" "event_Type evt = EventTenantCreated"
    "event_TenantID evt = tenant_ID tenant" "event_TraceID evt = TraceID (ctx_corr c) []"
proof -
  note run = tenant_unit.outer_run [OF assms]
  obtain w1 where c: "on_store (TenantRepository_Create tenant) (w\<lparr>w_store := clone_rows (w_store w)\<rparr>) = (w1, Inr ())"
    and e: "emitTenantEvent deps (c\<lparr>ctx_inUnit := True\<rparr>) tenant w1 = (w', Inr evt)"
    using run unfolding tenant_unit_def by (elim seq_op_Inr) auto
  note ok = emitEvent_ok [OF e [unfolded emitTenantEvent_eq]]
  have w1: "lookup (st_tenants (w_store w)) (tenant_ID tenant) = None" "lookup (st_tenantSlugs (w_store w)) (tenant_Slug tenant) = None"
    "lookup (st_tenants (w_store w1)) (tenant_ID tenant) = Some tenant" "lookup (st_tenantSlugs (w_store w1)) (tenant_Slug tenant) = Some (tenant_ID tenant)"
    "st_events (w_store w1) = st_events (w_store w)"
    using c by (auto simp: on_store_def TenantRepository_Create_def split: if_splits)
  show "lookup (st_tenants (w_store w)) (tenant_ID tenant) = None" "lookup (st_tenantSlugs (w_store w)) (tenant_Slug tenant) = None"
    using w1 by simp_all
  show "TenantRepository_Get (tenant_ID tenant) (w_store w') = Inr tenant" "TenantRepository_GetBySlug (tenant_Slug tenant) (w_store w') = Inr tenant"
    using w1 entities_tenants [OF ok(1)] by (simp_all add: TenantRepository_Get_def TenantRepository_GetBySlug_def)
  show "st_events (w_store w') = st_events (w_store w) @ [evt]" "event_Type evt = EventTenantCreated"
    using ok(2,3) w1(5) by (simp_all add: tenant_event_def new_event_def)
  show "event_TenantID evt = tenant_ID tenant" "event_TraceID evt = TraceID (ctx_corr c) []"
    using emitTenantEvent_trace [OF e] by simp_all
qed

lemma handleCreateTenant_cases:
  assumes "handleCreateTenant lib deps c r w = (w', res)"
  obtains (Early) e where "res = Inl e" "w_store w' = w_store w"
  | (Failed) w1 tenant e where "w_store w1 = w_store w" "Do (rc_ctx c) (tenant_unit deps tenant) w1 = (w', Inl e)" "res = Inl e"
  | (Committed) w1 tenant evt where "w_store w1 = w_store w" "Do (rc_ctx c) (tenant_unit deps tenant) w1 = (w', Inr evt)"
      "res = Inr (writeJSON StatusCreated (TenantBody tenant))"
proof -
  show thesis
    using assms
    by (auto simp: handleCreateTenant_def seq_op_def decodeStrict_def newID_or_internal_def RandomIDs_NewID_def Now_def pure_op_def
        throw_op_def return_op_def split: prod.splits sum.splits option.splits intro: that(1) that(2) [rotated] that(3) [rotated])
qed

text \<open>
  Creating a tenant is all or nothing. Either the caller gets an error and the store is what it
  was, rows of the outbox included, or the tenant is new, is found by its identifier and by its slug,
  and exactly one event tells of it, under the correlation identifier of the request.
\<close>

theorem tenant_created_with_event:
  assumes "struct_ok (w_store w)" and "correlation_Valid corrID"
    and "handleCreateTenant lib deps \<lparr>rc_ctx = request_ctx corrID, rc_principal = None\<rparr> r w = (w', res)"
  shows "case res of
      Inl e \<Rightarrow> wview w' = wview w
    | Inr resp \<Rightarrow> (\<exists>tenant evt. resp = writeJSON StatusCreated (TenantBody tenant)
        \<and> lookup (st_tenants (w_store w)) (tenant_ID tenant) = None \<and> lookup (st_tenantSlugs (w_store w)) (tenant_Slug tenant) = None
        \<and> TenantRepository_Get (tenant_ID tenant) (w_store w') = Inr tenant
        \<and> TenantRepository_GetBySlug (tenant_Slug tenant) (w_store w') = Inr tenant
        \<and> st_events (w_store w') = st_events (w_store w) @ [evt] \<and> event_Type evt = EventTenantCreated
        \<and> event_TenantID evt = tenant_ID tenant \<and> event_TraceID evt = corrID)"
  using assms(3)
proof (cases rule: handleCreateTenant_cases)
  case (Early e)
  then show ?thesis by (simp add: wview_def)
next
  case (Failed w1 tenant e)
  have "\<not> ctx_inUnit (request_ctx corrID)" by (simp add: request_ctx_def Background_def)
  then have "wview w' = wview w1" using tenant_unit.outer_failure Failed(1,2) assms(1) by simp
  then show ?thesis using Failed by (simp add: wview_def)
next
  case (Committed w1 tenant evt)
  have c: "\<not> ctx_inUnit (request_ctx corrID)" "TraceID (ctx_corr (request_ctx corrID)) [] = corrID"
    by (simp_all add: request_ctx_def Background_def correlation_With_def TraceID_cases)
  have "struct_ok (w_store w1)" "Do (request_ctx corrID) (tenant_unit deps tenant) w1 = (w', Inr evt)"
    using Committed(1,2) assms(1) by simp_all
  from tenant_unit_committed [OF this(1) c(1) this(2), unfolded c(2) Committed(1)]
  show ?thesis using Committed(3) by auto
qed

subsection \<open>An example server\<close>

definition ex_lib :: Lib where
  "ex_lib =
     \<lparr>lib_tenant = (\<lambda>_. Some \<lparr>ctr_Slug = ''acme'', ctr_Name = ''Acme'', ctr_Region = []\<rparr>), 
      lib_project = (\<lambda>_. Some \<lparr>cpr_Slug = ''web'', cpr_Name = ''Web'', cpr_DefaultBranch = ''main'', cpr_SeedName = ''s''\<rparr>),
      lib_thread = (\<lambda>_. None), lib_message = Some, lib_sortProjects = insertion_sort, lib_sortThreads = insertion_sort,
      lib_sortRuns = insertion_sort, lib_sortTasks = insertion_sort, lib_addr = (\<lambda>_. None),
      lib_exposition = (\<lambda>r. writeJSON StatusOK (ContentBody []))\<rparr>"

definition ex_server :: "(request \<Rightarrow> (unit, Principal) hop) \<Rightarrow> unit Server" where
  "ex_server auth =
     \<lparr>sv_cfg = Defaults, sv_lib = ex_lib, sv_deps = ex_deps, sv_registered = {}, sv_auth = auth, sv_ready = return_op (), sv_metrics = True\<rparr>"

definition acme_tenant :: Tenant where
  "acme_tenant = \<lparr>tenant_ID = ex_id PrefixTenant, tenant_Slug = ''acme'', tenant_Name = ''Acme'', tenant_Plan = PlanFree, tenant_Region = [],
     tenant_Status = TenantActive, tenant_Version = 1, tenant_CreatedAt = 0, tenant_UpdatedAt = 0\<rparr>"

lemma NewTenant_ex: "NewTenant (ex_id PrefixTenant) ''acme'' ''Acme'' PlanFree [] 0 = Inr acme_tenant"
  by code_simp

lemma acme_run:
  "\<exists>w' evt. handleCreateTenant ex_lib ex_deps \<lparr>rc_ctx = request_ctx i, rc_principal = None\<rparr> r ((ex_world (empty_store 5))\<lparr>w_draws := n\<rparr>)
     = (w', Inr (writeJSON StatusCreated (TenantBody acme_tenant))) \<and> st_events (w_store w') = [evt]"
  by (simp add: handleCreateTenant_def seq_op_def decodeStrict_def newID_or_internal_def RandomIDs_NewID_def Now_def pure_op_def
      return_op_def ex_lib_def ex_world_def NewTenant_ex Do_def request_ctx_def Background_def backup_def clone_index_def clone_rows_def
      tenant_unit_def on_store_def TenantRepository_Create_def empty_store_def emitTenantEvent_def newID_def wrap_op_def store_at_eq
      EventRepository_Append_def ex_deps_def Let_def alloc_row_def)

theorem tenant_created_with_event_witness:
  "\<exists>w' evt. handleCreateTenant ex_lib ex_deps \<lparr>rc_ctx = request_ctx ''req-1'', rc_principal = None\<rparr> (ex_request ''POST'' ''/v1/tenants'')
       (ex_world (empty_store 5)) = (w', Inr (writeJSON StatusCreated (TenantBody acme_tenant)))
     \<and> TenantRepository_GetBySlug ''acme'' (w_store w') = Inr acme_tenant \<and> st_events (w_store w') = [evt] \<and> event_TraceID evt = ''req-1''"
proof -
  obtain w' where r: "handleCreateTenant ex_lib ex_deps \<lparr>rc_ctx = request_ctx ''req-1'', rc_principal = None\<rparr> (ex_request ''POST'' ''/v1/tenants'')
       (ex_world (empty_store 5)) = (w', Inr (writeJSON StatusCreated (TenantBody acme_tenant)))"
    using acme_run [of "''req-1''" "ex_request ''POST'' ''/v1/tenants''" 0] by (auto simp: ex_world_def)
  have s: "struct_ok (w_store (ex_world (empty_store 5)))" "st_events (w_store (ex_world (empty_store 5))) = []"
    by (simp_all add: ex_world_def struct_ok_def empty_store_def)
  have "correlation_Valid ''req-1''" by code_simp
  from tenant_created_with_event [OF s(1) this r] show ?thesis
    using r s(2) by (auto simp: writeJSON_def writeJSONStatus_def acme_tenant_def)
qed

lemma ex_route:
  "match_route (registered_routes (ex_server auth)) ''POST'' ''/v1/tenants'' = Some (\<lparr>rt_Method = ''POST'', rt_Path = ''/v1/tenants'', rt_Auth = False\<rparr>, [])"
  by (simp add: registered_routes_def APIRoutes_def ex_server_def match_method_def)

theorem writes_need_a_principal_witness:
  "\<exists>sw' sd route v. serve (ex_server UnconfiguredAuthenticator) (ex_request ''POST'' ''/v1/tenants'') ((), ex_world (empty_store 5)) = (sw', sd)
     \<and> w_store (snd sw') \<noteq> empty_store 5
     \<and> match_route (registered_routes (ex_server UnconfiguredAuthenticator)) ''POST'' ''/v1/tenants'' = Some (route, v) \<and> rt_Method route = ''POST''"
proof -
  let ?sv = "ex_server UnconfiguredAuthenticator" and ?r = "ex_request ''POST'' ''/v1/tenants''" and ?w = "ex_world (empty_store 5)"
  have r: "routed ?sv ?r = ?r" "gate_of ?sv ?r = (False, route_handler ?sv \<lparr>rt_Method = ''POST'', rt_Path = ''/v1/tenants'', rt_Auth = False\<rparr>)"
    using ex_route [of UnconfiguredAuthenticator] by (simp_all add: routed_def gate_of_def ex_request_def)
  have c: "resolveCorrelation ?r ?w = (?w\<lparr>w_draws := 1\<rparr>, ex_id PrefixRequest, correlationSourceGenerated)"
    by (simp add: resolveCorrelation_def Header_Get_def ex_request_def correlation_Valid_def Let_def RandomIDs_NewID_def ex_world_def)
  obtain w' evt where h: "handleCreateTenant ex_lib ex_deps \<lparr>rc_ctx = request_ctx (ex_id PrefixRequest), rc_principal = None\<rparr> ?r (?w\<lparr>w_draws := 1\<rparr>)
       = (w', Inr (writeJSON StatusCreated (TenantBody acme_tenant)))" "st_events (w_store w') = [evt]"
    using acme_run by blast
  have g: "gated ?sv False (snd (gate_of ?sv ?r)) (request_ctx (ex_id PrefixRequest)) ?r ((), ?w\<lparr>w_draws := 1\<rparr>)
      = (((), w'), writeJSON StatusCreated (TenantBody acme_tenant))"
    unfolding r(2) using h(1) by (simp add: gated_def route_handler_def api_handler_def ex_server_def in_world_def answered_def)
  obtain sd where s: "serve ?sv ?r ((), ?w) = (((), w'), sd)"
    using serve_run [of ?sv ?r "((), ?w)" "?w\<lparr>w_draws := 1\<rparr>" "(ex_id PrefixRequest, correlationSourceGenerated)"] c g r by simp
  have ne: "w_store w' \<noteq> empty_store 5" using h(2) by (auto simp: empty_store_def)
  have "\<exists>route v. match_route (registered_routes ?sv) (rq_Method ?r) (rq_Path ?r) = Some (route, v) \<and> rt_Method route = ''POST''"
    using writes_need_a_principal [OF _ _ s] ne
    by (auto simp: ex_server_def UnconfiguredAuthenticator_def return_op_def ex_world_def)
  then show ?thesis using s ne by (auto simp: ex_request_def)
qed

end
