(* ===== verification/Http_Isolation.thy ===== *)
theory Http_Isolation
  imports Http_Gate
begin

section \<open>Tenants do not see or touch each other\<close>

text \<open>
  \<open>same_for t\<close> relates two stores that hold the same rows of tenant \<open>t\<close> in the tables requests read, whatever they hold
  for others; a read made for a tenant gives the same answer on both. \<open>untouched t\<close> compares the rows of a tenant in every table;
  a write made for a tenant leaves everybody else's untouched. Both are shown for the repository operations and carried over
  sequences, units of work and the engine to whole requests.
\<close>

subsection \<open>The rows of a tenant\<close>

definition owned :: "('v \<Rightarrow> string) \<Rightarrow> (string, 'v) gomap \<Rightarrow> string \<Rightarrow> (string \<Rightarrow> 'v option) \<times> 'v list" where
  "owned tenant m t = (scoped tenant m t, filter (\<lambda>v. tenant v = t) (map snd m))"

definition same_for :: "string \<Rightarrow> storeState \<Rightarrow> storeState \<Rightarrow> bool" where
  "same_for t st st' \<longleftrightarrow>
     owned project_TenantID (st_projects st') t = owned project_TenantID (st_projects st) t
   \<and> owned thread_TenantID (st_threads st') t = owned thread_TenantID (st_threads st) t
   \<and> owned run_TenantID (st_runs st') t = owned run_TenantID (st_runs st) t
   \<and> owned task_TenantID (st_tasks st') t = owned task_TenantID (st_tasks st) t
   \<and> owned art_TenantID (st_artifacts st') t = owned art_TenantID (st_artifacts st) t
   \<and> (\<forall>k. scoped thread_TenantID (st_threads st) t k \<noteq> None \<longrightarrow> get_or [] (st_messages st') k = get_or [] (st_messages st) k)
   \<and> filter (\<lambda>e. event_TenantID e = t) (st_events st') = filter (\<lambda>e. event_TenantID e = t) (st_events st)"

lemma same_for_refl [simp]: "same_for t st st"
  by (simp add: same_for_def)

lemma same_forD:
  assumes "same_for t st st'"
  shows "scoped project_TenantID (st_projects st') t = scoped project_TenantID (st_projects st) t"
    "scoped thread_TenantID (st_threads st') t = scoped thread_TenantID (st_threads st) t"
    "scoped run_TenantID (st_runs st') t = scoped run_TenantID (st_runs st) t"
    "scoped task_TenantID (st_tasks st') t = scoped task_TenantID (st_tasks st) t"
    "scoped art_TenantID (st_artifacts st') t = scoped art_TenantID (st_artifacts st) t"
    "filter (\<lambda>v. project_TenantID v = t) (map snd (st_projects st')) = filter (\<lambda>v. project_TenantID v = t) (map snd (st_projects st))"
    "filter (\<lambda>v. thread_TenantID v = t) (map snd (st_threads st')) = filter (\<lambda>v. thread_TenantID v = t) (map snd (st_threads st))"
    "filter (\<lambda>v. run_TenantID v = t) (map snd (st_runs st')) = filter (\<lambda>v. run_TenantID v = t) (map snd (st_runs st))"
    "filter (\<lambda>v. task_TenantID v = t) (map snd (st_tasks st')) = filter (\<lambda>v. task_TenantID v = t) (map snd (st_tasks st))"
    "filter (\<lambda>e. event_TenantID e = t) (st_events st') = filter (\<lambda>e. event_TenantID e = t) (st_events st)"
  using assms unfolding same_for_def owned_def by simp_all

lemma same_for_messages:
  "same_for t st st' \<Longrightarrow> scoped thread_TenantID (st_threads st) t k = Some v \<Longrightarrow> get_or [] (st_messages st') k = get_or [] (st_messages st) k"
  unfolding same_for_def by blast

lemma same_for_trans: "same_for t a b \<Longrightarrow> same_for t b c \<Longrightarrow> same_for t a c"
  by (simp add: same_for_def owned_def)

lemma filter_conj: "filter (\<lambda>x. Q x \<and> P x) xs = filter Q (filter P xs)"
  by (simp add: conj_commute)

lemma page_loop_filter: "(\<And>x. keep x \<Longrightarrow> P x) \<Longrightarrow> page_loop keep limit out (filter P xs) = page_loop keep limit out xs"
  by (induction xs arbitrary: out) auto

subsection \<open>Reads\<close>

definition tenant_reads :: "string \<Rightarrow> 'a eng_op \<Rightarrow> bool" where
  "tenant_reads t h \<longleftrightarrow> (\<forall>w st. same_for t (w_store w) st \<longrightarrow>
     (\<exists>w' x. h w = (w', x) \<and> w_store w' = w_store w \<and> h (w\<lparr>w_store := st\<rparr>) = (w'\<lparr>w_store := st\<rparr>, x)))"

lemma tenant_readsD:
  assumes "tenant_reads t h" and "same_for t (w_store w) st" and "h w = (w', x)"
  shows "w_store w' = w_store w" "h (w\<lparr>w_store := st\<rparr>) = (w'\<lparr>w_store := st\<rparr>, x)"
  using assms(1) [unfolded tenant_reads_def, rule_format, OF assms(2)] assms(3) by auto

named_theorems isolated \<open>operations that read or write for one tenant only\<close>

lemma isolated_seq [isolated]:
  assumes "tenant_reads t m" and "\<And>x. tenant_reads t (f x)"
  shows "tenant_reads t (seq_op m f)"
  unfolding tenant_reads_def
proof (intro allI impI)
  fix w :: world and st assume s: "same_for t (w_store w) st"
  obtain w1 r where m: "m w = (w1, r)" by (rule prod.exhaust)
  note 1 = tenant_readsD [OF assms(1) s m]
  show "\<exists>w' x. seq_op m f w = (w', x) \<and> w_store w' = w_store w \<and> seq_op m f (w\<lparr>w_store := st\<rparr>) = (w'\<lparr>w_store := st\<rparr>, x)"
  proof (cases r)
    case (Inl e)
    then show ?thesis using m 1 by simp
  next
    case (Inr x)
    obtain w2 y where f: "f x w1 = (w2, y)" by (rule prod.exhaust)
    show ?thesis using m 1 Inr f tenant_readsD [OF assms(2) _ f, of st] s by simp
  qed
qed

lemma isolated_simple [isolated]:
  "tenant_reads t (pure_op r)" "tenant_reads t (return_op x)" "tenant_reads t (throw_op e)"
  by (auto simp: tenant_reads_def pure_op_def return_op_def throw_op_def)

lemma isolated_read:
  "(\<And>st st'. same_for t st st' \<Longrightarrow> g st' = g st) \<Longrightarrow> tenant_reads t (from_store g)"
  by (auto simp: tenant_reads_def from_store_def)

lemma isolated_principal [isolated]: "(\<And>p. rc_principal c = Some p \<Longrightarrow> pr_TenantID p = t) \<Longrightarrow>
   (\<And>p. pr_TenantID p = t \<Longrightarrow> tenant_reads t (f p)) \<Longrightarrow> tenant_reads t (seq_op (mustPrincipal c) f)"
  by (cases "rc_principal c") (auto simp: mustPrincipal_def tenant_reads_def throw_op_def)

lemma isolated_splits [isolated]:
  "(\<And>a b. tenant_reads t (g a b)) \<Longrightarrow> tenant_reads t (case z of (a, b) \<Rightarrow> g a b)"
  "tenant_reads t m1 \<Longrightarrow> tenant_reads t m2 \<Longrightarrow> tenant_reads t (if P then m1 else m2)"
  "tenant_reads t m1 \<Longrightarrow> (\<And>y. tenant_reads t (h y)) \<Longrightarrow> tenant_reads t (case v of None \<Rightarrow> m1 | Some y \<Rightarrow> h y)"
  by (auto split: prod.splits option.splits)

lemma isolated_repos [isolated]:
  "tenant_reads t (from_store (ThreadRepository_Get t k))" "tenant_reads t (from_store (RunRepository_Get t k))"
  "tenant_reads t (from_store (TaskRepository_Get t k))" "tenant_reads t (from_store (ArtifactRepository_Get t k))"
  "tenant_reads t (from_store (ThreadRepository_Messages t k after limit))"
  "tenant_reads t (from_store (RunRepository_ListByThread sr t k after limit))"
  "tenant_reads t (from_store (EventRepository_ListByRun t k after limit))"
  "tenant_reads t (from_store (\<lambda>st. Inr (ProjectRepository_ListByTenant sp t st)))"
  "tenant_reads t (from_store (\<lambda>st. Inr (ThreadRepository_ListByTenant sth t limit st)))"
  "tenant_reads t (from_store (\<lambda>st. Inr (TaskRepository_ListByRun stk t k st)))"
proof -
  show "tenant_reads t (from_store (ThreadRepository_Messages t k after limit))"
  proof (rule isolated_read)
    fix st st' assume s: "same_for t st st'"
    show "ThreadRepository_Messages t k after limit st' = ThreadRepository_Messages t k after limit st"
      by (cases "scoped thread_TenantID (st_threads st) t k")
         (simp_all add: ThreadRepository_Messages_def same_forD(2) [OF s] same_for_messages [OF s] del: scoped_Some)
  qed
  show "tenant_reads t (from_store (RunRepository_ListByThread sr t k after limit))"
  proof (rule isolated_read)
    fix st st' assume s: "same_for t st st'"
    have f: "filter (\<lambda>run. run_ThreadID run = k \<and> run_TenantID run = t) (map snd (st_runs st')) =
        filter (\<lambda>run. run_ThreadID run = k \<and> run_TenantID run = t) (map snd (st_runs st))"
      unfolding filter_conj same_forD(8) [OF s] ..
    show "RunRepository_ListByThread sr t k after limit st' = RunRepository_ListByThread sr t k after limit st"
      unfolding RunRepository_ListByThread_def same_forD(2) [OF s] f ..
  qed
  show "tenant_reads t (from_store (EventRepository_ListByRun t k after limit))"
  proof (rule isolated_read)
    fix st st' assume s: "same_for t st st'"
    have *: "page_loop (\<lambda>e. \<not> (event_Seq e \<le> after \<or> event_TenantID e \<noteq> t \<or> event_RunID e \<noteq> k)) limit [] es =
        page_loop (\<lambda>e. \<not> (event_Seq e \<le> after \<or> event_TenantID e \<noteq> t \<or> event_RunID e \<noteq> k)) limit [] (filter (\<lambda>e. event_TenantID e = t) es)" for es
      by (rule page_loop_filter [symmetric]) simp
    show "EventRepository_ListByRun t k after limit st' = EventRepository_ListByRun t k after limit st"
      unfolding EventRepository_ListByRun_def * [of "st_events st"] * [of "st_events st'"] same_forD(10) [OF s] ..
  qed
  show "tenant_reads t (from_store (\<lambda>st. Inr (TaskRepository_ListByRun stk t k st)))"
    by (rule isolated_read) (simp add: TaskRepository_ListByRun_def filter_conj same_forD(9) del: filter_filter)
qed (rule isolated_read, simp add: ThreadRepository_Get_def RunRepository_Get_def TaskRepository_Get_def ArtifactRepository_Get_def
      ProjectRepository_ListByTenant_def ThreadRepository_ListByTenant_def same_forD)+

lemma isolated_handlers:
  assumes "\<And>p. rc_principal c = Some p \<Longrightarrow> pr_TenantID p = t"
  shows "tenant_reads t (handleListProjects lib c r)" "tenant_reads t (handleListThreads lib c r)" "tenant_reads t (handleGetThread c r)"
    "tenant_reads t (handleListMessages c r)" "tenant_reads t (handleListThreadRuns lib c r)" "tenant_reads t (handleGetRun lib c r)"
    "tenant_reads t (handleRunEvents c r)" "tenant_reads t (handleCancelRun registered c r)" "tenant_reads t (handleRunReport c r)"
    "tenant_reads t (handleGetTask c r)" "tenant_reads t (handleGetArtifact c r)" "tenant_reads t (handleHealth c r)"
    "tenant_reads t (metricsHandler lib c r)"
  unfolding read_handler_defs by (intro isolated assms; simp add: isolated)+

lemma get_routes_isolated:
  assumes "api_handler sv route = Some h" "rt_Method route = ''GET''" "rt_Path route \<noteq> ''/v1/tenants''"
    and "\<And>p. rc_principal c = Some p \<Longrightarrow> pr_TenantID p = t"
  shows "tenant_reads t (h c r)"
  using assms(1-3) isolated_handlers [OF assms(4)] by (auto simp: api_handler_def Let_def split: if_splits)

text \<open>
  C11: A tenant's reads do not depend on other tenants. Take two stores with the same rows of the
  caller's tenant, whatever else they hold. If a protected GET request is accepted against both for a
  principal of that tenant, the whole outcome, response and log line, is the same, and the stores stay as they were.
\<close>

theorem reads_are_isolated:
  assumes "match_route (registered_routes sv) (rq_Method r) (rq_Path r) = Some (route, v)"
    and "rt_Method route = ''GET''" and "rt_Auth route"
    and "resolveCorrelation (routed sv r) w = (w1, corr)"
    and "sv_auth sv (routed sv r) (s, w1) = ((s', w2), Inr p)" and "w_store w2 = w_store w"
    and "sv_auth sv (routed sv r) (s, w1\<lparr>w_store := st\<rparr>) = ((s', w2\<lparr>w_store := st\<rparr>), Inr p)"
    and "same_for (pr_TenantID p) (w_store w) st"
  shows "snd (serve sv r (s, w\<lparr>w_store := st\<rparr>)) = snd (serve sv r (s, w))
    \<and> w_store (snd (fst (serve sv r (s, w)))) = w_store w
    \<and> w_store (snd (fst (serve sv r (s, w\<lparr>w_store := st\<rparr>)))) = st"
proof -
  have route: "route \<in> set APIRoutes"
    using match_route_Some [OF assms(1)] by (simp add: registered_routes_def)
  have nr: "rt_Path route \<noteq> ''/readyz''" using route assms(3) by (auto simp: APIRoutes_def)
  obtain h where h: "api_handler sv route = Some h"
    using routes_mapped [of sv] route nr by (auto simp: list_all_iff)
  let ?c = "\<lparr>rc_ctx = request_ctx (fst corr), rc_principal = Some p\<rparr>"
  have iso: "tenant_reads (pr_TenantID p) (h ?c (routed sv r))"
    by (rule get_routes_isolated [OF h assms(2) get_routes [OF route assms(2)]]) simp
  obtain w3 res where run: "h ?c (routed sv r) w2 = (w3, res)" by (rule prod.exhaust)
  have s2: "same_for (pr_TenantID p) (w_store w2) st" using assms(6,8) by simp
  note run' = tenant_readsD [OF iso s2 run]
  have corr': "resolveCorrelation (routed sv r) (w\<lparr>w_store := st\<rparr>) = (w1\<lparr>w_store := st\<rparr>, corr)"
    using assms(4) by (auto simp: resolveCorrelation_def Let_def RandomIDs_NewID_def split: if_splits sum.splits)
  have g: "gate_of sv r = (True, route_handler sv route)" using assms(1,3) by (simp add: gate_of_def)
  have 1: "serve sv r (s, w) = ((s', w3), account sv (route_label sv r) r corr (answered (routed sv r) res))"
    using assms(4,5) run nr h by (intro serve_run) (auto simp: g gated_def route_handler_def in_world_def)
  have 2: "serve sv r (s, w\<lparr>w_store := st\<rparr>) = ((s', w3\<lparr>w_store := st\<rparr>), account sv (route_label sv r) r corr (answered (routed sv r) res))"
    using corr' assms(7) run'(2) nr h by (intro serve_run) (auto simp: g gated_def route_handler_def in_world_def)
  show ?thesis using 1 2 run'(1) assms(6) by simp
qed

subsection \<open>Writes\<close>

definition untouched :: "string \<Rightarrow> storeState \<Rightarrow> storeState \<Rightarrow> bool" where
  "untouched u st st' \<longleftrightarrow> same_for u st st'
   \<and> st_tenants st' = st_tenants st \<and> st_tenantSlugs st' = st_tenantSlugs st
   \<and> owned claim_TenantID (st_runClaims st') u = owned claim_TenantID (st_runClaims st) u
   \<and> owned spec_TenantID (st_specs st') u = owned spec_TenantID (st_specs st) u
   \<and> owned ws_TenantID (st_workspaces st') u = owned ws_TenantID (st_workspaces st) u
   \<and> owned ic_TenantID (st_integrations st') u = owned ic_TenantID (st_integrations st) u
   \<and> filter (\<lambda>e. audit_TenantID e = u) (st_auditLog st') = filter (\<lambda>e. audit_TenantID e = u) (st_auditLog st)
   \<and> (\<forall>k. filter (\<lambda>x. pdec_TenantID x = u) (get_or [] (st_policyByRun st') k) = filter (\<lambda>x. pdec_TenantID x = u) (get_or [] (st_policyByRun st) k))
   \<and> (\<forall>thread key. lookup (st_runIdemKeys st') (u, thread, key) = lookup (st_runIdemKeys st) (u, thread, key))
   \<and> (\<forall>k. scoped thread_TenantID (st_threads st) u k \<noteq> None \<longrightarrow> get_or 0 (st_runSeqs st') k = get_or 0 (st_runSeqs st) k)
   \<and> filter (\<lambda>m. obx_TenantID m = u) (map (row st') (st_outbox st')) = filter (\<lambda>m. obx_TenantID m = u) (map (row st) (st_outbox st))"

lemma untouched_refl [simp]: "untouched u st st"
  by (simp add: untouched_def)

lemma untouched_trans: "untouched u a b \<Longrightarrow> untouched u b c \<Longrightarrow> untouched u a c"
  using same_for_trans [of u a b c] same_forD(2) [of u a b] by (simp add: untouched_def)

text \<open>Addresses aside, a store that looks the same has the same rows for everybody.\<close>

lemma untouched_view: "view st' = view st \<Longrightarrow> untouched u st st'"
  by (cases st; cases st') (simp add: view_def untouched_def same_for_def)

lemma outbox_alloc:
  "struct_ok st \<Longrightarrow> map (row (alloc_row m st)) (st_outbox (alloc_row m st)) = map (row st) (st_outbox st) @ [m]"
  by (auto simp: alloc_row_def Let_def row_def struct_ok_def)

definition confined :: "string \<Rightarrow> world \<Rightarrow> world \<Rightarrow> bool" where
  "confined t w w' \<longleftrightarrow> wframe w w' \<and> (struct_ok (w_store w) \<longrightarrow> (\<forall>u. u \<noteq> t \<longrightarrow> untouched u (w_store w) (w_store w')))"

lemma transp_confined: "transp (confined t)"
proof (rule transpI)
  fix x y z assume xy: "confined t x y" and yz: "confined t y z"
  then have "wframe x z" using transpD [OF transp_wframe] by (auto simp: confined_def)
  moreover have "untouched u (w_store x) (w_store z)" if x: "struct_ok (w_store x)" and u: "u \<noteq> t" for u
  proof -
    have "struct_ok (w_store y)" using xy x by (simp add: confined_def wframe_def unit_frame_def)
    then show ?thesis using xy yz x u untouched_trans unfolding confined_def by blast
  qed
  ultimately show "confined t x z" by (simp add: confined_def)
qed

lemma confined_same: "same_store w w' \<Longrightarrow> confined t w w'"
  by (simp add: same_store_def confined_def wframe_def frame_refl)

named_theorems confines \<open>operations that write for one tenant only\<close>

lemmas confines_seq = op_rel_seq [OF transp_confined]

lemma confines_reads: "op_rel same_store m \<Longrightarrow> op_rel (confined t) m"
  by (simp add: op_rel_def confined_same)

text \<open>A sequence whose second part is only reached with values the first part can give.\<close>

lemma confines_seq_val:
  assumes "op_rel (confined t) m" and "\<And>x w w'. m w = (w', Inr x) \<Longrightarrow> op_rel (confined t) (f x)"
  shows "op_rel (confined t) (seq_op m f)"
proof
  fix w
  obtain w1 r where m: "m w = (w1, r)" by (rule prod.exhaust)
  have 1: "confined t w w1" using op_relD [OF assms(1), of w] m by simp
  show "confined t w (fst (seq_op m f w))"
  proof (cases r)
    case (Inr x)
    have "confined t w1 (fst (f x w1))" using op_relD [OF assms(2)] m Inr by blast
    then show ?thesis using m Inr transpD [OF transp_confined 1] by simp
  qed (use m 1 in simp)
qed

lemma owned_new:
  assumes "lookup m k = None" and "tenant v \<noteq> u"
  shows "owned tenant (insert_map k v m) u = owned tenant m u"
  using assms by (auto simp: owned_def scoped_def fun_eq_iff map_snd_insert_new)

lemma owned_replaced:
  assumes "lookup m k = Some old" and "tenant old \<noteq> u" and "tenant v \<noteq> u"
  shows "owned tenant (insert_map k v m) u = owned tenant m u"
proof -
  have "filter (\<lambda>v. tenant v = u) (map snd (insert_map k v m)) = filter (\<lambda>v. tenant v = u) (map snd m)"
    using assms by (induction m) auto
  then show ?thesis using assms by (auto simp: owned_def scoped_def fun_eq_iff)
qed

lemma confined_on_store:
  assumes "op_rel unit_frame f" and "\<And>st u. struct_ok st \<Longrightarrow> u \<noteq> t \<Longrightarrow> untouched u st (fst (f st))"
  shows "op_rel (confined t) (on_store f)"
  using assms by (simp add: op_rel_def confined_def on_store_def wframe_def split_beta)

lemma confines_creates [confines]:
  "project_TenantID p = t \<Longrightarrow> op_rel (confined t) (on_store (ProjectRepository_Create p))"
  "thread_TenantID th = t \<Longrightarrow> op_rel (confined t) (on_store (ThreadRepository_Create th))"
  "run_TenantID run = t \<Longrightarrow> op_rel (confined t) (on_store (RunRepository_Create run))"
proof -
  show "op_rel (confined t) (on_store (ProjectRepository_Create p))" if "project_TenantID p = t"
    by (rule confined_on_store [OF entity_frames(2)])
       (use that in \<open>auto simp: ProjectRepository_Create_def untouched_def same_for_def owned_new row_def [abs_def]\<close>)
  show "op_rel (confined t) (on_store (RunRepository_Create run))" if "run_TenantID run = t"
    by (rule confined_on_store [OF entity_frames(7)])
       (use that in \<open>auto simp: RunRepository_Create_def untouched_def same_for_def owned_new Let_def row_def [abs_def] get_or_def split: option.splits\<close>)
  show "op_rel (confined t) (on_store (ThreadRepository_Create th))" if "thread_TenantID th = t"
    by (rule confined_on_store [OF entity_frames(3)])
       (use that in \<open>auto simp: ThreadRepository_Create_def untouched_def same_for_def owned_new row_def [abs_def] split: option.splits\<close>)
qed

lemma confines_update [confines]:
  "thread_TenantID th = t \<Longrightarrow> op_rel (confined t) (on_store (ThreadRepository_Update th v))"
  by (rule confined_on_store [OF entity_frames(4)])
     (auto simp: ThreadRepository_Update_def guarded_update_def Let_def untouched_def same_for_def owned_replaced row_def [abs_def] split: option.splits)

lemma confines_message [confines]:
  "message_TenantID msg = t \<Longrightarrow> op_rel (confined t) (on_store (ThreadRepository_AppendMessage msg))"
  by (rule confined_on_store [OF entity_frames(5)])
     (auto simp: ThreadRepository_AppendMessage_def untouched_def same_for_def Let_def get_or_def row_def [abs_def] split: option.splits)

lemma reads_newID: "op_rel same_store (newID p)"
  by (auto simp: op_rel_def same_store_def newID_def wrap_op_def RandomIDs_NewID_def split: sum.splits)

lemma append_untouched:
  assumes "struct_ok st" and "event_TenantID evt \<noteq> u"
  shows "untouched u st (fst (EventRepository_Append marshal evt now st))"
proof -
  define st1 where "st1 = st\<lparr>st_eventSeq := st_eventSeq st + 1\<rparr>"
  have 1: "struct_ok st1" "untouched u st st1" using assms(1) by (simp_all add: st1_def struct_ok_def untouched_def same_for_def row_def [abs_def])
  have 2: "untouched u st1 (alloc_row (new_row i k (event_TenantID evt) env mx now) st1)" for i k env mx
    unfolding untouched_def outbox_alloc [OF 1(1)]
    using assms(2) by (simp add: same_for_def alloc_row_def Let_def new_row_def)
  have 3: "untouched u x (x\<lparr>st_events := st_events x @ [evt\<lparr>event_Seq := n\<rparr>]\<rparr>)" for x n
    using assms(2) by (simp add: untouched_def same_for_def row_def [abs_def])
  show ?thesis
    using 1(2) untouched_trans [OF untouched_trans [OF 1(2) 2] 3] untouched_trans [OF 1(2) 3]
    by (simp add: EventRepository_Append_def Let_def st1_def [symmetric] split: sum.splits)
qed

lemma confines_event:
  assumes "event_TenantID evt = t"
  shows "op_rel (confined t) (emitEvent deps ctx evt)"
  unfolding emitEvent_def store_at_def
  by (intro confines_seq confined_on_store [OF event_frame] confines_reads [OF reads_newID] confines_reads [OF reads_simple(1)] append_untouched)
    (use assms in auto)

lemma confines_unit:
  assumes "\<And>c. op_rel (confined t) (fn c)"
  shows "op_rel (confined t) (Do ctx fn)"
proof
  fix w :: world
  have fr: "op_rel wframe (fn c)" for c using assms [of c] by (simp add: op_rel_def confined_def)
  then have u: "unit_of_work fn" by unfold_locales
  have frame: "wframe w (fst (Do ctx fn w))" using op_relD [OF unit_of_work.unit_frames [OF u]] .
  have "untouched u (w_store w) (w_store (fst (Do ctx fn w)))" if ok: "struct_ok (w_store w)" and "u \<noteq> t" for u
  proof (cases "ctx_inUnit ctx")
    case True
    then show ?thesis using op_relD [OF assms] that by (simp add: Do_nested confined_def)
  next
    case False
    obtain w' r where d: "Do ctx fn w = (w', r)" by (rule prod.exhaust)
    show ?thesis
    proof (cases r)
      case (Inl e)
      then show ?thesis using unit_of_work.outer_failure [OF u ok False] d untouched_view by (simp add: wview_def)
    next
      case (Inr x)
      let ?w1 = "w\<lparr>w_store := clone_rows (w_store w)\<rparr>"
      have "fst (fn (ctx\<lparr>ctx_inUnit := True\<rparr>) ?w1) = w'" using unit_of_work.outer_run [OF u ok False] d Inr by simp
      then have "confined t ?w1 w'" using op_relD [OF assms, of ?w1] by metis
      then have "untouched u (clone_rows (w_store w)) (w_store w')" using view_backup(2) [OF ok] that by (simp add: confined_def)
      then show ?thesis using untouched_trans [OF untouched_view [OF view_backup(1) [OF ok]]] d by simp
    qed
  qed
  then show "confined t w (fst (Do ctx fn w))" using frame by (simp add: confined_def)
qed

lemma confines_attempt: "op_rel R m \<Longrightarrow> op_rel R (attempt m)"
  by (simp add: op_rel_def attempt_def split_beta)

lemma confines_transition:
  assumes "thread_TenantID thread = t"
  shows "op_rel (confined t) (transitionThreadWithData deps ctx thread nxt extra)"
  unfolding transitionThreadWithData_def Let_def
proof (intro confines_unit confines_seq_val confines_reads [OF reads_simple(4)] confines_reads [OF reads_simple(5)])
  fix c w w' th
  assume "pure_op (Thread_TransitionTo thread nxt) w = (w', Inr th)"
  then have th: "thread_TenantID th = t" using assms by (auto simp: pure_op_def Thread_TransitionTo_def split: if_splits)
  then show "op_rel (confined t) (on_store (ThreadRepository_Update th (thread_Version thread)))" by (rule confines)
  fix w1 w1' th'
  assume "on_store (ThreadRepository_Update th (thread_Version thread)) w1 = (w1', Inr th')"
  then have "thread_TenantID th' = t"
    using th by (auto simp: on_store_def ThreadRepository_Update_def guarded_update_def Let_def split: prod.splits option.splits if_splits)
  then show "op_rel (confined t) (emitEvent deps c (evtFromThread th' EventThreadStatusChanged
         (merge_data [(''to'', DStr (ThreadStatus_name nxt))] extra)))"
    by (intro confines_event) (simp add: evtFromThread_def new_event_def)
qed

lemma confines_claim: "op_rel (confined t) (store_at (RunClaimRepository_Create t k))"
proof -
  have "untouched u st (fst (RunClaimRepository_Create t k now st))" if "u \<noteq> t" for u now st
    using that
    by (auto simp: RunClaimRepository_Create_def put_claim_def untouched_def same_for_def owned_new fresh_claim_def row_def [abs_def] split: option.splits)
  then show ?thesis
    unfolding store_at_def by (intro confines_seq confined_on_store [OF claim_frames(1)] confines_reads [OF reads_simple(1)])
qed

lemma confines_start_unit:
  assumes "si_TenantID inp = t" "thread_TenantID thread = t"
  shows "op_rel (confined t) (start_unit deps inp thread runID c)"
  unfolding start_unit_def Let_def
proof (intro confines_seq_val confines_transition assms confines_reads [OF reads_simple(1)]
    confines_reads [OF reads_simple(4)] confines_reads [OF reads_simple(5)])
  fix now w w' run
  assume "pure_op (NewRun runID (si_TenantID inp) (si_ThreadID inp) (si_IdempotencyKey inp) now) w = (w', Inr run)"
  then have run: "run_TenantID run = t" using assms(1) by (auto simp: pure_op_def NewRun_def split: if_splits)
  then show "op_rel (confined t) (on_store (RunRepository_Create (run\<lparr>run_Principal := si_Principal inp\<rparr>)))"
    by (intro confines) simp
  fix w1 w1' created
  assume "on_store (RunRepository_Create (run\<lparr>run_Principal := si_Principal inp\<rparr>)) w1 = (w1', Inr created)"
  then have "run_TenantID created = t"
    using run by (auto simp: on_store_def RunRepository_Create_def Let_def split: prod.splits option.splits if_splits)
  then show "op_rel (confined t) (store_at (RunClaimRepository_Create (run_TenantID created) (run_ID created)))"
    using confines_claim by simp
qed

lemma confines_start:
  assumes "si_TenantID inp = t"
  shows "op_rel (confined t) (StartRun deps ctx inp)"
proof -
  have unit: "op_rel (confined t) (attempt (Do ctx (start_unit deps inp thread runID)))" if "thread_TenantID thread = t" for thread runID
    using that assms by (intro confines_attempt confines_unit confines_start_unit)
  have r: "op_rel (confined t) (attempt (from_store g))" for g
    by (intro confines_attempt confines_reads reads)
  have s: "op_rel (confined t) (return_op x)" "op_rel (confined t) (throw_op e)" "op_rel (confined t) (from_store g)"
    "op_rel (confined t) (newID p)" "op_rel (confined t) (pure_op y)" for x e g p y
    by (auto intro!: confines_reads reads reads_newID)
  show ?thesis
    unfolding StartRun_def Let_def
  proof (rule confines_seq [OF s(5)], rule confines_seq_val [OF s(3)])
    fix thread w w'
    assume "from_store (ThreadRepository_Get (si_TenantID inp) (si_ThreadID inp)) w = (w', Inr thread)"
    then have th: "thread_TenantID thread = t"
      using assms by (auto simp: from_store_def ThreadRepository_Get_def split: option.splits)
    show "op_rel (confined t) (seq_op (attempt (from_store (RunRepository_GetByIdempotencyKey (si_TenantID inp) (si_ThreadID inp) (si_IdempotencyKey inp)))) (\<lambda>existing.
       case existing of
         Inl err \<Rightarrow>
           if ErrKindOf err \<noteq> ErrKindNotFound then throw_op err
           else seq_op (attempt (from_store (ProjectRepository_Get (si_TenantID inp) (thread_ProjectID thread)))) (\<lambda>project.
             if isl project then throw_op (Invalidf ''run_project_unknown'')
             else seq_op (attempt (from_store (ThreadRepository_Messages (si_TenantID inp) (si_ThreadID inp) 0 1))) (\<lambda>messages.
               if isl messages then throw_op (Invalidf ''run_no_request'')
               else seq_op (newID PrefixRun) (\<lambda>runID.
                 seq_op (attempt (Do ctx (start_unit deps inp thread runID))) (\<lambda>r.
                   case r of
                     Inl err \<Rightarrow> if ErrKindOf err = ErrKindConflict
                       then seq_op (attempt (from_store (RunRepository_GetByIdempotencyKey (si_TenantID inp) (si_ThreadID inp) (si_IdempotencyKey inp)))) (\<lambda>replayed.
                         case replayed of Inl _ \<Rightarrow> throw_op err | Inr run \<Rightarrow> return_op \<lparr>sr_Run = run, sr_Replayed = True\<rparr>)
                       else throw_op err
                   | Inr run \<Rightarrow> return_op \<lparr>sr_Run = run, sr_Replayed = False\<rparr>))))
       | Inr run \<Rightarrow> return_op \<lparr>sr_Run = run, sr_Replayed = True\<rparr>))"
      by (intro confines_seq r s unit [OF th]; (intro reads_if s confines_seq r unit [OF th])?;
          auto split: sum.splits intro!: confines_seq r s unit [OF th])
  qed
qed

lemma confines_handlers:
  assumes "\<And>p. rc_principal c = Some p \<Longrightarrow> pr_TenantID p = t"
  shows "op_rel (confined t) (handleCreateProject lib c r)" "op_rel (confined t) (handleCreateThread lib c r)"
    "op_rel (confined t) (handleAppendMessage lib c r)" "op_rel (confined t) (handleStartRun deps c r)"
proof -
  have s: "op_rel (confined t) (return_op x)" "op_rel (confined t) (throw_op e)" "op_rel (confined t) (from_store g)"
    "op_rel (confined t) (newID_or_internal p)" "op_rel (confined t) (pure_op y)" "op_rel (confined t) (mustPrincipal c)"
    "op_rel (confined t) (decodeStrict d r)" "op_rel (confined t) Now" for x e g p y d
    by (auto intro!: confines_reads reads)
  have p: "pr_TenantID p = t" if "mustPrincipal c w = (w', Inr p)" for p w w'
    using that assms by (auto simp: mustPrincipal_def return_op_def throw_op_def split: option.splits)
  show "op_rel (confined t) (handleCreateProject lib c r)"
    unfolding handleCreateProject_def
    by (intro confines_seq_val s confines) (auto simp: pure_op_def NewProject_def split: if_splits dest: p)
  show "op_rel (confined t) (handleCreateThread lib c r)"
    unfolding handleCreateThread_def
    by (intro confines_seq_val s confines) (auto simp: pure_op_def NewThread_def split: if_splits dest: p)
  show "op_rel (confined t) (handleAppendMessage lib c r)"
    unfolding handleAppendMessage_def Let_def
    by (rule confines_seq_val [OF s(6)], intro confines_seq s confines) (auto simp: new_message_def dest: p)
  show "op_rel (confined t) (handleStartRun deps c r)"
    unfolding handleStartRun_def Let_def
    by (rule confines_seq_val [OF s(6)], intro confines_seq s reads_if confines_start) (auto simp: start_input_def dest: p)
qed

lemma api_confined:
  assumes "api_handler sv route = Some h" and "route \<in> set APIRoutes" "rt_Auth route"
    and "\<And>p. rc_principal c = Some p \<Longrightarrow> pr_TenantID p = t"
  shows "op_rel (confined t) (h c r)"
proof -
  have "rt_Path route \<noteq> ''/v1/tenants''" using assms(2,3) by (auto simp: APIRoutes_def)
  then show ?thesis
    using assms(1) confines_handlers [OF assms(4)] confines_reads [OF read_handlers(1)] confines_reads [OF read_handlers(2)]
      confines_reads [OF read_handlers(3)] confines_reads [OF read_handlers(4)] confines_reads [OF read_handlers(5)]
      confines_reads [OF read_handlers(6)] confines_reads [OF read_handlers(7)] confines_reads [OF read_handlers(8)]
      confines_reads [OF read_handlers(9)] confines_reads [OF read_handlers(10)] confines_reads [OF read_handlers(11)]
      confines_reads [OF read_handlers(12)] confines_reads [OF read_handlers(13)]
    by (auto simp: api_handler_def Let_def split: if_splits)
qed

text \<open>
  C12: A tenant's requests do not touch other tenants. Whatever a protected route does for an accepted
  principal, including starting a run and rolling a failed unit back, every other tenant's rows
  are the same afterwards, in every table: projects, threads, messages, specifications, tasks, runs with their idempotency keys and sequence
  numbers, claims, workspaces, artifacts, audit records, policy decisions, integrations, events and outbox messages; tenants and slugs do not change
  at all. The store's outbox is assumed well formed (\<open>struct_ok\<close>, which every operation keeps), and the authenticator to leave the store alone.
\<close>

theorem writes_are_confined:
  assumes "match_route (registered_routes sv) (rq_Method r) (rq_Path r) = Some (route, v)" and "rt_Auth route"
    and "resolveCorrelation (routed sv r) w = (w1, corr)"
    and "sv_auth sv (routed sv r) (s, w1) = ((s', w2), Inr p)" and "w_store w2 = w_store w"
    and "serve sv r (s, w) = ((s'', w'), sd)" and "u \<noteq> pr_TenantID p" and "struct_ok (w_store w)"
  shows "untouched u (w_store w) (w_store w')"
proof -
  have route: "route \<in> set APIRoutes"
    using match_route_Some [OF assms(1)] by (simp add: registered_routes_def)
  have nr: "rt_Path route \<noteq> ''/readyz''" using route assms(2) by (auto simp: APIRoutes_def)
  obtain h where h: "api_handler sv route = Some h"
    using routes_mapped [of sv] route nr by (auto simp: list_all_iff)
  let ?c = "\<lparr>rc_ctx = request_ctx (fst corr), rc_principal = Some p\<rparr>"
  obtain w3 res where run: "h ?c (routed sv r) w2 = (w3, res)" by (rule prod.exhaust)
  have g: "gate_of sv r = (True, route_handler sv route)" using assms(1,2) by (simp add: gate_of_def)
  have "serve sv r (s, w) = ((s', w3), account sv (route_label sv r) r corr (answered (routed sv r) res))"
    using assms(3,4) run nr h by (intro serve_run) (auto simp: g gated_def route_handler_def in_world_def)
  then have w': "w' = w3" using assms(6) by simp
  have "op_rel (confined (pr_TenantID p)) (h ?c (routed sv r))"
    by (rule api_confined [OF h route assms(2)]) simp
  then have "confined (pr_TenantID p) w2 w3" using op_relD [of _ _ w2] run by (metis fst_conv)
  then show ?thesis using assms(5,7,8) w' by (simp add: confined_def)
qed

subsection \<open>An example\<close>

definition ex_principal :: Principal where
  "ex_principal = \<lparr>pr_TenantID = ''t'', pr_Tenant = acme_tenant, pr_ID = ''u''\<rparr>"

definition ex_auth :: "request \<Rightarrow> (unit, Principal) hop" where
  "ex_auth r sw = (sw, Inr ex_principal)"

definition foreign_project :: Project where
  "foreign_project = ex_project\<lparr>project_ID := ''q'', project_TenantID := ''other''\<rparr>"

definition ex_crowded :: storeState where
  "ex_crowded = ex_ready\<lparr>st_projects := [(''q'', foreign_project), (''p'', ex_project)]\<rparr>"

lemma ex_get_route:
  "match_route (registered_routes (ex_server auth)) ''GET'' ''/v1/projects'' = Some (\<lparr>rt_Method = ''GET'', rt_Path = ''/v1/projects'', rt_Auth = True\<rparr>, [])"
  "match_route (registered_routes (ex_server auth)) ''POST'' ''/v1/projects'' = Some (\<lparr>rt_Method = ''POST'', rt_Path = ''/v1/projects'', rt_Auth = True\<rparr>, [])"
  by (simp_all add: registered_routes_def APIRoutes_def ex_server_def match_method_def)

lemma ex_routed: "match_route (registered_routes sv) m path = Some (route, []) \<Longrightarrow> routed sv (ex_request m path) = ex_request m path"
  by (simp add: routed_def ex_request_def)

lemma ex_correlation:
  "resolveCorrelation (ex_request m path) (ex_world st) = ((ex_world st)\<lparr>w_draws := 1\<rparr>, ex_id PrefixRequest, correlationSourceGenerated)"
  by (simp add: resolveCorrelation_def Header_Get_def ex_request_def correlation_Valid_def Let_def RandomIDs_NewID_def ex_world_def)

theorem reads_are_isolated_witness:
  "snd (serve (ex_server ex_auth) (ex_request ''GET'' ''/v1/projects'') ((), (ex_world ex_ready)\<lparr>w_store := ex_crowded\<rparr>))
     = snd (serve (ex_server ex_auth) (ex_request ''GET'' ''/v1/projects'') ((), ex_world ex_ready))
   \<and> ex_crowded \<noteq> ex_ready"
proof -
  let ?sv = "ex_server ex_auth" and ?r = "ex_request ''GET'' ''/v1/projects''"
  have m: "match_route (registered_routes ?sv) (rq_Method ?r) (rq_Path ?r) = Some (\<lparr>rt_Method = ''GET'', rt_Path = ''/v1/projects'', rt_Auth = True\<rparr>, [])"
    using ex_get_route(1) by (simp add: ex_request_def)
  have rr: "routed ?sv ?r = ?r" using ex_routed [OF ex_get_route(1)] .
  have c: "resolveCorrelation (routed ?sv ?r) (ex_world ex_ready) = ((ex_world ex_ready)\<lparr>w_draws := 1\<rparr>, ex_id PrefixRequest, correlationSourceGenerated)"
    using ex_correlation rr by simp
  have a: "sv_auth ?sv (routed ?sv ?r) ((), w) = (((), w), Inr ex_principal)" for w by (simp add: ex_server_def ex_auth_def)
  have s: "same_for (pr_TenantID ex_principal) (w_store (ex_world ex_ready)) ex_crowded"
    by (auto simp: same_for_def owned_def scoped_def ex_principal_def ex_crowded_def ex_ready_def ex_world_def foreign_project_def ex_project_def fun_eq_iff)
  have n: "ex_crowded \<noteq> ex_ready"
    by (auto simp: ex_crowded_def ex_ready_def dest: arg_cong [where f = "\<lambda>st. length (st_projects st)"])
  show ?thesis using reads_are_isolated [OF m _ _ c a _ a s] n by (simp add: ex_world_def)
qed

lemma NewProject_ex: "\<exists>p. NewProject (ex_id PrefixProject) ''t'' ''web'' ''Web'' ''main'' ''s'' 0 = Inr p \<and> project_ID p = ex_id PrefixProject"
  by (rule exI, rule conjI, code_simp, code_simp)

theorem writes_are_confined_witness:
  "\<exists>w' sd. serve (ex_server ex_auth) (ex_request ''POST'' ''/v1/projects'') ((), ex_world ex_crowded) = (((), w'), sd)
     \<and> rp_Status (sd_Response sd) = StatusCreated \<and> w_store w' \<noteq> ex_crowded \<and> untouched ''other'' ex_crowded (w_store w')"
proof -
  let ?sv = "ex_server ex_auth" and ?r = "ex_request ''POST'' ''/v1/projects''" and ?w = "ex_world ex_crowded"
  let ?route = "\<lparr>rt_Method = ''POST'', rt_Path = ''/v1/projects'', rt_Auth = True\<rparr>"
  have m: "match_route (registered_routes ?sv) (rq_Method ?r) (rq_Path ?r) = Some (?route, [])"
    using ex_get_route(2) by (simp add: ex_request_def)
  have rr: "routed ?sv ?r = ?r" using ex_routed [OF ex_get_route(2)] .
  have c: "resolveCorrelation (routed ?sv ?r) ?w = (?w\<lparr>w_draws := 1\<rparr>, ex_id PrefixRequest, correlationSourceGenerated)"
    using ex_correlation rr by simp
  have a: "sv_auth ?sv (routed ?sv ?r) ((), w) = (((), w), Inr ex_principal)" for w by (simp add: ex_server_def ex_auth_def)
  obtain p where p: "NewProject (ex_id PrefixProject) ''t'' ''web'' ''Web'' ''main'' ''s'' 0 = Inr p" "project_ID p = ex_id PrefixProject"
    using NewProject_ex by blast
  have f: "ex_id PrefixProject \<noteq> ''p''" "ex_id PrefixProject \<noteq> ''q''"
    by (auto simp: ex_id_def newPrefixed_def dest: arg_cong [where f = length])
  obtain w' where h: "handleCreateProject ex_lib \<lparr>rc_ctx = request_ctx (ex_id PrefixRequest), rc_principal = Some ex_principal\<rparr> ?r (?w\<lparr>w_draws := 1\<rparr>)
      = (w', Inr (writeJSON StatusCreated (ProjectBody p)))" "length (st_projects (w_store w')) = 3"
    using p f by (auto simp: handleCreateProject_def seq_op_def mustPrincipal_def return_op_def decodeStrict_def ex_lib_def newID_or_internal_def
        RandomIDs_NewID_def ex_world_def Now_def pure_op_def ex_principal_def on_store_def ProjectRepository_Create_def ex_crowded_def)
  have g: "gate_of ?sv ?r = (True, route_handler ?sv ?route)" using m by (simp add: gate_of_def)
  have "gated ?sv True (route_handler ?sv ?route) (request_ctx (ex_id PrefixRequest)) ?r ((), ?w\<lparr>w_draws := 1\<rparr>)
      = (((), w'), writeJSON StatusCreated (ProjectBody p))"
    using h(1) by (simp add: gated_def route_handler_def api_handler_def ex_server_def ex_auth_def in_world_def answered_def)
  then have s: "serve ?sv ?r ((), ?w) = (((), w'), account ?sv (route_label ?sv ?r) ?r (ex_id PrefixRequest, correlationSourceGenerated)
      (writeJSON StatusCreated (ProjectBody p)))"
    using c rr by (intro serve_run) (simp_all add: g)
  have "struct_ok (w_store ?w)" by (simp add: ex_world_def ex_crowded_def ex_ready_def ex_store1_eq ex_store_def empty_store_def struct_ok_def map_ok_def)
  then have "untouched ''other'' (w_store ?w) (w_store w')"
    using writes_are_confined [OF m _ c a _ s] by (simp add: ex_world_def ex_principal_def)
  moreover have "w_store w' \<noteq> ex_crowded" using h(2) by (auto simp: ex_crowded_def)
  ultimately show ?thesis
    using s by (simp add: account_def add_header_def writeJSON_def writeJSONStatus_def ex_world_def)
qed

end
