(* ===== verification/Authn_Laws.thy ===== *)
theory Authn_Laws
  imports Authn_Bearer Http_Isolation
begin

section \<open>What authentication guarantees\<close>

text \<open>
  A principal is only ever made from a token that the currently cached key set verified and whose claims
  meet the contract. Key sets are never ambiguous. Forced refreshes are spaced, whatever the clock
  does. The authenticator only reads the store, so it meets the contract the server's gate relies on.
\<close>

subsection \<open>Base64\<close>

lemma index_of_nth: "distinct xs \<Longrightarrow> i < length xs \<Longrightarrow> index_of n xs (xs ! i) = Some (n + i)"
proof (induction xs arbitrary: n i)
  case (Cons x xs)
  then show ?case by (cases i) auto
qed simp

lemma b64_index: "v < 64 \<Longrightarrow> index_of 0 base64_url_alphabet (b64 v) = Some v"
  using index_of_nth [of base64_url_alphabet v 0] by (simp add: b64_def base64_url_alphabet_def)

lemma b64_no_break: "v < 64 \<Longrightarrow> b64 v \<noteq> CHR 0x0A \<and> b64 v \<noteq> CHR 0x0D"
proof -
  assume v: "v < 64"
  have "list_all (\<lambda>c. c \<noteq> CHR 0x0A \<and> c \<noteq> CHR 0x0D) base64_url_alphabet" by (simp add: base64_url_alphabet_def)
  moreover have "length base64_url_alphabet = 64" by (simp add: base64_url_alphabet_def)
  ultimately show ?thesis using v by (simp add: list_all_length b64_def)
qed

lemma sextets_b64: "list_all (\<lambda>v. v < 64) vs \<Longrightarrow> sextets (map b64 vs) = Some vs"
  by (induction vs) (simp_all add: b64_index b64_no_break)

subsection \<open>Key sets\<close>

definition key_set_ok :: "jwk list \<Rightarrow> bool" where
  "key_set_ok ks \<longleftrightarrow> ks \<noteq> [] \<and> distinct (filter (\<lambda>i. i \<noteq> []) (map jwk_KeyID ks))"

definition keys_ok :: "authState \<Rightarrow> bool" where
  "keys_ok a \<longleftrightarrow> (\<forall>k s. as_keys a = Some k \<longrightarrow> ks_set k = Some s \<longrightarrow> key_set_ok s)"

lemma rejectDuplicateKids_iff:
  "rejectDuplicateKids seen ks = Inr () \<longleftrightarrow>
     distinct (filter (\<lambda>i. i \<noteq> []) (map jwk_KeyID ks)) \<and> set (filter (\<lambda>i. i \<noteq> []) (map jwk_KeyID ks)) \<inter> set seen = {}"
  by (induction seen ks rule: rejectDuplicateKids.induct) auto

lemma fetch_cases:
  assumes "fetch idp now (k, n) = ((k', n'), r)"
  shows "k' = k \<or> (\<exists>s. k' = k\<lparr>ks_set := Some s, ks_fetchedAt := now\<rparr> \<and> key_set_ok s \<and> r = Inr ())"
    and "r = Inr () \<Longrightarrow> \<exists>s. ks_set k' = Some s" and "n' = n \<or> n' = n + 1"
  using assms rejectDuplicateKids_iff [of "[]"]
  by (auto simp: fetch_def get_body_def key_set_ok_def split: prod.splits sum.splits option.splits if_splits reply.splits)

lemma fetch_or_cached_cases:
  assumes "fetch_or_cached idp now (k, n) = ((k', n'), r)"
  shows "k' = k \<or> (\<exists>s. k' = k\<lparr>ks_set := Some s, ks_fetchedAt := now\<rparr> \<and> key_set_ok s)"
    and "r = Inr s \<Longrightarrow> ks_set k' = Some s" and "n' = n \<or> n' = n + 1"
proof -
  obtain k1 n1 r1 where f: "fetch idp now (k, n) = ((k1, n1), r1)" by (metis prod.exhaust)
  have *: "k' = k1" "n' = n1" "r = (case r1 of Inl e \<Rightarrow> (case ks_set k1 of Some s \<Rightarrow> Inr s | None \<Rightarrow> Inl e)
      | Inr _ \<Rightarrow> (case ks_set k1 of Some s \<Rightarrow> Inr s | None \<Rightarrow> Inr []))"
    using assms f by (auto simp: fetch_or_cached_def split: sum.splits option.splits)
  show "k' = k \<or> (\<exists>s. k' = k\<lparr>ks_set := Some s, ks_fetchedAt := now\<rparr> \<and> key_set_ok s)" "n' = n \<or> n' = n + 1"
    using fetch_cases(1,3) [OF f] * by auto
  show "ks_set k' = Some s" if "r = Inr s"
    using that * fetch_cases(2) [OF f] by (auto split: sum.splits option.splits)
qed

lemma current_cases:
  assumes "current idp now (k, n) = ((k', n'), r)"
  shows "k' = k \<or> (\<exists>s. k' = k\<lparr>ks_set := Some s, ks_fetchedAt := now\<rparr> \<and> key_set_ok s)"
    and "r = Inr s \<Longrightarrow> ks_set k' = Some s"
  using assms fetch_or_cached_cases(1,2) [of idp now k n k' n' r]
  by (auto simp: current_def split: option.splits if_splits)

lemma refreshForced_cases:
  assumes "refreshForced idp now (k, n) = ((k', n'), r)"
  shows "k' = k \<and> n' = n \<and> rate_limited now k
      \<or> \<not> rate_limited now k \<and> (n' = n \<or> n' = n + 1)
        \<and> (k' = k\<lparr>ks_lastForcedAt := now\<rparr> \<or> (\<exists>s. k' = k\<lparr>ks_lastForcedAt := now, ks_set := Some s, ks_fetchedAt := now\<rparr> \<and> key_set_ok s))"
    and "r = Inr s \<Longrightarrow> ks_set k' = Some s"
  using assms fetch_or_cached_cases [of idp now "k\<lparr>ks_lastForcedAt := now\<rparr>" n k' n' r]
  by (auto simp: refreshForced_def split: option.splits if_splits)

text \<open>
  Where a key set comes from: \<open>served\<close> is what one exchange with a key URL answered, \<open>issued_keys\<close> what the key URL of a
  discovery document of the issuer served, both among the first \<open>n\<close> exchanges of the process.
\<close>

definition served :: "Idp \<Rightarrow> string \<Rightarrow> nat \<Rightarrow> jwk list \<Rightarrow> bool" where
  "served idp url n s \<longleftrightarrow> (\<exists>body. get_body idp maxKeysetBytes url n = (Suc n, Inr body) \<and> idp_jwks idp body = Some s)"

definition key_url :: "Idp \<Rightarrow> string \<Rightarrow> nat \<Rightarrow> string \<Rightarrow> bool" where
  "key_url idp issuer n url \<longleftrightarrow> (\<exists>m < n. \<exists>doc. discover idp issuer m = (Suc m, Inr doc) \<and> url = dd_JWKSURI doc)"

definition issued_keys :: "Idp \<Rightarrow> string \<Rightarrow> nat \<Rightarrow> jwk list \<Rightarrow> bool" where
  "issued_keys idp issuer n s \<longleftrightarrow> (\<exists>url. key_url idp issuer n url \<and> (\<exists>j < n. served idp url j s))"

definition sourced :: "Idp \<Rightarrow> keyStore \<Rightarrow> nat \<Rightarrow> bool" where
  "sourced idp k n \<longleftrightarrow> (\<forall>s. ks_set k = Some s \<longrightarrow> (\<exists>m < n. served idp (ks_url k) m s))"

definition keys_from :: "Idp \<Rightarrow> string \<Rightarrow> authState \<Rightarrow> bool" where
  "keys_from idp issuer a \<longleftrightarrow> (\<forall>k. as_keys a = Some k \<longrightarrow> sourced idp k (as_calls a) \<and> key_url idp issuer (as_calls a) (ks_url k))"

lemma sourced_later: "sourced idp k n \<Longrightarrow> n \<le> n' \<Longrightarrow> sourced idp k n'"
  by (auto simp: sourced_def) (meson order_less_le_trans)

lemma key_url_later: "key_url idp issuer n url \<Longrightarrow> n \<le> n' \<Longrightarrow> key_url idp issuer n' url"
  unfolding key_url_def using order_less_le_trans by blast

lemma key_url_new: "discover idp issuer n = (Suc n, Inr doc) \<Longrightarrow> key_url idp issuer (Suc n) (dd_JWKSURI doc)"
  unfolding key_url_def by blast

lemma fetch_sourced:
  assumes "fetch idp now (k, n) = ((k', n'), r)" and "sourced idp k n"
  shows "sourced idp k' n' \<and> ks_url k' = ks_url k \<and> n \<le> n'"
proof -
  obtain m body where g: "get_body idp maxKeysetBytes (ks_url k) n = (m, body)" by (rule prod.exhaust)
  then have m: "n \<le> m" and suc: "body = Inr bs \<Longrightarrow> m = Suc n" for bs
    by (auto simp: get_body_def split: if_splits reply.splits option.splits)
  show ?thesis
  proof (cases body)
    case (Inl e)
    then show ?thesis using assms g m sourced_later [OF assms(2)] by (auto simp: fetch_def)
  next
    case (Inr bs)
    then have sv: "served idp (ks_url k) n x" if "idp_jwks idp bs = Some x" for x using that g suc by (simp add: served_def)
    show ?thesis
      using assms(1) g Inr m suc sourced_later [OF assms(2), of m] sv
      by (auto simp: fetch_def sourced_def split: option.splits if_splits sum.splits)
  qed
qed

lemma fetch_or_cached_sourced:
  assumes "fetch_or_cached idp now (k, n) = ((k', n'), r)" and "sourced idp k n"
  shows "sourced idp k' n' \<and> ks_url k' = ks_url k \<and> n \<le> n'"
proof -
  obtain r1 where "fetch idp now (k, n) = ((k', n'), r1)"
    using assms(1) by (auto simp: fetch_or_cached_def split: prod.splits sum.splits)
  then show ?thesis using fetch_sourced assms(2) by blast
qed

lemma current_sourced:
  assumes "current idp now (k, n) = ((k', n'), r)" and "sourced idp k n"
  shows "sourced idp k' n' \<and> ks_url k' = ks_url k \<and> n \<le> n'"
  using assms fetch_or_cached_sourced [of idp now k n k' n' r] by (auto simp: current_def split: option.splits if_splits)

lemma refreshForced_sourced:
  assumes "refreshForced idp now (k, n) = ((k', n'), r)" and "sourced idp k n"
  shows "sourced idp k' n' \<and> ks_url k' = ks_url k \<and> n \<le> n'"
  using assms fetch_or_cached_sourced [of idp now "k\<lparr>ks_lastForcedAt := now\<rparr>" n k' n' r]
  by (auto simp: refreshForced_def sourced_def split: if_splits)

lemma discover_counts: "discover idp issuer n = (n', Inr doc) \<Longrightarrow> n' = Suc n" "discover idp issuer n = (m, d) \<Longrightarrow> n \<le> m"
  by (auto simp: discover_def get_body_def split: if_splits reply.splits option.splits prod.splits sum.splits)

subsection \<open>Reading only\<close>

definition reads_only :: "'s \<times> world \<Rightarrow> 's \<times> world \<Rightarrow> bool" where
  "reads_only sw sw' \<longleftrightarrow> w_store (snd sw') = w_store (snd sw) \<and> w_clock (snd sw') = w_clock (snd sw)
     \<and> w_ticks (snd sw) \<le> w_ticks (snd sw')"

lemma transp_reads_only: "transp reads_only"
  by (auto simp: transp_def reads_only_def)

named_theorems auth_reads \<open>operations of the authenticator leave the store alone\<close>

lemmas auth_reads_seq [auth_reads] = op_rel_seq [OF transp_reads_only]

lemma auth_reads_simple [auth_reads]:
  "op_rel reads_only (return_op x)" "op_rel reads_only (throw_op e)" "op_rel reads_only (in_world Now)"
  "op_rel reads_only (AuthToken b res)" "op_rel reads_only (with_keys k f)" "op_rel reads_only (establish b)"
  by (auto simp: op_rel_def reads_only_def return_op_def throw_op_def in_world_def Now_def AuthToken_def with_keys_def establish_def
      Let_def split: sum.splits prod.splits option.splits)

lemma auth_reads_fail [auth_reads]: "op_rel reads_only (fail b code)"
  by (auto simp: fail_def split: option.splits intro!: auth_reads)

lemma auth_reads_keys [auth_reads]: "op_rel reads_only (keySet b)" "op_rel reads_only (refresh_keys b)"
proof -
  show "op_rel reads_only (keySet b)" unfolding keySet_def by (intro auth_reads)
  have "op_rel reads_only (seq_op (in_world Now) (\<lambda>now. with_keys k (refreshForced (ob_idp b) now)))" for k by (intro auth_reads)
  then show "op_rel reads_only (refresh_keys b)"
    by (auto simp: op_rel_def refresh_keys_def reads_only_def split: option.splits)
qed

lemma auth_reads_tenant [auth_reads]: "op_rel reads_only (resolve_tenant b slug)"
  using auth_reads_fail [of b] by (auto simp: op_rel_def resolve_tenant_def reads_only_def split: sum.splits option.splits)

lemma auth_reads_claims [auth_reads]: "op_rel reads_only (principalFromClaims b tok)"
  unfolding principalFromClaims_def Let_def
  by (auto intro!: auth_reads reads_if split: option.splits)

lemma auth_reads_verify [auth_reads]: "op_rel reads_only (verify_or_rotate b token ks)"
proof
  fix aw
  obtain aw' r where k: "refresh_keys b aw = (aw', r)" by (rule prod.exhaust)
  show "reads_only aw (fst (verify_or_rotate b token ks aw))"
    using op_relD [OF auth_reads_keys(2), of aw b] k by (cases r) (auto simp: verify_or_rotate_def reads_only_def split: option.splits)
qed

lemma auth_reads_Authenticate: "op_rel reads_only (Authenticate b r)"
proof -
  have v: "op_rel reads_only (seq_op (verify_or_rotate b token ks) (\<lambda>verified.
       case verified of None \<Rightarrow> fail b ''invalid_token_signature'' | Some tok \<Rightarrow> principalFromClaims b tok))" for token ks
    by (auto intro!: auth_reads split: option.splits)
  have "op_rel reads_only (\<lambda>aw. case keySet b aw of (aw', Inl e) \<Rightarrow> fail b ''auth_provider_unavailable'' aw'
      | (aw', Inr ks) \<Rightarrow> seq_op (verify_or_rotate b token ks) (\<lambda>verified.
         case verified of None \<Rightarrow> fail b ''invalid_token_signature'' | Some tok \<Rightarrow> principalFromClaims b tok) aw')" for token
  proof
    fix aw
    let ?rest = "\<lambda>ks. seq_op (verify_or_rotate b token ks) (\<lambda>verified.
         case verified of None \<Rightarrow> fail b ''invalid_token_signature'' | Some tok \<Rightarrow> principalFromClaims b tok)"
    obtain aw' kr where k: "keySet b aw = (aw', kr)" by (rule prod.exhaust)
    have 1: "reads_only aw aw'" using op_relD [OF auth_reads_keys(1), of aw b] k by simp
    show "reads_only aw (fst (case keySet b aw of (aw', Inl e) \<Rightarrow> fail b ''auth_provider_unavailable'' aw' | (aw', Inr ks) \<Rightarrow> ?rest ks aw'))"
    proof (cases kr)
      case (Inl e)
      have "reads_only aw' (fst (fail b ''auth_provider_unavailable'' aw'))" using op_relD [OF auth_reads_fail] .
      from transpD [OF transp_reads_only, OF 1 this] show ?thesis by (simp add: k Inl)
    next
      case (Inr ks)
      have "reads_only aw' (fst (?rest ks aw'))" using op_relD [OF v] .
      from transpD [OF transp_reads_only, OF 1 this] show ?thesis by (simp add: k Inr)
    qed
  qed
  note rest = this
  show ?thesis
  proof (cases "extractBearer r")
    case (Inr token)
    show ?thesis
    proof (cases "decodeCompactHeader (idp_header (ob_idp b)) token")
      case (Some hdr)
      show ?thesis unfolding Authenticate_def Inr Some sum.case option.case by (intro reads_if auth_reads_fail rest)
    qed (simp add: Authenticate_def Inr auth_reads_fail)
  qed (simp add: Authenticate_def auth_reads_fail)
qed

lemma auth_reads_Ready: "op_rel reads_only (Ready b)"
proof
  fix aw
  obtain aw' r where k: "keySet b aw = (aw', r)" by (rule prod.exhaust)
  show "reads_only aw (fst (Ready b aw))" using op_relD [OF auth_reads_keys(1), of aw b] k by (cases r) (simp_all add: Ready_def)
qed

text \<open>The authenticator and its readiness check are a gate in the sense of the server.\<close>

interpretation oidc: gate "Authenticate b" "Ready b" for b
  using op_relD [OF auth_reads_Authenticate] op_relD [OF auth_reads_Ready] by unfold_locales (simp_all add: reads_only_def)

subsection \<open>Soundness\<close>

lemma fail_never_succeeds [simp]: "fail b code aw \<noteq> (aw', Inr x)"
  by (auto simp: fail_def seq_op_def throw_op_def split: option.splits prod.splits sum.splits)

lemma AuthToken_keys:
  assumes "AuthToken b res aw = (aw', r)"
  shows "as_keys (fst aw') = as_keys (fst aw)" "snd aw' = snd aw" "as_calls (fst aw') = as_calls (fst aw)"
  using assms by (auto simp: AuthToken_def split: sum.splits if_splits)

text \<open>The claim contract, with the instant at which it was checked.\<close>

definition claims_accepted :: "OIDCBearer \<Rightarrow> Token \<Rightarrow> Time \<Rightarrow> bool" where
  "claims_accepted b tok now \<longleftrightarrow>
     tk_Issuer tok \<in> {oidc_IssuerURL (ob_cfg b), trim_suffix ''/'' (oidc_IssuerURL (ob_cfg b))}
   \<and> oidc_Audience (ob_cfg b) \<in> set (tk_Audience tok)
   \<and> tk_Expiration tok \<noteq> zero_time \<and> now < tk_Expiration tok + oidc_ClockSkew (ob_cfg b)
   \<and> (tk_NotBefore tok = zero_time \<or> tk_NotBefore tok \<le> now + oidc_ClockSkew (ob_cfg b))
   \<and> tk_Subject tok \<noteq> []"

lemma resolve_tenant_ok:
  assumes "resolve_tenant b slug aw = (aw', Inr tenant)"
  shows "aw' = aw" "TenantRepository_GetBySlug slug (w_store (snd aw)) = Inr tenant"
  using assms by (auto simp: resolve_tenant_def split: sum.splits if_splits option.splits prod.splits)

lemma claims_sound:
  assumes "principalFromClaims b tok aw = (aw', Inr p)"
  shows "claims_accepted b tok (w_clock (snd aw) (w_ticks (snd aw)))"
    and "\<exists>slug tenant. tk_Get tok (oidc_TenantClaim (ob_cfg b)) = Some slug \<and> ValidateSlug slug = Inr ()
      \<and> TenantRepository_GetBySlug slug (w_store (snd aw)) = Inr tenant \<and> pr_Tenant p = tenant \<and> pr_TenantID p = tenant_ID tenant"
    and "pr_ID p = principalIDFor (ob_idp b) (oidc_IssuerURL (ob_cfg b)) (tk_Subject tok)"
    and "as_keys (fst aw') = as_keys (fst aw)" and "as_calls (fst aw') = as_calls (fst aw)" and "w_ticks (snd aw') = w_ticks (snd aw) + 1"
proof -
  let ?now = "w_clock (snd aw) (w_ticks (snd aw))" and ?w = "(snd aw)\<lparr>w_ticks := w_ticks (snd aw) + 1\<rparr>"
  have now: "in_world Now aw = ((fst aw, ?w), Inr ?now)" by (simp add: in_world_def Now_def)
  obtain slug where slug: "tk_Get tok (oidc_TenantClaim (ob_cfg b)) = Some slug" "ValidateSlug slug = Inr ()"
    and run: "seq_op (resolve_tenant b slug) (\<lambda>tenant. seq_op (AuthToken b ResultAccepted) (\<lambda>_.
        return_op \<lparr>pr_TenantID = tenant_ID tenant, pr_Tenant = tenant,
          pr_ID = principalIDFor (ob_idp b) (oidc_IssuerURL (ob_cfg b)) (tk_Subject tok)\<rparr>)) (fst aw, ?w) = (aw', Inr p)"
    and acc: "claims_accepted b tok ?now"
    using assms now
    by (auto simp: principalFromClaims_def Let_def claims_accepted_def slicesContain_def list_ex_iff split: if_splits option.splits)
  obtain tenant aw1 aw2 where t: "resolve_tenant b slug (fst aw, ?w) = (aw1, Inr tenant)"
      "AuthToken b ResultAccepted aw1 = (aw2, Inr ())" "aw' = aw2"
      "p = \<lparr>pr_TenantID = tenant_ID tenant, pr_Tenant = tenant, pr_ID = principalIDFor (ob_idp b) (oidc_IssuerURL (ob_cfg b)) (tk_Subject tok)\<rparr>"
    using run by (elim seq_op_Inr) (auto simp: return_op_def)
  note r = resolve_tenant_ok [OF t(1)]
  show "claims_accepted b tok ?now" by (rule acc)
  show "\<exists>slug tenant. tk_Get tok (oidc_TenantClaim (ob_cfg b)) = Some slug \<and> ValidateSlug slug = Inr ()
      \<and> TenantRepository_GetBySlug slug (w_store (snd aw)) = Inr tenant \<and> pr_Tenant p = tenant \<and> pr_TenantID p = tenant_ID tenant"
    using slug r(2) t(4) by auto
  show "pr_ID p = principalIDFor (ob_idp b) (oidc_IssuerURL (ob_cfg b)) (tk_Subject tok)" using t(4) by simp
  show "as_keys (fst aw') = as_keys (fst aw)" "as_calls (fst aw') = as_calls (fst aw)" "w_ticks (snd aw') = w_ticks (snd aw) + 1"
    using AuthToken_keys [OF t(2)] r(1) t(3) by simp_all
qed

text \<open>The cached key set of a state.\<close>

definition cached :: "authState \<Rightarrow> jwk list option" where
  "cached a = Option.bind (as_keys a) ks_set"

lemma keys_ok_cached: "keys_ok a \<longleftrightarrow> (\<forall>s. cached a = Some s \<longrightarrow> key_set_ok s)"
  by (auto simp: keys_ok_def cached_def split: Option.bind_splits)

lemma keySet_ok:
  assumes "keys_ok (fst aw)" and "keySet b aw = (aw', r)"
  shows "keys_ok (fst aw')" and "r = Inr ks \<Longrightarrow> cached (fst aw') = Some ks"
proof -
  obtain aw1 kr where e: "establish b aw = (aw1, kr)" by (rule prod.exhaust)
  have 1: "keys_ok (fst aw1)"
    using e assms(1) by (auto simp: establish_def keys_ok_def newKeyStore_def Let_def split: option.splits prod.splits sum.splits)
  have 2: "as_keys (fst aw1) = Some k" if "kr = Inr k" for k
    using e that by (auto simp: establish_def Let_def split: option.splits prod.splits sum.splits)
  have *: "keys_ok (fst aw') \<and> (\<forall>ks. r = Inr ks \<longrightarrow> cached (fst aw') = Some ks)"
  proof (cases kr)
    case (Inl err)
    then show ?thesis using assms(2) e 1 by (auto simp: keySet_def)
  next
    case (Inr k)
    let ?now = "w_clock (snd aw1) (w_ticks (snd aw1))"
    obtain k' n' where c: "current (ob_idp b) ?now (k, as_calls (fst aw1)) = ((k', n'), r)"
        "fst aw' = (fst aw1)\<lparr>as_keys := Some k', as_calls := n'\<rparr>"
      using assms(2) e Inr by (auto simp: keySet_def seq_op_def in_world_def Now_def with_keys_def split: prod.splits)
    have "key_set_ok s" if "ks_set k' = Some s" for s
      using current_cases(1) [OF c(1)] that 1 2 [OF Inr] by (auto simp: keys_ok_def)
    then show ?thesis using c(2) current_cases(2) [OF c(1)] by (auto simp: keys_ok_def cached_def)
  qed
  show "keys_ok (fst aw')" "r = Inr ks \<Longrightarrow> cached (fst aw') = Some ks" using * by auto
qed

lemma verify_ok:
  assumes "keys_ok (fst aw)" and "cached (fst aw) = Some ks" and "verify_or_rotate b token ks aw = (aw', Inr (Some tok))"
  shows "keys_ok (fst aw') \<and> (\<exists>s. cached (fst aw') = Some s \<and> idp_verify (ob_idp b) token s = Some tok)"
proof (cases "idp_verify (ob_idp b) token ks")
  case (Some tok')
  then show ?thesis using assms by (auto simp: verify_or_rotate_def)
next
  case None
  obtain k where k: "as_keys (fst aw) = Some k" "ks_set k = Some ks"
    using assms(2) by (auto simp: cached_def split: Option.bind_splits)
  let ?now = "w_clock (snd aw) (w_ticks (snd aw))"
  obtain k' n' r where f: "refreshForced (ob_idp b) ?now (k, as_calls (fst aw)) = ((k', n'), r)" by (metis prod.exhaust)
  have aw': "fst aw' = (fst aw)\<lparr>as_keys := Some k', as_calls := n'\<rparr>" and r: "\<exists>s. r = Inr s \<and> idp_verify (ob_idp b) token s = Some tok"
    using assms(3) None k f
    by (auto simp: verify_or_rotate_def refresh_keys_def seq_op_def in_world_def Now_def with_keys_def split: sum.splits if_splits)
  have "key_set_ok s" if "ks_set k' = Some s" for s
    using refreshForced_cases(1) [OF f] that assms(1) k by (auto simp: keys_ok_def)
  then show ?thesis using aw' r refreshForced_cases(2) [OF f] by (auto simp: keys_ok_def cached_def)
qed

lemma keySet_from:
  assumes "keys_from (ob_idp b) (oidc_IssuerURL (ob_cfg b)) (fst aw)" and "keySet b aw = (aw', r)"
  shows "keys_from (ob_idp b) (oidc_IssuerURL (ob_cfg b)) (fst aw')"
proof -
  let ?from = "keys_from (ob_idp b) (oidc_IssuerURL (ob_cfg b))"
  obtain aw1 kr where e: "establish b aw = (aw1, kr)" by (rule prod.exhaust)
  have 1: "?from (fst aw1)"
    using e assms(1) discover_counts [of "ob_idp b" "oidc_IssuerURL (ob_cfg b)" "as_calls (fst aw)"] key_url_new
    by (auto simp: establish_def keys_from_def newKeyStore_def Let_def sourced_def split: option.splits prod.splits sum.splits)
  show ?thesis
  proof (cases kr)
    case (Inl err)
    then show ?thesis using assms(2) e 1 by (simp add: keySet_def)
  next
    case (Inr k)
    have k: "as_keys (fst aw1) = Some k"
      using e Inr by (auto simp: establish_def Let_def split: option.splits prod.splits sum.splits)
    let ?now = "w_clock (snd aw1) (w_ticks (snd aw1))"
    obtain k' n' where c: "current (ob_idp b) ?now (k, as_calls (fst aw1)) = ((k', n'), r)"
        "fst aw' = (fst aw1)\<lparr>as_keys := Some k', as_calls := n'\<rparr>"
      using assms(2) e Inr by (auto simp: keySet_def seq_op_def in_world_def Now_def with_keys_def split: prod.splits)
    have "sourced (ob_idp b) k (as_calls (fst aw1))" using 1 k by (simp add: keys_from_def)
    from current_sourced [OF c(1) this] show ?thesis using 1 k c(2) key_url_later by (auto simp: keys_from_def)
  qed
qed

lemma verify_from:
  assumes "keys_from (ob_idp b) (oidc_IssuerURL (ob_cfg b)) (fst aw)" and "verify_or_rotate b token ks aw = (aw', r)"
  shows "keys_from (ob_idp b) (oidc_IssuerURL (ob_cfg b)) (fst aw')"
proof (cases "idp_verify (ob_idp b) token ks")
  case (Some tok)
  then show ?thesis using assms by (auto simp: verify_or_rotate_def)
next
  case None
  show ?thesis
  proof (cases "as_keys (fst aw)")
    case (Some k)
    let ?now = "w_clock (snd aw) (w_ticks (snd aw))"
    obtain k' n' r' where f: "refreshForced (ob_idp b) ?now (k, as_calls (fst aw)) = ((k', n'), r')" by (metis prod.exhaust)
    have aw': "fst aw' = (fst aw)\<lparr>as_keys := Some k', as_calls := n'\<rparr>"
      using assms(2) None Some f
      by (auto simp: verify_or_rotate_def refresh_keys_def seq_op_def in_world_def Now_def with_keys_def split: sum.splits if_splits)
    have "sourced (ob_idp b) k (as_calls (fst aw))" using assms(1) Some by (simp add: keys_from_def)
    from refreshForced_sourced [OF f this] show ?thesis using assms(1) Some aw' key_url_later by (auto simp: keys_from_def)
  qed (use assms None in \<open>auto simp: verify_or_rotate_def refresh_keys_def\<close>)
qed

lemma keys_from_issued:
  assumes "keys_from idp issuer a" and "cached a = Some s"
  shows "issued_keys idp issuer (as_calls a) s"
  using assms by (auto simp: keys_from_def cached_def sourced_def issued_keys_def split: Option.bind_splits)

lemma Authenticate_parts:
  assumes "Authenticate b r aw = (aw', Inr p)"
  obtains token hdr ks aw1 tok aw2 where "extractBearer r = Inr token" "decodeCompactHeader (idp_header (ob_idp b)) token = Some hdr"
    "ch_Alg hdr = allowedAlgorithm" "requireCompleteCompact token" "keySet b aw = (aw1, Inr ks)"
    "verify_or_rotate b token ks aw1 = (aw2, Inr (Some tok))" "principalFromClaims b tok aw2 = (aw', Inr p)"
proof -
  obtain token where t: "extractBearer r = Inr token" using assms by (auto simp: Authenticate_def split: sum.splits)
  obtain hdr where h: "decodeCompactHeader (idp_header (ob_idp b)) token = Some hdr" "ch_Alg hdr = allowedAlgorithm" "requireCompleteCompact token"
    using assms t by (auto simp: Authenticate_def split: option.splits if_splits)
  obtain aw1 kr where k: "keySet b aw = (aw1, kr)" by (rule prod.exhaust)
  obtain ks where ks: "kr = Inr ks" using assms t h k by (cases kr) (auto simp: Authenticate_def)
  have v: "seq_op (verify_or_rotate b token ks) (\<lambda>verified.
       case verified of None \<Rightarrow> fail b ''invalid_token_signature'' | Some tok \<Rightarrow> principalFromClaims b tok) aw1 = (aw', Inr p)"
    using assms t h k ks by (simp add: Authenticate_def)
  obtain verified aw2 where v1: "verify_or_rotate b token ks aw1 = (aw2, Inr verified)"
      "(case verified of None \<Rightarrow> fail b ''invalid_token_signature'' | Some tok \<Rightarrow> principalFromClaims b tok) aw2 = (aw', Inr p)"
    using v by (rule seq_op_Inr)
  then obtain tok where "verified = Some tok" by (cases verified) auto
  then show ?thesis using that t h k ks v1 by simp
qed

lemma list_all2_eq_map: "list_all2 (\<lambda>a b. f a = b) xs ys \<longleftrightarrow> map f xs = ys"
  by (induction xs arbitrary: ys) (auto simp: list_all2_Cons1)

lemma extractBearer_ok:
  assumes "extractBearer r = Inr token"
  shows "\<exists>scheme. Header_Get r ''Authorization'' = scheme @ CHR '' '' # token \<and> map lower_ascii scheme = ''bearer''
    \<and> token \<noteq> [] \<and> length token \<le> maxTokenBytes"
proof -
  let ?h = "Header_Get r ''Authorization''"
  have h: "length ?h \<ge> 7" "equalFold (take 6 ?h) ''bearer''" "?h ! 6 = CHR '' ''" "token = drop 7 ?h" "token \<noteq> []" "length token \<le> maxTokenBytes"
    using assms by (auto simp: extractBearer_def Let_def eval_nat_numeral split: if_splits)
  have "?h = take 6 ?h @ ?h ! 6 # drop 7 ?h"
    using h(1) id_take_nth_drop [of 6 ?h] by simp
  moreover have "map lower_ascii (take 6 ?h) = ''bearer''"
    using h(2) unfolding equalFold_def list_all2_eq_map by simp
  ultimately show ?thesis using h by metis
qed

lemma Authenticate_sound:
  assumes "keys_ok a" and "keys_from (ob_idp b) (oidc_IssuerURL (ob_cfg b)) a" and "Authenticate b r (a, w) = ((a', w'), Inr p)"
  shows "\<exists>scheme token hdr ks tok n slug.
      Header_Get r ''Authorization'' = scheme @ CHR '' '' # token \<and> map lower_ascii scheme = ''bearer''
    \<and> length token \<le> maxTokenBytes \<and> requireCompleteCompact token
    \<and> decodeCompactHeader (idp_header (ob_idp b)) token = Some hdr \<and> ch_Alg hdr = ''RS256''
    \<and> cached a' = Some ks \<and> key_set_ok ks \<and> idp_verify (ob_idp b) token ks = Some tok
    \<and> issued_keys (ob_idp b) (oidc_IssuerURL (ob_cfg b)) (as_calls a') ks
    \<and> w_ticks w \<le> n \<and> n < w_ticks w' \<and> claims_accepted b tok (w_clock w n)
    \<and> tk_Get tok (oidc_TenantClaim (ob_cfg b)) = Some slug \<and> ValidateSlug slug = Inr ()
    \<and> TenantRepository_GetBySlug slug (w_store w) = Inr (pr_Tenant p) \<and> pr_TenantID p = tenant_ID (pr_Tenant p)
    \<and> pr_ID p = principalIDFor (ob_idp b) (oidc_IssuerURL (ob_cfg b)) (tk_Subject tok)
    \<and> w_store w' = w_store w"
proof -
  obtain token hdr ks aw1 tok aw2 where p: "extractBearer r = Inr token" "decodeCompactHeader (idp_header (ob_idp b)) token = Some hdr"
    "ch_Alg hdr = allowedAlgorithm" "requireCompleteCompact token" "keySet b (a, w) = (aw1, Inr ks)"
    "verify_or_rotate b token ks aw1 = (aw2, Inr (Some tok))" "principalFromClaims b tok aw2 = ((a', w'), Inr p)"
    using assms(3) by (rule Authenticate_parts)
  have k: "keys_ok (fst aw1)" "cached (fst aw1) = Some ks" using keySet_ok [OF _ p(5)] assms(1) by auto
  obtain ks' where v: "cached (fst aw2) = Some ks'" "idp_verify (ob_idp b) token ks' = Some tok" "key_set_ok ks'"
    using verify_ok [OF k p(6)] by (auto simp: keys_ok_cached)
  have st: "w_store (snd aw2) = w_store w" "w_clock (snd aw2) = w_clock w" "w_ticks w \<le> w_ticks (snd aw2)"
    using op_relD [OF auth_reads_keys(1), of "(a, w)" b] op_relD [OF auth_reads_verify, of aw1 b token ks] p(5,6) by (simp_all add: reads_only_def)
  have w': "w_store w' = w_store w" using op_relD [OF auth_reads_claims, of aw2 b tok] p(7) st(1) by (simp add: reads_only_def)
  note c = claims_sound [OF p(7)]
  obtain scheme where h: "Header_Get r ''Authorization'' = scheme @ CHR '' '' # token" "map lower_ascii scheme = ''bearer''" "length token \<le> maxTokenBytes"
    using extractBearer_ok [OF p(1)] by (elim exE conjE) (rule that)
  obtain slug where s: "tk_Get tok (oidc_TenantClaim (ob_cfg b)) = Some slug" "ValidateSlug slug = Inr ()"
    "TenantRepository_GetBySlug slug (w_store w) = Inr (pr_Tenant p)" "pr_TenantID p = tenant_ID (pr_Tenant p)"
    using c(2) st(1) by auto
  have ca: "cached a' = Some ks'" using c(4) v(1) by (simp add: cached_def)
  have "keys_from (ob_idp b) (oidc_IssuerURL (ob_cfg b)) (fst aw1)" using keySet_from [OF _ p(5)] assms(2) by simp
  then have "keys_from (ob_idp b) (oidc_IssuerURL (ob_cfg b)) (fst aw2)" using verify_from [OF _ p(6)] by simp
  then have "keys_from (ob_idp b) (oidc_IssuerURL (ob_cfg b)) a'" using c(4,5) by (simp add: keys_from_def)
  from keys_from_issued [OF this ca] have "issued_keys (ob_idp b) (oidc_IssuerURL (ob_cfg b)) (as_calls a') ks'" .
  moreover have "ch_Alg hdr = ''RS256''" using p(3) by (simp add: allowedAlgorithm_def)
  moreover have "claims_accepted b tok (w_clock w (w_ticks (snd aw2)))" using c(1) st(2) by simp
  ultimately show ?thesis
    using h p(2,4) v(2,3) s c(3,6) w' ca st(3)
    by (intro exI [of _ scheme] exI [of _ token] exI [of _ hdr] exI [of _ ks'] exI [of _ tok]
        exI [of _ "w_ticks (snd aw2)"] exI [of _ slug]) auto
qed

text \<open>
  C14: There is no principal without a verified token. When authentication succeeds, the request carried a bearer
  token of bounded size in the compact form with algorithm RS256; the key set then cached, non-empty and
  without ambiguous key identifiers, verified its signature, and that key set was served, in one of the exchanges made so far, by the key URL
  of a discovery document of the configured issuer; the token's issuer, audience, validity window and
  subject met the contract at a reading of the clock made during this very authentication (not before it and not after); and the principal
  is the tenant its claim names in the store, with an identifier derived from issuer and subject. Nothing was written. The key cache before the request
  is assumed to be unambiguous and to come from the issuer, as it does from the empty cache of a new process on.
\<close>

theorem principal_from_verified_token:
  assumes "keys_ok a" and "keys_from (ob_idp b) (oidc_IssuerURL (ob_cfg b)) a" and "Authenticate b r (a, w) = ((a', w'), Inr p)"
  shows "\<exists>scheme token hdr ks tok n slug.
      Header_Get r ''Authorization'' = scheme @ CHR '' '' # token \<and> map lower_ascii scheme = ''bearer''
    \<and> length token \<le> maxTokenBytes \<and> requireCompleteCompact token
    \<and> decodeCompactHeader (idp_header (ob_idp b)) token = Some hdr \<and> ch_Alg hdr = ''RS256''
    \<and> cached a' = Some ks \<and> key_set_ok ks \<and> idp_verify (ob_idp b) token ks = Some tok
    \<and> issued_keys (ob_idp b) (oidc_IssuerURL (ob_cfg b)) (as_calls a') ks
    \<and> w_ticks w \<le> n \<and> n < w_ticks w' \<and> claims_accepted b tok (w_clock w n)
    \<and> tk_Get tok (oidc_TenantClaim (ob_cfg b)) = Some slug \<and> ValidateSlug slug = Inr ()
    \<and> TenantRepository_GetBySlug slug (w_store w) = Inr (pr_Tenant p) \<and> pr_TenantID p = tenant_ID (pr_Tenant p)
    \<and> pr_ID p = principalIDFor (ob_idp b) (oidc_IssuerURL (ob_cfg b)) (tk_Subject tok)
    \<and> w_store w' = w_store w"
  using assms by (rule Authenticate_sound)

subsection \<open>Forced refreshes\<close>

datatype key_call = CallCurrent Time | CallForced Time

fun key_step :: "Idp \<Rightarrow> key_call \<Rightarrow> keyStore \<times> nat \<Rightarrow> keyStore \<times> nat" where
  "key_step idp (CallCurrent now) kn = fst (current idp now kn)"
| "key_step idp (CallForced now) kn = fst (refreshForced idp now kn)"

text \<open>The instants of the forced calls that reached the network.\<close>

fun forced_fetches :: "Idp \<Rightarrow> key_call list \<Rightarrow> keyStore \<times> nat \<Rightarrow> Time list" where
  "forced_fetches idp [] kn = []"
| "forced_fetches idp (c # cs) kn =
     (let kn' = key_step idp c kn in
      (case c of CallForced now \<Rightarrow> if snd kn' \<noteq> snd kn then [now] else [] | _ \<Rightarrow> []) @ forced_fetches idp cs kn')"

definition spaced :: "Time \<Rightarrow> Time list \<Rightarrow> bool" where
  "spaced prev ts \<longleftrightarrow> (prev = zero_time \<or> list_all (\<lambda>t. t - prev \<ge> forcedRefreshFloor) ts)
     \<and> sorted_wrt (\<lambda>a b. b - a \<ge> forcedRefreshFloor) ts"

lemma forced_spaced:
  assumes "list_all (\<lambda>c. case c of CallForced now \<Rightarrow> now \<noteq> zero_time | _ \<Rightarrow> True) cs"
  shows "spaced (ks_lastForcedAt (fst kn)) (forced_fetches idp cs kn)"
  using assms
proof (induction cs arbitrary: kn)
  case Nil
  then show ?case by (simp add: spaced_def)
next
  case (Cons c cs)
  obtain k n where kn: "kn = (k, n)" by (cases kn)
  have IH: "spaced (ks_lastForcedAt (fst kn')) (forced_fetches idp cs kn')" for kn' using Cons by simp
  show ?case
  proof (cases c)
    case (CallCurrent now)
    obtain k' n' r where f: "current idp now (k, n) = ((k', n'), r)" by (metis prod.exhaust)
    have "ks_lastForcedAt k' = ks_lastForcedAt k" using current_cases(1) [OF f] by auto
    then show ?thesis using IH [of "(k', n')"] f by (simp add: kn CallCurrent)
  next
    case (CallForced now)
    obtain k' n' r where f: "refreshForced idp now (k, n) = ((k', n'), r)" by (metis prod.exhaust)
    have ih: "spaced (ks_lastForcedAt k') (forced_fetches idp cs (k', n'))" using IH [of "(k', n')"] by simp
    show ?thesis
    proof (cases "rate_limited now k")
      case True
      then have "k' = k" "n' = n" using refreshForced_cases(1) [OF f] by auto
      then show ?thesis using ih f by (simp add: kn CallForced)
    next
      case False
      then have l: "ks_lastForcedAt k' = now" using refreshForced_cases(1) [OF f] by auto
      have now: "now \<noteq> zero_time" using Cons.prems CallForced by simp
      have far: "ks_lastForcedAt k = zero_time \<or> now - ks_lastForcedAt k \<ge> forcedRefreshFloor"
        using False by (auto simp: rate_limited_def)
      have "0 < forcedRefreshFloor" by (simp add: forcedRefreshFloor_def)
      then show ?thesis
        using ih l now far f
        by (auto simp: spaced_def kn CallForced list_all_iff)
    qed
  qed
qed

lemma spaced_few:
  assumes "sorted_wrt (\<lambda>a b. b - a \<ge> d) ts" "0 < d" "ts \<noteq> []" "list_all (\<lambda>t. lo \<le> t \<and> t \<le> hi) ts"
  shows "int (length ts - 1) * d \<le> hi - lo"
  using assms
proof (induction ts arbitrary: lo)
  case (Cons t ts)
  show ?case
  proof (cases ts)
    case (Cons t' ts')
    have "list_all (\<lambda>u. t + d \<le> u \<and> u \<le> hi) ts" using Cons.prems by (auto simp: list_all_iff)
    then have "int (length ts - 1) * d \<le> hi - (t + d)" using Cons.IH [of "t + d"] Cons.prems Cons by auto
    then show ?thesis using Cons.prems Cons by (simp add: algebra_simps)
  qed (use Cons.prems in simp)
qed simp

text \<open>
  Forged tokens cannot make a node hammer its identity provider. In any interleaving of ordinary and
  forced key lookups, at whatever instants and whatever the provider answers, forced lookups that reach the network
  are at least a second apart, even if the clock jumps back; so a window of \<open>n\<close> seconds has at most \<open>n + 1\<close> of them.
\<close>

theorem forced_refresh_spaced:
  assumes "list_all (\<lambda>c. case c of CallForced now \<Rightarrow> now \<noteq> zero_time | _ \<Rightarrow> True) cs"
    and "ts = forced_fetches idp cs (newKeyStore url ttl, n)" and "list_all (\<lambda>t. lo \<le> t \<and> t \<le> hi) ts"
  shows "sorted_wrt (\<lambda>a b. b - a \<ge> Second) ts \<and> (int (length ts) - 1) * Second \<le> max 0 (hi - lo)"
proof -
  have s: "sorted_wrt (\<lambda>a b. b - a \<ge> Second) ts"
    using forced_spaced [OF assms(1), of "(newKeyStore url ttl, n)" idp] assms(2) by (simp add: spaced_def forcedRefreshFloor_def)
  have "(int (length ts) - 1) * Second \<le> max 0 (hi - lo)"
  proof (cases "ts = []")
    case False
    then show ?thesis using spaced_few [OF s _ False assms(3)] by (cases ts) (auto simp: max_def)
  qed (simp add: max_def)
  then show ?thesis using s by blast
qed

subsection \<open>A node with metrics disabled\<close>

lemma fail_panics: "ob_obs b = Pointer False \<Longrightarrow> fail b code aw = (aw, Inl Panic)"
  by (auto simp: fail_def seq_op_def AuthToken_def observe_def split: option.splits)

lemma claims_panic:
  assumes "ob_obs b = Pointer False"
  shows "\<exists>aw' e. principalFromClaims b tok aw = (aw', Inl e) \<and> is_panic e"
proof -
  have a: "AuthToken b res aw = (aw, Inl Panic)" for res aw using assms by (simp add: AuthToken_def observe_def)
  have t: "\<exists>aw' e. seq_op (resolve_tenant b slug) (\<lambda>tenant. seq_op (AuthToken b ResultAccepted) (f tenant)) aw = (aw', Inl e) \<and> is_panic e" for slug f aw
    by (auto simp: seq_op_def resolve_tenant_def a fail_panics [OF assms] split: sum.splits option.splits)
  show ?thesis
    using t by (auto simp: principalFromClaims_def Let_def fail_panics [OF assms] seq_op_def in_world_def Now_def split: option.splits)
qed

lemma Authenticate_panics:
  assumes "ob_obs b = Pointer False"
  shows "\<exists>aw' e. Authenticate b r aw = (aw', Inl e) \<and> is_panic e"
proof -
  have v: "\<exists>aw' e. seq_op (verify_or_rotate b token ks) (\<lambda>verified.
       case verified of None \<Rightarrow> fail b ''invalid_token_signature'' | Some tok \<Rightarrow> principalFromClaims b tok) aw = (aw', Inl e) \<and> is_panic e" for token ks aw
  proof (cases "verify_or_rotate b token ks aw")
    case (Pair aw1 res)
    then show ?thesis
      using claims_panic [OF assms, of _ aw1]
      by (cases res) (auto simp: seq_op_def fail_panics [OF assms] verify_or_rotate_def split: option.splits prod.splits sum.splits if_splits)
  qed
  show ?thesis
    using v by (auto simp: Authenticate_def fail_panics [OF assms] split: sum.splits option.splits prod.splits)
qed

text \<open>
  With OIDC configured and metrics disabled, no protected request can be served: the typed nil
  collector reaches the authenticator, which panics on every path, and every caller is answered 500.
\<close>

theorem metrics_off_locks_everybody_out:
  assumes "newServer idp lib deps registered appReady app = Inr sv" and "OIDC_Configured (cfg_OIDC (app_Config app))" and "\<not> app_Metrics app"
    and "match_route (registered_routes sv) (rq_Method r) (rq_Path r) = Some (route, v)" and "rt_Auth route"
  shows "rp_Status (sd_Response (snd (serve sv r aw))) = 500"
proof -
  obtain b where b: "NewBearer idp (cfg_OIDC (app_Config app)) (Pointer False) = Inr b" "sv_auth sv = Authenticate b"
    using assms(1-3) by (auto simp: newServer_def Let_def Server_New_def split: sum.splits if_splits)
  have o: "ob_obs b = Pointer False" using b(1) by (auto simp: NewBearer_def split: if_splits sum.splits)
  obtain w1 corr sw' resp where s: "resolveCorrelation (routed sv r) (snd aw) = (w1, corr)"
      "gated sv (fst (gate_of sv r)) (snd (gate_of sv r)) (request_ctx (fst corr)) (routed sv r) (fst aw, w1) = (sw', resp)"
      "serve sv r aw = (sw', account sv (route_label sv r) r corr resp)"
    by (rule serve_parts)
  obtain aw' e where e: "Authenticate b (routed sv r) (fst aw, w1) = (aw', Inl e)" "is_panic e"
    using Authenticate_panics [OF o] by blast
  have "resp = writeProblem (routed sv r) (ErrKindInternal, ''internal'')"
    using s(2) assms(4,5) b(2) e by (simp add: gate_of_def gated_def denied_def)
  then show ?thesis using s(3) by (simp add: account_def add_header_def writeProblem_def writeJSONStatus_def Let_def)
qed

subsection \<open>An example provider\<close>

definition ex_web :: CParse where
  "ex_web = \<lparr>cp_hostport = (\<lambda>_. True), cp_url = (\<lambda>_. Some \<lparr>u_Scheme = ''https'', u_Host = ''idp'', u_Hostname = ''idp''\<rparr>),
     cp_ip = (\<lambda>_. None), cp_duration = (\<lambda>_. None)\<rparr>"

definition ex_token :: Token where
  "ex_token = \<lparr>tk_Issuer = ''https://idp'', tk_Audience = [''ants''], tk_Expiration = 100, tk_NotBefore = 0, tk_Subject = ''u'',
     tk_Get = (\<lambda>c. if c = ''tenant'' then Some ''acme'' else None)\<rparr>"

definition ex_idp :: Idp where
  "ex_idp = \<lparr>idp_net = (\<lambda>_ _. Reply 200 (Some [])),
     idp_doc = (\<lambda>_. Some \<lparr>dd_Issuer = ''https://idp'', dd_JWKSURI = ''https://idp/keys''\<rparr>),
     idp_jwks = (\<lambda>_. Some [\<lparr>jwk_KeyID = ''k1'', jwk_Key = ''K''\<rparr>]), idp_header = (\<lambda>_. Some \<lparr>ch_Alg = ''RS256'', ch_Kid = ''k1''\<rparr>),
     idp_verify = (\<lambda>token _. if token = ''AA.BB.CC'' then Some ex_token else None), idp_digest = (\<lambda>_. ''d''), idp_parse = ex_web\<rparr>"

definition ex_oidc :: OIDC where
  "ex_oidc = \<lparr>oidc_IssuerURL = ''https://idp'', oidc_Audience = ''ants'', oidc_TenantClaim = ''tenant'', oidc_JWKSRefreshInterval = 15 * Minute,
     oidc_ClockSkew = 30 * Second, oidc_HTTPTimeout = 5 * Second\<rparr>"

definition ex_bearer :: OIDCBearer where
  "ex_bearer = \<lparr>ob_cfg = ex_oidc, ob_idp = ex_idp, ob_obs = Pointer True\<rparr>"

definition ex_nobody :: authState where
  "ex_nobody = \<lparr>as_keys = None, as_calls = 0, as_results = []\<rparr>"

definition acme_store :: storeState where
  "acme_store = (empty_store 5)\<lparr>st_tenants := [(tenant_ID acme_tenant, acme_tenant)], st_tenantSlugs := [(''acme'', tenant_ID acme_tenant)]\<rparr>"

definition acme_principal :: Principal where
  "acme_principal = \<lparr>pr_TenantID = tenant_ID acme_tenant, pr_Tenant = acme_tenant, pr_ID = ''prn_d''\<rparr>"

definition with_token :: "request \<Rightarrow> request" where
  "with_token r = r\<lparr>rq_Headers := [(''Authorization'', ''Bearer AA.BB.CC'')]\<rparr>"

lemma ex_extract: "extractBearer (with_token r) = Inr ''AA.BB.CC''"
proof -
  have c: "CanonicalHeaderKey ''Authorization'' = ''Authorization''" by code_simp
  have "equalFold ''Bearer'' ''bearer''" by code_simp
  then show ?thesis
    by (simp add: extractBearer_def Let_def Header_Get_def with_token_def maxTokenBytes_def c)
qed

lemma ex_compact: "decodeCompactHeader (idp_header ex_idp) ''AA.BB.CC'' = Some \<lparr>ch_Alg = ''RS256'', ch_Kid = ''k1''\<rparr>" "requireCompleteCompact ''AA.BB.CC''"
proof -
  have "strings_Cut (CHR ''.'') ''AA.BB.CC'' = (''AA'', ''BB.CC'', True)" "RawURLDecode ''AA'' \<noteq> None" by code_simp+
  then show "decodeCompactHeader (idp_header ex_idp) ''AA.BB.CC'' = Some \<lparr>ch_Alg = ''RS256'', ch_Kid = ''k1''\<rparr>"
    by (auto simp: decodeCompactHeader_def ex_idp_def)
  show "requireCompleteCompact ''AA.BB.CC''" by code_simp
qed

lemma ex_keySet:
  "keySet ex_bearer (ex_nobody, w) = ((\<lparr>as_keys = Some \<lparr>ks_url = ''https://idp/keys'', ks_ttl = 15 * Minute, ks_set = Some [\<lparr>jwk_KeyID = ''k1'', jwk_Key = ''K''\<rparr>],
     ks_fetchedAt = w_clock w (w_ticks w), ks_lastForcedAt = 0\<rparr>, as_calls = 2, as_results = []\<rparr>, w\<lparr>w_ticks := Suc (w_ticks w)\<rparr>), Inr [\<lparr>jwk_KeyID = ''k1'', jwk_Key = ''K''\<rparr>])"
proof -
  have "trim_suffix ''/'' ''https://idp'' = ''https://idp''" by code_simp
  then show ?thesis
    by (simp add: keySet_def seq_op_def establish_def ex_bearer_def ex_nobody_def discover_def get_body_def ex_idp_def ex_web_def ex_oidc_def
      transport_ok_def newKeyStore_def with_keys_def current_def fetch_or_cached_def fetch_def in_world_def Now_def Let_def)
qed

lemma ex_authenticated:
  assumes "w_clock w (Suc (w_ticks w)) = 1" and "w_store w = acme_store"
  shows "\<exists>a'. Authenticate ex_bearer (with_token r) (ex_nobody, w) = ((a', w\<lparr>w_ticks := w_ticks w + 2\<rparr>), Inr acme_principal)"
proof -
  have c: "trim_suffix ''/'' ''https://idp'' = ''https://idp''" "ValidateSlug ''acme'' = Inr ()" by code_simp+
  obtain a1 where k: "keySet ex_bearer (ex_nobody, w) = ((a1, w\<lparr>w_ticks := Suc (w_ticks w)\<rparr>), Inr [\<lparr>jwk_KeyID = ''k1'', jwk_Key = ''K''\<rparr>])"
    using ex_keySet by blast
  have v: "verify_or_rotate ex_bearer ''AA.BB.CC'' ks aw = (aw, Inr (Some ex_token))" for ks aw
    by (simp add: verify_or_rotate_def ex_bearer_def ex_idp_def)
  have t: "resolve_tenant ex_bearer ''acme'' (a1, w\<lparr>w_ticks := w_ticks w + 2\<rparr>) = ((a1, w\<lparr>w_ticks := w_ticks w + 2\<rparr>), Inr acme_tenant)"
    using assms(2) by (simp add: resolve_tenant_def TenantRepository_GetBySlug_def acme_store_def)
  have "\<exists>a'. principalFromClaims ex_bearer ex_token (a1, w\<lparr>w_ticks := Suc (w_ticks w)\<rparr>) = ((a', w\<lparr>w_ticks := w_ticks w + 2\<rparr>), Inr acme_principal)"
    using assms(1) c t
    by (simp add: principalFromClaims_def Let_def ex_token_def seq_op_def in_world_def Now_def AuthToken_def observe_def return_op_def
        slicesContain_def ex_bearer_def ex_oidc_def ex_idp_def principalIDFor_def PrefixPrincipal_def acme_principal_def)
  then show ?thesis
    using k v ex_compact by (simp add: Authenticate_def ex_extract allowedAlgorithm_def seq_op_def) (simp add: ex_bearer_def allowedAlgorithm_def)
qed

theorem principal_from_verified_token_witness:
  "\<exists>a' w' ks. Authenticate ex_bearer (with_token (ex_request ''GET'' ''/v1/projects'')) (ex_nobody, ex_world acme_store) = ((a', w'), Inr acme_principal)
     \<and> cached a' = Some ks \<and> key_set_ok ks \<and> w_store w' = acme_store"
proof -
  obtain a' w' where a: "Authenticate ex_bearer (with_token (ex_request ''GET'' ''/v1/projects'')) (ex_nobody, ex_world acme_store) = ((a', w'), Inr acme_principal)"
    using ex_authenticated [of "ex_world acme_store" "ex_request ''GET'' ''/v1/projects''"] by (fastforce simp: ex_world_def)
  have k: "keys_ok ex_nobody" "keys_from i s ex_nobody" for i s by (simp_all add: keys_ok_def keys_from_def ex_nobody_def)
  from principal_from_verified_token [OF k a] obtain ks where "cached a' = Some ks" "key_set_ok ks" "w_store w' = w_store (ex_world acme_store)"
    by (elim exE conjE) (rule that)
  then show ?thesis using a by (simp add: ex_world_def)
qed

theorem forced_refresh_spaced_witness:
  "forced_fetches ex_idp [CallForced 1, CallForced 2, CallCurrent 3, CallForced (Second + 1)] (newKeyStore ''https://idp/keys'' Minute, 0) = [1, Second + 1]
   \<and> sorted_wrt (\<lambda>a b. b - a \<ge> Second) [1, Second + 1]"
proof -
  let ?cs = "[CallForced 1, CallForced 2, CallCurrent 3, CallForced (Second + 1)]"
  have f: "forced_fetches ex_idp ?cs (newKeyStore ''https://idp/keys'' Minute, 0) = [1, Second + 1]"
    by (simp add: refreshForced_def rate_limited_def current_def fetch_or_cached_def fetch_def get_body_def ex_idp_def ex_web_def
        newKeyStore_def maxKeysetBytes_def forcedRefreshFloor_def Let_def)
  have "sorted_wrt (\<lambda>a b. b - a \<ge> Second) [1, Second + 1]"
    using forced_refresh_spaced [of ?cs "[1, Second + 1]" ex_idp "''https://idp/keys''" Minute 0 1 "Second + 1"] f by simp
  with f show ?thesis by blast
qed

end
