(* ===== verification/App_Laws.thy ===== *)
theory App_Laws
  imports App_Build
begin

section \<open>What a loaded configuration guarantees\<close>

text \<open>
  The table of overrides and the list of known variables agree, so no variable is known and ignored.
  Most of the constructors' checks repeat the validation. A valid configuration is built unless one of
  the others refuses it (the drivers disagree, the work root is relative, the node's name is no owner of
  a claim) or the machine does.
\<close>

subsection \<open>Checks\<close>

lemma checks_iff [simp]: "checks bs = Inr () \<longleftrightarrow> list_all (\<lambda>b. b) bs"
  by (induction bs) (auto simp: require_def)

lemma require_iff [simp]: "require b = Inr () \<longleftrightarrow> b"
  by (simp add: require_def)

lemma unit_result: "(\<exists>u. r = Inr u \<and> P) \<longleftrightarrow> r = Inr () \<and> P" for r :: "unit result"
  by auto

lemma wrapped_iff [simp]: "wrapped r = Inr x \<longleftrightarrow> r = Inr x"
  by (auto simp: wrapped_def split: sum.splits)

lemma Config_Validate_iff:
  "Config_Validate cp c = Inr () \<longleftrightarrow>
     (let s = cfg_Server c; orch = cfg_Orchestrator c in
       srv_HTTPAddr s \<noteq> [] \<and> cp_hostport cp (srv_HTTPAddr s)
       \<and> srv_ReadTimeout s > 0 \<and> srv_WriteTimeout s > 0 \<and> srv_IdleTimeout s > 0 \<and> srv_ShutdownTimeout s > 0 \<and> srv_ReadinessTimeout s > 0
       \<and> auth_Validate cp (cfg_OIDC c) = Inr () \<and> store_Validate (cfg_Store c) = Inr ()
       \<and> orc_MaxParallelTasks orch \<in> {1..64} \<and> orc_MaxTasksPerRun orch \<in> {1..64} \<and> orc_MaxExecOpsPerRun orch \<in> {1..4096}
       \<and> orc_TaskTimeout orch > 0 \<and> orc_StageTimeout orch > 0 \<and> orc_MaxAttempts orch \<in> {1..10} \<and> orc_RetryBackoffBase orch \<ge> 0
       \<and> sbc_Driver (cfg_Sandbox c) \<in> {SandboxDriverProcess, SandboxDriverFake}
       \<and> cfg_SCMDriver c \<in> {SCMDriverMemory, SCMDriverLocalGit}
       \<and> Outbox_Validate (cfg_Outbox c) = Inr () \<and> OutboxRetention_Validate (obc_Retention (cfg_Outbox c)) = Inr ()
       \<and> Worker_Validate (cfg_Worker c) = Inr ()
       \<and> log_Level (cfg_Log c) \<in> set LogLevels \<and> log_Format (cfg_Log c) \<in> set LogFormats)"
  by (auto simp: Config_Validate_def Let_def)

subsection \<open>The environment\<close>

lemma set_eq_members: "list_all (\<lambda>x. x \<in> set ys) xs \<and> list_all (\<lambda>y. y \<in> set xs) ys \<Longrightarrow> set xs = set ys"
  by (auto simp: list_all_iff)

lemma overrides_known: "set (map fst (overrides cp)) = set knownEnvVars" "distinct (map fst (overrides cp))"
proof -
  show "set (map fst (overrides cp)) = set knownEnvVars"
    unfolding overrides_def list.map fst_conv by (rule set_eq_members) code_simp
  show "distinct (map fst (overrides cp))"
    unfolding overrides_def list.map fst_conv by code_simp
qed

lemma present_None [simp]: "present None = None"
  by (simp add: present_def)

lemma overrides_absent: "(k, f) \<in> set (overrides cp) \<Longrightarrow> f None c = Inr c"
  by (auto simp: overrides_def str_var_def bool_var_def int_var_def dur_var_def dsn_var_def)

lemma apply_absent: "(\<And>k f. (k, f) \<in> set os \<Longrightarrow> look k = None \<and> f None c = Inr c) \<Longrightarrow> apply_overrides look os c = Inr c"
proof (induction os)
  case (Cons a os)
  have "look (fst a) = None" "snd a None c = Inr c" "apply_overrides look os c = Inr c"
    using Cons.prems [of "fst a" "snd a"] Cons.IH Cons.prems by auto
  then show ?case by (cases a) simp
qed simp

text \<open>An environment without a known variable leaves the file's configuration as it is.\<close>

lemma ApplyEnv_absent:
  assumes "\<And>k. k \<in> set knownEnvVars \<Longrightarrow> look k = None" and "unknownAntsVars environ = []"
  shows "ApplyEnv cp look environ c = Inr c"
proof -
  have "apply_overrides look (overrides cp) c = Inr c"
    using assms(1) overrides_known(1) overrides_absent by (intro apply_absent) (metis fst_conv image_eqI list.set_map)
  then show ?thesis using assms(2) by (simp add: ApplyEnv_def)
qed

lemma apply_single:
  assumes "distinct (map fst os)" and "(k, f) \<in> set os" and "\<And>k' g. (k', g) \<in> set os \<Longrightarrow> k' \<noteq> k \<Longrightarrow> look k' = None"
    and "\<And>k' g d. (k', g) \<in> set os \<Longrightarrow> g None d = Inr d"
  shows "apply_overrides look os c = f (look k) c"
  using assms
proof (induction os)
  case (Cons a os)
  show ?case
  proof (cases "fst a = k")
    case True
    then have a: "a = (k, f)" using Cons.prems(1,2) by (auto simp: image_iff)
    have "k \<notin> fst ` set os" using Cons.prems(1) True by auto
    then have "apply_overrides look os d = Inr d" for d
      by (rule_tac apply_absent) (use Cons.prems(3,4) in force)
    then show ?thesis by (cases "f (look k) c") (simp_all add: a)
  next
    case False
    then have "look (fst a) = None" "snd a None c = Inr c"
      using Cons.prems(3) [of "fst a" "snd a"] Cons.prems(4) [of "fst a" "snd a" c] by auto
    moreover have "apply_overrides look os c = f (look k) c"
    proof (rule Cons.IH)
      show "(k, f) \<in> set os" using Cons.prems(2) False by auto
      show "look k' = None" if "(k', g) \<in> set os" "k' \<noteq> k" for k' g using Cons.prems(3) [of k' g] that by simp
      show "g None d = Inr d" if "(k', g) \<in> set os" for k' g d using Cons.prems(4) [of k' g d] that by simp
    qed (use Cons.prems(1) in simp)
    ultimately show ?thesis by (cases a) simp
  qed
qed simp

text \<open>
  The environment has the last word, one variable at a time: a known variable set to a value
  changes the configuration by its own override and by nothing else, and an environment
  holding an unknown \<open>ANTS_\<close> variable is refused however the overrides went.
\<close>

theorem environment_exact:
  assumes "(k, f) \<in> set (overrides cp)" and "\<And>k'. k' \<in> set knownEnvVars \<Longrightarrow> k' \<noteq> k \<Longrightarrow> look k' = None"
  shows "ApplyEnv cp look environ c = (if unknownAntsVars environ = [] then f (look k) c else Inl Foreign)
    \<or> unknownAntsVars environ \<noteq> [] \<and> (\<exists>e. f (look k) c = Inl e \<and> ApplyEnv cp look environ c = Inl e)"
proof -
  have "apply_overrides look (overrides cp) c = f (look k) c"
  proof (rule apply_single [OF overrides_known(2) assms(1)])
    show "look k' = None" if "(k', g) \<in> set (overrides cp)" "k' \<noteq> k" for k' g
      using assms(2) [of k'] that overrides_known(1) [of cp] by force
  qed (rule overrides_absent)
  then show ?thesis by (cases "f (look k) c") (auto simp: ApplyEnv_def)
qed

subsection \<open>Building\<close>

lemma sint_duration: "0 \<le> x \<Longrightarrow> x < 2 ^ 63 \<Longrightarrow> sint (word_of_int x :: 64 word) = x"
  by (simp add: signed_of_int signed_take_bit_int_eq_self)

lemma memory_store: "NewReposWithOptions 0 = Inr (empty_store defaultOutboxMaxAttempts)"
  by (simp add: NewReposWithOptions_def defaultOutboxMaxAttempts_def)

lemma constructors_accept:
  assumes "Config_Validate cp cfg = Inr ()" and "orc_RetryBackoffBase (cfg_Orchestrator cfg) < 2 ^ 63" and "obc_RetryBackoffBase (cfg_Outbox cfg) < 2 ^ 63"
  shows "Engine_New sandbox scmName (engine_config (cfg_Orchestrator cfg)) = Inr (engine_config (cfg_Orchestrator cfg)) \<longleftrightarrow>
      (if fst sandbox = ''fake'' then scmName = ''memory'' else snd sandbox)"
    and "Dispatcher_New (dispatcher_config (cfg_Outbox cfg)) = Inr (dispatcher_config (cfg_Outbox cfg))"
    and "WorkerConfig_Validate (worker_config (cfg_Worker cfg)) = Inr ()"
    and "GC_New (gc_config (obc_Retention (cfg_Outbox cfg))) = Inr (gc_config (obc_Retention (cfg_Outbox cfg)))"
proof -
  note V = assms(1) [unfolded Config_Validate_iff Let_def Outbox_Validate_def OutboxRetention_Validate_def Worker_Validate_def]
  show "Engine_New sandbox scmName (engine_config (cfg_Orchestrator cfg)) = Inr (engine_config (cfg_Orchestrator cfg)) \<longleftrightarrow>
      (if fst sandbox = ''fake'' then scmName = ''memory'' else snd sandbox)"
    using V sint_duration [OF _ assms(2)] by (auto simp: Engine_New_def engine_config_def)
  show "Dispatcher_New (dispatcher_config (cfg_Outbox cfg)) = Inr (dispatcher_config (cfg_Outbox cfg))"
    using V sint_duration [OF _ assms(3)] by (simp add: Dispatcher_New_def DispatcherConfig_Validate_def dispatcher_config_def)
  show "WorkerConfig_Validate (worker_config (cfg_Worker cfg)) = Inr ()"
    using V by (simp add: WorkerConfig_Validate_def worker_config_def)
  show "GC_New (gc_config (obc_Retention (cfg_Outbox cfg))) = Inr (gc_config (obc_Retention (cfg_Outbox cfg)))"
    using V by (simp add: GC_New_def GCConfig_Validate_def gc_config_def MaxRetentionSweepBatch_def)
qed

text \<open>
  The checks that validation does not make: the engine's on the pair of drivers, \<^verbatim>\<open>NewProcessDriver\<close>'s on
  the configured work root, and the worker's on the name of the node, which is made of the host's name and
  the process id. The machine only answers: the database opens, a temporary directory can be made where no
  work root is configured, the git binary is found.
\<close>

definition drivers_agree :: "Config \<Rightarrow> bool" where
  "drivers_agree cfg \<longleftrightarrow> sbc_Driver (cfg_Sandbox cfg) = SandboxDriverFake \<longrightarrow> cfg_SCMDriver cfg = SCMDriverMemory"

definition work_root_ok :: "SandboxBlock \<Rightarrow> bool" where
  "work_root_ok b \<longleftrightarrow> sbc_Driver b = SandboxDriverProcess \<longrightarrow> sbc_WorkRoot b = [] \<or> has_prefix ''/'' (sbc_WorkRoot b)"

definition machine_answers :: "BEnv \<Rightarrow> Config \<Rightarrow> bool" where
  "machine_answers env cfg \<longleftrightarrow>
     (stc_Mode (cfg_Store cfg) = StoreModePostgres \<longrightarrow> be_postgres env (cfg_Store cfg) (obc_MaxAttempts (cfg_Outbox cfg)) = Inr ())
     \<and> (sbc_Driver (cfg_Sandbox cfg) = SandboxDriverProcess \<and> sbc_WorkRoot (cfg_Sandbox cfg) = [] \<longrightarrow> be_mkdirTemp env = Inr ())
     \<and> (cfg_SCMDriver cfg = SCMDriverLocalGit \<longrightarrow> be_git env = Inr ())"

definition buildable :: "BEnv \<Rightarrow> Config \<Rightarrow> bool" where
  "buildable env cfg \<longleftrightarrow> drivers_agree cfg \<and> work_root_ok (cfg_Sandbox cfg) \<and> ValidateClaimOwner (node_id env) = Inr ()
     \<and> machine_answers env cfg"

lemma NewProcessDriver_iff:
  "NewProcessDriver env root = Inr () \<longleftrightarrow> (if root = [] then be_mkdirTemp env = Inr () else has_prefix ''/'' root)"
  by (auto simp: NewProcessDriver_def split: sum.splits)

lemma buildable_iff:
  "buildable env cfg \<longleftrightarrow> drivers_agree cfg
     \<and> (stc_Mode (cfg_Store cfg) = StoreModePostgres \<longrightarrow> be_postgres env (cfg_Store cfg) (obc_MaxAttempts (cfg_Outbox cfg)) = Inr ())
     \<and> (sbc_Driver (cfg_Sandbox cfg) = SandboxDriverProcess \<longrightarrow> NewProcessDriver env (sbc_WorkRoot (cfg_Sandbox cfg)) = Inr ())
     \<and> (cfg_SCMDriver cfg = SCMDriverLocalGit \<longrightarrow> be_git env = Inr ())
     \<and> ValidateClaimOwner (node_id env) = Inr ()"
  by (auto simp: buildable_def work_root_ok_def machine_answers_def NewProcessDriver_iff)

lemmas mode_defs = StoreModeMemory_def StoreModePostgres_def SandboxDriverProcess_def SandboxDriverFake_def
  SCMDriverMemory_def SCMDriverLocalGit_def

lemma open_store_iff:
  assumes "store_Validate (cfg_Store cfg) = Inr ()"
  shows "(\<exists>st. open_store env cfg = Inr st) \<longleftrightarrow>
     (stc_Mode (cfg_Store cfg) = StoreModePostgres \<longrightarrow> be_postgres env (cfg_Store cfg) (obc_MaxAttempts (cfg_Outbox cfg)) = Inr ())"
  using assms by (auto simp: open_store_def store_Validate_def memory_store mode_defs split: sum.splits if_splits)

lemma buildSandbox_iff:
  "buildSandbox env b = Inr d \<longleftrightarrow>
     sbc_Driver b = SandboxDriverProcess \<and> NewProcessDriver env (sbc_WorkRoot b) = Inr () \<and> d = (''process'', True)
     \<or> sbc_Driver b = SandboxDriverFake \<and> d = (''fake'', False)"
  by (auto simp: buildSandbox_def mode_defs)

lemma buildSCM_iff:
  "buildSCM env driver = Inr n \<longleftrightarrow> (driver = SCMDriverMemory \<or> driver = SCMDriverLocalGit \<and> be_git env = Inr ()) \<and> n = driver"
  by (auto simp: buildSCM_def mode_defs split: sum.splits)



lemma Worker_New_iff: "Worker_New wc owner = Inr w \<longleftrightarrow> WorkerConfig_Validate wc = Inr () \<and> ValidateClaimOwner owner = Inr () \<and> w = (wc, owner)"
  by (auto simp: Worker_New_def split: sum.splits)


lemma Build_parts:
  assumes "Build cp env cfg = Inr app"
  shows "Config_Validate cp cfg = Inr ()" "open_store env cfg = Inr (app_Store app)"
    "buildSandbox env (cfg_Sandbox cfg) = Inr (app_SandboxName app, app_SandboxName app = ''process'')"
    "buildSCM env (cfg_SCMDriver cfg) = Inr (app_SCMName app)"
    "Engine_New (app_SandboxName app, app_SandboxName app = ''process'') (app_SCMName app) (engine_config (cfg_Orchestrator cfg)) = Inr (app_Engine app)"
    "Dispatcher_New (dispatcher_config (cfg_Outbox cfg)) = Inr (app_Outbox app)"
    "Worker_New (worker_config (cfg_Worker cfg)) (node_id env) = Inr (app_Worker app)"
    "GC_New (gc_config (obc_Retention (cfg_Outbox cfg))) = Inr (app_Retention app)"
    "app_outboxObs app = Pointer (cfg_MetricsEnabled cfg)" "app_workerObs app = Pointer (cfg_MetricsEnabled cfg)"
    "app_Config app = cfg" "app_AllowLocalCommits app = cfg_AllowLocalCommits cfg" "app_Metrics app = cfg_MetricsEnabled cfg"
  using assms by (auto simp: Build_def Let_def buildSandbox_iff)

lemma Build_iff:
  assumes "orc_RetryBackoffBase (cfg_Orchestrator cfg) < 2 ^ 63" and "obc_RetryBackoffBase (cfg_Outbox cfg) < 2 ^ 63"
  shows "(\<exists>app. Build cp env cfg = Inr app) \<longleftrightarrow> Config_Validate cp cfg = Inr () \<and> buildable env cfg"
proof -
  have built: "Config_Validate cp cfg = Inr () \<and> buildable env cfg" if "Build cp env cfg = Inr app" for app
  proof -
    note P = Build_parts [OF that]
    have "store_Validate (cfg_Store cfg) = Inr ()"
      using P(1) by (simp add: Config_Validate_iff Let_def)
    then show ?thesis
      using P open_store_iff [of cfg env]
      by (auto simp: buildable_iff drivers_agree_def buildSandbox_iff buildSCM_iff Worker_New_iff Engine_New_def mode_defs
          split: if_splits)
  qed
  have builds: "\<exists>app. Build cp env cfg = Inr app"
    if v: "Config_Validate cp cfg = Inr ()" and m: "buildable env cfg"
  proof -
    note C = constructors_accept [OF v assms]
    have V: "store_Validate (cfg_Store cfg) = Inr ()" "sbc_Driver (cfg_Sandbox cfg) \<in> {SandboxDriverProcess, SandboxDriverFake}"
      "cfg_SCMDriver cfg \<in> {SCMDriverMemory, SCMDriverLocalGit}"
      using v by (simp_all add: Config_Validate_iff Let_def)
    obtain st where st: "open_store env cfg = Inr st"
      using open_store_iff [OF V(1), of env] m by (auto simp: buildable_iff)
    obtain dr where dr: "buildSandbox env (cfg_Sandbox cfg) = Inr dr" "if fst dr = ''fake'' then cfg_SCMDriver cfg = ''memory'' else snd dr"
    proof (cases "sbc_Driver (cfg_Sandbox cfg) = SandboxDriverFake")
      case True
      then show ?thesis using that [of "(''fake'', False)"] m
        by (simp add: buildable_iff drivers_agree_def buildSandbox_iff SCMDriverMemory_def)
    next
      case False
      then show ?thesis using that [of "(''process'', True)"] V(2) m
        by (simp add: buildable_iff buildSandbox_iff)
    qed
    have scm: "buildSCM env (cfg_SCMDriver cfg) = Inr (cfg_SCMDriver cfg)"
      using V(3) m by (auto simp: buildable_iff buildSCM_iff)
    have en: "Engine_New dr (cfg_SCMDriver cfg) (engine_config (cfg_Orchestrator cfg)) = Inr (engine_config (cfg_Orchestrator cfg))"
      using C(1) dr(2) by blast
    have wk: "Worker_New (worker_config (cfg_Worker cfg)) (node_id env) = Inr (worker_config (cfg_Worker cfg), node_id env)"
      using C(3) m by (simp add: Worker_New_iff buildable_iff)
    show ?thesis
      by (simp add: Build_def Let_def st v wrapped_def dr(1) scm en C(2) wk C(4))
  qed
  show ?thesis using built builds by blast
qed





text \<open>
  With metrics disabled, the outbox dispatcher and the run worker get an observer that is not nil
  although the collector is: the first observation panics.
\<close>

theorem disabled_metrics_panic:
  assumes "Build cp env cfg = Inr app" and "\<not> cfg_MetricsEnabled cfg"
  shows "observe (app_outboxObs app) = Inl Panic \<and> observe (app_workerObs app) = Inl Panic"
  using Build_parts(9,10) [OF assms(1)] assms(2) by (simp add: observe_def)

definition ex_cparse :: CParse where
  "ex_cparse = \<lparr>cp_hostport = (\<lambda>_. True), cp_url = (\<lambda>_. None), cp_ip = (\<lambda>_. None), cp_duration = (\<lambda>_. None)\<rparr>"

definition ex_benv :: BEnv where
  "ex_benv = \<lparr>be_postgres = (\<lambda>_ _. Inl Foreign), be_mkdirTemp = Inr (), be_git = Inr (), be_hostname = Some ''node'', be_pid = 42\<rparr>"

lemma ex_config_valid: "Config_Validate ex_cparse Defaults = Inr ()"
  by (simp add: Config_Validate_iff Let_def Defaults_def ex_cparse_def auth_Validate_def OIDC_Configured_def store_Validate_def
      mode_defs Outbox_Validate_def OutboxRetention_Validate_def Worker_Validate_def LogLevels_def LogFormats_def)

lemma ex_machine: "buildable ex_benv Defaults"
  by code_simp


theorem disabled_metrics_panic_witness:
  "\<exists>app. Build ex_cparse ex_benv (Defaults\<lparr>cfg_MetricsEnabled := False\<rparr>) = Inr app \<and> observe (app_workerObs app) = Inl Panic"
proof -
  let ?c = "Defaults\<lparr>cfg_MetricsEnabled := False\<rparr>"
  have "Config_Validate ex_cparse ?c = Inr ()" "buildable ex_benv ?c"
    using ex_config_valid ex_machine by (simp_all add: Config_Validate_iff Let_def buildable_iff drivers_agree_def)
  then obtain app where "Build ex_cparse ex_benv ?c = Inr app"
    using Build_iff [of ?c ex_cparse ex_benv] by (auto simp: Defaults_def)
  then show ?thesis using disabled_metrics_panic [of ex_cparse ex_benv ?c app] by auto
qed

definition ex_look :: "string \<Rightarrow> string option" where
  "ex_look k = (if k = ''ANTS_WORKER_BATCH_SIZE'' then Some ''16'' else None)"

theorem environment_exact_witness:
  "ApplyEnv ex_cparse ex_look [''ANTS_WORKER_BATCH_SIZE=16''] Defaults =
     Inr (Defaults\<lparr>cfg_Worker := (cfg_Worker Defaults)\<lparr>wkc_BatchSize := 16\<rparr>\<rparr>)"
proof -
  have m: "(''ANTS_WORKER_BATCH_SIZE'', int_var (\<lambda>v. cfg_Worker_update (wkc_BatchSize_update (\<lambda>_. v)))) \<in> set (overrides ex_cparse)"
    by (simp add: overrides_def)
  have n: "ParseInt64 ''16'' = Some 16" by code_simp
  have u: "unknownAntsVars [''ANTS_WORKER_BATCH_SIZE=16''] = []" by code_simp
  show ?thesis
    using environment_exact [OF m, of ex_look "[''ANTS_WORKER_BATCH_SIZE=16'']" Defaults]
    by (simp add: ex_look_def u int_var_def present_def n)
qed

end
