(* ===== verification/Authn_Props.thy ===== *)
theory Authn_Props
  imports Authn_Laws App_Laws
begin

section \<open>From the token to the store\<close>

text \<open>
  The composition of configuration, authentication and the HTTP layer: on a server wired by the
  command line, whatever changes a protected part of the store came with a verified token. The example
  node below is what the witnesses run.
\<close>

lemma newServer_auth:
  assumes "newServer idp lib deps registered appReady app = Inr sv"
  obtains (Unconfigured) "\<not> OIDC_Configured (cfg_OIDC (app_Config app))" "sv_auth sv = UnconfiguredAuthenticator" "sv_ready sv = appReady"
  | (Oidc) b where "OIDC_Configured (cfg_OIDC (app_Config app))" "ob_cfg b = cfg_OIDC (app_Config app)" "ob_idp b = idp"
      "sv_auth sv = Authenticate b" "sv_ready sv = node_ready appReady b"
proof (cases "OIDC_Configured (cfg_OIDC (app_Config app))")
  case True
  then obtain b where "NewBearer idp (cfg_OIDC (app_Config app)) (Pointer (app_Metrics app)) = Inr b" "sv_auth sv = Authenticate b"
      "sv_ready sv = node_ready appReady b"
    using assms by (auto simp: newServer_def Let_def Server_New_def split: if_splits sum.splits)
  then show ?thesis using True by (intro Oidc) (auto simp: NewBearer_def split: if_splits sum.splits)
next
  case False
  then show ?thesis using assms by (intro Unconfigured) (auto simp: newServer_def Let_def Server_New_def split: if_splits)
qed

lemma node_ready_reads:
  assumes "\<And>aw. w_store (snd (fst (appReady aw))) = w_store (snd aw)"
  shows "w_store (snd (fst (node_ready appReady b aw))) = w_store (snd aw)"
proof -
  obtain aw1 r where a: "appReady aw = (aw1, r)" by (rule prod.exhaust)
  obtain aw2 r2 where b: "Ready b aw1 = (aw2, r2)" by (rule prod.exhaust)
  show ?thesis using assms [of aw] oidc.ready_reads [of b aw1] a b by (auto simp: node_ready_def split: sum.splits)
qed

lemma match_literal: "match_segments ps ss = Some v \<Longrightarrow> ''{id}'' \<notin> set ps \<Longrightarrow> ss = ps"
  by (induction ps ss rule: match_segments.induct) (auto split: if_splits)

lemma Header_Get_routed: "Header_Get (routed sv r) n = Header_Get r n"
  by simp

text \<open>The open POST route: it creates a tenant or leaves the store as it looked.\<close>

lemma open_post_creates_tenant:
  assumes "match_route (registered_routes sv) (rq_Method r) (rq_Path r) = Some (route, v)" and "rt_Method route = ''POST''" and "\<not> rt_Auth route"
  shows "rq_Method r = ''POST'' \<and> rq_Path r = ''/v1/tenants''"
    and "struct_ok (w_store w1) \<Longrightarrow> correlation_Valid corrID \<Longrightarrow>
      route_handler sv route \<lparr>rc_ctx = request_ctx corrID, rc_principal = None\<rparr> r' (a, w1) = ((a', w'), res) \<Longrightarrow> wview w' \<noteq> wview w1 \<Longrightarrow>
      \<exists>tenant. lookup (st_tenants (w_store w1)) (tenant_ID tenant) = None \<and> TenantRepository_Get (tenant_ID tenant) (w_store w') = Inr tenant
        \<and> TenantRepository_GetBySlug (tenant_Slug tenant) (w_store w') = Inr tenant"
proof -
  have "route \<in> set APIRoutes" using match_route_Some [OF assms(1)] by (simp add: registered_routes_def)
  then have route: "route = \<lparr>rt_Method = ''POST'', rt_Path = ''/v1/tenants'', rt_Auth = False\<rparr>" using assms(2,3) by (auto simp: APIRoutes_def)
  have "match_segments [[], ''v1'', ''tenants''] (split_on (CHR ''/'') (rq_Path r)) = Some v"
    using match_route_Some [OF assms(1)] route by simp
  then have "split_on (CHR ''/'') (rq_Path r) = [[], ''v1'', ''tenants'']" by (rule match_literal) simp
  then have "rq_Path r = join_with ''/'' [[], ''v1'', ''tenants'']" using join_split [of "CHR ''/''" "rq_Path r"] by simp
  then show "rq_Method r = ''POST'' \<and> rq_Path r = ''/v1/tenants''"
    using match_route_Some [OF assms(1)] route by (simp add: match_method_def)
  assume ok: "struct_ok (w_store w1)" "correlation_Valid corrID" and changed: "wview w' \<noteq> wview w1"
    and run: "route_handler sv route \<lparr>rc_ctx = request_ctx corrID, rc_principal = None\<rparr> r' (a, w1) = ((a', w'), res)"
  have "handleCreateTenant (sv_lib sv) (sv_deps sv) \<lparr>rc_ctx = request_ctx corrID, rc_principal = None\<rparr> r' w1 = (w', res)"
    using run by (simp add: route route_handler_def api_handler_def Let_def in_world_def split: prod.splits)
  from tenant_created_with_event [OF ok this]
  show "\<exists>tenant. lookup (st_tenants (w_store w1)) (tenant_ID tenant) = None \<and> TenantRepository_Get (tenant_ID tenant) (w_store w') = Inr tenant
        \<and> TenantRepository_GetBySlug (tenant_Slug tenant) (w_store w') = Inr tenant"
    using changed by (auto split: sum.splits)
qed

text \<open>
  C13: Whatever the network sends to a node, what its store shows only changes in two ways. Either the request is a POST to
  \<^verbatim>\<open>/v1/tenants\<close> and a tenant that was not there is there afterwards. Or a provider is configured and the request
  carried a bearer token that the key set then cached verified, a key set without ambiguous keys that the key URL of a discovery document of the configured
  issuer served; whose claims were acceptable at a reading of the clock made while this request was authenticated; and whose slug names
  the tenant of the store that the request runs for. On a node without a provider only the first can happen.
  (Assumed: the application's readiness check only reads, the outbox of the store is well formed, and the key cache comes from the issuer, as it does from
  the empty cache of a new process on. What the store shows leaves out the addresses a rolled-back unit used up.)
\<close>

theorem writes_need_a_verified_token:
  assumes "newServer idp lib deps registered appReady app = Inr sv"
    and "\<forall>aw. w_store (snd (fst (appReady aw))) = w_store (snd aw)"
    and "keys_ok a" and "keys_from idp (oidc_IssuerURL (cfg_OIDC (app_Config app))) a" and "struct_ok (w_store w)"
    and "serve sv r (a, w) = ((a', w'), sd)" and "wview w' \<noteq> wview w"
  shows "rq_Method r = ''POST'' \<and> rq_Path r = ''/v1/tenants''
      \<and> (\<exists>tenant. lookup (st_tenants (w_store w)) (tenant_ID tenant) = None \<and> TenantRepository_Get (tenant_ID tenant) (w_store w') = Inr tenant
          \<and> TenantRepository_GetBySlug (tenant_Slug tenant) (w_store w') = Inr tenant)
    \<or> OIDC_Configured (cfg_OIDC (app_Config app))
      \<and> (\<exists>b w1 w2 p scheme token ks tok n slug. sv_auth sv = Authenticate b \<and> ob_cfg b = cfg_OIDC (app_Config app) \<and> ob_idp b = idp
          \<and> w_store w1 = w_store w \<and> w_ticks w1 = w_ticks w \<and> Authenticate b (routed sv r) (a, w1) = ((a', w2), Inr p)
          \<and> Header_Get r ''Authorization'' = scheme @ CHR '' '' # token \<and> map lower_ascii scheme = ''bearer''
          \<and> cached a' = Some ks \<and> key_set_ok ks \<and> issued_keys idp (oidc_IssuerURL (ob_cfg b)) (as_calls a') ks \<and> idp_verify idp token ks = Some tok
          \<and> w_ticks w \<le> n \<and> n < w_ticks w2 \<and> claims_accepted b tok (w_clock w n)
          \<and> tk_Get tok (oidc_TenantClaim (ob_cfg b)) = Some slug \<and> TenantRepository_GetBySlug slug (w_store w) = Inr (pr_Tenant p)
          \<and> pr_TenantID p = tenant_ID (pr_Tenant p))"
proof -
  have g: "gate (sv_auth sv) (sv_ready sv)"
    using assms(1)
  proof (cases rule: newServer_auth)
    case Unconfigured
    then show ?thesis using assms(2) by unfold_locales (auto simp: UnconfiguredAuthenticator_def)
  next
    case (Oidc b)
    then show ?thesis
      using assms(2) oidc.auth_reads [of b] node_ready_reads [of appReady b] by unfold_locales auto
  qed
  have "w_store w' \<noteq> w_store w" using assms(7) by (auto simp: wview_def)
  from gate.write_gate [OF g refl refl assms(6), unfolded fst_conv snd_conv, OF this]
  obtain route v w1 where m: "match_route (registered_routes sv) (rq_Method r) (rq_Path r) = Some (route, v)" "rt_Method route = ''POST''"
    and w1: "w_store w1 = w_store w" "w_clock w1 = w_clock w" "w_ticks w1 = w_ticks w"
    and p: "if rt_Auth route then \<exists>w2 p. sv_auth sv (routed sv r) (a, w1) = ((a', w2), Inr p)
      else \<exists>corrID res. correlation_Valid corrID
         \<and> route_handler sv route \<lparr>rc_ctx = request_ctx corrID, rc_principal = None\<rparr> (routed sv r) (a, w1) = ((a', w'), res)"
    by (elim exE conjE) (rule that)
  show ?thesis
  proof (cases "rt_Auth route")
    case False
    then obtain corrID res where h: "correlation_Valid corrID"
        "route_handler sv route \<lparr>rc_ctx = request_ctx corrID, rc_principal = None\<rparr> (routed sv r) (a, w1) = ((a', w'), res)"
      using p by auto
    have "struct_ok (w_store w1)" "wview w' \<noteq> wview w1" using assms(5,7) w1(1) by (simp_all add: wview_def)
    from open_post_creates_tenant(1) [OF m False] open_post_creates_tenant(2) [OF m False this(1) h this(2)]
    show ?thesis using w1(1) by simp
  next
    case True
    then obtain w2 pr where auth: "sv_auth sv (routed sv r) (a, w1) = ((a', w2), Inr pr)" using p by auto
    from assms(1) show ?thesis
    proof (cases rule: newServer_auth)
      case Unconfigured
      then show ?thesis using auth by (simp add: UnconfiguredAuthenticator_def)
    next
      case (Oidc b)
      have run: "Authenticate b (routed sv r) (a, w1) = ((a', w2), Inr pr)" using auth Oidc(4) by simp
      have src: "keys_from (ob_idp b) (oidc_IssuerURL (ob_cfg b)) a" using assms(4) Oidc(2,3) by simp
      from Authenticate_sound [OF assms(3) src run] obtain scheme token ks tok n slug
        where t: "Header_Get r ''Authorization'' = scheme @ CHR '' '' # token" "map lower_ascii scheme = ''bearer''" "cached a' = Some ks" "key_set_ok ks"
          "issued_keys idp (oidc_IssuerURL (ob_cfg b)) (as_calls a') ks" "idp_verify idp token ks = Some tok"
          "w_ticks w \<le> n" "n < w_ticks w2" "claims_accepted b tok (w_clock w n)" "tk_Get tok (oidc_TenantClaim (ob_cfg b)) = Some slug"
          "TenantRepository_GetBySlug slug (w_store w) = Inr (pr_Tenant pr)" "pr_TenantID pr = tenant_ID (pr_Tenant pr)"
        unfolding Header_Get_routed w1 Oidc(3) by (elim exE conjE) (rule that)
      show ?thesis using Oidc(1-4) w1(1,3) run t by (intro disjI2 conjI exI)
    qed
  qed
qed

subsection \<open>An example node\<close>

definition ex_config :: Config where
  "ex_config = Defaults\<lparr>cfg_OIDC := ex_oidc\<rparr>"

lemma ex_config_accepted: "OIDC_Validate ex_web ex_oidc = Inr ()"
proof -
  have "trim_space ''ants'' = ''ants''" "list_all claim_char ''tenant''" by code_simp+
  then show ?thesis by (simp add: OIDC_Validate_def ex_web_def ex_oidc_def)
qed

lemma ex_config_builds: "\<exists>app. Build ex_web ex_benv ex_config = Inr app \<and> app_Config app = ex_config \<and> app_Metrics app"
proof -
  have auth: "auth_Validate ex_web ex_oidc = Inr ()"
    using ex_config_accepted by (simp add: auth_Validate_def OIDC_Configured_def ex_oidc_def)
  have "Config_Validate ex_web ex_config = Inr ()" "buildable ex_benv ex_config"
    using ex_config_valid ex_machine auth
    by (simp_all add: Config_Validate_iff Let_def buildable_iff drivers_agree_def ex_config_def) (simp_all add: ex_web_def)
  then obtain app where b: "Build ex_web ex_benv ex_config = Inr app"
    using Build_iff [of ex_config ex_web ex_benv] by (auto simp: ex_config_def Defaults_def)
  then show ?thesis using Build_parts(11,13) [OF b] by (auto simp: ex_config_def Defaults_def)
qed

definition ex_node :: "authState Server" where
  "ex_node = \<lparr>sv_cfg = ex_config, sv_lib = ex_lib, sv_deps = ex_deps, sv_registered = {}, sv_auth = Authenticate ex_bearer,
     sv_ready = node_ready (return_op ()) ex_bearer, sv_metrics = True\<rparr>"

lemma ex_node_new:
  assumes "app_Config app = ex_config" "app_Metrics app"
  shows "newServer ex_idp ex_lib ex_deps {} (return_op ()) app = Inr ex_node"
  using assms ex_config_accepted
  by (simp add: newServer_def Let_def ex_config_def ex_oidc_def OIDC_Configured_def NewBearer_def Server_New_def ex_node_def ex_bearer_def ex_idp_def)

lemma NewProject_acme: "\<exists>p. NewProject (ex_id PrefixProject) (tenant_ID acme_tenant) ''web'' ''Web'' ''main'' ''s'' t = Inr p \<and> project_ID p = ex_id PrefixProject"
proof -
  have "ValidateSlug ''web'' = Inr ()" "ParseProjectID (ex_id PrefixProject) = Inr (ex_id PrefixProject)" by code_simp+
  then show ?thesis by (simp add: NewProject_def)
qed

lemma ex_node_run:
  "\<exists>a' w' sd. serve ex_node (with_token (ex_request ''POST'' ''/v1/projects'')) (ex_nobody, ex_world acme_store) = ((a', w'), sd) \<and> length (st_projects (w_store w')) = 1"
proof -
  let ?r = "with_token (ex_request ''POST'' ''/v1/projects'')" and ?w = "ex_world acme_store"
  let ?route = "\<lparr>rt_Method = ''POST'', rt_Path = ''/v1/projects'', rt_Auth = True\<rparr>" and ?w1 = "(ex_world acme_store)\<lparr>w_draws := 1\<rparr>"
  have m: "match_route (registered_routes ex_node) (rq_Method ?r) (rq_Path ?r) = Some (?route, [])"
    by (simp add: registered_routes_def APIRoutes_def ex_node_def match_method_def with_token_def ex_request_def)
  have rr: "routed ex_node ?r = ?r" using m by (simp add: routed_def) (simp add: with_token_def ex_request_def)
  have c: "resolveCorrelation (routed ex_node ?r) ?w = (?w1, ex_id PrefixRequest, correlationSourceGenerated)"
  proof -
    have "Header_Get ?r headerCorrelation = []" by code_simp
    then show ?thesis
      unfolding rr by (simp add: resolveCorrelation_def correlation_Valid_def Let_def RandomIDs_NewID_def ex_world_def)
  qed
  obtain a' where a: "sv_auth ex_node ?r (ex_nobody, ?w1) = ((a', ?w1\<lparr>w_ticks := 2\<rparr>), Inr acme_principal)"
    using ex_authenticated [of ?w1 "ex_request ''POST'' ''/v1/projects''"] by (auto simp: ex_world_def ex_node_def eval_nat_numeral)
  obtain p where p: "NewProject (ex_id PrefixProject) (tenant_ID acme_tenant) ''web'' ''Web'' ''main'' ''s'' 2 = Inr p" "project_ID p = ex_id PrefixProject"
    using NewProject_acme by blast
  obtain w' where h: "handleCreateProject ex_lib \<lparr>rc_ctx = request_ctx (ex_id PrefixRequest), rc_principal = Some acme_principal\<rparr> ?r (?w1\<lparr>w_ticks := 2\<rparr>)
      = (w', Inr (writeJSON StatusCreated (ProjectBody p)))" "length (st_projects (w_store w')) = 1"
    using p by (auto simp: handleCreateProject_def seq_op_def mustPrincipal_def return_op_def decodeStrict_def ex_lib_def newID_or_internal_def
        RandomIDs_NewID_def ex_world_def Now_def pure_op_def acme_principal_def on_store_def ProjectRepository_Create_def acme_store_def empty_store_def)
  have g: "gate_of ex_node ?r = (True, route_handler ex_node ?route)" using m by (simp add: gate_of_def)
  have "gated ex_node True (route_handler ex_node ?route) (request_ctx (ex_id PrefixRequest)) ?r (ex_nobody, ?w1)
      = ((a', w'), writeJSON StatusCreated (ProjectBody p))"
    using h(1) a by (simp add: gated_def route_handler_def api_handler_def in_world_def answered_def) (simp add: ex_node_def)
  then have "serve ex_node ?r (ex_nobody, ?w) = ((a', w'), account ex_node (route_label ex_node ?r) ?r (ex_id PrefixRequest, correlationSourceGenerated)
      (writeJSON StatusCreated (ProjectBody p)))"
    using c rr by (intro serve_run) (simp_all add: g)
  then show ?thesis using h(2) by blast
qed

theorem writes_need_a_verified_token_witness:
  "\<exists>app a' w' sd. Build ex_web ex_benv ex_config = Inr app
     \<and> newServer ex_idp ex_lib ex_deps {} (return_op ()) app = Inr ex_node
     \<and> serve ex_node (with_token (ex_request ''POST'' ''/v1/projects'')) (ex_nobody, ex_world acme_store) = ((a', w'), sd) \<and> w_store w' \<noteq> acme_store
     \<and> (\<exists>token ks tok. Header_Get (with_token (ex_request ''POST'' ''/v1/projects'')) ''Authorization'' = ''Bearer '' @ token
          \<and> cached a' = Some ks \<and> key_set_ok ks \<and> issued_keys ex_idp ''https://idp'' (as_calls a') ks \<and> idp_verify ex_idp token ks = Some tok)"
proof -
  let ?r = "with_token (ex_request ''POST'' ''/v1/projects'')"
  obtain app where b: "Build ex_web ex_benv ex_config = Inr app" "app_Config app = ex_config" "app_Metrics app" using ex_config_builds by blast
  note n = ex_node_new [OF b(2,3)]
  obtain a' w' sd where s: "serve ex_node ?r (ex_nobody, ex_world acme_store) = ((a', w'), sd)" "length (st_projects (w_store w')) = 1"
    using ex_node_run by blast
  have c: "wview w' \<noteq> wview (ex_world acme_store)"
  proof
    assume "wview w' = wview (ex_world acme_store)"
    then have "st_projects (fst (wview w')) = st_projects (fst (wview (ex_world acme_store)))" by simp
    then show False using s(2) by (simp add: wview_def view_def ex_world_def acme_store_def empty_store_def)
  qed
  then have d: "w_store w' \<noteq> acme_store" by (auto simp: wview_def ex_world_def)
  have k: "keys_ok ex_nobody" "keys_from i u ex_nobody" for i u by (simp_all add: keys_ok_def keys_from_def ex_nobody_def)
  have o: "struct_ok (w_store (ex_world acme_store))" by (simp add: ex_world_def acme_store_def empty_store_def struct_ok_def map_ok_def)
  have f: "\<forall>aw. w_store (snd (fst (return_op () aw))) = w_store (snd aw)" by (simp add: return_op_def)
  have "rq_Path ?r \<noteq> ''/v1/tenants''" by (simp add: with_token_def ex_request_def)
  then obtain b :: OIDCBearer and scheme token ks tok where t: "ob_cfg b = cfg_OIDC (app_Config app)" "Header_Get ?r ''Authorization'' = scheme @ CHR '' '' # token" "map lower_ascii scheme = ''bearer''"
      "cached a' = Some ks" "key_set_ok ks" "issued_keys ex_idp (oidc_IssuerURL (ob_cfg b)) (as_calls a') ks" "idp_verify ex_idp token ks = Some tok"
    using writes_need_a_verified_token [OF n f k o s(1) c] by (elim disjE conjE exE) (simp, rule that)
  have "length scheme = 6" using arg_cong [OF t(3), of length] by simp
  moreover have "Header_Get ?r ''Authorization'' = ''Bearer AA.BB.CC''" by code_simp
  ultimately have "scheme = ''Bearer''" using t(2) by (auto simp: append_eq_conv_conj eval_nat_numeral)
  moreover have "oidc_IssuerURL (ob_cfg b) = ''https://idp''" using t(1) b(2) by (simp add: ex_config_def ex_oidc_def)
  ultimately show ?thesis using b(1) n s(1) d t by auto
qed

end
