(* ===== verification/PG_Store.thy ===== *)
theory PG_Store
  imports Mem_Claims Mem_Outbox
begin

section \<open>The PostgreSQL store: statements and units of work (internal/store/postgres/store.go)\<close>

text \<open>
  A table is the list of its committed rows. A repository method is a sequence of statements, and a
  statement is one atomic step on the tables, as a single SQL statement is under READ COMMITTED. The
  environment of a session (\<open>Conn\<close>) decides everything else: what other sessions commit before
  the session's \<open>n\<close>-th statement (\<open>cn_others\<close>), which rows they hold locked at that moment
  (\<open>cn_locked\<close>), whether the statement runs and is answered (\<open>cn_fate\<close>), the clock, the entropy, and what
  the server keeps of a value (\<open>cn_ts\<close> of an instant, \<open>cn_jsonb\<close> of a document, \<open>cn_text\<close> says which
  strings are text), the order in which it returns several rows (\<open>cn_returning\<close>) and the values its identity columns draw
  (\<open>cn_nextval\<close>). Inside a unit of work the session's writes are an overlay (\<open>pg_tx\<close>) on the
  committed tables; other sessions see them when it commits.
\<close>

subsection \<open>Tables and sessions\<close>

record pg_db =
  tb_runs :: "Run list"
  tb_claims :: "RunClaim list"
  tb_outbox :: "outboxMessage list"
  tb_tenants :: "Tenant list"
  tb_projects :: "Project list"
  tb_threads :: "Thread list"
  tb_messages :: "Message list"
  tb_specs :: "Spec list"
  tb_tasks :: "Task list"
  tb_workspaces :: "Workspace list"
  tb_artifacts :: "Artifact list"
  tb_policy :: "PolicyDecision list"
  tb_audit :: "AuditEvent list"
  tb_integrations :: "IntegrationConnection list"
  tb_events :: "Event list"

definition empty_db :: pg_db where
  "empty_db = \<lparr>tb_runs = [], tb_claims = [], tb_outbox = [], tb_tenants = [], tb_projects = [], tb_threads = [], tb_messages = [], tb_specs = [],
     tb_tasks = [], tb_workspaces = [], tb_artifacts = [], tb_policy = [], tb_audit = [], tb_integrations = [], tb_events = []\<rparr>"

datatype fate = Answered | NotRun | AnswerLost

record Conn =
  cn_others :: "nat \<Rightarrow> pg_db \<Rightarrow> pg_db"
  cn_locked :: "nat \<Rightarrow> string \<Rightarrow> bool"
  cn_fate :: "nat \<Rightarrow> fate"
  cn_clock :: "nat \<Rightarrow> Time"
  cn_rand :: "nat \<Rightarrow> entropy"
  cn_ts :: "Time \<Rightarrow> Time"
  cn_jsonb :: "bytes \<Rightarrow> bytes option"
  cn_returning :: "outboxMessage list \<Rightarrow> outboxMessage list"
  cn_text :: "string \<Rightarrow> bool"
  cn_nextval :: "nat \<Rightarrow> int"

record pg =
  pg_db :: pg_db
  pg_tx :: "(pg_db \<Rightarrow> pg_db) option"
  pg_stmts :: nat
  pg_ticks :: nat
  pg_draws :: nat

type_synonym 'a pg_op = "pg \<Rightarrow> pg \<times> 'a result"

text \<open>\<open>Violation constraint\<close> is SQLSTATE 23505, a breach of a unique constraint.\<close>

datatype sql_error = Violation string | OtherError

type_synonym 'a stmt = "(string \<Rightarrow> bool) \<Rightarrow> pg_db \<Rightarrow> pg_db \<times> (sql_error + 'a)"

text \<open>What the session sees: its own writes on top of the committed tables.\<close>

definition sees :: "pg \<Rightarrow> pg_db \<Rightarrow> pg_db" where
  "sees s d = (case pg_tx s of None \<Rightarrow> d | Some w \<Rightarrow> w d)"

definition store_writes :: "pg_db \<Rightarrow> (pg_db \<Rightarrow> pg_db) \<Rightarrow> pg \<Rightarrow> pg" where
  "store_writes d f s =
     (case pg_tx s of None \<Rightarrow> s\<lparr>pg_db := f d\<rparr> | Some w \<Rightarrow> s\<lparr>pg_db := d, pg_tx := Some (\<lambda>d. f (w d))\<rparr>)"

definition run_stmt :: "Conn \<Rightarrow> 'a stmt \<Rightarrow> pg \<Rightarrow> pg \<times> (sql_error + 'a)" where
  "run_stmt cn f s =
     (let n = pg_stmts s; d = cn_others cn n (pg_db s); s' = s\<lparr>pg_db := d, pg_stmts := n + 1\<rparr>;
          locked = cn_locked cn n; done = store_writes d (\<lambda>d. fst (f locked d)) s' in
      case cn_fate cn n of
        NotRun \<Rightarrow> (s', Inl OtherError)
      | AnswerLost \<Rightarrow> (if pg_tx s = None then done else s', Inl OtherError)
      | Answered \<Rightarrow> (case f locked (sees s d) of (_, r) \<Rightarrow> (done, r)))"

subsection \<open>Errors\<close>

definition wrapScan :: "sql_error \<Rightarrow> go_error" where
  "wrapScan err = Internalf Foreign ''db_scan''"

definition wrapWrite :: "sql_error \<Rightarrow> go_error" where
  "wrapWrite err = Internalf Foreign ''db_write''"

text \<open>\<^verbatim>\<open>if mapped := mapUniqueViolation(err, code, ...); mapped != err { return mapped }; return wrapWrite(err)\<close>\<close>

fun mapUniqueViolation :: "string \<Rightarrow> sql_error \<Rightarrow> go_error" where
  "mapUniqueViolation code (Violation _) = Conflictf code"
| "mapUniqueViolation code OtherError = wrapWrite OtherError"

definition mapped_op :: "(sql_error \<Rightarrow> go_error) \<Rightarrow> (pg \<Rightarrow> pg \<times> (sql_error + 'a)) \<Rightarrow> 'a pg_op" where
  "mapped_op f m s = (case m s of (s', Inl e) \<Rightarrow> (s', Inl (f e)) | (s', Inr x) \<Rightarrow> (s', Inr x))"

text \<open>\<^verbatim>\<open>QueryRowContext(...).Scan(...)\<close> and \<^verbatim>\<open>ExecContext(...)\<close> with their usual wrapping.\<close>

definition query :: "Conn \<Rightarrow> (pg_db \<Rightarrow> 'a) \<Rightarrow> 'a pg_op" where
  "query cn f = mapped_op wrapScan (run_stmt cn (\<lambda>_ d. (d, Inr (f d))))"

definition query_rows :: "Conn \<Rightarrow> 'a stmt \<Rightarrow> 'a pg_op" where
  "query_rows cn f = mapped_op wrapScan (run_stmt cn f)"

definition exec_stmt :: "Conn \<Rightarrow> 'a stmt \<Rightarrow> 'a pg_op" where
  "exec_stmt cn f = mapped_op wrapWrite (run_stmt cn f)"

definition pure_pg :: "'a result \<Rightarrow> 'a pg_op" where
  "pure_pg r s = (s, r)"

subsection \<open>Rows\<close>

text \<open>
  \<^verbatim>\<open>UPDATE ... SET f WHERE p RETURNING *\<close> and \<^verbatim>\<open>DELETE ... WHERE p\<close> on the rows of a table. \<open>check\<close> is the
  conjunction of the table's CHECK constraints; a statement that would break it changes nothing and fails.
  \<open>sql_pick\<close> is \<^verbatim>\<open>ORDER BY ... LIMIT n FOR UPDATE SKIP LOCKED\<close>.
\<close>

definition sql_update ::
  "('r \<Rightarrow> bool) \<Rightarrow> ('r \<Rightarrow> bool) \<Rightarrow> ('r \<Rightarrow> 'r) \<Rightarrow> 'r list \<Rightarrow> 'r list \<times> (sql_error + 'r list)" where
  "sql_update check p f rs =
     (let changed = map f (filter p rs) in
      if list_all check changed then (map (\<lambda>r. if p r then f r else r) rs, Inr changed) else (rs, Inl OtherError))"

definition sql_delete :: "('r \<Rightarrow> bool) \<Rightarrow> 'r list \<Rightarrow> 'r list \<times> (sql_error + nat)" where
  "sql_delete p rs = (filter (\<lambda>r. \<not> p r) rs, Inr (length (filter p rs)))"

definition sql_pick :: "('r \<Rightarrow> 'r \<Rightarrow> bool) \<Rightarrow> ('r \<Rightarrow> bool) \<Rightarrow> ('r \<Rightarrow> bool) \<Rightarrow> nat \<Rightarrow> 'r list \<Rightarrow> 'r list" where
  "sql_pick before locked p n rs = take n (insertion_sort before (filter (\<lambda>r. p r \<and> \<not> locked r) rs))"

definition on_claims :: "(RunClaim list \<Rightarrow> RunClaim list \<times> 'a) \<Rightarrow> pg_db \<Rightarrow> pg_db \<times> 'a" where
  "on_claims f d = (case f (tb_claims d) of (rs, r) \<Rightarrow> (d\<lparr>tb_claims := rs\<rparr>, r))"

definition on_outbox :: "(outboxMessage list \<Rightarrow> outboxMessage list \<times> 'a) \<Rightarrow> pg_db \<Rightarrow> pg_db \<times> 'a" where
  "on_outbox f d = (case f (tb_outbox d) of (rs, r) \<Rightarrow> (d\<lparr>tb_outbox := rs\<rparr>, r))"

subsection \<open>The clock and the unit of work\<close>

definition pg_now :: "Conn \<Rightarrow> Time pg_op" where
  "pg_now cn s = (s\<lparr>pg_ticks := pg_ticks s + 1\<rparr>, Inr (cn_clock cn (pg_ticks s)))"

definition pg_token :: "Conn \<Rightarrow> string pg_op" where
  "pg_token cn s = (s\<lparr>pg_draws := pg_draws s + 1\<rparr>, NewRunClaimToken (cn_rand cn (pg_draws s)))"

text \<open>Begin and commit are statements of their own; leaving the function without a commit rolls back.\<close>

definition pg_begin :: "Conn \<Rightarrow> pg \<Rightarrow> pg \<times> bool" where
  "pg_begin cn s =
     (let n = pg_stmts s; s' = s\<lparr>pg_db := cn_others cn n (pg_db s), pg_stmts := n + 1\<rparr> in
      if cn_fate cn n = Answered then (s'\<lparr>pg_tx := Some (\<lambda>d. d)\<rparr>, True) else (s', False))"

definition pg_commit :: "Conn \<Rightarrow> pg \<Rightarrow> pg \<times> bool" where
  "pg_commit cn s =
     (let n = pg_stmts s; d = cn_others cn n (pg_db s);
          s' = s\<lparr>pg_db := (if cn_fate cn n = NotRun then d else sees s d), pg_tx := None, pg_stmts := n + 1\<rparr> in
      (s', cn_fate cn n = Answered))"

definition pg_Do :: "Conn \<Rightarrow> 'a pg_op \<Rightarrow> 'a pg_op" where
  "pg_Do cn fn s =
     (if pg_tx s \<noteq> None then fn s
      else (case pg_begin cn s of
          (s1, False) \<Rightarrow> (s1, Inl (Internalf Foreign ''db_tx''))
        | (s1, True) \<Rightarrow>
            (case fn s1 of
               (s2, Inl e) \<Rightarrow> (s2\<lparr>pg_tx := None\<rparr>, Inl e)
             | (s2, Inr x) \<Rightarrow>
                 (case pg_commit cn s2 of
                    (s3, False) \<Rightarrow> (s3, Inl (Internalf Foreign ''db_tx''))
                  | (s3, True) \<Rightarrow> (s3, Inr x)))))"

end
