(* ===== verification/PG_Claims.thy ===== *)
theory PG_Claims
  imports PG_Store
begin

section \<open>Run claims in PostgreSQL (internal/store/postgres/runclaims.go)\<close>

text \<open>
  The statements of the claim repository, then its methods. Instants that go into a statement are what
  the server keeps of them. The primary key contains the run, which is unique on its own, so a claim's key is its run.
\<close>

subsection \<open>Statements\<close>

definition claim_check :: "RunClaim \<Rightarrow> bool" where
  "claim_check c \<longleftrightarrow> 0 \<le> claim_Generation c \<and> 0 \<le> claim_Attempts c
     \<and> (claim_Status c = ClaimClaimed \<longleftrightarrow> claim_Owner c \<noteq> [])
     \<and> (claim_Status c = ClaimClaimed \<longleftrightarrow> claim_Token c \<noteq> [])
     \<and> (claim_Status c = ClaimClaimed \<longrightarrow> claim_ExpiresAt c \<noteq> None \<and> 1 \<le> claim_Generation c \<and> 1 \<le> claim_Attempts c)"

definition addressed :: "string \<Rightarrow> string \<Rightarrow> RunClaim \<Rightarrow> bool" where
  "addressed tenantID runID c \<longleftrightarrow> claim_TenantID c = tenantID \<and> claim_RunID c = runID"

text \<open>A comparison with NULL is not true.\<close>

definition lapsed :: "Time \<Rightarrow> RunClaim \<Rightarrow> bool" where
  "lapsed now c \<longleftrightarrow> (case claim_ExpiresAt c of None \<Rightarrow> False | Some e \<Rightarrow> e \<le> now)"

definition claimable :: "Time \<Rightarrow> RunClaim \<Rightarrow> bool" where
  "claimable now c \<longleftrightarrow> claim_Status c = ClaimRunnable \<or> (claim_Status c = ClaimClaimed \<and> lapsed now c)"

definition holder :: "RunClaimRef \<Rightarrow> RunClaim \<Rightarrow> bool" where
  "holder ref c \<longleftrightarrow> addressed (ref_TenantID ref) (ref_RunID ref) c \<and> claim_Status c = ClaimClaimed
     \<and> claim_Owner c = ref_Owner ref \<and> claim_Token c = ref_Token ref \<and> claim_Generation c = ref_Generation ref"

definition set_claimed :: "string \<Rightarrow> string \<Rightarrow> Time \<Rightarrow> Time \<Rightarrow> RunClaim \<Rightarrow> RunClaim" where
  "set_claimed owner token now expires c =
     c\<lparr>claim_Status := ClaimClaimed, claim_Owner := owner, claim_Token := token, claim_Generation := claim_Generation c + 1,
       claim_Attempts := claim_Attempts c + 1, claim_AcquiredAt := Some now, claim_HeartbeatAt := Some now,
       claim_ExpiresAt := Some expires, claim_UpdatedAt := now\<rparr>"

definition claim_row_before :: "RunClaim \<Rightarrow> RunClaim \<Rightarrow> bool" where
  "claim_row_before a b \<longleftrightarrow> claim_CreatedAt a < claim_CreatedAt b
     \<or> (claim_CreatedAt a = claim_CreatedAt b \<and> claim_RunID a < claim_RunID b)"

definition insert_claim :: "string \<Rightarrow> string \<Rightarrow> Time \<Rightarrow> RunClaim list stmt" where
  "insert_claim tenantID runID now locked d =
     (if list_ex (\<lambda>c. claim_RunID c = runID) (tb_claims d) then (d, Inl (Violation ''run_claims_run_id_key''))
      else if \<not> list_ex (\<lambda>r. run_ID r = runID) (tb_runs d) then (d, Inl OtherError)
      else (d\<lparr>tb_claims := tb_claims d @ [fresh_claim tenantID runID now]\<rparr>, Inr []))"

definition acquire_row :: "string \<Rightarrow> string \<Rightarrow> string \<Rightarrow> string \<Rightarrow> Time \<Rightarrow> Time \<Rightarrow> RunClaim list stmt" where
  "acquire_row tenantID runID owner token now expires locked = on_claims
     (sql_update claim_check (\<lambda>c. addressed tenantID runID c \<and> claimable now c) (set_claimed owner token now expires))"

definition acquire_first :: "string \<Rightarrow> string \<Rightarrow> Time \<Rightarrow> Time \<Rightarrow> RunClaim list stmt" where
  "acquire_first owner token now expires locked = on_claims (\<lambda>rs.
     let picked = sql_pick claim_row_before (\<lambda>c. locked (claim_RunID c)) (claimable now) 1 rs in
     sql_update claim_check (\<lambda>c. list_ex (\<lambda>x. addressed (claim_TenantID x) (claim_RunID x) c) picked)
       (set_claimed owner token now expires) rs)"

definition extend_row :: "RunClaimRef \<Rightarrow> Time \<Rightarrow> Time \<Rightarrow> RunClaim list stmt" where
  "extend_row ref now expires locked = on_claims
     (sql_update claim_check (\<lambda>c. holder ref c \<and> (case claim_ExpiresAt c of None \<Rightarrow> False | Some e \<Rightarrow> e > now))
       (\<lambda>c. c\<lparr>claim_HeartbeatAt := Some now, claim_ExpiresAt := Some expires, claim_UpdatedAt := now\<rparr>))"

definition release_row :: "RunClaimRef \<Rightarrow> Time \<Rightarrow> RunClaim list stmt" where
  "release_row ref now locked = on_claims
     (sql_update claim_check (holder ref)
       (\<lambda>c. c\<lparr>claim_Status := ClaimRunnable, claim_Owner := [], claim_Token := [], claim_ExpiresAt := None, claim_UpdatedAt := now\<rparr>))"

definition complete_row :: "RunClaimRef \<Rightarrow> nat stmt" where
  "complete_row ref locked = on_claims (sql_delete (holder ref))"

definition delete_claim :: "string \<Rightarrow> string \<Rightarrow> nat stmt" where
  "delete_claim tenantID runID locked = on_claims (sql_delete (addressed tenantID runID))"

subsection \<open>Methods\<close>

fun scanRunClaim :: "RunClaim list \<Rightarrow> RunClaim result" where
  "scanRunClaim [] = Inl (NotFoundf ''run_claim'')"
| "scanRunClaim (c # _) = Inr c"

definition scan_claim :: "Conn \<Rightarrow> RunClaim list stmt \<Rightarrow> RunClaim pg_op" where
  "scan_claim cn f = seq_op (query_rows cn f) (\<lambda>rows. pure_pg (scanRunClaim rows))"

definition rawGet :: "Conn \<Rightarrow> string \<Rightarrow> string \<Rightarrow> RunClaim pg_op" where
  "rawGet cn tenantID runID = scan_claim cn (\<lambda>_ d. (d, Inr (filter (addressed tenantID runID) (tb_claims d))))"

definition Pg_Create :: "Conn \<Rightarrow> string \<Rightarrow> string \<Rightarrow> unit pg_op" where
  "Pg_Create cn tenantID runID =
     seq_op (query cn (\<lambda>d. list_ex (\<lambda>r. run_ID r = runID \<and> run_TenantID r = tenantID) (tb_runs d))) (\<lambda>exists.
     if \<not> exists then throw_op (Invalidf ''run_claim_run_unknown'')
     else seq_op (pg_now cn) (\<lambda>now.
       seq_op (mapped_op (mapUniqueViolation ''run_claim_exists'') (run_stmt cn (insert_claim tenantID runID (cn_ts cn now)))) (\<lambda>_.
         return_op ())))"

definition Pg_Get :: "Conn \<Rightarrow> string \<Rightarrow> string \<Rightarrow> RunClaim pg_op" where
  "Pg_Get cn tenantID runID = seq_op (rawGet cn tenantID runID) (\<lambda>c. return_op (c\<lparr>claim_Token := []\<rparr>))"

definition classifyAcquireMiss :: "Conn \<Rightarrow> string \<Rightarrow> string \<Rightarrow> RunClaim pg_op" where
  "classifyAcquireMiss cn tenantID runID s =
     (case rawGet cn tenantID runID s of
        (s', Inr _) \<Rightarrow> (s', Inl (Conflictf ''run_claim_held''))
      | (s', Inl err) \<Rightarrow> if ErrKindOf err = ErrKindNotFound then (s', Inl (NotFoundf ''run_claim'')) else (s', Inl err))"

text \<open>\<^verbatim>\<open>if domain.ErrKindOf(err) == domain.ErrKindNotFound { return miss }\<close>\<close>

definition on_miss :: "'a pg_op \<Rightarrow> 'a pg_op \<Rightarrow> 'a pg_op" where
  "on_miss op miss s =
     (case op s of
        (s', Inl err) \<Rightarrow> if ErrKindOf err = ErrKindNotFound then miss s' else (s', Inl err)
      | (s', Inr x) \<Rightarrow> (s', Inr x))"

definition Pg_Acquire :: "Conn \<Rightarrow> RunClaimLeaseRequest \<Rightarrow> RunClaim pg_op" where
  "Pg_Acquire cn req =
     seq_op (pure_pg (RunClaimLeaseRequest_Validate req)) (\<lambda>_.
     seq_op (pg_now cn) (\<lambda>now.
     seq_op (pg_token cn) (\<lambda>token.
       on_miss (scan_claim cn (acquire_row (lr_TenantID req) (lr_RunID req) (lr_Owner req) token (cn_ts cn now)
                  (cn_ts cn (ClaimExpiry now (lr_LeaseFor req)))))
         (classifyAcquireMiss cn (lr_TenantID req) (lr_RunID req)))))"

text \<open>The loop runs while the batch is not full; \<open>n\<close> is how many claims are missing.\<close>

fun acquire_next :: "Conn \<Rightarrow> RunClaimBatchRequest \<Rightarrow> RunClaim list \<Rightarrow> nat \<Rightarrow> RunClaim list pg_op" where
  "acquire_next cn req out 0 = return_op out"
| "acquire_next cn req out (Suc n) =
     seq_op (pg_now cn) (\<lambda>now.
     seq_op (pg_token cn) (\<lambda>token.
       (\<lambda>s. case scan_claim cn (acquire_first (br_Owner req) token (cn_ts cn now) (cn_ts cn (ClaimExpiry now (br_LeaseFor req)))) s of
          (s', Inl err) \<Rightarrow> if ErrKindOf err = ErrKindNotFound then (s', Inr out) else (s', Inl err)
        | (s', Inr c) \<Rightarrow> acquire_next cn req (out @ [c]) n s')))"

definition Pg_AcquireNext :: "Conn \<Rightarrow> RunClaimBatchRequest \<Rightarrow> RunClaim list pg_op" where
  "Pg_AcquireNext cn req =
     seq_op (pure_pg (RunClaimBatchRequest_Validate req)) (\<lambda>_. acquire_next cn req [] (nat (br_Limit req)))"

definition classifyFenceMiss :: "Conn \<Rightarrow> RunClaimRef \<Rightarrow> string \<Rightarrow> 'a pg_op" where
  "classifyFenceMiss cn ref missCode s =
     (case rawGet cn (ref_TenantID ref) (ref_RunID ref) s of
        (s', Inr cur) \<Rightarrow>
          (s', Inl (if Matches cur (ref_Owner ref) (ref_Token ref) (ref_Generation ref) then Conflictf missCode
                    else Conflictf ''run_claim_stale_fencing''))
      | (s', Inl err) \<Rightarrow> if ErrKindOf err = ErrKindNotFound then (s', Inl (NotFoundf ''run_claim'')) else (s', Inl err))"

definition Pg_Heartbeat :: "Conn \<Rightarrow> RunClaimRef \<Rightarrow> Duration \<Rightarrow> RunClaim pg_op" where
  "Pg_Heartbeat cn ref extendFor =
     seq_op (pure_pg (RunClaimRef_Validate ref)) (\<lambda>_.
     if extendFor \<le> 0 then throw_op (Invalidf ''run_claim_lease_duration'')
     else seq_op (pg_now cn) (\<lambda>now.
       on_miss (scan_claim cn (extend_row ref (cn_ts cn now) (cn_ts cn (ClaimExpiry now extendFor))))
         (classifyFenceMiss cn ref ''run_claim_lease_expired'')))"

definition Pg_Release :: "Conn \<Rightarrow> RunClaimRef \<Rightarrow> RunClaim pg_op" where
  "Pg_Release cn ref =
     seq_op (pure_pg (RunClaimRef_Validate ref)) (\<lambda>_.
     seq_op (pg_now cn) (\<lambda>now.
       on_miss (scan_claim cn (release_row ref (cn_ts cn now))) (classifyFenceMiss cn ref ''run_claim_stale_fencing'')))"

definition Pg_Complete :: "Conn \<Rightarrow> RunClaimRef \<Rightarrow> unit pg_op" where
  "Pg_Complete cn ref =
     seq_op (pure_pg (RunClaimRef_Validate ref)) (\<lambda>_.
     seq_op (exec_stmt cn (complete_row ref)) (\<lambda>affected.
       if affected = 0 then classifyFenceMiss cn ref ''run_claim_stale_fencing'' else return_op ()))"

definition Pg_CleanupTerminal :: "Conn \<Rightarrow> string \<Rightarrow> string \<Rightarrow> unit pg_op" where
  "Pg_CleanupTerminal cn tenantID runID =
     seq_op (query cn (\<lambda>d. map run_Status (filter (\<lambda>r. run_ID r = runID \<and> run_TenantID r = tenantID) (tb_runs d)))) (\<lambda>rows.
     case rows of
       [] \<Rightarrow> throw_op (NotFoundf ''run'')
     | status # _ \<Rightarrow>
         if \<not> Terminal status then throw_op (Invalidf ''run_claim_not_terminal'')
         else seq_op (exec_stmt cn (delete_claim tenantID runID)) (\<lambda>_. return_op ()))"

end
