(* ===== verification/PG_Sessions.thy ===== *)
theory PG_Sessions
  imports PG_Store Mem_Claim_Laws
begin

section \<open>Sessions that share tables\<close>

text \<open>
  Rely and guarantee for methods made of statements. If everything the other sessions do between two statements of a
  method is a run of statements, then so is everything that happens while the method runs, its own part included,
  whatever happens to its connection, inside a unit of work or outside. So any number of sessions, interleaved
  statement by statement, is one run of statements. A vocabulary of statements (\<open>exec\<close>) never changes its \<open>frame\<close>, and the
  guarantee is given where the frame is \<open>good\<close>.
\<close>

definition runs_of :: "('s \<Rightarrow> Time \<Rightarrow> pg_db \<Rightarrow> pg_db) \<Rightarrow> (Time \<times> 's \<Rightarrow> bool) \<Rightarrow> pg_db \<Rightarrow> pg_db \<Rightarrow> bool" where
  "runs_of exec P d d' \<longleftrightarrow> (\<exists>calls. list_all P calls \<and> d' = run_calls exec d calls)"

definition env_runs :: "('s \<Rightarrow> Time \<Rightarrow> pg_db \<Rightarrow> pg_db) \<Rightarrow> Conn \<Rightarrow> (Time \<times> 's \<Rightarrow> bool) \<Rightarrow> bool" where
  "env_runs exec cn P \<longleftrightarrow> (\<forall>n d. runs_of exec P d (cn_others cn n d))"

definition guarantees ::
  "('s \<Rightarrow> Time \<Rightarrow> pg_db \<Rightarrow> pg_db) \<Rightarrow> (pg_db \<Rightarrow> 'k) \<Rightarrow> ('k \<Rightarrow> bool) \<Rightarrow> (Time \<times> 's \<Rightarrow> bool) \<Rightarrow> pg \<Rightarrow> pg \<Rightarrow> bool" where
  "guarantees exec frame good P s s' \<longleftrightarrow>
     good (frame (pg_db s)) \<and> (\<forall>d. frame d = frame (pg_db s) \<longrightarrow> runs_of exec P d (sees s d)) \<longrightarrow>
     runs_of exec P (pg_db s) (pg_db s') \<and> (\<forall>d. frame d = frame (pg_db s) \<longrightarrow> runs_of exec P d (sees s' d))
     \<and> (pg_tx s' = None \<longleftrightarrow> pg_tx s = None)"

subsection \<open>Rows by key\<close>

lemma find_map_if:
  assumes "\<And>x. key (f x) = key x"
  shows "List.find (\<lambda>x. key x = k) (map (\<lambda>x. if p x then f x else x) xs) =
    map_option (\<lambda>x. if p x then f x else x) (List.find (\<lambda>x. key x = k) xs)"
  by (induction xs) (auto simp: assms)

lemma list_ex_find: "list_ex P xs \<longleftrightarrow> List.find P xs \<noteq> None"
  by (induction xs) auto

lemma first_selected: "map f (filter p xs) = y # ys \<Longrightarrow> \<exists>x\<in>set xs. p x \<and> y = f x"
  by (induction xs) (auto split: if_splits)

lemma find_key_filter:
  assumes "distinct (map key xs)"
  shows "List.find (\<lambda>x. key x = k) (filter p xs) =
    (case List.find (\<lambda>x. key x = k) xs of None \<Rightarrow> None | Some x \<Rightarrow> if p x then Some x else None)"
  using assms
proof (induction xs)
  case (Cons a xs)
  have "List.find (\<lambda>x. key x = key a) xs = None" using Cons.prems unfolding find_None_iff by auto (metis image_eqI)
  then show ?case using Cons by (auto split: option.splits)
qed simp

lemma find_key_Some:
  "List.find (\<lambda>x. key x = k) xs = Some x \<Longrightarrow> x \<in> set xs \<and> key x = k"
  by (auto simp: find_Some_iff)

lemma find_key_mem:
  "distinct (map key xs) \<Longrightarrow> x \<in> set xs \<Longrightarrow> List.find (\<lambda>y. key y = key x) xs = Some x"
  by (induction xs) auto

lemma find_snoc: "List.find P (xs @ [y]) = (case List.find P xs of None \<Rightarrow> if P y then Some y else None | Some x \<Rightarrow> Some x)"
  by (induction xs) auto

lemma filter_key:
  assumes "distinct (map key xs)" and "\<And>x. p x \<Longrightarrow> key x = k"
  shows "filter p xs = (case List.find (\<lambda>x. key x = k) xs of None \<Rightarrow> [] | Some x \<Rightarrow> if p x then [x] else [])"
  using assms(1)
proof (induction xs)
  case (Cons a xs)
  have "filter p xs = []" if "key a = k"
    using Cons.prems that assms(2) unfolding filter_empty_conv by (metis distinct.simps(2) image_eqI list.set_map list.simps(9))
  then show ?case using Cons assms(2) by auto
qed simp

lemma sql_pick_set: "x \<in> set (sql_pick before locked p n rs) \<Longrightarrow> x \<in> set rs \<and> p x \<and> \<not> locked x"
proof -
  have "set (insertion_sort before ys) = set ys" for ys by (induction ys) (simp_all add: set_insert_by)
  then show "x \<in> set (sql_pick before locked p n rs) \<Longrightarrow> x \<in> set rs \<and> p x \<and> \<not> locked x"
    by (auto simp: sql_pick_def dest!: in_set_takeD)
qed

lemma same_key: "distinct (map key xs) \<Longrightarrow> x \<in> set xs \<Longrightarrow> y \<in> set xs \<Longrightarrow> key x = key y \<Longrightarrow> x = y"
  by (auto simp: distinct_map inj_on_def)

subsection \<open>Guarantees\<close>

text \<open>What holds of a sequence holds of its parts.\<close>

lemma op_relE: "op_rel R m \<Longrightarrow> m s = (s', r) \<Longrightarrow> R s s'"
  by (metis fst_conv op_rel_def)

lemma op_rel_seq_val:
  assumes "transp R" and "op_rel R m" and "\<And>s s' x. m s = (s', Inr x) \<Longrightarrow> op_rel R (f x)"
  shows "op_rel R (seq_op m f)"
proof
  fix s
  obtain s1 r where m: "m s = (s1, r)" by (rule prod.exhaust)
  have 1: "R s s1" using op_relE [OF assms(2) m] .
  show "R s (fst (seq_op m f s))"
  proof (cases r)
    case (Inr x)
    then have "R s1 (fst (f x s1))" using assms(3) m by (auto simp: op_rel_def)
    then show ?thesis using 1 m Inr assms(1) by (auto simp: seq_op_def dest: transpD)
  qed (use 1 m in \<open>simp add: seq_op_def\<close>)
qed

lemma sees_simps [simp]:
  "pg_tx s = None \<Longrightarrow> sees s d = d" "sees (s\<lparr>pg_tx := None\<rparr>) d = d" "sees (s\<lparr>pg_tx := Some w\<rparr>) d = w d"
  "sees (s\<lparr>pg_db := e\<rparr>) d = sees s d" "sees (s\<lparr>pg_stmts := n\<rparr>) d = sees s d" "sees (s\<lparr>pg_ticks := n\<rparr>) d = sees s d" "sees (s\<lparr>pg_draws := n\<rparr>) d = sees s d"
  by (simp_all add: sees_def)

text \<open>One statement: the others move first, then the statement happens at once, or in the overlay, or not at all.\<close>

lemma run_stmt_cases:
  assumes "run_stmt cn f s = (s', r)"
  defines "d \<equiv> cn_others cn (pg_stmts s) (pg_db s)"
  defines "g \<equiv> (\<lambda>d. fst (f (cn_locked cn (pg_stmts s)) d))"
  shows "(pg_tx s' = None \<longleftrightarrow> pg_tx s = None) \<and>
    (pg_db s' = d \<and> sees s' = sees s \<or> pg_tx s = None \<and> pg_db s' = g d \<and> sees s' = sees s
     \<or> pg_tx s \<noteq> None \<and> pg_db s' = d \<and> sees s' = (\<lambda>d. g (sees s d)))"
  using assms(1) unfolding d_def g_def
  by (cases "pg_tx s"; cases "cn_fate cn (pg_stmts s)") (auto simp: run_stmt_def Let_def store_writes_def sees_def fun_eq_iff split: prod.splits)

named_theorems guars \<open>methods are runs of statements\<close>

locale session_system =
  fixes exec :: "'s \<Rightarrow> Time \<Rightarrow> pg_db \<Rightarrow> pg_db" and frame :: "pg_db \<Rightarrow> 'k" and good :: "'k \<Rightarrow> bool"
  assumes frame_kept: "frame (exec st t d) = frame d"
begin

lemma runs_refl: "runs_of exec P d d"
  unfolding runs_of_def by (rule exI [of _ "[]"]) simp

lemma runs_one: "P (t, st) \<Longrightarrow> runs_of exec P d (exec st t d)"
  unfolding runs_of_def by (rule exI [of _ "[(t, st)]"]) simp

lemma runs_trans: "runs_of exec P d d' \<Longrightarrow> runs_of exec P d' d'' \<Longrightarrow> runs_of exec P d d''"
  unfolding runs_of_def by (metis list_all_append run_calls_append)

lemma runs_frame: "runs_of exec P d d' \<Longrightarrow> frame d' = frame d"
proof -
  have "frame (run_calls exec d calls) = frame d" for calls
    by (induction calls arbitrary: d) (auto simp: frame_kept)
  then show "runs_of exec P d d' \<Longrightarrow> frame d' = frame d" by (auto simp: runs_of_def)
qed

lemma transp_guar: "transp (guarantees exec frame good P)"
proof (rule transpI)
  fix s s1 s2
  assume 1: "guarantees exec frame good P s s1" and 2: "guarantees exec frame good P s1 s2"
  show "guarantees exec frame good P s s2"
    unfolding guarantees_def
  proof (intro impI)
    assume pre: "good (frame (pg_db s)) \<and> (\<forall>d. frame d = frame (pg_db s) \<longrightarrow> runs_of exec P d (sees s d))"
    have m: "runs_of exec P (pg_db s) (pg_db s1)" "\<forall>d. frame d = frame (pg_db s) \<longrightarrow> runs_of exec P d (sees s1 d)" "pg_tx s1 = None \<longleftrightarrow> pg_tx s = None"
      using 1 [unfolded guarantees_def, rule_format, OF pre] by auto
    have "good (frame (pg_db s1)) \<and> (\<forall>d. frame d = frame (pg_db s1) \<longrightarrow> runs_of exec P d (sees s1 d))"
      using pre m(2) runs_frame [OF m(1)] by simp
    from 2 [unfolded guarantees_def, rule_format, OF this]
    show "runs_of exec P (pg_db s) (pg_db s2) \<and> (\<forall>d. frame d = frame (pg_db s) \<longrightarrow> runs_of exec P d (sees s2 d)) \<and> (pg_tx s2 = None \<longleftrightarrow> pg_tx s = None)"
      using m runs_frame [OF m(1)] by (auto intro: runs_trans)
  qed
qed

lemmas guar_val [guars] = op_rel_seq_val [OF transp_guar]

lemma guar_quiet:
  assumes "pg_db s' = pg_db s" and "pg_tx s' = pg_tx s"
  shows "guarantees exec frame good P s s'"
proof -
  have "sees s' = sees s" using assms(2) by (simp add: sees_def fun_eq_iff)
  then show ?thesis using assms by (simp add: guarantees_def runs_refl)
qed

lemma guar_pure [guars]:
  "op_rel (guarantees exec frame good P) (return_op x)" "op_rel (guarantees exec frame good P) (throw_op e)"
  "op_rel (guarantees exec frame good P) (pure_pg r)" "op_rel (guarantees exec frame good P) (pg_now cn)"
  "op_rel (guarantees exec frame good P) (pg_token cn)"
  by (auto simp: op_rel_def return_op_def throw_op_def pure_pg_def pg_now_def pg_token_def intro: guar_quiet)

text \<open>A statement need only be one of the vocabulary where the frame is what it was and good.\<close>

lemma guar_stmt_at:
  assumes "env_runs exec cn P" and "\<And>locked d. good (frame d) \<Longrightarrow> frame d = frame (pg_db s) \<Longrightarrow>
      fst (f locked d) = d \<or> (\<exists>t st. P (t, st) \<and> fst (f locked d) = exec st t d)"
  shows "guarantees exec frame good P s (fst (mapped_op g (run_stmt cn f) s))"
proof (unfold guarantees_def, intro impI)
  assume pre: "good (frame (pg_db s)) \<and> (\<forall>d. frame d = frame (pg_db s) \<longrightarrow> runs_of exec P d (sees s d))"
  obtain s' r where r: "run_stmt cn f s = (s', r)" by (rule prod.exhaust)
  let ?d = "cn_others cn (pg_stmts s) (pg_db s)" and ?g = "\<lambda>d. fst (f (cn_locked cn (pg_stmts s)) d)"
  have d: "runs_of exec P (pg_db s) ?d" using assms(1) by (simp add: env_runs_def)
  have g: "runs_of exec P d (?g d)" if "frame d = frame (pg_db s)" for d
    using assms(2) [of d "cn_locked cn (pg_stmts s)"] that pre by (metis runs_one runs_refl)
  have *: "runs_of exec P (pg_db s) (?g ?d)" "frame d = frame (pg_db s) \<Longrightarrow> runs_of exec P d (?g (sees s d))" for d
    using g d pre runs_frame runs_trans by metis+
  have "fst (mapped_op g (run_stmt cn f) s) = s'" by (simp add: mapped_op_def r split: sum.splits)
  then show "runs_of exec P (pg_db s) (pg_db (fst (mapped_op g (run_stmt cn f) s)))
      \<and> (\<forall>d. frame d = frame (pg_db s) \<longrightarrow> runs_of exec P d (sees (fst (mapped_op g (run_stmt cn f) s)) d))
      \<and> (pg_tx (fst (mapped_op g (run_stmt cn f) s)) = None \<longleftrightarrow> pg_tx s = None)"
    using run_stmt_cases [OF r] pre d * by auto
qed

lemma guar_stmt:
  assumes "env_runs exec cn P" and "\<And>locked d. fst (f locked d) = d \<or> (\<exists>t st. P (t, st) \<and> fst (f locked d) = exec st t d)"
  shows "op_rel (guarantees exec frame good P) (mapped_op g (run_stmt cn f))"
  unfolding op_rel_def by (intro allI guar_stmt_at [OF assms(1)]) (rule assms(2))

lemma guar_read [guars]: "env_runs exec cn P \<Longrightarrow> op_rel (guarantees exec frame good P) (query cn f)"
  unfolding query_def by (rule guar_stmt) auto

lemma guar_run_stmt:
  assumes "env_runs exec cn P" and "\<And>locked. P (t, st locked)" and "\<And>locked d. fst (f locked d) = exec (st locked) t d"
  shows "op_rel (guarantees exec frame good P) (mapped_op g (run_stmt cn f))"
  using assms(2,3) by (intro guar_stmt [OF assms(1)]) blast

text \<open>A unit of work: its statements reach the tables with the commit, all of them or none.\<close>

lemma guar_Do [guars]:
  assumes "env_runs exec cn P" and "op_rel (guarantees exec frame good P) fn"
  shows "op_rel (guarantees exec frame good P) (pg_Do cn fn)"
proof
  fix s
  show "guarantees exec frame good P s (fst (pg_Do cn fn s))"
  proof (cases "pg_tx s")
    case (Some w)
    then show ?thesis using assms(2) by (auto simp: pg_Do_def op_rel_def)
  next
    case None
    let ?d = "cn_others cn (pg_stmts s) (pg_db s)"
    let ?s1 = "s\<lparr>pg_db := ?d, pg_stmts := pg_stmts s + 1\<rparr>"
    let ?b = "?s1\<lparr>pg_tx := Some (\<lambda>d. d)\<rparr>"
    obtain s2 r where r: "fn ?b = (s2, r)" by (rule prod.exhaust)
    have g: "guarantees exec frame good P ?b s2" using op_relE [OF assms(2) r] .
    have d: "runs_of exec P (pg_db s) ?d" "runs_of exec P d (cn_others cn n d)" for n d using assms(1) by (simp_all add: env_runs_def)
    let ?d3 = "cn_others cn (pg_stmts s2) (pg_db s2)"
    have fin: "runs_of exec P (pg_db s) (pg_db s2)" "runs_of exec P (pg_db s) ?d3" "runs_of exec P (pg_db s) (sees s2 ?d3)"
      if "good (frame (pg_db s))"
    proof -
      have b: "runs_of exec P ?d (pg_db s2)" "\<And>d. frame d = frame ?d \<Longrightarrow> runs_of exec P d (sees s2 d)"
        using g that runs_frame [OF d(1)] by (auto simp: guarantees_def runs_refl)
      show "runs_of exec P (pg_db s) (pg_db s2)" using d(1) b(1) by (rule runs_trans)
      then show 3: "runs_of exec P (pg_db s) ?d3" using d(2) by (rule runs_trans)
      show "runs_of exec P (pg_db s) (sees s2 ?d3)"
        using 3 b(2) [of ?d3] runs_frame [OF 3] runs_frame [OF d(1)] by (auto intro: runs_trans)
    qed
    then show ?thesis
      using None d(1) r
      by (auto simp: pg_Do_def pg_begin_def pg_commit_def Let_def guarantees_def runs_refl split: sum.splits prod.splits if_splits bool.splits)
  qed
qed

end

subsection \<open>Undisturbed connections\<close>

text \<open>Nobody else commits, nothing is locked, every statement is answered.\<close>

definition quiet :: "Conn \<Rightarrow> bool" where
  "quiet cn \<longleftrightarrow> (\<forall>n d. cn_others cn n d = d) \<and> (\<forall>n k. \<not> cn_locked cn n k) \<and> (\<forall>n. cn_fate cn n = Answered)"

lemma quiet_stmt:
  assumes "quiet cn" and "pg_tx s = None"
  shows "run_stmt cn f s = (s\<lparr>pg_db := fst (f (\<lambda>_. False) (pg_db s)), pg_stmts := Suc (pg_stmts s)\<rparr>, snd (f (\<lambda>_. False) (pg_db s)))"
proof -
  have "cn_locked cn n = (\<lambda>_. False)" for n using assms(1) by (auto simp: quiet_def)
  then show ?thesis using assms by (simp add: run_stmt_def Let_def quiet_def store_writes_def sees_def split: prod.splits)
qed

lemma quiet_query:
  assumes "quiet cn" and "pg_tx s = None"
  shows "query cn f s = (s\<lparr>pg_stmts := Suc (pg_stmts s)\<rparr>, Inr (f (pg_db s)))"
  using quiet_stmt [OF assms, of "\<lambda>_ d. (d, Inr (f d))"] by (simp add: query_def mapped_op_def)

lemma quiet_exec:
  assumes "quiet cn" "pg_tx s = None" and "F (\<lambda>_. False) (pg_db s) = (d', Inr n)"
  shows "exec_stmt cn F s = (s\<lparr>pg_db := d', pg_stmts := Suc (pg_stmts s)\<rparr>, Inr n)"
  using quiet_stmt [OF assms(1,2), of F] assms(3) by (simp add: exec_stmt_def mapped_op_def)

lemma quiet_tx_query:
  assumes "quiet cn" and "pg_tx s = Some w"
  shows "query cn f s = (s\<lparr>pg_stmts := Suc (pg_stmts s)\<rparr>, Inr (f (w (pg_db s))))"
  using assms by (cases s) (simp add: query_def mapped_op_def run_stmt_def Let_def store_writes_def sees_def quiet_def)

lemma quiet_tx_exec:
  assumes "quiet cn" and "pg_tx s = Some w"
  shows "exec_stmt cn f s = (s\<lparr>pg_stmts := Suc (pg_stmts s), pg_tx := Some (\<lambda>d. fst (f (\<lambda>_. False) (w d)))\<rparr>,
      case snd (f (\<lambda>_. False) (w (pg_db s))) of Inl e \<Rightarrow> Inl (wrapWrite e) | Inr x \<Rightarrow> Inr x)"
proof -
  have "cn_locked cn n = (\<lambda>_. False)" for n using assms(1) by (auto simp: quiet_def)
  then show ?thesis
    using assms by (cases s) (auto simp: exec_stmt_def mapped_op_def run_stmt_def Let_def store_writes_def sees_def quiet_def split: prod.splits sum.splits)
qed

lemma quiet_Do:
  assumes "quiet cn" and "pg_tx s = None"
  shows "pg_Do cn fn s = (case fn (s\<lparr>pg_stmts := Suc (pg_stmts s), pg_tx := Some (\<lambda>d. d)\<rparr>) of
      (s2, Inl e) \<Rightarrow> (s2\<lparr>pg_tx := None\<rparr>, Inl e)
    | (s2, Inr x) \<Rightarrow> (s2\<lparr>pg_db := sees s2 (pg_db s2), pg_tx := None, pg_stmts := Suc (pg_stmts s2)\<rparr>, Inr x))"
  using assms by (simp add: pg_Do_def pg_begin_def pg_commit_def Let_def quiet_def split: prod.splits sum.splits)

subsection \<open>Instants in a column\<close>

text \<open>
  A timestamp column keeps an instant at its own resolution (PostgreSQL: microseconds, the clock reads nanoseconds).
  A duration is \<open>whole\<close> when it is a whole number of the column's units: adding it commutes with storing.
\<close>

definition whole :: "Conn \<Rightarrow> Duration \<Rightarrow> bool" where
  "whole cn dur \<longleftrightarrow> (\<forall>t. cn_ts cn (t + dur) = cn_ts cn t + dur)"

lemma whole_add: "whole cn dur \<Longrightarrow> cn_ts cn (t + dur) = cn_ts cn t + dur"
  by (simp add: whole_def)

lemma whole_diff: "whole cn dur \<Longrightarrow> cn_ts cn (t - dur) = cn_ts cn t - dur"
  using whole_add [of cn dur "t - dur"] by simp

lemma whole_expiry: "whole cn lease \<Longrightarrow> 0 < lease \<Longrightarrow> cn_ts cn (ClaimExpiry t lease) = cn_ts cn t + lease"
  by (simp add: ClaimExpiry_def whole_add)

subsection \<open>Example data\<close>

definition on_session :: "pg_db \<Rightarrow> pg" where
  "on_session d = \<lparr>pg_db = d, pg_tx = None, pg_stmts = 0, pg_ticks = 0, pg_draws = 0\<rparr>"

definition ex_conn :: Conn where
  "ex_conn = \<lparr>cn_others = \<lambda>_ d. d, cn_locked = \<lambda>_ _. False, cn_fate = \<lambda>_. Answered, cn_clock = \<lambda>_. 5, cn_rand = \<lambda>_. zeros,
     cn_ts = \<lambda>t. t, cn_jsonb = Some, cn_returning = \<lambda>rows. rows, cn_text = \<lambda>_. True, cn_nextval = int\<rparr>"

lemma quiet_ex_conn: "quiet ex_conn"
  by (simp add: quiet_def ex_conn_def)

text \<open>A server that keeps microseconds of a nanosecond clock and prints documents its own way.\<close>

definition ex_micro :: Conn where
  "ex_micro = ex_conn\<lparr>cn_ts := \<lambda>t. t - t mod 1000,
     cn_jsonb := \<lambda>e. if e = ''{'' then None else Some (if e = ''{\"a\":1}'' then ''{\"a\": 1}'' else e)\<rparr>"

lemma quiet_ex_micro: "quiet ex_micro"
  by (simp add: quiet_def ex_micro_def ex_conn_def)

lemma whole_ex_micro: "dur mod 1000 = 0 \<Longrightarrow> whole ex_micro dur"
  by (simp add: whole_def ex_micro_def mod_add_right_eq [symmetric] flip: mod_add_eq)

end
