(* ===== verification/PG_Claim_Laws.thy ===== *)
theory PG_Claim_Laws
  imports PG_Claims PG_Sessions
begin

section \<open>The PostgreSQL claim repository keeps the claim contract\<close>

text \<open>
  Two results. Statement by statement, in any interleaving of sessions and whatever rows are
  skipped because they are locked, the table is a \<open>claim_machine\<close>: it makes the promises to holders that
  the memory adapter makes. And undisturbed calls answer and change exactly what the memory adapter's calls do.
\<close>

subsection \<open>Statements as moves\<close>

definition claim_at :: "pg_db \<Rightarrow> string \<Rightarrow> RunClaim option" where
  "claim_at d k = List.find (\<lambda>c. claim_RunID c = k) (tb_claims d)"

definition run_at :: "pg_db \<Rightarrow> string \<Rightarrow> Run option" where
  "run_at d k = List.find (\<lambda>r. run_ID r = k) (tb_runs d)"

definition pg_claim_slot :: "pg_db \<Rightarrow> string \<Rightarrow> RunClaim option \<times> RunStatus option" where
  "pg_claim_slot d k = (claim_at d k, map_option run_Status (run_at d k))"

definition pg_claims_ok :: "pg_db \<Rightarrow> bool" where
  "pg_claims_ok d \<longleftrightarrow> distinct (map claim_RunID (tb_claims d)) \<and> (\<forall>k. slot_ok k (pg_claim_slot d k))"

datatype claim_stmt =
    SInsert string string
  | SAcquire string string string string Duration
  | SAcquireFirst string string Duration "string \<Rightarrow> bool"
  | SExtend RunClaimRef Duration
  | SRelease RunClaimRef
  | SComplete RunClaimRef
  | SDelete string string

fun stmt_effect :: "claim_stmt \<Rightarrow> Time \<Rightarrow> pg_db \<Rightarrow> pg_db" where
  "stmt_effect (SInsert tn r) now d = fst (insert_claim tn r now (\<lambda>_. False) d)"
| "stmt_effect (SAcquire tn r owner token e) now d = fst (acquire_row tn r owner token now (now + e) (\<lambda>_. False) d)"
| "stmt_effect (SAcquireFirst owner token e locked) now d = fst (acquire_first owner token now (now + e) locked d)"
| "stmt_effect (SExtend ref e) now d = fst (extend_row ref now (now + e) (\<lambda>_. False) d)"
| "stmt_effect (SRelease ref) now d = fst (release_row ref now (\<lambda>_. False) d)"
| "stmt_effect (SComplete ref) now d = fst (complete_row ref (\<lambda>_. False) d)"
| "stmt_effect (SDelete tn r) now d = fst (delete_claim tn r (\<lambda>_. False) d)"

text \<open>
  When the methods issue a statement: requests are validated, a lease ends after it begins, and a claim is
  deleted by its key only after its run was seen terminal.
\<close>

fun issued :: "claim_stmt \<Rightarrow> Time \<Rightarrow> pg_db \<Rightarrow> bool" where
  "issued (SAcquire tn r owner token e) now d \<longleftrightarrow> ValidateClaimOwner owner = Inr () \<and> length token = ClaimTokenLength \<and> 0 < e"
| "issued (SAcquireFirst owner token e locked) now d \<longleftrightarrow> ValidateClaimOwner owner = Inr () \<and> length token = ClaimTokenLength \<and> 0 < e"
| "issued (SExtend ref e) now d \<longleftrightarrow> 0 < e"
| "issued (SDelete tn r) now d \<longleftrightarrow> (case run_at d r of None \<Rightarrow> False | Some run \<Rightarrow> Terminal (run_Status run))"
| "issued _ now d \<longleftrightarrow> True"

definition stmt_exec :: "claim_stmt \<Rightarrow> Time \<Rightarrow> pg_db \<Rightarrow> pg_db" where
  "stmt_exec st now d = (if issued st now d then stmt_effect st now d else d)"

fun stmt_call :: "claim_stmt \<Rightarrow> claim_call" where
  "stmt_call (SInsert tn r) = CallCreate tn r"
| "stmt_call (SAcquire tn r owner token e) = CallAcquire \<lparr>lr_TenantID = tn, lr_RunID = r, lr_Owner = owner, lr_LeaseFor = 1\<rparr> None"
| "stmt_call (SAcquireFirst owner token e locked) = CallAcquireNext \<lparr>br_Owner = owner, br_Limit = 1, br_LeaseFor = 1\<rparr> (\<lambda>_. None)"
| "stmt_call (SExtend ref e) = CallHeartbeat ref e"
| "stmt_call (SRelease ref) = CallRelease ref"
| "stmt_call (SComplete ref) = CallComplete ref"
| "stmt_call (SDelete tn r) = CallCleanupTerminal tn r"

lemma claim_at_Some: "claim_at d k = Some c \<Longrightarrow> c \<in> set (tb_claims d) \<and> claim_RunID c = k"
  unfolding claim_at_def by (rule find_key_Some)

text \<open>What \<open>UPDATE\<close> and \<open>DELETE\<close> do to the row of one run.\<close>

lemma update_slot:
  assumes "\<And>c. claim_RunID (f c) = claim_RunID c"
  shows "pg_claim_slot (fst (on_claims (sql_update check p f) d)) k =
      (if list_all check (map f (filter p (tb_claims d)))
       then (map_option (\<lambda>c. if p c then f c else c) (claim_at d k), map_option run_Status (run_at d k)) else pg_claim_slot d k)"
    and "map claim_RunID (tb_claims (fst (on_claims (sql_update check p f) d))) = map claim_RunID (tb_claims d)"
  using assms
  by (auto simp: on_claims_def sql_update_def Let_def pg_claim_slot_def claim_at_def run_at_def find_map_if)

lemma delete_slot:
  assumes "distinct (map claim_RunID (tb_claims d))"
  shows "pg_claim_slot (fst (on_claims (sql_delete p) d)) k =
      (case claim_at d k of None \<Rightarrow> None | Some c \<Rightarrow> if p c then None else Some c, map_option run_Status (run_at d k))"
    and "distinct (map claim_RunID (tb_claims (fst (on_claims (sql_delete p) d))))"
  using assms
  by (auto simp: on_claims_def sql_delete_def pg_claim_slot_def claim_at_def run_at_def find_key_filter distinct_map_filter split: option.splits)

lemma claimable_eligible: "claimable now c = claimEligible c now"
  by (cases "claim_Status c") (auto simp: claimable_def claimEligible_def lapsed_def ClaimExpired_def split: option.splits)

lemma holder_presents: "holder ref c \<longleftrightarrow> presents ref (claim_RunID c) c"
  by (auto simp: holder_def addressed_def presents_def Matches_def)

lemma set_claimed_eq:
  "0 < lease \<Longrightarrow> set_claimed owner token now (now + lease) c = acquireClaim c owner token now lease"
  by (simp add: set_claimed_def acquireClaim_def ClaimExpiry_def Let_def)

lemma extendClaim_eq:
  "0 < ext \<Longrightarrow> c\<lparr>claim_HeartbeatAt := Some now, claim_ExpiresAt := Some (now + ext), claim_UpdatedAt := now\<rparr> = extendClaim c now ext"
  by (simp add: extendClaim_def ClaimExpiry_def Let_def)

lemma set_claimed_id [simp]: "claim_RunID (set_claimed owner token now e c) = claim_RunID c" "claim_RunID (extendClaim c now e) = claim_RunID c"
    "claim_RunID (releaseClaim c now) = claim_RunID c"
  by (simp_all add: set_claimed_def extendClaim_def releaseClaim_def)

lemma picked_claimable:
  assumes "distinct (map claim_RunID rs)" and "c \<in> set rs"
    and "list_ex (\<lambda>x. addressed (claim_TenantID x) (claim_RunID x) c) (sql_pick before locked (claimable now) n rs)"
  shows "claimable now c"
proof -
  obtain x where x: "x \<in> set (sql_pick before locked (claimable now) n rs)" "claim_RunID x = claim_RunID c"
    using assms(3) by (auto simp: list_ex_iff addressed_def)
  have "x \<in> set rs" "claimable now x" using sql_pick_set [OF x(1)] by simp_all
  then show ?thesis using same_key [OF assms(1) _ assms(2) x(2)] by simp
qed

lemma insert_slot:
  "pg_claim_slot (fst (insert_claim tn r now locked d)) k =
     (if k = r \<and> claim_at d r = None \<and> run_at d r \<noteq> None then (Some (fresh_claim tn r now), map_option run_Status (run_at d r))
      else pg_claim_slot d k)"
  by (auto simp: insert_claim_def pg_claim_slot_def claim_at_def run_at_def find_snoc list_ex_find fresh_claim_def split: option.splits)

text \<open>So a statement moves a slot if it moves the rows it selects.\<close>

lemma update_moves:
  assumes "\<And>c. claim_RunID (f c) = claim_RunID c"
    and "\<And>c rs. c \<in> set (tb_claims d) \<Longrightarrow> claim_RunID c = k \<Longrightarrow> p c \<Longrightarrow> claim_move call now k (Some c, rs) (Some (f c), rs)"
  shows "claim_move call now k (pg_claim_slot d k) (pg_claim_slot (fst (on_claims (sql_update check p f) d)) k)"
  unfolding update_slot(1) [OF assms(1)]
  using assms(2) by (cases "claim_at d k") (auto simp: pg_claim_slot_def claim_move.stay dest!: claim_at_Some)

lemma delete_moves:
  assumes "distinct (map claim_RunID (tb_claims d))"
    and "\<And>c. c \<in> set (tb_claims d) \<Longrightarrow> claim_RunID c = k \<Longrightarrow> p c \<Longrightarrow>
      claim_move call now k (Some c, map_option run_Status (run_at d k)) (None, map_option run_Status (run_at d k))"
  shows "claim_move call now k (pg_claim_slot d k) (pg_claim_slot (fst (on_claims (sql_delete p) d)) k)"
  unfolding delete_slot(1) [OF assms(1)]
  using assms(2) by (cases "claim_at d k") (auto simp: pg_claim_slot_def claim_move.stay dest!: claim_at_Some)

lemma acquire_first_eq:
  "acquire_first owner token now e locked d = on_claims (sql_update claim_check
     (\<lambda>c. list_ex (\<lambda>x. addressed (claim_TenantID x) (claim_RunID x) c)
       (sql_pick claim_row_before (\<lambda>c. locked (claim_RunID c)) (claimable now) 1 (tb_claims d))) (set_claimed owner token now e)) d"
  by (simp add: acquire_first_def on_claims_def Let_def)

lemma stmt_moves:
  assumes "distinct (map claim_RunID (tb_claims d))" and "issued st now d"
  shows "claim_move (stmt_call st) now k (pg_claim_slot d k) (pg_claim_slot (stmt_effect st now d) k)"
proof (cases st)
  case (SInsert tn r)
  then show ?thesis
    using insert_slot [of tn r now "\<lambda>_. False" d k] by (auto simp: pg_claim_slot_def intro: claim_move.intros)
next
  case (SAcquire tn r owner token e)
  then show ?thesis
    using assms(2) unfolding SAcquire stmt_effect.simps acquire_row_def
    by (intro update_moves) (auto simp: claimable_eligible addressed_def set_claimed_eq intro: claim_move.acquire)
next
  case (SAcquireFirst owner token e locked)
  then show ?thesis
    using assms(2) picked_claimable [OF assms(1)] unfolding SAcquireFirst stmt_effect.simps acquire_first_eq
    by (intro update_moves) (auto simp: claimable_eligible set_claimed_eq intro: claim_move.acquire)
next
  case (SExtend ref e)
  then have "0 < e" using assms(2) by simp
  then show ?thesis
    unfolding SExtend stmt_effect.simps extend_row_def
    by (intro update_moves) (auto simp: extendClaim_eq holder_presents ClaimExpired_def split: option.splits intro: claim_move.heartbeat)
next
  case (SRelease ref)
  then show ?thesis
    unfolding SRelease stmt_effect.simps release_row_def
    by (intro update_moves) (auto simp: holder_presents releaseClaim_def [symmetric] intro: claim_move.release)
next
  case (SComplete ref)
  then show ?thesis
    unfolding SComplete stmt_effect.simps complete_row_def
    by (intro delete_moves [OF assms(1)]) (auto simp: holder_presents intro: claim_move.complete)
next
  case (SDelete tn r)
  then obtain run where "run_at d r = Some run" "Terminal (run_Status run)" using assms(2) by (auto split: option.splits)
  then show ?thesis
    unfolding SDelete stmt_effect.simps delete_claim_def
    by (intro delete_moves [OF assms(1)]) (auto simp: addressed_def intro: claim_move.cleanup)
qed

lemma stmt_distinct:
  assumes "distinct (map claim_RunID (tb_claims d))"
  shows "distinct (map claim_RunID (tb_claims (stmt_effect st now d)))"
proof (cases st)
  case (SInsert tn r)
  then show ?thesis using assms by (auto simp: insert_claim_def fresh_claim_def list_ex_iff)
next
  case (SAcquireFirst owner token e locked)
  then show ?thesis using assms by (simp add: acquire_first_eq update_slot)
qed (use assms in \<open>simp_all add: acquire_row_def extend_row_def release_row_def complete_row_def delete_claim_def update_slot delete_slot\<close>)

interpretation pg_claims: claim_machine pg_claims_ok pg_claim_slot stmt_exec stmt_call
proof
  fix d st now k assume ok: "pg_claims_ok d"
  then have d: "distinct (map claim_RunID (tb_claims d))" by (simp add: pg_claims_ok_def)
  show move: "claim_move (stmt_call st) now k (pg_claim_slot d k) (pg_claim_slot (stmt_exec st now d) k)" for k
    using stmt_moves [OF d] by (simp add: stmt_exec_def claim_move.stay)
  show "pg_claims_ok (stmt_exec st now d)"
    using ok d stmt_distinct [OF d] claim_move_ok [OF move] by (auto simp: pg_claims_ok_def stmt_exec_def)
qed

subsection \<open>Methods as runs of statements\<close>

lemma stmt_exec_runs [simp]: "tb_runs (stmt_exec st t d) = tb_runs d"
  by (cases st) (auto simp: stmt_exec_def insert_claim_def acquire_row_def acquire_first_def extend_row_def release_row_def complete_row_def
      delete_claim_def on_claims_def split: prod.splits)

abbreviation stmts :: "(Time \<times> claim_stmt \<Rightarrow> bool) \<Rightarrow> pg_db \<Rightarrow> pg_db \<Rightarrow> bool" where
  "stmts \<equiv> runs_of stmt_exec"

abbreviation rely :: "Conn \<Rightarrow> (Time \<times> claim_stmt \<Rightarrow> bool) \<Rightarrow> bool" where
  "rely \<equiv> env_runs stmt_exec"

abbreviation guar :: "(Time \<times> claim_stmt \<Rightarrow> bool) \<Rightarrow> pg \<Rightarrow> pg \<Rightarrow> bool" where
  "guar \<equiv> guarantees stmt_exec tb_runs (\<lambda>runs. distinct (map run_ID runs))"

interpretation claim_sessions: session_system stmt_exec tb_runs "\<lambda>runs. distinct (map run_ID runs)"
  by unfold_locales (rule stmt_exec_runs)

lemmas stmts_refl = claim_sessions.runs_refl
  and stmts_one = claim_sessions.runs_one
  and stmts_trans = claim_sessions.runs_trans
  and stmts_runs = claim_sessions.runs_frame

lemma guar_scan:
  assumes "rely cn P" and "\<And>locked d. fst (f locked d) = d \<or> (\<exists>t st. P (t, st) \<and> fst (f locked d) = stmt_exec st t d)"
  shows "op_rel (guar P) (scan_claim cn f)"
  unfolding scan_claim_def query_rows_def by (intro guars claim_sessions.guar_stmt assms)

lemma guar_scan_stmt:
  assumes "rely cn P" and "\<And>locked. P (t, st locked)" and "\<And>locked d. fst (f locked d) = stmt_exec (st locked) t d"
  shows "op_rel (guar P) (scan_claim cn f)"
  using assms(2,3) by (intro guar_scan [OF assms(1)]) blast

lemma guar_rawGet [guars]: "rely cn P \<Longrightarrow> op_rel (guar P) (rawGet cn tn r)"
  unfolding rawGet_def by (rule guar_scan) auto

lemma guar_classify [guars]:
  assumes "rely cn P"
  shows "op_rel (guar P) (classifyAcquireMiss cn tn r)" "op_rel (guar P) (classifyFenceMiss cn ref code)"
  using op_relE [OF guar_rawGet [OF assms]]
  by (auto simp: op_rel_def classifyAcquireMiss_def classifyFenceMiss_def split: prod.splits sum.splits)

lemma guar_on_miss [guars]:
  assumes "op_rel (guar P) m" and "op_rel (guar P) miss"
  shows "op_rel (guar P) (on_miss m miss)"
proof
  fix s
  obtain s1 r where m: "m s = (s1, r)" by (rule prod.exhaust)
  have "guar P s s1" "guar P s1 (fst (miss s1))" using op_relE [OF assms(1) m] assms(2) by (auto simp: op_rel_def)
  then have "guar P s (fst (miss s1))" by (rule transpD [OF claim_sessions.transp_guar])
  then show "guar P s (fst (on_miss m miss s))" using m \<open>guar P s s1\<close> by (auto simp: on_miss_def split: sum.splits)
qed

text \<open>The statements of a caller: at instants of its clock, presenting no other credentials than its own.\<close>

definition speaks :: "Conn \<Rightarrow> RunClaimRef option \<Rightarrow> (Time \<times> claim_stmt) \<Rightarrow> bool" where
  "speaks cn ref ts \<longleftrightarrow> (\<exists>n. fst ts = cn_ts cn (cn_clock cn n)) \<and> (call_ref (stmt_call (snd ts)) = None \<or> call_ref (stmt_call (snd ts)) = ref)"

definition resolves :: "Conn \<Rightarrow> Duration \<Rightarrow> bool" where
  "resolves cn lease \<longleftrightarrow> (\<forall>n. cn_ts cn (cn_clock cn n) < cn_ts cn (ClaimExpiry (cn_clock cn n) lease))"

fun call_lease :: "claim_call \<Rightarrow> Duration" where
  "call_lease (CallAcquire req _) = lr_LeaseFor req"
| "call_lease (CallAcquireNext req _) = br_LeaseFor req"
| "call_lease (CallHeartbeat ref ext) = ext"
| "call_lease _ = 1"

fun pg_claim_call :: "Conn \<Rightarrow> claim_call \<Rightarrow> RunClaim list pg_op" where
  "pg_claim_call cn (CallCreate tn r) = seq_op (Pg_Create cn tn r) (\<lambda>_. return_op [])"
| "pg_claim_call cn (CallAcquire req rnd) = seq_op (Pg_Acquire cn req) (\<lambda>c. return_op [c])"
| "pg_claim_call cn (CallAcquireNext req rnd) = Pg_AcquireNext cn req"
| "pg_claim_call cn (CallHeartbeat ref ext) = seq_op (Pg_Heartbeat cn ref ext) (\<lambda>c. return_op [c])"
| "pg_claim_call cn (CallRelease ref) = seq_op (Pg_Release cn ref) (\<lambda>c. return_op [c])"
| "pg_claim_call cn (CallComplete ref) = seq_op (Pg_Complete cn ref) (\<lambda>_. return_op [])"
| "pg_claim_call cn (CallCleanupTerminal tn r) = seq_op (Pg_CleanupTerminal cn tn r) (\<lambda>_. return_op [])"

lemma now_value: "pg_now cn s = (s', Inr now) \<Longrightarrow> \<exists>n. now = cn_clock cn n"
  by (auto simp: pg_now_def)

lemma token_value: "pg_token cn s = (s', Inr token) \<Longrightarrow> length token = ClaimTokenLength"
  by (auto simp: pg_token_def token_length)

text \<open>Each writing statement of a method is one of \<open>claim_stmt\<close>, at an instant the clock showed.\<close>

lemma acquire_is_stmt:
  assumes "ValidateClaimOwner owner = Inr ()" and "length token = ClaimTokenLength" and "t < e"
  shows "fst (acquire_row tn r owner token t e locked d) = stmt_exec (SAcquire tn r owner token (e - t)) t d"
    and "fst (acquire_first owner token t e locked d) = stmt_exec (SAcquireFirst owner token (e - t) locked) t d"
  using assms by (simp_all add: stmt_exec_def acquire_row_def)

lemma guar_acquire_row:
  assumes "rely cn P" and "\<And>t st. speaks cn ref (t, st) \<Longrightarrow> P (t, st)" and "resolves cn lease"
    and "ValidateClaimOwner owner = Inr ()" and "length token = ClaimTokenLength" and "now = cn_clock cn n"
  shows "op_rel (guar P) (scan_claim cn (acquire_row tn r owner token (cn_ts cn now) (cn_ts cn (ClaimExpiry now lease))))"
    and "op_rel (guar P) (scan_claim cn (acquire_first owner token (cn_ts cn now) (cn_ts cn (ClaimExpiry now lease))))"
proof -
  have lt: "cn_ts cn now < cn_ts cn (ClaimExpiry now lease)" using assms(3,6) by (simp add: resolves_def)
  have P: "P (cn_ts cn now, st)" if "call_ref (stmt_call st) = None" for st using assms(2,6) that by (auto simp: speaks_def)
  show "op_rel (guar P) (scan_claim cn (acquire_row tn r owner token (cn_ts cn now) (cn_ts cn (ClaimExpiry now lease))))"
    by (rule guar_scan_stmt [OF assms(1) P acquire_is_stmt(1) [OF assms(4,5) lt]]) simp
  show "op_rel (guar P) (scan_claim cn (acquire_first owner token (cn_ts cn now) (cn_ts cn (ClaimExpiry now lease))))"
    by (rule guar_scan_stmt [OF assms(1) P acquire_is_stmt(2) [OF assms(4,5) lt]]) simp
qed

lemma guar_acquire_next:
  assumes "rely cn P" and "\<And>t st. speaks cn None (t, st) \<Longrightarrow> P (t, st)" and "resolves cn (br_LeaseFor req)"
    and "ValidateClaimOwner (br_Owner req) = Inr ()"
  shows "op_rel (guar P) (acquire_next cn req out k)"
proof (induction k arbitrary: out)
  case (Suc k)
  have "op_rel (guar P) (\<lambda>s. case scan_claim cn (acquire_first (br_Owner req) token (cn_ts cn now) (cn_ts cn (ClaimExpiry now (br_LeaseFor req)))) s of
          (s', Inl err) \<Rightarrow> if ErrKindOf err = ErrKindNotFound then (s', Inr out) else (s', Inl err)
        | (s', Inr c) \<Rightarrow> acquire_next cn req (out @ [c]) k s')" if t: "length token = ClaimTokenLength" and n: "now = cn_clock cn n" for token now n
  proof
    fix s
    let ?m = "scan_claim cn (acquire_first (br_Owner req) token (cn_ts cn now) (cn_ts cn (ClaimExpiry now (br_LeaseFor req))))"
    obtain s1 r where m: "?m s = (s1, r)" by (rule prod.exhaust)
    have 1: "guar P s s1" using op_relE [OF guar_acquire_row(2) [OF assms t n] m] .
    have "guar P s (fst (acquire_next cn req (out @ [c]) k s1))" for c
      using 1 Suc.IH [of "out @ [c]"] by (auto simp: op_rel_def intro: transpD [OF claim_sessions.transp_guar])
    then show "guar P s (fst (case ?m s of
          (s', Inl err) \<Rightarrow> if ErrKindOf err = ErrKindNotFound then (s', Inr out) else (s', Inl err)
        | (s', Inr c) \<Rightarrow> acquire_next cn req (out @ [c]) k s'))"
      using 1 by (auto simp: m split: sum.splits)
  qed
  note step = this
  show ?case
    unfolding acquire_next.simps
  proof (intro guars)
    fix s s' now s1 s1' token assume "pg_now cn s = (s', Inr now)" "pg_token cn s1 = (s1', Inr token)"
    then obtain n where "now = cn_clock cn n" "length token = ClaimTokenLength" using now_value token_value by blast
    then show "op_rel (guar P) (\<lambda>s. case scan_claim cn (acquire_first (br_Owner req) token (cn_ts cn now) (cn_ts cn (ClaimExpiry now (br_LeaseFor req)))) s of
          (s', Inl err) \<Rightarrow> if ErrKindOf err = ErrKindNotFound then (s', Inr out) else (s', Inl err)
        | (s', Inr c) \<Rightarrow> acquire_next cn req (out @ [c]) k s')" using step by blast
  qed
qed (simp add: guars)

lemma query_Inr:
  assumes "query cn f s = (s', Inr x)"
  shows "x = f (sees s (pg_db s'))"
  using assms by (cases "pg_tx s") (auto simp: query_def mapped_op_def run_stmt_def Let_def store_writes_def split: fate.splits)

lemma guar_cleanup:
  assumes "rely cn P" and "\<And>t st. speaks cn None (t, st) \<Longrightarrow> P (t, st)"
  shows "op_rel (guar P) (Pg_CleanupTerminal cn tn r)"
proof
  fix s
  let ?p = "\<lambda>x. run_ID x = r \<and> run_TenantID x = tn" and ?D = "exec_stmt cn (delete_claim tn r)" and ?t = "cn_ts cn (cn_clock cn 0)"
  obtain s1 q where q: "query cn (\<lambda>d. map run_Status (filter ?p (tb_runs d))) s = (s1, q)" by (rule prod.exhaust)
  have g1: "guar P s s1" using op_relE [OF claim_sessions.guar_read [OF assms(1)] q] .
  have g2: "guar P s (fst (?D s1))" if hq: "q = Inr (status # rest)" and trm: "Terminal status" for status rest
  proof (unfold guarantees_def, intro impI)
    assume pre: "distinct (map run_ID (tb_runs (pg_db s))) \<and> (\<forall>d. tb_runs d = tb_runs (pg_db s) \<longrightarrow> stmts P d (sees s d))"
    have runs: "tb_runs (pg_db s1) = tb_runs (pg_db s)" using g1 pre stmts_runs by (auto simp: guarantees_def)
    then have "tb_runs (sees s (pg_db s1)) = tb_runs (pg_db s1)" using pre stmts_runs by blast
    then have "map run_Status (filter ?p (tb_runs (pg_db s1))) = status # rest" using query_Inr [OF q [unfolded hq]] by simp
    from first_selected [OF this] obtain run where run: "run \<in> set (tb_runs (pg_db s1))" "run_ID run = r" "run_Status run = status" by auto
    have del: "fst (delete_claim tn r locked d) = stmt_exec (SDelete tn r) ?t d" if "tb_runs d = tb_runs (pg_db s1)" for locked d
    proof -
      have "run_at d r = Some run" using find_key_mem [of run_ID] run that pre runs by (auto simp: run_at_def)
      then show ?thesis using run(3) trm by (simp add: stmt_exec_def delete_claim_def)
    qed
    have "P (?t, SDelete tn r)" using assms(2) [of ?t "SDelete tn r"] by (auto simp: speaks_def)
    then have "guar P s1 (fst (?D s1))"
      unfolding exec_stmt_def using del by (intro claim_sessions.guar_stmt_at [OF assms(1)]) blast
    then have "guar P s (fst (?D s1))" by (rule transpD [OF claim_sessions.transp_guar g1])
    then show "stmts P (pg_db s) (pg_db (fst (?D s1))) \<and> (\<forall>d. tb_runs d = tb_runs (pg_db s) \<longrightarrow> stmts P d (sees (fst (?D s1)) d))
        \<and> (pg_tx (fst (?D s1)) = None \<longleftrightarrow> pg_tx s = None)"
      using pre by (simp add: guarantees_def)
  qed
  show "guar P s (fst (Pg_CleanupTerminal cn tn r s))"
    using g1 g2 by (auto simp: Pg_CleanupTerminal_def seq_op_def q throw_op_def return_op_def split: sum.splits list.splits prod.splits)
qed

lemma guar_fenced:
  assumes "rely cn P" and "\<And>t st. speaks cn (Some ref) (t, st) \<Longrightarrow> P (t, st)"
  shows "op_rel (guar P) (Pg_Release cn ref)" "op_rel (guar P) (Pg_Complete cn ref)"
    and "resolves cn ext \<Longrightarrow> op_rel (guar P) (Pg_Heartbeat cn ref ext)"
proof -
  have P: "P (cn_ts cn (cn_clock cn n), st)" if "call_ref (stmt_call st) = Some ref" for st n
    using assms(2) that by (auto simp: speaks_def)
  have "op_rel (guar P) (scan_claim cn (release_row ref (cn_ts cn (cn_clock cn n))))" for n
    by (rule guar_scan_stmt [OF assms(1), where st = "\<lambda>_. SRelease ref", OF P]) (simp_all add: stmt_exec_def release_row_def)
  then show "op_rel (guar P) (Pg_Release cn ref)"
    unfolding Pg_Release_def using assms(1) by (intro guars) (auto dest: now_value)
  have "op_rel (guar P) (exec_stmt cn (complete_row ref))"
    unfolding exec_stmt_def
    by (rule claim_sessions.guar_run_stmt [OF assms(1), where st = "\<lambda>_. SComplete ref", OF P]) (simp_all add: stmt_exec_def complete_row_def)
  then show "op_rel (guar P) (Pg_Complete cn ref)"
    unfolding Pg_Complete_def using assms(1) by (auto intro!: guars)
  assume res: "resolves cn ext"
  have "op_rel (guar P) (scan_claim cn (extend_row ref (cn_ts cn (cn_clock cn n)) (cn_ts cn (ClaimExpiry (cn_clock cn n) ext))))" for n
    by (rule guar_scan_stmt [OF assms(1), where st = "\<lambda>_. SExtend ref (cn_ts cn (ClaimExpiry (cn_clock cn n) ext) - cn_ts cn (cn_clock cn n))"
        and t = "cn_ts cn (cn_clock cn n)", OF P])
      (use res in \<open>simp_all add: stmt_exec_def extend_row_def resolves_def\<close>)
  then show "op_rel (guar P) (Pg_Heartbeat cn ref ext)"
    unfolding Pg_Heartbeat_def using assms(1) by (auto intro!: guars dest: now_value)
qed

lemma methods_are_statements:
  assumes "rely cn P" and "\<And>t st. speaks cn (call_ref call) (t, st) \<Longrightarrow> P (t, st)" and "resolves cn (call_lease call)"
  shows "op_rel (guar P) (pg_claim_call cn call)"
proof (cases call)
  case (CallCreate tn r)
  have "op_rel (guar P) (mapped_op (mapUniqueViolation ''run_claim_exists'') (run_stmt cn (insert_claim tn r (cn_ts cn (cn_clock cn n)))))" for n
    by (rule claim_sessions.guar_run_stmt [OF assms(1), where st = "\<lambda>_. SInsert tn r" and t = "cn_ts cn (cn_clock cn n)"])
      (use assms(2) [of "cn_ts cn (cn_clock cn n)" "SInsert tn r"] in \<open>auto simp: CallCreate stmt_exec_def insert_claim_def speaks_def\<close>)
  then show ?thesis
    using assms(1) by (auto simp: CallCreate Pg_Create_def intro!: guars dest!: now_value)
next
  case (CallAcquire req rnd)
  have "op_rel (guar P) (Pg_Acquire cn req)"
    unfolding Pg_Acquire_def
  proof (intro guars assms(1))
    fix s s' u s1 s1' now s2 s2' token
    assume "pure_pg (RunClaimLeaseRequest_Validate req) s = (s', Inr u)" "pg_now cn s1 = (s1', Inr now)" "pg_token cn s2 = (s2', Inr token)"
    then obtain n where "now = cn_clock cn n" "length token = ClaimTokenLength" "ValidateClaimOwner (lr_Owner req) = Inr ()"
      by (auto simp: pure_pg_def RunClaimLeaseRequest_Validate_def dest!: now_value token_value)
    then show "op_rel (guar P) (scan_claim cn (acquire_row (lr_TenantID req) (lr_RunID req) (lr_Owner req) token (cn_ts cn now)
                  (cn_ts cn (ClaimExpiry now (lr_LeaseFor req)))))"
      using guar_acquire_row(1) [OF assms(1,2)] assms(3) CallAcquire by simp
  qed
  then show ?thesis by (auto simp: CallAcquire intro: guars)
next
  case (CallAcquireNext req rnd)
  then show ?thesis
    using guar_acquire_next [OF assms(1)] assms(2,3)
    by (auto simp: Pg_AcquireNext_def pure_pg_def RunClaimBatchRequest_Validate_def intro!: guars)
next
  case (CallHeartbeat ref ext)
  then show ?thesis using guar_fenced(3) [OF assms(1)] assms(2,3) by (auto intro: guars)
next
  case (CallRelease ref)
  then show ?thesis using guar_fenced(1) [OF assms(1)] assms(2) by (auto intro: guars)
next
  case (CallComplete ref)
  then show ?thesis using guar_fenced(2) [OF assms(1)] assms(2) by (auto intro: guars)
next
  case (CallCleanupTerminal tn r)
  then show ?thesis using guar_cleanup [OF assms(1)] assms(2) by (auto intro: guars)
qed

subsection \<open>Exclusion\<close>

lemma scan_claim_Inr:
  assumes "scan_claim cn f s = (s', Inr c)" and "pg_tx s = None"
  shows "\<exists>rest. f (cn_locked cn (pg_stmts s)) (cn_others cn (pg_stmts s) (pg_db s)) = (pg_db s', Inr (c # rest))"
proof -
  obtain s1 rows where q: "query_rows cn f s = (s1, Inr rows)" "scanRunClaim rows = Inr c" "s' = s1"
    using assms(1) by (auto simp: scan_claim_def pure_pg_def elim!: seq_op_Inr)
  then obtain rest where "rows = c # rest" by (cases rows) auto
  then show ?thesis
    using q(1) assms(2) unfolding q(3)
    by (auto simp: query_rows_def mapped_op_def run_stmt_def Let_def store_writes_def sees_def split: fate.splits prod.splits sum.splits)
qed

lemma classify_never_Inr: "classifyAcquireMiss cn tn r s \<noteq> (s', Inr c)"
  by (auto simp: classifyAcquireMiss_def split: prod.splits sum.splits)

text \<open>A session that got the claim took a claimable row, and the table holds what it was told.\<close>

lemma Pg_Acquire_ok:
  assumes "Pg_Acquire cn req s = (s', Inr c)" and "pg_tx s = None" and "\<And>n d. pg_claims_ok d \<Longrightarrow> pg_claims_ok (cn_others cn n d)"
    and "pg_claims_ok (pg_db s)"
  obtains c0 token n m where "claim_at (cn_others cn m (pg_db s)) (lr_RunID req) = Some c0" "claimable (cn_ts cn (cn_clock cn n)) c0"
    "c = set_claimed (lr_Owner req) token (cn_ts cn (cn_clock cn n)) (cn_ts cn (ClaimExpiry (cn_clock cn n) (lr_LeaseFor req))) c0"
    "claim_at (pg_db s') (lr_RunID req) = Some c" "claim_TenantID c0 = lr_TenantID req"
proof -
  let ?now = "cn_clock cn (pg_ticks s)" and ?s = "s\<lparr>pg_ticks := pg_ticks s + 1, pg_draws := pg_draws s + 1\<rparr>"
  let ?d = "cn_others cn (pg_stmts s) (pg_db s)"
  obtain token where t: "NewRunClaimToken (cn_rand cn (pg_draws s)) = Inr token"
    using assms(1) by (cases "NewRunClaimToken (cn_rand cn (pg_draws s))") (auto simp: Pg_Acquire_def seq_op_def pure_pg_def pg_now_def pg_token_def split: sum.splits)
  let ?f = "set_claimed (lr_Owner req) token (cn_ts cn ?now) (cn_ts cn (ClaimExpiry ?now (lr_LeaseFor req)))"
  let ?p = "\<lambda>c. addressed (lr_TenantID req) (lr_RunID req) c \<and> claimable (cn_ts cn ?now) c"
  have "on_miss (scan_claim cn (\<lambda>locked. on_claims (sql_update claim_check ?p ?f)))
      (classifyAcquireMiss cn (lr_TenantID req) (lr_RunID req)) ?s = (s', Inr c)"
    using assms(1) t
    by (cases "RunClaimLeaseRequest_Validate req") (simp_all add: Pg_Acquire_def seq_op_def pure_pg_def pg_now_def pg_token_def acquire_row_def [abs_def])
  then have "scan_claim cn (\<lambda>locked. on_claims (sql_update claim_check ?p ?f)) ?s = (s', Inr c)"
    using classify_never_Inr by (auto simp: on_miss_def split: prod.splits sum.splits if_splits)
  then obtain rest where u: "on_claims (sql_update claim_check ?p ?f) ?d = (pg_db s', Inr (c # rest))"
    using scan_claim_Inr [of cn _ ?s s' c] assms(2) by auto
  have rows: "map ?f (filter ?p (tb_claims ?d)) = c # rest" and chk: "list_all claim_check (map ?f (filter ?p (tb_claims ?d)))"
    using u by (auto simp: on_claims_def sql_update_def Let_def split: if_splits)
  obtain c0 where c0: "c0 \<in> set (tb_claims ?d)" "?p c0" "c = ?f c0" using first_selected [OF rows] by blast
  have "distinct (map claim_RunID (tb_claims ?d))" using assms(3,4) by (simp add: pg_claims_ok_def)
  then have at: "claim_at ?d (lr_RunID req) = Some c0"
    using find_key_mem [OF _ c0(1), of claim_RunID] c0(2) by (simp add: claim_at_def addressed_def)
  have "pg_claim_slot (pg_db s') (lr_RunID req) = (Some c, map_option run_Status (run_at ?d (lr_RunID req)))"
    using update_slot(1) [of ?f claim_check ?p ?d "lr_RunID req"] u chk at c0(2,3) by simp
  then have "claim_at (pg_db s') (lr_RunID req) = Some c" by (simp add: pg_claim_slot_def)
  then show ?thesis using that [OF at _ c0(3)] c0(2) by (simp add: addressed_def)
qed

lemma stmts_ok: "stmts P d d' \<Longrightarrow> pg_claims_ok d \<Longrightarrow> pg_claims_ok d'"
  by (auto simp: runs_of_def intro: pg_claims.calls_ok)

lemma rely_ok: "rely cn P \<Longrightarrow> pg_claims_ok d \<Longrightarrow> pg_claims_ok (cn_others cn n d)"
  by (auto simp: env_runs_def intro: stmts_ok)

definition before_without :: "Time \<Rightarrow> RunClaimRef \<Rightarrow> Time \<times> claim_stmt \<Rightarrow> bool" where
  "before_without e ref ts \<longleftrightarrow> fst ts < e \<and> call_ref (stmt_call (snd ts)) \<noteq> Some ref"

lemma holder_row_kept:
  assumes "pg_claims_ok d" and "claim_at d k = Some c" and "run_at d k = Some run" and "\<not> Terminal (run_Status run)"
    and "claim_Status c = ClaimClaimed" and "claim_ExpiresAt c = Some e" and "stmts (before_without e (ref_of c)) d d'"
  shows "claim_at d' k = Some c"
proof -
  obtain calls where calls: "list_all (before_without e (ref_of c)) calls" "d' = run_calls stmt_exec d calls" using assms(7) by (auto simp: runs_of_def)
  have slot: "pg_claim_slot d k = (Some c, Some (run_Status run))" "claim_RunID c = k"
    using assms(2,3) claim_at_Some by (auto simp: pg_claim_slot_def)
  have "pg_claim_slot (run_calls stmt_exec d calls) k = (Some c, Some (run_Status run))"
    by (rule pg_claims.lease_kept [OF assms(1) slot(1) assms(4) slot(2) assms(5,6)])
      (use calls(1) in \<open>auto simp: list_all_iff before_without_def\<close>)
  then show ?thesis by (simp add: calls(2) pg_claim_slot_def)
qed

text \<open>
  C4: The lease is exclusive in PostgreSQL too, between sessions that interleave statement by statement. Let a
  session outside a unit of work be given the claim of a run that is not terminal, with a lease longer than the
  resolution of the deadline column, and let the other sessions run any statements of the claim repository (which
  never write the runs table, so the run stays non-terminal) before the deadline and without the holder's credentials.
  Then the row stays the holder's, and another session whose clock is before the deadline and that tries to acquire
  the run, itself interrupted by such statements, losing its connection or skipping locked rows, is refused and
  changes nothing about the row. (Once a run is terminal its claim may be cleaned up; that case is not covered.)
\<close>

theorem pg_lease_exclusive:
  assumes db: "pg_claims_ok (pg_db s)" "distinct (map run_ID (tb_runs (pg_db s)))" and "pg_tx s = None"
    and env: "rely cn (\<lambda>_. True)" "resolves cn (lr_LeaseFor req)" and acq: "Pg_Acquire cn req s = (s1, Inr c)"
    and run: "run_at (pg_db s) (lr_RunID req) = Some run" "\<not> Terminal (run_Status run)" and "claim_ExpiresAt c = Some e"
    and between: "stmts (before_without e (ref_of c)) (pg_db s1) (pg_db s2)" and "pg_tx s2 = None"
    and env2: "rely cn2 (before_without e (ref_of c))" "\<forall>n. cn_ts cn2 (cn_clock cn2 n) < e" "resolves cn2 (lr_LeaseFor req2)"
    and again: "Pg_Acquire cn2 req2 s2 = (s3, r)" and "lr_RunID req2 = lr_RunID req"
  shows "claim_at (pg_db s2) (lr_RunID req) = Some c \<and> claim_at (pg_db s3) (lr_RunID req) = Some c \<and> (\<exists>err. r = Inl err)"
proof -
  let ?k = "lr_RunID req" and ?B = "before_without e (ref_of c)"
  have "op_rel (guar (\<lambda>_. True)) (pg_claim_call cn (CallAcquire req None))"
    using env by (intro methods_are_statements) auto
  then have g1: "stmts (\<lambda>_. True) (pg_db s) (pg_db s1)"
    using acq db(2) assms(3) by (auto simp: op_rel_def seq_op_def guarantees_def stmts_refl return_op_def dest: spec [of _ s])
  obtain c0 token n m where c: "c = set_claimed (lr_Owner req) token (cn_ts cn (cn_clock cn n)) (cn_ts cn (ClaimExpiry (cn_clock cn n) (lr_LeaseFor req))) c0"
      "claim_at (pg_db s1) ?k = Some c"
    using Pg_Acquire_ok [OF acq assms(3) rely_ok [OF env(1)] db(1)] by metis
  have claimed: "claim_Status c = ClaimClaimed" using c(1) by (simp add: set_claimed_def)
  note ok1 = stmts_ok [OF g1 db(1)] and ok2 = stmts_ok [OF between stmts_ok [OF g1 db(1)]]
  have runs: "tb_runs (pg_db s1) = tb_runs (pg_db s)" "tb_runs (pg_db s2) = tb_runs (pg_db s)"
    using stmts_runs [OF g1] stmts_runs [OF between] by simp_all
  have at2: "claim_at (pg_db s2) ?k = Some c"
    using holder_row_kept [OF ok1 c(2) _ run(2) claimed assms(9) between] run(1) runs by (simp add: run_at_def)
  have keep: "claim_at d' ?k = Some c" if "stmts ?B (pg_db s2) d'" for d'
    using holder_row_kept [OF ok2 at2 _ run(2) claimed assms(9) that] run(1) runs by (simp add: run_at_def)
  have "op_rel (guar ?B) (pg_claim_call cn2 (CallAcquire req2 None))"
    using env2 by (intro methods_are_statements) (auto simp: speaks_def before_without_def)
  then have "stmts ?B (pg_db s2) (pg_db s3)"
    using again db(2) runs assms(11) by (cases r) (auto simp: op_rel_def seq_op_def guarantees_def stmts_refl return_op_def dest: spec [of _ s2])
  then have at3: "claim_at (pg_db s3) ?k = Some c" by (rule keep)
  have "\<exists>err. r = Inl err"
  proof (cases r)
    case (Inr c')
    obtain c1 n' m' where c1: "claim_at (cn_others cn2 m' (pg_db s2)) ?k = Some c1" "claimable (cn_ts cn2 (cn_clock cn2 n')) c1"
      using Pg_Acquire_ok [OF again [unfolded Inr] assms(11) rely_ok [OF env2(1)] ok2] assms(16) by metis
    have "c1 = c" using keep [of "cn_others cn2 m' (pg_db s2)"] c1(1) env2(1) by (simp add: env_runs_def)
    then show ?thesis using c1(2) claimed assms(9) env2(2) by (auto simp: claimable_def lapsed_def not_le [symmetric])
  qed simp
  then show ?thesis using at2 at3 by blast
qed

text \<open>A session on the tables of a small deployment, and one that is overtaken by a third contender.\<close>

definition ex_tables :: pg_db where
  "ex_tables = empty_db\<lparr>tb_runs := [(ex_run ''r1'' ''k1'')\<lparr>run_Seq := 1\<rparr>], tb_claims := [fresh_claim ''t'' ''r1'' 0]\<rparr>"

definition ex_contended :: Conn where
  "ex_contended = ex_conn\<lparr>cn_clock := \<lambda>_. 6, cn_others := \<lambda>_. stmt_exec (SAcquire ''t'' ''r1'' ''C'' zero_token 10) 7\<rparr>"

lemma ex_resolves: "resolves ex_conn 10" "resolves ex_contended 10"
  by (simp_all add: resolves_def ex_conn_def ex_contended_def ClaimExpiry_def)

lemma ex_tables_ok: "pg_claims_ok ex_tables" "run_at ex_tables ''r1'' = Some ((ex_run ''r1'' ''k1'')\<lparr>run_Seq := 1\<rparr>)"
  by (auto simp: pg_claims_ok_def pg_claim_slot_def slot_ok_def claim_ok_def claim_at_def ex_tables_def fresh_claim_def ex_run_def run_at_def)

lemma ex_first_row:
  defines "c \<equiv> set_claimed ''A'' zero_token 5 15 (fresh_claim ''t'' ''r1'' 0)"
  shows "acquire_row ''t'' ''r1'' ''A'' zero_token 5 15 locked ex_tables = (ex_tables\<lparr>tb_claims := [c]\<rparr>, Inr [c])"
proof -
  have "claim_check c" using token_length [OF NewRunClaimToken_zeros] by (auto simp: c_def claim_check_def set_claimed_def fresh_claim_def ClaimTokenLength_def)
  then show ?thesis
    by (simp add: c_def acquire_row_def on_claims_def sql_update_def ex_tables_def addressed_def claimable_def fresh_claim_def Let_def)
qed

lemma ex_first_acquire:
  "\<exists>s1 c. Pg_Acquire ex_conn (ex_lease ''A'') (on_session ex_tables) = (s1, Inr c) \<and> pg_tx s1 = None \<and> claim_ExpiresAt c = Some 15"
proof -
  have "RunClaimLeaseRequest_Validate (ex_lease ''A'') = Inr ()" by (simp add: ex_claim_simps)
  then show ?thesis
    by (simp add: Pg_Acquire_def seq_op_def pure_pg_def on_session_def pg_now_def pg_token_def ex_conn_def ex_lease_def ClaimExpiry_def on_miss_def
        scan_claim_def query_rows_def mapped_op_def run_stmt_def store_writes_def sees_def Let_def ex_first_row set_claimed_def)
qed

theorem pg_lease_exclusive_witness:
  "\<exists>s1 c s3 r. Pg_Acquire ex_conn (ex_lease ''A'') (on_session ex_tables) = (s1, Inr c)
     \<and> Pg_Acquire ex_contended (ex_lease ''B'') s1 = (s3, r)
     \<and> claim_at (pg_db s1) ''r1'' = Some c \<and> claim_at (pg_db s3) ''r1'' = Some c \<and> (\<exists>err. r = Inl err)"
proof -
  obtain s1 c where a: "Pg_Acquire ex_conn (ex_lease ''A'') (on_session ex_tables) = (s1, Inr c)" "pg_tx s1 = None" "claim_ExpiresAt c = Some 15"
    using ex_first_acquire by blast
  obtain s3 r where b: "Pg_Acquire ex_contended (ex_lease ''B'') s1 = (s3, r)" by (rule prod.exhaust)
  have "claim_at (pg_db s1) (lr_RunID (ex_lease ''A'')) = Some c \<and> claim_at (pg_db s3) (lr_RunID (ex_lease ''A'')) = Some c \<and> (\<exists>err. r = Inl err)"
  proof (rule pg_lease_exclusive [where s = "on_session ex_tables", OF _ _ _ _ _ a(1) _ _ a(3) stmts_refl a(2) _ _ _ b])
    show "rely ex_contended (before_without 15 (ref_of c))"
      by (auto simp: env_runs_def ex_contended_def before_without_def intro!: stmts_one)
  qed (use ex_tables_ok ex_resolves in \<open>auto simp: on_session_def ex_lease_def ex_tables_def ex_conn_def ex_contended_def ex_run_def env_runs_def stmts_refl Terminal_def\<close>)
  then show ?thesis using a(1) b by (auto simp: ex_lease_def)
qed

end
