(* ===== verification/PG_Claim_Refine.thy ===== *)
theory PG_Claim_Refine
  imports PG_Claim_Laws
begin

section \<open>The PostgreSQL and the memory claim repositories agree\<close>

text \<open>
  An undisturbed call (nobody else commits, nothing is locked, the connection holds) returns what the memory adapter's
  call returns at the instant the timestamp columns keep of the clock, and leaves tables that say the same.
\<close>

definition same_claims :: "storeState \<Rightarrow> pg_db \<Rightarrow> bool" where
  "same_claims st d \<longleftrightarrow> claims_ok st \<and> distinct (map claim_RunID (tb_claims d)) \<and> distinct (map run_ID (tb_runs d))
     \<and> (\<forall>k. lookup (st_runClaims st) k = claim_at d k) \<and> (\<forall>k. lookup (st_runs st) k = run_at d k)
     \<and> (\<forall>k c run. claim_at d k = Some c \<longrightarrow> run_at d k = Some run \<longrightarrow> claim_TenantID c = run_TenantID run)"

lemma quiet_scan:
  assumes "quiet cn" and "pg_tx s = None" and "f (\<lambda>_. False) (pg_db s) = (d', Inr rows)"
  shows "scan_claim cn f s = (s\<lparr>pg_db := d', pg_stmts := Suc (pg_stmts s)\<rparr>, scanRunClaim rows)"
  using quiet_stmt [OF assms(1,2), of f] assms(3)
  by (cases rows) (simp_all add: scan_claim_def seq_op_def query_rows_def mapped_op_def pure_pg_def)

lemma quiet_rawGet:
  assumes "quiet cn" and "pg_tx s = None" and "distinct (map claim_RunID (tb_claims (pg_db s)))"
  shows "rawGet cn tn k s = (s\<lparr>pg_stmts := Suc (pg_stmts s)\<rparr>,
    case claim_at (pg_db s) k of None \<Rightarrow> Inl (NotFoundf ''run_claim'')
    | Some c \<Rightarrow> if claim_TenantID c = tn then Inr c else Inl (NotFoundf ''run_claim''))"
proof -
  have "filter (addressed tn k) (tb_claims (pg_db s)) = (case claim_at (pg_db s) k of None \<Rightarrow> [] | Some c \<Rightarrow> if addressed tn k c then [c] else [])"
    unfolding claim_at_def using assms(3) by (rule filter_key) (simp add: addressed_def)
  then show ?thesis
    unfolding rawGet_def using claim_at_Some [of "pg_db s" k]
    by (subst quiet_scan [OF assms(1,2)]) (auto simp: addressed_def split: option.splits)
qed

text \<open>A conditional \<open>UPDATE\<close> or \<open>DELETE\<close> of the row of one run.\<close>

lemma update_one:
  assumes "distinct (map claim_RunID (tb_claims d))" and "\<And>c. p c \<Longrightarrow> claim_RunID c = k" and "\<And>c. claim_RunID (f c) = claim_RunID c"
    and "\<And>c. claim_at d k = Some c \<Longrightarrow> p c \<Longrightarrow> check (f c)"
  shows "on_claims (sql_update check p f) d = (d\<lparr>tb_claims := map (\<lambda>c. if p c then f c else c) (tb_claims d)\<rparr>,
    Inr (case claim_at d k of None \<Rightarrow> [] | Some c \<Rightarrow> if p c then [f c] else []))"
proof -
  have "filter p (tb_claims d) = (case claim_at d k of None \<Rightarrow> [] | Some c \<Rightarrow> if p c then [c] else [])"
    unfolding claim_at_def using assms(1,2) by (rule filter_key)
  then show ?thesis using assms(4) by (auto simp: on_claims_def sql_update_def Let_def split: option.splits)
qed

lemma claim_at_updated:
  assumes "\<And>c. claim_RunID (f c) = claim_RunID c"
  shows "claim_at (d\<lparr>tb_claims := map (\<lambda>c. if p c then f c else c) (tb_claims d)\<rparr>) k' = map_option (\<lambda>c. if p c then f c else c) (claim_at d k')"
  by (simp add: claim_at_def find_map_if assms)

lemma same_put:
  assumes "same_claims st d" and "claim_at d k = Some c" and "p c" and "\<And>x. p x \<Longrightarrow> claim_RunID x = k"
    and "\<And>x. claim_RunID (f x) = claim_RunID x" and "\<And>x. claim_TenantID (f x) = claim_TenantID x" and "claims_ok (put_claim k (f c) st)"
  shows "same_claims (put_claim k (f c) st) (d\<lparr>tb_claims := map (\<lambda>c. if p c then f c else c) (tb_claims d)\<rparr>)"
proof -
  let ?d = "d\<lparr>tb_claims := map (\<lambda>c. if p c then f c else c) (tb_claims d)\<rparr>"
  have at: "claim_at ?d k' = (if k' = k then Some (f c) else claim_at d k')" for k'
  proof (cases "claim_at d k'")
    case None
    then show ?thesis using assms(2) by (auto simp: claim_at_updated [OF assms(5)])
  next
    case (Some c')
    have "k' = k" if "p c'" using assms(4) [OF that] claim_at_Some [OF Some] by simp
    moreover have "c' = c" if "k' = k" using that Some assms(2) by simp
    ultimately show ?thesis using Some assms(3) by (auto simp: claim_at_updated [OF assms(5)])
  qed
  have ids: "map claim_RunID (tb_claims ?d) = map claim_RunID (tb_claims d)" by (simp add: assms(5))
  have runs: "run_at ?d = run_at d" by (simp add: run_at_def fun_eq_iff)
  have tn: "claim_TenantID c' = run_TenantID run" if "claim_at ?d k' = Some c'" "run_at d k' = Some run" for k' c' run
  proof (cases "k' = k")
    case True
    then show ?thesis using that assms(1,2,6) by (auto simp: at same_claims_def)
  next
    case False
    then show ?thesis using that assms(1) by (auto simp: at same_claims_def)
  qed
  have S: "distinct (map claim_RunID (tb_claims d))" "distinct (map run_ID (tb_runs d))" "lookup (st_runClaims st) k' = claim_at d k'"
    "lookup (st_runs st) k' = run_at d k'" for k' using assms(1) by (auto simp: same_claims_def)
  show ?thesis
    unfolding same_claims_def
  proof (intro conjI allI impI)
    show "lookup (st_runClaims (put_claim k (f c) st)) k' = claim_at ?d k'" for k' by (simp add: at S(3))
    show "claim_TenantID c' = run_TenantID run" if "claim_at ?d k' = Some c'" "run_at ?d k' = Some run" for k' c' run
      using tn that runs by simp
    show "distinct (map claim_RunID (tb_claims ?d))" unfolding ids by (rule S(1))
  qed (use assms(7) S runs in simp_all)
qed

lemma same_kept:
  assumes "same_claims st d" and "\<And>c. claim_at d k = Some c \<Longrightarrow> \<not> p c" and "\<And>x. p x \<Longrightarrow> claim_RunID x = k"
  shows "d\<lparr>tb_claims := map (\<lambda>c. if p c then f c else c) (tb_claims d)\<rparr> = d"
proof -
  have "\<not> p c" if "c \<in> set (tb_claims d)" for c
    using assms that find_key_mem [of claim_RunID "tb_claims d" c] by (auto simp: same_claims_def claim_at_def)
  then have "map (\<lambda>c. if p c then f c else c) (tb_claims d) = tb_claims d" by (intro map_idI) auto
  then show ?thesis by simp
qed

lemma delete_one:
  assumes "same_claims st d" and "\<And>c. p c \<Longrightarrow> claim_RunID c = k"
  shows "on_claims (sql_delete p) d = (d\<lparr>tb_claims := filter (\<lambda>c. \<not> p c) (tb_claims d)\<rparr>,
      Inr (case claim_at d k of None \<Rightarrow> 0 | Some c \<Rightarrow> if p c then 1 else 0))"
    and "claim_at d k = Some c \<Longrightarrow> p c \<Longrightarrow> claims_ok (drop_claim k st) \<Longrightarrow>
      same_claims (drop_claim k st) (d\<lparr>tb_claims := filter (\<lambda>c. \<not> p c) (tb_claims d)\<rparr>)"
    and "(\<And>c. claim_at d k = Some c \<Longrightarrow> \<not> p c) \<Longrightarrow> d\<lparr>tb_claims := filter (\<lambda>c. \<not> p c) (tb_claims d)\<rparr> = d"
proof -
  have D: "distinct (map claim_RunID (tb_claims d))" using assms(1) by (simp add: same_claims_def)
  have sel: "filter p (tb_claims d) = (case claim_at d k of None \<Rightarrow> [] | Some c \<Rightarrow> if p c then [c] else [])"
    unfolding claim_at_def using D assms(2) by (rule filter_key)
  then show "on_claims (sql_delete p) d = (d\<lparr>tb_claims := filter (\<lambda>c. \<not> p c) (tb_claims d)\<rparr>,
      Inr (case claim_at d k of None \<Rightarrow> 0 | Some c \<Rightarrow> if p c then 1 else 0))"
    by (auto simp: on_claims_def sql_delete_def split: option.splits)
  show "d\<lparr>tb_claims := filter (\<lambda>c. \<not> p c) (tb_claims d)\<rparr> = d" if "\<And>c. claim_at d k = Some c \<Longrightarrow> \<not> p c"
  proof -
    have "filter p (tb_claims d) = []" using sel that by (auto split: option.splits)
    then have "filter (\<lambda>c. \<not> p c) (tb_claims d) = tb_claims d" by (auto simp: filter_empty_conv filter_id_conv)
    then show ?thesis by simp
  qed
  assume c: "claim_at d k = Some c" "p c" and ok: "claims_ok (drop_claim k st)"
  let ?d = "d\<lparr>tb_claims := filter (\<lambda>c. \<not> p c) (tb_claims d)\<rparr>"
  have at: "claim_at ?d k' = (if k' = k then None else claim_at d k')" for k'
  proof (cases "claim_at d k'")
    case (Some c')
    have "k' = k" if "p c'" using assms(2) [OF that] claim_at_Some [OF Some] by simp
    moreover have "c' = c" if "k' = k" using that Some c(1) by simp
    ultimately show ?thesis using Some c(2) D by (auto simp: claim_at_def find_key_filter)
  qed (use c(1) D in \<open>auto simp: claim_at_def find_key_filter\<close>)
  have runs: "run_at ?d = run_at d" by (simp add: run_at_def fun_eq_iff)
  have S: "distinct (map run_ID (tb_runs d))" "lookup (st_runClaims st) k' = claim_at d k'" "lookup (st_runs st) k' = run_at d k'"
    "claim_at d k' = Some c' \<Longrightarrow> run_at d k' = Some run \<Longrightarrow> claim_TenantID c' = run_TenantID run" for k' c' run
    using assms(1) by (auto simp: same_claims_def)
  show "same_claims (drop_claim k st) ?d"
    unfolding same_claims_def
  proof (intro conjI allI impI)
    show "distinct (map claim_RunID (tb_claims ?d))" using D by (simp add: distinct_map_filter)
    show "lookup (st_runClaims (drop_claim k st)) k' = claim_at ?d k'" for k' by (simp add: at S(2))
    show "claim_TenantID c' = run_TenantID run" if "claim_at ?d k' = Some c'" "run_at ?d k' = Some run" for k' c' run
      using that S(4) runs by (auto simp: at split: if_splits)
  qed (use ok S runs in simp_all)
qed

subsection \<open>Calls\<close>

fun mem_claim_call :: "claim_sort \<Rightarrow> claim_call \<Rightarrow> Time \<Rightarrow> storeState \<Rightarrow> storeState \<times> RunClaim list result" where
  "mem_claim_call srt (CallCreate tn r) now = seq_op (RunClaimRepository_Create tn r now) (\<lambda>_. return_op [])"
| "mem_claim_call srt (CallAcquire req rnd) now = seq_op (RunClaimRepository_Acquire req rnd now) (\<lambda>c. return_op [c])"
| "mem_claim_call srt (CallAcquireNext req rnd) now = RunClaimRepository_AcquireNext srt req rnd now"
| "mem_claim_call srt (CallHeartbeat ref ext) now = seq_op (RunClaimRepository_Heartbeat ref ext now) (\<lambda>c. return_op [c])"
| "mem_claim_call srt (CallRelease ref) now = seq_op (RunClaimRepository_Release ref now) (\<lambda>c. return_op [c])"
| "mem_claim_call srt (CallComplete ref) now = seq_op (RunClaimRepository_Complete ref) (\<lambda>_. return_op [])"
| "mem_claim_call srt (CallCleanupTerminal tn r) now = seq_op (RunClaimRepository_CleanupTerminal tn r) (\<lambda>_. return_op [])"

text \<open>What both adapters' calls have to do with each other.\<close>

definition agree :: "storeState \<times> 'a result \<Rightarrow> pg \<times> 'a result \<Rightarrow> bool" where
  "agree m p \<longleftrightarrow> snd m = snd p \<and> same_claims (fst m) (pg_db (fst p)) \<and> pg_tx (fst p) = None"

lemma agree_seq:
  assumes "agree (m st) (p s)" and "\<And>x st' s'. agree (st', Inr x) (s', Inr x) \<Longrightarrow> agree (f x st') (g x s')"
  shows "agree (seq_op m f st) (seq_op p g s)"
  using assms by (cases "m st"; cases "p s") (auto simp: agree_def seq_op_def split: sum.splits)

lemma agree_error: "same_claims st (pg_db s) \<Longrightarrow> pg_tx s = None \<Longrightarrow> agree (st, Inl e) (s, Inl e)"
  by (simp add: agree_def)

lemma claim_ok_check:
  assumes "claim_ok k c"
  shows "ValidateClaimOwner owner = Inr () \<Longrightarrow> length token = ClaimTokenLength \<Longrightarrow> claim_check (set_claimed owner token now e c)"
    and "claim_Status c = ClaimClaimed \<Longrightarrow> claim_check (c\<lparr>claim_HeartbeatAt := Some now, claim_ExpiresAt := Some e, claim_UpdatedAt := now\<rparr>)"
    and "claim_check (c\<lparr>claim_Status := ClaimRunnable, claim_Owner := [], claim_Token := [], claim_ExpiresAt := None, claim_UpdatedAt := now\<rparr>)"
  using assms
  by (auto simp: claim_ok_def claim_check_def set_claimed_def ValidateFencing_iff ValidateClaimOwner_def ClaimTokenLength_def split: if_splits)

lemma quiet_now: "pg_now cn s = (s\<lparr>pg_ticks := Suc (pg_ticks s)\<rparr>, Inr (cn_clock cn (pg_ticks s)))"
  by (simp add: pg_now_def)

lemma same_at:
  assumes "same_claims st d"
  shows "distinct (map claim_RunID (tb_claims d))" "lookup (st_runClaims st) k = claim_at d k" "lookup (st_runs st) k = run_at d k"
    "claim_at d k = Some c \<Longrightarrow> claim_ok k c" "claims_ok st"
  using assms claims_okD(1) [of st k c] by (auto simp: same_claims_def)

lemma same_cong:
  assumes "same_claims st d" and "claims_ok st'" and "\<And>k. lookup (st_runClaims st') k = lookup (st_runClaims st) k" and "st_runs st' = st_runs st"
  shows "same_claims st' d"
  using assms unfolding same_claims_def by simp

text \<open>A conditional update through \<open>scan_claim\<close>, when its row matches and when it does not.\<close>

lemma quiet_update:
  assumes q: "quiet cn" "pg_tx s = None" and same: "same_claims st (pg_db s)" and p: "\<And>c. p c \<Longrightarrow> claim_RunID c = k"
    and f: "\<And>c. claim_RunID (f c) = claim_RunID c" "\<And>c. claim_TenantID (f c) = claim_TenantID c"
    and chk: "\<And>c. claim_at (pg_db s) k = Some c \<Longrightarrow> p c \<Longrightarrow> claim_check (f c)"
    and F: "F (\<lambda>_. False) (pg_db s) = on_claims (sql_update claim_check p f) (pg_db s)"
  shows "claim_at (pg_db s) k = Some c \<Longrightarrow> p c \<Longrightarrow> claims_ok (put_claim k (f c) st) \<Longrightarrow>
      agree (put_claim k (f c) st, Inr (f c)) (on_miss (scan_claim cn F) miss s)"
    and "(\<And>c. claim_at (pg_db s) k = Some c \<Longrightarrow> \<not> p c) \<Longrightarrow>
      on_miss (scan_claim cn F) miss s = miss (s\<lparr>pg_stmts := Suc (pg_stmts s)\<rparr>)"
proof -
  let ?d = "(pg_db s)\<lparr>tb_claims := map (\<lambda>c. if p c then f c else c) (tb_claims (pg_db s))\<rparr>"
  have u: "F (\<lambda>_. False) (pg_db s) = (?d, Inr (case claim_at (pg_db s) k of None \<Rightarrow> [] | Some c \<Rightarrow> if p c then [f c] else []))"
    unfolding F by (rule update_one [OF same_at(1) [OF same]], erule p, rule f(1), erule (1) chk)
  note scan = quiet_scan [where f = F, OF q u]
  show "agree (put_claim k (f c) st, Inr (f c)) (on_miss (scan_claim cn F) miss s)"
    if c: "claim_at (pg_db s) k = Some c" "p c" and ok: "claims_ok (put_claim k (f c) st)"
  proof -
    have "same_claims (put_claim k (f c) st) ?d" using same c p f ok by (rule same_put)
    then show ?thesis using scan c q(2) by (simp add: on_miss_def agree_def)
  qed
  assume n: "\<And>c. claim_at (pg_db s) k = Some c \<Longrightarrow> \<not> p c"
  have "?d = pg_db s" using same n p by (rule same_kept)
  then have "scan_claim cn F s = (s\<lparr>pg_stmts := Suc (pg_stmts s)\<rparr>, Inl (NotFoundf ''run_claim''))"
    using scan n by (cases "claim_at (pg_db s) k") auto
  then show "on_miss (scan_claim cn F) miss s = miss (s\<lparr>pg_stmts := Suc (pg_stmts s)\<rparr>)"
    by (simp add: on_miss_def NotFoundf_def)
qed

lemma agree_Acquire:
  assumes q: "quiet cn" "pg_tx s = None" and same: "same_claims st (pg_db s)" and "cn_ts cn (cn_clock cn (pg_ticks s)) = now"
    and "cn_rand cn (pg_draws s) = rnd" and tok: "NewRunClaimToken rnd = Inr token" and "whole cn (lr_LeaseFor req)"
  shows "agree (RunClaimRepository_Acquire req rnd now st) (Pg_Acquire cn req s)"
proof (cases "RunClaimLeaseRequest_Validate req")
  case (Inl e)
  then show ?thesis using same q(2) by (simp add: RunClaimRepository_Acquire_def Pg_Acquire_def seq_op_def pure_pg_def agree_def)
next
  case (Inr u)
  then have v: "ValidateClaimOwner (lr_Owner req) = Inr ()" "0 < lr_LeaseFor req" using validated_lease [of req] by auto
  let ?k = "lr_RunID req" and ?s = "s\<lparr>pg_ticks := Suc (pg_ticks s), pg_draws := Suc (pg_draws s)\<rparr>"
  let ?p = "\<lambda>c. addressed (lr_TenantID req) ?k c \<and> claimable now c" and ?f = "set_claimed (lr_Owner req) token now (now + lr_LeaseFor req)"
  let ?F = "acquire_row (lr_TenantID req) ?k (lr_Owner req) token now (now + lr_LeaseFor req)"
  have pg: "Pg_Acquire cn req s = on_miss (scan_claim cn ?F) (classifyAcquireMiss cn (lr_TenantID req) ?k) ?s"
    using Inr assms v(2) by (simp add: Pg_Acquire_def seq_op_def pure_pg_def pg_now_def pg_token_def whole_expiry)
  have chk: "claim_check (?f c)" if "claim_at (pg_db ?s) ?k = Some c" for c
    using claim_ok_check(1) [OF same_at(4) [OF same]] that v(1) token_length [OF tok] by simp
  have F: "?F (\<lambda>_. False) (pg_db ?s) = on_claims (sql_update claim_check ?p ?f) (pg_db ?s)" by (simp add: acquire_row_def)
  note U = quiet_update [of cn ?s st ?p ?k ?f ?F, OF q(1) _ _ _ _ _ chk F]
  show ?thesis
  proof (cases "\<exists>c. claim_at (pg_db s) ?k = Some c \<and> ?p c")
    case True
    then obtain c where c: "claim_at (pg_db s) ?k = Some c" "?p c" by blast
    have m: "RunClaimRepository_Acquire req rnd now st = (put_claim ?k (?f c) st, Inr (?f c))"
      using c Inr tok v(2) same_at(2) [OF same] by (simp add: RunClaimRepository_Acquire_def scoped_def addressed_def claimable_eligible set_claimed_eq Let_def)
    have "claims_ok (put_claim ?k (?f c) st)"
      using claims_ok_exec [OF isort.sort_slice_axioms same_at(5) [OF same], of "CallAcquire req rnd" now] m by simp
    then show ?thesis unfolding pg m using U(1) c q(2) same by (simp add: addressed_def set_claimed_def)
  next
    case False
    then have "Pg_Acquire cn req s = classifyAcquireMiss cn (lr_TenantID req) ?k (?s\<lparr>pg_stmts := Suc (pg_stmts s)\<rparr>)"
      unfolding pg using U(2) q(2) same by (simp add: addressed_def set_claimed_def)
    then show ?thesis
      using False Inr q same same_at(1,2) [OF same]
      by (auto simp: classifyAcquireMiss_def quiet_rawGet [OF q(1)] RunClaimRepository_Acquire_def scoped_def agree_def addressed_def claimable_eligible
          notFound_def NotFoundf_def dest: claim_at_Some split: option.splits)
  qed
qed

lemma fenced_at:
  assumes "same_claims st d"
  shows "fenced ref st = (case claim_at d (ref_RunID ref) of None \<Rightarrow> Inl (NotFoundf ''run_claim'')
    | Some c \<Rightarrow> if claim_TenantID c \<noteq> ref_TenantID ref then Inl (NotFoundf ''run_claim'')
        else if Matches c (ref_Owner ref) (ref_Token ref) (ref_Generation ref) then Inr c else Inl (Conflictf ''run_claim_stale_fencing''))"
  using same_at(2) [OF assms] by (auto simp: fenced_def scoped_def notFound_def split: option.splits)

lemma fenced_holder:
  assumes "same_claims st d"
  shows "fenced ref st = Inr c \<longleftrightarrow> claim_at d (ref_RunID ref) = Some c \<and> holder ref c"
  using fenced_iff [of ref st c] same_at(2) [OF assms] by (auto simp: holder_presents dest: claim_at_Some)

lemma quiet_fence_miss:
  assumes "quiet cn" "pg_tx s = None" and "same_claims st (pg_db s)"
  shows "classifyFenceMiss cn ref code s =
    (s\<lparr>pg_stmts := Suc (pg_stmts s)\<rparr>, Inl (case fenced ref st of Inl e \<Rightarrow> e | Inr _ \<Rightarrow> Conflictf code))"
  using assms same_at(1) [OF assms(3)]
  by (auto simp: classifyFenceMiss_def quiet_rawGet fenced_at [OF assms(3)] NotFoundf_def split: option.splits)

lemma agree_Heartbeat:
  assumes q: "quiet cn" "pg_tx s = None" and same: "same_claims st (pg_db s)" and "cn_ts cn (cn_clock cn (pg_ticks s)) = now" and "whole cn ext"
  shows "agree (RunClaimRepository_Heartbeat ref ext now st) (Pg_Heartbeat cn ref ext s)"
proof (cases "RunClaimRef_Validate ref = Inr () \<and> 0 < ext")
  case False
  then show ?thesis
    using same q(2) by (cases "RunClaimRef_Validate ref") (auto simp: RunClaimRepository_Heartbeat_def Pg_Heartbeat_def seq_op_def pure_pg_def throw_op_def agree_def)
next
  case True
  let ?k = "ref_RunID ref" and ?s = "s\<lparr>pg_ticks := Suc (pg_ticks s)\<rparr>"
  let ?p = "\<lambda>c. holder ref c \<and> (case claim_ExpiresAt c of None \<Rightarrow> False | Some e \<Rightarrow> e > now)"
  let ?f = "\<lambda>c. c\<lparr>claim_HeartbeatAt := Some now, claim_ExpiresAt := Some (now + ext), claim_UpdatedAt := now\<rparr>"
  let ?F = "extend_row ref now (now + ext)"
  have pg: "Pg_Heartbeat cn ref ext s = on_miss (scan_claim cn ?F) (classifyFenceMiss cn ref ''run_claim_lease_expired'') ?s"
    using True assms by (simp add: Pg_Heartbeat_def seq_op_def pure_pg_def pg_now_def whole_expiry)
  have chk: "claim_check (?f c)" if "claim_at (pg_db ?s) ?k = Some c" "?p c" for c
    using claim_ok_check(2) [OF same_at(4) [OF same]] that by (simp add: holder_def)
  have F: "?F (\<lambda>_. False) (pg_db ?s) = on_claims (sql_update claim_check ?p ?f) (pg_db ?s)" by (simp add: extend_row_def)
  note U = quiet_update [of cn ?s st ?p ?k ?f ?F, OF q(1) _ _ _ _ _ chk F]
  show ?thesis
  proof (cases "\<exists>c. claim_at (pg_db s) ?k = Some c \<and> ?p c")
    case sel: True
    then obtain c where c: "claim_at (pg_db s) ?k = Some c" "?p c" by blast
    then have "fenced ref st = Inr c" using fenced_holder [OF same] by blast
    moreover have "\<not> ClaimExpired (claim_ExpiresAt c) now" using c(2) by (auto simp: ClaimExpired_def split: option.splits)
    moreover have e: "?f c = extendClaim c now ext" using True by (simp add: extendClaim_eq)
    ultimately have m: "RunClaimRepository_Heartbeat ref ext now st = (put_claim ?k (?f c) st, Inr (?f c))"
      unfolding e using True by (simp add: RunClaimRepository_Heartbeat_def Let_def)
    have "claims_ok (put_claim ?k (?f c) st)"
      using claims_ok_exec [OF isort.sort_slice_axioms same_at(5) [OF same], of "CallHeartbeat ref ext" now] m by simp
    then show ?thesis unfolding pg m using U(1) c q(2) same by (simp add: holder_def addressed_def)
  next
    case none: False
    then have off: "\<not> ?p c" if "claim_at (pg_db ?s) ?k = Some c" for c using that by auto
    have tx: "pg_tx ?s = None" "same_claims st (pg_db ?s)" and k: "?p c \<Longrightarrow> claim_RunID c = ?k" for c using q(2) same by (simp_all add: holder_def addressed_def)
    have "on_miss (scan_claim cn ?F) (classifyFenceMiss cn ref ''run_claim_lease_expired'') ?s
        = classifyFenceMiss cn ref ''run_claim_lease_expired'' (?s\<lparr>pg_stmts := Suc (pg_stmts ?s)\<rparr>)"
      by (rule U(2) [OF tx]) (assumption | erule k | (rule off, assumption) | simp)+
    then have "Pg_Heartbeat cn ref ext s = classifyFenceMiss cn ref ''run_claim_lease_expired'' (?s\<lparr>pg_stmts := Suc (pg_stmts s)\<rparr>)"
      unfolding pg by simp
    then have p: "agree (st, Inl (case fenced ref st of Inl e \<Rightarrow> e | Inr _ \<Rightarrow> Conflictf ''run_claim_lease_expired'')) (Pg_Heartbeat cn ref ext s)"
      using q(2) same by (simp add: agree_def quiet_fence_miss [OF q(1), of "?s\<lparr>pg_stmts := Suc (pg_stmts s)\<rparr>" st ref])
    have "ClaimExpired (claim_ExpiresAt c) now" if f: "fenced ref st = Inr c" for c
    proof -
      have c: "claim_at (pg_db s) ?k = Some c" "holder ref c" using f fenced_holder [OF same] by auto
      then have "claim_ExpiresAt c \<noteq> None" using same_at(4) [OF same c(1)] by (auto simp: claim_ok_def holder_def)
      then show ?thesis using none c by (auto simp: ClaimExpired_def split: option.splits)
    qed
    then have "RunClaimRepository_Heartbeat ref ext now st = (st, Inl (case fenced ref st of Inl e \<Rightarrow> e | Inr _ \<Rightarrow> Conflictf ''run_claim_lease_expired''))"
      using True by (auto simp: RunClaimRepository_Heartbeat_def split: sum.splits)
    then show ?thesis using p by simp
  qed
qed

lemma agree_Release:
  assumes q: "quiet cn" "pg_tx s = None" and same: "same_claims st (pg_db s)" and "cn_ts cn (cn_clock cn (pg_ticks s)) = now"
  shows "agree (RunClaimRepository_Release ref now st) (Pg_Release cn ref s)"
proof (cases "RunClaimRef_Validate ref")
  case (Inl e)
  then show ?thesis using same q(2) by (simp add: RunClaimRepository_Release_def Pg_Release_def seq_op_def pure_pg_def agree_def)
next
  case (Inr u)
  let ?k = "ref_RunID ref" and ?s = "s\<lparr>pg_ticks := Suc (pg_ticks s)\<rparr>" and ?p = "holder ref"
  let ?f = "\<lambda>c. c\<lparr>claim_Status := ClaimRunnable, claim_Owner := [], claim_Token := [], claim_ExpiresAt := None, claim_UpdatedAt := now\<rparr>"
  have pg: "Pg_Release cn ref s = on_miss (scan_claim cn (release_row ref now)) (classifyFenceMiss cn ref ''run_claim_stale_fencing'') ?s"
    using Inr assms by (simp add: Pg_Release_def seq_op_def pure_pg_def pg_now_def quiet_def)
  have chk: "claim_check (?f c)" if "claim_at (pg_db ?s) ?k = Some c" "?p c" for c
    using claim_ok_check(3) [OF same_at(4) [OF same]] that by simp
  have F: "release_row ref now (\<lambda>_. False) (pg_db ?s) = on_claims (sql_update claim_check ?p ?f) (pg_db ?s)" by (simp add: release_row_def)
  note U = quiet_update [of cn ?s st ?p ?k ?f "release_row ref now", OF q(1) _ _ _ _ _ chk F]
  show ?thesis
  proof (cases "fenced ref st")
    case f: (Inr c)
    then have c: "claim_at (pg_db s) ?k = Some c" "?p c" using fenced_holder [OF same] by auto
    have m: "RunClaimRepository_Release ref now st = (put_claim ?k (?f c) st, Inr (?f c))"
      using f Inr by (simp add: RunClaimRepository_Release_def releaseClaim_def Let_def)
    have "claims_ok (put_claim ?k (?f c) st)"
      using claims_ok_exec [OF isort.sort_slice_axioms same_at(5) [OF same], of "CallRelease ref" now] m by simp
    then show ?thesis unfolding pg m using U(1) c q(2) same by (simp add: holder_def addressed_def)
  next
    case f: (Inl e)
    then have "Pg_Release cn ref s = classifyFenceMiss cn ref ''run_claim_stale_fencing'' (?s\<lparr>pg_stmts := Suc (pg_stmts s)\<rparr>)"
      unfolding pg using U(2) q(2) same fenced_holder [OF same, of ref] by (auto simp: holder_def addressed_def)
    then show ?thesis
      using f Inr q(2) same
      by (simp add: agree_def RunClaimRepository_Release_def quiet_fence_miss [OF q(1), of "?s\<lparr>pg_stmts := Suc (pg_stmts s)\<rparr>" st ref])
  qed
qed

lemma agree_Complete:
  assumes q: "quiet cn" "pg_tx s = None" and same: "same_claims st (pg_db s)"
  shows "agree (RunClaimRepository_Complete ref st) (Pg_Complete cn ref s)"
proof (cases "RunClaimRef_Validate ref")
  case (Inl e)
  then show ?thesis using same q(2) by (simp add: RunClaimRepository_Complete_def Pg_Complete_def seq_op_def pure_pg_def agree_def)
next
  case (Inr u)
  have h: "holder ref c \<Longrightarrow> claim_RunID c = ref_RunID ref" for c by (simp add: holder_def addressed_def)
  note D = delete_one [where p = "holder ref" and k = "ref_RunID ref", OF same]
  have x: "exec_stmt cn (complete_row ref) s = (s\<lparr>pg_db := (pg_db s)\<lparr>tb_claims := filter (\<lambda>c. \<not> holder ref c) (tb_claims (pg_db s))\<rparr>, pg_stmts := Suc (pg_stmts s)\<rparr>,
      Inr (case claim_at (pg_db s) (ref_RunID ref) of None \<Rightarrow> 0 | Some c \<Rightarrow> if holder ref c then 1 else 0))"
    by (rule quiet_exec [OF q]) (simp add: complete_row_def D(1) h)
  show ?thesis
  proof (cases "fenced ref st")
    case f: (Inr c)
    then have c: "claim_at (pg_db s) (ref_RunID ref) = Some c" "holder ref c" using fenced_holder [OF same] by auto
    have m: "RunClaimRepository_Complete ref st = (drop_claim (ref_RunID ref) st, Inr ())" using f Inr by (simp add: RunClaimRepository_Complete_def)
    have "claims_ok (drop_claim (ref_RunID ref) st)"
      using claims_ok_exec [OF isort.sort_slice_axioms same_at(5) [OF same], of "CallComplete ref" 0] m by simp
    then show ?thesis
      unfolding m using D(2) [OF _ c] h Inr c q(2) x by (simp add: Pg_Complete_def seq_op_def pure_pg_def return_op_def agree_def)
  next
    case f: (Inl e)
    then have n: "\<not> holder ref c" if "claim_at (pg_db s) (ref_RunID ref) = Some c" for c using that fenced_holder [OF same, of ref c] by auto
    have "exec_stmt cn (complete_row ref) s = (s\<lparr>pg_stmts := Suc (pg_stmts s)\<rparr>, Inr 0)"
      using x D(3) [OF _ n] h n by (auto split: option.splits)
    then show ?thesis
      using f Inr q(2) same
      by (simp add: Pg_Complete_def RunClaimRepository_Complete_def seq_op_def pure_pg_def agree_def
          quiet_fence_miss [OF q(1), of "s\<lparr>pg_stmts := Suc (pg_stmts s)\<rparr>" st ref])
  qed
qed

lemma agree_Create:
  assumes q: "quiet cn" "pg_tx s = None" and same: "same_claims st (pg_db s)" and "cn_ts cn (cn_clock cn (pg_ticks s)) = now"
  shows "agree (RunClaimRepository_Create tn r now st) (Pg_Create cn tn r s)"
proof -
  let ?d = "pg_db s" and ?s = "s\<lparr>pg_stmts := Suc (pg_stmts s), pg_ticks := Suc (pg_ticks s)\<rparr>"
  have D: "distinct (map run_ID (tb_runs ?d))" using same by (simp add: same_claims_def)
  have ex: "list_ex (\<lambda>x. run_ID x = r \<and> run_TenantID x = tn) (tb_runs ?d) \<longleftrightarrow> (\<exists>run. run_at ?d r = Some run \<and> run_TenantID run = tn)"
    using find_key_mem [OF D] find_key_Some [of run_ID r "tb_runs ?d"] by (auto simp: list_ex_iff run_at_def)
  show ?thesis
  proof (cases "\<exists>run. run_at ?d r = Some run \<and> run_TenantID run = tn")
    case False
    then show ?thesis
      using same_at(3) [OF same, of r] same q
      by (auto simp: Pg_Create_def RunClaimRepository_Create_def seq_op_def quiet_query ex scoped_def throw_op_def agree_def split: option.splits)
  next
    case True
    then obtain run where run: "run_at ?d r = Some run" "run_TenantID run = tn" by blast
    have pg: "Pg_Create cn tn r s = seq_op (mapped_op (mapUniqueViolation ''run_claim_exists'') (run_stmt cn (insert_claim tn r now))) (\<lambda>_. return_op ()) ?s"
      using True q assms(4) by (simp add: Pg_Create_def seq_op_def quiet_query ex pg_now_def quiet_def)
    show ?thesis
    proof (cases "claim_at ?d r")
      case (Some c)
      then have "list_ex (\<lambda>c. claim_RunID c = r) (tb_claims ?d)" by (simp add: list_ex_find claim_at_def)
      then show ?thesis
        unfolding pg using same_at(2,3) [OF same, of r] run Some same q
        by (simp add: seq_op_def mapped_op_def quiet_stmt insert_claim_def RunClaimRepository_Create_def scoped_def agree_def)
    next
      case None
      let ?d' = "?d\<lparr>tb_claims := tb_claims ?d @ [fresh_claim tn r now]\<rparr>" and ?st = "put_claim r (fresh_claim tn r now) st"
      have "\<not> list_ex (\<lambda>c. claim_RunID c = r) (tb_claims ?d)" "list_ex (\<lambda>x. run_ID x = r) (tb_runs ?d)"
        using None run by (simp_all add: list_ex_find claim_at_def run_at_def)
      then have i: "insert_claim tn r now (\<lambda>_. False) ?d = (?d', Inr [])" by (simp add: insert_claim_def)
      have m: "RunClaimRepository_Create tn r now st = (?st, Inr ())"
        using same_at(2,3) [OF same, of r] run None by (simp add: RunClaimRepository_Create_def scoped_def)
      have ok: "claims_ok ?st" using claims_ok_exec [OF isort.sort_slice_axioms same_at(5) [OF same], of "CallCreate tn r" now] m by simp
      have at: "claim_at ?d' k = (if k = r then Some (fresh_claim tn r now) else claim_at ?d k)" for k
        using None by (auto simp: claim_at_def find_snoc fresh_claim_def split: option.splits)
      have runs: "run_at ?d' = run_at ?d" by (simp add: run_at_def fun_eq_iff)
      have S: "lookup (st_runClaims st) k = claim_at ?d k" "lookup (st_runs st) k = run_at ?d k"
        "claim_at ?d k = Some c \<Longrightarrow> run_at ?d k = Some x \<Longrightarrow> claim_TenantID c = run_TenantID x" for k c x using same by (auto simp: same_claims_def)
      have "same_claims ?st ?d'"
        unfolding same_claims_def
      proof (intro conjI allI impI)
        show "distinct (map claim_RunID (tb_claims ?d'))"
          using same_at(1) [OF same] None by (auto simp: claim_at_def find_None_iff fresh_claim_def)
        show "lookup (st_runClaims ?st) k = claim_at ?d' k" for k by (simp add: at S(1))
        show "claim_TenantID c = run_TenantID x" if "claim_at ?d' k = Some c" "run_at ?d' k = Some x" for k c x
        proof (cases "k = r")
          case True
          then show ?thesis using that runs run by (simp add: at) (auto simp: fresh_claim_def)
        next
          case False
          then show ?thesis using that runs S(3) by (simp add: at)
        qed
      qed (use ok D S(2) runs in simp_all)
      then show ?thesis
        unfolding pg m using q by (simp add: seq_op_def mapped_op_def quiet_stmt i return_op_def agree_def)
    qed
  qed
qed

lemma agree_CleanupTerminal:
  assumes q: "quiet cn" "pg_tx s = None" and same: "same_claims st (pg_db s)"
  shows "agree (RunClaimRepository_CleanupTerminal tn r st) (Pg_CleanupTerminal cn tn r s)"
proof -
  let ?d = "pg_db s" and ?p = "\<lambda>x. run_ID x = r \<and> run_TenantID x = tn" and ?s = "s\<lparr>pg_stmts := Suc (pg_stmts s)\<rparr>"
  have D: "distinct (map run_ID (tb_runs ?d))" using same by (simp add: same_claims_def)
  have rows: "filter ?p (tb_runs ?d) = (case run_at ?d r of None \<Rightarrow> [] | Some x \<Rightarrow> if ?p x then [x] else [])"
    unfolding run_at_def using D by (rule filter_key) simp
  show ?thesis
  proof (cases "\<exists>run. run_at ?d r = Some run \<and> run_TenantID run = tn \<and> Terminal (run_Status run)")
    case False
    have m: "RunClaimRepository_CleanupTerminal tn r st = (st, Inl (if \<exists>run. run_at ?d r = Some run \<and> run_TenantID run = tn
        then Invalidf ''run_claim_not_terminal'' else NotFoundf ''run''))"
      using False same_at(3) [OF same, of r] by (auto simp: RunClaimRepository_CleanupTerminal_def scoped_def notFound_def split: option.splits)
    have p: "Pg_CleanupTerminal cn tn r s = (?s, Inl (if \<exists>run. run_at ?d r = Some run \<and> run_TenantID run = tn
        then Invalidf ''run_claim_not_terminal'' else NotFoundf ''run''))"
    proof (cases "run_at ?d r")
      case (Some run)
      then have "run_ID run = r" using find_key_Some [of run_ID r "tb_runs ?d"] by (simp add: run_at_def)
      then show ?thesis using False Some rows q by (simp add: Pg_CleanupTerminal_def seq_op_def quiet_query throw_op_def)
    qed (use rows q in \<open>simp add: Pg_CleanupTerminal_def seq_op_def quiet_query throw_op_def\<close>)
    show ?thesis unfolding m p using same q(2) by (simp add: agree_def)
  next
    case True
    then obtain run where run: "run_at ?d r = Some run" "run_TenantID run = tn" "Terminal (run_Status run)" by blast
    have id: "run_ID run = r" using run(1) find_key_Some [of run_ID r "tb_runs ?d"] by (simp add: run_at_def)
    have h: "addressed tn r c \<Longrightarrow> claim_RunID c = r" for c by (simp add: addressed_def)
    note X = delete_one [where p = "addressed tn r" and k = r, OF same]
    have m: "RunClaimRepository_CleanupTerminal tn r st = (drop_claim r st, Inr ())"
      using same_at(3) [OF same, of r] run by (simp add: RunClaimRepository_CleanupTerminal_def scoped_def)
    have ok: "claims_ok (drop_claim r st)" using claims_ok_exec [OF isort.sort_slice_axioms same_at(5) [OF same], of "CallCleanupTerminal tn r" 0] m by simp
    let ?d' = "?d\<lparr>tb_claims := filter (\<lambda>c. \<not> addressed tn r c) (tb_claims ?d)\<rparr>"
    have "same_claims (drop_claim r st) ?d'"
    proof (cases "claim_at ?d r")
      case (Some c)
      then have "addressed tn r c" using same run claim_at_Some [OF Some] by (auto simp: same_claims_def addressed_def)
      then show ?thesis using X(2) [OF _ Some] h ok by blast
    next
      case None
      then have "?d' = ?d" using X(3) h by auto
      then show ?thesis using same_cong [OF same ok] same_at(2) [OF same] None by simp
    qed
    then show ?thesis
      unfolding m using q run id rows
      by (simp add: Pg_CleanupTerminal_def seq_op_def quiet_query return_op_def agree_def exec_stmt_def mapped_op_def quiet_stmt delete_claim_def X(1) h)
  qed
qed

subsection \<open>Batches\<close>

definition rank :: "RunClaim \<Rightarrow> Time \<times> string" where
  "rank c = (claim_CreatedAt c, claim_RunID c)"

definition queued :: "Time \<Rightarrow> pg_db \<Rightarrow> RunClaim list \<Rightarrow> bool" where
  "queued now d xs \<longleftrightarrow> sorted_wrt (\<lambda>a b. rank a < rank b) xs \<and> set xs = {c \<in> set (tb_claims d). claimable now c}"

lemma row_before_rank: "claim_row_before a b \<longleftrightarrow> rank a < rank b"
  by (auto simp: claim_row_before_def rank_def)

lemma strictly_sorted_distinct: "sorted_wrt (\<lambda>a b. (f a :: 'k :: linorder) < f b) xs \<Longrightarrow> distinct xs"
  by (induction xs) auto

lemma inj_rank: "distinct (map claim_RunID rs) \<Longrightarrow> A \<subseteq> set rs \<Longrightarrow> inj_on rank A"
  by (auto simp: distinct_map inj_on_def rank_def)

lemma queued_sort:
  assumes "distinct (map claim_RunID (tb_claims d))" and "queued now d xs"
  shows "insertion_sort claim_row_before (filter (claimable now) (tb_claims d)) = xs"
proof (rule sorted_wrt_unique [where f = rank])
  let ?F = "filter (claimable now) (tb_claims d)"
  note sw = strict_weakI_key [of claim_row_before, OF row_before_rank]
  have perm: "mset (insertion_sort claim_row_before ?F) = mset ?F" by (rule isort.perm [OF sw])
  have s: "set xs = set ?F" "sorted_wrt (\<lambda>a b. rank a < rank b) xs" using assms(2) by (auto simp: queued_def)
  have dF: "distinct ?F" using assms(1) by (simp add: distinct_map)
  have "mset ?F = mset xs"
    using set_eq_iff_mset_eq_distinct [OF dF strictly_sorted_distinct [OF s(2)]] s(1) by blast
  then show "mset (insertion_sort claim_row_before ?F) = mset xs" using perm by simp
  show "inj_on rank (set (insertion_sort claim_row_before ?F))"
    using isort.set_srt [OF sw, of ?F] by (intro inj_rank [OF assms(1)]) auto
  show "sorted_wrt (\<lambda>a b. rank a \<le> rank b) (insertion_sort claim_row_before ?F)"
    using isort.ordered [OF sw, of ?F] by (simp add: row_before_rank not_less)
  show "sorted_wrt (\<lambda>a b. rank a \<le> rank b) xs" using s(2) by (rule sorted_wrt_mono_rel [rotated]) auto
qed

lemma queued_memory:
  fixes now :: Time
  assumes "sort_slice srt" and "same_claims st d"
  defines "cs \<equiv> srt claim_before (filter (\<lambda>kc. claimEligible (snd kc) now) (st_runClaims st))"
  shows "queued now d (map snd cs)" and "\<And>k c. (k, c) \<in> set cs \<Longrightarrow> claim_RunID c = k \<and> claim_at d k = Some c"
proof -
  let ?E = "filter (\<lambda>kc. claimEligible (snd kc) now) (st_runClaims st)"
  have m: "map_ok (st_runClaims st)" using assms(2) by (simp add: same_claims_def claims_ok_def)
  have set_cs: "set cs = set ?E" unfolding cs_def by (rule sort_slice.set_srt [OF assms(1) strict_weak_claim_before])
  have row: "(k, c) \<in> set (st_runClaims st) \<longleftrightarrow> claim_at d k = Some c" for k c
    using set_in_lookup [OF m, of k c] lookup_in_set [of "st_runClaims st" k c] same_at(2) [OF assms(2), of k] by auto
  show key: "claim_RunID c = k \<and> claim_at d k = Some c" if "(k, c) \<in> set cs" for k c
    using that row [of k c] claim_at_Some [of d k c] by (auto simp: set_cs)
  have mem: "c \<in> set (tb_claims d) \<longleftrightarrow> claim_at d (claim_RunID c) = Some c" for c
    using find_key_mem [OF same_at(1) [OF assms(2)], of c] claim_at_Some [of d "claim_RunID c" c] by (auto simp: claim_at_def)
  have "set (map snd cs) = {c \<in> set (tb_claims d). claimable now c}"
  proof (intro set_eqI iffI)
    fix c assume "c \<in> set (map snd cs)"
    then obtain k where "(k, c) \<in> set cs" by auto
    then show "c \<in> {c \<in> set (tb_claims d). claimable now c}" using key [of k c] mem by (auto simp: set_cs claimable_eligible)
  next
    fix c assume "c \<in> {c \<in> set (tb_claims d). claimable now c}"
    then have "(claim_RunID c, c) \<in> set cs" using mem row by (auto simp: set_cs claimable_eligible)
    then show "c \<in> set (map snd cs)" by force
  qed
  moreover have "sorted_wrt (\<lambda>a b. rank a < rank b) (map snd cs)"
  proof -
    have o: "sorted_wrt (\<lambda>a b. \<not> claim_before b a) cs" unfolding cs_def by (rule sort_slice.ordered [OF assms(1) strict_weak_claim_before])
    have "distinct (map fst ?E)" using m by (simp add: map_ok_def distinct_map_filter)
    then have "distinct (map fst cs)"
      unfolding cs_def by (metis mset_eq_imp_distinct_iff mset_map sort_slice.perm [OF assms(1) strict_weak_claim_before])
    then have d: "sorted_wrt (\<lambda>a b. fst a \<noteq> fst b) cs" by (simp add: distinct_conv_nth sorted_wrt_iff_nth_less)
    have "sorted_wrt (\<lambda>a b. rank (snd a) < rank (snd b)) cs"
      unfolding sorted_wrt_iff_nth_less
    proof (intro allI impI)
      fix i j assume ij: "i < j" "j < length cs"
      have "\<not> claim_before (cs ! j) (cs ! i)" "fst (cs ! i) \<noteq> fst (cs ! j)" using o d ij by (auto simp: sorted_wrt_iff_nth_less)
      moreover have "claim_RunID (snd (cs ! n)) = fst (cs ! n)" if "n < length cs" for n
        using key [of "fst (cs ! n)" "snd (cs ! n)"] that by simp
      ultimately show "rank (snd (cs ! i)) < rank (snd (cs ! j))"
        using ij by (auto simp: claim_before_def rank_def split: if_splits)
    qed
    then show ?thesis by (simp add: sorted_wrt_map)
  qed
  ultimately show "queued now d (map snd cs)" by (simp add: queued_def)
qed

lemma quiet_first_none:
  assumes "distinct (map claim_RunID (tb_claims d))" and "queued now d []"
  shows "acquire_first owner token now e (\<lambda>_. False) d = (d, Inr [])"
  using queued_sort [OF assms] by (simp add: acquire_first_eq sql_pick_def on_claims_def sql_update_def)

lemma quiet_first:
  assumes "distinct (map claim_RunID (tb_claims d))" and "queued now d (c # cs)" and "claim_check (set_claimed owner token now e c)" and "now < e"
  defines "d' \<equiv> d\<lparr>tb_claims := map (\<lambda>x. if addressed (claim_TenantID c) (claim_RunID c) x then set_claimed owner token now e x else x) (tb_claims d)\<rparr>"
  shows "acquire_first owner token now e (\<lambda>_. False) d = (d', Inr [set_claimed owner token now e c])" and "queued now d' cs"
proof -
  let ?p = "addressed (claim_TenantID c) (claim_RunID c)" and ?f = "set_claimed owner token now e"
  have c: "c \<in> set (tb_claims d)" using assms(2) by (auto simp: queued_def)
  have at: "claim_at d (claim_RunID c) = Some c" unfolding claim_at_def by (rule find_key_mem [OF assms(1) c])
  have "on_claims (sql_update claim_check ?p ?f) d = (d', Inr (case claim_at d (claim_RunID c) of None \<Rightarrow> [] | Some x \<Rightarrow> if ?p x then [?f x] else []))"
    unfolding d'_def by (rule update_one [OF assms(1)]) (use at assms(3) in \<open>auto simp: addressed_def\<close>)
  moreover have "?p c" by (simp add: addressed_def)
  ultimately show "acquire_first owner token now e (\<lambda>_. False) d = (d', Inr [?f c])"
    using queued_sort [OF assms(1,2)] at by (simp add: acquire_first_eq sql_pick_def)
  have only: "?p x \<longleftrightarrow> x = c" if "x \<in> set (tb_claims d)" for x
    using that c assms(1) by (auto simp: addressed_def distinct_map inj_on_def)
  then have rows: "set (tb_claims d') = insert (?f c) (set (tb_claims d) - {c})"
    unfolding d'_def using c by (auto simp: image_iff)
  have late: "\<not> claimable now (?f c)" using assms(4) by (simp add: claimable_def lapsed_def set_claimed_def)
  have q: "sorted_wrt (\<lambda>a b. rank a < rank b) (c # cs)" "set (c # cs) = {c \<in> set (tb_claims d). claimable now c}"
    using assms(2) by (simp_all add: queued_def)
  have "c \<notin> set cs" using strictly_sorted_distinct [OF q(1)] by simp
  then have "set cs = {x \<in> set (tb_claims d'). claimable now x}" using q(2) late unfolding rows by auto
  then show "queued now d' cs" using q(1) by (simp add: queued_def)
qed

lemma agree_loop:
  assumes "quiet cn" and "\<And>n. cn_ts cn (cn_clock cn n) = now" and "\<And>n. \<exists>token. NewRunClaimToken (cn_rand cn n) = Inr token"
    and "ValidateClaimOwner (br_Owner req) = Inr ()" and "0 < br_LeaseFor req" and "whole cn (br_LeaseFor req)"
  shows "pg_tx s = None \<Longrightarrow> same_claims st (pg_db s) \<Longrightarrow> queued now (pg_db s) (map snd cs) \<Longrightarrow>
    (\<And>k c. (k, c) \<in> set cs \<Longrightarrow> claim_RunID c = k) \<Longrightarrow> (\<And>i. cn_rand cn (pg_draws s + i) = rnd i) \<Longrightarrow>
    agree (acquire_loop (br_Owner req) (br_LeaseFor req) now rnd out (take n cs) st) (acquire_next cn req out n s)"
proof (induction n arbitrary: s st cs rnd out)
  case 0
  then show ?case by (simp add: agree_def return_op_def)
next
  case (Suc n)
  let ?s = "s\<lparr>pg_ticks := Suc (pg_ticks s), pg_draws := Suc (pg_draws s)\<rparr>" and ?o = "br_Owner req"
  let ?e = "now + br_LeaseFor req"
  obtain token where tok: "NewRunClaimToken (cn_rand cn (pg_draws s)) = Inr token" using assms(3) by blast
  have rnd0: "rnd 0 = cn_rand cn (pg_draws s)" using Suc.prems(5) [of 0] by simp
  have D: "distinct (map claim_RunID (tb_claims (pg_db s)))" by (rule same_at(1) [OF Suc.prems(2)])
  have step: "acquire_next cn req out (Suc n) s =
      (case scan_claim cn (acquire_first ?o token now ?e) ?s of
          (s', Inl err) \<Rightarrow> if ErrKindOf err = ErrKindNotFound then (s', Inr out) else (s', Inl err)
        | (s', Inr c) \<Rightarrow> acquire_next cn req (out @ [c]) n s')"
    using assms(1,2,5,6) tok by (simp add: seq_op_def pg_now_def pg_token_def whole_expiry)
  show ?case
  proof (cases cs)
    case Nil
    then have "scan_claim cn (acquire_first ?o token now ?e) ?s = (?s\<lparr>pg_stmts := Suc (pg_stmts s)\<rparr>, Inl (NotFoundf ''run_claim''))"
      using quiet_scan [OF assms(1), of ?s "acquire_first ?o token now ?e" "pg_db s" "[]"] quiet_first_none [OF D] Suc.prems(1,3) by simp
    then show ?thesis unfolding step using Nil Suc.prems(1,2) by (simp add: agree_def NotFoundf_def)
  next
    case (Cons kc rest)
    obtain k c where kc: "kc = (k, c)" by (cases kc)
    then have k: "claim_RunID c = k" using Suc.prems(4) Cons by simp
    have q: "queued now (pg_db s) (c # map snd rest)" using Suc.prems(3) Cons kc by simp
    then have c: "c \<in> set (tb_claims (pg_db s))" "claimable now c" by (auto simp: queued_def)
    have at: "claim_at (pg_db s) k = Some c" using find_key_mem [OF D c(1)] k by (simp add: claim_at_def)
    have chk: "claim_check (set_claimed ?o token now ?e c)"
      using claim_ok_check(1) [OF same_at(4) [OF Suc.prems(2) at] assms(4) token_length [OF tok]] .
    let ?c' = "set_claimed ?o token now ?e c" and ?p = "addressed (claim_TenantID c) (claim_RunID c)"
    let ?d' = "(pg_db s)\<lparr>tb_claims := map (\<lambda>x. if ?p x then set_claimed ?o token now ?e x else x) (tb_claims (pg_db s))\<rparr>"
    have lt: "now < ?e" using assms(5) by simp
    note F = quiet_first [OF D q chk lt]
    let ?s' = "?s\<lparr>pg_db := ?d', pg_stmts := Suc (pg_stmts s)\<rparr>"
    have scan: "scan_claim cn (acquire_first ?o token now ?e) ?s = (?s', Inr ?c')"
      using quiet_scan [OF assms(1), of ?s "acquire_first ?o token now ?e" ?d' "[?c']"] F(1) Suc.prems(1) by simp
    have m: "acquire_loop ?o (br_LeaseFor req) now rnd out (take (Suc n) cs) st =
        acquire_loop ?o (br_LeaseFor req) now (\<lambda>i. rnd (Suc i)) (out @ [?c']) (take n rest) (put_claim k ?c' st)"
      using Cons kc tok rnd0 assms(5) by (simp add: Let_def set_claimed_eq)
    have acq: "RunClaimRepository_Acquire \<lparr>lr_TenantID = claim_TenantID c, lr_RunID = k, lr_Owner = ?o, lr_LeaseFor = br_LeaseFor req\<rparr>
        (cn_rand cn (pg_draws s)) now st = (put_claim k ?c' st, Inr ?c')"
      using same_at(2) [OF Suc.prems(2), of k] at c(2) tok assms(4,5)
      by (simp add: RunClaimRepository_Acquire_def RunClaimLeaseRequest_Validate_def positiveDuration_def scoped_def claimable_eligible set_claimed_eq Let_def)
    have ok: "claims_ok (put_claim k ?c' st)"
      using claims_ok_exec [OF isort.sort_slice_axioms same_at(5) [OF Suc.prems(2)],
          of "CallAcquire \<lparr>lr_TenantID = claim_TenantID c, lr_RunID = k, lr_Owner = ?o, lr_LeaseFor = br_LeaseFor req\<rparr> (cn_rand cn (pg_draws s))" now] acq
      by simp
    have "same_claims (put_claim k ?c' st) ?d'"
      by (rule same_put [OF Suc.prems(2) at]) (use k ok in \<open>auto simp: addressed_def set_claimed_def\<close>)
    then have "agree (acquire_loop ?o (br_LeaseFor req) now (\<lambda>i. rnd (Suc i)) (out @ [?c']) (take n rest) (put_claim k ?c' st))
        (acquire_next cn req (out @ [?c']) n ?s')"
      using F(2) Suc.prems(1,4) Cons Suc.prems(5) [of "Suc _"] by (intro Suc.IH) auto
    then show ?thesis unfolding step m using scan by simp
  qed
qed

lemma agree_AcquireNext:
  assumes "sort_slice srt" and "quiet cn" and "pg_tx s = None" and "same_claims st (pg_db s)" and "\<And>n. cn_ts cn (cn_clock cn n) = now"
    and "\<And>n. \<exists>token. NewRunClaimToken (cn_rand cn n) = Inr token" and "\<And>i. cn_rand cn (pg_draws s + i) = rnd i" and "whole cn (br_LeaseFor req)"
  shows "agree (RunClaimRepository_AcquireNext srt req rnd now st) (Pg_AcquireNext cn req s)"
proof (cases "RunClaimBatchRequest_Validate req")
  case (Inl e)
  then show ?thesis using assms(3,4) by (simp add: RunClaimRepository_AcquireNext_def Pg_AcquireNext_def seq_op_def pure_pg_def agree_def)
next
  case (Inr u)
  then have v: "ValidateClaimOwner (br_Owner req) = Inr ()" "0 < br_LeaseFor req" using validated_batch [of req] by auto
  note Q = queued_memory [OF assms(1,4), where now = now]
  have "agree (acquire_loop (br_Owner req) (br_LeaseFor req) now rnd [] (eligible_claims srt req now st) st) (acquire_next cn req [] (nat (br_Limit req)) s)"
    unfolding eligible_claims_def using assms(3,4,7) Q by (intro agree_loop [OF assms(2,5,6) v assms(8)]) auto
  then show ?thesis using Inr AcquireNext_eq [of req] by (simp add: Pg_AcquireNext_def seq_op_def pure_pg_def)
qed

subsection \<open>Sequences of calls\<close>

text \<open>
  The same calls with the same entropy, each on a connection of the pool; the memory adapter reads the instants the columns keep.
  \<open>call_fits\<close>: entropy is available, and a lease is a whole number of the columns' units.
\<close>

fun call_rand :: "claim_call \<Rightarrow> nat \<Rightarrow> entropy" where
  "call_rand (CallAcquire req rnd) = (\<lambda>_. rnd)"
| "call_rand (CallAcquireNext req rnd) = rnd"
| "call_rand _ = (\<lambda>_. None)"

definition mints :: "claim_call \<Rightarrow> bool" where
  "mints c \<longleftrightarrow> (case c of CallAcquire _ rnd \<Rightarrow> (\<exists>token. NewRunClaimToken rnd = Inr token)
     | CallAcquireNext _ rnd \<Rightarrow> (\<forall>n. \<exists>token. NewRunClaimToken (rnd n) = Inr token) | _ \<Rightarrow> True)"

definition call_fits :: "Conn \<Rightarrow> claim_call \<Rightarrow> bool" where
  "call_fits cn c \<longleftrightarrow> mints c \<and> (case c of CallAcquire req _ \<Rightarrow> whole cn (lr_LeaseFor req)
     | CallAcquireNext req _ \<Rightarrow> whole cn (br_LeaseFor req) | CallHeartbeat _ ext \<Rightarrow> whole cn ext | _ \<Rightarrow> True)"

definition at_call :: "Conn \<Rightarrow> Time \<Rightarrow> claim_call \<Rightarrow> Conn" where
  "at_call cn now c = cn\<lparr>cn_clock := \<lambda>_. now, cn_rand := call_rand c\<rparr>"

fun mem_claim_calls :: "claim_sort \<Rightarrow> (Time \<times> claim_call) list \<Rightarrow> storeState \<Rightarrow> storeState \<times> RunClaim list result list" where
  "mem_claim_calls srt [] st = (st, [])"
| "mem_claim_calls srt ((now, c) # calls) st =
     (let (st1, r) = mem_claim_call srt c now st; (st2, rs) = mem_claim_calls srt calls st1 in (st2, r # rs))"

fun pg_claim_calls :: "Conn \<Rightarrow> (Time \<times> claim_call) list \<Rightarrow> pg_db \<Rightarrow> pg_db \<times> RunClaim list result list" where
  "pg_claim_calls cn [] d = (d, [])"
| "pg_claim_calls cn ((now, c) # calls) d =
     (let (s1, r) = pg_claim_call (at_call cn now c) c (on_session d); (d2, rs) = pg_claim_calls cn calls (pg_db s1) in (d2, r # rs))"

lemma agree_return: "agree (st, Inr x) (s, Inr x) \<Longrightarrow> agree (return_op y st) (return_op y s)"
  by (simp add: agree_def return_op_def)

lemma agree_call:
  assumes "sort_slice srt" and "quiet cn" and "same_claims st d" and "call_fits cn c"
  shows "agree (mem_claim_call srt c (cn_ts cn now) st) (pg_claim_call (at_call cn now c) c (on_session d))"
proof -
  have q: "quiet (at_call cn now c)" "pg_tx (on_session d) = None" "same_claims st (pg_db (on_session d))"
    "cn_ts (at_call cn now c) (cn_clock (at_call cn now c) n) = cn_ts cn now" "cn_rand (at_call cn now c) = call_rand c"
    "whole (at_call cn now c) dur = whole cn dur" for n dur
    using assms(2,3) by (simp_all add: quiet_def at_call_def on_session_def whole_def)
  show ?thesis
  proof (cases c)
    case (CallAcquire req rnd)
    then obtain token where "NewRunClaimToken rnd = Inr token" using assms(4) by (auto simp: call_fits_def mints_def)
    then show ?thesis
      unfolding CallAcquire mem_claim_call.simps pg_claim_call.simps using q assms(4) CallAcquire by (intro agree_seq agree_Acquire agree_return) (auto simp: call_fits_def)
  next
    case (CallAcquireNext req rnd)
    then show ?thesis
      unfolding CallAcquireNext mem_claim_call.simps pg_claim_call.simps using q assms(1,4) CallAcquireNext
      by (intro agree_AcquireNext) (auto simp: call_fits_def mints_def on_session_def)
  next
    case (CallCreate tn r)
    show ?thesis unfolding CallCreate mem_claim_call.simps pg_claim_call.simps using q CallCreate by (intro agree_seq agree_Create agree_return) auto
  next
    case (CallHeartbeat ref ext)
    show ?thesis unfolding CallHeartbeat mem_claim_call.simps pg_claim_call.simps using q assms(4) CallHeartbeat
      by (intro agree_seq agree_Heartbeat agree_return) (auto simp: call_fits_def)
  next
    case (CallRelease ref)
    show ?thesis unfolding CallRelease mem_claim_call.simps pg_claim_call.simps using q CallRelease by (intro agree_seq agree_Release agree_return) auto
  next
    case (CallComplete ref)
    show ?thesis unfolding CallComplete mem_claim_call.simps pg_claim_call.simps using q CallComplete by (intro agree_seq agree_Complete agree_return) auto
  next
    case (CallCleanupTerminal tn r)
    show ?thesis
      unfolding CallCleanupTerminal mem_claim_call.simps pg_claim_call.simps using q CallCleanupTerminal
      by (intro agree_seq agree_CleanupTerminal agree_return) auto
  qed
qed

text \<open>
  C5: the PostgreSQL run-claim repository is interchangeable with the memory one. Any sequence of calls
  (create, acquire, acquire a batch, heartbeat, release, complete, clean up) on tables that hold the same runs and claims gets
  the same answers from both, claims and errors alike, and leaves tables that still hold the same claims, when the memory
  adapter reads, at each call, the clock at the resolution of PostgreSQL's timestamp columns (\<open>cn_ts\<close>, whole microseconds) and
  the same entropy. Assumed: nobody else commits, nothing is locked and every statement is answered (\<open>quiet\<close>); entropy is
  available and every lease asked for is a whole number of the columns' units (\<open>call_fits\<close>).
\<close>

theorem pg_claims_match_memory:
  assumes "sort_slice srt" and "quiet cn" and "same_claims st d" and "\<forall>(now, c) \<in> set calls. call_fits cn c"
  defines "kept \<equiv> map (\<lambda>(now, c). (cn_ts cn now, c)) calls"
  shows "snd (pg_claim_calls cn calls d) = snd (mem_claim_calls srt kept st)
    \<and> same_claims (fst (mem_claim_calls srt kept st)) (fst (pg_claim_calls cn calls d))"
  using assms(3,4) unfolding kept_def
proof (induction calls arbitrary: st d)
  case (Cons tc calls)
  obtain now c where tc: "tc = (now, c)" by (cases tc)
  obtain st1 r where m: "mem_claim_call srt c (cn_ts cn now) st = (st1, r)" by (rule prod.exhaust)
  obtain s1 r' where p: "pg_claim_call (at_call cn now c) c (on_session d) = (s1, r')" by (rule prod.exhaust)
  have "agree (st1, r) (s1, r')" using agree_call [OF assms(1,2) Cons.prems(1), of c now] Cons.prems(2) tc m p by simp
  then have "r' = r" "same_claims st1 (pg_db s1)" by (simp_all add: agree_def)
  then show ?case using Cons.IH [of st1 "pg_db s1"] Cons.prems(2) tc m p by (simp add: split_beta Let_def)
qed simp

text \<open>
  The hypotheses hold for a run with a claim row, on a server that keeps microseconds of instants in nanoseconds: A acquires the run for a
  millisecond, B is refused, and B gets it once the lease has lapsed.
\<close>

definition ex_calls :: "(Time \<times> claim_call) list" where
  "ex_calls = [(5001, CallAcquire ((ex_lease ''A'')\<lparr>lr_LeaseFor := 1000000\<rparr>) zeros), (6002, CallAcquire ((ex_lease ''B'')\<lparr>lr_LeaseFor := 1000000\<rparr>) zeros),
     (1005999, CallAcquireNext ((ex_batch ''B'')\<lparr>br_LeaseFor := 1000000\<rparr>) (\<lambda>_. zeros))]"

definition ex_kept_calls :: "(Time \<times> claim_call) list" where
  "ex_kept_calls = [(5000, CallAcquire ((ex_lease ''A'')\<lparr>lr_LeaseFor := 1000000\<rparr>) zeros), (6000, CallAcquire ((ex_lease ''B'')\<lparr>lr_LeaseFor := 1000000\<rparr>) zeros),
     (1005000, CallAcquireNext ((ex_batch ''B'')\<lparr>br_LeaseFor := 1000000\<rparr>) (\<lambda>_. zeros))]"

lemma same_ex_tables: "same_claims ex_claimed ex_tables"
  using claims_ok_ex_claimed
  by (auto simp: same_claims_def ex_tables_def claim_at_def run_at_def fresh_claim_def ex_store1_eq ex_run_def)

lemma ex_calls_fit: "\<forall>(now, c) \<in> set ex_calls. call_fits ex_micro c"
  by (simp add: ex_calls_def call_fits_def mints_def whole_ex_micro)

lemma ex_calls_kept: "map (\<lambda>(now, c). (cn_ts ex_micro now, c)) ex_calls = ex_kept_calls"
  by (simp add: ex_calls_def ex_kept_calls_def ex_micro_def)

theorem pg_claims_match_memory_witness:
  "sort_slice insertion_sort \<and> quiet ex_micro \<and> same_claims ex_claimed ex_tables \<and> list_all (call_fits ex_micro \<circ> snd) ex_calls
   \<and> snd (pg_claim_calls ex_micro ex_calls ex_tables) = snd (mem_claim_calls insertion_sort ex_kept_calls ex_claimed)
   \<and> same_claims (fst (mem_claim_calls insertion_sort ex_kept_calls ex_claimed)) (fst (pg_claim_calls ex_micro ex_calls ex_tables))"
  using pg_claims_match_memory [OF isort.sort_slice_axioms quiet_ex_micro same_ex_tables ex_calls_fit, unfolded ex_calls_kept]
    isort.sort_slice_axioms quiet_ex_micro same_ex_tables ex_calls_fit by (auto simp: list_all_iff)

end
