(* ===== verification/PG_Outbox.thy ===== *)
theory PG_Outbox
  imports PG_Store
begin

section \<open>The outbox in PostgreSQL (internal/store/postgres/outbox.go)\<close>

text \<open>
  The statements of the outbox repository, then its methods. The row of the table has the columns of the
  memory adapter's row. A cause that is not valid text and an envelope that is not JSON make their statement
  fail; \<open>cn_returning\<close> is the order in which the server hands out the rows of \<^verbatim>\<open>RETURNING\<close>.
\<close>

subsection \<open>Statements\<close>

definition outbox_check :: "outboxMessage \<Rightarrow> bool" where
  "outbox_check m \<longleftrightarrow> 0 \<le> obx_Attempts m \<and> 1 \<le> obx_MaxAttempts m \<and> obx_MaxAttempts m \<le> 100"

text \<open>\<^verbatim>\<open>INSERT ... ON CONFLICT (dedup_key) DO NOTHING\<close>; another row with the same \<open>id\<close> breaks the primary key.\<close>

definition insert_message :: "outboxMessage option \<Rightarrow> unit stmt" where
  "insert_message new locked d =
     (case new of
        None \<Rightarrow> (d, Inl OtherError)
      | Some m \<Rightarrow>
          if \<not> outbox_check m then (d, Inl OtherError)
          else if list_ex (\<lambda>x. obx_DedupKey x = obx_DedupKey m) (tb_outbox d) then (d, Inr ())
          else if list_ex (\<lambda>x. obx_ID x = obx_ID m) (tb_outbox d) then (d, Inl (Violation ''outbox_pkey''))
          else (d\<lparr>tb_outbox := tb_outbox d @ [m]\<rparr>, Inr ()))"

definition pending_row :: "Conn \<Rightarrow> OutboxMessage \<Rightarrow> Time \<Rightarrow> outboxMessage option" where
  "pending_row cn msg now = map_option (\<lambda>envelope.
     \<lparr>obx_ID = om_ID msg, obx_DedupKey = om_DedupKey msg, obx_TenantID = om_TenantID msg, obx_Envelope = envelope,
      obx_Status = OutboxPending, obx_Attempts = 0, obx_MaxAttempts = om_MaxAttempts msg, obx_AvailableAt = now,
      obx_LeasedBy = [], obx_LeaseUntil = None, obx_LastError = [], obx_CreatedAt = now, obx_DeliveredAt = None,
      obx_Generation = 0, obx_DeadAt = None, obx_DiscardedAt = None\<rparr>) (cn_jsonb cn (om_Envelope msg))"

definition leasable :: "Time \<Rightarrow> outboxMessage \<Rightarrow> bool" where
  "leasable now m \<longleftrightarrow> (obx_Status m = OutboxPending \<and> obx_AvailableAt m \<le> now)
     \<or> (obx_Status m = OutboxLeased \<and> (case obx_LeaseUntil m of None \<Rightarrow> False | Some u \<Rightarrow> u \<le> now))"

definition message_before :: "outboxMessage \<Rightarrow> outboxMessage \<Rightarrow> bool" where
  "message_before a b \<longleftrightarrow> obx_CreatedAt a < obx_CreatedAt b \<or> (obx_CreatedAt a = obx_CreatedAt b \<and> obx_ID a < obx_ID b)"

definition picked_in :: "outboxMessage list \<Rightarrow> outboxMessage \<Rightarrow> bool" where
  "picked_in picked m \<longleftrightarrow> list_ex (\<lambda>x. obx_ID x = obx_ID m) picked"

definition lease_rows :: "string \<Rightarrow> Time \<Rightarrow> Time \<Rightarrow> int \<Rightarrow> outboxMessage list stmt" where
  "lease_rows worker until now limit locked d =
     (if limit < 0 then (d, Inl OtherError)
      else on_outbox (\<lambda>rs.
        let picked = sql_pick message_before (\<lambda>m. locked (obx_ID m)) (leasable now) (nat limit) rs in
        sql_update outbox_check (picked_in picked)
          (\<lambda>m. m\<lparr>obx_Status := OutboxLeased, obx_LeasedBy := worker, obx_LeaseUntil := Some until, obx_Attempts := obx_Attempts m + 1\<rparr>) rs) d)"

definition lessee :: "string \<Rightarrow> string \<Rightarrow> outboxMessage \<Rightarrow> bool" where
  "lessee ident leasedBy m \<longleftrightarrow> obx_ID m = ident \<and> obx_Status m = OutboxLeased \<and> obx_LeasedBy m = leasedBy"

definition deliver_row :: "string \<Rightarrow> string \<Rightarrow> Time \<Rightarrow> outboxMessage list stmt" where
  "deliver_row ident leasedBy now locked = on_outbox (sql_update outbox_check (lessee ident leasedBy)
     (\<lambda>m. m\<lparr>obx_Status := OutboxDelivered, obx_DeliveredAt := Some now, obx_LeaseUntil := None\<rparr>))"

definition fail_row :: "string \<Rightarrow> string \<Rightarrow> Time \<Rightarrow> string \<Rightarrow> Time \<Rightarrow> outboxMessage list stmt" where
  "fail_row ident leasedBy retryAt cause now locked = on_outbox (sql_update outbox_check (lessee ident leasedBy)
     (\<lambda>m. m\<lparr>obx_Status := (if obx_Attempts m \<ge> obx_MaxAttempts m then OutboxDead else OutboxPending),
            obx_AvailableAt := retryAt, obx_LeaseUntil := None, obx_LastError := cause, obx_LeasedBy := [],
            obx_Generation := obx_Generation m + (if obx_Attempts m \<ge> obx_MaxAttempts m then 1 else 0),
            obx_DeadAt := (if obx_Attempts m \<ge> obx_MaxAttempts m then Some now else obx_DeadAt m)\<rparr>))"

definition dead_target :: "OutboxMutationRequest \<Rightarrow> outboxMessage \<Rightarrow> bool" where
  "dead_target req m \<longleftrightarrow> obx_ID m = mr_MessageID req \<and> obx_TenantID m = mr_TenantID req \<and> obx_Status m = OutboxDead
     \<and> obx_Generation m = mr_ExpectedGeneration req"

definition requeue_row :: "OutboxMutationRequest \<Rightarrow> Time \<Rightarrow> outboxMessage list stmt" where
  "requeue_row req now locked = on_outbox (sql_update outbox_check (dead_target req)
     (\<lambda>m. m\<lparr>obx_Status := OutboxPending, obx_Attempts := 0, obx_AvailableAt := now, obx_LeasedBy := [], obx_LeaseUntil := None,
            obx_Generation := obx_Generation m + 1, obx_DeadAt := None\<rparr>))"

definition discard_row :: "OutboxMutationRequest \<Rightarrow> Time \<Rightarrow> outboxMessage list stmt" where
  "discard_row req now locked = on_outbox (sql_update outbox_check (dead_target req)
     (\<lambda>m. m\<lparr>obx_Status := OutboxDiscarded, obx_LeasedBy := [], obx_LeaseUntil := None,
            obx_Generation := obx_Generation m + 1, obx_DiscardedAt := Some now\<rparr>))"

definition retainable :: "OutboxDeliveryStatus \<Rightarrow> (outboxMessage \<Rightarrow> Time option) \<Rightarrow> Time \<Rightarrow> outboxMessage \<Rightarrow> bool" where
  "retainable status column eligibleBefore m \<longleftrightarrow> obx_Status m = status
     \<and> (case column m of None \<Rightarrow> False | Some t \<Rightarrow> t \<le> eligibleBefore)"

definition retained_before :: "(outboxMessage \<Rightarrow> Time option) \<Rightarrow> outboxMessage \<Rightarrow> outboxMessage \<Rightarrow> bool" where
  "retained_before column a b \<longleftrightarrow> the (column a) < the (column b) \<or> (the (column a) = the (column b) \<and> obx_ID a < obx_ID b)"

definition delete_retainable :: "OutboxDeliveryStatus \<Rightarrow> (outboxMessage \<Rightarrow> Time option) \<Rightarrow> Time \<Rightarrow> nat \<Rightarrow> nat stmt" where
  "delete_retainable status column eligibleBefore limit locked = on_outbox (\<lambda>rs.
     let picked = sql_pick (retained_before column) (\<lambda>m. locked (obx_ID m)) (retainable status column eligibleBefore) limit rs in
     sql_delete (picked_in picked) rs)"

subsection \<open>Delivery\<close>

definition Pg_Publish :: "Conn \<Rightarrow> OutboxMessage \<Rightarrow> unit pg_op" where
  "Pg_Publish cn msg =
     (if om_MaxAttempts msg < 1 \<or> om_MaxAttempts msg > 100 then throw_op (Invalidf ''outbox_max_attempts'')
      else seq_op (pg_now cn) (\<lambda>now. exec_stmt cn (insert_message (pending_row cn msg (cn_ts cn now)))))"

definition Pg_Lease :: "Conn \<Rightarrow> OutboxLeaseRequest \<Rightarrow> OutboxMessage list pg_op" where
  "Pg_Lease cn req =
     seq_op (pg_now cn) (\<lambda>now.
     seq_op (query_rows cn (lease_rows (ol_WorkerID req) (cn_ts cn (now + ol_LeaseFor req)) (cn_ts cn now) (ol_Limit req))) (\<lambda>rows.
     return_op (map (\<lambda>m. \<lparr>om_ID = obx_ID m, om_DedupKey = obx_DedupKey m, om_TenantID = obx_TenantID m, om_Envelope = obx_Envelope m,
         om_Attempts = obx_Attempts m, om_MaxAttempts = obx_MaxAttempts m\<rparr>) (cn_returning cn rows))))"

text \<open>\<^verbatim>\<open>if affected == 0 { return domain.NotFoundf("outbox_message", id) }\<close>\<close>

definition must_affect :: "outboxMessage list \<Rightarrow> unit pg_op" where
  "must_affect rows = (if rows = [] then throw_op (NotFoundf ''outbox_message'') else return_op ())"

definition Pg_MarkDelivered :: "Conn \<Rightarrow> string \<Rightarrow> string \<Rightarrow> unit pg_op" where
  "Pg_MarkDelivered cn ident leasedBy =
     seq_op (pg_now cn) (\<lambda>now. seq_op (exec_stmt cn (deliver_row ident leasedBy (cn_ts cn now))) must_affect)"

definition truncateCause :: "string \<Rightarrow> string" where
  "truncateCause cause = (let mx = 512 in if length cause > mx then take mx cause else cause)"

definition text_param :: "Conn \<Rightarrow> string \<Rightarrow> 'a stmt \<Rightarrow> 'a stmt" where
  "text_param cn s f locked d = (if cn_text cn s then f locked d else (d, Inl OtherError))"

definition Pg_FailWithBackoff :: "Conn \<Rightarrow> string \<Rightarrow> string \<Rightarrow> Duration \<Rightarrow> string \<Rightarrow> unit pg_op" where
  "Pg_FailWithBackoff cn ident leasedBy retryIn cause =
     seq_op (pg_now cn) (\<lambda>now.
     seq_op (exec_stmt cn (text_param cn (truncateCause cause)
         (fail_row ident leasedBy (cn_ts cn (now + retryIn)) (truncateCause cause) (cn_ts cn now)))) must_affect)"

definition Pg_Stats :: "Conn \<Rightarrow> OutboxStats pg_op" where
  "Pg_Stats cn = query cn (\<lambda>d. let n = (\<lambda>status. int (length (filter (\<lambda>m. obx_Status m = status) (tb_outbox d)))) in
     \<lparr>os_Pending = n OutboxPending, os_Leased = n OutboxLeased, os_Delivered = n OutboxDelivered, os_Dead = n OutboxDead,
      os_Discarded = n OutboxDiscarded\<rparr>)"

subsection \<open>Dead letters\<close>

definition scanDeadLetter :: "outboxMessage \<Rightarrow> DeadLetterSummary" where
  "scanDeadLetter m =
     \<lparr>dl_ID = obx_ID m, dl_DedupKey = obx_DedupKey m, dl_TenantID = obx_TenantID m, dl_Status = obx_Status m,
      dl_Attempts = obx_Attempts m, dl_MaxAttempts = obx_MaxAttempts m, dl_Generation = obx_Generation m,
      dl_Cause = obx_LastError m, dl_CreatedAt = obx_CreatedAt m, dl_DeadAt = obx_DeadAt m, dl_DiscardedAt = obx_DiscardedAt m\<rparr>"

definition Pg_ListDeadLetters :: "Conn \<Rightarrow> ListDeadLettersRequest \<Rightarrow> DeadLetterSummary list pg_op" where
  "Pg_ListDeadLetters cn req =
     seq_op (pure_pg (ListDeadLettersRequest_Validate req)) (\<lambda>_.
     query cn (\<lambda>d. map scanDeadLetter (sql_pick message_before (\<lambda>_. False)
       (\<lambda>m. obx_TenantID m = ldl_TenantID req \<and> obx_Status m = OutboxDead
          \<and> (obx_CreatedAt m > cn_ts cn (ldl_AfterCreatedAt req)
             \<or> (obx_CreatedAt m = cn_ts cn (ldl_AfterCreatedAt req) \<and> obx_ID m > ldl_AfterID req)))
       (nat (ldl_Limit req)) (tb_outbox d))))"

definition Pg_GetDeadLetter :: "Conn \<Rightarrow> string \<Rightarrow> string \<Rightarrow> DeadLetterSummary pg_op" where
  "Pg_GetDeadLetter cn tenantID messageID =
     seq_op (query cn (\<lambda>d. map scanDeadLetter (filter (\<lambda>m. obx_ID m = messageID \<and> obx_TenantID m = tenantID
         \<and> (obx_Status m = OutboxDead \<or> obx_Status m = OutboxDiscarded)) (tb_outbox d)))) (\<lambda>rows.
     case rows of [] \<Rightarrow> throw_op (NotFoundf ''outbox_message'') | x # _ \<Rightarrow> return_op x)"

record operatorTargetState =
  ts_status :: OutboxDeliveryStatus
  ts_attempts :: int
  ts_generation :: int

definition loadOperatorTarget :: "Conn \<Rightarrow> string \<Rightarrow> string \<Rightarrow> operatorTargetState pg_op" where
  "loadOperatorTarget cn tenantID messageID =
     seq_op (query cn (\<lambda>d. map (\<lambda>m. \<lparr>ts_status = obx_Status m, ts_attempts = obx_Attempts m, ts_generation = obx_Generation m\<rparr>)
         (filter (\<lambda>m. obx_ID m = messageID \<and> obx_TenantID m = tenantID) (tb_outbox d)))) (\<lambda>rows.
     case rows of [] \<Rightarrow> throw_op (NotFoundf ''outbox_message'') | x # _ \<Rightarrow> return_op x)"

definition classifyOperatorTarget :: "operatorTargetState \<Rightarrow> int \<Rightarrow> unit result" where
  "classifyOperatorTarget s expectedGeneration =
     (if ts_generation s = 0 then Inl NewInvalidTransitionError
      else if ts_generation s \<noteq> expectedGeneration then Inl NewStaleVersionError
      else if ts_status s \<noteq> OutboxDead then Inl NewInvalidTransitionError
      else Inr ())"

text \<open>
  Requeue and discard are the same unit of work around their own statement. When the statement affects
  nothing and the second look finds nothing wrong either, the code returns its zero result.
\<close>

definition mutate_dead :: "Conn \<Rightarrow> OutboxMutationRequest \<Rightarrow> string \<Rightarrow> (Time \<Rightarrow> outboxMessage list stmt) \<Rightarrow> OutboxMutationResult pg_op" where
  "mutate_dead cn req action update =
     seq_op (loadOperatorTarget cn (mr_TenantID req) (mr_MessageID req)) (\<lambda>state.
     seq_op (pure_pg (classifyOperatorTarget state (mr_ExpectedGeneration req))) (\<lambda>_.
     seq_op (pg_now cn) (\<lambda>now.
     seq_op (exec_stmt cn (update (cn_ts cn now))) (\<lambda>rows.
     if rows = [] then
       seq_op (loadOperatorTarget cn (mr_TenantID req) (mr_MessageID req)) (\<lambda>state.
       seq_op (pure_pg (classifyOperatorTarget state (mr_ExpectedGeneration req))) (\<lambda>_.
       return_op \<lparr>mres_MessageID = [], mres_Action = [], mres_AttemptsBefore = 0, mres_Generation = 0\<rparr>))
     else return_op \<lparr>mres_MessageID = mr_MessageID req, mres_Action = action, mres_AttemptsBefore = ts_attempts state,
       mres_Generation = mr_ExpectedGeneration req + 1\<rparr>))))"

definition Pg_RequeueDeadLetter :: "Conn \<Rightarrow> OutboxMutationRequest \<Rightarrow> OutboxMutationResult pg_op" where
  "Pg_RequeueDeadLetter cn req =
     seq_op (pure_pg (OutboxMutationRequest_Validate req)) (\<lambda>_. pg_Do cn (mutate_dead cn req ''requeue'' (requeue_row req)))"

definition Pg_DiscardDeadLetter :: "Conn \<Rightarrow> OutboxMutationRequest \<Rightarrow> OutboxMutationResult pg_op" where
  "Pg_DiscardDeadLetter cn req =
     seq_op (pure_pg (OutboxMutationRequest_Validate req)) (\<lambda>_. pg_Do cn (mutate_dead cn req ''discard'' (discard_row req)))"

subsection \<open>Retention\<close>

definition countRetainable :: "Conn \<Rightarrow> OutboxDeliveryStatus \<Rightarrow> (outboxMessage \<Rightarrow> Time option) \<Rightarrow> Time \<Rightarrow> int \<Rightarrow> int pg_op" where
  "countRetainable cn status column eligibleBefore limit =
     query cn (\<lambda>d. int (length (take (nat limit) (filter (retainable status column (cn_ts cn eligibleBefore)) (tb_outbox d)))))"

definition deleteRetainableBatch :: "Conn \<Rightarrow> OutboxDeliveryStatus \<Rightarrow> (outboxMessage \<Rightarrow> Time option) \<Rightarrow> Time \<Rightarrow> int \<Rightarrow> int pg_op" where
  "deleteRetainableBatch cn status column eligibleBefore limit =
     seq_op (exec_stmt cn (delete_retainable status column (cn_ts cn eligibleBefore) (nat limit))) (\<lambda>n. return_op (int n))"

text \<open>Both branches of the round share their shape: \<open>take_class\<close> is the counting or the deleting statement.\<close>

definition sweep_round :: "(OutboxDeliveryStatus \<Rightarrow> (outboxMessage \<Rightarrow> Time option) \<Rightarrow> Time \<Rightarrow> int \<Rightarrow> int pg_op) \<Rightarrow>
  RetentionSweepRequest \<Rightarrow> Time \<Rightarrow> RetentionSweepResult pg_op" where
  "sweep_round take_class req cutoff =
     seq_op (if rs_DeliveredOlderThan req > 0
             then take_class OutboxDelivered obx_DeliveredAt (cutoff - rs_DeliveredOlderThan req) (rs_Limit req)
             else return_op 0) (\<lambda>delivered.
     seq_op (if rs_DiscardedOlderThan req > 0 \<and> rs_Limit req - delivered > 0
             then take_class OutboxDiscarded obx_DiscardedAt (cutoff - rs_DiscardedOlderThan req) (rs_Limit req - delivered)
             else return_op 0) (\<lambda>discarded.
     return_op \<lparr>rr_Cutoff = cutoff, rr_DeletedDelivered = delivered, rr_DeletedDiscarded = discarded\<rparr>))"

definition Pg_SweepRetention :: "Conn \<Rightarrow> RetentionSweepRequest \<Rightarrow> RetentionSweepResult pg_op" where
  "Pg_SweepRetention cn req =
     seq_op (pure_pg (RetentionSweepRequest_Validate req)) (\<lambda>_.
     pg_Do cn (seq_op (pg_now cn) (\<lambda>cutoff.
       if rs_DryRun req then sweep_round (countRetainable cn) req cutoff
       else sweep_round (deleteRetainableBatch cn) req cutoff)))"

end
