(* ===== verification/PG_Outbox_Laws.thy ===== *)
theory PG_Outbox_Laws
  imports PG_Outbox PG_Sessions Mem_Outbox_Props
begin

section \<open>Laws of the PostgreSQL outbox\<close>

text \<open>
  The statements of the outbox are an \<open>outbox_machine\<close>, the contract the memory adapter has too: a statement moves each row
  by at most one \<open>row_move\<close>. So sessions that interleave statement by statement keep the invariant of the rows, and a worker keeps
  the messages it leased.
\<close>

subsection \<open>The statements as a machine of rows\<close>

definition message_at :: "pg_db \<Rightarrow> string \<Rightarrow> outboxMessage option" where
  "message_at d k = List.find (\<lambda>m. obx_ID m = k) (tb_outbox d)"

definition pg_outbox_ok :: "pg_db \<Rightarrow> bool" where
  "pg_outbox_ok d \<longleftrightarrow> distinct (map obx_ID (tb_outbox d)) \<and> distinct (map obx_DedupKey (tb_outbox d)) \<and> (\<forall>m \<in> set (tb_outbox d). row_ok m)"

datatype outbox_stmt =
    SEnqueue OutboxMessage bytes
  | SLease string Duration int "string \<Rightarrow> bool"
  | SDeliver string string
  | SFail string string Duration string
  | SRequeue OutboxMutationRequest
  | SDiscard OutboxMutationRequest
  | SSweep bool Duration nat "string \<Rightarrow> bool"

fun outbox_effect :: "outbox_stmt \<Rightarrow> Time \<Rightarrow> pg_db \<Rightarrow> pg_db" where
  "outbox_effect (SEnqueue msg env) now d =
     fst (insert_message (Some (new_row (om_ID msg) (om_DedupKey msg) (om_TenantID msg) env (om_MaxAttempts msg) now)) (\<lambda>_. False) d)"
| "outbox_effect (SLease worker lease limit locked) now d = fst (lease_rows worker (now + lease) now limit locked d)"
| "outbox_effect (SDeliver ident who) now d = fst (deliver_row ident who now (\<lambda>_. False) d)"
| "outbox_effect (SFail ident who retry cause) now d = fst (fail_row ident who (now + retry) cause now (\<lambda>_. False) d)"
| "outbox_effect (SRequeue req) now d = fst (requeue_row req now (\<lambda>_. False) d)"
| "outbox_effect (SDiscard req) now d = fst (discard_row req now (\<lambda>_. False) d)"
| "outbox_effect (SSweep delivered age n locked) now d = fst (if delivered
     then delete_retainable OutboxDelivered obx_DeliveredAt (now - age) n locked d
     else delete_retainable OutboxDiscarded obx_DiscardedAt (now - age) n locked d)"

text \<open>What the methods check or make sure of before they issue a statement.\<close>

fun outbox_issued :: "outbox_stmt \<Rightarrow> bool" where
  "outbox_issued (SFail ident who retry cause) \<longleftrightarrow> length cause \<le> maxCauseLen"
| "outbox_issued (SRequeue req) \<longleftrightarrow> 1 \<le> mr_ExpectedGeneration req"
| "outbox_issued (SDiscard req) \<longleftrightarrow> 1 \<le> mr_ExpectedGeneration req"
| "outbox_issued (SSweep delivered age n locked) \<longleftrightarrow> 0 < age"
| "outbox_issued _ \<longleftrightarrow> True"

definition outbox_stmt_exec :: "outbox_stmt \<Rightarrow> Time \<Rightarrow> pg_db \<Rightarrow> pg_db" where
  "outbox_stmt_exec st now d = (if outbox_issued st then outbox_effect st now d else d)"

fun outbox_stmt_call :: "outbox_stmt \<Rightarrow> outbox_call" where
  "outbox_stmt_call (SEnqueue msg env) = CallPublish msg"
| "outbox_stmt_call (SLease worker lease limit locked) = CallLease \<lparr>ol_WorkerID = worker, ol_LeaseFor = lease, ol_Limit = limit\<rparr>"
| "outbox_stmt_call (SDeliver ident who) = CallMarkDelivered ident who"
| "outbox_stmt_call (SFail ident who retry cause) = CallFail ident who retry cause"
| "outbox_stmt_call (SRequeue req) = CallRequeue req"
| "outbox_stmt_call (SDiscard req) = CallDiscard req"
| "outbox_stmt_call (SSweep delivered age n locked) = CallSweep \<lparr>rs_DeliveredOlderThan = (if delivered then age else 0),
     rs_DiscardedOlderThan = (if delivered then 0 else age), rs_Limit = int n, rs_DryRun = False\<rparr>"

lemma message_at_Some: "message_at d k = Some m \<Longrightarrow> m \<in> set (tb_outbox d) \<and> obx_ID m = k"
  unfolding message_at_def by (rule find_key_Some)

lemma message_at_mem: "distinct (map obx_ID (tb_outbox d)) \<Longrightarrow> m \<in> set (tb_outbox d) \<Longrightarrow> message_at d (obx_ID m) = Some m"
  unfolding message_at_def by (rule find_key_mem)

lemma update_messages:
  assumes "\<And>m. obx_ID (f m) = obx_ID m"
  shows "message_at (fst (on_outbox (sql_update check p f) d)) k =
      (if list_all check (map f (filter p (tb_outbox d))) then map_option (\<lambda>m. if p m then f m else m) (message_at d k) else message_at d k)"
  using assms by (auto simp: on_outbox_def sql_update_def Let_def message_at_def find_map_if)

lemma delete_messages:
  assumes "distinct (map obx_ID (tb_outbox d))"
  shows "message_at (fst (on_outbox (sql_delete p) d)) k = (case message_at d k of None \<Rightarrow> None | Some m \<Rightarrow> if p m then None else Some m)"
  using assms by (auto simp: on_outbox_def sql_delete_def message_at_def find_key_filter split: option.splits)

lemma update_rows_move:
  assumes "\<And>m. obx_ID (f m) = obx_ID m"
    and "\<And>m. m \<in> set (tb_outbox d) \<Longrightarrow> obx_ID m = k \<Longrightarrow> p m \<Longrightarrow> row_move call now k (Some m) (Some (f m))"
  shows "row_move call now k (message_at d k) (message_at (fst (on_outbox (sql_update check p f) d)) k)"
  unfolding update_messages [OF assms(1)]
  using assms(2) by (cases "message_at d k") (auto simp: row_move.stay dest!: message_at_Some)

lemma delete_rows_move:
  assumes "distinct (map obx_ID (tb_outbox d))"
    and "\<And>m. m \<in> set (tb_outbox d) \<Longrightarrow> obx_ID m = k \<Longrightarrow> p m \<Longrightarrow> row_move call now k (Some m) None"
  shows "row_move call now k (message_at d k) (message_at (fst (on_outbox (sql_delete p) d)) k)"
  unfolding delete_messages [OF assms(1)]
  using assms(2) by (cases "message_at d k") (auto simp: row_move.stay dest!: message_at_Some)

text \<open>The updates are the memory adapter's.\<close>

lemma leasable_due: "leasable now m \<longleftrightarrow> due now m"
  by (auto simp: leasable_def due_def not_less split: option.splits)

lemma row_sets:
  "m\<lparr>obx_Status := OutboxLeased, obx_LeasedBy := w, obx_LeaseUntil := Some u, obx_Attempts := obx_Attempts m + 1\<rparr> = leaseRow m w u"
  "m\<lparr>obx_Status := OutboxDelivered, obx_DeliveredAt := Some now, obx_LeaseUntil := None\<rparr> = deliverRow m now"
  "m\<lparr>obx_Status := OutboxPending, obx_Attempts := 0, obx_AvailableAt := now, obx_LeasedBy := [], obx_LeaseUntil := None,
     obx_Generation := obx_Generation m + 1, obx_DeadAt := None\<rparr> = applyRequeue m now"
  "m\<lparr>obx_Status := OutboxDiscarded, obx_LeasedBy := [], obx_LeaseUntil := None, obx_Generation := obx_Generation m + 1,
     obx_DiscardedAt := Some now\<rparr> = applyDiscard m now"
  by (simp_all add: leaseRow_def deliverRow_def applyRequeue_def applyDiscard_def)

lemma fail_set:
  assumes "length cause \<le> maxCauseLen"
  shows "m\<lparr>obx_Status := (if obx_Attempts m \<ge> obx_MaxAttempts m then OutboxDead else OutboxPending),
      obx_AvailableAt := now + retry, obx_LeaseUntil := None, obx_LastError := cause, obx_LeasedBy := [],
      obx_Generation := obx_Generation m + (if obx_Attempts m \<ge> obx_MaxAttempts m then 1 else 0),
      obx_DeadAt := (if obx_Attempts m \<ge> obx_MaxAttempts m then Some now else obx_DeadAt m)\<rparr>
    = failRow (m\<lparr>obx_AvailableAt := now + retry\<rparr>) retry cause now"
  using assms by (cases m) (simp add: failRow_def Let_def)

lemma lease_rows_eq:
  "lease_rows w u now limit locked d = (if limit < 0 then (d, Inl OtherError) else on_outbox (sql_update outbox_check
     (picked_in (sql_pick message_before (\<lambda>m. locked (obx_ID m)) (leasable now) (nat limit) (tb_outbox d))) (\<lambda>m. leaseRow m w u)) d)"
  by (simp add: lease_rows_def on_outbox_def Let_def row_sets)

lemma delete_retainable_eq:
  "delete_retainable status column before n locked d = on_outbox (sql_delete (picked_in
     (sql_pick (retained_before column) (\<lambda>m. locked (obx_ID m)) (retainable status column before) n (tb_outbox d)))) d"
  by (simp add: delete_retainable_def on_outbox_def Let_def)

lemma picked_in_sat:
  assumes "distinct (map obx_ID rs)" and "m \<in> set rs" and "picked_in (sql_pick before locked p n rs) m"
  shows "p m"
  using assms same_key [OF assms(1)] by (auto simp: picked_in_def list_ex_iff dest!: sql_pick_set)

lemma outbox_stmt_moves:
  assumes "distinct (map obx_ID (tb_outbox d))"
  shows "row_move (outbox_stmt_call st) now k (message_at d k) (message_at (outbox_stmt_exec st now d) k)"
proof (cases "outbox_issued st")
  case True
  have "row_move (outbox_stmt_call st) now k (message_at d k) (message_at (outbox_effect st now d) k)"
  proof (cases st)
    case (SEnqueue msg env)
    let ?m = "new_row (om_ID msg) (om_DedupKey msg) (om_TenantID msg) env (om_MaxAttempts msg) now"
    have "row_move (CallPublish msg) now k None (Some ?m)" if "outbox_check ?m"
      using that by (intro row_move.enqueue) (auto simp: outbox_check_def new_row_def)
    then show ?thesis
      unfolding SEnqueue by (auto simp: insert_message_def message_at_def find_snoc list_ex_find row_move.stay split: option.splits)
  next
    case (SLease w lease limit locked)
    let ?req = "\<lparr>ol_WorkerID = w, ol_LeaseFor = lease, ol_Limit = limit\<rparr>"
    have "row_move (CallLease ?req) now k (Some m) (Some (leaseRow m w (now + lease)))" if "due now m" for m
      using row_move.lease [of "CallLease ?req" ?req now m] that by simp
    then show ?thesis
      unfolding SLease outbox_effect.simps outbox_stmt_call.simps lease_rows_eq
      using picked_in_sat [OF assms, where p = "leasable now"] by (auto simp: row_move.stay leasable_due [symmetric] intro!: update_rows_move)
  next
    case (SDeliver ident who)
    show ?thesis
      unfolding SDeliver outbox_effect.simps outbox_stmt_call.simps deliver_row_def row_sets
      by (rule update_rows_move) (auto simp: lessee_def intro: row_move.deliver)
  next
    case (SFail ident who retry cause)
    then have c: "length cause \<le> maxCauseLen" using True by simp
    show ?thesis
      unfolding SFail outbox_effect.simps outbox_stmt_call.simps fail_row_def fail_set [OF c]
      by (rule update_rows_move) (auto simp: lessee_def intro: row_move.fail)
  next
    case (SRequeue req)
    then have "0 < mr_ExpectedGeneration req" using True by simp
    then show ?thesis
      unfolding SRequeue outbox_effect.simps outbox_stmt_call.simps requeue_row_def row_sets
      by (intro update_rows_move) (auto simp: dead_target_def classify_ok intro: row_move.requeue)
  next
    case (SDiscard req)
    then have "0 < mr_ExpectedGeneration req" using True by simp
    then show ?thesis
      unfolding SDiscard outbox_effect.simps outbox_stmt_call.simps discard_row_def row_sets
      by (intro update_rows_move) (auto simp: dead_target_def classify_ok intro: row_move.discard)
  next
    case (SSweep delivered age n locked)
    then have "0 < age" using True by simp
    then have "row_move (outbox_stmt_call st) now k (Some m) None"
      if "retainable (if delivered then OutboxDelivered else OutboxDiscarded) (if delivered then obx_DeliveredAt else obx_DiscardedAt) (now - age) m" for m
      using that unfolding SSweep outbox_stmt_call.simps
      by (intro row_move.sweep) (auto simp: terminal_old_def retainable_def split: option.splits if_splits)
    then show ?thesis
      unfolding SSweep outbox_effect.simps
      using picked_in_sat [OF assms, where p = "retainable (if delivered then OutboxDelivered else OutboxDiscarded) (if delivered then obx_DeliveredAt else obx_DiscardedAt) (now - age)"]
      by (cases delivered) (auto simp: delete_retainable_eq intro!: delete_rows_move [OF assms])
  qed
  then show ?thesis using True by (simp add: outbox_stmt_exec_def)
qed (simp add: outbox_stmt_exec_def row_move.stay)

lemma outbox_stmt_keys:
  assumes "distinct (map obx_ID (tb_outbox d))" and "distinct (map obx_DedupKey (tb_outbox d))"
  shows "distinct (map obx_ID (tb_outbox (outbox_stmt_exec st now d))) \<and> distinct (map obx_DedupKey (tb_outbox (outbox_stmt_exec st now d)))"
proof -
  have upd: "map key (tb_outbox (fst (on_outbox (sql_update check p f) d))) = map key (tb_outbox d)"
    if "\<And>m. key (f m) = key m" for key :: "outboxMessage \<Rightarrow> string" and check p f
    using that by (auto simp: on_outbox_def sql_update_def Let_def)
  have del: "distinct (map key (tb_outbox (fst (on_outbox (sql_delete p) d))))"
    if "distinct (map key (tb_outbox d))" for key :: "outboxMessage \<Rightarrow> string" and p
    using that by (simp add: on_outbox_def sql_delete_def distinct_map_filter)
  show ?thesis
  proof (cases st)
    case (SEnqueue msg env)
    then show ?thesis
      using assms by (auto simp: outbox_stmt_exec_def insert_message_def list_ex_iff)
  next
    case (SSweep delivered age n locked)
    then show ?thesis using assms del by (auto simp: outbox_stmt_exec_def delete_retainable_eq)
  qed (use assms in \<open>auto simp: outbox_stmt_exec_def lease_rows_eq deliver_row_def fail_row_def requeue_row_def discard_row_def upd\<close>)
qed

interpretation pg_outbox: outbox_machine pg_outbox_ok message_at outbox_stmt_exec outbox_stmt_call
proof
  fix d st now k assume ok: "pg_outbox_ok d"
  then have k: "distinct (map obx_ID (tb_outbox d))" "distinct (map obx_DedupKey (tb_outbox d))" by (simp_all add: pg_outbox_ok_def)
  show "row_move (outbox_stmt_call st) now k (message_at d k) (message_at (outbox_stmt_exec st now d) k)" by (rule outbox_stmt_moves [OF k(1)])
  note keys = outbox_stmt_keys [OF k, of st now]
  have "row_ok m" if "m \<in> set (tb_outbox (outbox_stmt_exec st now d))" for m
  proof (rule row_move_ok [OF outbox_stmt_moves [OF k(1)]])
    show "message_at (outbox_stmt_exec st now d) (obx_ID m) = Some m" using keys that by (simp add: message_at_mem)
    show "row_ok m'" if "message_at d (obx_ID m) = Some m'" for m' using message_at_Some [OF that] ok by (simp add: pg_outbox_ok_def)
  qed
  then show "pg_outbox_ok (outbox_stmt_exec st now d)" using keys by (simp add: pg_outbox_ok_def)
qed

interpretation outbox_sessions: session_system outbox_stmt_exec "\<lambda>_. ()" "\<lambda>_. True"
  by unfold_locales simp

subsection \<open>Methods as runs of statements\<close>

text \<open>A caller's statements carry instants of its clock, and acknowledge or fail only what the call does.\<close>

definition voice :: "Conn \<Rightarrow> outbox_call \<Rightarrow> Time \<times> outbox_stmt \<Rightarrow> bool" where
  "voice cn call ts \<longleftrightarrow> (\<exists>n. fst ts = cn_ts cn (cn_clock cn n)) \<and> (\<forall>i w. acts_as (outbox_stmt_call (snd ts)) i w \<longrightarrow> acts_as call i w)"

definition resolves_age :: "Conn \<Rightarrow> bool" where
  "resolves_age cn \<longleftrightarrow> (\<forall>n age. 0 < age \<longrightarrow> cn_ts cn (cn_clock cn n - age) < cn_ts cn (cn_clock cn n))"

fun pg_outbox_call :: "Conn \<Rightarrow> outbox_call \<Rightarrow> unit pg_op" where
  "pg_outbox_call cn (CallPublish msg) = Pg_Publish cn msg"
| "pg_outbox_call cn (CallLease req) = seq_op (Pg_Lease cn req) (\<lambda>_. return_op ())"
| "pg_outbox_call cn (CallMarkDelivered ident leasedBy) = Pg_MarkDelivered cn ident leasedBy"
| "pg_outbox_call cn (CallFail ident leasedBy retryIn cause) = Pg_FailWithBackoff cn ident leasedBy retryIn cause"
| "pg_outbox_call cn (CallRequeue req) = seq_op (Pg_RequeueDeadLetter cn req) (\<lambda>_. return_op ())"
| "pg_outbox_call cn (CallDiscard req) = seq_op (Pg_DiscardDeadLetter cn req) (\<lambda>_. return_op ())"
| "pg_outbox_call cn (CallSweep req) = seq_op (Pg_SweepRetention cn req) (\<lambda>_. return_op ())"
| "pg_outbox_call cn (CallAppend evt) = return_op ()"

abbreviation outbox_guar :: "(Time \<times> outbox_stmt \<Rightarrow> bool) \<Rightarrow> pg \<Rightarrow> pg \<Rightarrow> bool" where
  "outbox_guar \<equiv> guarantees outbox_stmt_exec (\<lambda>_. ()) (\<lambda>_. True)"

lemma outbox_now: "pg_now cn s = (s', Inr now) \<Longrightarrow> \<exists>n. now = cn_clock cn n"
  by (auto simp: pg_now_def)

lemma pure_Inr: "pure_pg r s = (s', Inr x) \<Longrightarrow> r = Inr x"
  by (simp add: pure_pg_def)

lemma mutation_generation: "OutboxMutationRequest_Validate req = Inr u \<Longrightarrow> 1 \<le> mr_ExpectedGeneration req"
  by (auto simp: OutboxMutationRequest_Validate_def split: if_splits sum.splits)

lemma guar_exec:
  assumes "env_runs outbox_stmt_exec cn P" and "\<And>locked d. fst (f locked d) = d \<or> (\<exists>st. P (t, st) \<and> fst (f locked d) = outbox_stmt_exec st t d)"
  shows "op_rel (outbox_guar P) (exec_stmt cn f)" "op_rel (outbox_guar P) (query_rows cn f)"
  unfolding exec_stmt_def query_rows_def using assms(2) by (intro outbox_sessions.guar_stmt [OF assms(1)]; blast)+

lemma guar_one:
  assumes "env_runs outbox_stmt_exec cn P" and "\<And>locked. P (t, st locked)" and "\<And>locked d. fst (f locked d) = outbox_stmt_exec (st locked) t d"
  shows "op_rel (outbox_guar P) (exec_stmt cn f)" "op_rel (outbox_guar P) (query_rows cn f)"
  unfolding exec_stmt_def query_rows_def by (rule outbox_sessions.guar_run_stmt [OF assms])+

lemma guar_must_affect [guars]: "op_rel (outbox_guar P) (must_affect rows)"
  by (simp add: must_affect_def guars)

lemma guar_load [guars]: "env_runs outbox_stmt_exec cn P \<Longrightarrow> op_rel (outbox_guar P) (loadOperatorTarget cn tn k)"
  unfolding loadOperatorTarget_def by (intro guars) (auto intro: guars split: list.splits)

lemma stmt_forms:
  "pending_row cn msg t = Some m \<Longrightarrow> fst (insert_message (pending_row cn msg t) locked d) = outbox_stmt_exec (SEnqueue msg (obx_Envelope m)) t d"
  "pending_row cn msg t = None \<Longrightarrow> fst (insert_message (pending_row cn msg t) locked d) = d"
  "fst (lease_rows w u t limit locked d) = outbox_stmt_exec (SLease w (u - t) limit locked) t d"
  "fst (deliver_row i w t locked d) = outbox_stmt_exec (SDeliver i w) t d"
  "length cause \<le> maxCauseLen \<Longrightarrow> fst (fail_row i w r cause t locked d) = outbox_stmt_exec (SFail i w (r - t) cause) t d"
  "1 \<le> mr_ExpectedGeneration req \<Longrightarrow> fst (requeue_row req t locked d) = outbox_stmt_exec (SRequeue req) t d"
  "1 \<le> mr_ExpectedGeneration req \<Longrightarrow> fst (discard_row req t locked d) = outbox_stmt_exec (SDiscard req) t d"
  "b < t \<Longrightarrow> fst (delete_retainable OutboxDelivered obx_DeliveredAt b n locked d) = outbox_stmt_exec (SSweep True (t - b) n locked) t d"
  "b < t \<Longrightarrow> fst (delete_retainable OutboxDiscarded obx_DiscardedAt b n locked d) = outbox_stmt_exec (SSweep False (t - b) n locked) t d"
  by (auto simp: outbox_stmt_exec_def pending_row_def new_row_def insert_message_def deliver_row_def fail_row_def requeue_row_def discard_row_def)

lemma truncateCause_bound: "length (truncateCause cause) \<le> maxCauseLen"
  by (simp add: truncateCause_def maxCauseLen_def)

lemma guar_mutate:
  assumes "env_runs outbox_stmt_exec cn P" and "\<And>n. op_rel (outbox_guar P) (exec_stmt cn (update (cn_ts cn (cn_clock cn n))))"
  shows "op_rel (outbox_guar P) (mutate_dead cn req action update)"
  unfolding mutate_dead_def using assms by (intro guars) (auto intro!: guars dest!: outbox_now)

lemma guar_sweep:
  assumes "\<And>status column b limit. (status, column) \<in> {(OutboxDelivered, obx_DeliveredAt), (OutboxDiscarded, obx_DiscardedAt)} \<Longrightarrow>
      (\<exists>age > 0. b = cutoff - age) \<Longrightarrow> op_rel (outbox_guar P) (take_class status column b limit)"
  shows "op_rel (outbox_guar P) (sweep_round take_class req cutoff)"
  unfolding sweep_round_def by (intro guars) (auto intro!: guars assms)

theorem outbox_methods_are_statements:
  assumes env: "env_runs outbox_stmt_exec cn P" and P: "\<And>t st. voice cn call (t, st) \<Longrightarrow> P (t, st)" and "deletes call \<Longrightarrow> resolves_age cn"
  shows "op_rel (outbox_guar P) (pg_outbox_call cn call)"
proof -
  have at: "P (cn_ts cn (cn_clock cn n), st)" if "\<And>i w. acts_as (outbox_stmt_call st) i w \<Longrightarrow> acts_as call i w" for n st
    using P that by (auto simp: voice_def)
  show ?thesis
  proof (cases call)
    case (CallPublish msg)
    have "op_rel (outbox_guar P) (exec_stmt cn (insert_message (pending_row cn msg (cn_ts cn (cn_clock cn n)))))" for n
    proof (rule guar_exec(1) [OF env, where t = "cn_ts cn (cn_clock cn n)"])
      fix locked d
      show "fst (insert_message (pending_row cn msg (cn_ts cn (cn_clock cn n))) locked d) = d \<or> (\<exists>st. P (cn_ts cn (cn_clock cn n), st)
          \<and> fst (insert_message (pending_row cn msg (cn_ts cn (cn_clock cn n))) locked d) = outbox_stmt_exec st (cn_ts cn (cn_clock cn n)) d)"
      proof (cases "pending_row cn msg (cn_ts cn (cn_clock cn n))")
        case None
        then show ?thesis using stmt_forms(2) by blast
      next
        case (Some m)
        then show ?thesis using stmt_forms(1) at by (metis acts_as.simps(3) outbox_stmt_call.simps(1))
      qed
    qed
    then show ?thesis by (auto simp: CallPublish Pg_Publish_def intro!: guars dest!: outbox_now)
  next
    case (CallLease req)
    have "op_rel (outbox_guar P) (query_rows cn (lease_rows w u (cn_ts cn (cn_clock cn n)) limit))" for w u limit n
      by (rule guar_one [OF env, where st = "\<lambda>locked. SLease w (u - cn_ts cn (cn_clock cn n)) limit locked" and t = "cn_ts cn (cn_clock cn n)"])
        (auto simp: stmt_forms intro: at)
    then show ?thesis by (auto simp: CallLease Pg_Lease_def intro!: guars dest!: outbox_now)
  next
    case (CallMarkDelivered i w)
    have "op_rel (outbox_guar P) (exec_stmt cn (deliver_row i w (cn_ts cn (cn_clock cn n))))" for n
      by (rule guar_one [OF env, where st = "\<lambda>_. SDeliver i w" and t = "cn_ts cn (cn_clock cn n)"]) (auto simp: stmt_forms CallMarkDelivered intro: at)
    then show ?thesis by (auto simp: CallMarkDelivered Pg_MarkDelivered_def intro!: guars dest!: outbox_now)
  next
    case (CallFail i w retryIn cause)
    have "op_rel (outbox_guar P) (exec_stmt cn (text_param cn (truncateCause cause) (fail_row i w r (truncateCause cause) (cn_ts cn (cn_clock cn n)))))" for r n
    proof (rule guar_exec(1) [OF env, where t = "cn_ts cn (cn_clock cn n)"])
      fix locked d
      have "P (cn_ts cn (cn_clock cn n), SFail i w (r - cn_ts cn (cn_clock cn n)) (truncateCause cause))" by (rule at) (simp add: CallFail)
      then show "fst (text_param cn (truncateCause cause) (fail_row i w r (truncateCause cause) (cn_ts cn (cn_clock cn n))) locked d) = d \<or> (\<exists>st. P (cn_ts cn (cn_clock cn n), st)
          \<and> fst (text_param cn (truncateCause cause) (fail_row i w r (truncateCause cause) (cn_ts cn (cn_clock cn n))) locked d) = outbox_stmt_exec st (cn_ts cn (cn_clock cn n)) d)"
        unfolding text_param_def using stmt_forms(5) [OF truncateCause_bound] by (cases "cn_text cn (truncateCause cause)") auto
    qed
    then show ?thesis by (auto simp: CallFail Pg_FailWithBackoff_def intro!: guars dest!: outbox_now)
  next
    case (CallRequeue req)
    have "op_rel (outbox_guar P) (exec_stmt cn (requeue_row req (cn_ts cn (cn_clock cn n))))" if "1 \<le> mr_ExpectedGeneration req" for n
      by (rule guar_one [OF env, where st = "\<lambda>_. SRequeue req" and t = "cn_ts cn (cn_clock cn n)"]) (use that in \<open>auto simp: stmt_forms intro: at\<close>)
    then show ?thesis
      using env by (auto simp: CallRequeue Pg_RequeueDeadLetter_def intro!: guars guar_mutate dest!: pure_Inr mutation_generation)
  next
    case (CallDiscard req)
    have "op_rel (outbox_guar P) (exec_stmt cn (discard_row req (cn_ts cn (cn_clock cn n))))" if "1 \<le> mr_ExpectedGeneration req" for n
      by (rule guar_one [OF env, where st = "\<lambda>_. SDiscard req" and t = "cn_ts cn (cn_clock cn n)"]) (use that in \<open>auto simp: stmt_forms intro: at\<close>)
    then show ?thesis
      using env by (auto simp: CallDiscard Pg_DiscardDeadLetter_def intro!: guars guar_mutate dest!: pure_Inr mutation_generation)
  next
    case (CallSweep req)
    have del: "op_rel (outbox_guar P) (deleteRetainableBatch cn status column (cn_clock cn n - age) limit)"
      if "(status, column) \<in> {(OutboxDelivered, obx_DeliveredAt), (OutboxDiscarded, obx_DiscardedAt)}" "0 < age" "\<not> rs_DryRun req" for status column age limit n
    proof -
      let ?t = "cn_ts cn (cn_clock cn n)" and ?b = "cn_ts cn (cn_clock cn n - age)"
      have lt: "?b < ?t" using assms(3) that(2,3) CallSweep by (simp add: resolves_age_def)
      have "op_rel (outbox_guar P) (exec_stmt cn (delete_retainable status column ?b (nat limit)))"
        by (rule guar_one [OF env, where st = "\<lambda>locked. SSweep (status = OutboxDelivered) (?t - ?b) (nat limit) locked" and t = ?t])
          (use that(1) lt in \<open>auto simp: stmt_forms intro: at\<close>)
      then show ?thesis unfolding deleteRetainableBatch_def by (intro guars)
    qed
    have "op_rel (outbox_guar P) (countRetainable cn status column b limit)" for status column b limit
      unfolding countRetainable_def using env by (intro guars)
    then show ?thesis
      using env del by (auto simp: CallSweep Pg_SweepRetention_def intro!: guars guar_sweep dest!: outbox_now)
  qed (simp add: guars)
qed

subsection \<open>Exclusion\<close>

definition early :: "Time \<Rightarrow> string \<Rightarrow> string \<Rightarrow> Time \<times> outbox_stmt \<Rightarrow> bool" where
  "early e ident worker ts \<longleftrightarrow> fst ts < e \<and> \<not> acts_as (outbox_stmt_call (snd ts)) ident worker"

lemma leased_message_kept:
  assumes "pg_outbox_ok d" and "message_at d k = Some m" and "obx_Status m = OutboxLeased" and "obx_LeaseUntil m = Some e"
    and "runs_of outbox_stmt_exec (early e k (obx_LeasedBy m)) d d'"
  shows "message_at d' k = Some m"
proof -
  obtain calls where calls: "list_all (early e k (obx_LeasedBy m)) calls" "d' = run_calls outbox_stmt_exec d calls" using assms(5) by (auto simp: runs_of_def)
  show ?thesis
    unfolding calls(2) using calls(1) message_at_Some [OF assms(2)]
    by (intro pg_outbox.lease_kept [OF assms(1-4)]) (auto simp: list_all_iff early_def)
qed

lemma runs_outbox_ok: "runs_of outbox_stmt_exec P d d' \<Longrightarrow> pg_outbox_ok d \<Longrightarrow> pg_outbox_ok d'"
  by (auto simp: runs_of_def intro: pg_outbox.calls_ok)

lemma fst_seq_return: "fst (seq_op m (\<lambda>_. return_op x) s) = fst (m s)"
  by (simp add: seq_op_def return_op_def split: prod.splits sum.splits)

text \<open>What a lease returns: messages that were due, each now leased in the table.\<close>

lemma Pg_Lease_ok:
  assumes "Pg_Lease cn req s = (s1, Inr msgs)" and "pg_tx s = None" and "\<And>rows. set (cn_returning cn rows) = set rows" and "msg \<in> set msgs"
  defines "d \<equiv> cn_others cn (pg_stmts s) (pg_db s)" and "t \<equiv> cn_ts cn (cn_clock cn (pg_ticks s))"
    and "e \<equiv> cn_ts cn (cn_clock cn (pg_ticks s) + ol_LeaseFor req)"
  assumes "pg_outbox_ok d"
  obtains m where "m \<in> set (tb_outbox d)" "due t m" "msg = outMessage (leaseRow m (ol_WorkerID req) e)"
    "message_at (pg_db s1) (om_ID msg) = Some (leaseRow m (ol_WorkerID req) e)"
proof -
  let ?f = "\<lambda>m. leaseRow m (ol_WorkerID req) e" and ?locked = "cn_locked cn (pg_stmts s)"
  let ?p = "picked_in (sql_pick message_before (\<lambda>m. ?locked (obx_ID m)) (leasable t) (nat (ol_Limit req)) (tb_outbox d))"
  have keys: "distinct (map obx_ID (tb_outbox d))" using assms(8) by (simp add: pg_outbox_ok_def)
  have l: "lease_rows (ol_WorkerID req) e t (ol_Limit req) ?locked d = (pg_db s1, Inr (map ?f (filter ?p (tb_outbox d))))"
    and msgs: "msgs = map outMessage (cn_returning cn (map ?f (filter ?p (tb_outbox d))))"
    using assms(1,2) unfolding Pg_Lease_def outMessage_def [abs_def] d_def t_def e_def
    by (auto simp: seq_op_def pg_now_def query_rows_def mapped_op_def run_stmt_def Let_def store_writes_def return_op_def lease_rows_eq
        on_outbox_def sql_update_def split: fate.splits prod.splits sum.splits if_splits)
  obtain m where m: "m \<in> set (tb_outbox d)" "?p m" "msg = outMessage (?f m)" using assms(4) by (auto simp: msgs assms(3))
  have "message_at (pg_db s1) (obx_ID m) = Some (?f m)"
    using l m(2) message_at_mem [OF keys m(1)] update_messages [of ?f outbox_check ?p d "obx_ID m"]
    by (auto simp: lease_rows_eq on_outbox_def sql_update_def Let_def split: if_splits)
  moreover have "om_ID msg = obx_ID m" by (simp add: m(3) outMessage_def leaseRow_def)
  ultimately show ?thesis using that m(1,3) picked_in_sat [OF keys m(1,2)] by (simp add: leasable_due)
qed

text \<open>
  C17: a leased delivery is exclusive in PostgreSQL too, between sessions that interleave statement by statement. Once a
  dispatcher was given a message, then, while other sessions run any statements before the deadline other than that worker's own
  acknowledgement or failure, another dispatcher's lease, itself interrupted by such statements, losing its
  connection or skipping locked rows, does not return the message, and the row still says what the first one was told.
\<close>

theorem pg_delivery_exclusive:
  assumes db: "pg_outbox_ok (pg_db s)" "pg_tx s = None" "env_runs outbox_stmt_exec cn (\<lambda>_. True)" "\<And>rows. set (cn_returning cn rows) = set rows"
    and lease: "Pg_Lease cn req s = (s1, Inr msgs)" "msg \<in> set msgs" and e: "e = cn_ts cn (cn_clock cn (pg_ticks s) + ol_LeaseFor req)"
    and between: "runs_of outbox_stmt_exec (early e (om_ID msg) (ol_WorkerID req)) (pg_db s1) (pg_db s2)" "pg_tx s2 = None"
    and env2: "env_runs outbox_stmt_exec cn2 (early e (om_ID msg) (ol_WorkerID req))" "\<forall>n. cn_ts cn2 (cn_clock cn2 n) < e"
      "\<And>rows. set (cn_returning cn2 rows) = set rows"
    and again: "Pg_Lease cn2 req2 s2 = (s3, r)"
  shows "(\<forall>msgs2. r = Inr msgs2 \<longrightarrow> om_ID msg \<notin> om_ID ` set msgs2)
    \<and> (\<exists>m. message_at (pg_db s3) (om_ID msg) = Some m \<and> outMessage m = msg \<and> obx_Status m = OutboxLeased
         \<and> obx_LeasedBy m = ol_WorkerID req \<and> obx_LeaseUntil m = Some e)"
proof -
  let ?k = "om_ID msg" and ?P = "early e (om_ID msg) (ol_WorkerID req)" and ?T = "\<lambda>_. True"
  have okd: "pg_outbox_ok (cn_others cn n (pg_db s))" for n
    using db(1,3) by (auto simp: env_runs_def intro: runs_outbox_ok)
  obtain m0 where m0: "msg = outMessage (leaseRow m0 (ol_WorkerID req) e)" "message_at (pg_db s1) ?k = Some (leaseRow m0 (ol_WorkerID req) e)"
    using Pg_Lease_ok [OF lease(1) db(2,4) lease(2) okd] e by metis
  define m where "m = leaseRow m0 (ol_WorkerID req) e"
  have m: "obx_Status m = OutboxLeased" "obx_LeaseUntil m = Some e" "obx_LeasedBy m = ol_WorkerID req" "outMessage m = msg" "message_at (pg_db s1) ?k = Some m"
    using m0 by (simp_all add: m_def) (simp_all add: leaseRow_def)
  have guar: "outbox_guar Q st (fst (Pg_Lease c rq st))" if "env_runs outbox_stmt_exec c Q" "\<And>t st. voice c (CallLease rq) (t, st) \<Longrightarrow> Q (t, st)" for Q c rq st
    using outbox_methods_are_statements [of c Q "CallLease rq"] that by (simp add: op_rel_def fst_seq_return)
  have run1: "runs_of outbox_stmt_exec ?T (pg_db s) (pg_db s1)"
    using guar [OF db(3), of req s] db(2) lease(1) by (simp add: guarantees_def outbox_sessions.runs_refl)
  note ok1 = runs_outbox_ok [OF run1 db(1)] and ok2 = runs_outbox_ok [OF between(1) runs_outbox_ok [OF run1 db(1)]]
  have keep: "message_at d' ?k = Some m" if "runs_of outbox_stmt_exec ?P (pg_db s1) d'" for d'
    using leased_message_kept [OF ok1 m(5,1,2)] that m(3) by simp
  have run3: "runs_of outbox_stmt_exec ?P (pg_db s2) (pg_db s3)"
    using guar [OF env2(1), of req2 s2] between(2) again env2(2) by (auto simp: guarantees_def outbox_sessions.runs_refl voice_def early_def)
  have at3: "message_at (pg_db s3) ?k = Some m" using outbox_sessions.runs_trans [OF between(1) run3] by (rule keep)
  have "?k \<notin> om_ID ` set msgs2" if r: "r = Inr msgs2" for msgs2
  proof
    assume "?k \<in> om_ID ` set msgs2"
    then obtain msg2 where msg2: "msg2 \<in> set msgs2" "om_ID msg2 = ?k" by auto
    let ?d = "cn_others cn2 (pg_stmts s2) (pg_db s2)"
    have rd: "runs_of outbox_stmt_exec ?P (pg_db s2) ?d" using env2(1) by (simp add: env_runs_def)
    obtain m2 where m2: "m2 \<in> set (tb_outbox ?d)" "due (cn_ts cn2 (cn_clock cn2 (pg_ticks s2))) m2" "obx_ID m2 = ?k"
      using Pg_Lease_ok [OF again [unfolded r] between(2) env2(3) msg2(1) runs_outbox_ok [OF rd ok2]] msg2(2)
      by (metis (no_types, lifting) outMessage_def leaseRow_def OutboxMessage.select_convs(1) row_updates_ident(1))
    have "message_at ?d ?k = Some m" using outbox_sessions.runs_trans [OF between(1) rd] by (rule keep)
    then have "m2 = m" using message_at_mem [OF _ m2(1)] runs_outbox_ok [OF rd ok2] m2(3) by (simp add: pg_outbox_ok_def)
    then show False using m2(2) m(1,2) env2(2) by (simp add: due_def not_less)
  qed
  then show ?thesis using at3 m by blast
qed

text \<open>A dispatcher leases the only message, and a second one, overtaken by a third, comes before the deadline.\<close>

definition ex_queue :: pg_db where
  "ex_queue = empty_db\<lparr>tb_outbox := [new_row ''m1'' ''d1'' ex_tenant ''{}'' 1 0]\<rparr>"

definition ex_overtaken :: Conn where
  "ex_overtaken = ex_conn\<lparr>cn_clock := \<lambda>_. 12, cn_others := \<lambda>_. outbox_stmt_exec (SLease ''C'' 10 1 (\<lambda>_. False)) 11\<rparr>"

lemma ex_queue_ok: "pg_outbox_ok ex_queue"
  by (simp add: pg_outbox_ok_def ex_queue_def row_ok_new)

lemma ex_queue_lease:
  defines "m \<equiv> leaseRow (new_row ''m1'' ''d1'' ex_tenant ''{}'' 1 0) ''A'' 15"
  shows "Pg_Lease ex_conn (ex_take ''A'') (on_session ex_queue) =
    ((on_session ex_queue)\<lparr>pg_db := ex_queue\<lparr>tb_outbox := [m]\<rparr>, pg_ticks := 1, pg_stmts := 1\<rparr>, Inr [outMessage m])"
proof -
  have "lease_rows ''A'' 15 5 (ol_Limit (ex_take ''A'')) (\<lambda>_. False) ex_queue = (ex_queue\<lparr>tb_outbox := [m]\<rparr>, Inr [m])"
    by (simp add: lease_rows_eq ex_take_def on_outbox_def sql_update_def sql_pick_def picked_in_def ex_queue_def leasable_def outbox_check_def m_def leaseRow_def new_row_def Let_def)
  then show ?thesis
    by (simp add: Pg_Lease_def ex_take_def ex_conn_def on_session_def seq_op_def pg_now_def query_rows_def mapped_op_def run_stmt_def Let_def store_writes_def
        return_op_def outMessage_def)
qed

theorem pg_delivery_exclusive_witness:
  "\<exists>s1 msg s3 r. Pg_Lease ex_conn (ex_take ''A'') (on_session ex_queue) = (s1, Inr [msg]) \<and> Pg_Lease ex_overtaken (ex_take ''B'') s1 = (s3, r)
     \<and> (\<exists>m. message_at (pg_db s3) (om_ID msg) = Some m \<and> obx_LeasedBy m = ''A'' \<and> obx_LeaseUntil m = Some 15)"
proof -
  let ?s1 = "fst (Pg_Lease ex_conn (ex_take ''A'') (on_session ex_queue))"
  let ?msg = "outMessage (leaseRow (new_row ''m1'' ''d1'' ex_tenant ''{}'' 1 0) ''A'' 15)"
  have l: "Pg_Lease ex_conn (ex_take ''A'') (on_session ex_queue) = (?s1, Inr [?msg])" by (simp add: ex_queue_lease)
  have tx: "pg_tx ?s1 = None" by (simp add: ex_queue_lease) (simp add: on_session_def)
  obtain s3 r where b: "Pg_Lease ex_overtaken (ex_take ''B'') ?s1 = (s3, r)" by (rule prod.exhaust)
  have "env_runs outbox_stmt_exec ex_overtaken (early 15 (om_ID ?msg) (ol_WorkerID (ex_take ''A'')))"
    by (auto simp: env_runs_def ex_overtaken_def early_def intro!: outbox_sessions.runs_one)
  then have "\<exists>m. message_at (pg_db s3) (om_ID ?msg) = Some m \<and> outMessage m = ?msg \<and> obx_Status m = OutboxLeased
      \<and> obx_LeasedBy m = ol_WorkerID (ex_take ''A'') \<and> obx_LeaseUntil m = Some 15"
    by (intro pg_delivery_exclusive [THEN conjunct2, OF _ _ _ _ l _ _ outbox_sessions.runs_refl tx _ _ _ b])
      (auto simp: on_session_def ex_queue_ok ex_conn_def ex_overtaken_def ex_take_def ex_queue_lease env_runs_def outbox_sessions.runs_refl)
  then show ?thesis using l b by (auto simp: ex_take_def)
qed

end
