(* ===== verification/PG_Operator.thy ===== *)
theory PG_Operator
  imports PG_Outbox_Laws
begin

section \<open>Operator actions in PostgreSQL\<close>

text \<open>
  Requeue and discard are units of work of two statements, so between the look and the update another operator may act.
  The generation decides: a message that left an epoch never comes back to it.
\<close>

subsection \<open>Epochs\<close>

text \<open>A message that is dead in epoch \<open>g\<close> stays so until it leaves the epoch for good (or the table).\<close>

definition left_epoch :: "int \<Rightarrow> outboxMessage option \<Rightarrow> bool" where
  "left_epoch g om \<longleftrightarrow> (case om of None \<Rightarrow> True | Some m \<Rightarrow> g < obx_Generation m)"

definition in_epoch :: "int \<Rightarrow> string \<Rightarrow> outboxMessage option \<Rightarrow> bool" where
  "in_epoch g tn om \<longleftrightarrow> left_epoch g om \<or> (\<exists>m. om = Some m \<and> obx_Generation m = g \<and> obx_Status m = OutboxDead \<and> obx_TenantID m = tn)"

definition other_id :: "string \<Rightarrow> Time \<times> outbox_stmt \<Rightarrow> bool" where
  "other_id k ts \<longleftrightarrow> (\<forall>msg env. snd ts = SEnqueue msg env \<longrightarrow> om_ID msg \<noteq> k)"

lemma epoch_step:
  assumes "pg_outbox_ok d" and "other_id k (t, st)"
  shows "left_epoch g (message_at d k) \<Longrightarrow> left_epoch g (message_at (outbox_stmt_exec st t d) k)"
    and "in_epoch g tn (message_at d k) \<Longrightarrow> in_epoch g tn (message_at (outbox_stmt_exec st t d) k)"
proof -
  have mv: "row_move (outbox_stmt_call st) t k (message_at d k) (message_at (outbox_stmt_exec st t d) k)"
    using assms(1) by (simp add: outbox_stmt_moves pg_outbox_ok_def)
  have none: "message_at (outbox_stmt_exec st t d) k = None" if "message_at d k = None"
  proof (cases st)
    case (SEnqueue msg env)
    then have "om_ID msg \<noteq> k" using assms(2) by (auto simp: other_id_def)
    then show ?thesis using that by (auto simp: SEnqueue outbox_stmt_exec_def insert_message_def message_at_def find_snoc new_row_def)
  qed (use mv that in \<open>auto elim!: row_moveE\<close>)
  show "left_epoch g (message_at (outbox_stmt_exec st t d) k)" if "left_epoch g (message_at d k)"
    using mv that none by (auto elim!: row_moveE simp: left_epoch_def row_updates Let_def)
  show "in_epoch g tn (message_at (outbox_stmt_exec st t d) k)" if "in_epoch g tn (message_at d k)"
    using mv that none by (auto elim!: row_moveE simp: in_epoch_def left_epoch_def row_updates Let_def due_def terminal_old_def)
qed

lemma epoch_runs:
  assumes "pg_outbox_ok d" and "runs_of outbox_stmt_exec (other_id k) d d'"
  shows "left_epoch g (message_at d k) \<Longrightarrow> left_epoch g (message_at d' k)"
    and "in_epoch g tn (message_at d k) \<Longrightarrow> in_epoch g tn (message_at d' k)"
proof -
  obtain calls where calls: "list_all (other_id k) calls" "d' = run_calls outbox_stmt_exec d calls" using assms(2) by (auto simp: runs_of_def)
  have "(left_epoch g (message_at d k) \<longrightarrow> left_epoch g (message_at (run_calls outbox_stmt_exec d calls) k))
      \<and> (in_epoch g tn (message_at d k) \<longrightarrow> in_epoch g tn (message_at (run_calls outbox_stmt_exec d calls) k))"
    using calls(1) assms(1)
  proof (induction calls arbitrary: d)
    case (Cons ts calls)
    obtain t st where ts: "ts = (t, st)" by (cases ts)
    show ?case
      using Cons.IH [OF _ pg_outbox.exec_ok [OF Cons.prems(2)], of st t] Cons.prems epoch_step [OF Cons.prems(2), of k t st] ts by auto
  qed simp
  then show "left_epoch g (message_at d k) \<Longrightarrow> left_epoch g (message_at d' k)"
    and "in_epoch g tn (message_at d k) \<Longrightarrow> in_epoch g tn (message_at d' k)" using calls(2) by blast+
qed

subsection \<open>Statements inside a unit of work\<close>

lemma query_state:
  assumes "query cn f s = (s', r)"
  shows "pg_db s' = cn_others cn (pg_stmts s) (pg_db s)" "sees s' = sees s" "pg_stmts s' = pg_stmts s + 1" "pg_tx s' = None \<longleftrightarrow> pg_tx s = None"
    and "r = Inr x \<Longrightarrow> x = f (sees s (pg_db s'))"
  using assms
  by (cases "pg_tx s"; cases "cn_fate cn (pg_stmts s)";
      auto simp: query_def mapped_op_def run_stmt_def Let_def store_writes_def sees_def fun_eq_iff)+

lemma exec_state:
  assumes "exec_stmt cn f s = (s', Inr x)" and "pg_tx s \<noteq> None"
  defines "d \<equiv> cn_others cn (pg_stmts s) (pg_db s)"
  shows "pg_db s' = d" "sees s' = (\<lambda>d. fst (f (cn_locked cn (pg_stmts s)) (sees s d)))" "pg_stmts s' = pg_stmts s + 1" "pg_tx s' \<noteq> None"
    and "snd (f (cn_locked cn (pg_stmts s)) (sees s d)) = Inr x"
  using assms
  by (cases "cn_fate cn (pg_stmts s)";
      auto simp: exec_stmt_def mapped_op_def run_stmt_def Let_def store_writes_def sees_def fun_eq_iff split: prod.splits sum.splits)+

lemma load_state:
  assumes "loadOperatorTarget cn tn k s = (s', r)"
  shows "pg_db s' = cn_others cn (pg_stmts s) (pg_db s)" "sees s' = sees s" "pg_stmts s' = pg_stmts s + 1" "pg_tx s' = None \<longleftrightarrow> pg_tx s = None"
    and "r = Inr state \<Longrightarrow> distinct (map obx_ID (tb_outbox (sees s (pg_db s')))) \<Longrightarrow>
      \<exists>m. message_at (sees s (pg_db s')) k = Some m \<and> obx_TenantID m = tn \<and> state = \<lparr>ts_status = obx_Status m, ts_attempts = obx_Attempts m, ts_generation = obx_Generation m\<rparr>"
proof -
  let ?f = "\<lambda>d. map (\<lambda>m. \<lparr>ts_status = obx_Status m, ts_attempts = obx_Attempts m, ts_generation = obx_Generation m\<rparr>)
         (filter (\<lambda>m. obx_ID m = k \<and> obx_TenantID m = tn) (tb_outbox d))"
  obtain s1 q where q: "query cn ?f s = (s1, q)" by (rule prod.exhaust)
  have s1: "s' = s1" using assms q by (auto simp: loadOperatorTarget_def seq_op_def throw_op_def return_op_def split: sum.splits list.splits)
  show "pg_db s' = cn_others cn (pg_stmts s) (pg_db s)" "sees s' = sees s" "pg_stmts s' = pg_stmts s + 1" "pg_tx s' = None \<longleftrightarrow> pg_tx s = None"
    unfolding s1 by (rule query_state [OF q])+
  assume r: "r = Inr state" and D: "distinct (map obx_ID (tb_outbox (sees s (pg_db s'))))"
  obtain rest where "q = Inr (state # rest)"
    using assms q r by (auto simp: loadOperatorTarget_def seq_op_def throw_op_def return_op_def split: sum.splits list.splits)
  then have "?f (sees s (pg_db s')) = state # rest" using query_state(5) [OF q] s1 by simp
  from first_selected [OF this] obtain m where "m \<in> set (tb_outbox (sees s (pg_db s')))" "obx_ID m = k" "obx_TenantID m = tn"
    "state = \<lparr>ts_status = obx_Status m, ts_attempts = obx_Attempts m, ts_generation = obx_Generation m\<rparr>" by auto
  then show "\<exists>m. message_at (sees s (pg_db s')) k = Some m \<and> obx_TenantID m = tn
      \<and> state = \<lparr>ts_status = obx_Status m, ts_attempts = obx_Attempts m, ts_generation = obx_Generation m\<rparr>"
    using message_at_mem [OF D] by auto
qed

subsection \<open>The guarded statement\<close>

definition operate_row :: "bool \<Rightarrow> OutboxMutationRequest \<Rightarrow> Time \<Rightarrow> outboxMessage list stmt" where
  "operate_row requeue req = (if requeue then requeue_row req else discard_row req)"

definition operate :: "bool \<Rightarrow> Conn \<Rightarrow> OutboxMutationRequest \<Rightarrow> OutboxMutationResult pg_op" where
  "operate requeue cn req = (if requeue then Pg_RequeueDeadLetter cn req else Pg_DiscardDeadLetter cn req)"

definition action_name :: "bool \<Rightarrow> string" where
  "action_name requeue = (if requeue then ''requeue'' else ''discard'')"

lemma operate_eq:
  "operate b cn req = seq_op (pure_pg (OutboxMutationRequest_Validate req)) (\<lambda>_. pg_Do cn (mutate_dead cn req (action_name b) (operate_row b req)))"
  by (simp add: operate_def Pg_RequeueDeadLetter_def Pg_DiscardDeadLetter_def operate_row_def action_name_def)

definition is_target :: "OutboxMutationRequest \<Rightarrow> pg_db \<Rightarrow> bool" where
  "is_target req d \<longleftrightarrow> (\<exists>m. message_at d (mr_MessageID req) = Some m \<and> dead_target req m)"

lemma operate_row_eq:
  "operate_row b req t locked d = on_outbox (sql_update outbox_check (dead_target req) (\<lambda>m. if b then applyRequeue m t else applyDiscard m t)) d"
  by (cases b) (simp_all add: operate_row_def requeue_row_def discard_row_def row_sets)

lemma operate_row_acts:
  assumes "pg_outbox_ok d"
  shows "is_target req d \<Longrightarrow> \<exists>m. message_at (fst (operate_row b req t locked d)) (mr_MessageID req) = Some m \<and> obx_Generation m = mr_ExpectedGeneration req + 1"
    and "\<not> is_target req d \<Longrightarrow> fst (operate_row b req t locked d) = d"
    and "snd (operate_row b req t locked d) = Inr rows \<Longrightarrow> rows \<noteq> [] \<longleftrightarrow> is_target req d"
proof -
  let ?f = "\<lambda>m. if b then applyRequeue m t else applyDiscard m t" and ?k = "mr_MessageID req"
  have D: "distinct (map obx_ID (tb_outbox d))" using assms by (simp add: pg_outbox_ok_def)
  have fk: "filter (dead_target req) (tb_outbox d) = (case message_at d ?k of None \<Rightarrow> [] | Some m \<Rightarrow> if dead_target req m then [m] else [])"
    unfolding message_at_def using D by (rule filter_key) (simp add: dead_target_def)
  have chk: "list_all outbox_check (map ?f (filter (dead_target req) (tb_outbox d)))"
    using assms by (auto simp: list_all_iff outbox_check_def pg_outbox_ok_def row_ok_def applyRequeue_def applyDiscard_def)
  have at: "message_at (fst (operate_row b req t locked d)) ?k = map_option (\<lambda>m. if dead_target req m then ?f m else m) (message_at d ?k)"
    unfolding operate_row_eq using update_messages [of ?f outbox_check "dead_target req" d ?k] chk by simp
  show "\<exists>m. message_at (fst (operate_row b req t locked d)) ?k = Some m \<and> obx_Generation m = mr_ExpectedGeneration req + 1" if target: "is_target req d"
  proof -
    obtain m where m: "message_at d ?k = Some m" "dead_target req m" using target by (auto simp: is_target_def)
    have "obx_Generation (?f m) = mr_ExpectedGeneration req + 1" using m(2) by (simp add: dead_target_def applyRequeue_def applyDiscard_def)
    then show ?thesis using at m by simp
  qed
  show "fst (operate_row b req t locked d) = d" if "\<not> is_target req d"
  proof -
    have "filter (dead_target req) (tb_outbox d) = []" using that fk by (auto simp: is_target_def split: option.splits)
    then have "map (\<lambda>m. if dead_target req m then ?f m else m) (tb_outbox d) = tb_outbox d" by (intro map_idI) (auto simp: filter_empty_conv)
    then show ?thesis by (simp add: operate_row_eq on_outbox_def sql_update_def Let_def)
  qed
  show "rows \<noteq> [] \<longleftrightarrow> is_target req d" if "snd (operate_row b req t locked d) = Inr rows"
    using that chk fk by (auto simp: operate_row_eq on_outbox_def sql_update_def Let_def is_target_def split: option.splits if_splits)
qed

lemma target_epoch: "is_target req d \<Longrightarrow> in_epoch (mr_ExpectedGeneration req) (mr_TenantID req) (message_at d (mr_MessageID req))"
  by (auto simp: is_target_def in_epoch_def dead_target_def)

lemma missed_epoch:
  "in_epoch (mr_ExpectedGeneration req) (mr_TenantID req) (message_at d (mr_MessageID req)) \<Longrightarrow> \<not> is_target req d \<Longrightarrow>
     left_epoch (mr_ExpectedGeneration req) (message_at d (mr_MessageID req))"
  using message_at_Some [of d "mr_MessageID req"] by (auto simp: in_epoch_def is_target_def dead_target_def)

lemma left_not_target: "left_epoch (mr_ExpectedGeneration req) (message_at d (mr_MessageID req)) \<Longrightarrow> \<not> is_target req d"
  by (auto simp: left_epoch_def is_target_def dead_target_def)

lemma classified_target:
  assumes "loadOperatorTarget cn (mr_TenantID req) (mr_MessageID req) s = (s', Inr state)"
    and "classifyOperatorTarget state (mr_ExpectedGeneration req) = Inr u" and "pg_outbox_ok (sees s (pg_db s'))"
  shows "is_target req (sees s (pg_db s'))"
  using load_state(5) [OF assms(1) refl] assms(2,3) message_at_Some [of "sees s (pg_db s')" "mr_MessageID req"]
  by (auto simp: is_target_def dead_target_def classifyOperatorTarget_def pg_outbox_ok_def split: if_splits)

subsection \<open>The unit of work\<close>

text \<open>
  The body of the unit, entered with an empty overlay. If it returns a result, the update found the message in the
  epoch of the credential; a second look after a miss always finds the epoch gone.
\<close>

lemma mutate_acts:
  assumes ok: "pg_outbox_ok (pg_db s)" and tx: "pg_tx s \<noteq> None" "sees s = (\<lambda>d. d)" and env: "env_runs outbox_stmt_exec cn (other_id (mr_MessageID req))"
    and run: "mutate_dead cn req act (operate_row b req) s = (s', Inr res)"
  shows "is_target req (pg_db s')" "\<exists>t locked. sees s' = (\<lambda>d. fst (operate_row b req t locked d))" "pg_tx s' \<noteq> None"
    "pg_db s' = cn_others cn (pg_stmts s + 1) (cn_others cn (pg_stmts s) (pg_db s))" "pg_stmts s' = pg_stmts s + 2"
    "mres_MessageID res = mr_MessageID req" "mres_Action res = act" "mres_Generation res = mr_ExpectedGeneration req + 1"
proof -
  let ?k = "mr_MessageID req" and ?g = "mr_ExpectedGeneration req" and ?tn = "mr_TenantID req"
  have R: "runs_of outbox_stmt_exec (other_id ?k) d (cn_others cn n d)" for n d using env by (simp add: env_runs_def)
  obtain s1 state where l: "loadOperatorTarget cn ?tn ?k s = (s1, Inr state)" and c: "classifyOperatorTarget state ?g = Inr ()"
    using run by (auto simp: mutate_dead_def pure_pg_def elim!: seq_op_Inr)
  note s1 = load_state [OF l]
  have ok1: "pg_outbox_ok (pg_db s1)" unfolding s1(1) by (rule runs_outbox_ok [OF R ok])
  have t1: "is_target req (pg_db s1)" using classified_target [OF l c] tx(2) ok1 by simp
  let ?t = "cn_ts cn (cn_clock cn (pg_ticks s1))" and ?s1 = "s1\<lparr>pg_ticks := pg_ticks s1 + 1\<rparr>"
  obtain s2 rows where u: "exec_stmt cn (operate_row b req ?t) ?s1 = (s2, Inr rows)"
    using run l c by (auto simp: mutate_dead_def seq_op_def pure_pg_def pg_now_def split: prod.splits sum.splits)
  note s2 = exec_state [OF u]
  have tx1: "pg_tx ?s1 \<noteq> None" "sees ?s1 = (\<lambda>d. d)" using s1(2,4) tx by (simp_all add: sees_def fun_eq_iff)
  have db2: "pg_db s2 = cn_others cn (pg_stmts s + 1) (pg_db s1)" "pg_stmts s2 = pg_stmts s + 2" "pg_tx s2 \<noteq> None" using s2(1,3,4) [OF tx1(1)] s1(3) by simp_all
  have ok2: "pg_outbox_ok (pg_db s2)" unfolding db2(1) by (rule runs_outbox_ok [OF R ok1])
  have see2: "sees s2 = (\<lambda>d. fst (operate_row b req ?t (cn_locked cn (pg_stmts ?s1)) d))" using s2(2) [OF tx1(1)] s1(2) tx(2) by simp
  have hit: "rows \<noteq> [] \<longleftrightarrow> is_target req (pg_db s2)"
    using operate_row_acts(3) [OF ok2, of b req ?t "cn_locked cn (pg_stmts s1)" rows] s2(1,5) [OF tx1(1)] s1(2) tx(2) by simp
  have e2: "in_epoch ?g ?tn (message_at (pg_db s2) ?k)"
    using epoch_runs(2) [OF ok1 R target_epoch [OF t1]] db2(1) by simp
  have "rows \<noteq> []"
  proof
    assume none: "rows = []"
    then have left2: "left_epoch ?g (message_at (pg_db s2) ?k)" using missed_epoch [OF e2] hit by simp
    obtain s3 state3 where l3: "loadOperatorTarget cn ?tn ?k s2 = (s3, Inr state3)" and c3: "classifyOperatorTarget state3 ?g = Inr ()"
      using run l c u none by (auto simp: mutate_dead_def seq_op_def pure_pg_def pg_now_def split: prod.splits sum.splits)
    have ok3: "pg_outbox_ok (pg_db s3)" "left_epoch ?g (message_at (pg_db s3) ?k)"
      unfolding load_state(1) [OF l3] using runs_outbox_ok [OF R ok2] epoch_runs(1) [OF ok2 R left2] by simp_all
    have "sees s2 (pg_db s3) = pg_db s3" unfolding see2 by (rule operate_row_acts(2) [OF ok3(1) left_not_target [OF ok3(2)]])
    then have "is_target req (pg_db s3)" using classified_target [OF l3 c3] ok3(1) by simp
    then show False using left_not_target [OF ok3(2)] by simp
  qed
  then have s': "s' = s2" "mres_MessageID res = ?k" "mres_Action res = act" "mres_Generation res = ?g + 1"
    using run l c u by (auto simp: mutate_dead_def seq_op_def pure_pg_def pg_now_def return_op_def)
  show "is_target req (pg_db s')" using hit \<open>rows \<noteq> []\<close> s'(1) by simp
  show "\<exists>t locked. sees s' = (\<lambda>d. fst (operate_row b req t locked d))" using see2 s'(1) by blast
  show "pg_tx s' \<noteq> None" "pg_stmts s' = pg_stmts s + 2" "pg_db s' = cn_others cn (pg_stmts s + 1) (cn_others cn (pg_stmts s) (pg_db s))"
    "mres_MessageID res = ?k" "mres_Action res = act" "mres_Generation res = ?g + 1" using db2 s1(1) s' by simp_all
qed

lemma pg_Do_Inr:
  assumes "pg_Do cn fn s = (s', Inr x)" and "pg_tx s = None"
  defines "b \<equiv> s\<lparr>pg_db := cn_others cn (pg_stmts s) (pg_db s), pg_stmts := pg_stmts s + 1, pg_tx := Some (\<lambda>d. d)\<rparr>"
  obtains s2 where "fn b = (s2, Inr x)" "pg_db s' = sees s2 (cn_others cn (pg_stmts s2) (pg_db s2))" "pg_tx s' = None"
  using assms
  by (auto simp: pg_Do_def pg_begin_def pg_commit_def Let_def split: if_splits prod.splits sum.splits bool.splits)

text \<open>A successful action took the message out of the epoch; the row stays locked until the commit.\<close>

lemma operate_acts:
  assumes ok: "pg_outbox_ok (pg_db s)" "pg_tx s = None" and env: "env_runs outbox_stmt_exec cn (other_id (mr_MessageID req))"
    and lock: "\<And>d. message_at (cn_others cn (pg_stmts s + 3) d) (mr_MessageID req) = message_at d (mr_MessageID req)"
    and run: "operate b cn req s = (s', Inr res)"
  shows "left_epoch (mr_ExpectedGeneration req) (message_at (pg_db s') (mr_MessageID req))" "message_at (pg_db s') (mr_MessageID req) \<noteq> None"
    "pg_outbox_ok (pg_db s')" "mres_MessageID res = mr_MessageID req" "mres_Action res = action_name b" "mres_Generation res = mr_ExpectedGeneration req + 1"
proof -
  let ?k = "mr_MessageID req" and ?b = "s\<lparr>pg_db := cn_others cn (pg_stmts s) (pg_db s), pg_stmts := pg_stmts s + 1, pg_tx := Some (\<lambda>d. d)\<rparr>"
  have R: "runs_of outbox_stmt_exec (other_id ?k) d (cn_others cn n d)" for n d using env by (simp add: env_runs_def)
  have v: "OutboxMutationRequest_Validate req = Inr ()" and do: "pg_Do cn (mutate_dead cn req (action_name b) (operate_row b req)) s = (s', Inr res)"
    using run by (auto simp: operate_eq pure_pg_def elim!: seq_op_Inr)
  obtain s2 where s2: "mutate_dead cn req (action_name b) (operate_row b req) ?b = (s2, Inr res)"
      "pg_db s' = sees s2 (cn_others cn (pg_stmts s2) (pg_db s2))"
    using pg_Do_Inr [OF do ok(2)] by blast
  have okb: "pg_outbox_ok (pg_db ?b)" "pg_tx ?b \<noteq> None" "sees ?b = (\<lambda>d. d)"
    using runs_outbox_ok [OF R ok(1)] by (simp_all add: sees_def fun_eq_iff)
  note M = mutate_acts [OF okb env s2(1)]
  obtain t locked where see: "sees s2 = (\<lambda>d. fst (operate_row b req t locked d))" using M(2) by blast
  have ok2: "pg_outbox_ok (pg_db s2)" unfolding M(4) using runs_outbox_ok [OF R runs_outbox_ok [OF R okb(1)]] by simp
  let ?d = "cn_others cn (pg_stmts s2) (pg_db s2)"
  have okd: "pg_outbox_ok ?d" by (rule runs_outbox_ok [OF R ok2])
  have "is_target req ?d" using M(1) lock [of "pg_db s2"] M(5) by (simp add: is_target_def numeral_3_eq_3)
  from operate_row_acts(1) [OF okd this, of b t locked] obtain m where
    m: "message_at (pg_db s') ?k = Some m" "obx_Generation m = mr_ExpectedGeneration req + 1" using s2(2) see by auto
  then show "left_epoch (mr_ExpectedGeneration req) (message_at (pg_db s') ?k)" "message_at (pg_db s') ?k \<noteq> None" by (simp_all add: left_epoch_def)
  have g: "1 \<le> mr_ExpectedGeneration req" using mutation_generation [OF v] .
  have "pg_db s' = outbox_stmt_exec (if b then SRequeue req else SDiscard req) t ?d"
    using s2(2) g stmt_forms(6,7) [OF g, of t locked ?d] see by (simp add: operate_row_def)
  then show "pg_outbox_ok (pg_db s')" using pg_outbox.exec_ok [OF okd] by simp
  show "mres_MessageID res = ?k" "mres_Action res = action_name b" "mres_Generation res = mr_ExpectedGeneration req + 1" using M by simp_all
qed

lemma operate_refused:
  assumes ok: "pg_outbox_ok (pg_db s)" "pg_tx s = None" and env: "env_runs outbox_stmt_exec cn (other_id (mr_MessageID req))"
    and left: "left_epoch (mr_ExpectedGeneration req) (message_at (pg_db s) (mr_MessageID req))" and run: "operate b cn req s = (s', r)"
  shows "\<exists>err. r = Inl err"
proof (cases r)
  case (Inr res)
  let ?k = "mr_MessageID req" and ?b = "s\<lparr>pg_db := cn_others cn (pg_stmts s) (pg_db s), pg_stmts := pg_stmts s + 1, pg_tx := Some (\<lambda>d. d)\<rparr>"
  have R: "runs_of outbox_stmt_exec (other_id ?k) d (cn_others cn n d)" for n d using env by (simp add: env_runs_def)
  have do: "pg_Do cn (mutate_dead cn req (action_name b) (operate_row b req)) s = (s', Inr res)"
    using run Inr by (auto simp: operate_eq pure_pg_def elim!: seq_op_Inr)
  obtain s2 where s2: "mutate_dead cn req (action_name b) (operate_row b req) ?b = (s2, Inr res)" using pg_Do_Inr [OF do ok(2)] by blast
  have okb: "pg_outbox_ok (pg_db ?b)" "pg_tx ?b \<noteq> None" "sees ?b = (\<lambda>d. d)"
    using runs_outbox_ok [OF R ok(1)] by (simp_all add: sees_def fun_eq_iff)
  note M = mutate_acts [OF okb env s2]
  let ?r = "runs_of outbox_stmt_exec (other_id ?k)"
  have "?r (pg_db s) (pg_db s2)" unfolding M(4) using outbox_sessions.runs_trans [OF R outbox_sessions.runs_trans [OF R R]] by simp
  then have "left_epoch (mr_ExpectedGeneration req) (message_at (pg_db s2) ?k)" using epoch_runs(1) [OF ok(1) _ left] by blast
  then show ?thesis using left_not_target M(1) by blast
qed simp

text \<open>
  C21: an operator's credential acts once in PostgreSQL too, between sessions that interleave statement by statement. A
  requeue or discard that reports success has happened (its result names the message and the next epoch, never the zero
  result), and from then on, whatever statements run, unless the message identifier is enqueued anew, any requeue or discard that
  presents the same generation for that message is refused, although each looks first and updates later. Each method runs
  in the unit of work it opens itself (its session has none open), and between the update of the row and the commit nobody
  else changes that row: this is the row lock PostgreSQL documents for an updated row, and it is a hypothesis here, because
  the model's units of work have no locks.
\<close>

theorem pg_operator_single_use:
  assumes "pg_outbox_ok (pg_db s)" "pg_tx s = None" "env_runs outbox_stmt_exec cn (other_id (mr_MessageID req))"
    and lock: "\<And>d. message_at (cn_others cn (pg_stmts s + 3) d) (mr_MessageID req) = message_at d (mr_MessageID req)"
    and first: "operate requeue cn req s = (s1, Inr res)"
    and between: "runs_of outbox_stmt_exec (other_id (mr_MessageID req)) (pg_db s1) (pg_db s2)" "pg_tx s2 = None"
    and "env_runs outbox_stmt_exec cn2 (other_id (mr_MessageID req))"
    and again: "operate requeue2 cn2 req2 s2 = (s3, r)"
    and "mr_MessageID req2 = mr_MessageID req" "mr_ExpectedGeneration req2 = mr_ExpectedGeneration req"
  shows "mres_MessageID res = mr_MessageID req \<and> mres_Generation res = mr_ExpectedGeneration req + 1
    \<and> (\<exists>m. message_at (pg_db s1) (mr_MessageID req) = Some m \<and> mr_ExpectedGeneration req < obx_Generation m) \<and> (\<exists>err. r = Inl err)"
proof -
  note A = operate_acts [OF assms(1-3) lock first]
  have ok2: "pg_outbox_ok (pg_db s2)" by (rule runs_outbox_ok [OF between(1) A(3)])
  have "left_epoch (mr_ExpectedGeneration req2) (message_at (pg_db s2) (mr_MessageID req2))"
    using epoch_runs(1) [OF A(3) between(1) A(1)] assms(10,11) by simp
  then have "\<exists>err. r = Inl err" using operate_refused [OF ok2 between(2) _ _ again] assms(8,10) by simp
  then show ?thesis using A(1,2,4,6) by (auto simp: left_epoch_def)
qed

text \<open>A dead message, a requeue that succeeds, and a discard with the same credential while a dispatcher leases the message.\<close>

definition ex_dead_row_pg :: outboxMessage where
  "ex_dead_row_pg = failRow (leaseRow (new_row ''m1'' ''d1'' ex_tenant ''{}'' 1 0) ''A'' 13) 0 ''boom'' 4"

definition ex_dead_tables :: pg_db where
  "ex_dead_tables = empty_db\<lparr>tb_outbox := [ex_dead_row_pg]\<rparr>"

definition ex_raced :: Conn where
  "ex_raced = ex_conn\<lparr>cn_clock := \<lambda>_. 6, cn_others := \<lambda>_. outbox_stmt_exec (SLease ''C'' 10 1 (\<lambda>_. False)) 6\<rparr>"

lemma ex_dead_row_facts:
  "obx_ID ex_dead_row_pg = ''m1''" "obx_TenantID ex_dead_row_pg = ex_tenant" "obx_Status ex_dead_row_pg = OutboxDead" "obx_Generation ex_dead_row_pg = 1"
  by (simp_all add: ex_dead_row_pg_def failRow_def leaseRow_def new_row_def Let_def)

lemma ex_dead_tables_ok: "pg_outbox_ok ex_dead_tables"
proof -
  have "row_ok ex_dead_row_pg"
    unfolding ex_dead_row_pg_def
    by (intro row_ok_fail row_ok_lease [where now = 3] row_ok_new) (simp_all add: due_def new_row_def leaseRow_def)
  then show ?thesis by (simp add: pg_outbox_ok_def ex_dead_tables_def)
qed

lemma ex_requeue:
  "\<exists>s1 res. operate True ex_conn ex_mutation (on_session ex_dead_tables) = (s1, Inr res) \<and> pg_tx s1 = None"
proof -
  have t: "dead_target ex_mutation ex_dead_row_pg" by (simp add: dead_target_def ex_dead_row_facts ex_mutation_fields)
  have u: "operate_row True ex_mutation 5 locked ex_dead_tables = (ex_dead_tables\<lparr>tb_outbox := [applyRequeue ex_dead_row_pg 5]\<rparr>, Inr [applyRequeue ex_dead_row_pg 5])" for locked
    using t by (simp add: operate_row_eq on_outbox_def sql_update_def ex_dead_tables_def Let_def outbox_check_def) 
      (simp add: applyRequeue_def ex_dead_row_pg_def failRow_def leaseRow_def new_row_def Let_def)
  have q: "query ex_conn f s = (s\<lparr>pg_stmts := Suc (pg_stmts s)\<rparr>, Inr (f (pg_db s)))" if "pg_tx s = Some (\<lambda>d. d)" for f :: "pg_db \<Rightarrow> 'a" and s
    using that by (cases s) (simp add: query_def mapped_op_def run_stmt_def Let_def store_writes_def sees_def ex_conn_def)
  have x: "exec_stmt ex_conn (operate_row True ex_mutation 5) s =
      (s\<lparr>pg_stmts := Suc (pg_stmts s), pg_tx := Some (\<lambda>d. fst (operate_row True ex_mutation 5 (\<lambda>_. False) d))\<rparr>, Inr [applyRequeue ex_dead_row_pg 5])"
    if "pg_tx s = Some (\<lambda>d. d)" "pg_db s = ex_dead_tables" for s
    using that by (cases s) (simp add: exec_stmt_def mapped_op_def run_stmt_def Let_def store_writes_def sees_def ex_conn_def u)
  have "loadOperatorTarget ex_conn ex_tenant ''m1'' s = (s\<lparr>pg_stmts := Suc (pg_stmts s)\<rparr>, Inr \<lparr>ts_status = OutboxDead, ts_attempts = obx_Attempts ex_dead_row_pg, ts_generation = 1\<rparr>)"
    if "pg_tx s = Some (\<lambda>d. d)" "pg_db s = ex_dead_tables" for s
    unfolding loadOperatorTarget_def using that by (simp add: seq_op_def q return_op_def) (simp add: ex_dead_tables_def ex_dead_row_facts return_op_def)
  note load = this
  have now: "pg_now ex_conn s = (s\<lparr>pg_ticks := Suc (pg_ticks s)\<rparr>, Inr 5)" "cn_ts ex_conn t = t" for s t by (simp_all add: pg_now_def ex_conn_def)
  have "\<exists>s2 res. mutate_dead ex_conn ex_mutation ''requeue'' (operate_row True ex_mutation) s = (s2, Inr res)"
    if "pg_tx s = Some (\<lambda>d. d)" "pg_db s = ex_dead_tables" for s
    unfolding mutate_dead_def ex_mutation_fields using that
    by (simp add: seq_op_def load pure_pg_def classifyOperatorTarget_def now x return_op_def)
  from this [of "(on_session ex_dead_tables)\<lparr>pg_stmts := 1, pg_tx := Some (\<lambda>d. d)\<rparr>"]
  obtain s2 res where "mutate_dead ex_conn ex_mutation ''requeue'' (operate_row True ex_mutation) ((on_session ex_dead_tables)\<lparr>pg_stmts := 1, pg_tx := Some (\<lambda>d. d)\<rparr>) = (s2, Inr res)"
    by (auto simp: on_session_def)
  moreover have "cn_others ex_conn n d = d" "cn_fate ex_conn n = Answered" for n d by (simp_all add: ex_conn_def)
  ultimately show ?thesis
    using ex_mutation_valid by (simp add: operate_eq seq_op_def pure_pg_def pg_Do_def pg_begin_def pg_commit_def on_session_def Let_def action_name_def)
qed

theorem pg_operator_single_use_witness:
  "\<exists>s1 res s3 r. operate True ex_conn ex_mutation (on_session ex_dead_tables) = (s1, Inr res) \<and> operate False ex_raced ex_mutation s1 = (s3, r)
     \<and> mres_MessageID res = ''m1'' \<and> mres_Generation res = 2 \<and> (\<exists>err. r = Inl err)"
proof -
  obtain s1 res where a: "operate True ex_conn ex_mutation (on_session ex_dead_tables) = (s1, Inr res)" "pg_tx s1 = None" using ex_requeue by blast
  obtain s3 r where b: "operate False ex_raced ex_mutation s1 = (s3, r)" by (rule prod.exhaust)
  have "env_runs outbox_stmt_exec ex_raced (other_id (mr_MessageID ex_mutation))"
    by (auto simp: env_runs_def ex_raced_def other_id_def intro!: outbox_sessions.runs_one)
  then have "mres_MessageID res = mr_MessageID ex_mutation \<and> mres_Generation res = mr_ExpectedGeneration ex_mutation + 1
    \<and> (\<exists>m. message_at (pg_db s1) (mr_MessageID ex_mutation) = Some m \<and> mr_ExpectedGeneration ex_mutation < obx_Generation m) \<and> (\<exists>err. r = Inl err)"
    by (intro pg_operator_single_use [OF _ _ _ _ a(1) outbox_sessions.runs_refl a(2) _ b])
      (auto simp: on_session_def ex_dead_tables_ok ex_conn_def env_runs_def outbox_sessions.runs_refl)
  then show ?thesis using a(1) b by (auto simp: ex_mutation_fields)
qed

end
