(* ===== verification/PG_Outbox_Refine.thy ===== *)
theory PG_Outbox_Refine
  imports PG_Operator Mem_Retention_Events
begin

section \<open>The PostgreSQL and the memory outbox agree\<close>

text \<open>
  An undisturbed call on the PostgreSQL outbox answers what the memory adapter answers and leaves a table that holds the same
  messages. The one difference is the \<^verbatim>\<open>available_at\<close> of a message that left the queue, which PostgreSQL sets and nothing reads;
  \<open>canon\<close> forgets it.
\<close>

subsection \<open>The same messages\<close>

definition canon :: "outboxMessage \<Rightarrow> outboxMessage" where
  "canon m = (if obx_Status m = OutboxDead \<or> obx_Status m = OutboxDiscarded then m\<lparr>obx_AvailableAt := 0\<rparr> else m)"

definition messages :: "storeState \<Rightarrow> outboxMessage list" where
  "messages st = map (row st) (st_outbox st)"

definition indexed :: "storeState \<Rightarrow> bool" where
  "indexed st \<longleftrightarrow> (\<forall>a \<in> set (st_outbox st). lookup (st_outboxByID st) (obx_ID (row st a)) = Some a)"

definition same_outbox :: "storeState \<Rightarrow> pg_db \<Rightarrow> bool" where
  "same_outbox st d \<longleftrightarrow> outbox_ok st \<and> indexed st \<and> map canon (messages st) = map canon (tb_outbox d)"

lemma canon_fields [simp]:
  "obx_ID (canon m) = obx_ID m" "obx_DedupKey (canon m) = obx_DedupKey m" "obx_TenantID (canon m) = obx_TenantID m" "obx_Status (canon m) = obx_Status m"
  "obx_Attempts (canon m) = obx_Attempts m" "obx_MaxAttempts (canon m) = obx_MaxAttempts m" "obx_LeasedBy (canon m) = obx_LeasedBy m"
  "obx_LeaseUntil (canon m) = obx_LeaseUntil m" "obx_Generation (canon m) = obx_Generation m" "obx_CreatedAt (canon m) = obx_CreatedAt m"
  "obx_DeliveredAt (canon m) = obx_DeliveredAt m" "obx_DiscardedAt (canon m) = obx_DiscardedAt m" "obx_Envelope (canon m) = obx_Envelope m"
  "obx_LastError (canon m) = obx_LastError m" "obx_DeadAt (canon m) = obx_DeadAt m"
  by (simp_all add: canon_def)

lemma canon_eqD:
  assumes "canon m = canon m'"
  shows "obx_ID m = obx_ID m'" "obx_DedupKey m = obx_DedupKey m'" "obx_TenantID m = obx_TenantID m'" "obx_Status m = obx_Status m'"
    "obx_Attempts m = obx_Attempts m'" "obx_MaxAttempts m = obx_MaxAttempts m'" "obx_LeasedBy m = obx_LeasedBy m'" "obx_LeaseUntil m = obx_LeaseUntil m'"
    "obx_Generation m = obx_Generation m'" "obx_CreatedAt m = obx_CreatedAt m'" "obx_DeliveredAt m = obx_DeliveredAt m'" "obx_DiscardedAt m = obx_DiscardedAt m'"
    "obx_DeadAt m = obx_DeadAt m'" "obx_LastError m = obx_LastError m'"
  by (metis assms canon_fields(1), metis assms canon_fields(2), metis assms canon_fields(3), metis assms canon_fields(4), metis assms canon_fields(5), metis assms canon_fields(6), metis assms canon_fields(7), metis assms canon_fields(8), metis assms canon_fields(9), metis assms canon_fields(10), metis assms canon_fields(11), metis assms canon_fields(12), metis assms canon_fields(15), metis assms canon_fields(14))

lemma canon_live:
  assumes "canon m = canon m'" and "obx_Status m \<noteq> OutboxDead" and "obx_Status m \<noteq> OutboxDiscarded"
  shows "m = m'"
  using assms(1) canon_eqD(4) [OF assms(1)] assms(2,3) by (simp add: canon_def)

lemma canon_gone: "canon m = canon m' \<Longrightarrow> m\<lparr>obx_AvailableAt := t\<rparr> = m'\<lparr>obx_AvailableAt := t\<rparr>"
proof -
  assume "canon m = canon m'"
  then have "(canon m)\<lparr>obx_AvailableAt := t\<rparr> = (canon m')\<lparr>obx_AvailableAt := t\<rparr>" by simp
  then show ?thesis by (simp add: canon_def split: if_splits)
qed

lemma row_ok_canon: "row_ok (canon m) \<longleftrightarrow> row_ok m"
  by (simp add: canon_def)

text \<open>Two lists of the same messages, moved by updates and selections that cannot tell them apart.\<close>

lemma canon_update:
  assumes "map canon xs = map canon ys" and "\<And>m m'. m \<in> set xs \<Longrightarrow> m' \<in> set ys \<Longrightarrow> canon m = canon m' \<Longrightarrow> (p m \<longleftrightarrow> q m') \<and> (p m \<longrightarrow> canon (f m) = canon (g m'))"
  shows "map canon (map (\<lambda>m. if p m then f m else m) xs) = map canon (map (\<lambda>m. if q m then g m else m) ys)"
  using assms
proof (induction xs arbitrary: ys)
  case (Cons x xs)
  then obtain y ys' where ys: "ys = y # ys'" "canon x = canon y" "map canon xs = map canon ys'" by (cases ys) auto
  have "map canon (map (\<lambda>m. if p m then f m else m) xs) = map canon (map (\<lambda>m. if q m then g m else m) ys')"
    using Cons.prems(2) ys by (intro Cons.IH) auto
  then show ?case using Cons.prems(2) [of x y] ys by auto
qed simp

lemma canon_filter:
  assumes "map canon xs = map canon ys" and "\<And>m m'. m \<in> set xs \<Longrightarrow> m' \<in> set ys \<Longrightarrow> canon m = canon m' \<Longrightarrow> p m \<longleftrightarrow> q m'"
  shows "map canon (filter p xs) = map canon (filter q ys)"
  using assms
proof (induction xs arbitrary: ys)
  case (Cons x xs)
  then obtain y ys' where ys: "ys = y # ys'" "canon x = canon y" "map canon xs = map canon ys'" by (cases ys) auto
  have "map canon (filter p xs) = map canon (filter q ys')" using Cons.prems(2) ys by (intro Cons.IH) auto
  then show ?case using Cons.prems(2) [of x y] ys by auto
qed simp

lemma canon_filter_same:
  assumes "map canon xs = map canon ys" and "\<And>m. p (canon m) = p m"
  shows "map canon (filter p xs) = map canon (filter p ys)"
  by (rule canon_filter [OF assms(1)]) (metis assms(2))

lemma canon_keys: "map canon xs = map canon ys \<Longrightarrow> (\<And>m. key (canon m) = key m) \<Longrightarrow> map key xs = map key ys"
  by (metis (no_types, lifting) list.map_comp map_eq_conv o_apply)

lemma same_outboxD:
  assumes "same_outbox st d"
  shows "struct_ok st" "outbox_ok st" "indexed st" "map canon (messages st) = map canon (tb_outbox d)" "pg_outbox_ok d"
    "distinct (map obx_ID (messages st))" "map obx_ID (messages st) = map obx_ID (tb_outbox d)" "map obx_DedupKey (messages st) = map obx_DedupKey (tb_outbox d)"
proof -
  show s: "struct_ok st" "outbox_ok st" "indexed st" "map canon (messages st) = map canon (tb_outbox d)"
    using assms by (simp_all add: same_outbox_def outbox_ok_def)
  show ids: "map obx_ID (messages st) = map obx_ID (tb_outbox d)" "map obx_DedupKey (messages st) = map obx_DedupKey (tb_outbox d)"
    by (rule canon_keys [OF s(4)], simp)+
  have "inj_on (\<lambda>a. obx_ID (row st a)) (set (st_outbox st))" "inj_on (\<lambda>a. obx_DedupKey (row st a)) (set (st_outbox st))"
    using s(1,3) byDedup_row [OF s(1)] by (auto simp: indexed_def inj_on_def) (metis option.inject)+
  then show D: "distinct (map obx_ID (messages st))" using s(1) by (simp add: messages_def distinct_map struct_ok_def inj_on_def comp_def)
  have D2: "distinct (map obx_DedupKey (messages st))"
    using s(1) \<open>inj_on (\<lambda>a. obx_DedupKey (row st a)) (set (st_outbox st))\<close> by (simp add: messages_def distinct_map struct_ok_def inj_on_def)
  have "row_ok m" if "m \<in> set (tb_outbox d)" for m
  proof -
    have "canon m \<in> set (map canon (messages st))" using that s(4) by (metis image_eqI list.set_map)
    then show ?thesis using s(2) row_ok_canon by (auto simp: messages_def outbox_ok_def) (metis row_ok_canon)
  qed
  then show "pg_outbox_ok d" using D D2 ids by (simp add: pg_outbox_ok_def)
qed

subsection \<open>One row\<close>

text \<open>An update of the row of one message, in the heap and in the table.\<close>

lemma messages_set_row:
  assumes "struct_ok st" and "indexed st" and "a \<in> set (st_outbox st)" and "p (row st a)" and "\<And>m. p m \<Longrightarrow> obx_ID m = obx_ID (row st a)"
  shows "messages (set_row a (f (row st a)) st) = map (\<lambda>m. if p m then f m else m) (messages st)"
proof -
  have "row (set_row a (f (row st a)) st) b = (if p (row st b) then f (row st b) else row st b)" if b: "b \<in> set (st_outbox st)" for b
  proof (cases "b = a")
    case False
    have "obx_ID (row st b) \<noteq> obx_ID (row st a)" using assms(2,3) b False unfolding indexed_def by (metis option.inject)
    then show ?thesis using assms(5) False by auto
  qed (use assms(4) in simp)
  then show ?thesis by (simp add: messages_def)
qed

lemma messages_kept:
  assumes "\<And>m. m \<in> set (messages st) \<Longrightarrow> \<not> p m"
  shows "map (\<lambda>m. if p m then f m else m) (messages st) = messages st"
  using assms by (intro map_idI) auto

lemma indexed_set_row: "indexed st \<Longrightarrow> obx_ID m = obx_ID (row st a) \<Longrightarrow> indexed (set_row a m st)"
  by (auto simp: indexed_def set_row_def row_def)

lemma indexed_lookup:
  assumes "struct_ok st" and "indexed st"
  shows "lookup (st_outboxByID st) k = Some a \<longleftrightarrow> a \<in> set (st_outbox st) \<and> obx_ID (row st a) = k"
  using byID_row [OF assms(1), of k a] assms(2) by (auto simp: indexed_def)

text \<open>
  \<open>pick st p\<close> is the address of the message \<open>p\<close> selects: the memory adapter finds it through its index, PostgreSQL by its condition.
\<close>

lemma same_row:
  assumes same: "same_outbox st d" and p: "\<And>m. p m \<Longrightarrow> obx_ID m = k" "\<And>m. p (canon m) = p m" "\<And>m. obx_ID (f m) = obx_ID m"
    and fg: "\<And>m m'. canon m = canon m' \<Longrightarrow> p m \<Longrightarrow> canon (f m) = canon (g m')"
    and chk: "\<And>m. row_ok m \<Longrightarrow> p m \<Longrightarrow> check (g m)"
  shows "lookup (st_outboxByID st) k = Some a \<Longrightarrow> p (row st a) \<Longrightarrow> outbox_ok (set_row a (f (row st a)) st) \<Longrightarrow>
      same_outbox (set_row a (f (row st a)) st) (d\<lparr>tb_outbox := map (\<lambda>m. if p m then g m else m) (tb_outbox d)\<rparr>)"
    and "(\<And>a. lookup (st_outboxByID st) k = Some a \<Longrightarrow> \<not> p (row st a)) \<Longrightarrow> d\<lparr>tb_outbox := map (\<lambda>m. if p m then g m else m) (tb_outbox d)\<rparr> = d"
    and "\<exists>rows. on_outbox (sql_update check p g) d = (d\<lparr>tb_outbox := map (\<lambda>m. if p m then g m else m) (tb_outbox d)\<rparr>, Inr rows)
      \<and> (rows = [] \<longleftrightarrow> \<not> (\<exists>a. lookup (st_outboxByID st) k = Some a \<and> p (row st a)))"
proof -
  note S = same_outboxD [OF same]
  have pp: "p m \<longleftrightarrow> p m'" if "canon m = canon m'" for m m' using p(2) that by metis
  have ex: "(\<exists>m \<in> set (tb_outbox d). p m) \<longleftrightarrow> (\<exists>a. lookup (st_outboxByID st) k = Some a \<and> p (row st a))"
  proof -
    have "(\<exists>m \<in> set (tb_outbox d). p m) \<longleftrightarrow> (\<exists>c \<in> set (map canon (tb_outbox d)). p c)" using p(2) by auto
    also have "\<dots> \<longleftrightarrow> (\<exists>m \<in> set (messages st). p m)" unfolding S(4) [symmetric] using p(2) by auto
    also have "\<dots> \<longleftrightarrow> (\<exists>a. lookup (st_outboxByID st) k = Some a \<and> p (row st a))"
      using p(1) by (auto simp: messages_def indexed_lookup [OF S(1,3)])
    finally show ?thesis .
  qed
  show "same_outbox (set_row a (f (row st a)) st) (d\<lparr>tb_outbox := map (\<lambda>m. if p m then g m else m) (tb_outbox d)\<rparr>)"
    if a: "lookup (st_outboxByID st) k = Some a" "p (row st a)" "outbox_ok (set_row a (f (row st a)) st)"
  proof -
    have m: "messages (set_row a (f (row st a)) st) = map (\<lambda>m. if p m then f m else m) (messages st)"
      using indexed_lookup [OF S(1,3), of k a] a p(1) by (intro messages_set_row [OF S(1,3)]) auto
    have "map canon (map (\<lambda>m. if p m then f m else m) (messages st)) = map canon (map (\<lambda>m. if p m then g m else m) (tb_outbox d))"
      by (rule canon_update [OF S(4)]) (use pp fg in blast)
    then show ?thesis using a(3) indexed_set_row [OF S(3)] p(3) m by (simp add: same_outbox_def)
  qed
  show "d\<lparr>tb_outbox := map (\<lambda>m. if p m then g m else m) (tb_outbox d)\<rparr> = d" if "\<And>a. lookup (st_outboxByID st) k = Some a \<Longrightarrow> \<not> p (row st a)"
  proof -
    have "map (\<lambda>m. if p m then g m else m) (tb_outbox d) = tb_outbox d" using ex that by (intro map_idI) auto
    then show ?thesis by simp
  qed
  have "list_all check (map g (filter p (tb_outbox d)))" using chk S(5) by (auto simp: list_all_iff pg_outbox_ok_def)
  then show "\<exists>rows. on_outbox (sql_update check p g) d = (d\<lparr>tb_outbox := map (\<lambda>m. if p m then g m else m) (tb_outbox d)\<rparr>, Inr rows)
      \<and> (rows = [] \<longleftrightarrow> \<not> (\<exists>a. lookup (st_outboxByID st) k = Some a \<and> p (row st a)))"
    unfolding ex [symmetric] by (simp add: on_outbox_def sql_update_def Let_def filter_empty_conv)
qed

subsection \<open>Calls on one message\<close>

definition agrees :: "storeState \<times> 'a result \<Rightarrow> pg \<times> 'a result \<Rightarrow> bool" where
  "agrees m p \<longleftrightarrow> snd m = snd p \<and> same_outbox (fst m) (pg_db (fst p)) \<and> pg_tx (fst p) = None"

lemma agrees_Publish:
  assumes q: "quiet cn" "pg_tx s = None" and same: "same_outbox st (pg_db s)" and "cn_ts cn (cn_clock cn (pg_ticks s)) = now"
    and json: "cn_jsonb cn (om_Envelope msg) = Some e"
    and fresh: "om_ID msg \<in> obx_ID ` set (messages st) \<Longrightarrow> om_DedupKey msg \<in> obx_DedupKey ` set (messages st)"
  shows "agrees (OutboxRepository_Publish (msg\<lparr>om_Envelope := e\<rparr>) now st) (Pg_Publish cn msg s)"
proof (cases "om_MaxAttempts msg < 1 \<or> om_MaxAttempts msg > 100")
  case True
  then show ?thesis using q(2) same by (simp add: OutboxRepository_Publish_def Pg_Publish_def throw_op_def agrees_def)
next
  case False
  note S = same_outboxD [OF same]
  let ?m = "new_row (om_ID msg) (om_DedupKey msg) (om_TenantID msg) e (om_MaxAttempts msg) now" and ?d = "pg_db s"
  let ?s = "s\<lparr>pg_ticks := Suc (pg_ticks s), pg_stmts := Suc (pg_stmts s)\<rparr>"
  have row: "pending_row cn msg now = Some ?m" using json by (simp add: pending_row_def new_row_def)
  have key: "list_ex (\<lambda>x. obx_DedupKey x = om_DedupKey msg) (tb_outbox ?d) \<longleftrightarrow> lookup (st_outboxByDedup st) (om_DedupKey msg) \<noteq> None"
  proof -
    have "list_ex (\<lambda>x. obx_DedupKey x = om_DedupKey msg) (tb_outbox ?d) \<longleftrightarrow> om_DedupKey msg \<in> set (map obx_DedupKey (tb_outbox ?d))"
      unfolding list_ex_iff by force
    also have "\<dots> \<longleftrightarrow> lookup (st_outboxByDedup st) (om_DedupKey msg) \<noteq> None"
      unfolding S(8) [symmetric] using byDedup_row [OF S(1), of "om_DedupKey msg"] by (auto simp: messages_def) (metis imageI)
    finally show ?thesis .
  qed
  have pg: "Pg_Publish cn msg s = (?s\<lparr>pg_db := fst (insert_message (Some ?m) (\<lambda>_. False) ?d)\<rparr>,
      case snd (insert_message (Some ?m) (\<lambda>_. False) ?d) of Inl e \<Rightarrow> Inl (wrapWrite e) | Inr x \<Rightarrow> Inr x)"
    using False assms(4) q(1) row quiet_stmt [OF q(1), of "s\<lparr>pg_ticks := Suc (pg_ticks s)\<rparr>" "insert_message (Some ?m)"] q(2)
    by (simp add: Pg_Publish_def seq_op_def pg_now_def exec_stmt_def mapped_op_def split: sum.splits)
  have chk: "outbox_check ?m" "obx_DedupKey ?m = om_DedupKey msg" "obx_ID ?m = om_ID msg" using False by (simp_all add: outbox_check_def new_row_def)
  show ?thesis
  proof (cases "lookup (st_outboxByDedup st) (om_DedupKey msg)")
    case (Some a)
    then show ?thesis
      unfolding pg using False chk key q(2) same by (simp add: insert_message_def OutboxRepository_Publish_def agrees_def)
  next
    case None
    then have "om_DedupKey msg \<notin> obx_DedupKey ` set (messages st)" using byDedup_row [OF S(1), of "om_DedupKey msg"] by (auto simp: messages_def) blast
    then have no: "om_ID msg \<notin> obx_ID ` set (messages st)" using fresh by blast
    then have no': "\<not> list_ex (\<lambda>x. obx_ID x = om_ID msg) (tb_outbox ?d)" using arg_cong [OF S(7), of set] by (auto simp: list_ex_iff) force
    have m: "OutboxRepository_Publish (msg\<lparr>om_Envelope := e\<rparr>) now st = (alloc_row ?m st, Inr ())" using False None by (simp add: OutboxRepository_Publish_def)
    have "outbox_ok (alloc_row ?m st)"
      using outbox_ok_exec [OF isort.sort_slice_axioms S(2), of "\<lambda>_. Inr []" "CallPublish (msg\<lparr>om_Envelope := e\<rparr>)" now] m by simp
    moreover have "indexed (alloc_row ?m st)"
      using S(3) no chk(3) by (auto simp: indexed_def alloc_row_def Let_def row_def messages_def) force
    moreover have "messages (alloc_row ?m st) = messages st @ [?m]"
      using S(1) by (auto simp: messages_def struct_ok_def)
    ultimately have "same_outbox (alloc_row ?m st) (?d\<lparr>tb_outbox := tb_outbox ?d @ [?m]\<rparr>)" using S(4) by (simp add: same_outbox_def)
    then show ?thesis
      unfolding pg m using chk key None no' q(2) by (simp add: insert_message_def agrees_def)
  qed
qed

text \<open>An acknowledgement or a failure: one guarded update, not-found when it misses.\<close>

lemma agrees_lessee:
  assumes q: "quiet cn" "pg_tx s = None" and same: "same_outbox st (pg_db s)"
    and f: "\<And>m. obx_ID (f m) = obx_ID m" "\<And>m m'. canon m = canon m' \<Longrightarrow> obx_Status m = OutboxLeased \<Longrightarrow> canon (f m) = canon (g m')"
      "\<And>m. row_ok m \<Longrightarrow> outbox_check (g m)"
    and ok: "\<And>a. leased_row ident leasedBy st = Some a \<Longrightarrow> outbox_ok (set_row a (f (row st a)) st)"
    and F: "F (\<lambda>_. False) (pg_db s) = on_outbox (sql_update outbox_check (lessee ident leasedBy) g) (pg_db s)"
  shows "agrees (case leased_row ident leasedBy st of None \<Rightarrow> (st, Inl (NotFoundf ''outbox_message'')) | Some a \<Rightarrow> (set_row a (f (row st a)) st, Inr ()))
    (seq_op (exec_stmt cn F) must_affect s)"
proof -
  let ?p = "lessee ident leasedBy" and ?d = "pg_db s"
  note R = same_row [OF same, where p = ?p and k = ident and f = f and g = g and check = outbox_check]
  have p: "\<And>m. ?p m \<Longrightarrow> obx_ID m = ident" "\<And>m. ?p (canon m) = ?p m" by (simp_all add: lessee_def)
  have fg: "\<And>m m'. canon m = canon m' \<Longrightarrow> ?p m \<Longrightarrow> canon (f m) = canon (g m')" using f(2) by (simp add: lessee_def)
  obtain rows where u: "on_outbox (sql_update outbox_check ?p g) ?d = (?d\<lparr>tb_outbox := map (\<lambda>m. if ?p m then g m else m) (tb_outbox ?d)\<rparr>, Inr rows)"
      "rows = [] \<longleftrightarrow> \<not> (\<exists>a. lookup (st_outboxByID st) ident = Some a \<and> ?p (row st a))"
    using R(3) [OF p f(1) fg f(3)] by blast
  have x: "exec_stmt cn F s = (s\<lparr>pg_db := ?d\<lparr>tb_outbox := map (\<lambda>m. if ?p m then g m else m) (tb_outbox ?d)\<rparr>, pg_stmts := Suc (pg_stmts s)\<rparr>, Inr rows)"
    by (rule quiet_exec [OF q]) (simp add: F u(1))
  have S: "struct_ok st" "indexed st" using same_outboxD [OF same] by simp_all
  have found: "leased_row ident leasedBy st = Some a \<longleftrightarrow> lookup (st_outboxByID st) ident = Some a \<and> ?p (row st a)" for a
    using byID_row [OF S(1), of ident a] by (auto simp: leased_row_Some lessee_def)
  show ?thesis
  proof (cases "leased_row ident leasedBy st")
    case None
    then have "rows = []" "?d\<lparr>tb_outbox := map (\<lambda>m. if ?p m then g m else m) (tb_outbox ?d)\<rparr> = ?d"
      using u(2) found R(2) [OF p f(1) fg f(3)] by (auto split: option.splits)
    then show ?thesis using None x q(2) same by (simp add: seq_op_def must_affect_def throw_op_def agrees_def)
  next
    case (Some a)
    then have "rows \<noteq> []" using u(2) found by blast
    moreover have "same_outbox (set_row a (f (row st a)) st) (?d\<lparr>tb_outbox := map (\<lambda>m. if ?p m then g m else m) (tb_outbox ?d)\<rparr>)"
      using R(1) [OF p f(1) fg f(3)] found Some ok by blast
    ultimately show ?thesis using Some x q(2) by (simp add: seq_op_def must_affect_def return_op_def agrees_def)
  qed
qed

lemma agrees_MarkDelivered:
  assumes q: "quiet cn" "pg_tx s = None" and same: "same_outbox st (pg_db s)" and "cn_ts cn (cn_clock cn (pg_ticks s)) = now"
  shows "agrees (OutboxRepository_MarkDelivered ident leasedBy now st) (Pg_MarkDelivered cn ident leasedBy s)"
proof -
  have ok: "outbox_ok (set_row a (deliverRow (row st a) now) st)" if "leased_row ident leasedBy st = Some a" for a
    using outbox_ok_exec [OF isort.sort_slice_axioms same_outboxD(2) [OF same], of "\<lambda>_. Inr []" "CallMarkDelivered ident leasedBy" now] that
    by (simp add: OutboxRepository_MarkDelivered_def)
  have "agrees (OutboxRepository_MarkDelivered ident leasedBy now st) (seq_op (exec_stmt cn (deliver_row ident leasedBy now)) must_affect (s\<lparr>pg_ticks := Suc (pg_ticks s)\<rparr>))"
    unfolding OutboxRepository_MarkDelivered_def
  proof (rule agrees_lessee [where g = "\<lambda>m. deliverRow m now", OF q(1)])
    show "canon (deliverRow m now) = canon (deliverRow m' now)" if "canon m = canon m'" "obx_Status m = OutboxLeased" for m m'
      using canon_live [OF that(1)] that(2) by simp
    show "outbox_check (deliverRow m now)" if "row_ok m" for m using that by (simp add: outbox_check_def row_ok_def deliverRow_def)
  qed (use q(2) same ok in \<open>simp_all add: deliver_row_def row_sets\<close>)
  then show ?thesis using assms(4) q(1) by (simp add: Pg_MarkDelivered_def seq_op_def pg_now_def)
qed

lemma agrees_Fail:
  assumes q: "quiet cn" "pg_tx s = None" and same: "same_outbox st (pg_db s)" and "cn_ts cn (cn_clock cn (pg_ticks s)) = now" and "cn_text cn (truncateCause cause)" and "whole cn retryIn"
  shows "agrees (OutboxRepository_FailWithBackoff ident leasedBy retryIn cause now st) (Pg_FailWithBackoff cn ident leasedBy retryIn cause s)"
proof -
  let ?c = "truncateCause cause" and ?g = "\<lambda>m. failRow (m\<lparr>obx_AvailableAt := now + retryIn\<rparr>) retryIn (truncateCause cause) now"
  have same_cause: "failRow m retryIn ?c now = failRow m retryIn cause now" for m
    by (simp add: failRow_def truncateCause_def maxCauseLen_def Let_def)
  have ok: "outbox_ok (set_row a (failRow (row st a) retryIn cause now) st)" if "leased_row ident leasedBy st = Some a" for a
    using outbox_ok_exec [OF isort.sort_slice_axioms same_outboxD(2) [OF same], of "\<lambda>_. Inr []" "CallFail ident leasedBy retryIn cause" now] that
    by (simp add: OutboxRepository_FailWithBackoff_def)
  have "agrees (OutboxRepository_FailWithBackoff ident leasedBy retryIn cause now st)
     (seq_op (exec_stmt cn (text_param cn ?c (fail_row ident leasedBy (now + retryIn) ?c now))) must_affect (s\<lparr>pg_ticks := Suc (pg_ticks s)\<rparr>))"
    unfolding OutboxRepository_FailWithBackoff_def
  proof (rule agrees_lessee [where g = ?g, OF q(1)])
    show "canon (failRow m retryIn cause now) = canon (?g m')" if "canon m = canon m'" "obx_Status m = OutboxLeased" for m m'
      using canon_live [OF that(1)] that(2) unfolding same_cause by (simp add: canon_def failRow_def Let_def)
    show "outbox_check (?g m)" if "row_ok m" for m using that by (simp add: outbox_check_def row_ok_def failRow_def Let_def)
    show "text_param cn ?c (fail_row ident leasedBy (now + retryIn) ?c now) (\<lambda>_. False) (pg_db (s\<lparr>pg_ticks := Suc (pg_ticks s)\<rparr>))
        = on_outbox (sql_update outbox_check (lessee ident leasedBy) ?g) (pg_db (s\<lparr>pg_ticks := Suc (pg_ticks s)\<rparr>))"
      using assms(5) by (simp add: text_param_def fail_row_def fail_set [OF truncateCause_bound])
  qed (use q(2) same ok in simp_all)
  then show ?thesis using assms(4,6) by (simp add: Pg_FailWithBackoff_def seq_op_def pg_now_def whole_add)
qed

subsection \<open>Operator actions\<close>

definition mem_operate :: "bool \<Rightarrow> OutboxMutationRequest \<Rightarrow> Time \<Rightarrow> OutboxMutationResult store_op" where
  "mem_operate requeue req now = (if requeue then OutboxRepository_RequeueDeadLetter req now else OutboxRepository_DiscardDeadLetter req now)"

lemma mem_operate_eq:
  "mem_operate b req now st =
     (case OutboxMutationRequest_Validate req of Inl e \<Rightarrow> (st, Inl e) | Inr _ \<Rightarrow>
      (case owned_row (mr_TenantID req) (mr_MessageID req) st of None \<Rightarrow> (st, Inl (NotFoundf ''outbox_message'')) | Some a \<Rightarrow>
       (case classifyOperatorMutation (row st a) req of Inl e \<Rightarrow> (st, Inl e) | Inr _ \<Rightarrow>
         (set_row a (if b then applyRequeue (row st a) now else applyDiscard (row st a) now) st,
          Inr \<lparr>mres_MessageID = obx_ID (row st a), mres_Action = action_name b, mres_AttemptsBefore = obx_Attempts (row st a),
               mres_Generation = obx_Generation (row st a) + 1\<rparr>))))"
  by (cases b) (simp_all add: mem_operate_def OutboxRepository_RequeueDeadLetter_def OutboxRepository_DiscardDeadLetter_def action_name_def
      applyRequeue_def applyDiscard_def Let_def split: sum.splits option.splits)

lemma same_message:
  assumes "same_outbox st d"
  shows "lookup (st_outboxByID st) k = None \<Longrightarrow> message_at d k = None"
    and "lookup (st_outboxByID st) k = Some a \<Longrightarrow> \<exists>m. message_at d k = Some m \<and> canon m = canon (row st a)"
proof -
  note S = same_outboxD [OF assms]
  have D: "distinct (map obx_ID (tb_outbox d))" using S(5) by (simp add: pg_outbox_ok_def)
  show "message_at d k = None" if "lookup (st_outboxByID st) k = None"
  proof (cases "message_at d k")
    case (Some m)
    then have "k \<in> set (map obx_ID (tb_outbox d))" using message_at_Some [OF Some] by auto
    then obtain a where "a \<in> set (st_outbox st)" "obx_ID (row st a) = k" unfolding S(7) [symmetric] by (auto simp: messages_def)
    then show ?thesis using that indexed_lookup [OF S(1,3), of k a] by simp
  qed simp
  assume "lookup (st_outboxByID st) k = Some a"
  then have a: "a \<in> set (st_outbox st)" "obx_ID (row st a) = k" using indexed_lookup [OF S(1,3)] by simp_all
  then have "canon (row st a) \<in> set (map canon (messages st))" by (simp add: messages_def)
  then obtain m where m: "m \<in> set (tb_outbox d)" "canon m = canon (row st a)" unfolding S(4) by auto
  then show "\<exists>m. message_at d k = Some m \<and> canon m = canon (row st a)"
    using message_at_mem [OF D m(1)] canon_eqD(1) [OF m(2)] a(2) by auto
qed

lemma quiet_load:
  assumes q: "quiet cn" "pg_tx s = Some (\<lambda>d. d)" and "distinct (map obx_ID (tb_outbox (pg_db s)))"
  shows "loadOperatorTarget cn tn k s = (s\<lparr>pg_stmts := Suc (pg_stmts s)\<rparr>,
    case message_at (pg_db s) k of None \<Rightarrow> Inl (NotFoundf ''outbox_message'')
    | Some m \<Rightarrow> if obx_TenantID m = tn then Inr \<lparr>ts_status = obx_Status m, ts_attempts = obx_Attempts m, ts_generation = obx_Generation m\<rparr>
        else Inl (NotFoundf ''outbox_message''))"
proof -
  let ?p = "\<lambda>m. obx_ID m = k \<and> obx_TenantID m = tn"
  have "filter ?p (tb_outbox (pg_db s)) = (case message_at (pg_db s) k of None \<Rightarrow> [] | Some m \<Rightarrow> if ?p m then [m] else [])"
    unfolding message_at_def using assms(3) by (rule filter_key) simp
  then show ?thesis
    using q message_at_Some [of "pg_db s" k]
    by (auto simp: loadOperatorTarget_def seq_op_def quiet_tx_query throw_op_def return_op_def split: option.splits)
qed

lemma agrees_operate:
  assumes q: "quiet cn" "pg_tx s = None" and same: "same_outbox st (pg_db s)" and "cn_ts cn (cn_clock cn (pg_ticks s)) = now"
  shows "agrees (mem_operate b req now st) (operate b cn req s)"
proof (cases "OutboxMutationRequest_Validate req")
  case (Inl e)
  then show ?thesis using q(2) same by (simp add: mem_operate_eq operate_eq seq_op_def pure_pg_def agrees_def)
next
  case v: (Inr u)
  let ?k = "mr_MessageID req" and ?g = "mr_ExpectedGeneration req" and ?d = "pg_db s" and ?f = "\<lambda>m. if b then applyRequeue m now else applyDiscard m now"
  let ?b = "s\<lparr>pg_stmts := Suc (pg_stmts s), pg_tx := Some (\<lambda>d. d)\<rparr>"
  let ?fn = "mutate_dead cn req (action_name b) (operate_row b req)"
  note S = same_outboxD [OF same]
  have D: "distinct (map obx_ID (tb_outbox ?d))" using S(5) by (simp add: pg_outbox_ok_def)
  have pg: "operate b cn req s = (case ?fn ?b of (s2, Inl e) \<Rightarrow> (s2\<lparr>pg_tx := None\<rparr>, Inl e)
      | (s2, Inr x) \<Rightarrow> (s2\<lparr>pg_db := sees s2 (pg_db s2), pg_tx := None, pg_stmts := Suc (pg_stmts s2)\<rparr>, Inr x))"
    using v quiet_Do [OF q] by (simp add: operate_eq seq_op_def pure_pg_def)
  have load: "loadOperatorTarget cn (mr_TenantID req) ?k ?b = (?b\<lparr>pg_stmts := Suc (Suc (pg_stmts s))\<rparr>,
      case message_at ?d ?k of None \<Rightarrow> Inl (NotFoundf ''outbox_message'')
      | Some m \<Rightarrow> if obx_TenantID m = mr_TenantID req then Inr \<lparr>ts_status = obx_Status m, ts_attempts = obx_Attempts m, ts_generation = obx_Generation m\<rparr>
          else Inl (NotFoundf ''outbox_message''))"
    using quiet_load [OF q(1), of ?b] D by simp
  show ?thesis
  proof (cases "owned_row (mr_TenantID req) ?k st")
    case None
    have "loadOperatorTarget cn (mr_TenantID req) ?k ?b = (?b\<lparr>pg_stmts := Suc (Suc (pg_stmts s))\<rparr>, Inl (NotFoundf ''outbox_message''))"
    proof (cases "lookup (st_outboxByID st) ?k")
      case (Some a)
      then have "obx_TenantID (row st a) \<noteq> mr_TenantID req" using None by (auto simp: owned_row_def)
      moreover obtain m where m: "message_at ?d ?k = Some m" "canon m = canon (row st a)" using same_message(2) [OF same Some] by blast
      ultimately show ?thesis unfolding load using canon_eqD(3) [OF m(2)] by simp
    qed (use load same_message(1) [OF same] in simp)
    then show ?thesis
      unfolding pg using None v q(2) same by (simp add: mem_operate_eq mutate_dead_def seq_op_def agrees_def)
  next
    case (Some a)
    then have a: "lookup (st_outboxByID st) ?k = Some a" "obx_TenantID (row st a) = mr_TenantID req" "obx_ID (row st a) = ?k"
      using byID_row [OF S(1)] by (auto simp: owned_row_Some)
    obtain m where m: "message_at ?d ?k = Some m" "canon m = canon (row st a)" using same_message(2) [OF same a(1)] by blast
    note C = canon_eqD [OF m(2)]
    have load': "loadOperatorTarget cn (mr_TenantID req) ?k ?b = (?b\<lparr>pg_stmts := Suc (Suc (pg_stmts s))\<rparr>,
        Inr \<lparr>ts_status = obx_Status m, ts_attempts = obx_Attempts m, ts_generation = obx_Generation m\<rparr>)"
      unfolding load using m(1) C(3) a(2) by simp
    have cls: "classifyOperatorTarget \<lparr>ts_status = obx_Status m, ts_attempts = obx_Attempts m, ts_generation = obx_Generation m\<rparr> ?g
        = classifyOperatorMutation (row st a) req"
      by (simp add: classifyOperatorTarget_def classifyOperatorMutation_def C)
    show ?thesis
    proof (cases "classifyOperatorMutation (row st a) req")
      case (Inl e)
      then show ?thesis
        unfolding pg using Some v q(2) same load' cls by (simp add: mem_operate_eq mutate_dead_def seq_op_def pure_pg_def agrees_def)
    next
      case (Inr w)
      then have t: "dead_target req (row st a)" using a(2,3) by (auto simp: classify_ok dead_target_def)
      note R = same_row [OF same, where p = "dead_target req" and k = ?k and f = ?f and g = ?f and check = outbox_check]
      have p: "\<And>m. dead_target req m \<Longrightarrow> obx_ID m = ?k" "\<And>m. dead_target req (canon m) = dead_target req m" by (simp_all add: dead_target_def)
      have fid: "\<And>m. obx_ID (?f m) = obx_ID m" by (simp add: applyRequeue_def applyDiscard_def)
      have fg: "canon (?f m) = canon (?f m')" if "canon m = canon m'" "dead_target req m" for m m'
        using canon_gone [OF that(1), of 0] canon_gone [OF that(1), of now] canon_eqD(9) [OF that(1)]
        by (cases m; cases m') (simp add: canon_def applyRequeue_def applyDiscard_def)
      have chk: "\<And>m. row_ok m \<Longrightarrow> dead_target req m \<Longrightarrow> outbox_check (?f m)" by (simp add: outbox_check_def row_ok_def applyRequeue_def applyDiscard_def)
      let ?d' = "?d\<lparr>tb_outbox := map (\<lambda>m. if dead_target req m then ?f m else m) (tb_outbox ?d)\<rparr>"
      obtain rows where u: "operate_row b req now (\<lambda>_. False) ?d = (?d', Inr rows)" "rows \<noteq> []"
        using R(3) [OF p fid fg chk] a(1) t by (auto simp: operate_row_eq)
      have mem: "mem_operate b req now st = (set_row a (?f (row st a)) st, Inr \<lparr>mres_MessageID = ?k, mres_Action = action_name b,
          mres_AttemptsBefore = obx_Attempts (row st a), mres_Generation = ?g + 1\<rparr>)"
        using v Some Inr t by (simp add: mem_operate_eq dead_target_def)
      have "outbox_ok (set_row a (?f (row st a)) st)"
        using outbox_ok_exec [OF isort.sort_slice_axioms S(2), of "\<lambda>_. Inr []" "if b then CallRequeue req else CallDiscard req" now] mem
        by (cases b) (simp_all add: mem_operate_def)
      then have same': "same_outbox (set_row a (?f (row st a)) st) ?d'" using R(1) [OF p fid fg chk a(1) t] by simp
      let ?s2 = "?b\<lparr>pg_stmts := Suc (Suc (Suc (pg_stmts s))), pg_ticks := Suc (pg_ticks s), pg_tx := Some (\<lambda>d. fst (operate_row b req now (\<lambda>_. False) d))\<rparr>"
      have "?fn ?b = (?s2, Inr \<lparr>mres_MessageID = ?k, mres_Action = action_name b, mres_AttemptsBefore = obx_Attempts m, mres_Generation = ?g + 1\<rparr>)"
        using load' cls Inr u assms(4) by (simp add: mutate_dead_def seq_op_def pure_pg_def pg_now_def quiet_tx_exec [OF q(1)] return_op_def)
      then show ?thesis
        unfolding pg mem using same' u(1) C(5) by (simp add: agrees_def sees_def)
    qed
  qed
qed

subsection \<open>Selections\<close>

lemma picked_in_ids: "picked_in picked m \<longleftrightarrow> obx_ID m \<in> set (map obx_ID picked)"
  unfolding picked_in_def list_ex_iff set_map image_iff by metis

text \<open>When a key orders the messages strictly, both adapters sort them the same way.\<close>

lemma sorted_same:
  fixes f :: "outboxMessage \<Rightarrow> 'k :: linorder"
  assumes "mset xs = mset E" and "mset ys = mset E'" and "map canon E = map canon E'" and "\<And>m. f (canon m) = f m" and "inj_on f (set E)"
    and "sorted_wrt (\<lambda>a b. f a \<le> f b) xs" and "sorted_wrt (\<lambda>a b. f a \<le> f b) ys"
  shows "map canon xs = map canon ys"
proof (rule sorted_wrt_unique [where f = f])
  have "image_mset canon (mset E) = image_mset canon (mset E')" using assms(3) by (metis mset_map)
  then show "mset (map canon xs) = mset (map canon ys)" using assms(1,2) by simp
  show "inj_on f (set (map canon xs))" using assms(1,4,5) mset_eq_setD [OF assms(1)] by (auto simp: inj_on_def)
  show "sorted_wrt (\<lambda>a b. f a \<le> f b) (map canon xs)" "sorted_wrt (\<lambda>a b. f a \<le> f b) (map canon ys)"
    using assms(4,6,7) by (simp_all add: sorted_wrt_map)
qed

lemma insertion_sort_key:
  assumes "\<And>a b. lt a b \<longleftrightarrow> (f a :: 'k :: linorder) < f b"
  shows "mset (insertion_sort lt xs) = mset xs" and "sorted_wrt (\<lambda>a b. f a \<le> f b) (insertion_sort lt xs)"
proof -
  note sw = strict_weakI_key [of lt, OF assms]
  show "mset (insertion_sort lt xs) = mset xs" by (rule isort.perm [OF sw])
  show "sorted_wrt (\<lambda>a b. f a \<le> f b) (insertion_sort lt xs)" using isort.ordered [OF sw, of xs] by (simp add: assms not_less)
qed

lemma srt_key:
  assumes "sort_slice srt" and "\<And>a b. lt a b \<longleftrightarrow> (f (h a) :: 'k :: linorder) < f (h b)"
  shows "mset (map h (srt lt xs)) = mset (map h xs)" and "sorted_wrt (\<lambda>a b. f a \<le> f b) (map h (srt lt xs))"
proof -
  note sw = strict_weakI_key [of lt "\<lambda>a. f (h a)", OF assms(2)]
  show "mset (map h (srt lt xs)) = mset (map h xs)" using sort_slice.perm [OF assms(1) sw] by (metis mset_map)
  show "sorted_wrt (\<lambda>a b. f a \<le> f b) (map h (srt lt xs))"
    using sort_slice.ordered [OF assms(1) sw, of xs] by (simp add: sorted_wrt_map assms(2) not_less)
qed

subsection \<open>Leasing\<close>

text \<open>Messages published at the same instant are leased in another order by each adapter; it shows only when not all are taken.\<close>

definition lease_decided :: "OutboxLeaseRequest \<Rightarrow> Time \<Rightarrow> storeState \<Rightarrow> bool" where
  "lease_decided req now st \<longleftrightarrow> (let dues = filter (due now) (messages st) in
     int (length dues) \<le> ol_Limit req \<or> distinct (map obx_CreatedAt dues))"

lemma lease_same_pick:
  assumes srt: "sort_slice srt" and same: "same_outbox st d" and "lease_decided req now st"
  shows "set (map obx_ID (map (row st) (due_rows srt req now st)))
    = set (map obx_ID (sql_pick message_before (\<lambda>m. False) (leasable now) (nat (ol_Limit req)) (tb_outbox d)))"
proof -
  let ?E = "filter (due now) (messages st)" and ?E' = "filter (leasable now) (tb_outbox d)" and ?n = "nat (ol_Limit req)"
  let ?lt = "\<lambda>a b. obx_CreatedAt (row st a) < obx_CreatedAt (row st b)" and ?as = "filter (\<lambda>a. due now (row st a)) (st_outbox st)"
  have canonE: "map canon ?E = map canon ?E'"
  proof (rule canon_filter [OF same_outboxD(4) [OF same]])
    fix m m' assume h: "canon m = canon m'"
    show "due now m \<longleftrightarrow> leasable now m'"
    proof (cases "obx_Status m = OutboxDead \<or> obx_Status m = OutboxDiscarded")
      case True
      then show ?thesis using canon_eqD(4) [OF h] by (auto simp: leasable_due due_def)
    qed (use canon_live [OF h] leasable_due in auto)
  qed
  have E: "?E = map (row st) ?as" by (simp add: messages_def filter_map comp_def)
  have srtk: "mset (map (row st) (srt ?lt ?as)) = mset ?E" "sorted_wrt (\<lambda>a b. obx_CreatedAt a \<le> obx_CreatedAt b) (map (row st) (srt ?lt ?as))"
    using srt_key [OF srt, of ?lt obx_CreatedAt "row st" ?as] E by simp_all
  have lex: "message_before a b \<longleftrightarrow> (obx_CreatedAt a, obx_ID a) < (obx_CreatedAt b, obx_ID b)" for a b by (auto simp: message_before_def)
  have ins: "mset (insertion_sort message_before ?E') = mset ?E'" "sorted_wrt (\<lambda>a b. (obx_CreatedAt a, obx_ID a) \<le> (obx_CreatedAt b, obx_ID b)) (insertion_sort message_before ?E')"
    using insertion_sort_key [of message_before "\<lambda>m. (obx_CreatedAt m, obx_ID m)"] lex by blast+
  have pick: "sql_pick message_before (\<lambda>m. False) (leasable now) ?n (tb_outbox d) = take ?n (insertion_sort message_before ?E')" by (simp add: sql_pick_def)
  have rows: "map (row st) (due_rows srt req now st) = take ?n (map (row st) (srt ?lt ?as))" by (simp add: due_rows_def take_map)
  show ?thesis
  proof (cases "distinct (map obx_CreatedAt ?E)")
    case True
    have s2: "sorted_wrt (\<lambda>a b. obx_CreatedAt a \<le> obx_CreatedAt b) (insertion_sort message_before ?E')"
      using ins(2) by (rule sorted_wrt_mono_rel [rotated]) auto
    have "map canon (map (row st) (srt ?lt ?as)) = map canon (insertion_sort message_before ?E')"
      using True by (intro sorted_same [OF srtk(1) ins(1) canonE _ _ srtk(2) s2]) (auto simp: distinct_map)
    then have "map canon (map (row st) (due_rows srt req now st)) = map canon (sql_pick message_before (\<lambda>m. False) (leasable now) ?n (tb_outbox d))"
      unfolding rows pick by (metis take_map)
    then have "map obx_ID (map (row st) (due_rows srt req now st)) = map obx_ID (sql_pick message_before (\<lambda>m. False) (leasable now) ?n (tb_outbox d))"
      by (rule canon_keys) simp
    then show ?thesis by simp
  next
    case False
    then have n: "length ?E \<le> ?n" using assms(3) by (simp add: lease_decided_def Let_def)
    have len: "length (map (row st) (srt ?lt ?as)) = length ?E" "length (insertion_sort message_before ?E') = length ?E"
      using srtk(1) ins(1) arg_cong [OF canonE, of length] by (metis size_mset, metis size_mset length_map)
    have "set (map obx_ID (map (row st) (srt ?lt ?as))) = set (map obx_ID ?E)" using mset_eq_setD [OF srtk(1)] by (simp only: set_map)
    moreover have "set (map obx_ID (insertion_sort message_before ?E')) = set (map obx_ID ?E')" using mset_eq_setD [OF ins(1)] by simp
    moreover have "map obx_ID ?E = map obx_ID ?E'" by (rule canon_keys [OF canonE]) simp
    ultimately show ?thesis unfolding rows pick using n len by simp
  qed
qed

lemma indexed_picks:
  assumes "indexed st" and "a \<in> set (st_outbox st)" and "set as \<subseteq> set (st_outbox st)"
  shows "picked_in (map (row st) as) (row st a) \<longleftrightarrow> a \<in> set as"
proof
  assume "picked_in (map (row st) as) (row st a)"
  then obtain b where b: "b \<in> set as" "obx_ID (row st b) = obx_ID (row st a)" by (auto simp: picked_in_ids)
  then have "Some b = Some a" using assms unfolding indexed_def by (metis subsetD)
  then show "a \<in> set as" using b(1) by simp
qed (auto simp: picked_in_ids)

lemma filter_pick:
  assumes "struct_ok st" and "indexed st" and "distinct as" and "set as \<subseteq> set (st_outbox st)"
  shows "mset (filter (picked_in (map (row st) as)) (messages st)) = mset (map (row st) as)"
proof -
  have "filter (picked_in (map (row st) as)) (messages st) = map (row st) (filter (\<lambda>a. a \<in> set as) (st_outbox st))"
    unfolding messages_def filter_map comp_def using indexed_picks [OF assms(2) _ assms(4)] by (simp cong: filter_cong)
  moreover have "mset (filter (\<lambda>a. a \<in> set as) (st_outbox st)) = mset as"
    using assms by (intro iffD1 [OF set_eq_iff_mset_eq_distinct]) (auto simp: struct_ok_def)
  ultimately show ?thesis by (metis mset_map)
qed

definition with_answer :: "('a \<Rightarrow> 'b) \<Rightarrow> 's \<times> 'a result \<Rightarrow> 's \<times> 'b result" where
  "with_answer h r = (fst r, map_sum id h (snd r))"

lemma agrees_Lease:
  assumes srt: "sort_slice srt" and q: "quiet cn" "pg_tx s = None" and same: "same_outbox st (pg_db s)" and "cn_ts cn (cn_clock cn (pg_ticks s)) = now"
    and "0 \<le> ol_Limit req" and "lease_decided req now st" and perm: "\<And>rows. mset (cn_returning cn rows) = mset rows"
    and "whole cn (ol_LeaseFor req)"
  shows "agrees (with_answer mset (OutboxRepository_Lease srt req now st)) (with_answer mset (Pg_Lease cn req s))"
proof -
  note S = same_outboxD [OF same]
  let ?d = "pg_db s" and ?u = "now + ol_LeaseFor req" and ?w = "ol_WorkerID req" and ?as = "due_rows srt req now st"
  let ?f = "\<lambda>m. leaseRow m ?w ?u" and ?picked = "sql_pick message_before (\<lambda>m. False) (leasable now) (nat (ol_Limit req)) (tb_outbox ?d)"
  let ?p = "picked_in (map (row st) ?as)" and ?q = "picked_in ?picked"
  let ?st' = "st\<lparr>st_heap := \<lambda>b. if b \<in> set ?as then leaseRow (st_heap st b) ?w ?u else st_heap st b\<rparr>"
  note D = due_rows_props(1) [OF srt S(1), where req = req and now = now] due_rows_props(2) [OF srt S(1), where req = req and now = now]
  have sub: "set ?as \<subseteq> set (st_outbox st)" using D(2) by blast
  have pq: "?p m \<longleftrightarrow> ?q m'" if "canon m = canon m'" for m m'
    unfolding picked_in_ids using lease_same_pick [OF srt same assms(7)] canon_eqD(1) [OF that] by simp
  have live: "m = m'" if h: "canon m = canon m'" "?p m" "m \<in> set (messages st)" for m m'
  proof -
    obtain a where "a \<in> set (st_outbox st)" "m = row st a" using h(3) by (auto simp: messages_def)
    then have "due now m" using h(2) indexed_picks [OF S(3) _ sub, of a] D(2) by simp
    then show ?thesis by (intro canon_live [OF h(1)]) (auto simp: due_def)
  qed
  have mem: "OutboxRepository_Lease srt req now st = (?st', Inr (map outMessage (map ?f (map (row st) ?as))))"
    using assms(6) by (simp add: Lease_eq [OF srt S(1)])
  have msgs: "messages ?st' = map (\<lambda>m. if ?p m then ?f m else m) (messages st)"
    using indexed_picks [OF S(3) _ sub] by (auto simp: messages_def row_def)
  have ok: "outbox_ok ?st'" using outbox_ok_exec [OF srt S(2), of "\<lambda>_. Inr []" "CallLease req" now] mem by simp
  have ix: "indexed ?st'" using S(3) by (auto simp: indexed_def row_def)
  let ?d' = "?d\<lparr>tb_outbox := map (\<lambda>m. if ?q m then ?f m else m) (tb_outbox ?d)\<rparr>"
  have tb_eq: "tb_outbox ?d' = map (\<lambda>m. if ?q m then ?f m else m) (tb_outbox ?d)" by simp
  have "map canon (messages ?st') = map canon (tb_outbox ?d')"
    unfolding msgs tb_eq
  proof (rule canon_update [OF S(4)])
    fix m m' assume h: "m \<in> set (messages st)" "canon m = canon m'"
    show "(?p m \<longleftrightarrow> ?q m') \<and> (?p m \<longrightarrow> canon (?f m) = canon (?f m'))" using pq [OF h(2)] live [OF h(2) _ h(1)] by simp
  qed
  then have same': "same_outbox ?st' ?d'" using ok ix by (simp add: same_outbox_def)
  have "list_all outbox_check (map ?f (filter ?q (tb_outbox ?d)))"
    using S(5) by (auto simp: list_all_iff pg_outbox_ok_def row_ok_def outbox_check_def leaseRow_def)
  then have u: "lease_rows ?w ?u now (ol_Limit req) (\<lambda>_. False) ?d = (?d', Inr (map ?f (filter ?q (tb_outbox ?d))))"
    using assms(6) by (simp add: lease_rows_eq on_outbox_def sql_update_def)
  have pg: "Pg_Lease cn req s = (s\<lparr>pg_ticks := Suc (pg_ticks s), pg_db := ?d', pg_stmts := Suc (pg_stmts s)\<rparr>,
      Inr (map outMessage (cn_returning cn (map ?f (filter ?q (tb_outbox ?d))))))"
    using assms(5,9) q quiet_stmt [OF q(1), of "s\<lparr>pg_ticks := Suc (pg_ticks s)\<rparr>" "lease_rows ?w ?u now (ol_Limit req)"] u
    by (simp add: Pg_Lease_def seq_op_def pg_now_def query_rows_def mapped_op_def return_op_def outMessage_def whole_add)
  have "map canon (filter ?p (messages st)) = map canon (filter ?q (tb_outbox ?d))" by (rule canon_filter [OF S(4)]) (rule pq)
  then have "map (\<lambda>m. outMessage (?f m)) (filter ?p (messages st)) = map (\<lambda>m. outMessage (?f m)) (filter ?q (tb_outbox ?d))"
    by (rule canon_keys) (simp add: outMessage_def leaseRow_def)
  then have "mset (map outMessage (map ?f (map (row st) ?as))) = mset (map outMessage (cn_returning cn (map ?f (filter ?q (tb_outbox ?d)))))"
    using filter_pick [OF S(1,3) D(1) sub] perm by (metis (no_types, lifting) list.map_comp mset_map comp_apply map_eq_conv)
  then show ?thesis unfolding mem pg using same' q(2) by (simp add: agrees_def with_answer_def)
qed

subsection \<open>Sweeping\<close>

text \<open>
  \<open>class_pick\<close> is what one class of a round takes, in PostgreSQL; \<open>class_victims\<close> is what it takes in memory.
\<close>

definition class_pick :: "bool \<Rightarrow> OutboxDeliveryStatus \<Rightarrow> (outboxMessage \<Rightarrow> Time option) \<Rightarrow> Time \<Rightarrow> int \<Rightarrow> outboxMessage list \<Rightarrow> outboxMessage list" where
  "class_pick on status column before n rs =
     (if on then sql_pick (retained_before column) (\<lambda>_. False) (retainable status column before) (nat n) rs else [])"

definition class_victims :: "addr_sort \<Rightarrow> bool \<Rightarrow> OutboxDeliveryStatus \<Rightarrow> (outboxMessage \<Rightarrow> Time option) \<Rightarrow> Time \<Rightarrow> Duration \<Rightarrow> int \<Rightarrow> storeState \<Rightarrow> addr list" where
  "class_victims srt on status column now age n st = (if on then take (nat n) (selectRetentionVictims srt status column now age st) else [])"

lemma retained_key: "retained_before column a b \<longleftrightarrow> (the (column a), obx_ID a) < (the (column b), obx_ID b)"
  by (auto simp: retained_before_def)

lemma victim_key: "victim_before st column x y \<longleftrightarrow> (the (column (row st x)), obx_ID (row st x)) < (the (column (row st y)), obx_ID (row st y))"
  by (auto simp: victim_before_def Let_def)

lemma class_same:
  assumes srt: "sort_slice srt" and same: "same_outbox st d" and column: "\<And>m. column (canon m) = column m"
  shows "map canon (map (row st) (class_victims srt on status column now age n st)) = map canon (class_pick on status column (now - age) n (tb_outbox d))"
proof -
  note S = same_outboxD [OF same]
  let ?key = "\<lambda>m. (the (column m), obx_ID m)" and ?ret = "retainable status column (now - age)"
  let ?as = "filter (\<lambda>a. ?ret (row st a)) (st_outbox st)" and ?E = "filter ?ret (messages st)" and ?E' = "filter ?ret (tb_outbox d)"
  have sel: "selectRetentionVictims srt status column now age st = srt (victim_before st column) ?as"
    unfolding selectRetentionVictims_def Let_def by (rule arg_cong [where f = "srt _"], rule filter_cong) (auto simp: retainable_def split: option.splits)
  have canonE: "map canon ?E = map canon ?E'"
  proof (rule canon_filter [OF S(4)])
    fix m m' assume h: "canon m = canon m'"
    have "column m = column m'" using column h by metis
    then show "?ret m \<longleftrightarrow> ?ret m'" using canon_eqD(4) [OF h] by (simp add: retainable_def)
  qed
  have E: "?E = map (row st) ?as" by (simp add: messages_def filter_map comp_def)
  have inj: "inj_on ?key (set ?E)" using S(6) by (auto simp: inj_on_def distinct_map)
  have key: "\<And>m. ?key (canon m) = ?key m" by (simp add: column)
  have srtk: "mset (map (row st) (srt (victim_before st column) ?as)) = mset ?E"
      "sorted_wrt (\<lambda>a b. ?key a \<le> ?key b) (map (row st) (srt (victim_before st column) ?as))"
    using srt_key [OF srt, of "victim_before st column" ?key "row st" ?as, OF victim_key] E by simp_all
  note ins = insertion_sort_key [of "retained_before column" ?key, OF retained_key, of ?E']
  have "map canon (map (row st) (srt (victim_before st column) ?as)) = map canon (insertion_sort (retained_before column) ?E')"
    by (rule sorted_same [where f = ?key, OF srtk(1) ins(1) canonE key inj srtk(2) ins(2)])
  then show ?thesis
    by (simp add: class_victims_def class_pick_def sel sql_pick_def flip: take_map)
qed

lemma class_pick_props:
  assumes "distinct (map obx_ID rs)"
  shows "distinct (class_pick on status column before n rs)" and "set (class_pick on status column before n rs) \<subseteq> set rs"
    and "length (filter (picked_in (class_pick on status column before n rs)) rs) = length (class_pick on status column before n rs)"
proof -
  let ?P = "class_pick on status column before n rs" and ?key = "\<lambda>m. (the (column m), obx_ID m)"
  have "distinct (insertion_sort (retained_before column) (filter p rs))" for p
    using insertion_sort_key(1) [of "retained_before column" ?key "filter p rs", OF retained_key] assms
    by (metis distinct_filter distinct_map mset_eq_imp_distinct_iff)
  then show d: "distinct ?P" by (simp add: class_pick_def sql_pick_def)
  show sub: "set ?P \<subseteq> set rs" by (auto simp: class_pick_def dest: sql_pick_set)
  have "picked_in ?P m \<longleftrightarrow> m \<in> set ?P" if "m \<in> set rs" for m
    using same_key [OF assms] sub that by (auto simp: picked_in_def list_ex_iff)
  then have "filter (picked_in ?P) rs = filter (\<lambda>m. m \<in> set ?P) rs" by (simp cong: filter_cong)
  moreover have "mset (filter (\<lambda>m. m \<in> set ?P) rs) = mset ?P"
    using d sub assms by (intro iffD1 [OF set_eq_iff_mset_eq_distinct]) (auto simp: distinct_map)
  ultimately show "length (filter (picked_in ?P) rs) = length ?P" by (metis size_mset)
qed

lemma quiet_class:
  fixes column :: "outboxMessage \<Rightarrow> Time option" and before :: Time and n :: int and status :: OutboxDeliveryStatus and on :: bool
  assumes q: "quiet cn" "pg_tx s = Some w" and "distinct (map obx_ID (tb_outbox (w (pg_db s))))"
  defines "P \<equiv> class_pick on status column (cn_ts cn before) n (tb_outbox (w (pg_db s)))"
  shows "\<exists>s' w'. (if on then (if dry then countRetainable cn else deleteRetainableBatch cn) status column before n else return_op 0) s = (s', Inr (int (length P)))
    \<and> pg_db s' = pg_db s \<and> pg_tx s' = Some w'
    \<and> w' (pg_db s) = (if dry then w (pg_db s) else (w (pg_db s))\<lparr>tb_outbox := filter (\<lambda>m. \<not> picked_in P m) (tb_outbox (w (pg_db s)))\<rparr>)"
proof -
  note C = class_pick_props(3) [OF assms(3), of on status column "cn_ts cn before" n, folded P_def]
  have none: "(d :: pg_db)\<lparr>tb_outbox := filter (\<lambda>m. \<not> picked_in [] m) (tb_outbox d)\<rparr> = d" for d by (simp add: picked_in_def)
  have len: "length (insertion_sort (retained_before column) xs) = length xs" for xs
    using insertion_sort_key(1) [of "retained_before column" "\<lambda>m. (the (column m), obx_ID m)" xs, OF retained_key] by (metis size_mset)
  show ?thesis
  proof (cases "on")
    case False
    then show ?thesis using q(2) none by (auto simp: P_def class_pick_def return_op_def)
  next
    case True
    show ?thesis
    proof (cases dry)
      case True
      then show ?thesis
        using \<open>on\<close> q(2) by (simp add: countRetainable_def quiet_tx_query [OF q] P_def class_pick_def sql_pick_def len)
    next
      case False
      have "delete_retainable status column (cn_ts cn before) (nat n) (\<lambda>_. False) (w (pg_db s))
          = ((w (pg_db s))\<lparr>tb_outbox := filter (\<lambda>m. \<not> picked_in P m) (tb_outbox (w (pg_db s)))\<rparr>, Inr (length P))"
        using C \<open>on\<close> by (simp add: delete_retainable_eq on_outbox_def sql_delete_def P_def class_pick_def)
      then show ?thesis
        using False \<open>on\<close> by (simp add: deleteRetainableBatch_def seq_op_def quiet_tx_exec [OF q] return_op_def)
    qed
  qed
qed

lemma class_pick_other:
  fixes column' :: "outboxMessage \<Rightarrow> Time option" and before' :: Time and n' :: int and on' :: bool
  assumes "distinct (map obx_ID rs)"
  defines "P \<equiv> class_pick on' OutboxDelivered column' before' n' rs"
  shows "class_pick on OutboxDiscarded column before n (filter (\<lambda>m. \<not> picked_in P m) rs) = class_pick on OutboxDiscarded column before n rs"
proof -
  have "\<not> picked_in P m" if "m \<in> set rs" "obx_Status m = OutboxDiscarded" for m
    using picked_in_sat [OF assms(1) that(1), of "retained_before column'" "\<lambda>_. False" "retainable OutboxDelivered column' before'" "nat n'"] that(2)
    by (auto simp: P_def class_pick_def retainable_def picked_in_def)
  then have "filter (retainable OutboxDiscarded column before) (filter (\<lambda>m. \<not> picked_in P m) rs) = filter (retainable OutboxDiscarded column before) rs"
    unfolding filter_filter by (intro filter_cong) (auto simp: retainable_def)
  then show ?thesis by (simp add: class_pick_def sql_pick_def)
qed

lemma quiet_sweep:
  fixes t :: Time
  assumes q: "quiet cn" "pg_tx s = None" and D: "distinct (map obx_ID (tb_outbox (pg_db s)))" and "RetentionSweepRequest_Validate req = Inr ()"
    and whl: "whole cn (rs_DeliveredOlderThan req)" "whole cn (rs_DiscardedOlderThan req)"
    and now: "cn_clock cn (pg_ticks s) = t"
  defines "P1 \<equiv> class_pick (rs_DeliveredOlderThan req > 0) OutboxDelivered obx_DeliveredAt (cn_ts cn t - rs_DeliveredOlderThan req) (rs_Limit req) (tb_outbox (pg_db s))"
  defines "budget \<equiv> rs_Limit req - int (length P1)"
  defines "P2 \<equiv> class_pick (rs_DiscardedOlderThan req > 0 \<and> budget > 0) OutboxDiscarded obx_DiscardedAt (cn_ts cn t - rs_DiscardedOlderThan req) budget (tb_outbox (pg_db s))"
  shows "\<exists>s'. Pg_SweepRetention cn req s = (s', Inr \<lparr>rr_Cutoff = t, rr_DeletedDelivered = int (length P1), rr_DeletedDiscarded = int (length P2)\<rparr>)
    \<and> pg_tx s' = None
    \<and> pg_db s' = (if rs_DryRun req then pg_db s else (pg_db s)\<lparr>tb_outbox := filter (\<lambda>m. \<not> picked_in (P1 @ P2) m) (tb_outbox (pg_db s))\<rparr>)"
proof -
  let ?d = "pg_db s" and ?rs = "tb_outbox (pg_db s)" and ?dry = "rs_DryRun req"
  let ?take = "if ?dry then countRetainable cn else deleteRetainableBatch cn"
  define b where "b = s\<lparr>pg_stmts := Suc (pg_stmts s), pg_tx := Some (\<lambda>d. d), pg_ticks := Suc (pg_ticks s)\<rparr>"
  have b: "pg_db b = ?d" "pg_tx b = Some (\<lambda>d. d)" by (simp_all add: b_def)
  obtain s1 w1 where s1: "(if rs_DeliveredOlderThan req > 0 then ?take OutboxDelivered obx_DeliveredAt (t - rs_DeliveredOlderThan req) (rs_Limit req) else return_op 0) b
        = (s1, Inr (int (length P1)))" "pg_db s1 = ?d" "pg_tx s1 = Some w1"
      "w1 ?d = (if ?dry then ?d else ?d\<lparr>tb_outbox := filter (\<lambda>m. \<not> picked_in P1 m) ?rs\<rparr>)"
    using quiet_class [OF q(1) b(2), of "rs_DeliveredOlderThan req > 0" ?dry OutboxDelivered obx_DeliveredAt "t - rs_DeliveredOlderThan req" "rs_Limit req"] D
    unfolding P1_def b(1) whole_diff [OF whl(1)] by blast
  have D1: "distinct (map obx_ID (tb_outbox (w1 (pg_db s1))))" using D s1(2,4) by (simp add: distinct_map_filter)
  have P2: "class_pick (rs_DiscardedOlderThan req > 0 \<and> budget > 0) OutboxDiscarded obx_DiscardedAt (cn_ts cn t - rs_DiscardedOlderThan req) budget (tb_outbox (w1 (pg_db s1))) = P2"
    using class_pick_other [OF D] s1(2,4) by (simp add: P1_def P2_def)
  obtain s2 w2 where s2: "(if rs_DiscardedOlderThan req > 0 \<and> budget > 0 then ?take OutboxDiscarded obx_DiscardedAt (t - rs_DiscardedOlderThan req) budget else return_op 0) s1
        = (s2, Inr (int (length P2)))" "pg_db s2 = ?d" "pg_tx s2 = Some w2"
      "w2 ?d = (if ?dry then w1 ?d else (w1 ?d)\<lparr>tb_outbox := filter (\<lambda>m. \<not> picked_in P2 m) (tb_outbox (w1 ?d))\<rparr>)"
    using quiet_class [OF q(1) s1(3) D1, where on = "rs_DiscardedOlderThan req > 0 \<and> budget > 0" and dry = ?dry and status = OutboxDiscarded
        and column = obx_DiscardedAt and before = "t - rs_DiscardedOlderThan req" and n = budget,
        unfolded whole_diff [OF whl(2)] P2, unfolded s1(2)] by blast
  have w2: "w2 ?d = (if ?dry then ?d else ?d\<lparr>tb_outbox := filter (\<lambda>m. \<not> picked_in (P1 @ P2) m) ?rs\<rparr>)"
    using s1(4) s2(4) by (simp add: picked_in_def)
  have round: "sweep_round ?take req t b = (s2, Inr \<lparr>rr_Cutoff = t, rr_DeletedDelivered = int (length P1), rr_DeletedDiscarded = int (length P2)\<rparr>)"
    unfolding sweep_round_def seq_op_def s1(1) prod.case sum.case s2(1) [unfolded budget_def] by (simp add: return_op_def)
  have "Pg_SweepRetention cn req s = pg_Do cn (seq_op (pg_now cn) (\<lambda>cutoff. sweep_round ?take req cutoff)) s"
    using assms(4) by (simp add: Pg_SweepRetention_def seq_op_def pure_pg_def if_distrib cong: if_cong)
  also have "\<dots> = (s2\<lparr>pg_db := w2 ?d, pg_tx := None, pg_stmts := Suc (pg_stmts s2)\<rparr>,
      Inr \<lparr>rr_Cutoff = t, rr_DeletedDelivered = int (length P1), rr_DeletedDiscarded = int (length P2)\<rparr>)"
    unfolding quiet_Do [OF q] using round now s2(2,3) by (simp add: seq_op_def pg_now_def b_def sees_def)
  finally show ?thesis using w2 by simp
qed

lemma sweep_victims_class:
  fixes srt :: addr_sort and now :: Time and st :: storeState
  assumes "1 \<le> rs_Limit req"
  defines "dv \<equiv> class_victims srt (rs_DeliveredOlderThan req > 0) OutboxDelivered obx_DeliveredAt now (rs_DeliveredOlderThan req) (rs_Limit req) st"
  defines "budget \<equiv> rs_Limit req - int (length dv)"
  shows "sweep_victims srt req now st = (dv, class_victims srt (rs_DiscardedOlderThan req > 0 \<and> budget > 0) OutboxDiscarded obx_DiscardedAt now (rs_DiscardedOlderThan req) budget st)"
proof -
  have t: "take (nat (min n (int (length xs)))) xs = take (nat n) xs" if "0 \<le> n" for n and xs :: "addr list"
    using that by (simp add: min_def)
  have dv: "delivered_victims srt req now st = dv" using t assms(1) by (simp add: delivered_victims_def dv_def class_victims_def Let_def)
  show ?thesis unfolding sweep_victims_def dv Let_def by (simp add: discarded_victims_def class_victims_def Let_def budget_def)
qed

text \<open>The cutoff of the answer is the reading of the clock itself; compared at the columns' resolution.\<close>

definition sweep_kept :: "Conn \<Rightarrow> RetentionSweepResult \<Rightarrow> RetentionSweepResult" where
  "sweep_kept cn r = r\<lparr>rr_Cutoff := cn_ts cn (rr_Cutoff r)\<rparr>"

lemma agrees_Sweep:
  assumes srt: "sort_slice srt" and q: "quiet cn" "pg_tx s = None" and same: "same_outbox st (pg_db s)" and whl: "whole cn (rs_DeliveredOlderThan req)" "whole cn (rs_DiscardedOlderThan req)"
    and now: "cn_ts cn (cn_clock cn (pg_ticks s)) = now"
  shows "agrees (OutboxRepository_SweepRetention srt req now st) (with_answer (sweep_kept cn) (Pg_SweepRetention cn req s))"
proof (cases "RetentionSweepRequest_Validate req")
  case (Inl e)
  then show ?thesis using q(2) same by (simp add: OutboxRepository_SweepRetention_def Pg_SweepRetention_def seq_op_def pure_pg_def agrees_def with_answer_def)
next
  case v: (Inr u)
  note S = same_outboxD [OF same]
  let ?rs = "tb_outbox (pg_db s)"
  have D: "distinct (map obx_ID ?rs)" using S(5) by (simp add: pg_outbox_ok_def)
  have v': "RetentionSweepRequest_Validate req = Inr ()" using v by simp
  have lim: "1 \<le> rs_Limit req" using v by (auto simp: RetentionSweepRequest_Validate_def split: if_splits)
  define dv where "dv = class_victims srt (rs_DeliveredOlderThan req > 0) OutboxDelivered obx_DeliveredAt now (rs_DeliveredOlderThan req) (rs_Limit req) st"
  define P1 where "P1 = class_pick (rs_DeliveredOlderThan req > 0) OutboxDelivered obx_DeliveredAt (now - rs_DeliveredOlderThan req) (rs_Limit req) ?rs"
  define b where "b = rs_Limit req - int (length P1)"
  define dc where "dc = class_victims srt (rs_DiscardedOlderThan req > 0 \<and> b > 0) OutboxDiscarded obx_DiscardedAt now (rs_DiscardedOlderThan req) b st"
  define P2 where "P2 = class_pick (rs_DiscardedOlderThan req > 0 \<and> b > 0) OutboxDiscarded obx_DiscardedAt (now - rs_DiscardedOlderThan req) b ?rs"
  have c1: "map canon (map (row st) dv) = map canon P1" unfolding dv_def P1_def by (rule class_same [OF srt same]) simp
  have c2: "map canon (map (row st) dc) = map canon P2" unfolding dc_def P2_def by (rule class_same [OF srt same]) simp
  have len: "length dv = length P1" "length dc = length P2" using arg_cong [OF c1, of length] arg_cong [OF c2, of length] by simp_all
  have vic: "sweep_victims srt req now st = (dv, dc)"
    using sweep_victims_class [OF lim, of srt now st] len(1) by (simp add: dv_def dc_def b_def)
  have sub: "set (dv @ dc) \<subseteq> set (st_outbox st)" using sweep_victims_props(2) [OF srt S(1) vic] by blast
  obtain s' where pg: "Pg_SweepRetention cn req s = (s', Inr \<lparr>rr_Cutoff = cn_clock cn (pg_ticks s), rr_DeletedDelivered = int (length P1), rr_DeletedDiscarded = int (length P2)\<rparr>)"
      "pg_tx s' = None" "pg_db s' = (if rs_DryRun req then pg_db s else (pg_db s)\<lparr>tb_outbox := filter (\<lambda>m. \<not> picked_in (P1 @ P2) m) ?rs\<rparr>)"
    using quiet_sweep [OF q D v' whl refl, unfolded now, folded P1_def, folded b_def, folded P2_def] by blast
  show ?thesis
  proof (cases "rs_DryRun req")
    case True
    then show ?thesis using v vic pg same len now by (simp add: OutboxRepository_SweepRetention_def agrees_def with_answer_def sweep_kept_def)
  next
    case False
    let ?st' = "(forget st (dv @ dc))\<lparr>st_outbox := filter (\<lambda>a. a \<notin> set (dv @ dc)) (st_outbox st)\<rparr>"
    have mem: "OutboxRepository_SweepRetention srt req now st
        = (?st', Inr \<lparr>rr_Cutoff = now, rr_DeletedDelivered = int (length dv), rr_DeletedDiscarded = int (length dc)\<rparr>)"
      using False v vic by (simp add: OutboxRepository_SweepRetention_def Let_def)
    have r: "row ?st' = row st" by (simp add: row_def fun_eq_iff) (metis forget_frame(2) row_def)
    have ok: "outbox_ok ?st'" using outbox_ok_exec [OF srt S(2), of "\<lambda>_. Inr []" "CallSweep req" now] mem by simp
    have "obx_ID (row st a) \<notin> (\<lambda>a. obx_ID (row st a)) ` set (dv @ dc)" if "a \<in> set (st_outbox st)" "a \<notin> set (dv @ dc)" for a
      using indexed_picks [OF S(3) that(1) sub] that(2) by (auto simp: picked_in_ids)
    then have ix: "indexed ?st'" using S(3) unfolding indexed_def r by (auto simp: forget_lookup)
    have "messages ?st' = filter (\<lambda>m. \<not> picked_in (map (row st) (dv @ dc)) m) (messages st)"
      using indexed_picks [OF S(3) _ sub] unfolding messages_def r filter_map comp_def by (simp cong: filter_cong)
    moreover have ids: "map obx_ID (map (row st) (dv @ dc)) = map obx_ID (P1 @ P2)"
    proof (rule canon_keys)
      show "map canon (map (row st) (dv @ dc)) = map canon (P1 @ P2)" using c1 c2 by (simp only: map_append)
    qed simp
    have "map canon (filter (\<lambda>m. \<not> picked_in (map (row st) (dv @ dc)) m) (messages st)) = map canon (filter (\<lambda>m. \<not> picked_in (P1 @ P2) m) ?rs)"
    proof (rule canon_filter [OF S(4)])
      fix m m' assume h: "canon m = canon m'"
      show "(\<not> picked_in (map (row st) (dv @ dc)) m) \<longleftrightarrow> (\<not> picked_in (P1 @ P2) m')" unfolding picked_in_ids ids canon_eqD(1) [OF h] by simp
    qed
    ultimately have "same_outbox ?st' (pg_db s')" using ok ix pg(3) False by (simp add: same_outbox_def)
    then show ?thesis unfolding mem pg(1) using pg(2) len now by (simp add: agrees_def with_answer_def sweep_kept_def)
  qed
qed

subsection \<open>Reads\<close>

lemma agrees_Stats:
  assumes q: "quiet cn" "pg_tx s = None" and same: "same_outbox st (pg_db s)"
  shows "agrees (st, OutboxRepository_Stats st) (Pg_Stats cn s)"
proof -
  note S = same_outboxD [OF same]
  let ?n = "\<lambda>ms status. int (length (filter (\<lambda>m. obx_Status m = status) ms))"
  have count: "count_status c ms = \<lparr>os_Pending = os_Pending c + ?n ms OutboxPending, os_Leased = os_Leased c + ?n ms OutboxLeased,
      os_Delivered = os_Delivered c + ?n ms OutboxDelivered, os_Dead = os_Dead c + ?n ms OutboxDead, os_Discarded = os_Discarded c + ?n ms OutboxDiscarded\<rparr>" for c ms
  proof (induction c ms rule: count_status.induct)
    case (2 c m ms)
    then show ?case by (cases "obx_Status m") simp_all
  qed (simp add: OutboxStats.equality)
  have "?n (messages st) status = ?n (tb_outbox (pg_db s)) status" for status
  proof -
    have "map canon (filter (\<lambda>m. obx_Status m = status) (messages st)) = map canon (filter (\<lambda>m. obx_Status m = status) (tb_outbox (pg_db s)))"
      by (rule canon_filter_same [OF S(4)]) simp
    then show ?thesis using map_eq_imp_length_eq by fastforce
  qed
  then show ?thesis
    unfolding Pg_Stats_def quiet_query [OF q] OutboxRepository_Stats_def count using q(2) same by (simp add: agrees_def messages_def)
qed

lemma agrees_Get:
  assumes q: "quiet cn" "pg_tx s = None" and same: "same_outbox st (pg_db s)"
  shows "agrees (st, OutboxRepository_GetDeadLetter tn k st) (Pg_GetDeadLetter cn tn k s)"
proof -
  let ?p = "\<lambda>m. obx_ID m = k \<and> obx_TenantID m = tn \<and> (obx_Status m = OutboxDead \<or> obx_Status m = OutboxDiscarded)"
  have D: "distinct (map obx_ID (tb_outbox (pg_db s)))" using same_outboxD(5) [OF same] by (simp add: pg_outbox_ok_def)
  have f: "filter ?p (tb_outbox (pg_db s)) = (case message_at (pg_db s) k of None \<Rightarrow> [] | Some m \<Rightarrow> if ?p m then [m] else [])"
    unfolding message_at_def using D by (rule filter_key) simp
  have pg: "Pg_GetDeadLetter cn tn k s = (s\<lparr>pg_stmts := Suc (pg_stmts s)\<rparr>,
      case message_at (pg_db s) k of None \<Rightarrow> Inl (NotFoundf ''outbox_message'')
      | Some m \<Rightarrow> if ?p m then Inr (scanDeadLetter m) else Inl (NotFoundf ''outbox_message''))"
    unfolding Pg_GetDeadLetter_def seq_op_def quiet_query [OF q] f by (cases "message_at (pg_db s) k") (simp_all add: throw_op_def return_op_def)
  show ?thesis
  proof (cases "lookup (st_outboxByID st) k")
    case None
    then show ?thesis unfolding pg using same_message(1) [OF same] q(2) same by (simp add: OutboxRepository_GetDeadLetter_def agrees_def)
  next
    case (Some a)
    then obtain m where m: "message_at (pg_db s) k = Some m" "canon m = canon (row st a)" using same_message(2) [OF same] by blast
    have "scanDeadLetter m = deadLetterSummary (row st a)" by (simp add: scanDeadLetter_def deadLetterSummary_def canon_eqD [OF m(2)])
    moreover have "?p m \<longleftrightarrow> obx_TenantID (row st a) = tn \<and> (obx_Status (row st a) = OutboxDead \<or> obx_Status (row st a) = OutboxDiscarded)"
      using message_at_Some [OF m(1)] canon_eqD(3,4) [OF m(2)] by simp
    ultimately show ?thesis unfolding pg m(1) using Some q(2) same by (simp add: OutboxRepository_GetDeadLetter_def agrees_def)
  qed
qed

lemma agrees_List:
  assumes srt: "sort_slice srt" and q: "quiet cn" "pg_tx s = None" and same: "same_outbox st (pg_db s)"
    and past: "\<And>m. m \<in> set (messages st) \<Longrightarrow> 0 < obx_CreatedAt m" and ts: "cn_ts cn (ldl_AfterCreatedAt req) = ldl_AfterCreatedAt req"
  shows "agrees (st, OutboxRepository_ListDeadLetters srt req st) (Pg_ListDeadLetters cn req s)"
proof (cases "ListDeadLettersRequest_Validate req")
  case (Inl e)
  then show ?thesis using q(2) same by (simp add: OutboxRepository_ListDeadLetters_def Pg_ListDeadLetters_def seq_op_def pure_pg_def agrees_def)
next
  case v: (Inr u)
  note S = same_outboxD [OF same]
  have lim: "0 < ldl_Limit req" using v by (auto simp: ListDeadLettersRequest_Validate_def split: if_splits sum.splits)
  let ?key = "\<lambda>m. (obx_CreatedAt m, obx_ID m)" and ?cur = "(ldl_AfterCreatedAt req, ldl_AfterID req)" and ?n = "nat (ldl_Limit req)"
  let ?mine = "\<lambda>m. obx_TenantID m = ldl_TenantID req \<and> obx_Status m = OutboxDead" and ?rs = "tb_outbox (pg_db s)"
  let ?after = "\<lambda>m. ?cur < ?key m" and ?seen = "\<lambda>m. afterKeyset (obx_CreatedAt m) (obx_ID m) (ldl_AfterCreatedAt req) (ldl_AfterID req)"
  let ?as = "filter (\<lambda>a. obx_Status (row st a) = OutboxDead \<and> obx_TenantID (row st a) = ldl_TenantID req) (st_outbox st)"
  let ?xs = "map (row st) (srt (dead_before st) ?as)"
  let ?E = "filter (\<lambda>m. ?mine m \<and> ?after m) (messages st)" and ?E' = "filter (\<lambda>m. ?mine m \<and> ?after m) ?rs"
  have seen: "\<not> ?seen m \<longleftrightarrow> ?after m" if "m \<in> set (messages st)" for m
    using past [OF that] afterKeyset_rank [of "ldl_AfterID req" "ldl_AfterCreatedAt req" "obx_CreatedAt m" "obx_ID m"]
    by (cases "(ldl_AfterID req, ldl_AfterCreatedAt req) = ([], 0)") (auto simp: afterKeyset_def)
  have canonE: "map canon ?E = map canon ?E'" by (rule canon_filter_same [OF S(4)]) simp
  have E: "filter ?mine (messages st) = map (row st) ?as" by (simp add: messages_def filter_map comp_def conj_commute)
  have inj: "inj_on ?key (set ?E)" using S(6) by (auto simp: inj_on_def distinct_map)
  have srtk: "mset ?xs = mset (filter ?mine (messages st))" "sorted_wrt (\<lambda>a b. ?key a \<le> ?key b) ?xs"
    using srt_key [OF srt, of "dead_before st" ?key "row st" ?as, OF dead_before_rank] E by simp_all
  have xs: "mset (filter ?after ?xs) = mset ?E" "sorted_wrt (\<lambda>a b. ?key a \<le> ?key b) (filter ?after ?xs)"
    using arg_cong [OF srtk(1), of "filter_mset ?after"] sorted_wrt_filter [OF srtk(2)] by (simp_all add: filter_filter_mset conj_commute)
  have lex: "message_before a b \<longleftrightarrow> ?key a < ?key b" for a b by (auto simp: message_before_def)
  note ins = insertion_sort_key [of message_before ?key, OF lex]
  have page: "map canon (filter ?after ?xs) = map canon (insertion_sort message_before ?E')"
    by (rule sorted_same [where f = ?key, OF xs(1) ins(1) canonE _ inj xs(2) ins(2)]) simp
  have "set ?xs \<subseteq> set (messages st)" using mset_eq_setD [OF srtk(1)] by auto
  then have skip: "filter (\<lambda>m. \<not> ?seen m) ?xs = filter ?after ?xs" using seen by (intro filter_cong) auto
  have sums: "filter (\<lambda>d. \<not> afterKeyset (dl_CreatedAt d) (dl_ID d) (ldl_AfterCreatedAt req) (ldl_AfterID req)) (map deadLetterSummary ys)
      = map deadLetterSummary (filter (\<lambda>m. \<not> ?seen m) ys)" for ys by (simp add: filter_map comp_def deadLetterSummary_def)
  have "dead_loop req [] ?xs = map deadLetterSummary (take ?n (filter ?after ?xs))"
    using dead_loop_eq [of "[]" req ?xs] lim unfolding sums skip take_map by simp
  then have mem: "OutboxRepository_ListDeadLetters srt req st = Inr (map deadLetterSummary (take ?n (filter ?after ?xs)))"
    unfolding OutboxRepository_ListDeadLetters_def Let_def using v by simp
  have aft: "?after m \<longleftrightarrow> obx_CreatedAt m > ldl_AfterCreatedAt req \<or> (obx_CreatedAt m = ldl_AfterCreatedAt req \<and> obx_ID m > ldl_AfterID req)" for m
    by auto
  have pg: "Pg_ListDeadLetters cn req s = (s\<lparr>pg_stmts := Suc (pg_stmts s)\<rparr>, Inr (map scanDeadLetter (take ?n (insertion_sort message_before ?E'))))"
    unfolding Pg_ListDeadLetters_def seq_op_def pure_pg_def v aft by (simp add: quiet_query [OF q] sql_pick_def ts)
  have "map deadLetterSummary (take ?n (filter ?after ?xs)) = map deadLetterSummary (take ?n (insertion_sort message_before ?E'))"
  proof (rule canon_keys)
    show "map canon (take ?n (filter ?after ?xs)) = map canon (take ?n (insertion_sort message_before ?E'))" by (simp only: page flip: take_map)
  qed (simp add: deadLetterSummary_def)
  moreover have "scanDeadLetter = deadLetterSummary" by (simp add: fun_eq_iff scanDeadLetter_def deadLetterSummary_def)
  ultimately show ?thesis unfolding mem pg using q(2) same by (simp add: agrees_def)
qed

subsection \<open>Sequences of calls\<close>

text \<open>
  The methods of the repository with their answers; the messages of a lease are compared as a multiset. \<open>request_kept\<close> and
  \<open>answer_kept\<close> say what PostgreSQL keeps of a call: the document of an envelope as \<^verbatim>\<open>jsonb\<close> prints it, and a sweep's cutoff at the
  resolution of the columns. \<open>outbox_fits\<close> is what a call must satisfy for the adapters not to differ: an envelope that is a JSON document, no second
  key for a stored ID, a cause that is text, durations in whole units of the timestamp columns, a lease whose choice is decided, no page over
  messages from before the zero time or from a cursor finer than the columns.
\<close>

datatype outbox_request =
    RPublish OutboxMessage | RLease OutboxLeaseRequest | RDeliver string string | RFail string string Duration string
  | ROperate bool OutboxMutationRequest | RSweep RetentionSweepRequest | RStats | RDead string string | RPage ListDeadLettersRequest

datatype outbox_answer =
    Done | Handed "OutboxMessage multiset" | Operated OutboxMutationResult | Swept RetentionSweepResult
  | Counted OutboxStats | Letter DeadLetterSummary | Page "DeadLetterSummary list"

fun mem_outbox_request :: "addr_sort \<Rightarrow> outbox_request \<Rightarrow> Time \<Rightarrow> outbox_answer store_op" where
  "mem_outbox_request srt (RPublish msg) now st = with_answer (\<lambda>_. Done) (OutboxRepository_Publish msg now st)"
| "mem_outbox_request srt (RLease req) now st = with_answer (\<lambda>ms. Handed (mset ms)) (OutboxRepository_Lease srt req now st)"
| "mem_outbox_request srt (RDeliver k who) now st = with_answer (\<lambda>_. Done) (OutboxRepository_MarkDelivered k who now st)"
| "mem_outbox_request srt (RFail k who retry cause) now st = with_answer (\<lambda>_. Done) (OutboxRepository_FailWithBackoff k who retry cause now st)"
| "mem_outbox_request srt (ROperate b req) now st = with_answer Operated (mem_operate b req now st)"
| "mem_outbox_request srt (RSweep req) now st = with_answer Swept (OutboxRepository_SweepRetention srt req now st)"
| "mem_outbox_request srt RStats now st = with_answer Counted (st, OutboxRepository_Stats st)"
| "mem_outbox_request srt (RDead tn k) now st = with_answer Letter (st, OutboxRepository_GetDeadLetter tn k st)"
| "mem_outbox_request srt (RPage req) now st = with_answer Page (st, OutboxRepository_ListDeadLetters srt req st)"

fun pg_outbox_request :: "Conn \<Rightarrow> outbox_request \<Rightarrow> outbox_answer pg_op" where
  "pg_outbox_request cn (RPublish msg) s = with_answer (\<lambda>_. Done) (Pg_Publish cn msg s)"
| "pg_outbox_request cn (RLease req) s = with_answer (\<lambda>ms. Handed (mset ms)) (Pg_Lease cn req s)"
| "pg_outbox_request cn (RDeliver k who) s = with_answer (\<lambda>_. Done) (Pg_MarkDelivered cn k who s)"
| "pg_outbox_request cn (RFail k who retry cause) s = with_answer (\<lambda>_. Done) (Pg_FailWithBackoff cn k who retry cause s)"
| "pg_outbox_request cn (ROperate b req) s = with_answer Operated (if b then Pg_RequeueDeadLetter cn req s else Pg_DiscardDeadLetter cn req s)"
| "pg_outbox_request cn (RSweep req) s = with_answer Swept (Pg_SweepRetention cn req s)"
| "pg_outbox_request cn RStats s = with_answer Counted (Pg_Stats cn s)"
| "pg_outbox_request cn (RDead tn k) s = with_answer Letter (Pg_GetDeadLetter cn tn k s)"
| "pg_outbox_request cn (RPage req) s = with_answer Page (Pg_ListDeadLetters cn req s)"

fun request_kept :: "Conn \<Rightarrow> outbox_request \<Rightarrow> outbox_request" where
  "request_kept cn (RPublish msg) = RPublish (msg\<lparr>om_Envelope := (case cn_jsonb cn (om_Envelope msg) of None \<Rightarrow> om_Envelope msg | Some e \<Rightarrow> e)\<rparr>)"
| "request_kept cn r = r"

fun answer_kept :: "Conn \<Rightarrow> outbox_answer \<Rightarrow> outbox_answer" where
  "answer_kept cn (Swept r) = Swept (sweep_kept cn r)"
| "answer_kept cn a = a"

fun outbox_fits :: "Conn \<Rightarrow> outbox_request \<Rightarrow> Time \<Rightarrow> storeState \<Rightarrow> bool" where
  "outbox_fits cn (RPublish msg) now st \<longleftrightarrow> cn_jsonb cn (om_Envelope msg) \<noteq> None
     \<and> (om_DedupKey msg \<in> set (map obx_DedupKey (messages st)) \<or> om_ID msg \<notin> set (map obx_ID (messages st)))"
| "outbox_fits cn (RLease req) now st \<longleftrightarrow> 0 \<le> ol_Limit req \<and> lease_decided req now st \<and> whole cn (ol_LeaseFor req)"
| "outbox_fits cn (RFail k who retry cause) now st \<longleftrightarrow> cn_text cn (truncateCause cause) \<and> whole cn retry"
| "outbox_fits cn (RSweep req) now st \<longleftrightarrow> whole cn (rs_DeliveredOlderThan req) \<and> whole cn (rs_DiscardedOlderThan req)"
| "outbox_fits cn (RPage req) now st \<longleftrightarrow> list_all (\<lambda>m. 0 < obx_CreatedAt m) (messages st) \<and> cn_ts cn (ldl_AfterCreatedAt req) = ldl_AfterCreatedAt req"
| "outbox_fits cn _ now st \<longleftrightarrow> True"

lemma agrees_with: "agrees m p \<Longrightarrow> agrees (with_answer h m) (with_answer h p)"
  by (simp add: agrees_def with_answer_def)

lemma with_answer_comp: "with_answer g (with_answer h p) = with_answer (\<lambda>x. g (h x)) p"
  by (simp add: with_answer_def sum.map_comp comp_def id_def)

lemma agrees_outbox_request:
  assumes srt: "sort_slice srt" and q: "quiet cn" "pg_tx s = None" and same: "same_outbox st (pg_db s)" and now: "cn_ts cn (cn_clock cn (pg_ticks s)) = now"
    and perm: "\<And>rows. mset (cn_returning cn rows) = mset rows" and fits: "outbox_fits cn r now st"
  shows "agrees (mem_outbox_request srt (request_kept cn r) now st) (with_answer (answer_kept cn) (pg_outbox_request cn r s))"
proof (cases r)
  case (RPublish msg)
  then show ?thesis using fits by (auto simp: with_answer_comp intro!: agrees_with agrees_Publish [OF q same now])
next
  case (RLease req)
  have "agrees (with_answer mset (OutboxRepository_Lease srt req now st)) (with_answer mset (Pg_Lease cn req s))"
    using fits RLease by (intro agrees_Lease [OF srt q same now _ _ perm]) simp_all
  from agrees_with [OF this, of Handed] show ?thesis unfolding RLease by (simp add: with_answer_comp)
next
  case (ROperate b req)
  have "operate b cn req s = (if b then Pg_RequeueDeadLetter cn req s else Pg_DiscardDeadLetter cn req s)" by (simp add: operate_def)
  then show ?thesis using ROperate agrees_with [OF agrees_operate [OF q same now, of b req], of Operated] by (simp add: with_answer_comp)
next
  case (RSweep req)
  have "agrees (OutboxRepository_SweepRetention srt req now st) (with_answer (sweep_kept cn) (Pg_SweepRetention cn req s))"
    using fits RSweep by (intro agrees_Sweep [OF srt q same _ _ now]) simp_all
  from agrees_with [OF this, of Swept] show ?thesis unfolding RSweep by (simp add: with_answer_comp)
next
  case (RPage req)
  then show ?thesis using fits by (auto simp: list_all_iff with_answer_comp intro!: agrees_with agrees_List [OF srt q same])
qed (use fits in \<open>auto simp: with_answer_comp intro!: agrees_with agrees_MarkDelivered [OF q same now] agrees_Fail [OF q same now]
  agrees_Stats [OF q same] agrees_Get [OF q same]\<close>)

fun mem_outbox_calls :: "addr_sort \<Rightarrow> (Time \<times> outbox_request) list \<Rightarrow> storeState \<Rightarrow> storeState \<times> outbox_answer result list" where
  "mem_outbox_calls srt [] st = (st, [])"
| "mem_outbox_calls srt ((now, r) # calls) st =
     (let (st1, a) = mem_outbox_request srt r now st; (st2, as) = mem_outbox_calls srt calls st1 in (st2, a # as))"

fun pg_outbox_calls :: "Conn \<Rightarrow> (Time \<times> outbox_request) list \<Rightarrow> pg_db \<Rightarrow> pg_db \<times> outbox_answer result list" where
  "pg_outbox_calls cn [] d = (d, [])"
| "pg_outbox_calls cn ((now, r) # calls) d =
     (let (s1, a) = pg_outbox_request (cn\<lparr>cn_clock := \<lambda>_. now\<rparr>) r (on_session d); (d2, as) = pg_outbox_calls cn calls (pg_db s1) in (d2, a # as))"

text \<open>Every call fits the queue it finds, which is followed in memory.\<close>

fun outbox_fits_all :: "addr_sort \<Rightarrow> Conn \<Rightarrow> (Time \<times> outbox_request) list \<Rightarrow> storeState \<Rightarrow> bool" where
  "outbox_fits_all srt cn [] st \<longleftrightarrow> True"
| "outbox_fits_all srt cn ((now, r) # calls) st \<longleftrightarrow> outbox_fits cn r (cn_ts cn now) st
     \<and> outbox_fits_all srt cn calls (fst (mem_outbox_request srt (request_kept cn r) (cn_ts cn now) st))"

lemma fits_clock: "outbox_fits (cn\<lparr>cn_clock := c\<rparr>) r now st = outbox_fits cn r now st" "request_kept (cn\<lparr>cn_clock := c\<rparr>) r = request_kept cn r"
  by (cases r; simp add: whole_def)+

lemma answer_clock: "answer_kept (cn\<lparr>cn_clock := c\<rparr>) = answer_kept cn"
proof
  show "answer_kept (cn\<lparr>cn_clock := c\<rparr>) a = answer_kept cn a" for a by (cases a) (simp_all add: sweep_kept_def)
qed

text \<open>
  C20: the PostgreSQL outbox is interchangeable with the memory one. Any sequence of calls (publish, lease, acknowledge, fail,
  requeue, discard, sweep, statistics, dead letters one by one or by page) on queues that hold the same messages gets
  the same answers from both, errors included and leased messages up to order, and leaves queues that hold the same messages, when the memory
  adapter is given what PostgreSQL keeps of a call: the clock at the resolution of the timestamp columns (\<open>cn_ts\<close>, whole microseconds)
  and a published envelope as \<^verbatim>\<open>jsonb\<close> prints it; the cutoff a sweep reports is compared at that resolution.
  Assumed: nobody else commits, nothing is locked, every statement is answered (\<open>quiet\<close>), a statement returns its rows in some order, and
  every call fits: an envelope is a JSON document and brings no second key for a stored ID, durations are whole units of the columns, a cause
  is text, a lease limit is not negative and messages published at one instant are not split by it, a page's cursor is an instant the columns
  hold and no message is from before the zero time.
\<close>

theorem pg_outbox_matches_memory:
  assumes "sort_slice srt" and "quiet cn" and "\<And>rows. mset (cn_returning cn rows) = mset rows" and "same_outbox st d"
    and "outbox_fits_all srt cn calls st"
  defines "kept \<equiv> map (\<lambda>(now, r). (cn_ts cn now, request_kept cn r)) calls"
  shows "map (map_sum id (answer_kept cn)) (snd (pg_outbox_calls cn calls d)) = snd (mem_outbox_calls srt kept st)
    \<and> same_outbox (fst (mem_outbox_calls srt kept st)) (fst (pg_outbox_calls cn calls d))"
  using assms(4,5) unfolding kept_def
proof (induction calls arbitrary: st d)
  case (Cons tc calls)
  obtain now r where tc: "tc = (now, r)" by (cases tc)
  obtain st1 a where m: "mem_outbox_request srt (request_kept cn r) (cn_ts cn now) st = (st1, a)" by (rule prod.exhaust)
  let ?cn = "cn\<lparr>cn_clock := \<lambda>_. now\<rparr>"
  obtain s1 a' where p: "pg_outbox_request ?cn r (on_session d) = (s1, a')" by (rule prod.exhaust)
  have "quiet ?cn" using assms(2) by (simp add: quiet_def)
  then have "agrees (mem_outbox_request srt (request_kept ?cn r) (cn_ts cn now) st) (with_answer (answer_kept ?cn) (pg_outbox_request ?cn r (on_session d)))"
    using Cons.prems assms(1,3) tc by (intro agrees_outbox_request) (simp_all add: on_session_def fits_clock)
  then have "map_sum id (answer_kept cn) a' = a" "same_outbox st1 (pg_db s1)"
    by (simp_all add: agrees_def m p with_answer_def fits_clock answer_clock)
  then show ?case using Cons.IH [of st1 "pg_db s1"] Cons.prems(2) tc m p by (simp add: split_beta Let_def id_def)
qed simp

text \<open>
  The hypotheses hold on a server that keeps microseconds of instants in nanoseconds and prints documents its own way, for a message that
  is leased, fails for good and is requeued, one that is published with a document \<^verbatim>\<open>jsonb\<close> prints differently, and a sweep.
\<close>

definition ex_published :: OutboxMessage where
  "ex_published = \<lparr>om_ID = ''m2'', om_DedupKey = ''k2'', om_TenantID = ''t'', om_Envelope = ''{\"a\":1}'', om_Attempts = 0, om_MaxAttempts = 3\<rparr>"

definition ex_requests :: "(Time \<times> outbox_request) list" where
  "ex_requests = [(2999, RPublish ex_published), (3001, RLease ((ex_take ''A'')\<lparr>ol_LeaseFor := 5000\<rparr>)), (4002, RFail ''m1'' ''A'' 0 ''boom''),
     (5003, ROperate True ex_mutation), (6005, RStats),
     (9999, RSweep \<lparr>rs_DeliveredOlderThan = 1000, rs_DiscardedOlderThan = 2000, rs_Limit = 5, rs_DryRun = False\<rparr>)]"

lemma same_ex_outbox: "same_outbox ex_outbox ex_queue"
  using outbox_ok_ex_outbox by (simp add: same_outbox_def indexed_def messages_def ex_outbox_simps ex_queue_def) (simp add: new_row_def)

lemma ex_requests_fit: "outbox_fits_all insertion_sort ex_micro ex_requests ex_outbox"
proof -
  let ?m = "ex_published\<lparr>om_Envelope := ''{\"a\": 1}''\<rparr>"
  have "length (messages (fst (OutboxRepository_Publish ?m 2000 ex_outbox))) \<le> 2"
    by (simp add: OutboxRepository_Publish_def ex_published_def ex_outbox_simps messages_def alloc_row_def Let_def)
  then have "length (filter (due 3000) (messages (fst (OutboxRepository_Publish ?m 2000 ex_outbox)))) \<le> 2"
    using length_filter_le order_trans by blast
  then show ?thesis
    by (simp add: ex_requests_def lease_decided_def Let_def ex_take_def ex_micro_def ex_conn_def messages_def ex_outbox_simps
        ex_published_def with_answer_def whole_ex_micro [unfolded ex_micro_def ex_conn_def, simplified] new_row_def)
qed

theorem pg_outbox_matches_memory_witness:
  "sort_slice insertion_sort \<and> quiet ex_micro \<and> same_outbox ex_outbox ex_queue \<and> outbox_fits_all insertion_sort ex_micro ex_requests ex_outbox
   \<and> map (map_sum id (answer_kept ex_micro)) (snd (pg_outbox_calls ex_micro ex_requests ex_queue))
       = snd (mem_outbox_calls insertion_sort (map (\<lambda>(now, r). (cn_ts ex_micro now, request_kept ex_micro r)) ex_requests) ex_outbox)
   \<and> same_outbox (fst (mem_outbox_calls insertion_sort (map (\<lambda>(now, r). (cn_ts ex_micro now, request_kept ex_micro r)) ex_requests) ex_outbox))
       (fst (pg_outbox_calls ex_micro ex_requests ex_queue))"
proof -
  have "mset (cn_returning ex_micro rows) = mset rows" for rows by (simp add: ex_micro_def ex_conn_def)
  from pg_outbox_matches_memory [OF isort.sort_slice_axioms quiet_ex_micro this same_ex_outbox ex_requests_fit] show ?thesis
    using isort.sort_slice_axioms quiet_ex_micro same_ex_outbox ex_requests_fit by blast
qed

text \<open>A cause the server does not take as text: the failure is not recorded, whatever its budget says.\<close>

lemma rejected_cause_changes_nothing:
  assumes "quiet cn" and "pg_tx s = None" and "\<not> cn_text cn (truncateCause cause)"
  shows "\<exists>s'. Pg_FailWithBackoff cn ident leasedBy retryIn cause s = (s', Inl (wrapWrite OtherError)) \<and> pg_db s' = pg_db s"
proof -
  have "exec_stmt cn (text_param cn (truncateCause cause) f) s' = (s'\<lparr>pg_stmts := Suc (pg_stmts s')\<rparr>, Inl (wrapWrite OtherError))"
    if "pg_tx s' = None" for s' and f :: "outboxMessage list stmt"
    using quiet_stmt [OF assms(1) that, of "text_param cn (truncateCause cause) f"] assms(3) by (simp add: exec_stmt_def mapped_op_def text_param_def)
  then show ?thesis using assms(2) by (simp add: Pg_FailWithBackoff_def seq_op_def pg_now_def)
qed

end
