(* ===== verification/PG_Entities.thy ===== *)
theory PG_Entities
  imports PG_Outbox
begin

section \<open>The entity repositories in PostgreSQL (internal/store/postgres)\<close>

text \<open>
  Tenants, projects, threads with their messages, specifications, runs, tasks, workspaces, artifacts, audit, policy decisions,
  integrations and events. A row is the domain value its columns read back as. The statements carry the constraints of the
  schema: checks, unique keys in the order of their indexes, then foreign keys. \<open>Json\<close> is what the encoder and a \<^verbatim>\<open>jsonb\<close> column make
  of a value: an encoding error, a document the server rejects (\<open>None\<close>), or the value read back. A method that writes
  a version or a sequence number through the caller's pointer returns the entity as the caller then sees it.
\<close>

subsection \<open>Columns\<close>

record Json =
  js_strings :: "string list \<Rightarrow> string list option result"
  js_failure :: "FailureInfo \<Rightarrow> FailureInfo option result"
  js_report :: "RunReport \<Rightarrow> RunReport option result"
  js_data :: "(string, dval) gomap \<Rightarrow> (string, dval) gomap option result"
  js_event :: "Event \<Rightarrow> bytes result"

definition marshalJSONColumn :: "('a \<Rightarrow> 'b result) \<Rightarrow> 'a \<Rightarrow> 'b result" where
  "marshalJSONColumn enc v = (case enc v of Inl e \<Rightarrow> Inl (Internalf e ''json_column'') | Inr c \<Rightarrow> Inr c)"

text \<open>A nil pointer leaves the column NULL.\<close>

definition marshalPointer :: "('a \<Rightarrow> 'a option result) \<Rightarrow> 'a option \<Rightarrow> 'a option option result" where
  "marshalPointer enc v = (case v of None \<Rightarrow> Inr (Some None)
     | Some x \<Rightarrow> (case marshalJSONColumn enc x of Inl e \<Rightarrow> Inl e | Inr c \<Rightarrow> Inr (map_option Some c)))"

definition int4 :: "int \<Rightarrow> bool" where
  "int4 n \<longleftrightarrow> -2147483648 \<le> n \<and> n \<le> 2147483647"

subsection \<open>Statements\<close>

text \<open>
  \<^verbatim>\<open>INSERT\<close>: the texts and documents must be ones the server takes, then come the checks, the unique keys (\<open>same\<close> says which row breaks
  one) and the foreign keys. \<open>put\<close> names the table.
\<close>

definition sql_insert ::
  "Conn \<Rightarrow> string list \<Rightarrow> ('r \<Rightarrow> bool) \<Rightarrow> (string \<times> ('r \<Rightarrow> 'r \<Rightarrow> bool)) list \<Rightarrow> (pg_db \<Rightarrow> 'r \<Rightarrow> bool) \<Rightarrow> (pg_db \<Rightarrow> 'r list) \<Rightarrow>
   ('r list \<Rightarrow> pg_db \<Rightarrow> pg_db) \<Rightarrow> 'r option \<Rightarrow> unit stmt" where
  "sql_insert cn texts check uniques refs table put new locked d =
     (case new of None \<Rightarrow> (d, Inl OtherError) | Some r \<Rightarrow>
       if \<not> list_all (cn_text cn) texts \<or> \<not> check r then (d, Inl OtherError)
       else (case List.find (\<lambda>(name, same). list_ex (same r) (table d)) uniques of
           Some (name, _) \<Rightarrow> (d, Inl (Violation name))
         | None \<Rightarrow> if \<not> refs d r then (d, Inl OtherError) else (put (table d @ [r]) d, Inr ())))"

text \<open>
  \<^verbatim>\<open>UPDATE ... SET ..., version = version + 1 WHERE id = $1 AND tenant_id = $2 AND version = $n\<close>; the foreign keys of the new row are
  checked when there is one. The answer is the number of rows.
\<close>

definition sql_guarded ::
  "Conn \<Rightarrow> string list \<Rightarrow> ('r \<Rightarrow> bool) \<Rightarrow> (pg_db \<Rightarrow> 'r \<Rightarrow> bool) \<Rightarrow> (pg_db \<Rightarrow> 'r list) \<Rightarrow> ('r list \<Rightarrow> pg_db \<Rightarrow> pg_db) \<Rightarrow>
   ('r \<Rightarrow> bool) \<Rightarrow> ('r \<Rightarrow> 'r) option \<Rightarrow> nat stmt" where
  "sql_guarded cn texts check refs table put p change locked d =
     (case change of None \<Rightarrow> (d, Inl OtherError) | Some f \<Rightarrow>
       if \<not> list_all (cn_text cn) texts then (d, Inl OtherError)
       else (case sql_update check p f (table d) of
           (rs, Inl e) \<Rightarrow> (d, Inl e)
         | (rs, Inr changed) \<Rightarrow> if list_all (refs d) changed then (put rs d, Inr (length changed)) else (d, Inl OtherError)))"

fun mapConstraintViolation :: "string \<Rightarrow> string \<Rightarrow> sql_error \<Rightarrow> go_error" where
  "mapConstraintViolation constraint code (Violation name) =
     (if name = constraint then Conflictf code else wrapWrite (Violation name))"
| "mapConstraintViolation constraint code OtherError = wrapWrite OtherError"

definition exec_mapped :: "(sql_error \<Rightarrow> go_error) \<Rightarrow> Conn \<Rightarrow> 'a stmt \<Rightarrow> 'a pg_op" where
  "exec_mapped f cn stmt = mapped_op f (run_stmt cn stmt)"

subsection \<open>Reading\<close>

definition fetch_one :: "Conn \<Rightarrow> string \<Rightarrow> (pg_db \<Rightarrow> 'r list) \<Rightarrow> 'r pg_op" where
  "fetch_one cn entity rows =
     seq_op (query cn rows) (\<lambda>rs. case rs of [] \<Rightarrow> throw_op (NotFoundf entity) | r # _ \<Rightarrow> return_op r)"

text \<open>\<^verbatim>\<open>ORDER BY at, id\<close>, and \<^verbatim>\<open>LIMIT\<close> when the limit is positive.\<close>

definition created_before :: "('r \<Rightarrow> Time) \<Rightarrow> ('r \<Rightarrow> string) \<Rightarrow> 'r \<Rightarrow> 'r \<Rightarrow> bool" where
  "created_before at ident a b \<longleftrightarrow> at a < at b \<or> (at a = at b \<and> ident a < ident b)"

definition limited :: "int \<Rightarrow> 'r list \<Rightarrow> 'r list" where
  "limited limit rs = (if limit > 0 then take (nat limit) rs else rs)"

subsection \<open>Optimistic concurrency (helpers.go)\<close>

definition classifyStaleOrMissing :: "string \<Rightarrow> 'a pg_op \<Rightarrow> 'b pg_op" where
  "classifyStaleOrMissing entity exists s =
     (case exists s of
        (s', Inr _) \<Rightarrow> (s', Inl NewStaleVersionError)
      | (s', Inl err) \<Rightarrow> if ErrKindOf err = ErrKindNotFound then (s', Inl (NotFoundf entity)) else (s', Inl err))"

definition guarded_write :: "Conn \<Rightarrow> string \<Rightarrow> nat stmt \<Rightarrow> 'e pg_op \<Rightarrow> 'e \<Rightarrow> 'e pg_op" where
  "guarded_write cn entity stmt get updated =
     seq_op (exec_stmt cn stmt) (\<lambda>affected.
     if affected = 0 then classifyStaleOrMissing entity get else return_op updated)"

definition withinAutoTx :: "Conn \<Rightarrow> 'a pg_op \<Rightarrow> 'a pg_op" where
  "withinAutoTx cn fn = pg_Do cn fn"

subsection \<open>Tenants and projects (tenants.go, projects.go)\<close>

definition insert_tenant :: "Conn \<Rightarrow> Tenant \<Rightarrow> unit stmt" where
  "insert_tenant cn t = sql_insert cn [tenant_ID t, tenant_Slug t, tenant_Name t, tenant_Region t] (\<lambda>r. tenant_Version r > 0)
     [(''tenants_pkey'', \<lambda>r x. tenant_ID r = tenant_ID x), (''tenants_slug_key'', \<lambda>r x. tenant_Slug r = tenant_Slug x)]
     (\<lambda>d r. True) tb_tenants (\<lambda>rs d. d\<lparr>tb_tenants := rs\<rparr>)
     (Some (t\<lparr>tenant_CreatedAt := cn_ts cn (tenant_CreatedAt t), tenant_UpdatedAt := cn_ts cn (tenant_UpdatedAt t)\<rparr>))"

definition PgTenant_Create :: "Conn \<Rightarrow> Tenant \<Rightarrow> unit pg_op" where
  "PgTenant_Create cn tenant = exec_mapped (mapUniqueViolation ''tenant_slug_taken'') cn (insert_tenant cn tenant)"

definition PgTenant_Get :: "Conn \<Rightarrow> string \<Rightarrow> Tenant pg_op" where
  "PgTenant_Get cn ident = fetch_one cn ''tenant'' (\<lambda>d. filter (\<lambda>t. tenant_ID t = ident) (tb_tenants d))"

definition PgTenant_GetBySlug :: "Conn \<Rightarrow> string \<Rightarrow> Tenant pg_op" where
  "PgTenant_GetBySlug cn slug = fetch_one cn ''tenant'' (\<lambda>d. filter (\<lambda>t. tenant_Slug t = slug) (tb_tenants d))"

definition has_tenant :: "string \<Rightarrow> pg_db \<Rightarrow> bool" where
  "has_tenant tenantID d \<longleftrightarrow> list_ex (\<lambda>t. tenant_ID t = tenantID) (tb_tenants d)"

definition insert_project :: "Conn \<Rightarrow> Project \<Rightarrow> unit stmt" where
  "insert_project cn p = sql_insert cn [project_ID p, project_TenantID p, project_Slug p, project_Name p, project_DefaultBranch p, project_SeedName p]
     (\<lambda>r. project_Version r > 0)
     [(''projects_pkey'', \<lambda>r x. project_ID r = project_ID x),
      (''projects_tenant_id_slug_key'', \<lambda>r x. project_TenantID r = project_TenantID x \<and> project_Slug r = project_Slug x)]
     (\<lambda>d r. has_tenant (project_TenantID r) d) tb_projects (\<lambda>rs d. d\<lparr>tb_projects := rs\<rparr>)
     (Some (p\<lparr>project_CreatedAt := cn_ts cn (project_CreatedAt p)\<rparr>))"

text \<open>Both mappings of the violation, in the order the code tries them.\<close>

definition project_conflict :: "sql_error \<Rightarrow> go_error" where
  "project_conflict err =
     (case err of Violation _ \<Rightarrow> mapUniqueViolation ''project_exists'' err | OtherError \<Rightarrow> mapUniqueViolation ''project_slug_taken'' err)"

definition PgProject_Create :: "Conn \<Rightarrow> Project \<Rightarrow> unit pg_op" where
  "PgProject_Create cn project = exec_mapped project_conflict cn (insert_project cn project)"

definition PgProject_Get :: "Conn \<Rightarrow> string \<Rightarrow> string \<Rightarrow> Project pg_op" where
  "PgProject_Get cn tenantID ident =
     fetch_one cn ''project'' (\<lambda>d. filter (\<lambda>p. project_ID p = ident \<and> project_TenantID p = tenantID) (tb_projects d))"

definition PgProject_ListByTenant :: "Conn \<Rightarrow> string \<Rightarrow> Project list pg_op" where
  "PgProject_ListByTenant cn tenantID = query cn (\<lambda>d. insertion_sort (created_before project_CreatedAt project_ID)
     (filter (\<lambda>p. project_TenantID p = tenantID) (tb_projects d)))"

subsection \<open>Threads and messages (threads.go)\<close>

definition has_project :: "string \<Rightarrow> pg_db \<Rightarrow> bool" where
  "has_project projectID d \<longleftrightarrow> list_ex (\<lambda>p. project_ID p = projectID) (tb_projects d)"

definition insert_thread :: "Conn \<Rightarrow> Thread \<Rightarrow> unit stmt" where
  "insert_thread cn t = sql_insert cn [thread_ID t, thread_TenantID t, thread_ProjectID t, thread_Title t, thread_CreatorID t]
     (\<lambda>r. thread_Version r > 0) [(''threads_pkey'', \<lambda>r x. thread_ID r = thread_ID x)]
     (\<lambda>d r. has_tenant (thread_TenantID r) d \<and> has_project (thread_ProjectID r) d) tb_threads (\<lambda>rs d. d\<lparr>tb_threads := rs\<rparr>)
     (Some (t\<lparr>thread_CreatedAt := cn_ts cn (thread_CreatedAt t), thread_UpdatedAt := cn_ts cn (thread_UpdatedAt t)\<rparr>))"

definition PgThread_Create :: "Conn \<Rightarrow> Thread \<Rightarrow> unit pg_op" where
  "PgThread_Create cn thread = exec_stmt cn (insert_thread cn thread)"

definition PgThread_Get :: "Conn \<Rightarrow> string \<Rightarrow> string \<Rightarrow> Thread pg_op" where
  "PgThread_Get cn tenantID ident =
     fetch_one cn ''thread'' (\<lambda>d. filter (\<lambda>t. thread_ID t = ident \<and> thread_TenantID t = tenantID) (tb_threads d))"

definition recent_before :: "Thread \<Rightarrow> Thread \<Rightarrow> bool" where
  "recent_before a b \<longleftrightarrow> thread_UpdatedAt b < thread_UpdatedAt a \<or> (thread_UpdatedAt a = thread_UpdatedAt b \<and> thread_ID a < thread_ID b)"

definition PgThread_ListByTenant :: "Conn \<Rightarrow> string \<Rightarrow> int \<Rightarrow> Thread list pg_op" where
  "PgThread_ListByTenant cn tenantID limit =
     query cn (\<lambda>d. limited limit (insertion_sort recent_before (filter (\<lambda>t. thread_TenantID t = tenantID) (tb_threads d))))"

definition update_thread :: "Conn \<Rightarrow> Thread \<Rightarrow> int \<Rightarrow> Time \<Rightarrow> nat stmt" where
  "update_thread cn t expectedVersion now = sql_guarded cn [thread_ID t, thread_TenantID t, thread_Title t, thread_CreatorID t]
     (\<lambda>r. thread_Version r > 0) (\<lambda>d r. True) tb_threads (\<lambda>rs d. d\<lparr>tb_threads := rs\<rparr>)
     (\<lambda>r. thread_ID r = thread_ID t \<and> thread_TenantID r = thread_TenantID t \<and> thread_Version r = expectedVersion)
     (Some (\<lambda>r. r\<lparr>thread_Title := thread_Title t, thread_Status := thread_Status t, thread_CreatorID := thread_CreatorID t,
        thread_UpdatedAt := cn_ts cn now, thread_Version := thread_Version r + 1\<rparr>))"

definition PgThread_Update :: "Conn \<Rightarrow> Thread \<Rightarrow> int \<Rightarrow> Thread pg_op" where
  "PgThread_Update cn thread expectedVersion =
     seq_op (pg_now cn) (\<lambda>now. guarded_write cn ''thread'' (update_thread cn thread expectedVersion now)
       (PgThread_Get cn (thread_TenantID thread) (thread_ID thread)) (thread\<lparr>thread_Version := expectedVersion + 1\<rparr>))"

text \<open>\<^verbatim>\<open>SELECT 1 FROM threads ... FOR UPDATE\<close>; \<open>missing\<close> is the error when there is no such thread.\<close>

definition lock_thread :: "Conn \<Rightarrow> string \<Rightarrow> string \<Rightarrow> go_error \<Rightarrow> unit pg_op" where
  "lock_thread cn tenantID threadID missing =
     seq_op (query cn (\<lambda>d. list_ex (\<lambda>t. thread_ID t = threadID \<and> thread_TenantID t = tenantID) (tb_threads d)))
       (\<lambda>found. if found then return_op () else throw_op missing)"

text \<open>\<^verbatim>\<open>SELECT COALESCE(MAX(seq), 0) + 1\<close>\<close>

definition next_seq :: "int list \<Rightarrow> int" where
  "next_seq seqs = (case seqs of [] \<Rightarrow> 0 | q # qs \<Rightarrow> foldl max q qs) + 1"

definition insert_thread_message :: "Conn \<Rightarrow> Message \<Rightarrow> unit stmt" where
  "insert_thread_message cn m = sql_insert cn [message_ThreadID m, message_TenantID m, message_ID m, message_Content m] (\<lambda>r. True)
     [(''thread_messages_pkey'', \<lambda>r x. message_ThreadID r = message_ThreadID x \<and> message_Seq r = message_Seq x),
      (''thread_messages_id_key'', \<lambda>r x. message_ID r = message_ID x)]
     (\<lambda>d r. list_ex (\<lambda>t. thread_ID t = message_ThreadID r) (tb_threads d)) tb_messages (\<lambda>rs d. d\<lparr>tb_messages := rs\<rparr>)
     (Some (m\<lparr>message_CreatedAt := cn_ts cn (message_CreatedAt m)\<rparr>))"

definition PgThread_AppendMessage :: "Conn \<Rightarrow> Message \<Rightarrow> Message pg_op" where
  "PgThread_AppendMessage cn message = withinAutoTx cn (
     seq_op (lock_thread cn (message_TenantID message) (message_ThreadID message) (NotFoundf ''thread'')) (\<lambda>_.
     seq_op (query cn (\<lambda>d. next_seq (map message_Seq (filter (\<lambda>m. message_ThreadID m = message_ThreadID message) (tb_messages d))))) (\<lambda>nextSeq.
     seq_op (exec_stmt cn (insert_thread_message cn (message\<lparr>message_Seq := nextSeq\<rparr>))) (\<lambda>_.
     return_op (message\<lparr>message_Seq := nextSeq\<rparr>)))))"

definition PgThread_Messages :: "Conn \<Rightarrow> string \<Rightarrow> string \<Rightarrow> int \<Rightarrow> int \<Rightarrow> (Message list \<times> int) pg_op" where
  "PgThread_Messages cn tenantID threadID afterSeq limit =
     (let mine = \<lambda>m. message_ThreadID m = threadID \<and> message_TenantID m = tenantID in
      seq_op (query cn (\<lambda>d. int (length (filter mine (tb_messages d))))) (\<lambda>total.
      if total = 0 then seq_op (PgThread_Get cn tenantID threadID) (\<lambda>_. return_op ([], 0))
      else seq_op (query cn (\<lambda>d. limited limit (insertion_sort (\<lambda>a b. message_Seq a < message_Seq b)
          (filter (\<lambda>m. mine m \<and> message_Seq m > afterSeq) (tb_messages d))))) (\<lambda>out. return_op (out, total))))"

subsection \<open>Specifications (specs.go)\<close>

definition has_thread :: "string \<Rightarrow> pg_db \<Rightarrow> bool" where
  "has_thread threadID d \<longleftrightarrow> list_ex (\<lambda>t. thread_ID t = threadID) (tb_threads d)"

definition insert_spec :: "Conn \<Rightarrow> Spec \<Rightarrow> SpecContent option \<Rightarrow> unit stmt" where
  "insert_spec cn s content = sql_insert cn [spec_ID s, spec_TenantID s, spec_ThreadID s, sc_Outcome (spec_Content s)]
     (\<lambda>r. int4 (spec_Version r) \<and> spec_Version r \<ge> 1)
     [(''specs_pkey'', \<lambda>r x. spec_ID r = spec_ID x),
      (''specs_tenant_id_thread_id_version_key'',
        \<lambda>r x. spec_TenantID r = spec_TenantID x \<and> spec_ThreadID r = spec_ThreadID x \<and> spec_Version r = spec_Version x)]
     (\<lambda>d r. has_tenant (spec_TenantID r) d \<and> has_thread (spec_ThreadID r) d) tb_specs (\<lambda>rs d. d\<lparr>tb_specs := rs\<rparr>)
     (map_option (\<lambda>c. s\<lparr>spec_Content := c, spec_CreatedAt := cn_ts cn (spec_CreatedAt s)\<rparr>) content)"

definition PgSpec_Create :: "Json \<Rightarrow> Conn \<Rightarrow> Spec \<Rightarrow> unit pg_op" where
  "PgSpec_Create js cn spec =
     (let c = spec_Content spec; column = \<lambda>v. pure_pg (marshalJSONColumn (js_strings js) v) in
      seq_op (column (sc_Assumptions c)) (\<lambda>assumptions.
      seq_op (column (sc_Requirements c)) (\<lambda>requirements.
      seq_op (column (sc_NonGoals c)) (\<lambda>nonGoals.
      seq_op (column (sc_SuccessCriteria c)) (\<lambda>criteria.
      seq_op (column (sc_Blockers c)) (\<lambda>blockers.
      exec_mapped (mapUniqueViolation ''spec_exists'') cn (insert_spec cn spec
        (case (assumptions, requirements, nonGoals, criteria, blockers) of
           (Some a, Some r, Some g, Some s, Some b) \<Rightarrow> Some (c\<lparr>sc_Assumptions := a, sc_Requirements := r, sc_NonGoals := g,
              sc_SuccessCriteria := s, sc_Blockers := b\<rparr>)
         | _ \<Rightarrow> None))))))))"

definition PgSpec_Get :: "Conn \<Rightarrow> string \<Rightarrow> string \<Rightarrow> Spec pg_op" where
  "PgSpec_Get cn tenantID ident =
     fetch_one cn ''spec'' (\<lambda>d. filter (\<lambda>s. spec_ID s = ident \<and> spec_TenantID s = tenantID) (tb_specs d))"

definition PgSpec_LatestForThread :: "Conn \<Rightarrow> string \<Rightarrow> string \<Rightarrow> Spec pg_op" where
  "PgSpec_LatestForThread cn tenantID threadID =
     fetch_one cn ''spec'' (\<lambda>d. take 1 (insertion_sort (\<lambda>a b. spec_Version b < spec_Version a)
       (filter (\<lambda>s. spec_ThreadID s = threadID \<and> spec_TenantID s = tenantID) (tb_specs d))))"

subsection \<open>Runs (runs.go)\<close>

definition spec_known :: "pg_db \<Rightarrow> Run \<Rightarrow> bool" where
  "spec_known d r \<longleftrightarrow> run_SpecID r = [] \<or> list_ex (\<lambda>s. spec_ID s = run_SpecID r) (tb_specs d)"

definition insert_run :: "Conn \<Rightarrow> Run \<Rightarrow> Run option \<Rightarrow> unit stmt" where
  "insert_run cn run = sql_insert cn [run_ID run, run_TenantID run, run_ThreadID run, run_SpecID run, run_IdempotencyKey run, run_Principal run]
     (\<lambda>r. run_Version r > 0 \<and> run_Seq r \<ge> 1)
     [(''runs_pkey'', \<lambda>r x. run_ID r = run_ID x),
      (''runs_tenant_id_thread_id_idempotency_key_key'',
        \<lambda>r x. run_TenantID r = run_TenantID x \<and> run_ThreadID r = run_ThreadID x \<and> run_IdempotencyKey r = run_IdempotencyKey x),
      (''runs_thread_seq_idx'', \<lambda>r x. run_TenantID r = run_TenantID x \<and> run_ThreadID r = run_ThreadID x \<and> run_Seq r = run_Seq x)]
     (\<lambda>d r. has_tenant (run_TenantID r) d \<and> has_thread (run_ThreadID r) d \<and> spec_known d r) tb_runs (\<lambda>rs d. d\<lparr>tb_runs := rs\<rparr>)"

text \<open>The three documents of a run, encoded one after the other.\<close>

definition run_columns :: "Json \<Rightarrow> Run \<Rightarrow> (Run \<Rightarrow> Run) option result" where
  "run_columns js run =
     and_then (marshalJSONColumn (js_strings js) (run_TaskIDs run)) (\<lambda>taskIDs.
     and_then (marshalPointer (js_report js) (run_Report run)) (\<lambda>report.
     and_then (marshalPointer (js_failure js) (run_Failure run)) (\<lambda>failure.
     Inr (case (taskIDs, report, failure) of
        (Some ts, Some rp, Some fl) \<Rightarrow> Some (\<lambda>r. r\<lparr>run_TaskIDs := ts, run_Report := rp, run_Failure := fl\<rparr>)
      | _ \<Rightarrow> None))))"

definition insertRun :: "Json \<Rightarrow> Conn \<Rightarrow> Run \<Rightarrow> unit pg_op" where
  "insertRun js cn run =
     seq_op (pure_pg (run_columns js run)) (\<lambda>columns.
     exec_mapped (mapConstraintViolation ''runs_tenant_id_thread_id_idempotency_key_key'' ''run_idempotency_key_taken'') cn
       (insert_run cn run (map_option (\<lambda>put. (put run)\<lparr>run_CreatedAt := cn_ts cn (run_CreatedAt run),
          run_UpdatedAt := cn_ts cn (run_UpdatedAt run), run_FinishedAt := map_option (cn_ts cn) (run_FinishedAt run)\<rparr>) columns)))"

definition PgRun_GetByIdempotencyKey :: "Conn \<Rightarrow> string \<Rightarrow> string \<Rightarrow> string \<Rightarrow> Run pg_op" where
  "PgRun_GetByIdempotencyKey cn tenantID threadID key = fetch_one cn ''run'' (\<lambda>d. filter (\<lambda>r. run_TenantID r = tenantID
     \<and> run_ThreadID r = threadID \<and> run_IdempotencyKey r = key) (tb_runs d))"

definition PgRun_Create :: "Json \<Rightarrow> Conn \<Rightarrow> Run \<Rightarrow> Run pg_op" where
  "PgRun_Create js cn run s =
     (case PgRun_GetByIdempotencyKey cn (run_TenantID run) (run_ThreadID run) (run_IdempotencyKey run) s of
        (s1, Inr _) \<Rightarrow> (s1, Inl (Conflictf ''run_idempotency_key_taken''))
      | (s1, Inl err) \<Rightarrow>
          if ErrKindOf err \<noteq> ErrKindNotFound then (s1, Inl err)
          else withinAutoTx cn (
            seq_op (lock_thread cn (run_TenantID run) (run_ThreadID run) (Invalidf ''run_thread_unknown'')) (\<lambda>_.
            seq_op (query cn (\<lambda>d. next_seq (map run_Seq
              (filter (\<lambda>r. run_TenantID r = run_TenantID run \<and> run_ThreadID r = run_ThreadID run) (tb_runs d))))) (\<lambda>nextSeq.
            seq_op (insertRun js cn (run\<lparr>run_Seq := nextSeq\<rparr>)) (\<lambda>_. return_op (run\<lparr>run_Seq := nextSeq\<rparr>))))) s1)"

definition PgRun_Get :: "Conn \<Rightarrow> string \<Rightarrow> string \<Rightarrow> Run pg_op" where
  "PgRun_Get cn tenantID ident =
     fetch_one cn ''run'' (\<lambda>d. filter (\<lambda>r. run_ID r = ident \<and> run_TenantID r = tenantID) (tb_runs d))"

definition update_run :: "Conn \<Rightarrow> Run \<Rightarrow> int \<Rightarrow> (Run \<Rightarrow> Run) option \<Rightarrow> Time \<Rightarrow> nat stmt" where
  "update_run cn run expectedVersion columns now = sql_guarded cn [run_ID run, run_TenantID run, run_SpecID run, run_Principal run]
     (\<lambda>r. run_Version r > 0 \<and> run_Seq r \<ge> 1) spec_known tb_runs (\<lambda>rs d. d\<lparr>tb_runs := rs\<rparr>)
     (\<lambda>r. run_ID r = run_ID run \<and> run_TenantID r = run_TenantID run \<and> run_Version r = expectedVersion)
     (map_option (\<lambda>put r. (put r)\<lparr>run_SpecID := run_SpecID run, run_Status := run_Status run, run_Principal := run_Principal run,
        run_UpdatedAt := cn_ts cn now, run_Version := run_Version r + 1, run_FinishedAt := map_option (cn_ts cn) (run_FinishedAt run)\<rparr>) columns)"

definition PgRun_Update :: "Json \<Rightarrow> Conn \<Rightarrow> Run \<Rightarrow> int \<Rightarrow> Run pg_op" where
  "PgRun_Update js cn run expectedVersion =
     seq_op (pure_pg (run_columns js run)) (\<lambda>columns.
     seq_op (pg_now cn) (\<lambda>now. guarded_write cn ''run'' (update_run cn run expectedVersion columns now)
       (PgRun_Get cn (run_TenantID run) (run_ID run)) (run\<lparr>run_Version := expectedVersion + 1\<rparr>)))"

definition checkThreadVisible :: "Conn \<Rightarrow> string \<Rightarrow> string \<Rightarrow> unit pg_op" where
  "checkThreadVisible cn tenantID threadID =
     seq_op (query cn (\<lambda>d. list_ex (\<lambda>t. thread_ID t = threadID \<and> thread_TenantID t = tenantID) (tb_threads d)))
       (\<lambda>ok. if \<not> ok then throw_op (NotFoundf ''thread'') else return_op ())"

definition PgRun_ListByThread :: "Conn \<Rightarrow> string \<Rightarrow> string \<Rightarrow> int \<Rightarrow> int \<Rightarrow> (Run list \<times> int) pg_op" where
  "PgRun_ListByThread cn tenantID threadID after limit =
     (let mine = \<lambda>r. run_TenantID r = tenantID \<and> run_ThreadID r = threadID in
      seq_op (query cn (\<lambda>d. int (length (filter mine (tb_runs d))))) (\<lambda>total.
      if total = 0 then seq_op (checkThreadVisible cn tenantID threadID) (\<lambda>_. return_op ([], 0))
      else seq_op (query cn (\<lambda>d. limited limit (insertion_sort (\<lambda>a b. run_Seq a < run_Seq b)
          (filter (\<lambda>r. mine r \<and> run_Seq r > max after 0) (tb_runs d))))) (\<lambda>out. return_op (out, total))))"

subsection \<open>Tasks (tasks.go)\<close>

definition task_check :: "Task \<Rightarrow> bool" where
  "task_check r \<longleftrightarrow> int4 (task_Depth r) \<and> task_Depth r \<ge> 0 \<and> int4 (task_Attempts r) \<and> 1 \<le> task_MaxAttempts r \<and> task_MaxAttempts r \<le> 10
     \<and> task_Version r > 0"

definition has_run :: "string \<Rightarrow> pg_db \<Rightarrow> bool" where
  "has_run runID d \<longleftrightarrow> list_ex (\<lambda>r. run_ID r = runID) (tb_runs d)"

definition insert_task :: "Conn \<Rightarrow> Task \<Rightarrow> Task option \<Rightarrow> unit stmt" where
  "insert_task cn t = sql_insert cn [task_ID t, task_TenantID t, task_RunID t, task_ThreadID t, task_Name t] task_check
     [(''tasks_pkey'', \<lambda>r x. task_ID r = task_ID x)]
     (\<lambda>d r. has_tenant (task_TenantID r) d \<and> has_run (task_RunID r) d \<and> has_thread (task_ThreadID r) d) tb_tasks (\<lambda>rs d. d\<lparr>tb_tasks := rs\<rparr>)"

definition task_columns :: "Json \<Rightarrow> Task \<Rightarrow> (Task \<Rightarrow> Task) option result" where
  "task_columns js task =
     and_then (marshalJSONColumn (js_strings js) (task_DependsOn task)) (\<lambda>dependsOn.
     and_then (marshalPointer (js_failure js) (task_Failure task)) (\<lambda>failure.
     Inr (case (dependsOn, failure) of
        (Some ds, Some fl) \<Rightarrow> Some (\<lambda>t. t\<lparr>task_DependsOn := ds, task_Failure := fl\<rparr>) | _ \<Rightarrow> None)))"

definition PgTask_Create :: "Json \<Rightarrow> Conn \<Rightarrow> Task \<Rightarrow> unit pg_op" where
  "PgTask_Create js cn task =
     seq_op (pure_pg (task_columns js task)) (\<lambda>columns.
     exec_mapped (mapUniqueViolation ''task_exists'') cn (insert_task cn task (map_option (\<lambda>put. (put task)\<lparr>
       task_CreatedAt := cn_ts cn (task_CreatedAt task), task_UpdatedAt := cn_ts cn (task_UpdatedAt task)\<rparr>) columns)))"

definition PgTask_Get :: "Conn \<Rightarrow> string \<Rightarrow> string \<Rightarrow> Task pg_op" where
  "PgTask_Get cn tenantID ident =
     fetch_one cn ''task'' (\<lambda>d. filter (\<lambda>t. task_ID t = ident \<and> task_TenantID t = tenantID) (tb_tasks d))"

definition update_task :: "Conn \<Rightarrow> Task \<Rightarrow> int \<Rightarrow> (Task \<Rightarrow> Task) option \<Rightarrow> Time \<Rightarrow> nat stmt" where
  "update_task cn task expectedVersion columns now = sql_guarded cn [task_ID task, task_TenantID task, task_Name task]
     task_check (\<lambda>d r. True) tb_tasks (\<lambda>rs d. d\<lparr>tb_tasks := rs\<rparr>)
     (\<lambda>r. task_ID r = task_ID task \<and> task_TenantID r = task_TenantID task \<and> task_Version r = expectedVersion)
     (map_option (\<lambda>put r. (put r)\<lparr>task_Name := task_Name task, task_Kind := task_Kind task, task_Status := task_Status task,
        task_Depth := task_Depth task, task_Attempts := task_Attempts task, task_MaxAttempts := task_MaxAttempts task,
        task_UpdatedAt := cn_ts cn now, task_Version := task_Version r + 1\<rparr>) columns)"

definition PgTask_Update :: "Json \<Rightarrow> Conn \<Rightarrow> Task \<Rightarrow> int \<Rightarrow> Task pg_op" where
  "PgTask_Update js cn task expectedVersion =
     seq_op (pure_pg (task_columns js task)) (\<lambda>columns.
     seq_op (pg_now cn) (\<lambda>now. guarded_write cn ''task'' (update_task cn task expectedVersion columns now)
       (PgTask_Get cn (task_TenantID task) (task_ID task)) (task\<lparr>task_Version := expectedVersion + 1\<rparr>)))"

definition PgTask_ListByRun :: "Conn \<Rightarrow> string \<Rightarrow> string \<Rightarrow> Task list pg_op" where
  "PgTask_ListByRun cn tenantID runID = query cn (\<lambda>d. insertion_sort (created_before task_CreatedAt task_ID)
     (filter (\<lambda>t. task_TenantID t = tenantID \<and> task_RunID t = runID) (tb_tasks d)))"

subsection \<open>Workspaces and artifacts (workspaces.go)\<close>

definition insert_workspace :: "Conn \<Rightarrow> Workspace \<Rightarrow> unit stmt" where
  "insert_workspace cn w = sql_insert cn [ws_ID w, ws_TenantID w, ws_TaskID w, ws_RunID w, ws_Driver w, ws_RepoRef w, ws_Branch w, ws_BaseSHA w, ws_HeadSHA w]
     (\<lambda>r. ws_Version r > 0) [(''workspaces_pkey'', \<lambda>r x. ws_ID r = ws_ID x)]
     (\<lambda>d r. has_tenant (ws_TenantID r) d \<and> list_ex (\<lambda>t. task_ID t = ws_TaskID r) (tb_tasks d) \<and> has_run (ws_RunID r) d)
     tb_workspaces (\<lambda>rs d. d\<lparr>tb_workspaces := rs\<rparr>) (Some (w\<lparr>ws_CreatedAt := cn_ts cn (ws_CreatedAt w)\<rparr>))"

definition PgWorkspace_Create :: "Conn \<Rightarrow> Workspace \<Rightarrow> unit pg_op" where
  "PgWorkspace_Create cn ws = exec_mapped (mapUniqueViolation ''workspace_exists'') cn (insert_workspace cn ws)"

definition PgWorkspace_Get :: "Conn \<Rightarrow> string \<Rightarrow> string \<Rightarrow> Workspace pg_op" where
  "PgWorkspace_Get cn tenantID ident =
     fetch_one cn ''workspace'' (\<lambda>d. filter (\<lambda>w. ws_ID w = ident \<and> ws_TenantID w = tenantID) (tb_workspaces d))"

definition update_workspace :: "Conn \<Rightarrow> Workspace \<Rightarrow> int \<Rightarrow> nat stmt" where
  "update_workspace cn w expectedVersion = sql_guarded cn [ws_ID w, ws_TenantID w, ws_Driver w, ws_RepoRef w, ws_Branch w, ws_BaseSHA w, ws_HeadSHA w]
     (\<lambda>r. ws_Version r > 0) (\<lambda>d r. True) tb_workspaces (\<lambda>rs d. d\<lparr>tb_workspaces := rs\<rparr>)
     (\<lambda>r. ws_ID r = ws_ID w \<and> ws_TenantID r = ws_TenantID w \<and> ws_Version r = expectedVersion)
     (Some (\<lambda>r. r\<lparr>ws_Driver := ws_Driver w, ws_RepoRef := ws_RepoRef w, ws_Branch := ws_Branch w, ws_BaseSHA := ws_BaseSHA w,
        ws_HeadSHA := ws_HeadSHA w, ws_Status := ws_Status w, ws_Version := ws_Version r + 1\<rparr>))"

definition PgWorkspace_Update :: "Conn \<Rightarrow> Workspace \<Rightarrow> int \<Rightarrow> Workspace pg_op" where
  "PgWorkspace_Update cn ws expectedVersion = guarded_write cn ''workspace'' (update_workspace cn ws expectedVersion)
     (PgWorkspace_Get cn (ws_TenantID ws) (ws_ID ws)) (ws\<lparr>ws_Version := expectedVersion + 1\<rparr>)"

definition PgWorkspace_ListByRun :: "Conn \<Rightarrow> string \<Rightarrow> string \<Rightarrow> Workspace list pg_op" where
  "PgWorkspace_ListByRun cn tenantID runID = query cn (\<lambda>d. insertion_sort (created_before ws_CreatedAt ws_ID)
     (filter (\<lambda>w. ws_TenantID w = tenantID \<and> ws_RunID w = runID) (tb_workspaces d)))"

text \<open>The table has no column for an artifact's \<^verbatim>\<open>TaskID\<close>.\<close>

definition insert_artifact :: "Conn \<Rightarrow> Artifact \<Rightarrow> unit stmt" where
  "insert_artifact cn a = sql_insert cn [art_ID a, art_TenantID a, art_RunID a, art_Digest a, art_ProducerTaskID a]
     (\<lambda>r. int4 (art_SizeBytes r) \<and> art_SizeBytes r > 0) [(''artifacts_pkey'', \<lambda>r x. art_ID r = art_ID x)]
     (\<lambda>d r. has_tenant (art_TenantID r) d \<and> has_run (art_RunID r) d) tb_artifacts (\<lambda>rs d. d\<lparr>tb_artifacts := rs\<rparr>)
     (Some (a\<lparr>art_TaskID := [], art_CreatedAt := cn_ts cn (art_CreatedAt a)\<rparr>))"

definition PgArtifact_Create :: "Conn \<Rightarrow> Artifact \<Rightarrow> unit pg_op" where
  "PgArtifact_Create cn artifact = exec_mapped (mapUniqueViolation ''artifact_exists'') cn (insert_artifact cn artifact)"

definition PgArtifact_Get :: "Conn \<Rightarrow> string \<Rightarrow> string \<Rightarrow> Artifact pg_op" where
  "PgArtifact_Get cn tenantID ident =
     fetch_one cn ''artifact'' (\<lambda>d. filter (\<lambda>a. art_ID a = ident \<and> art_TenantID a = tenantID) (tb_artifacts d))"

definition PgArtifact_ListByRun :: "Conn \<Rightarrow> string \<Rightarrow> string \<Rightarrow> Artifact list pg_op" where
  "PgArtifact_ListByRun cn tenantID runID = query cn (\<lambda>d. insertion_sort (created_before art_CreatedAt art_ID)
     (filter (\<lambda>a. art_TenantID a = tenantID \<and> art_RunID a = runID) (tb_artifacts d)))"

subsection \<open>Audit, policy decisions, integrations (governance.go)\<close>

definition insert_audit :: "Conn \<Rightarrow> AuditEvent \<Rightarrow> (string, dval) gomap option \<Rightarrow> unit stmt" where
  "insert_audit cn e metadata = sql_insert cn [audit_ID e, audit_TenantID e, actor_ID (audit_Actor e), audit_ResourceType e, audit_ResourceID e, audit_TraceID e]
     (\<lambda>r. True) [(''audit_events_pkey'', \<lambda>r x. audit_ID r = audit_ID x)] (\<lambda>d r. True) tb_audit (\<lambda>rs d. d\<lparr>tb_audit := rs\<rparr>)
     (map_option (\<lambda>m. e\<lparr>audit_Metadata := m, audit_At := cn_ts cn (audit_At e)\<rparr>) metadata)"

definition PgAudit_Append :: "Json \<Rightarrow> Conn \<Rightarrow> AuditEvent \<Rightarrow> unit pg_op" where
  "PgAudit_Append js cn event =
     seq_op (pure_pg (marshalJSONColumn (js_data js) (audit_Metadata event))) (\<lambda>metadata.
     exec_stmt cn (insert_audit cn event metadata))"

text \<open>The cursor's instant is looked up; a cursor that names no event makes the comparison unknown, and no row qualifies.\<close>

definition past_cursor :: "string \<Rightarrow> AuditEvent list \<Rightarrow> AuditEvent \<Rightarrow> bool" where
  "past_cursor after rs e \<longleftrightarrow> after = [] \<or> (case List.find (\<lambda>x. audit_ID x = after) rs of None \<Rightarrow> False | Some c \<Rightarrow> audit_At e > audit_At c)"

definition PgAudit_ListByTenant :: "Conn \<Rightarrow> string \<Rightarrow> string \<Rightarrow> int \<Rightarrow> AuditEvent list pg_op" where
  "PgAudit_ListByTenant cn tenantID after limit =
     query cn (\<lambda>d. limited limit (insertion_sort (created_before audit_At audit_ID)
       (filter (\<lambda>e. audit_TenantID e = tenantID \<and> past_cursor after (tb_audit d) e) (tb_audit d))))"

text \<open>A decision reads back with its own tenant in the request.\<close>

definition insert_decision :: "Conn \<Rightarrow> PolicyDecision \<Rightarrow> unit stmt" where
  "insert_decision cn p = sql_insert cn [pdec_ID p, pdec_TenantID p, preq_RunID (pdec_Request p), preq_TaskID (pdec_Request p), preq_Principal (pdec_Request p),
       preq_Resource (pdec_Request p), pdec_Reason p, pdec_PolicyVersion p]
     (\<lambda>r. True) [(''policy_decisions_pkey'', \<lambda>r x. pdec_ID r = pdec_ID x)]
     (\<lambda>d r. has_tenant (pdec_TenantID r) d \<and> has_run (preq_RunID (pdec_Request r)) d) tb_policy (\<lambda>rs d. d\<lparr>tb_policy := rs\<rparr>)
     (Some (p\<lparr>pdec_Request := (pdec_Request p)\<lparr>preq_TenantID := pdec_TenantID p\<rparr>, pdec_CreatedAt := cn_ts cn (pdec_CreatedAt p)\<rparr>))"

definition PgPolicy_Record :: "Conn \<Rightarrow> PolicyDecision \<Rightarrow> unit pg_op" where
  "PgPolicy_Record cn decision = exec_stmt cn (insert_decision cn decision)"

definition PgPolicy_ListByRun :: "Conn \<Rightarrow> string \<Rightarrow> string \<Rightarrow> PolicyDecision list pg_op" where
  "PgPolicy_ListByRun cn tenantID runID = query cn (\<lambda>d. insertion_sort (created_before pdec_CreatedAt pdec_ID)
     (filter (\<lambda>p. pdec_TenantID p = tenantID \<and> preq_RunID (pdec_Request p) = runID) (tb_policy d)))"

definition insert_integration :: "Conn \<Rightarrow> IntegrationConnection \<Rightarrow> string list option \<Rightarrow> unit stmt" where
  "insert_integration cn c scopes = sql_insert cn [ic_ID c, ic_TenantID c, ic_SecretRef c] (\<lambda>r. ic_Version r > 0)
     [(''integration_connections_pkey'', \<lambda>r x. ic_ID r = ic_ID x)] (\<lambda>d r. has_tenant (ic_TenantID r) d)
     tb_integrations (\<lambda>rs d. d\<lparr>tb_integrations := rs\<rparr>)
     (map_option (\<lambda>ss. c\<lparr>ic_Scopes := ss, ic_CreatedAt := cn_ts cn (ic_CreatedAt c)\<rparr>) scopes)"

definition PgIntegration_Create :: "Json \<Rightarrow> Conn \<Rightarrow> IntegrationConnection \<Rightarrow> unit pg_op" where
  "PgIntegration_Create js cn conn =
     seq_op (pure_pg (marshalJSONColumn (js_strings js) (ic_Scopes conn))) (\<lambda>scopes.
     exec_mapped (mapUniqueViolation ''integration_exists'') cn (insert_integration cn conn scopes))"

definition PgIntegration_Get :: "Conn \<Rightarrow> string \<Rightarrow> string \<Rightarrow> IntegrationConnection pg_op" where
  "PgIntegration_Get cn tenantID ident =
     fetch_one cn ''integration connection'' (\<lambda>d. filter (\<lambda>c. ic_ID c = ident \<and> ic_TenantID c = tenantID) (tb_integrations d))"

definition update_integration :: "Conn \<Rightarrow> IntegrationConnection \<Rightarrow> int \<Rightarrow> string list option \<Rightarrow> nat stmt" where
  "update_integration cn c expectedVersion scopes = sql_guarded cn [ic_ID c, ic_TenantID c, ic_SecretRef c]
     (\<lambda>r. ic_Version r > 0) (\<lambda>d r. True) tb_integrations (\<lambda>rs d. d\<lparr>tb_integrations := rs\<rparr>)
     (\<lambda>r. ic_ID r = ic_ID c \<and> ic_TenantID r = ic_TenantID c \<and> ic_Version r = expectedVersion)
     (map_option (\<lambda>ss r. r\<lparr>ic_Provider := ic_Provider c, ic_Status := ic_Status c, ic_Scopes := ss, ic_SecretRef := ic_SecretRef c,
        ic_Version := ic_Version r + 1\<rparr>) scopes)"

definition PgIntegration_Update :: "Json \<Rightarrow> Conn \<Rightarrow> IntegrationConnection \<Rightarrow> int \<Rightarrow> IntegrationConnection pg_op" where
  "PgIntegration_Update js cn conn expectedVersion =
     seq_op (pure_pg (marshalJSONColumn (js_strings js) (ic_Scopes conn))) (\<lambda>scopes.
     guarded_write cn ''integration connection'' (update_integration cn conn expectedVersion scopes)
       (PgIntegration_Get cn (ic_TenantID conn) (ic_ID conn)) (conn\<lparr>ic_Version := expectedVersion + 1\<rparr>))"

definition PgIntegration_ListByTenant :: "Conn \<Rightarrow> string \<Rightarrow> IntegrationConnection list pg_op" where
  "PgIntegration_ListByTenant cn tenantID = query cn (\<lambda>d. insertion_sort (created_before ic_CreatedAt ic_ID)
     (filter (\<lambda>c. ic_TenantID c = tenantID) (tb_integrations d)))"

subsection \<open>Events (events.go)\<close>

text \<open>The identity column draws its value before the row is checked; the draw is never taken back.\<close>

definition pg_nextval :: "Conn \<Rightarrow> int pg_op" where
  "pg_nextval cn s = (s\<lparr>pg_draws := pg_draws s + 1\<rparr>, Inr (cn_nextval cn (pg_draws s)))"

definition insert_event :: "Conn \<Rightarrow> Event \<Rightarrow> int \<Rightarrow> (string, dval) gomap option \<Rightarrow> unit stmt" where
  "insert_event cn e seq data = sql_insert cn
     [event_ID e, event_TenantID e, event_AggregateType e, event_AggregateID e, actor_ID (event_Actor e), event_TraceID e, event_RunID e] (\<lambda>r. True)
     [(''events_pkey'', \<lambda>r x. event_Seq r = event_Seq x), (''events_id_key'', \<lambda>r x. event_ID r = event_ID x)]
     (\<lambda>d r. True) tb_events (\<lambda>rs d. d\<lparr>tb_events := rs\<rparr>)
     (map_option (\<lambda>v. e\<lparr>event_Seq := seq, event_OccurredAt := cn_ts cn (event_OccurredAt e), event_Data := v\<rparr>) data)"

definition PgEvent_Append :: "Json \<Rightarrow> Conn \<Rightarrow> int \<Rightarrow> Event \<Rightarrow> Event pg_op" where
  "PgEvent_Append js cn outboxMaxAttempts evt =
     seq_op (pure_pg (marshalJSONColumn (js_data js) (event_Data evt))) (\<lambda>data.
     pg_Do cn (
       seq_op (pg_nextval cn) (\<lambda>newSeq.
       seq_op (exec_mapped (mapUniqueViolation ''event_exists'') cn (insert_event cn evt newSeq data)) (\<lambda>_.
       seq_op (pure_pg (marshalJSONColumn (js_event js) (evt\<lparr>event_Seq := newSeq\<rparr>))) (\<lambda>envelope.
       seq_op (pg_now cn) (\<lambda>now.
       seq_op (exec_stmt cn (insert_message (pending_row cn
          \<lparr>om_ID = ''obx_'' @ event_ID evt, om_DedupKey = ''event:'' @ event_ID evt, om_TenantID = event_TenantID evt,
           om_Envelope = envelope, om_Attempts = 0, om_MaxAttempts = outboxMaxAttempts\<rparr> (cn_ts cn now)))) (\<lambda>_.
       return_op (evt\<lparr>event_Seq := newSeq\<rparr>))))))))"

definition list_events :: "Conn \<Rightarrow> (Event \<Rightarrow> bool) \<Rightarrow> int \<Rightarrow> Event list pg_op" where
  "list_events cn p limit = query cn (\<lambda>d. limited limit (insertion_sort (\<lambda>a b. event_Seq a < event_Seq b) (filter p (tb_events d))))"

definition PgEvent_ListByTenant :: "Conn \<Rightarrow> string \<Rightarrow> int \<Rightarrow> int \<Rightarrow> Event list pg_op" where
  "PgEvent_ListByTenant cn tenantID afterSeq limit =
     list_events cn (\<lambda>e. event_TenantID e = tenantID \<and> event_Seq e > afterSeq) limit"

definition PgEvent_ListByRun :: "Conn \<Rightarrow> string \<Rightarrow> string \<Rightarrow> int \<Rightarrow> int \<Rightarrow> Event list pg_op" where
  "PgEvent_ListByRun cn tenantID runID afterSeq limit =
     list_events cn (\<lambda>e. event_TenantID e = tenantID \<and> event_Seq e > afterSeq \<and> event_RunID e = runID) limit"

end
