(* ===== verification/PG_Entity_Laws.thy ===== *)
theory PG_Entity_Laws
  imports PG_Entities PG_Sessions
begin

section \<open>Versions that only grow\<close>

text \<open>
  Five tables carry a version. Every statement of the adapter keeps their keys distinct, never removes a row or changes its tenant, and
  never lowers a version. From that, and from the guard of the update statement, an update that was answered rules out every later
  update from the same version, whatever other sessions did in between.
\<close>

subsection \<open>Growing tables\<close>

definition rows_grow :: "('r \<Rightarrow> string) \<Rightarrow> ('r \<Rightarrow> string) \<Rightarrow> ('r \<Rightarrow> int) \<Rightarrow> 'r list \<Rightarrow> 'r list \<Rightarrow> bool" where
  "rows_grow key tenant version rs rs' \<longleftrightarrow> (distinct (map key rs) \<longrightarrow> distinct (map key rs')
     \<and> (\<forall>r \<in> set rs. \<exists>r' \<in> set rs'. key r' = key r \<and> tenant r' = tenant r \<and> version r \<le> version r'))"

definition db_grows :: "pg_db \<Rightarrow> pg_db \<Rightarrow> bool" where
  "db_grows d d' \<longleftrightarrow> rows_grow run_ID run_TenantID run_Version (tb_runs d) (tb_runs d')
     \<and> rows_grow task_ID task_TenantID task_Version (tb_tasks d) (tb_tasks d')
     \<and> rows_grow thread_ID thread_TenantID thread_Version (tb_threads d) (tb_threads d')
     \<and> rows_grow ws_ID ws_TenantID ws_Version (tb_workspaces d) (tb_workspaces d')
     \<and> rows_grow ic_ID ic_TenantID ic_Version (tb_integrations d) (tb_integrations d')"

lemma rows_grow_refl [simp]: "rows_grow key tenant version rs rs"
  by (auto simp: rows_grow_def)

lemma rows_grow_trans:
  assumes "rows_grow key tenant version rs rs'" and "rows_grow key tenant version rs' rs''"
  shows "rows_grow key tenant version rs rs''"
  unfolding rows_grow_def
proof (intro impI conjI ballI)
  assume "distinct (map key rs)"
  then have 1: "distinct (map key rs')" "\<forall>r \<in> set rs. \<exists>r' \<in> set rs'. key r' = key r \<and> tenant r' = tenant r \<and> version r \<le> version r'"
    using assms(1) by (simp_all add: rows_grow_def)
  then have 2: "\<forall>r \<in> set rs'. \<exists>r' \<in> set rs''. key r' = key r \<and> tenant r' = tenant r \<and> version r \<le> version r'" "distinct (map key rs'')"
    using assms(2) by (simp_all add: rows_grow_def)
  show "distinct (map key rs'')" by (rule 2)
  show "\<exists>r' \<in> set rs''. key r' = key r \<and> tenant r' = tenant r \<and> version r \<le> version r'" if "r \<in> set rs" for r
    using 1(2) 2(1) that by (metis order_trans)
qed

lemma rows_grow_insert: "\<not> list_ex (\<lambda>x. key r = key x) rs \<Longrightarrow> rows_grow key tenant version rs (rs @ [r])"
  by (auto simp: rows_grow_def list_ex_iff image_iff)

lemma rows_grow_update:
  assumes "\<And>r. key (f r) = key r" "\<And>r. tenant (f r) = tenant r" "\<And>r. version (f r) = version r + 1"
  shows "rows_grow key tenant version rs (map (\<lambda>r. if p r then f r else r) rs)"
proof -
  have "map key (map (\<lambda>r. if p r then f r else r) rs) = map key rs" using assms(1) by (auto simp: comp_def)
  moreover have "\<exists>r' \<in> set (map (\<lambda>r. if p r then f r else r) rs). key r' = key r \<and> tenant r' = tenant r \<and> version r \<le> version r'" if "r \<in> set rs" for r
    using that assms by (intro bexI [of _ "if p r then f r else r"]) auto
  ultimately show ?thesis by (simp only: rows_grow_def) blast
qed

lemma db_grows_refl [simp]: "db_grows d d"
  by (simp add: db_grows_def)

lemma db_grows_trans: "db_grows d d' \<Longrightarrow> db_grows d' d'' \<Longrightarrow> db_grows d d''"
  unfolding db_grows_def by (blast intro: rows_grow_trans)

lemma db_growsD:
  assumes "db_grows d d'"
  shows "rows_grow run_ID run_TenantID run_Version (tb_runs d) (tb_runs d')" "rows_grow task_ID task_TenantID task_Version (tb_tasks d) (tb_tasks d')"
    "rows_grow thread_ID thread_TenantID thread_Version (tb_threads d) (tb_threads d')"
    "rows_grow ws_ID ws_TenantID ws_Version (tb_workspaces d) (tb_workspaces d')" "rows_grow ic_ID ic_TenantID ic_Version (tb_integrations d) (tb_integrations d')"
  using assms by (simp_all add: db_grows_def)

subsection \<open>Statements\<close>

lemma sql_insert_cases:
  obtains (kept) "fst (sql_insert cn texts check uniques refs table put new locked d) = d"
  | (added) r where "new = Some r" "list_all (\<lambda>(name, same). \<not> list_ex (same r) (table d)) uniques"
      "fst (sql_insert cn texts check uniques refs table put new locked d) = put (table d @ [r]) d"
proof (cases new)
  case None
  then show ?thesis using kept by (simp add: sql_insert_def)
next
  case (Some r)
  show ?thesis
  proof (cases "List.find (\<lambda>(name, same). list_ex (same r) (table d)) uniques")
    case None
    then have "list_all (\<lambda>(name, same). \<not> list_ex (same r) (table d)) uniques" by (auto simp: find_None_iff list_all_iff)
    then show ?thesis
      using kept added [OF Some] Some None by (cases "list_all (cn_text cn) texts \<and> check r"; cases "refs d r") (auto simp: sql_insert_def)
  next
    case s: (Some u)
    then show ?thesis using kept Some by (cases u) (simp add: sql_insert_def)
  qed
qed

lemma sql_guarded_cases:
  obtains (kept) "fst (sql_guarded cn texts check refs table put p change locked d) = d"
      "\<And>n. snd (sql_guarded cn texts check refs table put p change locked d) \<noteq> Inr n"
  | (wrote) f where "change = Some f" "fst (sql_guarded cn texts check refs table put p change locked d) = put (map (\<lambda>r. if p r then f r else r) (table d)) d"
      "snd (sql_guarded cn texts check refs table put p change locked d) = Inr (length (filter p (table d)))"
proof (cases "change = None \<or> \<not> list_all (cn_text cn) texts")
  case True
  then show ?thesis using kept by (auto simp: sql_guarded_def split: option.splits)
next
  case False
  then obtain f where f: "change = Some f" "list_all (cn_text cn) texts" by auto
  show ?thesis
  proof (cases "list_all check (map f (filter p (table d))) \<and> list_all (refs d) (map f (filter p (table d)))")
    case True
    then show ?thesis using f by (intro wrote [of f]) (simp_all add: sql_guarded_def sql_update_def)
  next
    case False
    then show ?thesis using f kept by (auto simp: sql_guarded_def sql_update_def Let_def split: if_splits)
  qed
qed

lemma insert_grows:
  assumes "\<And>r rs. list_all (\<lambda>(name, same). \<not> list_ex (same r) (table d)) uniques \<Longrightarrow> db_grows d (put (table d @ [r]) d)"
  shows "db_grows d (fst (sql_insert cn texts check uniques refs table put new locked d))"
  by (rule sql_insert_cases [of cn texts check uniques refs table put new locked d]) (use assms in auto)

lemma guarded_grows:
  assumes "\<And>f. change = Some f \<Longrightarrow> db_grows d (put (map (\<lambda>r. if p r then f r else r) (table d)) d)"
  shows "db_grows d (fst (sql_guarded cn texts check refs table put p change locked d))"
  by (rule sql_guarded_cases [of cn texts check refs table put p change locked d]) (use assms in auto)

lemma run_columns_keep:
  assumes "run_columns js run = Inr (Some put)"
  shows "run_ID (put r) = run_ID r" "run_TenantID (put r) = run_TenantID r"
proof -
  obtain ts rp fl where "(case (ts, rp, fl) of (Some ts, Some rp, Some fl) \<Rightarrow> Some (\<lambda>r. r\<lparr>run_TaskIDs := ts, run_Report := rp, run_Failure := fl\<rparr>) | _ \<Rightarrow> None) = Some put"
    using assms unfolding run_columns_def and_then_eq_Inr sum.inject by blast
  then show "run_ID (put r) = run_ID r" "run_TenantID (put r) = run_TenantID r" by (cases ts; cases rp; cases fl; auto)+
qed

lemma task_columns_keep:
  assumes "task_columns js task = Inr (Some put)"
  shows "task_ID (put t) = task_ID t" "task_TenantID (put t) = task_TenantID t"
proof -
  obtain ds fl where "(case (ds, fl) of (Some ds, Some fl) \<Rightarrow> Some (\<lambda>t. t\<lparr>task_DependsOn := ds, task_Failure := fl\<rparr>) | _ \<Rightarrow> None) = Some put"
    using assms unfolding task_columns_def and_then_eq_Inr sum.inject by blast
  then show "task_ID (put t) = task_ID t" "task_TenantID (put t) = task_TenantID t" by (cases ds; cases fl; auto)+
qed

lemma inserts_grow:
  "db_grows d (fst (insert_tenant cn t locked d))" "db_grows d (fst (insert_project cn p locked d))" "db_grows d (fst (insert_thread cn th locked d))"
  "db_grows d (fst (insert_thread_message cn m locked d))" "db_grows d (fst (insert_spec cn sp content locked d))" "db_grows d (fst (insert_run cn run nrun locked d))"
  "db_grows d (fst (insert_task cn task ntask locked d))" "db_grows d (fst (insert_workspace cn w locked d))" "db_grows d (fst (insert_artifact cn a locked d))"
  "db_grows d (fst (insert_audit cn e meta locked d))" "db_grows d (fst (insert_decision cn dec locked d))" "db_grows d (fst (insert_integration cn c scopes locked d))"
  "db_grows d (fst (insert_event cn ev seq data locked d))" "db_grows d (fst (insert_message msg locked d))"
  unfolding insert_tenant_def insert_project_def insert_thread_def insert_thread_message_def insert_spec_def insert_run_def insert_task_def
    insert_workspace_def insert_artifact_def insert_audit_def insert_decision_def insert_integration_def insert_event_def
  by (rule insert_grows, simp add: db_grows_def rows_grow_insert)+ (simp add: insert_message_def db_grows_def split: option.splits)

lemma updates_grow:
  "db_grows d (fst (update_thread cn th v now locked d))" "db_grows d (fst (update_workspace cn w v locked d))"
  "db_grows d (fst (update_integration cn c v scopes locked d))"
  "run_columns js run = Inr rc \<Longrightarrow> db_grows d (fst (update_run cn run v rc now locked d))"
  "task_columns js task = Inr tc \<Longrightarrow> db_grows d (fst (update_task cn task v tc now locked d))"
  unfolding update_thread_def update_workspace_def update_integration_def update_run_def update_task_def
  by (rule guarded_grows; auto simp: db_grows_def run_columns_keep task_columns_keep intro!: rows_grow_update)+

lemma seq_op_Inr_iff: "seq_op m f s = (s1, Inr y) \<longleftrightarrow> (\<exists>s' x. m s = (s', Inr x) \<and> f x s' = (s1, Inr y))"
  by (auto simp: seq_op_def split: prod.splits sum.splits)

subsection \<open>Methods\<close>

text \<open>Other sessions only let the tables grow, and then so does every method, in a unit of work or outside.\<close>

definition others_grow :: "Conn \<Rightarrow> bool" where
  "others_grow cn \<longleftrightarrow> (\<forall>n d. db_grows d (cn_others cn n d))"

definition apply_step :: "(pg_db \<Rightarrow> pg_db) \<Rightarrow> Time \<Rightarrow> pg_db \<Rightarrow> pg_db" where
  "apply_step f t d = f d"

definition grow_step :: "Time \<times> (pg_db \<Rightarrow> pg_db) \<Rightarrow> bool" where
  "grow_step ts \<longleftrightarrow> (\<forall>d. db_grows d (snd ts d))"

interpretation entity_sessions: session_system apply_step "\<lambda>_. ()" "\<lambda>_. True"
  by unfold_locales simp

abbreviation grow_guar :: "pg \<Rightarrow> pg \<Rightarrow> bool" where
  "grow_guar \<equiv> guarantees apply_step (\<lambda>_. ()) (\<lambda>_. True) grow_step"

lemma runs_grow: "runs_of apply_step grow_step d d' \<Longrightarrow> db_grows d d'"
proof -
  have "list_all grow_step calls \<Longrightarrow> db_grows d (run_calls apply_step d calls)" for calls
    by (induction calls arbitrary: d) (auto simp: grow_step_def apply_step_def intro: db_grows_trans)
  then show "runs_of apply_step grow_step d d' \<Longrightarrow> db_grows d d'" by (auto simp: runs_of_def)
qed

lemma grow_env: "others_grow cn \<Longrightarrow> env_runs apply_step cn grow_step"
  unfolding env_runs_def runs_of_def
proof (intro allI)
  fix n d assume "others_grow cn"
  then show "\<exists>calls. list_all grow_step calls \<and> cn_others cn n d = run_calls apply_step d calls"
    by (intro exI [of _ "[(0, cn_others cn n)]"]) (simp add: others_grow_def grow_step_def apply_step_def)
qed

lemma grow_stmt:
  assumes "others_grow cn" and "\<And>locked d. db_grows d (fst (f locked d))"
  shows "op_rel grow_guar (mapped_op g (run_stmt cn f))"
proof (rule entity_sessions.guar_stmt [OF grow_env [OF assms(1)]])
  fix locked d
  have "grow_step (0, \<lambda>d. fst (f locked d))" using assms(2) by (simp add: grow_step_def)
  then show "fst (f locked d) = d \<or> (\<exists>t st. grow_step (t, st) \<and> fst (f locked d) = apply_step st t d)" by (auto simp: apply_step_def)
qed

lemma grow_fetch: "others_grow cn \<Longrightarrow> op_rel grow_guar (fetch_one cn entity rows)"
  unfolding fetch_one_def
  by (rule entity_sessions.guar_val) (auto intro: entity_sessions.guar_read grow_env entity_sessions.guar_pure split: list.split)

lemma grow_classify:
  assumes "op_rel grow_guar m"
  shows "op_rel grow_guar (classifyStaleOrMissing entity m :: 'b pg_op)"
proof
  fix s
  obtain s' r where m: "m s = (s', r)" by (rule prod.exhaust)
  have "fst ((classifyStaleOrMissing entity m :: 'b pg_op) s) = s'" by (simp add: classifyStaleOrMissing_def m split: sum.split)
  then show "grow_guar s (fst ((classifyStaleOrMissing entity m :: 'b pg_op) s))" using op_relE [OF assms m] by simp
qed

lemma grow_nextval: "op_rel grow_guar (pg_nextval cn)"
  by (auto simp: op_rel_def pg_nextval_def intro: entity_sessions.guar_quiet)

lemma grow_guarded_write:
  assumes "others_grow cn" and "\<And>locked d. db_grows d (fst (stmt locked d))" and "op_rel grow_guar get"
  shows "op_rel grow_guar (guarded_write cn entity stmt get u)"
  unfolding guarded_write_def exec_stmt_def
  by (rule entity_sessions.guar_val) (auto intro: grow_stmt assms grow_classify entity_sessions.guar_pure)

lemma grow_lock: "others_grow cn \<Longrightarrow> op_rel grow_guar (lock_thread cn tn k e)"
  unfolding lock_thread_def
  by (rule entity_sessions.guar_val) (auto intro: entity_sessions.guar_read grow_env entity_sessions.guar_pure)

lemma grow_insertRun: "others_grow cn \<Longrightarrow> op_rel grow_guar (insertRun js cn run)"
  unfolding insertRun_def exec_mapped_def
  by (rule entity_sessions.guar_val) (auto intro: grow_stmt inserts_grow entity_sessions.guar_pure)

lemmas grow_rules = entity_sessions.guar_pure entity_sessions.guar_val entity_sessions.guar_read entity_sessions.guar_Do
  grow_env grow_stmt grow_fetch grow_guarded_write grow_lock grow_insertRun grow_nextval inserts_grow updates_grow

lemma grow_creates:
  assumes "others_grow cn"
  shows "op_rel grow_guar (PgTenant_Create cn t)" "op_rel grow_guar (PgProject_Create cn p)" "op_rel grow_guar (PgThread_Create cn th)"
    "op_rel grow_guar (PgSpec_Create js cn sp)" "op_rel grow_guar (PgTask_Create js cn task)" "op_rel grow_guar (PgWorkspace_Create cn w)"
    "op_rel grow_guar (PgArtifact_Create cn a)" "op_rel grow_guar (PgAudit_Append js cn e)" "op_rel grow_guar (PgPolicy_Record cn dec)"
    "op_rel grow_guar (PgIntegration_Create js cn c)"
  unfolding PgTenant_Create_def PgProject_Create_def PgThread_Create_def PgSpec_Create_def PgTask_Create_def PgWorkspace_Create_def
    PgArtifact_Create_def PgAudit_Append_def PgPolicy_Record_def PgIntegration_Create_def exec_mapped_def exec_stmt_def Let_def
  using assms by (auto intro!: grow_rules)

lemma grow_units:
  assumes "others_grow cn"
  shows "op_rel grow_guar (PgThread_AppendMessage cn m)" "op_rel grow_guar (PgEvent_Append js cn n ev)"
  unfolding PgThread_AppendMessage_def PgEvent_Append_def withinAutoTx_def exec_mapped_def exec_stmt_def
  using assms by (auto intro!: grow_rules)

lemma grow_updates:
  assumes "others_grow cn"
  shows "op_rel grow_guar (PgThread_Update cn th v)" "op_rel grow_guar (PgWorkspace_Update cn w v)" "op_rel grow_guar (PgIntegration_Update js cn c v)"
    "op_rel grow_guar (PgRun_Update js cn run v)" "op_rel grow_guar (PgTask_Update js cn task v)"
  unfolding PgThread_Update_def PgWorkspace_Update_def PgIntegration_Update_def PgRun_Update_def PgTask_Update_def
    PgThread_Get_def PgWorkspace_Get_def PgIntegration_Get_def PgRun_Get_def PgTask_Get_def
  using assms by (auto intro!: grow_rules simp: pure_pg_def)

lemma grow_run_create:
  assumes "others_grow cn"
  shows "op_rel grow_guar (PgRun_Create js cn run)"
proof
  fix s
  let ?body = "withinAutoTx cn (seq_op (lock_thread cn (run_TenantID run) (run_ThreadID run) (Invalidf ''run_thread_unknown'')) (\<lambda>_.
    seq_op (query cn (\<lambda>d. next_seq (map run_Seq (filter (\<lambda>r. run_TenantID r = run_TenantID run \<and> run_ThreadID r = run_ThreadID run) (tb_runs d))))) (\<lambda>nextSeq.
    seq_op (insertRun js cn (run\<lparr>run_Seq := nextSeq\<rparr>)) (\<lambda>_. return_op (run\<lparr>run_Seq := nextSeq\<rparr>)))))"
  obtain s1 r where g: "PgRun_GetByIdempotencyKey cn (run_TenantID run) (run_ThreadID run) (run_IdempotencyKey run) s = (s1, r)" by (rule prod.exhaust)
  have 1: "grow_guar s s1" using op_relE [OF grow_fetch [OF assms]] g unfolding PgRun_GetByIdempotencyKey_def by blast
  have "op_rel grow_guar ?body" unfolding withinAutoTx_def using assms by (auto intro!: grow_rules)
  then have "grow_guar s1 (fst (?body s1))" by (simp add: op_rel_def)
  with 1 have "grow_guar s (fst (?body s1))" by (rule transpD [OF entity_sessions.transp_guar])
  then show "grow_guar s (fst (PgRun_Create js cn run s))" using 1 by (simp add: PgRun_Create_def g split: sum.split)
qed

lemma grow_top:
  assumes "op_rel grow_guar m" and "pg_tx s = None"
  shows "db_grows (pg_db s) (pg_db (fst (m s)))" and "pg_tx (fst (m s)) = None"
proof -
  have "grow_guar s (fst (m s))" using assms(1) by (simp add: op_rel_def)
  moreover have "runs_of apply_step grow_step d (sees s d)" for d using assms(2) by (simp add: entity_sessions.runs_refl)
  ultimately have "runs_of apply_step grow_step (pg_db s) (pg_db (fst (m s)))" "pg_tx (fst (m s)) = None \<longleftrightarrow> pg_tx s = None"
    by (simp_all add: guarantees_def)
  then show "db_grows (pg_db s) (pg_db (fst (m s)))" "pg_tx (fst (m s)) = None" using assms(2) runs_grow by simp_all
qed

subsection \<open>One winner per version\<close>

text \<open>A table with versions: the contract of its rows, and what a guarded update of it means to later ones.\<close>

locale versioned_table =
  fixes table :: "pg_db \<Rightarrow> 'r list" and put :: "'r list \<Rightarrow> pg_db \<Rightarrow> pg_db"
    and key :: "'r \<Rightarrow> string" and tenant :: "'r \<Rightarrow> string" and version :: "'r \<Rightarrow> int"
  assumes table_put: "table (put rs d) = rs"
    and table_grows: "db_grows d d' \<Longrightarrow> rows_grow key tenant version (table d) (table d')"
begin

definition newer :: "string \<Rightarrow> string \<Rightarrow> int \<Rightarrow> pg_db \<Rightarrow> bool" where
  "newer k tn v d \<longleftrightarrow> distinct (map key (table d)) \<and> (\<exists>r \<in> set (table d). key r = k \<and> tenant r = tn \<and> v < version r)"

definition stmt_for :: "Conn \<Rightarrow> string list \<Rightarrow> ('r \<Rightarrow> bool) \<Rightarrow> (pg_db \<Rightarrow> 'r \<Rightarrow> bool) \<Rightarrow> string \<Rightarrow> string \<Rightarrow> int \<Rightarrow> ('r \<Rightarrow> 'r) option \<Rightarrow> nat stmt" where
  "stmt_for cn texts check refs k tn v change = sql_guarded cn texts check refs table put (\<lambda>r. key r = k \<and> tenant r = tn \<and> version r = v) change"

lemma newer_grows:
  assumes "db_grows d d'" and "newer k tn v d"
  shows "newer k tn v d'"
proof -
  obtain r where r: "r \<in> set (table d)" "key r = k" "tenant r = tn" "v < version r" and D: "distinct (map key (table d))"
    using assms(2) by (auto simp: newer_def)
  then obtain r' where "r' \<in> set (table d')" "key r' = k" "tenant r' = tn" "version r \<le> version r'"
    using table_grows [OF assms(1)] unfolding rows_grow_def by blast
  then show ?thesis using r(4) D table_grows [OF assms(1)] by (auto simp: newer_def rows_grow_def intro!: bexI [of _ r'])
qed

lemma newer_misses: "newer k tn v d \<Longrightarrow> filter (\<lambda>r. key r = k \<and> tenant r = tn \<and> version r = v) (table d) = []"
  using same_key by (fastforce simp: newer_def filter_empty_conv)

lemma winner:
  assumes "guarded_write cn entity (stmt_for cn texts check refs k tn v change) get u s = (s1, Inr x)" and "pg_tx s = None" and "others_grow cn"
    and "distinct (map key (table (pg_db s)))"
    and f: "\<And>f r. change = Some f \<Longrightarrow> key (f r) = key r \<and> tenant (f r) = tenant r \<and> version (f r) = version r + 1"
  shows "newer k tn v (pg_db s1)"
proof -
  let ?d = "cn_others cn (pg_stmts s) (pg_db s)" and ?p = "\<lambda>r. key r = k \<and> tenant r = tn \<and> version r = v"
  let ?F = "stmt_for cn texts check refs k tn v change (cn_locked cn (pg_stmts s)) ?d"
  obtain n where n: "exec_stmt cn (stmt_for cn texts check refs k tn v change) s = (s1, Inr n)" "n \<noteq> 0"
    using assms(1) by (auto simp: guarded_write_def seq_op_def return_op_def classifyStaleOrMissing_def split: prod.splits sum.splits if_splits)
  then have fin: "pg_db s1 = fst ?F" "snd ?F = Inr n"
    using assms(2) by (auto simp: exec_stmt_def mapped_op_def run_stmt_def Let_def store_writes_def sees_def split: prod.splits sum.splits fate.splits)
  have D: "distinct (map key (table ?d))" using table_grows assms(3,4) unfolding others_grow_def rows_grow_def by blast
  show ?thesis
  proof (rule sql_guarded_cases [of cn texts check refs table put ?p change "cn_locked cn (pg_stmts s)" ?d])
    assume "\<And>n. snd (sql_guarded cn texts check refs table put ?p change (cn_locked cn (pg_stmts s)) ?d) \<noteq> Inr n"
    then show ?thesis using fin(2) by (simp add: stmt_for_def)
  next
    fix g assume g: "change = Some g" "fst (sql_guarded cn texts check refs table put ?p change (cn_locked cn (pg_stmts s)) ?d) = put (map (\<lambda>r. if ?p r then g r else r) (table ?d)) ?d"
      "snd (sql_guarded cn texts check refs table put ?p change (cn_locked cn (pg_stmts s)) ?d) = Inr (length (filter ?p (table ?d)))"
    then have "filter ?p (table ?d) \<noteq> []" using fin(2) n(2) by (auto simp: stmt_for_def)
    then obtain r where r: "r \<in> set (table ?d)" "?p r" by (auto simp: filter_empty_conv)
    have t: "table (pg_db s1) = map (\<lambda>r. if ?p r then g r else r) (table ?d)" using fin(1) g(2) by (simp add: stmt_for_def table_put)
    have "map key (table (pg_db s1)) = map key (table ?d)" unfolding t using f [OF g(1)] by simp
    moreover have "g r \<in> set (table (pg_db s1))" unfolding t using r by force
    ultimately show ?thesis using D r(2) f [OF g(1), of r] by (auto simp: newer_def intro!: bexI [of _ "g r"])
  qed
qed

lemma loser:
  assumes "newer k tn v (pg_db s)" and "pg_tx s = None" and "others_grow cn"
  shows "snd (guarded_write cn entity (stmt_for cn texts check refs k tn v change) get u s) \<noteq> Inr x"
proof -
  let ?d = "cn_others cn (pg_stmts s) (pg_db s)" and ?p = "\<lambda>r. key r = k \<and> tenant r = tn \<and> version r = v"
  let ?F = "sql_guarded cn texts check refs table put ?p change (cn_locked cn (pg_stmts s)) ?d"
  have "db_grows (pg_db s) ?d" using assms(3) by (simp add: others_grow_def)
  then have "newer k tn v ?d" using newer_grows assms(1) by blast
  then have none: "filter ?p (table ?d) = []" by (rule newer_misses)
  have F: "n = 0" if "snd ?F = Inr n" for n
    by (rule sql_guarded_cases [of cn texts check refs table put ?p change "cn_locked cn (pg_stmts s)" ?d]) (use that none in auto)
  obtain s1 r where e: "exec_stmt cn (stmt_for cn texts check refs k tn v change) s = (s1, r)" by (rule prod.exhaust)
  have "n = 0" if "r = Inr n" for n
    using e that assms(2) F unfolding stmt_for_def
    by (auto simp: exec_stmt_def mapped_op_def run_stmt_def Let_def sees_def split: prod.splits sum.splits fate.splits)
  then show ?thesis
    by (cases r) (auto simp: guarded_write_def seq_op_def e classifyStaleOrMissing_def split: prod.splits sum.splits)
qed

end

interpretation v_runs: versioned_table tb_runs "\<lambda>rs d. d\<lparr>tb_runs := rs\<rparr>" run_ID run_TenantID run_Version
  by unfold_locales (simp_all add: db_growsD)

interpretation v_tasks: versioned_table tb_tasks "\<lambda>rs d. d\<lparr>tb_tasks := rs\<rparr>" task_ID task_TenantID task_Version
  by unfold_locales (simp_all add: db_growsD)

interpretation v_threads: versioned_table tb_threads "\<lambda>rs d. d\<lparr>tb_threads := rs\<rparr>" thread_ID thread_TenantID thread_Version
  by unfold_locales (simp_all add: db_growsD)

interpretation v_workspaces: versioned_table tb_workspaces "\<lambda>rs d. d\<lparr>tb_workspaces := rs\<rparr>" ws_ID ws_TenantID ws_Version
  by unfold_locales (simp_all add: db_growsD)

interpretation v_integrations: versioned_table tb_integrations "\<lambda>rs d. d\<lparr>tb_integrations := rs\<rparr>" ic_ID ic_TenantID ic_Version
  by unfold_locales (simp_all add: db_growsD)

subsection \<open>Every versioned entity\<close>

datatype versioned = VRun Run | VTask Task | VThread Thread | VWorkspace Workspace | VIntegration IntegrationConnection

fun entity_of :: "versioned \<Rightarrow> nat \<times> string \<times> string" where
  "entity_of (VRun r) = (0, run_TenantID r, run_ID r)"
| "entity_of (VTask t) = (1, task_TenantID t, task_ID t)"
| "entity_of (VThread t) = (2, thread_TenantID t, thread_ID t)"
| "entity_of (VWorkspace w) = (3, ws_TenantID w, ws_ID w)"
| "entity_of (VIntegration c) = (4, ic_TenantID c, ic_ID c)"

fun pg_update :: "Json \<Rightarrow> Conn \<Rightarrow> versioned \<Rightarrow> int \<Rightarrow> versioned pg_op" where
  "pg_update js cn (VRun r) v = seq_op (PgRun_Update js cn r v) (\<lambda>x. return_op (VRun x))"
| "pg_update js cn (VTask t) v = seq_op (PgTask_Update js cn t v) (\<lambda>x. return_op (VTask x))"
| "pg_update js cn (VThread t) v = seq_op (PgThread_Update cn t v) (\<lambda>x. return_op (VThread x))"
| "pg_update js cn (VWorkspace w) v = seq_op (PgWorkspace_Update cn w v) (\<lambda>x. return_op (VWorkspace x))"
| "pg_update js cn (VIntegration c) v = seq_op (PgIntegration_Update js cn c v) (\<lambda>x. return_op (VIntegration x))"

definition keys_distinct :: "pg_db \<Rightarrow> bool" where
  "keys_distinct d \<longleftrightarrow> distinct (map run_ID (tb_runs d)) \<and> distinct (map task_ID (tb_tasks d)) \<and> distinct (map thread_ID (tb_threads d))
     \<and> distinct (map ws_ID (tb_workspaces d)) \<and> distinct (map ic_ID (tb_integrations d))"

definition newer_entity :: "nat \<times> string \<times> string \<Rightarrow> int \<Rightarrow> pg_db \<Rightarrow> bool" where
  "newer_entity = (\<lambda>(kind, tn, k) v d.
     if kind = 0 then v_runs.newer k tn v d else if kind = 1 then v_tasks.newer k tn v d else if kind = 2 then v_threads.newer k tn v d
     else if kind = 3 then v_workspaces.newer k tn v d else v_integrations.newer k tn v d)"

lemma newer_entity_grows: "db_grows d d' \<Longrightarrow> newer_entity e v d \<Longrightarrow> newer_entity e v d'"
  by (auto simp: newer_entity_def v_runs.newer_grows v_tasks.newer_grows v_threads.newer_grows v_workspaces.newer_grows v_integrations.newer_grows split: prod.splits if_splits)

text \<open>Each update is the guarded write of its table.\<close>

lemma update_stmts:
  "update_run cn r v cols now = v_runs.stmt_for cn [run_ID r, run_TenantID r, run_SpecID r, run_Principal r] (\<lambda>r. run_Version r > 0 \<and> run_Seq r \<ge> 1) spec_known
     (run_ID r) (run_TenantID r) v (map_option (\<lambda>put x. (put x)\<lparr>run_SpecID := run_SpecID r, run_Status := run_Status r, run_Principal := run_Principal r,
        run_UpdatedAt := cn_ts cn now, run_Version := run_Version x + 1, run_FinishedAt := map_option (cn_ts cn) (run_FinishedAt r)\<rparr>) cols)"
  "update_task cn t v tcols now = v_tasks.stmt_for cn [task_ID t, task_TenantID t, task_Name t] task_check (\<lambda>d r. True)
     (task_ID t) (task_TenantID t) v (map_option (\<lambda>put x. (put x)\<lparr>task_Name := task_Name t, task_Kind := task_Kind t, task_Status := task_Status t,
        task_Depth := task_Depth t, task_Attempts := task_Attempts t, task_MaxAttempts := task_MaxAttempts t,
        task_UpdatedAt := cn_ts cn now, task_Version := task_Version x + 1\<rparr>) tcols)"
  "update_thread cn h v now = v_threads.stmt_for cn [thread_ID h, thread_TenantID h, thread_Title h, thread_CreatorID h] (\<lambda>r. thread_Version r > 0) (\<lambda>d r. True)
     (thread_ID h) (thread_TenantID h) v (Some (\<lambda>x. x\<lparr>thread_Title := thread_Title h, thread_Status := thread_Status h, thread_CreatorID := thread_CreatorID h,
        thread_UpdatedAt := cn_ts cn now, thread_Version := thread_Version x + 1\<rparr>))"
  "update_workspace cn w v = v_workspaces.stmt_for cn [ws_ID w, ws_TenantID w, ws_Driver w, ws_RepoRef w, ws_Branch w, ws_BaseSHA w, ws_HeadSHA w]
     (\<lambda>r. ws_Version r > 0) (\<lambda>d r. True) (ws_ID w) (ws_TenantID w) v (Some (\<lambda>x. x\<lparr>ws_Driver := ws_Driver w, ws_RepoRef := ws_RepoRef w, ws_Branch := ws_Branch w,
        ws_BaseSHA := ws_BaseSHA w, ws_HeadSHA := ws_HeadSHA w, ws_Status := ws_Status w, ws_Version := ws_Version x + 1\<rparr>))"
  "update_integration cn c v scopes = v_integrations.stmt_for cn [ic_ID c, ic_TenantID c, ic_SecretRef c] (\<lambda>r. ic_Version r > 0) (\<lambda>d r. True)
     (ic_ID c) (ic_TenantID c) v (map_option (\<lambda>ss x. x\<lparr>ic_Provider := ic_Provider c, ic_Status := ic_Status c, ic_Scopes := ss, ic_SecretRef := ic_SecretRef c,
        ic_Version := ic_Version x + 1\<rparr>) scopes)"
  by (simp_all add: update_run_def update_task_def update_thread_def update_workspace_def update_integration_def
      v_runs.stmt_for_def v_tasks.stmt_for_def v_threads.stmt_for_def v_workspaces.stmt_for_def v_integrations.stmt_for_def)

lemma pg_now_frame: "pg_now cn s = (s', Inr now) \<Longrightarrow> pg_db s' = pg_db s \<and> pg_tx s' = pg_tx s"
  by (auto simp: pg_now_def)

lemma update_wins:
  assumes "keys_distinct (pg_db s)" and "pg_tx s = None" and "others_grow cn" and u: "pg_update js cn e v s = (s1, Inr e1)"
  shows "newer_entity (entity_of e) v (pg_db s1)"
proof (cases e)
  case (VRun r)
  then obtain cols s' now x where c: "run_columns js r = Inr cols" "pg_now cn s = (s', Inr now)"
      and w: "guarded_write cn ''run'' (update_run cn r v cols now) (PgRun_Get cn (run_TenantID r) (run_ID r)) (r\<lparr>run_Version := v + 1\<rparr>) s' = (s1, Inr x)"
    using u by (auto simp: PgRun_Update_def pure_pg_def return_op_def seq_op_Inr_iff)
  have "v_runs.newer (run_ID r) (run_TenantID r) v (pg_db s1)"
    using w unfolding update_stmts
    by (rule v_runs.winner) (use assms(1-3) pg_now_frame [OF c(2)] c(1) in \<open>auto simp: keys_distinct_def run_columns_keep\<close>)
  then show ?thesis using VRun by (simp add: newer_entity_def)
next
  case (VTask t)
  then obtain cols s' now x where c: "task_columns js t = Inr cols" "pg_now cn s = (s', Inr now)"
      and w: "guarded_write cn ''task'' (update_task cn t v cols now) (PgTask_Get cn (task_TenantID t) (task_ID t)) (t\<lparr>task_Version := v + 1\<rparr>) s' = (s1, Inr x)"
    using u by (auto simp: PgTask_Update_def pure_pg_def return_op_def seq_op_Inr_iff)
  have "v_tasks.newer (task_ID t) (task_TenantID t) v (pg_db s1)"
    using w unfolding update_stmts
    by (rule v_tasks.winner) (use assms(1-3) pg_now_frame [OF c(2)] c(1) in \<open>auto simp: keys_distinct_def task_columns_keep\<close>)
  then show ?thesis using VTask by (simp add: newer_entity_def)
next
  case (VThread t)
  then obtain s' now x where c: "pg_now cn s = (s', Inr now)"
      and w: "guarded_write cn ''thread'' (update_thread cn t v now) (PgThread_Get cn (thread_TenantID t) (thread_ID t)) (t\<lparr>thread_Version := v + 1\<rparr>) s' = (s1, Inr x)"
    using u by (auto simp: PgThread_Update_def return_op_def seq_op_Inr_iff)
  have "v_threads.newer (thread_ID t) (thread_TenantID t) v (pg_db s1)"
    using w unfolding update_stmts by (rule v_threads.winner) (use assms(1-3) pg_now_frame [OF c] in \<open>auto simp: keys_distinct_def\<close>)
  then show ?thesis using VThread by (simp add: newer_entity_def)
next
  case (VWorkspace w)
  then obtain x where u': "guarded_write cn ''workspace'' (update_workspace cn w v) (PgWorkspace_Get cn (ws_TenantID w) (ws_ID w)) (w\<lparr>ws_Version := v + 1\<rparr>) s = (s1, Inr x)"
    using u by (auto simp: PgWorkspace_Update_def return_op_def seq_op_Inr_iff)
  have "v_workspaces.newer (ws_ID w) (ws_TenantID w) v (pg_db s1)"
    using u' unfolding update_stmts by (rule v_workspaces.winner) (use assms(1-3) in \<open>auto simp: keys_distinct_def\<close>)
  then show ?thesis using VWorkspace by (simp add: newer_entity_def)
next
  case (VIntegration c)
  then obtain scopes x where w: "guarded_write cn ''integration connection'' (update_integration cn c v scopes) (PgIntegration_Get cn (ic_TenantID c) (ic_ID c))
      (c\<lparr>ic_Version := v + 1\<rparr>) s = (s1, Inr x)"
    using u by (auto simp: PgIntegration_Update_def pure_pg_def return_op_def seq_op_Inr_iff)
  have "v_integrations.newer (ic_ID c) (ic_TenantID c) v (pg_db s1)"
    using w unfolding update_stmts by (rule v_integrations.winner) (use assms(1-3) in \<open>auto simp: keys_distinct_def\<close>)
  then show ?thesis using VIntegration by (simp add: newer_entity_def)
qed

lemma update_loses:
  assumes "newer_entity (entity_of e) v (pg_db s)" and "pg_tx s = None" and "others_grow cn"
  shows "snd (pg_update js cn e v s) \<noteq> Inr x"
proof
  assume "snd (pg_update js cn e v s) = Inr x"
  then obtain s1 where u: "pg_update js cn e v s = (s1, Inr x)" by (metis prod.collapse)
  show False
  proof (cases e)
    case (VRun r)
    then obtain cols s' now y where c: "pg_now cn s = (s', Inr now)"
        and w: "guarded_write cn ''run'' (update_run cn r v cols now) (PgRun_Get cn (run_TenantID r) (run_ID r)) (r\<lparr>run_Version := v + 1\<rparr>) s' = (s1, Inr y)"
      using u by (auto simp: PgRun_Update_def pure_pg_def return_op_def seq_op_Inr_iff)
    have "v_runs.newer (run_ID r) (run_TenantID r) v (pg_db s')" using assms(1) VRun pg_now_frame [OF c] by (simp add: newer_entity_def)
    then have "snd (s1, Inr y :: _ result) \<noteq> Inr y"
      unfolding w [symmetric] update_stmts using pg_now_frame [OF c] assms(2,3) by (intro v_runs.loser) simp_all
    then show False by simp
  next
    case (VTask t)
    then obtain cols s' now y where c: "pg_now cn s = (s', Inr now)"
        and w: "guarded_write cn ''task'' (update_task cn t v cols now) (PgTask_Get cn (task_TenantID t) (task_ID t)) (t\<lparr>task_Version := v + 1\<rparr>) s' = (s1, Inr y)"
      using u by (auto simp: PgTask_Update_def pure_pg_def return_op_def seq_op_Inr_iff)
    have "v_tasks.newer (task_ID t) (task_TenantID t) v (pg_db s')" using assms(1) VTask pg_now_frame [OF c] by (simp add: newer_entity_def)
    then have "snd (s1, Inr y :: _ result) \<noteq> Inr y"
      unfolding w [symmetric] update_stmts using pg_now_frame [OF c] assms(2,3) by (intro v_tasks.loser) simp_all
    then show False by simp
  next
    case (VThread t)
    then obtain s' now y where c: "pg_now cn s = (s', Inr now)"
        and w: "guarded_write cn ''thread'' (update_thread cn t v now) (PgThread_Get cn (thread_TenantID t) (thread_ID t)) (t\<lparr>thread_Version := v + 1\<rparr>) s' = (s1, Inr y)"
      using u by (auto simp: PgThread_Update_def return_op_def seq_op_Inr_iff)
    have "v_threads.newer (thread_ID t) (thread_TenantID t) v (pg_db s')" using assms(1) VThread pg_now_frame [OF c] by (simp add: newer_entity_def)
    then have "snd (s1, Inr y :: _ result) \<noteq> Inr y"
      unfolding w [symmetric] update_stmts using pg_now_frame [OF c] assms(2,3) by (intro v_threads.loser) simp_all
    then show False by simp
  next
    case (VWorkspace w)
    then obtain y where u': "guarded_write cn ''workspace'' (update_workspace cn w v) (PgWorkspace_Get cn (ws_TenantID w) (ws_ID w)) (w\<lparr>ws_Version := v + 1\<rparr>) s = (s1, Inr y)"
      using u by (auto simp: PgWorkspace_Update_def return_op_def seq_op_Inr_iff)
    have "v_workspaces.newer (ws_ID w) (ws_TenantID w) v (pg_db s)" using assms(1) VWorkspace by (simp add: newer_entity_def)
    then have "snd (s1, Inr y :: _ result) \<noteq> Inr y" unfolding u' [symmetric] update_stmts using assms(2,3) by (intro v_workspaces.loser) simp_all
    then show False by simp
  next
    case (VIntegration c)
    then obtain scopes y where w: "guarded_write cn ''integration connection'' (update_integration cn c v scopes) (PgIntegration_Get cn (ic_TenantID c) (ic_ID c))
        (c\<lparr>ic_Version := v + 1\<rparr>) s = (s1, Inr y)"
      using u by (auto simp: PgIntegration_Update_def pure_pg_def return_op_def seq_op_Inr_iff)
    have "v_integrations.newer (ic_ID c) (ic_TenantID c) v (pg_db s)" using assms(1) VIntegration by (simp add: newer_entity_def)
    then have "snd (s1, Inr y :: _ result) \<noteq> Inr y" unfolding w [symmetric] update_stmts using assms(2,3) by (intro v_integrations.loser) simp_all
    then show False by simp
  qed
qed

end
