(* ===== verification/PG_Entity_Props.thy ===== *)
theory PG_Entity_Props
  imports PG_Entity_Laws
begin

section \<open>What the entity repositories promise\<close>

text \<open>
  Optimistic concurrency between sessions, the atomicity of an appended event and its delivery, and three places where the adapter
  does not do what its text says.
\<close>

subsection \<open>Optimistic concurrency\<close>

text \<open>
  C15: optimistic concurrency between sessions of the PostgreSQL store. Once an update of a run, task, thread, workspace or
  integration from some version was answered with success, no other session's update of that entity from the same version
  succeeds, whatever rows other sessions insert or update in between and whatever happens to the connections; the successful
  update itself only lets the tables grow, like every other method. Both updates are single statements of their own, made
  outside a unit of work, as their session has none open; inside one, the answer counts only once the unit has committed.
\<close>

theorem pg_update_one_winner:
  assumes db: "keys_distinct (pg_db s)" "pg_tx s = None" "others_grow cn" and won: "pg_update js cn e v s = (s1, Inr e1)"
    and between: "db_grows (pg_db s1) (pg_db s2)" "pg_tx s2 = None" "others_grow cn2" and same: "entity_of e' = entity_of e"
  shows "db_grows (pg_db s) (pg_db s1) \<and> (\<exists>err. snd (pg_update js' cn2 e' v s2) = Inl err)"
proof
  have "op_rel grow_guar (pg_update js cn e v)"
    by (cases e) (auto intro!: entity_sessions.guar_val entity_sessions.guar_pure grow_updates db(3))
  from grow_top(1) [OF this db(2)] show "db_grows (pg_db s) (pg_db s1)" by (simp add: won)
  have "newer_entity (entity_of e') v (pg_db s2)"
    using newer_entity_grows [OF between(1) update_wins [OF db won]] by (simp add: same)
  then show "\<exists>err. snd (pg_update js' cn2 e' v s2) = Inl err"
    using update_loses between(2,3) by (cases "snd (pg_update js' cn2 e' v s2)") blast+
qed

definition ex_json :: Json where
  "ex_json = \<lparr>js_strings = \<lambda>v. Inr (Some v), js_failure = \<lambda>v. Inr (Some v), js_report = \<lambda>v. Inr (Some v), js_data = \<lambda>v. Inr (Some v), js_event = \<lambda>_. Inr ''{}''\<rparr>"

definition ex_ws :: Workspace where
  "ex_ws = \<lparr>ws_ID = ''w1'', ws_TenantID = ''t'', ws_TaskID = ''k1'', ws_RunID = ''r1'', ws_Driver = ''memory'', ws_RepoRef = ''repo'', ws_Branch = ''b'',
     ws_BaseSHA = [], ws_HeadSHA = [], ws_Status = WorkspaceCreating, ws_Version = 1, ws_CreatedAt = 0\<rparr>"

definition ex_entities :: pg_db where
  "ex_entities = empty_db\<lparr>tb_workspaces := [ex_ws]\<rparr>"

lemma ex_ws_update:
  "pg_update ex_json ex_conn (VWorkspace ex_ws) 1 (on_session ex_entities)
   = ((on_session ex_entities)\<lparr>pg_db := ex_entities\<lparr>tb_workspaces := [ex_ws\<lparr>ws_Version := 2\<rparr>]\<rparr>, pg_stmts := 1\<rparr>, Inr (VWorkspace (ex_ws\<lparr>ws_Version := 2\<rparr>)))"
  by (simp add: PgWorkspace_Update_def guarded_write_def exec_stmt_def mapped_op_def run_stmt_def update_workspace_def sql_guarded_def sql_update_def
      ex_conn_def on_session_def ex_entities_def ex_ws_def empty_db_def Let_def seq_op_def return_op_def store_writes_def sees_def)

lemma ex_conn_grows: "others_grow ex_conn"
  by (simp add: others_grow_def ex_conn_def)

theorem pg_update_one_winner_witness:
  "\<exists>s1 e1 err. pg_update ex_json ex_conn (VWorkspace ex_ws) 1 (on_session ex_entities) = (s1, Inr e1)
    \<and> snd (pg_update ex_json ex_conn (VWorkspace ex_ws) 1 s1) = Inl err"
proof -
  have "keys_distinct (pg_db (on_session ex_entities))" "pg_tx (on_session ex_entities) = None"
    by (simp_all add: keys_distinct_def on_session_def ex_entities_def empty_db_def)
  from pg_update_one_winner [OF this ex_conn_grows ex_ws_update db_grows_refl _ ex_conn_grows refl, where js' = ex_json]
  show ?thesis unfolding ex_ws_update by (auto simp: on_session_def)
qed

subsection \<open>Units of work that nobody interrupts\<close>

definition alone :: "Conn \<Rightarrow> bool" where
  "alone cn \<longleftrightarrow> (\<forall>n d. cn_others cn n d = d)"

lemma alone_tx_stmt:
  assumes "alone cn" and "mapped_op g (run_stmt cn f) s = (s1, r)" and "pg_tx s = Some w"
  shows "pg_db s1 = pg_db s" "pg_tx s1 \<noteq> None"
    "r = Inr x \<Longrightarrow> \<exists>locked. pg_tx s1 = Some (\<lambda>d. fst (f locked (w d))) \<and> snd (f locked (w (pg_db s))) = Inr x"
  using assms
  by (auto simp: alone_def mapped_op_def run_stmt_def Let_def store_writes_def sees_def split: prod.splits sum.splits fate.splits)

definition tx_frame :: "pg \<Rightarrow> pg \<Rightarrow> bool" where
  "tx_frame s s' \<longleftrightarrow> (pg_tx s \<noteq> None \<longrightarrow> pg_db s' = pg_db s \<and> pg_tx s' \<noteq> None)"

lemma tx_frame_transp: "transp tx_frame"
  by (rule transpI) (auto simp: tx_frame_def)

lemma tx_frame_pure:
  "op_rel tx_frame (return_op x)" "op_rel tx_frame (pure_pg r)" "op_rel tx_frame (pg_now cn)" "op_rel tx_frame (pg_nextval cn)"
  by (auto simp: op_rel_def tx_frame_def return_op_def pure_pg_def pg_now_def pg_nextval_def)

lemma tx_frame_stmt:
  assumes "alone cn"
  shows "op_rel tx_frame (mapped_op g (run_stmt cn f))"
proof
  fix s
  obtain s1 r where "mapped_op g (run_stmt cn f) s = (s1, r)" by (rule prod.exhaust)
  then show "tx_frame s (fst (mapped_op g (run_stmt cn f) s))" using alone_tx_stmt(1,2) [OF assms] by (cases "pg_tx s") (auto simp: tx_frame_def)
qed

lemma alone_Do:
  assumes "alone cn" and "pg_tx s = None" and "pg_Do cn fn s = (s', r)" and "\<And>s. pg_tx s \<noteq> None \<Longrightarrow> pg_db (fst (fn s)) = pg_db s"
  shows "pg_db s' = pg_db s \<and> (\<exists>e. r = Inl e)
    \<or> (\<exists>s2 x. fn (s\<lparr>pg_stmts := Suc (pg_stmts s), pg_tx := Some (\<lambda>d. d)\<rparr>) = (s2, Inr x) \<and> pg_db s' = sees s2 (pg_db s) \<and> (\<forall>y. r = Inr y \<longrightarrow> y = x))"
proof (cases "cn_fate cn (pg_stmts s) = Answered")
  case False
  then show ?thesis using assms(1-3) by (auto simp: pg_Do_def pg_begin_def Let_def alone_def)
next
  case True
  let ?b = "s\<lparr>pg_stmts := Suc (pg_stmts s), pg_tx := Some (\<lambda>d. d)\<rparr>"
  obtain s2 x where f: "fn ?b = (s2, x)" by (rule prod.exhaust)
  have d: "pg_db s2 = pg_db s" using assms(4) [of ?b] f by simp
  have beg: "pg_begin cn s = (?b, True)" using True assms(1) by (cases s) (simp add: pg_begin_def Let_def alone_def)
  show ?thesis
  proof (cases x)
    case (Inl e)
    then show ?thesis using assms(2,3) d by (auto simp: pg_Do_def beg f)
  next
    case (Inr y)
    then show ?thesis
      using assms(1-3) d f by (cases "cn_fate cn (pg_stmts s2)") (auto simp: pg_Do_def beg pg_commit_def Let_def alone_def)
  qed
qed

subsection \<open>Events and their deliveries\<close>

lemma sql_insert_Inr:
  assumes "snd (sql_insert cn texts check uniques refs table put new locked d) = Inr ()"
  shows "\<exists>r. new = Some r \<and> fst (sql_insert cn texts check uniques refs table put new locked' d) = put (table d @ [r]) d"
proof (cases new)
  case None
  then show ?thesis using assms by (simp add: sql_insert_def)
next
  case (Some r)
  then have "List.find (\<lambda>(name, same). list_ex (same r) (table d)) uniques = None" "refs d r" "list_all (cn_text cn) texts \<and> check r"
    using assms by (auto simp: sql_insert_def split: if_splits option.splits)
  then show ?thesis using Some by (simp add: sql_insert_def)
qed

lemma insert_event_Inr:
  assumes "snd (insert_event cn evt q data locked d) = Inr ()"
  shows "\<exists>e. event_ID e = event_ID evt \<and> event_Seq e = q \<and> fst (insert_event cn evt q data locked' d) = d\<lparr>tb_events := tb_events d @ [e]\<rparr>"
proof -
  obtain r where r: "map_option (\<lambda>v. evt\<lparr>event_Seq := q, event_OccurredAt := cn_ts cn (event_OccurredAt evt), event_Data := v\<rparr>) data = Some r"
      "fst (insert_event cn evt q data locked' d) = d\<lparr>tb_events := tb_events d @ [r]\<rparr>"
    using sql_insert_Inr [OF assms [unfolded insert_event_def], where locked' = locked'] unfolding insert_event_def by blast
  then have "event_ID r = event_ID evt" "event_Seq r = q" by auto
  then show ?thesis using r(2) by blast
qed

lemma insert_message_Inr:
  assumes "snd (insert_message new locked d) = Inr ()"
  shows "\<exists>m. new = Some m \<and> tb_events (fst (insert_message new locked' d)) = tb_events d
    \<and> (if list_ex (\<lambda>x. obx_DedupKey x = obx_DedupKey m) (tb_outbox d) then fst (insert_message new locked' d) = d
       else fst (insert_message new locked' d) = d\<lparr>tb_outbox := tb_outbox d @ [m]\<rparr>)"
  using assms by (cases new) (auto simp: insert_message_def split: if_splits)

text \<open>What an append leaves: one more event, and a delivery under its key, new unless there was one.\<close>

definition appended :: "Event \<Rightarrow> int \<Rightarrow> pg_db \<Rightarrow> pg_db \<Rightarrow> bool" where
  "appended evt q d d' \<longleftrightarrow> (\<exists>e. event_ID e = event_ID evt \<and> event_Seq e = q \<and> tb_events d' = tb_events d @ [e])
     \<and> (if ''event:'' @ event_ID evt \<in> set (map obx_DedupKey (tb_outbox d)) then tb_outbox d' = tb_outbox d
        else (\<exists>m. obx_DedupKey m = ''event:'' @ event_ID evt \<and> obx_Status m = OutboxPending \<and> tb_outbox d' = tb_outbox d @ [m]))"

text \<open>
  C23: an event and its delivery are one write in PostgreSQL. When no other session writes in between, an append outside a unit of
  work either leaves the tables as they were and reports an error, or stores the event together with a delivery under its key;
  a reported success is always the latter, with the sequence number the event was stored under. This holds whichever statement
  fails, the commit included, and whichever answer is lost.
\<close>

theorem pg_append_atomic:
  assumes "alone cn" and "pg_tx s = None" and "PgEvent_Append js cn n evt s = (s', r)"
  shows "pg_db s' = pg_db s \<and> (\<exists>err. r = Inl err) \<or> (\<exists>q. appended evt q (pg_db s) (pg_db s') \<and> (r = Inr (evt\<lparr>event_Seq := q\<rparr>) \<or> (\<exists>err. r = Inl err)))"
proof (cases "marshalJSONColumn (js_data js) (event_Data evt)")
  case (Inl e)
  then show ?thesis using assms(3) by (auto simp: PgEvent_Append_def seq_op_def pure_pg_def)
next
  case (Inr data)
  let ?msg = "\<lambda>envelope. \<lparr>om_ID = ''obx_'' @ event_ID evt, om_DedupKey = ''event:'' @ event_ID evt, om_TenantID = event_TenantID evt,
      om_Envelope = envelope, om_Attempts = 0, om_MaxAttempts = n\<rparr>"
  let ?fn = "seq_op (pg_nextval cn) (\<lambda>q. seq_op (exec_mapped (mapUniqueViolation ''event_exists'') cn (insert_event cn evt q data)) (\<lambda>_.
      seq_op (pure_pg (marshalJSONColumn (js_event js) (evt\<lparr>event_Seq := q\<rparr>))) (\<lambda>envelope.
      seq_op (pg_now cn) (\<lambda>now. seq_op (exec_stmt cn (insert_message (pending_row cn (?msg envelope) (cn_ts cn now)))) (\<lambda>_.
      return_op (evt\<lparr>event_Seq := q\<rparr>))))))"
  let ?b = "s\<lparr>pg_stmts := Suc (pg_stmts s), pg_tx := Some (\<lambda>d. d)\<rparr>" and ?d = "pg_db s"
  have "pg_Do cn ?fn s = (s', r)" using assms(3) Inr by (simp add: PgEvent_Append_def seq_op_def pure_pg_def)
  moreover have "op_rel tx_frame ?fn"
    unfolding exec_mapped_def exec_stmt_def by (intro op_rel_seq_val [OF tx_frame_transp] tx_frame_stmt [OF assms(1)] tx_frame_pure)
  then have "pg_db (fst (?fn s)) = pg_db s" if "pg_tx s \<noteq> None" for s using that by (auto simp: op_rel_def tx_frame_def)
  ultimately consider "pg_db s' = ?d" "\<exists>err. r = Inl err" | s2 x where "?fn ?b = (s2, Inr x)" "pg_db s' = sees s2 ?d" "\<forall>y. r = Inr y \<longrightarrow> y = x"
    using alone_Do [OF assms(1,2), of ?fn s' r] by blast
  then show ?thesis
  proof cases
    case 2
    obtain q b1 b2 u b3 envelope b4 now b5 u' where c: "pg_nextval cn ?b = (b1, Inr q)"
        "exec_mapped (mapUniqueViolation ''event_exists'') cn (insert_event cn evt q data) b1 = (b2, Inr u)"
        "pure_pg (marshalJSONColumn (js_event js) (evt\<lparr>event_Seq := q\<rparr>)) b2 = (b3, Inr envelope)" "pg_now cn b3 = (b4, Inr now)"
        "exec_stmt cn (insert_message (pending_row cn (?msg envelope) (cn_ts cn now))) b4 = (b5, Inr u')"
        "return_op (evt\<lparr>event_Seq := q\<rparr>) b5 = (s2, Inr x :: Event result)"
      using 2(1) by (elim seq_op_Inr) (rule that, assumption+)
    have b1: "pg_tx b1 = Some (\<lambda>d. d)" "pg_db b1 = ?d" using c(1) by (auto simp: pg_nextval_def)
    have b4: "pg_db b4 = pg_db b2" "pg_tx b4 = pg_tx b2" using c(3,4) by (auto simp: pure_pg_def pg_now_def)
    have x: "x = evt\<lparr>event_Seq := q\<rparr>" "b5 = s2" using c(6) by (simp_all add: return_op_def)
    define new where "new = pending_row cn (?msg envelope) (cn_ts cn now)"
    let ?f = "insert_event cn evt q data" and ?g = "insert_message new"
    obtain l1 where l1: "pg_tx b2 = Some (\<lambda>d. fst (?f l1 d))" "snd (?f l1 ?d) = Inr ()" "pg_db b2 = ?d"
      using alone_tx_stmt [OF assms(1) c(2) [unfolded exec_mapped_def] b1(1)] b1(2) by auto
    obtain l2 where l2: "pg_tx s2 = Some (\<lambda>d. fst (?g l2 (fst (?f l1 d))))" "snd (?g l2 (fst (?f l1 ?d))) = Inr ()"
      using alone_tx_stmt(3) [OF assms(1) c(5) [unfolded exec_stmt_def, folded new_def], of "\<lambda>d. fst (?f l1 d)"] l1 b4 x(2) by auto
    obtain e where e: "event_ID e = event_ID evt" "event_Seq e = q" "fst (?f l1 ?d) = ?d\<lparr>tb_events := tb_events ?d @ [e]\<rparr>"
      using insert_event_Inr [OF l1(2)] by blast
    let ?D = "?d\<lparr>tb_events := tb_events ?d @ [e]\<rparr>"
    have d': "pg_db s' = fst (?g l2 ?D)" using 2(2) l2(1) e(3) by (simp add: sees_def)
    obtain m where m: "new = Some m" "tb_events (pg_db s') = tb_events ?D"
        "if list_ex (\<lambda>x. obx_DedupKey x = obx_DedupKey m) (tb_outbox ?D) then pg_db s' = ?D else pg_db s' = ?D\<lparr>tb_outbox := tb_outbox ?D @ [m]\<rparr>"
      using insert_message_Inr [OF l2(2) [unfolded e(3)], of l2] unfolding d' by blast
    have k: "obx_DedupKey m = ''event:'' @ event_ID evt" "obx_Status m = OutboxPending" using m(1) by (auto simp: new_def pending_row_def)
    have "list_ex (\<lambda>x. obx_DedupKey x = obx_DedupKey m) (tb_outbox ?d) \<longleftrightarrow> ''event:'' @ event_ID evt \<in> set (map obx_DedupKey (tb_outbox ?d))"
      unfolding list_ex_iff set_map image_iff k(1) by metis
    then have "if ''event:'' @ event_ID evt \<in> set (map obx_DedupKey (tb_outbox ?d)) then tb_outbox (pg_db s') = tb_outbox ?d else tb_outbox (pg_db s') = tb_outbox ?d @ [m]"
      using m(3) by (simp split: if_splits)
    moreover have "tb_events (pg_db s') = tb_events ?d @ [e]" using m(2) by simp
    ultimately have "appended evt q ?d (pg_db s')" using e(1,2) k unfolding appended_def by metis
    then show ?thesis using 2(3) x(1) by (cases r) auto
  qed simp
qed

definition ex_evt :: Event where
  "ex_evt = \<lparr>event_ID = ''e1'', event_Type = EventTenantCreated, event_OccurredAt = 1, event_TenantID = ''t'', event_AggregateType = ''tenant'', event_AggregateID = ''t'',
     event_AggregateVersion = 1, event_Actor = zero_Actor, event_TraceID = [], event_Seq = 0, event_RunID = [], event_Data = []\<rparr>"

lemma ex_append: "\<exists>s'. PgEvent_Append ex_json ex_conn 5 ex_evt (on_session empty_db) = (s', Inr ex_evt) \<and> pg_db s' \<noteq> empty_db"
  by (simp add: PgEvent_Append_def marshalJSONColumn_def ex_json_def pure_pg_def seq_op_def pg_Do_def pg_begin_def pg_commit_def pg_nextval_def pg_now_def
      exec_mapped_def exec_stmt_def mapped_op_def run_stmt_def insert_event_def sql_insert_def insert_message_def pending_row_def outbox_check_def
      ex_conn_def on_session_def empty_db_def Let_def return_op_def store_writes_def sees_def) (simp add: ex_evt_def)

theorem pg_append_atomic_witness:
  "alone ex_conn \<and> (\<exists>s' q. PgEvent_Append ex_json ex_conn 5 ex_evt (on_session empty_db) = (s', Inr (ex_evt\<lparr>event_Seq := q\<rparr>)) \<and> appended ex_evt q empty_db (pg_db s'))"
proof -
  obtain s' where e: "PgEvent_Append ex_json ex_conn 5 ex_evt (on_session empty_db) = (s', Inr ex_evt)" "pg_db s' \<noteq> empty_db" using ex_append by blast
  have "alone ex_conn" "pg_tx (on_session empty_db) = None" "pg_db (on_session empty_db) = empty_db" by (simp_all add: alone_def ex_conn_def on_session_def)
  with pg_append_atomic [OF this(1,2) e(1)] e show ?thesis by auto
qed

subsection \<open>Where the adapter differs from its text\<close>

text \<open>A taken slug is reported as an existing project: the second mapping of the violation is never reached.\<close>

lemma taken_slug_reported_as_existing_project:
  assumes "quiet cn" and "pg_tx s = None" and "project_Version p > 0"
    and "list_all (cn_text cn) [project_ID p, project_TenantID p, project_Slug p, project_Name p, project_DefaultBranch p, project_SeedName p]"
    and "list_ex (\<lambda>x. project_TenantID x = project_TenantID p \<and> project_Slug x = project_Slug p) (tb_projects (pg_db s))"
    and "\<not> list_ex (\<lambda>x. project_ID x = project_ID p) (tb_projects (pg_db s))"
  shows "snd (PgProject_Create cn p s) = Inl (Conflictf ''project_exists'')"
proof -
  have "snd (insert_project cn p (\<lambda>_. False) (pg_db s)) = Inl (Violation ''projects_tenant_id_slug_key'')"
    using assms(3-6) by (simp add: insert_project_def sql_insert_def list_ex_iff eq_commute)
  then show ?thesis
    using quiet_stmt [OF assms(1,2), of "insert_project cn p"] by (simp add: PgProject_Create_def exec_mapped_def mapped_op_def project_conflict_def)
qed

text \<open>Events recorded at the same instant as the cursor's are on no later page.\<close>

lemma audit_cursor_skips_ties:
  assumes "quiet cn" and "pg_tx s = None" and "e1 \<in> set (tb_audit (pg_db s))" and "distinct (map audit_ID (tb_audit (pg_db s)))"
    and "audit_At e2 = audit_At e1" and "audit_ID e1 \<noteq> []" and "PgAudit_ListByTenant cn tn (audit_ID e1) limit s = (s', Inr out)"
  shows "e2 \<notin> set out"
proof -
  have "List.find (\<lambda>x. audit_ID x = audit_ID e1) (tb_audit (pg_db s)) = Some e1" using find_key_mem [OF assms(4,3)] .
  then have "\<not> past_cursor (audit_ID e1) (tb_audit (pg_db s)) e2" using assms(5,6) by (simp add: past_cursor_def)
  moreover have "set (insertion_sort lt xs) = set xs" for lt and xs :: "AuditEvent list" by (induction xs) (simp_all add: set_insert_by)
  ultimately show ?thesis
    using assms(7) unfolding PgAudit_ListByTenant_def quiet_query [OF assms(1,2)] by (auto simp: limited_def split: if_splits dest!: in_set_takeD)
qed

end
