(* ===== verification/Go_Paths.thy ===== *)
theory Go_Paths
  imports Go_Strings "HOL-Library.Sublist"
begin

section \<open>Go's file paths and processes\<close>

text \<open>
  The functions of \<^verbatim>\<open>path/filepath\<close> the drivers use, for Unix. A path is read as its list of components:
  \<open>clean_walk\<close> is the loop of \<^verbatim>\<open>filepath.Clean\<close>, which drops empty and \<^verbatim>\<open>.\<close> components and resolves \<^verbatim>\<open>..\<close>
  without looking at the file system. \<open>abs_comps\<close> is \<^verbatim>\<open>filepath.Abs\<close> for a rooted working directory, as
  \<^verbatim>\<open>os.Getwd\<close> returns, and \<open>rel_comps\<close> is \<^verbatim>\<open>filepath.Rel\<close> between two rooted clean paths.

  A process run with \<^verbatim>\<open>exec.Cmd.Run\<close> ends with success, with an exit code (\<^verbatim>\<open>exec.ExitError\<close>, whose code is \<open>-1\<close>
  when a signal killed it) or with another error.
\<close>

datatype run_end = RunOK | RunExit int | RunError

definition dotdot :: string where "dotdot = ''..''"

fun clean_walk :: "bool \<Rightarrow> string list \<Rightarrow> string list \<Rightarrow> string list" where
  "clean_walk rooted out [] = out"
| "clean_walk rooted out (c # cs) =
     (if c = [] \<or> c = ''.'' then clean_walk rooted out cs
      else if c = dotdot then
        (case out of
           [] \<Rightarrow> clean_walk rooted (if rooted then [] else [dotdot]) cs
         | p # out' \<Rightarrow> clean_walk rooted (if p = dotdot then dotdot # out else out') cs)
      else clean_walk rooted (c # out) cs)"

definition IsAbs :: "string \<Rightarrow> bool" where
  "IsAbs path = has_prefix ''/'' path"

definition comps :: "string \<Rightarrow> string list" where
  "comps path = rev (clean_walk (IsAbs path) [] (split_on (CHR ''/'') path))"

definition render_path :: "string list \<Rightarrow> string" where
  "render_path cs = CHR ''/'' # join_with ''/'' cs"

definition filepath_Clean :: "string \<Rightarrow> string" where
  "filepath_Clean path =
     (if IsAbs path then render_path (comps path)
      else if comps path = [] then ''.'' else join_with ''/'' (comps path))"

definition filepath_Join :: "string \<Rightarrow> string \<Rightarrow> string" where
  "filepath_Join a b =
     (if a \<noteq> [] then filepath_Clean (a @ ''/'' @ b) else if b \<noteq> [] then filepath_Clean b else [])"

definition abs_comps :: "string \<Rightarrow> string \<Rightarrow> string list" where
  "abs_comps cwd path = comps (if IsAbs path then path else filepath_Join cwd path)"

fun rel_comps :: "string list \<Rightarrow> string list \<Rightarrow> string list" where
  "rel_comps (b # bs) (t # ts) =
     (if b = t then rel_comps bs ts else replicate (length (b # bs)) dotdot @ t # ts)"
| "rel_comps [] ts = ts"
| "rel_comps (b # bs) [] = replicate (length (b # bs)) dotdot"

definition filepath_Rel :: "string list \<Rightarrow> string list \<Rightarrow> string" where
  "filepath_Rel base targ = (let r = rel_comps base targ in if r = [] then ''.'' else join_with ''/'' r)"

subsection \<open>Laws\<close>

text \<open>A component a clean rooted path may have.\<close>

definition plain :: "string \<Rightarrow> bool" where
  "plain c \<longleftrightarrow> c \<noteq> [] \<and> c \<noteq> ''.'' \<and> c \<noteq> dotdot \<and> CHR ''/'' \<notin> set c"

lemma clean_walk_append: "clean_walk r out (xs @ ys) = clean_walk r (clean_walk r out xs) ys"
  by (induction r out xs rule: clean_walk.induct) (auto split: list.splits)

lemma clean_walk_plain:
  assumes "list_all (\<lambda>c. CHR ''/'' \<notin> set c) cs" and "list_all plain out"
  shows "list_all plain (clean_walk True out cs)"
  using assms
proof (induction cs arbitrary: out)
  case (Cons c cs)
  show ?case
  proof (cases "c = [] \<or> c = ''.'' \<or> c = dotdot")
    case True
    then show ?thesis using Cons by (auto simp: plain_def dotdot_def split: list.splits)
  next
    case False
    then have "plain c" using Cons.prems(1) by (simp add: plain_def)
    then show ?thesis using False Cons by simp
  qed
qed simp

lemma clean_walk_id:
  "\<forall>c \<in> set cs. plain c \<Longrightarrow> clean_walk r out cs = rev cs @ out"
  by (induction cs arbitrary: out) (auto simp: plain_def)

lemma comps_plain: "IsAbs path \<Longrightarrow> c \<in> set (comps path) \<Longrightarrow> plain c"
  using clean_walk_plain [of "split_on (CHR ''/'') path" "[]"] split_on_no_sep [of _ "CHR ''/''" path]
  by (auto simp: comps_def list_all_iff)

lemma split_on_append: "split_on sep (a @ sep # b) = split_on sep a @ split_on sep b"
  by (induction a) (auto split: list.splits)

lemma split_on_fresh: "sep \<notin> set s \<Longrightarrow> split_on sep s = [s]"
  by (induction s) auto

lemma split_join:
  "cs \<noteq> [] \<Longrightarrow> \<forall>c \<in> set cs. sep \<notin> set c \<Longrightarrow> split_on sep (join_with [sep] cs) = cs"
  by (induction "[sep]" cs rule: join_with.induct) (simp_all add: split_on_append split_on_fresh)

text \<open>A rooted path is its components: rendering and reading are inverse.\<close>

lemma comps_render_path:
  assumes "\<forall>c \<in> set cs. plain c"
  shows "comps (render_path cs) = cs"
proof -
  have "split_on (CHR ''/'') (render_path cs) = [] # (if cs = [] then [[]] else cs)"
    using assms split_join [of cs "CHR ''/''"] by (auto simp: render_path_def plain_def)
  then show ?thesis
    using clean_walk_id [OF assms] by (auto simp: comps_def render_path_def IsAbs_def)
qed

lemma comps_Clean: "IsAbs path \<Longrightarrow> comps (filepath_Clean path) = comps path"
  by (simp add: filepath_Clean_def comps_plain comps_render_path)

lemma IsAbs_append: "IsAbs a \<Longrightarrow> IsAbs (a @ b)"
  by (cases a) (auto simp: IsAbs_def)

lemma IsAbs_Clean: "IsAbs path \<Longrightarrow> IsAbs (filepath_Clean path)"
  by (simp add: filepath_Clean_def render_path_def IsAbs_def)

lemma IsAbs_nonempty: "IsAbs path \<Longrightarrow> path \<noteq> []"
  by (auto simp: IsAbs_def)

lemma IsAbs_Join: "IsAbs a \<Longrightarrow> IsAbs (filepath_Join a b)"
  by (simp add: filepath_Join_def IsAbs_nonempty IsAbs_Clean IsAbs_append)

text \<open>Joining one plain name descends into a child.\<close>

lemma comps_Join_name:
  assumes "IsAbs a" and "plain c"
  shows "comps (filepath_Join a c) = comps a @ [c]"
proof -
  have "comps (filepath_Join a c) = comps (a @ ''/'' @ c)"
    using assms(1) by (simp add: filepath_Join_def IsAbs_nonempty comps_Clean IsAbs_append)
  also have "\<dots> = rev (clean_walk True (clean_walk True [] (split_on (CHR ''/'') a)) [c])"
    using assms by (simp add: comps_def IsAbs_append split_on_append clean_walk_append split_on_fresh plain_def)
  finally show ?thesis using assms by (simp add: comps_def plain_def)
qed

lemma abs_comps_plain:
  assumes "IsAbs cwd" and "c \<in> set (abs_comps cwd path)"
  shows "plain c"
  using assms comps_plain IsAbs_Join by (auto simp: abs_comps_def split: if_splits)

lemma has_prefix_join: "c \<noteq> [] \<Longrightarrow> has_prefix p c \<Longrightarrow> has_prefix p (join_with sep (c # cs))"
  by (cases cs) (auto simp: has_prefix_iff)

text \<open>A relative path that does not start with two dots stays below the base.\<close>

lemma rel_below:
  "\<not> has_prefix dotdot (filepath_Rel base targ) \<Longrightarrow> \<exists>rest. targ = base @ rest"
proof (induction base targ rule: rel_comps.induct)
  case (1 b bs t ts)
  then show ?case
    using has_prefix_join [of dotdot dotdot "''/''"] by (auto simp: filepath_Rel_def dotdot_def Let_def split: if_splits)
next
  case (2 ts)
  then show ?case by simp
next
  case (3 b bs)
  then show ?case
    using has_prefix_join [of dotdot dotdot "''/''"] by (auto simp: filepath_Rel_def dotdot_def Let_def split: if_splits)
qed

lemma rel_of_child: "filepath_Rel base (base @ c # cs) = join_with ''/'' (c # cs)"
proof -
  have "rel_comps base (base @ c # cs) = c # cs" by (induction base) simp_all
  then show ?thesis by (simp add: filepath_Rel_def)
qed

end
