(* ===== verification/Git_Local.thy ===== *)
theory Git_Local
  imports SCM_Memory Go_Parse Go_Paths
begin

section \<open>The local git driver (internal/scm/localgit.go)\<close>

text \<open>
  The driver runs the git binary and writes files below the root of a workspace. The machine is an
  argument: a \<open>git_host\<close> answers every call, as a function of all calls before, so it may be any git and
  any file system. The driver's state is the list of calls it has made, in order; the mutex of the
  driver makes an operation one step. When a process ends, the two contexts may have ended too. Paths are those of \<open>Go_Paths\<close>: containment is lexical, as in the code.
\<close>

record git_answer =
  ga_out :: bytes
  ga_both :: bytes
  ga_end :: run_end
  ga_ctx :: "go_error option"
  ga_runCtx :: "go_error option"

datatype os_call =
    GitCall "string list" "string list"
  | MkdirAll string
  | WriteFile string bytes
  | RemoveFile string

datatype remove_end = Removed | RemoveNotExist | RemoveError

record git_host =
  gh_cwd :: string
  gh_PATH :: string
  gh_git :: "os_call list \<Rightarrow> git_answer"
  gh_mkdir :: "os_call list \<Rightarrow> bool"
  gh_write :: "os_call list \<Rightarrow> bool"
  gh_remove :: "os_call list \<Rightarrow> remove_end"

type_synonym 'a git_op = "os_call list \<Rightarrow> os_call list \<times> 'a result"

definition gitEnv :: "git_host \<Rightarrow> string \<Rightarrow> string list" where
  "gitEnv h root =
     [''PATH='' @ gh_PATH h,
      ''GIT_CONFIG_NOSYSTEM=1'',
      ''GIT_CONFIG_GLOBAL='' @ filepath_Join root ''.gitconfig-absent'',
      ''GIT_AUTHOR_NAME=Ants Task Runner'',
      ''GIT_AUTHOR_EMAIL=ants@invalid.local'',
      ''GIT_COMMITTER_NAME=Ants Task Runner'',
      ''GIT_COMMITTER_EMAIL=ants@invalid.local'',
      ''GIT_AUTHOR_DATE=@0 +0000'',
      ''GIT_COMMITTER_DATE=@0 +0000'',
      ''LC_ALL=C'',
      ''HOME='' @ root]"

definition git_run :: "git_host \<Rightarrow> string \<Rightarrow> string list \<Rightarrow> bytes git_op" where
  "git_run h root args tr =
     (let full = [''-c'', ''commit.gpgsign=false'', ''-c'', ''core.autocrlf=false'', ''-C'', root] @ args;
          tr = tr @ [GitCall full (gitEnv h root)];
          a = gh_git h tr
      in (tr,
          case ga_ctx a of
            Some e \<Rightarrow> Inl (Error ErrKindCancelled ''scm_cancelled'' (Some e))
          | None \<Rightarrow>
             (case ga_runCtx a of
                Some e \<Rightarrow> Inl (Error ErrKindTimeout ''scm_timeout'' (Some e))
              | None \<Rightarrow>
                 (if ga_end a \<noteq> RunOK then Inl (Error ErrKindTransient ''scm_git_error'' (Some Foreign))
                  else Inr (ga_out a)))))"

definition runAllowExit :: "git_host \<Rightarrow> string \<Rightarrow> string list \<Rightarrow> (bytes \<times> int) git_op" where
  "runAllowExit h root args tr =
     (let full = [''-c'', ''commit.gpgsign=false'', ''-C'', root] @ args;
          tr = tr @ [GitCall full (gitEnv h root)];
          a = gh_git h tr
      in (tr,
          case ga_end a of
            RunOK \<Rightarrow> Inr (ga_both a, 0)
          | RunExit code \<Rightarrow> Inr (ga_both a, code)
          | RunError \<Rightarrow> Inl Foreign))"

text \<open>A step whose error the caller looks at.\<close>

definition git_try :: "'a git_op \<Rightarrow> 'a result git_op" where
  "git_try f tr = (case f tr of (tr', r) \<Rightarrow> (tr', Inr r))"

definition os_MkdirAll :: "git_host \<Rightarrow> string \<Rightarrow> bool git_op" where
  "os_MkdirAll h path tr = (let tr = tr @ [MkdirAll path] in (tr, Inr (gh_mkdir h tr)))"

definition os_WriteFile :: "git_host \<Rightarrow> string \<Rightarrow> bytes \<Rightarrow> bool git_op" where
  "os_WriteFile h path data tr = (let tr = tr @ [WriteFile path data] in (tr, Inr (gh_write h tr)))"

definition os_Remove :: "git_host \<Rightarrow> string \<Rightarrow> remove_end git_op" where
  "os_Remove h path tr = (let tr = tr @ [RemoveFile path] in (tr, Inr (gh_remove h tr)))"

text \<open>
  \<^verbatim>\<open>filepath.Abs\<close> and \<^verbatim>\<open>filepath.Rel\<close> do not fail on rooted paths; a relative result is never rooted.
\<close>

definition writeContained :: "git_host \<Rightarrow> string \<Rightarrow> string \<Rightarrow> filedata \<Rightarrow> unit git_op" where
  "writeContained h root target data =
     (let cleanRoot = abs_comps (gh_cwd h) root;
          cleanTarget = abs_comps (gh_cwd h) target;
          rel = filepath_Rel cleanRoot cleanTarget
      in if has_prefix dotdot rel \<or> IsAbs rel then throw_op (Invalidf ''scm_path_escape'')
         else seq_op (os_MkdirAll h (render_path (butlast cleanTarget))) (\<lambda>ok.
           if \<not> ok then throw_op (Internalf Foreign ''scm_write'')
           else seq_op (os_WriteFile h (render_path cleanTarget) (case data of None \<Rightarrow> [] | Some b \<Rightarrow> b)) (\<lambda>ok.
             if \<not> ok then throw_op (Internalf Foreign ''scm_write'') else return_op ())))"

definition sortedPaths :: "tree \<Rightarrow> string list" where
  "sortedPaths files = sort (map fst files)"

definition nonEmptyLines :: "string \<Rightarrow> string list" where
  "nonEmptyLines s = filter (\<lambda>l. l \<noteq> []) (map trim_space (split_on (CHR 0x0A) s))"

fun seed_files :: "git_host \<Rightarrow> string \<Rightarrow> tree \<Rightarrow> unit git_op" where
  "seed_files h root [] = return_op ()"
| "seed_files h root ((path, data) # files) =
     seq_op (writeContained h root (filepath_Join root path) data) (\<lambda>_. seed_files h root files)"

definition LocalGit_Init :: "git_host \<Rightarrow> Handle \<Rightarrow> Seed \<Rightarrow> unit git_op" where
  "LocalGit_Init h rh seed =
     (if h_Root rh = [] then throw_op (Invalidf ''scm_root_required'')
      else seq_op (os_MkdirAll h (h_Root rh)) (\<lambda>ok.
        if \<not> ok then throw_op (Internalf Foreign ''scm_root_create'')
        else seq_op (git_run h (h_Root rh) [''init'', ''--initial-branch='' @ seed_DefaultBranch seed, ''.'']) (\<lambda>_.
          seq_op (seed_files h (h_Root rh) (seed_Files seed)) (\<lambda>_.
            if seed_Files seed = [] then return_op ()
            else seq_op (git_run h (h_Root rh) ([''add'', ''--''] @ sortedPaths (seed_Files seed))) (\<lambda>_.
              seq_op (git_run h (h_Root rh) [''commit'', ''-m'', ''seed repository'']) (\<lambda>_. return_op ()))))))"

definition headLocked :: "git_host \<Rightarrow> Handle \<Rightarrow> string \<Rightarrow> string git_op" where
  "headLocked h rh branch =
     seq_op (git_try (git_run h (h_Root rh) [''rev-parse'', ''--verify'', branch @ ''^{commit}''])) (\<lambda>r.
       case r of Inl _ \<Rightarrow> throw_op (NotFoundf ''branch'') | Inr out \<Rightarrow> return_op (trim_space out))"

definition LocalGit_Head :: "git_host \<Rightarrow> Handle \<Rightarrow> string \<Rightarrow> string git_op" where
  "LocalGit_Head h rh branch = headLocked h rh branch"

definition LocalGit_CreateBranch :: "git_host \<Rightarrow> Handle \<Rightarrow> string \<Rightarrow> string \<Rightarrow> unit git_op" where
  "LocalGit_CreateBranch h rh name fromBranch =
     seq_op (git_try (git_run h (h_Root rh) [''branch'', name, fromBranch])) (\<lambda>r.
       case r of Inl _ \<Rightarrow> throw_op (Conflictf ''scm_branch_exists'') | Inr _ \<Rightarrow> return_op ())"

definition checkoutQuiet :: "git_host \<Rightarrow> string \<Rightarrow> string \<Rightarrow> unit git_op" where
  "checkoutQuiet h root branch =
     seq_op (git_run h root [''checkout'', ''--quiet'', branch]) (\<lambda>_. return_op ())"

fun apply_files :: "git_host \<Rightarrow> string \<Rightarrow> tree \<Rightarrow> unit git_op" where
  "apply_files h root [] = return_op ()"
| "apply_files h root ((path, data) # files) =
     (let target = filepath_Join root path in
      case data of
        None \<Rightarrow>
          seq_op (os_Remove h target) (\<lambda>e.
            if e = RemoveError then throw_op (Internalf Foreign ''scm_delete_file'') else apply_files h root files)
      | Some _ \<Rightarrow> seq_op (writeContained h root target data) (\<lambda>_. apply_files h root files))"

definition LocalGit_CommitFiles :: "git_host \<Rightarrow> Handle \<Rightarrow> string \<Rightarrow> string \<Rightarrow> tree \<Rightarrow> CommitResult git_op" where
  "LocalGit_CommitFiles h rh branch message files =
     (let root = h_Root rh in
      seq_op (checkoutQuiet h root branch) (\<lambda>_.
      seq_op (headLocked h rh branch) (\<lambda>baseSHA.
      seq_op (apply_files h root files) (\<lambda>_.
      seq_op (git_run h root ([''add'', ''--all'', ''--''] @ sortedPaths files)) (\<lambda>_.
      seq_op (git_run h root [''status'', ''--porcelain'']) (\<lambda>status.
        if trim_space status = [] then return_op \<lparr>cr_SHA = baseSHA, cr_Head = baseSHA\<rparr>
        else
          seq_op (git_run h root [''commit'', ''--no-verify'', ''-m'', message]) (\<lambda>_.
          seq_op (headLocked h rh branch) (\<lambda>head.
            return_op \<lparr>cr_SHA = head, cr_Head = head\<rparr>))))))))"

definition LocalGit_Merge :: "git_host \<Rightarrow> Handle \<Rightarrow> string \<Rightarrow> string \<Rightarrow> string \<Rightarrow> MergeResult git_op" where
  "LocalGit_Merge h rh targetBranch sourceBranch message =
     (let root = h_Root rh in
      seq_op (checkoutQuiet h root targetBranch) (\<lambda>_.
      seq_op (runAllowExit h root [''merge'', ''--no-ff'', ''--no-commit'', ''-m'', message, sourceBranch]) (\<lambda>(out, code).
        if code \<noteq> 0 then
          seq_op (git_try (git_run h root [''diff'', ''--name-only'', ''--diff-filter=U''])) (\<lambda>r.
            let conflicted = (case r of Inl _ \<Rightarrow> out | Inr listed \<Rightarrow> listed) in
            seq_op (git_try (git_run h root [''merge'', ''--abort''])) (\<lambda>_.
              return_op \<lparr>mg_SHA = [], mg_Conflicts = nonEmptyLines conflicted\<rparr>))
        else
          seq_op (git_run h root [''commit'', ''--no-verify'', ''-m'', message]) (\<lambda>_.
          seq_op (headLocked h rh targetBranch) (\<lambda>head.
            return_op \<lparr>mg_SHA = head, mg_Conflicts = []\<rparr>)))))"

definition LocalGit_Diff :: "git_host \<Rightarrow> Handle \<Rightarrow> string \<Rightarrow> string \<Rightarrow> bytes git_op" where
  "LocalGit_Diff h rh baseSHA headSHA = git_run h (h_Root rh) [''diff'', baseSHA, headSHA]"

fun show_files :: "git_host \<Rightarrow> string \<Rightarrow> string \<Rightarrow> string list \<Rightarrow> (string, bytes) gomap \<Rightarrow> (string, bytes) gomap git_op" where
  "show_files h root branch [] files = return_op files"
| "show_files h root branch (path # paths) files =
     seq_op (git_run h root [''show'', branch @ '':'' @ path]) (\<lambda>blob.
       show_files h root branch paths (insert_map path blob files))"

definition LocalGit_Files :: "git_host \<Rightarrow> Handle \<Rightarrow> string \<Rightarrow> (string, bytes) gomap git_op" where
  "LocalGit_Files h rh branch =
     seq_op (git_try (git_run h (h_Root rh) [''ls-tree'', ''-r'', ''--name-only'', ''--full-tree'', branch])) (\<lambda>r.
       case r of Inl _ \<Rightarrow> throw_op (NotFoundf ''branch'')
       | Inr out \<Rightarrow> show_files h (h_Root rh) branch (nonEmptyLines out) [])"

subsection \<open>What the driver does to the machine\<close>

datatype git_req =
    ReqInit Seed
  | ReqHead string
  | ReqCreateBranch string string
  | ReqCommitFiles string string tree
  | ReqMerge string string string
  | ReqDiff string string
  | ReqFiles string

definition void :: "'a git_op \<Rightarrow> unit git_op" where
  "void f = seq_op f (\<lambda>_. return_op ())"

fun git_serve :: "git_host \<Rightarrow> Handle \<Rightarrow> git_req \<Rightarrow> unit git_op" where
  "git_serve h rh (ReqInit seed) = LocalGit_Init h rh seed"
| "git_serve h rh (ReqHead branch) = void (LocalGit_Head h rh branch)"
| "git_serve h rh (ReqCreateBranch name from) = LocalGit_CreateBranch h rh name from"
| "git_serve h rh (ReqCommitFiles branch message files) = void (LocalGit_CommitFiles h rh branch message files)"
| "git_serve h rh (ReqMerge target source message) = void (LocalGit_Merge h rh target source message)"
| "git_serve h rh (ReqDiff base head) = void (LocalGit_Diff h rh base head)"
| "git_serve h rh (ReqFiles branch) = void (LocalGit_Files h rh branch)"

text \<open>The paths a request writes and the paths it deletes, resolved at the root.\<close>

fun git_writes :: "git_req \<Rightarrow> string list" where
  "git_writes (ReqInit seed) = map fst (seed_Files seed)"
| "git_writes (ReqCommitFiles branch message files) = map fst (filter (\<lambda>(p, c). c \<noteq> None) files)"
| "git_writes _ = []"

fun deletions :: "git_req \<Rightarrow> string list" where
  "deletions (ReqCommitFiles branch message files) = map fst (filter (\<lambda>(p, c). c = None) files)"
| "deletions _ = []"

definition resolved :: "git_host \<Rightarrow> string \<Rightarrow> string \<Rightarrow> string list" where
  "resolved h root path = abs_comps (gh_cwd h) (filepath_Join root path)"

definition local_subcommands :: "string list" where
  "local_subcommands =
     [''init'', ''add'', ''commit'', ''rev-parse'', ''branch'', ''checkout'', ''status'', ''merge'', ''diff'', ''show'', ''ls-tree'']"

text \<open>The directory and the subcommand of a git command line, after its configuration flags.\<close>

fun git_sub :: "string list \<Rightarrow> (string \<times> string) option" where
  "git_sub (flag # val # rest) =
     (if flag = ''-c'' then git_sub rest
      else if flag = ''-C'' \<and> rest \<noteq> [] then Some (val, hd rest)
      else None)"
| "git_sub _ = None"

text \<open>A call inside the workspace: files are written and removed below the root, directories made at or below it.\<close>

fun call_ok :: "git_host \<Rightarrow> string \<Rightarrow> os_call \<Rightarrow> bool" where
  "call_ok h root (GitCall argv env) =
     (env = gitEnv h root \<and>
      (case git_sub argv of Some (dir, sub) \<Rightarrow> dir = root \<and> sub \<in> set local_subcommands | None \<Rightarrow> False))"
| "call_ok h root (WriteFile path data) = strict_prefix (abs_comps (gh_cwd h) root) (abs_comps (gh_cwd h) path)"
| "call_ok h root (MkdirAll path) = prefix (abs_comps (gh_cwd h) root) (abs_comps (gh_cwd h) path)"
| "call_ok h root (RemoveFile path) = strict_prefix (abs_comps (gh_cwd h) root) (abs_comps (gh_cwd h) path)"

definition git_calls_ok :: "git_host \<Rightarrow> string \<Rightarrow> os_call list \<Rightarrow> os_call list \<Rightarrow> bool" where
  "git_calls_ok h root tr tr' \<longleftrightarrow> (\<exists>new. tr' = tr @ new \<and> list_all (call_ok h root) new)"

named_theorems git_frames \<open>operations whose calls are all allowed\<close>

lemma transp_git_calls_ok: "transp (git_calls_ok h root)"
  by (rule transpI) (auto simp: git_calls_ok_def)

lemma calls_seq [git_frames]:
  "op_rel (git_calls_ok h root) m \<Longrightarrow> (\<And>x. op_rel (git_calls_ok h root) (f x)) \<Longrightarrow> op_rel (git_calls_ok h root) (seq_op m f)"
  by (rule op_rel_seq [OF transp_git_calls_ok])

lemma calls_simple [git_frames]:
  "op_rel (git_calls_ok h root) (return_op x)" "op_rel (git_calls_ok h root) (throw_op e)"
  by (simp_all add: op_rel_def git_calls_ok_def return_op_def throw_op_def)

lemma calls_try [git_frames]: "op_rel (git_calls_ok h root) f \<Longrightarrow> op_rel (git_calls_ok h root) (git_try f)"
  by (simp add: op_rel_def git_try_def split_beta)

lemma calls_run [git_frames]:
  "sub \<in> set local_subcommands \<Longrightarrow> op_rel (git_calls_ok h root) (git_run h root (sub # args))"
  "sub \<in> set local_subcommands \<Longrightarrow> op_rel (git_calls_ok h root) (runAllowExit h root (sub # args))"
  by (simp_all add: op_rel_def git_calls_ok_def git_run_def runAllowExit_def Let_def)

lemma calls_mkdir_root [git_frames]: "op_rel (git_calls_ok h root) (os_MkdirAll h root)"
  by (simp add: op_rel_def git_calls_ok_def os_MkdirAll_def Let_def)

lemma calls_remove:
  "strict_prefix (abs_comps (gh_cwd h) root) (resolved h root path) \<Longrightarrow> op_rel (git_calls_ok h root) (os_Remove h (filepath_Join root path))"
  by (simp add: op_rel_def git_calls_ok_def os_Remove_def Let_def resolved_def)

lemma abs_comps_render: "\<forall>c \<in> set cs. plain c \<Longrightarrow> abs_comps cwd (render_path cs) = cs"
  by (simp add: abs_comps_def comps_render_path) (simp add: render_path_def IsAbs_def)

text \<open>The containment check: what it lets through is below the root.\<close>

lemma calls_writeContained:
  assumes "IsAbs (gh_cwd h)" and "abs_comps (gh_cwd h) target \<noteq> abs_comps (gh_cwd h) root"
  shows "op_rel (git_calls_ok h root) (writeContained h root target data)"
proof (cases "has_prefix dotdot (filepath_Rel (abs_comps (gh_cwd h) root) (abs_comps (gh_cwd h) target))")
  case True
  then show ?thesis by (simp add: writeContained_def Let_def calls_simple)
next
  case False
  then obtain rest where below: "abs_comps (gh_cwd h) target = abs_comps (gh_cwd h) root @ rest"
    using rel_below by blast
  have rest: "rest \<noteq> []" using below assms(2) by auto
  have plain: "\<forall>c \<in> set (abs_comps (gh_cwd h) root @ rest). plain c"
    using abs_comps_plain [OF assms(1), of _ target] by (auto simp: below)
  then have "\<forall>c \<in> set (abs_comps (gh_cwd h) root @ butlast rest). plain c" by (auto dest: in_set_butlastD)
  then have 1: "op_rel (git_calls_ok h root) (os_MkdirAll h (render_path (butlast (abs_comps (gh_cwd h) target))))"
    using rest by (simp add: op_rel_def git_calls_ok_def os_MkdirAll_def Let_def below abs_comps_render butlast_append)
  have 2: "op_rel (git_calls_ok h root) (os_WriteFile h (render_path (abs_comps (gh_cwd h) target)) c)" for c
    using plain rest
    by (simp add: op_rel_def git_calls_ok_def os_WriteFile_def Let_def below abs_comps_render strict_prefix_def)
  show ?thesis unfolding writeContained_def Let_def by (auto intro!: 1 2 git_frames)
qed

lemma writeContained_Inr:
  "writeContained h root target data tr = (tr', Inr u) \<Longrightarrow> prefix (abs_comps (gh_cwd h) root) (abs_comps (gh_cwd h) target)"
  using rel_below [of "abs_comps (gh_cwd h) root" "abs_comps (gh_cwd h) target"]
  by (auto simp: writeContained_def Let_def throw_op_def split: if_splits)

lemma calls_seed_files:
  "IsAbs (gh_cwd h) \<Longrightarrow> \<forall>p \<in> set (map fst files). resolved h root p \<noteq> abs_comps (gh_cwd h) root
    \<Longrightarrow> op_rel (git_calls_ok h root) (seed_files h root files)"
  by (induction files) (auto simp: resolved_def intro!: git_frames calls_writeContained)

lemma seed_files_Inr:
  "seed_files h root files tr = (tr', Inr u) \<Longrightarrow> (p, d) \<in> set files \<Longrightarrow> prefix (abs_comps (gh_cwd h) root) (resolved h root p)"
  by (induction h root files arbitrary: tr rule: seed_files.induct)
    (auto simp: resolved_def elim!: seq_op_Inr dest: writeContained_Inr)

lemma calls_apply_files:
  "IsAbs (gh_cwd h)
    \<Longrightarrow> \<forall>p \<in> set (map fst (filter (\<lambda>(p, c). c \<noteq> None) files)). resolved h root p \<noteq> abs_comps (gh_cwd h) root
    \<Longrightarrow> \<forall>p \<in> set (map fst (filter (\<lambda>(p, c). c = None) files)). strict_prefix (abs_comps (gh_cwd h) root) (resolved h root p)
    \<Longrightarrow> op_rel (git_calls_ok h root) (apply_files h root files)"
proof (induction files)
  case (Cons f files)
  obtain p c where f: "f = (p, c)" by (cases f)
  have IH: "op_rel (git_calls_ok h root) (apply_files h root files)" using Cons by (auto split: if_splits)
  show ?case
  proof (cases c)
    case None
    then have "strict_prefix (abs_comps (gh_cwd h) root) (resolved h root p)" using Cons.prems f by simp
    then show ?thesis using IH by (auto simp: f None Let_def intro!: git_frames calls_remove)
  next
    case (Some d)
    then have "abs_comps (gh_cwd h) (filepath_Join root p) \<noteq> abs_comps (gh_cwd h) root"
      using Cons.prems f by (simp add: resolved_def)
    then show ?thesis using IH Cons.prems(1) by (auto simp: f Some Let_def intro!: git_frames calls_writeContained)
  qed
qed (simp add: calls_simple)

lemma apply_files_Inr:
  assumes "apply_files h root files tr = (tr', Inr u)" and "(p, Some d) \<in> set files"
  shows "prefix (abs_comps (gh_cwd h) root) (resolved h root p)"
  using assms
proof (induction files arbitrary: tr)
  case (Cons f files)
  obtain q c where f: "f = (q, c)" by (cases f)
  show ?case
  proof (cases c)
    case None
    then obtain tr1 where "apply_files h root files tr1 = (tr', Inr u)"
      using Cons.prems(1) by (auto simp: f Let_def throw_op_def elim!: seq_op_Inr split: if_splits)
    then show ?thesis using Cons.IH Cons.prems(2) None f by auto
  next
    case (Some c')
    then obtain tr1 where "writeContained h root (filepath_Join root q) c tr = (tr1, Inr ())" "apply_files h root files tr1 = (tr', Inr u)"
      using Cons.prems(1) by (auto simp: f Let_def elim!: seq_op_Inr)
    then show ?thesis using Cons.IH Cons.prems(2) f by (auto simp: resolved_def dest: writeContained_Inr)
  qed
qed simp

lemma calls_show_files [git_frames]: "op_rel (git_calls_ok h root) (show_files h root branch paths files)"
  by (induction paths arbitrary: files) (auto simp: local_subcommands_def intro!: git_frames)

lemma calls_head [git_frames]: "h_Root rh = root \<Longrightarrow> op_rel (git_calls_ok h root) (headLocked h rh branch)"
  by (auto simp: headLocked_def local_subcommands_def intro!: git_frames split: sum.splits)

lemma calls_checkout [git_frames]: "op_rel (git_calls_ok h root) (checkoutQuiet h root branch)"
  by (auto simp: checkoutQuiet_def local_subcommands_def intro!: git_frames)

lemma calls_serve:
  assumes "IsAbs (gh_cwd h)" and "\<forall>p \<in> set (git_writes req). resolved h (h_Root rh) p \<noteq> abs_comps (gh_cwd h) (h_Root rh)"
    and "\<forall>p \<in> set (deletions req). strict_prefix (abs_comps (gh_cwd h) (h_Root rh)) (resolved h (h_Root rh) p)"
  shows "op_rel (git_calls_ok h (h_Root rh)) (git_serve h rh req)"
proof (cases req)
  case (ReqCommitFiles branch message files)
  have "op_rel (git_calls_ok h (h_Root rh)) (apply_files h (h_Root rh) files)"
    using assms unfolding ReqCommitFiles by (intro calls_apply_files) simp_all
  then show ?thesis
    unfolding ReqCommitFiles git_serve.simps void_def LocalGit_CommitFiles_def Let_def
    by (auto simp: local_subcommands_def intro!: git_frames)
next
  case (ReqInit seed)
  have "op_rel (git_calls_ok h (h_Root rh)) (seed_files h (h_Root rh) (seed_Files seed))"
    using assms unfolding ReqInit by (intro calls_seed_files) simp_all
  then show ?thesis by (auto simp: ReqInit LocalGit_Init_def Let_def local_subcommands_def intro!: git_frames)
qed (auto simp: void_def LocalGit_Head_def LocalGit_CreateBranch_def LocalGit_Merge_def LocalGit_Diff_def
    LocalGit_Files_def Let_def local_subcommands_def intro!: git_frames split: sum.splits)

lemma serve_Inr:
  assumes "git_serve h rh req tr = (tr', Inr u)" and "p \<in> set (git_writes req)"
  shows "prefix (abs_comps (gh_cwd h) (h_Root rh)) (resolved h (h_Root rh) p)"
proof (cases req)
  case (ReqCommitFiles branch message files)
  then show ?thesis
    using assms by (auto simp: void_def LocalGit_CommitFiles_def Let_def elim!: seq_op_Inr intro: apply_files_Inr)
next
  case (ReqInit seed)
  then show ?thesis
    using assms by (auto simp: LocalGit_Init_def throw_op_def elim!: seq_op_Inr intro: seed_files_Inr split: if_splits)
qed (use assms in auto)

text \<open>
  C31: the writes of the local git driver stay in its workspace. Whatever git, the file system and the
  caller do, each call an operation makes is one of these. It runs git in the workspace root, with the
  isolated environment, on one of the eleven subcommands of the driver (no clone, fetch, pull, push or
  remote is among them). It writes a file below the root, whatever path the caller gave, or makes a
  directory at or below the root. Or it removes a file below the root. A request that asks to write
  outside the root fails. Two conditions are the caller's: a file to write is not the root directory
  itself, for which the driver would first make the root's parent; and a path to delete lies below the
  root, since the driver does not check deletions. Containment is of path names: what links in the
  workspace lead to, and what git does in a subcommand, is not in the statement.
\<close>

theorem local_git_contained:
  assumes "IsAbs (gh_cwd h)" and "git_serve h rh req tr = (tr', r)"
    and "\<forall>p \<in> set (git_writes req). resolved h (h_Root rh) p \<noteq> abs_comps (gh_cwd h) (h_Root rh)"
    and "\<forall>p \<in> set (deletions req). strict_prefix (abs_comps (gh_cwd h) (h_Root rh)) (resolved h (h_Root rh) p)"
  shows "(\<exists>new. tr' = tr @ new \<and> list_all (call_ok h (h_Root rh)) new)
    \<and> ((\<exists>p \<in> set (git_writes req). \<not> prefix (abs_comps (gh_cwd h) (h_Root rh)) (resolved h (h_Root rh) p)) \<longrightarrow> isl r)"
proof
  show "\<exists>new. tr' = tr @ new \<and> list_all (call_ok h (h_Root rh)) new"
    using calls_serve [OF assms(1,3,4)] assms(2) by (auto simp: op_rel_def git_calls_ok_def) (metis fst_conv)
  show "(\<exists>p \<in> set (git_writes req). \<not> prefix (abs_comps (gh_cwd h) (h_Root rh)) (resolved h (h_Root rh) p)) \<longrightarrow> isl r"
    using serve_Inr [of h rh req tr tr'] assms(2) by (cases r) auto
qed

definition ex_host :: git_host where
  "ex_host = \<lparr>gh_cwd = ''/srv'', gh_PATH = ''/bin'',
     gh_git = (\<lambda>_. \<lparr>ga_out = [], ga_both = [], ga_end = RunOK, ga_ctx = None, ga_runCtx = None\<rparr>),
     gh_mkdir = (\<lambda>_. True), gh_write = (\<lambda>_. True), gh_remove = (\<lambda>_. Removed)\<rparr>"

definition ex_git_handle :: Handle where
  "ex_git_handle = \<lparr>h_Driver = ''local_git'', h_SandboxID = ''s'', h_Root = ''/w/s'', h_DefaultBranch = ''main''\<rparr>"

theorem local_git_contained_witness:
  "\<exists>tr'. git_serve ex_host ex_git_handle
        (ReqCommitFiles ''b'' ''m'' [(''a/../c'', Some ''x''), (''old'', None), (''../../etc/x'', Some ''y'')]) []
        = (tr', Inl (Invalidf ''scm_path_escape''))
     \<and> WriteFile ''/w/s/c'' ''x'' \<in> set tr' \<and> RemoveFile ''/w/s/old'' \<in> set tr' \<and> length tr' = 5
     \<and> list_all (call_ok ex_host ''/w/s'') tr'"
proof -
  let ?req = "ReqCommitFiles ''b'' ''m'' [(''a/../c'', Some ''x''), (''old'', None), (''../../etc/x'', Some ''y'')]"
  note paths = abs_comps_def comps_def render_path_def filepath_Join_def filepath_Clean_def filepath_Rel_def IsAbs_def dotdot_def
  obtain tr' where run: "git_serve ex_host ex_git_handle ?req [] = (tr', Inl (Invalidf ''scm_path_escape''))"
      "WriteFile ''/w/s/c'' ''x'' \<in> set tr'" "RemoveFile ''/w/s/old'' \<in> set tr'" "length tr' = 5"
    by (simp add: void_def LocalGit_CommitFiles_def Let_def seq_op_def checkoutQuiet_def headLocked_def git_try_def git_run_def
        return_op_def throw_op_def ex_host_def ex_git_handle_def writeContained_def os_MkdirAll_def os_WriteFile_def os_Remove_def paths)
  have "\<forall>p \<in> set (git_writes ?req). resolved ex_host (h_Root ex_git_handle) p \<noteq> abs_comps (gh_cwd ex_host) (h_Root ex_git_handle)"
    "\<forall>p \<in> set (deletions ?req). strict_prefix (abs_comps (gh_cwd ex_host) (h_Root ex_git_handle)) (resolved ex_host (h_Root ex_git_handle) p)"
    by (simp_all add: resolved_def ex_host_def ex_git_handle_def paths)
  moreover have "IsAbs (gh_cwd ex_host)" by (simp add: ex_host_def IsAbs_def)
  ultimately have "\<exists>new. tr' = [] @ new \<and> list_all (call_ok ex_host (h_Root ex_git_handle)) new"
    using local_git_contained [OF _ run(1)] by blast
  with run show ?thesis by (auto simp: ex_git_handle_def)
qed

text \<open>
  The containment check is not made for a deletion: a path with dots removes a file outside the
  workspace.
\<close>

lemma deletion_escapes:
  "\<exists>tr' res. LocalGit_CommitFiles ex_host ex_git_handle ''b'' ''m'' [(''../../etc/x'', None)] [] = (tr', Inr res)
     \<and> RemoveFile ''/etc/x'' \<in> set tr'"
  by (simp add: LocalGit_CommitFiles_def Let_def seq_op_def checkoutQuiet_def headLocked_def git_try_def git_run_def
      return_op_def throw_op_def ex_host_def ex_git_handle_def os_Remove_def
      comps_def render_path_def filepath_Join_def filepath_Clean_def IsAbs_def dotdot_def trim_space_def)

subsection \<open>Merging\<close>

abbreviation git_call :: "git_host \<Rightarrow> string \<Rightarrow> string list \<Rightarrow> os_call" where
  "git_call h root args \<equiv> GitCall ([''-c'', ''commit.gpgsign=false'', ''-c'', ''core.autocrlf=false'', ''-C'', root] @ args) (gitEnv h root)"

lemma git_run_Inr:
  "git_run h root args tr = (tr', Inr x) \<Longrightarrow> tr' = tr @ [git_call h root args]"
  by (auto simp: git_run_def Let_def split: option.splits if_splits)

text \<open>
  A merge that returns either committed, and names the head it then read, or has told git to abort and
  names no commit.
\<close>

lemma merge_commits_or_aborts:
  assumes "LocalGit_Merge h rh target source message tr = (tr', Inr res)"
  shows "(\<exists>pre. tr' = pre @ [git_call h (h_Root rh) [''commit'', ''--no-verify'', ''-m'', message],
            git_call h (h_Root rh) [''rev-parse'', ''--verify'', target @ ''^{commit}'']] \<and> mg_Conflicts res = [])
       \<or> (\<exists>pre. tr' = pre @ [git_call h (h_Root rh) [''diff'', ''--name-only'', ''--diff-filter=U''],
            git_call h (h_Root rh) [''merge'', ''--abort'']] \<and> mg_SHA res = [])"
  using assms unfolding LocalGit_Merge_def Let_def
  by (elim seq_op_Inr)
    (auto simp: git_try_def headLocked_def git_run_def Let_def return_op_def throw_op_def seq_op_def
      split: prod.splits if_splits sum.splits option.splits)

text \<open>
  A merge that failed for another reason than a conflict (git killed at its timeout, an unknown source
  branch) leaves no unmerged path, and is answered like a clean merge: no error and no conflict, only
  the commit is missing.
\<close>

lemma failed_merge_looks_clean:
  assumes "git_run h (h_Root rh) [''checkout'', ''--quiet'', target] tr = (tr1, Inr out1)"
    and "runAllowExit h (h_Root rh) [''merge'', ''--no-ff'', ''--no-commit'', ''-m'', message, source] tr1 = (tr2, Inr (out2, code))"
    and "code \<noteq> 0"
    and "git_run h (h_Root rh) [''diff'', ''--name-only'', ''--diff-filter=U''] tr2 = (tr3, Inr [])"
  shows "\<exists>tr'. LocalGit_Merge h rh target source message tr = (tr', Inr \<lparr>mg_SHA = [], mg_Conflicts = []\<rparr>)"
proof -
  have "nonEmptyLines [] = []" by (simp add: nonEmptyLines_def trim_space_def)
  then show ?thesis
    using assms by (simp add: LocalGit_Merge_def Let_def seq_op_def checkoutQuiet_def git_try_def return_op_def split: prod.splits)
qed

end
