(* ===== verification/Sandbox_Drivers.thy ===== *)
theory Sandbox_Drivers
  imports Pipeline_State Domain_Ids Go_Paths Go_Parse
begin

section \<open>The sandbox drivers (internal/sandbox)\<close>

text \<open>
  The fake driver records its calls and answers from a script. The process driver runs allow-listed
  commands in one directory per sandbox below a work root. As in \<open>Git_Local\<close> the machine is an argument
  that answers every call as a function of the calls before: which directories can be made, what a
  process writes and how it ends, whether a context has ended. The process driver's state is its map
  of sandboxes and the list of calls it has made. An execution returns a result together with an
  error, as the code does.
\<close>

subsection \<open>The seam (sandbox.go)\<close>

datatype SandboxCapability = CapRootedFilesystem | CapProcessExec

record Capabilities =
  cap_Isolation :: string
  cap_Network :: bool
  cap_Capabilities :: "SandboxCapability list"

fun caps_has :: "SandboxCapability list \<Rightarrow> SandboxCapability \<Rightarrow> bool" where
  "caps_has [] c = False"
| "caps_has (existing # cs) c = (if existing = c then True else caps_has cs c)"

definition Capabilities_Has :: "Capabilities \<Rightarrow> SandboxCapability \<Rightarrow> bool" where
  "Capabilities_Has caps c = caps_has (cap_Capabilities caps) c"

record CreateRequest =
  cq_TenantID :: string
  cq_RunID :: string
  cq_TaskID :: string
  cq_Principal :: string

record ExecRequest =
  xq_Command :: "string list"
  xq_Timeout :: Duration

definition no_result :: ExecResult where
  "no_result = \<lparr>er_ExitCode = 0, er_Stdout = [], er_Stderr = [], er_Duration = 0\<rparr>"

definition MaxExecOutputBytes :: nat where "MaxExecOutputBytes = 2 ^ 20"

subsection \<open>The fake driver (fake.go)\<close>

record FakeExecCall =
  fx_Sandbox :: string
  fx_Command :: "string list"

record FakeDriver =
  fd_scripts :: "(string, ExecResult) gomap"
  fd_created :: "CreateRequest list"
  fd_execCalls :: "FakeExecCall list"
  fd_destroyed :: "string list"
  fd_nextID :: nat

definition NewFakeDriver :: FakeDriver where
  "NewFakeDriver = \<lparr>fd_scripts = [], fd_created = [], fd_execCalls = [], fd_destroyed = [], fd_nextID = 0\<rparr>"

definition Fake_Script :: "string \<Rightarrow> ExecResult \<Rightarrow> FakeDriver \<Rightarrow> FakeDriver" where
  "Fake_Script commandKey res f = f\<lparr>fd_scripts := insert_map commandKey res (fd_scripts f)\<rparr>"

definition Fake_Capabilities :: Capabilities where
  "Fake_Capabilities = \<lparr>cap_Isolation = ''in-memory-recording'', cap_Network = False,
     cap_Capabilities = [CapRootedFilesystem, CapProcessExec]\<rparr>"

definition padded :: "nat \<Rightarrow> nat \<Rightarrow> string" where
  "padded width n = replicate (width - length (itoa n)) (CHR ''0'') @ itoa n"

definition Fake_Create :: "CreateRequest \<Rightarrow> FakeDriver \<Rightarrow> FakeDriver \<times> string result" where
  "Fake_Create req f =
     (let n = fd_nextID f + 1
      in (f\<lparr>fd_nextID := n, fd_created := fd_created f @ [req]\<rparr>, Inr (''sbx_fakesandbox'' @ padded 16 n)))"

definition JoinCommand :: "string list \<Rightarrow> string" where
  "JoinCommand cmd = join_with '' '' cmd"

definition Fake_Exec :: "string \<Rightarrow> ExecRequest \<Rightarrow> FakeDriver \<Rightarrow> FakeDriver \<times> ExecResult result" where
  "Fake_Exec ident req f =
     (let f = f\<lparr>fd_execCalls := fd_execCalls f @ [\<lparr>fx_Sandbox = ident, fx_Command = xq_Command req\<rparr>]\<rparr>
      in (f, case lookup (fd_scripts f) (JoinCommand (xq_Command req)) of
               None \<Rightarrow> Inl (Error ErrKindInvalid ''sandbox_unscripted_command'' None)
             | Some res \<Rightarrow> Inr res))"

definition Fake_Destroy :: "string \<Rightarrow> FakeDriver \<Rightarrow> FakeDriver \<times> unit result" where
  "Fake_Destroy ident f = (f\<lparr>fd_destroyed := fd_destroyed f @ [ident]\<rparr>, Inr ())"

definition Fake_CreatedCount :: "FakeDriver \<Rightarrow> nat" where
  "Fake_CreatedCount f = length (fd_created f)"

definition Fake_ExecCalls :: "FakeDriver \<Rightarrow> FakeExecCall list" where
  "Fake_ExecCalls f = fd_execCalls f"

subsection \<open>Captured output (process.go)\<close>

record cappedWriter =
  cw_sb :: bytes
  cw_max :: nat
  cw_written :: nat

definition cappedWriter_Write :: "bytes \<Rightarrow> cappedWriter \<Rightarrow> cappedWriter" where
  "cappedWriter_Write p w =
     (let w = (if cw_written w < cw_max w
               then (let remaining = cw_max w - cw_written w;
                         chunk = (if length p > remaining then take remaining p else p)
                     in w\<lparr>cw_sb := cw_sb w @ chunk\<rparr>)
               else w)
      in w\<lparr>cw_written := cw_written w + length p\<rparr>)"

definition capture :: "bytes list \<Rightarrow> bytes" where
  "capture chunks = cw_sb (fold cappedWriter_Write chunks \<lparr>cw_sb = [], cw_max = MaxExecOutputBytes, cw_written = 0\<rparr>)"

subsection \<open>The process driver (process.go)\<close>

record proc_start =
  ps_argv :: "string list"
  ps_dir :: string
  ps_env :: "string list"

datatype box_call = BoxMkdir string | BoxStart proc_start | BoxRemoveAll string

record proc_answer =
  pa_stdout :: "bytes list"
  pa_stderr :: "bytes list"
  pa_end :: run_end
  pa_ctx :: "go_error option"
  pa_runCtx :: "go_error option"
  pa_duration :: Duration

record box_host =
  bh_PATH :: string
  bh_mkdir :: "box_call list \<Rightarrow> bool"
  bh_run :: "box_call list \<Rightarrow> proc_answer"
  bh_removeAll :: "box_call list \<Rightarrow> bool"

record ProcessDriver =
  pv_workRoot :: string
  pv_sandboxes :: "(string, string) gomap"
  pv_calls :: "box_call list"

definition process_driver :: "string \<Rightarrow> ProcessDriver" where
  "process_driver workRoot = \<lparr>pv_workRoot = workRoot, pv_sandboxes = [], pv_calls = []\<rparr>"

definition allowedCommands :: "string list" where
  "allowedCommands =
     [''sh'', ''bash'', ''git'', ''cat'', ''ls'', ''mkdir'', ''cp'', ''mv'', ''rm'', ''touch'', ''grep'', ''sed'', ''diff'',
      ''wc'', ''head'', ''tail'', ''sort'', ''uniq'', ''test'', ''true'', ''false'', ''echo'', ''pwd'']"

definition Process_Capabilities :: Capabilities where
  "Process_Capabilities = \<lparr>cap_Isolation = ''process-rooted-directory'', cap_Network = False,
     cap_Capabilities = [CapRootedFilesystem, CapProcessExec]\<rparr>"

definition box_not_found :: go_error where
  "box_not_found = NotFoundf ''sandbox''"

definition rootFor :: "ProcessDriver \<Rightarrow> string \<Rightarrow> string" where
  "rootFor d ident = filepath_Join (pv_workRoot d) ident"

definition note_call :: "box_call \<Rightarrow> ProcessDriver \<Rightarrow> ProcessDriver" where
  "note_call c d = d\<lparr>pv_calls := pv_calls d @ [c]\<rparr>"

definition Process_Create :: "box_host \<Rightarrow> entropy \<Rightarrow> CreateRequest \<Rightarrow> ProcessDriver \<Rightarrow> ProcessDriver \<times> string result" where
  "Process_Create h rnd req d =
     (case NewID PrefixSandbox rnd of
        Inl e \<Rightarrow> (d, Inl (Wrapped e))
      | Inr ident \<Rightarrow>
          (let root = rootFor d ident; d = note_call (BoxMkdir root) d
           in if \<not> bh_mkdir h (pv_calls d) then (d, Inl (Wrapped Foreign))
              else (d\<lparr>pv_sandboxes := insert_map ident root (pv_sandboxes d)\<rparr>, Inr ident)))"

definition Process_Root :: "string \<Rightarrow> ProcessDriver \<Rightarrow> string result" where
  "Process_Root ident d =
     (if \<not> Capabilities_Has Process_Capabilities CapRootedFilesystem then Inl (NewError ErrKindInvalid ''sandbox_no_root'')
      else (case lookup (pv_sandboxes d) ident of None \<Rightarrow> Inl box_not_found | Some root \<Rightarrow> Inr root))"

definition exec_env :: "box_host \<Rightarrow> string \<Rightarrow> string list" where
  "exec_env h root =
     [''PATH='' @ bh_PATH h, ''HOME='' @ root, ''TMPDIR='' @ filepath_Join root ''.tmp'', ''LC_ALL=C'', ''LANG=C'']"

definition exec_outcome :: "ExecResult \<Rightarrow> proc_answer \<Rightarrow> ExecResult \<times> go_error option" where
  "exec_outcome res a =
     (case (pa_ctx a, pa_runCtx a) of
        (None, Some e) \<Rightarrow> (res, Some (Error ErrKindTimeout ''sandbox_exec_timeout'' (Some e)))
      | (Some e, _) \<Rightarrow> (res, Some (Error ErrKindCancelled ''sandbox_exec_cancelled'' (Some e)))
      | (None, None) \<Rightarrow>
          (case pa_end a of
             RunOK \<Rightarrow> (res\<lparr>er_ExitCode := 0\<rparr>, None)
           | RunExit code \<Rightarrow> (res\<lparr>er_ExitCode := code\<rparr>, None)
           | RunError \<Rightarrow> (res, Some (Internalf Foreign ''sandbox_exec_failed''))))"

definition Process_Exec ::
  "box_host \<Rightarrow> string \<Rightarrow> ExecRequest \<Rightarrow> ProcessDriver \<Rightarrow> ProcessDriver \<times> (ExecResult \<times> go_error option)" where
  "Process_Exec h ident req d =
     (case lookup (pv_sandboxes d) ident of
        None \<Rightarrow> (d, no_result, Some box_not_found)
      | Some root \<Rightarrow>
         (case xq_Command req of
            [] \<Rightarrow> (d, no_result, Some (Invalidf ''sandbox_exec_command''))
          | bin # args \<Rightarrow>
             (if CHR ''/'' \<in> set bin then (d, no_result, Some (Error ErrKindPolicyDenied ''sandbox_command_not_allowed'' None))
              else if bin \<notin> set allowedCommands then (d, no_result, Some (Error ErrKindPolicyDenied ''sandbox_command_not_allowed'' None))
              else if xq_Timeout req \<le> 0 then (d, no_result, Some (Invalidf ''sandbox_exec_timeout''))
              else
               (let d = note_call (BoxMkdir (filepath_Join root ''.tmp'')) d;
                    d = note_call (BoxStart \<lparr>ps_argv = bin # args, ps_dir = root, ps_env = exec_env h root\<rparr>) d;
                    a = bh_run h (pv_calls d)
                in (d, exec_outcome
                         \<lparr>er_ExitCode = 0, er_Stdout = capture (pa_stdout a), er_Stderr = capture (pa_stderr a),
                          er_Duration = pa_duration a\<rparr> a)))))"

definition Process_Destroy :: "box_host \<Rightarrow> string \<Rightarrow> ProcessDriver \<Rightarrow> ProcessDriver \<times> unit result" where
  "Process_Destroy h ident d =
     (case lookup (pv_sandboxes d) ident of
        None \<Rightarrow> (d, Inl box_not_found)
      | Some root \<Rightarrow>
          (let d = note_call (BoxRemoveAll root) (d\<lparr>pv_sandboxes := delete_map ident (pv_sandboxes d)\<rparr>)
           in (d, if \<not> bh_removeAll h (pv_calls d) then Inl (Internalf Foreign ''sandbox_destroy_failed'') else Inr ())))"

subsection \<open>Laws of the fake driver and of captured output\<close>

lemma fake_answers_script:
  "snd (Fake_Exec ident req (Fake_Script (JoinCommand (xq_Command req)) res f)) = Inr res"
  "JoinCommand (xq_Command req) \<noteq> key \<Longrightarrow>
     snd (Fake_Exec ident req (Fake_Script key res f)) = snd (Fake_Exec ident req f)"
  by (simp_all add: Fake_Exec_def Fake_Script_def Let_def)

lemma itoa_inj: "itoa m = itoa n \<Longrightarrow> m = n"
  by (metis decimal_itoa)

lemma decimal_zeros: "decimal (replicate k (CHR ''0'') @ s) = decimal s"
proof -
  have "foldl (\<lambda>n c. 10 * n + (of_char c - 48)) 0 (replicate k (CHR ''0'')) = (0 :: nat)" by (induction k) simp_all
  then show ?thesis by (simp add: decimal_def)
qed

text \<open>The fake driver never gives out an identifier twice.\<close>

lemma fake_ids_fresh:
  assumes "Fake_Create req f = (f1, Inr a)" and "Fake_Create req' g = (g1, Inr b)" and "fd_nextID f \<noteq> fd_nextID g"
  shows "a \<noteq> b"
  using assms decimal_zeros decimal_itoa unfolding Fake_Create_def Let_def padded_def
  by (metis (no_types, lifting) add_right_cancel prod.inject same_append_eq sum.inject(2))

lemma Write_take:
  "cw_sb w = take (cw_max w) s \<Longrightarrow> cw_written w = length s \<Longrightarrow>
     cw_sb (cappedWriter_Write p w) = take (cw_max w) (s @ p) \<and> cw_written (cappedWriter_Write p w) = length (s @ p)
     \<and> cw_max (cappedWriter_Write p w) = cw_max w"
  by (auto simp: cappedWriter_Write_def Let_def)

lemma fold_Write:
  "cw_sb w = take (cw_max w) s \<Longrightarrow> cw_written w = length s \<Longrightarrow>
     cw_sb (fold cappedWriter_Write chunks w) = take (cw_max w) (s @ concat chunks)"
proof (induction chunks arbitrary: w s)
  case (Cons p ps)
  then show ?case using Write_take [of w s p] Cons.IH [of "cappedWriter_Write p w" "s @ p"] by simp
qed simp

text \<open>Whatever pieces a process writes, what is kept is the first mebibyte of its output.\<close>

lemma capture_take: "capture chunks = take MaxExecOutputBytes (concat chunks)"
  by (simp add: capture_def fold_Write [where s = "[]"])

subsection \<open>The process driver stays in its work root\<close>

datatype box_req = BoxCreate entropy CreateRequest | BoxExec string ExecRequest | BoxDestroy string

fun box_serve :: "box_host \<Rightarrow> box_req \<Rightarrow> ProcessDriver \<Rightarrow> ProcessDriver" where
  "box_serve h (BoxCreate rnd req) d = fst (Process_Create h rnd req d)"
| "box_serve h (BoxExec ident req) d = fst (Process_Exec h ident req d)"
| "box_serve h (BoxDestroy ident) d = fst (Process_Destroy h ident d)"

text \<open>A direct child of the work root, and a path below it.\<close>

definition child :: "string \<Rightarrow> string \<Rightarrow> bool" where
  "child w p \<longleftrightarrow> comps p \<noteq> [] \<and> butlast (comps p) = comps w"

definition below :: "string \<Rightarrow> string \<Rightarrow> bool" where
  "below w p \<longleftrightarrow> strict_prefix (comps w) (comps p)"

text \<open>The sandbox directories that exist after a call, and what a call may do when they exist.\<close>

fun live_step :: "string \<Rightarrow> string list \<Rightarrow> box_call \<Rightarrow> string list" where
  "live_step w live (BoxMkdir p) = (if child w p then p # live else live)"
| "live_step w live (BoxStart ps) = live"
| "live_step w live (BoxRemoveAll p) = removeAll p live"

fun step_ok :: "box_host \<Rightarrow> string \<Rightarrow> string list \<Rightarrow> box_call \<Rightarrow> bool" where
  "step_ok h w live (BoxMkdir p) = below w p"
| "step_ok h w live (BoxStart ps) =
     ((case ps_argv ps of [] \<Rightarrow> False | bin # _ \<Rightarrow> bin \<in> set allowedCommands)
      \<and> ps_dir ps \<in> set live \<and> child w (ps_dir ps) \<and> ps_env ps = exec_env h (ps_dir ps))"
| "step_ok h w live (BoxRemoveAll p) = (p \<in> set live \<and> child w p)"

fun trace_ok :: "box_host \<Rightarrow> string \<Rightarrow> string list \<Rightarrow> box_call list \<Rightarrow> bool" where
  "trace_ok h w live [] = True"
| "trace_ok h w live (c # cs) = (step_ok h w live c \<and> trace_ok h w (live_step w live c) cs)"

lemma trace_ok_append:
  "trace_ok h w live (cs @ ds) \<longleftrightarrow> trace_ok h w live cs \<and> trace_ok h w (foldl (live_step w) live cs) ds"
  by (induction cs arbitrary: live) auto

definition box_inv :: "box_host \<Rightarrow> string \<Rightarrow> ProcessDriver \<Rightarrow> bool" where
  "box_inv h w d \<longleftrightarrow> pv_workRoot d = w \<and> trace_ok h w [] (pv_calls d)
     \<and> (\<forall>i root. lookup (pv_sandboxes d) i = Some root \<longrightarrow>
          plain i \<and> root = filepath_Join w i \<and> root \<in> set (foldl (live_step w) [] (pv_calls d)))"

lemma id_char_plain: "id_char c \<Longrightarrow> c \<noteq> CHR ''/''"
  by (auto simp: id_char_def is_lower_def is_upper_def is_digit_def less_eq_char_def)

lemma sandbox_id_plain: "NewID PrefixSandbox rnd = Inr v \<Longrightarrow> plain v"
proof -
  assume v: "NewID PrefixSandbox rnd = Inr v"
  then obtain s where "v = ''sbx_'' @ s" and "list_all id_char s"
    by (auto simp: NewID_def newPrefixed_def PrefixSandbox_def idSeparator_def list_all_length alphabet_nth split: option.splits)
  then show "plain v" using id_char_plain by (auto simp: plain_def dotdot_def list_all_iff)
qed

lemma root_child: "IsAbs w \<Longrightarrow> plain c \<Longrightarrow> child w (filepath_Join w c) \<and> below w (filepath_Join w c)"
  by (simp add: child_def below_def comps_Join_name strict_prefix_def)

lemma root_tmp:
  assumes "IsAbs w" and "plain c"
  shows "below w (filepath_Join (filepath_Join w c) ''.tmp'')" and "\<not> child w (filepath_Join (filepath_Join w c) ''.tmp'')"
proof -
  have "comps (filepath_Join (filepath_Join w c) ''.tmp'') = comps w @ [c, ''.tmp'']"
    using assms by (simp add: comps_Join_name IsAbs_Join plain_def dotdot_def)
  then show "below w (filepath_Join (filepath_Join w c) ''.tmp'')" "\<not> child w (filepath_Join (filepath_Join w c) ''.tmp'')"
    by (auto simp: below_def child_def strict_prefix_def butlast_append)
qed

lemma root_inj: "IsAbs w \<Longrightarrow> plain a \<Longrightarrow> plain b \<Longrightarrow> filepath_Join w a = filepath_Join w b \<longleftrightarrow> a = b"
  by (metis comps_Join_name last_snoc)

lemma create_inv: "IsAbs w \<Longrightarrow> box_inv h w d \<Longrightarrow> box_inv h w (fst (Process_Create h rnd req d))"
  using root_child sandbox_id_plain [of rnd]
  by (auto simp: Process_Create_def box_inv_def note_call_def rootFor_def Let_def trace_ok_append split: sum.splits)

lemma box_inv_root:
  assumes "IsAbs w" and "box_inv h w d" and "lookup (pv_sandboxes d) ident = Some root"
  shows "child w root" "below w (filepath_Join root ''.tmp'')" "\<not> child w (filepath_Join root ''.tmp'')"
    "root \<in> set (foldl (live_step w) [] (pv_calls d))"
proof -
  have "plain ident" "root = filepath_Join w ident" "root \<in> set (foldl (live_step w) [] (pv_calls d))"
    using assms(2,3) by (auto simp: box_inv_def)
  then show "child w root" "below w (filepath_Join root ''.tmp'')" "\<not> child w (filepath_Join root ''.tmp'')"
    "root \<in> set (foldl (live_step w) [] (pv_calls d))"
    using root_child [OF assms(1)] root_tmp [OF assms(1)] by simp_all
qed

lemma exec_inv:
  assumes "IsAbs w" and inv: "box_inv h w d"
  shows "box_inv h w (fst (Process_Exec h ident req d))"
proof (cases "lookup (pv_sandboxes d) ident")
  case (Some root)
  note facts = box_inv_root [OF assms Some]
  show ?thesis
    using Some inv facts
    by (auto simp: Process_Exec_def box_inv_def note_call_def Let_def trace_ok_append split: list.splits)
qed (use inv in \<open>simp add: Process_Exec_def\<close>)

lemma destroy_inv:
  assumes "IsAbs w" and inv: "box_inv h w d"
  shows "box_inv h w (fst (Process_Destroy h ident d))"
proof (cases "lookup (pv_sandboxes d) ident")
  case (Some root)
  have "r \<noteq> root" if "lookup (pv_sandboxes d) i = Some r" and "i \<noteq> ident" for i r
    using that Some inv root_inj [OF assms(1)] unfolding box_inv_def by metis
  then show ?thesis
    using Some inv box_inv_root [OF assms Some]
    by (auto simp: Process_Destroy_def box_inv_def note_call_def Let_def trace_ok_append)
qed (use inv in \<open>simp add: Process_Destroy_def\<close>)

lemma box_serve_inv: "IsAbs w \<Longrightarrow> box_inv h w d \<Longrightarrow> box_inv h w (box_serve h req d)"
  by (cases req) (simp_all add: create_inv exec_inv destroy_inv)

lemma box_run_inv: "IsAbs w \<Longrightarrow> box_inv h w d \<Longrightarrow> box_inv h w (fold (box_serve h) reqs d)"
  by (induction reqs arbitrary: d) (simp_all add: box_serve_inv)

text \<open>
  C30: the process driver only runs listed commands in live sandboxes of its own. For every sequence of
  requests and every behaviour of the machine, each process it starts is named in the allow list,
  runs with the fixed environment in a directory directly below the work root that the driver made
  for a sandbox and has not removed since; directories are only made below the work root; and only
  such a sandbox directory is ever removed.
\<close>

theorem process_driver_confined:
  assumes "IsAbs w"
  shows "trace_ok h w [] (pv_calls (fold (box_serve h) reqs (process_driver w)))"
proof -
  have "box_inv h w (process_driver w)" by (simp add: box_inv_def process_driver_def)
  from box_run_inv [OF assms this] show ?thesis by (simp add: box_inv_def)
qed

definition ex_box_host :: box_host where
  "ex_box_host = \<lparr>bh_PATH = ''/bin'', bh_mkdir = (\<lambda>_. True),
     bh_run = (\<lambda>_. \<lparr>pa_stdout = [''hel'', ''lo''], pa_stderr = [], pa_end = RunExit 3, pa_ctx = None, pa_runCtx = None, pa_duration = 5\<rparr>),
     bh_removeAll = (\<lambda>_. True)\<rparr>"

definition ex_box :: string where
  "ex_box = ''sbx_'' @ replicate 26 (CHR ''a'')"

definition ex_box_reqs :: "box_req list" where
  "ex_box_reqs =
     [BoxCreate (Some (\<lambda>_. 0)) \<lparr>cq_TenantID = ''t'', cq_RunID = ''r'', cq_TaskID = ''k'', cq_Principal = ''p''\<rparr>,
      BoxExec ex_box \<lparr>xq_Command = [''/bin/sh''], xq_Timeout = 1\<rparr>,
      BoxExec ex_box \<lparr>xq_Command = [''curl''], xq_Timeout = 1\<rparr>,
      BoxExec ex_box \<lparr>xq_Command = [''sh'', ''x''], xq_Timeout = 1\<rparr>,
      BoxDestroy ex_box,
      BoxExec ex_box \<lparr>xq_Command = [''sh'', ''x''], xq_Timeout = 1\<rparr>]"

lemma ex_box_id: "NewID PrefixSandbox (Some (\<lambda>_. 0)) = Inr ex_box"
  by (simp add: NewID_def newPrefixed_def PrefixSandbox_def idSeparator_def ex_box_def alphabet_def map_replicate_const)

lemma ex_box_calls:
  "pv_calls (fold (box_serve ex_box_host) ex_box_reqs (process_driver ''/w'')) =
     [BoxMkdir (filepath_Join ''/w'' ex_box), BoxMkdir (filepath_Join (filepath_Join ''/w'' ex_box) ''.tmp''),
      BoxStart \<lparr>ps_argv = [''sh'', ''x''], ps_dir = filepath_Join ''/w'' ex_box,
        ps_env = exec_env ex_box_host (filepath_Join ''/w'' ex_box)\<rparr>,
      BoxRemoveAll (filepath_Join ''/w'' ex_box)]"
  by (simp add: ex_box_reqs_def Process_Create_def ex_box_id Process_Exec_def Process_Destroy_def note_call_def
      process_driver_def rootFor_def allowedCommands_def ex_box_host_def Let_def)

theorem process_driver_confined_witness:
  "trace_ok ex_box_host ''/w'' []
     [BoxMkdir (filepath_Join ''/w'' ex_box), BoxMkdir (filepath_Join (filepath_Join ''/w'' ex_box) ''.tmp''),
      BoxStart \<lparr>ps_argv = [''sh'', ''x''], ps_dir = filepath_Join ''/w'' ex_box,
        ps_env = exec_env ex_box_host (filepath_Join ''/w'' ex_box)\<rparr>,
      BoxRemoveAll (filepath_Join ''/w'' ex_box)]"
proof -
  have "IsAbs ''/w''" by (simp add: IsAbs_def)
  from process_driver_confined [OF this, of ex_box_host ex_box_reqs] show ?thesis by (simp only: ex_box_calls)
qed

text \<open>A process that ends on its own is reported with its exit code and the start of its output.\<close>

lemma exec_reports:
  assumes "lookup (pv_sandboxes d) ident = Some root" and "xq_Command req = bin # args" and "bin \<in> set allowedCommands"
    and "0 < xq_Timeout req" and "Process_Exec h ident req d = (d', res, err)" and "a = bh_run h (pv_calls d')"
  shows "er_Stdout res = take MaxExecOutputBytes (concat (pa_stdout a)) \<and> length (er_Stdout res) \<le> MaxExecOutputBytes
     \<and> length (er_Stderr res) \<le> MaxExecOutputBytes
     \<and> (err = None \<longleftrightarrow> pa_ctx a = None \<and> pa_runCtx a = None \<and> pa_end a \<noteq> RunError)
     \<and> (err = None \<longrightarrow> er_ExitCode res = (case pa_end a of RunExit code \<Rightarrow> code | _ \<Rightarrow> 0))"
proof -
  have "list_all (\<lambda>b. CHR ''/'' \<notin> set b) allowedCommands" by (simp add: allowedCommands_def)
  then have "CHR ''/'' \<notin> set bin" using assms(3) by (auto simp: list_all_iff)
  then show ?thesis
    using assms
    by (auto simp: Process_Exec_def Let_def exec_outcome_def capture_take split: option.splits run_end.splits)
qed

end
