(* ===== verification/Polling.thy ===== *)
theory Polling
  imports Outbox_Services Dispatcher Mem_Outbox_Props Run_Worker
begin

section \<open>The polling loops (outbox/dispatcher.go, outboxgc/service.go, worker/worker.go)\<close>

text \<open>
  The background services repeat a round at every tick of a timer until their context ends. A list of
  events is one history of such a loop: a tick the loop chose, with what the surroundings answer in
  that round and whether the context had ended when the round came back; the moment the loop sees
  the end of its context; and, in between, whatever the rest of the system does. The loop itself is
  endless; a history without the last event is one that is still running.

  A worker's round settles a batch of claims, each in its own goroutine. Here they are settled in an
  arbitrary order; what the others do while a claim executes is part of its \<open>exec_event\<close>s, whose engine
  steps are arbitrary functions of the world.
\<close>

datatype ('p, 'w) loop_event = Others "'w \<Rightarrow> 'w" | Ticked 'p bool | DoneChosen

datatype loop_end = Running | Returned "go_error option"

fun poll_loop ::
  "('p \<Rightarrow> 'w \<Rightarrow> 'w \<times> go_error option) \<Rightarrow> ('p, 'w) loop_event list \<Rightarrow> 'w \<Rightarrow> 'w \<times> go_error list \<times> loop_end" where
  "poll_loop round [] w = (w, [], Running)"
| "poll_loop round (Others f # es) w = poll_loop round es (f w)"
| "poll_loop round (DoneChosen # es) w = (w, [], Returned None)"
| "poll_loop round (Ticked p ended # es) w =
     (case round p w of (w1, err) \<Rightarrow>
      case poll_loop round es w1 of (w2, logged, fin) \<Rightarrow>
        (w2, (case err of Some e \<Rightarrow> if ended then [] else [e] | None \<Rightarrow> []) @ logged, fin))"

definition dispatch_round ::
  "addr_sort \<Rightarrow> DispatcherConfig \<Rightarrow> string \<Rightarrow> (go_error \<Rightarrow> string)
   \<Rightarrow> (nat \<Rightarrow> OutboxMessage \<Rightarrow> go_error option) \<times> (nat \<Rightarrow> go_error option) \<Rightarrow> world \<Rightarrow> world \<times> go_error option" where
  "dispatch_round srt cfg workerID err_text = (\<lambda>(sink, stopped) w.
     case DispatchOnce srt cfg workerID err_text sink stopped w of (w', (n, err), obs) \<Rightarrow> (w', err))"

definition Dispatcher_Run ::
  "addr_sort \<Rightarrow> DispatcherConfig \<Rightarrow> string \<Rightarrow> (go_error \<Rightarrow> string)
   \<Rightarrow> ((nat \<Rightarrow> OutboxMessage \<Rightarrow> go_error option) \<times> (nat \<Rightarrow> go_error option), world) loop_event list
   \<Rightarrow> world \<Rightarrow> world \<times> go_error list \<times> loop_end" where
  "Dispatcher_Run srt cfg workerID err_text events w = poll_loop (dispatch_round srt cfg workerID err_text) events w"

definition retention_round :: "addr_sort \<Rightarrow> GCConfig \<Rightarrow> unit \<Rightarrow> world \<Rightarrow> world \<times> go_error option" where
  "retention_round srt cfg u w = (case Round srt cfg w of (w', Inl e) \<Rightarrow> (w', Some e) | (w', Inr _) \<Rightarrow> (w', None))"

definition GC_Run :: "addr_sort \<Rightarrow> GCConfig \<Rightarrow> (unit, world) loop_event list \<Rightarrow> world \<Rightarrow> world \<times> go_error list \<times> loop_end" where
  "GC_Run srt cfg events w =
     (if \<not> GCConfig_Active cfg then (w, [], Returned (Some Foreign))
      else poll_loop (retention_round srt cfg) events w)"

record claim_env =
  cv_events :: "exec_event list"
  cv_ctxDone :: bool
  cv_execErr :: "go_error option"
  cv_cause :: go_error

fun settle_batch ::
  "Deps \<Rightarrow> WorkerConfig \<Rightarrow> string \<Rightarrow> ctx \<Rightarrow> (string \<Rightarrow> claim_env) \<Rightarrow> RunClaim list \<Rightarrow> worker_obs list worker_op" where
  "settle_batch deps cfg owner ctx envs [] w = (w, [])"
| "settle_batch deps cfg owner ctx envs (c # cs) w =
     (let e = envs (claim_RunID c) in
      case runClaim deps cfg owner ctx (cv_cause e) (cv_events e) (cv_ctxDone e) (cv_execErr e) c w of
        (w1, obs) \<Rightarrow> (case settle_batch deps cfg owner ctx envs cs w1 of (w2, obs') \<Rightarrow> (w2, obs @ obs')))"

record round_env =
  re_rand :: "nat \<Rightarrow> entropy"
  re_order :: "RunClaim list \<Rightarrow> RunClaim list"
  re_claims :: "string \<Rightarrow> claim_env"

definition ProcessOnce ::
  "claim_sort \<Rightarrow> Deps \<Rightarrow> WorkerConfig \<Rightarrow> string \<Rightarrow> ctx \<Rightarrow> round_env \<Rightarrow> world
   \<Rightarrow> world \<times> (int \<times> go_error option) \<times> worker_obs list" where
  "ProcessOnce srt deps cfg owner ctx env w =
     (case store_at (RunClaimRepository_AcquireNext srt (ProcessOnce_request cfg owner) (re_rand env)) w of
        (w1, Inl err) \<Rightarrow> (w1, (0, Some err), [])
      | (w1, Inr acquired) \<Rightarrow>
          (case settle_batch deps cfg owner ctx (re_claims env) (re_order env acquired) w1 of
             (w2, obs) \<Rightarrow>
               (w2, (int (length acquired), None),
                (if acquired \<noteq> [] then [ClaimsAcquired (int (length acquired))] else []) @ obs)))"

definition worker_round ::
  "claim_sort \<Rightarrow> Deps \<Rightarrow> WorkerConfig \<Rightarrow> string \<Rightarrow> ctx \<Rightarrow> round_env \<Rightarrow> world \<Rightarrow> world \<times> go_error option" where
  "worker_round srt deps cfg owner ctx env w =
     (case ProcessOnce srt deps cfg owner ctx env w of (w', (n, err), obs) \<Rightarrow> (w', err))"

definition Worker_Run ::
  "claim_sort \<Rightarrow> Deps \<Rightarrow> WorkerConfig \<Rightarrow> string \<Rightarrow> ctx \<Rightarrow> (round_env, world) loop_event list
   \<Rightarrow> world \<Rightarrow> world \<times> go_error list \<times> loop_end" where
  "Worker_Run srt deps cfg owner ctx events w = poll_loop (worker_round srt deps cfg owner ctx) events w"

text \<open>A worker never holds more leases than it may execute at once.\<close>

lemma batch_within_concurrency:
  assumes "sort_slice srt" and "claims_ok (w_store w)" and "ProcessOnce srt deps cfg owner ctx env w = (w', (n, None), obs)"
  shows "n \<le> wc_Concurrency cfg \<and> n \<le> wc_BatchSize cfg"
proof -
  let ?req = "ProcessOnce_request cfg owner" and ?now = "w_clock w (w_ticks w)"
  obtain st' cs where acq: "RunClaimRepository_AcquireNext srt ?req (re_rand env) ?now (w_store w) = (st', Inr cs)"
      and n: "n = int (length cs)"
    using assms(3) by (auto simp: ProcessOnce_def store_at_run on_store_def split: prod.splits sum.splits)
  have "int (length cs) \<le> br_Limit ?req" using AcquireNext_batch [OF assms(1,2) acq] by blast
  then show ?thesis by (simp add: n ProcessOnce_request_def)
qed

subsection \<open>The contract of a loop\<close>

text \<open>
  A loop whose rounds, in the surroundings that interest the client, respect a preorder respects it
  through any history of such rounds whose other steps do; and no failing round ends it, only the end
  of its context.
\<close>

locale poll_service =
  fixes round :: "'p \<Rightarrow> 'w \<Rightarrow> 'w \<times> go_error option" and here :: "'p \<Rightarrow> bool" and R :: "'w \<Rightarrow> 'w \<Rightarrow> bool"
  assumes refl_R: "R w w" and trans_R: "R w1 w2 \<Longrightarrow> R w2 w3 \<Longrightarrow> R w1 w3"
    and round_R: "here p \<Longrightarrow> R w (fst (round p w))"
begin

lemma loop_R:
  assumes "\<And>f w. Others f \<in> set events \<Longrightarrow> R w (f w)" and "\<And>p ended. Ticked p ended \<in> set events \<Longrightarrow> here p"
  shows "R w (fst (poll_loop round events w))"
  using assms
proof (induction events arbitrary: w)
  case Nil
  show ?case by (simp add: refl_R)
next
  case (Cons e es)
  have rest: "R v (fst (poll_loop round es v))" for v by (rule Cons.IH) (auto intro: Cons.prems)
  show ?case
  proof (cases e)
    case (Others f)
    then show ?thesis using Cons.prems(1) [of f w] rest [of "f w"] trans_R by auto
  next
    case (Ticked p ended)
    obtain w1 err where "round p w = (w1, err)" by (cases "round p w")
    then show ?thesis
      using Ticked round_R [of p w] Cons.prems(2) [of p ended] rest [of w1] trans_R by (auto split: prod.splits)
  qed (simp add: refl_R)
qed

lemma loop_returns: "snd (snd (poll_loop round events w)) = (if DoneChosen \<in> set events then Returned None else Running)"
proof (induction events arbitrary: w)
  case (Cons e es)
  then show ?case by (cases e) (auto split: prod.splits, (metis snd_conv)+)
qed simp

end

subsection \<open>Both loops act through outbox calls\<close>

definition by_calls :: "addr_sort \<Rightarrow> (Event \<Rightarrow> bytes result) \<Rightarrow> (outbox_call \<Rightarrow> bool) \<Rightarrow> world \<Rightarrow> world \<Rightarrow> bool" where
  "by_calls srt marshal P w w' \<longleftrightarrow>
     (\<exists>calls. (\<forall>(t, c) \<in> set calls. P c) \<and> w_store w' = run_calls (outbox_exec srt marshal) (w_store w) calls)"

lemma by_calls_refl: "by_calls srt marshal P w w"
  unfolding by_calls_def by (intro exI [of _ "[]"]) simp

lemma by_calls_trans:
  assumes "by_calls srt marshal P w1 w2" and "by_calls srt marshal P w2 w3"
  shows "by_calls srt marshal P w1 w3"
proof -
  obtain c1 c2 where "\<forall>(t, c) \<in> set c1. P c" "w_store w2 = run_calls (outbox_exec srt marshal) (w_store w1) c1"
      "\<forall>(t, c) \<in> set c2. P c" "w_store w3 = run_calls (outbox_exec srt marshal) (w_store w2) c2"
    using assms unfolding by_calls_def by blast
  then show ?thesis unfolding by_calls_def by (intro exI [of _ "c1 @ c2"]) auto
qed

lemma by_calls_one:
  assumes "P c" and "\<And>t st. outbox_exec srt marshal c t st = fst (f t st)" and "store_at f w = (w', r)"
  shows "by_calls srt marshal P w w'"
  using assms unfolding by_calls_def store_at_run on_store_def
  by (intro exI [of _ "[(w_clock w (w_ticks w), c)]"]) (auto split: prod.splits)

text \<open>
  The calls of a dispatcher delete nothing, and acknowledge only messages that the destination accepts.
\<close>

definition acks_only :: "string set \<Rightarrow> outbox_call \<Rightarrow> bool" where
  "acks_only A c \<longleftrightarrow> \<not> deletes c \<and> (case c of CallMarkDelivered k who \<Rightarrow> k \<in> A | _ \<Rightarrow> True)"

definition accepts_only :: "string set \<Rightarrow> (nat \<Rightarrow> OutboxMessage \<Rightarrow> go_error option) \<times> (nat \<Rightarrow> go_error option) \<Rightarrow> bool" where
  "accepts_only A p \<longleftrightarrow> (\<forall>j msg. fst p j msg = None \<longrightarrow> om_ID msg \<in> A)"

lemma by_calls_dispatch_loop:
  assumes "\<And>j msg. sink j msg = None \<Longrightarrow> om_ID msg \<in> A"
  shows "by_calls srt marshal (acks_only A) w (fst (dispatch_loop cfg workerID err_text sink stopped i msgs w))"
proof (induction msgs arbitrary: i w)
  case (Cons msg msgs)
  have mark: "by_calls srt marshal (acks_only A) w w1"
    if "sink i msg = None" and "store_at (OutboxRepository_MarkDelivered (om_ID msg) workerID) w = (w1, r)" for w1 r
    using that(2) by (rule by_calls_one [where c = "CallMarkDelivered (om_ID msg) workerID", rotated -1])
      (use assms that(1) in \<open>auto simp: acks_only_def\<close>)
  have fail: "by_calls srt marshal (acks_only A) w w1"
    if "store_at (OutboxRepository_FailWithBackoff (om_ID msg) workerID d t) w = (w1, r)" for w1 r d t
    using that by (rule by_calls_one [where c = "CallFail (om_ID msg) workerID d t", rotated -1]) (simp_all add: acks_only_def)
  show ?case
  proof (cases "sink i msg")
    case None
    obtain w1 r where s: "store_at (OutboxRepository_MarkDelivered (om_ID msg) workerID) w = (w1, r)"
      by (cases "store_at (OutboxRepository_MarkDelivered (om_ID msg) workerID) w")
    have "fst (dispatch_loop cfg workerID err_text sink stopped i (msg # msgs) w)
        = fst (dispatch_loop cfg workerID err_text sink stopped (Suc i) msgs w1)"
      by (cases r) (simp_all add: None s split: prod.splits)
    with by_calls_trans [OF mark [OF None s] Cons.IH] show ?thesis by simp
  next
    case (Some err)
    let ?fail = "OutboxRepository_FailWithBackoff (om_ID msg) workerID (sint (backoffFor (dc_RetryBackoffBase cfg) (om_Attempts msg)))
      (safeErr err_text err)"
    obtain w1 r where s: "store_at ?fail w = (w1, r)" by (cases "store_at ?fail w")
    have "fst (dispatch_loop cfg workerID err_text sink stopped i (msg # msgs) w)
        = (if stopped i \<noteq> None then w else fst (dispatch_loop cfg workerID err_text sink stopped (Suc i) msgs w1))"
      by (cases r) (auto simp: Some s Let_def split: prod.splits)
    with by_calls_trans [OF fail [OF s] Cons.IH] show ?thesis by (simp add: by_calls_refl)
  qed
qed (simp add: by_calls_refl)

lemma by_calls_dispatch:
  assumes "accepts_only A p"
  shows "by_calls srt marshal (acks_only A) w (fst (dispatch_round srt cfg workerID err_text p w))"
proof -
  obtain sink stopped where p: "p = (sink, stopped)" by (cases p)
  let ?req = "\<lparr>ol_WorkerID = workerID, ol_LeaseFor = dc_Lease cfg, ol_Limit = dc_BatchSize cfg\<rparr>"
  obtain w1 r where l: "store_at (OutboxRepository_Lease srt ?req) w = (w1, r)" by (cases "store_at (OutboxRepository_Lease srt ?req) w")
  have "by_calls srt marshal (acks_only A) w w1"
    using l by (rule by_calls_one [where c = "CallLease ?req", rotated -1]) (simp_all add: acks_only_def)
  moreover have "by_calls srt marshal (acks_only A) w1 (fst (dispatch_loop cfg workerID err_text sink stopped i msgs w1))" for i msgs
    by (rule by_calls_dispatch_loop) (use assms in \<open>simp add: accepts_only_def p\<close>)
  ultimately show ?thesis
    using by_calls_trans l
    by (simp add: dispatch_round_def DispatchOnce_def p Let_def split: sum.splits prod.splits) (metis fst_conv)
qed

interpretation dispatcher_loop: poll_service "dispatch_round srt cfg workerID err_text" "accepts_only A"
    "by_calls srt marshal (acks_only A)"
  for srt cfg workerID err_text marshal A
  by unfold_locales (rule by_calls_refl, erule (1) by_calls_trans, erule by_calls_dispatch)

lemma by_calls_retention:
  "by_calls srt marshal (\<lambda>c. \<exists>req. c = CallSweep req) w (fst (retention_round srt cfg u w))"
proof -
  let ?sweep = "OutboxRepository_SweepRetention srt (GC_request cfg False)"
  obtain w1 r where s: "store_at ?sweep w = (w1, r)" by (cases "store_at ?sweep w")
  have "by_calls srt marshal (\<lambda>c. \<exists>req. c = CallSweep req) w w1"
    using s by (rule by_calls_one [where c = "CallSweep (GC_request cfg False)", rotated -1]) simp_all
  moreover have "fst (retention_round srt cfg u w) = w1"
    using s by (cases r) (simp_all add: retention_round_def Round_def seq_op_def return_op_def)
  ultimately show ?thesis by simp
qed

interpretation retention_loop: poll_service "retention_round srt cfg" "\<lambda>_. True" "by_calls srt marshal (\<lambda>c. \<exists>req. c = CallSweep req)"
  for srt cfg marshal
  by unfold_locales (rule by_calls_refl, erule (1) by_calls_trans, rule by_calls_retention)

lemma acks_only_mono: "acks_only A c \<Longrightarrow> A \<subseteq> B \<Longrightarrow> acks_only B c"
  by (auto simp: acks_only_def split: outbox_call.splits)

lemma by_calls_mono:
  assumes "by_calls srt marshal P w w'" and "\<And>c. P c \<Longrightarrow> Q c"
  shows "by_calls srt marshal Q w w'"
proof -
  obtain calls where "\<forall>(t, c) \<in> set calls. P c" and "w_store w' = run_calls (outbox_exec srt marshal) (w_store w) calls"
    using assms(1) unfolding by_calls_def by blast
  then show ?thesis using assms(2) unfolding by_calls_def by (intro exI [of _ calls]) auto
qed

text \<open>A message that nobody acknowledges does not become delivered.\<close>

context outbox_machine
begin

lemma unacknowledged:
  assumes "ok st" and "slot st a = Some m" and "obx_Status m \<noteq> OutboxDelivered" and "obx_ID m \<notin> A"
    and "\<And>t call. (t, call) \<in> set calls \<Longrightarrow> acks_only A (call_of call)"
  shows "\<exists>m'. slot (run_calls exec st calls) a = Some m' \<and> obx_ID m' = obx_ID m \<and> obx_Status m' \<noteq> OutboxDelivered"
proof (rule calls_keep [where I = "\<lambda>s. \<exists>m'. s = Some m' \<and> obx_ID m' = obx_ID m \<and> obx_Status m' \<noteq> OutboxDelivered",
    OF assms(1)])
  fix t call old new
  assume "(t, call) \<in> set calls" and mv: "row_move (call_of call) t a old new"
    and I: "\<exists>m'. old = Some m' \<and> obx_ID m' = obx_ID m \<and> obx_Status m' \<noteq> OutboxDelivered"
  then have "acks_only A (call_of call)" using assms(5) by blast
  with mv I show "\<exists>m'. new = Some m' \<and> obx_ID m' = obx_ID m \<and> obx_Status m' \<noteq> OutboxDelivered"
    using assms(4) by (auto elim!: row_moveE simp: row_updates Let_def acks_only_def)
qed (use assms(2,3) in simp)

end

context outbox_server
begin

lemmas unacknowledged_row = slots.unacknowledged

end

text \<open>
  C24: the dispatcher can run forever without losing a message. Take any history of its loop, with
  rounds whose deliveries fail, whose lease step fails or whose context ends between two messages, and
  with other callers acting on the outbox in between, none of whom sweeps and who acknowledge only
  messages of some set \<open>others\<close>. Every message that was in the outbox is still there with its identity, its
  envelope and a generation that has not gone back. It has become delivered only if it was delivered at
  the start, if the others may acknowledge it, or if in one of the rounds the destination accepts a
  message with its identity: a message that the destination refuses in every round is never
  acknowledged by the loop, and stays in the outbox undelivered. The rows stay consistent; and the loop
  returns, without an error, exactly when it has seen its context end.
\<close>

theorem dispatcher_loop_keeps_messages:
  assumes "sort_slice srt" and "outbox_ok (w_store w)" and "row_slot (w_store w) a = Some m"
    and "\<forall>f v. Others f \<in> set events \<longrightarrow> by_calls srt marshal (acks_only others) v (f v)"
    and "Dispatcher_Run srt cfg workerID err_text events w = (w', logged, fin)"
  shows "outbox_ok (w_store w')
     \<and> (\<exists>m'. row_slot (w_store w') a = Some m' \<and> obx_ID m' = obx_ID m \<and> obx_DedupKey m' = obx_DedupKey m
          \<and> obx_Envelope m' = obx_Envelope m \<and> obx_Generation m \<le> obx_Generation m'
          \<and> (obx_Status m' = OutboxDelivered \<longrightarrow>
               obx_Status m = OutboxDelivered \<or> obx_ID m \<in> others
               \<or> (\<exists>sink stopped ended j msg. Ticked (sink, stopped) ended \<in> set events
                    \<and> sink j msg = None \<and> om_ID msg = obx_ID m)))
     \<and> fin = (if DoneChosen \<in> set events then Returned None else Running)"
proof -
  let ?accepted = "{k. \<exists>sink stopped ended j msg. Ticked (sink, stopped) ended \<in> set events \<and> sink j msg = None \<and> om_ID msg = k}"
  have srv: "outbox_server srt" using assms(1) by (rule outbox_serverI)
  have "by_calls srt marshal (acks_only (others \<union> ?accepted)) w (fst (poll_loop (dispatch_round srt cfg workerID err_text) events w))"
  proof (rule dispatcher_loop.loop_R)
    fix f v assume "Others f \<in> set events"
    then have "by_calls srt marshal (acks_only others) v (f v)" using assms(4) by blast
    then show "by_calls srt marshal (acks_only (others \<union> ?accepted)) v (f v)"
      by (rule by_calls_mono) (erule acks_only_mono, blast)
  next
    fix p ended assume "Ticked p ended \<in> set events"
    then show "accepts_only (others \<union> ?accepted) p" by (cases p) (auto simp: accepts_only_def)
  qed
  then obtain calls where calls: "\<forall>(t, c) \<in> set calls. acks_only (others \<union> ?accepted) c"
      and run: "w_store w' = run_calls (outbox_exec srt marshal) (w_store w) calls"
    using assms(5) unfolding by_calls_def Dispatcher_Run_def by auto
  have "\<exists>m'. row_slot (w_store w') a = Some m' \<and> obx_DedupKey m' = obx_DedupKey m
      \<and> obx_Envelope m' = obx_Envelope m \<and> obx_ID m' = obx_ID m \<and> obx_Generation m \<le> obx_Generation m'"
    unfolding run by (rule outbox_server.identity_kept [OF srv assms(2,3)]) (use calls in \<open>auto simp: acks_only_def\<close>)
  then obtain m' where m': "row_slot (w_store w') a = Some m'" "obx_ID m' = obx_ID m" "obx_DedupKey m' = obx_DedupKey m"
      "obx_Envelope m' = obx_Envelope m" "obx_Generation m \<le> obx_Generation m'"
    by blast
  have "obx_Status m' \<noteq> OutboxDelivered" if "obx_Status m \<noteq> OutboxDelivered" and "obx_ID m \<notin> others \<union> ?accepted"
    using outbox_server.unacknowledged_row [OF srv assms(2,3) that, of calls marshal] calls m'(1) by (auto simp: run)
  moreover have "outbox_ok (w_store w')" unfolding run by (rule outbox_server.calls_ok [OF srv assms(2)])
  moreover have "fin = (if DoneChosen \<in> set events then Returned None else Running)"
    using dispatcher_loop.loop_returns [of srt cfg workerID err_text events w] assms(5) by (simp add: Dispatcher_Run_def)
  ultimately show ?thesis using m' by blast
qed

definition ex_loop :: "((nat \<Rightarrow> OutboxMessage \<Rightarrow> go_error option) \<times> (nat \<Rightarrow> go_error option), world) loop_event list" where
  "ex_loop = [Ticked (\<lambda>_ _. Some Foreign, \<lambda>_. None) False, Others (\<lambda>w. w),
     Ticked (\<lambda>_ msg. if om_ID msg = ''gone'' then None else Some Foreign, \<lambda>_. None) False, DoneChosen]"

theorem dispatcher_loop_keeps_messages_witness:
  "\<exists>w' logged m'. Dispatcher_Run insertion_sort ex_dispatch ''A'' (\<lambda>_. ''down'') ex_loop (ex_world ex_outbox)
       = (w', logged, Returned None)
     \<and> row_slot (w_store w') 0 = Some m' \<and> obx_ID m' = obx_ID (row ex_outbox 0) \<and> obx_Status m' \<noteq> OutboxDelivered"
proof -
  obtain w' logged fin where run:
    "Dispatcher_Run insertion_sort ex_dispatch ''A'' (\<lambda>_. ''down'') ex_loop (ex_world ex_outbox) = (w', logged, fin)"
    by (cases "Dispatcher_Run insertion_sort ex_dispatch ''A'' (\<lambda>_. ''down'') ex_loop (ex_world ex_outbox)") auto
  have ok: "outbox_ok (w_store (ex_world ex_outbox))" by (simp add: ex_world_def outbox_ok_ex_outbox)
  have slot: "row_slot (w_store (ex_world ex_outbox)) 0 = Some (row ex_outbox 0)"
    by (simp add: ex_world_def row_slot_def ex_outbox_simps)
  have others: "\<forall>f v. Others f \<in> set ex_loop \<longrightarrow> by_calls insertion_sort (\<lambda>_. Inr []) (acks_only {}) v (f v)"
    by (auto simp: ex_loop_def by_calls_refl)
  have fin_ev: "DoneChosen \<in> set ex_loop" by (simp add: ex_loop_def)
  have op: "obx_Status (row ex_outbox 0) \<noteq> OutboxDelivered" "obx_ID (row ex_outbox 0) \<noteq> ''gone''"
    by (simp_all add: ex_outbox_simps new_row_def)
  have "\<not> (\<exists>sink stopped ended j msg. Ticked (sink, stopped) ended \<in> set ex_loop \<and> sink j msg = None
      \<and> om_ID msg = obx_ID (row ex_outbox 0))"
    using op(2) by (auto simp: ex_loop_def split: if_splits)
  then obtain m' where "row_slot (w_store w') 0 = Some m'" "obx_ID m' = obx_ID (row ex_outbox 0)" "obx_Status m' \<noteq> OutboxDelivered"
    using dispatcher_loop_keeps_messages [OF isort.sort_slice_axioms ok slot others run] op(1) by blast
  moreover have "fin = Returned None"
    using dispatcher_loop_keeps_messages [OF isort.sort_slice_axioms ok slot others run] fin_ev by simp
  ultimately show ?thesis using run by blast
qed

text \<open>
  The retention loop does not start when nothing is configured, and keeps the rows consistent.
\<close>

lemma retention_refuses_inert: "\<not> GCConfig_Active cfg \<Longrightarrow> GC_Run srt cfg events w = (w, [], Returned (Some Foreign))"
  by (simp add: GC_Run_def)

lemma retention_loop_keeps_outbox:
  assumes "sort_slice srt" and "outbox_ok (w_store w)"
    and "\<forall>f v. Others f \<in> set events \<longrightarrow> by_calls srt marshal (\<lambda>c. \<exists>req. c = CallSweep req) v (f v)"
    and "GC_Run srt cfg events w = (w', logged, fin)"
  shows "outbox_ok (w_store w')"
proof -
  have "by_calls srt marshal (\<lambda>c. \<exists>req. c = CallSweep req) w w'"
    using retention_loop.loop_R [of events srt marshal w cfg] assms(3,4) by_calls_refl
    by (auto simp: GC_Run_def split: if_splits)
  then show ?thesis
    using outbox_server.calls_ok [OF outbox_serverI [OF assms(1)] assms(2)] by (auto simp: by_calls_def)
qed

end
