(* ===== verification/Migrations.thy ===== *)
theory Migrations
  imports Domain_Errors Go_Strings "HOL-Library.Sublist"
begin

section \<open>Schema migrations (db/db.go, internal/store/migrate/migrate.go)\<close>

text \<open>
  The embedded SQL files are loaded in version order and applied one transaction each, next to a row of
  the bookkeeping table; a session-level advisory lock keeps appliers apart. The effect of a file on the
  schema is an argument, and so is every failure of the connection, a commit whose answer is lost
  included (the transaction may or may not have taken effect).

  Concurrent appliers are a step relation: every statement or transaction of one applier is a step, and
  the lock is held by a connection of its own, so it may be lost while its applier goes on. A transaction
  is one step: two that overlap on the same version wait for each other at the primary key of the
  bookkeeping table, and the one that comes second is rolled back.
\<close>

record Migration =
  mig_Version :: string
  mig_Name :: string
  mig_SQL :: string

text \<open>A directory entry, with the content a read returns.\<close>

record dir_entry =
  de_Name :: string
  de_IsDir :: bool
  de_Content :: "string result"

definition has_suffix :: "string \<Rightarrow> string \<Rightarrow> bool" where
  "has_suffix p s = has_prefix (rev p) (rev s)"

fun load_entries :: "dir_entry list \<Rightarrow> Migration list result" where
  "load_entries [] = Inr []"
| "load_entries (entry # entries) =
     (if de_IsDir entry \<or> \<not> has_suffix ''.sql'' (de_Name entry) then load_entries entries
      else and_then (de_Content entry) (\<lambda>cont.
        case strings_Cut (CHR ''_'') (trim_suffix ''.sql'' (de_Name entry)) of
          (version, name, found) \<Rightarrow>
            if \<not> found \<or> length version \<noteq> 4 then Inl Foreign
            else and_then (load_entries entries) (\<lambda>out.
              Inr (\<lparr>mig_Version = version, mig_Name = name, mig_SQL = cont\<rparr> # out))))"

definition migrations_All :: "((Migration \<Rightarrow> Migration \<Rightarrow> bool) \<Rightarrow> Migration list \<Rightarrow> Migration list) \<Rightarrow> dir_entry list result \<Rightarrow> Migration list result" where
  "migrations_All srt dir =
     and_then dir (\<lambda>entries. and_then (load_entries entries) (\<lambda>out.
       Inr (srt (\<lambda>a b. mig_Version a < mig_Version b) out)))"

text \<open>The files the binary embeds, with arbitrary contents.\<close>

definition embedded_files :: "(string \<Rightarrow> string) \<Rightarrow> dir_entry list" where
  "embedded_files cont = map (\<lambda>n. \<lparr>de_Name = n, de_IsDir = False, de_Content = Inr (cont n)\<rparr>)
     [''0001_tenancy_projects_threads.sql'', ''0002_runs_tasks_workspaces.sql'', ''0003_evidence_governance_audit.sql'',
      ''0004_artifact_content.sql'', ''0005_outbox.sql'', ''0006_run_claims.sql'', ''0007_outbox_operator.sql'',
      ''0008_outbox_retention.sql'', ''0009_runs_seq.sql'']"

subsection \<open>The database\<close>

record 'd mdb =
  mdb_rows :: "(string \<times> string) list option"
  mdb_schema :: 'd

type_synonym 'd sql = "string \<Rightarrow> 'd \<Rightarrow> 'd result"

definition ensureBookkeeping :: "bool \<Rightarrow> 'd mdb \<Rightarrow> 'd mdb \<times> unit result" where
  "ensureBookkeeping ok db =
     (if \<not> ok then (db, Inl (Wrapped Foreign))
      else (db\<lparr>mdb_rows := Some (case mdb_rows db of None \<Rightarrow> [] | Some rows \<Rightarrow> rows)\<rparr>, Inr ()))"

definition appliedVersions :: "bool \<Rightarrow> 'd mdb \<Rightarrow> string list result" where
  "appliedVersions ok db =
     (if \<not> ok then Inl (Wrapped Foreign)
      else (case mdb_rows db of None \<Rightarrow> Inl (Wrapped Foreign) | Some rows \<Rightarrow> Inr (map fst rows)))"

definition full_name :: "Migration \<Rightarrow> string" where
  "full_name m = mig_Version m @ ''_'' @ mig_Name m"

record cur_host =
  ch_ensure :: bool
  ch_dir :: "dir_entry list result"
  ch_read :: bool

definition Current ::
  "((Migration \<Rightarrow> Migration \<Rightarrow> bool) \<Rightarrow> Migration list \<Rightarrow> Migration list) \<Rightarrow> cur_host \<Rightarrow> 'd mdb
     \<Rightarrow> 'd mdb \<times> (string list \<times> string list) result" where
  "Current srt h db =
     (case ensureBookkeeping (ch_ensure h) db of
        (db, Inl e) \<Rightarrow> (db, Inl e)
      | (db, Inr _) \<Rightarrow>
          (db, case migrations_All srt (ch_dir h) of
             Inl e \<Rightarrow> Inl (Wrapped e)
           | Inr all \<Rightarrow> and_then (appliedVersions (ch_read h) db) (\<lambda>applied.
               Inr (sort applied, map full_name (filter (\<lambda>m. mig_Version m \<notin> set applied) all)))))"

subsection \<open>Applying\<close>

datatype fault = NoFault | BeginFails | ExecFails | RecordFails | CommitFails bool

definition apply_one :: "'d sql \<Rightarrow> fault \<Rightarrow> Migration \<Rightarrow> 'd mdb \<Rightarrow> 'd mdb \<times> unit result" where
  "apply_one sql flt m db =
     (if flt = BeginFails then (db, Inl (Wrapped Foreign))
      else (case (if flt = ExecFails then Inl Foreign else sql (mig_SQL m) (mdb_schema db)) of
        Inl e \<Rightarrow> (db, Inl (Wrapped e))
      | Inr schema \<Rightarrow>
          (case mdb_rows db of
             None \<Rightarrow> (db, Inl (Wrapped Foreign))
           | Some rows \<Rightarrow>
               (if flt = RecordFails \<or> mig_Version m \<in> set (map fst rows) then (db, Inl (Wrapped Foreign))
                else (let db' = db\<lparr>mdb_rows := Some (rows @ [(mig_Version m, mig_Name m)]), mdb_schema := schema\<rparr>
                      in case flt of
                           CommitFails took \<Rightarrow> (if took then db' else db, Inl (Wrapped Foreign))
                         | _ \<Rightarrow> (db', Inr ()))))))"

fun up_loop :: "'d sql \<Rightarrow> (string \<Rightarrow> fault) \<Rightarrow> string list \<Rightarrow> Migration list \<Rightarrow> string list \<Rightarrow> 'd mdb
    \<Rightarrow> 'd mdb \<times> string list \<times> go_error option" where
  "up_loop sql flt applied [] report db = (db, report, None)"
| "up_loop sql flt applied (m # ms) report db =
     (if mig_Version m \<in> set applied then up_loop sql flt applied ms report db
      else (case apply_one sql (flt (mig_Version m)) m db of
              (db, Inl e) \<Rightarrow> (db, report, Some e)
            | (db, Inr _) \<Rightarrow> up_loop sql flt applied ms (report @ [full_name m]) db))"

record up_host =
  uh_ensure :: bool
  uh_conn :: bool
  uh_lock :: bool
  uh_dir :: "dir_entry list result"
  uh_read :: bool
  uh_fault :: "string \<Rightarrow> fault"

text \<open>The report is nil on an early error.\<close>

definition Up ::
  "'d sql \<Rightarrow> ((Migration \<Rightarrow> Migration \<Rightarrow> bool) \<Rightarrow> Migration list \<Rightarrow> Migration list) \<Rightarrow> up_host \<Rightarrow> 'd mdb
     \<Rightarrow> 'd mdb \<times> string list option \<times> go_error option" where
  "Up sql srt h db =
     (case ensureBookkeeping (uh_ensure h) db of
        (db, Inl e) \<Rightarrow> (db, None, Some e)
      | (db, Inr _) \<Rightarrow>
          (if \<not> uh_conn h then (db, None, Some (Wrapped Foreign))
           else if \<not> uh_lock h then (db, None, Some (Wrapped Foreign))
           else (case migrations_All srt (uh_dir h) of
             Inl e \<Rightarrow> (db, None, Some (Wrapped e))
           | Inr all \<Rightarrow>
              (case appliedVersions (uh_read h) db of
                 Inl e \<Rightarrow> (db, None, Some e)
               | Inr applied \<Rightarrow>
                   (case up_loop sql (uh_fault h) applied all [] db of
                      (db, report, err) \<Rightarrow> (db, Some report, err))))))"

definition applyMigrations ::
  "'d sql \<Rightarrow> ((Migration \<Rightarrow> Migration \<Rightarrow> bool) \<Rightarrow> Migration list \<Rightarrow> Migration list) \<Rightarrow> bool \<Rightarrow> bool \<Rightarrow> up_host \<Rightarrow> cur_host
     \<Rightarrow> 'd mdb \<Rightarrow> 'd mdb \<times> (string list \<times> string list) result" where
  "applyMigrations sql srt openOK pingOK uh ch db =
     (if \<not> openOK then (db, Inl (Wrapped Foreign))
      else if \<not> pingOK then (db, Inl (Wrapped Foreign))
      else (case Up sql srt uh db of
        (db, report, Some e) \<Rightarrow> (db, Inl e)
      | (db, report, None) \<Rightarrow>
          (case Current srt ch db of
             (db, Inl e) \<Rightarrow> (db, Inl e)
           | (db, Inr (applied, pending)) \<Rightarrow>
               (db, Inr (case report of None \<Rightarrow> [] | Some rep \<Rightarrow> rep, pending)))))"

subsection \<open>Concurrent appliers\<close>

datatype phase =
    Starting
  | Booked
  | Locked
  | Applying "Migration list" "string list"
  | Finished "string list" "go_error option"

record 'd mig_state =
  ms_db :: "'d mdb"
  ms_lock :: "nat option"
  ms_lost :: bool
  ms_phase :: "nat \<Rightarrow> phase"

definition go_on :: "nat \<Rightarrow> phase \<Rightarrow> 'd mig_state \<Rightarrow> 'd mig_state" where
  "go_on i p s = s\<lparr>ms_phase := (ms_phase s)(i := p)\<rparr>"

definition unlock :: "nat \<Rightarrow> 'd mig_state \<Rightarrow> 'd mig_state" where
  "unlock i s = (if ms_lock s = Some i then s\<lparr>ms_lock := None\<rparr> else s)"

inductive mig_step :: "'d sql \<Rightarrow> Migration list \<Rightarrow> 'd mig_state \<Rightarrow> 'd mig_state \<Rightarrow> bool" for sql all where
  ensure: "ms_phase s i = Starting \<Longrightarrow> ensureBookkeeping True (ms_db s) = (db, Inr ())
     \<Longrightarrow> mig_step sql all s (go_on i Booked (s\<lparr>ms_db := db\<rparr>))"
| acquire: "ms_phase s i = Booked \<Longrightarrow> ms_lock s = None
     \<Longrightarrow> mig_step sql all s (go_on i Locked (s\<lparr>ms_lock := Some i\<rparr>))"
| read: "ms_phase s i = Locked \<Longrightarrow> appliedVersions True (ms_db s) = Inr applied
     \<Longrightarrow> mig_step sql all s (go_on i (Applying (filter (\<lambda>m. mig_Version m \<notin> set applied) all) []) s)"
| apply_ok: "ms_phase s i = Applying (m # ms) rep \<Longrightarrow> apply_one sql flt m (ms_db s) = (db, Inr ())
     \<Longrightarrow> mig_step sql all s (go_on i (Applying ms (rep @ [full_name m])) (s\<lparr>ms_db := db\<rparr>))"
| apply_fails: "ms_phase s i = Applying (m # ms) rep \<Longrightarrow> apply_one sql flt m (ms_db s) = (db, Inl e)
     \<Longrightarrow> mig_step sql all s (unlock i (go_on i (Finished rep (Some e)) (s\<lparr>ms_db := db\<rparr>)))"
| complete: "ms_phase s i = Applying [] rep
     \<Longrightarrow> mig_step sql all s (unlock i (go_on i (Finished rep None) s))"
| abandon: "mig_step sql all s (unlock i (go_on i (Finished rep (Some e)) s))"
| lose: "mig_step sql all s (s\<lparr>ms_lock := None, ms_lost := True\<rparr>)"

definition mig_start :: "'d mdb \<Rightarrow> 'd mig_state" where
  "mig_start db = \<lparr>ms_db = db, ms_lock = None, ms_lost = False, ms_phase = (\<lambda>_. Starting)\<rparr>"

subsection \<open>Laws of one applier\<close>

text \<open>However the library sorts, the embedded files load in version order, and no version occurs twice.\<close>

lemma embedded_versions:
  assumes "sort_slice srt"
  shows "\<exists>all. migrations_All srt (Inr (embedded_files cont)) = Inr all
     \<and> map mig_Version all = [''0001'', ''0002'', ''0003'', ''0004'', ''0005'', ''0006'', ''0007'', ''0008'', ''0009'']"
proof -
  let ?lt = "\<lambda>a b. mig_Version a < mig_Version b"
  let ?vs = "[''0001'', ''0002'', ''0003'', ''0004'', ''0005'', ''0006'', ''0007'', ''0008'', ''0009'']"
  obtain out where out: "load_entries (embedded_files cont) = Inr out" "map mig_Version out = ?vs"
    by (simp add: embedded_files_def has_suffix_def trim_suffix_def)
  have sw: "strict_weak ?lt" by (rule strict_weak_key)
  have "sorted_wrt (\<lambda>a b. \<not> ?lt b a) (srt ?lt out)" by (rule sort_slice.ordered [OF assms sw])
  then have srtd: "sorted (map mig_Version (srt ?lt out))" by (simp add: sorted_map not_less)
  have "mset (map mig_Version (srt ?lt out)) = mset (map mig_Version out)"
    using sort_slice.perm [OF assms sw, of out] by simp
  from properties_for_sort [OF this srtd] have "map mig_Version (srt ?lt out) = sort ?vs" by (simp only: out(2))
  moreover have "sort ?vs = ?vs" by code_simp
  ultimately show ?thesis using out(1) by (simp add: migrations_All_def)
qed

text \<open>The loop over all migrations is the loop over those not yet applied, as the step relation has it.\<close>

lemma up_loop_filter:
  "up_loop sql flt applied ms report db = up_loop sql flt [] (filter (\<lambda>m. mig_Version m \<notin> set applied) ms) report db"
  by (induction ms arbitrary: report db) (auto split: prod.splits sum.splits)

definition recorded :: "'d mdb \<Rightarrow> string list" where
  "recorded db = (case mdb_rows db of None \<Rightarrow> [] | Some rows \<Rightarrow> map fst rows)"

lemma apply_one_ok:
  "apply_one sql flt m db = (db', Inr ()) \<Longrightarrow> \<exists>rows schema. mdb_rows db = Some rows \<and> mig_Version m \<notin> set (map fst rows)
     \<and> sql (mig_SQL m) (mdb_schema db) = Inr schema
     \<and> db' = db\<lparr>mdb_rows := Some (rows @ [(mig_Version m, mig_Name m)]), mdb_schema := schema\<rparr>"
  by (auto simp: apply_one_def Let_def split: if_splits sum.splits option.splits fault.splits)

lemma apply_one_fails:
  "apply_one sql flt m db = (db', Inl e) \<Longrightarrow> db' = db \<or> apply_one sql NoFault m db = (db', Inr ())"
  by (auto simp: apply_one_def Let_def split: if_splits sum.splits option.splits fault.splits)

lemma up_loop_records:
  "up_loop sql flt applied ms report db = (db', rep, None) \<Longrightarrow>
     set (recorded db) \<subseteq> set (recorded db') \<and> (\<forall>m \<in> set ms. mig_Version m \<in> set applied \<union> set (recorded db'))
     \<and> (mdb_rows db \<noteq> None \<longrightarrow> mdb_rows db' \<noteq> None)"
proof (induction ms arbitrary: report db)
  case (Cons m ms)
  show ?case
  proof (cases "mig_Version m \<in> set applied")
    case True
    then show ?thesis using Cons by auto
  next
    case False
    obtain db1 where one: "apply_one sql (flt (mig_Version m)) m db = (db1, Inr ())"
        and rest: "up_loop sql flt applied ms (report @ [full_name m]) db1 = (db', rep, None)"
      using Cons.prems False by (auto split: prod.splits sum.splits)
    have "set (recorded db) \<subseteq> set (recorded db1)" "mig_Version m \<in> set (recorded db1)" "mdb_rows db1 \<noteq> None"
      using apply_one_ok [OF one] by (force simp: recorded_def)+
    then show ?thesis using Cons.IH [OF rest] by auto
  qed
qed simp

lemma Up_ok:
  assumes "Up sql srt h db = (db', rep, None)"
  obtains all rows rows' where "migrations_All srt (uh_dir h) = Inr all" "mdb_rows db' = Some rows'"
    "\<forall>m \<in> set all. mig_Version m \<in> set (map fst rows')"
proof -
  obtain all applied db1 where 1: "migrations_All srt (uh_dir h) = Inr all"
      "ensureBookkeeping (uh_ensure h) db = (db1, Inr ())" "appliedVersions (uh_read h) db1 = Inr applied"
      "up_loop sql (uh_fault h) applied all [] db1 = (db', the rep, None)"
    using assms by (auto simp: Up_def split: prod.splits sum.splits if_splits)
  have "mdb_rows db1 \<noteq> None" "set applied = set (recorded db1)"
    using 1(2,3) by (force simp: ensureBookkeeping_def appliedVersions_def recorded_def split: if_splits option.splits)+
  with up_loop_records [OF 1(4)] have "\<forall>m \<in> set all. mig_Version m \<in> set (recorded db')" "mdb_rows db' \<noteq> None"
    by blast+
  then show thesis by (intro that [OF 1(1), of "the (mdb_rows db')"]) (auto simp: recorded_def)
qed

text \<open>
  After a pass that succeeded nothing is pending, and a second pass applies nothing and changes nothing.
\<close>

lemma up_loop_skips:
  "\<forall>m \<in> set ms. mig_Version m \<in> set applied \<Longrightarrow> up_loop sql flt applied ms report db = (db, report, None)"
  by (induction ms) auto

lemma up_then_nothing_pending:
  assumes "Up sql srt h db = (db', rep, None)" and "ch_ensure c" and "ch_read c" and "ch_dir c = uh_dir h"
  shows "\<exists>applied. Current srt c db' = (db', Inr (applied, []))"
    and "uh_ensure g \<Longrightarrow> uh_conn g \<Longrightarrow> uh_lock g \<Longrightarrow> uh_read g \<Longrightarrow> uh_dir g = uh_dir h \<Longrightarrow> Up sql srt g db' = (db', Some [], None)"
proof -
  obtain all rows where 1: "migrations_All srt (uh_dir h) = Inr all" "mdb_rows db' = Some rows"
      "\<forall>m \<in> set all. mig_Version m \<in> set (map fst rows)"
    using assms(1) by (rule Up_ok)
  show "\<exists>applied. Current srt c db' = (db', Inr (applied, []))"
    using assms 1 by (simp add: Current_def ensureBookkeeping_def appliedVersions_def)
  show "uh_ensure g \<Longrightarrow> uh_conn g \<Longrightarrow> uh_lock g \<Longrightarrow> uh_read g \<Longrightarrow> uh_dir g = uh_dir h \<Longrightarrow> Up sql srt g db' = (db', Some [], None)"
    using 1 by (simp add: Up_def ensureBookkeeping_def appliedVersions_def up_loop_skips)
qed

subsection \<open>Laws of concurrent appliers\<close>

fun run_all :: "'d sql \<Rightarrow> Migration list \<Rightarrow> 'd \<Rightarrow> 'd result" where
  "run_all sql [] d = Inr d"
| "run_all sql (m # ms) d = and_then (sql (mig_SQL m) d) (run_all sql ms)"

lemma run_all_append: "run_all sql (xs @ ys) d = and_then (run_all sql xs d) (run_all sql ys)"
proof (induction xs arbitrary: d)
  case (Cons m xs)
  then show ?case by (cases "sql (mig_SQL m) d") simp_all
qed simp

text \<open>The first \<open>k\<close> migrations are applied and recorded, and nothing else.\<close>

definition at_version :: "'d sql \<Rightarrow> Migration list \<Rightarrow> 'd \<Rightarrow> nat \<Rightarrow> 'd mdb \<Rightarrow> bool" where
  "at_version sql all d0 k db \<longleftrightarrow> k \<le> length all \<and> recorded db = map mig_Version (take k all)
     \<and> run_all sql (take k all) d0 = Inr (mdb_schema db)"

definition critical :: "phase \<Rightarrow> bool" where
  "critical p = (case p of Locked \<Rightarrow> True | Applying _ _ \<Rightarrow> True | _ \<Rightarrow> False)"

definition mig_inv :: "'d sql \<Rightarrow> Migration list \<Rightarrow> 'd \<Rightarrow> nat \<Rightarrow> 'd mig_state \<Rightarrow> bool" where
  "mig_inv sql all d0 k s \<longleftrightarrow> at_version sql all d0 k (ms_db s)
     \<and> (\<forall>i todo rep. ms_phase s i = Applying todo rep \<longrightarrow> (\<exists>j \<le> k. todo = drop j all))
     \<and> (\<forall>i rep. ms_phase s i = Finished rep None \<longrightarrow> k = length all)
     \<and> (\<not> ms_lost s \<longrightarrow> (\<forall>i. critical (ms_phase s i) \<longrightarrow> ms_lock s = Some i))"

lemma mig_inv_go_on:
  assumes "mig_inv sql all d0 k s" and "at_version sql all d0 k' db" and "k \<le> k'"
    and "\<And>todo rep. p = Applying todo rep \<Longrightarrow> \<exists>j \<le> k'. todo = drop j all" and "\<And>rep. p = Finished rep None \<Longrightarrow> k' = length all"
    and "critical p \<Longrightarrow> \<not> ms_lost s \<Longrightarrow> ms_lock s = Some i"
  shows "mig_inv sql all d0 k' (go_on i p (s\<lparr>ms_db := db\<rparr>))"
proof -
  have "k = length all \<Longrightarrow> k' = length all" using assms(2,3) by (simp add: at_version_def)
  then have old: "ms_phase s x = Finished rep None \<Longrightarrow> k' = length all"
      "ms_phase s x = Applying todo rep \<Longrightarrow> \<exists>j \<le> k'. todo = drop j all"
      "critical (ms_phase s x) \<Longrightarrow> \<not> ms_lost s \<Longrightarrow> ms_lock s = Some x" for x todo rep
    using assms(1,3) unfolding mig_inv_def by - (blast, meson le_trans, blast)
  show ?thesis
    unfolding mig_inv_def go_on_def using assms(2,4,5,6) old by auto
qed

lemma mig_inv_unlock:
  assumes "mig_inv sql all d0 k s" and "\<not> critical (ms_phase s i)"
  shows "mig_inv sql all d0 k (unlock i s)"
  using assms by (auto simp: mig_inv_def unlock_def)

lemma applied_rest:
  assumes "distinct (map mig_Version all)" and "at_version sql all d0 k db"
  shows "filter (\<lambda>m. mig_Version m \<notin> set (recorded db)) all = drop k all"
proof -
  have "filter (\<lambda>m. mig_Version m \<notin> set (recorded db)) (take k all @ drop k all) = drop k all"
    using assms distinct_append [of "map mig_Version (take k all)" "map mig_Version (drop k all)"]
    unfolding filter_append at_version_def
    by (subst filter_False, force, subst filter_True) (auto simp flip: map_append)
  then show ?thesis by simp
qed

lemma at_version_apply:
  assumes "at_version sql all d0 k db" and "apply_one sql flt m db = (db', Inr ())" and "m # ms = drop j all" and "j \<le> k"
  shows "at_version sql all d0 (Suc k) db' \<and> j = k"
proof -
  obtain rows schema where one: "mdb_rows db = Some rows" "mig_Version m \<notin> set (map fst rows)"
      "sql (mig_SQL m) (mdb_schema db) = Inr schema"
      "db' = db\<lparr>mdb_rows := Some (rows @ [(mig_Version m, mig_Name m)]), mdb_schema := schema\<rparr>"
    using apply_one_ok [OF assms(2)] by blast
  have j: "j < length all" "all ! j = m"
    using assms(3) by (metis drop_eq_Nil linorder_not_less list.distinct(1), metis drop_eq_Nil hd_drop_conv_nth linorder_not_less list.distinct(1) list.sel(1))
  have "map fst rows = map mig_Version (take k all)"
    using assms(1) one(1) by (simp add: at_version_def recorded_def)
  moreover have "all ! j \<in> set (take k all)" if "j < k"
    using j(1) that by (metis in_set_conv_nth length_take min_less_iff_conj nth_take)
  ultimately have "\<not> j < k" using one(2) j by auto
  then have "j = k" using assms(4) by simp
  then show ?thesis
    using assms(1) one j by (simp add: at_version_def recorded_def take_Suc_conv_app_nth run_all_append)
qed

lemma mig_inv_at: "mig_inv sql all d0 k s \<Longrightarrow> at_version sql all d0 k (ms_db s)"
  by (simp add: mig_inv_def)

lemma mig_inv_holds_lock:
  "mig_inv sql all d0 k s \<Longrightarrow> critical (ms_phase s i) \<Longrightarrow> \<not> ms_lost s \<Longrightarrow> ms_lock s = Some i"
  by (simp add: mig_inv_def)

lemma mig_inv_finish:
  assumes "mig_inv sql all d0 k s" and "at_version sql all d0 k' db" and "k \<le> k'" and "err = None \<Longrightarrow> k' = length all"
  shows "mig_inv sql all d0 k' (unlock i (go_on i (Finished rep err) (s\<lparr>ms_db := db\<rparr>)))"
proof -
  have "mig_inv sql all d0 k' (go_on i (Finished rep err) (s\<lparr>ms_db := db\<rparr>))"
    by (rule mig_inv_go_on [OF assms(1-3)]) (use assms(4) in \<open>simp_all add: critical_def\<close>)
  then show ?thesis by (rule mig_inv_unlock) (simp add: go_on_def critical_def)
qed

lemma mig_inv_todo:
  assumes "mig_inv sql all d0 k s" and "ms_phase s i = Applying todo rep"
  obtains j where "j \<le> k" "todo = drop j all"
  using assms unfolding mig_inv_def by blast

lemma mig_inv_step:
  assumes "mig_step sql all s s'" and inv: "mig_inv sql all d0 k s" and "distinct (map mig_Version all)"
  shows "\<exists>k'. mig_inv sql all d0 k' s'"
  using assms(1)
proof cases
  case (ensure i db)
  have "recorded db = recorded (ms_db s)" "mdb_schema db = mdb_schema (ms_db s)"
    using ensure(3) by (auto simp: ensureBookkeeping_def recorded_def split: option.splits)
  then have "at_version sql all d0 k db" using mig_inv_at [OF inv] by (simp add: at_version_def)
  then have "mig_inv sql all d0 k s'"
    unfolding ensure(1) by (rule mig_inv_go_on [OF inv]) (simp_all add: critical_def)
  then show ?thesis ..
next
  case (acquire i)
  have "mig_inv sql all d0 k (s\<lparr>ms_lock := Some i\<rparr>)"
    using inv acquire(3) by (auto simp: mig_inv_def)
  from mig_inv_go_on [OF this mig_inv_at [OF inv], of Locked i] have "mig_inv sql all d0 k s'"
    by (simp add: acquire(1))
  then show ?thesis ..
next
  case (read i applied)
  have "recorded (ms_db s) = applied"
    using read(3) by (auto simp: appliedVersions_def recorded_def split: option.splits)
  with applied_rest [OF assms(3) mig_inv_at [OF inv]]
  have todo: "filter (\<lambda>m. mig_Version m \<notin> set applied) all = drop k all" by simp
  have lock: "ms_lock s = Some i" if "\<not> ms_lost s"
    using mig_inv_holds_lock [OF inv _ that, of i] by (simp add: read(2) critical_def)
  have "mig_inv sql all d0 k (go_on i (Applying (drop k all) []) (s\<lparr>ms_db := ms_db s\<rparr>))"
    by (rule mig_inv_go_on [OF inv mig_inv_at [OF inv]]) (use lock in \<open>simp_all, blast\<close>)
  then have "mig_inv sql all d0 k s'" by (simp add: read(1) todo)
  then show ?thesis ..
next
  case (apply_ok i m ms rep flt db)
  obtain j where j: "j \<le> k" "m # ms = drop j all" using mig_inv_todo [OF inv apply_ok(2)] .
  have at: "at_version sql all d0 (Suc k) db" "j = k"
    using at_version_apply [OF mig_inv_at [OF inv] apply_ok(3) j(2,1)] by simp_all
  have lock: "ms_lock s = Some i" if "\<not> ms_lost s"
    using mig_inv_holds_lock [OF inv _ that, of i] by (simp add: apply_ok(2) critical_def)
  have todo: "ms = drop (Suc k) all" using j(2) at(2) by (metis drop_Suc list.sel(3) tl_drop)
  have "mig_inv sql all d0 (Suc k) s'"
    unfolding apply_ok(1) todo by (rule mig_inv_go_on [OF inv at(1)]) (use lock in \<open>simp_all, blast\<close>)
  then show ?thesis ..
next
  case (apply_fails i m ms rep flt db e)
  obtain j where j: "j \<le> k" "m # ms = drop j all" using mig_inv_todo [OF inv apply_fails(2)] .
  have "\<exists>k' \<ge> k. at_version sql all d0 k' db"
    using apply_one_fails [OF apply_fails(3)] at_version_apply [OF mig_inv_at [OF inv] _ j(2,1)] mig_inv_at [OF inv]
    by (metis le_SucI order_refl)
  then obtain k' where "k \<le> k'" "at_version sql all d0 k' db" by blast
  then have "mig_inv sql all d0 k' s'"
    unfolding apply_fails(1) by (intro mig_inv_finish [OF inv]) simp_all
  then show ?thesis ..
next
  case (complete i rep)
  obtain j where "j \<le> k" "[] = drop j all" using mig_inv_todo [OF inv complete(2)] .
  then have "k = length all" using mig_inv_at [OF inv] by (simp add: at_version_def)
  with mig_inv_finish [OF inv mig_inv_at [OF inv], of None i rep] show ?thesis
    unfolding complete(1) by auto
next
  case (abandon i rep e)
  from mig_inv_finish [OF inv mig_inv_at [OF inv], of "Some e" i rep] show ?thesis
    unfolding abandon by auto
next
  case lose
  then have "mig_inv sql all d0 k s'" using inv by (simp add: mig_inv_def)
  then show ?thesis ..
qed

text \<open>
  C25: schema migrations are applied once and in order, whatever concurrent appliers do. From a fresh
  database, after any interleaving of appliers that fail, disappear, lose the answer of a commit or lose
  the advisory lock, the bookkeeping table names exactly the first \<open>k\<close> migrations of the list the appliers
  are given and the schema is what these \<open>k\<close> files make of the empty one; once any applier has reported
  success all files are applied; and unless a lock was lost, no two appliers are past it at the same
  time. The order is that of the list \<open>all\<close>, whose versions are distinct: \<^verbatim>\<open>db.All\<close> sorts the embedded files by
  version before it hands them over, which is outside this statement.
\<close>

theorem migrations_once_in_order:
  assumes "distinct (map mig_Version all)" and "mdb_rows db = None"
    and "(mig_step sql all)\<^sup>*\<^sup>* (mig_start db) s"
  shows "\<exists>k \<le> length all. recorded (ms_db s) = map mig_Version (take k all)
     \<and> run_all sql (take k all) (mdb_schema db) = Inr (mdb_schema (ms_db s))
     \<and> (\<forall>i rep. ms_phase s i = Finished rep None \<longrightarrow> k = length all)
     \<and> (\<forall>i j. critical (ms_phase s i) \<and> critical (ms_phase s j) \<longrightarrow> ms_lost s \<or> i = j)"
proof -
  have "\<exists>k. mig_inv sql all (mdb_schema db) k s"
    using assms(3)
  proof (induction rule: rtranclp_induct)
    case base
    have "mig_inv sql all (mdb_schema db) 0 (mig_start db)"
      using assms(2) by (simp add: mig_inv_def mig_start_def at_version_def recorded_def critical_def)
    then show ?case ..
  next
    case (step s s')
    then show ?case using mig_inv_step [OF step(2) _ assms(1)] by blast
  qed
  then obtain k where inv: "mig_inv sql all (mdb_schema db) k s" ..
  then have "critical (ms_phase s i) \<Longrightarrow> critical (ms_phase s j) \<Longrightarrow> ms_lost s \<or> i = j" for i j
    using mig_inv_holds_lock [OF inv, of i] mig_inv_holds_lock [OF inv, of j] by auto
  then show ?thesis
    using inv unfolding mig_inv_def at_version_def by blast
qed

definition ex_migration :: "string \<Rightarrow> Migration" where
  "ex_migration v = \<lparr>mig_Version = v, mig_Name = ''n'', mig_SQL = ''s'' @ v\<rparr>"

definition ex_sql :: "string list sql" where
  "ex_sql file d = Inr (d @ [file])"

theorem migrations_once_in_order_witness:
  "\<exists>s. (mig_step ex_sql [ex_migration ''0001'', ex_migration ''0002''])\<^sup>*\<^sup>*
          (mig_start \<lparr>mdb_rows = None, mdb_schema = []\<rparr>) s
     \<and> ms_phase s 7 = Finished [''0001_n'', ''0002_n''] None \<and> mdb_schema (ms_db s) = [''s0001'', ''s0002'']"
proof -
  let ?all = "[ex_migration ''0001'', ex_migration ''0002'']" and ?db = "\<lparr>mdb_rows = None, mdb_schema = []\<rparr> :: string list mdb"
  let ?step = "mig_step ex_sql ?all"
  define s1 where "s1 = go_on 7 Booked ((mig_start ?db)\<lparr>ms_db := \<lparr>mdb_rows = Some [], mdb_schema = []\<rparr>\<rparr>)"
  define s2 where "s2 = go_on 7 Locked (s1\<lparr>ms_lock := Some 7\<rparr>)"
  define s3 where "s3 = go_on 7 (Applying ?all []) s2"
  define s4 where "s4 = go_on 7 (Applying [ex_migration ''0002''] [''0001_n''])
     (s3\<lparr>ms_db := \<lparr>mdb_rows = Some [(''0001'', ''n'')], mdb_schema = [''s0001'']\<rparr>\<rparr>)"
  define s5 where "s5 = go_on 7 (Applying [] [''0001_n'', ''0002_n''])
     (s4\<lparr>ms_db := \<lparr>mdb_rows = Some [(''0001'', ''n''), (''0002'', ''n'')], mdb_schema = [''s0001'', ''s0002'']\<rparr>\<rparr>)"
  define s6 where "s6 = unlock 7 (go_on 7 (Finished [''0001_n'', ''0002_n''] None) s5)"
  have 1: "?step (mig_start ?db) s1"
    unfolding s1_def by (rule mig_step.ensure) (simp_all add: mig_start_def ensureBookkeeping_def)
  have 2: "?step s1 s2"
    unfolding s2_def by (rule mig_step.acquire) (simp_all add: s1_def go_on_def mig_start_def)
  have 3: "?step s2 s3"
    using mig_step.read [of s2 7 "[]" ex_sql ?all]
    by (simp add: s3_def s2_def s1_def go_on_def mig_start_def appliedVersions_def)
  have 4: "?step s3 s4"
    using mig_step.apply_ok [of s3 7 "ex_migration ''0001''" "[ex_migration ''0002'']" "[]" ex_sql NoFault _ ?all]
    by (simp add: s4_def s3_def s2_def s1_def go_on_def apply_one_def ex_sql_def ex_migration_def full_name_def)
  have 5: "?step s4 s5"
    using mig_step.apply_ok [of s4 7 "ex_migration ''0002''" "[]" "[''0001_n'']" ex_sql NoFault _ ?all]
    by (simp add: s5_def s4_def go_on_def apply_one_def ex_sql_def ex_migration_def full_name_def)
  have 6: "?step s5 s6"
    unfolding s6_def by (rule mig_step.complete) (simp add: s5_def go_on_def)
  have reach: "?step\<^sup>*\<^sup>* (mig_start ?db) s6"
    using 1 2 3 4 5 6 by (meson converse_rtranclp_into_rtranclp rtranclp.rtrancl_refl)
  have fin: "ms_phase s6 7 = Finished [''0001_n'', ''0002_n''] None"
    by (simp add: s6_def go_on_def unlock_def)
  have "distinct (map mig_Version ?all)" by (simp add: ex_migration_def)
  from migrations_once_in_order [OF this _ reach] fin
  have "run_all ex_sql ?all [] = Inr (mdb_schema (ms_db s6))"
    by (metis mdb.select_convs(1,2) order_refl take_all)
  with reach fin show ?thesis by (auto simp: ex_sql_def ex_migration_def)
qed

end
