(* ===== verification/Cli_Outbox.thy ===== *)
theory Cli_Outbox
  imports Outbox_Services Go_Parse
begin

section \<open>The outbox commands (internal/cli/outbox.go)\<close>

text \<open>
  A command takes its arguments and the world to the world, an exit code and the lines it printed on
  the two streams. A line is a value with what it renders; the text around it is not modelled. The
  standard \<^verbatim>\<open>flag\<close> package is written out: one or two dashes, \<^verbatim>\<open>name=value\<close>, flags that take the next argument,
  and the stop at the first positional or \<^verbatim>\<open>--\<close>. Building the application from the configuration, the
  number syntax of an integer flag, the pagination token and whether the JSON encoder can write are
  arguments (\<open>cli_env\<close>).
\<close>

definition exitOK :: int where "exitOK = 0"
definition exitFailure :: int where "exitFailure = 1"
definition exitUsage :: int where "exitUsage = 2"

subsection \<open>Flags\<close>

datatype flag_kind = BoolFlag | StringFlag | IntFlag
datatype flag_val = VBool bool | VStr string | VInt int

type_synonym flag_set = "(string, flag_kind) gomap"
type_synonym flag_vals = "(string, flag_val) gomap"

definition flag_set_val :: "(string \<Rightarrow> int option) \<Rightarrow> flag_kind \<Rightarrow> string \<Rightarrow> flag_val option" where
  "flag_set_val parseInt kind v =
     (case kind of
        BoolFlag \<Rightarrow> map_option VBool (ParseBool v)
      | StringFlag \<Rightarrow> Some (VStr v)
      | IntFlag \<Rightarrow> map_option VInt (parseInt v))"

text \<open>\<open>None\<close> is a parse error (or the help flag), for which the flag set has printed its own message.\<close>

fun flag_Parse :: "(string \<Rightarrow> int option) \<Rightarrow> flag_set \<Rightarrow> string list \<Rightarrow> flag_vals \<Rightarrow> (flag_vals \<times> string list) option" where
  "flag_Parse pi fs [] vals = Some (vals, [])"
| "flag_Parse pi fs (s # args) vals =
     (if length s < 2 \<or> hd s \<noteq> CHR ''-'' then Some (vals, s # args)
      else if s = ''--'' then Some (vals, args)
      else
        (let name = (if s ! 1 = CHR ''-'' then drop 2 s else drop 1 s) in
         if name = [] \<or> hd name = CHR ''-'' \<or> hd name = CHR ''='' then None
         else
           (case strings_Cut (CHR ''='') name of (before, after, found) \<Rightarrow>
            (let n = (if found then before else name) in
             case lookup fs n of
               None \<Rightarrow> None
             | Some kind \<Rightarrow>
                 (if found then
                    (case flag_set_val pi kind after of None \<Rightarrow> None | Some v \<Rightarrow> flag_Parse pi fs args (insert_map n v vals))
                  else if kind = BoolFlag then flag_Parse pi fs args (insert_map n (VBool True) vals)
                  else
                    (case args of
                       [] \<Rightarrow> None
                     | a # rest \<Rightarrow>
                         (case flag_set_val pi kind a of None \<Rightarrow> None | Some v \<Rightarrow> flag_Parse pi fs rest (insert_map n v vals))))))))"

definition str_flag :: "flag_vals \<Rightarrow> string \<Rightarrow> string" where
  "str_flag vals n = (case lookup vals n of Some (VStr v) \<Rightarrow> v | _ \<Rightarrow> [])"

definition bool_flag :: "flag_vals \<Rightarrow> string \<Rightarrow> bool" where
  "bool_flag vals n = (case lookup vals n of Some (VBool b) \<Rightarrow> b | _ \<Rightarrow> False)"

definition int_flag :: "flag_vals \<Rightarrow> string \<Rightarrow> int \<Rightarrow> int" where
  "int_flag vals n d = (case lookup vals n of Some (VInt i) \<Rightarrow> i | _ \<Rightarrow> d)"

definition commonFlags :: flag_set where
  "commonFlags = [(''config'', StringFlag), (''tenant'', StringFlag), (''json'', BoolFlag)]"

definition looksLikeFlag :: "string \<Rightarrow> bool" where
  "looksLikeFlag tok \<longleftrightarrow> length tok > 1 \<and> hd tok = CHR ''-''"

definition takesValue :: "flag_set \<Rightarrow> string \<Rightarrow> bool" where
  "takesValue fs name = (case lookup fs name of None \<Rightarrow> False | Some kind \<Rightarrow> kind \<noteq> BoolFlag)"

fun reorderPositionalsLast :: "flag_set \<Rightarrow> string list \<Rightarrow> string list \<times> string list" where
  "reorderPositionalsLast fs [] = ([], [])"
| "reorderPositionalsLast fs (tok # args) =
     (if tok = ''--'' then (tok # args, [])
      else if length tok < 2 \<or> hd tok \<noteq> CHR ''-'' then
        (case reorderPositionalsLast fs args of (f, p) \<Rightarrow> (f, tok # p))
      else
        (let name = dropWhile ((=) (CHR ''-'')) tok in
         case args of
           [] \<Rightarrow> ([tok], [])
         | a # rest \<Rightarrow>
             (if CHR ''='' \<in> set name \<or> \<not> takesValue fs name \<or> looksLikeFlag a then
                (case reorderPositionalsLast fs (a # rest) of (f, p) \<Rightarrow> (tok # f, p))
              else (case reorderPositionalsLast fs rest of (f, p) \<Rightarrow> (tok # a # f, p)))))"

subsection \<open>Commands\<close>

datatype cli_line =
    OutboxUsage | RetentionUsage | UsageLine string | UnknownCommand string | RequiredFlags | UnknownAction
  | ConfigInvalid | StartFailed
  | TypedError ErrorKind string
  | SummaryLine DeadLetterSummary | SummaryJSON DeadLetterSummary | NextPage string
  | Detail DeadLetterSummary
  | RefuseDiscard string int int int
  | MutationLine string string int int | MutationJSON OutboxMutationResult
  | RefuseSweep int int Time
  | RetentionLine string int int Time | RetentionJSON RetentionSweepResult

record cli_res =
  cli_exit :: int
  cli_stdout :: "cli_line list"
  cli_stderr :: "cli_line list"

record cli_env =
  ce_build :: "string \<Rightarrow> cli_line + GCConfig"
  ce_parseInt :: "string \<Rightarrow> int option"
  ce_json :: bool
  ce_encodeCursor :: "Time \<Rightarrow> string \<Rightarrow> string"
  ce_decodeCursor :: "string \<Rightarrow> (Time \<times> string) option"
  ce_marshal :: "Event \<Rightarrow> bytes result"
  ce_sort :: addr_sort

type_synonym command = "world \<Rightarrow> world \<times> cli_res"

definition exit_with :: "int \<Rightarrow> cli_line list \<Rightarrow> cli_line list \<Rightarrow> command" where
  "exit_with code out err w = (w, \<lparr>cli_exit = code, cli_stdout = out, cli_stderr = err\<rparr>)"

text \<open>\<open>with_op f failed k\<close> runs a service call: \<open>failed\<close> on an error, \<open>k\<close> on a result.\<close>

definition with_op :: "'a eng_op \<Rightarrow> (go_error \<Rightarrow> command) \<Rightarrow> ('a \<Rightarrow> command) \<Rightarrow> command" where
  "with_op f failed k w = (case f w of (w', Inl e) \<Rightarrow> failed e w' | (w', Inr x) \<Rightarrow> k x w')"

text \<open>A type assertion, not \<^verbatim>\<open>errors.As\<close>: a wrapped domain error is printed as internal.\<close>

fun typed_error :: "go_error \<Rightarrow> cli_line" where
  "typed_error (Error kind code _) = TypedError kind code"
| "typed_error _ = TypedError ErrKindInternal ''internal''"

definition fail_typed :: "go_error \<Rightarrow> command" where
  "fail_typed e = exit_with exitFailure [] [typed_error e]"

definition buildWorld :: "cli_env \<Rightarrow> string \<Rightarrow> (GCConfig \<Rightarrow> command) \<Rightarrow> command" where
  "buildWorld env configPath k =
     (case ce_build env configPath of Inl line \<Rightarrow> exit_with exitFailure [] [line] | Inr cfg \<Rightarrow> k cfg)"

definition encode_failed :: "cli_line list \<Rightarrow> command" where
  "encode_failed out = exit_with exitFailure out [TypedError ErrKindInternal ''internal'']"

definition deadLetterList :: "cli_env \<Rightarrow> ListDeadLettersRequest \<Rightarrow> bool \<Rightarrow> command" where
  "deadLetterList env req asJSON =
     with_op (Service_ListDeadLetters (ce_sort env) req) fail_typed (\<lambda>page.
       if asJSON then
         (if page \<noteq> [] \<and> \<not> ce_json env then encode_failed [] else exit_with exitOK (map SummaryJSON page) [])
       else exit_with exitOK
         (map SummaryLine page
          @ (if page \<noteq> [] then [NextPage (ce_encodeCursor env (dl_CreatedAt (last page)) (dl_ID (last page)))] else [])) [])"

definition runDeadLetterList :: "cli_env \<Rightarrow> string list \<Rightarrow> command" where
  "runDeadLetterList env args =
     (let fs = commonFlags @ [(''limit'', IntFlag), (''after'', StringFlag)] in
      case flag_Parse (ce_parseInt env) fs (fst (reorderPositionalsLast fs args)) [] of
        None \<Rightarrow> exit_with exitUsage [] []
      | Some (vals, _) \<Rightarrow>
          buildWorld env (str_flag vals ''config'') (\<lambda>_.
            let req = \<lparr>ldl_TenantID = str_flag vals ''tenant'', ldl_AfterCreatedAt = 0, ldl_AfterID = [],
                       ldl_Limit = int_flag vals ''limit'' 50\<rparr> in
            if str_flag vals ''after'' \<noteq> [] then
              (case ce_decodeCursor env (str_flag vals ''after'') of
                 None \<Rightarrow> fail_typed (Invalidf ''outbox_page_cursor'')
               | Some (at, ident) \<Rightarrow>
                   (if ident = [] then fail_typed (Invalidf ''outbox_page_cursor'')
                    else deadLetterList env (req\<lparr>ldl_AfterCreatedAt := at, ldl_AfterID := ident\<rparr>) (bool_flag vals ''json'')))
            else deadLetterList env req (bool_flag vals ''json'')))"

definition deadLetterShow :: "cli_env \<Rightarrow> string \<Rightarrow> string \<Rightarrow> bool \<Rightarrow> command" where
  "deadLetterShow env tenantID messageID asJSON =
     with_op (Service_GetDeadLetter tenantID messageID) fail_typed (\<lambda>summary.
       if asJSON then (if \<not> ce_json env then encode_failed [] else exit_with exitOK [SummaryJSON summary] [])
       else exit_with exitOK [Detail summary] [])"

definition runDeadLetterShow :: "cli_env \<Rightarrow> string list \<Rightarrow> command" where
  "runDeadLetterShow env args =
     (case reorderPositionalsLast commonFlags args of (flagArgs, rest) \<Rightarrow>
      case flag_Parse (ce_parseInt env) commonFlags flagArgs [] of
        None \<Rightarrow> exit_with exitUsage [] []
      | Some (vals, _) \<Rightarrow>
          (if length rest \<noteq> 1 then exit_with exitUsage [] [UsageLine ''show'']
           else buildWorld env (str_flag vals ''config'') (\<lambda>_.
             deadLetterShow env (str_flag vals ''tenant'') (rest ! 0) (bool_flag vals ''json''))))"

record mutateParams =
  mp_tenant :: string
  mp_message :: string
  mp_actor :: string
  mp_reason :: string
  mp_traceID :: string
  mp_asJSON :: bool
  mp_confirmed :: bool

definition actionRequeue :: string where "actionRequeue = ''requeue''"
definition actionDiscard :: string where "actionDiscard = ''discard''"

definition pastTense :: "string \<Rightarrow> string" where
  "pastTense action = (if action = actionDiscard then ''discarded'' else ''requeued'')"

definition mutation_done :: "cli_env \<Rightarrow> string \<Rightarrow> bool \<Rightarrow> OutboxMutationResult \<Rightarrow> command" where
  "mutation_done env action asJSON res =
     (if asJSON then (if \<not> ce_json env then encode_failed [] else exit_with exitOK [MutationJSON res] [])
      else exit_with exitOK
        [MutationLine (pastTense action) (mres_MessageID res) (mres_Generation res) (mres_AttemptsBefore res)] [])"

definition deadLetterMutate :: "cli_env \<Rightarrow> string \<Rightarrow> mutateParams \<Rightarrow> command" where
  "deadLetterMutate env action p =
     with_op (Service_GetDeadLetter (mp_tenant p) (mp_message p)) fail_typed (\<lambda>summary.
       if action = actionDiscard \<and> \<not> mp_confirmed p then
         exit_with exitUsage []
           [RefuseDiscard (dl_ID summary) (dl_Generation summary) (dl_Attempts summary) (dl_MaxAttempts summary)]
       else
         (let req = \<lparr>mr_TenantID = mp_tenant p, mr_MessageID = mp_message p, mr_ExpectedGeneration = dl_Generation summary,
                     mr_Actor = \<lparr>actor_Type = PrincipalHuman, actor_ID = mp_actor p\<rparr>,
                     mr_Reason = mp_reason p, mr_TraceID = mp_traceID p\<rparr> in
          if action = actionRequeue then
            with_op (Requeue (ce_marshal env) Background req) fail_typed (mutation_done env action (mp_asJSON p))
          else if action = actionDiscard then
            with_op (Discard (ce_marshal env) Background req) fail_typed (mutation_done env action (mp_asJSON p))
          else exit_with exitUsage [] [UnknownAction]))"

definition mutateFlags :: flag_set where
  "mutateFlags = commonFlags @
     [(''actor'', StringFlag), (''reason'', StringFlag), (''trace-id'', StringFlag), (''yes'', BoolFlag)]"

definition runDeadLetterMutate :: "cli_env \<Rightarrow> string list \<Rightarrow> string \<Rightarrow> command" where
  "runDeadLetterMutate env args action =
     (case reorderPositionalsLast mutateFlags args of (flagArgs, rest) \<Rightarrow>
      case flag_Parse (ce_parseInt env) mutateFlags flagArgs [] of
        None \<Rightarrow> exit_with exitUsage [] []
      | Some (vals, _) \<Rightarrow>
          (if length rest \<noteq> 1 then exit_with exitUsage [] [UsageLine action]
           else if trim_space (str_flag vals ''tenant'') = [] \<or> trim_space (str_flag vals ''actor'') = []
           then exit_with exitUsage [] [RequiredFlags]
           else buildWorld env (str_flag vals ''config'') (\<lambda>_.
             deadLetterMutate env action
               \<lparr>mp_tenant = str_flag vals ''tenant'', mp_message = rest ! 0, mp_actor = str_flag vals ''actor'',
                mp_reason = str_flag vals ''reason'', mp_traceID = str_flag vals ''trace-id'',
                mp_asJSON = bool_flag vals ''json'', mp_confirmed = bool_flag vals ''yes''\<rparr>)))"

definition runDeadLetter :: "cli_env \<Rightarrow> string list \<Rightarrow> command" where
  "runDeadLetter env args =
     (case args of
        [] \<Rightarrow> exit_with exitUsage [] [OutboxUsage]
      | cmd # rest \<Rightarrow>
          (if cmd = ''list'' then runDeadLetterList env rest
           else if cmd = ''show'' then runDeadLetterShow env rest
           else if cmd = ''requeue'' then runDeadLetterMutate env rest actionRequeue
           else if cmd = ''discard'' then runDeadLetterMutate env rest actionDiscard
           else exit_with exitUsage [] [UnknownCommand cmd, OutboxUsage]))"

definition retention_done :: "cli_env \<Rightarrow> bool \<Rightarrow> bool \<Rightarrow> RetentionSweepResult \<Rightarrow> command" where
  "retention_done env del asJSON res =
     (if asJSON then (if \<not> ce_json env then encode_failed [] else exit_with exitOK [RetentionJSON res] [])
      else exit_with exitOK
        [RetentionLine (if del then ''swept'' else ''preview'') (rr_DeletedDelivered res) (rr_DeletedDiscarded res) (rr_Cutoff res)] [])"

definition retentionSweep :: "cli_env \<Rightarrow> GCConfig \<Rightarrow> bool \<Rightarrow> bool \<Rightarrow> bool \<Rightarrow> command" where
  "retentionSweep env cfg del confirmed asJSON =
     (if del \<and> \<not> confirmed then
        with_op (Preview (ce_sort env) cfg) fail_typed (\<lambda>res.
          exit_with exitUsage [] [RefuseSweep (rr_DeletedDelivered res) (rr_DeletedDiscarded res) (rr_Cutoff res)])
      else if del then
        with_op (Round (ce_sort env) cfg) fail_typed (\<lambda>(res, _). retention_done env del asJSON res)
      else
        with_op (Preview (ce_sort env) cfg) fail_typed (retention_done env del asJSON))"

definition retentionFlags :: flag_set where
  "retentionFlags = commonFlags @ [(''yes'', BoolFlag)]"

definition runRetentionSweep :: "cli_env \<Rightarrow> string list \<Rightarrow> bool \<Rightarrow> command" where
  "runRetentionSweep env args destructive =
     (case flag_Parse (ce_parseInt env) retentionFlags (fst (reorderPositionalsLast retentionFlags args)) [] of
        None \<Rightarrow> exit_with exitUsage [] []
      | Some (vals, _) \<Rightarrow>
          buildWorld env (str_flag vals ''config'') (\<lambda>cfg.
            retentionSweep env cfg destructive (bool_flag vals ''yes'') (bool_flag vals ''json'')))"

definition runOutboxRetention :: "cli_env \<Rightarrow> string list \<Rightarrow> command" where
  "runOutboxRetention env args =
     (case args of
        [] \<Rightarrow> exit_with exitOK [RetentionUsage] []
      | cmd # rest \<Rightarrow>
          (if cmd = ''-h'' \<or> cmd = ''--help'' then exit_with exitOK [RetentionUsage] []
           else if cmd = ''preview'' then runRetentionSweep env rest False
           else if cmd = ''sweep'' then runRetentionSweep env rest True
           else exit_with exitUsage [] [UnknownCommand cmd, RetentionUsage]))"

definition runOutbox :: "cli_env \<Rightarrow> string list \<Rightarrow> command" where
  "runOutbox env args =
     (case args of
        [] \<Rightarrow> exit_with exitOK [OutboxUsage] []
      | cmd # rest \<Rightarrow>
          (if cmd = ''-h'' \<or> cmd = ''--help'' then exit_with exitOK [OutboxUsage] []
           else if cmd = ''dead-letter'' then runDeadLetter env rest
           else if cmd = ''retention'' then runOutboxRetention env rest
           else exit_with exitUsage [] [UnknownCommand cmd, OutboxUsage]))"

subsection \<open>Command lines and printed errors\<close>

text \<open>Flags may stand on either side of the message.\<close>

lemma flags_on_either_side:
  "reorderPositionalsLast mutateFlags ([m, ''--reason'', r, ''--yes''])
     = reorderPositionalsLast mutateFlags ([''--reason'', r, ''--yes'', m])"
  if "\<not> looksLikeFlag m" and "\<not> looksLikeFlag r" and "m \<noteq> ''--''"
  using that by (auto simp: looksLikeFlag_def mutateFlags_def commonFlags_def takesValue_def Let_def)

text \<open>
  A flag without its value takes the flag after it as the value: the reason below is the text of the
  confirmation, and the command is not confirmed.
\<close>

lemma missing_value_swallows_flag:
  "flag_Parse ParseInt64 mutateFlags (fst (reorderPositionalsLast mutateFlags [''m1'', ''--reason'', ''--yes''])) []
     = Some ([(''reason'', VStr ''--yes'')], [])"
  by (simp add: mutateFlags_def commonFlags_def takesValue_def looksLikeFlag_def flag_set_val_def Let_def)

text \<open>A wrapped domain error is printed as internal, although it carries its classification.\<close>

lemma wrapped_error_printed_internal:
  "typed_error (Wrapped (Error kind code cause)) = TypedError ErrKindInternal ''internal''
   \<and> ErrKindOf (Wrapped (Error kind code cause)) = kind"
  by simp

subsection \<open>What a command may change\<close>

definition confirmed :: "cli_env \<Rightarrow> flag_set \<Rightarrow> string list \<Rightarrow> bool" where
  "confirmed env fs args =
     (case flag_Parse (ce_parseInt env) fs (fst (reorderPositionalsLast fs args)) [] of
        None \<Rightarrow> False | Some (vals, _) \<Rightarrow> bool_flag vals ''yes'')"

definition mutating :: "cli_env \<Rightarrow> string list \<Rightarrow> bool" where
  "mutating env args =
     (case args of
        topic # cmd # rest \<Rightarrow>
          topic = ''dead-letter'' \<and> (cmd = ''requeue'' \<or> cmd = ''discard'' \<and> confirmed env mutateFlags rest)
          \<or> topic = ''retention'' \<and> cmd = ''sweep'' \<and> confirmed env retentionFlags rest
      | _ \<Rightarrow> False)"

text \<open>
  A command is \<open>careful b\<close> when it changes the store only if \<open>b\<close>, never with the usage status, and never
  with another error status while results can be printed.
\<close>

definition careful :: "cli_env \<Rightarrow> bool \<Rightarrow> command \<Rightarrow> bool" where
  "careful env b c \<longleftrightarrow> (\<forall>w w' res. c w = (w', res) \<longrightarrow>
     (\<not> b \<longrightarrow> w_store w' = w_store w) \<and> (cli_exit res = exitUsage \<longrightarrow> w_store w' = w_store w)
     \<and> (struct_ok (w_store w) \<and> ce_json env \<and> cli_exit res \<noteq> exitOK \<longrightarrow> wview w' = wview w))"

named_theorems careful_rules \<open>commands that are careful\<close>

lemmas exit_codes = exitOK_def exitFailure_def exitUsage_def

lemma careful_exit [careful_rules]: "careful env b (exit_with code out err)"
  by (simp add: careful_def exit_with_def)

lemma careful_fail [careful_rules]: "careful env b (fail_typed e)"
  by (simp add: fail_typed_def careful_exit)

lemma careful_build [careful_rules]: "(\<And>cfg. careful env b (k cfg)) \<Longrightarrow> careful env b (buildWorld env path k)"
  by (simp add: buildWorld_def careful_exit split: sum.splits)

lemma careful_mono: "careful env False c \<Longrightarrow> careful env b c"
  by (auto simp: careful_def)

text \<open>A service call that only reads.\<close>

lemma careful_read:
  assumes "\<And>w. w_store (fst (f w)) = w_store w" and "\<And>x. careful env b (k x)"
  shows "careful env b (with_op f fail_typed k)"
  unfolding careful_def
proof (intro allI impI)
  fix w w' res assume run: "with_op f fail_typed k w = (w', res)"
  obtain w1 r where f: "f w = (w1, r)" by (cases "f w")
  have st: "w_store w1 = w_store w" using assms(1) [of w] f by simp
  have c: "careful env b (case r of Inl e \<Rightarrow> fail_typed e | Inr x \<Rightarrow> k x)"
    using assms(2) careful_fail by (cases r) auto
  have "(case r of Inl e \<Rightarrow> fail_typed e | Inr x \<Rightarrow> k x) w1 = (w', res)"
    using run f by (auto simp: with_op_def split: sum.splits)
  with c st show "(\<not> b \<longrightarrow> w_store w' = w_store w) \<and> (cli_exit res = exitUsage \<longrightarrow> w_store w' = w_store w)
     \<and> (struct_ok (w_store w) \<and> ce_json env \<and> cli_exit res \<noteq> exitOK \<longrightarrow> wview w' = wview w)"
    unfolding careful_def wview_def by metis
qed

text \<open>A service call that changes the store only when it succeeds, followed by printing its result.\<close>

definition prints :: "cli_env \<Rightarrow> command \<Rightarrow> bool" where
  "prints env c \<longleftrightarrow> (\<exists>code out err. c = exit_with code out err \<and> code \<noteq> exitUsage \<and> (ce_json env \<longrightarrow> code = exitOK))"

lemma prints_exit: "prints env (exit_with exitOK out err)" "\<not> ce_json env \<Longrightarrow> prints env (encode_failed out)"
  unfolding prints_def encode_failed_def by (metis exit_codes numeral_eq_one_iff one_neq_zero semiring_norm(85) zero_neq_numeral)+

lemma careful_write:
  assumes "\<And>w w' e. struct_ok (w_store w) \<Longrightarrow> f w = (w', Inl e) \<Longrightarrow> wview w' = wview w"
    and "\<And>x. prints env (k x)"
  shows "careful env True (with_op f fail_typed k)"
  unfolding careful_def
proof (intro allI impI)
  fix w w' res assume run: "with_op f fail_typed k w = (w', res)"
  obtain w1 r where f: "f w = (w1, r)" by (cases "f w")
  show "(\<not> True \<longrightarrow> w_store w' = w_store w) \<and> (cli_exit res = exitUsage \<longrightarrow> w_store w' = w_store w)
     \<and> (struct_ok (w_store w) \<and> ce_json env \<and> cli_exit res \<noteq> exitOK \<longrightarrow> wview w' = wview w)"
  proof (cases r)
    case (Inl e)
    then show ?thesis
      using run f assms(1) by (auto simp: with_op_def fail_typed_def exit_with_def exit_codes)
  next
    case (Inr x)
    then show ?thesis
      using run f assms(2) [of x] by (auto simp: prints_def with_op_def exit_with_def)
  qed
qed

lemma reads_keep_store:
  "w_store (fst (Service_GetDeadLetter t m w)) = w_store w"
  "w_store (fst (Service_ListDeadLetters srt req w)) = w_store w"
  "w_store (fst (Preview srt cfg w)) = w_store w"
  by (auto simp: Service_GetDeadLetter_def Service_ListDeadLetters_def from_store_def Preview_def store_at_run on_store_def
      OutboxRepository_SweepRetention_def GC_request_def Let_def split: prod.splits sum.splits)

lemma Round_failure: "Round srt cfg w = (w', Inl e) \<Longrightarrow> wview w' = wview w"
  by (auto simp: Round_def seq_op_def store_at_run on_store_def OutboxRepository_SweepRetention_def Let_def return_op_def
      wview_def GC_request_def split: prod.splits sum.splits)

lemma operator_failure:
  assumes "struct_ok (w_store w)"
  shows "Requeue marshal Background req w = (w', Inl e) \<Longrightarrow> wview w' = wview w"
    and "Discard marshal Background req w = (w', Inl e) \<Longrightarrow> wview w' = wview w"
  using operator_unit.outer_failure [OF assms, of Background] by (simp_all add: Requeue_def Discard_def mutate_def Background_def)

lemma done_exits: "prints env (mutation_done env action asJSON res)" "prints env (retention_done env del asJSON sw)"
  by (auto simp: mutation_done_def retention_done_def intro!: prints_exit)

lemma careful_retention_done [careful_rules]: "careful env b (retention_done env del asJSON sw)"
  using done_exits(2) [of env del asJSON sw] careful_exit unfolding prints_def by metis

lemma careful_mutate:
  "careful env (action \<noteq> actionDiscard \<or> mp_confirmed p) (deadLetterMutate env action p)"
proof -
  have 1: "careful env True (with_op (Requeue (ce_marshal env) Background req) fail_typed (mutation_done env a j))" for req a j
    by (rule careful_write [OF _ done_exits(1)]) (rule operator_failure)
  have 2: "careful env True (with_op (Discard (ce_marshal env) Background req) fail_typed (mutation_done env a j))" for req a j
    by (rule careful_write [OF _ done_exits(1)]) (rule operator_failure)
  show ?thesis
    unfolding deadLetterMutate_def
    by (rule careful_read [OF reads_keep_store(1)])
      (use 1 2 in \<open>auto simp: Let_def actionRequeue_def actionDiscard_def intro!: careful_rules\<close>)
qed

lemma careful_sweep: "careful env (del \<and> conf) (retentionSweep env cfg del conf asJSON)"
proof -
  have "careful env True (with_op (Round (ce_sort env) cfg) fail_typed (\<lambda>(res, _). retention_done env True asJSON res))"
    by (rule careful_write) (use Round_failure done_exits(2) in \<open>auto split: prod.splits\<close>)
  then show ?thesis
    by (auto simp: retentionSweep_def intro!: careful_rules careful_read [OF reads_keep_store(3)])
qed

lemma careful_list: "careful env b (runDeadLetterList env args)"
proof -
  have "careful env b (deadLetterList env req j)" for req j
    unfolding deadLetterList_def
    by (rule careful_read [OF reads_keep_store(2)]) (auto simp: encode_failed_def intro!: careful_rules)
  then show ?thesis
    by (auto simp: runDeadLetterList_def Let_def intro!: careful_rules split: option.splits)
qed

lemma careful_show: "careful env b (runDeadLetterShow env args)"
proof -
  have "careful env b (deadLetterShow env t m j)" for t m j
    unfolding deadLetterShow_def
    by (rule careful_read [OF reads_keep_store(1)]) (auto simp: encode_failed_def intro!: careful_rules)
  then show ?thesis
    by (auto simp: runDeadLetterShow_def intro!: careful_rules split: option.splits prod.splits)
qed

lemma careful_run_mutate:
  "careful env (action \<noteq> actionDiscard \<or> confirmed env mutateFlags args) (runDeadLetterMutate env args action)"
proof (cases "flag_Parse (ce_parseInt env) mutateFlags (fst (reorderPositionalsLast mutateFlags args)) []")
  case None
  then show ?thesis by (simp add: runDeadLetterMutate_def split_beta careful_exit)
next
  case (Some r)
  obtain vals more where r: "r = (vals, more)" by (cases r)
  have "careful env (action \<noteq> actionDiscard \<or> bool_flag vals ''yes'') (deadLetterMutate env action (p\<lparr>mp_confirmed := bool_flag vals ''yes''\<rparr>))" for p
    using careful_mutate [of env action "p\<lparr>mp_confirmed := bool_flag vals ''yes''\<rparr>"] by simp
  from this [of "\<lparr>mp_tenant = a, mp_message = b, mp_actor = c, mp_reason = d, mp_traceID = e, mp_asJSON = g, mp_confirmed = True\<rparr>" for a b c d e g]
  show ?thesis
    using Some r by (simp add: runDeadLetterMutate_def confirmed_def split_beta careful_exit careful_build)
qed

lemma careful_run_sweep: "careful env (del \<and> confirmed env retentionFlags args) (runRetentionSweep env args del)"
  using careful_sweep
  by (auto simp: runRetentionSweep_def confirmed_def intro!: careful_rules split: option.splits)

lemma careful_outbox: "careful env (mutating env args) (runOutbox env args)"
proof (cases args)
  case Nil
  then show ?thesis by (simp add: runOutbox_def careful_exit)
next
  case (Cons topic more)
  have dead: "careful env (mutating env (''dead-letter'' # more)) (runDeadLetter env more)"
  proof (cases more)
    case (Cons cmd rest)
    have "careful env True (runDeadLetterMutate env rest actionRequeue)"
        "careful env (confirmed env mutateFlags rest) (runDeadLetterMutate env rest actionDiscard)"
      using careful_run_mutate [of env actionRequeue rest] careful_run_mutate [of env actionDiscard rest]
      by (simp_all add: actionRequeue_def actionDiscard_def)
    then show ?thesis
      using Cons by (auto simp: mutating_def runDeadLetter_def intro!: careful_exit careful_list careful_show)
  qed (simp add: runDeadLetter_def careful_exit)
  have ret: "careful env (mutating env (''retention'' # more)) (runOutboxRetention env more)"
  proof (cases more)
    case (Cons cmd rest)
    then show ?thesis
      using careful_run_sweep [of env True rest] careful_run_sweep [of env False rest]
      by (auto simp: mutating_def runOutboxRetention_def intro!: careful_exit)
  qed (simp add: runOutboxRetention_def careful_exit)
  show ?thesis
    using Cons dead ret by (auto simp: runOutbox_def intro!: careful_exit)
qed

text \<open>
  C40: an outbox command changes the store only when it says so. A listing, a preview, a discard or a sweep
  without \<^verbatim>\<open>--yes\<close>, an unknown command or a malformed command line leaves the store as it was; so does
  every command that ends with the usage status; and a command that ends with an error status has
  left nothing a reader of the store can see, as long as its result can be printed.
\<close>

theorem unconfirmed_command_changes_nothing:
  assumes "runOutbox env args w = (w', res)"
  shows "(\<not> mutating env args \<longrightarrow> w_store w' = w_store w)
     \<and> (cli_exit res = exitUsage \<longrightarrow> w_store w' = w_store w)
     \<and> (struct_ok (w_store w) \<and> ce_json env \<and> cli_exit res \<noteq> exitOK \<longrightarrow> wview w' = wview w)"
  using careful_outbox [of env args] assms unfolding careful_def by blast

definition ex_cli :: cli_env where
  "ex_cli = \<lparr>ce_build = (\<lambda>_. Inr \<lparr>gc_DeliveredAfter = 5, gc_DiscardedAfter = 5, gc_BatchSize = 10, gc_Interval = Second\<rparr>),
     ce_parseInt = ParseInt64, ce_json = True, ce_encodeCursor = (\<lambda>_ i. i), ce_decodeCursor = (\<lambda>t. Some (0, t)),
     ce_marshal = (\<lambda>_. Inr []), ce_sort = insertion_sort\<rparr>"

theorem unconfirmed_command_changes_nothing_witness:
  "\<exists>w' dv dc. runOutbox ex_cli [''retention'', ''sweep'', ''--json''] ((ex_world ex_outbox)\<lparr>w_clock := \<lambda>_. 100\<rparr>)
       = (w', \<lparr>cli_exit = 2, cli_stdout = [], cli_stderr = [RefuseSweep dv dc 100]\<rparr>)
     \<and> w_store w' = ex_outbox"
proof -
  let ?w = "(ex_world ex_outbox)\<lparr>w_clock := \<lambda>_. 100\<rparr>"
  have parsed: "flag_Parse ParseInt64 retentionFlags (fst (reorderPositionalsLast retentionFlags [''--json''])) []
      = Some ([(''json'', VBool True)], [])"
    by (simp add: retentionFlags_def commonFlags_def Let_def)
  let ?cfg = "\<lparr>gc_DeliveredAfter = 5, gc_DiscardedAfter = 5, gc_BatchSize = 10, gc_Interval = Second\<rparr>"
  obtain dv dc where "sweep_victims insertion_sort (GC_request ?cfg True) 100 ex_outbox = (dv, dc)"
    by (cases "sweep_victims insertion_sort (GC_request ?cfg True) 100 ex_outbox")
  then have pv: "Preview insertion_sort ?cfg ?w = (?w\<lparr>w_ticks := 1\<rparr>,
      Inr \<lparr>rr_Cutoff = 100, rr_DeletedDelivered = int (length dv), rr_DeletedDiscarded = int (length dc)\<rparr>)"
    by (simp add: Preview_def store_at_run on_store_def OutboxRepository_SweepRetention_def
        RetentionSweepRequest_Validate_def GC_request_def MaxRetentionSweepBatch_def Let_def ex_world_def)
  obtain w' dv dc where run: "runOutbox ex_cli [''retention'', ''sweep'', ''--json''] ?w
      = (w', \<lparr>cli_exit = 2, cli_stdout = [], cli_stderr = [RefuseSweep dv dc 100]\<rparr>)"
    using parsed pv
    by (simp add: runOutbox_def runOutboxRetention_def runRetentionSweep_def ex_cli_def buildWorld_def retentionSweep_def
        bool_flag_def str_flag_def with_op_def exit_with_def exitUsage_def del: flag_Parse.simps reorderPositionalsLast.simps)
  from unconfirmed_command_changes_nothing [OF run] have "w_store w' = ex_outbox"
    by (simp add: exitUsage_def ex_world_def)
  with run show ?thesis by blast
qed

end
