(* ===== verification/Cli_Main.thy ===== *)
theory Cli_Main
  imports Cli_Outbox Migrations App_Config
begin

section \<open>The command line (internal/cli/cli.go)\<close>

text \<open>
  \<open>cli_Main\<close> dispatches one invocation. Loading the configuration and building the application are arguments
  here (they are modelled in \<open>App_Config\<close> and \<open>App_Build\<close>); so is what happens while the server runs. \<open>RunServe\<close>
  is the order in which the parts of a node are started and stopped: a list of what it did, the
  shutdown errors it collected and the exit code. The demo command is an argument.
\<close>

subsection \<open>Serving\<close>

datatype serve_act =
    StartServer | StartDispatcher | StartWorker | StartRetention
  | StopRetention | ShutdownServer | StopWorker | StopDispatcher

datatype drain_error = RetentionStuck | HTTPFailed | WorkerStuck | NoFinalDrain | DispatcherStuck

datatype serve_stop = ServerReturned "go_error option" | Signalled

record serve_env =
  se_ANTS_CONFIG :: string
  se_load :: "string \<Rightarrow> Config result"
  se_build :: "Config \<Rightarrow> unit result"
  se_newServer :: "Config \<Rightarrow> unit result"
  se_retentionActive :: bool
  se_stop :: serve_stop
  se_retentionDone :: bool
  se_shutdown :: "go_error option"
  se_workerDone :: bool
  se_dispatchDone :: bool

datatype main_line =
    UsageMain | VersionLine | ConfigUsage | ConfigValid | ConfigBad | MigrateUsage | NoDSN | MigrationFailed
  | AppliedLine string | PendingLine string | UpToDate
  | UnexpectedArgument string | FailedToStart | ServerFailed | ServerError | ShutdownFailed "drain_error list"
  | UnknownMain string | OutboxLine cli_line

record main_res =
  mn_exit :: int
  mn_stdout :: "main_line list"
  mn_stderr :: "main_line list"

definition main_with :: "int \<Rightarrow> main_line list \<Rightarrow> main_line list \<Rightarrow> main_res" where
  "main_with code out err = \<lparr>mn_exit = code, mn_stdout = out, mn_stderr = err\<rparr>"

text \<open>The parts of a node, started; then the wait; then the four phases of the shutdown.\<close>

definition serve_node :: "serve_env \<Rightarrow> serve_act list \<times> main_res" where
  "serve_node env =
     (let started = [StartServer, StartDispatcher, StartWorker] @ (if se_retentionActive env then [StartRetention] else []);
          serverFailed = (case se_stop env of ServerReturned (Some _) \<Rightarrow> True | _ \<Rightarrow> False);
          e1 = (if se_retentionActive env \<and> \<not> se_retentionDone env then [RetentionStuck] else []);
          e2 = (if se_shutdown env \<noteq> None then [HTTPFailed] else []);
          e3 = (if \<not> se_workerDone env then [WorkerStuck] else []);
          e4 = (if \<not> se_dispatchDone env then (if \<not> se_workerDone env then [NoFinalDrain] else [DispatcherStuck]) else []);
          drainErr = e1 @ e2 @ e3 @ e4;
          lines = (if serverFailed then [ServerError] else [])
      in (started @ [StopRetention, ShutdownServer, StopWorker, StopDispatcher],
          if drainErr \<noteq> [] then main_with exitFailure [] (lines @ [ShutdownFailed drainErr])
          else if serverFailed then main_with exitFailure [] lines
          else main_with exitOK [] lines))"

definition RunServe :: "serve_env \<Rightarrow> string list \<Rightarrow> serve_act list \<times> main_res" where
  "RunServe env args =
     (let args = (case args of a # rest \<Rightarrow> if a = ''serve'' then rest else args | [] \<Rightarrow> []) in
      case flag_Parse (\<lambda>_. None) [(''config'', StringFlag)] args [] of
        None \<Rightarrow> ([], main_with exitUsage [] [])
      | Some (vals, a # _) \<Rightarrow> ([], main_with exitUsage [] [UnexpectedArgument a])
      | Some (vals, []) \<Rightarrow>
          (let path = (if str_flag vals ''config'' = [] then se_ANTS_CONFIG env else str_flag vals ''config'') in
           case se_load env path of
             Inl _ \<Rightarrow> ([], main_with exitFailure [] [ConfigBad])
           | Inr cfg \<Rightarrow>
               (case se_build env cfg of
                  Inl _ \<Rightarrow> ([], main_with exitFailure [] [FailedToStart])
                | Inr _ \<Rightarrow>
                    (case se_newServer env cfg of
                       Inl _ \<Rightarrow> ([], main_with exitFailure [] [ServerFailed])
                     | Inr _ \<Rightarrow> serve_node env))))"

subsection \<open>The other commands\<close>

definition runConfig :: "(string \<Rightarrow> Config result) \<Rightarrow> string list \<Rightarrow> main_res" where
  "runConfig ld args =
     (case args of
        [] \<Rightarrow> main_with exitUsage [] [ConfigUsage]
      | cmd # rest \<Rightarrow>
          (if cmd \<noteq> ''validate'' then main_with exitUsage [] [ConfigUsage]
           else (case flag_Parse (\<lambda>_. None) [(''config'', StringFlag)] rest [] of
                   None \<Rightarrow> main_with exitUsage [] []
                 | Some (vals, _) \<Rightarrow>
                     (case ld (str_flag vals ''config'') of
                        Inl _ \<Rightarrow> main_with exitFailure [] [ConfigBad]
                      | Inr _ \<Rightarrow> main_with exitOK [ConfigValid] []))))"

text \<open>\<open>apply\<close> is \<open>applyMigrations\<close> on the database the connection string names.\<close>

definition runMigrate ::
  "(string \<Rightarrow> Config result) \<Rightarrow> (string \<Rightarrow> 'd mdb \<Rightarrow> 'd mdb \<times> (string list \<times> string list) result) \<Rightarrow> string list
   \<Rightarrow> 'd mdb \<Rightarrow> 'd mdb \<times> main_res" where
  "runMigrate ld apply args db =
     (case args of
        [] \<Rightarrow> (db, main_with exitUsage [] [MigrateUsage])
      | cmd # rest \<Rightarrow>
          (if cmd \<noteq> ''up'' then (db, main_with exitUsage [] [MigrateUsage])
           else (case flag_Parse (\<lambda>_. None) [(''config'', StringFlag), (''dsn'', StringFlag)] rest [] of
                   None \<Rightarrow> (db, main_with exitUsage [] [])
                 | Some (vals, _) \<Rightarrow>
                     (case ld (str_flag vals ''config'') of
                        Inl _ \<Rightarrow> (db, main_with exitFailure [] [ConfigBad])
                      | Inr cfg \<Rightarrow>
                          (let dsn = (if str_flag vals ''dsn'' = [] then stc_PostgresDSN (cfg_Store cfg) else str_flag vals ''dsn'') in
                           if dsn = [] then (db, main_with exitFailure [] [NoDSN])
                           else (case apply dsn db of
                                   (db', Inl _) \<Rightarrow> (db', main_with exitFailure [] [MigrationFailed])
                                 | (db', Inr (applied, pending)) \<Rightarrow>
                                     (db', main_with exitOK
                                        (map AppliedLine applied @ map PendingLine pending
                                         @ (if applied = [] \<and> pending = [] then [UpToDate] else [])) [])))))))"

record 'd main_env =
  me_serve :: serve_env
  me_cli :: cli_env
  me_apply :: "string \<Rightarrow> 'd mdb \<Rightarrow> 'd mdb \<times> (string list \<times> string list) result"
  me_demo :: "string list \<Rightarrow> main_res"

definition cli_Main :: "'d main_env \<Rightarrow> string list \<Rightarrow> 'd mdb \<times> world \<Rightarrow> ('d mdb \<times> world) \<times> main_res" where
  "cli_Main env args s =
     (case args of
        [] \<Rightarrow> (s, main_with exitUsage [] [UsageMain])
      | cmd # rest \<Rightarrow>
          (if cmd = ''version'' then (s, main_with exitOK [VersionLine] [])
           else if cmd = ''config'' then (s, runConfig (se_load (me_serve env)) rest)
           else if cmd = ''migrate'' then
             (case runMigrate (se_load (me_serve env)) (me_apply env) rest (fst s) of (db, res) \<Rightarrow> ((db, snd s), res))
           else if cmd = ''serve'' then (s, snd (RunServe (me_serve env) rest))
           else if cmd = ''demo'' then (s, me_demo env rest)
           else if cmd = ''outbox'' then
             (case runOutbox (me_cli env) rest (snd s) of
                (w, res) \<Rightarrow> ((fst s, w), main_with (cli_exit res) (map OutboxLine (cli_stdout res)) (map OutboxLine (cli_stderr res))))
           else if cmd = ''help'' \<or> cmd = ''-h'' \<or> cmd = ''--help'' then (s, main_with exitOK [UsageMain] [])
           else (s, main_with exitUsage [] [UnknownMain cmd, UsageMain])))"

subsection \<open>Laws\<close>

text \<open>
  A node that was started is shut down in a fixed order: destructive maintenance first, then the
  listener, then the worker, and the dispatcher last, so that the events of the last terminal writes
  can still be delivered. The process ends with success exactly when the server did not fail and every
  phase finished within the budget.
\<close>

lemma serve_node_shutdown:
  assumes "serve_node env = (acts, res)"
  shows "drop (length acts - 4) acts = [StopRetention, ShutdownServer, StopWorker, StopDispatcher]"
    and "mn_exit res = exitOK \<longleftrightarrow>
      (\<forall>e. se_stop env \<noteq> ServerReturned (Some e)) \<and> (se_retentionActive env \<longrightarrow> se_retentionDone env)
      \<and> se_shutdown env = None \<and> se_workerDone env \<and> se_dispatchDone env"
  using assms
  by (auto simp: serve_node_def Let_def main_with_def exit_codes split: serve_stop.splits option.splits if_splits)

text \<open>Nothing is started for a malformed command line, a bad configuration or a part that cannot be built.\<close>

lemma serve_starts_nothing_on_error:
  assumes "RunServe env args = (acts, res)" and "acts \<noteq> []"
  shows "\<exists>path cfg. se_load env path = Inr cfg \<and> se_build env cfg = Inr () \<and> se_newServer env cfg = Inr ()"
  using assms
  by (auto simp: RunServe_def Let_def simp del: flag_Parse.simps split: option.splits list.splits sum.splits if_splits; blast)

text \<open>A migration that ran to the end reports nothing pending.\<close>

lemma migrate_reports_complete:
  assumes "applyMigrations sql srt True True uh ch db = (db', Inr (applied, pending))"
    and "ch_ensure ch" and "ch_read ch" and "ch_dir ch = uh_dir uh"
  shows "pending = []"
proof -
  obtain db1 rep x where up: "Up sql srt uh db = (db1, rep, None)" "Current srt ch db1 = (db', Inr (x, pending))"
    using assms(1) by (auto simp: applyMigrations_def split: prod.splits option.splits sum.splits)
  show ?thesis using up_then_nothing_pending(1) [OF up(1) assms(2-4)] up(2) by auto
qed

end
