(* ===== verification/Spec2Isabelle.thy ===== *)
theory Spec2Isabelle
  imports Domain_Laws Mem_Repo_Laws Mem_Claim_Laws Mem_Outbox_Props Mem_Retention_Events Mem_Transactor
    World Policy_Engine Outbox_Services Dispatcher Run_Start Run_Recovery Run_Worker
    SCM_Laws Review_Laws Pipeline_Props Authn_Props PG_Claim_Refine PG_Outbox_Refine PG_Entity_Props
    Git_Local Sandbox_Drivers Polling Migrations Cli_Main
begin

text \<open>
  \<^bold>\<open>A verification library for ants, the control plane that runs coding agents.\<close>

  \<^bold>\<open>The program.\<close> A tenant's project has threads of messages; a start request turns a thread into
  a run. A run is claimed by one worker at a time under a fenced lease, is driven by the engine
  through planning, tasks, integration, verification and reporting, and ends in exactly one
  terminal state. Every state change appends an event; every event is also a row of a
  transactional outbox, which a dispatcher delivers at least once, with bounded retries toward a
  dead letter that an operator may requeue or discard and that retention finally removes. Every
  crossing of the sandbox boundary is decided by a closed policy table and audited. The store
  behind all of it has a deterministic in-memory adapter whose semantics the other adapters are
  tested against; that adapter is what most store theories model.

  \<^bold>\<open>The theories\<close>, bottom up (paths are under \<^verbatim>\<open>src/internal\<close>):

  \<^item> \<open>Ants_Prelude\<close>: instants and durations (nanoseconds as unbounded integers), Go maps as
    association lists with lookup laws, state-passing operations (\<open>seq_op\<close>) and the relation
    combinator \<open>op_rel\<close>, and the contract of \<^verbatim>\<open>sort.Slice\<close> as the locale \<open>sort_slice\<close>, interpreted
    on an insertion sort.
  \<^item> \<open>Domain_Errors\<close>, \<open>Domain_Ids\<close>, \<open>Domain_States\<close>, \<open>Domain_Entities\<close>, \<open>Domain_Runs\<close>, \<open>Domain_Laws\<close>
    (domain/): the error values and their classification, identifiers and tokens over an entropy
    argument, the eight transition tables, every entity with its constructor, validator and
    mutators, and their laws: tables are closed and the run lifecycle ends, a transition is
    counted by the version, a run finishes once, a ledger never overspends.
  \<^item> \<open>Mem_State\<close>, \<open>Mem_Repos\<close>, \<open>Mem_Repo_Laws\<close> (store/memory): the store record with one field per
    collection, and every entity repository. Updates are version-guarded, so of racing updates
    one wins; foreign rows are indistinguishable from missing ones; run history pages are stable.
    The locale \<open>slot_system\<close> is the shared contract of the parts made of independent slots.
  \<^item> \<open>Ports_Requests\<close> (ports/, correlation/): request values and their validators.
  \<^item> \<open>Mem_Claims\<close>, \<open>Mem_Claim_Laws\<close> (store/memory/runclaims.go): the claim operations refine the
    machine \<open>claim_move\<close> of one claim; the locale \<open>claim_server\<close> carries the laws of every
    interleaving of calls.
  \<^item> \<open>Mem_Outbox\<close>, \<open>Mem_Outbox_Laws\<close>, \<open>Mem_Outbox_Props\<close>, \<open>Mem_Retention_Events\<close>
    (store/memory/outbox.go, events.go): rows live in an explicit heap because the code mutates
    them through three aliasing views; the operations refine the machine \<open>row_move\<close> of one row;
    the locale \<open>outbox_server\<close> carries the laws of every interleaving.
  \<^item> \<open>Mem_Transactor\<close>, \<open>World\<close> (store/memory/snapshot.go, transactor.go, ports/system.go): backup,
    restore, and units of work over a world of store, clock readings and random buffers. The frame
    condition of every repository operation is proved once (\<open>wframes\<close>); the locale \<open>unit_of_work\<close>
    turns it into atomicity and is interpreted on every unit the services run.
  \<^item> \<open>Policy_Engine\<close> (policy/engine.go), \<open>Outbox_Services\<close> (outboxops/service.go, outboxgc/service.go),
    \<open>Dispatcher\<close> (outbox/dispatcher.go, whose backoff is computed on 64-bit words).
  \<^item> \<open>Run_Engine\<close>, \<open>Run_Start\<close>, \<open>Run_Recovery\<close> (orchestration/engine.go, recovery.go, exhausted.go):
    starting a run, whose idempotency key stays spent through every later change of the tables (\<open>later_store\<close>),
    the guarded transitions with their events, and the convergence of abandoned and exhausted runs, proved to return.
  \<^item> \<open>Go_Strings\<close>: the functions of package strings the components use, with their laws.
  \<^item> \<open>SCM_Memory\<close>, \<open>SCM_Laws\<close> (scm/memory.go, scm/diff.go): the in-process source control driver. Its
    histories are well formed, the merge base is the latest common ancestor, the merge is three-way.
  \<^item> \<open>Planner\<close>, \<open>Reviewer\<close>, \<open>Review_Laws\<close> (planner/planner.go, review/review.go): the planner's catalog and
    plans; the review with its regular expressions as terms of a small expression language. A plan is
    declared work, the verdict means what the gate promises, a forbidden line cannot hide.
  \<^item> \<open>Pipeline_State\<close>, \<open>Run_Pipeline\<close>, \<open>Pipeline_Tasks\<close>, \<open>Pipeline_Stages\<close> (orchestration/execute.go,
    integrate.go, helpers.go, artifacts.go): one execution of a run, from \<^verbatim>\<open>Execute\<close> down to the retry
    loops, over a state that holds the engine's \<^verbatim>\<open>runState\<close>, the world and the driver.
  \<^item> \<open>Pipeline_Laws\<close>, \<open>Pipeline_Ends\<close>, \<open>Pipeline_Example\<close>, \<open>Pipeline_Props\<close>: the locales \<open>step_relation\<close>,
    \<open>exec_relation\<close>, \<open>pipe_relation\<close> and \<open>open_relation\<close> carry a relation from the basic steps to the
    whole execution; they are interpreted on the branches and on the budget. Failing a run is shown
    to end it where the engine's copy is current, and to leave the store alone where another epoch has written
    the run. The example execution is what the witnesses are stated on.
  \<^item> \<open>Run_Worker\<close> (worker/worker.go): what a worker does with an acquired claim, for every
    interleaving of engine steps, heartbeats and shutdown.

  \<^item> \<open>Go_Parse\<close>, \<open>App_Config\<close>, \<open>App_Build\<close>, \<open>App_Laws\<close> (config/config.go, config/loader.go, app/app.go): the
    configuration with its defaults, validation and environment, and the wiring of a node. A node is built
    exactly when the configuration is valid, the few checks that only the constructors make pass (\<open>drivers_agree\<close>, \<open>work_root_ok\<close>,
    the node's name) and the machine answers.
  \<^item> \<open>Http_Server\<close>, \<open>Http_Routes\<close> (server/): every handler over the world, the route table, and the chain of
    gate, recovery, log and metrics around it. \<open>Http_Laws\<close>, \<open>Http_Gate\<close>, \<open>Http_Isolation\<close>: routes do not overlap,
    cursors round-trip, every request is accounted for, the locale \<open>gate\<close> states what the server relies on
    in an authenticator, and the requests of one tenant neither read nor touch another tenant's rows
    (\<open>same_for\<close>: what a read of a tenant depends on; \<open>untouched\<close>: a tenant's rows in every table).
  \<^item> \<open>Authn_Bearer\<close>, \<open>Authn_Laws\<close>, \<open>Authn_Props\<close> (authn/, cli/serve.go): the OIDC authenticator with its cached key set,
    interpreted as a \<open>gate\<close>, and the server a node wires from its configuration. There is no principal without
    a token verified, at an instant of the request, by a key the configured provider published (\<open>keys_from\<close>); forced key refreshes are spaced, and a node's store only changes for a verified caller.
  \<^item> \<open>PG_Store\<close>, \<open>PG_Sessions\<close> (store/postgres/store.go): sessions, statements and units of work on tables that other
    sessions write too. The locale \<open>session_system\<close> turns a vocabulary of statements into rely and guarantee: a method
    interleaved with others, in a unit of work or not, is a run of statements.
  \<^item> \<open>PG_Claims\<close>, \<open>PG_Claim_Laws\<close>, \<open>PG_Claim_Refine\<close> (store/postgres/runclaims.go): the claim repository as the sequence of its SQL
    statements. The statements are an instance of the locale \<open>claim_machine\<close>, the contract of a table of claims that the memory
    adapter has too, so a lease is exclusive between sessions that interleave statement by statement; on an
    undisturbed connection every sequence of calls is answered as by the memory adapter at the instants the timestamp columns keep: the
    code passes nanoseconds and the columns keep microseconds, so the resolution (\<open>cn_ts\<close>) is an argument.
  \<^item> \<open>PG_Outbox\<close>, \<open>PG_Outbox_Laws\<close>, \<open>PG_Operator\<close>, \<open>PG_Outbox_Refine\<close> (store/postgres/outbox.go): the same for the outbox, whose
    statements are an instance of \<open>outbox_machine\<close>: leased messages are exclusive between sessions, an operator's credential acts
    once although the code looks before it updates, and every sequence of undisturbed calls is answered as by the memory adapter
    holding the envelopes and instants as the columns keep them.
  \<^item> \<open>PG_Entities\<close>, \<open>PG_Entity_Laws\<close>, \<open>PG_Entity_Props\<close> (the other repositories of store/postgres): tenants, projects, threads, specifications,
    runs, tasks, workspaces, artifacts, audit, policy decisions, integrations and events, with the constraints of the schema. The locale
    \<open>versioned_table\<close> is the contract of a table with versions; its five instances give one winner per version between sessions.
    An event and its delivery are written together or not at all.
  \<^item> \<open>Go_Paths\<close>, \<open>Git_Local\<close>, \<open>Sandbox_Drivers\<close> (scm/localgit.go, sandbox/): the drivers that act on the machine, as the calls they make of
    it; the machine answers as it likes. Files are written only below a workspace (deletions are not checked by the git driver:
    \<open>deletion_escapes\<close>), git is only asked for the driver's eleven subcommands, and only listed commands are started, in live
    sandboxes of the driver.
  \<^item> \<open>Polling\<close> (the \<^verbatim>\<open>Run\<close> loops of outbox/dispatcher.go, outboxgc/service.go, worker/worker.go): a loop over any history of ticks; the
    locale \<open>poll_service\<close> carries a preorder from its rounds to the loop and is interpreted on the dispatcher and on retention, whose
    rounds are outbox calls. The dispatcher loses no message, and acknowledges only what its destination accepts.
  \<^item> \<open>Migrations\<close> (\<^verbatim>\<open>src/db\<close>, store/migrate, cli/serve.go): loading and applying the schema; concurrent appliers are the step
    relation \<open>mig_step\<close>.
  \<^item> \<open>Cli_Outbox\<close>, \<open>Cli_Main\<close> (cli/outbox.go, cli/cli.go): the commands over the flag package, what they may change and how they exit, and
    the order in which a node is started and stopped.

  \<^bold>\<open>Conventions.\<close> A repository method holds the store's mutex, so it is one step: a function from
  the state (and the instant it read) to the state and a result, \<open>Inl\<close> an error. Concurrent
  callers are sequences of calls (\<open>run_calls\<close>), each with its own clock reading; no property
  assumes the clock to be monotone unless it says so. Errors keep their kind, code and cause; the
  message text is not modelled, except where the code stores it, and then it is an argument. Code
  outside the sources is an argument: the entropy source, \<^verbatim>\<open>sort.Slice\<close> (under its contract),
  JSON encoding of an event, the SHA-256 digest, the \<^verbatim>\<open>Error()\<close> text, the sink of the dispatcher,
  YAML decoding, lower-casing, the identity provider and signature verification, the answers of the sandbox, whether the context is cancelled at each look.
  Attempt counts, versions and sequence numbers are unbounded integers: they grow by one per
  operation and stay far from \<open>2 ^ 63\<close>; the shifted backoff durations are 64-bit words. There is
  no fuel: every loop is structural recursion over the data it walks, or, for the retry loop of a task
  and the walks over a commit graph, a function with a termination proof.

  \<^bold>\<open>What is not modelled.\<close> The tasks of one execution run one after the other, in an arbitrary order:
  the interleavings of a parallelism above one are not modelled. In the worker theory an execution is
  an arbitrary sequence of steps (\<open>exec_event\<close>); the claims of a worker's batch are settled in an arbitrary order. Of the HTTP server, the listener,
  the optional interfaces of the response writer and the JSON text of a body are the library's. Of the
  PostgreSQL adapter the behaviour of one SQL statement under READ COMMITTED is written out; identifiers and owners of claims are taken to be
  valid text, a unit of work ends with its first failing statement, an answer arrives whole or not at all, and the row locks of an open unit of work
  are not modelled. What git and the processes of a sandbox do is not modelled, only what they are asked to do; containment of
  paths is lexical, as in the code. Migration files are their effect on a schema. The demo command, metrics, fixtures,
  the log sink and test support are outside: they are input/output, glue or demonstration data.
\<close>

end
